(* ===== verification/JsPrelude.thy ===== *)
theory JsPrelude
  imports Main "HOL-Library.AList" "HOL-Library.Sublist" "HOL-Library.Multiset"
begin

text \<open>
  What the components share: the parts of the JavaScript standard library the sources call
  (string trimming and case folding, prefixes and suffixes, insertion-ordered maps), the
  truthiness tests on optional values, and the interfaces the components share.

  A \<open>char\<close> of the model stands for one UTF-16 code unit below 256; every test the code
  makes on characters is against ASCII or Latin-1 whitespace. Epoch milliseconds, counts and
  durations are \<open>int\<close> or \<open>nat\<close>: the code keeps them far below 2^53, where
  JavaScript numbers are exact.

  \<^item> \<open>keyed_store\<close> is the contract of a JavaScript \<^verbatim>\<open>Map\<close>: what \<open>get\<close> returns after
    \<open>set\<close> and \<open>delete\<close>, and what both do to the key list. It is interpreted on insertion
    ordered association lists, the model of every \<^verbatim>\<open>Map\<close> in this development.
  \<^item> \<open>guarded_system\<close> is the contract of a component driven by events: an initial state, a
    step, and an invariant every step keeps. The stateful components interpret it and take
    from it that the invariant holds after any sequence of events. \<open>growing_system\<close> extends
    it by a record of results that no step takes back.
  \<^item> \<open>memo_table\<close> is the contract of the table of a cache, whose answers are those of the cached function.
  \<^item> \<open>permitted_system\<close> is that of a component whose invariant the permitted calls keep.
\<close>

named_theorems js_string \<open>unfolding of the JavaScript string operations\<close>
named_theorems store_law \<open>what a lookup returns after an update of an ordered map\<close>

subsection \<open>Strings\<close>

definition js_space :: "char \<Rightarrow> bool" where
  "js_space c \<longleftrightarrow> (of_char c :: nat) \<in> set [9, 10, 11, 12, 13, 32, 160]"

definition js_trim :: "string \<Rightarrow> string" where
  "js_trim s = rev (dropWhile js_space (rev (dropWhile js_space s)))"

definition js_lower_char :: "char \<Rightarrow> char" where
  "js_lower_char c =
     (let n = (of_char c :: nat)
      in if (65 \<le> n \<and> n \<le> 90) \<or> (192 \<le> n \<and> n \<le> 222 \<and> n \<noteq> 215) then char_of (n + 32) else c)"

text \<open>On a character given by its bits the tests are boolean formulas; evaluation by \<open>code_simp\<close> uses these.\<close>

lemma js_space_bits [code]:
  "js_space (Char b0 b1 b2 b3 b4 b5 b6 b7) \<longleftrightarrow> \<not> b4 \<and> \<not> b6 \<and>
     (if b5 then \<not> b0 \<and> \<not> b1 \<and> \<not> b2 \<and> \<not> b3 else \<not> b7 \<and> b3 \<and> (if b2 then \<not> b1 else b1 \<or> b0))"
  by (cases b0; cases b1; cases b2; cases b3; cases b4; cases b5; cases b6; cases b7; simp add: js_space_def)

lemma js_lower_char_bits [code]:
  "js_lower_char (Char b0 b1 b2 b3 b4 b5 b6 b7) =
     (if b6 \<and> \<not> b5 \<and> (if b7 then \<not> (b0 \<and> b1 \<and> b2 \<and> b4) else (b0 \<or> b1 \<or> b2 \<or> b3 \<or> b4) \<and> \<not> (b4 \<and> b3 \<and> (b2 \<or> b1 \<and> b0)))
      then Char b0 b1 b2 b3 b4 True b6 b7 else Char b0 b1 b2 b3 b4 b5 b6 b7)"
  by (cases b0; cases b1; cases b2; cases b3; cases b4; cases b5; cases b6; cases b7; simp add: js_lower_char_def char_of_def bit_0)

lemma js_space_lower [simp]: "js_space (js_lower_char c) = js_space c"
  by (auto simp: js_space_def js_lower_char_def Let_def)

definition js_lower :: "string \<Rightarrow> string" where
  "js_lower s = map js_lower_char s"

definition starts_with :: "string \<Rightarrow> string \<Rightarrow> bool" where
  "starts_with p s \<longleftrightarrow> prefix p s"

definition ends_with :: "string \<Rightarrow> string \<Rightarrow> bool" where
  "ends_with p s \<longleftrightarrow> suffix p s"

lemmas [js_string] = js_trim_def js_lower_def starts_with_def ends_with_def

lemma starts_with_iff: "starts_with p s \<longleftrightarrow> (\<exists>r. s = p @ r)"
  by (simp add: starts_with_def prefix_def)

lemma ends_with_iff: "ends_with p s \<longleftrightarrow> (\<exists>r. s = r @ p)"
  by (simp add: ends_with_def suffix_def)

lemma dropWhile_not_hd: "dropWhile P xs = y # ys \<Longrightarrow> \<not> P y"
  by (induction xs) (auto split: if_splits)

lemma dropWhile_idem: "dropWhile P (dropWhile P xs) = dropWhile P xs"
  by (induction xs) auto

lemma dropWhile_fixpoint: "dropWhile P xs = xs \<longleftrightarrow> xs = [] \<or> \<not> P (hd xs)"
proof (cases xs)
  case (Cons y ys)
  have "length (dropWhile P ys) \<le> length ys" by (rule length_dropWhile_le)
  then have "dropWhile P ys \<noteq> y # ys" by (auto dest: arg_cong [where f = length])
  with Cons show ?thesis by auto
qed simp

text \<open>Trimming twice is trimming once; a trimmed string has no space at either end.\<close>

lemma dropWhile_rev_dropWhile:
  "dropWhile P (rev (dropWhile P (rev (dropWhile P xs)))) = rev (dropWhile P (rev (dropWhile P xs)))"
proof -
  let ?ys = "dropWhile P xs"
  obtain zs where split: "?ys = rev (dropWhile P (rev ?ys)) @ zs"
    by (metis rev_append rev_rev_ident takeWhile_dropWhile_id)
  show ?thesis
  proof (cases "rev (dropWhile P (rev ?ys))")
    case (Cons y ys)
    then have "hd ?ys = y" using split by (metis append_Cons list.sel(1))
    moreover have "?ys \<noteq> []" using split Cons by force
    ultimately have "\<not> P y" by (metis hd_dropWhile)
    then show ?thesis using Cons by simp
  next
    case Nil
    then show ?thesis by (simp only: Nil dropWhile.simps)
  qed
qed

lemma js_trim_idem [simp]: "js_trim (js_trim s) = js_trim s"
  by (simp add: js_trim_def dropWhile_rev_dropWhile dropWhile_idem)

lemma js_trim_empty: "js_trim s = [] \<longleftrightarrow> (\<forall>c \<in> set s. js_space c)"
  by (auto simp: js_trim_def dropWhile_eq_Nil_conv dest!: set_dropWhileD)
    (metis Un_iff set_append takeWhile_dropWhile_id set_takeWhileD)

lemma js_trim_Nil [simp]: "js_trim [] = []"
  by (simp add: js_trim_def)

text \<open>\<^verbatim>\<open>String(n)\<close> of an integer, and \<^verbatim>\<open>Number.parseInt(s, 10)\<close>, which reads the longest numeral after
  leading space and is NaN (\<open>None\<close>) when there is none.\<close>

definition is_digit :: "char \<Rightarrow> bool" where
  "is_digit c \<longleftrightarrow> 48 \<le> (of_char c :: nat) \<and> (of_char c :: nat) \<le> 57"

lemma is_digit_bits [code]:
  "is_digit (Char b0 b1 b2 b3 b4 b5 b6 b7) \<longleftrightarrow> \<not> b7 \<and> \<not> b6 \<and> b5 \<and> b4 \<and> (if b3 then \<not> b2 \<and> \<not> b1 else True)"
  by (cases b0; cases b1; cases b2; cases b3; cases b4; cases b5; cases b6; cases b7; simp add: is_digit_def)

fun show_nat :: "nat \<Rightarrow> string" where
  "show_nat n = (if n < 10 then [char_of (48 + n)] else show_nat (n div 10) @ [char_of (48 + n mod 10)])"

declare show_nat.simps [simp del]

definition show_int :: "int \<Rightarrow> string" where
  "show_int i = (if i < 0 then CHR ''-'' # show_nat (nat (- i)) else show_nat (nat i))"

definition digits_value :: "string \<Rightarrow> nat" where
  "digits_value ds = foldl (\<lambda>v c. 10 * v + (of_char c - 48)) 0 ds"

definition parse_int10 :: "string \<Rightarrow> int option" where
  "parse_int10 s =
     (let t = dropWhile js_space s;
          (neg, u) = (case t of c # cs \<Rightarrow> if c = CHR ''-'' then (True, cs) else if c = CHR ''+'' then (False, cs) else (False, t)
                      | [] \<Rightarrow> (False, []));
          ds = takeWhile is_digit u
      in if ds = [] then None else Some (if neg then - int (digits_value ds) else int (digits_value ds)))"

lemma show_nat_digits: "\<forall>c \<in> set (show_nat n). is_digit c"
proof (induction n rule: show_nat.induct)
  case (1 n)
  then show ?case by (subst show_nat.simps) (auto simp: is_digit_def)
qed

lemma show_nat_not_empty [simp]: "show_nat n \<noteq> []"
  by (subst show_nat.simps) simp

lemma digits_value_show: "digits_value (show_nat n) = n"
proof (induction n rule: show_nat.induct)
  case (1 n)
  have snoc: "digits_value (ds @ [c]) = 10 * digits_value ds + (of_char c - 48)" for ds c
    by (simp add: digits_value_def)
  show ?case
  proof (cases "n < 10")
    case True
    then show ?thesis by (subst show_nat.simps) (simp add: digits_value_def)
  next
    case False
    have "(of_char (char_of (48 + n mod 10) :: char) :: nat) = 48 + n mod 10" by simp
    then show ?thesis using 1 False by (subst show_nat.simps) (simp add: snoc)
  qed
qed

lemma parse_show_int: "parse_int10 (show_int i) = Some i"
proof -
  have tw: "takeWhile is_digit (show_nat n) = show_nat n" for n
    using show_nat_digits by (simp add: takeWhile_eq_all_conv)
  have hd: "\<exists>c cs. show_nat n = c # cs \<and> is_digit c" for n
    using show_nat_digits [of n] by (cases "show_nat n") auto
  have sp: "\<not> js_space c \<and> c \<noteq> CHR ''-'' \<and> c \<noteq> CHR ''+''" if "is_digit c" for c
    using that by (auto simp: is_digit_def js_space_def)
  show ?thesis
  proof (cases "i < 0")
    case True
    have "\<not> js_space CHR ''-''" by (simp add: js_space_def)
    then show ?thesis using True by (simp add: show_int_def parse_int10_def digits_value_show tw Let_def)
  next
    case False
    obtain c cs where c: "show_nat (nat i) = c # cs" "is_digit c" using hd by blast
    then have "dropWhile js_space (show_nat (nat i)) = show_nat (nat i)" using sp by simp
    moreover have t: "takeWhile is_digit cs = cs" using tw [of "nat i"] c by simp
    ultimately show ?thesis using False c sp [OF c(2)] digits_value_show [of "nat i"]
      by (simp add: show_int_def parse_int10_def Let_def t)
  qed
qed

subsection \<open>Lists\<close>

lemma sorted_le_last: "sorted xs \<Longrightarrow> a \<in> set xs \<Longrightarrow> a \<le> last xs" for a :: "'a::linorder"
  by (induction xs) (auto split: if_splits)

text \<open>Records with distinct identities: searching for one, and taking it out.\<close>

lemma find_by_id: "distinct (map f xs) \<Longrightarrow> r \<in> set xs \<Longrightarrow> List.find (\<lambda>x. f x = f r) xs = Some r"
proof (induction xs)
  case (Cons x xs)
  show ?case
  proof (cases "x = r")
    case False
    then have "r \<in> set xs" using Cons.prems by simp
    then have "f x \<noteq> f r" using Cons.prems(1) by (metis distinct.simps(2) image_eqI image_set list.simps(9))
    then show ?thesis using Cons \<open>r \<in> set xs\<close> by simp
  qed simp
qed simp

lemma find_SomeD: "List.find P xs = Some x \<Longrightarrow> x \<in> set xs \<and> P x"
  by (induction xs) (auto split: if_splits)

lemma filter_out_id: "f w \<notin> f ` set xs \<Longrightarrow> filter (\<lambda>v. f v \<noteq> f w) xs = xs"
  by (induction xs) auto

lemma filter_out_unique:
  "distinct (map f (xs @ w # ys)) \<Longrightarrow> filter (\<lambda>v. f v \<noteq> f w) (xs @ w # ys) = xs @ ys"
  by (simp add: filter_out_id)

lemma same_id: "distinct (map f xs) \<Longrightarrow> x \<in> set xs \<Longrightarrow> y \<in> set xs \<Longrightarrow> f x = f y \<Longrightarrow> x = y"
  by (auto simp: distinct_map dest: inj_onD)

subsection \<open>Optional values\<close>

text \<open>\<^verbatim>\<open>value ?? fallback\<close>, and the truthiness of an optional string.\<close>

definition coalesce :: "'a option \<Rightarrow> 'a \<Rightarrow> 'a" where
  "coalesce x d = (case x of None \<Rightarrow> d | Some v \<Rightarrow> v)"

lemma coalesce_simps [simp]: "coalesce None d = d" "coalesce (Some v) d = v"
  by (simp_all add: coalesce_def)

definition or_else :: "'a option \<Rightarrow> 'a option \<Rightarrow> 'a option" where
  "or_else x y = (case x of None \<Rightarrow> y | Some v \<Rightarrow> Some v)"

lemma or_else_simps [simp]: "or_else None y = y" "or_else (Some v) y = Some v"
  by (simp_all add: or_else_def)

definition truthy_string :: "string option \<Rightarrow> bool" where
  "truthy_string x = (case x of None \<Rightarrow> False | Some s \<Rightarrow> s \<noteq> [])"

lemma truthy_string_simps [simp]:
  "\<not> truthy_string None" "truthy_string (Some s) \<longleftrightarrow> s \<noteq> []"
  by (simp_all add: truthy_string_def)

subsection \<open>Insertion-ordered maps\<close>

text \<open>
  A JavaScript \<^verbatim>\<open>Map\<close> enumerates its keys in insertion order; \<^verbatim>\<open>set\<close> on a present key keeps
  its place. \<^const>\<open>AList.update\<close> and \<^const>\<open>AList.delete\<close> do exactly this to an association
  list with distinct keys.
\<close>

type_synonym ('k, 'v) js_map = "('k \<times> 'v) list"

definition map_ok :: "('k, 'v) js_map \<Rightarrow> bool" where
  "map_ok m \<longleftrightarrow> distinct (map fst m)"

locale keyed_store =
  fixes get :: "'m \<Rightarrow> 'k \<Rightarrow> 'v option"
    and put :: "'k \<Rightarrow> 'v \<Rightarrow> 'm \<Rightarrow> 'm"
    and del :: "'k \<Rightarrow> 'm \<Rightarrow> 'm"
    and keys :: "'m \<Rightarrow> 'k list"
    and ok :: "'m \<Rightarrow> bool"
  assumes get_put: "get (put k v m) = (get m)(k \<mapsto> v)"
    and get_del: "get (del k m) = (get m)(k := None)"
    and keys_get: "set (keys m) = dom (get m)"
    and ok_put: "ok m \<Longrightarrow> ok (put k v m)"
    and ok_del: "ok m \<Longrightarrow> ok (del k m)"
    and ok_distinct: "ok m \<Longrightarrow> distinct (keys m)"
begin

lemma get_put_same: "get (put k v m) k = Some v"
  by (simp add: get_put)

lemma get_put_other: "k' \<noteq> k \<Longrightarrow> get (put k v m) k' = get m k'"
  by (simp add: get_put)

lemma get_del_same: "get (del k m) k = None"
  by (simp add: get_del)

lemma get_del_other: "k' \<noteq> k \<Longrightarrow> get (del k m) k' = get m k'"
  by (simp add: get_del)

lemma size_put:
  assumes "ok m"
  shows "length (keys (put k v m)) = length (keys m) + (if get m k = None then 1 else 0)"
proof -
  have "length (keys (put k v m)) = card (dom (get (put k v m)))"
    using assms by (metis distinct_card keys_get ok_distinct ok_put)
  moreover have "length (keys m) = card (dom (get m))"
    using assms by (metis distinct_card keys_get ok_distinct)
  moreover have "finite (dom (get m))" by (metis List.finite_set keys_get)
  ultimately show ?thesis by (auto simp: get_put card_insert_if)
qed

lemma size_del_le:
  assumes "ok m"
  shows "length (keys (del k m)) \<le> length (keys m)"
proof -
  have "dom (get (del k m)) \<subseteq> dom (get m)" by (auto simp: get_del split: if_splits)
  moreover have "finite (dom (get m))" by (metis List.finite_set keys_get)
  ultimately have "card (dom (get (del k m))) \<le> card (dom (get m))" by (simp add: card_mono)
  then show ?thesis using assms by (metis distinct_card keys_get ok_del ok_distinct)
qed

end

lemma map_ok_update: "map_ok m \<Longrightarrow> map_ok (AList.update k v m)"
  by (simp add: map_ok_def distinct_update)

lemma map_ok_delete: "map_ok m \<Longrightarrow> map_ok (AList.delete k m)"
  by (simp add: map_ok_def distinct_delete)

interpretation jsm: keyed_store map_of AList.update AList.delete "map fst" map_ok
proof unfold_locales
  show "set (map fst m) = dom (map_of m)" for m :: "('a \<times> 'b) list"
    by (simp add: dom_map_of_conv_image_fst)
qed (simp_all add: update_conv' delete_conv' map_ok_update map_ok_delete, simp add: map_ok_def)

lemmas [store_law] = jsm.get_put_same jsm.get_put_other jsm.get_del_same jsm.get_del_other

lemma map_ok_Nil [simp]: "map_ok []"
  by (simp add: map_ok_def)

lemma map_of_in_set: "map_of m k = Some v \<Longrightarrow> (k, v) \<in> set m"
  by (rule map_of_SomeD)

lemma map_ok_map_of: "map_ok m \<Longrightarrow> (k, v) \<in> set m \<Longrightarrow> map_of m k = Some v"
  by (simp add: map_ok_def map_of_is_SomeI)

lemma map_ok_filter: "map_ok m \<Longrightarrow> map_ok (filter P m)"
  unfolding map_ok_def by (induction m) auto

lemma map_of_filter_key:
  "map_ok m \<Longrightarrow>
   map_of (filter P m) k = (case map_of m k of None \<Rightarrow> None | Some v \<Rightarrow> if P (k, v) then Some v else None)"
  unfolding map_ok_def
  by (induction m) (auto split: option.splits simp: map_of_eq_None_iff image_iff)

text \<open>What an update does to the multiset of things collected from the entries.\<close>

lemma update_absent: "map_of m k = None \<Longrightarrow> AList.update k v m = m @ [(k, v)]"
  by (induction m) (auto split: if_splits)

lemma mset_concat_update_absent:
  "map_of m k = None \<Longrightarrow>
   mset (concat (map f (AList.update k v m))) = mset (concat (map f m)) + mset (f (k, v))"
  by (simp add: update_absent)

lemma mset_concat_update:
  "map_of m k = Some v0 \<Longrightarrow>
   mset (concat (map f (AList.update k v m))) + mset (f (k, v0)) = mset (concat (map f m)) + mset (f (k, v))"
proof (induction m)
  case (Cons a m)
  then show ?case by (cases a) (auto split: if_splits simp: ac_simps)
qed simp

lemma mset_concat_delete:
  "map_ok m \<Longrightarrow> map_of m k = Some v \<Longrightarrow>
   mset (concat (map f (AList.delete k m))) + mset (f (k, v)) = mset (concat (map f m))"
proof (induction m)
  case (Cons a m)
  obtain k' v' where a: "a = (k', v')" by fastforce
  have "map_ok m" using Cons.prems(1) by (simp add: map_ok_def)
  show ?case
  proof (cases "k' = k")
    case True
    then have "AList.delete k m = m" using Cons.prems(1) by (simp add: map_ok_def a)
    then show ?thesis using Cons.prems True by (simp add: a)
  next
    case False
    then show ?thesis using Cons.IH [OF \<open>map_ok m\<close>] Cons.prems(2) by (simp add: a ac_simps)
  qed
qed simp

lemma map_update_same: "map_of m k = Some v0 \<Longrightarrow> g v = g v0 \<Longrightarrow> map (g \<circ> snd) (AList.update k v m) = map (g \<circ> snd) m"
  by (induction m) auto

subsection \<open>Caches\<close>

text \<open>
  A cache of the results of a function: a hit is answered from the table, a miss computes the result and
  stores it. \<open>memo_table\<close> is the contract of the storing routine: it adds nothing but the new entry and
  keeps the table within its limit. It follows that the cache is invisible in the answers.
\<close>

definition memo_get :: "('k \<Rightarrow> 'v) \<Rightarrow> ('k \<Rightarrow> 'v \<Rightarrow> ('k, 'v) js_map \<Rightarrow> ('k, 'v) js_map) \<Rightarrow> 'k \<Rightarrow> ('k, 'v) js_map
    \<Rightarrow> 'v \<times> ('k, 'v) js_map" where
  "memo_get compute store k m =
     (case map_of m k of Some v \<Rightarrow> (v, m) | None \<Rightarrow> (compute k, store k (compute k) m))"

definition memo_ok :: "('k \<Rightarrow> 'v \<Rightarrow> bool) \<Rightarrow> ('k, 'v) js_map \<Rightarrow> bool" where
  "memo_ok P m \<longleftrightarrow> (\<forall>(k, v) \<in> set m. P k v)"

definition memo_sound :: "('k \<Rightarrow> 'v) \<Rightarrow> ('k, 'v) js_map \<Rightarrow> bool" where
  "memo_sound compute m \<longleftrightarrow> (\<forall>(k, v) \<in> set m. v = compute k)"

lemma memo_sound_Nil [simp]: "memo_sound compute []"
  by (simp add: memo_sound_def)

lemma memo_soundD: "memo_sound compute m \<Longrightarrow> map_of m k = Some v \<Longrightarrow> v = compute k"
  unfolding memo_sound_def by (auto dest: map_of_SomeD)

lemma memo_ok_Nil [simp]: "memo_ok P []"
  by (simp add: memo_ok_def)

lemma memo_okD: "memo_ok P m \<Longrightarrow> map_of m k = Some v \<Longrightarrow> P k v"
  unfolding memo_ok_def by (auto dest: map_of_SomeD)

lemma set_update_subset: "set (AList.update k v m) \<subseteq> insert (k, v) (set m)"
  by (induction m) auto

lemma length_update: "length (AList.update k v m) = length m + (if map_of m k = None then 1 else 0)"
  by (induction m) auto

lemma length_delete_le: "length (AList.delete k m) \<le> length m"
  by (induction m) auto

locale memo_table =
  fixes limit :: nat
    and store :: "'k \<Rightarrow> 'v \<Rightarrow> ('k \<times> 'v) list \<Rightarrow> ('k \<times> 'v) list"
  assumes store_adds: "set (store k v m) \<subseteq> insert (k, v) (set m)"
    and store_bound: "length m \<le> limit \<Longrightarrow> length (store k v m) \<le> limit"
begin

lemma store_ok: "memo_ok P m \<Longrightarrow> P k v \<Longrightarrow> memo_ok P (store k v m)"
  using store_adds [of k v m] by (auto simp: memo_ok_def)

lemma store_sound: "memo_sound compute m \<Longrightarrow> memo_sound compute (store k (compute k) m)"
  using store_adds [of k "compute k" m] by (auto simp: memo_sound_def)

lemma get_sound:
  "memo_sound compute m \<Longrightarrow>
   fst (memo_get compute store k m) = compute k \<and> memo_sound compute (snd (memo_get compute store k m))"
  by (auto simp: memo_get_def store_sound dest: memo_soundD split: option.split)

lemma get_bound: "length m \<le> limit \<Longrightarrow> length (snd (memo_get compute store k m)) \<le> limit"
  by (auto simp: memo_get_def store_bound split: option.split)

end

subsection \<open>Components driven by events\<close>

locale guarded_system =
  fixes init :: 's and step :: "'e \<Rightarrow> 's \<Rightarrow> 's" and inv :: "'s \<Rightarrow> bool"
  assumes inv_init: "inv init"
    and inv_step: "inv s \<Longrightarrow> inv (step e s)"
begin

lemma inv_run: "inv s \<Longrightarrow> inv (fold step es s)"
  by (induction es arbitrary: s) (auto intro: inv_step)

lemma inv_reach: "inv (fold step es init)"
  by (rule inv_run [OF inv_init])

end

text \<open>
  A system with a quantity no step decreases: what was logged stays logged, what was settled
  stays settled.
\<close>

locale growing_system = guarded_system +
  fixes log :: "'s \<Rightarrow> 'l set"
  assumes log_step: "inv s \<Longrightarrow> log s \<subseteq> log (step e s)"
begin

lemma log_run: "inv s \<Longrightarrow> log s \<subseteq> log (fold step es s)"
proof (induction es arbitrary: s)
  case (Cons e es)
  then have "log (step e s) \<subseteq> log (fold step es (step e s))" by (simp add: inv_step)
  then show ?case using log_step [OF Cons.prems, of e] by auto
qed simp

end

subsection \<open>Calls under a permission\<close>

text \<open>
  The events of a run: what each call amounts to in the state it meets. And the contract of a component whose
  invariant holds as long as every call is permitted.
\<close>

fun trace_events :: "('c \<Rightarrow> 's \<Rightarrow> 's) \<Rightarrow> ('c \<Rightarrow> 's \<Rightarrow> 'e) \<Rightarrow> 'c list \<Rightarrow> 's \<Rightarrow> 'e list" where
  "trace_events step ev [] s = []"
| "trace_events step ev (c # cs) s = ev c s # trace_events step ev cs (step c s)"

locale permitted_system =
  fixes inv :: "'s \<Rightarrow> bool"
    and step :: "'c \<Rightarrow> 's \<Rightarrow> 's"
    and permitted :: "'c \<Rightarrow> bool"
  assumes step_inv: "inv s \<Longrightarrow> permitted c \<Longrightarrow> inv (step c s)"
begin

lemma run_inv: "inv s \<Longrightarrow> \<forall>c \<in> set cs. permitted c \<Longrightarrow> inv (fold step cs s)"
  by (induction cs arbitrary: s) (simp_all add: step_inv)

end

end
