(* ===== verification/JsJson.thy ===== *)
theory JsJson
  imports JsPrelude
begin

text \<open>
  JavaScript values and their JSON text, for the components that build or read JSON: the values a
  JSON text can denote, \<^verbatim>\<open>JSON.stringify\<close> on them and \<^verbatim>\<open>JSON.parse\<close>. A number is kept as its
  JSON lexeme, which no component computes with. Parsing recurses with fuel; every call consumes a
  character first, so the length of the text is enough, and \<open>parse_stringify\<close> shows it is for
  printed values.
\<close>

datatype jsval =
    JUndefined
  | JNull
  | JBool bool
  | JNum string
  | JStr string
  | JArr "jsval list"
  | JObj "(string \<times> jsval) list"

definition field :: "string \<Rightarrow> (string \<times> jsval) list \<Rightarrow> jsval" where
  "field k fs = coalesce (map_of fs k) JUndefined"

subsection \<open>Printing\<close>

definition hex_digit :: "nat \<Rightarrow> char" where
  "hex_digit n = (if n < 10 then char_of (48 + n) else char_of (87 + n))"

definition json_char :: "char \<Rightarrow> string" where
  "json_char c =
     (let n = (of_char c :: nat)
      in if n = 34 then [CHR 0x5C, CHR 0x22]
         else if n = 92 then [CHR 0x5C, CHR 0x5C]
         else if n = 8 then CHR 0x5C # ''b''
         else if n = 9 then CHR 0x5C # ''t''
         else if n = 10 then CHR 0x5C # ''n''
         else if n = 12 then CHR 0x5C # ''f''
         else if n = 13 then CHR 0x5C # ''r''
         else if n < 32 then CHR 0x5C # ''u00'' @ [hex_digit (n div 16), hex_digit (n mod 16)]
         else [c])"

definition json_string :: "string \<Rightarrow> string" where
  "json_string s = CHR 0x22 # concat (map json_char s) @ [CHR 0x22]"

fun intersperse_concat :: "string \<Rightarrow> string list \<Rightarrow> string" where
  "intersperse_concat sep [] = []"
| "intersperse_concat sep [x] = x"
| "intersperse_concat sep (x # xs) = x @ sep @ intersperse_concat sep xs"

text \<open>\<^verbatim>\<open>JSON.stringify\<close>: members whose value is undefined are left out of objects, undefined array
  elements are printed as null.\<close>

fun stringify :: "jsval \<Rightarrow> string" where
  "stringify JUndefined = ''null''"
| "stringify JNull = ''null''"
| "stringify (JBool b) = (if b then ''true'' else ''false'')"
| "stringify (JNum n) = n"
| "stringify (JStr s) = json_string s"
| "stringify (JArr vs) = CHR ''['' # intersperse_concat '','' (map stringify vs) @ '']''"
| "stringify (JObj fs) =
     CHR 0x7B # intersperse_concat '',''
       (map (\<lambda>(k, v). json_string k @ CHR '':'' # stringify v) (filter (\<lambda>(k, v). v \<noteq> JUndefined) fs)) @ [CHR 0x7D]"

subsection \<open>Parsing\<close>

definition json_space :: "char \<Rightarrow> bool" where
  "json_space c \<longleftrightarrow> (of_char c :: nat) \<in> set [9, 10, 13, 32]"

definition skip_space :: "string \<Rightarrow> string" where
  "skip_space s = dropWhile json_space s"

definition hex_value :: "char \<Rightarrow> nat option" where
  "hex_value c =
     (let n = (of_char c :: nat)
      in if 48 \<le> n \<and> n \<le> 57 then Some (n - 48)
         else if 97 \<le> n \<and> n \<le> 102 then Some (n - 87)
         else if 65 \<le> n \<and> n \<le> 70 then Some (n - 55) else None)"

text \<open>The character after a backslash, and what it stands for.\<close>

definition simple_escape :: "char \<Rightarrow> char option" where
  "simple_escape c =
     map_of [(CHR 0x22, CHR 0x22), (CHR 0x5C, CHR 0x5C), (CHR ''/'', CHR ''/''), (CHR ''b'', CHR 0x08),
       (CHR ''f'', CHR 0x0C), (CHR ''n'', CHR 0x0A), (CHR ''r'', CHR 0x0D), (CHR ''t'', CHR 0x09)] c"

text \<open>The body of a string literal up to its closing quote. An escape above \<open>u00ff\<close> is reduced modulo
  256, the range of the model's characters.\<close>

fun parse_chars :: "string \<Rightarrow> (string \<times> string) option" where
  "parse_chars [] = None"
| "parse_chars (c # cs) =
     (if c = CHR 0x22 then Some ([], cs)
      else if (of_char c :: nat) < 32 then None
      else if c = CHR 0x5C
      then (case cs of
              [] \<Rightarrow> None
            | e # es \<Rightarrow>
                (case simple_escape e of
                   Some d \<Rightarrow> map_option (\<lambda>(s, r). (d # s, r)) (parse_chars es)
                 | None \<Rightarrow>
                     if e \<noteq> CHR ''u'' then None
                     else (case es of
                             h1 # h2 # h3 # h4 # r \<Rightarrow>
                               (case (hex_value h1, hex_value h2, hex_value h3, hex_value h4) of
                                  (Some a, Some b, Some c, Some d) \<Rightarrow>
                                    map_option (\<lambda>(s, r). (char_of (4096 * a + 256 * b + 16 * c + d) # s, r)) (parse_chars r)
                                | _ \<Rightarrow> None)
                           | _ \<Rightarrow> None)))
      else map_option (\<lambda>(s, r). (c # s, r)) (parse_chars cs))"

text \<open>The longest prefix that is a JSON number: sign, integer part without a leading zero, fraction,
  exponent.\<close>

definition parse_int_part :: "string \<Rightarrow> (string \<times> string) option" where
  "parse_int_part s =
     (case s of
        [] \<Rightarrow> None
      | c # cs \<Rightarrow> if c = CHR ''0'' then Some ([c], cs)
                  else if is_digit c then Some (takeWhile is_digit s, dropWhile is_digit s) else None)"

definition parse_digits :: "string \<Rightarrow> (string \<times> string) option" where
  "parse_digits s = (if takeWhile is_digit s = [] then None else Some (takeWhile is_digit s, dropWhile is_digit s))"

definition parse_fraction :: "string \<Rightarrow> (string \<times> string) option" where
  "parse_fraction s =
     (case s of
        c # cs \<Rightarrow> if c = CHR ''.'' then map_option (\<lambda>(d, r). (c # d, r)) (parse_digits cs) else Some ([], s)
      | [] \<Rightarrow> Some ([], []))"

definition parse_exponent :: "string \<Rightarrow> (string \<times> string) option" where
  "parse_exponent s =
     (case s of
        c # cs \<Rightarrow>
          if c = CHR ''e'' \<or> c = CHR ''E''
          then (case cs of
                  g # ds \<Rightarrow> if g = CHR ''+'' \<or> g = CHR ''-''
                            then map_option (\<lambda>(d, r). (c # g # d, r)) (parse_digits ds)
                            else map_option (\<lambda>(d, r). (c # d, r)) (parse_digits cs)
                | [] \<Rightarrow> None)
          else Some ([], s)
      | [] \<Rightarrow> Some ([], []))"

definition parse_unsigned :: "string \<Rightarrow> (string \<times> string) option" where
  "parse_unsigned s =
     (case parse_int_part s of None \<Rightarrow> None | Some (i, s2) \<Rightarrow>
        (case parse_fraction s2 of None \<Rightarrow> None | Some (f, s3) \<Rightarrow>
           (case parse_exponent s3 of None \<Rightarrow> None | Some (e, s4) \<Rightarrow> Some (i @ f @ e, s4))))"

definition parse_number :: "string \<Rightarrow> (string \<times> string) option" where
  "parse_number s =
     (case s of
        c # cs \<Rightarrow> if c = CHR ''-'' then map_option (\<lambda>(d, r). (c # d, r)) (parse_unsigned cs) else parse_unsigned s
      | [] \<Rightarrow> None)"

text \<open>What follows a value in a list: the rest after a comma, or the closing bracket.\<close>

definition strip_literal :: "string \<Rightarrow> string \<Rightarrow> string option" where
  "strip_literal p s = (if prefix p s then Some (drop (length p) s) else None)"

text \<open>A member already present keeps its place and takes the new value.\<close>

fun parse_value :: "nat \<Rightarrow> string \<Rightarrow> (jsval \<times> string) option"
  and parse_elems :: "nat \<Rightarrow> string \<Rightarrow> (jsval list \<times> string) option"
  and parse_members :: "nat \<Rightarrow> (string \<times> jsval) list \<Rightarrow> string \<Rightarrow> ((string \<times> jsval) list \<times> string) option" where
  "parse_value 0 s = None"
| "parse_value (Suc n) s =
     (case skip_space s of
        [] \<Rightarrow> None
      | c # cs \<Rightarrow>
          if c = CHR 0x22 then map_option (\<lambda>(t, r). (JStr t, r)) (parse_chars cs)
          else if c = CHR ''['' then
            (case skip_space cs of
               [] \<Rightarrow> None
             | d # ds \<Rightarrow> if d = CHR '']'' then Some (JArr [], ds)
                         else map_option (\<lambda>(vs, r). (JArr vs, r)) (parse_elems n cs))
          else if c = CHR 0x7B then
            (case skip_space cs of
               [] \<Rightarrow> None
             | d # ds \<Rightarrow> if d = CHR 0x7D then Some (JObj [], ds)
                         else map_option (\<lambda>(fs, r). (JObj fs, r)) (parse_members n [] cs))
          else if c = CHR ''t'' then map_option (\<lambda>r. (JBool True, r)) (strip_literal ''rue'' cs)
          else if c = CHR ''f'' then map_option (\<lambda>r. (JBool False, r)) (strip_literal ''alse'' cs)
          else if c = CHR ''n'' then map_option (\<lambda>r. (JNull, r)) (strip_literal ''ull'' cs)
          else map_option (\<lambda>(t, r). (JNum t, r)) (parse_number (c # cs)))"
| "parse_elems 0 s = None"
| "parse_elems (Suc n) s =
     (case parse_value n s of
        None \<Rightarrow> None
      | Some (v, r) \<Rightarrow>
          (case skip_space r of
             [] \<Rightarrow> None
           | c # cs \<Rightarrow> if c = CHR '','' then map_option (\<lambda>(vs, t). (v # vs, t)) (parse_elems n cs)
                       else if c = CHR '']'' then Some ([v], cs) else None))"
| "parse_members 0 acc s = None"
| "parse_members (Suc n) acc s =
     (case skip_space s of
        [] \<Rightarrow> None
      | q # qs \<Rightarrow>
          if q \<noteq> CHR 0x22 then None
          else (case parse_chars qs of
                  None \<Rightarrow> None
                | Some (k, r) \<Rightarrow>
                    (case skip_space r of
                       [] \<Rightarrow> None
                     | c # cs \<Rightarrow>
                         if c \<noteq> CHR '':'' then None
                         else (case parse_value n cs of
                                 None \<Rightarrow> None
                               | Some (v, r2) \<Rightarrow>
                                   (case skip_space r2 of
                                      [] \<Rightarrow> None
                                    | d # ds \<Rightarrow>
                                        if d = CHR '','' then parse_members n (AList.update k v acc) ds
                                        else if d = CHR 0x7D then Some (AList.update k v acc, ds) else None)))))"

definition json_parse :: "string \<Rightarrow> jsval option" where
  "json_parse s =
     (case parse_value (Suc (length s)) s of
        Some (v, r) \<Rightarrow> if skip_space r = [] then Some v else None
      | None \<Rightarrow> None)"

subsection \<open>Round trip\<close>

text \<open>The values that \<^verbatim>\<open>JSON.stringify\<close> keeps: no undefined, numbers spelled as JSON numbers, the keys
  of an object distinct.\<close>

fun json_value :: "jsval \<Rightarrow> bool" where
  "json_value JUndefined \<longleftrightarrow> False"
| "json_value (JNum n) \<longleftrightarrow> parse_number n = Some (n, [])"
| "json_value (JArr vs) \<longleftrightarrow> list_all json_value vs"
| "json_value (JObj fs) \<longleftrightarrow> distinct (map fst fs) \<and> list_all (\<lambda>(k, v). json_value v) fs"
| "json_value _ \<longleftrightarrow> True"

lemma of_char_lt: "(of_char c :: nat) < 256"
  by simp

lemma hex_value_digit: "n < 16 \<Longrightarrow> hex_value (hex_digit n) = Some n"
  by (simp add: hex_value_def hex_digit_def Let_def)

lemma char_eq_iff_nat: "c = d \<longleftrightarrow> (of_char c :: nat) = of_char d"
  by simp

lemma parse_char_json:
  "parse_chars (json_char c @ t) = map_option (\<lambda>(s, r). (c # s, r)) (parse_chars t)"
proof -
  define n where "n = (of_char c :: nat)"
  have n: "n < 256" by (simp add: n_def)
  have eq: "c = d \<longleftrightarrow> n = of_char d" for d unfolding n_def by (rule char_eq_iff_nat)
  consider "n \<in> {8, 9, 10, 12, 13, 34, 92}" | "n < 32" "n \<notin> {8, 9, 10, 12, 13}"
    | "32 \<le> n" "n \<noteq> 34" "n \<noteq> 92" by fastforce
  then show ?thesis
  proof cases
    case 1
    then have "c \<in> {CHR 0x08, CHR 0x09, CHR 0x0A, CHR 0x0C, CHR 0x0D, CHR 0x22, CHR 0x5C}"
      by (auto simp: eq)
    then show ?thesis by (auto simp: json_char_def simple_escape_def)
  next
    case 2
    have "n div 16 < 16" "n mod 16 < 16" using n by auto
    note hex = this [THEN hex_value_digit]
    have zero: "hex_value CHR ''0'' = Some 0" by (simp add: hex_value_def)
    have u: "simple_escape CHR ''u'' = None" by (simp add: simple_escape_def)
    have "char_of (16 * (n div 16) + n mod 16) = c" by (simp add: n_def)
    moreover have "json_char c = [CHR 0x5C, CHR ''u'', CHR ''0'', CHR ''0'', hex_digit (n div 16), hex_digit (n mod 16)]"
      using 2 by (simp add: json_char_def Let_def flip: n_def)
    ultimately show ?thesis using hex zero u by (simp add: case_prod_unfold)
  next
    case 3
    then have "c \<noteq> CHR 0x22" "c \<noteq> CHR 0x5C" by (auto simp: eq)
    moreover have "json_char c = [c]" using 3 by (simp add: json_char_def Let_def flip: n_def)
    ultimately show ?thesis using 3 by (simp add: n_def)
  qed
qed

lemma parse_chars_json: "parse_chars (concat (map json_char s) @ CHR 0x22 # r) = Some (s, r)"
  by (induction s) (simp_all add: parse_char_json)

text \<open>A value is followed by the end of the text, a comma or a closing bracket.\<close>

definition stops :: "string \<Rightarrow> bool" where
  "stops r \<longleftrightarrow> r = [] \<or> hd r \<in> {CHR '','', CHR '']'', CHR 0x7D}"

lemma stops_Cons [simp]: "stops (c # r) \<longleftrightarrow> c \<in> {CHR '','', CHR '']'', CHR 0x7D}"
  by (simp add: stops_def)

lemma stops_not_digit: "stops r \<Longrightarrow> takeWhile is_digit r = [] \<and> dropWhile is_digit r = r"
  by (cases r) (auto simp: is_digit_def)

lemma digits_stop: "stops r \<Longrightarrow> takeWhile is_digit (s @ r) = takeWhile is_digit s \<and> dropWhile is_digit (s @ r) = dropWhile is_digit s @ r"
  using stops_not_digit [of r] by (induction s) auto

lemma parse_int_stop: "parse_int_part s = Some (i, t) \<Longrightarrow> stops r \<Longrightarrow> parse_int_part (s @ r) = Some (i, t @ r)"
  using digits_stop [of r s] by (cases s) (auto simp: parse_int_part_def split: if_splits)

lemma parse_digits_stop: "parse_digits s = Some (d, t) \<Longrightarrow> stops r \<Longrightarrow> parse_digits (s @ r) = Some (d, t @ r)"
  using digits_stop [of r s] by (auto simp: parse_digits_def split: if_splits)

lemma parse_fraction_stop: "parse_fraction s = Some (f, t) \<Longrightarrow> stops r \<Longrightarrow> parse_fraction (s @ r) = Some (f, t @ r)"
proof (cases s)
  case Nil
  assume "parse_fraction s = Some (f, t)" "stops r"
  with Nil show ?thesis by (cases r) (auto simp: parse_fraction_def)
qed (auto simp: parse_fraction_def parse_digits_stop split: if_splits)

lemma parse_exponent_stop: "parse_exponent s = Some (f, t) \<Longrightarrow> stops r \<Longrightarrow> parse_exponent (s @ r) = Some (f, t @ r)"
proof (cases s)
  case Nil
  assume "parse_exponent s = Some (f, t)" "stops r"
  with Nil show ?thesis by (cases r) (auto simp: parse_exponent_def)
next
  case (Cons c cs)
  assume "parse_exponent s = Some (f, t)" "stops r"
  with Cons show ?thesis using parse_digits_stop [of cs _ t r]
    by (cases cs) (auto simp: parse_exponent_def parse_digits_stop split: if_splits)
qed

lemma parse_unsigned_stop:
  assumes "parse_unsigned s = Some (f, t)" and "stops r"
  shows "parse_unsigned (s @ r) = Some (f, t @ r)"
proof -
  obtain i s2 g s3 e where "parse_int_part s = Some (i, s2)" "parse_fraction s2 = Some (g, s3)"
    "parse_exponent s3 = Some (e, t)" "f = i @ g @ e"
    using assms(1) by (auto simp: parse_unsigned_def split: option.splits)
  then show ?thesis using assms(2)
    by (simp add: parse_unsigned_def parse_int_stop parse_fraction_stop parse_exponent_stop)
qed

lemma parse_number_stop: "parse_number s = Some (f, t) \<Longrightarrow> stops r \<Longrightarrow> parse_number (s @ r) = Some (f, t @ r)"
  using parse_unsigned_stop [of s f t r] by (cases s) (auto simp: parse_number_def parse_unsigned_stop split: if_splits)

lemma number_head: "parse_number s = Some (f, t) \<Longrightarrow> \<exists>c cs. s = c # cs \<and> (c = CHR ''-'' \<or> is_digit c)"
proof (cases s)
  case (Cons c cs)
  assume num: "parse_number s = Some (f, t)"
  have "is_digit CHR ''0''" by (simp add: is_digit_def)
  then have "parse_int_part s = None" if "\<not> is_digit c" using that by (auto simp: Cons parse_int_part_def)
  then have "c = CHR ''-'' \<or> is_digit c"
    using num by (cases "c = CHR ''-''"; cases "is_digit c") (auto simp: Cons parse_number_def parse_unsigned_def)
  then show ?thesis using Cons by blast
qed (simp add: parse_number_def)

lemma stringify_head:
  assumes "json_value v"
  obtains c t where "stringify v = c # t" "\<not> json_space c" "c \<noteq> CHR '']''" "c \<noteq> CHR 0x7D" "(of_char c :: nat) < 128"
proof (cases v)
  case (JNum n)
  then have "parse_number n = Some (n, [])" using assms by simp
  from number_head [OF this] obtain c cs where c: "n = c # cs" "c = CHR ''-'' \<or> is_digit c" by blast
  then have "\<not> json_space c \<and> c \<noteq> CHR '']'' \<and> c \<noteq> CHR 0x7D \<and> (of_char c :: nat) < 128" by (auto simp: json_space_def is_digit_def)
  then show ?thesis using that [of c cs] JNum c by simp
next
  case (JBool b)
  then show ?thesis by (cases b) (auto intro: that simp: json_space_def)
qed (use assms that in \<open>auto simp: json_string_def json_space_def\<close>)

lemma skip_stringify: "json_value v \<Longrightarrow> skip_space (stringify v @ r) = stringify v @ r"
  by (erule stringify_head) (simp add: skip_space_def)

lemma skip_simps [simp]:
  "skip_space [] = []" "json_space c \<Longrightarrow> skip_space (c # s) = skip_space s"
  "\<not> json_space c \<Longrightarrow> skip_space (c # s) = c # s"
  by (simp_all add: skip_space_def)

lemma punctuation_not_space [simp]:
  "\<not> json_space CHR '',''" "\<not> json_space CHR '']''" "\<not> json_space CHR 0x7D" "\<not> json_space CHR '':''"
  "\<not> json_space CHR 0x22" "\<not> json_space CHR ''[''" "\<not> json_space CHR 0x7B"
  by (simp_all add: json_space_def)

definition reads_back :: "jsval \<Rightarrow> bool" where
  "reads_back v \<longleftrightarrow> (\<forall>n r. stops r \<longrightarrow> length (stringify v) < n \<longrightarrow> parse_value n (stringify v @ r) = Some (v, r))"

lemma parse_elems_stringify:
  assumes "\<forall>v \<in> set (v # vs). reads_back v \<and> json_value v"
    and "length (intersperse_concat '','' (map stringify (v # vs))) + 1 < n"
  shows "parse_elems n (intersperse_concat '','' (map stringify (v # vs)) @ CHR '']'' # r) = Some (v # vs, r)"
  using assms
proof (induction vs arbitrary: v n)
  case Nil
  then show ?case by (cases n) (auto simp: reads_back_def)
next
  case (Cons w vs)
  then obtain m where n: "n = Suc m" by (cases n) auto
  let ?rest = "intersperse_concat '','' (map stringify (w # vs)) @ CHR '']'' # r"
  have "length (stringify v) < m" using Cons.prems(2) n by simp
  then have "parse_value m (stringify v @ CHR '','' # ?rest) = Some (v, CHR '','' # ?rest)"
    using Cons.prems(1) by (simp add: reads_back_def)
  moreover have "parse_elems m ?rest = Some (w # vs, r)"
    using Cons.IH [of w m] Cons.prems n by simp
  ultimately show ?case by (simp add: n)
qed

definition member_text :: "string \<times> jsval \<Rightarrow> string" where
  "member_text kv = json_string (fst kv) @ CHR '':'' # stringify (snd kv)"

lemma member_text_pair:
  "member_text (k, v) = CHR 0x22 # concat (map json_char k) @ CHR 0x22 # CHR '':'' # stringify v"
  by (simp add: member_text_def json_string_def)

lemma parse_members_stringify:
  assumes "\<forall>f \<in> set (f # fs). reads_back (snd f) \<and> json_value (snd f)"
    and "distinct (map fst (acc @ f # fs))"
    and "length (intersperse_concat '','' (map member_text (f # fs))) + 1 < n"
  shows "parse_members n acc (intersperse_concat '','' (map member_text (f # fs)) @ CHR 0x7D # r) = Some (acc @ f # fs, r)"
  using assms
proof (induction fs arbitrary: f acc n)
  case Nil
  obtain k v where f: "f = (k, v)" by fastforce
  obtain m where n: "n = Suc m" using Nil.prems(3) by (cases n) auto
  have "parse_value m (stringify v @ CHR 0x7D # r) = Some (v, CHR 0x7D # r)"
    using Nil.prems(1,3) by (simp add: reads_back_def f n member_text_def)
  moreover have "AList.update k v acc = acc @ [(k, v)]"
    using Nil.prems(2) by (intro update_absent) (auto simp: f map_of_eq_None_iff)
  ultimately show ?case
    by (simp add: n f member_text_pair parse_chars_json)
next
  case (Cons g fs)
  obtain k v where f: "f = (k, v)" by fastforce
  obtain m where n: "n = Suc m" using Cons.prems(3) by (cases n) auto
  let ?rest = "intersperse_concat '','' (map member_text (g # fs)) @ CHR 0x7D # r"
  have "parse_value m (stringify v @ CHR '','' # ?rest) = Some (v, CHR '','' # ?rest)"
    using Cons.prems(1,3) by (simp add: reads_back_def f n member_text_def)
  moreover have "AList.update k v acc = acc @ [(k, v)]"
    using Cons.prems(2) by (intro update_absent) (auto simp: f map_of_eq_None_iff)
  moreover have "parse_members m (acc @ [(k, v)]) ?rest = Some ((acc @ [(k, v)]) @ g # fs, r)"
    by (rule Cons.IH) (use Cons.prems f n in \<open>auto simp: member_text_def\<close>)
  ultimately show ?case
    by (simp add: n f member_text_pair parse_chars_json)
qed

lemma member_text_head: "\<exists>t. intersperse_concat '','' (map member_text (f # fs)) @ r = CHR 0x22 # t"
  by (cases fs) (simp_all add: member_text_def json_string_def)

lemma value_reads_back: "json_value v \<Longrightarrow> reads_back v"
proof (induction v)
  case (JNum n)
  then have num: "parse_number n = Some (n, [])" by simp
  from number_head [OF this] obtain c cs where c: "n = c # cs" "c = CHR ''-'' \<or> is_digit c" by blast
  then have head: "\<not> json_space c" "c \<noteq> CHR 0x22" "c \<noteq> CHR ''[''" "c \<noteq> CHR 0x7B" "c \<noteq> CHR ''t''" "c \<noteq> CHR ''f''" "c \<noteq> CHR ''n''"
    by (auto simp: json_space_def is_digit_def)
  show ?case unfolding reads_back_def
  proof (intro allI impI)
    fix k r assume r: "stops r" and k: "length (stringify (JNum n)) < k"
    then obtain m where m: "k = Suc m" by (cases k) auto
    have "parse_number (n @ r) = Some (n, r)" using parse_number_stop [OF num r] by simp
    then show "parse_value k (stringify (JNum n) @ r) = Some (JNum n, r)" using head by (simp add: m c(1))
  qed
next
  case (JArr vs)
  show ?case unfolding reads_back_def
  proof (intro allI impI)
    fix n r assume n: "length (stringify (JArr vs)) < n"
    then obtain m where m: "n = Suc m" by (cases n) auto
    show "parse_value n (stringify (JArr vs) @ r) = Some (JArr vs, r)"
    proof (cases vs)
      case Nil
      then show ?thesis by (simp add: m)
    next
      case (Cons v ws)
      let ?body = "intersperse_concat '','' (map stringify (v # ws))"
      have ok: "\<forall>w \<in> set (v # ws). reads_back w \<and> json_value w" using JArr Cons by (auto simp: list_all_iff)
      have "parse_elems m (?body @ CHR '']'' # r) = Some (v # ws, r)"
        by (rule parse_elems_stringify [OF ok]) (use n m Cons in simp)
      moreover obtain c t where "stringify v = c # t" "\<not> json_space c" "c \<noteq> CHR '']''"
        using stringify_head ok by (metis list.set_intros(1))
      then obtain t' where "?body @ CHR '']'' # r = c # t'" "\<not> json_space c" "c \<noteq> CHR '']''" by (cases ws) auto
      ultimately show ?thesis by (simp add: m Cons)
    qed
  qed
next
  case (JObj fs)
  have fs: "filter (\<lambda>(k, v). v \<noteq> JUndefined) fs = fs"
    using JObj.prems by (auto simp: filter_id_conv list_all_iff)
  have printed: "stringify (JObj fs) = CHR 0x7B # intersperse_concat '','' (map member_text fs) @ [CHR 0x7D]"
    by (simp add: fs) (simp add: member_text_def [abs_def] case_prod_unfold)
  show ?case unfolding reads_back_def
  proof (intro allI impI)
    fix n r assume n: "length (stringify (JObj fs)) < n"
    then obtain m where m: "n = Suc m" by (cases n) auto
    show "parse_value n (stringify (JObj fs) @ r) = Some (JObj fs, r)"
    proof (cases fs)
      case Nil
      then show ?thesis by (simp add: m)
    next
      case (Cons f gs)
      let ?body = "intersperse_concat '','' (map member_text (f # gs))"
      have "reads_back (snd g) \<and> json_value (snd g)" if "g \<in> set (f # gs)" for g
      proof -
        have "json_value (snd g)" using JObj.prems that Cons by (auto simp: list_all_iff case_prod_unfold)
        then show ?thesis using JObj.IH [of g "snd g"] that Cons by (simp add: snds.simps)
      qed
      then have ok: "\<forall>g \<in> set (f # gs). reads_back (snd g) \<and> json_value (snd g)" by blast
      have "parse_members m [] (?body @ CHR 0x7D # r) = Some ([] @ f # gs, r)"
      proof (rule parse_members_stringify [OF ok])
        show "distinct (map fst ([] @ f # gs))" using JObj.prems Cons by simp
        show "length ?body + 1 < m" using n unfolding printed unfolding Cons m by simp
      qed
      moreover obtain t where "?body @ CHR 0x7D # r = CHR 0x22 # t" using member_text_head by blast
      ultimately show ?thesis unfolding printed unfolding Cons by (simp add: m)
    qed
  qed
qed (auto simp: reads_back_def json_string_def parse_chars_json strip_literal_def json_space_def gr0_conv_Suc
    split: if_splits elim!: less_natE)

lemma parse_stringify: "json_value v \<Longrightarrow> json_parse (stringify v) = Some v"
  using value_reads_back [of v] unfolding reads_back_def json_parse_def
  by (auto dest!: spec [where x = "Suc (length (stringify v))"] spec [where x = "[]"] simp: stops_def)

text \<open>A printed string holds no control character, so a JSON line holds no line break.\<close>

lemma json_char_no_control: "d \<in> set (json_char c) \<Longrightarrow> 32 \<le> (of_char d :: nat)"
proof -
  assume d: "d \<in> set (json_char c)"
  have "32 \<le> (of_char (hex_digit k) :: nat)" if "k < 16" for k using that by (auto simp: hex_digit_def)
  then show ?thesis using d by (auto simp: json_char_def Let_def split: if_splits)
qed

lemma json_string_no_control: "d \<in> set (json_string s) \<Longrightarrow> 32 \<le> (of_char d :: nat)"
  by (auto simp: json_string_def dest: json_char_no_control)

definition number_char :: "char \<Rightarrow> bool" where
  "number_char c \<longleftrightarrow> is_digit c \<or> c \<in> set ''+-.eE''"

lemma digits_number_chars: "\<forall>c \<in> set (takeWhile is_digit s). number_char c"
  by (auto simp: number_char_def dest: set_takeWhileD)

lemma parse_digits_chars: "parse_digits s = Some (d, t) \<Longrightarrow> \<forall>c \<in> set d. number_char c"
  using digits_number_chars by (auto simp: parse_digits_def split: if_splits)

lemma parse_unsigned_chars:
  assumes "parse_unsigned s = Some (f, t)"
  shows "\<forall>c \<in> set f. number_char c"
proof -
  obtain i s2 g s3 e where p: "parse_int_part s = Some (i, s2)" "parse_fraction s2 = Some (g, s3)"
    "parse_exponent s3 = Some (e, t)" "f = i @ g @ e"
    using assms by (auto simp: parse_unsigned_def split: option.splits)
  have zero: "number_char CHR ''0''" and punct: "\<forall>c \<in> set ''+-.eE''. number_char c"
    by (simp_all add: number_char_def is_digit_def)
  have "\<forall>c \<in> set i. number_char c"
    using p(1) zero digits_number_chars [of s] by (auto simp: parse_int_part_def split: list.splits if_splits)
  moreover have "\<forall>c \<in> set g. number_char c"
    using p(2) punct parse_digits_chars by (fastforce simp: parse_fraction_def split: list.splits if_splits)
  moreover have "\<forall>c \<in> set e. number_char c"
    using p(3) punct parse_digits_chars by (fastforce simp: parse_exponent_def split: list.splits if_splits)
  ultimately show ?thesis using p(4) by auto
qed

lemma parse_number_chars:
  assumes "parse_number s = Some (f, t)"
  shows "\<forall>c \<in> set f. number_char c"
proof -
  have "number_char CHR ''-''" by (simp add: number_char_def)
  then show ?thesis using assms parse_unsigned_chars
    by (cases s) (fastforce simp: parse_number_def split: if_splits)+
qed

lemma set_intersperse: "c \<in> set (intersperse_concat sep xs) \<Longrightarrow> c \<in> set sep \<or> (\<exists>x \<in> set xs. c \<in> set x)"
  by (induction sep xs rule: intersperse_concat.induct) auto

lemma stringify_no_control: "json_value v \<Longrightarrow> d \<in> set (stringify v) \<Longrightarrow> 32 \<le> (of_char d :: nat)"
proof (induction v arbitrary: d)
  case (JNum n)
  then have "number_char d" using parse_number_chars [of n n "[]"] by simp
  then show ?case by (auto simp: number_char_def is_digit_def)
next
  case (JArr vs)
  then show ?case by (auto simp: list_all_iff dest!: set_intersperse)
next
  case (JObj fs)
  have v: "32 \<le> (of_char d :: nat)" if "(k, v) \<in> set fs" "d \<in> set (stringify v)" for k v d
    using JObj.IH [of "(k, v)" v d] that JObj.prems(1) by (auto simp: list_all_iff)
  show ?case using JObj.prems(2) v by (auto dest!: set_intersperse json_string_no_control)
qed (auto split: if_splits dest: json_string_no_control)

end
