(* ===== verification/AuthRateLimit.thy ===== *)
theory AuthRateLimit
  imports JsPrelude
begin

text \<open>
  The gateway's sliding-window limiter of failed logins,
  \<^verbatim>\<open>packages/core/src/gateway/auth-rate-limit.ts\<close>. The state is the map from
  \<^verbatim>\<open>scope:ip\<close> to the recent failures and the lock; \<^verbatim>\<open>Date.now()\<close> is an argument of each
  operation. The two functions of \<^verbatim>\<open>gateway/net.ts\<close> it calls (client address resolution and
  the loopback test, which parse addresses with a third-party package) are the record
  \<open>net_env\<close>, an argument of the operations.
\<close>

subsection \<open>Configuration and state\<close>

record rate_limit_config =
  opt_maxAttempts :: "int option"
  opt_windowMs :: "int option"
  opt_lockoutMs :: "int option"
  opt_exemptLoopback :: "bool option"
  opt_pruneIntervalMs :: "int option"

record limiter =
  maxAttempts :: int
  windowMs :: int
  lockoutMs :: int
  exemptLoopback :: bool
  pruneIntervalMs :: int

record rl_entry =
  attempts :: "int list"
  lockedUntil :: "int option"

record check_result =
  allowed :: bool
  remaining :: int
  retryAfterMs :: int

record net_env =
  resolveClientIp :: "string option \<Rightarrow> string option"
  isLoopbackAddress :: "string \<Rightarrow> bool"

type_synonym rl_map = "(string, rl_entry) js_map"

definition createAuthRateLimiter :: "rate_limit_config \<Rightarrow> limiter" where
  "createAuthRateLimiter c =
     \<lparr>maxAttempts = coalesce (opt_maxAttempts c) 10,
      windowMs = coalesce (opt_windowMs c) 60000,
      lockoutMs = coalesce (opt_lockoutMs c) 300000,
      exemptLoopback = coalesce (opt_exemptLoopback c) True,
      pruneIntervalMs = coalesce (opt_pruneIntervalMs c) 60000\<rparr>"

subsection \<open>Keys\<close>

definition normalizeRateLimitClientIp :: "net_env \<Rightarrow> string option \<Rightarrow> string" where
  "normalizeRateLimitClientIp env ip =
     (case ip of
        Some s \<Rightarrow> if starts_with ''browser-origin:'' s then s
                  else coalesce (resolveClientIp env ip) ''unknown''
      | None \<Rightarrow> coalesce (resolveClientIp env ip) ''unknown'')"

definition normalizeScope :: "string option \<Rightarrow> string" where
  "normalizeScope scope =
     (let s = js_trim (coalesce scope ''default'') in if s = [] then ''default'' else s)"

definition resolveKey :: "net_env \<Rightarrow> string option \<Rightarrow> string option \<Rightarrow> string \<times> string" where
  "resolveKey env rawIp rawScope =
     (let ip = normalizeRateLimitClientIp env rawIp; scope = normalizeScope rawScope
      in (scope @ '':'' @ ip, ip))"

definition isExempt :: "net_env \<Rightarrow> limiter \<Rightarrow> string \<Rightarrow> bool" where
  "isExempt env cfg ip \<longleftrightarrow> exemptLoopback cfg \<and> isLoopbackAddress env ip"

subsection \<open>Operations\<close>

text \<open>\<^verbatim>\<open>entry.lockedUntil && now < entry.lockedUntil\<close>: an absent or zero lock is falsy.\<close>

definition isLocked :: "rl_entry \<Rightarrow> int \<Rightarrow> bool" where
  "isLocked e now = (case lockedUntil e of None \<Rightarrow> False | Some u \<Rightarrow> u \<noteq> 0 \<and> now < u)"

definition lockExpired :: "rl_entry \<Rightarrow> int \<Rightarrow> bool" where
  "lockExpired e now = (case lockedUntil e of None \<Rightarrow> False | Some u \<Rightarrow> u \<noteq> 0 \<and> u \<le> now)"

definition slideWindow :: "limiter \<Rightarrow> int \<Rightarrow> rl_entry \<Rightarrow> rl_entry" where
  "slideWindow cfg now e = e\<lparr>attempts := filter (\<lambda>ts. now - windowMs cfg < ts) (attempts e)\<rparr>"

definition check :: "net_env \<Rightarrow> limiter \<Rightarrow> int \<Rightarrow> string option \<Rightarrow> string option \<Rightarrow> rl_map
    \<Rightarrow> check_result \<times> rl_map" where
  "check env cfg now rawIp rawScope m =
     (let (key, ip) = resolveKey env rawIp rawScope
      in if isExempt env cfg ip
         then (\<lparr>allowed = True, remaining = maxAttempts cfg, retryAfterMs = 0\<rparr>, m)
         else case map_of m key of
           None \<Rightarrow> (\<lparr>allowed = True, remaining = maxAttempts cfg, retryAfterMs = 0\<rparr>, m)
         | Some e \<Rightarrow>
             if isLocked e now
             then (\<lparr>allowed = False, remaining = 0, retryAfterMs = the (lockedUntil e) - now\<rparr>, m)
             else
               (let e1 = (if lockExpired e now then e\<lparr>lockedUntil := None, attempts := []\<rparr> else e);
                    e2 = slideWindow cfg now e1;
                    r = max 0 (maxAttempts cfg - int (length (attempts e2)))
                in (\<lparr>allowed = 0 < r, remaining = r, retryAfterMs = 0\<rparr>, AList.update key e2 m)))"

definition recordFailure :: "net_env \<Rightarrow> limiter \<Rightarrow> int \<Rightarrow> string option \<Rightarrow> string option \<Rightarrow> rl_map \<Rightarrow> rl_map" where
  "recordFailure env cfg now rawIp rawScope m =
     (let (key, ip) = resolveKey env rawIp rawScope
      in if isExempt env cfg ip then m
         else
           (let e = coalesce (map_of m key) \<lparr>attempts = [], lockedUntil = None\<rparr>;
                m1 = AList.update key e m
            in if isLocked e now then m1
               else
                 (let e1 = slideWindow cfg now e;
                      e2 = e1\<lparr>attempts := attempts e1 @ [now]\<rparr>;
                      e3 = (if maxAttempts cfg \<le> int (length (attempts e2))
                            then e2\<lparr>lockedUntil := Some (now + lockoutMs cfg)\<rparr> else e2)
                  in AList.update key e3 m1)))"

definition reset :: "net_env \<Rightarrow> string option \<Rightarrow> string option \<Rightarrow> rl_map \<Rightarrow> rl_map" where
  "reset env rawIp rawScope m = AList.delete (fst (resolveKey env rawIp rawScope)) m"

text \<open>The loop over the entries: a locked entry stays as it is, any other is slid and dropped
  once it is empty.\<close>

fun prune :: "limiter \<Rightarrow> int \<Rightarrow> rl_map \<Rightarrow> rl_map" where
  "prune cfg now [] = []"
| "prune cfg now ((key, e) # m) =
     (if isLocked e now then (key, e) # prune cfg now m
      else (let e1 = slideWindow cfg now e
            in if attempts e1 = [] then prune cfg now m else (key, e1) # prune cfg now m))"

definition limiter_size :: "rl_map \<Rightarrow> nat" where
  "limiter_size m = length m"

definition dispose :: "rl_map \<Rightarrow> rl_map" where
  "dispose m = []"

subsection \<open>Calls in sequence\<close>

text \<open>
  The limiter as its callers drive it: a clock that does not go back and a sequence of calls,
  each some milliseconds after the one before. The timer's prune is one of the calls.
\<close>

datatype rl_call =
    CallCheck "string option" "string option"
  | CallFailure "string option" "string option"
  | CallReset "string option" "string option"
  | CallPrune
  | CallDispose

fun rl_step :: "net_env \<Rightarrow> limiter \<Rightarrow> nat \<times> rl_call \<Rightarrow> int \<times> rl_map \<Rightarrow> int \<times> rl_map" where
  "rl_step env cfg (dt, c) (t, m) =
     (let now = t + int dt
      in (now, case c of
            CallCheck ip sc \<Rightarrow> snd (check env cfg now ip sc m)
          | CallFailure ip sc \<Rightarrow> recordFailure env cfg now ip sc m
          | CallReset ip sc \<Rightarrow> reset env ip sc m
          | CallPrune \<Rightarrow> prune cfg now m
          | CallDispose \<Rightarrow> dispose m))"

definition rl_clears :: "net_env \<Rightarrow> string \<Rightarrow> rl_call \<Rightarrow> bool" where
  "rl_clears env key c =
     (case c of CallReset ip sc \<Rightarrow> fst (resolveKey env ip sc) = key | CallDispose \<Rightarrow> True | _ \<Rightarrow> False)"

subsection \<open>Lookups after each operation\<close>

lemma isLocked_SomeD: "isLocked e now \<Longrightarrow> \<exists>u. lockedUntil e = Some u \<and> u \<noteq> 0 \<and> now < u"
  by (auto simp: isLocked_def split: option.splits)

lemma isLocked_mono: "lockedUntil e = Some u \<Longrightarrow> u \<noteq> 0 \<Longrightarrow> now < u \<Longrightarrow> isLocked e now"
  by (simp add: isLocked_def)

lemma prune_keys: "fst ` set (prune cfg now m) \<subseteq> fst ` set m"
proof (induction m)
  case (Cons a m)
  then show ?case by (cases a) (force simp: Let_def split: if_splits)
qed simp

lemma prune_map_ok: "map_ok m \<Longrightarrow> map_ok (prune cfg now m)"
  unfolding map_ok_def
proof (induction m)
  case (Cons a m)
  then show ?case using prune_keys [of cfg now m] by (cases a) (auto simp: Let_def)
qed simp

lemma map_of_prune:
  "map_ok m \<Longrightarrow> map_of (prune cfg now m) k =
     (case map_of m k of None \<Rightarrow> None
      | Some e \<Rightarrow> if isLocked e now then Some e
                  else if attempts (slideWindow cfg now e) = [] then None
                  else Some (slideWindow cfg now e))"
proof (induction m)
  case (Cons a m)
  have notin: "map_of (prune cfg now m) k = None" if "k \<notin> fst ` set m" for k
    using that prune_keys [of cfg now m] by (auto simp: map_of_eq_None_iff)
  from Cons show ?case
    using notin [of k] by (cases a) (auto simp: Let_def map_ok_def)
qed simp

lemma check_map_ok: "map_ok m \<Longrightarrow> map_ok (snd (check env cfg now ip sc m))"
  by (auto simp: check_def Let_def map_ok_update split: prod.splits option.splits)

lemma recordFailure_map_ok: "map_ok m \<Longrightarrow> map_ok (recordFailure env cfg now ip sc m)"
  by (auto simp: recordFailure_def Let_def map_ok_update split: prod.splits)

lemma rl_step_map_ok: "map_ok m \<Longrightarrow> map_ok (snd (rl_step env cfg c (t, m)))"
  by (cases c) (auto simp: Let_def check_map_ok recordFailure_map_ok prune_map_ok map_ok_delete
      reset_def dispose_def split: rl_call.splits)

lemma check_other_key:
  "fst (resolveKey env ip sc) \<noteq> k \<Longrightarrow> map_of (snd (check env cfg now ip sc m)) k = map_of m k"
  by (auto simp: check_def Let_def store_law split: prod.splits option.splits)

lemma recordFailure_other_key:
  "fst (resolveKey env ip sc) \<noteq> k \<Longrightarrow> map_of (recordFailure env cfg now ip sc m) k = map_of m k"
  by (auto simp: recordFailure_def Let_def store_law split: prod.splits)

text \<open>The decision reads nothing but the caller's own entry.\<close>

lemma check_cong:
  assumes "map_of m (fst (resolveKey env ip sc)) = map_of m' (fst (resolveKey env ip sc))"
  shows "fst (check env cfg now ip sc m) = fst (check env cfg now ip sc m')"
  using assms by (auto simp: check_def Let_def split: prod.splits option.splits)

subsection \<open>A lock holds until it expires\<close>

lemma rl_step_keeps_lock:
  assumes "map_ok m" and "map_of m key = Some e" and "isLocked e (t + int (fst c))"
    and "\<not> rl_clears env key (snd c)"
  shows "map_of (snd (rl_step env cfg c (t, m))) key = Some e"
proof (cases c)
  case (Pair dt call)
  have here: "map_of (snd (check env cfg (t + int dt) ip sc m)) key = Some e" for ip sc
    using assms Pair
    by (cases "fst (resolveKey env ip sc) = key")
      (auto simp: check_def Let_def store_law split: prod.splits option.splits)
  have fail: "map_of (recordFailure env cfg (t + int dt) ip sc m) key = Some e" for ip sc
    using assms Pair
    by (cases "fst (resolveKey env ip sc) = key")
      (auto simp: recordFailure_def Let_def store_law split: prod.splits)
  show ?thesis
    using assms Pair here fail
    by (cases call) (auto simp: Let_def map_of_prune reset_def rl_clears_def store_law)
qed

lemma rl_run_clock: "fst (fold (rl_step env cfg) calls (t, m)) = t + int (sum_list (map fst calls))"
proof (induction calls arbitrary: t m)
  case (Cons c calls)
  obtain dt call where "c = (dt, call)" by (cases c)
  with Cons.IH [of "t + int dt"] show ?case by (simp add: Let_def)
qed simp

lemma rl_run_keeps_lock:
  assumes "map_ok m" and "map_of m key = Some e" and "lockedUntil e = Some u" and "u \<noteq> 0"
    and "t + int (sum_list (map fst calls)) < u"
    and "\<forall>c \<in> set calls. \<not> rl_clears env key (snd c)"
  shows "map_of (snd (fold (rl_step env cfg) calls (t, m))) key = Some e"
  using assms
proof (induction calls arbitrary: t m)
  case (Cons c calls)
  obtain dt call where c: "c = (dt, call)" by (cases c)
  obtain m1 where m1: "rl_step env cfg c (t, m) = (t + int dt, m1)"
    using c by (cases "rl_step env cfg c (t, m)") (auto simp: Let_def)
  have "isLocked e (t + int dt)" using Cons.prems c by (simp add: isLocked_def)
  then have "map_of m1 key = Some e"
    using rl_step_keeps_lock [of m key e t c env cfg] Cons.prems c m1 by simp
  moreover have "map_ok m1" using rl_step_map_ok [OF Cons.prems(1), of env cfg c t] m1 by simp
  ultimately show ?case using Cons.IH [of m1 "t + int dt"] Cons.prems c m1 by simp
qed simp

subsection \<open>Counting failures\<close>

lemma recordFailure_unlocked:
  assumes "resolveKey env ip sc = (key, addr)" and "\<not> isExempt env cfg addr"
    and "coalesce (map_of m key) \<lparr>attempts = [], lockedUntil = None\<rparr> = e"
    and "\<not> isLocked e now" and "attempts (slideWindow cfg now e) = bs"
  shows "map_of (recordFailure env cfg now ip sc m) key =
     Some \<lparr>attempts = bs @ [now],
           lockedUntil = (if maxAttempts cfg \<le> int (length (bs @ [now])) then Some (now + lockoutMs cfg)
                          else lockedUntil e)\<rparr>"
  using assms by (simp add: recordFailure_def slideWindow_def store_law Let_def)

text \<open>The entry after failures at the times \<open>ts\<close>, all inside one window.\<close>

lemma failures_in_window:
  assumes key: "resolveKey env ip sc = (key, addr)" and "\<not> isExempt env cfg addr"
    and "map_of m key = None"
  shows "\<lbrakk>ts \<noteq> []; int (length ts) \<le> maxAttempts cfg; sorted ts; last ts - windowMs cfg < hd ts\<rbrakk> \<Longrightarrow>
    map_of (fold (\<lambda>t. recordFailure env cfg t ip sc) ts m) key =
      Some \<lparr>attempts = ts,
            lockedUntil = (if int (length ts) = maxAttempts cfg then Some (last ts + lockoutMs cfg) else None)\<rparr>"
proof (induction ts rule: rev_induct)
  case (snoc t ts)
  let ?f = "\<lambda>t. recordFailure env cfg t ip sc"
  have in_window: "filter (\<lambda>x. t - windowMs cfg < x) ts = ts"
    using snoc.prems by (cases ts) (auto simp: sorted_append filter_id_conv)
  have "coalesce (map_of (fold ?f ts m) key) \<lparr>attempts = [], lockedUntil = None\<rparr> =
      \<lparr>attempts = ts, lockedUntil = None\<rparr>"
  proof (cases "ts = []")
    case False
    then have "last ts \<le> t" using snoc.prems by (auto simp: sorted_append)
    then have "last ts - windowMs cfg < hd ts" using snoc.prems False by simp
    then show ?thesis using snoc False by (auto simp: sorted_append)
  qed (use assms in simp)
  then show ?case
    using recordFailure_unlocked [OF key assms(2), of "fold ?f ts m"] snoc.prems in_window
    by (simp add: isLocked_def slideWindow_def)
qed simp

subsection \<open>Bounded entries\<close>

text \<open>
  What every entry satisfies when the window is no longer than the lock-out (as in the
  defaults): its times are sorted, none is in the future, there are never more than
  \<open>maxAttempts\<close> of them, and a full entry carries the lock its last failure set.
\<close>

definition window_fits :: "limiter \<Rightarrow> bool" where
  "window_fits cfg \<longleftrightarrow> 0 < windowMs cfg \<and> windowMs cfg \<le> lockoutMs cfg"

definition rl_entry_ok :: "limiter \<Rightarrow> int \<Rightarrow> rl_entry \<Rightarrow> bool" where
  "rl_entry_ok cfg t e \<longleftrightarrow>
     sorted (attempts e) \<and> (\<forall>a \<in> set (attempts e). 0 \<le> a \<and> a \<le> t) \<and>
     int (length (attempts e)) \<le> max 1 (maxAttempts cfg) \<and>
     (attempts e \<noteq> [] \<and> maxAttempts cfg \<le> int (length (attempts e)) \<longrightarrow>
        lockedUntil e = Some (last (attempts e) + lockoutMs cfg))"

definition rl_inv :: "limiter \<Rightarrow> int \<times> rl_map \<Rightarrow> bool" where
  "rl_inv cfg s \<longleftrightarrow> map_ok (snd s) \<and> 0 \<le> fst s \<and>
     (window_fits cfg \<longrightarrow> (\<forall>k e. map_of (snd s) k = Some e \<longrightarrow> rl_entry_ok cfg (fst s) e))"

lemma rl_entry_ok_later: "rl_entry_ok cfg t e \<Longrightarrow> t \<le> t' \<Longrightarrow> rl_entry_ok cfg t' e"
  by (force simp: rl_entry_ok_def)

text \<open>An unlocked full entry has only failures older than the window, so sliding empties it.\<close>

lemma slide_unlocked:
  assumes "window_fits cfg" and "rl_entry_ok cfg t e" and "t \<le> now" and "\<not> isLocked e now"
  shows "rl_entry_ok cfg now (slideWindow cfg now e)"
    and "attempts (slideWindow cfg now e) = [] \<or> int (length (attempts (slideWindow cfg now e))) < maxAttempts cfg"
proof -
  let ?old = "attempts e" and ?new = "attempts (slideWindow cfg now e)"
  have empty: "?new = []" if "maxAttempts cfg \<le> int (length ?old)" and "?old \<noteq> []"
  proof -
    from that assms(2) have u: "lockedUntil e = Some (last ?old + lockoutMs cfg)"
      by (simp add: rl_entry_ok_def)
    have "0 \<le> last ?old" using that assms(2) by (simp add: rl_entry_ok_def)
    with u assms(1,4) have "last ?old + lockoutMs cfg \<le> now"
      by (auto simp: isLocked_def window_fits_def)
    then have "last ?old \<le> now - windowMs cfg" using assms(1) by (simp add: window_fits_def)
    moreover have "\<forall>a \<in> set ?old. a \<le> last ?old"
      using assms(2) by (auto simp: rl_entry_ok_def intro: sorted_le_last)
    ultimately show ?thesis by (force simp: slideWindow_def filter_empty_conv)
  qed
  have len: "length ?new \<le> length ?old" by (simp add: slideWindow_def)
  show small: "?new = [] \<or> int (length ?new) < maxAttempts cfg"
  proof (cases "?old = []")
    case False
    then show ?thesis using empty len by (cases "maxAttempts cfg \<le> int (length ?old)") auto
  qed (simp add: slideWindow_def)
  show "rl_entry_ok cfg now (slideWindow cfg now e)"
    using assms(2,3) small len by (auto simp: rl_entry_ok_def slideWindow_def sorted_wrt_filter)
qed

text \<open>A lock in the future that is not yet due keeps the entry; an expired or absent one lets
  the operations slide the window first.\<close>

lemma isLocked_or_expired:
  "\<not> isLocked e now \<Longrightarrow> lockExpired e now \<or> lockedUntil e = None \<or> lockedUntil e = Some 0"
  by (auto simp: isLocked_def lockExpired_def split: option.splits)

lemma check_entry_ok:
  assumes "window_fits cfg" and "rl_entry_ok cfg t e" and "t \<le> now" and "map_ok m"
    and "map_of m k = Some e" and "map_of (snd (check env cfg now ip sc m)) k = Some e'"
  shows "rl_entry_ok cfg now e'"
proof -
  have slid: "rl_entry_ok cfg now (slideWindow cfg now e)" if "\<not> isLocked e now"
    using slide_unlocked(1) assms(1-3) that by blast
  have cleared: "rl_entry_ok cfg now (slideWindow cfg now (e\<lparr>lockedUntil := None, attempts := []\<rparr>))"
    by (simp add: rl_entry_ok_def slideWindow_def)
  show ?thesis
  proof (cases "fst (resolveKey env ip sc) = k")
    case True
    then show ?thesis using assms(5,6) slid cleared rl_entry_ok_later [OF assms(2,3)]
      by (auto simp: check_def Let_def store_law split: prod.splits if_splits)
  next
    case False
    then show ?thesis using assms(5,6) check_other_key rl_entry_ok_later [OF assms(2,3)] by fastforce
  qed
qed

lemma check_domain: "map_of (snd (check env cfg now ip sc m)) k = Some e' \<Longrightarrow> map_of m k \<noteq> None"
  by (cases "fst (resolveKey env ip sc) = k")
    (auto simp: check_def Let_def store_law split: prod.splits option.splits if_splits)

lemma recordFailure_entry_ok:
  assumes fits: "window_fits cfg" and old: "\<forall>e. map_of m k = Some e \<longrightarrow> rl_entry_ok cfg t e"
    and "t \<le> now" and "0 \<le> now" and new: "map_of (recordFailure env cfg now ip sc m) k = Some e'"
  shows "rl_entry_ok cfg now e'"
proof -
  obtain key addr where r: "resolveKey env ip sc = (key, addr)" by (cases "resolveKey env ip sc")
  show ?thesis
  proof (cases "key = k \<and> \<not> isExempt env cfg addr")
    case True
    define e where "e = coalesce (map_of m k) \<lparr>attempts = [], lockedUntil = None\<rparr>"
    have ok: "rl_entry_ok cfg now e"
      using old rl_entry_ok_later [OF _ \<open>t \<le> now\<close>]
      by (cases "map_of m k") (auto simp: e_def rl_entry_ok_def)
    show ?thesis
    proof (cases "isLocked e now")
      case True
      with \<open>key = k \<and> \<not> isExempt env cfg addr\<close> new r have "e' = e"
        by (simp add: recordFailure_def e_def [symmetric] store_law Let_def)
      then show ?thesis using ok by simp
    next
      case False
      let ?bs = "attempts (slideWindow cfg now e)"
      have e': "e' = \<lparr>attempts = ?bs @ [now],
          lockedUntil = (if maxAttempts cfg \<le> int (length (?bs @ [now])) then Some (now + lockoutMs cfg)
                         else lockedUntil e)\<rparr>"
        using recordFailure_unlocked [OF r, of cfg m e now ?bs] True False new e_def by simp
      show ?thesis
        using slide_unlocked [OF fits ok order_refl False] \<open>0 \<le> now\<close>
        by (auto simp: e' rl_entry_ok_def sorted_append)
    qed
  next
    case False
    then have "map_of (recordFailure env cfg now ip sc m) k = map_of m k"
      using r recordFailure_other_key [of env ip sc k cfg now m] by (auto simp: recordFailure_def)
    then show ?thesis using new old rl_entry_ok_later [OF _ \<open>t \<le> now\<close>] by auto
  qed
qed

lemma prune_entry_ok:
  assumes "window_fits cfg" and "map_ok m" and "\<forall>e. map_of m k = Some e \<longrightarrow> rl_entry_ok cfg t e"
    and "t \<le> now" and "map_of (prune cfg now m) k = Some e'"
  shows "rl_entry_ok cfg now e'"
  using assms slide_unlocked(1) rl_entry_ok_later
  by (auto simp: map_of_prune split: option.splits if_splits)

lemma rl_step_inv: "rl_inv cfg s \<Longrightarrow> rl_inv cfg (rl_step env cfg c s)"
proof -
  assume inv: "rl_inv cfg s"
  obtain t m where s: "s = (t, m)" by (cases s)
  obtain dt call where c: "c = (dt, call)" by (cases c)
  have ok: "map_ok m" and pos: "0 \<le> t + int dt" using inv s by (auto simp: rl_inv_def)
  have old: "window_fits cfg \<Longrightarrow> \<forall>e. map_of m k = Some e \<longrightarrow> rl_entry_ok cfg t e" for k
    using inv s by (auto simp: rl_inv_def)
  have entries: "rl_entry_ok cfg (t + int dt) e'"
    if "window_fits cfg" and "map_of (snd (rl_step env cfg c s)) k = Some e'" for k e'
  proof (cases call)
    case (CallCheck ip sc)
    then have new: "map_of (snd (check env cfg (t + int dt) ip sc m)) k = Some e'"
      using that c s by (simp add: Let_def)
    then obtain e where "map_of m k = Some e" using check_domain by fastforce
    then show ?thesis using that old [of k] ok check_entry_ok [of cfg t e "t + int dt" m k] new by simp
  next
    case (CallFailure ip sc)
    then show ?thesis using that old [of k] pos c s recordFailure_entry_ok [of cfg m k t "t + int dt"]
      by (auto simp: Let_def)
  next
    case (CallReset ip sc)
    then show ?thesis using that old [of k] c s rl_entry_ok_later
      by (auto simp: Let_def reset_def delete_conv' split: if_splits)
  next
    case CallPrune
    then show ?thesis using that old [of k] ok c s prune_entry_ok [of cfg m k t "t + int dt"]
      by (auto simp: Let_def)
  next
    case CallDispose
    then show ?thesis using that c s by (simp add: Let_def dispose_def)
  qed
  moreover have "map_ok (snd (rl_step env cfg c s))" using rl_step_map_ok [OF ok] s by simp
  ultimately show ?thesis using pos c s by (auto simp: rl_inv_def Let_def)
qed

interpretation rl: guarded_system "(0, [])" "rl_step env cfg" "rl_inv cfg" for env cfg
  by unfold_locales (simp_all add: rl_step_inv, simp add: rl_inv_def)

subsection \<open>Properties\<close>

text \<open>C16: Once an entry is locked until \<open>u\<close>, every check of its key made before \<open>u\<close> is
  refused with the milliseconds left, whatever calls come in between (checks and failures of this
  or any other key, prunes), unless one of them resets that key or disposes of the limiter.\<close>

theorem lockout_holds:
  assumes "resolveKey env ip sc = (key, addr)" and "\<not> isExempt env cfg addr"
    and "map_ok m" and "map_of m key = Some e" and "lockedUntil e = Some u" and "u \<noteq> 0"
    and "\<forall>c \<in> set calls. \<not> rl_clears env key (snd c)"
    and "fold (rl_step env cfg) calls (t, m) = (t', m')" and "t' < u"
  shows "fst (check env cfg t' ip sc m') = \<lparr>allowed = False, remaining = 0, retryAfterMs = u - t'\<rparr>"
proof -
  have "t' = t + int (sum_list (map fst calls))"
    using rl_run_clock [of env cfg calls t m] assms(8) by simp
  then have "map_of m' key = Some e"
    using rl_run_keeps_lock [OF assms(3-6), of t calls env cfg] assms(7-9) by simp
  then show ?thesis using assms by (simp add: check_def isLocked_def)
qed

definition demo_env :: net_env where
  "demo_env = \<lparr>resolveClientIp = (\<lambda>ip. ip), isLoopbackAddress = (\<lambda>ip. ip = ''127.0.0.1'')\<rparr>"

definition demo_limiter :: limiter where
  "demo_limiter = createAuthRateLimiter
     \<lparr>opt_maxAttempts = Some 2, opt_windowMs = None, opt_lockoutMs = None, opt_exemptLoopback = None,
      opt_pruneIntervalMs = None\<rparr>"

lemmas demo_rl_defs = demo_env_def demo_limiter_def createAuthRateLimiter_def resolveKey_def
  normalizeRateLimitClientIp_def normalizeScope_def isExempt_def js_string js_space_def

theorem lockout_holds_witness:
  "fst (check demo_env demo_limiter 5000 (Some ''10.0.0.7'') None
     (snd (fold (rl_step demo_env demo_limiter) [(1000, CallPrune), (3000, CallFailure (Some ''10.0.0.8'') None)]
        (1000, [(''default:10.0.0.7'', \<lparr>attempts = [900, 1000], lockedUntil = Some 301000\<rparr>)]))))
   = \<lparr>allowed = False, remaining = 0, retryAfterMs = 296000\<rparr>"
  using lockout_holds [of demo_env "Some ''10.0.0.7''" None "''default:10.0.0.7''" "''10.0.0.7''" demo_limiter
      "[(''default:10.0.0.7'', \<lparr>attempts = [900, 1000], lockedUntil = Some 301000\<rparr>)]"
      "\<lparr>attempts = [900, 1000], lockedUntil = Some 301000\<rparr>" 301000
      "[(1000, CallPrune), (3000, CallFailure (Some ''10.0.0.8'') None)]" 1000
      5000 "snd (fold (rl_step demo_env demo_limiter) [(1000, CallPrune), (3000, CallFailure (Some ''10.0.0.8'') None)]
        (1000, [(''default:10.0.0.7'', \<lparr>attempts = [900, 1000], lockedUntil = Some 301000\<rparr>)]))"]
  by (simp add: demo_rl_defs map_ok_def rl_clears_def prod_eq_iff Let_def)

text \<open>A key with no entry is granted exactly \<open>maxAttempts\<close> failures within one window:
  after fewer, a check still inside the window is allowed with the difference remaining; after
  exactly that many it is refused until the lock-out has passed.\<close>

theorem failures_counted:
  assumes "resolveKey env ip sc = (key, addr)" and "\<not> isExempt env cfg addr" and "map_of m key = None"
    and "ts \<noteq> []" and "sorted ts" and "int (length ts) \<le> maxAttempts cfg"
    and "last ts \<le> now" and "now - windowMs cfg < hd ts" and "0 < last ts + lockoutMs cfg"
  shows "fst (check env cfg now ip sc (fold (\<lambda>t. recordFailure env cfg t ip sc) ts m)) =
    (if int (length ts) < maxAttempts cfg
     then \<lparr>allowed = True, remaining = maxAttempts cfg - int (length ts), retryAfterMs = 0\<rparr>
     else if now < last ts + lockoutMs cfg
     then \<lparr>allowed = False, remaining = 0, retryAfterMs = last ts + lockoutMs cfg - now\<rparr>
     else \<lparr>allowed = 0 < maxAttempts cfg, remaining = maxAttempts cfg, retryAfterMs = 0\<rparr>)"
proof -
  let ?m = "fold (\<lambda>t. recordFailure env cfg t ip sc) ts m"
  have "filter (\<lambda>x. now - windowMs cfg < x) ts = ts"
    using assms(4,5,8) by (cases ts) (auto simp: filter_id_conv)
  moreover have "map_of ?m key = Some \<lparr>attempts = ts,
      lockedUntil = (if int (length ts) = maxAttempts cfg then Some (last ts + lockoutMs cfg) else None)\<rparr>"
    using failures_in_window [OF assms(1-4,6,5)] assms(7,8) by simp
  ultimately show ?thesis using assms
    by (simp add: check_def isLocked_def lockExpired_def slideWindow_def Let_def)
qed

theorem failures_counted_witness:
  "allowed (fst (check demo_env demo_limiter 1500 (Some ''10.0.0.7'') None
     (fold (\<lambda>t. recordFailure demo_env demo_limiter t (Some ''10.0.0.7'') None) [1000] []))) \<and>
   \<not> allowed (fst (check demo_env demo_limiter 1500 (Some ''10.0.0.7'') None
     (fold (\<lambda>t. recordFailure demo_env demo_limiter t (Some ''10.0.0.7'') None) [1000, 1400] [])))"
  using failures_counted [of demo_env "Some ''10.0.0.7''" None "''default:10.0.0.7''" "''10.0.0.7''" demo_limiter
      "[]" "[1000]" 1500]
    failures_counted [of demo_env "Some ''10.0.0.7''" None "''default:10.0.0.7''" "''10.0.0.7''" demo_limiter
      "[]" "[1000, 1400]" 1500]
  by (simp add: demo_rl_defs Let_def)

text \<open>The periodic prune is invisible to the callers: dropping stale entries at \<open>t\<close> changes
  no decision made at \<open>t\<close> or later, for any address and scope.\<close>

theorem prune_invisible:
  assumes "map_ok m" and "0 < maxAttempts cfg" and "t \<le> now"
  shows "fst (check env cfg now ip sc (prune cfg t m)) = fst (check env cfg now ip sc m)"
proof -
  obtain key addr where r: "resolveKey env ip sc = (key, addr)" by (cases "resolveKey env ip sc")
  have later: "filter (\<lambda>x. now - windowMs cfg < x) (filter (\<lambda>x. t - windowMs cfg < x) xs) =
      filter (\<lambda>x. now - windowMs cfg < x) xs" for xs
    using assms(3) by (induction xs) auto
  show ?thesis
  proof (cases "map_of m key")
    case None
    then show ?thesis using r assms(1) by (simp add: check_def map_of_prune)
  next
    case (Some e)
    consider "isLocked e t" | "\<not> isLocked e t" "attempts (slideWindow cfg t e) = []"
      | "\<not> isLocked e t" "attempts (slideWindow cfg t e) \<noteq> []" by blast
    then show ?thesis
    proof cases
      case 1
      then have "map_of (prune cfg t m) key = map_of m key" using Some assms(1) by (simp add: map_of_prune)
      then show ?thesis using check_cong r by (metis fst_conv)
    next
      case 2
      then have "map_of (prune cfg t m) key = None" using Some assms(1) by (simp add: map_of_prune)
      moreover have "filter (\<lambda>x. now - windowMs cfg < x) (attempts e) = []"
        using later [of "attempts e"] 2 by (simp add: slideWindow_def del: filter_filter)
      ultimately show ?thesis using 2 Some r assms(2,3)
        by (auto simp: check_def Let_def slideWindow_def isLocked_def split: option.splits)
    next
      case 3
      then have "map_of (prune cfg t m) key = Some (slideWindow cfg t e)"
        using Some assms(1) by (simp add: map_of_prune)
      then show ?thesis using 3 Some r later [of "attempts e"]
        by (simp add: check_def Let_def slideWindow_def isLocked_def lockExpired_def)
    qed
  qed
qed

theorem prune_invisible_witness:
  "fst (check demo_env demo_limiter 90000 (Some ''10.0.0.7'') None
      (prune demo_limiter 80000 [(''default:10.0.0.7'', \<lparr>attempts = [900], lockedUntil = None\<rparr>)])) =
   fst (check demo_env demo_limiter 90000 (Some ''10.0.0.7'') None
      [(''default:10.0.0.7'', \<lparr>attempts = [900], lockedUntil = None\<rparr>)])"
  by (rule prune_invisible) (simp_all add: map_ok_def demo_limiter_def createAuthRateLimiter_def)

text \<open>With a window no longer than the lock-out (the defaults are one minute and five), no
  sequence of calls ever makes the limiter hold more than \<open>maxAttempts\<close> timestamps for a key.\<close>

theorem limiter_bounded:
  assumes "window_fits cfg" and "fold (rl_step env cfg) calls (0, []) = (t, m)" and "map_of m k = Some e"
  shows "int (length (attempts e)) \<le> max 1 (maxAttempts cfg)"
proof -
  have "rl_inv cfg (t, m)" using rl.inv_reach [of cfg env calls] assms(2) by simp
  then have "rl_entry_ok cfg t e" using assms by (simp add: rl_inv_def)
  then show ?thesis by (simp add: rl_entry_ok_def)
qed

theorem limiter_bounded_witness:
  "length (attempts (the (map_of (snd (fold (rl_step demo_env demo_limiter)
      [(5, CallFailure (Some ''10.0.0.7'') None), (5, CallFailure (Some ''10.0.0.7'') None),
       (5, CallFailure (Some ''10.0.0.7'') None)] (0, []))) ''default:10.0.0.7''))) \<le> 2"
  using limiter_bounded [of demo_limiter demo_env
      "[(5, CallFailure (Some ''10.0.0.7'') None), (5, CallFailure (Some ''10.0.0.7'') None),
        (5, CallFailure (Some ''10.0.0.7'') None)]" 15
      "[(''default:10.0.0.7'', \<lparr>attempts = [5, 10], lockedUntil = Some 300010\<rparr>)]" "''default:10.0.0.7''"
      "\<lparr>attempts = [5, 10], lockedUntil = Some 300010\<rparr>"]
  by (simp add: demo_rl_defs window_fits_def recordFailure_def isLocked_def slideWindow_def Let_def)

text \<open>Counters are independent: for scopes without a colon (all the scopes the gateway
  defines), a failure recorded for one scope and address changes no decision about another scope
  or another address.\<close>

theorem failure_isolated:
  assumes "CHR '':'' \<notin> set (normalizeScope sc)" and "CHR '':'' \<notin> set (normalizeScope sc')"
    and "normalizeScope sc \<noteq> normalizeScope sc' \<or>
         normalizeRateLimitClientIp env ip \<noteq> normalizeRateLimitClientIp env ip'"
  shows "fst (check env cfg now ip' sc' (recordFailure env cfg t ip sc m)) = fst (check env cfg now ip' sc' m)"
proof -
  have split: "a = c \<and> b = d" if "a @ CHR '':'' # b = c @ CHR '':'' # d"
    "CHR '':'' \<notin> set a" "CHR '':'' \<notin> set c" for a b c d :: string
    using that by (induction a arbitrary: c) (auto simp: Cons_eq_append_conv)
  have "fst (resolveKey env ip sc) \<noteq> fst (resolveKey env ip' sc')"
    using split [of "normalizeScope sc" _ "normalizeScope sc'"] assms
    by (auto simp: resolveKey_def Let_def)
  then show ?thesis by (intro check_cong recordFailure_other_key)
qed

theorem failure_isolated_witness:
  "fst (check demo_env demo_limiter 7 (Some ''10.0.0.7'') (Some ''device-token'')
      (recordFailure demo_env demo_limiter 5 (Some ''10.0.0.7'') None [])) =
   fst (check demo_env demo_limiter 7 (Some ''10.0.0.7'') (Some ''device-token'') [])"
  by (rule failure_isolated) (simp_all add: demo_rl_defs Let_def)

text \<open>When the window is longer than the lock-out, a failure recorded after the lock has expired
  still counts the failures that led to it and locks at once; had a check come first, it would
  have cleared them.\<close>

lemma relock_depends_on_check:
  fixes m cfg
  defines "cfg \<equiv> demo_limiter\<lparr>windowMs := 600000\<rparr>"
    and "m \<equiv> [(''default:10.0.0.7'', \<lparr>attempts = [5, 10], lockedUntil = Some 300010\<rparr>)]"
  shows "lockedUntil (the (map_of (recordFailure demo_env cfg 300020 (Some ''10.0.0.7'') None m) ''default:10.0.0.7''))
           = Some 600020"
    and "lockedUntil (the (map_of (recordFailure demo_env cfg 300020 (Some ''10.0.0.7'') None
           (snd (check demo_env cfg 300020 (Some ''10.0.0.7'') None m))) ''default:10.0.0.7'')) = None"
  by (simp_all add: cfg_def m_def demo_rl_defs recordFailure_def check_def isLocked_def lockExpired_def
      slideWindow_def Let_def)

end
