(* ===== verification/CommandQueue.thy ===== *)
theory CommandQueue
  imports JsPrelude
begin

text \<open>
  The in-process command queue, \<^verbatim>\<open>packages/core/src/process/command-queue.ts\<close>: named lanes, each
  with a queue of waiting entries, a set of running task ids, a concurrency limit and a generation
  that invalidates completions of tasks started before a reset.

  The asynchronous parts are made explicit. The promise returned to a caller is a number;
  \<open>settled\<close> lists what was resolved (\<open>Inr\<close>) or rejected (\<open>Inl\<close>), in order. The async function
  started for each dequeued entry is a record in \<open>inflight\<close>; its continuation runs when the
  outcome of the task arrives, as the call \<open>finishTask\<close>. A started task runs in a later microtask,
  so nothing re-enters \<open>pump\<close>; the \<open>onWait\<close> callback is recorded, not run. The limit given to
  \<^verbatim>\<open>setCommandLaneConcurrency\<close> is an integer (the code would keep a NaN).
\<close>

subsection \<open>Data\<close>

datatype command_error =
    CommandLaneClearedError string
  | CommandLaneTaskTimeoutError string int
  | GatewayDrainingError
  | TaskFailure string

record queue_entry =
  promise :: nat
  enqueuedAt :: int
  warnAfterMs :: int
  taskTimeoutMs :: "int option"
  hasOnWait :: bool

record lane_state =
  lane :: string
  queue :: "queue_entry list"
  activeTaskIds :: "nat list"
  maxConcurrent :: int
  draining :: bool
  generation :: nat

record lane_snapshot =
  snap_lane :: string
  queuedCount :: nat
  activeCount :: nat
  snap_maxConcurrent :: int
  snap_draining :: bool
  snap_generation :: nat

record active_task_waiter =
  waiter_id :: nat
  waiter_tasks :: "nat list"
  waiter_timeout :: bool

text \<open>The locals of the async function that runs one entry.\<close>

record started_task =
  task_id :: nat
  task_generation :: nat
  task_lane :: string
  task_entry :: queue_entry

record queue_state =
  gatewayDraining :: bool
  lanes :: "(string, lane_state) js_map"
  activeTaskWaiters :: "active_task_waiter list"
  nextTaskId :: nat
  inflight :: "started_task list"
  settled :: "(nat \<times> (command_error + string)) list"
  nextPromise :: nat
  drained :: "(nat \<times> bool) list"
  nextWaiter :: nat
  waitWarnings :: "(nat \<times> int \<times> nat) list"

definition initQueueState :: queue_state where
  "initQueueState = \<lparr>gatewayDraining = False, lanes = [], activeTaskWaiters = [], nextTaskId = 1,
     inflight = [], settled = [], nextPromise = 0, drained = [], nextWaiter = 0, waitWarnings = []\<rparr>"

subsection \<open>Lanes\<close>

definition normalizeLane :: "string \<Rightarrow> string" where
  "normalizeLane name = (let s = js_trim name in if s = [] then ''main'' else s)"

definition getLaneDepth :: "lane_state \<Rightarrow> nat" where
  "getLaneDepth st = length (queue st) + length (activeTaskIds st)"

definition createCommandLaneSnapshot :: "lane_state \<Rightarrow> lane_snapshot" where
  "createCommandLaneSnapshot st =
     \<lparr>snap_lane = lane st, queuedCount = length (queue st), activeCount = length (activeTaskIds st),
      snap_maxConcurrent = maxConcurrent st, snap_draining = draining st,
      snap_generation = generation st\<rparr>"

definition newLane :: "string \<Rightarrow> lane_state" where
  "newLane name = \<lparr>lane = name, queue = [], activeTaskIds = [], maxConcurrent = 1, draining = False,
     generation = 0\<rparr>"

definition getLaneState :: "string \<Rightarrow> queue_state \<Rightarrow> lane_state \<times> queue_state" where
  "getLaneState name qs =
     (case map_of (lanes qs) name of
        Some st \<Rightarrow> (st, qs)
      | None \<Rightarrow> (newLane name, qs\<lparr>lanes := AList.update name (newLane name) (lanes qs)\<rparr>))"

definition putLane :: "lane_state \<Rightarrow> queue_state \<Rightarrow> queue_state" where
  "putLane st qs = qs\<lparr>lanes := AList.update (lane st) st (lanes qs)\<rparr>"

subsection \<open>Settling promises and waiters\<close>

definition settle :: "nat \<Rightarrow> command_error + string \<Rightarrow> queue_state \<Rightarrow> queue_state" where
  "settle p r qs = qs\<lparr>settled := settled qs @ [(p, r)]\<rparr>"

definition hasPendingActiveTasks :: "nat list \<Rightarrow> queue_state \<Rightarrow> bool" where
  "hasPendingActiveTasks ids qs \<longleftrightarrow>
     list_ex (\<lambda>(n, st). list_ex (\<lambda>t. t \<in> set ids) (activeTaskIds st)) (lanes qs)"

text \<open>\<^verbatim>\<open>activeTaskWaiters.delete(waiter)\<close> answers whether the waiter was still there; only then is
  its promise resolved.\<close>

definition resolveActiveTaskWaiter :: "active_task_waiter \<Rightarrow> bool \<Rightarrow> queue_state \<Rightarrow> queue_state" where
  "resolveActiveTaskWaiter w result qs =
     (if waiter_id w \<notin> set (map waiter_id (activeTaskWaiters qs)) then qs
      else qs\<lparr>activeTaskWaiters := filter (\<lambda>v. waiter_id v \<noteq> waiter_id w) (activeTaskWaiters qs),
              drained := drained qs @ [(waiter_id w, result)]\<rparr>)"

definition notifyActiveTaskWaiters :: "queue_state \<Rightarrow> queue_state" where
  "notifyActiveTaskWaiters qs =
     fold (\<lambda>w q. if waiter_tasks w = [] \<or> \<not> hasPendingActiveTasks (waiter_tasks w) q
                 then resolveActiveTaskWaiter w True q else q)
       (activeTaskWaiters qs) qs"

subsection \<open>Running entries\<close>

definition normalizeTaskTimeoutMs :: "int option \<Rightarrow> int option" where
  "normalizeTaskTimeoutMs v = (case v of None \<Rightarrow> None | Some ms \<Rightarrow> if ms \<le> 0 then None else Some (max 1 ms))"

datatype task_outcome = TaskReturns string | TaskThrows string | TimerFires

text \<open>
  What the race between the task and its timer yields, when that outcome is the first to come.
  Without a timeout there is no timer to fire.
\<close>

definition runQueueEntryTask :: "string \<Rightarrow> queue_entry \<Rightarrow> task_outcome \<Rightarrow> (command_error + string) option" where
  "runQueueEntryTask name e outcome =
     (case outcome of
        TaskReturns v \<Rightarrow> Some (Inr v)
      | TaskThrows err \<Rightarrow> Some (Inl (TaskFailure err))
      | TimerFires \<Rightarrow>
          (case normalizeTaskTimeoutMs (taskTimeoutMs e) of
             None \<Rightarrow> None
           | Some ms \<Rightarrow> Some (Inl (CommandLaneTaskTimeoutError name ms))))"

text \<open>The loop of \<^verbatim>\<open>pump\<close>: while a slot is free and an entry waits, shift it, note a long wait,
  take the next task id and start it.\<close>

fun pumpLoop :: "int \<Rightarrow> string \<Rightarrow> int \<Rightarrow> nat \<Rightarrow> queue_entry list \<Rightarrow> nat list \<Rightarrow> nat
    \<Rightarrow> queue_entry list \<times> nat list \<times> nat \<times> started_task list \<times> (nat \<times> int \<times> nat) list" where
  "pumpLoop now name limit gen [] active nxt = ([], active, nxt, [], [])"
| "pumpLoop now name limit gen (e # q) active nxt =
     (if int (length active) < limit
      then (let waited = now - enqueuedAt e;
                warning = (if warnAfterMs e \<le> waited then [(promise e, waited, length q)] else []);
                (q', active', nxt', ts, ws) = pumpLoop now name limit gen q (active @ [nxt]) (Suc nxt)
            in (q', active', nxt',
                \<lparr>task_id = nxt, task_generation = gen, task_lane = name, task_entry = e\<rparr> # ts,
                warning @ ws))
      else (e # q, active, nxt, [], []))"

definition pump :: "int \<Rightarrow> string \<Rightarrow> queue_state \<Rightarrow> queue_state" where
  "pump now name qs =
     (case map_of (lanes qs) name of
        None \<Rightarrow> qs
      | Some st \<Rightarrow>
          (let (q', active', nxt', ts, ws) =
                 pumpLoop now name (maxConcurrent st) (generation st) (queue st) (activeTaskIds st)
                   (nextTaskId qs)
           in qs\<lparr>lanes := AList.update name
                    (st\<lparr>queue := q', activeTaskIds := active', draining := False\<rparr>) (lanes qs),
                 nextTaskId := nxt', inflight := inflight qs @ ts,
                 waitWarnings := waitWarnings qs @ ws\<rparr>))"

definition drainLane :: "int \<Rightarrow> string \<Rightarrow> queue_state \<Rightarrow> queue_state" where
  "drainLane now name qs =
     (let (st, qs1) = getLaneState name qs
      in if draining st then qs1
         else pump now name (qs1\<lparr>lanes := AList.update name (st\<lparr>draining := True\<rparr>) (lanes qs1)\<rparr>))"

definition completeTask :: "lane_state \<Rightarrow> nat \<Rightarrow> nat \<Rightarrow> lane_state option" where
  "completeTask st taskId taskGeneration =
     (if taskGeneration \<noteq> generation st then None
      else Some (st\<lparr>activeTaskIds := filter (\<lambda>t. t \<noteq> taskId) (activeTaskIds st)\<rparr>))"

text \<open>The continuation of the async function once its task has an outcome.\<close>

definition finishTask :: "int \<Rightarrow> nat \<Rightarrow> task_outcome \<Rightarrow> queue_state \<Rightarrow> queue_state" where
  "finishTask now tid outcome qs =
     (case List.find (\<lambda>r. task_id r = tid) (inflight qs) of
        None \<Rightarrow> qs
      | Some r \<Rightarrow>
          (case runQueueEntryTask (task_lane r) (task_entry r) outcome of
             None \<Rightarrow> qs
           | Some result \<Rightarrow>
               (let qs1 = qs\<lparr>inflight := filter (\<lambda>x. task_id x \<noteq> tid) (inflight qs)\<rparr>;
                    qs2 = (case map_of (lanes qs1) (task_lane r) of
                             None \<Rightarrow> qs1
                           | Some st \<Rightarrow>
                               (case completeTask st tid (task_generation r) of
                                  None \<Rightarrow> qs1
                                | Some st' \<Rightarrow>
                                    pump now (task_lane r) (notifyActiveTaskWaiters (putLane st' qs1))))
                in settle (promise (task_entry r)) result qs2)))"

subsection \<open>Exported operations\<close>

definition markGatewayDraining :: "queue_state \<Rightarrow> queue_state" where
  "markGatewayDraining qs = qs\<lparr>gatewayDraining := True\<rparr>"

definition setCommandLaneConcurrency :: "int \<Rightarrow> string \<Rightarrow> int \<Rightarrow> queue_state \<Rightarrow> queue_state" where
  "setCommandLaneConcurrency now name limit qs =
     (let cleaned = normalizeLane name;
          (st, qs1) = getLaneState cleaned qs
      in drainLane now cleaned (putLane (st\<lparr>maxConcurrent := max 1 limit\<rparr>) qs1))"

record enqueue_options =
  opt_warnAfterMs :: "int option"
  opt_taskTimeoutMs :: "int option"
  opt_onWait :: bool

definition enqueueCommandInLane :: "int \<Rightarrow> string \<Rightarrow> enqueue_options \<Rightarrow> queue_state \<Rightarrow> nat \<times> queue_state" where
  "enqueueCommandInLane now name opts qs =
     (let p = nextPromise qs; qs0 = qs\<lparr>nextPromise := Suc p\<rparr>
      in if gatewayDraining qs then (p, settle p (Inl GatewayDrainingError) qs0)
         else
           (let cleaned = normalizeLane name;
                (st, qs1) = getLaneState cleaned qs0;
                e = \<lparr>promise = p, enqueuedAt = now, warnAfterMs = coalesce (opt_warnAfterMs opts) 2000,
                     taskTimeoutMs = normalizeTaskTimeoutMs (opt_taskTimeoutMs opts),
                     hasOnWait = opt_onWait opts\<rparr>
            in (p, drainLane now cleaned (putLane (st\<lparr>queue := queue st @ [e]\<rparr>) qs1))))"

definition enqueueCommand :: "int \<Rightarrow> enqueue_options \<Rightarrow> queue_state \<Rightarrow> nat \<times> queue_state" where
  "enqueueCommand now opts qs = enqueueCommandInLane now ''main'' opts qs"

definition getQueueSize :: "string \<Rightarrow> queue_state \<Rightarrow> nat" where
  "getQueueSize name qs =
     (case map_of (lanes qs) (normalizeLane name) of None \<Rightarrow> 0 | Some st \<Rightarrow> getLaneDepth st)"

definition getCommandLaneSnapshot :: "string \<Rightarrow> queue_state \<Rightarrow> lane_snapshot" where
  "getCommandLaneSnapshot name qs =
     (let resolved = normalizeLane name
      in case map_of (lanes qs) resolved of
           None \<Rightarrow> \<lparr>snap_lane = resolved, queuedCount = 0, activeCount = 0, snap_maxConcurrent = 1,
                     snap_draining = False, snap_generation = 0\<rparr>
         | Some st \<Rightarrow> createCommandLaneSnapshot st)"

definition getTotalQueueSize :: "queue_state \<Rightarrow> nat" where
  "getTotalQueueSize qs = sum_list (map (getLaneDepth \<circ> snd) (lanes qs))"

definition getActiveTaskCount :: "queue_state \<Rightarrow> nat" where
  "getActiveTaskCount qs = sum_list (map (length \<circ> activeTaskIds \<circ> snd) (lanes qs))"

definition clearCommandLane :: "string \<Rightarrow> queue_state \<Rightarrow> nat \<times> queue_state" where
  "clearCommandLane name qs =
     (let cleaned = normalizeLane name
      in case map_of (lanes qs) cleaned of
           None \<Rightarrow> (0, qs)
         | Some st \<Rightarrow>
             (length (queue st),
              fold (\<lambda>e. settle (promise e) (Inl (CommandLaneClearedError cleaned))) (queue st)
                (putLane (st\<lparr>queue := []\<rparr>) qs)))"

definition idleLane :: "lane_state \<Rightarrow> lane_state" where
  "idleLane st = st\<lparr>generation := Suc (generation st), activeTaskIds := [], draining := False\<rparr>"

definition resetCommandLane :: "int \<Rightarrow> string \<Rightarrow> queue_state \<Rightarrow> nat \<times> queue_state" where
  "resetCommandLane now name qs =
     (let cleaned = normalizeLane name
      in case map_of (lanes qs) cleaned of
           None \<Rightarrow> (0, qs)
         | Some st \<Rightarrow>
             (let qs1 = putLane (idleLane st) qs;
                  qs2 = (if queue st \<noteq> [] then drainLane now cleaned qs1 else qs1)
              in (length (activeTaskIds st), notifyActiveTaskWaiters qs2)))"

definition resetAllLanes :: "int \<Rightarrow> queue_state \<Rightarrow> queue_state" where
  "resetAllLanes now qs =
     (let qs1 = qs\<lparr>gatewayDraining := False, lanes := map (\<lambda>(n, st). (n, idleLane st)) (lanes qs)\<rparr>;
          lanesToDrain = map fst (filter (\<lambda>(n, st). queue st \<noteq> []) (lanes qs))
      in notifyActiveTaskWaiters (fold (drainLane now) lanesToDrain qs1))"

text \<open>For test suites only; it is not one of the calls below.\<close>

definition resetCommandQueueStateForTest :: "queue_state \<Rightarrow> queue_state" where
  "resetCommandQueueStateForTest qs =
     (let qs1 = qs\<lparr>gatewayDraining := False, lanes := []\<rparr>
      in (fold (\<lambda>w. resolveActiveTaskWaiter w True) (activeTaskWaiters qs1) qs1)\<lparr>nextTaskId := 1\<rparr>)"

definition waitForActiveTasks :: "int option \<Rightarrow> queue_state \<Rightarrow> nat \<times> queue_state" where
  "waitForActiveTasks timeoutMs qs =
     (let w = nextWaiter qs; qs0 = qs\<lparr>nextWaiter := Suc w\<rparr>;
          activeAtStart = concat (map (activeTaskIds \<circ> snd) (lanes qs))
      in if activeAtStart = [] then (w, qs0\<lparr>drained := drained qs @ [(w, True)]\<rparr>)
         else case timeoutMs of
           Some ms \<Rightarrow>
             if ms \<le> 0 then (w, qs0\<lparr>drained := drained qs @ [(w, False)]\<rparr>)
             else (w, notifyActiveTaskWaiters (qs0\<lparr>activeTaskWaiters := activeTaskWaiters qs @
                      [\<lparr>waiter_id = w, waiter_tasks = activeAtStart, waiter_timeout = True\<rparr>]\<rparr>))
         | None \<Rightarrow> (w, notifyActiveTaskWaiters (qs0\<lparr>activeTaskWaiters := activeTaskWaiters qs @
                      [\<lparr>waiter_id = w, waiter_tasks = activeAtStart, waiter_timeout = False\<rparr>]\<rparr>)))"

text \<open>The timer of a waiter.\<close>

definition waiterTimeout :: "nat \<Rightarrow> queue_state \<Rightarrow> queue_state" where
  "waiterTimeout w qs =
     (case List.find (\<lambda>v. waiter_id v = w) (activeTaskWaiters qs) of
        Some v \<Rightarrow> if waiter_timeout v then resolveActiveTaskWaiter v False qs else qs
      | None \<Rightarrow> qs)"

subsection \<open>Calls in any order\<close>

datatype cq_call =
    Enqueue string enqueue_options
  | Finish nat task_outcome
  | SetConcurrency string int
  | ClearLane string
  | ResetLane string
  | ResetAll
  | MarkDraining
  | WaitActive "int option"
  | WaiterTimer nat

fun cq_step :: "int \<times> cq_call \<Rightarrow> queue_state \<Rightarrow> queue_state" where
  "cq_step (now, Enqueue n opts) qs = snd (enqueueCommandInLane now n opts qs)"
| "cq_step (now, Finish tid r) qs = finishTask now tid r qs"
| "cq_step (now, SetConcurrency n k) qs = setCommandLaneConcurrency now n k qs"
| "cq_step (now, ClearLane n) qs = snd (clearCommandLane n qs)"
| "cq_step (now, ResetLane n) qs = snd (resetCommandLane now n qs)"
| "cq_step (now, ResetAll) qs = resetAllLanes now qs"
| "cq_step (now, MarkDraining) qs = markGatewayDraining qs"
| "cq_step (now, WaitActive t) qs = snd (waitForActiveTasks t qs)"
| "cq_step (now, WaiterTimer w) qs = waiterTimeout w qs"

subsection \<open>The invariant\<close>

text \<open>
  \<^item> \<open>cq_core\<close>: the lanes are consistent with the tasks in flight. A lane's active ids are exactly
    the in-flight tasks of its current generation, ids are fresh, and within a lane every task in
    flight was enqueued before every waiting entry.
  \<^item> \<open>promise_account\<close>: every promise handed out is at exactly one place: waiting, in flight, or
    settled once.
  \<^item> \<open>saturated\<close>: a lane with waiting entries uses all its slots.
  \<^item> \<open>waiters_live\<close>: a pending waiter still waits for a task some lane counts as active.
\<close>

definition lane_ok :: "queue_state \<Rightarrow> string \<Rightarrow> lane_state \<Rightarrow> bool" where
  "lane_ok qs n st \<longleftrightarrow>
     lane st = n \<and> 1 \<le> maxConcurrent st \<and> \<not> draining st \<and> distinct (activeTaskIds st) \<and>
     set (activeTaskIds st) =
       task_id ` {r \<in> set (inflight qs). task_lane r = n \<and> task_generation r = generation st} \<and>
     sorted_wrt (<) (map promise (queue st)) \<and>
     (\<forall>r \<in> set (inflight qs). task_lane r = n \<longrightarrow> (\<forall>e \<in> set (queue st). promise (task_entry r) < promise e))"

definition cq_core :: "queue_state \<Rightarrow> bool" where
  "cq_core qs \<longleftrightarrow>
     map_ok (lanes qs) \<and> (\<forall>n st. map_of (lanes qs) n = Some st \<longrightarrow> lane_ok qs n st) \<and>
     distinct (map task_id (inflight qs)) \<and>
     (\<forall>r \<in> set (inflight qs). task_id r < nextTaskId qs \<and>
        (\<exists>st. map_of (lanes qs) (task_lane r) = Some st \<and> task_generation r \<le> generation st))"

definition queuedPromises :: "queue_state \<Rightarrow> nat list" where
  "queuedPromises qs = concat (map (\<lambda>(n, st). map promise (queue st)) (lanes qs))"

definition runningPromises :: "queue_state \<Rightarrow> nat list" where
  "runningPromises qs = map (promise \<circ> task_entry) (inflight qs)"

definition promise_account :: "queue_state \<Rightarrow> bool" where
  "promise_account qs \<longleftrightarrow>
     mset (queuedPromises qs) + mset (runningPromises qs) + mset (map fst (settled qs)) = mset [0..<nextPromise qs]"

definition lane_saturated :: "lane_state \<Rightarrow> bool" where
  "lane_saturated st \<longleftrightarrow> (queue st \<noteq> [] \<longrightarrow> maxConcurrent st \<le> int (length (activeTaskIds st)))"

definition saturated :: "queue_state \<Rightarrow> bool" where
  "saturated qs \<longleftrightarrow> (\<forall>n st. map_of (lanes qs) n = Some st \<longrightarrow> lane_saturated st)"

definition waiters_live :: "queue_state \<Rightarrow> bool" where
  "waiters_live qs \<longleftrightarrow>
     (\<forall>w \<in> set (activeTaskWaiters qs). \<exists>n st t. map_of (lanes qs) n = Some st \<and>
        t \<in> set (activeTaskIds st) \<and> t \<in> set (waiter_tasks w))"

definition waiter_account :: "queue_state \<Rightarrow> bool" where
  "waiter_account qs \<longleftrightarrow>
     mset (map waiter_id (activeTaskWaiters qs)) + mset (map fst (drained qs)) = mset [0..<nextWaiter qs]"

subsection \<open>Pumping\<close>

lemma pumpLoop_spec:
  assumes "pumpLoop now n limit gen q active nxt = (q', active', nxt', ts, ws)"
  shows "q = map task_entry ts @ q'" and "active' = active @ [nxt..<nxt + length ts]"
    and "nxt' = nxt + length ts" and "map task_id ts = [nxt..<nxt + length ts]"
    and "\<forall>r \<in> set ts. task_lane r = n \<and> task_generation r = gen"
    and "q' \<noteq> [] \<Longrightarrow> limit \<le> int (length active')"
    and "int (length active') \<le> max (int (length active)) limit"
proof -
  have "q = map task_entry ts @ q' \<and> active' = active @ [nxt..<nxt + length ts] \<and>
    nxt' = nxt + length ts \<and> map task_id ts = [nxt..<nxt + length ts] \<and>
    (\<forall>r \<in> set ts. task_lane r = n \<and> task_generation r = gen) \<and>
    (q' \<noteq> [] \<longrightarrow> limit \<le> int (length active')) \<and>
    int (length active') \<le> max (int (length active)) limit"
    using assms
  proof (induction q arbitrary: active nxt q' active' nxt' ts ws)
    case (Cons e q)
    show ?case
    proof (cases "int (length active) < limit")
      case True
      obtain q1 a1 n1 t1 w1 where rec: "pumpLoop now n limit gen q (active @ [nxt]) (Suc nxt) = (q1, a1, n1, t1, w1)"
        by (cases "pumpLoop now n limit gen q (active @ [nxt]) (Suc nxt)")
      have ts: "ts = \<lparr>task_id = nxt, task_generation = gen, task_lane = n, task_entry = e\<rparr> # t1"
        and eqs: "q' = q1" "active' = a1" "nxt' = n1"
        using Cons.prems True rec by (auto simp: Let_def)
      have "[nxt..<nxt + length ts] = nxt # [Suc nxt..<Suc nxt + length t1]"
        by (simp add: ts upt_conv_Cons del: upt_Suc)
      then show ?thesis using Cons.IH [OF rec] True by (auto simp: ts eqs simp del: upt_Suc)
    next
      case False
      then show ?thesis using Cons.prems by auto
    qed
  qed auto
  then show "q = map task_entry ts @ q'" and "active' = active @ [nxt..<nxt + length ts]"
    and "nxt' = nxt + length ts" and "map task_id ts = [nxt..<nxt + length ts]"
    and "\<forall>r \<in> set ts. task_lane r = n \<and> task_generation r = gen"
    and "q' \<noteq> [] \<Longrightarrow> limit \<le> int (length active')"
    and "int (length active') \<le> max (int (length active)) limit"
    by auto
qed

lemma pump_unfold:
  assumes "map_of (lanes qs) n = Some st"
  obtains ts q' ws where
    "pump now n qs = qs\<lparr>lanes := AList.update n (st\<lparr>queue := q',
        activeTaskIds := activeTaskIds st @ [nextTaskId qs..<nextTaskId qs + length ts], draining := False\<rparr>) (lanes qs),
        nextTaskId := nextTaskId qs + length ts, inflight := inflight qs @ ts,
        waitWarnings := waitWarnings qs @ ws\<rparr>"
    "queue st = map task_entry ts @ q'" "map task_id ts = [nextTaskId qs..<nextTaskId qs + length ts]"
    "\<forall>r \<in> set ts. task_lane r = n \<and> task_generation r = generation st"
    "q' \<noteq> [] \<Longrightarrow> maxConcurrent st \<le> int (length (activeTaskIds st) + length ts)"
    "int (length (activeTaskIds st) + length ts) \<le> max (int (length (activeTaskIds st))) (maxConcurrent st)"
proof -
  obtain q' active' nxt' ts ws where loop:
    "pumpLoop now n (maxConcurrent st) (generation st) (queue st) (activeTaskIds st) (nextTaskId qs) =
      (q', active', nxt', ts, ws)"
    by (cases "pumpLoop now n (maxConcurrent st) (generation st) (queue st) (activeTaskIds st) (nextTaskId qs)")
  note spec = pumpLoop_spec [OF loop]
  show thesis
    by (rule that [where ts = ts and q' = q' and ws = ws]) (use assms loop spec in \<open>auto simp: pump_def\<close>)
qed

lemma drainLane_eq_pump:
  assumes "map_of (lanes qs) n = Some st" and "\<not> draining st"
  shows "drainLane now n qs = pump now n qs"
  using assms
  by (auto simp: drainLane_def pump_def getLaneState_def store_law AList.update_last split: prod.splits)

lemma pump_core:
  assumes core: "cq_core qs" and st: "map_of (lanes qs) n = Some st"
  shows "cq_core (pump now n qs)"
proof -
  from st obtain ts q' ws where
    eq: "pump now n qs = qs\<lparr>lanes := AList.update n (st\<lparr>queue := q',
        activeTaskIds := activeTaskIds st @ [nextTaskId qs..<nextTaskId qs + length ts], draining := False\<rparr>) (lanes qs),
        nextTaskId := nextTaskId qs + length ts, inflight := inflight qs @ ts,
        waitWarnings := waitWarnings qs @ ws\<rparr>"
    and q: "queue st = map task_entry ts @ q'" and ids: "map task_id ts = [nextTaskId qs..<nextTaskId qs + length ts]"
    and ts: "\<forall>r \<in> set ts. task_lane r = n \<and> task_generation r = generation st"
    by (rule pump_unfold)
  have old: "\<forall>r \<in> set (inflight qs). task_id r < nextTaskId qs" using core by (simp add: cq_core_def)
  have new: "task_id ` set ts = {nextTaskId qs..<nextTaskId qs + length ts}"
    using ids by (metis atLeastLessThan_upt image_set)
  have ok: "lane_ok qs n st" using core st by (simp add: cq_core_def)
  have active: "set (activeTaskIds st) \<subseteq> {..<nextTaskId qs}" using ok old by (auto simp: lane_ok_def)
  let ?st = "st\<lparr>queue := q', activeTaskIds := activeTaskIds st @ [nextTaskId qs..<nextTaskId qs + length ts], draining := False\<rparr>"
  have "{r \<in> set (inflight qs @ ts). task_lane r = n \<and> task_generation r = generation st} =
      {r \<in> set (inflight qs). task_lane r = n \<and> task_generation r = generation st} \<union> set ts"
    using ts by auto
  then have ok': "lane_ok (pump now n qs) n ?st"
    using ok ts q active new by (auto simp: lane_ok_def eq image_Un sorted_wrt_append)
  have others: "lane_ok (pump now n qs) m st'" if "map_of (lanes qs) m = Some st'" "m \<noteq> n" for m st'
  proof -
    have "{r \<in> set (inflight qs @ ts). task_lane r = m \<and> task_generation r = generation st'} =
        {r \<in> set (inflight qs). task_lane r = m \<and> task_generation r = generation st'}"
      using ts that by auto
    then show ?thesis using core that ts by (auto simp: cq_core_def lane_ok_def eq)
  qed
  have dist: "distinct (map task_id (inflight qs @ ts))"
    using core ids new old by (auto simp: cq_core_def simp del: map_map)
  show ?thesis
    unfolding cq_core_def
  proof (intro conjI allI ballI impI)
    show "map_ok (lanes (pump now n qs))" using core by (simp add: eq cq_core_def map_ok_update)
    show "lane_ok (pump now n qs) m st'" if "map_of (lanes (pump now n qs)) m = Some st'" for m st'
      using that ok' others by (auto simp: eq update_conv' split: if_splits)
    show "distinct (map task_id (inflight (pump now n qs)))" using dist by (simp add: eq)
    fix r assume r: "r \<in> set (inflight (pump now n qs))"
    then show "task_id r < nextTaskId (pump now n qs)" using old new by (fastforce simp: eq)
    show "\<exists>st. map_of (lanes (pump now n qs)) (task_lane r) = Some st \<and> task_generation r \<le> generation st"
      using r core st ts by (fastforce simp: eq cq_core_def update_conv')
  qed
qed

subsection \<open>What each part of an operation does to the invariant\<close>

definition promiseBag :: "queue_state \<Rightarrow> nat multiset" where
  "promiseBag qs = mset (queuedPromises qs) + mset (runningPromises qs) + mset (map fst (settled qs))"

definition activeIds :: "queue_state \<Rightarrow> nat set" where
  "activeIds qs = {t. \<exists>n st. map_of (lanes qs) n = Some st \<and> t \<in> set (activeTaskIds st)}"

lemma promise_account_bag: "promise_account qs \<longleftrightarrow> promiseBag qs = mset [0..<nextPromise qs]"
  by (simp add: promise_account_def promiseBag_def)

lemma waiters_live_ids: "waiters_live qs \<longleftrightarrow> (\<forall>w \<in> set (activeTaskWaiters qs). set (waiter_tasks w) \<inter> activeIds qs \<noteq> {})"
  by (fastforce simp: waiters_live_def activeIds_def)

lemma settled_frame [simp]:
  "cq_core (qs\<lparr>settled := x\<rparr>) = cq_core qs" "saturated (qs\<lparr>settled := x\<rparr>) = saturated qs"
  "waiters_live (qs\<lparr>settled := x\<rparr>) = waiters_live qs" "waiter_account (qs\<lparr>settled := x\<rparr>) = waiter_account qs"
  by (simp_all add: cq_core_def lane_ok_def saturated_def waiters_live_def waiter_account_def)

lemma settle_inv [simp]:
  "cq_core (settle p r qs) = cq_core qs" "saturated (settle p r qs) = saturated qs"
  "waiters_live (settle p r qs) = waiters_live qs" "waiter_account (settle p r qs) = waiter_account qs"
  by (simp_all add: settle_def)

lemma lane_update:
  assumes "map_of (lanes qs) n = Some st"
  shows "promiseBag (qs\<lparr>lanes := AList.update n st' (lanes qs)\<rparr>) + mset (map promise (queue st)) =
    promiseBag qs + mset (map promise (queue st'))"
  using mset_concat_update [OF assms, where f = "\<lambda>(n, st). map promise (queue st)" and v = st']
  by (simp add: promiseBag_def queuedPromises_def runningPromises_def ac_simps)

lemma promiseBag_settle [simp]: "promiseBag (settle p r qs) = add_mset p (promiseBag qs)"
  by (simp add: promiseBag_def settle_def queuedPromises_def runningPromises_def)

lemma settle_frame [simp]:
  "lanes (settle p r qs) = lanes qs" "inflight (settle p r qs) = inflight qs"
  "nextTaskId (settle p r qs) = nextTaskId qs" "nextPromise (settle p r qs) = nextPromise qs"
  "activeTaskWaiters (settle p r qs) = activeTaskWaiters qs" "drained (settle p r qs) = drained qs"
  "nextWaiter (settle p r qs) = nextWaiter qs" "settled (settle p r qs) = settled qs @ [(p, r)]"
  by (simp_all add: settle_def)

lemma pump_frame [simp]:
  "settled (pump now n qs) = settled qs" "nextPromise (pump now n qs) = nextPromise qs"
  "activeTaskWaiters (pump now n qs) = activeTaskWaiters qs" "drained (pump now n qs) = drained qs"
  "nextWaiter (pump now n qs) = nextWaiter qs"
  by (auto simp: pump_def split: option.splits prod.splits)

lemma pump_bag: "promiseBag (pump now n qs) = promiseBag qs"
proof (cases "map_of (lanes qs) n")
  case None
  then show ?thesis by (simp add: pump_def)
next
  case (Some st)
  then show ?thesis
  proof (rule pump_unfold)
    fix ts q' ws
    assume eq: "pump now n qs = qs\<lparr>lanes := AList.update n (st\<lparr>queue := q',
        activeTaskIds := activeTaskIds st @ [nextTaskId qs..<nextTaskId qs + length ts], draining := False\<rparr>) (lanes qs),
        nextTaskId := nextTaskId qs + length ts, inflight := inflight qs @ ts,
        waitWarnings := waitWarnings qs @ ws\<rparr>"
      and q: "queue st = map task_entry ts @ q'"
    show ?thesis
      using mset_concat_update [OF Some, where f = "\<lambda>(n, st). map promise (queue st)" and
          v = "st\<lparr>queue := q', activeTaskIds := activeTaskIds st @ [nextTaskId qs..<nextTaskId qs + length ts], draining := False\<rparr>"]
      by (simp add: eq q promiseBag_def queuedPromises_def runningPromises_def ac_simps flip: mset_map)
  qed
qed

lemma pump_other: "m \<noteq> n \<Longrightarrow> map_of (lanes (pump now n qs)) m = map_of (lanes qs) m"
  by (auto simp: pump_def store_law split: option.splits prod.splits)

lemma pump_lane:
  assumes "map_of (lanes qs) n = Some st"
  shows "\<exists>st'. map_of (lanes (pump now n qs)) n = Some st' \<and> lane_saturated st' \<and> \<not> draining st' \<and>
    set (activeTaskIds st) \<subseteq> set (activeTaskIds st') \<and> generation st' = generation st"
proof -
  from assms show ?thesis
    by (rule pump_unfold [where now = now]) (auto simp: store_law lane_saturated_def)
qed

lemma pump_lane_dom: "map_of (lanes (pump now n qs)) m = None \<longleftrightarrow> map_of (lanes qs) m = None"
  by (auto simp: pump_def update_conv' split: option.splits prod.splits)

lemma pump_active: "activeIds qs \<subseteq> activeIds (pump now n qs)"
proof
  fix t assume "t \<in> activeIds qs"
  then obtain m st where m: "map_of (lanes qs) m = Some st" "t \<in> set (activeTaskIds st)"
    by (auto simp: activeIds_def)
  show "t \<in> activeIds (pump now n qs)"
  proof (cases "m = n")
    case True
    then show ?thesis using pump_lane [of qs n st now] m by (auto simp: activeIds_def)
  next
    case False
    then have "map_of (lanes (pump now n qs)) m = Some st" using m by (simp add: pump_other)
    then show ?thesis using m(2) unfolding activeIds_def by blast
  qed
qed

lemma pump_waiters: "waiters_live qs \<Longrightarrow> waiters_live (pump now n qs)"
  using pump_active [of qs now n] by (fastforce simp: waiters_live_ids)

lemma pump_saturates:
  assumes "map_of (lanes qs) n = Some st"
    and "\<And>m st'. map_of (lanes qs) m = Some st' \<Longrightarrow> m \<noteq> n \<Longrightarrow> lane_saturated st'"
  shows "saturated (pump now n qs)"
  unfolding saturated_def
proof (intro allI impI)
  fix m st' assume m: "map_of (lanes (pump now n qs)) m = Some st'"
  show "lane_saturated st'"
  proof (cases "m = n")
    case True
    then show ?thesis using m pump_lane [OF assms(1), of now] by auto
  next
    case False
    then show ?thesis using m assms(2) by (simp add: pump_other)
  qed
qed

lemma hasPending_iff: "map_ok (lanes qs) \<Longrightarrow> hasPendingActiveTasks ids qs \<longleftrightarrow> set ids \<inter> activeIds qs \<noteq> {}"
  by (fastforce simp: hasPendingActiveTasks_def activeIds_def list_ex_iff dest: map_of_in_set intro: map_ok_map_of)

definition waiter_waits :: "queue_state \<Rightarrow> active_task_waiter \<Rightarrow> bool" where
  "waiter_waits qs w \<longleftrightarrow> waiter_tasks w \<noteq> [] \<and> hasPendingActiveTasks (waiter_tasks w) qs"

lemma notify_fold:
  assumes "activeTaskWaiters q = kept @ ws" and "distinct (map waiter_id (kept @ ws))"
    and "lanes q = lanes qs"
  shows "fold (\<lambda>w q. if waiter_tasks w = [] \<or> \<not> hasPendingActiveTasks (waiter_tasks w) q
                 then resolveActiveTaskWaiter w True q else q) ws q =
    q\<lparr>activeTaskWaiters := kept @ filter (waiter_waits qs) ws,
      drained := drained q @ map (\<lambda>w. (waiter_id w, True)) (filter (\<lambda>w. \<not> waiter_waits qs w) ws)\<rparr>"
  using assms
proof (induction ws arbitrary: q kept)
  case (Cons w ws)
  have same: "hasPendingActiveTasks ids q = hasPendingActiveTasks ids qs" for ids
    using Cons.prems by (simp add: hasPendingActiveTasks_def)
  have drop: "filter (\<lambda>v. waiter_id v \<noteq> waiter_id w) (kept @ w # ws) = kept @ ws"
    using Cons.prems(2) by (rule filter_out_unique)
  show ?case
  proof (cases "waiter_waits qs w")
    case True
    then show ?thesis using Cons.IH [of q "kept @ [w]"] Cons.prems by (simp add: same waiter_waits_def)
  next
    case False
    have "resolveActiveTaskWaiter w True q =
        q\<lparr>activeTaskWaiters := kept @ ws, drained := drained q @ [(waiter_id w, True)]\<rparr>"
      using drop Cons.prems(1) by (simp add: resolveActiveTaskWaiter_def)
    then show ?thesis using False Cons.IH [of "resolveActiveTaskWaiter w True q" kept] Cons.prems
      by (auto simp: same waiter_waits_def)
  qed
qed simp

lemma waiter_account_distinct: "waiter_account qs \<Longrightarrow> distinct (map waiter_id (activeTaskWaiters qs))"
  by (metis distinct_upt mset_append mset_eq_imp_distinct_iff distinct_append waiter_account_def)

lemma notify_eq:
  assumes "waiter_account qs"
  shows "notifyActiveTaskWaiters qs =
    qs\<lparr>activeTaskWaiters := filter (waiter_waits qs) (activeTaskWaiters qs),
       drained := drained qs @ map (\<lambda>w. (waiter_id w, True)) (filter (\<lambda>w. \<not> waiter_waits qs w) (activeTaskWaiters qs))\<rparr>"
  using notify_fold [of qs "[]" "activeTaskWaiters qs" qs] waiter_account_distinct [OF assms]
  by (simp add: notifyActiveTaskWaiters_def)

lemma notify_frame:
  assumes "waiter_account qs"
  shows "lanes (notifyActiveTaskWaiters qs) = lanes qs" "inflight (notifyActiveTaskWaiters qs) = inflight qs"
    "nextTaskId (notifyActiveTaskWaiters qs) = nextTaskId qs" "settled (notifyActiveTaskWaiters qs) = settled qs"
    "nextPromise (notifyActiveTaskWaiters qs) = nextPromise qs" "nextWaiter (notifyActiveTaskWaiters qs) = nextWaiter qs"
  by (simp_all add: notify_eq [OF assms])

lemma notify_account: "waiter_account qs \<Longrightarrow> waiter_account (notifyActiveTaskWaiters qs)"
proof -
  assume acc: "waiter_account qs"
  have "mset (map waiter_id (filter (waiter_waits qs) ws)) + mset (map waiter_id (filter (\<lambda>w. \<not> waiter_waits qs w) ws)) =
      mset (map waiter_id ws)" for ws
    by (induction ws) auto
  then show ?thesis using acc
    by (simp add: notify_eq [OF acc] waiter_account_def comp_def ac_simps flip: mset_map)
qed

lemma notify_live: "waiter_account qs \<Longrightarrow> map_ok (lanes qs) \<Longrightarrow> waiters_live (notifyActiveTaskWaiters qs)"
  by (auto simp: waiters_live_ids notify_eq waiter_waits_def hasPending_iff activeIds_def)

lemma cq_core_cong:
  assumes "lanes qs' = lanes qs" "inflight qs' = inflight qs" "nextTaskId qs' = nextTaskId qs"
  shows "cq_core qs' = cq_core qs"
  using assms by (simp add: cq_core_def lane_ok_def)

lemma saturated_cong: "lanes qs' = lanes qs \<Longrightarrow> saturated qs' = saturated qs"
  by (simp add: saturated_def)

lemma promiseBag_cong:
  "lanes qs' = lanes qs \<Longrightarrow> inflight qs' = inflight qs \<Longrightarrow> settled qs' = settled qs \<Longrightarrow> promiseBag qs' = promiseBag qs"
  by (simp add: promiseBag_def queuedPromises_def runningPromises_def)

lemma waiters_live_cong:
  "lanes qs' = lanes qs \<Longrightarrow> activeTaskWaiters qs' = activeTaskWaiters qs \<Longrightarrow> waiters_live qs' = waiters_live qs"
  by (simp add: waiters_live_def)

lemma waiter_account_cong:
  "activeTaskWaiters qs' = activeTaskWaiters qs \<Longrightarrow> drained qs' = drained qs \<Longrightarrow> nextWaiter qs' = nextWaiter qs \<Longrightarrow>
   waiter_account qs' = waiter_account qs"
  by (simp add: waiter_account_def)

subsection \<open>Every operation keeps the invariant\<close>

definition cq_inv :: "queue_state \<Rightarrow> bool" where
  "cq_inv qs \<longleftrightarrow> cq_core qs \<and> promise_account qs \<and> saturated qs \<and> waiters_live qs \<and> waiter_account qs"

lemma cq_core_lane: "cq_core qs \<Longrightarrow> map_of (lanes qs) n = Some st \<Longrightarrow> lane_ok qs n st"
  by (simp add: cq_core_def)

lemma lane_ok_cong:
  "inflight qs' = inflight qs \<Longrightarrow> lane_ok qs' n st = lane_ok qs n st"
  by (simp add: lane_ok_def)

text \<open>Replacing one lane, with the tasks in flight unchanged.\<close>

lemma core_put:
  assumes "cq_core qs" and "lane_ok qs n st'"
    and "\<And>st. map_of (lanes qs) n = Some st \<Longrightarrow> generation st \<le> generation st'"
  shows "cq_core (qs\<lparr>lanes := AList.update n st' (lanes qs)\<rparr>)"
  using assms unfolding cq_core_def
  by (auto simp: lane_ok_cong [of "qs\<lparr>lanes := AList.update n st' (lanes qs)\<rparr>" qs] map_ok_update update_conv')

lemma newLane_ok: "cq_core qs \<Longrightarrow> map_of (lanes qs) n = None \<Longrightarrow> lane_ok qs n (newLane n)"
  by (fastforce simp: cq_core_def lane_ok_def newLane_def)

lemma getLaneState_spec:
  assumes "cq_inv qs" and "getLaneState n qs = (st, qs1)"
  shows "cq_inv qs1" and "map_of (lanes qs1) n = Some st" and "nextPromise qs1 = nextPromise qs"
    and "gatewayDraining qs1 = gatewayDraining qs"
proof -
  have core: "cq_core qs" using assms(1) by (simp add: cq_inv_def)
  have "cq_inv qs1 \<and> map_of (lanes qs1) n = Some st \<and> nextPromise qs1 = nextPromise qs \<and> gatewayDraining qs1 = gatewayDraining qs"
  proof (cases "map_of (lanes qs) n")
    case (Some st0)
    then show ?thesis using assms by (auto simp: getLaneState_def)
  next
    case None
    then have qs1: "st = newLane n" "qs1 = qs\<lparr>lanes := AList.update n (newLane n) (lanes qs)\<rparr>"
      using assms(2) by (auto simp: getLaneState_def)
    have "promiseBag qs1 = promiseBag qs"
      using None by (simp add: qs1 promiseBag_def queuedPromises_def runningPromises_def update_absent newLane_def)
    moreover have "activeIds qs1 = activeIds qs"
      using None by (auto simp: qs1 activeIds_def update_conv' newLane_def split: if_splits) (metis option.distinct(1))
    moreover have "saturated qs1"
      using assms(1) by (auto simp: qs1 cq_inv_def saturated_def update_conv' newLane_def lane_saturated_def)
    moreover have "cq_core qs1" unfolding qs1 by (rule core_put [OF core newLane_ok [OF core None]]) (simp add: None)
    ultimately show ?thesis using assms(1)
      by (simp add: cq_inv_def promise_account_bag waiters_live_ids qs1 waiter_account_def store_law)
  qed
  then show "cq_inv qs1" and "map_of (lanes qs1) n = Some st" and "nextPromise qs1 = nextPromise qs"
    and "gatewayDraining qs1 = gatewayDraining qs"
    by auto
qed

lemma lane_ok_idle: "cq_core qs \<Longrightarrow> map_of (lanes qs) n = Some st \<Longrightarrow> lane_ok qs n (idleLane st)"
  by (fastforce simp: cq_core_def lane_ok_def idleLane_def)

lemma put_bag:
  assumes "map_of (lanes qs) (lane st') = Some st"
  shows "promiseBag (putLane st' qs) + mset (map promise (queue st)) = promiseBag qs + mset (map promise (queue st'))"
  using lane_update [OF assms] by (simp add: putLane_def)

lemma put_frame [simp]:
  "inflight (putLane st qs) = inflight qs" "nextTaskId (putLane st qs) = nextTaskId qs"
  "settled (putLane st qs) = settled qs" "nextPromise (putLane st qs) = nextPromise qs"
  "activeTaskWaiters (putLane st qs) = activeTaskWaiters qs" "drained (putLane st qs) = drained qs"
  "nextWaiter (putLane st qs) = nextWaiter qs"
  "lanes (putLane st qs) = AList.update (lane st) st (lanes qs)"
  by (simp_all add: putLane_def)

lemma core_putLane:
  "cq_core qs \<Longrightarrow> lane_ok qs (lane st') st' \<Longrightarrow>
   (\<And>st. map_of (lanes qs) (lane st') = Some st \<Longrightarrow> generation st \<le> generation st') \<Longrightarrow> cq_core (putLane st' qs)"
  unfolding putLane_def by (rule core_put)

text \<open>Editing a lane without touching its active tasks, then pumping it.\<close>

lemma put_pump_inv:
  assumes core: "cq_core qs" and n: "map_of (lanes qs) n = Some st"
    and ok: "lane_ok qs n st'" and gen: "generation st \<le> generation st'"
    and bag: "promiseBag qs + mset (map promise (queue st')) =
      mset [0..<nextPromise qs] + mset (map promise (queue st))"
    and sat: "\<And>m x. map_of (lanes qs) m = Some x \<Longrightarrow> m \<noteq> n \<Longrightarrow> lane_saturated x"
    and acc: "waiter_account qs"
  shows "cq_core (pump now n (putLane st' qs)) \<and> promise_account (pump now n (putLane st' qs)) \<and>
    saturated (pump now n (putLane st' qs)) \<and> waiter_account (pump now n (putLane st' qs))"
proof -
  have ln: "lane st' = n" using ok by (simp add: lane_ok_def)
  have st': "map_of (lanes (putLane st' qs)) n = Some st'" by (simp add: ln store_law)
  have c1: "cq_core (putLane st' qs)" by (rule core_putLane [OF core]) (use ok ln n gen in auto)
  have "promiseBag (putLane st' qs) = mset [0..<nextPromise qs]"
    using put_bag [of qs st' st] n bag by (simp add: ln)
  then have "promise_account (pump now n (putLane st' qs))" by (simp add: promise_account_bag pump_bag)
  moreover have "saturated (pump now n (putLane st' qs))"
    by (rule pump_saturates [OF st']) (use sat in \<open>auto simp: ln store_law\<close>)
  ultimately show ?thesis using pump_core [OF c1 st'] acc
    by (simp add: waiter_account_cong [of "pump now n (putLane st' qs)" qs])
qed

lemma put_waiters:
  assumes "map_of (lanes qs) (lane st') = Some st" and "set (activeTaskIds st) \<subseteq> set (activeTaskIds st')"
    and "waiters_live qs"
  shows "waiters_live (putLane st' qs)"
proof -
  have "activeIds qs \<subseteq> activeIds (putLane st' qs)"
  proof
    fix t assume "t \<in> activeIds qs"
    then obtain m x where m: "map_of (lanes qs) m = Some x" "t \<in> set (activeTaskIds x)"
      by (auto simp: activeIds_def)
    have "map_of (lanes (putLane st' qs)) m = Some (if m = lane st' then st' else x)"
      using m by (simp add: update_conv')
    then show "t \<in> activeIds (putLane st' qs)" using m assms(1,2) unfolding activeIds_def
      by (auto split: if_splits)
  qed
  then show ?thesis using assms(3) by (fastforce simp: waiters_live_ids)
qed

lemma setConcurrency_inv:
  assumes inv: "cq_inv qs"
  shows "cq_inv (setCommandLaneConcurrency now name limit qs)"
proof -
  obtain st qs1 where get: "getLaneState (normalizeLane name) qs = (st, qs1)" by fastforce
  note s = getLaneState_spec [OF inv get]
  let ?n = "normalizeLane name" and ?st = "st\<lparr>maxConcurrent := max 1 limit\<rparr>"
  have ok: "lane_ok qs1 ?n st" using s(1,2) by (simp add: cq_inv_def cq_core_lane)
  then have ok': "lane_ok qs1 ?n ?st" by (simp add: lane_ok_def)
  have eq: "setCommandLaneConcurrency now name limit qs = pump now ?n (putLane ?st qs1)"
    using ok by (simp add: setCommandLaneConcurrency_def get drainLane_eq_pump [where st = ?st] store_law lane_ok_def)
  have "waiters_live (putLane ?st qs1)" using put_waiters [of qs1 ?st st] s ok by (simp add: lane_ok_def cq_inv_def)
  then show ?thesis
    using put_pump_inv [OF _ s(2) ok', of now] s(1)
    by (simp add: eq cq_inv_def promise_account_bag saturated_def pump_waiters)
qed

lemma enqueue_eq:
  assumes inv: "cq_inv qs" and "\<not> gatewayDraining qs"
    and get: "getLaneState (normalizeLane name) (qs\<lparr>nextPromise := Suc (nextPromise qs)\<rparr>) = (st, qs1)"
  shows "snd (enqueueCommandInLane now name opts qs) =
    pump now (normalizeLane name) (putLane (st\<lparr>queue := queue st @
      [\<lparr>promise = nextPromise qs, enqueuedAt = now, warnAfterMs = coalesce (opt_warnAfterMs opts) 2000,
        taskTimeoutMs = normalizeTaskTimeoutMs (opt_taskTimeoutMs opts), hasOnWait = opt_onWait opts\<rparr>]\<rparr>) qs1)"
proof -
  have "lane st = normalizeLane name \<and> \<not> draining st"
    using get inv by (auto simp: getLaneState_def cq_inv_def newLane_def cq_core_def lane_ok_def split: option.splits)
  then show ?thesis using assms(2)
    by (simp add: enqueueCommandInLane_def get drainLane_eq_pump store_law Let_def)
qed

lemma promise_below:
  assumes "promise_account qs" and "p \<in># promiseBag qs"
  shows "p < nextPromise qs"
proof -
  have "promiseBag qs = mset [0..<nextPromise qs]" using assms(1) by (simp only: promise_account_bag)
  then have "p \<in> set [0..<nextPromise qs]" using assms(2) by (metis set_mset_mset)
  then show ?thesis by simp
qed

lemma queued_in_bag:
  "map_of (lanes qs) n = Some st \<Longrightarrow> e \<in> set (queue st) \<Longrightarrow> promise e \<in># promiseBag qs"
  by (auto simp: promiseBag_def queuedPromises_def dest!: map_of_in_set)

lemma running_in_bag: "r \<in> set (inflight qs) \<Longrightarrow> promise (task_entry r) \<in># promiseBag qs"
  by (auto simp: promiseBag_def runningPromises_def)

lemma cq_inv_nextPromise:
  "cq_core (qs\<lparr>nextPromise := k\<rparr>) = cq_core qs" "saturated (qs\<lparr>nextPromise := k\<rparr>) = saturated qs"
  "waiters_live (qs\<lparr>nextPromise := k\<rparr>) = waiters_live qs" "waiter_account (qs\<lparr>nextPromise := k\<rparr>) = waiter_account qs"
  "promiseBag (qs\<lparr>nextPromise := k\<rparr>) = promiseBag qs"
  by (simp_all add: cq_core_def lane_ok_def saturated_def waiters_live_def waiter_account_def promiseBag_def
      queuedPromises_def runningPromises_def)

lemma enqueue_inv:
  assumes inv: "cq_inv qs"
  shows "cq_inv (snd (enqueueCommandInLane now name opts qs))"
proof (cases "gatewayDraining qs")
  case True
  then have eq: "snd (enqueueCommandInLane now name opts qs) =
      settle (nextPromise qs) (Inl GatewayDrainingError) (qs\<lparr>nextPromise := Suc (nextPromise qs)\<rparr>)"
    by (simp add: enqueueCommandInLane_def Let_def)
  show ?thesis using inv by (simp add: eq cq_inv_def cq_inv_nextPromise promise_account_bag)
next
  case False
  obtain st qs2 where get0: "getLaneState (normalizeLane name) qs = (st, qs2)" by fastforce
  note s = getLaneState_spec [OF inv get0]
  let ?n = "normalizeLane name" and ?p = "nextPromise qs" and ?qs1 = "qs2\<lparr>nextPromise := Suc (nextPromise qs)\<rparr>"
  let ?e = "\<lparr>promise = nextPromise qs, enqueuedAt = now, warnAfterMs = coalesce (opt_warnAfterMs opts) 2000,
        taskTimeoutMs = normalizeTaskTimeoutMs (opt_taskTimeoutMs opts), hasOnWait = opt_onWait opts\<rparr>"
  let ?st = "st\<lparr>queue := queue st @ [?e]\<rparr>"
  have get: "getLaneState ?n (qs\<lparr>nextPromise := Suc ?p\<rparr>) = (st, ?qs1)"
    using get0 by (auto simp: getLaneState_def split: option.splits)
  note eq = enqueue_eq [OF inv False get, of now opts]
  have ok: "lane_ok qs2 ?n st" using s(1,2) by (simp add: cq_inv_def cq_core_lane)
  have acct: "promise_account qs2" using s(1) by (simp add: cq_inv_def)
  have fresh: "promise e < ?p" if "e \<in> set (queue st)" for e
    using promise_below [OF acct queued_in_bag [OF s(2) that]] s(3) by simp
  have "promise (task_entry r) < ?p" if "r \<in> set (inflight qs2)" for r
    using promise_below [OF acct running_in_bag [OF that]] s(3) by simp
  then have ok': "lane_ok ?qs1 ?n ?st" using ok fresh by (auto simp: lane_ok_def sorted_wrt_append)
  have live: "waiters_live (putLane ?st ?qs1)"
    using put_waiters [of ?qs1 ?st st] s ok by (simp add: lane_ok_def cq_inv_def cq_inv_nextPromise)
  have "promiseBag ?qs1 + mset (map promise (queue ?st)) = mset [0..<nextPromise ?qs1] + mset (map promise (queue st))"
    using acct s(3) by (simp add: cq_inv_nextPromise promise_account_bag)
  then show ?thesis
    using put_pump_inv [of ?qs1 ?n st ?st now] ok' s live
    by (simp add: eq cq_inv_def cq_inv_nextPromise saturated_def pump_waiters)
qed

lemma settle_fold:
  "fold (\<lambda>e. settle (promise e) r) es qs = qs\<lparr>settled := settled qs @ map (\<lambda>e. (promise e, r)) es\<rparr>"
  by (induction es arbitrary: qs) (simp_all add: settle_def)

lemma clear_inv:
  assumes inv: "cq_inv qs"
  shows "cq_inv (snd (clearCommandLane name qs))"
proof (cases "map_of (lanes qs) (normalizeLane name)")
  case None
  then show ?thesis using inv by (simp add: clearCommandLane_def)
next
  case (Some st)
  let ?n = "normalizeLane name" and ?st = "st\<lparr>queue := []\<rparr>"
  let ?es = "map (\<lambda>e. (promise e, Inl (CommandLaneClearedError ?n))) (queue st)"
  have ok: "lane_ok qs ?n st" using inv Some by (simp add: cq_inv_def cq_core_lane)
  then have ln: "lane st = ?n" by (simp add: lane_ok_def)
  have eq: "snd (clearCommandLane name qs) = (putLane ?st qs)\<lparr>settled := settled qs @ ?es\<rparr>"
    by (simp add: clearCommandLane_def Some settle_fold)
  have c1: "cq_core (putLane ?st qs)"
    by (rule core_putLane) (use inv ok ln Some in \<open>auto simp: cq_inv_def lane_ok_def\<close>)
  have sat: "saturated (putLane ?st qs)"
    using inv by (auto simp: cq_inv_def saturated_def update_conv' lane_saturated_def)
  have live: "waiters_live (putLane ?st qs)"
    using put_waiters [of qs ?st st] inv ln Some by (simp add: cq_inv_def)
  have "promiseBag (snd (clearCommandLane name qs)) = promiseBag (putLane ?st qs) + mset (map promise (queue st))"
    by (simp add: eq promiseBag_def queuedPromises_def runningPromises_def comp_def)
  also have "\<dots> = promiseBag qs" using put_bag [of qs ?st st] Some ln by simp
  finally show ?thesis using c1 sat live inv
    by (simp add: eq cq_inv_def promise_account_bag waiter_account_cong [of "putLane ?st qs" qs] del: put_frame(8))
qed

text \<open>Completing a task.\<close>

definition dropTask :: "nat \<Rightarrow> queue_state \<Rightarrow> queue_state" where
  "dropTask tid qs = qs\<lparr>inflight := filter (\<lambda>x. task_id x \<noteq> tid) (inflight qs)\<rparr>"

lemma dropTask_frame [simp]:
  "lanes (dropTask tid qs) = lanes qs" "settled (dropTask tid qs) = settled qs"
  "nextPromise (dropTask tid qs) = nextPromise qs" "nextTaskId (dropTask tid qs) = nextTaskId qs"
  "activeTaskWaiters (dropTask tid qs) = activeTaskWaiters qs" "drained (dropTask tid qs) = drained qs"
  "nextWaiter (dropTask tid qs) = nextWaiter qs"
  "inflight (dropTask tid qs) = filter (\<lambda>x. task_id x \<noteq> tid) (inflight qs)"
  by (simp_all add: dropTask_def)

lemma finish_eq:
  assumes "r \<in> set (inflight qs)" and "distinct (map task_id (inflight qs))"
    and "runQueueEntryTask (task_lane r) (task_entry r) outcome = Some result"
    and "map_of (lanes qs) (task_lane r) = Some st"
  shows "finishTask now (task_id r) outcome qs =
    settle (promise (task_entry r)) result
      (if task_generation r = generation st
       then pump now (task_lane r) (notifyActiveTaskWaiters
              (putLane (st\<lparr>activeTaskIds := filter (\<lambda>t. t \<noteq> task_id r) (activeTaskIds st)\<rparr>) (dropTask (task_id r) qs)))
       else dropTask (task_id r) qs)"
proof -
  have "List.find (\<lambda>x. task_id x = task_id r) (inflight qs) = Some r"
    by (rule find_by_id [OF assms(2,1)])
  then show ?thesis using assms(3,4)
    by (simp add: finishTask_def completeTask_def dropTask_def)
qed

lemma mset_remove_task:
  "distinct (map task_id xs) \<Longrightarrow> r \<in> set xs \<Longrightarrow>
   add_mset (promise (task_entry r)) (mset (map (promise \<circ> task_entry) (filter (\<lambda>x. task_id x \<noteq> task_id r) xs))) =
   mset (map (promise \<circ> task_entry) xs)"
proof (induction xs)
  case (Cons x xs)
  show ?case
  proof (cases "x = r")
    case True
    then have "filter (\<lambda>y. task_id y \<noteq> task_id r) xs = xs" using Cons.prems
      by (intro filter_out_id) simp
    then show ?thesis using True by simp
  next
    case False
    then show ?thesis using Cons by force
  qed
qed simp

lemma dropTask_bag:
  "distinct (map task_id (inflight qs)) \<Longrightarrow> r \<in> set (inflight qs) \<Longrightarrow>
   add_mset (promise (task_entry r)) (promiseBag (dropTask (task_id r) qs)) = promiseBag qs"
  using mset_remove_task [of "inflight qs" r]
  by (simp add: promiseBag_def queuedPromises_def runningPromises_def flip: mset_map)

lemma dropTask_stale_core:
  assumes core: "cq_core qs" and r: "r \<in> set (inflight qs)"
    and stale: "\<And>st. map_of (lanes qs) (task_lane r) = Some st \<Longrightarrow> task_generation r \<noteq> generation st"
  shows "cq_core (dropTask (task_id r) qs)"
proof -
  have same: "x = r" if "x \<in> set (inflight qs)" "task_id x = task_id r" for x
    using core r that by (auto simp: cq_core_def intro: same_id)
  have "lane_ok (dropTask (task_id r) qs) n st" if n: "map_of (lanes qs) n = Some st" for n st
  proof -
    have "{x \<in> set (inflight qs). task_lane x = n \<and> task_generation x = generation st} =
        {x \<in> set (inflight (dropTask (task_id r) qs)). task_lane x = n \<and> task_generation x = generation st}"
      using same stale n by auto
    then show ?thesis using cq_core_lane [OF core n] by (simp add: lane_ok_def)
  qed
  then show ?thesis using core by (simp add: cq_core_def distinct_map_filter)
qed

lemma completeTask_core:
  assumes core: "cq_core qs" and r: "r \<in> set (inflight qs)"
    and n: "map_of (lanes qs) (task_lane r) = Some st" and cur: "task_generation r = generation st"
  shows "cq_core (putLane (st\<lparr>activeTaskIds := filter (\<lambda>t. t \<noteq> task_id r) (activeTaskIds st)\<rparr>) (dropTask (task_id r) qs))"
    (is "cq_core ?qs")
proof -
  let ?st = "st\<lparr>activeTaskIds := filter (\<lambda>t. t \<noteq> task_id r) (activeTaskIds st)\<rparr>"
  have same: "x = r" if "x \<in> set (inflight qs)" "task_id x = task_id r" for x
    using core r that by (auto simp: cq_core_def intro: same_id)
  have ok: "lane_ok qs (task_lane r) st" by (rule cq_core_lane [OF core n])
  then have ln: "lane st = task_lane r" by (simp add: lane_ok_def)
  have ok': "lane_ok ?qs (task_lane r) ?st" using ok by (auto simp: lane_ok_def)
  have "lane_ok ?qs m x" if m: "map_of (lanes qs) m = Some x" "m \<noteq> task_lane r" for m x
  proof -
    have "{y \<in> set (inflight qs). task_lane y = m \<and> task_generation y = generation x} =
        {y \<in> set (inflight ?qs). task_lane y = m \<and> task_generation y = generation x}"
      using same m by auto
    then show ?thesis using cq_core_lane [OF core m(1)] by (simp add: lane_ok_def)
  qed
  then show ?thesis using core ok' n
    by (fastforce simp: cq_core_def distinct_map_filter map_ok_update update_conv' ln split: if_splits)
qed

lemma notify_inv:
  assumes "cq_core qs" and "waiter_account qs"
  shows "cq_core (notifyActiveTaskWaiters qs)" "promiseBag (notifyActiveTaskWaiters qs) = promiseBag qs"
    "saturated (notifyActiveTaskWaiters qs) = saturated qs" "waiters_live (notifyActiveTaskWaiters qs)"
    "waiter_account (notifyActiveTaskWaiters qs)"
  using assms notify_frame [OF assms(2)] notify_account [OF assms(2)] notify_live [OF assms(2)]
    cq_core_cong [of "notifyActiveTaskWaiters qs" qs] promiseBag_cong [of "notifyActiveTaskWaiters qs" qs]
    saturated_cong [of "notifyActiveTaskWaiters qs" qs]
  by (simp_all add: cq_core_def)

lemma dropTask_waiters [simp]:
  "waiters_live (dropTask tid qs) = waiters_live qs" "saturated (dropTask tid qs) = saturated qs"
  "waiter_account (dropTask tid qs) = waiter_account qs"
  by (simp_all add: waiters_live_def saturated_def waiter_account_def)

lemma finish_inv:
  assumes inv: "cq_inv qs"
  shows "cq_inv (finishTask now tid outcome qs)"
proof (cases "\<exists>r result. List.find (\<lambda>r. task_id r = tid) (inflight qs) = Some r \<and>
    runQueueEntryTask (task_lane r) (task_entry r) outcome = Some result")
  case False
  then have "finishTask now tid outcome qs = qs"
    by (auto simp: finishTask_def split: option.splits)
  then show ?thesis using inv by simp
next
  case True
  then obtain r result where r: "r \<in> set (inflight qs)" "tid = task_id r"
    and res: "runQueueEntryTask (task_lane r) (task_entry r) outcome = Some result"
    by (auto dest: find_SomeD)
  have core: "cq_core qs" and bag: "promiseBag qs = mset [0..<nextPromise qs]" and acc: "waiter_account qs"
    using inv by (simp_all add: cq_inv_def promise_account_bag)
  then have dist: "distinct (map task_id (inflight qs))" by (simp add: cq_core_def)
  obtain st where n: "map_of (lanes qs) (task_lane r) = Some st"
    using core r(1) by (auto simp: cq_core_def)
  note eq = finish_eq [OF r(1) dist res n, of now]
  note drop = dropTask_bag [OF dist r(1)]
  show ?thesis
  proof (cases "task_generation r = generation st")
    case False
    then show ?thesis
      using dropTask_stale_core [OF core r(1)] n drop bag inv
      by (simp add: r(2) eq cq_inv_def promise_account_bag)
  next
    case True
    let ?st = "st\<lparr>activeTaskIds := filter (\<lambda>t. t \<noteq> task_id r) (activeTaskIds st)\<rparr>"
    let ?q1 = "putLane ?st (dropTask (task_id r) qs)"
    have ln: "lane st = task_lane r" using cq_core_lane [OF core n] by (simp add: lane_ok_def)
    have c1: "cq_core ?q1" by (rule completeTask_core [OF core r(1) n True])
    have a1: "waiter_account ?q1" using acc by (simp add: waiter_account_def)
    have lane1: "map_of (lanes (notifyActiveTaskWaiters ?q1)) (task_lane r) = Some ?st"
      by (simp add: notify_frame [OF a1] store_law ln del: put_frame(8)) (simp add: ln store_law)
    note N = notify_inv [OF c1 a1]
    have "promiseBag ?q1 = promiseBag (dropTask (task_id r) qs)"
      using put_bag [of "dropTask (task_id r) qs" ?st st] n by (simp add: ln)
    moreover have "saturated (pump now (task_lane r) (notifyActiveTaskWaiters ?q1))"
      by (rule pump_saturates [OF lane1])
        (use inv in \<open>auto simp: cq_inv_def saturated_def notify_frame [OF a1] ln store_law\<close>)
    moreover have "waiter_account (pump now (task_lane r) (notifyActiveTaskWaiters ?q1))"
      using N(5) by (simp add: waiter_account_def)
    ultimately show ?thesis
      using pump_core [OF N(1) lane1, of now] pump_waiters [OF N(4), of now] drop bag True N(2)
      by (simp add: r(2) eq cq_inv_def promise_account_bag pump_bag notify_frame [OF a1])
  qed
qed

lemma reset_inv:
  assumes inv: "cq_inv qs"
  shows "cq_inv (snd (resetCommandLane now name qs))"
proof (cases "map_of (lanes qs) (normalizeLane name)")
  case None
  then show ?thesis using inv by (simp add: resetCommandLane_def)
next
  case (Some st)
  let ?n = "normalizeLane name" and ?st = "idleLane st"
  let ?q1 = "putLane ?st qs"
  let ?q2 = "if queue st \<noteq> [] then drainLane now ?n ?q1 else ?q1"
  have core: "cq_core qs" and acc: "waiter_account qs" and bag: "promiseBag qs = mset [0..<nextPromise qs]"
    using inv by (simp_all add: cq_inv_def promise_account_bag)
  have ok: "lane_ok qs ?n ?st" by (rule lane_ok_idle [OF core Some])
  have ln: "lane ?st = ?n" using ok by (simp add: lane_ok_def)
  have lane1: "map_of (lanes ?q1) ?n = Some ?st" by (simp add: ln store_law)
  have drain: "drainLane now ?n ?q1 = pump now ?n ?q1"
    by (rule drainLane_eq_pump [OF lane1]) (simp add: idleLane_def)
  have c1: "cq_core ?q1"
    by (rule core_putLane [OF core]) (use ok Some ln in \<open>auto simp: idleLane_def\<close>)
  have b1: "promiseBag ?q1 = promiseBag qs"
    using put_bag [of qs ?st st] Some by (simp add: ln) (simp add: idleLane_def)
  have c2: "cq_core ?q2 \<and> promiseBag ?q2 = promiseBag qs"
    using c1 pump_core [OF c1 lane1, of now] b1 by (simp add: drain pump_bag del: put_frame)
  have a2: "waiter_account ?q2" using acc by (simp add: drain waiter_account_def)
  have sat: "saturated ?q2"
  proof (cases "queue st = []")
    case True
    have "saturated ?q1" unfolding saturated_def
      using inv True by (auto simp: cq_inv_def saturated_def update_conv' lane_saturated_def idleLane_def)
    then show ?thesis using True by simp
  next
    case False
    have "saturated (pump now ?n ?q1)"
      by (rule pump_saturates [OF lane1]) (use inv ln in \<open>auto simp: cq_inv_def saturated_def store_law\<close>)
    then show ?thesis using False by (simp add: drain)
  qed
  have "snd (resetCommandLane now name qs) = notifyActiveTaskWaiters ?q2"
    by (simp add: resetCommandLane_def Some)
  moreover have "nextPromise ?q2 = nextPromise qs" by (simp add: drain)
  ultimately show ?thesis
    using notify_inv [of ?q2] c2 a2 sat bag notify_frame(5) [OF a2] unfolding cq_inv_def promise_account_bag by metis
qed

lemma drain_fold:
  assumes "cq_core q" and "\<forall>n \<in> set ns. map_of (lanes q) n \<noteq> None"
    and "\<And>m x. map_of (lanes q) m = Some x \<Longrightarrow> m \<notin> set ns \<Longrightarrow> lane_saturated x"
  shows "cq_core (fold (drainLane now) ns q) \<and> saturated (fold (drainLane now) ns q) \<and>
    promiseBag (fold (drainLane now) ns q) = promiseBag q \<and>
    nextPromise (fold (drainLane now) ns q) = nextPromise q \<and>
    waiter_account (fold (drainLane now) ns q) = waiter_account q"
  using assms
proof (induction ns arbitrary: q)
  case Nil
  then show ?case by (simp add: saturated_def)
next
  case (Cons n ns)
  obtain st where st: "map_of (lanes q) n = Some st" using Cons.prems(2) by auto
  have "\<not> draining st" using cq_core_lane [OF Cons.prems(1) st] by (simp add: lane_ok_def)
  then have d: "drainLane now n q = pump now n q" by (rule drainLane_eq_pump [OF st])
  have "lane_saturated x" if x: "map_of (lanes (pump now n q)) m = Some x" "m \<notin> set ns" for m x
    using pump_lane [OF st, of now] pump_other [of m n now q] Cons.prems(3) [of m x] x by (cases "m = n") auto
  moreover have "\<forall>m \<in> set ns. map_of (lanes (pump now n q)) m \<noteq> None"
    using Cons.prems(2) by (simp add: pump_lane_dom del: not_None_eq)
  moreover have "waiter_account (pump now n q) = waiter_account q"
    by (simp add: waiter_account_def)
  ultimately show ?case
    using Cons.IH [of "pump now n q"] pump_core [OF Cons.prems(1) st, of now] by (simp add: d pump_bag)
qed

lemma map_of_idle: "map_of (map (\<lambda>(n, st). (n, idleLane st)) ls) m = map_option idleLane (map_of ls m)"
  by (induction ls) auto

lemma resetAll_inv:
  assumes inv: "cq_inv qs"
  shows "cq_inv (resetAllLanes now qs)"
proof -
  let ?q1 = "qs\<lparr>gatewayDraining := False, lanes := map (\<lambda>(n, st). (n, idleLane st)) (lanes qs)\<rparr>"
  let ?ns = "map fst (filter (\<lambda>(n, st). queue st \<noteq> []) (lanes qs))"
  have core: "cq_core qs" and acc: "waiter_account qs" and bag: "promiseBag qs = mset [0..<nextPromise qs]"
    using inv by (simp_all add: cq_inv_def promise_account_bag)
  have "lane_ok ?q1 n (idleLane st)" if "map_of (lanes qs) n = Some st" for n st
    using lane_ok_idle [OF core that] by (simp add: lane_ok_def)
  moreover have "map_ok (lanes ?q1)" using core by (simp add: cq_core_def map_ok_def comp_def case_prod_beta)
  moreover have "\<exists>st. map_option idleLane (map_of (lanes qs) (task_lane r)) = Some st \<and> task_generation r \<le> generation st"
    if r: "r \<in> set (inflight qs)" for r
  proof -
    obtain st where "map_of (lanes qs) (task_lane r) = Some st" "task_generation r \<le> generation st"
      using core r by (auto simp: cq_core_def)
    then show ?thesis by (simp add: idleLane_def)
  qed
  ultimately have c1: "cq_core ?q1" using core
    by (auto simp: cq_core_def map_of_idle)
  have "queuedPromises ?q1 = queuedPromises qs"
    by (simp add: queuedPromises_def comp_def case_prod_unfold idleLane_def)
  then have b1: "promiseBag ?q1 = promiseBag qs" by (simp add: promiseBag_def runningPromises_def)
  have dom: "map_of (lanes ?q1) n \<noteq> None" if "n \<in> set ?ns" for n
    using that by (auto simp: map_of_idle map_of_eq_None_iff)
  have sat: "lane_saturated x" if x: "map_of (lanes ?q1) m = Some x" "m \<notin> set ?ns" for m x
  proof -
    obtain st where st: "map_of (lanes qs) m = Some st" "x = idleLane st"
      using x(1) by (auto simp: map_of_idle)
    then have "(m, st) \<in> set (lanes qs)" by (simp add: map_of_in_set)
    then have "queue st = []" using x(2) by force
    then show ?thesis by (simp add: st(2) lane_saturated_def idleLane_def)
  qed
  let ?q2 = "fold (drainLane now) ?ns ?q1"
  have F: "cq_core ?q2 \<and> saturated ?q2 \<and> promiseBag ?q2 = promiseBag ?q1 \<and> nextPromise ?q2 = nextPromise ?q1 \<and>
      waiter_account ?q2 = waiter_account ?q1"
    by (rule drain_fold [OF c1]) (use dom sat in auto)
  have a2: "waiter_account ?q2" using F acc by (simp add: waiter_account_def)
  have "resetAllLanes now qs = notifyActiveTaskWaiters ?q2" by (simp add: resetAllLanes_def)
  moreover have "promiseBag ?q2 = mset [0..<nextPromise ?q2]" using F b1 bag by simp
  ultimately show ?thesis
    using notify_inv [of ?q2] F a2 notify_frame(5) [OF a2] unfolding cq_inv_def promise_account_bag by metis
qed

lemma promiseBag_waiters [simp]: "promiseBag (qs\<lparr>activeTaskWaiters := ws, drained := ds, nextWaiter := k\<rparr>) = promiseBag qs"
  by (rule promiseBag_cong) simp_all

lemma wait_inv:
  assumes inv: "cq_inv qs"
  shows "cq_inv (snd (waitForActiveTasks t qs))"
proof -
  define w where "w = nextWaiter qs"
  have main: "cq_inv (notifyActiveTaskWaiters (qs\<lparr>nextWaiter := Suc w, activeTaskWaiters := activeTaskWaiters qs @
      [\<lparr>waiter_id = w, waiter_tasks = ids, waiter_timeout = b\<rparr>]\<rparr>))" for ids b
  proof -
    let ?q = "qs\<lparr>nextWaiter := Suc w, activeTaskWaiters := activeTaskWaiters qs @
      [\<lparr>waiter_id = w, waiter_tasks = ids, waiter_timeout = b\<rparr>]\<rparr>"
    have c: "cq_core ?q" using inv by (simp add: cq_inv_def cq_core_cong [of ?q qs])
    have a: "waiter_account ?q" using inv by (simp add: cq_inv_def waiter_account_def w_def)
    have "promiseBag ?q = promiseBag qs" by (rule promiseBag_cong) simp_all
    then have "promiseBag ?q = mset [0..<nextPromise ?q]" "saturated ?q" using inv
      by (simp_all add: cq_inv_def promise_account_bag saturated_def)
    then show ?thesis using notify_inv [OF c a] notify_frame(5) [OF a]
      unfolding cq_inv_def promise_account_bag by metis
  qed
  have side: "cq_inv (qs\<lparr>nextWaiter := Suc w, drained := drained qs @ [(w, b)]\<rparr>)" (is "cq_inv ?q") for b
  proof -
    have "promiseBag ?q = promiseBag qs" by (rule promiseBag_cong) simp_all
    moreover have "waiter_account ?q" using inv by (simp add: cq_inv_def waiter_account_def w_def)
    ultimately show ?thesis using inv
      by (simp add: cq_inv_def promise_account_bag cq_core_cong [of ?q qs] saturated_cong [of ?q qs]
          waiters_live_cong [of ?q qs])
  qed
  show ?thesis using main side by (auto simp: waitForActiveTasks_def Let_def w_def split: option.splits)
qed

lemma waiterTimeout_inv:
  assumes inv: "cq_inv qs"
  shows "cq_inv (waiterTimeout w qs)"
proof (cases "\<exists>v. List.find (\<lambda>v. waiter_id v = w) (activeTaskWaiters qs) = Some v \<and> waiter_timeout v")
  case False
  then have "waiterTimeout w qs = qs" by (auto simp: waiterTimeout_def split: option.splits)
  then show ?thesis using inv by simp
next
  case True
  then obtain v where f: "List.find (\<lambda>v. waiter_id v = w) (activeTaskWaiters qs) = Some v" and "waiter_timeout v"
    by blast
  then have eq: "waiterTimeout w qs = resolveActiveTaskWaiter v False qs" by (simp add: waiterTimeout_def)
  have v: "v \<in> set (activeTaskWaiters qs)" "waiter_id v = w" using find_SomeD [OF f] by auto
  let ?q = "qs\<lparr>activeTaskWaiters := filter (\<lambda>u. waiter_id u \<noteq> waiter_id v) (activeTaskWaiters qs),
              drained := drained qs @ [(waiter_id v, False)]\<rparr>"
  have q: "waiterTimeout w qs = ?q" using v by (auto simp: eq resolveActiveTaskWaiter_def)
  obtain xs ys where split: "activeTaskWaiters qs = xs @ v # ys" using v(1) by (meson split_list)
  have "filter (\<lambda>u. waiter_id u \<noteq> waiter_id v) (activeTaskWaiters qs) = xs @ ys"
    unfolding split by (rule filter_out_unique) (use inv waiter_account_distinct split in \<open>fastforce simp: cq_inv_def\<close>)
  then have "waiter_account ?q" using inv split by (simp add: cq_inv_def waiter_account_def)
  moreover have "promiseBag ?q = promiseBag qs" by (rule promiseBag_cong) simp_all
  moreover have "waiters_live ?q" using inv by (simp add: cq_inv_def waiters_live_def)
  ultimately show ?thesis using inv
    by (simp add: q cq_inv_def promise_account_bag cq_core_cong [of ?q qs] saturated_cong [of ?q qs])
qed

lemma step_inv: "cq_inv qs \<Longrightarrow> cq_inv (cq_step e qs)"
proof (cases e)
  case (Pair now c)
  assume inv: "cq_inv qs"
  have "cq_inv (markGatewayDraining qs)" using inv
    by (simp add: markGatewayDraining_def cq_inv_def cq_core_def lane_ok_def promise_account_def queuedPromises_def
        runningPromises_def saturated_def waiters_live_def waiter_account_def)
  with inv show ?thesis
    by (cases c) (simp_all add: Pair enqueue_inv finish_inv setConcurrency_inv clear_inv reset_inv resetAll_inv
        wait_inv waiterTimeout_inv)
qed

text \<open>Settled promises stay settled: no operation touches the log except by appending.\<close>

lemma resolve_frame [simp]:
  "settled (resolveActiveTaskWaiter w b qs) = settled qs" "lanes (resolveActiveTaskWaiter w b qs) = lanes qs"
  by (simp_all add: resolveActiveTaskWaiter_def)

lemma notify_settled [simp]:
  "settled (notifyActiveTaskWaiters qs) = settled qs" "lanes (notifyActiveTaskWaiters qs) = lanes qs"
proof -
  have "settled (fold (\<lambda>w q. if waiter_tasks w = [] \<or> \<not> hasPendingActiveTasks (waiter_tasks w) q
      then resolveActiveTaskWaiter w True q else q) ws q) = settled q \<and>
    lanes (fold (\<lambda>w q. if waiter_tasks w = [] \<or> \<not> hasPendingActiveTasks (waiter_tasks w) q
      then resolveActiveTaskWaiter w True q else q) ws q) = lanes q" for ws q
    by (induction ws arbitrary: q) auto
  then show "settled (notifyActiveTaskWaiters qs) = settled qs" "lanes (notifyActiveTaskWaiters qs) = lanes qs"
    by (simp_all add: notifyActiveTaskWaiters_def)
qed

lemma drainLane_settled [simp]: "settled (drainLane now n qs) = settled qs"
  by (auto simp: drainLane_def getLaneState_def Let_def split: option.splits prod.splits)

lemma drainLanes_settled [simp]: "settled (fold (drainLane now) ns qs) = settled qs"
  by (induction ns arbitrary: qs) simp_all

lemma step_settled: "\<exists>more. settled (cq_step e qs) = settled qs @ more"
proof (cases e)
  case (Pair now c)
  show ?thesis
  proof (cases c)
    case (Enqueue n opts)
    then show ?thesis
      by (auto simp: Pair enqueueCommandInLane_def Let_def getLaneState_def split: prod.splits option.splits)
  next
    case (Finish tid outcome)
    then show ?thesis by (auto simp: Pair finishTask_def Let_def completeTask_def split: option.splits)
  next
    case (SetConcurrency n k)
    then show ?thesis
      by (auto simp: Pair setCommandLaneConcurrency_def Let_def getLaneState_def split: prod.splits option.splits)
  next
    case (ClearLane n)
    then show ?thesis by (auto simp: Pair clearCommandLane_def Let_def settle_fold split: option.splits)
  next
    case (ResetLane n)
    then show ?thesis by (auto simp: Pair resetCommandLane_def Let_def split: option.splits)
  qed (auto simp: Pair resetAllLanes_def markGatewayDraining_def waitForActiveTasks_def waiterTimeout_def Let_def
      split: option.splits)
qed

lemma init_inv: "cq_inv initQueueState"
  by (simp add: cq_inv_def initQueueState_def cq_core_def promise_account_def queuedPromises_def runningPromises_def
      saturated_def waiters_live_def waiter_account_def)

interpretation cq: growing_system initQueueState cq_step cq_inv "\<lambda>qs. set (settled qs)"
proof unfold_locales
  show "set (settled s) \<subseteq> set (settled (cq_step e s))" for s e
    using step_settled [of e s] by auto
qed (simp_all add: init_inv step_inv)

lemma cq_reach:
  "cq_core (fold cq_step es initQueueState)" "promise_account (fold cq_step es initQueueState)"
  "saturated (fold cq_step es initQueueState)" "waiters_live (fold cq_step es initQueueState)"
  "waiter_account (fold cq_step es initQueueState)"
  using cq.inv_reach [of es] by (simp_all add: cq_inv_def)

subsection \<open>Bounded concurrency\<close>

text \<open>A lane whose limit was never set above \<open>k\<close> never runs more than \<open>k\<close> tasks of one generation.\<close>

definition lane_within :: "int \<Rightarrow> string \<Rightarrow> queue_state \<Rightarrow> bool" where
  "lane_within k n qs \<longleftrightarrow> (\<forall>st. map_of (lanes qs) n = Some st \<longrightarrow>
     maxConcurrent st \<le> k \<and> int (length (activeTaskIds st)) \<le> k)"

fun limit_at_most :: "int \<Rightarrow> string \<Rightarrow> cq_call \<Rightarrow> bool" where
  "limit_at_most k n (SetConcurrency m limit) \<longleftrightarrow> normalizeLane m = n \<longrightarrow> limit \<le> k"
| "limit_at_most k n _ \<longleftrightarrow> True"

lemma within_pump: "lane_within k n qs \<Longrightarrow> lane_within k n (pump now m qs)"
proof (cases "map_of (lanes qs) m")
  case (Some st)
  assume w: "lane_within k n qs"
  from Some show ?thesis
    by (rule pump_unfold [where now = now]) (use w Some in \<open>auto simp: lane_within_def update_conv'\<close>)
qed (simp add: pump_def)

lemma within_lanes: "lanes qs' = lanes qs \<Longrightarrow> lane_within k n qs' = lane_within k n qs"
  by (simp add: lane_within_def)

lemma within_update:
  "lane_within k n qs \<Longrightarrow> maxConcurrent st \<le> k \<and> int (length (activeTaskIds st)) \<le> k \<or> m \<noteq> n \<Longrightarrow>
   lane_within k n (qs\<lparr>lanes := AList.update m st (lanes qs)\<rparr>)"
  by (auto simp: lane_within_def update_conv')

lemma within_getLane:
  assumes "getLaneState m qs = (st, qs1)" and "lane_within k n qs" and "1 \<le> k"
  shows "lane_within k n qs1" and "m = n \<Longrightarrow> maxConcurrent st \<le> k \<and> int (length (activeTaskIds st)) \<le> k"
    and "map_of (lanes qs1) m = Some st"
  using assms by (auto simp: getLaneState_def lane_within_def newLane_def update_conv' split: option.splits if_splits)

lemma within_drain: "1 \<le> k \<Longrightarrow> lane_within k n qs \<Longrightarrow> lane_within k n (drainLane now m qs)"
proof -
  assume k: "1 \<le> k" "lane_within k n qs"
  obtain st qs1 where g: "getLaneState m qs = (st, qs1)" by fastforce
  note w = within_getLane [OF g k(2,1)]
  have "lane_within k n (qs1\<lparr>lanes := AList.update m (st\<lparr>draining := True\<rparr>) (lanes qs1)\<rparr>)"
    by (rule within_update [OF w(1)]) (use w(2) in auto)
  then show ?thesis using w(1) by (simp add: drainLane_def g within_pump)
qed

lemma within_drains: "1 \<le> k \<Longrightarrow> lane_within k n qs \<Longrightarrow> lane_within k n (fold (drainLane now) ms qs)"
  by (induction ms arbitrary: qs) (simp_all add: within_drain)

lemma within_step:
  assumes k: "1 \<le> k" and w: "lane_within k n qs" and inv: "cq_inv qs" and lim: "limit_at_most k n (snd e)"
  shows "lane_within k n (cq_step e qs)"
proof (cases e)
  case (Pair now c)
  have ln: "lane st = m" if "map_of (lanes qs) m = Some st" for m st
    using inv that cq_core_lane by (fastforce simp: cq_inv_def lane_ok_def)
  have get: "lane st = m" if "getLaneState m q = (st, q1)" "lanes q = lanes qs" for m q st q1
    using that ln by (auto simp: getLaneState_def newLane_def split: option.splits)
  show ?thesis
  proof (cases c)
    case (Enqueue m opts)
    obtain st q1 where g: "getLaneState (normalizeLane m) (qs\<lparr>nextPromise := Suc (nextPromise qs)\<rparr>) = (st, q1)" by fastforce
    have w0: "lane_within k n (qs\<lparr>nextPromise := Suc (nextPromise qs)\<rparr>)" using w by (simp add: lane_within_def)
    note v = within_getLane [OF g w0 k]
    have "lane_within k n (putLane (st\<lparr>queue := q\<rparr>) q1)" for q
      unfolding putLane_def by (rule within_update [OF v(1)]) (use v(2) get [OF g] in auto)
    then show ?thesis using w g
      by (auto simp: Pair Enqueue enqueueCommandInLane_def Let_def within_drain [OF k] within_lanes [of "settle _ _ _" qs])
  next
    case (Finish tid outcome)
    have pl: "lane_within k n (putLane (st\<lparr>activeTaskIds := filter P (activeTaskIds st)\<rparr>) q1)"
      if "map_of (lanes qs) m = Some st" "lanes q1 = lanes qs" for m st q1 P
      unfolding putLane_def
      by (rule within_update) (use w that ln in \<open>auto simp: lane_within_def intro: order_trans [OF of_nat_mono [OF length_filter_le]]\<close>)
    have dr: "lane_within k n (qs\<lparr>inflight := x\<rparr>)" for x using w by (simp add: lane_within_def)
    show ?thesis using w pl dr
      by (auto simp: Pair Finish finishTask_def Let_def completeTask_def within_pump
          within_lanes [of "settle p r q" q for p r q] within_lanes [of "notifyActiveTaskWaiters q" q for q]
          split: option.splits)
  next
    case (SetConcurrency m limit)
    obtain st q1 where g: "getLaneState (normalizeLane m) qs = (st, q1)" by fastforce
    note v = within_getLane [OF g w k]
    have "lane_within k n (putLane (st\<lparr>maxConcurrent := max 1 limit\<rparr>) q1)"
      unfolding putLane_def
      by (rule within_update [OF v(1)]) (use v(2) get [OF g] lim k in \<open>auto simp: Pair SetConcurrency\<close>)
    then show ?thesis using g by (simp add: Pair SetConcurrency setCommandLaneConcurrency_def within_drain [OF k])
  next
    case (ClearLane m)
    have "lane_within k n (putLane (st\<lparr>queue := []\<rparr>) qs)" if "map_of (lanes qs) (normalizeLane m) = Some st" for st
      unfolding putLane_def by (rule within_update [OF w]) (use that w ln in \<open>auto simp: lane_within_def\<close>)
    then show ?thesis using w
      by (auto simp: Pair ClearLane clearCommandLane_def Let_def settle_fold within_lanes [of "q\<lparr>settled := x\<rparr>" q for q x]
          split: option.splits)
  next
    case (ResetLane m)
    have "lane_within k n (putLane (idleLane st) qs)" if "map_of (lanes qs) (normalizeLane m) = Some st" for st
      unfolding putLane_def by (rule within_update [OF w]) (use that w ln k in \<open>auto simp: lane_within_def idleLane_def\<close>)
    then show ?thesis using w
      by (auto simp: Pair ResetLane resetCommandLane_def Let_def within_drain [OF k]
          within_lanes [of "notifyActiveTaskWaiters q" q for q] split: option.splits)
  next
    case ResetAll
    have "lane_within k n (qs\<lparr>gatewayDraining := False, lanes := map (\<lambda>(n, st). (n, idleLane st)) (lanes qs)\<rparr>)"
      using w k by (auto simp: lane_within_def map_of_idle) (simp_all add: idleLane_def)
    then show ?thesis
      by (simp add: Pair ResetAll resetAllLanes_def Let_def within_drains [OF k]
          within_lanes [of "notifyActiveTaskWaiters q" q for q])
  qed (use w in \<open>auto simp: Pair lane_within_def markGatewayDraining_def waitForActiveTasks_def waiterTimeout_def Let_def
      split: option.splits\<close>)
qed

lemma within_run:
  "1 \<le> k \<Longrightarrow> cq_inv qs \<Longrightarrow> lane_within k n qs \<Longrightarrow> \<forall>e \<in> set es. limit_at_most k n (snd e) \<Longrightarrow>
   lane_within k n (fold cq_step es qs)"
  by (induction es arbitrary: qs) (simp_all add: within_step step_inv)

lemma active_count:
  assumes "cq_core qs" and "map_of (lanes qs) n = Some st"
  shows "length (filter (\<lambda>r. task_lane r = n \<and> task_generation r = generation st) (inflight qs)) =
    length (activeTaskIds st)"
proof -
  let ?rs = "filter (\<lambda>r. task_lane r = n \<and> task_generation r = generation st) (inflight qs)"
  have ok: "lane_ok qs n st" by (rule cq_core_lane [OF assms])
  have "distinct (map task_id ?rs)" using assms(1) by (simp add: cq_core_def distinct_map_filter)
  moreover have "set (map task_id ?rs) = set (activeTaskIds st)" using ok by (auto simp: lane_ok_def)
  moreover have "distinct (activeTaskIds st)" using ok by (simp add: lane_ok_def)
  ultimately have "length (map task_id ?rs) = length (activeTaskIds st)" by (metis distinct_card)
  then show ?thesis by simp
qed

text \<open>Handing a freed slot to the head of the queue.\<close>

lemma pump_one:
  assumes st: "map_of (lanes qs) n = Some st" and q: "queue st = e # rest"
    and free: "int (length (activeTaskIds st)) + 1 = maxConcurrent st"
  shows "map_of (lanes (pump now n qs)) n =
      Some (st\<lparr>queue := rest, activeTaskIds := activeTaskIds st @ [nextTaskId qs], draining := False\<rparr>)"
    and "inflight (pump now n qs) = inflight qs @
      [\<lparr>task_id = nextTaskId qs, task_generation = generation st, task_lane = n, task_entry = e\<rparr>]"
proof -
  have "pumpLoop now n (maxConcurrent st) (generation st) rest (activeTaskIds st @ [nextTaskId qs]) (Suc (nextTaskId qs)) =
      (rest, activeTaskIds st @ [nextTaskId qs], Suc (nextTaskId qs), [], [])"
    using free by (cases rest) auto
  then show "map_of (lanes (pump now n qs)) n =
      Some (st\<lparr>queue := rest, activeTaskIds := activeTaskIds st @ [nextTaskId qs], draining := False\<rparr>)"
    and "inflight (pump now n qs) = inflight qs @
      [\<lparr>task_id = nextTaskId qs, task_generation = generation st, task_lane = n, task_entry = e\<rparr>]"
    using st q free by (simp_all add: pump_def store_law Let_def)
qed

lemma filter_absent: "x \<notin> set xs \<Longrightarrow> filter (\<lambda>y. y \<noteq> x) xs = xs"
  by (induction xs) auto

lemma length_filter_neq: "distinct xs \<Longrightarrow> x \<in> set xs \<Longrightarrow> Suc (length (filter (\<lambda>y. y \<noteq> x) xs)) = length xs"
  by (induction xs) (auto simp: filter_absent)

lemma reach_inflight:
  assumes "qs = fold cq_step es initQueueState" and "r \<in> set (inflight qs)"
  obtains st where "map_of (lanes qs) (task_lane r) = Some st" "task_generation r \<le> generation st"
    "distinct (map task_id (inflight qs))" "lane_ok qs (task_lane r) st" "cq_core qs"
  using assms cq_reach(1) [of es] by (auto simp: cq_core_def)

subsection \<open>Properties\<close>

text \<open>C2: Every promise handed out by the queue is, after any sequence of calls, at exactly one place:
  waiting in a lane, held by a task in flight, or settled; none is lost and none is settled twice, and
  what was settled stays settled with the same result whatever is called later.\<close>
theorem promises_settle_once:
  "mset (queuedPromises (fold cq_step es initQueueState)) + mset (runningPromises (fold cq_step es initQueueState)) +
     mset (map fst (settled (fold cq_step es initQueueState))) = mset [0..<nextPromise (fold cq_step es initQueueState)] \<and>
   distinct (map fst (settled (fold cq_step es initQueueState))) \<and>
   set (settled (fold cq_step es initQueueState)) \<subseteq> set (settled (fold cq_step es' (fold cq_step es initQueueState)))"
proof -
  let ?qs = "fold cq_step es initQueueState"
  have acct: "promise_account ?qs" by (rule cq_reach(2))
  then have "mset (queuedPromises ?qs @ runningPromises ?qs @ map fst (settled ?qs)) = mset [0..<nextPromise ?qs]"
    by (simp add: promise_account_def ac_simps)
  then have "distinct (queuedPromises ?qs @ runningPromises ?qs @ map fst (settled ?qs))"
    by (metis distinct_upt mset_eq_imp_distinct_iff)
  then show ?thesis using acct cq.log_run [OF cq.inv_reach, of es es'] by (simp add: promise_account_def)
qed

text \<open>C34: No lane idles: after any sequence of calls a lane with waiting entries has all its slots
  taken, and each of the ids counted in a slot belongs to a task of the current generation in flight,
  whose completion will therefore be noticed.\<close>
theorem lanes_work_conserving:
  assumes "map_of (lanes (fold cq_step es initQueueState)) n = Some st" and "queue st \<noteq> []"
  shows "maxConcurrent st \<le> int (length (activeTaskIds st)) \<and> activeTaskIds st \<noteq> [] \<and>
    (\<forall>t \<in> set (activeTaskIds st). \<exists>r \<in> set (inflight (fold cq_step es initQueueState)).
       task_id r = t \<and> task_lane r = n \<and> task_generation r = generation st)"
proof -
  have ok: "lane_ok (fold cq_step es initQueueState) n st" by (rule cq_core_lane [OF cq_reach(1) assms(1)])
  have "lane_saturated st" using cq_reach(3) [of es] assms(1) by (simp add: saturated_def)
  then have "maxConcurrent st \<le> int (length (activeTaskIds st))" using assms(2) by (simp add: lane_saturated_def)
  then show ?thesis using ok by (auto simp: lane_ok_def)
qed

text \<open>When a current task of a full lane ends with any outcome, the entry that has waited longest
  is started in its slot at once, the rest of the queue keeps its order, and the ended task's promise is
  settled with its result.\<close>

theorem slot_handed_to_head:
  assumes qs: "qs = fold cq_step es initQueueState" and r: "r \<in> set (inflight qs)"
    and st: "map_of (lanes qs) (task_lane r) = Some st" and cur: "task_generation r = generation st"
    and full: "int (length (activeTaskIds st)) = maxConcurrent st" and q: "queue st = e # rest"
    and res: "runQueueEntryTask (task_lane r) (task_entry r) outcome = Some result"
  shows "map_of (lanes (finishTask now (task_id r) outcome qs)) (task_lane r) =
      Some (st\<lparr>queue := rest, activeTaskIds := filter (\<lambda>t. t \<noteq> task_id r) (activeTaskIds st) @ [nextTaskId qs]\<rparr>) \<and>
    inflight (finishTask now (task_id r) outcome qs) = filter (\<lambda>x. task_id x \<noteq> task_id r) (inflight qs) @
      [\<lparr>task_id = nextTaskId qs, task_generation = generation st, task_lane = task_lane r, task_entry = e\<rparr>] \<and>
    settled (finishTask now (task_id r) outcome qs) = settled qs @ [(promise (task_entry r), result)]"
proof -
  have core: "cq_core qs" and acc: "waiter_account qs" using cq_reach [of es] by (simp_all add: qs)
  have dist: "distinct (map task_id (inflight qs))" using core by (simp add: cq_core_def)
  have ok: "lane_ok qs (task_lane r) st" by (rule cq_core_lane [OF core st])
  let ?st = "st\<lparr>activeTaskIds := filter (\<lambda>t. t \<noteq> task_id r) (activeTaskIds st)\<rparr>"
  let ?q = "notifyActiveTaskWaiters (putLane ?st (dropTask (task_id r) qs))"
  have acc': "waiter_account (putLane ?st (dropTask (task_id r) qs))" using acc by (simp add: waiter_account_def)
  have lane: "map_of (lanes ?q) (task_lane r) = Some ?st" using ok by (simp add: lane_ok_def store_law)
  have "task_id r \<in> set (activeTaskIds st)" using ok r cur by (auto simp: lane_ok_def)
  then have free: "int (length (activeTaskIds ?st)) + 1 = maxConcurrent ?st"
    using ok full length_filter_neq [of "activeTaskIds st" "task_id r"] by (auto simp: lane_ok_def)
  have "\<not> draining st" using ok by (simp add: lane_ok_def)
  then show ?thesis
    using pump_one [OF lane _ free, of e rest now] q
    by (simp add: finish_eq [OF r dist res st] cur notify_frame [OF acc'])
qed

text \<open>The completion of a task whose lane was reset since it started is inert: whatever its
  outcome, it settles its own promise and changes no lane and no waiter, so it cannot free a slot that
  now belongs to newer work.\<close>

theorem stale_completion_inert:
  assumes "qs = fold cq_step es initQueueState" and "r \<in> set (inflight qs)"
    and "map_of (lanes qs) (task_lane r) = Some st" and "task_generation r \<noteq> generation st"
    and "runQueueEntryTask (task_lane r) (task_entry r) outcome = Some result"
  shows "finishTask now (task_id r) outcome qs =
    qs\<lparr>inflight := filter (\<lambda>x. task_id x \<noteq> task_id r) (inflight qs),
       settled := settled qs @ [(promise (task_entry r), result)]\<rparr>"
proof -
  have "distinct (map task_id (inflight qs))" using cq_reach(1) [of es] by (simp add: assms(1) cq_core_def)
  then show ?thesis using assms(4) by (simp add: finish_eq [OF assms(2) _ assms(5,3)] dropTask_def settle_def)
qed

text \<open>If no call ever set the limit of lane \<open>n\<close> above \<open>k\<close>, then after any sequence of calls at
  most \<open>k\<close> tasks of the lane's current generation are in flight; with \<open>k = 1\<close>, the default, a lane
  runs its commands one at a time.\<close>

theorem lane_concurrency_bounded:
  assumes "1 \<le> k" and "\<forall>e \<in> set es. limit_at_most k n (snd e)"
    and "map_of (lanes (fold cq_step es initQueueState)) n = Some st"
  shows "int (length (activeTaskIds st)) \<le> k \<and>
    length (filter (\<lambda>r. task_lane r = n \<and> task_generation r = generation st) (inflight (fold cq_step es initQueueState))) =
    length (activeTaskIds st)"
proof -
  have "lane_within k n (fold cq_step es initQueueState)"
    by (rule within_run [OF assms(1) init_inv _ assms(2)]) (simp add: lane_within_def initQueueState_def)
  then show ?thesis using active_count [OF cq_reach(1) assms(3)] assms(3) by (simp add: lane_within_def)
qed

text \<open>Every caller of \<^verbatim>\<open>waitForActiveTasks\<close> is answered at most once, and one still waiting
  always has a reason: some task it captured at the call is still active in its lane and in flight.\<close>

theorem waiters_have_cause:
  assumes "w \<in> set (activeTaskWaiters (fold cq_step es initQueueState))"
  shows "waiter_id w \<notin> fst ` set (drained (fold cq_step es initQueueState)) \<and>
    distinct (map fst (drained (fold cq_step es initQueueState))) \<and>
    (\<exists>r \<in> set (inflight (fold cq_step es initQueueState)). task_id r \<in> set (waiter_tasks w) \<and>
      (\<exists>st. map_of (lanes (fold cq_step es initQueueState)) (task_lane r) = Some st \<and> task_id r \<in> set (activeTaskIds st)))"
proof -
  let ?qs = "fold cq_step es initQueueState"
  have "mset (map waiter_id (activeTaskWaiters ?qs) @ map fst (drained ?qs)) = mset [0..<nextWaiter ?qs]"
    using cq_reach(5) [of es] by (simp add: waiter_account_def)
  then have dist: "distinct (map waiter_id (activeTaskWaiters ?qs) @ map fst (drained ?qs))"
    by (metis distinct_upt mset_eq_imp_distinct_iff)
  obtain n st t where t: "map_of (lanes ?qs) n = Some st" "t \<in> set (activeTaskIds st)" "t \<in> set (waiter_tasks w)"
    using cq_reach(4) [of es] assms by (auto simp: waiters_live_def)
  have "lane_ok ?qs n st" by (rule cq_core_lane [OF cq_reach(1) t(1)])
  then obtain r where "r \<in> set (inflight ?qs)" "task_id r = t" "task_lane r = n"
    using t(2) by (auto simp: lane_ok_def)
  then show ?thesis using dist assms t by (auto simp: image_iff)
qed

subsection \<open>Witnesses\<close>

definition demoOpts :: enqueue_options where
  "demoOpts = \<lparr>opt_warnAfterMs = None, opt_taskTimeoutMs = Some 50, opt_onWait = False\<rparr>"

definition demoCalls :: "(int \<times> cq_call) list" where
  "demoCalls = [(0, Enqueue '' main '' demoOpts), (1, Enqueue ''main'' demoOpts), (2, Enqueue ''main'' demoOpts)]"

definition demoTask :: "nat \<Rightarrow> started_task" where
  "demoTask g = \<lparr>task_id = 1, task_generation = g, task_lane = ''main'', task_entry = \<lparr>promise = 0, enqueuedAt = 0,
     warnAfterMs = 2000, taskTimeoutMs = Some 50, hasOnWait = False\<rparr>\<rparr>"

definition demoEntry :: "nat \<Rightarrow> queue_entry" where
  "demoEntry p = \<lparr>promise = p, enqueuedAt = int p, warnAfterMs = 2000, taskTimeoutMs = Some 50, hasOnWait = False\<rparr>"

definition demoLane :: lane_state where
  "demoLane = \<lparr>lane = ''main'', queue = [demoEntry 1, demoEntry 2], activeTaskIds = [1], maxConcurrent = 1,
     draining = False, generation = 0\<rparr>"

lemma demo_state:
  "lanes (fold cq_step demoCalls initQueueState) = [(''main'', demoLane)]"
  "inflight (fold cq_step demoCalls initQueueState) = [demoTask 0]"
  by code_simp+

theorem lanes_work_conserving_witness: "maxConcurrent demoLane \<le> int (length (activeTaskIds demoLane))"
  using lanes_work_conserving [of demoCalls "''main''" demoLane] by (simp add: demo_state) (simp add: demoLane_def)

theorem slot_handed_to_head_witness:
  "map_of (lanes (finishTask 9 1 TimerFires (fold cq_step demoCalls initQueueState))) ''main'' =
     Some (demoLane\<lparr>queue := [demoEntry 2], activeTaskIds := [2]\<rparr>)"
proof -
  have "nextTaskId (fold cq_step demoCalls initQueueState) = 2" by code_simp
  then show ?thesis
    using slot_handed_to_head [OF refl, of "demoTask 0" demoCalls demoLane "demoEntry 1" "[demoEntry 2]" TimerFires
        "Inl (CommandLaneTaskTimeoutError ''main'' 50)" 9]
    by (simp add: demo_state) (simp add: demoTask_def demoLane_def runQueueEntryTask_def normalizeTaskTimeoutMs_def)
qed

definition demoReset :: "(int \<times> cq_call) list" where
  "demoReset = demoCalls @ [(3, ResetLane ''main'')]"

theorem stale_completion_inert_witness:
  "lanes (finishTask 9 1 (TaskReturns ''x'') (fold cq_step demoReset initQueueState)) =
   lanes (fold cq_step demoReset initQueueState)"
proof -
  let ?qs = "fold cq_step demoReset initQueueState"
  have r: "demoTask 0 \<in> set (inflight ?qs)" by code_simp
  have st: "map_of (lanes ?qs) ''main'' =
      Some (demoLane\<lparr>queue := [demoEntry 2], activeTaskIds := [2], generation := 1\<rparr>)" by code_simp
  show ?thesis
    using stale_completion_inert [OF refl r, of "demoLane\<lparr>queue := [demoEntry 2], activeTaskIds := [2], generation := 1\<rparr>"
        "TaskReturns ''x''" "Inr ''x''" 9] st
    by (simp add: demoTask_def runQueueEntryTask_def)
qed

theorem lane_concurrency_bounded_witness: "length (activeTaskIds demoLane) \<le> 1"
  using lane_concurrency_bounded [of 1 demoCalls "''main''" demoLane]
  by (simp add: demo_state) (simp add: demoCalls_def)

definition demoWait :: "(int \<times> cq_call) list" where
  "demoWait = demoCalls @ [(3, WaitActive (Some 100))]"

theorem waiters_have_cause_witness:
  "0 \<notin> fst ` set (drained (fold cq_step demoWait initQueueState))"
proof -
  have "\<lparr>waiter_id = 0, waiter_tasks = [1], waiter_timeout = True\<rparr> \<in> set (activeTaskWaiters (fold cq_step demoWait initQueueState))"
    by code_simp
  from waiters_have_cause [OF this] show ?thesis by simp
qed

end
