(* ===== verification/ToolPolicies.thy ===== *)
theory ToolPolicies
  imports JsPrelude
begin

text \<open>
  The tool-policy table of the privacy plugin, \<^verbatim>\<open>packages/privacy-plugin/src/tool-policies.ts\<close>: which
  tools may be called, and whether their arguments are de-anonymized. Reading the file and the YAML
  and schema parsers are parameters: \<open>readFile\<close> fails with \<open>None\<close>, \<open>parseTable\<close> yields the rows
  of \<^verbatim>\<open>tool_policies\<close> in the order of \<^verbatim>\<open>Object.entries\<close> or \<open>None\<close> where either parser throws.
\<close>

datatype sensitivity = Low | Medium | Critical

datatype args_policy =
    Deanonymize
  | KeepAnonymized
  | MaxSensitivity sensitivity
  | PerField "(string \<times> sensitivity) list"

datatype result_policy = Anonymize | Passthrough

datatype policy_entry =
    Allow args_policy result_policy
  | Deny string

record table_entry =
  pattern :: string
  policy :: policy_entry

type_synonym policy_table = "table_entry list"

datatype verdict =
    VPolicy args_policy result_policy
  | VDeny string

definition DEFAULT_DENY :: verdict where
  "DEFAULT_DENY = VDeny ''No tool policy configured (deny-by-default).''"

definition matchPattern :: "string \<Rightarrow> string \<Rightarrow> bool" where
  "matchPattern pat name =
     (if pat = ''*'' then True
      else if ends_with ''.*'' pat
      then (let pre = take (length pat - 2) pat in name = pre \<or> starts_with (pre @ ''.'') name)
      else pat = name)"

definition prefixSpecificity :: "string \<Rightarrow> nat" where
  "prefixSpecificity pat =
     (if pat = ''*'' then 0
      else if ends_with ''.*'' pat then length pat - 2
      else length pat + 1000)"

text \<open>\<^verbatim>\<open>entries.sort\<close> is stable; descending specificity is ascending negated specificity.\<close>

definition sortEntries :: "policy_table \<Rightarrow> policy_table" where
  "sortEntries = sort_key (\<lambda>e. - int (prefixSpecificity (pattern e)))"

definition loadToolPolicies ::
  "(string \<Rightarrow> string option) \<Rightarrow> (string \<Rightarrow> (string \<times> policy_entry) list option) \<Rightarrow> string \<Rightarrow> policy_table option" where
  "loadToolPolicies readFile parseTable path =
     (case readFile path of
        None \<Rightarrow> Some []
      | Some raw \<Rightarrow>
          (case parseTable raw of
             None \<Rightarrow> None
           | Some rows \<Rightarrow> Some (sortEntries (map (\<lambda>(pat, pol). \<lparr>pattern = pat, policy = pol\<rparr>) rows))))"

definition entryVerdict :: "table_entry \<Rightarrow> verdict" where
  "entryVerdict e = (case policy e of Deny m \<Rightarrow> VDeny m | Allow a r \<Rightarrow> VPolicy a r)"

fun resolvePolicy :: "policy_table \<Rightarrow> string \<Rightarrow> verdict" where
  "resolvePolicy [] toolName = DEFAULT_DENY"
| "resolvePolicy (e # es) toolName =
     (if matchPattern (pattern e) toolName then entryVerdict e else resolvePolicy es toolName)"

subsection \<open>Matching and specificity\<close>

lemma family_pattern: "ends_with ''.*'' pat \<Longrightarrow> pat = take (length pat - 2) pat @ ''.*''"
  by (auto simp: ends_with_iff)

text \<open>Two patterns of equal specificity that match one name are equal, but for the pair of the bare
  wildcard and the family of the empty prefix.\<close>

lemma same_specificity:
  assumes "matchPattern p name" and "matchPattern q name" and "prefixSpecificity p = prefixSpecificity q"
    and "{p, q} \<noteq> {''*'', ''.*''}"
  shows "p = q"
proof -
  have fam: "\<exists>pre. r = pre @ ''.*'' \<and> prefix pre name \<and> prefixSpecificity r = length pre"
    if "matchPattern r name" "ends_with ''.*'' r" for r
    using that by (auto simp: matchPattern_def prefixSpecificity_def ends_with_iff starts_with_iff Let_def prefix_def)
  have exact: "r = name \<and> prefixSpecificity r = length name + 1000"
    if "matchPattern r name" "\<not> ends_with ''.*'' r" "r \<noteq> ''*''" for r
    using that by (auto simp: matchPattern_def prefixSpecificity_def)
  have star: "prefixSpecificity ''*'' = 0" by (simp add: prefixSpecificity_def)
  have nostar: "\<not> ends_with ''.*'' ''*''" by (simp add: ends_with_def suffix_def)
  show ?thesis
  proof (cases "ends_with ''.*'' p"; cases "ends_with ''.*'' q")
    assume a: "ends_with ''.*'' p" "ends_with ''.*'' q"
    obtain x y where "p = x @ ''.*''" "prefix x name" "q = y @ ''.*''" "prefix y name" "length x = length y"
      using fam [OF assms(1) a(1)] fam [OF assms(2) a(2)] assms(3) by auto
    then show ?thesis by (metis prefix_length_prefix prefix_order.dual_order.antisym order_refl)
  next
    assume a: "ends_with ''.*'' p" "\<not> ends_with ''.*'' q"
    obtain x where x: "p = x @ ''.*''" "prefix x name" "prefixSpecificity p = length x" using fam [OF assms(1) a(1)] by auto
    show ?thesis
    proof (cases "q = ''*''")
      case True
      then have "x = []" using x assms(3) star by simp
      then show ?thesis using assms(4) True x(1) by auto
    next
      case False
      then show ?thesis using exact [OF assms(2) a(2)] x assms(3) prefix_length_le [OF x(2)] by simp
    qed
  next
    assume a: "\<not> ends_with ''.*'' p" "ends_with ''.*'' q"
    obtain x where x: "q = x @ ''.*''" "prefix x name" "prefixSpecificity q = length x" using fam [OF assms(2) a(2)] by auto
    show ?thesis
    proof (cases "p = ''*''")
      case True
      then have "x = []" using x assms(3) star by simp
      then show ?thesis using assms(4) True x(1) by auto
    next
      case False
      then show ?thesis using exact [OF assms(1) a(1)] x assms(3) prefix_length_le [OF x(2)] by simp
    qed
  next
    assume a: "\<not> ends_with ''.*'' p" "\<not> ends_with ''.*'' q"
    then show ?thesis using exact [OF assms(1)] exact [OF assms(2)] star assms(3) by (cases "p = ''*''"; cases "q = ''*''") auto
  qed
qed

subsection \<open>The sorted table\<close>

definition spec_sorted :: "policy_table \<Rightarrow> bool" where
  "spec_sorted es \<longleftrightarrow> sorted_wrt (\<lambda>a b. prefixSpecificity (pattern b) \<le> prefixSpecificity (pattern a)) es"

lemma sortEntries_sorted: "spec_sorted (sortEntries es)"
proof -
  have "sorted (map (\<lambda>e. - int (prefixSpecificity (pattern e))) (sortEntries es))"
    by (simp add: sortEntries_def)
  then show ?thesis by (simp add: spec_sorted_def sorted_map)
qed

lemma mset_sortEntries: "mset (sortEntries es) = mset es"
  by (simp add: sortEntries_def)

lemma resolve_cases:
  assumes "spec_sorted es"
  shows "(\<exists>e \<in> set es. matchPattern (pattern e) name \<and> resolvePolicy es name = entryVerdict e \<and>
      (\<forall>e' \<in> set es. matchPattern (pattern e') name \<longrightarrow> prefixSpecificity (pattern e') \<le> prefixSpecificity (pattern e))) \<or>
    (\<forall>e \<in> set es. \<not> matchPattern (pattern e) name) \<and> resolvePolicy es name = DEFAULT_DENY"
  using assms by (induction es) (auto simp: spec_sorted_def)

subsection \<open>Properties\<close>

text \<open>The rows that may speak for a tool, first the one that does: the row of its own name, unless that is a
  wildcard itself, the families it belongs to from the longest to the shortest, and the bare wildcard.\<close>

definition rows_for :: "string \<Rightarrow> string list" where
  "rows_for name =
     (if name = ''*'' \<or> ends_with ''.*'' name then [] else [name]) @
     map (\<lambda>p. p @ ''.*'') (rev (filter (\<lambda>p. p = name \<or> prefix (p @ ''.'') name) (prefixes name))) @ [''*'']"

definition governing_row :: "(string \<times> policy_entry) list \<Rightarrow> string \<Rightarrow> policy_entry option" where
  "governing_row rows name = Option.bind (List.find (\<lambda>p. p \<in> set (map fst rows)) (rows_for name)) (map_of rows)"

lemma family_end: "ends_with ''.*'' (p @ ''.*'')"
  by (simp add: ends_with_iff)

lemma match_rows_for: "matchPattern p name \<longleftrightarrow> p \<in> set (rows_for name)"
proof (cases "ends_with ''.*'' p")
  case True
  then obtain x where x: "p = x @ ''.*''" by (auto simp: ends_with_iff)
  have "x @ ''.*'' \<noteq> ''*''" by (cases x) auto
  moreover have "matchPattern (x @ ''.*'') name \<longleftrightarrow> name = x \<or> prefix (x @ ''.'') name"
    using family_end [of x] \<open>x @ ''.*'' \<noteq> ''*''\<close> by (simp add: matchPattern_def starts_with_iff prefix_def Let_def)
  moreover have "name = x \<or> prefix (x @ ''.'') name \<Longrightarrow> prefix x name" by (auto simp: prefix_def)
  ultimately show ?thesis using family_end [of x] unfolding x rows_for_def by auto
next
  case False
  then show ?thesis using family_end by (auto simp: matchPattern_def rows_for_def)
qed

text \<open>The order of the list is that of the specificity, but for the bare wildcard and the family of the empty prefix.\<close>

definition outranks :: "string \<Rightarrow> string \<Rightarrow> bool" where
  "outranks p q \<longleftrightarrow> prefixSpecificity q < prefixSpecificity p \<or> p = ''.*'' \<and> q = ''*''"

lemma specificity_family: "prefixSpecificity (p @ ''.*'') = length p"
  using family_end [of p] by (cases p) (simp_all add: prefixSpecificity_def)

lemma prefixes_longer: "sorted_wrt (\<lambda>a b. length a < length b) (prefixes xs)"
  by (induction xs) (auto simp: sorted_wrt_map)

lemma rows_for_sorted: "sorted_wrt outranks (rows_for name)"
proof -
  let ?fams = "rev (filter (\<lambda>p. p = name \<or> prefix (p @ ''.'') name) (prefixes name))"
  have "sorted_wrt (\<lambda>a b. length b < length a) ?fams"
    by (simp add: sorted_wrt_rev sorted_wrt_filter prefixes_longer)
  then have fams: "sorted_wrt outranks (map (\<lambda>p. p @ ''.*'') ?fams)"
    by (auto simp: sorted_wrt_map outranks_def specificity_family elim!: sorted_wrt_mono_rel [rotated])
  have own: "outranks name q" if "name \<noteq> ''*''" "\<not> ends_with ''.*'' name" "q \<in> set (map (\<lambda>p. p @ ''.*'') ?fams @ [''*''])" for q
  proof -
    have "length p \<le> length name" if "p = name \<or> prefix (p @ ''.'') name" for p using that by (auto simp: prefix_def)
    moreover have "prefixSpecificity name = length name + 1000" using that by (simp add: prefixSpecificity_def)
    ultimately show ?thesis using that(3) by (fastforce simp: outranks_def specificity_family prefixSpecificity_def [of "''*''"])
  qed
  have last: "outranks (p @ ''.*'') ''*''" for p
    using specificity_family [of p] by (cases p) (simp_all add: outranks_def prefixSpecificity_def [of "''*''"])
  show ?thesis unfolding rows_for_def using fams own last by (auto simp: sorted_wrt_append)
qed

lemma find_first: "List.find P xs = Some p \<Longrightarrow> sorted_wrt R xs \<Longrightarrow> q \<in> set xs \<Longrightarrow> P q \<Longrightarrow> q = p \<or> R p q"
  by (induction xs) (auto split: if_splits)

text \<open>C35: The verdict on a tool comes from the most specific row of the file that matches its name. The row of the
  tool's own name comes first, then the families it belongs to from the longest name to the shortest, then the
  bare wildcard; the first of them that the file holds decides, whatever the order of its rows. When it holds
  none of them, or the policy file cannot be read, the tool is denied.\<close>

theorem verdict_most_specific:
  assumes "readFile path = Some raw" and "parseTable raw = Some rows"
    and "distinct (map fst rows)" and "\<not> {''*'', ''.*''} \<subseteq> set (map fst rows)"
    and "readFile missing = None"
  shows "(\<exists>table. loadToolPolicies readFile parseTable path = Some table \<and>
      resolvePolicy table name =
        (case governing_row rows name of
           None \<Rightarrow> VDeny ''No tool policy configured (deny-by-default).''
         | Some (Deny m) \<Rightarrow> VDeny m
         | Some (Allow a r) \<Rightarrow> VPolicy a r)) \<and>
    (\<exists>table. loadToolPolicies readFile parseTable missing = Some table \<and>
      resolvePolicy table name = VDeny ''No tool policy configured (deny-by-default).'')"
proof -
  let ?mk = "map (\<lambda>(pat, pol). \<lparr>pattern = pat, policy = pol\<rparr>)"
  let ?table = "sortEntries (?mk rows)"
  have in_table: "e \<in> set ?table \<longleftrightarrow> (pattern e, policy e) \<in> set rows" for e
    using arg_cong [OF mset_sortEntries [of "?mk rows"], of set_mset] by (cases e) force
  have "resolvePolicy ?table name = (case governing_row rows name of None \<Rightarrow> DEFAULT_DENY | Some (Deny m) \<Rightarrow> VDeny m | Some (Allow a r) \<Rightarrow> VPolicy a r)"
  proof (cases "List.find (\<lambda>p. p \<in> set (map fst rows)) (rows_for name)")
    case None
    then have "\<not> matchPattern (pattern e) name" if "e \<in> set ?table" for e
      using that in_table [of e] unfolding match_rows_for find_None_iff by force
    then have "resolvePolicy ?table name = DEFAULT_DENY" using resolve_cases [OF sortEntries_sorted, of "?mk rows" name] by blast
    then show ?thesis using None by (simp add: governing_row_def)
  next
    case (Some p)
    then have p: "p \<in> set (map fst rows)" "p \<in> set (rows_for name)" by (auto simp: find_Some_iff)
    then obtain pol where pol: "(p, pol) \<in> set rows" by auto
    then have mem: "\<lparr>pattern = p, policy = pol\<rparr> \<in> set ?table" by (simp add: in_table)
    moreover have m: "matchPattern p name" using p(2) by (simp add: match_rows_for)
    ultimately obtain e where e: "e \<in> set ?table" "matchPattern (pattern e) name" "resolvePolicy ?table name = entryVerdict e"
      "prefixSpecificity p \<le> prefixSpecificity (pattern e)"
      using resolve_cases [OF sortEntries_sorted, of "?mk rows" name] by (metis table_entry.select_convs(1))
    have er: "(pattern e, policy e) \<in> set rows" using e(1) in_table by blast
    then have ep: "pattern e \<in> set (map fst rows)" by force
    have "pattern e = p \<or> outranks p (pattern e)"
      using find_first [OF Some rows_for_sorted _ ep] e(2) by (simp add: match_rows_for)
    then have "pattern e = p" using e(4) ep p(1) assms(4) unfolding outranks_def by (metis empty_subsetI insert_subset leD)
    then have "policy e = pol" using er pol assms(3) by (metis eq_key_imp_eq_value)
    moreover have "governing_row rows name = Some pol" using Some pol assms(3) by (simp add: governing_row_def)
    ultimately show ?thesis using e(3) by (simp add: entryVerdict_def split: policy_entry.split)
  qed
  moreover have "loadToolPolicies readFile parseTable path = Some ?table" using assms(1,2) by (simp add: loadToolPolicies_def)
  moreover have "loadToolPolicies readFile parseTable missing = Some []" using assms(5) by (simp add: loadToolPolicies_def)
  ultimately show ?thesis unfolding DEFAULT_DENY_def [symmetric] by (intro conjI exI [of _ ?table] exI [of _ "[]"]) simp_all
qed

text \<open>The order of the rows in the file never matters: two files with the same rows, each pattern
  once and not both \<^verbatim>\<open>*\<close> and \<^verbatim>\<open>.*\<close>, give the same verdict on every tool.\<close>

theorem row_order_irrelevant:
  assumes "parseTable raw = Some rows" and "parseTable raw' = Some rows'" and "mset rows = mset rows'"
    and "distinct (map fst rows)" and "\<not> {''*'', ''.*''} \<subseteq> fst ` set rows"
    and "readFile path = Some raw" and "readFile path' = Some raw'"
    and "loadToolPolicies readFile parseTable path = Some table"
    and "loadToolPolicies readFile parseTable path' = Some table'"
  shows "resolvePolicy table name = resolvePolicy table' name"
proof -
  let ?mk = "map (\<lambda>(pat, pol). \<lparr>pattern = pat, policy = pol\<rparr>)"
  have t: "table = sortEntries (?mk rows)" "table' = sortEntries (?mk rows')"
    using assms by (auto simp: loadToolPolicies_def)
  then have s: "spec_sorted table" "spec_sorted table'" by (simp_all add: sortEntries_sorted)
  have m: "mset table = mset table'" using assms(3) by (simp add: t mset_sortEntries)
  then have same: "set table' = set table" by (metis set_mset_mset)
  have "map pattern (?mk rs) = map fst rs" for rs :: "(string \<times> policy_entry) list" by (induction rs) auto
  then have M: "mset (map pattern table) = mset (map fst rows)"
    using arg_cong [OF mset_sortEntries [of "?mk rows"], of "image_mset pattern"] unfolding t(1) by (metis mset_map)
  have d: "distinct (map pattern table)" using mset_eq_imp_distinct_iff [OF M] assms(4) by simp
  have p: "pattern ` set table = fst ` set rows" using arg_cong [OF M, of set_mset] by simp
  have unique: "a = b" if "a \<in> set table" "b \<in> set table" "matchPattern (pattern a) name" "matchPattern (pattern b) name"
    "prefixSpecificity (pattern a) = prefixSpecificity (pattern b)" for a b
  proof (rule same_id [OF d that(1,2)])
    have "{pattern a, pattern b} \<subseteq> fst ` set rows" using that(1,2) by (simp flip: p)
    then have "{pattern a, pattern b} \<noteq> {''*'', ''.*''}" using assms(5) by metis
    then show "pattern a = pattern b" by (rule same_specificity [OF that(3-5)])
  qed
  from resolve_cases [OF s(1), of name] resolve_cases [OF s(2), of name] show ?thesis
    unfolding same by (metis unique dual_order.antisym)
qed

text \<open>The verdict on a tool that has a row of its own is that row's, whatever wildcards the file
  also holds.\<close>
theorem exact_row_decides:
  assumes "loadToolPolicies readFile parseTable path = Some table" and "distinct (map pattern table)"
    and "e \<in> set table" and "pattern e = name" and "name \<noteq> ''*''" and "\<not> ends_with ''.*'' name"
  shows "resolvePolicy table name = entryVerdict e"
proof -
  have s: "spec_sorted table"
    using assms(1) by (auto simp: loadToolPolicies_def sortEntries_sorted split: option.splits) (simp add: spec_sorted_def)
  have m: "matchPattern (pattern e) name" using assms by (simp add: matchPattern_def)
  from resolve_cases [OF s, of name] m assms(3) obtain e' where e': "e' \<in> set table" "matchPattern (pattern e') name"
    "resolvePolicy table name = entryVerdict e'" "prefixSpecificity name \<le> prefixSpecificity (pattern e')"
    using assms(4) by blast
  have "pattern e' = name"
  proof (rule ccontr)
    assume ne: "pattern e' \<noteq> name"
    have big: "prefixSpecificity name = length name + 1000" using assms by (simp add: prefixSpecificity_def)
    have "prefixSpecificity (pattern e') \<le> length name"
      using ne e'(2)
      by (auto simp: matchPattern_def prefixSpecificity_def starts_with_def Let_def split: if_splits dest!: prefix_length_le)
    then show False using e'(4) big by simp
  qed
  then have "e' = e" using same_id [OF assms(2) e'(1) assms(3)] assms(4) by simp
  then show ?thesis using e'(3) by simp
qed

subsection \<open>Witnesses\<close>

definition demo_rows :: "(string \<times> policy_entry) list" where
  "demo_rows = [(''*'', Deny ''unknown tool''), (''bitrix24.*'', Allow Deanonymize Anonymize),
     (''bitrix24.users.delete'', Deny ''read only''), (''web.search'', Allow KeepAnonymized Passthrough)]"

definition demo_table :: policy_table where
  "demo_table = sortEntries (map (\<lambda>(pat, pol). \<lparr>pattern = pat, policy = pol\<rparr>) demo_rows)"

lemma demo_load: "loadToolPolicies (\<lambda>_. Some []) (\<lambda>_. Some demo_rows) ''p'' = Some demo_table"
  by (simp add: loadToolPolicies_def demo_table_def)

lemma demo_table_eq: "demo_table =
  [\<lparr>pattern = ''bitrix24.users.delete'', policy = Deny ''read only''\<rparr>,
   \<lparr>pattern = ''web.search'', policy = Allow KeepAnonymized Passthrough\<rparr>,
   \<lparr>pattern = ''bitrix24.*'', policy = Allow Deanonymize Anonymize\<rparr>,
   \<lparr>pattern = ''*'', policy = Deny ''unknown tool''\<rparr>]"
  by code_simp

theorem verdict_most_specific_witness:
  "\<exists>table. loadToolPolicies (\<lambda>p. if p = ''p'' then Some [] else None) (\<lambda>_. Some demo_rows) ''p'' = Some table \<and>
     resolvePolicy table ''bitrix24.deals.list'' = VPolicy Deanonymize Anonymize"
proof -
  have "governing_row demo_rows ''bitrix24.deals.list'' = Some (Allow Deanonymize Anonymize)" by code_simp
  moreover have "distinct (map fst demo_rows)" "\<not> {''*'', ''.*''} \<subseteq> set (map fst demo_rows)" by (simp_all add: demo_rows_def)
  ultimately show ?thesis
    using verdict_most_specific [of "\<lambda>p. if p = ''p'' then Some [] else None" "''p''" "[]" "\<lambda>_. Some demo_rows" demo_rows "''q''" "''bitrix24.deals.list''"]
    by simp
qed

theorem row_order_irrelevant_witness:
  "resolvePolicy demo_table ''bitrix24.deals.list'' =
   resolvePolicy (sortEntries (map (\<lambda>(pat, pol). \<lparr>pattern = pat, policy = pol\<rparr>) (rev demo_rows))) ''bitrix24.deals.list''"
proof (rule row_order_irrelevant [where rows = demo_rows and rows' = "rev demo_rows" and raw = "''a''" and raw' = "''b''"
      and path = "''a''" and path' = "''b''" and readFile = Some
      and parseTable = "\<lambda>raw. if raw = ''a'' then Some demo_rows else Some (rev demo_rows)"])
qed (simp_all add: loadToolPolicies_def demo_table_def, simp_all add: demo_rows_def)

theorem exact_row_decides_witness: "resolvePolicy demo_table ''bitrix24.users.delete'' = VDeny ''read only''"
  using exact_row_decides [OF demo_load, of "\<lparr>pattern = ''bitrix24.users.delete'', policy = Deny ''read only''\<rparr>"
      "''bitrix24.users.delete''"]
  by (simp add: demo_table_eq entryVerdict_def js_string suffix_def)

end
