(* ===== verification/JsText.thy ===== *)
theory JsText
  imports JsPrelude JsJson
begin

text \<open>
  The string operations of the JavaScript standard library the key and path builders call:
  \<^verbatim>\<open>split\<close> and \<^verbatim>\<open>join\<close> on one separator, \<^verbatim>\<open>lastIndexOf\<close> and the number of occurrences
  of a pattern, with the laws that make separated keys parse back.
\<close>

subsection \<open>Split and join\<close>

fun js_split :: "char \<Rightarrow> string \<Rightarrow> string list" where
  "js_split c [] = [[]]"
| "js_split c (x # xs) =
     (if x = c then [] # js_split c xs
      else (case js_split c xs of [] \<Rightarrow> [[x]] | p # ps \<Rightarrow> (x # p) # ps))"

abbreviation js_join :: "string \<Rightarrow> string list \<Rightarrow> string" where
  "js_join \<equiv> intersperse_concat"

lemma js_split_not_Nil [simp]: "js_split c s \<noteq> []"
  by (induction s) (auto split: list.splits)

lemma js_split_free: "c \<notin> set s \<Longrightarrow> js_split c s = [s]"
  by (induction s) auto

lemma js_split_append: "c \<notin> set s \<Longrightarrow> js_split c (s @ c # t) = s # js_split c t"
  by (induction s) auto

lemma js_split_parts_free: "p \<in> set (js_split c s) \<Longrightarrow> c \<notin> set p"
  by (induction s arbitrary: p) (auto split: if_splits list.splits)

lemma js_join_Cons: "xs \<noteq> [] \<Longrightarrow> js_join sep (x # xs) = x @ sep @ js_join sep xs"
  by (cases xs) auto

lemma js_join_split: "js_join [c] (js_split c s) = s"
proof (induction s)
  case (Cons x s)
  show ?case
  proof (cases "js_split c s")
    case (Cons p ps)
    then show ?thesis using Cons.IH by (cases ps) (auto simp: js_join_Cons)
  qed simp
qed simp

lemma js_split_join:
  assumes "ps \<noteq> []" and "\<forall>p \<in> set ps. c \<notin> set p"
  shows "js_split c (js_join [c] ps) = ps"
  using assms
proof (induction ps)
  case (Cons p ps)
  then show ?case by (cases "ps = []") (auto simp: js_join_Cons js_split_free js_split_append)
qed simp

lemma js_split_inj: "js_split c s = js_split c t \<longleftrightarrow> s = t"
  by (metis js_join_split)

text \<open>Dropping the empty parts, as \<^verbatim>\<open>.split(":").filter(Boolean)\<close> does.\<close>

definition segments :: "string \<Rightarrow> string list" where
  "segments s = filter (\<lambda>p. p \<noteq> []) (js_split CHR '':'' s)"

definition tidy :: "string \<Rightarrow> string" where
  "tidy s = js_join '':'' (segments s)"

lemma segments_Nil [simp]: "segments [] = []"
  by (simp add: segments_def)

lemma segments_free: "CHR '':'' \<notin> set s \<Longrightarrow> segments s = (if s = [] then [] else [s])"
  by (simp add: segments_def js_split_free)

lemma segments_append:
  "CHR '':'' \<notin> set s \<Longrightarrow> segments (s @ CHR '':'' # t) = (if s = [] then segments t else s # segments t)"
  by (simp add: segments_def js_split_append)

lemma segments_parts: "p \<in> set (segments s) \<Longrightarrow> p \<noteq> [] \<and> CHR '':'' \<notin> set p"
  by (auto simp: segments_def dest: js_split_parts_free)

lemma segments_tidy: "segments (tidy s) = segments s"
proof (cases "segments s")
  case (Cons p ps)
  then have "js_split CHR '':'' (tidy s) = segments s"
    unfolding tidy_def by (intro js_split_join) (metis list.distinct(1), metis segments_parts)
  then have "segments (tidy s) = filter (\<lambda>p. p \<noteq> []) (segments s)" by (metis segments_def)
  then show ?thesis by (simp add: filter_id_conv segments_parts)
qed (simp add: tidy_def)

lemma tidy_idem [simp]: "tidy (tidy s) = tidy s"
  by (metis segments_tidy tidy_def)

lemma tidy_free: "CHR '':'' \<notin> set s \<Longrightarrow> tidy s = s"
  by (simp add: tidy_def segments_free)

lemma tidy_append:
  "CHR '':'' \<notin> set s \<Longrightarrow> s \<noteq> [] \<Longrightarrow> segments t \<noteq> [] \<Longrightarrow> tidy (s @ CHR '':'' # t) = s @ CHR '':'' # tidy t"
  by (simp add: tidy_def segments_append js_join_Cons)

subsection \<open>Searching\<close>

text \<open>\<^verbatim>\<open>s.lastIndexOf(pat)\<close>, and \<^verbatim>\<open>s.split(pat).length - 1\<close>.\<close>

definition occurs_at :: "string \<Rightarrow> string \<Rightarrow> nat \<Rightarrow> bool" where
  "occurs_at pat s i \<longleftrightarrow> starts_with pat (drop i s)"

definition last_index_of :: "string \<Rightarrow> string \<Rightarrow> nat option" where
  "last_index_of pat s =
     (let is = filter (occurs_at pat s) [0..<Suc (length s)] in if is = [] then None else Some (last is))"

function count_occurrences :: "string \<Rightarrow> string \<Rightarrow> nat" where
  "count_occurrences pat s =
     (if pat = [] \<or> s = [] then 0
      else if starts_with pat s then Suc (count_occurrences pat (drop (length pat) s))
      else count_occurrences pat (tl s))"
  by pat_completeness auto
termination by (relation "measure (\<lambda>(pat, s). length s)") auto

declare count_occurrences.simps [simp del]

lemma last_index_of_Some:
  "last_index_of pat s = Some i \<longleftrightarrow> i \<le> length s \<and> occurs_at pat s i \<and> (\<forall>j. i < j \<and> j \<le> length s \<longrightarrow> \<not> occurs_at pat s j)"
proof -
  have key: "filter P [0..<n] \<noteq> [] \<and> last (filter P [0..<n]) = i \<longleftrightarrow> i < n \<and> P i \<and> (\<forall>j. i < j \<and> j < n \<longrightarrow> \<not> P j)"
    for P :: "nat \<Rightarrow> bool" and n
  proof (induction n)
    case (Suc n)
    show ?case
    proof (cases "P n")
      case True
      then show ?thesis by (auto simp: less_Suc_eq)
    next
      case False
      then show ?thesis using Suc.IH by (simp add: less_Suc_eq) blast
    qed
  qed simp
  have "last_index_of pat s = Some i \<longleftrightarrow>
      filter (occurs_at pat s) [0..<Suc (length s)] \<noteq> [] \<and> last (filter (occurs_at pat s) [0..<Suc (length s)]) = i"
    unfolding last_index_of_def Let_def by (simp del: upt_Suc)
  also have "\<dots> \<longleftrightarrow> i \<le> length s \<and> occurs_at pat s i \<and> (\<forall>j. i < j \<and> j \<le> length s \<longrightarrow> \<not> occurs_at pat s j)"
    unfolding key by (simp add: less_Suc_eq_le)
  finally show ?thesis .
qed

lemma last_index_of_None: "last_index_of pat s = None \<longleftrightarrow> (\<forall>i \<le> length s. \<not> occurs_at pat s i)"
  unfolding last_index_of_def Let_def filter_empty_conv by (simp del: upt_Suc) (auto simp: Bex_def less_Suc_eq_le)

text \<open>\<^verbatim>\<open>Array.from(new Set(xs))\<close>: the first of equal elements stays.\<close>

definition js_unique :: "'a list \<Rightarrow> 'a list" where
  "js_unique xs = rev (remdups (rev xs))"

lemma set_js_unique [simp]: "set (js_unique xs) = set xs"
  by (simp add: js_unique_def)

lemma distinct_js_unique [simp]: "distinct (js_unique xs)"
  by (simp add: js_unique_def)

lemma js_unique_Nil [simp]: "js_unique [] = []" "(js_unique xs = []) = (xs = [])"
  by (simp_all add: js_unique_def)

end
