(* ===== verification/FormEncoding.thy ===== *)
theory FormEncoding
  imports JsText
begin

text \<open>
  Percent encoding: \<^verbatim>\<open>encodeURIComponent\<close> and \<^verbatim>\<open>URLSearchParams\<close>, both ways, on texts of characters below 256
  with their UTF-8 bytes. A decoded character outside that range, or a malformed byte, stands as a question mark. What
  is encoded decodes to itself.
\<close>

subsection \<open>Encoding\<close>

definition alnum :: "char \<Rightarrow> bool" where
  "alnum c \<longleftrightarrow> is_digit c \<or> (let n = (of_char c :: nat) in (65 \<le> n \<and> n \<le> 90) \<or> (97 \<le> n \<and> n \<le> 122))"

definition upper_hex :: "nat \<Rightarrow> char" where
  "upper_hex n = (if n < 10 then char_of (48 + n) else char_of (55 + n))"

definition percent_byte :: "nat \<Rightarrow> string" where
  "percent_byte b = [CHR ''%'', upper_hex (b div 16), upper_hex (b mod 16)]"

text \<open>The UTF-8 bytes of a character below 256, percent-encoded.\<close>

definition percent_char :: "char \<Rightarrow> string" where
  "percent_char c =
     (let n = (of_char c :: nat)
      in if n < 128 then percent_byte n else percent_byte (192 + n div 64) @ percent_byte (128 + n mod 64))"

definition encodeURIComponent :: "string \<Rightarrow> string" where
  "encodeURIComponent s =
     concat (map (\<lambda>c. if alnum c \<or> c \<in> set ''-_.!~*()'' \<or> c = CHR 0x27 then [c] else percent_char c) s)"

definition formEncode :: "string \<Rightarrow> string" where
  "formEncode s =
     concat (map (\<lambda>c. if alnum c \<or> c \<in> set ''*-._'' then [c] else if c = CHR '' '' then ''+'' else percent_char c) s)"

fun urlSearchParams :: "(string \<times> string) list \<Rightarrow> string" where
  "urlSearchParams [] = []"
| "urlSearchParams [(k, v)] = formEncode k @ ''='' @ formEncode v"
| "urlSearchParams ((k, v) # ps) = formEncode k @ ''='' @ formEncode v @ ''&'' @ urlSearchParams ps"

subsection \<open>Safe characters\<close>

lemma alnum_safe: "alnum c \<Longrightarrow> c \<notin> set ''/?#&=+''"
  by (auto simp: alnum_def is_digit_def Let_def)

lemma upper_hex_alnum: "n < 16 \<Longrightarrow> alnum (upper_hex n)"
  by (auto simp: alnum_def is_digit_def upper_hex_def Let_def)

lemma percent_char_safe: "d \<in> set (percent_char c) \<Longrightarrow> d = CHR ''%'' \<or> alnum d"
proof -
  assume d: "d \<in> set (percent_char c)"
  have n: "(of_char c :: nat) < 256" by simp
  have b: "d = CHR ''%'' \<or> alnum d" if "d \<in> set (percent_byte k)" "k < 256" for k
  proof -
    have "k div 16 < 16" "k mod 16 < 16" using that(2) by auto
    from this [THEN upper_hex_alnum] show ?thesis using that(1) by (auto simp: percent_byte_def)
  qed
  have "(of_char c :: nat) div 64 < 4" by (rule less_mult_imp_div_less) (use n in simp)
  moreover have "(of_char c :: nat) mod 64 < 64" by simp
  moreover note n b
  ultimately show ?thesis using d by (fastforce simp: percent_char_def Let_def split: if_splits)
qed

subsection \<open>Decoding\<close>

fun utf8_bytes :: "char \<Rightarrow> nat list" where
  "utf8_bytes c = (let n = (of_char c :: nat) in if n < 128 then [n] else [192 + n div 64, 128 + n mod 64])"

definition hex_digit_value :: "char \<Rightarrow> nat option" where
  "hex_digit_value c =
     (let n = (of_char c :: nat)
      in if 48 \<le> n \<and> n \<le> 57 then Some (n - 48)
         else if 65 \<le> n \<and> n \<le> 70 then Some (n - 55)
         else if 97 \<le> n \<and> n \<le> 102 then Some (n - 87) else None)"

fun percent_bytes :: "string \<Rightarrow> nat list" where
  "percent_bytes [] = []"
| "percent_bytes [c] = utf8_bytes c"
| "percent_bytes [c, d] = utf8_bytes c @ utf8_bytes d"
| "percent_bytes (c # d # e # s) =
     (case (if c = CHR ''%'' then (hex_digit_value d, hex_digit_value e) else (None, None)) of
        (Some h, Some l) \<Rightarrow> (16 * h + l) # percent_bytes s
      | _ \<Rightarrow> utf8_bytes c @ percent_bytes (d # e # s))"

fun utf8_decode :: "nat list \<Rightarrow> string" where
  "utf8_decode [] = []"
| "utf8_decode [b] = [if b < 128 then char_of b else CHR ''?'']"
| "utf8_decode (b # b2 # bs) =
     (if b < 128 then char_of b # utf8_decode (b2 # bs)
      else if (b = 194 \<or> b = 195) \<and> 128 \<le> b2 \<and> b2 < 192 then char_of (64 * (b - 192) + (b2 - 128)) # utf8_decode bs
      else CHR ''?'' # utf8_decode (b2 # bs))"

definition formDecode :: "string \<Rightarrow> string" where
  "formDecode s = utf8_decode (percent_bytes (map (\<lambda>c. if c = CHR ''+'' then CHR '' '' else c) s))"

definition parsePair :: "string \<Rightarrow> string \<times> string" where
  "parsePair s =
     (let name = takeWhile (\<lambda>c. c \<noteq> CHR ''='') s; rest = drop (Suc (length name)) s in (formDecode name, formDecode rest))"

definition searchParams :: "string \<Rightarrow> (string \<times> string) list" where
  "searchParams query = map parsePair (filter (\<lambda>p. p \<noteq> []) (js_split CHR ''&'' query))"

text \<open>The query of a URL: what follows the first question mark, up to a fragment.\<close>

definition queryOf :: "string \<Rightarrow> string" where
  "queryOf url = takeWhile (\<lambda>c. c \<noteq> CHR ''#'') (tl (dropWhile (\<lambda>c. c \<noteq> CHR ''?'') (takeWhile (\<lambda>c. c \<noteq> CHR ''#'') url)))"

subsection \<open>What is encoded decodes to itself\<close>

lemma utf8_bytes_cases:
  "(of_char c :: nat) < 128 \<and> utf8_bytes c = [of_char c] \<or>
   (\<exists>m < 64. \<exists>d \<in> {2, 3}. (of_char c :: nat) = 64 * d + m \<and> utf8_bytes c = [192 + d, 128 + m])"
proof (cases "(of_char c :: nat) < 128")
  case False
  define n where "n = (of_char c :: nat)"
  have n: "n < 256" "\<not> n < 128" using False by (simp_all add: n_def)
  have "n div 64 < 4" "2 \<le> n div 64" using n by (simp_all add: less_mult_imp_div_less)
  then have "n div 64 \<in> {2, 3}" by auto
  moreover have "n mod 64 < 64" "n = 64 * (n div 64) + n mod 64" by simp_all
  moreover have "utf8_bytes c = [192 + n div 64, 128 + n mod 64]" using n by (simp flip: n_def)
  ultimately show ?thesis unfolding n_def [symmetric] by blast
qed simp

lemma utf8_decode_char: "utf8_decode (utf8_bytes c @ bs) = c # utf8_decode bs"
  using utf8_bytes_cases [of c]
proof (elim disjE exE bexE conjE)
  assume "(of_char c :: nat) < 128" "utf8_bytes c = [of_char c]"
  then show ?thesis by (cases bs) (simp_all del: utf8_bytes.simps)
next
  fix m d assume m: "m < 64" "d \<in> {2, 3 :: nat}" "(of_char c :: nat) = 64 * d + m" "utf8_bytes c = [192 + d, 128 + m]"
  then have "char_of (64 * d + m) = c" by (metis char_of_char)
  then show ?thesis using m(1, 2) unfolding m(4) by auto
qed

lemma hex_back: "n < 16 \<Longrightarrow> hex_digit_value (upper_hex n) = Some n"
  by (simp add: hex_digit_value_def upper_hex_def Let_def)

lemma percent_byte_back: "b < 256 \<Longrightarrow> percent_bytes (percent_byte b @ s) = b # percent_bytes s"
proof -
  assume "b < 256"
  then have "b div 16 < 16" "b mod 16 < 16" by auto
  then show ?thesis by (simp add: percent_byte_def hex_back)
qed

lemma percent_char_bytes: "percent_char c = concat (map percent_byte (utf8_bytes c))"
  by (simp add: percent_char_def Let_def)

lemma percent_bytes_back: "\<forall>b \<in> set bs. b < 256 \<Longrightarrow> percent_bytes (concat (map percent_byte bs) @ s) = bs @ percent_bytes s"
  by (induction bs) (simp_all add: percent_byte_back)

lemma percent_char_back: "percent_bytes (percent_char c @ s) = utf8_bytes c @ percent_bytes s"
proof -
  have "\<forall>b \<in> set (utf8_bytes c). b < 256" using utf8_bytes_cases [of c] by auto
  then show ?thesis unfolding percent_char_bytes by (rule percent_bytes_back)
qed

lemma plain_char_back: "c \<noteq> CHR ''%'' \<Longrightarrow> percent_bytes (c # s) = utf8_bytes c @ percent_bytes s"
  by (cases s rule: percent_bytes.cases) (auto simp del: utf8_bytes.simps)

lemma formDecode_encode: "formDecode (formEncode s) = s"
proof (induction s)
  case Nil
  then show ?case by (simp add: formDecode_def formEncode_def)
next
  case (Cons c s)
  let ?unplus = "map (\<lambda>c. if c = CHR ''+'' then CHR '' '' else c)"
  have unplus: "?unplus (percent_char c) = percent_char c"
    using percent_char_safe [of _ c] alnum_safe by (intro map_idI) force
  have step: "formEncode (c # s) = (if alnum c \<or> c \<in> set ''*-._'' then [c] else if c = CHR '' '' then ''+'' else percent_char c) @ formEncode s"
    by (simp add: formEncode_def)
  have "percent_bytes (?unplus (formEncode (c # s))) = utf8_bytes c @ percent_bytes (?unplus (formEncode s))"
  proof (cases "alnum c \<or> c \<in> set ''*-._''")
    case True
    then have "c \<noteq> CHR ''%''" "c \<noteq> CHR ''+''" by (auto simp: alnum_def is_digit_def Let_def)
    then show ?thesis using True by (simp add: step plain_char_back del: utf8_bytes.simps)
  next
    case False
    show ?thesis
    proof (cases "c = CHR '' ''")
      case True
      then show ?thesis using False unfolding step by (simp add: plain_char_back del: utf8_bytes.simps)
    next
      case False2: False
      then show ?thesis using False by (simp add: step unplus percent_char_back del: utf8_bytes.simps)
    qed
  qed
  then show ?case using Cons by (simp add: formDecode_def utf8_decode_char del: utf8_bytes.simps)
qed

lemma formEncode_safe: "d \<in> set (formEncode s) \<Longrightarrow> d \<noteq> CHR ''&'' \<and> d \<noteq> CHR ''=''"
proof -
  assume "d \<in> set (formEncode s)"
  then have "alnum d \<or> d \<in> set ''*-._+%''"
    by (auto simp: formEncode_def dest!: percent_char_safe split: if_splits)
  moreover have "\<not> alnum CHR ''&''" "\<not> alnum CHR ''=''" by (simp_all add: alnum_def is_digit_def)
  ultimately show ?thesis by auto
qed

definition form_pair :: "string \<times> string \<Rightarrow> string" where
  "form_pair kv = formEncode (fst kv) @ CHR ''='' # formEncode (snd kv)"

lemma urlSearchParams_join: "urlSearchParams ps = js_join ''&'' (map form_pair ps)"
  by (induction ps rule: urlSearchParams.induct) (simp_all add: form_pair_def)

lemma parsePair_back: "parsePair (form_pair kv) = kv"
proof -
  let ?k = "formEncode (fst kv)" and ?v = "formEncode (snd kv)"
  have "takeWhile (\<lambda>c. c \<noteq> CHR ''='') (?k @ CHR ''='' # ?v) = ?k"
    using formEncode_safe takeWhile_append2 [of ?k "\<lambda>c. c \<noteq> CHR ''=''" "CHR ''='' # ?v"] by simp
  then have "parsePair (?k @ CHR ''='' # ?v) = (formDecode ?k, formDecode ?v)"
    unfolding parsePair_def Let_def by simp
  then show ?thesis by (simp add: form_pair_def formDecode_encode)
qed

lemma searchParams_back: "searchParams (urlSearchParams ps) = ps"
proof (cases "ps = []")
  case True
  then show ?thesis by (simp add: searchParams_def)
next
  case False
  have "\<forall>p \<in> set (map form_pair ps). CHR ''&'' \<notin> set p"
    using formEncode_safe by (auto simp: form_pair_def)
  then have "js_split CHR ''&'' (urlSearchParams ps) = map form_pair ps"
    unfolding urlSearchParams_join using False by (intro js_split_join) auto
  moreover have "filter (\<lambda>p. p \<noteq> []) (map form_pair ps) = map form_pair ps" by (auto simp: filter_id_conv form_pair_def)
  ultimately show ?thesis by (simp add: searchParams_def parsePair_back cong: map_cong)
qed

lemma urlSearchParams_free: "CHR ''#'' \<notin> set (urlSearchParams ps)" 
proof -
  have enc: "d \<in> set (formEncode s) \<Longrightarrow> d \<noteq> CHR ''#''" for d s
  proof -
    assume "d \<in> set (formEncode s)"
    then have "alnum d \<or> d \<in> set ''*-._+%''"
      by (auto simp: formEncode_def dest!: percent_char_safe split: if_splits)
    moreover have "\<not> alnum CHR ''#''" by (simp add: alnum_def is_digit_def)
    ultimately show ?thesis by auto
  qed
  show ?thesis by (induction ps rule: urlSearchParams.induct) (auto dest: enc)
qed

lemma dropWhile_to: "c \<notin> set s \<Longrightarrow> dropWhile (\<lambda>x. x \<noteq> c) (s @ c # t) = c # t"
  by (induction s) auto

lemma queryOf_append:
  assumes "CHR ''?'' \<notin> set base" "CHR ''#'' \<notin> set base" "CHR ''#'' \<notin> set q"
  shows "queryOf (base @ CHR ''?'' # q) = q"
proof -
  have whole: "takeWhile (\<lambda>c. c \<noteq> CHR ''#'') (base @ CHR ''?'' # q) = base @ CHR ''?'' # q"
    using assms by (auto simp: takeWhile_eq_all_conv)
  show ?thesis
    using assms(3) unfolding queryOf_def whole by (auto simp: dropWhile_to [OF assms(1)] takeWhile_eq_all_conv)
qed

end
