(* ===== verification/AnonymizerClient.thy ===== *)
theory AnonymizerClient
  imports JsJson FormEncoding
begin

text \<open>
  The HTTP client of the privacy plugin, \<^verbatim>\<open>packages/privacy-plugin/src/anonymizer-client.ts\<close>, with its
  configuration (\<^verbatim>\<open>config.ts\<close>), its error types (\<^verbatim>\<open>errors.ts\<close>) and message types
  (\<^verbatim>\<open>anonymizer-types.ts\<close>).

  The network is a parameter: \<open>fetch\<close> takes a request and the state of the outside world, and rejects
  or answers with a status and a body, which is \<open>None\<close> where reading it fails. \<open>codec\<close> reads a
  response text at its declared type, \<open>None\<close> where \<^verbatim>\<open>JSON.parse\<close> throws; the code casts without a
  check, so a body is taken to have its declared type. Waiting between attempts is the list of delays.
\<close>

subsection \<open>Configuration\<close>

record plugin_config =
  anonymizerUrl :: string
  requestTimeoutMs :: int
  circuitBreakerMs :: int
  toolPoliciesPath :: string
  debugLogging :: bool
  maxRetries :: nat
  retryBaseDelayMs :: int

definition intOrUndef :: "string option \<Rightarrow> int option" where
  "intOrUndef raw = (case raw of None \<Rightarrow> None | Some s \<Rightarrow> if s = [] then None else parse_int10 s)"

text \<open>The schema's defaults, then its checks; \<open>validUrl\<close> is the URL check of the schema library.\<close>

definition ConfigSchema ::
  "(string \<Rightarrow> bool) \<Rightarrow> string option \<Rightarrow> int option \<Rightarrow> int option \<Rightarrow> string option \<Rightarrow> bool \<Rightarrow> int option \<Rightarrow> int option
    \<Rightarrow> plugin_config option" where
  "ConfigSchema validUrl url timeout cb path debug retries base =
     (let url' = coalesce url ''http://anonymizer:8403'';
          timeout' = coalesce timeout 5000;
          cb' = coalesce cb 30000;
          path' = coalesce path ''/etc/brikko/tool-policies.yaml'';
          retries' = coalesce retries 3;
          base' = coalesce base 100
      in if (url = None \<or> validUrl url') \<and> 0 < timeout' \<and> 0 < cb' \<and> 1 \<le> retries' \<and> retries' \<le> 10 \<and> 0 \<le> base'
         then Some \<lparr>anonymizerUrl = url', requestTimeoutMs = timeout', circuitBreakerMs = cb', toolPoliciesPath = path',
                    debugLogging = debug, maxRetries = nat retries', retryBaseDelayMs = base'\<rparr>
         else None)"

definition loadConfigFromEnv :: "(string \<Rightarrow> bool) \<Rightarrow> (string \<Rightarrow> string option) \<Rightarrow> plugin_config option" where
  "loadConfigFromEnv validUrl env =
     ConfigSchema validUrl (env ''BRIKKO_ANONYMIZER_URL'') (intOrUndef (env ''BRIKKO_ANONYMIZER_TIMEOUT_MS''))
       (intOrUndef (env ''BRIKKO_ANONYMIZER_CB_MS'')) (env ''BRIKKO_TOOL_POLICIES_PATH'')
       (env ''BRIKKO_PLUGIN_DEBUG'' = Some ''1'') (intOrUndef (env ''BRIKKO_ANONYMIZER_MAX_RETRIES''))
       (intOrUndef (env ''BRIKKO_ANONYMIZER_RETRY_BASE_MS''))"

subsection \<open>Messages\<close>

datatype policy_profile = Strict | Balanced | Permissive

definition profileName :: "policy_profile \<Rightarrow> string" where
  "profileName p = (case p of Strict \<Rightarrow> ''strict'' | Balanced \<Rightarrow> ''balanced'' | Permissive \<Rightarrow> ''permissive'')"

record entity =
  ent_placeholder :: string
  ent_category :: string
  ent_confidence :: string

record anonymize_request =
  an_workspace :: string
  an_request :: string
  an_text :: string
  an_session :: "string option"
  an_profile :: "policy_profile option"

record anonymize_response =
  masked_text :: string
  entities :: "entity list"
  degraded_mode :: bool

record restore_request =
  rs_workspace :: string
  rs_request :: string
  rs_text :: string

record restore_response =
  restored_text :: string
  hallucinated :: "string list"

datatype tool_mode = ModeDeanonymize | ModeForbid | ModeForwardMasked | ModeForwardThenRemask

definition toolModeName :: "tool_mode \<Rightarrow> string" where
  "toolModeName m = (case m of ModeDeanonymize \<Rightarrow> ''deanonymize'' | ModeForbid \<Rightarrow> ''forbid''
     | ModeForwardMasked \<Rightarrow> ''forward_masked'' | ModeForwardThenRemask \<Rightarrow> ''forward_then_remask'')"

record deanon_request =
  td_workspace :: string
  td_request :: string
  td_tool :: string
  td_args :: jsval
  td_policy :: "tool_mode option"

record deanon_response =
  td_out_args :: jsval
  deanonymized_keys :: "string list"

record stats_response =
  st_workspace :: string
  st_categories :: "(string \<times> nat) list"
  total_mappings :: nat
  audit_events_last_24h :: nat
  st_degraded_mode :: bool

record audit_event =
  ae_timestamp :: string
  ae_event_type :: string
  ae_category :: string
  ae_placeholder :: string
  ae_request_id :: string
  ae_tool_name :: "string option"

record audit_response =
  audit_events :: "audit_event list"
  audit_total :: nat
  next_offset :: "nat option"

record audit_params =
  aq_limit :: int
  aq_offset :: int
  aq_category :: "string option"
  aq_since :: "string option"

datatype purge_scope = PurgeAll | PurgeSession | PurgeSubject

record purge_request =
  pg_scope :: purge_scope
  pg_session :: "string option"
  pg_subject :: "string option"

record purge_response =
  deleted_mappings :: nat
  deleted_audit_events :: nat

record codec =
  as_anonymize :: "string \<Rightarrow> anonymize_response option"
  as_restore :: "string \<Rightarrow> restore_response option"
  as_deanon :: "string \<Rightarrow> deanon_response option"
  as_stats :: "string \<Rightarrow> stats_response option"
  as_audit :: "string \<Rightarrow> audit_response option"
  as_purge :: "string \<Rightarrow> purge_response option"

definition optStr :: "string option \<Rightarrow> jsval" where
  "optStr x = (case x of None \<Rightarrow> JUndefined | Some s \<Rightarrow> JStr s)"

text \<open>The request objects in the member order in which the hooks write them.\<close>

definition anonymizeBody :: "anonymize_request \<Rightarrow> jsval" where
  "anonymizeBody r = JObj [(''workspace_id'', JStr (an_workspace r)), (''request_id'', JStr (an_request r)),
     (''text'', JStr (an_text r)), (''session_id'', optStr (an_session r)),
     (''policy_profile'', optStr (map_option profileName (an_profile r)))]"

definition restoreBody :: "restore_request \<Rightarrow> jsval" where
  "restoreBody r = JObj [(''workspace_id'', JStr (rs_workspace r)), (''request_id'', JStr (rs_request r)),
     (''text'', JStr (rs_text r))]"

definition deanonBody :: "deanon_request \<Rightarrow> jsval" where
  "deanonBody r = JObj [(''workspace_id'', JStr (td_workspace r)), (''request_id'', JStr (td_request r)),
     (''tool_name'', JStr (td_tool r)), (''args'', td_args r),
     (''policy'', optStr (map_option toolModeName (td_policy r)))]"

definition purgeScopeName :: "purge_scope \<Rightarrow> string" where
  "purgeScopeName s = (case s of PurgeAll \<Rightarrow> ''all'' | PurgeSession \<Rightarrow> ''session'' | PurgeSubject \<Rightarrow> ''subject'')"

definition purgeBody :: "purge_request \<Rightarrow> jsval" where
  "purgeBody r = JObj [(''scope'', JStr (purgeScopeName (pg_scope r))), (''session_id'', optStr (pg_session r)),
     (''subject_hash'', optStr (pg_subject r))]"

subsection \<open>Transport\<close>

datatype http_method = GET | POST

record http_request =
  req_method :: http_method
  req_url :: string
  req_body :: "string option"

datatype fetch_outcome =
    FetchRejected
  | HttpResponse int "string option"

datatype client_error =
    AnonymizerUnavailable string
  | AnonymizerRequest int string
  | BodyReadFailed
  | JsonSyntax string
  | ThrownUndefined

definition transient :: "client_error \<Rightarrow> bool" where
  "transient e = (case e of AnonymizerUnavailable _ \<Rightarrow> True | AnonymizerRequest st _ \<Rightarrow> 500 \<le> st | _ \<Rightarrow> False)"

type_synonym 'w fetch_fn = "http_request \<Rightarrow> 'w \<Rightarrow> fetch_outcome \<times> 'w"

definition fetchWithTimeout :: "'w fetch_fn \<Rightarrow> http_request \<Rightarrow> 'w \<Rightarrow> (client_error + int \<times> string option) \<times> 'w" where
  "fetchWithTimeout fetch r w =
     (case fetch r w of
        (FetchRejected, w') \<Rightarrow> (Inl (AnonymizerUnavailable (req_url r)), w')
      | (HttpResponse st body, w') \<Rightarrow> (Inr (st, body), w'))"

text \<open>One attempt: \<open>readJson\<close> is the body of the closure in \<^verbatim>\<open>postJson\<close> and \<^verbatim>\<open>getJson\<close>.\<close>

definition readJson :: "(string \<Rightarrow> 'a option) \<Rightarrow> 'w fetch_fn \<Rightarrow> http_request \<Rightarrow> 'w \<Rightarrow> (client_error + 'a) \<times> 'w" where
  "readJson decode fetch r w =
     (case fetchWithTimeout fetch r w of
        (Inl e, w') \<Rightarrow> (Inl e, w')
      | (Inr (st, None), w') \<Rightarrow> (Inl BodyReadFailed, w')
      | (Inr (st, Some body), w') \<Rightarrow>
          if 400 \<le> st then (Inl (AnonymizerRequest st body), w')
          else (case decode body of None \<Rightarrow> (Inl (JsonSyntax body), w') | Some v \<Rightarrow> (Inr v, w')))"

text \<open>The retry loop: the result, the delays slept and the world. It runs from \<open>attempt\<close> up to the
  configured number of attempts.\<close>

function withRetryFrom :: "plugin_config \<Rightarrow> ('w \<Rightarrow> (client_error + 'a) \<times> 'w) \<Rightarrow> nat \<Rightarrow> client_error \<Rightarrow> 'w
    \<Rightarrow> (client_error + 'a) \<times> int list \<times> 'w" where
  "withRetryFrom cfg f attempt lastErr w =
     (if maxRetries cfg < attempt then (Inl lastErr, [], w)
      else (case f w of
              (Inr v, w') \<Rightarrow> (Inr v, [], w')
            | (Inl e, w') \<Rightarrow>
                if \<not> transient e \<or> attempt = maxRetries cfg then (Inl e, [], w')
                else (let delay = retryBaseDelayMs cfg * 2 ^ (attempt - 1);
                          (r, ds, w'') = withRetryFrom cfg f (Suc attempt) e w'
                      in (r, delay # ds, w''))))"
  by pat_completeness auto
termination by (relation "measure (\<lambda>(cfg, f, attempt, lastErr, w). Suc (maxRetries cfg) - attempt)") auto

declare withRetryFrom.simps [simp del]

definition withRetry :: "plugin_config \<Rightarrow> ('w \<Rightarrow> (client_error + 'a) \<times> 'w) \<Rightarrow> 'w \<Rightarrow> (client_error + 'a) \<times> int list \<times> 'w" where
  "withRetry cfg f w = withRetryFrom cfg f 1 ThrownUndefined w"

definition postJson :: "plugin_config \<Rightarrow> 'w fetch_fn \<Rightarrow> (string \<Rightarrow> 'a option) \<Rightarrow> string \<Rightarrow> jsval \<Rightarrow> 'w
    \<Rightarrow> (client_error + 'a) \<times> int list \<times> 'w" where
  "postJson cfg fetch decode path body w =
     withRetry cfg (readJson decode fetch
       \<lparr>req_method = POST, req_url = anonymizerUrl cfg @ path, req_body = Some (stringify body)\<rparr>) w"

definition getJson :: "plugin_config \<Rightarrow> 'w fetch_fn \<Rightarrow> (string \<Rightarrow> 'a option) \<Rightarrow> string \<Rightarrow> 'w
    \<Rightarrow> (client_error + 'a) \<times> int list \<times> 'w" where
  "getJson cfg fetch decode path w =
     withRetry cfg (readJson decode fetch \<lparr>req_method = GET, req_url = anonymizerUrl cfg @ path, req_body = None\<rparr>) w"

subsection \<open>Encoding of paths and queries\<close>

definition workspacePath :: "string \<Rightarrow> string \<Rightarrow> string" where
  "workspacePath workspaceId tail = ''/workspaces/'' @ encodeURIComponent workspaceId @ tail"

subsection \<open>The endpoints\<close>

definition anonymize :: "plugin_config \<Rightarrow> codec \<Rightarrow> 'w fetch_fn \<Rightarrow> anonymize_request \<Rightarrow> 'w \<Rightarrow>
    (client_error + anonymize_response) \<times> int list \<times> 'w" where
  "anonymize cfg cdc fetch r w = postJson cfg fetch (as_anonymize cdc) ''/anonymize'' (anonymizeBody r) w"

definition restore :: "plugin_config \<Rightarrow> codec \<Rightarrow> 'w fetch_fn \<Rightarrow> restore_request \<Rightarrow> 'w \<Rightarrow>
    (client_error + restore_response) \<times> int list \<times> 'w" where
  "restore cfg cdc fetch r w = postJson cfg fetch (as_restore cdc) ''/restore'' (restoreBody r) w"

definition toolCallDeanonymize :: "plugin_config \<Rightarrow> codec \<Rightarrow> 'w fetch_fn \<Rightarrow> deanon_request \<Rightarrow> 'w \<Rightarrow>
    (client_error + deanon_response) \<times> int list \<times> 'w" where
  "toolCallDeanonymize cfg cdc fetch r w =
     postJson cfg fetch (as_deanon cdc) ''/tool_call/deanonymize'' (deanonBody r) w"

definition getStats :: "plugin_config \<Rightarrow> codec \<Rightarrow> 'w fetch_fn \<Rightarrow> string \<Rightarrow> 'w \<Rightarrow>
    (client_error + stats_response) \<times> int list \<times> 'w" where
  "getStats cfg cdc fetch ws w = getJson cfg fetch (as_stats cdc) (workspacePath ws ''/stats'') w"

definition auditQuery :: "audit_params \<Rightarrow> string" where
  "auditQuery p = urlSearchParams
     ([(''limit'', show_int (aq_limit p)), (''offset'', show_int (aq_offset p))]
      @ (if truthy_string (aq_category p) then [(''category'', the (aq_category p))] else [])
      @ (if truthy_string (aq_since p) then [(''since'', the (aq_since p))] else []))"

definition defaultAuditParams :: audit_params where
  "defaultAuditParams = \<lparr>aq_limit = 100, aq_offset = 0, aq_category = None, aq_since = None\<rparr>"

definition listAudit :: "plugin_config \<Rightarrow> codec \<Rightarrow> 'w fetch_fn \<Rightarrow> string \<Rightarrow> audit_params option \<Rightarrow> 'w \<Rightarrow>
    (client_error + audit_response) \<times> int list \<times> 'w" where
  "listAudit cfg cdc fetch ws opts w =
     getJson cfg fetch (as_audit cdc)
       (workspacePath ws ''/audit?'' @ auditQuery (coalesce opts defaultAuditParams)) w"

definition purge :: "plugin_config \<Rightarrow> codec \<Rightarrow> 'w fetch_fn \<Rightarrow> string \<Rightarrow> purge_request \<Rightarrow> 'w \<Rightarrow>
    (client_error + purge_response) \<times> int list \<times> 'w" where
  "purge cfg cdc fetch ws body w =
     postJson cfg fetch (as_purge cdc) (workspacePath ws ''/purge'') (purgeBody body) w"

text \<open>The backup endpoint returns the raw bytes of the body.\<close>

definition backup :: "plugin_config \<Rightarrow> 'w fetch_fn \<Rightarrow> string \<Rightarrow> 'w \<Rightarrow>
    (client_error + string) \<times> int list \<times> 'w" where
  "backup cfg fetch ws w =
     withRetry cfg (readJson Some fetch
       \<lparr>req_method = POST, req_url = anonymizerUrl cfg @ workspacePath ws ''/backup'', req_body = None\<rparr>) w"

subsection \<open>The retry loop\<close>

text \<open>The state of the world after \<open>k\<close> attempts.\<close>

fun attemptWorld :: "('w \<Rightarrow> 'r \<times> 'w) \<Rightarrow> nat \<Rightarrow> 'w \<Rightarrow> 'w" where
  "attemptWorld f 0 w = w"
| "attemptWorld f (Suc k) w = attemptWorld f k (snd (f w))"

lemma attemptWorld_Suc: "attemptWorld f (Suc k) w = snd (f (attemptWorld f k w))"
  by (induction k arbitrary: w) auto

definition fails_transiently :: "('w \<Rightarrow> (client_error + 'a) \<times> 'w) \<Rightarrow> 'w \<Rightarrow> bool" where
  "fails_transiently f w \<longleftrightarrow> (case fst (f w) of Inl e \<Rightarrow> transient e | Inr _ \<Rightarrow> False)"

definition retry_outcome :: "plugin_config \<Rightarrow> ('w \<Rightarrow> (client_error + 'a) \<times> 'w) \<Rightarrow> nat \<Rightarrow> 'w \<Rightarrow>
    (client_error + 'a) \<times> int list \<times> 'w \<Rightarrow> nat \<Rightarrow> bool" where
  "retry_outcome cfg f attempt w out k \<longleftrightarrow>
     out = (fst (f (attemptWorld f k w)), map (\<lambda>i. retryBaseDelayMs cfg * 2 ^ (attempt - 1 + i)) [0..<k],
            attemptWorld f (Suc k) w) \<and>
     (\<forall>i<k. fails_transiently f (attemptWorld f i w)) \<and>
     (attempt + k = maxRetries cfg \<or> \<not> fails_transiently f (attemptWorld f k w))"

lemma withRetryFrom_spec:
  assumes "1 \<le> attempt" and "attempt \<le> maxRetries cfg"
  shows "\<exists>k. attempt + k \<le> maxRetries cfg \<and> retry_outcome cfg f attempt w (withRetryFrom cfg f attempt lastErr w) k"
  using assms
proof (induction "maxRetries cfg - attempt" arbitrary: attempt lastErr w)
  case 0
  then have a: "attempt = maxRetries cfg" by simp
  show ?case using 0 by (intro exI [of _ 0])
      (simp add: a retry_outcome_def withRetryFrom.simps [of cfg f "maxRetries cfg"] split: prod.splits sum.splits)
next
  case (Suc n)
  show ?case
  proof (cases "fails_transiently f w")
    case False
    then have "retry_outcome cfg f attempt w (withRetryFrom cfg f attempt lastErr w) 0" using Suc.prems
      by (cases "f w"; cases "fst (f w)")
        (auto simp: retry_outcome_def withRetryFrom.simps [of cfg f attempt] fails_transiently_def)
    then show ?thesis using Suc.prems by (intro exI [of _ 0]) simp
  next
    case True
    then obtain e w' where f: "f w = (Inl e, w')" and t: "transient e"
      by (cases "f w"; cases "fst (f w)") (auto simp: fails_transiently_def)
    have lt: "attempt < maxRetries cfg" using Suc.hyps(2) by simp
    have "n = maxRetries cfg - Suc attempt" using Suc.hyps(2) by simp
    then obtain k where k: "Suc attempt + k \<le> maxRetries cfg"
      and o: "retry_outcome cfg f (Suc attempt) w' (withRetryFrom cfg f (Suc attempt) e w') k"
      using Suc.hyps(1) [of "Suc attempt" w' e] Suc.prems lt by fastforce
    have unfold: "withRetryFrom cfg f attempt lastErr w =
        (let (r, ds, w'') = withRetryFrom cfg f (Suc attempt) e w'
         in (r, retryBaseDelayMs cfg * 2 ^ (attempt - 1) # ds, w''))"
      using lt t f by (simp add: withRetryFrom.simps [of cfg f attempt])
    have shift: "map (\<lambda>i. retryBaseDelayMs cfg * 2 ^ (attempt - 1 + i)) [0..<Suc k] =
        retryBaseDelayMs cfg * 2 ^ (attempt - 1) # map (\<lambda>i. retryBaseDelayMs cfg * 2 ^ (Suc attempt - 1 + i)) [0..<k]"
      using Suc.prems by (simp add: upt_conv_Cons map_Suc_upt [symmetric] comp_def del: upt_Suc)
    have all: "(\<forall>i<Suc k. fails_transiently f (attemptWorld f i w)) \<longleftrightarrow>
        fails_transiently f w \<and> (\<forall>i<k. fails_transiently f (attemptWorld f i w'))"
      using f by (auto simp: less_Suc_eq_0_disj)
    have "retry_outcome cfg f attempt w (withRetryFrom cfg f attempt lastErr w) (Suc k)"
      using o True by (simp only: retry_outcome_def unfold shift all) (simp add: f)
    then show ?thesis using k by (intro exI [of _ "Suc k"]) simp
  qed
qed

lemma withRetry_spec:
  assumes "1 \<le> maxRetries cfg"
  shows "\<exists>k. k < maxRetries cfg \<and> retry_outcome cfg f 1 w (withRetry cfg f w) k"
  using withRetryFrom_spec [of 1 cfg f w ThrownUndefined] assms by (auto simp: withRetry_def Suc_le_eq)

lemma sum_backoff: "sum_list (map (\<lambda>i. base * 2 ^ i) [0..<k]) = base * (2 ^ k - 1)" for base :: int
  by (induction k) (simp_all add: algebra_simps)

lemma loadConfig_bounds:
  assumes "loadConfigFromEnv validUrl env = Some cfg"
  shows "1 \<le> maxRetries cfg \<and> maxRetries cfg \<le> 10 \<and> 0 \<le> retryBaseDelayMs cfg \<and> 0 < requestTimeoutMs cfg \<and>
    0 < circuitBreakerMs cfg"
  using assms by (auto simp: loadConfigFromEnv_def ConfigSchema_def Let_def split: if_splits)

lemma readJson_success:
  assumes "readJson decode fetch r w = (Inr v, w')"
  shows "\<exists>st body. fetch r w = (HttpResponse st (Some body), w') \<and> st < 400 \<and> decode body = Some v"
  using assms by (auto simp: readJson_def fetchWithTimeout_def split: prod.splits fetch_outcome.splits option.splits if_splits)

subsection \<open>What a masking client promises\<close>

text \<open>
  The interface between the client and the hooks: an operation that masks a text, and what a masked
  answer is vouched by. The law says that the operation never makes an answer up.
\<close>

text \<open>Answers that \<open>vouched\<close> accepts: \<open>m\<close> as the masked text of \<open>t\<close>, or that \<open>t\<close> holds no entity.\<close>

definition masked_answer :: "(anonymize_request \<Rightarrow> anonymize_response \<Rightarrow> bool) \<Rightarrow> string \<Rightarrow> string \<Rightarrow> bool" where
  "masked_answer vouched t m \<longleftrightarrow> (\<exists>r out. an_text r = t \<and> vouched r out \<and> masked_text out = m)"

definition clean_answer :: "(anonymize_request \<Rightarrow> anonymize_response \<Rightarrow> bool) \<Rightarrow> string \<Rightarrow> bool" where
  "clean_answer vouched t \<longleftrightarrow> (\<exists>r out. an_text r = t \<and> vouched r out \<and> entities out = [])"

locale masking_client =
  fixes anon :: "anonymize_request \<Rightarrow> 'w \<Rightarrow> (client_error + anonymize_response) \<times> int list \<times> 'w"
    and vouched :: "anonymize_request \<Rightarrow> anonymize_response \<Rightarrow> bool"
  assumes anon_vouched: "fst (anon r w) = Inr out \<Longrightarrow> vouched r out"
begin

lemma masked_answerI: "fst (anon r w) = Inr out \<Longrightarrow> masked_answer vouched (an_text r) (masked_text out)"
  unfolding masked_answer_def using anon_vouched by blast

end

text \<open>The sidecar answered this request with a body below status 400 that reads as \<open>out\<close>.\<close>

definition anonymizeHttp :: "plugin_config \<Rightarrow> anonymize_request \<Rightarrow> http_request" where
  "anonymizeHttp cfg r =
     \<lparr>req_method = POST, req_url = anonymizerUrl cfg @ ''/anonymize'', req_body = Some (stringify (anonymizeBody r))\<rparr>"

definition sidecar_answered :: "plugin_config \<Rightarrow> codec \<Rightarrow> 'w fetch_fn \<Rightarrow> anonymize_request \<Rightarrow> anonymize_response \<Rightarrow> bool" where
  "sidecar_answered cfg cdc fetch r out \<longleftrightarrow>
     (\<exists>w st body. fst (fetch (anonymizeHttp cfg r) w) = HttpResponse st (Some body) \<and> st < 400 \<and>
        as_anonymize cdc body = Some out)"

lemma withRetryFrom_success:
  "fst (withRetryFrom cfg f attempt lastErr w) = Inr v \<Longrightarrow> \<exists>w1 w2. f w1 = (Inr v, w2)"
proof (induction cfg f attempt lastErr w rule: withRetryFrom.induct)
  case (1 cfg f attempt lastErr w)
  then show ?case
    by (subst (asm) (2) withRetryFrom.simps)
      (auto simp: Let_def split: if_splits prod.splits sum.splits)
qed

lemma anonymize_answered: "fst (anonymize cfg cdc fetch r w) = Inr out \<Longrightarrow> sidecar_answered cfg cdc fetch r out"
  by (auto simp: anonymize_def postJson_def withRetry_def sidecar_answered_def anonymizeHttp_def
      dest!: withRetryFrom_success readJson_success) (metis fst_conv)

interpretation client: masking_client "anonymize cfg cdc fetch" "sidecar_answered cfg cdc fetch" for cfg cdc fetch
  by unfold_locales (rule anonymize_answered)

subsection \<open>Properties\<close>

text \<open>A request through the client is tried once and then again only after a transient failure (the
  network or a status of at least 500), with delays base, twice base, four times base and so on; the
  caller gets the result of the last try, and a transient failure is given up only when the
  configured number of attempts is used.\<close>

theorem retry_contract:
  assumes "1 \<le> maxRetries cfg"
  shows "\<exists>k < maxRetries cfg.
    withRetry cfg f w = (fst (f (attemptWorld f k w)), map (\<lambda>i. retryBaseDelayMs cfg * 2 ^ i) [0..<k], attemptWorld f (Suc k) w) \<and>
    (\<forall>i<k. fails_transiently f (attemptWorld f i w)) \<and>
    (Suc k = maxRetries cfg \<or> \<not> fails_transiently f (attemptWorld f k w))"
  using withRetry_spec [OF assms, of f w] by (auto simp: retry_outcome_def)

text \<open>With a configuration the loader accepts, a request is tried at most ten times and all its
  delays together are at most 511 times the configured base delay.\<close>

theorem retries_bounded:
  assumes "loadConfigFromEnv validUrl env = Some cfg"
  shows "length (fst (snd (withRetry cfg f w))) < maxRetries cfg \<and> maxRetries cfg \<le> 10 \<and>
    0 \<le> sum_list (fst (snd (withRetry cfg f w))) \<and>
    sum_list (fst (snd (withRetry cfg f w))) \<le> retryBaseDelayMs cfg * 511"
proof -
  note b = loadConfig_bounds [OF assms]
  obtain k where k1: "k < maxRetries cfg" and o: "retry_outcome cfg f 1 w (withRetry cfg f w) k"
    using withRetry_spec [of cfg f w] b by auto
  have k: "k < maxRetries cfg" "fst (snd (withRetry cfg f w)) = map (\<lambda>i. retryBaseDelayMs cfg * 2 ^ i) [0..<k]"
    using k1 o by (simp_all add: retry_outcome_def)
  have "(2::int) ^ k \<le> 2 ^ 9" using k(1) b by (intro power_increasing) auto
  then have "(2::int) ^ k - 1 \<le> 511" by simp
  then have "retryBaseDelayMs cfg * (2 ^ k - 1) \<le> retryBaseDelayMs cfg * 511" using b by (simp add: mult_left_mono)
  moreover have "0 \<le> retryBaseDelayMs cfg * (2 ^ k - 1)" using b by simp
  ultimately show ?thesis using k b by (simp add: sum_backoff)
qed

text \<open>C14: A masked text the client hands out is never made up: it is the \<^verbatim>\<open>masked_text\<close> of a body with
  status below 400 that the sidecar sent in answer to a request carrying exactly the given text.\<close>
theorem masked_text_from_sidecar:
  assumes "fst (anonymize cfg cdc fetch r w) = Inr out"
  shows "\<exists>w' st body. fst (fetch \<lparr>req_method = POST, req_url = anonymizerUrl cfg @ ''/anonymize'',
      req_body = Some (stringify (anonymizeBody r))\<rparr> w') = HttpResponse st (Some body) \<and> st < 400 \<and>
    as_anonymize cdc body = Some out"
  using client.anon_vouched [OF assms] by (simp add: sidecar_answered_def anonymizeHttp_def)

text \<open>A workspace id cannot break out of its path segment: whatever characters it has, the encoded id
  in the paths of the statistics, audit, purge and backup endpoints holds no slash, question mark,
  hash or ampersand.\<close>

theorem workspace_id_stays_in_segment:
  "\<exists>seg. workspacePath ws tail = ''/workspaces/'' @ seg @ tail \<and> set seg \<inter> set ''/?#&=+'' = {}"
proof (intro exI conjI)
  show "workspacePath ws tail = ''/workspaces/'' @ encodeURIComponent ws @ tail" by (simp add: workspacePath_def)
  have "d \<notin> set ''/?#&=+''" if "d \<in> set (encodeURIComponent ws)" for d
    using that alnum_safe [of d]
    by (auto simp: encodeURIComponent_def split: if_splits dest!: percent_char_safe)
  then show "set (encodeURIComponent ws) \<inter> set ''/?#&=+'' = {}" by blast
qed

subsection \<open>Witnesses\<close>

definition demo_config :: plugin_config where
  "demo_config = \<lparr>anonymizerUrl = ''http://a'', requestTimeoutMs = 5000, circuitBreakerMs = 30000,
     toolPoliciesPath = ''p'', debugLogging = False, maxRetries = 3, retryBaseDelayMs = 100\<rparr>"

definition demo_codec :: codec where
  "demo_codec = \<lparr>as_anonymize = (\<lambda>s. Some \<lparr>masked_text = s, entities = [], degraded_mode = False\<rparr>), as_restore = (\<lambda>s. None),
     as_deanon = (\<lambda>s. None), as_stats = (\<lambda>s. None), as_audit = (\<lambda>s. None), as_purge = (\<lambda>s. None)\<rparr>"

text \<open>A sidecar that answers its first request with status 503, then masks.\<close>

definition demo_fetch :: "nat fetch_fn" where
  "demo_fetch r n = (if n = 0 then HttpResponse 503 (Some ''busy'') else HttpResponse 200 (Some ''<NAME_1>''), Suc n)"

definition demo_anonymize_request :: anonymize_request where
  "demo_anonymize_request = \<lparr>an_workspace = ''w'', an_request = ''r'', an_text = ''Anna'', an_session = None, an_profile = None\<rparr>"

lemma demo_call: "anonymize demo_config demo_codec demo_fetch demo_anonymize_request 0 =
    (Inr \<lparr>masked_text = ''<NAME_1>'', entities = [], degraded_mode = False\<rparr>, [100], 2)"
  by (simp add: anonymize_def postJson_def withRetry_def withRetryFrom.simps readJson_def fetchWithTimeout_def
      demo_fetch_def demo_config_def demo_codec_def transient_def)

definition demo_call_fn :: "nat \<Rightarrow> (client_error + nat) \<times> nat" where
  "demo_call_fn n = (if n = 0 then Inl (AnonymizerUnavailable ''u'') else Inr n, Suc n)"

theorem retry_contract_witness:
  "\<exists>k < 3. withRetry demo_config demo_call_fn 0 =
     (fst (demo_call_fn (attemptWorld demo_call_fn k 0)), map (\<lambda>i. retryBaseDelayMs demo_config * 2 ^ i) [0..<k],
      attemptWorld demo_call_fn (Suc k) 0)"
proof -
  have "maxRetries demo_config = 3" by (simp add: demo_config_def)
  then show ?thesis using retry_contract [of demo_config demo_call_fn 0] by (metis one_le_numeral)
qed

theorem retries_bounded_witness:
  "length (fst (snd (withRetry
     (the (loadConfigFromEnv (\<lambda>_. False) (\<lambda>_. None))) demo_call_fn 0))) < 3"
proof -
  have "loadConfigFromEnv (\<lambda>_. False) (\<lambda>_. None) =
      Some \<lparr>anonymizerUrl = ''http://anonymizer:8403'', requestTimeoutMs = 5000, circuitBreakerMs = 30000,
        toolPoliciesPath = ''/etc/brikko/tool-policies.yaml'', debugLogging = False, maxRetries = 3, retryBaseDelayMs = 100\<rparr>"
    by (simp add: loadConfigFromEnv_def ConfigSchema_def intOrUndef_def Let_def)
  from retries_bounded [OF this, of demo_call_fn 0] this show ?thesis by simp
qed

theorem masked_text_from_sidecar_witness:
  "\<exists>w' st body. fst (demo_fetch (anonymizeHttp demo_config demo_anonymize_request) w') = HttpResponse st (Some body) \<and> st < 400"
  using masked_text_from_sidecar [of demo_config demo_codec demo_fetch demo_anonymize_request 0] demo_call
  by (auto simp: anonymizeHttp_def)

end
