(* ===== verification/StreamRestorer.thy ===== *)
theory StreamRestorer
  imports JsJson
begin

text \<open>
  The streaming restorer of the privacy plugin, \<^verbatim>\<open>packages/privacy-plugin/src/stream-restorer.ts\<close>:
  the text chunks of a language model are cut so that no placeholder is split, sent as NDJSON lines
  to the sidecar, and the NDJSON events it streams back are yielded.

  The source is the list of its chunks and whether it ends or throws. \<open>fetch\<close> is a parameter: it
  gets the request lines and whether the body was closed or errored, and answers with the status,
  the text of an error body and the decoded pieces of the response body, whose end is a \<open>done\<close> read
  or a failing read. The generator's result is what it yields and how it ends.
\<close>

subsection \<open>The carry buffer\<close>

definition CARRY_BUFFER_SIZE :: nat where
  "CARRY_BUFFER_SIZE = 32"

definition lastIndexOf :: "char \<Rightarrow> string \<Rightarrow> nat option" where
  "lastIndexOf c s =
     (if c \<in> set s then Some (length s - Suc (length (takeWhile (\<lambda>d. d \<noteq> c) (rev s)))) else None)"

definition splitCombined :: "string \<Rightarrow> string \<times> string" where
  "splitCombined combined =
     (let tailWindowStart = length combined - CARRY_BUFFER_SIZE
      in case lastIndexOf CHR ''<'' combined of
           None \<Rightarrow> (combined, [])
         | Some lastLt \<Rightarrow>
             if tailWindowStart \<le> lastLt \<and> CHR ''>'' \<notin> set (drop lastLt combined)
             then (take lastLt combined, drop lastLt combined)
             else (combined, []))"

text \<open>The chunk texts sent while reading the source, and the carry left at its end.\<close>

fun feed :: "string \<Rightarrow> string list \<Rightarrow> string list \<times> string" where
  "feed carry [] = ([], carry)"
| "feed carry (chunk # chunks) =
     (let (toSend, carry') = splitCombined (carry @ chunk);
          (sent, final) = feed carry' chunks
      in ((if toSend = [] then sent else toSend # sent), final))"

definition sentTexts :: "string list \<Rightarrow> string list" where
  "sentTexts chunks = (let (sent, carry) = feed [] chunks in if carry = [] then sent else sent @ [carry])"

subsection \<open>The request body\<close>

definition ndjson :: "jsval \<Rightarrow> string" where
  "ndjson v = stringify v @ [CHR 0x0A]"

definition controlHeader :: "string \<Rightarrow> string \<Rightarrow> jsval" where
  "controlHeader workspaceId requestId =
     JObj [(''workspace_id'', JStr workspaceId), (''request_id'', JStr requestId)]"

definition chunkEvent :: "string \<Rightarrow> jsval" where
  "chunkEvent t = JObj [(''type'', JStr ''chunk''), (''text'', JStr t)]"

definition endEvent :: jsval where
  "endEvent = JObj [(''type'', JStr ''end'')]"

datatype source_end = SourceEnds | SourceThrows

definition requestBody :: "string \<Rightarrow> string \<Rightarrow> string list \<Rightarrow> source_end \<Rightarrow> string list \<times> bool" where
  "requestBody workspaceId requestId chunks fin =
     (case fin of
        SourceEnds \<Rightarrow>
          (map ndjson (controlHeader workspaceId requestId # map chunkEvent (sentTexts chunks) @ [endEvent]), True)
      | SourceThrows \<Rightarrow>
          (map ndjson (controlHeader workspaceId requestId # map chunkEvent (fst (feed [] chunks))), False))"

subsection \<open>The response\<close>

datatype read_end = ReadDone | ReadThrows

datatype stream_response =
    FetchRejects
  | StreamResponse int string "(string list \<times> read_end) option"

datatype stream_error =
    StreamUnavailable string
  | StreamRequestError int string
  | MissingBody
  | MalformedLine string
  | UnknownEvent jsval
  | UnterminatedLine string
  | NullEventTypeError
  | ReadError

datatype stream_end = Finished | Failed stream_error

datatype line_action = Skip | Yield string | Stop stream_end

text \<open>A member of a value that is not an object is undefined; reading it from null throws.\<close>

definition eventAction :: "jsval \<Rightarrow> line_action" where
  "eventAction evt =
     (case evt of
        JNull \<Rightarrow> Stop (Failed NullEventTypeError)
      | JUndefined \<Rightarrow> Stop (Failed NullEventTypeError)
      | _ \<Rightarrow>
          (let fs = (case evt of JObj fs \<Rightarrow> fs | _ \<Rightarrow> []);
               ty = field ''type'' fs
           in case (ty = JStr ''chunk'', field ''text'' fs) of
                (True, JStr t) \<Rightarrow> Yield t
              | _ \<Rightarrow> if ty = JStr ''end'' then Stop Finished else Stop (Failed (UnknownEvent ty))))"

definition lineAction :: "string \<Rightarrow> line_action" where
  "lineAction line =
     (if js_trim line = [] then Skip
      else case json_parse line of
             None \<Rightarrow> Stop (Failed (MalformedLine (take 80 line)))
           | Some evt \<Rightarrow> eventAction evt)"

definition newline :: char where
  "newline = CHR 0x0A"

text \<open>The loop over the complete lines of the buffer: what is yielded, and the end of the generator or
  the buffer left.\<close>

function drainLines :: "string \<Rightarrow> string list \<times> (stream_end + string)" where
  "drainLines buf =
     (if newline \<in> set buf
      then (let line = takeWhile (\<lambda>c. c \<noteq> newline) buf; rest = drop (Suc (length line)) buf
            in case lineAction line of
                 Skip \<Rightarrow> drainLines rest
               | Yield t \<Rightarrow> (let (ys, r) = drainLines rest in (t # ys, r))
               | Stop e \<Rightarrow> ([], Inl e))
      else ([], Inr buf))"
  by pat_completeness auto
termination
proof (relation "measure length", goal_cases)
  case (2 buf)
  then show ?case by (cases buf) auto
next
  case (3 buf)
  then show ?case by (cases buf) auto
qed simp

declare drainLines.simps [simp del]

fun readLoop :: "string \<Rightarrow> string list \<Rightarrow> read_end \<Rightarrow> string list \<times> stream_end" where
  "readLoop buf [] fin =
     (case fin of
        ReadThrows \<Rightarrow> ([], Failed ReadError)
      | ReadDone \<Rightarrow> ([], if js_trim buf \<noteq> [] then Failed (UnterminatedLine (take 80 buf)) else Finished))"
| "readLoop buf (value # values) fin =
     (case drainLines (buf @ value) of
        (ys, Inl e) \<Rightarrow> (ys, e)
      | (ys, Inr rest) \<Rightarrow> (let (zs, e) = readLoop rest values fin in (ys @ zs, e)))"

definition restoreStream ::
  "(string \<Rightarrow> string list \<Rightarrow> bool \<Rightarrow> stream_response) \<Rightarrow> string \<Rightarrow> string \<Rightarrow> string \<Rightarrow> string list \<Rightarrow> source_end
    \<Rightarrow> string list \<times> stream_end" where
  "restoreStream fetch anonymizerUrl workspaceId requestId chunks fin =
     (let url = anonymizerUrl @ ''/restore_stream'';
          (body, closed) = requestBody workspaceId requestId chunks fin
      in case fetch url body closed of
           FetchRejects \<Rightarrow> ([], Failed (StreamUnavailable url))
         | StreamResponse status errorText reads \<Rightarrow>
             if 400 \<le> status then ([], Failed (StreamRequestError status errorText))
             else case reads of
                    None \<Rightarrow> ([], Failed MissingBody)
                  | Some (values, rend) \<Rightarrow> readLoop [] values rend)"

subsection \<open>The text is kept and placeholders are not cut\<close>

lemma splitCombined_append: "splitCombined s = (a, b) \<Longrightarrow> a @ b = s"
  by (auto simp: splitCombined_def Let_def split: option.splits if_splits)

lemma feed_concat: "feed carry chunks = (sent, final) \<Longrightarrow> concat sent @ final = carry @ concat chunks"
proof (induction chunks arbitrary: carry sent final)
  case (Cons c cs)
  obtain a b where s: "splitCombined (carry @ c) = (a, b)" by fastforce
  obtain sent' where f: "feed b cs = (sent', final)" and sent: "sent = (if a = [] then sent' else a # sent')"
    using Cons.prems s by (auto simp: Let_def split: prod.splits)
  show ?case using Cons.IH [OF f] splitCombined_append [OF s] sent by (metis append.assoc append_Nil concat.simps(2))
qed simp

lemma sentTexts_concat: "concat (sentTexts chunks) = concat chunks"
  using feed_concat [of "[]" chunks] by (auto simp: sentTexts_def split: prod.splits)

lemma lastIndexOf_Some:
  "lastIndexOf c s = Some i \<Longrightarrow> \<exists>pre suf. s = pre @ c # suf \<and> c \<notin> set suf \<and> i = length pre"
proof -
  assume l: "lastIndexOf c s = Some i"
  then have c: "c \<in> set s" by (auto simp: lastIndexOf_def split: if_splits)
  then obtain pre suf where s: "s = pre @ c # suf" "c \<notin> set suf" by (meson split_list_last)
  have "takeWhile (\<lambda>d. d \<noteq> c) (rev s) = rev suf"
    using s by (simp add: takeWhile_append)
  then show ?thesis using l s c by (auto simp: lastIndexOf_def)
qed

text \<open>
  The places where the text is cut: after every chunk text sent. A cut is good when the text before
  it has no open placeholder within the carry window, or the next character opens one.
\<close>

definition open_tail :: "string \<Rightarrow> bool" where
  "open_tail s \<longleftrightarrow> (\<exists>pre w. s = pre @ CHR ''<'' # w \<and> CHR ''<'' \<notin> set w \<and> CHR ''>'' \<notin> set w \<and>
     length w < CARRY_BUFFER_SIZE)"

definition good_cut :: "string \<Rightarrow> string \<Rightarrow> bool" where
  "good_cut s rest \<longleftrightarrow> \<not> open_tail s \<or> (\<exists>r. rest = CHR ''<'' # r)"

lemma split_no_carry: "splitCombined s = (a, []) \<Longrightarrow> \<not> open_tail s"
proof
  assume split: "splitCombined s = (a, [])" and "open_tail s"
  then obtain pre w where s: "s = pre @ CHR ''<'' # w" and w: "CHR ''<'' \<notin> set w" "CHR ''>'' \<notin> set w"
    "length w < CARRY_BUFFER_SIZE" by (auto simp: open_tail_def)
  have "takeWhile (\<lambda>d. d \<noteq> CHR ''<'') (rev s) = rev w" using w(1) by (simp add: s takeWhile_append)
  then have "lastIndexOf CHR ''<'' s = Some (length pre)" by (simp add: lastIndexOf_def s)
  then show False using split w by (simp add: splitCombined_def Let_def s split: if_splits)
qed

lemma split_carry: "splitCombined s = (a, b) \<Longrightarrow> b \<noteq> [] \<Longrightarrow> \<exists>r. b = CHR ''<'' # r"
  by (auto simp: splitCombined_def Let_def split: option.splits if_splits dest!: lastIndexOf_Some)

lemma open_tail_append:
  assumes "open_tail (s @ t)" shows "open_tail t \<or> open_tail s \<and> CHR ''<'' \<notin> set t"
proof -
  obtain pre w where e: "s @ t = pre @ CHR ''<'' # w" and w: "CHR ''<'' \<notin> set w" "CHR ''>'' \<notin> set w"
    "length w < CARRY_BUFFER_SIZE" using assms by (auto simp: open_tail_def)
  from e consider us where "s = pre @ CHR ''<'' # us" "w = us @ t" | us where "t = us @ CHR ''<'' # w"
  proof -
    assume one: "\<And>us. s = pre @ CHR ''<'' # us \<Longrightarrow> w = us @ t \<Longrightarrow> thesis"
      and two: "\<And>us. t = us @ CHR ''<'' # w \<Longrightarrow> thesis"
    from e obtain us where "s @ us = pre \<and> t = us @ CHR ''<'' # w \<or> s = pre @ us \<and> us @ t = CHR ''<'' # w"
      by (auto simp: append_eq_append_conv2)
    then show thesis using one two by (cases us) auto
  qed
  then show ?thesis
  proof cases
    case 1
    then have "open_tail s" using w unfolding open_tail_def by (intro exI [of _ pre] exI [of _ us]) simp
    then show ?thesis using 1 w by auto
  next
    case 2
    then show ?thesis using w by (auto simp: open_tail_def)
  qed
qed

text \<open>All cuts of a feed are good: \<open>front\<close> is the text sent before, cut well in front of the carry.\<close>

lemma feed_good_cuts:
  assumes "feed carry chunks = (sent, final)" and "good_cut front (carry @ concat chunks)"
    and "carry \<noteq> [] \<Longrightarrow> \<exists>r. carry = CHR ''<'' # r"
    and "sent = xs @ ys"
  shows "good_cut (front @ concat xs) (concat ys @ final)"
  using assms
proof (induction chunks arbitrary: carry front sent final xs)
  case Nil
  then show ?case by simp
next
  case (Cons c cs)
  obtain a b where s: "splitCombined (carry @ c) = (a, b)" by fastforce
  obtain sent' where f: "feed b cs = (sent', final)" and sent: "sent = (if a = [] then sent' else a # sent')"
    using Cons.prems(1) s by (auto simp: Let_def split: prod.splits)
  note ab = splitCombined_append [OF s]
  have total: "concat sent @ final = carry @ concat (c # cs)" using feed_concat [OF Cons.prems(1)] .
  have mid: "good_cut (front @ a) (b @ concat cs)"
  proof (cases "b = []")
    case False
    then show ?thesis using split_carry [OF s] by (auto simp: good_cut_def)
  next
    case True
    then have na: "\<not> open_tail a" using split_no_carry [of "carry @ c" a] s ab by simp
    show ?thesis
    proof (cases "a = []")
      case True
      then have "carry = [] \<and> c = []" using ab \<open>b = []\<close> by simp
      then show ?thesis using Cons.prems(2) \<open>b = []\<close> True by simp
    next
      case False
      have "\<not> open_tail (front @ a)"
      proof
        assume "open_tail (front @ a)"
        then have o: "open_tail front" "CHR ''<'' \<notin> set a" using open_tail_append na by blast+
        have "a = carry @ c" using ab \<open>b = []\<close> by simp
        then have "\<exists>r. carry @ concat (c # cs) = CHR ''<'' # r" using Cons.prems(2) o(1) by (simp add: good_cut_def)
        then have "\<exists>r. a @ concat cs = CHR ''<'' # r" using \<open>a = carry @ c\<close> by simp
        then show False using False o(2) by (cases a) auto
      qed
      then show ?thesis by (simp add: good_cut_def)
    qed
  qed
  show ?case
  proof (cases "a = []")
    case True
    then show ?thesis using Cons.IH [OF f _ _ , of front xs] mid sent Cons.prems(4) split_carry [OF s] by auto
  next
    case False
    show ?thesis
    proof (cases xs)
      case Nil
      then show ?thesis using Cons.prems(2,4) total by simp
    next
      case (Cons x xs')
      then have "x = a" "sent' = xs' @ ys" using Cons.prems(4) sent False by auto
      then show ?thesis using Cons.IH [OF f, of "front @ a" xs'] mid split_carry [OF s] Cons by auto
    qed
  qed
qed

lemma sentTexts_good_cuts:
  assumes "sentTexts chunks = xs @ ys" and "ys \<noteq> []"
  shows "good_cut (concat xs) (concat ys)"
proof -
  obtain sent final where f: "feed [] chunks = (sent, final)" by fastforce
  have empty: "good_cut [] ([] @ concat chunks)" by (simp add: good_cut_def open_tail_def)
  show ?thesis
  proof (cases "final = []")
    case True
    then show ?thesis using feed_good_cuts [OF f empty, of xs ys] assms f by (simp add: sentTexts_def)
  next
    case False
    then obtain ys' where "ys = ys' @ [final]" "sent = xs @ ys'"
      using assms f by (cases ys rule: rev_cases) (auto simp: sentTexts_def)
    then show ?thesis using feed_good_cuts [OF f empty, of xs ys'] by simp
  qed
qed

lemma locate_piece:
  "concat ps = pre @ rest \<Longrightarrow> rest \<noteq> [] \<Longrightarrow>
   \<exists>xs p ys u. ps = xs @ p # ys \<and> concat xs @ u = pre \<and> p @ concat ys = u @ rest \<and> length u < length p"
proof (induction ps arbitrary: pre)
  case (Cons p ps)
  show ?case
  proof (cases "length p \<le> length pre")
    case True
    then obtain pre' where pre: "pre = p @ pre'" "concat ps = pre' @ rest"
      using Cons.prems(1) by (auto simp: append_eq_append_conv_if) (metis append_take_drop_id)
    obtain xs q ys u where "ps = xs @ q # ys" "concat xs @ u = pre'" "q @ concat ys = u @ rest" "length u < length q"
      using Cons.IH [OF pre(2) Cons.prems(2)] by blast
    then show ?thesis using pre(1) by (intro exI [of _ "p # xs"] exI [of _ q] exI [of _ ys] exI [of _ u]) simp
  next
    case False
    then show ?thesis using Cons.prems(1) by (intro exI [of _ "[]"] exI [of _ p] exI [of _ ps] exI [of _ pre]) simp
  qed
qed simp

lemma inside_placeholder:
  assumes "p @ q = u @ CHR ''<'' # w @ CHR ''>'' # post" and "length u < length p"
    and "\<not> (\<exists>v. p = u @ CHR ''<'' # w @ CHR ''>'' # v \<and> v @ q = post)"
  obtains w1 w2 where "w = w1 @ w2" "p = u @ CHR ''<'' # w1" "q = w2 @ CHR ''>'' # post"
proof -
  have "take (length u) p = u" using assms(1,2) by (metis append_eq_conv_conj less_imp_le_nat take_append take_all
      append_Nil2 diff_is_0_eq' take0)
  then obtain p' where p: "p = u @ p'" by (metis append_take_drop_id)
  then obtain c p'' where p': "p' = c # p''" using assms(2) by (cases p') auto
  have e: "c = CHR ''<''" "p'' @ q = w @ CHR ''>'' # post" using assms(1) by (auto simp: p p')
  from e(2) consider us where "p'' @ us = w" "q = us @ CHR ''>'' # post"
    | us where "p'' = w @ us" "us @ q = CHR ''>'' # post" "us \<noteq> []"
    by (fastforce simp: append_eq_append_conv2)
  then show thesis
  proof cases
    case 1
    then show thesis using that [of p'' us] by (simp add: p p' e(1))
  next
    case 2
    then obtain v where "us = CHR ''>'' # v" "v @ q = post" by (cases us) auto
    then show thesis using assms(3) 2 by (simp add: p p' e(1))
  qed
qed

subsection \<open>The response does not depend on how it is fragmented\<close>

lemma takeWhile_newline_append: "newline \<in> set a \<Longrightarrow> takeWhile (\<lambda>c. c \<noteq> newline) (a @ b) = takeWhile (\<lambda>c. c \<noteq> newline) a"
  by (induction a) auto

lemma length_line_less: "newline \<in> set a \<Longrightarrow> length (takeWhile (\<lambda>c. c \<noteq> newline) a) < length a"
  by (induction a) auto

lemma drainLines_append:
  "drainLines (a @ b) =
    (case drainLines a of
       (ys, Inl e) \<Rightarrow> (ys, Inl e)
     | (ys, Inr rest) \<Rightarrow> (let (zs, r) = drainLines (rest @ b) in (ys @ zs, r)))"
proof (induction a rule: drainLines.induct)
  case (1 a)
  show ?case
  proof (cases "newline \<in> set a")
    case True
    let ?line = "takeWhile (\<lambda>c. c \<noteq> newline) a"
    let ?rest = "drop (Suc (length ?line)) a"
    have tw: "takeWhile (\<lambda>c. c \<noteq> newline) (a @ b) = ?line" by (rule takeWhile_newline_append [OF True])
    have less: "length ?line < length a" using True by (rule length_line_less)
    then have dr: "drop (Suc (length ?line)) (a @ b) = ?rest @ b" by simp
    have IH: "lineAction ?line = Skip \<or> (\<exists>t. lineAction ?line = Yield t) \<Longrightarrow> drainLines (?rest @ b) =
      (case drainLines ?rest of (ys, Inl e) \<Rightarrow> (ys, Inl e)
       | (ys, Inr rest) \<Rightarrow> (let (zs, r) = drainLines (rest @ b) in (ys @ zs, r)))"
      using "1.IH" True by auto
    have l: "drainLines (a @ b) = (case lineAction ?line of Skip \<Rightarrow> drainLines (?rest @ b)
        | Yield t \<Rightarrow> (let (ys, r) = drainLines (?rest @ b) in (t # ys, r)) | Stop e \<Rightarrow> ([], Inl e))"
      unfolding drainLines.simps [of "a @ b"] Let_def tw dr using True by simp
    have r: "drainLines a = (case lineAction ?line of Skip \<Rightarrow> drainLines ?rest
        | Yield t \<Rightarrow> (let (ys, r) = drainLines ?rest in (t # ys, r)) | Stop e \<Rightarrow> ([], Inl e))"
      by (subst drainLines.simps) (simp add: True Let_def)
    show ?thesis
      by (cases "lineAction ?line")
        (simp_all add: l r IH Let_def split: prod.splits sum.splits)
  next
    case False
    then show ?thesis by (subst (2) drainLines.simps) (simp add: split: prod.splits)
  qed
qed

lemma drainLines_rest: "drainLines buf = (ys, Inr rest) \<Longrightarrow> newline \<notin> set rest"
proof (induction buf arbitrary: ys rule: drainLines.induct)
  case (1 buf)
  show ?case
  proof (cases "newline \<in> set buf")
    case True
    note IH = "1.IH" [OF True refl refl]
    show ?thesis using "1.prems" True
      by (subst (asm) drainLines.simps) (auto simp: Let_def split: line_action.splits prod.splits dest: IH)
  next
    case False
    then show ?thesis using "1.prems" by (subst (asm) drainLines.simps) simp
  qed
qed

lemma drainLines_no_newline: "newline \<notin> set buf \<Longrightarrow> drainLines buf = ([], Inr buf)"
  by (subst drainLines.simps) simp

lemma readLoop_concat:
  "newline \<notin> set buf \<Longrightarrow> readLoop buf values fin = readLoop buf [concat values] fin"
proof (induction "values" arbitrary: buf)
  case Nil
  then show ?case by (simp add: drainLines_no_newline)
next
  case (Cons v vs)
  obtain ys r where d: "drainLines (buf @ v) = (ys, r)" by fastforce
  show ?case
  proof (cases r)
    case (Inl e)
    then show ?thesis using drainLines_append [of "buf @ v" "concat vs"] d by simp
  next
    case (Inr rest)
    then have "newline \<notin> set rest" using drainLines_rest d by blast
    from Cons.IH [OF this] have IH: "readLoop rest vs fin = readLoop rest [concat vs] fin" .
    show ?thesis using drainLines_append [of "buf @ v" "concat vs"] d Inr
      by (simp add: IH split: prod.splits sum.splits)
  qed
qed

subsection \<open>Events read back\<close>

lemma ndjson_one_line: "json_value v \<Longrightarrow> newline \<notin> set (stringify v)"
  using stringify_no_control [of v newline] by (auto simp: newline_def)

lemma lineAction_stringify:
  assumes "json_value v"
  shows "lineAction (stringify v) = eventAction v"
proof -
  have "\<not> (\<forall>c \<in> set (stringify v). js_space c)"
  proof (rule stringify_head [OF assms])
    fix c t assume c: "stringify v = c # t" "\<not> json_space c" "(of_char c :: nat) < 128"
    have "32 \<le> (of_char c :: nat)" using stringify_no_control [OF assms, of c] c(1) by simp
    then show ?thesis using c by (auto simp: js_space_def json_space_def)
  qed
  then have "js_trim (stringify v) \<noteq> []" by (simp only: js_trim_empty not_False_eq_True simp_thms)
  then show ?thesis by (simp add: lineAction_def parse_stringify assms)
qed

lemma takeWhile_until: "c \<notin> set s \<Longrightarrow> takeWhile (\<lambda>d. d \<noteq> c) (s @ c # r) = s"
  by (induction s) auto

lemma drainLines_line:
  assumes "json_value v"
  shows "drainLines (ndjson v @ rest) =
    (case eventAction v of Skip \<Rightarrow> drainLines rest
     | Yield t \<Rightarrow> (let (ys, r) = drainLines rest in (t # ys, r)) | Stop e \<Rightarrow> ([], Inl e))"
proof -
  have nl: "newline \<notin> set (stringify v)" by (rule ndjson_one_line [OF assms])
  have tw: "takeWhile (\<lambda>c. c \<noteq> newline) (ndjson v @ rest) = stringify v"
    using takeWhile_until [OF nl] by (simp add: ndjson_def flip: newline_def)
  have dr: "drop (Suc (length (stringify v))) (ndjson v @ rest) = rest" by (simp add: ndjson_def)
  have mem: "newline \<in> set (ndjson v @ rest)" by (simp add: ndjson_def newline_def)
  show ?thesis
    unfolding drainLines.simps [of "ndjson v @ rest"] Let_def tw dr lineAction_stringify [OF assms] using mem by simp
qed

definition finalEvent :: "jsval list \<Rightarrow> jsval" where
  "finalEvent hs = JObj [(''type'', JStr ''end''), (''hallucinated'', JArr hs)]"

lemma event_actions:
  "eventAction (chunkEvent t) = Yield t" "eventAction (finalEvent hs) = Stop Finished" "eventAction endEvent = Stop Finished"
  by (simp_all add: eventAction_def chunkEvent_def finalEvent_def endEvent_def field_def Let_def)

lemma event_json: "json_value (chunkEvent t)" "json_value endEvent" "json_value (controlHeader w q)"
  "list_all json_value hs \<Longrightarrow> json_value (finalEvent hs)"
  by (simp_all add: chunkEvent_def endEvent_def controlHeader_def finalEvent_def)

lemma drainLines_events:
  assumes "list_all json_value hs"
  shows "drainLines (concat (map (ndjson \<circ> chunkEvent) ts) @ ndjson (finalEvent hs) @ junk) = (ts, Inl Finished)"
  using assms by (induction ts) (simp_all add: drainLines_line event_json event_actions)

subsection \<open>Properties\<close>

text \<open>C28: However the model splits its output into chunks, no placeholder of up to 33 characters is cut:
  each occurrence of \<^verbatim>\<open><\<close>\<open>w\<close>\<^verbatim>\<open>>\<close> in the streamed text reaches the sidecar inside one chunk event, so
  it is always seen whole.\<close>
theorem placeholder_never_cut:
  assumes "concat chunks = before @ CHR ''<'' # w @ CHR ''>'' # after"
    and "CHR ''<'' \<notin> set w" and "CHR ''>'' \<notin> set w" and "length w < CARRY_BUFFER_SIZE"
  shows "\<exists>xs u v ys. sentTexts chunks = xs @ (u @ CHR ''<'' # w @ CHR ''>'' # v) # ys \<and>
    concat xs @ u = before \<and> v @ concat ys = after"
proof -
  let ?rest = "CHR ''<'' # w @ CHR ''>'' # after"
  obtain xs p ys u where s: "sentTexts chunks = xs @ p # ys" and b: "concat xs @ u = before"
    and r: "p @ concat ys = u @ ?rest" and l: "length u < length p"
    using locate_piece [of "sentTexts chunks" before ?rest] assms(1) by (auto simp: sentTexts_concat)
  show ?thesis
  proof (cases "\<exists>v. p = u @ CHR ''<'' # w @ CHR ''>'' # v \<and> v @ concat ys = after")
    case True
    then show ?thesis using s b by blast
  next
    case False
    then obtain w1 w2 where w: "w = w1 @ w2" "p = u @ CHR ''<'' # w1" "concat ys = w2 @ CHR ''>'' # after"
      by (rule inside_placeholder [OF r l])
    have "ys \<noteq> []" using w(3) by auto
    then have "good_cut (concat (xs @ [p])) (concat ys)" using sentTexts_good_cuts [of chunks "xs @ [p]" ys] s by simp
    moreover have "open_tail (concat (xs @ [p]))" unfolding open_tail_def
      by (intro exI [of _ "concat xs @ u"] exI [of _ w1]) (use assms w in auto)
    ultimately obtain r' where "concat ys = CHR ''<'' # r'" by (auto simp: good_cut_def)
    then show ?thesis using w(1,3) assms(2) by (cases w2) auto
  qed
qed

text \<open>The request body is one JSON line per event: the lines of a source that ends parse back to the
  control header, the chunk events and the end event, none holds a line break of its own, and the
  chunk texts put together are the source's text, nothing lost or added.\<close>

theorem request_lines_parse_back:
  "requestBody ws req chunks SourceEnds = (map ndjson (controlHeader ws req # map chunkEvent (sentTexts chunks) @ [endEvent]), True) \<and>
   map (json_parse \<circ> butlast) (fst (requestBody ws req chunks SourceEnds)) =
     map Some (controlHeader ws req # map chunkEvent (sentTexts chunks) @ [endEvent]) \<and>
   list_all (\<lambda>l. newline \<notin> set (butlast l) \<and> last l = newline) (fst (requestBody ws req chunks SourceEnds)) \<and>
   concat (sentTexts chunks) = concat chunks"
  by (simp add: requestBody_def sentTexts_concat ndjson_def parse_stringify event_json ndjson_one_line list_all_iff newline_def [symmetric] comp_def)

text \<open>What the generator yields and how it ends depend only on the bytes of the response, not on how
  the network fragments them into reads.\<close>

theorem fragmentation_irrelevant:
  assumes "fetch (base @ ''/restore_stream'') (fst (requestBody ws req chunks fin)) (snd (requestBody ws req chunks fin)) =
      StreamResponse status err (Some (reads, rend))"
    and "fetch' (base @ ''/restore_stream'') (fst (requestBody ws req chunks fin)) (snd (requestBody ws req chunks fin)) =
      StreamResponse status err (Some (reads', rend))"
    and "concat reads = concat reads'"
  shows "restoreStream fetch base ws req chunks fin = restoreStream fetch' base ws req chunks fin"
proof -
  have "readLoop [] reads rend = readLoop [] reads' rend"
    using readLoop_concat [of "[]" reads rend] readLoop_concat [of "[]" reads' rend] assms(3) by simp
  then show ?thesis using assms by (simp add: restoreStream_def Let_def case_prod_unfold)
qed

text \<open>A sidecar that answers with the chunk events of the texts \<open>ts\<close> and an end event, in any
  fragmentation, is yielded as exactly \<open>ts\<close>; in particular one that answers every chunk text it was
  sent unchanged gives the reader exactly the text of the model.\<close>

theorem stream_yields_events:
  assumes "fetch (base @ ''/restore_stream'') (fst (requestBody ws req chunks fin)) (snd (requestBody ws req chunks fin)) =
      StreamResponse status err (Some (reads, rend))"
    and "status < 400" and "list_all json_value hs"
    and "concat reads = concat (map (ndjson \<circ> chunkEvent) ts) @ ndjson (finalEvent hs) @ junk"
  shows "restoreStream fetch base ws req chunks fin = (ts, Finished) \<and>
    (ts = sentTexts chunks \<longrightarrow> concat (fst (restoreStream fetch base ws req chunks fin)) = concat chunks)"
proof -
  have "readLoop [] reads rend = readLoop [] [concat reads] rend" by (rule readLoop_concat) simp
  also have "\<dots> = (ts, Finished)" by (simp add: assms(4) drainLines_events [OF assms(3)])
  finally have "restoreStream fetch base ws req chunks fin = (ts, Finished)"
    using assms(1,2) by (simp add: restoreStream_def Let_def case_prod_unfold)
  then show ?thesis by (simp add: sentTexts_concat)
qed

subsection \<open>Witnesses\<close>

theorem placeholder_never_cut_witness:
  "\<exists>xs u v ys. sentTexts [''Dear <NA'', ''ME_'', ''1>!''] = xs @ (u @ ''<NAME_1>'' @ v) # ys"
proof -
  have "\<exists>xs u v ys. sentTexts [''Dear <NA'', ''ME_'', ''1>!''] = xs @ (u @ CHR ''<'' # ''NAME_1'' @ CHR ''>'' # v) # ys \<and>
      concat xs @ u = ''Dear '' \<and> v @ concat ys = ''!''"
    by (rule placeholder_never_cut) (simp_all add: CARRY_BUFFER_SIZE_def)
  then show ?thesis by simp blast
qed

definition demo_response :: "string list \<Rightarrow> stream_response" where
  "demo_response reads = StreamResponse 200 [] (Some (reads, ReadDone))"

definition demo_text :: string where
  "demo_text = ndjson (chunkEvent ''Anna'') @ ndjson (finalEvent [])"

theorem fragmentation_irrelevant_witness:
  "restoreStream (\<lambda>_ _ _. demo_response [demo_text]) ''http://a'' ''w'' ''r'' [''<NAME_1>''] SourceEnds =
   restoreStream (\<lambda>_ _ _. demo_response (map (\<lambda>c. [c]) demo_text)) ''http://a'' ''w'' ''r'' [''<NAME_1>''] SourceEnds"
proof (rule fragmentation_irrelevant)
  have "concat (map (\<lambda>c. [c]) s) = s" for s :: string by (induction s) auto
  then show "concat [demo_text] = concat (map (\<lambda>c. [c]) demo_text)" by simp
qed (simp_all add: demo_response_def)

theorem stream_yields_events_witness:
  "restoreStream (\<lambda>_ _ _. demo_response [take 5 demo_text, drop 5 demo_text]) ''http://a'' ''w'' ''r'' [''<NAME_1>''] SourceEnds =
   ([''Anna''], Finished)"
proof -
  let ?f = "\<lambda>_ _ _. demo_response [take 5 demo_text, drop 5 demo_text]"
  have "restoreStream ?f ''http://a'' ''w'' ''r'' [''<NAME_1>''] SourceEnds = ([''Anna''], Finished) \<and>
      ([''Anna''] = sentTexts [''<NAME_1>''] \<longrightarrow>
       concat (fst (restoreStream ?f ''http://a'' ''w'' ''r'' [''<NAME_1>''] SourceEnds)) = concat [''<NAME_1>''])"
    by (rule stream_yields_events [where hs = "[]" and status = 200 and err = "[]" and junk = "[]"
          and reads = "[take 5 demo_text, drop 5 demo_text]" and rend = ReadDone])
      (simp_all add: demo_response_def, simp add: demo_text_def)
  then show ?thesis by simp
qed

end
