(* ===== verification/PrivacyHooks.thy ===== *)
theory PrivacyHooks
  imports AnonymizerClient ToolPolicies StreamRestorer
begin

text \<open>
  The hooks of the privacy plugin, \<^verbatim>\<open>packages/privacy-plugin/src/hooks\<close>, \<^verbatim>\<open>re-mask.ts\<close>,
  \<^verbatim>\<open>memory-mask.ts\<close> and their wiring in \<^verbatim>\<open>plugin.ts\<close>, over the contexts of \<^verbatim>\<open>types.ts\<close>. A hook takes the
  operations of the client it calls, the context and the state of the outside world, and returns an
  error or the new context, and the new world. Debug logging is left out.

  \<^verbatim>\<open>reMaskTree\<close> masks the elements of an array in parallel; the model issues their requests in index
  order, lets all of them run and reports the first error by index. No property below depends on
  that order.
\<close>

subsection \<open>Contexts\<close>

record workspace_ref =
  ws_id :: string
  ws_profile :: policy_profile

record session_ref =
  sess_id :: string
  sess_task_id :: "string option"

record message_context =
  mc_workspace :: workspace_ref
  mc_session :: session_ref
  mc_request_id :: string
  mc_text :: string
  mc_channel :: string

record response_context =
  rc_workspace :: workspace_ref
  rc_session :: session_ref
  rc_request_id :: string
  rc_text :: string
  rc_hallucinated :: "string list option"

record 'stream stream_context =
  sc_workspace :: workspace_ref
  sc_session :: session_ref
  sc_request_id :: string
  sc_stream :: 'stream

datatype tool_trust = Trusted | Untrusted

record tool_call_context =
  tc_workspace :: workspace_ref
  tc_session :: session_ref
  tc_request_id :: string
  tc_name :: string
  tc_args :: jsval
  tc_trust :: tool_trust

record tool_result_context =
  tr_workspace :: workspace_ref
  tr_session :: session_ref
  tr_request_id :: string
  tr_name :: string
  tr_result :: jsval

record memory_context =
  mw_workspace :: workspace_ref
  mw_session :: session_ref
  mw_request_id :: string
  mw_content :: string
  mw_key :: string

datatype hook_error =
    ClientError client_error
  | TrustViolationError string string
  | LatePIIDetectedError nat
  | PolicyTableInvalid

type_synonym ('req, 'res, 'w) client_op = "'req \<Rightarrow> 'w \<Rightarrow> (client_error + 'res) \<times> int list \<times> 'w"

subsection \<open>Masking a message and the memory\<close>

definition preUserMessage ::
  "(anonymize_request, anonymize_response, 'w) client_op \<Rightarrow> message_context \<Rightarrow> 'w \<Rightarrow> (hook_error + message_context) \<times> 'w" where
  "preUserMessage anon ctx w =
     (case anon \<lparr>an_workspace = ws_id (mc_workspace ctx), an_request = mc_request_id ctx, an_text = mc_text ctx,
                 an_session = Some (sess_id (mc_session ctx)), an_profile = Some (ws_profile (mc_workspace ctx))\<rparr> w of
        (Inr masked, ds, w') \<Rightarrow> (Inr (ctx\<lparr>mc_text := masked_text masked\<rparr>), w')
      | (Inl err, ds, w') \<Rightarrow>
          (case err of
             AnonymizerUnavailable u \<Rightarrow>
               if ws_profile (mc_workspace ctx) = Permissive then (Inr ctx, w') else (Inl (ClientError err), w')
           | _ \<Rightarrow> (Inl (ClientError err), w')))"

definition preLlmCall ::
  "(anonymize_request, anonymize_response, 'w) client_op \<Rightarrow> message_context \<Rightarrow> 'w \<Rightarrow> (hook_error + message_context) \<times> 'w" where
  "preLlmCall anon ctx w =
     (case anon \<lparr>an_workspace = ws_id (mc_workspace ctx), an_request = mc_request_id ctx, an_text = mc_text ctx,
                 an_session = None, an_profile = None\<rparr> w of
        (Inl err, ds, w') \<Rightarrow> (Inl (ClientError err), w')
      | (Inr checked, ds, w') \<Rightarrow>
          if entities checked = [] then (Inr ctx, w')
          else (case ws_profile (mc_workspace ctx) of
                  Strict \<Rightarrow> (Inl (LatePIIDetectedError (length (entities checked))), w')
                | Permissive \<Rightarrow> (Inr ctx, w')
                | Balanced \<Rightarrow> (Inr (ctx\<lparr>mc_text := masked_text checked\<rparr>), w')))"

definition maskMemoryContent ::
  "(anonymize_request, anonymize_response, 'w) client_op \<Rightarrow> string \<Rightarrow> string \<Rightarrow> string \<Rightarrow> 'w \<Rightarrow> (client_error + string) \<times> 'w" where
  "maskMemoryContent anon workspaceId requestId content w =
     (case anon \<lparr>an_workspace = workspaceId, an_request = requestId, an_text = content, an_session = None,
                 an_profile = None\<rparr> w of
        (Inl err, ds, w') \<Rightarrow> (Inl err, w')
      | (Inr out, ds, w') \<Rightarrow> (Inr (masked_text out), w'))"

definition preMemoryWrite ::
  "(anonymize_request, anonymize_response, 'w) client_op \<Rightarrow> memory_context \<Rightarrow> 'w \<Rightarrow> (hook_error + memory_context) \<times> 'w" where
  "preMemoryWrite anon ctx w =
     (case maskMemoryContent anon (ws_id (mw_workspace ctx)) (mw_request_id ctx) (mw_content ctx) w of
        (Inl err, w') \<Rightarrow> (Inl (ClientError err), w')
      | (Inr masked, w') \<Rightarrow> (Inr (ctx\<lparr>mw_content := masked\<rparr>), w'))"

subsection \<open>Restoring a response\<close>

definition postLlmResponse ::
  "(restore_request, restore_response, 'w) client_op \<Rightarrow> response_context \<Rightarrow> 'w \<Rightarrow> (hook_error + response_context) \<times> 'w" where
  "postLlmResponse rest ctx w =
     (case rest \<lparr>rs_workspace = ws_id (rc_workspace ctx), rs_request = rc_request_id ctx, rs_text = rc_text ctx\<rparr> w of
        (Inr restored, ds, w') \<Rightarrow>
          (Inr (ctx\<lparr>rc_text := restored_text restored,
                    rc_hallucinated := (if hallucinated restored \<noteq> [] then Some (hallucinated restored) else None)\<rparr>), w')
      | (Inl err, ds, w') \<Rightarrow>
          (case err of
             AnonymizerUnavailable u \<Rightarrow> (Inr ctx, w')
           | _ \<Rightarrow> (Inl (ClientError err), w')))"

text \<open>The stream of the new context is what the restorer yields and how it ends.\<close>

definition postLlmResponseStream ::
  "(string \<Rightarrow> string list \<Rightarrow> bool \<Rightarrow> stream_response) \<Rightarrow> plugin_config \<Rightarrow> (string list \<times> source_end) stream_context
    \<Rightarrow> (string list \<times> stream_end) stream_context" where
  "postLlmResponseStream sfetch cfg ctx =
     \<lparr>sc_workspace = sc_workspace ctx, sc_session = sc_session ctx, sc_request_id = sc_request_id ctx,
      sc_stream = restoreStream sfetch (anonymizerUrl cfg) (ws_id (sc_workspace ctx)) (sc_request_id ctx)
        (fst (sc_stream ctx)) (snd (sc_stream ctx))\<rparr>"

subsection \<open>Tool calls\<close>

definition preToolCall ::
  "(deanon_request, deanon_response, 'w) client_op \<Rightarrow> policy_table option \<Rightarrow> tool_call_context \<Rightarrow> 'w
    \<Rightarrow> (hook_error + tool_call_context) \<times> 'w" where
  "preToolCall deanon policies ctx w =
     (case policies of
        None \<Rightarrow> (Inl PolicyTableInvalid, w)
      | Some table \<Rightarrow>
          (case resolvePolicy table (tc_name ctx) of
             VDeny message \<Rightarrow> (Inl (TrustViolationError (tc_name ctx) message), w)
           | VPolicy args result \<Rightarrow>
               if tc_trust ctx = Untrusted then (Inr ctx, w)
               else if args = Deanonymize
               then (case deanon \<lparr>td_workspace = ws_id (tc_workspace ctx), td_request = tc_request_id ctx,
                                  td_tool = tc_name ctx, td_args = tc_args ctx, td_policy = Some ModeDeanonymize\<rparr> w of
                       (Inl err, ds, w') \<Rightarrow> (Inl (ClientError err), w')
                     | (Inr out, ds, w') \<Rightarrow> (Inr (ctx\<lparr>tc_args := td_out_args out\<rparr>), w'))
               else (Inr ctx, w)))"

definition MIN_TEXT_LEN_FOR_NER :: nat where
  "MIN_TEXT_LEN_FOR_NER = 3"

fun firstError :: "('e + 'a) list \<Rightarrow> 'e + 'a list" where
  "firstError [] = Inr []"
| "firstError (Inl e # rs) = Inl e"
| "firstError (Inr v # rs) = (case firstError rs of Inl e \<Rightarrow> Inl e | Inr vs \<Rightarrow> Inr (v # vs))"

text \<open>Assigning the member \<^verbatim>\<open>__proto__\<close> of the result sets its prototype: the key does not become one of
  its own members.\<close>

fun reMaskTree ::
    "(anonymize_request, anonymize_response, 'w) client_op \<Rightarrow> string \<Rightarrow> string \<Rightarrow> jsval \<Rightarrow> 'w \<Rightarrow> (client_error + jsval) \<times> 'w"
  and reMaskElems ::
    "(anonymize_request, anonymize_response, 'w) client_op \<Rightarrow> string \<Rightarrow> string \<Rightarrow> jsval list \<Rightarrow> 'w
      \<Rightarrow> (client_error + jsval) list \<times> 'w"
  and reMaskFields ::
    "(anonymize_request, anonymize_response, 'w) client_op \<Rightarrow> string \<Rightarrow> string \<Rightarrow> (string \<times> jsval) list \<Rightarrow> 'w
      \<Rightarrow> (client_error + (string \<times> jsval) list) \<times> 'w" where
  "reMaskTree anon ws rid JNull w = (Inr JNull, w)"
| "reMaskTree anon ws rid JUndefined w = (Inr JUndefined, w)"
| "reMaskTree anon ws rid (JStr s) w =
     (if length s < MIN_TEXT_LEN_FOR_NER then (Inr (JStr s), w)
      else (case anon \<lparr>an_workspace = ws, an_request = rid, an_text = s, an_session = None, an_profile = None\<rparr> w of
              (Inl err, ds, w') \<Rightarrow> (Inl err, w')
            | (Inr out, ds, w') \<Rightarrow> (Inr (JStr (masked_text out)), w')))"
| "reMaskTree anon ws rid (JArr vs) w =
     (let (rs, w') = reMaskElems anon ws rid vs w
      in (case firstError rs of Inl err \<Rightarrow> (Inl err, w') | Inr vs' \<Rightarrow> (Inr (JArr vs'), w')))"
| "reMaskTree anon ws rid (JObj fs) w =
     (case reMaskFields anon ws rid fs w of
        (Inl err, w') \<Rightarrow> (Inl err, w')
      | (Inr fs', w') \<Rightarrow> (Inr (JObj fs'), w'))"
| "reMaskTree anon ws rid (JBool b) w = (Inr (JBool b), w)"
| "reMaskTree anon ws rid (JNum n) w = (Inr (JNum n), w)"
| "reMaskElems anon ws rid [] w = ([], w)"
| "reMaskElems anon ws rid (v # vs) w =
     (let (r, w1) = reMaskTree anon ws rid v w; (rs, w2) = reMaskElems anon ws rid vs w1 in (r # rs, w2))"
| "reMaskFields anon ws rid [] w = (Inr [], w)"
| "reMaskFields anon ws rid ((k, v) # fs) w =
     (case reMaskTree anon ws rid v w of
        (Inl err, w1) \<Rightarrow> (Inl err, w1)
      | (Inr v', w1) \<Rightarrow>
          (case reMaskFields anon ws rid fs w1 of
             (Inl err, w2) \<Rightarrow> (Inl err, w2)
           | (Inr fs', w2) \<Rightarrow> (Inr (if k = ''__proto__'' then fs' else (k, v') # fs'), w2)))"

definition postToolResult ::
  "(anonymize_request, anonymize_response, 'w) client_op \<Rightarrow> tool_result_context \<Rightarrow> 'w \<Rightarrow> (hook_error + tool_result_context) \<times> 'w" where
  "postToolResult anon ctx w =
     (case reMaskTree anon (ws_id (tr_workspace ctx)) (tr_request_id ctx) (tr_result ctx) w of
        (Inl err, w') \<Rightarrow> (Inl (ClientError err), w')
      | (Inr v, w') \<Rightarrow> (Inr (ctx\<lparr>tr_result := v\<rparr>), w'))"

subsection \<open>The plugin\<close>

record 'w privacy_plugin =
  plugin_name :: string
  plugin_version :: string
  pre_user_message :: "message_context \<Rightarrow> 'w \<Rightarrow> (hook_error + message_context) \<times> 'w"
  post_llm_response :: "response_context \<Rightarrow> 'w \<Rightarrow> (hook_error + response_context) \<times> 'w"
  post_llm_response_stream :: "(string list \<times> source_end) stream_context \<Rightarrow> (string list \<times> stream_end) stream_context"
  pre_tool_call :: "tool_call_context \<Rightarrow> 'w \<Rightarrow> (hook_error + tool_call_context) \<times> 'w"
  post_tool_result :: "tool_result_context \<Rightarrow> 'w \<Rightarrow> (hook_error + tool_result_context) \<times> 'w"
  pre_llm_call :: "message_context \<Rightarrow> 'w \<Rightarrow> (hook_error + message_context) \<times> 'w"
  pre_memory_write :: "memory_context \<Rightarrow> 'w \<Rightarrow> (hook_error + memory_context) \<times> 'w"

definition createPlugin ::
  "codec \<Rightarrow> 'w fetch_fn \<Rightarrow> (string \<Rightarrow> string list \<Rightarrow> bool \<Rightarrow> stream_response) \<Rightarrow> (string \<Rightarrow> string option)
    \<Rightarrow> (string \<Rightarrow> (string \<times> policy_entry) list option) \<Rightarrow> plugin_config \<Rightarrow> 'w privacy_plugin" where
  "createPlugin cdc fetch sfetch readFile parseTable cfg =
     (let policies = loadToolPolicies readFile parseTable (toolPoliciesPath cfg)
      in \<lparr>plugin_name = ''brikko-privacy'', plugin_version = ''0.3.0-m2'',
          pre_user_message = preUserMessage (anonymize cfg cdc fetch),
          post_llm_response = postLlmResponse (restore cfg cdc fetch),
          post_llm_response_stream = postLlmResponseStream sfetch cfg,
          pre_tool_call = preToolCall (toolCallDeanonymize cfg cdc fetch) policies,
          post_tool_result = postToolResult (anonymize cfg cdc fetch),
          pre_llm_call = preLlmCall (anonymize cfg cdc fetch),
          pre_memory_write = preMemoryWrite (anonymize cfg cdc fetch)\<rparr>)"

subsection \<open>What the hooks let through\<close>

text \<open>
  A value and its re-masked copy: the same tree, with every string of three or more characters replaced
  by one that \<open>V\<close> relates to it, and without members named \<^verbatim>\<open>__proto__\<close>.
\<close>

inductive remasked :: "(string \<Rightarrow> string \<Rightarrow> bool) \<Rightarrow> jsval \<Rightarrow> jsval \<Rightarrow> bool" for V where
  remasked_short: "length s < MIN_TEXT_LEN_FOR_NER \<Longrightarrow> remasked V (JStr s) (JStr s)"
| remasked_string: "MIN_TEXT_LEN_FOR_NER \<le> length s \<Longrightarrow> V s m \<Longrightarrow> remasked V (JStr s) (JStr m)"
| remasked_array: "list_all2 (remasked V) vs vs' \<Longrightarrow> remasked V (JArr vs) (JArr vs')"
| remasked_object: "list_all2 (rel_prod (=) (remasked V)) (filter (\<lambda>f. fst f \<noteq> ''__proto__'') fs) fs' \<Longrightarrow>
    remasked V (JObj fs) (JObj fs')"
| remasked_scalar: "v \<in> {JUndefined, JNull} \<or> (\<exists>b. v = JBool b) \<or> (\<exists>n. v = JNum n) \<Longrightarrow> remasked V v v"

inductive_simps remasked_simps:
  "remasked V (JStr s) v'" "remasked V (JArr vs) v'" "remasked V (JObj fs) v'"

lemma firstError_Inr: "firstError rs = Inr vs \<Longrightarrow> rs = map Inr vs"
  by (induction rs arbitrary: vs rule: firstError.induct) (auto split: sum.splits)

lemma reMask_correct:
  fixes anon :: "(anonymize_request, anonymize_response, 'w) client_op" and V :: "string \<Rightarrow> string \<Rightarrow> bool"
  shows "(\<forall>r w out. fst (anon r w) = Inr out \<longrightarrow> V (an_text r) (masked_text out)) \<Longrightarrow>
      fst (reMaskTree anon ws rid v w) = Inr v' \<Longrightarrow> remasked V v v'"
    and "(\<forall>r w out. fst (anon r w) = Inr out \<longrightarrow> V (an_text r) (masked_text out)) \<Longrightarrow>
      fst (reMaskElems anon ws rid vs w) = map Inr vs' \<Longrightarrow> list_all2 (remasked V) vs vs'"
    and "(\<forall>r w out. fst (anon r w) = Inr out \<longrightarrow> V (an_text r) (masked_text out)) \<Longrightarrow>
      fst (reMaskFields anon ws rid fs w) = Inr fs' \<Longrightarrow>
      list_all2 (rel_prod (=) (remasked V)) (filter (\<lambda>f. fst f \<noteq> ''__proto__'') fs) fs'"
proof (induction anon ws rid v w and anon ws rid vs w and anon ws rid fs w
    arbitrary: v' and vs' and fs' rule: reMaskTree_reMaskElems_reMaskFields.induct)
  case (3 anon ws rid s w)
  let ?r = "\<lparr>an_workspace = ws, an_request = rid, an_text = s, an_session = None, an_profile = None\<rparr>"
  have "V s (masked_text out)" if "fst (anon ?r w) = Inr out" for out
    using "3.prems"(1) that by (metis anonymize_request.select_convs(3))
  then show ?case using "3.prems"(2)
    by (auto simp: remasked_simps split: if_splits prod.splits sum.splits)
next
  case (4 anon ws rid vs w)
  obtain rs w' where e: "reMaskElems anon ws rid vs w = (rs, w')" by fastforce
  obtain vs' where vs': "firstError rs = Inr vs'" "v' = JArr vs'" using 4 e by (auto split: sum.splits)
  then show ?case using "4.IH" [OF "4.prems"(1), of vs'] e firstError_Inr [OF vs'(1)] by (simp add: remasked_array)
next
  case (5 anon ws rid fs w)
  then show ?case by (auto intro: remasked_object split: prod.splits sum.splits)
next
  case (9 anon ws rid v vs w)
  obtain r w1 where t: "reMaskTree anon ws rid v w = (r, w1)" by fastforce
  obtain rs w2 where e: "reMaskElems anon ws rid vs w1 = (rs, w2)" by fastforce
  obtain x xs where vs': "vs' = x # xs" "r = Inr x" "rs = map Inr xs" using 9 t e by (cases vs') auto
  then show ?case
    using "9.IH"(1) [OF "9.prems"(1), of x] "9.IH"(2) [OF t [symmetric] refl "9.prems"(1), of xs] t e by simp
next
  case (11 anon ws rid k v fs w)
  obtain x w1 where t: "reMaskTree anon ws rid v w = (Inr x, w1)" using 11 by (auto split: prod.splits sum.splits)
  obtain gs w2 where e: "reMaskFields anon ws rid fs w1 = (Inr gs, w2)" using 11 t by (auto split: prod.splits sum.splits)
  have "fs' = (if k = ''__proto__'' then gs else (k, x) # gs)" using "11.prems"(2) t e by simp
  then show ?case
    using "11.IH"(1) [OF "11.prems"(1), of x] "11.IH"(2) [OF t [symmetric] refl "11.prems"(1), of gs] t e by simp
qed (auto intro: remasked_scalar)

context masking_client
begin

text \<open>What a masking client's law gives for each hook.\<close>

lemma user_message_masked:
  assumes "fst (preUserMessage anon ctx w) = Inr ctx'" and "ws_profile (mc_workspace ctx) \<noteq> Permissive"
  shows "masked_answer vouched (mc_text ctx) (mc_text ctx') \<and> mc_workspace ctx' = mc_workspace ctx"
proof -
  let ?r = "\<lparr>an_workspace = ws_id (mc_workspace ctx), an_request = mc_request_id ctx, an_text = mc_text ctx,
                 an_session = Some (sess_id (mc_session ctx)), an_profile = Some (ws_profile (mc_workspace ctx))\<rparr>"
  obtain out ds w' where "anon ?r w = (Inr out, ds, w')" "ctx' = ctx\<lparr>mc_text := masked_text out\<rparr>"
    using assms by (auto simp: preUserMessage_def split: prod.splits sum.splits client_error.splits if_splits)
  then show ?thesis using masked_answerI [of ?r w out] by simp
qed

lemma llm_call_checked:
  assumes "fst (preLlmCall anon ctx w) = Inr ctx'" and "ws_profile (mc_workspace ctx) \<noteq> Permissive"
  shows "mc_text ctx' = mc_text ctx \<and> clean_answer vouched (mc_text ctx) \<or>
    ws_profile (mc_workspace ctx) = Balanced \<and> masked_answer vouched (mc_text ctx) (mc_text ctx')"
proof -
  let ?r = "\<lparr>an_workspace = ws_id (mc_workspace ctx), an_request = mc_request_id ctx, an_text = mc_text ctx,
                 an_session = None, an_profile = None\<rparr>"
  obtain out ds w' where a: "anon ?r w = (Inr out, ds, w')"
    using assms by (auto simp: preLlmCall_def split: prod.splits sum.splits)
  have "vouched ?r out" using anon_vouched [of ?r w out] a by simp
  then show ?thesis using assms a masked_answerI [of ?r w out]
    by (cases "entities out = []"; cases "ws_profile (mc_workspace ctx)")
      (auto simp: preLlmCall_def clean_answer_def intro!: exI [of _ ?r] exI [of _ out])
qed

lemma memory_masked:
  assumes "fst (preMemoryWrite anon ctx w) = Inr ctx'"
  shows "masked_answer vouched (mw_content ctx) (mw_content ctx') \<and> mw_key ctx' = mw_key ctx"
proof -
  let ?r = "\<lparr>an_workspace = ws_id (mw_workspace ctx), an_request = mw_request_id ctx, an_text = mw_content ctx,
                 an_session = None, an_profile = None\<rparr>"
  obtain out ds w' where "anon ?r w = (Inr out, ds, w')" "ctx' = ctx\<lparr>mw_content := masked_text out\<rparr>"
    using assms by (auto simp: preMemoryWrite_def maskMemoryContent_def split: prod.splits sum.splits)
  then show ?thesis using masked_answerI [of ?r w out] by simp
qed

lemma tool_result_masked_law:
  assumes "fst (postToolResult anon ctx w) = Inr ctx'"
  shows "remasked (masked_answer vouched) (tr_result ctx) (tr_result ctx')"
proof -
  obtain v where "fst (reMaskTree anon (ws_id (tr_workspace ctx)) (tr_request_id ctx) (tr_result ctx) w) = Inr v"
    "ctx' = ctx\<lparr>tr_result := v\<rparr>"
    using assms by (auto simp: postToolResult_def split: prod.splits sum.splits)
  then show ?thesis using reMask_correct(1) [of anon "masked_answer vouched"] masked_answerI by simp
qed

end

subsection \<open>Properties\<close>

text \<open>The sidecar's own words: \<open>m\<close> is the masked text it answered for \<open>t\<close>; it found no entity in \<open>t\<close>.\<close>

definition masked_by_sidecar :: "plugin_config \<Rightarrow> codec \<Rightarrow> 'w fetch_fn \<Rightarrow> string \<Rightarrow> string \<Rightarrow> bool" where
  "masked_by_sidecar cfg cdc fetch = masked_answer (sidecar_answered cfg cdc fetch)"

definition clean_by_sidecar :: "plugin_config \<Rightarrow> codec \<Rightarrow> 'w fetch_fn \<Rightarrow> string \<Rightarrow> bool" where
  "clean_by_sidecar cfg cdc fetch = clean_answer (sidecar_answered cfg cdc fetch)"

lemmas by_sidecar = masked_by_sidecar_def clean_by_sidecar_def

text \<open>C1: In a strict or balanced workspace no user text reaches the model unmasked: if the hooks before
  the model let a message through, its text was replaced by the sidecar's masked text, and what goes
  to the model is that text, in which the sidecar then found no entity, or, only in a balanced
  workspace, that text masked once more. Whatever goes wrong with the sidecar, the message is not
  let through.\<close>
theorem llm_text_masked:
  assumes "plugin = createPlugin cdc fetch sfetch readFile parseTable cfg"
    and "ws_profile (mc_workspace ctx) \<noteq> Permissive"
    and "fst (pre_user_message plugin ctx w) = Inr ctx1" and "fst (pre_llm_call plugin ctx1 w') = Inr ctx2"
  shows "masked_by_sidecar cfg cdc fetch (mc_text ctx) (mc_text ctx1) \<and>
    (mc_text ctx2 = mc_text ctx1 \<and> clean_by_sidecar cfg cdc fetch (mc_text ctx2) \<or>
     ws_profile (mc_workspace ctx) = Balanced \<and> masked_by_sidecar cfg cdc fetch (mc_text ctx1) (mc_text ctx2))"
proof -
  have h: "fst (preUserMessage (anonymize cfg cdc fetch) ctx w) = Inr ctx1"
    "fst (preLlmCall (anonymize cfg cdc fetch) ctx1 w') = Inr ctx2"
    using assms(1,3,4) by (simp_all add: createPlugin_def)
  from client.user_message_masked [OF h(1) assms(2)] client.llm_call_checked [OF h(2)] assms(2)
  show ?thesis by (auto simp: by_sidecar)
qed

text \<open>Long-term memory never gets a text the sidecar has not masked, in no workspace profile: a write
  that the hook lets through has the sidecar's masked text of the content as its content and its key
  unchanged.\<close>

theorem memory_always_masked:
  assumes "plugin = createPlugin cdc fetch sfetch readFile parseTable cfg"
    and "fst (pre_memory_write plugin ctx w) = Inr ctx'"
  shows "masked_by_sidecar cfg cdc fetch (mw_content ctx) (mw_content ctx') \<and> mw_key ctx' = mw_key ctx"
  using client.memory_masked [of cfg cdc fetch ctx w ctx'] assms by (simp add: createPlugin_def by_sidecar)

text \<open>Real values go only where the policy sends them: if a tool call goes ahead with other arguments
  than it came with, the tool is trusted, the policy table has a row that says to de-anonymize it, and
  the arguments are the sidecar's answer; a denied tool is stopped and an untrusted one keeps its
  placeholders without any request to the sidecar.\<close>

theorem originals_only_by_policy:
  "case preToolCall deanon policies ctx w of
     (Inl e, w') \<Rightarrow> (e = PolicyTableInvalid \<and> policies = None \<and> w' = w) \<or>
       (\<exists>t m. policies = Some t \<and> resolvePolicy t (tc_name ctx) = VDeny m \<and> e = TrustViolationError (tc_name ctx) m \<and> w' = w) \<or>
       (\<exists>ce. e = ClientError ce \<and> tc_trust ctx = Trusted)
   | (Inr ctx', w') \<Rightarrow>
       (\<exists>t a r. policies = Some t \<and> resolvePolicy t (tc_name ctx) = VPolicy a r \<and>
         (ctx' = ctx \<and> w' = w \<or>
          tc_trust ctx = Trusted \<and> a = Deanonymize \<and>
          (\<exists>out ds. deanon \<lparr>td_workspace = ws_id (tc_workspace ctx), td_request = tc_request_id ctx, td_tool = tc_name ctx,
               td_args = tc_args ctx, td_policy = Some ModeDeanonymize\<rparr> w = (Inr out, ds, w') \<and>
             ctx' = ctx\<lparr>tc_args := td_out_args out\<rparr>)))"
  by (cases "tc_trust ctx") (auto simp: preToolCall_def split: option.splits verdict.splits prod.splits sum.splits)

text \<open>C15: A tool result reaches the model with each of its strings of three or more characters replaced, in
  its place, by the sidecar's masked text of that string, and otherwise unchanged; if a single masking
  request fails, the result is not let through.\<close>
theorem tool_result_masked:
  assumes "plugin = createPlugin cdc fetch sfetch readFile parseTable cfg"
    and "fst (post_tool_result plugin ctx w) = Inr ctx'"
  shows "remasked (masked_by_sidecar cfg cdc fetch) (tr_result ctx) (tr_result ctx')"
  using client.tool_result_masked_law [of cfg cdc fetch ctx w ctx'] assms by (simp add: createPlugin_def by_sidecar)

text \<open>An answer of the model is never lost to an offline sidecar: the restoring hook fails only on a
  request error or an unreadable reply, hands the answer on unchanged when the sidecar is
  unavailable, and otherwise hands on the restored text with the placeholders the sidecar did not know,
  if there are any.\<close>

theorem response_fails_open:
  "case rest \<lparr>rs_workspace = ws_id (rc_workspace ctx), rs_request = rc_request_id ctx, rs_text = rc_text ctx\<rparr> w of
     (Inl (AnonymizerUnavailable u), ds, w') \<Rightarrow> postLlmResponse rest ctx w = (Inr ctx, w')
   | (Inl e, ds, w') \<Rightarrow> postLlmResponse rest ctx w = (Inl (ClientError e), w')
   | (Inr out, ds, w') \<Rightarrow> \<exists>ctx'. postLlmResponse rest ctx w = (Inr ctx', w') \<and> rc_text ctx' = restored_text out \<and>
       coalesce (rc_hallucinated ctx') [] = hallucinated out"
  by (auto simp: postLlmResponse_def split: prod.splits sum.splits client_error.splits)

subsection \<open>Witnesses\<close>

definition demo_plugin :: "nat privacy_plugin" where
  "demo_plugin = createPlugin demo_codec demo_fetch (\<lambda>_ _ _. FetchRejects) Some (\<lambda>_. Some demo_rows) demo_config"

definition demo_ws :: "policy_profile \<Rightarrow> workspace_ref" where
  "demo_ws p = \<lparr>ws_id = ''w'', ws_profile = p\<rparr>"

definition demo_message :: "string \<Rightarrow> message_context" where
  "demo_message t = \<lparr>mc_workspace = demo_ws Strict, mc_session = \<lparr>sess_id = ''s'', sess_task_id = None\<rparr>,
     mc_request_id = ''r'', mc_text = t, mc_channel = ''web''\<rparr>"

lemmas demo_hook_defs = demo_plugin_def createPlugin_def demo_message_def demo_ws_def demo_codec_def demo_fetch_def
  demo_config_def anonymize_def postJson_def withRetry_def withRetryFrom.simps readJson_def fetchWithTimeout_def
  transient_def

theorem llm_text_masked_witness:
  "masked_by_sidecar demo_config demo_codec demo_fetch ''Anna'' ''<NAME_1>''"
proof -
  have a: "fst (pre_user_message demo_plugin (demo_message ''Anna'') 1) = Inr (demo_message ''<NAME_1>'')"
    by (simp add: demo_hook_defs preUserMessage_def)
  have b: "fst (pre_llm_call demo_plugin (demo_message ''<NAME_1>'') 2) = Inr (demo_message ''<NAME_1>'')"
    by (simp add: demo_hook_defs preLlmCall_def)
  from llm_text_masked [OF demo_plugin_def _ a b] show ?thesis by (simp add: demo_message_def demo_ws_def)
qed

theorem memory_always_masked_witness:
  "masked_by_sidecar demo_config demo_codec demo_fetch ''call Anna'' ''<NAME_1>''"
proof -
  let ?m = "\<lambda>t. \<lparr>mw_workspace = demo_ws Permissive, mw_session = \<lparr>sess_id = ''s'', sess_task_id = None\<rparr>,
     mw_request_id = ''r'', mw_content = t, mw_key = ''k''\<rparr>"
  have "fst (pre_memory_write demo_plugin (?m ''call Anna'') 1) = Inr (?m ''<NAME_1>'')"
    by (simp add: demo_hook_defs preMemoryWrite_def maskMemoryContent_def)
  from memory_always_masked [OF demo_plugin_def this] show ?thesis by simp
qed

theorem tool_result_masked_witness:
  "masked_by_sidecar demo_config demo_codec demo_fetch ''Anna'' ''<NAME_1>''"
proof -
  let ?c = "\<lambda>v. \<lparr>tr_workspace = demo_ws Strict, tr_session = \<lparr>sess_id = ''s'', sess_task_id = None\<rparr>,
     tr_request_id = ''r'', tr_name = ''t'', tr_result = v\<rparr>"
  have "fst (post_tool_result demo_plugin (?c (JArr [JStr ''ok'', JStr ''Anna'', JNum ''7''])) 1) =
      Inr (?c (JArr [JStr ''ok'', JStr ''<NAME_1>'', JNum ''7'']))"
    by (simp add: demo_hook_defs postToolResult_def MIN_TEXT_LEN_FOR_NER_def)
  from tool_result_masked [OF demo_plugin_def this] show ?thesis
    by (simp add: remasked_simps MIN_TEXT_LEN_FOR_NER_def)
qed

end
