(* ===== verification/StringCoerce.thy ===== *)
theory StringCoerce
  imports JsPrelude
begin

text \<open>
  The string normalisers of \<^verbatim>\<open>packages/core/src/shared/string-coerce.ts\<close> that the components call. A
  value that is not a string is \<open>None\<close>; null and undefined are one \<open>None\<close>.
\<close>

definition normalizeNullableString :: "string option \<Rightarrow> string option" where
  "normalizeNullableString v =
     (case v of None \<Rightarrow> None | Some s \<Rightarrow> (let trimmed = js_trim s in if trimmed \<noteq> [] then Some trimmed else None))"

definition normalizeOptionalString :: "string option \<Rightarrow> string option" where
  "normalizeOptionalString v = normalizeNullableString v"

definition normalizeOptionalLowercaseString :: "string option \<Rightarrow> string option" where
  "normalizeOptionalLowercaseString v = map_option js_lower (normalizeOptionalString v)"

definition normalizeLowercaseStringOrEmpty :: "string option \<Rightarrow> string" where
  "normalizeLowercaseStringOrEmpty v = coalesce (normalizeOptionalLowercaseString v) []"

definition normalizeFastMode :: "(string + bool) option \<Rightarrow> bool option" where
  "normalizeFastMode raw =
     (case raw of
        None \<Rightarrow> None
      | Some (Inr b) \<Rightarrow> Some b
      | Some (Inl s) \<Rightarrow>
          if s = [] then None
          else (let key = normalizeLowercaseStringOrEmpty (Some s)
                in if key \<in> set [''off'', ''false'', ''no'', ''0'', ''disable'', ''disabled'', ''normal''] then Some False
                   else if key \<in> set [''on'', ''true'', ''yes'', ''1'', ''enable'', ''enabled'', ''fast''] then Some True
                   else None))"

definition hasNonEmptyString :: "string option \<Rightarrow> bool" where
  "hasNonEmptyString v \<longleftrightarrow> normalizeOptionalString v \<noteq> None"

lemma lower_or_empty [js_string]: "normalizeLowercaseStringOrEmpty (Some s) = js_lower (js_trim s)"
  by (simp add: normalizeLowercaseStringOrEmpty_def normalizeOptionalLowercaseString_def normalizeOptionalString_def
      normalizeNullableString_def js_lower_def Let_def)

end
