(* ===== verification/ApprovalManager.thy ===== *)
theory ApprovalManager
  imports StringCoerce
begin

text \<open>
  The manager of execution approvals, \<^verbatim>\<open>packages/core/src/gateway/exec-approval-manager.ts\<close>: records
  waiting for an operator's decision, each with the promise its requester awaits.

  An entry of the map has a number, its identity and that of its promise. Timers are explicit: an
  armed expiry timer is the entry number and record id it was set for, a cleanup timer likewise, and
  a timer fires as a call. \<open>answers\<close> lists the promises resolved, in order; \<open>consumed\<close> the entries
  whose one-time approval was consumed, in order. The payload is a type variable; the random id a
  record gets when none is given is an argument of \<open>create\<close>.
\<close>

datatype approval_decision = AllowOnce | AllowAlways | DenyExec

record 'p approval_record =
  ar_id :: string
  ar_request :: 'p
  createdAtMs :: int
  expiresAtMs :: int
  requestedByConnId :: "string option"
  requestedByDeviceId :: "string option"
  requestedByClientId :: "string option"
  resolvedAtMs :: "int option"
  decision :: "approval_decision option"
  consumedDecision :: "approval_decision option"
  resolvedBy :: "string option"

record 'p pending_entry =
  entry_no :: nat
  entry_record :: "'p approval_record"

record 'p approvals =
  pending :: "(string, 'p pending_entry) js_map"
  nextEntry :: nat
  expiryTimers :: "(nat \<times> string) list"
  cleanupTimers :: "(nat \<times> string) list"
  answers :: "(nat \<times> approval_decision option) list"
  consumed :: "nat list"

definition noApprovals :: "'p approvals" where
  "noApprovals = \<lparr>pending = [], nextEntry = 0, expiryTimers = [], cleanupTimers = [], answers = [], consumed = []\<rparr>"

definition create_record :: "int \<Rightarrow> string \<Rightarrow> 'p \<Rightarrow> int \<Rightarrow> string option \<Rightarrow> 'p approval_record" where
  "create_record now uuid request timeoutMs i =
     (let resolvedId = (case i of None \<Rightarrow> uuid | Some s \<Rightarrow> if js_trim s \<noteq> [] then js_trim s else uuid)
      in \<lparr>ar_id = resolvedId, ar_request = request, createdAtMs = now, expiresAtMs = now + timeoutMs,
          requestedByConnId = None, requestedByDeviceId = None, requestedByClientId = None,
          resolvedAtMs = None, decision = None, consumedDecision = None, resolvedBy = None\<rparr>)"

text \<open>The promise to await, or the error that the id is already resolved.\<close>

definition register :: "'p approval_record \<Rightarrow> 'p approvals \<Rightarrow> (string + nat) \<times> 'p approvals" where
  "register r st =
     (case map_of (pending st) (ar_id r) of
        Some e \<Rightarrow>
          if resolvedAtMs (entry_record e) = None then (Inr (entry_no e), st)
          else (Inl (''approval id '' @ ar_id r @ '' already resolved''), st)
      | None \<Rightarrow>
          (let no = nextEntry st
           in (Inr no, st\<lparr>nextEntry := Suc no, expiryTimers := expiryTimers st @ [(no, ar_id r)],
                 pending := AList.update (ar_id r) \<lparr>entry_no = no, entry_record = r\<rparr> (pending st)\<rparr>)))"

definition waitForDecision :: "'p approval_record \<Rightarrow> 'p approvals \<Rightarrow> (string + nat) \<times> 'p approvals" where
  "waitForDecision r st = register r st"

definition resolve_approval :: "int \<Rightarrow> string \<Rightarrow> approval_decision \<Rightarrow> string option \<Rightarrow> 'p approvals \<Rightarrow> bool \<times> 'p approvals" where
  "resolve_approval now recordId d by_whom st =
     (case map_of (pending st) recordId of
        None \<Rightarrow> (False, st)
      | Some e \<Rightarrow>
          if resolvedAtMs (entry_record e) \<noteq> None then (False, st)
          else (True, st\<lparr>expiryTimers := filter (\<lambda>t. fst t \<noteq> entry_no e) (expiryTimers st),
                  pending := AList.update recordId
                    (e\<lparr>entry_record := (entry_record e)\<lparr>resolvedAtMs := Some now, decision := Some d, resolvedBy := by_whom\<rparr>\<rparr>)
                    (pending st),
                  answers := answers st @ [(entry_no e, Some d)],
                  cleanupTimers := cleanupTimers st @ [(entry_no e, recordId)]\<rparr>))"

definition expire_approval :: "int \<Rightarrow> string \<Rightarrow> string option \<Rightarrow> 'p approvals \<Rightarrow> bool \<times> 'p approvals" where
  "expire_approval now recordId by_whom st =
     (case map_of (pending st) recordId of
        None \<Rightarrow> (False, st)
      | Some e \<Rightarrow>
          if resolvedAtMs (entry_record e) \<noteq> None then (False, st)
          else (True, st\<lparr>expiryTimers := filter (\<lambda>t. fst t \<noteq> entry_no e) (expiryTimers st),
                  pending := AList.update recordId
                    (e\<lparr>entry_record := (entry_record e)\<lparr>resolvedAtMs := Some now, decision := None, resolvedBy := by_whom\<rparr>\<rparr>)
                    (pending st),
                  answers := answers st @ [(entry_no e, None)],
                  cleanupTimers := cleanupTimers st @ [(entry_no e, recordId)]\<rparr>))"

text \<open>The callbacks of the timers. A fired timer is no longer armed; one that was cleared does not fire.\<close>

definition expiryTimer :: "int \<Rightarrow> nat \<Rightarrow> 'p approvals \<Rightarrow> 'p approvals" where
  "expiryTimer now no st =
     (case map_of (expiryTimers st) no of
        None \<Rightarrow> st
      | Some recordId \<Rightarrow>
          snd (expire_approval now recordId None (st\<lparr>expiryTimers := filter (\<lambda>t. fst t \<noteq> no) (expiryTimers st)\<rparr>)))"

definition cleanupTimer :: "nat \<Rightarrow> 'p approvals \<Rightarrow> 'p approvals" where
  "cleanupTimer no st =
     (case map_of (cleanupTimers st) no of
        None \<Rightarrow> st
      | Some recordId \<Rightarrow>
          (let st1 = st\<lparr>cleanupTimers := filter (\<lambda>t. fst t \<noteq> no) (cleanupTimers st)\<rparr>
           in case map_of (pending st1) recordId of
                None \<Rightarrow> st1
              | Some e \<Rightarrow> if entry_no e = no then st1\<lparr>pending := AList.delete recordId (pending st1)\<rparr> else st1))"

definition getSnapshot :: "string \<Rightarrow> 'p approvals \<Rightarrow> 'p approval_record option" where
  "getSnapshot recordId st = map_option entry_record (map_of (pending st) recordId)"

definition listPendingRecords :: "'p approvals \<Rightarrow> 'p approval_record list" where
  "listPendingRecords st = filter (\<lambda>r. resolvedAtMs r = None) (map (entry_record \<circ> snd) (pending st))"

definition consumeAllowOnce :: "string \<Rightarrow> 'p approvals \<Rightarrow> bool \<times> 'p approvals" where
  "consumeAllowOnce recordId st =
     (case map_of (pending st) recordId of
        None \<Rightarrow> (False, st)
      | Some e \<Rightarrow>
          if decision (entry_record e) \<noteq> Some AllowOnce then (False, st)
          else (True, st\<lparr>pending := AList.update recordId
                    (e\<lparr>entry_record := (entry_record e)\<lparr>consumedDecision := decision (entry_record e), decision := None\<rparr>\<rparr>)
                    (pending st),
                  consumed := consumed st @ [entry_no e]\<rparr>))"

definition awaitDecision :: "string \<Rightarrow> 'p approvals \<Rightarrow> nat option" where
  "awaitDecision recordId st = map_option entry_no (map_of (pending st) recordId)"

datatype id_lookup = Exact string | UniquePrefix string | Ambiguous "string list" | NoMatch

definition lookupApprovalId :: "string \<Rightarrow> bool \<Rightarrow> 'p approvals \<Rightarrow> id_lookup" where
  "lookupApprovalId input includeResolved st =
     (let normalized = js_trim input
      in if normalized = [] then NoMatch
         else case map_of (pending st) normalized of
           Some e \<Rightarrow> if includeResolved \<or> resolvedAtMs (entry_record e) = None then Exact normalized else NoMatch
         | None \<Rightarrow>
             (let lowerPrefix = normalizeLowercaseStringOrEmpty (Some normalized);
                  ids = map fst (filter (\<lambda>(i, e). (includeResolved \<or> resolvedAtMs (entry_record e) = None) \<and>
                          starts_with lowerPrefix (normalizeLowercaseStringOrEmpty (Some i))) (pending st))
              in case ids of [] \<Rightarrow> NoMatch | [i] \<Rightarrow> UniquePrefix i | _ \<Rightarrow> Ambiguous ids))"

definition lookupPendingId :: "string \<Rightarrow> 'p approvals \<Rightarrow> id_lookup" where
  "lookupPendingId input st = lookupApprovalId input False st"

subsection \<open>Calls in any order\<close>

text \<open>A requester creates a record, may note who asked, and registers it.\<close>

datatype 'p approval_call =
    Register int string 'p int "string option" "string option" "string option" "string option"
  | Resolve int string approval_decision "string option"
  | Expire int string "string option"
  | ExpiryTimer int nat
  | CleanupTimer nat
  | ConsumeAllowOnce string

fun approval_step :: "'p approval_call \<Rightarrow> 'p approvals \<Rightarrow> 'p approvals" where
  "approval_step (Register now uuid req timeoutMs i conn device client) st =
     snd (register ((create_record now uuid req timeoutMs i)
       \<lparr>requestedByConnId := conn, requestedByDeviceId := device, requestedByClientId := client\<rparr>) st)"
| "approval_step (Resolve now i d who) st = snd (resolve_approval now i d who st)"
| "approval_step (Expire now i who) st = snd (expire_approval now i who st)"
| "approval_step (ExpiryTimer now no) st = expiryTimer now no st"
| "approval_step (CleanupTimer no) st = cleanupTimer no st"
| "approval_step (ConsumeAllowOnce i) st = snd (consumeAllowOnce i st)"

subsection \<open>The invariant\<close>

text \<open>
  \<^item> \<open>open_nos\<close>, \<open>closed_nos\<close>: the numbers of the unresolved and of the resolved entries in the map.
  \<^item> Every number handed out is open, or answered once; the armed expiry timers are exactly those of
    the open entries, the armed cleanup timers those of the resolved entries.
  \<^item> A record's decision is the answer given, and gone once it was consumed.
\<close>

definition open_of :: "string \<times> 'p pending_entry \<Rightarrow> (nat \<times> string) list" where
  "open_of ie = (if resolvedAtMs (entry_record (snd ie)) = None then [(entry_no (snd ie), fst ie)] else [])"

definition closed_of :: "string \<times> 'p pending_entry \<Rightarrow> (nat \<times> string) list" where
  "closed_of ie = (if resolvedAtMs (entry_record (snd ie)) \<noteq> None then [(entry_no (snd ie), fst ie)] else [])"

definition open_entries :: "'p approvals \<Rightarrow> (nat \<times> string) list" where
  "open_entries st = concat (map open_of (pending st))"

definition closed_entries :: "'p approvals \<Rightarrow> (nat \<times> string) list" where
  "closed_entries st = concat (map closed_of (pending st))"

definition entry_ok :: "'p approvals \<Rightarrow> 'p pending_entry \<Rightarrow> bool" where
  "entry_ok st e \<longleftrightarrow>
     (case resolvedAtMs (entry_record e) of
        None \<Rightarrow> decision (entry_record e) = None
      | Some t \<Rightarrow>
          (\<exists>a. (entry_no e, a) \<in> set (answers st) \<and>
             decision (entry_record e) = (if entry_no e \<in> set (consumed st) then None else a)))"

definition ap_inv :: "'p approvals \<Rightarrow> bool" where
  "ap_inv st \<longleftrightarrow>
     map_ok (pending st) \<and>
     distinct (map (entry_no \<circ> snd) (pending st)) \<and>
     mset (map fst (open_entries st)) + mset (map fst (answers st)) = mset [0..<nextEntry st] \<and>
     mset (expiryTimers st) = mset (open_entries st) \<and>
     mset (cleanupTimers st) = mset (closed_entries st) \<and>
     (\<forall>i e. map_of (pending st) i = Some e \<longrightarrow> entry_ok st e) \<and>
     distinct (consumed st) \<and> (\<forall>no \<in> set (consumed st). (no, Some AllowOnce) \<in> set (answers st))"

subsection \<open>Every call keeps the invariant\<close>

lemma inv_numbers:
  assumes "ap_inv st"
  shows "distinct (map fst (open_entries st) @ map fst (answers st))"
    and "no \<in> set (map fst (open_entries st) @ map fst (answers st)) \<longleftrightarrow> no < nextEntry st"
proof -
  have m: "mset (map fst (open_entries st) @ map fst (answers st)) = mset [0..<nextEntry st]"
    using assms by (simp add: ap_inv_def)
  then show "distinct (map fst (open_entries st) @ map fst (answers st))" by (metis distinct_upt mset_eq_imp_distinct_iff)
  have "set (map fst (open_entries st) @ map fst (answers st)) = set [0..<nextEntry st]" by (rule mset_eq_setD [OF m])
  then show "no \<in> set (map fst (open_entries st) @ map fst (answers st)) \<longleftrightarrow> no < nextEntry st"
    by (metis atLeastLessThan_iff less_eq_nat.simps(1) set_upt)
qed

lemma open_entry:
  "map_of (pending st) i = Some e \<Longrightarrow> resolvedAtMs (entry_record e) = None \<Longrightarrow> (entry_no e, i) \<in> set (open_entries st)"
  by (force simp: open_entries_def open_of_def dest: map_of_in_set)

lemma open_entryD:
  assumes "map_ok (pending st)" and "(no, i) \<in> set (open_entries st)"
  shows "\<exists>e. map_of (pending st) i = Some e \<and> entry_no e = no \<and> resolvedAtMs (entry_record e) = None"
  using assms by (auto simp: open_entries_def open_of_def split: if_splits dest: map_ok_map_of)

lemma closed_entryD:
  assumes "map_ok (pending st)" and "(no, i) \<in> set (closed_entries st)"
  shows "\<exists>e. map_of (pending st) i = Some e \<and> entry_no e = no \<and> resolvedAtMs (entry_record e) \<noteq> None"
  using assms by (auto simp: closed_entries_def closed_of_def split: if_splits dest: map_ok_map_of)

lemma closed_entry:
  "map_of (pending st) i = Some e \<Longrightarrow> resolvedAtMs (entry_record e) \<noteq> None \<Longrightarrow> (entry_no e, i) \<in> set (closed_entries st)"
  by (force simp: closed_entries_def closed_of_def dest: map_of_in_set)

lemma same_number:
  assumes "ap_inv st" and "map_of (pending st) i = Some e" and "map_of (pending st) j = Some f" and "entry_no e = entry_no f"
  shows "i = j"
proof -
  have "distinct (map (entry_no \<circ> snd) (pending st))" using assms(1) by (simp add: ap_inv_def)
  from same_id [OF this map_of_in_set [OF assms(2)] map_of_in_set [OF assms(3)]] assms(4) show ?thesis by simp
qed

lemma answered_once: "ap_inv st \<Longrightarrow> (no, a) \<in> set (answers st) \<Longrightarrow> (no, b) \<in> set (answers st) \<Longrightarrow> a = b"
  using inv_numbers(1) [of st] same_id [of fst "answers st" "(no, a)" "(no, b)"] by auto

text \<open>Settling an open entry: what resolving and expiring have in common.\<close>

definition settle_entry :: "string \<Rightarrow> 'p pending_entry \<Rightarrow> 'p approval_record \<Rightarrow> approval_decision option \<Rightarrow> 'p approvals \<Rightarrow> 'p approvals" where
  "settle_entry i e r d st = st\<lparr>expiryTimers := filter (\<lambda>t. fst t \<noteq> entry_no e) (expiryTimers st),
     pending := AList.update i (e\<lparr>entry_record := r\<rparr>) (pending st),
     answers := answers st @ [(entry_no e, d)], cleanupTimers := cleanupTimers st @ [(entry_no e, i)]\<rparr>"

lemma answer_inv:
  assumes inv: "ap_inv st" and e: "map_of (pending st) i = Some e" and o: "resolvedAtMs (entry_record e) = None"
    and r: "resolvedAtMs r \<noteq> None" "decision r = d"
  shows "ap_inv (settle_entry i e r d st)" (is "ap_inv ?st")
proof -
  let ?e = "e\<lparr>entry_record := r\<rparr>"
  have open': "mset (open_entries st) = add_mset (entry_no e, i) (mset (open_entries ?st))"
    using mset_concat_update [OF e, of open_of ?e] o r
    by (simp add: open_entries_def settle_entry_def open_of_def)
  have closed': "mset (closed_entries ?st) = add_mset (entry_no e, i) (mset (closed_entries st))"
    using mset_concat_update [OF e, of closed_of ?e] o r
    by (simp add: closed_entries_def settle_entry_def closed_of_def)
  have "mset (map fst (open_entries st)) = add_mset (entry_no e) (mset (map fst (open_entries ?st)))"
    using arg_cong [OF open', of "image_mset fst"] by simp
  then have nums: "mset (map fst (open_entries ?st)) + mset (map fst (answers ?st)) = mset [0..<nextEntry ?st]"
    using inv by (simp add: ap_inv_def settle_entry_def)
  have "distinct (entry_no e # map fst (open_entries ?st))"
    using \<open>mset (map fst (open_entries st)) = _\<close> inv_numbers(1) [OF inv]
    by (metis distinct_append mset.simps(2) mset_eq_imp_distinct_iff)
  then have "\<forall>t \<in># mset (open_entries ?st). fst t \<noteq> entry_no e" by force
  then have "filter_mset (\<lambda>t. fst t \<noteq> entry_no e) (mset (open_entries ?st)) = mset (open_entries ?st)"
    by (simp add: filter_mset_eq_conv)
  then have "filter_mset (\<lambda>t. fst t \<noteq> entry_no e) (mset (expiryTimers st)) = mset (open_entries ?st)"
    using inv open' by (simp add: ap_inv_def)
  then have exp: "mset (expiryTimers ?st) = mset (open_entries ?st)" by (simp add: settle_entry_def)
  have cl: "mset (cleanupTimers ?st) = mset (closed_entries ?st)"
    using inv closed' by (simp add: ap_inv_def settle_entry_def)
  have dist: "distinct (map (entry_no \<circ> snd) (pending ?st))"
    using inv map_update_same [OF e, of entry_no ?e] by (simp add: ap_inv_def settle_entry_def)
  have fresh: "entry_no e \<notin> fst ` set (answers st)"
    using open_entry [OF e o] inv_numbers(1) [OF inv] by force
  then have notc: "entry_no e \<notin> set (consumed st)" using inv by (force simp: ap_inv_def)
  have ok: "entry_ok ?st f" if "map_of (pending ?st) j = Some f" for j f
  proof (cases "j = i")
    case True
    then show ?thesis using that r notc by (auto simp: settle_entry_def entry_ok_def store_law)
  next
    case False
    then have "entry_ok st f" using that inv by (simp add: settle_entry_def ap_inv_def store_law)
    then show ?thesis by (auto simp: entry_ok_def settle_entry_def split: option.splits)
  qed
  show ?thesis unfolding ap_inv_def
  proof (intro conjI)
    show "map_ok (pending ?st)" using inv by (simp add: ap_inv_def settle_entry_def map_ok_update)
    show "\<forall>j f. map_of (pending ?st) j = Some f \<longrightarrow> entry_ok ?st f" using ok by blast
    show "distinct (consumed ?st)" "\<forall>no \<in> set (consumed ?st). (no, Some AllowOnce) \<in> set (answers ?st)"
      using inv by (auto simp: ap_inv_def settle_entry_def)
  qed (use nums exp cl dist in auto)
qed

lemma resolve_inv: "ap_inv st \<Longrightarrow> ap_inv (snd (resolve_approval now i d who st))"
proof (cases "\<exists>e. map_of (pending st) i = Some e \<and> resolvedAtMs (entry_record e) = None")
  case True
  assume inv: "ap_inv st"
  obtain e where e: "map_of (pending st) i = Some e" "resolvedAtMs (entry_record e) = None" using True by blast
  have "snd (resolve_approval now i d who st) = settle_entry i e
      ((entry_record e)\<lparr>resolvedAtMs := Some now, decision := Some d, resolvedBy := who\<rparr>) (Some d) st"
    using e by (simp add: resolve_approval_def settle_entry_def)
  then show ?thesis using answer_inv [OF inv e] by simp
qed (auto simp: resolve_approval_def split: option.splits)

lemma expire_inv: "ap_inv st \<Longrightarrow> ap_inv (snd (expire_approval now i who st))"
proof (cases "\<exists>e. map_of (pending st) i = Some e \<and> resolvedAtMs (entry_record e) = None")
  case True
  assume inv: "ap_inv st"
  obtain e where e: "map_of (pending st) i = Some e" "resolvedAtMs (entry_record e) = None" using True by blast
  have "snd (expire_approval now i who st) = settle_entry i e
      ((entry_record e)\<lparr>resolvedAtMs := Some now, decision := None, resolvedBy := who\<rparr>) None st"
    using e by (simp add: expire_approval_def settle_entry_def)
  then show ?thesis using answer_inv [OF inv e] by simp
qed (auto simp: expire_approval_def split: option.splits)

lemma timer_of_open: "ap_inv st \<Longrightarrow> (no, i) \<in> set (expiryTimers st) \<longleftrightarrow> (no, i) \<in> set (open_entries st)"
  by (metis ap_inv_def set_mset_mset)

lemma timer_of_closed: "ap_inv st \<Longrightarrow> (no, i) \<in> set (cleanupTimers st) \<longleftrightarrow> (no, i) \<in> set (closed_entries st)"
  by (metis ap_inv_def set_mset_mset)

text \<open>An armed expiry timer expires its own entry; clearing it again changes nothing.\<close>

lemma expiryTimer_eq:
  assumes inv: "ap_inv st"
  shows "expiryTimer now no st =
    (case map_of (expiryTimers st) no of None \<Rightarrow> st | Some i \<Rightarrow> snd (expire_approval now i None st))"
proof (cases "map_of (expiryTimers st) no")
  case (Some i)
  have "(no, i) \<in> set (open_entries st)" using map_of_in_set [OF Some] timer_of_open [OF inv] by blast
  moreover have "map_ok (pending st)" using inv by (simp add: ap_inv_def)
  ultimately obtain e where e: "map_of (pending st) i = Some e" "entry_no e = no" "resolvedAtMs (entry_record e) = None"
    using open_entryD by blast
  then show ?thesis using Some by (simp add: expiryTimer_def expire_approval_def)
qed (simp add: expiryTimer_def)

lemma expiryTimer_inv: "ap_inv st \<Longrightarrow> ap_inv (expiryTimer now no st)"
  by (simp add: expiryTimer_eq expire_inv split: option.splits)

lemma entry_ok_cong: "answers st' = answers st \<Longrightarrow> consumed st' = consumed st \<Longrightarrow> entry_ok st' e = entry_ok st e"
  by (simp add: entry_ok_def split: option.split)

lemma distinct_closed: "ap_inv st \<Longrightarrow> distinct (map fst (closed_entries st))"
proof -
  assume inv: "ap_inv st"
  have "distinct (map fst (concat (map closed_of ps)))" if "distinct (map (entry_no \<circ> snd) ps)" for ps :: "(string \<times> 'a pending_entry) list"
    using that
  proof (induction ps)
    case (Cons p ps)
    have "fst ` set (concat (map closed_of ps)) \<subseteq> (entry_no \<circ> snd) ` set ps" by (force simp: closed_of_def)
    then show ?case using Cons by (auto simp: closed_of_def)
  qed simp
  then show ?thesis using inv by (simp add: closed_entries_def ap_inv_def)
qed

lemma filter_one_out:
  assumes "distinct (map fst (ts :: (nat \<times> 'b) list))" and "mset ts = add_mset (no, i) M"
  shows "mset (filter (\<lambda>t. fst t \<noteq> no) ts) = M"
proof -
  have "mset (map fst ts) = add_mset no (image_mset fst M)" using arg_cong [OF assms(2), of "image_mset fst"] by simp
  moreover obtain ys where ys: "mset ys = M" by (metis ex_mset)
  ultimately have "distinct (no # map fst ys)" using assms(1) by (metis mset.simps(2) mset_eq_imp_distinct_iff mset_map)
  then have "\<forall>t \<in> set ys. fst t \<noteq> no" by force
  then have "filter_mset (\<lambda>t. fst t \<noteq> no) M = M" using ys by (auto simp: filter_mset_eq_conv)
  then show ?thesis using assms(2) by simp
qed

lemma cleanupTimer_eq:
  assumes inv: "ap_inv st" and t: "map_of (cleanupTimers st) no = Some i"
  shows "\<exists>e. map_of (pending st) i = Some e \<and> entry_no e = no \<and> resolvedAtMs (entry_record e) \<noteq> None \<and>
    cleanupTimer no st = st\<lparr>cleanupTimers := filter (\<lambda>t. fst t \<noteq> no) (cleanupTimers st),
      pending := AList.delete i (pending st)\<rparr>"
proof -
  have "(no, i) \<in> set (closed_entries st)" using map_of_in_set [OF t] timer_of_closed [OF inv] by blast
  moreover have "map_ok (pending st)" using inv by (simp add: ap_inv_def)
  ultimately obtain e where "map_of (pending st) i = Some e" "entry_no e = no" "resolvedAtMs (entry_record e) \<noteq> None"
    using closed_entryD by blast
  then show ?thesis using t by (simp add: cleanupTimer_def Let_def)
qed

lemma cleanupTimer_inv:
  assumes inv: "ap_inv st"
  shows "ap_inv (cleanupTimer no st)"
proof (cases "map_of (cleanupTimers st) no")
  case None
  then show ?thesis using inv by (simp add: cleanupTimer_def)
next
  case (Some i)
  from cleanupTimer_eq [OF inv Some] obtain e where e: "map_of (pending st) i = Some e" "entry_no e = no"
    "resolvedAtMs (entry_record e) \<noteq> None"
    and eq: "cleanupTimer no st = st\<lparr>cleanupTimers := filter (\<lambda>t. fst t \<noteq> no) (cleanupTimers st),
      pending := AList.delete i (pending st)\<rparr>" (is "_ = ?st") by blast
  have mok: "map_ok (pending st)" using inv by (simp add: ap_inv_def)
  have o: "mset (open_entries ?st) = mset (open_entries st)"
    using mset_concat_delete [OF mok e(1), of open_of] e(3) by (simp add: open_entries_def open_of_def)
  have c: "mset (closed_entries st) = add_mset (no, i) (mset (closed_entries ?st))"
    using mset_concat_delete [OF mok e(1), of closed_of] e(2,3) by (simp add: closed_entries_def closed_of_def)
  have dist: "distinct (map fst (cleanupTimers st))"
    using inv distinct_closed [OF inv] by (metis ap_inv_def mset_eq_imp_distinct_iff mset_map)
  have cl: "mset (cleanupTimers ?st) = mset (closed_entries ?st)"
    using filter_one_out [OF dist] c inv by (simp add: ap_inv_def)
  have fo: "mset (map fst (open_entries ?st)) = mset (map fst (open_entries st))" using o by (metis mset_map)
  have ok: "entry_ok ?st f" if "map_of (pending ?st) j = Some f" for j f
  proof -
    have "map_of (pending st) j = Some f" using that by (cases "j = i") (simp_all add: store_law)
    then have "entry_ok st f" using inv by (simp add: ap_inv_def)
    then show ?thesis by (simp add: entry_ok_cong [of ?st st])
  qed
  have d: "distinct (map (entry_no \<circ> snd) (pending ?st))"
    using inv by (simp add: ap_inv_def AList.delete_eq distinct_map_filter)
  show ?thesis unfolding eq ap_inv_def
    using inv o cl fo ok d mok by (simp add: ap_inv_def map_ok_delete del: mset_map)
qed

lemma register_inv:
  assumes inv: "ap_inv st" and r: "resolvedAtMs r = None" "decision r = None"
  shows "ap_inv (snd (register r st))"
proof (cases "map_of (pending st) (ar_id r)")
  case (Some e)
  then show ?thesis using inv by (simp add: register_def)
next
  case None
  let ?no = "nextEntry st" and ?e = "\<lparr>entry_no = nextEntry st, entry_record = r\<rparr>"
  let ?st = "st\<lparr>nextEntry := Suc ?no, expiryTimers := expiryTimers st @ [(?no, ar_id r)],
                 pending := AList.update (ar_id r) ?e (pending st)\<rparr>"
  have eq: "snd (register r st) = ?st" using None by (simp add: register_def Let_def)
  have p: "pending ?st = pending st @ [(ar_id r, ?e)]" using None by (simp add: update_absent)
  have o: "open_entries ?st = open_entries st @ [(?no, ar_id r)]" and c: "closed_entries ?st = closed_entries st"
    using r unfolding open_entries_def closed_entries_def p by (simp_all add: open_of_def closed_of_def)
  have below: "entry_no e < ?no" if "(j, e) \<in> set (pending st)" for j e
  proof -
    have e: "map_of (pending st) j = Some e" using that inv by (simp add: ap_inv_def map_ok_map_of)
    show ?thesis
    proof (cases "resolvedAtMs (entry_record e)")
      case None
      then show ?thesis using inv_numbers(2) [OF inv, of "entry_no e"] open_entry [OF e] by force
    next
      case (Some t)
      have "entry_ok st e" using inv e by (simp add: ap_inv_def)
      then obtain a where "(entry_no e, a) \<in> set (answers st)" using Some by (auto simp: entry_ok_def)
      then show ?thesis using inv_numbers(2) [OF inv, of "entry_no e"] by force
    qed
  qed
  have d: "distinct (map (entry_no \<circ> snd) (pending ?st))"
    unfolding p using inv below by (fastforce simp: ap_inv_def)
  have ok: "entry_ok ?st f" if "map_of (pending ?st) j = Some f" for j f
  proof (cases "j = ar_id r")
    case True
    then show ?thesis using that r by (auto simp: store_law entry_ok_def)
  next
    case False
    then have "entry_ok st f" using that inv by (simp add: store_law ap_inv_def)
    then show ?thesis by (simp add: entry_ok_cong [of ?st st])
  qed
  have "mset (map fst (open_entries ?st)) + mset (map fst (answers ?st)) = mset [0..<nextEntry ?st]"
    using inv by (simp add: o ap_inv_def)
  then show ?thesis unfolding eq ap_inv_def
    using inv o c d ok by (simp add: ap_inv_def map_ok_update)
qed

lemma consume_inv:
  assumes inv: "ap_inv st"
  shows "ap_inv (snd (consumeAllowOnce i st))"
proof (cases "\<exists>e. map_of (pending st) i = Some e \<and> decision (entry_record e) = Some AllowOnce")
  case False
  then show ?thesis using inv by (auto simp: consumeAllowOnce_def split: option.splits)
next
  case True
  then obtain e where e: "map_of (pending st) i = Some e" "decision (entry_record e) = Some AllowOnce" by blast
  let ?e = "e\<lparr>entry_record := (entry_record e)\<lparr>consumedDecision := decision (entry_record e), decision := None\<rparr>\<rparr>"
  let ?st = "st\<lparr>pending := AList.update i ?e (pending st), consumed := consumed st @ [entry_no e]\<rparr>"
  have eq: "snd (consumeAllowOnce i st) = ?st" using e by (simp add: consumeAllowOnce_def)
  have eok: "entry_ok st e" using inv e by (simp add: ap_inv_def)
  then obtain t a where t: "resolvedAtMs (entry_record e) = Some t" "(entry_no e, a) \<in> set (answers st)"
    "a = Some AllowOnce" "entry_no e \<notin> set (consumed st)"
    using e(2) by (auto simp: entry_ok_def split: option.splits if_splits)
  have o: "mset (open_entries ?st) = mset (open_entries st)"
    using mset_concat_update [OF e(1), of open_of ?e] t(1) by (simp add: open_entries_def open_of_def)
  have c: "mset (closed_entries ?st) = mset (closed_entries st)"
    using mset_concat_update [OF e(1), of closed_of ?e] t(1) by (simp add: closed_entries_def closed_of_def)
  have fo: "mset (map fst (open_entries ?st)) = mset (map fst (open_entries st))" using o by (metis mset_map)
  have d: "distinct (map (entry_no \<circ> snd) (pending ?st))"
    using inv map_update_same [OF e(1), of entry_no ?e] by (simp add: ap_inv_def)
  have ok: "entry_ok ?st f" if "map_of (pending ?st) j = Some f" for j f
  proof (cases "j = i")
    case True
    then show ?thesis using that t by (auto simp: entry_ok_def store_law)
  next
    case False
    then have f: "map_of (pending st) j = Some f" using that by (simp add: store_law)
    then have "entry_no f \<noteq> entry_no e" using same_number [OF inv f e(1)] False by blast
    moreover have "entry_ok st f" using f inv by (simp add: ap_inv_def)
    ultimately show ?thesis by (auto simp: entry_ok_def split: option.splits)
  qed
  have cons: "distinct (consumed ?st)" "\<forall>no \<in> set (consumed ?st). (no, Some AllowOnce) \<in> set (answers ?st)"
    using inv t by (auto simp: ap_inv_def)
  show ?thesis unfolding eq ap_inv_def
    using inv o c fo d ok cons by (simp add: ap_inv_def map_ok_update del: mset_map)
qed

lemma approval_step_inv: "ap_inv st \<Longrightarrow> ap_inv (approval_step c st)"
proof (cases c)
  case (Register now uuid req timeoutMs i conn device client)
  assume "ap_inv st"
  then show ?thesis unfolding Register approval_step.simps
    by (rule register_inv) (simp_all add: create_record_def Let_def)
qed (simp_all add: resolve_inv expire_inv expiryTimer_inv cleanupTimer_inv consume_inv)

lemma approval_step_answers: "set (answers st) \<subseteq> set (answers (approval_step c st))"
  by (cases c)
    (auto simp: register_def resolve_approval_def expire_approval_def expiryTimer_def cleanupTimer_def
      consumeAllowOnce_def Let_def split: option.splits)

interpretation ap: growing_system noApprovals approval_step ap_inv "\<lambda>st. set (answers st)"
proof unfold_locales
  show "ap_inv noApprovals" by (simp add: ap_inv_def noApprovals_def open_entries_def closed_entries_def)
qed (simp_all add: approval_step_inv approval_step_answers)

subsection \<open>Properties\<close>

text \<open>Every approval requested is open or answered exactly once, whatever sequence of calls and timers
  follows: the promise of an entry is resolved at most once, no entry is lost before it is answered,
  and an answer is never changed afterwards.\<close>

theorem approvals_answered_once:
  "mset (map fst (open_entries (fold approval_step cs noApprovals))) + mset (map fst (answers (fold approval_step cs noApprovals))) =
     mset [0..<nextEntry (fold approval_step cs noApprovals)] \<and>
   distinct (map fst (open_entries (fold approval_step cs noApprovals)) @ map fst (answers (fold approval_step cs noApprovals))) \<and>
   set (answers (fold approval_step cs noApprovals)) \<subseteq> set (answers (fold approval_step cs' (fold approval_step cs noApprovals)))"
  using ap.inv_reach [of cs] inv_numbers(1) [OF ap.inv_reach, of cs] ap.log_run [OF ap.inv_reach, of cs cs']
  by (simp add: ap_inv_def)

text \<open>C29: A one-time approval is consumed at most once: over any sequence of calls no entry is consumed
  twice, every consumed entry had been answered allow-once, and a record whose approval was consumed
  shows no decision any more, so it cannot be replayed while it is kept for late readers.\<close>
theorem allow_once_consumed_once:
  "distinct (consumed (fold approval_step cs noApprovals)) \<and>
   list_all (\<lambda>no. (no, Some AllowOnce) \<in> set (answers (fold approval_step cs noApprovals)))
     (consumed (fold approval_step cs noApprovals)) \<and>
   list_all (\<lambda>(i, e). decision (entry_record e) = None)
     (filter (\<lambda>(i, e). entry_no e \<in> set (consumed (fold approval_step cs noApprovals)))
       (pending (fold approval_step cs noApprovals)))"
proof -
  let ?st = "fold approval_step cs noApprovals"
  have inv: "ap_inv ?st" by (rule ap.inv_reach)
  have "decision (entry_record e) = None" if "(i, e) \<in> set (pending ?st)" "entry_no e \<in> set (consumed ?st)" for i e
  proof -
    have "map_of (pending ?st) i = Some e" using inv that(1) by (simp add: ap_inv_def map_ok_map_of)
    then have "entry_ok ?st e" using inv by (simp add: ap_inv_def)
    then show ?thesis using that(2) by (auto simp: entry_ok_def split: option.splits)
  qed
  then show ?thesis using inv by (auto simp: ap_inv_def list_all_iff)
qed

text \<open>No approval waits forever: an open entry always has its expiry timer armed; when the timer
  fires, the requester's promise is resolved with no decision and a cleanup timer is armed; when that
  fires, the id is free again.\<close>

theorem open_approval_expires:
  assumes "st = fold approval_step cs noApprovals"
    and "map_of (pending st) i = Some e" and "resolvedAtMs (entry_record e) = None"
  shows "map_of (expiryTimers st) (entry_no e) = Some i \<and>
    answers (expiryTimer now (entry_no e) st) = answers st @ [(entry_no e, None)] \<and>
    map_of (cleanupTimers (expiryTimer now (entry_no e) st)) (entry_no e) = Some i \<and>
    map_of (pending (cleanupTimer (entry_no e) (expiryTimer now (entry_no e) st))) i = None"
proof -
  have inv: "ap_inv st" unfolding assms(1) by (rule ap.inv_reach)
  have mem: "(entry_no e, i) \<in> set (expiryTimers st)" using open_entry [OF assms(2,3)] timer_of_open [OF inv] by blast
  have "distinct (map fst (expiryTimers st))"
    using inv_numbers(1) [OF inv] inv by (metis ap_inv_def distinct_append mset_eq_imp_distinct_iff mset_map)
  then have t: "map_of (expiryTimers st) (entry_no e) = Some i" using mem by simp
  let ?s1 = "expiryTimer now (entry_no e) st"
  have s1: "?s1 = snd (expire_approval now i None st)" by (simp add: expiryTimer_eq [OF inv] t)
  have a: "answers ?s1 = answers st @ [(entry_no e, None)]" and c: "(entry_no e, i) \<in> set (cleanupTimers ?s1)"
    using assms(2,3) by (simp_all add: s1 expire_approval_def)
  have inv1: "ap_inv ?s1" by (rule expiryTimer_inv [OF inv])
  have "distinct (map fst (cleanupTimers ?s1))"
    using distinct_closed [OF inv1] inv1 by (metis ap_inv_def mset_eq_imp_distinct_iff mset_map)
  then have ct: "map_of (cleanupTimers ?s1) (entry_no e) = Some i" using c by simp
  obtain f where "cleanupTimer (entry_no e) ?s1 = ?s1\<lparr>cleanupTimers := filter (\<lambda>t. fst t \<noteq> entry_no e) (cleanupTimers ?s1),
      pending := AList.delete i (pending ?s1)\<rparr>"
    using cleanupTimer_eq [OF inv1 ct] by blast
  then have "map_of (pending (cleanupTimer (entry_no e) ?s1)) i = None" by (simp add: store_law)
  then show ?thesis using t a ct by simp
qed

text \<open>The ids a lookup may show, and those whose start is what was typed.\<close>

definition entry_shown :: "bool \<Rightarrow> 'p approvals \<Rightarrow> string \<Rightarrow> bool" where
  "entry_shown shown st i \<longleftrightarrow>
     (case map_of (pending st) i of None \<Rightarrow> False | Some e \<Rightarrow> shown \<or> resolvedAtMs (entry_record e) = None)"

definition lookup_candidates :: "string \<Rightarrow> bool \<Rightarrow> 'p approvals \<Rightarrow> string set" where
  "lookup_candidates input shown st = {i. entry_shown shown st i \<and>
     starts_with (normalizeLowercaseStringOrEmpty (Some (js_trim input))) (normalizeLowercaseStringOrEmpty (Some i))}"

text \<open>Looking an approval up by what an operator typed never picks the wrong one: an exact id wins if it
  may be shown, a prefix is accepted only when exactly one shown id starts with it, case ignored, and
  otherwise all the candidates are listed, or there are none.\<close>

theorem lookup_unambiguous:
  "case lookupApprovalId input shown (fold approval_step cs noApprovals) of
     Exact i \<Rightarrow> i = js_trim input \<and> entry_shown shown (fold approval_step cs noApprovals) i
   | UniquePrefix i \<Rightarrow> lookup_candidates input shown (fold approval_step cs noApprovals) = {i} \<and>
       map_of (pending (fold approval_step cs noApprovals)) (js_trim input) = None
   | Ambiguous ids \<Rightarrow> set ids = lookup_candidates input shown (fold approval_step cs noApprovals) \<and> distinct ids \<and> 2 \<le> length ids
   | NoMatch \<Rightarrow> js_trim input = [] \<or> lookup_candidates input shown (fold approval_step cs noApprovals) = {} \<or>
       (\<exists>e. map_of (pending (fold approval_step cs noApprovals)) (js_trim input) = Some e) \<and>
       entry_shown shown (fold approval_step cs noApprovals) (js_trim input) = False"
proof -
  let ?st = "fold approval_step cs noApprovals"
  let ?p = "\<lambda>(i, e). (shown \<or> resolvedAtMs (entry_record e) = None) \<and>
      starts_with (normalizeLowercaseStringOrEmpty (Some (js_trim input))) (normalizeLowercaseStringOrEmpty (Some i))"
  let ?ids = "map fst (filter ?p (pending ?st))"
  have mok: "map_ok (pending ?st)" using ap.inv_reach [of cs] by (simp add: ap_inv_def)
  have "(\<exists>e. (i, e) \<in> set (pending ?st) \<and> ?p (i, e)) \<longleftrightarrow> i \<in> lookup_candidates input shown ?st" for i
  proof -
    have "(i, e) \<in> set (pending ?st) \<longleftrightarrow> map_of (pending ?st) i = Some e" for e
      using mok map_ok_map_of map_of_in_set by metis
    then show ?thesis by (simp add: lookup_candidates_def entry_shown_def split: option.split)
  qed
  then have ids: "set ?ids = lookup_candidates input shown ?st" by (force simp: image_iff)
  have dist: "distinct ?ids" using map_ok_filter [OF mok] by (simp add: map_ok_def)
  show ?thesis
  proof (cases "js_trim input = []")
    case True
    then show ?thesis by (simp add: lookupApprovalId_def)
  next
    case False
    show ?thesis
    proof (cases "map_of (pending ?st) (js_trim input)")
      case (Some e)
      then show ?thesis using False by (auto simp: lookupApprovalId_def entry_shown_def)
    next
      case None
      then have eq: "lookupApprovalId input shown ?st = (case ?ids of [] \<Rightarrow> NoMatch | [i] \<Rightarrow> UniquePrefix i | _ \<Rightarrow> Ambiguous ?ids)"
        using False by (simp add: lookupApprovalId_def Let_def)
      consider "?ids = []" | i where "?ids = [i]" | i j ks where "?ids = i # j # ks"
        by (metis list.exhaust)
      then show ?thesis
      proof cases
        case 1
        then show ?thesis using ids eq by simp
      next
        case 2
        then show ?thesis using ids None eq by simp
      next
        case 3
        then have "lookupApprovalId input shown ?st = Ambiguous ?ids" using eq by simp
        moreover have "2 \<le> length ?ids" using 3 by (metis Suc_le_mono le0 length_Cons numeral_2_eq_2)
        ultimately show ?thesis using ids dist by simp
      qed
    qed
  qed
qed

subsection \<open>Witnesses\<close>

definition demo_approvals :: "unit approvals" where
  "demo_approvals = fold approval_step [Register 5 ''u1'' () 100 None None None None] noApprovals"

theorem open_approval_expires_witness:
  "answers (expiryTimer 105 0 demo_approvals) = [(0, None)]"
proof -
  let ?e = "\<lparr>entry_no = 0, entry_record = \<lparr>ar_id = ''u1'', ar_request = (), createdAtMs = 5, expiresAtMs = 105,
    requestedByConnId = None, requestedByDeviceId = None, requestedByClientId = None, resolvedAtMs = None, decision = None,
    consumedDecision = None, resolvedBy = None\<rparr>\<rparr>"
  have "map_of (pending demo_approvals) ''u1'' = Some ?e" and a: "answers demo_approvals = []"
    by (simp_all add: demo_approvals_def noApprovals_def create_record_def register_def Let_def)
  from open_approval_expires [OF demo_approvals_def this(1), of 105] a show ?thesis by simp
qed

end
