(* ===== verification/DedupeCache.thy ===== *)
theory DedupeCache
  imports JsPrelude
begin

text \<open>
  The cache that recognises repeated messages, \<^verbatim>\<open>packages/core/src/infra/dedupe.ts\<close>, with the size
  limit of \<^verbatim>\<open>packages/core/src/infra/map-size.ts\<close>. The cache is an insertion-ordered map from keys to
  the time they were last checked; an absent or empty key is \<open>None\<close> or the empty string. The limit
  and the time to live are integers, as the callers give them.
\<close>

type_synonym dedupe_map = "(string, int) js_map"

record dedupe_options =
  ttlMs :: int
  maxSize :: int

function pruneMapToMaxSize :: "int \<Rightarrow> ('k, 'v) js_map \<Rightarrow> ('k, 'v) js_map" where
  "pruneMapToMaxSize limit m =
     (if limit \<le> 0 then []
      else if int (length m) \<le> limit then m
      else case m of [] \<Rightarrow> m | (k, v) # rest \<Rightarrow> pruneMapToMaxSize limit (AList.delete k m))"
  by pat_completeness auto
termination
proof (relation "measure (\<lambda>(limit, m). length m)", goal_cases)
  case (2 limit m kv rest k v)
  then show ?case using length_delete_le [of k rest] by (cases kv) (auto simp: le_imp_less_Suc)
qed simp

declare pruneMapToMaxSize.simps [simp del]

definition touch :: "string \<Rightarrow> int \<Rightarrow> dedupe_map \<Rightarrow> dedupe_map" where
  "touch k now m = AList.update k now (AList.delete k m)"

definition prune_cache :: "dedupe_options \<Rightarrow> int \<Rightarrow> dedupe_map \<Rightarrow> dedupe_map" where
  "prune_cache opts now m =
     (let ttl = max 0 (ttlMs opts);
          m1 = (if 0 < ttl then filter (\<lambda>(k, ts). \<not> ts < now - ttl) m else m)
      in if max 0 (maxSize opts) \<le> 0 then [] else pruneMapToMaxSize (max 0 (maxSize opts)) m1)"

definition hasUnexpired :: "dedupe_options \<Rightarrow> string \<Rightarrow> int \<Rightarrow> bool \<Rightarrow> dedupe_map \<Rightarrow> bool \<times> dedupe_map" where
  "hasUnexpired opts k now touchOnRead m =
     (case map_of m k of
        None \<Rightarrow> (False, m)
      | Some existing \<Rightarrow>
          if 0 < max 0 (ttlMs opts) \<and> max 0 (ttlMs opts) \<le> now - existing then (False, AList.delete k m)
          else (True, if touchOnRead then touch k now m else m))"

definition dedupe_check :: "dedupe_options \<Rightarrow> string option \<Rightarrow> int \<Rightarrow> dedupe_map \<Rightarrow> bool \<times> dedupe_map" where
  "dedupe_check opts key now m =
     (if \<not> truthy_string key then (False, m)
      else (let k = the key; (seen, m1) = hasUnexpired opts k now True m
            in if seen then (True, m1) else (False, prune_cache opts now (touch k now m1))))"

definition dedupe_peek :: "dedupe_options \<Rightarrow> string option \<Rightarrow> int \<Rightarrow> dedupe_map \<Rightarrow> bool \<times> dedupe_map" where
  "dedupe_peek opts key now m =
     (if \<not> truthy_string key then (False, m) else hasUnexpired opts (the key) now False m)"

definition dedupe_delete :: "string option \<Rightarrow> dedupe_map \<Rightarrow> dedupe_map" where
  "dedupe_delete key m = (if \<not> truthy_string key then m else AList.delete (the key) m)"

definition dedupe_clear :: "dedupe_map \<Rightarrow> dedupe_map" where
  "dedupe_clear m = []"

definition dedupe_size :: "dedupe_map \<Rightarrow> nat" where
  "dedupe_size m = length m"

datatype dedupe_call = Check "string option" int | Peek "string option" int | Delete "string option" | Clear

fun dedupe_step :: "dedupe_options \<Rightarrow> dedupe_call \<Rightarrow> dedupe_map \<Rightarrow> dedupe_map" where
  "dedupe_step opts (Check key now) m = snd (dedupe_check opts key now m)"
| "dedupe_step opts (Peek key now) m = snd (dedupe_peek opts key now m)"
| "dedupe_step opts (Delete key) m = dedupe_delete key m"
| "dedupe_step opts Clear m = dedupe_clear m"

subsection \<open>The size limit\<close>

lemma touch_eq: "touch k now m = AList.delete k m @ [(k, now)]"
  by (simp add: touch_def update_absent delete_conv')

lemma delete_head: "map_ok ((k, v) # m) \<Longrightarrow> AList.delete k ((k, v) # m) = m"
  by (simp add: map_ok_def)

text \<open>Pruning keeps the newest entries.\<close>

lemma pruneMapToMaxSize_drop: "map_ok m \<Longrightarrow> 0 < limit \<Longrightarrow> pruneMapToMaxSize limit m = drop (length m - nat limit) m"
proof (induction m)
  case Nil
  then show ?case by (simp add: pruneMapToMaxSize.simps)
next
  case (Cons a m)
  obtain k v where a: "a = (k, v)" by fastforce
  have "map_ok m" using Cons.prems(1) by (simp add: map_ok_def)
  show ?case
  proof (cases "int (length (a # m)) \<le> limit")
    case True
    then show ?thesis using Cons.prems(2) by (subst pruneMapToMaxSize.simps) simp
  next
    case False
    then have "length (a # m) - nat limit = Suc (length m - nat limit)" by auto
    then show ?thesis using Cons.IH [OF \<open>map_ok m\<close> Cons.prems(2)] False Cons.prems delete_head [of k v m]
      by (subst pruneMapToMaxSize.simps) (simp add: a)
  qed
qed

definition unexpired_entries :: "dedupe_options \<Rightarrow> int \<Rightarrow> dedupe_map \<Rightarrow> dedupe_map" where
  "unexpired_entries opts now m = (if 0 < ttlMs opts then filter (\<lambda>(k, ts). \<not> ts < now - ttlMs opts) m else m)"

lemma unexpired_ok: "map_ok m \<Longrightarrow> map_ok (unexpired_entries opts now m)"
  by (simp add: unexpired_entries_def map_ok_filter)

lemma prune_cache_eq:
  "map_ok m \<Longrightarrow> prune_cache opts now m = (if maxSize opts \<le> 0 then []
     else drop (length (unexpired_entries opts now m) - nat (maxSize opts)) (unexpired_entries opts now m))"
  using pruneMapToMaxSize_drop [OF unexpired_ok, of m "maxSize opts" opts now]
  by (auto simp: prune_cache_def unexpired_entries_def Let_def max_def split: if_splits)

lemma map_ok_drop: "map_ok m \<Longrightarrow> map_ok (drop n m)"
  by (simp add: map_ok_def flip: drop_map)

lemma prune_ok: "map_ok m \<Longrightarrow> map_ok (prune_cache opts now m)"
  by (simp add: prune_cache_eq map_ok_drop unexpired_ok)

lemma prune_subset: "map_ok m \<Longrightarrow> set (prune_cache opts now m) \<subseteq> set m"
  by (auto simp: prune_cache_eq unexpired_entries_def split: if_splits dest!: in_set_dropD)

lemma prune_size: "map_ok m \<Longrightarrow> int (length (prune_cache opts now m)) \<le> max 0 (maxSize opts)"
  by (auto simp: prune_cache_eq)

lemma touch_ok: "map_ok m \<Longrightarrow> map_ok (touch k now m)"
  by (simp add: touch_def map_ok_update map_ok_delete)

lemma touch_length: "map_of m k \<noteq> None \<Longrightarrow> map_ok m \<Longrightarrow> length (touch k now m) = length m"
proof (induction m)
  case (Cons a m)
  obtain k' v where a: "a = (k', v)" by fastforce
  have "map_ok m" using Cons.prems by (simp add: map_ok_def)
  show ?case
  proof (cases "k' = k")
    case True
    then have "AList.delete k m = m" using Cons.prems(2) by (simp add: map_ok_def a)
    then show ?thesis using True by (simp add: touch_eq a)
  next
    case False
    then show ?thesis using Cons.IH \<open>map_ok m\<close> Cons.prems(1) by (simp add: touch_eq a)
  qed
qed simp

text \<open>The invariant: distinct keys, the size limit, and every entry noted by a check.\<close>

definition dedupe_inv :: "dedupe_options \<Rightarrow> (string \<times> int) set \<Rightarrow> dedupe_map \<Rightarrow> bool" where
  "dedupe_inv opts checks m \<longleftrightarrow> map_ok m \<and> int (length m) \<le> max 0 (maxSize opts) \<and> set m \<subseteq> checks"

fun checks_of :: "dedupe_call \<Rightarrow> (string \<times> int) set" where
  "checks_of (Check (Some k) now) = {(k, now)}"
| "checks_of _ = {}"

lemma delete_subset: "set (AList.delete k m) \<subseteq> set m"
  by (simp add: AList.delete_eq)

lemma delete_inv: "dedupe_inv opts C m \<Longrightarrow> dedupe_inv opts C (AList.delete k m)"
  using delete_subset [of k m] length_delete_le [of k m] by (auto simp: dedupe_inv_def map_ok_delete)

lemma hasUnexpired_inv:
  "dedupe_inv opts C m \<Longrightarrow> dedupe_inv opts (insert (k, now) C) (snd (hasUnexpired opts k now b m))"
  using delete_inv [of opts C m k] touch_length [of m k now] touch_ok [of m k now] delete_subset [of k m]
  by (auto simp: hasUnexpired_def dedupe_inv_def touch_eq split: option.splits)

lemma peek_inv: "dedupe_inv opts C m \<Longrightarrow> dedupe_inv opts C (snd (hasUnexpired opts k now False m))"
  using delete_inv [of opts C m k] by (auto simp: hasUnexpired_def split: option.splits)

lemma check_inv: "dedupe_inv opts C m \<Longrightarrow> dedupe_inv opts (insert (k, now) C) (snd (dedupe_check opts (Some k) now m))"
proof -
  assume inv: "dedupe_inv opts C m"
  obtain seen m1 where h: "hasUnexpired opts k now True m = (seen, m1)" by fastforce
  have i1: "dedupe_inv opts (insert (k, now) C) m1" using hasUnexpired_inv [OF inv, of k now True] h by simp
  have t: "map_ok (touch k now m1)" using i1 by (simp add: dedupe_inv_def touch_ok)
  have "set (touch k now m1) \<subseteq> insert (k, now) C" using i1 delete_subset [of k m1] by (auto simp: dedupe_inv_def touch_eq)
  then have "dedupe_inv opts (insert (k, now) C) (prune_cache opts now (touch k now m1))"
    unfolding dedupe_inv_def using prune_ok [OF t] prune_size [OF t] prune_subset [OF t] by blast
  moreover have "dedupe_inv opts (insert (k, now) C) m" using inv by (auto simp: dedupe_inv_def)
  ultimately show ?thesis using i1 h by (auto simp: dedupe_check_def)
qed

lemma dedupe_step_inv: "dedupe_inv opts C m \<Longrightarrow> dedupe_inv opts (checks_of c \<union> C) (dedupe_step opts c m)"
proof (cases c)
  case (Check key now)
  assume inv: "dedupe_inv opts C m"
  show ?thesis
  proof (cases key)
    case None
    then show ?thesis using inv Check by (simp add: dedupe_check_def)
  next
    case (Some k)
    then show ?thesis using check_inv [OF inv, of k now] Check by simp
  qed
next
  case (Peek key now)
  assume "dedupe_inv opts C m"
  then show ?thesis using Peek peek_inv by (simp add: dedupe_peek_def)
next
  case (Delete key)
  assume "dedupe_inv opts C m"
  then show ?thesis using Delete delete_inv by (simp add: dedupe_delete_def)
qed (simp_all add: dedupe_clear_def dedupe_inv_def)

lemma dedupe_run_inv:
  "dedupe_inv opts C m \<Longrightarrow> dedupe_inv opts (\<Union> (checks_of ` set cs) \<union> C) (fold (dedupe_step opts) cs m)"
proof (induction cs arbitrary: C m)
  case (Cons c cs)
  from Cons.IH [OF dedupe_step_inv [OF Cons.prems]] show ?case by (simp add: ac_simps)
qed simp

subsection \<open>An entry stays while few others are added\<close>

text \<open>\<open>k\<close> was last checked at \<open>t\<close> and at most \<open>n\<close> entries are newer.\<close>

definition holds_entry :: "string \<Rightarrow> int \<Rightarrow> nat \<Rightarrow> dedupe_map \<Rightarrow> bool" where
  "holds_entry k t n m \<longleftrightarrow> map_ok m \<and> (\<exists>a b. m = a @ (k, t) # b \<and> length b \<le> n)"

lemma holds_lookup: "holds_entry k t n m \<Longrightarrow> map_of m k = Some t"
  by (auto simp: holds_entry_def intro!: map_ok_map_of)

lemma holds_touch_same: "map_ok m \<Longrightarrow> holds_entry k t 0 (touch k t m)"
  unfolding holds_entry_def by (intro conjI touch_ok exI [of _ "AList.delete k m"] exI [of _ "[]"]) (simp_all add: touch_eq)

lemma holds_delete: "holds_entry k t n m \<Longrightarrow> k' \<noteq> k \<Longrightarrow> holds_entry k t n (AList.delete k' m)"
proof -
  assume h: "holds_entry k t n m" "k' \<noteq> k"
  then obtain a b where m: "map_ok m" "m = a @ (k, t) # b" "length b \<le> n" by (auto simp: holds_entry_def)
  have "AList.delete k' m = AList.delete k' a @ (k, t) # AList.delete k' b" using h(2) by (simp add: m(2) AList.delete_eq)
  moreover have "length (AList.delete k' b) \<le> n" using m(3) length_delete_le [of k' b] by simp
  ultimately show ?thesis using m(1) unfolding holds_entry_def by (metis map_ok_delete)
qed

lemma holds_touch: "holds_entry k t n m \<Longrightarrow> k' \<noteq> k \<Longrightarrow> holds_entry k t (Suc n) (touch k' now m)"
proof -
  assume h: "holds_entry k t n m" "k' \<noteq> k"
  then obtain a b where m: "map_ok (AList.delete k' m)" "AList.delete k' m = a @ (k, t) # b" "length b \<le> n"
    using holds_delete [OF h] by (auto simp: holds_entry_def)
  have "map_ok (touch k' now m)" using h(1) by (simp add: holds_entry_def touch_ok)
  then show ?thesis unfolding holds_entry_def touch_eq m(2) using m(3)
    by (intro conjI exI [of _ a] exI [of _ "b @ [(k', now)]"]) simp_all
qed

lemma holds_prune:
  assumes "holds_entry k t n m" and "int n < maxSize opts" and "ttlMs opts \<le> 0 \<or> now - t \<le> ttlMs opts"
  shows "holds_entry k t n (prune_cache opts now m)"
proof -
  obtain a b where m: "map_ok m" "m = a @ (k, t) # b" "length b \<le> n" using assms(1) by (auto simp: holds_entry_def)
  obtain a' b' where u: "unexpired_entries opts now m = a' @ (k, t) # b'" "length b' \<le> n"
  proof (cases "0 < ttlMs opts")
    case True
    let ?P = "\<lambda>(k, ts). \<not> ts < now - ttlMs opts"
    have "length (filter ?P b) \<le> n" using m(3) length_filter_le [of ?P b] by linarith
    then show ?thesis using that [of "filter ?P a" "filter ?P b"] True assms(3) by (simp add: unexpired_entries_def m(2))
  next
    case False
    then show ?thesis using that [of a b] m by (simp add: unexpired_entries_def)
  qed
  have "prune_cache opts now m = drop (length (a' @ (k, t) # b') - nat (maxSize opts)) a' @ (k, t) # b'"
    using assms(2) u by (auto simp: prune_cache_eq [OF m(1)])
  then show ?thesis using u(2) prune_ok [OF m(1)] unfolding holds_entry_def by blast
qed

text \<open>The calls that leave the entry of \<open>k\<close> alone: checks and peeks of other keys before it expires.\<close>

fun leaves_alone :: "dedupe_options \<Rightarrow> string \<Rightarrow> int \<Rightarrow> dedupe_call \<Rightarrow> bool" where
  "leaves_alone opts k t (Check key now) \<longleftrightarrow> key \<noteq> Some k \<and> (ttlMs opts \<le> 0 \<or> now - t \<le> ttlMs opts)"
| "leaves_alone opts k t (Peek key now) \<longleftrightarrow> key \<noteq> Some k"
| "leaves_alone opts k t (Delete key) \<longleftrightarrow> key \<noteq> Some k"
| "leaves_alone opts k t Clear \<longleftrightarrow> False"

fun is_check :: "dedupe_call \<Rightarrow> bool" where
  "is_check (Check key now) \<longleftrightarrow> True"
| "is_check _ \<longleftrightarrow> False"

lemma holds_mono: "holds_entry k t n m \<Longrightarrow> n \<le> n' \<Longrightarrow> holds_entry k t n' m"
  unfolding holds_entry_def by (metis order_trans)

lemma holds_hasUnexpired:
  "holds_entry k t n m \<Longrightarrow> k' \<noteq> k \<Longrightarrow> holds_entry k t (if b then Suc n else n) (snd (hasUnexpired opts k' now b m))"
  using holds_delete [of k t n m k'] holds_touch [of k t n m k' now] holds_mono [of k t n _ "Suc n"]
  by (auto simp: hasUnexpired_def split: option.splits)

lemma holds_step:
  assumes h: "holds_entry k t n m" and l: "leaves_alone opts k t c" and "int n + (if is_check c then 1 else 0) < maxSize opts"
  shows "holds_entry k t (n + (if is_check c then 1 else 0)) (dedupe_step opts c m)"
proof (cases c)
  case (Check key now)
  show ?thesis
  proof (cases "truthy_string key")
    case False
    then show ?thesis using h Check by (simp add: dedupe_check_def holds_mono)
  next
    case True
    then obtain k' where k': "key = Some k'" by (cases key) auto
    then have ne: "k' \<noteq> k" using l Check by simp
    obtain seen m1 where u: "hasUnexpired opts k' now True m = (seen, m1)" by fastforce
    have h1: "holds_entry k t (Suc n) m1" using holds_hasUnexpired [OF h ne, of True opts now] u by simp
    show ?thesis
    proof (cases seen)
      case True
      then show ?thesis using h1 u k' \<open>truthy_string key\<close> Check by (simp add: dedupe_check_def)
    next
      case False
      then have "m1 = m \<or> m1 = AList.delete k' m"
        using u by (auto simp: hasUnexpired_def split: option.splits if_splits)
      then have "holds_entry k t n m1" using h holds_delete [OF h ne] by auto
      then have "holds_entry k t (Suc n) (prune_cache opts now (touch k' now m1))"
        using holds_prune [OF holds_touch [OF _ ne]] assms(3) l Check by simp
      then show ?thesis using False u k' \<open>truthy_string key\<close> Check by (simp add: dedupe_check_def)
    qed
  qed
next
  case (Peek key now)
  show ?thesis
  proof (cases key)
    case None
    then show ?thesis using h Peek by (simp add: dedupe_peek_def)
  next
    case (Some k')
    then show ?thesis using holds_hasUnexpired [OF h, of k' False opts now] h l Peek by (simp add: dedupe_peek_def)
  qed
next
  case (Delete key)
  then show ?thesis using holds_delete [OF h, of "the key"] h l by (cases key) (simp_all add: dedupe_delete_def)
qed (use l in simp)

lemma holds_run:
  "holds_entry k t n m \<Longrightarrow> \<forall>c \<in> set cs. leaves_alone opts k t c \<Longrightarrow>
   int n + int (length (filter is_check cs)) < maxSize opts \<Longrightarrow>
   holds_entry k t (n + length (filter is_check cs)) (fold (dedupe_step opts) cs m)"
proof (induction cs arbitrary: n m)
  case (Cons c cs)
  have "holds_entry k t (n + (if is_check c then 1 else 0)) (dedupe_step opts c m)"
    by (rule holds_step) (use Cons.prems in auto)
  from Cons.IH [OF this] Cons.prems show ?case by (cases "is_check c") auto
qed simp

lemma holds_after_check:
  assumes "map_ok m" and "k \<noteq> []" and "0 < maxSize opts"
  shows "holds_entry k t 0 (snd (dedupe_check opts (Some k) t m))"
proof -
  obtain seen m1 where u: "hasUnexpired opts k t True m = (seen, m1)" by fastforce
  show ?thesis
  proof (cases seen)
    case True
    then have "m1 = touch k t m" using u by (auto simp: hasUnexpired_def split: option.splits if_splits)
    then show ?thesis using True u assms holds_touch_same by (simp add: dedupe_check_def)
  next
    case False
    then have "map_ok m1" using u assms(1) by (auto simp: hasUnexpired_def map_ok_delete split: option.splits if_splits)
    then have "holds_entry k t 0 (prune_cache opts t (touch k t m1))"
      by (intro holds_prune holds_touch_same) (use assms(3) in auto)
    then show ?thesis using False u assms(2) by (simp add: dedupe_check_def)
  qed
qed

lemma unexpired_time:
  assumes "fst (hasUnexpired opts k now b m)"
  obtains t where "map_of m k = Some t" "ttlMs opts \<le> 0 \<or> now - t < ttlMs opts"
proof (cases "map_of m k")
  case None
  then show thesis using assms by (simp add: hasUnexpired_def)
next
  case (Some t)
  have "\<not> (0 < max 0 (ttlMs opts) \<and> max 0 (ttlMs opts) \<le> now - t)"
  proof
    assume "0 < max 0 (ttlMs opts) \<and> max 0 (ttlMs opts) \<le> now - t"
    then have "hasUnexpired opts k now b m = (False, AList.delete k m)"
      unfolding hasUnexpired_def Some option.case by (rule if_P)
    then show False using assms by simp
  qed
  then have "ttlMs opts \<le> 0 \<or> now - t < ttlMs opts" by linarith
  then show thesis using that Some by blast
qed

subsection \<open>Properties\<close>

text \<open>The cache never exceeds its size limit, and it never takes a new message for a repeated one: if a
  check says that a key was seen, that very key was checked before, and within the time to live when
  there is one.\<close>

theorem dedupe_sound:
  assumes "m = fold (dedupe_step opts) cs []"
  shows "int (dedupe_size m) \<le> max 0 (maxSize opts) \<and>
    (fst (dedupe_check opts (Some k) now m) \<longrightarrow>
      (\<exists>t. Check (Some k) t \<in> set cs \<and> (ttlMs opts \<le> 0 \<or> now - t < ttlMs opts)))"
proof -
  have "dedupe_inv opts (\<Union> (checks_of ` set cs) \<union> {}) m" unfolding assms
    by (rule dedupe_run_inv) (simp add: dedupe_inv_def)
  then have inv: "int (length m) \<le> max 0 (maxSize opts)" "set m \<subseteq> \<Union> (checks_of ` set cs)" by (simp_all add: dedupe_inv_def)
  have "\<exists>t. Check (Some k) t \<in> set cs \<and> (ttlMs opts \<le> 0 \<or> now - t < ttlMs opts)"
    if "fst (dedupe_check opts (Some k) now m)"
  proof -
    have "fst (hasUnexpired opts k now True m)" using that
      by (auto simp: dedupe_check_def split: prod.splits if_splits)
    then obtain t where t: "map_of m k = Some t" "ttlMs opts \<le> 0 \<or> now - t < ttlMs opts" by (rule unexpired_time)
    then obtain c where "c \<in> set cs" "(k, t) \<in> checks_of c" using inv(2) map_of_in_set [OF t(1)] by blast
    moreover from this have "c = Check (Some k) t" by (cases c rule: checks_of.cases) auto
    ultimately show ?thesis using t(2) by auto
  qed
  then show ?thesis using inv(1) by (simp add: dedupe_size_def)
qed

text \<open>A repeated message is recognised: once a key was checked, checking it again before the time to live
  is over says it was seen, as long as fewer other checks than the size limit came in between and the
  key was not deleted.\<close>

theorem repeat_recognised:
  assumes "m = fold (dedupe_step opts) cs []" and "k \<noteq> []"
    and "\<forall>c \<in> set cs'. leaves_alone opts k t c" and "int (length (filter is_check cs')) < maxSize opts"
    and "ttlMs opts \<le> 0 \<or> now - t < ttlMs opts"
  shows "fst (dedupe_check opts (Some k) now (fold (dedupe_step opts) cs' (snd (dedupe_check opts (Some k) t m))))"
proof -
  have "dedupe_inv opts (\<Union> (checks_of ` set cs) \<union> {}) m" unfolding assms(1)
    by (rule dedupe_run_inv) (simp add: dedupe_inv_def)
  then have "map_ok m" by (simp add: dedupe_inv_def)
  moreover have "0 < maxSize opts" using assms(4) by linarith
  ultimately have "holds_entry k t 0 (snd (dedupe_check opts (Some k) t m))" using holds_after_check assms(2) by blast
  from holds_run [OF this assms(3)] assms(4)
  have "map_of (fold (dedupe_step opts) cs' (snd (dedupe_check opts (Some k) t m))) k = Some t"
    by (auto dest: holds_lookup)
  then show ?thesis using assms(2,5) by (auto simp: dedupe_check_def hasUnexpired_def split: prod.splits)
qed

subsection \<open>Witnesses\<close>

theorem dedupe_sound_witness:
  "dedupe_size (fold (dedupe_step \<lparr>ttlMs = 60, maxSize = 2\<rparr>)
     [Check (Some ''a'') 1, Check (Some ''b'') 2, Check (Some ''c'') 3] []) \<le> 2"
  using dedupe_sound [OF refl, of "\<lparr>ttlMs = 60, maxSize = 2\<rparr>"
      "[Check (Some ''a'') 1, Check (Some ''b'') 2, Check (Some ''c'') 3]" "''c''" 4] by simp

theorem repeat_recognised_witness:
  "fst (dedupe_check \<lparr>ttlMs = 60, maxSize = 2\<rparr> (Some ''a'') 30
     (fold (dedupe_step \<lparr>ttlMs = 60, maxSize = 2\<rparr>) [Check (Some ''b'') 5]
       (snd (dedupe_check \<lparr>ttlMs = 60, maxSize = 2\<rparr> (Some ''a'') 1 []))))"
  using repeat_recognised [of "[]" "\<lparr>ttlMs = 60, maxSize = 2\<rparr>" "[]" "''a''" "[Check (Some ''b'') 5]" 1 30] by simp

end
