(* ===== verification/AuthCredentials.thy ===== *)
theory AuthCredentials
  imports StringCoerce JsJson Complex_Main
begin

text \<open>
  Provider ids, secret references and stored credentials:
  \<^verbatim>\<open>packages/core/src/agents/provider-id.ts\<close>, \<^verbatim>\<open>config/types.secrets.ts\<close>,
  \<^verbatim>\<open>agents/auth-profiles/types.ts\<close> and \<^verbatim>\<open>agents/auth-profiles/credential-state.ts\<close>.

  Times and durations are rationals, since the configuration allows fractions of hours. A record read
  by key is an association list in the order \<^verbatim>\<open>Object.entries\<close> lists it. The alias map of
  \<^verbatim>\<open>provider-auth-aliases.ts\<close> comes from the plugin registry and is an argument.
\<close>

subsection \<open>Provider ids\<close>

definition normalizeProviderId :: "string \<Rightarrow> string" where
  "normalizeProviderId provider =
     (let normalized = normalizeLowercaseStringOrEmpty (Some provider)
      in if normalized = ''modelstudio'' \<or> normalized = ''qwencloud'' then ''qwen''
         else if normalized = ''z.ai'' \<or> normalized = ''z-ai'' then ''zai''
         else if normalized = ''opencode-zen'' then ''opencode''
         else if normalized = ''opencode-go-auth'' then ''opencode-go''
         else if normalized = ''kimi'' \<or> normalized = ''kimi-code'' \<or> normalized = ''kimi-coding'' then ''kimi''
         else if normalized = ''bedrock'' \<or> normalized = ''aws-bedrock'' then ''amazon-bedrock''
         else if normalized = ''bytedance'' \<or> normalized = ''doubao'' then ''volcengine''
         else normalized)"

definition normalizeProviderIdForAuth :: "string \<Rightarrow> string" where
  "normalizeProviderIdForAuth provider = normalizeProviderId provider"

definition findNormalizedProviderValue :: "(string, 'v) js_map option \<Rightarrow> string \<Rightarrow> 'v option" where
  "findNormalizedProviderValue entries provider =
     (case entries of
        None \<Rightarrow> None
      | Some m \<Rightarrow> map_option snd (List.find (\<lambda>(key, v). normalizeProviderId key = normalizeProviderId provider) m))"

definition findNormalizedProviderKey :: "(string, 'v) js_map option \<Rightarrow> string \<Rightarrow> string option" where
  "findNormalizedProviderKey entries provider =
     (case entries of
        None \<Rightarrow> None
      | Some m \<Rightarrow> List.find (\<lambda>key. normalizeProviderId key = normalizeProviderId provider) (map fst m))"

definition resolveProviderIdForAuth :: "(string \<Rightarrow> string option) \<Rightarrow> string \<Rightarrow> string" where
  "resolveProviderIdForAuth aliases provider =
     (let normalized = normalizeProviderId provider
      in if normalized = [] then normalized else coalesce (aliases normalized) normalized)"

subsection \<open>Secret references\<close>

datatype secret_source = EnvSource | FileSource | ExecSource

record secret_ref =
  sr_source :: secret_source
  sr_provider :: string
  sr_id :: string

record secret_defaults =
  default_env :: "string option"
  default_file :: "string option"
  default_exec :: "string option"

definition DEFAULT_SECRET_PROVIDER_ALIAS :: string where
  "DEFAULT_SECRET_PROVIDER_ALIAS = ''default''"

definition LEGACY_SECRETREF_ENV_MARKER_PREFIX :: string where
  "LEGACY_SECRETREF_ENV_MARKER_PREFIX = ''secretref-env:''"

definition is_upper :: "char \<Rightarrow> bool" where
  "is_upper c \<longleftrightarrow> 65 \<le> (of_char c :: nat) \<and> (of_char c :: nat) \<le> 90"

definition isValidEnvSecretRefId :: "string \<Rightarrow> bool" where
  "isValidEnvSecretRefId s =
     (case s of [] \<Rightarrow> False
      | c # cs \<Rightarrow> is_upper c \<and> length cs \<le> 127 \<and> list_all (\<lambda>d. is_upper d \<or> is_digit d \<or> d = CHR ''_'') cs)"

definition secret_source_of :: "jsval \<Rightarrow> secret_source option" where
  "secret_source_of v =
     (case v of JStr s \<Rightarrow>
        if s = ''env'' then Some EnvSource
        else if s = ''file'' then Some FileSource
        else if s = ''exec'' then Some ExecSource
        else None
      | _ \<Rightarrow> None)"

text \<open>A member that is a string with something besides blanks.\<close>

definition filled_string :: "jsval \<Rightarrow> string option" where
  "filled_string v = (case v of JStr s \<Rightarrow> if js_trim s \<noteq> [] then Some s else None | _ \<Rightarrow> None)"

definition isSecretRef :: "jsval \<Rightarrow> secret_ref option" where
  "isSecretRef v =
     (case v of
        JObj fs \<Rightarrow>
          if length fs \<noteq> 3 then None
          else (case (secret_source_of (field ''source'' fs), filled_string (field ''provider'' fs), filled_string (field ''id'' fs)) of
                  (Some src, Some p, Some i) \<Rightarrow> Some \<lparr>sr_source = src, sr_provider = p, sr_id = i\<rparr>
                | _ \<Rightarrow> None)
      | _ \<Rightarrow> None)"

definition isLegacySecretRefWithoutProvider :: "jsval \<Rightarrow> (secret_source \<times> string) option" where
  "isLegacySecretRefWithoutProvider v =
     (case v of
        JObj fs \<Rightarrow>
          (case (secret_source_of (field ''source'' fs), filled_string (field ''id'' fs)) of
             (Some src, Some i) \<Rightarrow> if field ''provider'' fs = JUndefined then Some (src, i) else None
           | _ \<Rightarrow> None)
      | _ \<Rightarrow> None)"

text \<open>\<^verbatim>\<open>/^\$\{([A-Z][A-Z0-9_]{0,127})\}$/\<close> on the trimmed value.\<close>

definition parseEnvTemplateSecretRef :: "jsval \<Rightarrow> string option \<Rightarrow> secret_ref option" where
  "parseEnvTemplateSecretRef v provider =
     (case v of
        JStr s \<Rightarrow>
          (let t = js_trim s;
               i = butlast (drop 2 t);
               p = js_trim (coalesce provider DEFAULT_SECRET_PROVIDER_ALIAS)
           in if starts_with ''${'' t \<and> ends_with ''}'' t \<and> 3 \<le> length t \<and> isValidEnvSecretRefId i
              then Some \<lparr>sr_source = EnvSource, sr_provider = (if p \<noteq> [] then p else DEFAULT_SECRET_PROVIDER_ALIAS), sr_id = i\<rparr>
              else None)
      | _ \<Rightarrow> None)"

definition parseLegacySecretRefEnvMarker :: "jsval \<Rightarrow> string option \<Rightarrow> secret_ref option" where
  "parseLegacySecretRefEnvMarker v provider =
     (case v of
        JStr s \<Rightarrow>
          (let trimmed = js_trim s;
               i = drop (length LEGACY_SECRETREF_ENV_MARKER_PREFIX) trimmed;
               p = js_trim (coalesce provider DEFAULT_SECRET_PROVIDER_ALIAS)
           in if \<not> starts_with LEGACY_SECRETREF_ENV_MARKER_PREFIX trimmed then None
              else if \<not> isValidEnvSecretRefId i then None
              else Some \<lparr>sr_source = EnvSource, sr_provider = (if p \<noteq> [] then p else DEFAULT_SECRET_PROVIDER_ALIAS), sr_id = i\<rparr>)
      | _ \<Rightarrow> None)"

definition coerceSecretRef :: "jsval \<Rightarrow> secret_defaults option \<Rightarrow> secret_ref option" where
  "coerceSecretRef v defaults =
     (case isSecretRef v of
        Some r \<Rightarrow> Some r
      | None \<Rightarrow>
          (case isLegacySecretRefWithoutProvider v of
             Some (src, i) \<Rightarrow>
               Some \<lparr>sr_source = src,
                 sr_provider =
                   coalesce (Option.bind defaults
                     (case src of EnvSource \<Rightarrow> default_env | FileSource \<Rightarrow> default_file | ExecSource \<Rightarrow> default_exec))
                     DEFAULT_SECRET_PROVIDER_ALIAS,
                 sr_id = i\<rparr>
           | None \<Rightarrow> parseEnvTemplateSecretRef v (Option.bind defaults default_env)))"

definition normalizeSecretInputString :: "jsval \<Rightarrow> string option" where
  "normalizeSecretInputString v =
     (case v of JStr s \<Rightarrow> (let trimmed = js_trim s in if trimmed \<noteq> [] then Some trimmed else None) | _ \<Rightarrow> None)"

definition hasConfiguredSecretInput :: "jsval \<Rightarrow> secret_defaults option \<Rightarrow> bool" where
  "hasConfiguredSecretInput v defaults \<longleftrightarrow>
     normalizeSecretInputString v \<noteq> None \<or> coerceSecretRef v defaults \<noteq> None"

subsection \<open>Stored credentials\<close>

text \<open>The types of the store; \<^verbatim>\<open>expires\<close> may hold anything in a stored file.\<close>

datatype expires_value = NoExpiry | NotANumber | NotFinite | ExpiresAt rat

record api_key_credential =
  ak_provider :: string
  ak_key :: jsval
  ak_keyRef :: jsval
  ak_copyToAgents :: "bool option"
  ak_email :: "string option"
  ak_displayName :: "string option"
  ak_metadata :: "(string \<times> string) list option"

record token_credential =
  tk_provider :: string
  tk_token :: jsval
  tk_tokenRef :: jsval
  tk_copyToAgents :: "bool option"
  tk_expires :: expires_value
  tk_email :: "string option"
  tk_displayName :: "string option"

record oauth_credential =
  oa_provider :: string
  oa_access :: jsval
  oa_refresh :: jsval
  oa_expires :: expires_value
  oa_accountId :: "string option"
  oa_clientId :: "string option"
  oa_copyToAgents :: "bool option"
  oa_email :: "string option"
  oa_displayName :: "string option"

datatype credential =
    ApiKey api_key_credential
  | Token token_credential
  | OAuth oauth_credential

fun cred_provider :: "credential \<Rightarrow> string" where
  "cred_provider (ApiKey c) = ak_provider c"
| "cred_provider (Token c) = tk_provider c"
| "cred_provider (OAuth c) = oa_provider c"

datatype credential_type = ApiKeyMode | OAuthMode | TokenMode

fun cred_type :: "credential \<Rightarrow> credential_type" where
  "cred_type (ApiKey c) = ApiKeyMode"
| "cred_type (Token c) = TokenMode"
| "cred_type (OAuth c) = OAuthMode"

datatype credential_reason = ReasonOk | MissingCredential | InvalidExpires | Expired | UnresolvedRef

datatype expiry_state = ExpiryMissing | ExpiryValid | ExpiryExpiring | ExpiryExpired | ExpiryInvalid

definition DEFAULT_OAUTH_REFRESH_MARGIN_MS :: rat where
  "DEFAULT_OAUTH_REFRESH_MARGIN_MS = 5 * 60 * 1000"

definition resolveTokenExpiryState :: "expires_value \<Rightarrow> rat \<Rightarrow> rat option \<Rightarrow> expiry_state" where
  "resolveTokenExpiryState e now expiringWithin =
     (case e of
        NoExpiry \<Rightarrow> ExpiryMissing
      | NotANumber \<Rightarrow> ExpiryInvalid
      | NotFinite \<Rightarrow> ExpiryInvalid
      | ExpiresAt x \<Rightarrow>
          if x \<le> 0 then ExpiryInvalid
          else (let remainingMs = x - now; expiringWithinMs = max 0 (coalesce expiringWithin 0)
                in if remainingMs \<le> 0 then ExpiryExpired
                   else if expiringWithinMs > 0 \<and> remainingMs \<le> expiringWithinMs then ExpiryExpiring
                   else ExpiryValid))"

definition hasUsableOAuthCredential :: "credential option \<Rightarrow> rat \<Rightarrow> rat option \<Rightarrow> bool" where
  "hasUsableOAuthCredential c now refreshMargin =
     (case c of
        Some (OAuth oc) \<Rightarrow>
          (case oa_access oc of
             JStr a \<Rightarrow>
               js_trim a \<noteq> [] \<and>
               resolveTokenExpiryState (oa_expires oc) now
                 (Some (max 0 (coalesce refreshMargin DEFAULT_OAUTH_REFRESH_MARGIN_MS))) = ExpiryValid
           | _ \<Rightarrow> False)
      | _ \<Rightarrow> False)"

definition hasConfiguredSecretRef :: "jsval \<Rightarrow> bool" where
  "hasConfiguredSecretRef v \<longleftrightarrow> coerceSecretRef v None \<noteq> None"

definition hasConfiguredSecretString :: "jsval \<Rightarrow> bool" where
  "hasConfiguredSecretString v \<longleftrightarrow> normalizeSecretInputString v \<noteq> None"

fun evaluateStoredCredentialEligibility :: "credential \<Rightarrow> rat \<Rightarrow> bool \<times> credential_reason" where
  "evaluateStoredCredentialEligibility (ApiKey c) now =
     (if \<not> hasConfiguredSecretString (ak_key c) \<and> \<not> hasConfiguredSecretRef (ak_keyRef c) then (False, MissingCredential)
      else (True, ReasonOk))"
| "evaluateStoredCredentialEligibility (Token c) now =
     (if \<not> hasConfiguredSecretString (tk_token c) \<and> \<not> hasConfiguredSecretRef (tk_tokenRef c) then (False, MissingCredential)
      else (let expiryState = resolveTokenExpiryState (tk_expires c) now None
            in if expiryState = ExpiryInvalid then (False, InvalidExpires)
               else if expiryState = ExpiryExpired then (False, Expired)
               else (True, ReasonOk)))"
| "evaluateStoredCredentialEligibility (OAuth c) now =
     (if normalizeSecretInputString (oa_access c) = None \<and> normalizeSecretInputString (oa_refresh c) = None
      then (False, MissingCredential)
      else (True, ReasonOk))"

subsection \<open>Facts\<close>

text \<open>Only the time of a token's expiry can take eligibility away from an unchanged credential.\<close>

lemma eligibility_antitone:
  "fst (evaluateStoredCredentialEligibility c t) \<Longrightarrow> s \<le> t \<Longrightarrow> fst (evaluateStoredCredentialEligibility c s)"
  by (cases c) (auto simp: resolveTokenExpiryState_def Let_def split: if_splits expires_value.splits)

lemma eligible_reason: "fst (evaluateStoredCredentialEligibility c t) \<longleftrightarrow> snd (evaluateStoredCredentialEligibility c t) = ReasonOk"
  by (cases c) (auto simp: Let_def)

text \<open>A usable access token is eligible, and stays so for the refresh margin.\<close>

lemma usable_oauth_eligible:
  "hasUsableOAuthCredential (Some c) now m \<Longrightarrow> fst (evaluateStoredCredentialEligibility c t)"
  by (cases c) (auto simp: hasUsableOAuthCredential_def normalizeSecretInputString_def Let_def split: jsval.splits)

end
