(* ===== verification/AuthUsage.thy ===== *)
theory AuthUsage
  imports AuthCredentials
begin

text \<open>
  Cooldowns of authentication profiles: \<^verbatim>\<open>packages/core/src/agents/auth-profiles/usage-state.ts\<close>
  and \<^verbatim>\<open>usage.ts\<close>. A profile that failed is unavailable until \<^verbatim>\<open>cooldownUntil\<close>, and after billing and
  permanent authentication failures until \<^verbatim>\<open>disabledUntil\<close>.

  The clock is an argument of every operation. The store read under the file lock is an argument of
  the operations that mark a profile, \<open>None\<close> when taking the lock, loading or saving failed. The
  answer of the usage service and the header policy are arguments of the probe.
\<close>

subsection \<open>State\<close>

datatype failure_reason =
    Auth | AuthPermanent | Format | Overloaded | RateLimit | Billing | Timeout | ModelNotFound
  | SessionExpired | EmptyResponse | NoErrorDetails | Unclassified | Unknown

record usage_stats =
  lastUsed :: "rat option"
  cooldownUntil :: "rat option"
  cooldownReason :: "failure_reason option"
  cooldownModel :: "string option"
  disabledUntil :: "rat option"
  disabledReason :: "failure_reason option"
  errorCount :: "int option"
  failureCounts :: "(failure_reason, int) js_map option"
  lastFailureAt :: "rat option"

definition noStats :: usage_stats where
  "noStats = \<lparr>lastUsed = None, cooldownUntil = None, cooldownReason = None, cooldownModel = None,
     disabledUntil = None, disabledReason = None, errorCount = None, failureCounts = None, lastFailureAt = None\<rparr>"

record auth_store =
  storeVersion :: int
  profiles :: "(string, credential) js_map"
  profileOrder :: "(string, string list) js_map option"
  lastGood :: "(string, string) js_map option"
  usageStats :: "(string, usage_stats) js_map option"

definition statsOf :: "auth_store \<Rightarrow> string \<Rightarrow> usage_stats option" where
  "statsOf st profileId = Option.bind (usageStats st) (\<lambda>m. map_of m profileId)"

definition providerOf :: "auth_store \<Rightarrow> string \<Rightarrow> string option" where
  "providerOf st profileId = map_option cred_provider (map_of (profiles st) profileId)"

subsection \<open>Availability (usage-state.ts)\<close>

definition isAuthCooldownBypassedForProvider :: "string option \<Rightarrow> bool" where
  "isAuthCooldownBypassedForProvider provider =
     (let normalized = normalizeProviderId (coalesce provider [])
      in normalized = ''openrouter'' \<or> normalized = ''kilocode'')"

definition resolveProfileUnusableUntil :: "usage_stats \<Rightarrow> rat option" where
  "resolveProfileUnusableUntil s =
     (let vs = filter (\<lambda>v. v > 0) (List.map_filter id [cooldownUntil s, disabledUntil s])
      in if vs = [] then None else Some (Max (set vs)))"

definition isActiveUnusableWindow :: "rat option \<Rightarrow> rat \<Rightarrow> bool" where
  "isActiveUnusableWindow until now = (case until of None \<Rightarrow> False | Some u \<Rightarrow> u > 0 \<and> now < u)"

definition shouldBypassModelScopedCooldown :: "usage_stats \<Rightarrow> rat \<Rightarrow> string option \<Rightarrow> bool" where
  "shouldBypassModelScopedCooldown s now forModel \<longleftrightarrow>
     truthy_string forModel \<and> cooldownReason s = Some RateLimit \<and> truthy_string (cooldownModel s) \<and>
     cooldownModel s \<noteq> forModel \<and> \<not> isActiveUnusableWindow (disabledUntil s) now"

text \<open>The part of \<^verbatim>\<open>isProfileInCooldown\<close> that looks at the statistics.\<close>

definition statsInCooldown :: "usage_stats \<Rightarrow> rat \<Rightarrow> string option \<Rightarrow> bool" where
  "statsInCooldown s ts forModel =
     (if shouldBypassModelScopedCooldown s ts forModel then False
      else (case resolveProfileUnusableUntil s of None \<Rightarrow> False | Some unusableUntil \<Rightarrow> ts < unusableUntil))"

definition isProfileInCooldown :: "auth_store \<Rightarrow> string \<Rightarrow> rat \<Rightarrow> string option \<Rightarrow> bool" where
  "isProfileInCooldown st profileId ts forModel =
     (if isAuthCooldownBypassedForProvider (providerOf st profileId) then False
      else (case statsOf st profileId of None \<Rightarrow> False | Some s \<Rightarrow> statsInCooldown s ts forModel))"

text \<open>One turn of the loop of \<^verbatim>\<open>getSoonestCooldownExpiry\<close>; the state is the soonest end and the latest end
  of the cooldowns scoped to the requested model.\<close>

definition soonestStep :: "auth_store \<Rightarrow> rat \<Rightarrow> string option \<Rightarrow> string \<Rightarrow> rat option \<times> rat option \<Rightarrow> rat option \<times> rat option" where
  "soonestStep st ts forModel profileId acc =
     (case statsOf st profileId of
        None \<Rightarrow> acc
      | Some s \<Rightarrow>
          if shouldBypassModelScopedCooldown s ts forModel then acc
          else (case resolveProfileUnusableUntil s of
                  None \<Rightarrow> acc
                | Some until \<Rightarrow>
                    if truthy_string forModel \<and> cooldownReason s = Some RateLimit \<and> cooldownModel s = forModel \<and>
                       \<not> isActiveUnusableWindow (disabledUntil s) ts
                    then (fst acc, Some (case snd acc of None \<Rightarrow> until | Some latest \<Rightarrow> max latest until))
                    else (case fst acc of
                            None \<Rightarrow> (Some until, snd acc)
                          | Some soonest \<Rightarrow> (Some (if until < soonest then until else soonest), snd acc))))"

definition getSoonestCooldownExpiry :: "auth_store \<Rightarrow> string list \<Rightarrow> rat \<Rightarrow> string option \<Rightarrow> rat option" where
  "getSoonestCooldownExpiry st profileIds ts forModel =
     (case fold (soonestStep st ts forModel) profileIds (None, None) of
        (None, latest) \<Rightarrow> latest
      | (Some soonest, None) \<Rightarrow> Some soonest
      | (Some soonest, Some latest) \<Rightarrow> Some (min soonest latest))"

definition windowExpired :: "rat option \<Rightarrow> rat \<Rightarrow> bool" where
  "windowExpired until ts = (case until of None \<Rightarrow> False | Some u \<Rightarrow> u > 0 \<and> ts \<ge> u)"

text \<open>The body of the loop of \<^verbatim>\<open>clearExpiredCooldowns\<close>: whether the profile changed, and its statistics.\<close>

definition clearExpiredStats :: "rat \<Rightarrow> usage_stats \<Rightarrow> bool \<times> usage_stats" where
  "clearExpiredStats ts s =
     (let cooldownExpired = windowExpired (cooldownUntil s) ts;
          disabledExpired = windowExpired (disabledUntil s) ts;
          s1 = (if cooldownExpired then s\<lparr>cooldownUntil := None, cooldownReason := None, cooldownModel := None\<rparr> else s);
          s2 = (if disabledExpired then s1\<lparr>disabledUntil := None, disabledReason := None\<rparr> else s1);
          profileMutated = (cooldownExpired \<or> disabledExpired);
          s3 = (if profileMutated \<and> resolveProfileUnusableUntil s2 = None
                then s2\<lparr>errorCount := Some 0, failureCounts := None\<rparr> else s2)
      in (profileMutated, s3))"

definition clearExpiredCooldowns :: "rat \<Rightarrow> auth_store \<Rightarrow> bool \<times> auth_store" where
  "clearExpiredCooldowns ts st =
     (case usageStats st of
        None \<Rightarrow> (False, st)
      | Some m \<Rightarrow>
          (list_ex (\<lambda>(profileId, s). fst (clearExpiredStats ts s)) m,
           st\<lparr>usageStats := Some (map (\<lambda>(profileId, s). (profileId, snd (clearExpiredStats ts s))) m)\<rparr>))"

subsection \<open>The usage probe (usage.ts)\<close>

definition FAILURE_REASON_PRIORITY :: "failure_reason list" where
  "FAILURE_REASON_PRIORITY =
     [AuthPermanent, Auth, Billing, Format, ModelNotFound, Overloaded, Timeout, RateLimit,
      EmptyResponse, NoErrorDetails, Unclassified, Unknown]"

definition WHAM_USAGE_URL :: string where "WHAM_USAGE_URL = ''https://chatgpt.com/backend-api/wham/usage''"
definition WHAM_BURST_COOLDOWN_MS :: rat where "WHAM_BURST_COOLDOWN_MS = 15000"
definition WHAM_PROBE_FAILURE_COOLDOWN_MS :: rat where "WHAM_PROBE_FAILURE_COOLDOWN_MS = 30000"
definition WHAM_HTTP_ERROR_COOLDOWN_MS :: rat where "WHAM_HTTP_ERROR_COOLDOWN_MS = 5 * 60 * 1000"
definition WHAM_TOKEN_EXPIRED_COOLDOWN_MS :: rat where "WHAM_TOKEN_EXPIRED_COOLDOWN_MS = 12 * 60 * 60 * 1000"
definition WHAM_DEAD_ACCOUNT_COOLDOWN_MS :: rat where "WHAM_DEAD_ACCOUNT_COOLDOWN_MS = 24 * 60 * 60 * 1000"
definition WHAM_TEAM_ROLLING_MAX_COOLDOWN_MS :: rat where "WHAM_TEAM_ROLLING_MAX_COOLDOWN_MS = 2 * 60 * 60 * 1000"
definition WHAM_PERSONAL_MAX_COOLDOWN_MS :: rat where "WHAM_PERSONAL_MAX_COOLDOWN_MS = 4 * 60 * 60 * 1000"
definition WHAM_TEAM_WEEKLY_MAX_COOLDOWN_MS :: rat where "WHAM_TEAM_WEEKLY_MAX_COOLDOWN_MS = 4 * 60 * 60 * 1000"

record wham_window =
  limit_window_seconds :: "rat option"
  used_percent :: "rat option"
  reset_at :: "rat option"
  reset_after_seconds :: "rat option"

record wham_rate_limit =
  limit_reached :: "bool option"
  primary_window :: "wham_window option"
  secondary_window :: "wham_window option"

record wham_result =
  wham_cooldownMs :: rat
  wham_reason :: string

text \<open>The outcome of the request: it threw, or a status with the body, \<open>None\<close> when reading it throws; a
  body is its \<^verbatim>\<open>rate_limit\<close> member.\<close>

datatype wham_reply = WhamThrew | WhamReply int "wham_rate_limit option option"

definition shouldProbeWhamForFailure :: "string option \<Rightarrow> failure_reason \<Rightarrow> bool" where
  "shouldProbeWhamForFailure provider reason \<longleftrightarrow>
     normalizeProviderId (coalesce provider []) = ''openai-codex'' \<and>
     reason \<in> set [RateLimit, EmptyResponse, NoErrorDetails, Unclassified, Unknown]"

definition resolveWhamResetMs :: "wham_window option \<Rightarrow> rat \<Rightarrow> rat option" where
  "resolveWhamResetMs window now =
     (case window of
        None \<Rightarrow> None
      | Some w \<Rightarrow>
          (case reset_after_seconds w of
             Some a \<Rightarrow>
               if a > 0 then Some (a * 1000)
               else (case reset_at w of Some r \<Rightarrow> if r > 0 then Some (max 0 (r * 1000 - now)) else None | None \<Rightarrow> None)
           | None \<Rightarrow>
               (case reset_at w of Some r \<Rightarrow> if r > 0 then Some (max 0 (r * 1000 - now)) else None | None \<Rightarrow> None)))"

definition isWhamWindowExhausted :: "wham_window option \<Rightarrow> bool" where
  "isWhamWindowExhausted window =
     (case window of None \<Rightarrow> False | Some w \<Rightarrow> (case used_percent w of None \<Rightarrow> False | Some p \<Rightarrow> p \<ge> 100))"

definition applyWhamCooldownResult :: "usage_stats \<Rightarrow> usage_stats \<Rightarrow> rat \<Rightarrow> wham_result \<Rightarrow> usage_stats" where
  "applyWhamCooldownResult existing computed now whamResult =
     (let existingActiveCooldownUntil =
            (case cooldownUntil existing of Some u \<Rightarrow> if u > now then u else 0 | None \<Rightarrow> 0)
      in computed\<lparr>cooldownUntil := Some (max existingActiveCooldownUntil (now + wham_cooldownMs whamResult))\<rparr>)"

definition wham_probe_failed :: wham_result where
  "wham_probe_failed = \<lparr>wham_cooldownMs = WHAM_PROBE_FAILURE_COOLDOWN_MS, wham_reason = ''wham_probe_failed''\<rparr>"

text \<open>The verdict over a readable body.\<close>

definition whamVerdict :: "wham_rate_limit option \<Rightarrow> rat \<Rightarrow> wham_result" where
  "whamVerdict rate_limit now =
     (case rate_limit of
        None \<Rightarrow> wham_probe_failed
      | Some rl \<Rightarrow>
          if limit_reached rl = Some False
          then \<lparr>wham_cooldownMs = WHAM_BURST_COOLDOWN_MS, wham_reason = ''wham_burst_contention''\<rparr>
          else (let primaryResetMs = resolveWhamResetMs (primary_window rl) now;
                    secondaryResetMs = resolveWhamResetMs (secondary_window rl) now
                in if secondary_window rl = None then
                     (case primaryResetMs of
                        None \<Rightarrow> wham_probe_failed
                      | Some r \<Rightarrow> \<lparr>wham_cooldownMs = min (of_int \<lfloor>r / 2\<rfloor>) WHAM_PERSONAL_MAX_COOLDOWN_MS,
                                   wham_reason = ''wham_personal_rolling''\<rparr>)
                   else if isWhamWindowExhausted (secondary_window rl) then
                     (case secondaryResetMs of
                        None \<Rightarrow> wham_probe_failed
                      | Some r \<Rightarrow> \<lparr>wham_cooldownMs = min (of_int \<lfloor>r / 2\<rfloor>) WHAM_TEAM_WEEKLY_MAX_COOLDOWN_MS,
                                   wham_reason = ''wham_team_weekly''\<rparr>)
                   else if isWhamWindowExhausted (primary_window rl) then
                     (case primaryResetMs of
                        None \<Rightarrow> wham_probe_failed
                      | Some r \<Rightarrow> \<lparr>wham_cooldownMs = min (of_int \<lfloor>r / 2\<rfloor>) WHAM_TEAM_ROLLING_MAX_COOLDOWN_MS,
                                   wham_reason = ''wham_team_rolling''\<rparr>)
                   else wham_probe_failed))"

definition whamHeaders :: "string \<Rightarrow> string option \<Rightarrow> (string \<times> string) list" where
  "whamHeaders access accountId =
     [(''Authorization'', ''Bearer '' @ access), (''Accept'', ''application/json'')] @
     (if truthy_string accountId then [(''ChatGPT-Account-Id'', the accountId)] else [])"

text \<open>\<open>headersFor\<close> is the header policy of \<^verbatim>\<open>provider-request-config.ts\<close>: it may throw, or leave the
  default headers. \<open>fetch_usage\<close> answers a request with these headers.\<close>

definition probeWhamForCooldown ::
    "((string \<times> string) list \<Rightarrow> (string \<times> string) list option option) \<Rightarrow>
     ((string \<times> string) list \<Rightarrow> wham_reply) \<Rightarrow> rat \<Rightarrow> auth_store \<Rightarrow> string \<Rightarrow> wham_result option" where
  "probeWhamForCooldown headersFor fetch_usage now st profileId =
     (case map_of (profiles st) profileId of
        Some (OAuth c) \<Rightarrow>
          (case oa_access c of
             JStr access \<Rightarrow>
               if access = [] then None
               else Some (let defaultHeaders = whamHeaders access (oa_accountId c)
                          in case headersFor defaultHeaders of
                               None \<Rightarrow> wham_probe_failed
                             | Some resolved \<Rightarrow>
                                 (case fetch_usage (coalesce resolved defaultHeaders) of
                                    WhamThrew \<Rightarrow> wham_probe_failed
                                  | WhamReply status body \<Rightarrow>
                                      if \<not> (200 \<le> status \<and> status \<le> 299) then
                                        (if status = 401 then \<lparr>wham_cooldownMs = WHAM_TOKEN_EXPIRED_COOLDOWN_MS, wham_reason = ''wham_token_expired''\<rparr>
                                         else if status = 403 then \<lparr>wham_cooldownMs = WHAM_DEAD_ACCOUNT_COOLDOWN_MS, wham_reason = ''wham_account_dead''\<rparr>
                                         else \<lparr>wham_cooldownMs = WHAM_HTTP_ERROR_COOLDOWN_MS, wham_reason = ''wham_http_error''\<rparr>)
                                      else (case body of None \<Rightarrow> wham_probe_failed | Some rl \<Rightarrow> whamVerdict rl now)))
           | _ \<Rightarrow> None)
      | _ \<Rightarrow> None)"

subsection \<open>The reason profiles are unavailable\<close>

definition addScore :: "failure_reason \<Rightarrow> int \<Rightarrow> (failure_reason, int) js_map \<Rightarrow> (failure_reason, int) js_map" where
  "addScore reason v scores =
     (if reason \<notin> set FAILURE_REASON_PRIORITY \<or> v \<le> 0 then scores
      else AList.update reason (coalesce (map_of scores reason) 0 + v) scores)"

text \<open>The failure counts of a profile that is cooling down; the flag tells whether one was recorded.\<close>

definition countStep :: "failure_reason \<times> int \<Rightarrow> bool \<times> (failure_reason, int) js_map \<Rightarrow> bool \<times> (failure_reason, int) js_map" where
  "countStep entry acc =
     (if fst entry \<notin> set FAILURE_REASON_PRIORITY \<or> snd entry \<le> 0 then acc
      else (True, addScore (fst entry) (snd entry) (snd acc)))"

definition addCounts :: "(failure_reason, int) js_map \<Rightarrow> (failure_reason, int) js_map \<Rightarrow> bool \<times> (failure_reason, int) js_map" where
  "addCounts counts scores = fold countStep counts (False, scores)"

definition scoreProfile :: "auth_store \<Rightarrow> rat \<Rightarrow> string \<Rightarrow> (failure_reason, int) js_map \<Rightarrow> (failure_reason, int) js_map" where
  "scoreProfile st now profileId scores =
     (case statsOf st profileId of
        None \<Rightarrow> scores
      | Some s \<Rightarrow>
          (case (if isActiveUnusableWindow (disabledUntil s) now then disabledReason s else None) of
             Some r \<Rightarrow>
               if r \<in> set FAILURE_REASON_PRIORITY then addScore r 1000 scores
               else if \<not> isActiveUnusableWindow (cooldownUntil s) now then scores
               else (let (recordedReason, sc) = addCounts (coalesce (failureCounts s) []) scores
                     in if recordedReason then sc else addScore Unknown 1 sc)
           | None \<Rightarrow>
               if \<not> isActiveUnusableWindow (cooldownUntil s) now then scores
               else (let (recordedReason, sc) = addCounts (coalesce (failureCounts s) []) scores
                     in if recordedReason then sc else addScore Unknown 1 sc)))"

text \<open>The loop over the priorities; the state is the best reason, its score and its priority.\<close>

definition bestStep :: "(failure_reason, int) js_map \<Rightarrow> nat \<times> failure_reason \<Rightarrow> failure_reason option \<times> int \<times> nat option \<Rightarrow> failure_reason option \<times> int \<times> nat option" where
  "bestStep scores pr acc =
     (case (pr, acc) of ((priority, reason), (best, bestScore, bestPriority)) \<Rightarrow>
       (case map_of scores reason of
          None \<Rightarrow> acc
        | Some score \<Rightarrow>
            if score > bestScore \<or> score = bestScore \<and> (case bestPriority of None \<Rightarrow> True | Some b \<Rightarrow> priority < b)
            then (Some reason, score, Some priority) else acc))"

definition resolveProfilesUnavailableReason :: "auth_store \<Rightarrow> string list \<Rightarrow> rat \<Rightarrow> failure_reason option" where
  "resolveProfilesUnavailableReason st profileIds now =
     (let scores = fold (scoreProfile st now) profileIds []
      in if scores = [] then None
         else fst (fold (bestStep scores) (enumerate 0 FAILURE_REASON_PRIORITY) (None, -1, None)))"

subsection \<open>What the reason is\<close>

text \<open>The weight a profile gives to a reason: a disabled profile a thousand to the reason it was disabled
  for; one that is cooling down the failures it counted, or one to the unknown reason.\<close>

definition counted :: "(failure_reason, int) js_map \<Rightarrow> failure_reason \<Rightarrow> int" where
  "counted counts r = (\<Sum>(k, n) \<leftarrow> counts. if k = r \<and> n > 0 then n else 0)"

definition weight :: "auth_store \<Rightarrow> rat \<Rightarrow> string \<Rightarrow> failure_reason \<Rightarrow> int" where
  "weight st now profileId r =
     (case statsOf st profileId of
        None \<Rightarrow> 0
      | Some s \<Rightarrow>
          if isActiveUnusableWindow (disabledUntil s) now \<and> (\<exists>d \<in> set FAILURE_REASON_PRIORITY. disabledReason s = Some d)
          then (if disabledReason s = Some r then 1000 else 0)
          else if \<not> isActiveUnusableWindow (cooldownUntil s) now then 0
          else if \<exists>d \<in> set FAILURE_REASON_PRIORITY. 0 < counted (coalesce (failureCounts s) []) d
          then counted (coalesce (failureCounts s) []) r
          else if r = Unknown then 1 else 0)"

definition totalWeight :: "auth_store \<Rightarrow> rat \<Rightarrow> string list \<Rightarrow> failure_reason \<Rightarrow> int" where
  "totalWeight st now profileIds r = (\<Sum>q \<leftarrow> profileIds. weight st now q r)"

definition score :: "(failure_reason, int) js_map \<Rightarrow> failure_reason \<Rightarrow> int" where
  "score scores r = coalesce (map_of scores r) 0"

definition scores_ok :: "(failure_reason, int) js_map \<Rightarrow> bool" where
  "scores_ok scores \<longleftrightarrow> (\<forall>r v. map_of scores r = Some v \<longrightarrow> 0 < v \<and> r \<in> set FAILURE_REASON_PRIORITY)"

lemma all_listed: "r \<in> set FAILURE_REASON_PRIORITY \<longleftrightarrow> r \<noteq> SessionExpired"
  by (cases r) (simp_all add: FAILURE_REASON_PRIORITY_def)

lemma score_add: "score (addScore r v scores) x = score scores x + (if x = r \<and> r \<noteq> SessionExpired \<and> 0 < v then v else 0)"
  by (simp add: score_def addScore_def all_listed update_conv')

lemma scores_ok_add: "scores_ok scores \<Longrightarrow> scores_ok (addScore r v scores)"
  by (auto simp: scores_ok_def addScore_def update_conv' coalesce_def add_pos_pos split: option.split)

lemma score_nonneg: "scores_ok scores \<Longrightarrow> 0 \<le> score scores r"
  by (cases "map_of scores r") (auto simp: scores_ok_def score_def intro: less_imp_le)

lemma add_counts:
  "scores_ok (snd acc) \<Longrightarrow>
   scores_ok (snd (fold countStep counts acc)) \<and>
   (fst (fold countStep counts acc) \<longleftrightarrow> fst acc \<or> (\<exists>c \<in> set counts. fst c \<noteq> SessionExpired \<and> 0 < snd c)) \<and>
   (\<forall>r. r \<noteq> SessionExpired \<longrightarrow> score (snd (fold countStep counts acc)) r = score (snd acc) r + counted counts r)"
proof (induction counts arbitrary: acc)
  case Nil
  then show ?case by (simp add: counted_def)
next
  case (Cons c counts)
  have cc: "counted (c # counts) r = (if fst c = r \<and> 0 < snd c then snd c else 0) + counted counts r" for r
    by (simp add: counted_def case_prod_beta)
  show ?case
  proof (cases "fst c = SessionExpired \<or> snd c \<le> 0")
    case True
    then have "countStep c acc = acc" by (simp add: countStep_def all_listed)
    then show ?thesis using Cons.IH [OF Cons.prems] True by (auto simp: cc)
  next
    case False
    then have s: "countStep c acc = (True, addScore (fst c) (snd c) (snd acc))" by (simp add: countStep_def all_listed)
    have "scores_ok (snd (countStep c acc))" using Cons.prems by (simp add: s scores_ok_add)
    from Cons.IH [OF this] show ?thesis using False by (simp add: cc s score_add)
  qed
qed

lemma counted_positive: "0 < counted counts r \<longleftrightarrow> (\<exists>c \<in> set counts. fst c = r \<and> 0 < snd c)"
proof (induction counts)
  case (Cons c counts)
  have "0 \<le> counted counts r" unfolding counted_def by (rule sum_list_nonneg) auto
  with Cons show ?case by (auto simp: counted_def case_prod_beta)
qed (simp add: counted_def)

lemma counted_zero: "\<not> 0 < counted counts r \<Longrightarrow> counted counts r = 0"
proof -
  have "0 \<le> counted counts r" unfolding counted_def by (rule sum_list_nonneg) auto
  then show "\<not> 0 < counted counts r \<Longrightarrow> counted counts r = 0" by simp
qed

text \<open>The profile's part when only the cooldown counts.\<close>

lemma score_counts:
  fixes counts :: "(failure_reason, int) js_map"
  assumes "scores_ok sc"
  defines "a \<equiv> addCounts counts sc"
  defines "res \<equiv> (if fst a then snd a else addScore Unknown 1 (snd a))"
  shows "scores_ok res" "r \<noteq> SessionExpired \<Longrightarrow> score res r = score sc r +
      (if \<exists>d \<in> set FAILURE_REASON_PRIORITY. 0 < counted counts d then counted counts r else if r = Unknown then 1 else 0)"
proof -
  have ac: "scores_ok (snd a)" "fst a \<longleftrightarrow> (\<exists>c \<in> set counts. fst c \<noteq> SessionExpired \<and> 0 < snd c)"
    "\<And>r. r \<noteq> SessionExpired \<Longrightarrow> score (snd a) r = score sc r + counted counts r"
    using add_counts [of "(False, sc)" counts] assms(1) by (simp_all add: a_def addCounts_def)
  have b: "fst a \<longleftrightarrow> (\<exists>d \<in> set FAILURE_REASON_PRIORITY. 0 < counted counts d)"
    unfolding ac(2) Bex_def counted_positive all_listed by blast
  show "scores_ok res" using ac(1) by (simp add: res_def scores_ok_add)
  assume r: "r \<noteq> SessionExpired"
  show "score res r = score sc r +
      (if \<exists>d \<in> set FAILURE_REASON_PRIORITY. 0 < counted counts d then counted counts r else if r = Unknown then 1 else 0)"
  proof (cases "fst a")
    case True
    then show ?thesis using b ac(3) [OF r] by (simp add: res_def)
  next
    case False
    then have "\<not> 0 < counted counts r" using b r by (auto simp: all_listed)
    then show ?thesis using False b ac(3) [OF r] counted_zero by (auto simp: res_def score_add)
  qed
qed

lemma score_profile:
  assumes "scores_ok sc"
  shows "scores_ok (scoreProfile st now q sc) \<and>
    (\<forall>r. r \<noteq> SessionExpired \<longrightarrow> score (scoreProfile st now q sc) r = score sc r + weight st now q r)"
proof (cases "statsOf st q")
  case None
  then show ?thesis using assms by (simp add: scoreProfile_def weight_def)
next
  case (Some s)
  show ?thesis
  proof (cases "isActiveUnusableWindow (disabledUntil s) now \<and> (\<exists>d \<in> set FAILURE_REASON_PRIORITY. disabledReason s = Some d)")
    case True
    then obtain d where d: "disabledReason s = Some d" "d \<noteq> SessionExpired" by (auto simp: all_listed)
    then show ?thesis using True Some assms
      by (auto simp: scoreProfile_def weight_def all_listed score_add scores_ok_add)
  next
    case False
    have w: "weight st now q r = (if \<not> isActiveUnusableWindow (cooldownUntil s) now then 0
        else if \<exists>d \<in> set FAILURE_REASON_PRIORITY. 0 < counted (coalesce (failureCounts s) []) d
        then counted (coalesce (failureCounts s) []) r else if r = Unknown then 1 else 0)" for r
      unfolding weight_def Some option.case if_not_P [OF False] by (rule refl)
    have p: "scoreProfile st now q sc = (if \<not> isActiveUnusableWindow (cooldownUntil s) now then sc
        else if fst (addCounts (coalesce (failureCounts s) []) sc) then snd (addCounts (coalesce (failureCounts s) []) sc)
        else addScore Unknown 1 (snd (addCounts (coalesce (failureCounts s) []) sc)))"
      using False Some
      by (cases "isActiveUnusableWindow (disabledUntil s) now"; cases "disabledReason s")
         (auto simp: scoreProfile_def Let_def case_prod_beta)
    show ?thesis using assms score_counts [OF assms, where counts = "coalesce (failureCounts s) []"] by (simp add: p w)
  qed
qed

lemma score_profiles:
  "scores_ok sc \<Longrightarrow> scores_ok (fold (scoreProfile st now) qs sc) \<and>
    (\<forall>r. r \<noteq> SessionExpired \<longrightarrow> score (fold (scoreProfile st now) qs sc) r = score sc r + totalWeight st now qs r)"
proof (induction qs arbitrary: sc)
  case (Cons q qs)
  from score_profile [OF Cons.prems, of st now q] Cons.IH [of "scoreProfile st now q sc"]
  show ?case by (simp add: totalWeight_def)
qed (simp add: totalWeight_def)

text \<open>The loop keeps the first of the best.\<close>

definition beats :: "(failure_reason, int) js_map \<Rightarrow> failure_reason list \<Rightarrow> int \<Rightarrow> failure_reason \<Rightarrow> int \<Rightarrow> bool" where
  "beats sc rs low b v \<longleftrightarrow> low < v \<and> map_of sc b = Some v \<and>
     (\<exists>pre post. rs = pre @ b # post \<and> (\<forall>r \<in> set pre. score sc r < v) \<and> (\<forall>r \<in> set post. score sc r \<le> v))"

lemma beats_here: "low < v \<Longrightarrow> map_of sc r = Some v \<Longrightarrow> \<forall>x \<in> set rs. score sc x \<le> v \<Longrightarrow> beats sc (r # rs) low r v"
  unfolding beats_def by (intro conjI exI [of _ "[]"] exI [of _ rs]) simp_all

lemma beats_later: "beats sc rs low' b v \<Longrightarrow> low \<le> low' \<Longrightarrow> score sc r \<le> low' \<Longrightarrow> beats sc (r # rs) low b v"
  unfolding beats_def
  by (elim conjE exE, intro conjI, linarith, assumption) (rule_tac x = "r # pre" in exI, rule_tac x = post in exI, simp)

lemma best_kept:
  assumes "scores_ok sc" "p < n" "map_of sc b = Some v"
  shows "\<exists>b' v' p'. fold (bestStep sc) (enumerate n rs) (Some b, v, Some p) = (Some b', v', p') \<and>
     (b' = b \<and> v' = v \<and> (\<forall>r \<in> set rs. score sc r \<le> v) \<or> beats sc rs v b' v')"
  using assms
proof (induction rs arbitrary: n b v p)
  case Nil
  then show ?case by simp
next
  case (Cons r rs)
  have v: "0 < v" using Cons.prems by (auto simp: scores_ok_def)
  show ?case
  proof (cases "score sc r \<le> v")
    case True
    have step: "bestStep sc (n, r) (Some b, v, Some p) = (Some b, v, Some p)"
      using True Cons.prems(2) by (auto simp: bestStep_def score_def split: option.split)
    show ?thesis
      using Cons.IH [OF Cons.prems(1) less_SucI [OF Cons.prems(2)] Cons.prems(3)] True beats_later [OF _ order_refl True]
      by (auto simp: step)
  next
    case False
    then obtain w where w: "map_of sc r = Some w" "v < w" "score sc r = w"
      using v by (cases "map_of sc r") (auto simp: score_def)
    have step: "bestStep sc (n, r) (Some b, v, Some p) = (Some r, w, Some n)"
      using w by (simp add: bestStep_def)
    show ?thesis
      using Cons.IH [OF Cons.prems(1) lessI w(1)] beats_later [OF _ less_imp_le [OF w(2)] eq_refl [OF w(3)]] beats_here [OF w(2,1)]
      by (fastforce simp: step)
  qed
qed

lemma best_found:
  assumes ok: "scores_ok sc" and ex: "\<exists>r \<in> set rs. map_of sc r \<noteq> None"
  shows "\<exists>b v. fst (fold (bestStep sc) (enumerate n rs) (None, -1, None)) = Some b \<and> beats sc rs 0 b v"
  using ex
proof (induction rs arbitrary: n)
  case (Cons r rs)
  show ?case
  proof (cases "map_of sc r")
    case None
    then have step: "bestStep sc (n, r) (None, -1, None) = (None, -1, None)" by (simp add: bestStep_def)
    have r: "score sc r \<le> 0" using None by (simp add: score_def)
    have "\<exists>r \<in> set rs. map_of sc r \<noteq> None" using Cons.prems None by auto
    from Cons.IH [OF this, of "Suc n"] obtain b v where
      "fst (fold (bestStep sc) (enumerate (Suc n) rs) (None, -1, None)) = Some b" "beats sc rs 0 b v" by blast
    then show ?thesis by (intro exI [of _ b] exI [of _ v]) (simp add: step beats_later [OF _ order_refl r])
  next
    case (Some w)
    then have w: "0 < w" "score sc r = w" using ok by (auto simp: scores_ok_def score_def)
    have step: "bestStep sc (n, r) (None, -1, None) = (Some r, w, Some n)" using Some w by (simp add: bestStep_def)
    show ?thesis
      using best_kept [OF ok lessI [of n] Some, of rs] beats_later [OF _ less_imp_le [OF w(1)] eq_refl [OF w(2)]] beats_here [OF w(1) Some]
      by (fastforce simp: step)
  qed
qed simp

text \<open>The reason reported for unavailable profiles is the heaviest. Every disabled profile weighs a
  thousand for the reason it was disabled for, every cooling profile the failures it counted (one for the
  unknown reason when it counted none); no reason is reported when nothing weighs. Otherwise the reported
  reason weighs more than every reason of a higher priority and at least as much as every other one.
  The priorities leave out \<^verbatim>\<open>session_expired\<close>, which is never reported.\<close>

theorem unavailable_reason_heaviest:
  "case resolveProfilesUnavailableReason st qs now of
     None \<Rightarrow> \<forall>r \<in> set FAILURE_REASON_PRIORITY. totalWeight st now qs r = 0
   | Some b \<Rightarrow> 0 < totalWeight st now qs b \<and>
       (\<exists>pre post. FAILURE_REASON_PRIORITY = pre @ b # post \<and>
          (\<forall>r \<in> set pre. totalWeight st now qs r < totalWeight st now qs b) \<and>
          (\<forall>r \<in> set post. totalWeight st now qs r \<le> totalWeight st now qs b))"
proof -
  define sc where "sc = fold (scoreProfile st now) qs []"
  have ok: "scores_ok sc" and sw: "\<And>r. r \<in> set FAILURE_REASON_PRIORITY \<Longrightarrow> score sc r = totalWeight st now qs r"
    using score_profiles [of "[]" st now qs] by (simp_all add: sc_def scores_ok_def score_def all_listed)
  show ?thesis
  proof (cases "sc = []")
    case True
    then have "resolveProfilesUnavailableReason st qs now = None"
      by (simp add: resolveProfilesUnavailableReason_def sc_def)
    moreover have "\<forall>r \<in> set FAILURE_REASON_PRIORITY. totalWeight st now qs r = 0"
      using True by (simp add: sw [symmetric] score_def)
    ultimately show ?thesis by simp
  next
    case False
    then have "map_of sc (fst (hd sc)) \<noteq> None" by (cases sc) auto
    then have "\<exists>r \<in> set FAILURE_REASON_PRIORITY. map_of sc r \<noteq> None" using ok by (auto simp: scores_ok_def)
    from best_found [OF ok this, of 0] obtain b v where
      b: "fst (fold (bestStep sc) (enumerate 0 FAILURE_REASON_PRIORITY) (None, -1, None)) = Some b"
      and "beats sc FAILURE_REASON_PRIORITY 0 b v" by blast
    then obtain pre post where bv: "0 < v" "map_of sc b = Some v" "FAILURE_REASON_PRIORITY = pre @ b # post"
        "\<forall>r \<in> set pre. score sc r < v" "\<forall>r \<in> set post. score sc r \<le> v"
      unfolding beats_def by blast
    have res: "resolveProfilesUnavailableReason st qs now = Some b"
      using False b by (simp add: resolveProfilesUnavailableReason_def sc_def [symmetric])
    have mem: "b \<in> set FAILURE_REASON_PRIORITY" "r \<in> set pre \<Longrightarrow> r \<in> set FAILURE_REASON_PRIORITY"
      "r \<in> set post \<Longrightarrow> r \<in> set FAILURE_REASON_PRIORITY" for r
      by (simp_all add: bv(3))
    have v: "v = totalWeight st now qs b" "0 < v" using bv(1,2) sw [OF mem(1)] by (simp_all add: score_def)
    have "\<forall>r \<in> set pre. totalWeight st now qs r < totalWeight st now qs b"
      "\<forall>r \<in> set post. totalWeight st now qs r \<le> totalWeight st now qs b"
      using bv(4,5) sw mem(2,3) v(1) by auto
    then show ?thesis unfolding res option.case using bv(3) v by blast
  qed
qed

lemma unavailable_reason_heaviest_witness:
  "let st = \<lparr>storeVersion = 1, profiles = [], profileOrder = None, lastGood = None,
         usageStats = Some [(''a'', noStats\<lparr>cooldownUntil := Some 50, failureCounts := Some [(RateLimit, 2), (Timeout, 3)]\<rparr>)]\<rparr>
   in case resolveProfilesUnavailableReason st [''a''] 10 of
        None \<Rightarrow> \<forall>r \<in> set FAILURE_REASON_PRIORITY. totalWeight st 10 [''a''] r = 0
      | Some b \<Rightarrow> 0 < totalWeight st 10 [''a''] b"
  using unavailable_reason_heaviest [where st = "\<lparr>storeVersion = 1, profiles = [], profileOrder = None, lastGood = None,
         usageStats = Some [(''a'', noStats\<lparr>cooldownUntil := Some 50, failureCounts := Some [(RateLimit, 2), (Timeout, 3)]\<rparr>)]\<rparr>"
      and qs = "[''a'']" and now = 10]
  unfolding Let_def by (auto split: option.splits)

end
