(* ===== verification/AuthBackoff.thy ===== *)
theory AuthBackoff
  imports AuthUsage
begin

text \<open>
  How a failure changes the statistics of a profile, and the operations that mark profiles:
  \<^verbatim>\<open>packages/core/src/agents/auth-profiles/usage.ts\<close> from \<^verbatim>\<open>markAuthProfileUsed\<close> on, with the lock of
  \<^verbatim>\<open>store.ts\<close>. An operation gives the store in memory and the store it wrote to disk, if any. The
  store in memory is passed twice, as it is at the call and as it is when the lock was tried.
\<close>

subsection \<open>Configuration\<close>

record auth_cooldowns =
  billingBackoffHours :: "rat option"
  billingBackoffHoursByProvider :: "(string, rat) js_map option"
  billingMaxHours :: "rat option"
  authPermanentBackoffMinutes :: "rat option"
  authPermanentMaxMinutes :: "rat option"
  failureWindowHours :: "rat option"

record profile_config =
  pc_provider :: string
  pc_mode :: credential_type
  pc_email :: "string option"
  pc_displayName :: "string option"

record auth_config =
  ac_profiles :: "(string, profile_config) js_map option"
  ac_order :: "(string, string list) js_map option"
  ac_cooldowns :: "auth_cooldowns option"

record resolved_cooldowns =
  billingBackoffMs :: rat
  billingMaxMs :: rat
  authPermanentBackoffMs :: rat
  authPermanentMaxMs :: rat
  failureWindowMs :: rat

definition resolvePositiveNumber :: "rat option \<Rightarrow> rat \<Rightarrow> rat" where
  "resolvePositiveNumber v fallback = (case v of Some x \<Rightarrow> if x > 0 then x else fallback | None \<Rightarrow> fallback)"

definition billingOverride :: "auth_cooldowns option \<Rightarrow> string \<Rightarrow> rat option" where
  "billingOverride cooldowns providerId =
     Option.bind (Option.bind cooldowns billingBackoffHoursByProvider)
       (\<lambda>m. map_option snd (List.find (\<lambda>(key, v). normalizeProviderId key = providerId) m))"

definition resolveAuthCooldownConfig :: "auth_config option \<Rightarrow> string \<Rightarrow> resolved_cooldowns" where
  "resolveAuthCooldownConfig cfg providerId =
     (let cooldowns = Option.bind cfg ac_cooldowns;
          billingBackoffH = resolvePositiveNumber
            (or_else (billingOverride cooldowns providerId) (Option.bind cooldowns billingBackoffHours)) 5;
          billingMaxH = resolvePositiveNumber (Option.bind cooldowns billingMaxHours) 24;
          authPermanentBackoffM = resolvePositiveNumber (Option.bind cooldowns authPermanentBackoffMinutes) 10;
          authPermanentMaxM = resolvePositiveNumber (Option.bind cooldowns authPermanentMaxMinutes) 60;
          failureWindowH = resolvePositiveNumber (Option.bind cooldowns failureWindowHours) 24
      in \<lparr>billingBackoffMs = billingBackoffH * 60 * 60 * 1000,
          billingMaxMs = billingMaxH * 60 * 60 * 1000,
          authPermanentBackoffMs = authPermanentBackoffM * 60 * 1000,
          authPermanentMaxMs = authPermanentMaxM * 60 * 1000,
          failureWindowMs = failureWindowH * 60 * 60 * 1000\<rparr>)"

subsection \<open>Backoff\<close>

definition calculateAuthProfileCooldownMs :: "int \<Rightarrow> rat" where
  "calculateAuthProfileCooldownMs errors =
     (let normalized = max 1 errors
      in if normalized \<le> 1 then 30000
         else if normalized \<le> 2 then 60000
         else 5 * 60000)"

definition calculateDisabledLaneBackoffMs :: "int \<Rightarrow> rat \<Rightarrow> rat \<Rightarrow> rat" where
  "calculateDisabledLaneBackoffMs errors base0 max0 =
     (let normalized = max 1 errors;
          baseMs = max 60000 base0;
          maxMs = max baseMs max0;
          exponent = min (normalized - 1) 10;
          raw = baseMs * 2 ^ nat exponent
      in min maxMs raw)"

datatype disabled_reason = DisabledBilling | DisabledAuthPermanent

definition disabledFailureReason :: "failure_reason \<Rightarrow> disabled_reason option" where
  "disabledFailureReason reason =
     (if reason = Billing then Some DisabledBilling
      else if reason = AuthPermanent then Some DisabledAuthPermanent
      else None)"

definition resolveDisabledFailureBackoffMs :: "disabled_reason \<Rightarrow> int \<Rightarrow> resolved_cooldowns \<Rightarrow> rat" where
  "resolveDisabledFailureBackoffMs reason errors cfgResolved =
     (case reason of
        DisabledBilling \<Rightarrow> calculateDisabledLaneBackoffMs errors (billingBackoffMs cfgResolved) (billingMaxMs cfgResolved)
      | DisabledAuthPermanent \<Rightarrow>
          calculateDisabledLaneBackoffMs errors (authPermanentBackoffMs cfgResolved) (authPermanentMaxMs cfgResolved))"

definition resolveProfileUnusableUntilForDisplay :: "auth_store \<Rightarrow> string \<Rightarrow> rat option" where
  "resolveProfileUnusableUntilForDisplay st profileId =
     (if isAuthCooldownBypassedForProvider (providerOf st profileId) then None
      else Option.bind (statsOf st profileId) resolveProfileUnusableUntil)"

text \<open>The only override the code passes is the time of use.\<close>

definition resetUsageStats :: "usage_stats option \<Rightarrow> rat option \<Rightarrow> usage_stats" where
  "resetUsageStats existing usedAt =
     (let s = coalesce existing noStats
      in s\<lparr>errorCount := Some 0, cooldownUntil := None, cooldownReason := None, cooldownModel := None,
           disabledUntil := None, disabledReason := None, failureCounts := None,
           lastUsed := or_else usedAt (lastUsed s)\<rparr>)"

definition updateUsageStatsEntry :: "string \<Rightarrow> (usage_stats option \<Rightarrow> usage_stats) \<Rightarrow> auth_store \<Rightarrow> auth_store" where
  "updateUsageStatsEntry profileId updater st =
     (let m = coalesce (usageStats st) []
      in st\<lparr>usageStats := Some (AList.update profileId (updater (map_of m profileId)) m)\<rparr>)"

definition keepActiveWindowOrRecompute :: "rat option \<Rightarrow> rat \<Rightarrow> rat \<Rightarrow> rat" where
  "keepActiveWindowOrRecompute existingUntil now recomputedUntil =
     (case existingUntil of Some u \<Rightarrow> if u > now then u else recomputedUntil | None \<Rightarrow> recomputedUntil)"

text \<open>Whether the counters start again: no failure within the window, or the previous unavailability is over.\<close>

definition shouldResetCounters :: "usage_stats \<Rightarrow> rat \<Rightarrow> resolved_cooldowns \<Rightarrow> bool" where
  "shouldResetCounters existing now cfgResolved \<longleftrightarrow>
     (case lastFailureAt existing of Some l \<Rightarrow> l > 0 \<and> now - l > failureWindowMs cfgResolved | None \<Rightarrow> False) \<or>
     (case resolveProfileUnusableUntil existing of Some u \<Rightarrow> now \<ge> u | None \<Rightarrow> False)"

text \<open>The model a cooldown is scoped to after one more failure that does not disable the profile.\<close>

definition nextCooldownModel :: "usage_stats \<Rightarrow> rat \<Rightarrow> failure_reason \<Rightarrow> string option \<Rightarrow> string option" where
  "nextCooldownModel existing now reason modelId =
     (if (case cooldownUntil existing of Some u \<Rightarrow> u > now | None \<Rightarrow> False)
      then (if truthy_string (cooldownModel existing) \<and> truthy_string modelId \<and> cooldownModel existing \<noteq> modelId then None
            else if reason = RateLimit \<and> \<not> truthy_string modelId \<and> truthy_string (cooldownModel existing) then None
            else if reason \<noteq> RateLimit then None
            else cooldownModel existing)
      else (if reason = RateLimit then modelId else None))"

definition computeNextProfileUsageStats ::
    "usage_stats \<Rightarrow> rat \<Rightarrow> failure_reason \<Rightarrow> resolved_cooldowns \<Rightarrow> string option \<Rightarrow> usage_stats" where
  "computeNextProfileUsageStats existing now reason cfgResolved modelId =
     (let resetCounters = shouldResetCounters existing now cfgResolved;
          baseErrorCount = (if resetCounters then 0 else coalesce (errorCount existing) 0);
          nextErrorCount = baseErrorCount + 1;
          counts0 = (if resetCounters then [] else coalesce (failureCounts existing) []);
          counts = AList.update reason (coalesce (map_of counts0 reason) 0 + 1) counts0;
          updatedStats = existing\<lparr>errorCount := Some nextErrorCount, failureCounts := Some counts, lastFailureAt := Some now\<rparr>
      in case disabledFailureReason reason of
           Some lane \<Rightarrow>
             (let backoffMs = resolveDisabledFailureBackoffMs lane (coalesce (map_of counts reason) 1) cfgResolved
              in updatedStats\<lparr>
                   disabledUntil := Some (keepActiveWindowOrRecompute (disabledUntil existing) now (now + backoffMs)),
                   disabledReason := Some reason\<rparr>)
         | None \<Rightarrow>
             (let backoffMs = calculateAuthProfileCooldownMs nextErrorCount
              in updatedStats\<lparr>
                   cooldownUntil := Some (keepActiveWindowOrRecompute (cooldownUntil existing) now (now + backoffMs)),
                   cooldownReason := Some reason,
                   cooldownModel := nextCooldownModel existing now reason modelId\<rparr>))"

subsection \<open>Marking profiles\<close>

text \<open>
  \<^verbatim>\<open>updateAuthProfileStoreWithLock\<close>: the updater runs on the store loaded under the lock and says by
  \<open>Some\<close> that it changed it, which saves it; the result is the store, or \<open>None\<close> when anything threw.
\<close>

definition updateAuthProfileStoreWithLock ::
    "auth_store option \<Rightarrow> (auth_store \<Rightarrow> auth_store option) \<Rightarrow> (auth_store \<times> auth_store option) option" where
  "updateAuthProfileStoreWithLock fresh updater =
     map_option (\<lambda>st. (case updater st of None \<Rightarrow> (st, None) | Some st1 \<Rightarrow> (st1, Some st1))) fresh"

definition markAuthProfileUsed :: "rat \<Rightarrow> auth_store option \<Rightarrow> string \<Rightarrow> auth_store \<Rightarrow> auth_store \<times> auth_store option" where
  "markAuthProfileUsed now fresh profileId st =
     (case updateAuthProfileStoreWithLock fresh
             (\<lambda>fs. if map_of (profiles fs) profileId = None then None
                   else Some (updateUsageStatsEntry profileId (\<lambda>e. resetUsageStats e (Some now)) fs)) of
        Some (updated, written) \<Rightarrow> (st\<lparr>usageStats := usageStats updated\<rparr>, written)
      | None \<Rightarrow>
          if map_of (profiles st) profileId = None then (st, None)
          else (let st1 = updateUsageStatsEntry profileId (\<lambda>e. resetUsageStats e (Some now)) st
                in (st1, Some st1)))"

text \<open>The statistics \<^verbatim>\<open>markAuthProfileFailure\<close> writes for a profile of a store.\<close>

definition failedStats ::
    "auth_config option \<Rightarrow> rat \<Rightarrow> failure_reason \<Rightarrow> string option \<Rightarrow> wham_result option \<Rightarrow> string \<Rightarrow> usage_stats option \<Rightarrow> usage_stats" where
  "failedStats cfg now reason modelId wham provider previous =
     (let existing = coalesce previous noStats;
          computed = computeNextProfileUsageStats existing now reason
            (resolveAuthCooldownConfig cfg (normalizeProviderId provider)) modelId
      in case wham of
           Some w \<Rightarrow> if shouldProbeWhamForFailure (Some provider) reason
                     then applyWhamCooldownResult existing computed now w else computed
         | None \<Rightarrow> computed)"

definition markAuthProfileFailure ::
    "(auth_store \<Rightarrow> string \<Rightarrow> wham_result option) \<Rightarrow> auth_config option \<Rightarrow> rat \<Rightarrow> auth_store option \<Rightarrow> string \<Rightarrow>
     failure_reason \<Rightarrow> string option \<Rightarrow> auth_store \<Rightarrow> auth_store \<Rightarrow> auth_store \<times> auth_store option" where
  "markAuthProfileFailure probe cfg now fresh profileId reason modelId store0 st =
     (if providerOf store0 profileId = None \<or> isAuthCooldownBypassedForProvider (providerOf store0 profileId) then (st, None)
      else (let whamResult = (if shouldProbeWhamForFailure (providerOf store0 profileId) reason then probe store0 profileId else None)
            in case updateAuthProfileStoreWithLock fresh
                      (\<lambda>fs. case providerOf fs profileId of
                              None \<Rightarrow> None
                            | Some provider \<Rightarrow>
                                if isAuthCooldownBypassedForProvider (Some provider) then None
                                else Some (updateUsageStatsEntry profileId
                                       (\<lambda>e. failedStats cfg now reason modelId whamResult provider e) fs)) of
                 Some (updated, written) \<Rightarrow> (st\<lparr>usageStats := usageStats updated\<rparr>, written)
               | None \<Rightarrow>
                   (case providerOf st profileId of
                      None \<Rightarrow> (st, None)
                    | Some provider \<Rightarrow>
                        (let st1 = updateUsageStatsEntry profileId
                               (\<lambda>e. failedStats cfg now reason modelId whamResult provider e) st
                         in (st1, Some st1)))))"

definition markAuthProfileCooldown ::
    "(auth_store \<Rightarrow> string \<Rightarrow> wham_result option) \<Rightarrow> rat \<Rightarrow> auth_store option \<Rightarrow> string \<Rightarrow> auth_store \<Rightarrow> auth_store \<Rightarrow>
     auth_store \<times> auth_store option" where
  "markAuthProfileCooldown probe now fresh profileId store0 st =
     markAuthProfileFailure probe None now fresh profileId Unknown None store0 st"

definition clearAuthProfileCooldown :: "auth_store option \<Rightarrow> string \<Rightarrow> auth_store \<Rightarrow> auth_store \<times> auth_store option" where
  "clearAuthProfileCooldown fresh profileId st =
     (case updateAuthProfileStoreWithLock fresh
             (\<lambda>fs. if statsOf fs profileId = None then None
                   else Some (updateUsageStatsEntry profileId (\<lambda>e. resetUsageStats e None) fs)) of
        Some (updated, written) \<Rightarrow> (st\<lparr>usageStats := usageStats updated\<rparr>, written)
      | None \<Rightarrow>
          if statsOf st profileId = None then (st, None)
          else (let st1 = updateUsageStatsEntry profileId (\<lambda>e. resetUsageStats e None) st
                in (st1, Some st1)))"

subsection \<open>When a profile is unavailable\<close>

definition set_window :: "rat option \<Rightarrow> bool" where
  "set_window v \<longleftrightarrow> (case v of Some u \<Rightarrow> u > 0 | None \<Rightarrow> False)"

lemma unusable_none: "resolveProfileUnusableUntil s = None \<longleftrightarrow> \<not> set_window (cooldownUntil s) \<and> \<not> set_window (disabledUntil s)"
  by (cases "cooldownUntil s"; cases "disabledUntil s")
     (auto simp: resolveProfileUnusableUntil_def set_window_def List.map_filter_def Let_def)

lemma unusable_later:
  "(case resolveProfileUnusableUntil s of None \<Rightarrow> False | Some u \<Rightarrow> ts < u) \<longleftrightarrow>
   isActiveUnusableWindow (cooldownUntil s) ts \<or> isActiveUnusableWindow (disabledUntil s) ts"
  by (cases "cooldownUntil s"; cases "disabledUntil s")
     (auto simp: resolveProfileUnusableUntil_def isActiveUnusableWindow_def List.map_filter_def Let_def)

lemma unusable_over:
  "(case resolveProfileUnusableUntil s of Some u \<Rightarrow> ts \<ge> u | None \<Rightarrow> False) \<longleftrightarrow>
   (set_window (cooldownUntil s) \<or> set_window (disabledUntil s)) \<and>
   \<not> isActiveUnusableWindow (cooldownUntil s) ts \<and> \<not> isActiveUnusableWindow (disabledUntil s) ts"
  using unusable_later [of ts s] unusable_none [of s]
  by (cases "resolveProfileUnusableUntil s") (auto simp: not_less)

lemma stats_in_cooldown:
  "statsInCooldown s ts m \<longleftrightarrow>
   isActiveUnusableWindow (disabledUntil s) ts \<or>
   isActiveUnusableWindow (cooldownUntil s) ts \<and> \<not> shouldBypassModelScopedCooldown s ts m"
  by (auto simp: statsInCooldown_def unusable_later shouldBypassModelScopedCooldown_def)

lemma window_expired: "windowExpired u ts \<longleftrightarrow> set_window u \<and> \<not> isActiveUnusableWindow u ts"
  by (auto simp: windowExpired_def set_window_def isActiveUnusableWindow_def split: option.splits)

lemma active_positive: "isActiveUnusableWindow u ts \<Longrightarrow> set_window u"
  by (auto simp: set_window_def isActiveUnusableWindow_def split: option.splits)

lemma active_earlier: "isActiveUnusableWindow u t \<Longrightarrow> t0 \<le> t \<Longrightarrow> isActiveUnusableWindow u t0"
  by (auto simp: isActiveUnusableWindow_def split: option.splits)

lemma inactive_None [simp]: "\<not> isActiveUnusableWindow None t" "\<not> set_window None"
  by (simp_all add: isActiveUnusableWindow_def set_window_def)

lemma keep_active:
  "0 < now \<Longrightarrow> keepActiveWindowOrRecompute u now r = (if isActiveUnusableWindow u now then the u else r)"
  by (auto simp: keepActiveWindowOrRecompute_def isActiveUnusableWindow_def split: option.splits)

lemmas window_facts = window_expired unusable_none unusable_over stats_in_cooldown

subsection \<open>Clearing expired cooldowns is invisible\<close>

abbreviation cleared :: "rat \<Rightarrow> usage_stats \<Rightarrow> usage_stats" where
  "cleared t s \<equiv> snd (clearExpiredStats t s)"

text \<open>What clearing does to each field.\<close>

lemma cleared_fields:
  "cooldownUntil (cleared t s) = (if windowExpired (cooldownUntil s) t then None else cooldownUntil s)"
  "cooldownReason (cleared t s) = (if windowExpired (cooldownUntil s) t then None else cooldownReason s)"
  "cooldownModel (cleared t s) = (if windowExpired (cooldownUntil s) t then None else cooldownModel s)"
  "disabledUntil (cleared t s) = (if windowExpired (disabledUntil s) t then None else disabledUntil s)"
  "disabledReason (cleared t s) = (if windowExpired (disabledUntil s) t then None else disabledReason s)"
  "lastUsed (cleared t s) = lastUsed s"
  "lastFailureAt (cleared t s) = lastFailureAt s"
  by (simp_all add: clearExpiredStats_def Let_def)

definition startsOver :: "rat \<Rightarrow> usage_stats \<Rightarrow> bool" where
  "startsOver t s \<longleftrightarrow> (windowExpired (cooldownUntil s) t \<or> windowExpired (disabledUntil s) t) \<and>
     \<not> isActiveUnusableWindow (cooldownUntil s) t \<and> \<not> isActiveUnusableWindow (disabledUntil s) t"

lemma cleared_counters:
  "errorCount (cleared t s) = (if startsOver t s then Some 0 else errorCount s)"
  "failureCounts (cleared t s) = (if startsOver t s then None else failureCounts s)"
  by (auto simp: clearExpiredStats_def Let_def startsOver_def window_facts dest: active_positive)

lemma stats_eqI:
  "lastUsed a = lastUsed b \<Longrightarrow> cooldownUntil a = cooldownUntil b \<Longrightarrow> cooldownReason a = cooldownReason b \<Longrightarrow>
   cooldownModel a = cooldownModel b \<Longrightarrow> disabledUntil a = disabledUntil b \<Longrightarrow> disabledReason a = disabledReason b \<Longrightarrow>
   errorCount a = errorCount b \<Longrightarrow> failureCounts a = failureCounts b \<Longrightarrow> lastFailureAt a = lastFailureAt b \<Longrightarrow>
   a = (b::usage_stats)"
  by (cases a; cases b) simp

lemma expired_later: "windowExpired u t0 \<Longrightarrow> t0 \<le> t \<Longrightarrow> windowExpired u t"
  by (auto simp: windowExpired_def split: option.splits)

lemma cleared_twice:
  assumes "t0 \<le> t" shows "cleared t (cleared t0 x) = cleared t x"
proof (rule stats_eqI)
  show "errorCount (cleared t (cleared t0 x)) = errorCount (cleared t x)"
    "failureCounts (cleared t (cleared t0 x)) = failureCounts (cleared t x)"
    using assms by (auto simp: cleared_counters cleared_fields startsOver_def window_facts dest: active_positive active_earlier)
qed (use assms in \<open>auto simp: cleared_fields window_facts dest: active_earlier\<close>)

lemma in_cooldown_cleared:
  assumes "t0 \<le> t" shows "statsInCooldown (cleared t0 x) t m = statsInCooldown x t m"
  using assms
  by (auto simp: stats_in_cooldown shouldBypassModelScopedCooldown_def cleared_fields window_facts dest: active_earlier)

text \<open>The next statistics, field by field.\<close>

lemma next_fields:
  "lastUsed (computeNextProfileUsageStats s t r c m) = lastUsed s"
  "lastFailureAt (computeNextProfileUsageStats s t r c m) = Some t"
  "errorCount (computeNextProfileUsageStats s t r c m) =
     Some ((if shouldResetCounters s t c then 0 else coalesce (errorCount s) 0) + 1)"
  by (simp_all add: computeNextProfileUsageStats_def Let_def split: option.split)

lemma next_disabled:
  assumes "disabledFailureReason r = Some lane"
  shows "cooldownUntil (computeNextProfileUsageStats s t r c m) = cooldownUntil s"
    "cooldownReason (computeNextProfileUsageStats s t r c m) = cooldownReason s"
    "cooldownModel (computeNextProfileUsageStats s t r c m) = cooldownModel s"
    "disabledReason (computeNextProfileUsageStats s t r c m) = Some r"
    "\<exists>n. disabledUntil (computeNextProfileUsageStats s t r c m) =
       Some (keepActiveWindowOrRecompute (disabledUntil s) t (t + resolveDisabledFailureBackoffMs lane n c))"
  using assms by (auto simp: computeNextProfileUsageStats_def Let_def)

lemma next_cooldown:
  assumes "disabledFailureReason r = None"
  shows "disabledUntil (computeNextProfileUsageStats s t r c m) = disabledUntil s"
    "disabledReason (computeNextProfileUsageStats s t r c m) = disabledReason s"
    "cooldownReason (computeNextProfileUsageStats s t r c m) = Some r"
    "cooldownModel (computeNextProfileUsageStats s t r c m) = nextCooldownModel s t r m"
    "cooldownUntil (computeNextProfileUsageStats s t r c m) =
       Some (keepActiveWindowOrRecompute (cooldownUntil s) t
         (t + calculateAuthProfileCooldownMs ((if shouldResetCounters s t c then 0 else coalesce (errorCount s) 0) + 1)))"
  using assms by (simp_all add: computeNextProfileUsageStats_def Let_def)

text \<open>The counters a failure starts from, and the windows it keeps, are the same before and after clearing.\<close>

definition counterBase :: "usage_stats \<Rightarrow> rat \<Rightarrow> resolved_cooldowns \<Rightarrow> int \<times> (failure_reason, int) js_map" where
  "counterBase s t c =
     (if shouldResetCounters s t c then (0, []) else (coalesce (errorCount s) 0, coalesce (failureCounts s) []))"

lemma counter_base_cleared:
  assumes "t0 \<le> t" shows "counterBase (cleared t0 s) t c = counterBase s t c"
proof (cases "startsOver t0 s")
  case True
  then have "shouldResetCounters s t c"
    using assms by (auto simp: shouldResetCounters_def unusable_over startsOver_def window_expired dest: active_earlier)
  then show ?thesis using True by (simp add: counterBase_def cleared_counters)
next
  case False
  have "(case resolveProfileUnusableUntil (cleared t0 s) of Some u \<Rightarrow> t \<ge> u | None \<Rightarrow> False) \<longleftrightarrow>
      (case resolveProfileUnusableUntil s of Some u \<Rightarrow> t \<ge> u | None \<Rightarrow> False)"
    unfolding unusable_over using assms False
    by (auto simp: cleared_fields startsOver_def window_expired dest: active_earlier active_positive)
  then have "shouldResetCounters (cleared t0 s) t c = shouldResetCounters s t c"
    unfolding shouldResetCounters_def cleared_fields by simp
  then show ?thesis using False by (simp add: counterBase_def cleared_counters)
qed

lemma keep_cleared:
  assumes "t0 \<le> t" "0 < t"
  shows "keepActiveWindowOrRecompute (if windowExpired u t0 then None else u) t r = keepActiveWindowOrRecompute u t r"
  using assms by (auto simp: keep_active window_expired dest: active_earlier)

lemma next_model_cleared:
  assumes "t0 \<le> t" "0 < t"
  shows "nextCooldownModel (cleared t0 s) t r m = nextCooldownModel s t r m"
  using assms
  by (cases "cooldownUntil s") (auto simp: nextCooldownModel_def cleared_fields windowExpired_def)

lemma next_base:
  "errorCount (computeNextProfileUsageStats s t r c m) = Some (fst (counterBase s t c) + 1)"
  "failureCounts (computeNextProfileUsageStats s t r c m) =
     Some (AList.update r (coalesce (map_of (snd (counterBase s t c)) r) 0 + 1) (snd (counterBase s t c)))"
  by (simp_all add: computeNextProfileUsageStats_def counterBase_def Let_def split: option.split)

lemma next_windows:
  "cooldownUntil (computeNextProfileUsageStats s t r c m) =
     (case disabledFailureReason r of
        Some lane \<Rightarrow> cooldownUntil s
      | None \<Rightarrow> Some (keepActiveWindowOrRecompute (cooldownUntil s) t
                  (t + calculateAuthProfileCooldownMs (fst (counterBase s t c) + 1))))"
  "disabledUntil (computeNextProfileUsageStats s t r c m) =
     (case disabledFailureReason r of
        Some lane \<Rightarrow> Some (keepActiveWindowOrRecompute (disabledUntil s) t
                  (t + resolveDisabledFailureBackoffMs lane (coalesce (map_of (snd (counterBase s t c)) r) 0 + 1) c))
      | None \<Rightarrow> disabledUntil s)"
  by (simp_all add: computeNextProfileUsageStats_def counterBase_def update_conv' Let_def split: option.split)

text \<open>Two statistics that differ at most in a window that is over, while another is active.\<close>

definition over_gone :: "rat \<Rightarrow> usage_stats \<Rightarrow> usage_stats \<Rightarrow> bool" where
  "over_gone t a b \<longleftrightarrow>
     lastUsed a = lastUsed b \<and> lastFailureAt a = lastFailureAt b \<and> errorCount a = errorCount b \<and> failureCounts a = failureCounts b \<and>
     (cooldownUntil a = cooldownUntil b \<and> cooldownReason a = cooldownReason b \<and> cooldownModel a = cooldownModel b \<or>
      cooldownUntil a = None \<and> cooldownReason a = None \<and> cooldownModel a = None \<and> windowExpired (cooldownUntil b) t) \<and>
     (disabledUntil a = disabledUntil b \<and> disabledReason a = disabledReason b \<or>
      disabledUntil a = None \<and> disabledReason a = None \<and> windowExpired (disabledUntil b) t)"

lemma starts_over_set:
  "set_window (cooldownUntil s) \<or> set_window (disabledUntil s) \<Longrightarrow>
   startsOver t s \<longleftrightarrow> \<not> isActiveUnusableWindow (cooldownUntil s) t \<and> \<not> isActiveUnusableWindow (disabledUntil s) t"
  by (auto simp: startsOver_def window_expired)

lemma over_gone_cleared:
  assumes o: "over_gone t a b"
    and act: "cooldownUntil a = cooldownUntil b \<and> set_window (cooldownUntil b) \<or> disabledUntil a = disabledUntil b \<and> set_window (disabledUntil b)"
  shows "cleared t a = cleared t b"
proof (rule stats_eqI)
  have "set_window (cooldownUntil a) \<or> set_window (disabledUntil a)" "set_window (cooldownUntil b) \<or> set_window (disabledUntil b)"
    using act by auto
  from this [THEN starts_over_set, of t] have "startsOver t a = startsOver t b"
    using o act by (auto simp: over_gone_def window_expired)
  then show "errorCount (cleared t a) = errorCount (cleared t b)" "failureCounts (cleared t a) = failureCounts (cleared t b)"
    using o by (simp_all add: cleared_counters over_gone_def)
qed (use o in \<open>auto simp: over_gone_def cleared_fields window_expired\<close>)

lemma backoff_positive: "0 < calculateAuthProfileCooldownMs n" "0 < resolveDisabledFailureBackoffMs lane n c"
  by (auto simp: calculateAuthProfileCooldownMs_def resolveDisabledFailureBackoffMs_def calculateDisabledLaneBackoffMs_def
      Let_def max_def min_def split: disabled_reason.split)

lemma kept_window_set: "0 < t \<Longrightarrow> 0 < w \<Longrightarrow> set_window (Some (keepActiveWindowOrRecompute u t (t + w)))"
  by (cases u) (auto simp: keepActiveWindowOrRecompute_def set_window_def)

text \<open>A failure sets the window of its lane, the same after clearing.\<close>

lemma next_same_window:
  assumes t: "t0 \<le> t" "0 < t"
  shows "cooldownUntil (computeNextProfileUsageStats (cleared t0 s) t r c m) = cooldownUntil (computeNextProfileUsageStats s t r c m) \<and>
         set_window (cooldownUntil (computeNextProfileUsageStats s t r c m)) \<or>
         disabledUntil (computeNextProfileUsageStats (cleared t0 s) t r c m) = disabledUntil (computeNextProfileUsageStats s t r c m) \<and>
         set_window (disabledUntil (computeNextProfileUsageStats s t r c m))"
  using t by (cases "disabledFailureReason r")
    (simp_all add: next_windows kept_window_set backoff_positive counter_base_cleared cleared_fields keep_cleared)

text \<open>A failure after clearing and a failure without it differ at most in windows that are over.\<close>

lemma next_over_gone:
  assumes t: "t0 \<le> t" "0 < t"
  shows "over_gone t (computeNextProfileUsageStats (cleared t0 s) t r c m) (computeNextProfileUsageStats s t r c m)"
proof -
  have base: "counterBase (cleared t0 s) t c = counterBase s t c" by (rule counter_base_cleared [OF t(1)])
  have counters: "errorCount (computeNextProfileUsageStats (cleared t0 s) t r c m) = errorCount (computeNextProfileUsageStats s t r c m)"
    "failureCounts (computeNextProfileUsageStats (cleared t0 s) t r c m) = failureCounts (computeNextProfileUsageStats s t r c m)"
    by (simp_all add: next_base base)
  show ?thesis
  proof (cases "disabledFailureReason r")
    case None
    then show ?thesis using t expired_later [OF _ t(1)]
      by (auto simp: over_gone_def counters next_fields(1,2) next_windows next_cooldown(2-4) base cleared_fields keep_cleared next_model_cleared)
  next
    case (Some lane)
    then show ?thesis using t expired_later [OF _ t(1)]
      by (auto simp: over_gone_def counters next_fields(1,2) next_windows next_disabled(2-4) base cleared_fields keep_cleared)
  qed
qed

lemma wham_over_gone:
  assumes t: "t0 \<le> t" "0 < t"
    and o: "over_gone t (computeNextProfileUsageStats (cleared t0 s) t r c m) (computeNextProfileUsageStats s t r c m)"
    and lane: "disabledFailureReason r = None"
  shows "over_gone t (applyWhamCooldownResult (cleared t0 s) (computeNextProfileUsageStats (cleared t0 s) t r c m) t w)
           (applyWhamCooldownResult s (computeNextProfileUsageStats s t r c m) t w)"
proof -
  have e: "(case cooldownUntil (cleared t0 s) of Some u \<Rightarrow> if u > t then u else 0 | None \<Rightarrow> 0) =
      (case cooldownUntil s of Some u \<Rightarrow> if u > t then u else 0 | None \<Rightarrow> (0::rat))"
    using t by (cases "cooldownUntil s") (auto simp: cleared_fields windowExpired_def)
  show ?thesis using o lane t
    by (simp add: applyWhamCooldownResult_def e over_gone_def next_cooldown next_model_cleared Let_def)
qed

lemma failed_cleared:
  assumes t: "t0 \<le> t" "0 < t" and w: "\<And>w. wham = Some w \<Longrightarrow> 0 \<le> wham_cooldownMs w"
  shows "cleared t (failedStats cfg t r m wham p (map_option (cleared t0) s)) = cleared t (failedStats cfg t r m wham p s)"
proof -
  let ?c = "resolveAuthCooldownConfig cfg (normalizeProviderId p)"
  have none: "cleared t0 noStats = noStats" by (simp add: clearExpiredStats_def windowExpired_def noStats_def Let_def)
  have e: "coalesce (map_option (cleared t0) s) noStats = cleared t0 (coalesce s noStats)" by (cases s) (simp_all add: none)
  note o = next_over_gone [OF t, of "coalesce s noStats" r ?c m]
  show ?thesis
  proof (cases "wham \<noteq> None \<and> shouldProbeWhamForFailure (Some p) r")
    case True
    then obtain x where x: "wham = Some x" by auto
    have lane: "disabledFailureReason r = None" using True by (auto simp: shouldProbeWhamForFailure_def disabledFailureReason_def)
    have "set_window (cooldownUntil (applyWhamCooldownResult (coalesce s noStats)
        (computeNextProfileUsageStats (coalesce s noStats) t r ?c m) t x))"
      using t w [OF x] by (auto simp: applyWhamCooldownResult_def set_window_def Let_def)
    moreover have "cooldownUntil (applyWhamCooldownResult (cleared t0 (coalesce s noStats))
        (computeNextProfileUsageStats (cleared t0 (coalesce s noStats)) t r ?c m) t x) =
        cooldownUntil (applyWhamCooldownResult (coalesce s noStats)
        (computeNextProfileUsageStats (coalesce s noStats) t r ?c m) t x)"
      using t by (auto simp: applyWhamCooldownResult_def cleared_fields windowExpired_def Let_def split: option.split)
    ultimately have "cleared t (applyWhamCooldownResult (cleared t0 (coalesce s noStats))
        (computeNextProfileUsageStats (cleared t0 (coalesce s noStats)) t r ?c m) t x) =
        cleared t (applyWhamCooldownResult (coalesce s noStats)
        (computeNextProfileUsageStats (coalesce s noStats) t r ?c m) t x)"
      by (intro over_gone_cleared [OF wham_over_gone [OF t o lane]]) simp
    then show ?thesis
      using True x by (simp add: failedStats_def e Let_def)
  next
    case False
    then have "failedStats cfg t r m wham p q = computeNextProfileUsageStats (coalesce q noStats) t r ?c m" for q
      by (auto simp: failedStats_def Let_def split: option.split)
    then show ?thesis using over_gone_cleared [OF o next_same_window [OF t]] by (simp add: e)
  qed
qed

subsection \<open>Stores\<close>

abbreviation cleanup :: "rat \<Rightarrow> auth_store \<Rightarrow> auth_store" where
  "cleanup t st \<equiv> snd (clearExpiredCooldowns t st)"

lemma cleanup_stats: "usageStats (cleanup t st) = map_option (map (\<lambda>(profileId, s). (profileId, cleared t s))) (usageStats st)"
  by (cases "usageStats st") (simp_all add: clearExpiredCooldowns_def)

lemma cleanup_profiles [simp]: "profiles (cleanup t st) = profiles st" "providerOf (cleanup t st) q = providerOf st q"
  "storeVersion (cleanup t st) = storeVersion st" "profileOrder (cleanup t st) = profileOrder st" "lastGood (cleanup t st) = lastGood st"
  by (simp_all add: clearExpiredCooldowns_def providerOf_def split: option.split)

lemma map_of_map_values: "map_of (map (\<lambda>(k, v). (k, f v)) m) k = map_option f (map_of m k)"
  by (induction m) auto

lemma map_values_update: "map (\<lambda>(k, v). (k, f v)) (AList.update k v m) = AList.update k (f v) (map (\<lambda>(k, v). (k, f v)) m)"
  by (induction m) auto

lemma statsOf_cleanup: "statsOf (cleanup t st) q = map_option (cleared t) (statsOf st q)"
  by (cases "usageStats st") (simp_all add: statsOf_def cleanup_stats map_of_map_values)

lemma update_entry [simp]:
  "profiles (updateUsageStatsEntry q f st) = profiles st" "providerOf (updateUsageStatsEntry q f st) p = providerOf st p"
  "statsOf (updateUsageStatsEntry q f st) p = (if p = q then Some (f (statsOf st q)) else statsOf st p)"
  by (cases "usageStats st"; simp add: updateUsageStatsEntry_def providerOf_def statsOf_def update_conv' Let_def)+

lemma store_eqI:
  "storeVersion a = storeVersion b \<Longrightarrow> profiles a = profiles b \<Longrightarrow> profileOrder a = profileOrder b \<Longrightarrow> lastGood a = lastGood b \<Longrightarrow>
   usageStats a = usageStats b \<Longrightarrow> a = (b::auth_store)"
  by (cases a; cases b) simp

lemma cleanup_twice: assumes "t0 \<le> t" shows "cleanup t (cleanup t0 st) = cleanup t st"
proof (rule store_eqI)
  have "map (\<lambda>(q, s). (q, cleared t s)) (map (\<lambda>(q, s). (q, cleared t0 s)) m) = map (\<lambda>(q, s). (q, cleared t s)) m" for m :: "(string \<times> usage_stats) list"
    using cleared_twice [OF assms] by (induction m) auto
  then show "usageStats (cleanup t (cleanup t0 st)) = usageStats (cleanup t st)"
    by (cases "usageStats st") (simp_all add: cleanup_stats)
qed simp_all

lemma in_cooldown_cleanup:
  "t0 \<le> t \<Longrightarrow> isProfileInCooldown (cleanup t0 st) q t m = isProfileInCooldown st q t m"
  by (auto simp: isProfileInCooldown_def statsOf_cleanup in_cooldown_cleared split: option.splits)

lemma cleanup_update_usage:
  "usageStats (cleanup t (updateUsageStatsEntry q f st)) =
   Some (AList.update q (cleared t (f (map_of (coalesce (usageStats st) []) q)))
          (map (\<lambda>(k, v). (k, cleared t v)) (coalesce (usageStats st) [])))"
  by (simp add: cleanup_stats updateUsageStatsEntry_def map_values_update Let_def)

lemma update_cleanup:
  assumes le: "t0 \<le> t" and f: "\<And>s. cleared t (f (map_option (cleared t0) s)) = cleared t (f s)"
  shows "cleanup t (updateUsageStatsEntry q f (cleanup t0 st)) = cleanup t (updateUsageStatsEntry q f st)"
proof (rule store_eqI)
  define m where "m = coalesce (usageStats st) []"
  have m0: "coalesce (usageStats (cleanup t0 st)) [] = map (\<lambda>(k, v). (k, cleared t0 v)) m"
    by (cases "usageStats st") (simp_all add: cleanup_stats m_def)
  have e: "map (\<lambda>(k, v). (k, cleared t v)) (map (\<lambda>(k, v). (k, cleared t0 v)) m) = map (\<lambda>(k, v). (k, cleared t v)) m"
    using cleared_twice [OF le] by (induction m) auto
  show "usageStats (cleanup t (updateUsageStatsEntry q f (cleanup t0 st))) = usageStats (cleanup t (updateUsageStatsEntry q f st))"
    by (simp only: cleanup_update_usage m0 m_def [symmetric] map_of_map_values f e)
qed (simp_all add: updateUsageStatsEntry_def Let_def)

text \<open>A probe never asks for less than no cooldown, nor for more than a day.\<close>

lemma wham_reset_nonneg: "resolveWhamResetMs w t = Some r \<Longrightarrow> 0 \<le> r"
  by (auto simp: resolveWhamResetMs_def split: option.splits if_splits)

lemma wham_verdict_range:
  "0 \<le> wham_cooldownMs (whamVerdict rl t)" "wham_cooldownMs (whamVerdict rl t) \<le> WHAM_DEAD_ACCOUNT_COOLDOWN_MS"
proof -
  note limits = WHAM_BURST_COOLDOWN_MS_def WHAM_PROBE_FAILURE_COOLDOWN_MS_def WHAM_DEAD_ACCOUNT_COOLDOWN_MS_def
    WHAM_TEAM_ROLLING_MAX_COOLDOWN_MS_def WHAM_PERSONAL_MAX_COOLDOWN_MS_def WHAM_TEAM_WEEKLY_MAX_COOLDOWN_MS_def
  show "0 \<le> wham_cooldownMs (whamVerdict rl t)"
    using wham_reset_nonneg
    by (auto simp: whamVerdict_def wham_probe_failed_def limits Let_def le_floor_iff split: option.split)
  show "wham_cooldownMs (whamVerdict rl t) \<le> WHAM_DEAD_ACCOUNT_COOLDOWN_MS"
    by (auto simp: whamVerdict_def wham_probe_failed_def limits Let_def min_def split: option.split)
qed

lemma probe_range:
  assumes "probeWhamForCooldown headersFor fetch_usage now st q = Some w"
  shows "0 \<le> wham_cooldownMs w \<and> wham_cooldownMs w \<le> WHAM_DEAD_ACCOUNT_COOLDOWN_MS"
proof -
  have "0 \<le> WHAM_TOKEN_EXPIRED_COOLDOWN_MS \<and> WHAM_TOKEN_EXPIRED_COOLDOWN_MS \<le> WHAM_DEAD_ACCOUNT_COOLDOWN_MS"
    "0 \<le> WHAM_HTTP_ERROR_COOLDOWN_MS \<and> WHAM_HTTP_ERROR_COOLDOWN_MS \<le> WHAM_DEAD_ACCOUNT_COOLDOWN_MS"
    "0 \<le> WHAM_PROBE_FAILURE_COOLDOWN_MS \<and> WHAM_PROBE_FAILURE_COOLDOWN_MS \<le> WHAM_DEAD_ACCOUNT_COOLDOWN_MS"
    by (simp_all add: WHAM_TOKEN_EXPIRED_COOLDOWN_MS_def WHAM_DEAD_ACCOUNT_COOLDOWN_MS_def WHAM_HTTP_ERROR_COOLDOWN_MS_def
        WHAM_PROBE_FAILURE_COOLDOWN_MS_def)
  then show ?thesis using assms wham_verdict_range
    by (auto simp: probeWhamForCooldown_def wham_probe_failed_def Let_def
        split: option.splits credential.splits jsval.splits wham_reply.splits if_splits)
qed

text \<open>The mark on a store, with the lock held or not.\<close>

lemma mark_failure_cleanup:
  assumes t: "t0 \<le> t" "0 < t" and w: "\<And>x w. probe store0 q = Some w \<Longrightarrow> 0 \<le> wham_cooldownMs w"
  shows "cleanup t (fst (markAuthProfileFailure probe cfg t (map_option (cleanup t0) fresh) q r m store0 (cleanup t0 st))) =
         cleanup t (fst (markAuthProfileFailure probe cfg t fresh q r m store0 st))"
proof (cases "providerOf store0 q = None \<or> isAuthCooldownBypassedForProvider (providerOf store0 q)")
  case True
  then show ?thesis by (simp add: markAuthProfileFailure_def cleanup_twice [OF t(1)])
next
  case False
  then obtain p0 where p0: "providerOf store0 q = Some p0" "\<not> isAuthCooldownBypassedForProvider (Some p0)" by auto
  define wham where "wham = (if shouldProbeWhamForFailure (Some p0) r then probe store0 q else None)"
  have w': "0 \<le> wham_cooldownMs x" if "wham = Some x" for x using w that by (auto simp: wham_def split: if_splits)
  have up: "cleanup t (updateUsageStatsEntry q (\<lambda>e. failedStats cfg t r m wham p e) (cleanup t0 x)) =
      cleanup t (updateUsageStatsEntry q (\<lambda>e. failedStats cfg t r m wham p e) x)" for p x
    by (rule update_cleanup [OF t(1)], rule failed_cleared [OF t], rule w')
  show ?thesis
  proof (cases fresh)
    case None
    then show ?thesis using p0
      by (cases "providerOf st q")
        (simp_all add: markAuthProfileFailure_def wham_def [symmetric] updateAuthProfileStoreWithLock_def cleanup_twice [OF t(1)] up Let_def)
  next
    case (Some fs)
    have use: "cleanup t (st1\<lparr>usageStats := usageStats a\<rparr>) = cleanup t (st2\<lparr>usageStats := usageStats b\<rparr>)"
      if "cleanup t a = cleanup t b" "storeVersion st1 = storeVersion st2" "profiles st1 = profiles st2"
        "profileOrder st1 = profileOrder st2" "lastGood st1 = lastGood st2" for a b st1 st2
      using that(2-) arg_cong [OF that(1), of usageStats] by (intro store_eqI) (simp_all add: cleanup_stats)
    show ?thesis using p0 Some
      by (cases "providerOf fs q")
        (auto simp: markAuthProfileFailure_def wham_def [symmetric] updateAuthProfileStoreWithLock_def cleanup_twice [OF t(1)] up Let_def
          intro!: use)
  qed
qed

text \<open>C31: Clearing expired cooldowns cannot be observed. A store that was cleared at an earlier time
  answers every later availability question as the store that was not, for every profile and model.
  A failure marked later, whether the lock was held and the store came from disk or not, leaves stores
  that the next clearing makes equal: stale counters on disk never make a backoff longer.\<close>

theorem cleanup_invisible:
  assumes "t0 \<le> t" "0 < t"
  shows "isProfileInCooldown (snd (clearExpiredCooldowns t0 st)) q t m = isProfileInCooldown st q t m \<and>
    snd (clearExpiredCooldowns t (fst (markAuthProfileFailure (probeWhamForCooldown headersFor fetch_usage tp) cfg t
            (map_option (\<lambda>fs. snd (clearExpiredCooldowns t0 fs)) fresh) q r m store0 (snd (clearExpiredCooldowns t0 st))))) =
         snd (clearExpiredCooldowns t (fst (markAuthProfileFailure (probeWhamForCooldown headersFor fetch_usage tp) cfg t
            fresh q r m store0 st)))"
proof
  show "isProfileInCooldown (cleanup t0 st) q t m = isProfileInCooldown st q t m" by (rule in_cooldown_cleanup [OF assms(1)])
qed (rule mark_failure_cleanup [OF assms], drule probe_range, rule conjunct1)

subsection \<open>Cooldowns do not escalate\<close>

text \<open>Failures of one profile, each with its time, reason and model, marked one after another on the
  profile's statistics.\<close>

type_synonym failure = "rat \<times> failure_reason \<times> string option"

definition fail_all :: "resolved_cooldowns \<Rightarrow> failure list \<Rightarrow> usage_stats \<Rightarrow> usage_stats" where
  "fail_all c fs s = fold (\<lambda>(t, r, m) x. computeNextProfileUsageStats x t r c m) fs s"

definition recent_cooldown :: "rat \<Rightarrow> usage_stats \<Rightarrow> bool" where
  "recent_cooldown t s \<longleftrightarrow> disabledUntil s = None \<and>
     (\<exists>u. cooldownUntil s = Some u \<and> 0 < u \<and> u \<le> t + 30000)"

lemma first_cooldown: "calculateAuthProfileCooldownMs 1 = 30000"
  by (simp add: calculateAuthProfileCooldownMs_def)

lemma recent_cooldown_step:
  assumes s: "disabledUntil s = None" "cooldownUntil s = None \<and> errorCount s = None \<or> recent_cooldown t0 s"
    and t: "t0 \<le> t" "0 < t" and r: "disabledFailureReason r = None"
  shows "recent_cooldown t (computeNextProfileUsageStats s t r c m) \<and>
         isActiveUnusableWindow (cooldownUntil (computeNextProfileUsageStats s t r c m)) t"
proof (cases "isActiveUnusableWindow (cooldownUntil s) t")
  case True
  with s t r show ?thesis
    by (auto simp: recent_cooldown_def next_windows next_cooldown keepActiveWindowOrRecompute_def isActiveUnusableWindow_def)
next
  case False
  then have "fst (counterBase s t c) = 0"
    using s t by (auto simp: counterBase_def shouldResetCounters_def unusable_over recent_cooldown_def set_window_def)
  with False s t r show ?thesis
    by (cases "cooldownUntil s")
       (auto simp: recent_cooldown_def next_windows next_cooldown first_cooldown keepActiveWindowOrRecompute_def
          isActiveUnusableWindow_def)
qed

lemma recent_cooldown_run:
  assumes "disabledUntil s = None" "cooldownUntil s = None \<and> errorCount s = None \<or> recent_cooldown t0 s" "0 < t0"
    and "fs \<noteq> []" "sorted (t0 # map fst fs)" "\<forall>(t, r, m) \<in> set fs. disabledFailureReason r = None"
  shows "recent_cooldown (fst (last fs)) (fail_all c fs s) \<and>
         isActiveUnusableWindow (cooldownUntil (fail_all c fs s)) (fst (last fs))"
  using assms
proof (induction fs arbitrary: s t0)
  case (Cons f fs)
  obtain t r m where f: "f = (t, r, m)" by (cases f)
  let ?s = "computeNextProfileUsageStats s t r c m"
  have step: "recent_cooldown t ?s \<and> isActiveUnusableWindow (cooldownUntil ?s) t"
    using Cons.prems f by (intro recent_cooldown_step) auto
  show ?case
  proof (cases fs)
    case Nil
    then show ?thesis using step f by (simp add: fail_all_def)
  next
    case (Cons g gs)
    have "recent_cooldown (fst (last fs)) (fail_all c fs ?s) \<and>
        isActiveUnusableWindow (cooldownUntil (fail_all c fs ?s)) (fst (last fs))"
      using Cons Cons.prems f step by (intro Cons.IH [of _ t]) (auto simp: recent_cooldown_def)
    then show ?thesis using Cons f by (simp add: fail_all_def)
  qed
qed simp

text \<open>Cooldowns never escalate. However many failures a fresh profile collects, at whatever times and
  for whatever reasons short of billing and permanent authentication failures, after the last of them
  it is cooling down for at most 30 seconds more: a failure during a cooldown keeps its end, and a
  failure after it starts the counters again, so the steps of one and five minutes are never taken.\<close>

theorem cooldown_never_escalates:
  assumes "fs \<noteq> []" "sorted (map fst fs)" "0 < fst (hd fs)"
    and "\<forall>(t, r, m) \<in> set fs. r \<noteq> Billing \<and> r \<noteq> AuthPermanent"
  shows "\<exists>u. cooldownUntil (fail_all c fs noStats) = Some u \<and>
           fst (last fs) < u \<and> u \<le> fst (last fs) + 30000"
proof -
  have "sorted (fst (hd fs) # map fst fs)" using assms(1,2) by (cases fs) simp_all
  moreover have "\<forall>(t, r, m) \<in> set fs. disabledFailureReason r = None"
    using assms(4) by (auto simp: disabledFailureReason_def)
  ultimately have "recent_cooldown (fst (last fs)) (fail_all c fs noStats) \<and>
      isActiveUnusableWindow (cooldownUntil (fail_all c fs noStats)) (fst (last fs))"
    using assms(1,3) by (intro recent_cooldown_run [where ?t0.0 = "fst (hd fs)"]) (auto simp only: noStats_def usage_stats.simps)
  then show ?thesis by (auto simp: recent_cooldown_def isActiveUnusableWindow_def)
qed

subsection \<open>A profile that is left alone recovers\<close>

text \<open>Calls on a store that memory and disk agree on; the first argument tells whether the lock was taken.\<close>

datatype profile_event =
    MarkFailed bool rat string failure_reason "string option"
  | MarkCooldown bool rat string
  | MarkUsed bool rat string
  | ClearCooldown bool string
  | ExpireCooldowns rat

definition whenLocked :: "bool \<Rightarrow> auth_store \<Rightarrow> auth_store option" where
  "whenLocked locked st = (if locked then Some st else None)"

fun profile_step ::
    "(auth_store \<Rightarrow> string \<Rightarrow> wham_result option) \<Rightarrow> auth_config option \<Rightarrow> profile_event \<Rightarrow> auth_store \<Rightarrow> auth_store" where
  "profile_step probe cfg (MarkFailed locked now q r m) st = fst (markAuthProfileFailure probe cfg now (whenLocked locked st) q r m st st)"
| "profile_step probe cfg (MarkCooldown locked now q) st = fst (markAuthProfileCooldown probe now (whenLocked locked st) q st st)"
| "profile_step probe cfg (MarkUsed locked now q) st = fst (markAuthProfileUsed now (whenLocked locked st) q st)"
| "profile_step probe cfg (ClearCooldown locked q) st = fst (clearAuthProfileCooldown (whenLocked locked st) q st)"
| "profile_step probe cfg (ExpireCooldowns now) st = snd (clearExpiredCooldowns now st)"

fun failure_time :: "string \<Rightarrow> profile_event \<Rightarrow> rat option" where
  "failure_time q (MarkFailed locked now p r m) = (if p = q then Some now else None)"
| "failure_time q (MarkCooldown locked now p) = (if p = q then Some now else None)"
| "failure_time q ev = None"

text \<open>The longest backoff any failure of a profile can cause.\<close>

definition laneLimit :: "rat \<Rightarrow> rat \<Rightarrow> rat" where
  "laneLimit base longest = max (max 60000 base) longest"

definition longestBackoff :: "auth_config option \<Rightarrow> string \<Rightarrow> rat" where
  "longestBackoff cfg provider =
     (let c = resolveAuthCooldownConfig cfg (normalizeProviderId provider)
      in max WHAM_DEAD_ACCOUNT_COOLDOWN_MS
           (max (laneLimit (billingBackoffMs c) (billingMaxMs c)) (laneLimit (authPermanentBackoffMs c) (authPermanentMaxMs c))))"

definition over_by :: "rat \<Rightarrow> usage_stats \<Rightarrow> bool" where
  "over_by T s \<longleftrightarrow> (\<forall>u. cooldownUntil s = Some u \<longrightarrow> u \<le> T) \<and> (\<forall>u. disabledUntil s = Some u \<longrightarrow> u \<le> T)"

lemma cooldown_le_day: "calculateAuthProfileCooldownMs n \<le> WHAM_DEAD_ACCOUNT_COOLDOWN_MS"
  by (simp add: calculateAuthProfileCooldownMs_def WHAM_DEAD_ACCOUNT_COOLDOWN_MS_def Let_def)

lemma day_le_longest: "WHAM_DEAD_ACCOUNT_COOLDOWN_MS \<le> longestBackoff cfg p"
  by (simp add: longestBackoff_def Let_def)

lemma lane_le_limit: "calculateDisabledLaneBackoffMs n base longest \<le> laneLimit base longest"
  unfolding calculateDisabledLaneBackoffMs_def laneLimit_def Let_def by (rule min.cobounded1)

lemma lane_le_longest:
  "resolveDisabledFailureBackoffMs lane n (resolveAuthCooldownConfig cfg (normalizeProviderId p)) \<le> longestBackoff cfg p"
  unfolding resolveDisabledFailureBackoffMs_def longestBackoff_def Let_def
  by (cases lane) (simp_all add: le_max_iff_disj lane_le_limit)

lemma keep_over: "(\<forall>u. w = Some u \<longrightarrow> u \<le> T) \<Longrightarrow> r \<le> T \<Longrightarrow> keepActiveWindowOrRecompute w now r \<le> T"
  by (auto simp: keepActiveWindowOrRecompute_def split: option.split)

lemma next_over:
  assumes s: "over_by T s" and T: "now + longestBackoff cfg p \<le> T" "disabledFailureReason r = None \<or> c = resolveAuthCooldownConfig cfg (normalizeProviderId p)"
  shows "over_by T (computeNextProfileUsageStats s now r c m)"
proof (cases "disabledFailureReason r")
  case None
  have "now + calculateAuthProfileCooldownMs n \<le> T" for n
    using cooldown_le_day [of n] day_le_longest [of cfg p] T(1) by linarith
  then show ?thesis using s None by (auto simp: over_by_def next_windows intro: keep_over)
next
  case (Some lane)
  have "now + resolveDisabledFailureBackoffMs lane n c \<le> T" for n
    using lane_le_longest [of lane n cfg p] T Some by auto
  then show ?thesis using s Some by (auto simp: over_by_def next_windows intro: keep_over)
qed

lemma no_stats_over: "over_by T noStats"
  by (simp add: over_by_def noStats_def)

lemma failed_over:
  assumes s: "\<And>x. s = Some x \<Longrightarrow> over_by T x" and T: "now + longestBackoff cfg p \<le> T" "0 \<le> T" "cfg' = cfg \<or> disabledFailureReason r = None"
    and w: "\<And>x. wham = Some x \<Longrightarrow> wham_cooldownMs x \<le> WHAM_DEAD_ACCOUNT_COOLDOWN_MS"
  shows "over_by T (failedStats cfg' now r m wham p s)"
proof -
  let ?s = "coalesce s noStats"
  have s': "over_by T ?s" using s no_stats_over by (cases s) auto
  have n: "over_by T (computeNextProfileUsageStats ?s now r (resolveAuthCooldownConfig cfg' (normalizeProviderId p)) m)"
    by (rule next_over [OF s' T(1)]) (use T(3) in auto)
  have "now + wham_cooldownMs x \<le> T" if "wham = Some x" for x
    using w [OF that] day_le_longest [of cfg p] T(1) by linarith
  then show ?thesis using n s' T(2)
    by (auto simp: failedStats_def applyWhamCooldownResult_def over_by_def Let_def split: option.splits)
qed

lemma reset_over: "over_by T (resetUsageStats s t)"
  by (simp add: over_by_def resetUsageStats_def Let_def)

lemma cleared_over: "over_by T s \<Longrightarrow> over_by T (cleared t s)"
  by (simp add: over_by_def cleared_fields)

definition profile_over :: "string \<Rightarrow> rat \<Rightarrow> auth_store \<Rightarrow> bool" where
  "profile_over q T st \<longleftrightarrow> (\<forall>s. statsOf st q = Some s \<longrightarrow> over_by T s)"

lemma set_usage: "statsOf (st\<lparr>usageStats := usageStats st'\<rparr>) q = statsOf st' q" "providerOf (st\<lparr>usageStats := u\<rparr>) q = providerOf st q"
  by (simp_all add: statsOf_def providerOf_def)

lemmas profile_ops = markAuthProfileCooldown_def markAuthProfileFailure_def markAuthProfileUsed_def clearAuthProfileCooldown_def
  updateAuthProfileStoreWithLock_def whenLocked_def

lemma provider_kept: "providerOf (profile_step probe cfg ev st) q = providerOf st q"
  by (cases ev) (auto simp: profile_ops set_usage Let_def split: option.split)

lemma profile_over_update:
  "profile_over q T st \<Longrightarrow> (p = q \<Longrightarrow> over_by T (f (statsOf st q))) \<Longrightarrow> profile_over q T (updateUsageStatsEntry p f st)"
  by (auto simp: profile_over_def)

lemma profile_over_step:
  assumes st: "profile_over q T st" and T: "0 \<le> T"
    and probe: "\<And>st q x. probe st q = Some x \<Longrightarrow> wham_cooldownMs x \<le> WHAM_DEAD_ACCOUNT_COOLDOWN_MS"
    and ev: "\<And>t. failure_time q ev = Some t \<Longrightarrow> t + longestBackoff cfg (coalesce (providerOf st q) []) \<le> T"
  shows "profile_over q T (profile_step probe cfg ev st)"
proof -
  have fail: "profile_over q T (fst (markAuthProfileFailure probe cfg' now (whenLocked locked st) p r m st st))"
    if t: "p = q \<Longrightarrow> now + longestBackoff cfg (coalesce (providerOf st q) []) \<le> T" and c: "cfg' = cfg \<or> disabledFailureReason r = None"
    for cfg' now locked p r m
  proof -
    have f: "over_by T (failedStats cfg' now r m w (coalesce (providerOf st q) []) (statsOf st q))"
      if "p = q" "w = None \<or> w = probe st q" for w
      by (rule failed_over [OF _ t [OF that(1)] T c]) (use st probe that in \<open>auto simp: profile_over_def\<close>)
    show ?thesis
      using st f by (cases "providerOf st p")
        (auto simp: markAuthProfileFailure_def updateAuthProfileStoreWithLock_def whenLocked_def profile_over_def set_usage Let_def)
  qed
  show ?thesis
  proof (cases ev)
    case (MarkFailed locked now p r m)
    then show ?thesis using fail [of p now cfg] ev by simp
  next
    case (MarkCooldown locked now p)
    then show ?thesis using fail [of p now None Unknown] ev by (simp add: markAuthProfileCooldown_def disabledFailureReason_def)
  next
    case (MarkUsed locked now p)
    then show ?thesis using st
      by (auto simp: markAuthProfileUsed_def updateAuthProfileStoreWithLock_def whenLocked_def profile_over_def set_usage reset_over Let_def)
  next
    case (ClearCooldown locked p)
    then show ?thesis using st
      by (auto simp: clearAuthProfileCooldown_def updateAuthProfileStoreWithLock_def whenLocked_def profile_over_def set_usage reset_over Let_def)
  next
    case (ExpireCooldowns now)
    then show ?thesis using st by (auto simp: profile_over_def statsOf_cleanup cleared_over)
  qed
qed

lemma over_available: "profile_over q T st \<Longrightarrow> \<not> isProfileInCooldown st q T m"
  by (auto simp: isProfileInCooldown_def stats_in_cooldown profile_over_def over_by_def isActiveUnusableWindow_def split: option.splits)

lemma profile_over_run:
  assumes "profile_over q T st" "0 \<le> T"
    and "\<And>st q x. probe st q = Some x \<Longrightarrow> wham_cooldownMs x \<le> WHAM_DEAD_ACCOUNT_COOLDOWN_MS"
    and "\<forall>ev \<in> set evs. \<forall>t. failure_time q ev = Some t \<longrightarrow> t + longestBackoff cfg (coalesce (providerOf st q) []) \<le> T"
  shows "profile_over q T (fold (profile_step probe cfg) evs st)"
  using assms
proof (induction evs arbitrary: st)
  case (Cons ev evs)
  have "profile_over q T (profile_step probe cfg ev st)"
    by (rule profile_over_step [OF Cons.prems(1,2,3)]) (use Cons.prems(4) in auto)
  then show ?case using Cons.IH [of "profile_step probe cfg ev st"] Cons.prems by (simp add: provider_kept)
qed simp

text \<open>A profile that is left alone recovers. Whatever was marked on the store, in whatever order and
  whether the lock was taken or not, with whatever answers of the usage service: once the longest backoff
  of the configuration (24 hours unless the configuration asks for more) has passed since the last failure
  of a profile, the profile is available for every model.\<close>

theorem quiet_profile_recovers:
  assumes "statsOf st q = None" "0 \<le> T"
    and "\<forall>ev \<in> set evs. \<forall>t. failure_time q ev = Some t \<longrightarrow> t + longestBackoff cfg (coalesce (providerOf st q) []) \<le> T"
  shows "\<not> isProfileInCooldown (fold (profile_step (probeWhamForCooldown headersFor fetch_usage tp) cfg) evs st) q T m"
  by (rule over_available, rule profile_over_run) (use assms probe_range in \<open>auto simp: profile_over_def\<close>)

subsection \<open>Concrete runs\<close>

definition sample_store :: auth_store where
  "sample_store = \<lparr>storeVersion = 1,
     profiles = [(''openai:main'', ApiKey \<lparr>ak_provider = ''openai'', ak_key = JStr ''sk'', ak_keyRef = JUndefined,
        ak_copyToAgents = None, ak_email = None, ak_displayName = None, ak_metadata = None\<rparr>)],
     profileOrder = None, lastGood = None, usageStats = None\<rparr>"

lemma cooldown_never_escalates_witness:
  "\<exists>u. cooldownUntil (fail_all (resolveAuthCooldownConfig None ''openai'')
       [(1000, RateLimit, Some ''gpt''), (2000, Overloaded, None), (100000, Timeout, None)] noStats) = Some u \<and>
     100000 < u \<and> u \<le> 130000"
  using cooldown_never_escalates [of "[(1000, RateLimit, Some ''gpt''), (2000, Overloaded, None), (100000, Timeout, None)]"
      "resolveAuthCooldownConfig None ''openai''"] by simp

lemma cleanup_invisible_witness:
  "let stale = sample_store\<lparr>usageStats := Some [(''openai:main'', noStats\<lparr>cooldownUntil := Some 4, errorCount := Some 7\<rparr>)]\<rparr>;
       fail = (\<lambda>disk st. fst (markAuthProfileFailure (probeWhamForCooldown (\<lambda>h. None) (\<lambda>h. WhamThrew) 0) None 9 disk
                 ''openai:main'' RateLimit None sample_store st))
   in snd (clearExpiredCooldowns 9 (fail None (snd (clearExpiredCooldowns 5 stale)))) =
      snd (clearExpiredCooldowns 9 (fail None stale))"
  unfolding Let_def
  using cleanup_invisible [where ?t0.0 = 5 and t = 9 and fresh = None and cfg = None and tp = 0
      and headersFor = "\<lambda>h. None" and fetch_usage = "\<lambda>h. WhamThrew"
      and q = "''openai:main''" and r = RateLimit and m = None and ?store0.0 = sample_store
      and st = "sample_store\<lparr>usageStats := Some [(''openai:main'', noStats\<lparr>cooldownUntil := Some 4, errorCount := Some 7\<rparr>)]\<rparr>"]
  by simp

lemma quiet_profile_recovers_witness:
  "\<not> isProfileInCooldown
     (fold (profile_step (probeWhamForCooldown (\<lambda>h. None) (\<lambda>h. WhamThrew) 0) None)
       [MarkFailed True 1000 ''openai:main'' Billing None, MarkUsed False 5000 ''openai:main'',
        MarkFailed False 9000 ''openai:main'' RateLimit None] sample_store)
     ''openai:main'' 86409000 None"
proof (rule quiet_profile_recovers)
  show "statsOf sample_store ''openai:main'' = None" by (simp add: statsOf_def sample_store_def)
  have "longestBackoff None p = 86400000" for p
    by (simp add: longestBackoff_def laneLimit_def resolveAuthCooldownConfig_def resolvePositiveNumber_def billingOverride_def
        WHAM_DEAD_ACCOUNT_COOLDOWN_MS_def Let_def)
  then show "\<forall>ev \<in> set [MarkFailed True 1000 ''openai:main'' Billing None, MarkUsed False 5000 ''openai:main'',
        MarkFailed False 9000 ''openai:main'' RateLimit None].
      \<forall>t. failure_time ''openai:main'' ev = Some t \<longrightarrow> t + longestBackoff None (coalesce (providerOf sample_store ''openai:main'') []) \<le> 86409000"
    by simp
qed simp

end
