(* ===== verification/AuthOrder.thy ===== *)
theory AuthOrder
  imports AuthBackoff "HOL-Library.Product_Lexorder"
begin

text \<open>
  The order in which the profiles of a provider are tried:
  \<^verbatim>\<open>packages/core/src/agents/auth-profiles/order.ts\<close> and \<^verbatim>\<open>profile-list.ts\<close>.

  The alias maps of the plugin registry with and without the configuration are arguments, and the time at
  which each profile's cooldown is looked at: the code reads the clock once per profile.
\<close>

datatype eligibility_reason = CredentialReason credential_reason | ProfileMissing | ProviderMismatch | ModeMismatch

text \<open>\<^verbatim>\<open>[...new Set(ids)]\<close>: the first of equal ids stays.\<close>

fun dedupeProfileIds :: "string list \<Rightarrow> string list" where
  "dedupeProfileIds [] = []"
| "dedupeProfileIds (q # qs) = q # filter (\<lambda>p. p \<noteq> q) (dedupeProfileIds qs)"

definition listProfilesForProvider :: "(string \<Rightarrow> string option) \<Rightarrow> auth_store \<Rightarrow> string \<Rightarrow> string list" where
  "listProfilesForProvider aliases st provider =
     map fst (filter (\<lambda>(q, cred). resolveProviderIdForAuth aliases (cred_provider cred) = resolveProviderIdForAuth aliases provider)
       (profiles st))"

definition resolveAuthProfileEligibility ::
    "(string \<Rightarrow> string option) \<Rightarrow> auth_config option \<Rightarrow> auth_store \<Rightarrow> string \<Rightarrow> string \<Rightarrow> rat \<Rightarrow> bool \<times> eligibility_reason" where
  "resolveAuthProfileEligibility aliases cfg st provider profileId now =
     (let providerAuthKey = resolveProviderIdForAuth aliases provider
      in case map_of (profiles st) profileId of
           None \<Rightarrow> (False, ProfileMissing)
         | Some cred \<Rightarrow>
             (let credentialEligibility = evaluateStoredCredentialEligibility cred now;
                  verdict = (fst credentialEligibility, CredentialReason (snd credentialEligibility))
              in if resolveProviderIdForAuth aliases (cred_provider cred) \<noteq> providerAuthKey then (False, ProviderMismatch)
                 else (case Option.bind (Option.bind cfg ac_profiles) (\<lambda>m. map_of m profileId) of
                         None \<Rightarrow> verdict
                       | Some pc \<Rightarrow>
                           if resolveProviderIdForAuth aliases (pc_provider pc) \<noteq> providerAuthKey then (False, ProviderMismatch)
                           else if pc_mode pc \<noteq> cred_type cred \<and> \<not> (pc_mode pc = OAuthMode \<and> cred_type cred = TokenMode)
                           then (False, ModeMismatch)
                           else verdict)))"

definition resolveAuthOrder :: "(string, string list) js_map option \<Rightarrow> string \<Rightarrow> string list option" where
  "resolveAuthOrder order provider = findNormalizedProviderValue order provider"

definition explicitOrder :: "(string \<Rightarrow> string option) \<Rightarrow> auth_config option \<Rightarrow> auth_store \<Rightarrow> string \<Rightarrow> string list option" where
  "explicitOrder aliases cfg st provider =
     (let providerKey = normalizeProviderId provider;
          providerAuthKey = resolveProviderIdForAuth aliases provider;
          storedOrder = or_else (resolveAuthOrder (profileOrder st) providerAuthKey) (resolveAuthOrder (profileOrder st) providerKey);
          configuredOrder = or_else (resolveAuthOrder (Option.bind cfg ac_order) providerAuthKey)
                              (resolveAuthOrder (Option.bind cfg ac_order) providerKey)
      in or_else storedOrder configuredOrder)"

definition explicitProfiles :: "(string \<Rightarrow> string option) \<Rightarrow> auth_config option \<Rightarrow> string \<Rightarrow> string list" where
  "explicitProfiles aliases cfg provider =
     map fst (filter (\<lambda>(q, pc). resolveProviderIdForAuth aliases (pc_provider pc) = resolveProviderIdForAuth aliases provider)
       (coalesce (Option.bind cfg ac_profiles) []))"

definition baseOrder ::
    "(string \<Rightarrow> string option) \<Rightarrow> (string \<Rightarrow> string option) \<Rightarrow> auth_config option \<Rightarrow> auth_store \<Rightarrow> string \<Rightarrow> string list" where
  "baseOrder aliases plainAliases cfg st provider =
     coalesce (explicitOrder aliases cfg st provider)
       (if explicitProfiles aliases cfg provider \<noteq> [] then explicitProfiles aliases cfg provider
        else listProfilesForProvider plainAliases st provider)"

text \<open>The valid profiles of the base order, repaired from the store when every id of it is stale.\<close>

definition validProfiles ::
    "(string \<Rightarrow> string option) \<Rightarrow> (string \<Rightarrow> string option) \<Rightarrow> auth_config option \<Rightarrow> auth_store \<Rightarrow> string \<Rightarrow> rat \<Rightarrow> string list" where
  "validProfiles aliases plainAliases cfg st provider now =
     (let base = baseOrder aliases plainAliases cfg st provider;
          isValidProfile = (\<lambda>q. fst (resolveAuthProfileEligibility aliases cfg st provider q now));
          filtered = filter isValidProfile base;
          allBaseProfilesMissing = list_all (\<lambda>q. map_of (profiles st) q = None) base
      in if filtered = [] \<and> explicitProfiles aliases cfg provider \<noteq> [] \<and> allBaseProfilesMissing
         then filter isValidProfile (listProfilesForProvider plainAliases st provider)
         else filtered)"

definition cooldownEnd :: "auth_store \<Rightarrow> rat \<Rightarrow> string \<Rightarrow> rat" where
  "cooldownEnd st now q = coalesce (resolveProfileUnusableUntil (coalesce (statsOf st q) noStats)) now"

definition typeScore :: "auth_store \<Rightarrow> string \<Rightarrow> nat" where
  "typeScore st q =
     (case map_option cred_type (map_of (profiles st) q) of
        Some OAuthMode \<Rightarrow> 0 | Some TokenMode \<Rightarrow> 1 | Some ApiKeyMode \<Rightarrow> 2 | None \<Rightarrow> 3)"

definition lastUsedAt :: "auth_store \<Rightarrow> string \<Rightarrow> rat" where
  "lastUsedAt st q = coalesce (Option.bind (statsOf st q) lastUsed) 0"

definition orderProfilesByMode :: "(string \<Rightarrow> rat) \<Rightarrow> rat \<Rightarrow> string list \<Rightarrow> auth_store \<Rightarrow> string list" where
  "orderProfilesByMode clock now order st =
     (let available = filter (\<lambda>q. \<not> isProfileInCooldown st q (clock q) None) order;
          inCooldown = filter (\<lambda>q. isProfileInCooldown st q (clock q) None) order;
          sorted_available = sort_key (\<lambda>q. (typeScore st q, lastUsedAt st q)) available;
          cooldownSorted = sort_key (cooldownEnd st now) inCooldown
      in sorted_available @ cooldownSorted)"

definition preferFirst :: "string option \<Rightarrow> string list \<Rightarrow> string list" where
  "preferFirst preferred ordered =
     (case preferred of
        None \<Rightarrow> ordered
      | Some p \<Rightarrow> if p \<noteq> [] \<and> p \<in> set ordered then p # filter (\<lambda>e. e \<noteq> p) ordered else ordered)"

text \<open>The order, and the store with its expired cooldowns cleared. \<open>now\<close> is the clock at the start,
  \<open>clock\<close> and \<open>later\<close> the later readings.\<close>

definition resolveAuthProfileOrder ::
    "(string \<Rightarrow> string option) \<Rightarrow> (string \<Rightarrow> string option) \<Rightarrow> auth_config option \<Rightarrow> rat \<Rightarrow> (string \<Rightarrow> rat) \<Rightarrow> rat \<Rightarrow>
     auth_store \<Rightarrow> string \<Rightarrow> string option \<Rightarrow> string list \<times> auth_store" where
  "resolveAuthProfileOrder aliases plainAliases cfg now clock later st0 provider preferred =
     (let st = snd (clearExpiredCooldowns now st0)
      in (if baseOrder aliases plainAliases cfg st provider = [] then []
          else (let deduped = dedupeProfileIds (validProfiles aliases plainAliases cfg st provider now)
                in case explicitOrder aliases cfg st provider of
                     Some (q # qs) \<Rightarrow>
                       (let available = filter (\<lambda>q. \<not> isProfileInCooldown st q (clock q) None) deduped;
                            inCooldown = filter (\<lambda>q. isProfileInCooldown st q (clock q) None) deduped
                        in preferFirst preferred (available @ sort_key (cooldownEnd st now) inCooldown))
                   | _ \<Rightarrow> preferFirst preferred (orderProfilesByMode clock later deduped st)),
          st))"

subsection \<open>Facts\<close>

lemma set_dedupe [simp]: "set (dedupeProfileIds qs) = set qs"
  by (induction qs) auto

lemma distinct_dedupe [simp]: "distinct (dedupeProfileIds qs)"
  by (induction qs) auto

lemma set_prefer_first [simp]: "set (preferFirst p qs) = set qs"
  by (auto simp: preferFirst_def split: option.split)

lemma distinct_prefer_first [simp]: "distinct qs \<Longrightarrow> distinct (preferFirst p qs)"
  by (auto simp: preferFirst_def split: option.split)

lemma prefer_first_head: "p \<noteq> [] \<Longrightarrow> p \<in> set qs \<Longrightarrow> \<exists>rest. preferFirst (Some p) qs = p # rest \<and> rest = filter (\<lambda>q. q \<noteq> p) qs"
  by (simp add: preferFirst_def)

text \<open>The available profiles, then the cooling ones by the end of their cooldown.\<close>

definition coolingUntil :: "auth_store \<Rightarrow> string \<Rightarrow> rat" where
  "coolingUntil st q = the (Option.bind (statsOf st q) resolveProfileUnusableUntil)"

definition servable_order :: "auth_store \<Rightarrow> (string \<Rightarrow> rat) \<Rightarrow> string list \<Rightarrow> string list \<Rightarrow> bool" where
  "servable_order st clock avail cool \<longleftrightarrow>
     distinct (avail @ cool) \<and> list_all (\<lambda>q. \<not> isProfileInCooldown st q (clock q) None) avail \<and>
     list_all (\<lambda>q. isProfileInCooldown st q (clock q) None) cool \<and> sorted (map (coolingUntil st) cool)"

lemma cooling_has_end: "isProfileInCooldown st q t None \<Longrightarrow> cooldownEnd st now q = coolingUntil st q"
  by (auto simp: isProfileInCooldown_def statsInCooldown_def cooldownEnd_def coolingUntil_def shouldBypassModelScopedCooldown_def
      split: option.splits if_splits)

lemma servable_orderI:
  assumes "distinct qs" and a: "mset avail = mset (filter (\<lambda>q. \<not> isProfileInCooldown st q (clock q) None) qs)"
    and c: "cool = sort_key (cooldownEnd st now) (filter (\<lambda>q. isProfileInCooldown st q (clock q) None) qs)"
  shows "servable_order st clock avail cool \<and> set (avail @ cool) = set qs"
proof -
  have sets: "set avail = {q \<in> set qs. \<not> isProfileInCooldown st q (clock q) None}"
    "set cool = {q \<in> set qs. isProfileInCooldown st q (clock q) None}"
    using mset_eq_setD [OF a] c by auto
  have "distinct avail" "distinct cool"
    using mset_eq_imp_distinct_iff [OF a] c assms(1) by simp_all
  moreover have m: "map (coolingUntil st) cool = map (cooldownEnd st now) cool"
    using sets(2) cooling_has_end by (intro map_cong) auto
  have "sorted (map (coolingUntil st) cool)" unfolding m unfolding c by (rule sorted_sort_key)
  ultimately show ?thesis using sets by (auto simp: servable_order_def list_all_iff)
qed

lemma valid_profiles:
  "q \<in> set (validProfiles aliases plain cfg st provider now) \<Longrightarrow> fst (resolveAuthProfileEligibility aliases cfg st provider q now)"
  "q \<in> set (baseOrder aliases plain cfg st provider) \<Longrightarrow> fst (resolveAuthProfileEligibility aliases cfg st provider q now) \<Longrightarrow>
   q \<in> set (validProfiles aliases plain cfg st provider now)"
  by (auto simp: validProfiles_def Let_def filter_empty_conv split: if_splits)

text \<open>C30: The order of profiles. The result is made of distinct profiles, all of them eligible, and holds every
  eligible profile of the base order. The profiles available at the time they were looked at come first and
  the cooling ones after them, by the end of their cooldown; only the preferred profile may be moved to
  the front. Without an explicit order the available ones go by type (OAuth, token, API key) and then by
  the time of their last use, the oldest first.\<close>

theorem order_available_first:
  "let (ids, st) = resolveAuthProfileOrder aliases plainAliases cfg now clock later st0 provider preferred;
       base = baseOrder aliases plainAliases cfg st provider;
       eligible = (\<lambda>q. fst (resolveAuthProfileEligibility aliases cfg st provider q now))
   in (\<exists>avail cool. ids = preferFirst preferred (avail @ cool) \<and> servable_order st clock avail cool \<and>
         (explicitOrder aliases cfg st provider = None \<longrightarrow> sorted (map (\<lambda>q. (typeScore st q, lastUsedAt st q)) avail))) \<and>
      (\<forall>q \<in> set ids. eligible q) \<and> (\<forall>q \<in> set base. eligible q \<longrightarrow> q \<in> set ids)"
proof -
  define st where "st = snd (clearExpiredCooldowns now st0)"
  define base where "base = baseOrder aliases plainAliases cfg st provider"
  define valid where "valid = validProfiles aliases plainAliases cfg st provider now"
  define deduped where "deduped = dedupeProfileIds valid"
  define avail where "avail = filter (\<lambda>q. \<not> isProfileInCooldown st q (clock q) None) deduped"
  define cool where "cool = filter (\<lambda>q. isProfileInCooldown st q (clock q) None) deduped"
  define key where "key = (\<lambda>q. (typeScore st q, lastUsedAt st q))"
  define ids where "ids = fst (resolveAuthProfileOrder aliases plainAliases cfg now clock later st0 provider preferred)"
  have res: "resolveAuthProfileOrder aliases plainAliases cfg now clock later st0 provider preferred = (ids, st)"
    by (simp add: ids_def resolveAuthProfileOrder_def st_def Let_def)
  have members: "(\<forall>q \<in> set valid. fst (resolveAuthProfileEligibility aliases cfg st provider q now)) \<and>
      (\<forall>q \<in> set base. fst (resolveAuthProfileEligibility aliases cfg st provider q now) \<longrightarrow> q \<in> set valid)"
    using valid_profiles by (auto simp: valid_def base_def)
  have "(\<exists>a c. ids = preferFirst preferred (a @ c) \<and> servable_order st clock a c \<and>
         (explicitOrder aliases cfg st provider = None \<longrightarrow> sorted (map key a))) \<and>
      (base = [] \<longrightarrow> ids = []) \<and> (base \<noteq> [] \<longrightarrow> set ids = set valid)"
  proof (cases "base = []")
    case True
    then have "ids = []" by (simp add: ids_def resolveAuthProfileOrder_def st_def base_def Let_def)
    then show ?thesis using True
      by (auto intro!: exI [of _ "[]"] simp: servable_order_def preferFirst_def split: option.split)
  next
    case False
    have dist: "distinct deduped" "set deduped = set valid" by (simp_all add: deduped_def)
    show ?thesis
    proof (cases "\<exists>q qs. explicitOrder aliases cfg st provider = Some (q # qs)")
      case True
      then have "ids = preferFirst preferred (avail @ sort_key (cooldownEnd st now) cool)"
        using False by (auto simp: ids_def resolveAuthProfileOrder_def st_def base_def valid_def deduped_def avail_def cool_def Let_def)
      moreover have "servable_order st clock avail (sort_key (cooldownEnd st now) cool) \<and>
          set (avail @ sort_key (cooldownEnd st now) cool) = set deduped"
        by (rule servable_orderI [OF dist(1)]) (simp_all add: avail_def cool_def)
      ultimately show ?thesis using True False dist(2)
        by (intro conjI exI [of _ avail] exI [of _ "sort_key (cooldownEnd st now) cool"]) auto
    next
      case explicit: False
      have "ids = preferFirst preferred (sort_key key avail @ sort_key (cooldownEnd st later) cool)"
        using False explicit
        by (auto simp: ids_def resolveAuthProfileOrder_def st_def base_def valid_def deduped_def avail_def cool_def
            orderProfilesByMode_def key_def Let_def split: option.split list.split)
      moreover have "servable_order st clock (sort_key key avail) (sort_key (cooldownEnd st later) cool) \<and>
          set (sort_key key avail @ sort_key (cooldownEnd st later) cool) = set deduped"
        by (rule servable_orderI [OF dist(1)]) (simp_all add: avail_def cool_def)
      ultimately show ?thesis using False dist(2)
        by (intro conjI exI [of _ "sort_key key avail"] exI [of _ "sort_key (cooldownEnd st later) cool"]) auto
    qed
  qed
  then show ?thesis using members unfolding Let_def res prod.case base_def [symmetric] key_def by auto
qed

subsection \<open>A concrete order\<close>

definition two_profiles :: auth_store where
  "two_profiles = sample_store\<lparr>
     profiles := [(''a'', ApiKey \<lparr>ak_provider = ''openai'', ak_key = JStr ''k1'', ak_keyRef = JUndefined,
        ak_copyToAgents = None, ak_email = None, ak_displayName = None, ak_metadata = None\<rparr>),
      (''b'', ApiKey \<lparr>ak_provider = ''openai'', ak_key = JStr ''k2'', ak_keyRef = JUndefined,
        ak_copyToAgents = None, ak_email = None, ak_displayName = None, ak_metadata = None\<rparr>)],
     usageStats := Some [(''a'', noStats\<lparr>cooldownUntil := Some 9000\<rparr>)]\<rparr>"

lemma order_available_first_witness:
  "''b'' \<in> set (fst (resolveAuthProfileOrder (\<lambda>p. None) (\<lambda>p. None) None 1000 (\<lambda>q. 1000) 1000 two_profiles ''openai'' None))"
proof -
  have p: "normalizeProviderId ''openai'' = ''openai''"
    by (simp add: normalizeProviderId_def lower_or_empty js_trim_def js_lower_def js_lower_char_def js_space_def)
  have "''b'' \<in> set (baseOrder (\<lambda>p. None) (\<lambda>p. None) None (snd (clearExpiredCooldowns 1000 two_profiles)) ''openai'')"
    by (simp add: baseOrder_def explicitOrder_def explicitProfiles_def resolveAuthOrder_def findNormalizedProviderValue_def
        listProfilesForProvider_def resolveProviderIdForAuth_def two_profiles_def sample_store_def p Let_def)
  moreover have "fst (resolveAuthProfileEligibility (\<lambda>p. None) None (snd (clearExpiredCooldowns 1000 two_profiles)) ''openai'' ''b'' 1000)"
    by (simp add: resolveAuthProfileEligibility_def two_profiles_def hasConfiguredSecretString_def normalizeSecretInputString_def
        js_trim_def js_space_def p Let_def)
  moreover have "snd (resolveAuthProfileOrder (\<lambda>p. None) (\<lambda>p. None) None 1000 (\<lambda>q. 1000) 1000 two_profiles ''openai'' None) =
      snd (clearExpiredCooldowns 1000 two_profiles)" by (simp add: resolveAuthProfileOrder_def Let_def)
  ultimately show ?thesis
    using order_available_first [of "\<lambda>p. None" "\<lambda>p. None" None 1000 "\<lambda>q. 1000" 1000 two_profiles "''openai''" None]
    by (simp add: case_prod_beta Let_def)
qed

end
