(* ===== verification/QueueHelpers.thy ===== *)
theory QueueHelpers
  imports StringCoerce
begin

text \<open>
  The queue building blocks of \<^verbatim>\<open>packages/core/src/utils/queue-helpers.ts\<close>, the settings of the followup
  queue in \<^verbatim>\<open>auto-reply/reply/queue/normalize.ts\<close> and \<^verbatim>\<open>settings.ts\<close>, and the decision of
  \<^verbatim>\<open>auto-reply/reply/queue-policy.ts\<close>.

  A queue record is extended by the queues built from it. The helpers that run an item and wait for it
  are split at the wait: what happens before it is here, what happens after it is a step of the queue.
  The ellipsis U+2026 is written with its Windows-1252 code.
\<close>

datatype drop_policy = DropSummarize | DropOld | DropNew

record 'i queue_core =
  items :: "'i list"
  cap :: int
  dropPolicy :: drop_policy
  droppedCount :: nat
  summaryLines :: "string list"

definition clearQueueSummaryState :: "('i, 'm) queue_core_scheme \<Rightarrow> ('i, 'm) queue_core_scheme" where
  "clearQueueSummaryState q = q\<lparr>droppedCount := 0, summaryLines := []\<rparr>"

definition join_lines :: "string \<Rightarrow> string list \<Rightarrow> string" where
  "join_lines sep ls = (case ls of [] \<Rightarrow> [] | l # rest \<Rightarrow> l @ concat (map (\<lambda>x. sep @ x) rest))"

definition queue_overflow_title :: "nat \<Rightarrow> string \<Rightarrow> string" where
  "queue_overflow_title n noun =
     ''[Queue overflow] Dropped '' @ show_nat n @ '' '' @ noun @ (if n = 1 then '''' else ''s'') @ '' due to cap.''"

text \<open>The prompt, and the queue with its summary cleared when there was one.\<close>

definition buildQueueSummaryPrompt ::
    "string \<Rightarrow> string option \<Rightarrow> ('i, 'm) queue_core_scheme \<Rightarrow> string option \<times> ('i, 'm) queue_core_scheme" where
  "buildQueueSummaryPrompt noun givenTitle q =
     (if dropPolicy q \<noteq> DropSummarize \<or> droppedCount q = 0 then (None, q)
      else (let title = coalesce givenTitle (queue_overflow_title (droppedCount q) noun);
                ls = title # (if summaryLines q \<noteq> [] then ''Summary:'' # map (\<lambda>l. ''- '' @ l) (summaryLines q) else [])
            in (Some (join_lines [CHR 10] ls), clearQueueSummaryState q)))"

text \<open>Works on a copy of the summary, so the queue stays as it is.\<close>

definition previewQueueSummaryPrompt :: "string \<Rightarrow> string option \<Rightarrow> ('i, 'm) queue_core_scheme \<Rightarrow> string option" where
  "previewQueueSummaryPrompt noun givenTitle q = fst (buildQueueSummaryPrompt noun givenTitle q)"

definition js_trim_end :: "string \<Rightarrow> string" where
  "js_trim_end s = rev (dropWhile js_space (rev s))"

definition ellipsis :: string where
  "ellipsis = [char_of (133::nat)]"

definition elideQueueText :: "string \<Rightarrow> nat \<Rightarrow> string" where
  "elideQueueText s limit = (if length s \<le> limit then s else js_trim_end (take (limit - 1) s) @ ellipsis)"

text \<open>\<^verbatim>\<open>replace(/\s+/g, " ")\<close>.\<close>

fun collapse_spaces :: "string \<Rightarrow> string" where
  "collapse_spaces [] = []"
| "collapse_spaces (c # cs) =
     (if js_space c
      then (case cs of [] \<Rightarrow> [CHR '' ''] | d # ds \<Rightarrow> if js_space d then collapse_spaces cs else CHR '' '' # collapse_spaces cs)
      else c # collapse_spaces cs)"

definition buildQueueSummaryLine :: "string \<Rightarrow> nat \<Rightarrow> string" where
  "buildQueueSummaryLine s limit = elideQueueText (js_trim (collapse_spaces s)) limit"

definition shouldSkipQueueItem :: "'i \<Rightarrow> 'i list \<Rightarrow> ('i \<Rightarrow> 'i list \<Rightarrow> bool) option \<Rightarrow> bool" where
  "shouldSkipQueueItem item queued dedupe = (case dedupe of None \<Rightarrow> False | Some f \<Rightarrow> f item queued)"

text \<open>Whether the new item may be added, and the queue with room for it.\<close>

definition applyQueueDropPolicy ::
    "('i \<Rightarrow> string) \<Rightarrow> int option \<Rightarrow> ('i, 'm) queue_core_scheme \<Rightarrow> bool \<times> ('i, 'm) queue_core_scheme" where
  "applyQueueDropPolicy summarize summaryLimit q =
     (if cap q \<le> 0 \<or> int (length (items q)) < cap q then (True, q)
      else if dropPolicy q = DropNew then (False, q)
      else (let dropCount = length (items q) - nat (cap q) + 1;
                dropped = take dropCount (items q);
                q1 = q\<lparr>items := drop dropCount (items q)\<rparr>
            in (True,
                if dropPolicy q = DropSummarize
                then (let ls = summaryLines q @ map (\<lambda>i. buildQueueSummaryLine (summarize i) 160) dropped;
                          limit = nat (max 0 (coalesce summaryLimit (cap q)))
                      in q1\<lparr>droppedCount := droppedCount q + length dropped, summaryLines := drop (length ls - limit) ls\<rparr>)
                else q1)))"

text \<open>One check of the debounce wait, with the debounce read when the wait began.\<close>

definition queueDebounceOver :: "bool \<Rightarrow> int \<Rightarrow> int \<Rightarrow> int \<Rightarrow> bool" where
  "queueDebounceOver testFast debounce lastEnqueued now \<longleftrightarrow>
     testFast \<or> max 0 debounce \<le> 0 \<or> now - lastEnqueued \<ge> max 0 debounce"

text \<open>The outcome of the collect helpers before the item runs: skipped, empty, or the item to run; and the
  new value of \<^verbatim>\<open>forceIndividualCollect\<close>.\<close>

datatype 'i collect_step = CollectSkipped | CollectEmpty | CollectRun 'i

definition drainNextQueueItem :: "'i list \<Rightarrow> 'i option" where
  "drainNextQueueItem queued = (case queued of [] \<Rightarrow> None | i # _ \<Rightarrow> Some i)"

definition drainCollectItemIfNeeded :: "bool \<Rightarrow> bool \<Rightarrow> 'i list \<Rightarrow> 'i collect_step \<times> bool" where
  "drainCollectItemIfNeeded forceIndividualCollect isCrossChannel queued =
     (if \<not> forceIndividualCollect \<and> \<not> isCrossChannel then (CollectSkipped, forceIndividualCollect)
      else (case drainNextQueueItem queued of None \<Rightarrow> CollectEmpty | Some i \<Rightarrow> CollectRun i,
            isCrossChannel \<or> forceIndividualCollect))"

definition drainCollectQueueStep :: "bool \<Rightarrow> bool \<Rightarrow> 'i list \<Rightarrow> 'i collect_step \<times> bool" where
  "drainCollectQueueStep forceIndividualCollect isCrossChannel queued =
     drainCollectItemIfNeeded forceIndividualCollect isCrossChannel queued"

definition buildCollectPrompt :: "string \<Rightarrow> 'i list \<Rightarrow> string option \<Rightarrow> ('i \<Rightarrow> nat \<Rightarrow> string) \<Rightarrow> string" where
  "buildCollectPrompt title queued summary renderItem =
     join_lines [CHR 10, CHR 10]
       (title # (if truthy_string summary then [the summary] else []) @ map (\<lambda>(idx, i). renderItem i idx) (enumerate 0 queued))"

text \<open>The loop over the keys: the keys seen, and whether an item had none; \<open>None\<close> once an item crosses.\<close>

fun crossKeys :: "('i \<Rightarrow> bool \<times> string option) \<Rightarrow> 'i list \<Rightarrow> string set \<times> bool \<Rightarrow> (string set \<times> bool) option" where
  "crossKeys resolveKey [] acc = Some acc"
| "crossKeys resolveKey (i # is) (ks, hasUnkeyed) =
     (case resolveKey i of
        (True, _) \<Rightarrow> None
      | (False, key) \<Rightarrow> if \<not> truthy_string key then crossKeys resolveKey is (ks, True)
                        else crossKeys resolveKey is (insert (the key) ks, hasUnkeyed))"

definition hasCrossChannelItems :: "('i \<Rightarrow> bool \<times> string option) \<Rightarrow> 'i list \<Rightarrow> bool" where
  "hasCrossChannelItems resolveKey queued =
     (case crossKeys resolveKey queued ({}, False) of
        None \<Rightarrow> True
      | Some (ks, hasUnkeyed) \<Rightarrow> if ks = {} then False else if hasUnkeyed then True else card ks > 1)"

subsection \<open>Settings\<close>

datatype queue_mode = Steer | Followup | Collect | SteerBacklog | Interrupt | Queued

record queue_settings =
  set_mode :: queue_mode
  set_debounceMs :: "int option"
  set_cap :: "int option"
  set_dropPolicy :: "drop_policy option"

definition normalizeQueueMode :: "string option \<Rightarrow> queue_mode option" where
  "normalizeQueueMode raw =
     (case normalizeOptionalLowercaseString raw of
        None \<Rightarrow> None
      | Some cleaned \<Rightarrow>
          if cleaned \<in> set [''queue'', ''queued''] then Some Queued
          else if cleaned \<in> set [''interrupt'', ''interrupts'', ''abort''] then Some Interrupt
          else if cleaned \<in> set [''steer'', ''steering''] then Some Steer
          else if cleaned \<in> set [''followup'', ''follow-ups'', ''followups''] then Some Followup
          else if cleaned \<in> set [''collect'', ''coalesce''] then Some Collect
          else if cleaned \<in> set [''steer+backlog'', ''steer-backlog'', ''steer_backlog''] then Some SteerBacklog
          else None)"

definition normalizeQueueDropPolicy :: "string option \<Rightarrow> drop_policy option" where
  "normalizeQueueDropPolicy raw =
     (case normalizeOptionalLowercaseString raw of
        None \<Rightarrow> None
      | Some cleaned \<Rightarrow>
          if cleaned \<in> set [''old'', ''oldest''] then Some DropOld
          else if cleaned \<in> set [''new'', ''newest''] then Some DropNew
          else if cleaned \<in> set [''summarize'', ''summary''] then Some DropSummarize
          else None)"

definition DEFAULT_QUEUE_DEBOUNCE_MS :: int where "DEFAULT_QUEUE_DEBOUNCE_MS = 500"
definition DEFAULT_QUEUE_CAP :: int where "DEFAULT_QUEUE_CAP = 20"
definition DEFAULT_QUEUE_DROP :: drop_policy where "DEFAULT_QUEUE_DROP = DropSummarize"

definition defaultQueueModeForChannel :: "string option \<Rightarrow> queue_mode" where
  "defaultQueueModeForChannel channel = Steer"

definition resolveChannelDebounce :: "(string, int) js_map option \<Rightarrow> string option \<Rightarrow> int option" where
  "resolveChannelDebounce byChannel channelKey =
     (if \<not> truthy_string channelKey then None
      else Option.bind byChannel (\<lambda>m. map_option (max 0) (map_of m (the channelKey))))"

record queue_config =
  qc_mode :: "string option"
  qc_byChannel :: "(string, string) js_map option"
  qc_debounceMs :: "int option"
  qc_debounceMsByChannel :: "(string, int) js_map option"
  qc_cap :: "int option"
  qc_drop :: "string option"

record session_queue =
  queueMode :: "string option"
  queueDebounceMs :: "int option"
  queueCap :: "int option"
  queueDrop :: "drop_policy option"

record inline_queue =
  inline_debounceMs :: "int option"
  inline_cap :: "int option"
  inline_dropPolicy :: "drop_policy option"

definition resolveQueueSettings ::
    "string option \<Rightarrow> queue_config option \<Rightarrow> session_queue option \<Rightarrow> queue_mode option \<Rightarrow> inline_queue option \<Rightarrow>
     int option \<Rightarrow> queue_settings" where
  "resolveQueueSettings channel queueCfg sessionEntry inlineMode inlineOptions pluginDebounceMs =
     (let channelKey = normalizeOptionalLowercaseString channel;
          providerModeRaw = (if truthy_string channelKey
            then Option.bind (Option.bind queueCfg qc_byChannel) (\<lambda>m. map_of m (the channelKey)) else None);
          resolvedMode = coalesce (or_else inlineMode
            (or_else (normalizeQueueMode (Option.bind sessionEntry queueMode))
              (or_else (normalizeQueueMode providerModeRaw) (normalizeQueueMode (Option.bind queueCfg qc_mode)))))
            (defaultQueueModeForChannel channelKey);
          debounceRaw = coalesce (or_else (Option.bind inlineOptions inline_debounceMs)
            (or_else (Option.bind sessionEntry queueDebounceMs)
              (or_else (resolveChannelDebounce (Option.bind queueCfg qc_debounceMsByChannel) channelKey)
                (or_else pluginDebounceMs (Option.bind queueCfg qc_debounceMs))))) DEFAULT_QUEUE_DEBOUNCE_MS;
          capRaw = coalesce (or_else (Option.bind inlineOptions inline_cap)
            (or_else (Option.bind sessionEntry queueCap) (Option.bind queueCfg qc_cap))) DEFAULT_QUEUE_CAP;
          dropRaw = coalesce (or_else (Option.bind inlineOptions inline_dropPolicy)
            (or_else (Option.bind sessionEntry queueDrop) (normalizeQueueDropPolicy (Option.bind queueCfg qc_drop)))) DEFAULT_QUEUE_DROP
      in \<lparr>set_mode = resolvedMode, set_debounceMs = Some (max 0 debounceRaw), set_cap = Some (max 1 capRaw),
          set_dropPolicy = Some dropRaw\<rparr>)"

subsection \<open>What to do with a message while a run is active\<close>

datatype active_run_action = RunNow | EnqueueFollowup | DropMessage

definition resolveActiveRunQueueAction :: "bool \<Rightarrow> bool \<Rightarrow> bool \<Rightarrow> queue_mode \<Rightarrow> bool \<Rightarrow> active_run_action" where
  "resolveActiveRunQueueAction isActive isHeartbeat shouldFollowup mode resetTriggered =
     (if \<not> isActive then RunNow
      else if isHeartbeat then DropMessage
      else if resetTriggered then RunNow
      else if shouldFollowup \<or> mode = Steer \<or> mode = Queued then EnqueueFollowup
      else RunNow)"

subsection \<open>Facts\<close>

lemma drop_policy_room:
  assumes "applyQueueDropPolicy summarize lim q = (True, q1)"
  shows "\<exists>n. items q1 = drop n (items q)" "0 < cap q \<Longrightarrow> int (length (items q1)) < cap q" "cap q1 = cap q"
  using assms by (auto simp: applyQueueDropPolicy_def Let_def split: if_splits intro: exI [of _ 0])

lemma drop_policy_full:
  "applyQueueDropPolicy summarize lim q = (False, q1) \<Longrightarrow> q1 = q \<and> dropPolicy q = DropNew \<and> cap q \<le> int (length (items q))"
  by (auto simp: applyQueueDropPolicy_def Let_def split: if_splits)

text \<open>The messages dropped so far and the waiting ones add up, when the policy keeps a summary.\<close>

lemma drop_policy_counts:
  "applyQueueDropPolicy summarize lim q = (True, q1) \<Longrightarrow> dropPolicy q = DropSummarize \<Longrightarrow>
   droppedCount q1 + length (items q1) = droppedCount q + length (items q)"
  by (auto simp: applyQueueDropPolicy_def Let_def split: if_splits)

lemma drop_policy_lines:
  "applyQueueDropPolicy summarize None q = (True, q1) \<Longrightarrow> int (length (summaryLines q)) \<le> max 0 (cap q) \<Longrightarrow>
   int (length (summaryLines q1)) \<le> max 0 (cap q)"
  by (auto simp: applyQueueDropPolicy_def Let_def split: if_splits)

lemma preview_none: "previewQueueSummaryPrompt noun t q = None \<longleftrightarrow> dropPolicy q \<noteq> DropSummarize \<or> droppedCount q = 0"
  by (simp add: previewQueueSummaryPrompt_def buildQueueSummaryPrompt_def Let_def)

end
