(* ===== verification/FollowupQueue.thy ===== *)
theory FollowupQueue
  imports QueueHelpers DedupeCache JsJson
begin

text \<open>
  The followup queues of \<^verbatim>\<open>packages/core/src/auto-reply/reply/queue/\<close>: messages that arrive while a
  session is busy wait in the queue of the session and are run by its drain.

  A queue is an object: the registry maps a key to its number, and a drain keeps the number of the queue
  it works on, so a queue that was removed from the registry and one created later under the same key
  stay apart. The drain is an asynchronous loop; its state is the place where it waits: for the debounce,
  or for a run it started, with what is left to do when the run ends. \<open>finished\<close> lists the runs that
  ended, in order, with their queue and callback. Settled runs and debounce checks are calls of the step function. The route keys of
  \<^verbatim>\<open>plugin-sdk/channel-route.ts\<close> and \<^verbatim>\<open>isRoutableChannel\<close> are an argument. Fields of a run that no
  modelled code reads are left out.
\<close>

subsection \<open>Types\<close>

datatype thread_id = ThreadText string | ThreadNumber string

record exec_overrides =
  exec_host :: "string option"
  exec_security :: "string option"
  exec_ask :: "string option"
  exec_node :: "string option"

record bash_elevated =
  elevated_enabled :: bool
  elevated_allowed :: bool
  elevated_defaultLevel :: "string option"

record run_params =
  sessionId :: string
  sessionFile :: string
  provider :: string
  model :: string
  hasSessionModelOverride :: "bool option"
  modelOverrideSource :: "string option"
  authProfileId :: "string option"
  authProfileIdSource :: "string option"
  senderId :: "string option"
  senderName :: "string option"
  senderUsername :: "string option"
  senderE164 :: "string option"
  senderIsOwner :: "bool option"
  execOverrides :: "exec_overrides option"
  bashElevated :: "bash_elevated option"

record followup_run =
  prompt :: string
  messageId :: "string option"
  summaryLine :: "string option"
  enqueuedAt :: int
  images :: "string list option"
  imageOrder :: "string list option"
  originatingChannel :: "string option"
  originatingTo :: "string option"
  originatingAccountId :: "string option"
  originatingThreadId :: "thread_id option"
  run_of :: run_params

record followup_queue = "followup_run queue_core" +
  draining :: bool
  lastEnqueuedAt :: int
  mode :: queue_mode
  debounceMs :: int
  lastRun :: "run_params option"

text \<open>Where a drain waits. A group run knows the length of its group, the groups to come and the summary
  that is cleared once it ends.\<close>

datatype drain_wait =
    AwaitDebounce int
  | AwaitItem followup_run
  | AwaitSummaryItem followup_run
  | AwaitSummaryOnly followup_run
  | AwaitGroup followup_run nat "followup_run list list" "string option"

record drain_state =
  drain_key :: string
  drain_callback :: nat
  forceIndividualCollect :: bool
  drain_wait :: drain_wait

record followups =
  queue_objs :: "(nat, followup_queue) js_map"
  registry :: "(string, nat) js_map"
  callbacks :: "(string, nat) js_map"
  recentIds :: dedupe_map
  drains :: "(nat, drain_state) js_map"
  nextQueue :: nat
  finished :: "(nat \<times> nat \<times> followup_run) list"

record routing =
  dedupe_key :: "followup_run \<Rightarrow> string"
  compact_key :: "followup_run \<Rightarrow> string option"
  is_routable :: "string option \<Rightarrow> bool"

definition noFollowups :: followups where
  "noFollowups = \<lparr>queue_objs = [], registry = [], callbacks = [], recentIds = [], drains = [], nextQueue = 0, finished = []\<rparr>"

definition queueAt :: "nat \<Rightarrow> followups \<Rightarrow> followup_queue option" where
  "queueAt n st = map_of (queue_objs st) n"

definition putQueue :: "nat \<Rightarrow> followup_queue \<Rightarrow> followups \<Rightarrow> followups" where
  "putQueue n q st = st\<lparr>queue_objs := AList.update n q (queue_objs st)\<rparr>"

subsection \<open>The registry (state.ts)\<close>

definition getExistingFollowupQueue :: "string \<Rightarrow> followups \<Rightarrow> nat option" where
  "getExistingFollowupQueue key st = (if js_trim key = [] then None else map_of (registry st) (js_trim key))"

definition applyQueueRuntimeSettings :: "queue_settings \<Rightarrow> followup_queue \<Rightarrow> followup_queue" where
  "applyQueueRuntimeSettings settings q =
     q\<lparr>mode := set_mode settings,
       debounceMs := (case set_debounceMs settings of Some d \<Rightarrow> max 0 d | None \<Rightarrow> debounceMs q),
       cap := (case set_cap settings of Some c \<Rightarrow> if c > 0 then c else cap q | None \<Rightarrow> cap q),
       dropPolicy := coalesce (set_dropPolicy settings) (dropPolicy q)\<rparr>"

definition newFollowupQueue :: "queue_settings \<Rightarrow> followup_queue" where
  "newFollowupQueue settings =
     \<lparr>items = [],
      cap = (case set_cap settings of Some c \<Rightarrow> if c > 0 then c else DEFAULT_QUEUE_CAP | None \<Rightarrow> DEFAULT_QUEUE_CAP),
      dropPolicy = coalesce (set_dropPolicy settings) DEFAULT_QUEUE_DROP, droppedCount = 0, summaryLines = [],
      draining = False, lastEnqueuedAt = 0, mode = set_mode settings,
      debounceMs = (case set_debounceMs settings of Some d \<Rightarrow> max 0 d | None \<Rightarrow> DEFAULT_QUEUE_DEBOUNCE_MS),
      lastRun = None\<rparr>"

definition getFollowupQueue :: "string \<Rightarrow> queue_settings \<Rightarrow> followups \<Rightarrow> nat \<times> followup_queue \<times> followups" where
  "getFollowupQueue key settings st =
     (case map_of (registry st) key of
        Some n \<Rightarrow>
          (case queueAt n st of
             Some q \<Rightarrow> (let q1 = applyQueueRuntimeSettings settings q in (n, q1, putQueue n q1 st))
           | None \<Rightarrow> (n, newFollowupQueue settings, st))
      | None \<Rightarrow>
          (let n = nextQueue st; q1 = applyQueueRuntimeSettings settings (newFollowupQueue settings)
           in (n, q1, putQueue n q1 (st\<lparr>nextQueue := Suc n, registry := AList.update key n (registry st)\<rparr>))))"

definition clearFollowupQueue :: "string \<Rightarrow> followups \<Rightarrow> nat \<times> followups" where
  "clearFollowupQueue key st =
     (let cleaned = js_trim key
      in case getExistingFollowupQueue cleaned st of
           None \<Rightarrow> (0, st)
         | Some n \<Rightarrow>
             (case queueAt n st of
                None \<Rightarrow> (0, st)
              | Some q \<Rightarrow>
                  (length (items q) + droppedCount q,
                   (putQueue n (q\<lparr>items := [], droppedCount := 0, summaryLines := [], lastRun := None, lastEnqueuedAt := 0\<rparr>) st)
                     \<lparr>registry := AList.delete cleaned (registry st)\<rparr>)))"

record refresh_params =
  previousSessionId :: "string option"
  nextSessionId :: "string option"
  nextSessionFile :: "string option"
  nextProvider :: "string option"
  nextModel :: "string option"
  nextModelOverrideSource :: "string option option"
  nextAuthProfileId :: "string option option"
  nextAuthProfileIdSource :: "string option option"

definition shouldRewriteSession :: "refresh_params \<Rightarrow> bool" where
  "shouldRewriteSession p \<longleftrightarrow> truthy_string (previousSessionId p) \<and> truthy_string (nextSessionId p) \<and>
     previousSessionId p \<noteq> nextSessionId p"

definition shouldRewriteSelection :: "refresh_params \<Rightarrow> bool" where
  "shouldRewriteSelection p \<longleftrightarrow> nextProvider p \<noteq> None \<or> nextModel p \<noteq> None \<or> nextModelOverrideSource p \<noteq> None \<or>
     nextAuthProfileId p \<noteq> None \<or> nextAuthProfileIdSource p \<noteq> None"

definition rewriteSession :: "refresh_params \<Rightarrow> run_params \<Rightarrow> run_params" where
  "rewriteSession p r =
     (if shouldRewriteSession p \<and> Some (sessionId r) = previousSessionId p
      then r\<lparr>sessionId := the (nextSessionId p),
             sessionFile := coalesce (normalizeOptionalString (nextSessionFile p)) (sessionFile r)\<rparr>
      else r)"

definition rewriteSelection :: "refresh_params \<Rightarrow> run_params \<Rightarrow> run_params" where
  "rewriteSelection p r =
     (if \<not> shouldRewriteSelection p then r
      else (let r1 = r\<lparr>provider := coalesce (nextProvider p) (provider r), model := coalesce (nextModel p) (model r)\<rparr>;
                r2 = (case nextModelOverrideSource p of
                        None \<Rightarrow> r1
                      | Some src \<Rightarrow> r1\<lparr>hasSessionModelOverride := Some (provider r1 \<noteq> [] \<or> model r1 \<noteq> []), modelOverrideSource := src\<rparr>);
                r3 = (case nextAuthProfileId p of
                        None \<Rightarrow> r2
                      | Some i \<Rightarrow> r2\<lparr>authProfileId := normalizeOptionalString i\<rparr>)
            in case nextAuthProfileIdSource p of
                 None \<Rightarrow> r3
               | Some src \<Rightarrow> r3\<lparr>authProfileIdSource := (if truthy_string (authProfileId r3) then src else None)\<rparr>))"

definition rewriteRun :: "refresh_params \<Rightarrow> run_params \<Rightarrow> run_params" where
  "rewriteRun p r = rewriteSelection p (rewriteSession p r)"

definition refreshQueuedFollowupSession :: "string \<Rightarrow> refresh_params \<Rightarrow> followups \<Rightarrow> followups" where
  "refreshQueuedFollowupSession key p st =
     (if js_trim key = [] then st
      else (case getExistingFollowupQueue (js_trim key) st of
              None \<Rightarrow> st
            | Some n \<Rightarrow>
                (case queueAt n st of
                   None \<Rightarrow> st
                 | Some q \<Rightarrow>
                     if \<not> shouldRewriteSession p \<and> \<not> shouldRewriteSelection p then st
                     else putQueue n (q\<lparr>lastRun := map_option (rewriteRun p) (lastRun q),
                            items := map (\<lambda>i. i\<lparr>run_of := rewriteRun p (run_of i)\<rparr>) (items q)\<rparr>) st)))"

subsection \<open>Building the runs of a drain (drain.ts)\<close>

definition authorizationFields :: "run_params \<Rightarrow> jsval list" where
  "authorizationFields r =
     (let overrides = execOverrides r; elevated = bashElevated r
      in [JStr (coalesce (senderId r) []), JStr (coalesce (senderE164 r) []), JBool (senderIsOwner r = Some True),
          JStr (coalesce (Option.bind overrides exec_host) []), JStr (coalesce (Option.bind overrides exec_security) []),
          JStr (coalesce (Option.bind overrides exec_ask) []), JStr (coalesce (Option.bind overrides exec_node) []),
          JBool (map_option elevated_enabled elevated = Some True), JBool (map_option elevated_allowed elevated = Some True),
          JStr (coalesce (Option.bind elevated elevated_defaultLevel) [])])"

definition resolveFollowupAuthorizationKey :: "run_params \<Rightarrow> string" where
  "resolveFollowupAuthorizationKey r = stringify (JArr (authorizationFields r))"

text \<open>The loop over the items: the groups so far and the current group.\<close>

fun splitLoop :: "followup_run list \<Rightarrow> followup_run list list \<Rightarrow> followup_run list \<Rightarrow> string option \<Rightarrow> followup_run list list" where
  "splitLoop [] groups currentGroup currentKey = (if currentGroup \<noteq> [] then groups @ [currentGroup] else groups)"
| "splitLoop (item # rest) groups currentGroup currentKey =
     (let itemKey = resolveFollowupAuthorizationKey (run_of item)
      in if currentGroup = [] \<or> Some itemKey = currentKey then splitLoop rest groups (currentGroup @ [item]) (Some itemKey)
         else splitLoop rest (groups @ [currentGroup]) [item] (Some itemKey))"

definition splitCollectItemsByAuthorization :: "followup_run list \<Rightarrow> followup_run list list" where
  "splitCollectItemsByAuthorization queued =
     (if length queued \<le> 1 then (if queued = [] then [] else [queued]) else splitLoop queued [] [] None)"

definition renderCollectItem :: "followup_run \<Rightarrow> nat \<Rightarrow> string" where
  "renderCollectItem item idx =
     (let r = run_of item;
          senderLabel = or_else (senderName r) (or_else (senderUsername r) (or_else (senderId r) (senderE164 r)));
          senderSuffix = (if truthy_string senderLabel then '' (from '' @ the senderLabel @ '')'' else [])
      in js_trim (''---'' @ [CHR 10] @ ''Queued #'' @ show_nat (idx + 1) @ senderSuffix @ [CHR 10] @ prompt item))"

definition collectQueuedImages :: "followup_run list \<Rightarrow> followup_run \<Rightarrow> followup_run" where
  "collectQueuedImages queued r =
     (let imgs = concat (map (\<lambda>i. coalesce (images i) []) queued);
          order = concat (map (\<lambda>i. coalesce (imageOrder i) []) queued);
          r1 = (if imgs \<noteq> [] then r\<lparr>images := Some imgs\<rparr> else r)
      in if order \<noteq> [] then r1\<lparr>imageOrder := Some order\<rparr> else r1)"

definition resolveCrossChannelKey :: "routing \<Rightarrow> followup_run \<Rightarrow> bool \<times> string option" where
  "resolveCrossChannelKey routes item =
     (let noThread = (originatingThreadId item = None \<or> originatingThreadId item = Some (ThreadText []))
      in if \<not> truthy_string (originatingChannel item) \<and> \<not> truthy_string (originatingTo item) \<and>
            \<not> truthy_string (originatingAccountId item) \<and> noThread then (False, None)
         else if \<not> is_routable routes (originatingChannel item) \<or> \<not> truthy_string (originatingTo item) then (True, None)
         else if truthy_string (compact_key routes item) then (False, compact_key routes item)
         else (True, None))"

definition firstWith :: "(followup_run \<Rightarrow> 'a option) \<Rightarrow> ('a option \<Rightarrow> bool) \<Rightarrow> followup_run list \<Rightarrow> 'a option" where
  "firstWith get ok queued = Option.bind (List.find (\<lambda>i. ok (get i)) queued) get"

definition bareRun :: "string \<Rightarrow> run_params \<Rightarrow> int \<Rightarrow> followup_run" where
  "bareRun text_of r now =
     \<lparr>prompt = text_of, messageId = None, summaryLine = None, enqueuedAt = now, images = None, imageOrder = None,
      originatingChannel = None, originatingTo = None, originatingAccountId = None, originatingThreadId = None, run_of = r\<rparr>"

definition resolveOriginRoutingMetadata :: "followup_run list \<Rightarrow> followup_run \<Rightarrow> followup_run" where
  "resolveOriginRoutingMetadata queued r =
     r\<lparr>originatingChannel := firstWith originatingChannel truthy_string queued,
       originatingTo := firstWith originatingTo truthy_string queued,
       originatingAccountId := firstWith originatingAccountId truthy_string queued,
       originatingThreadId := firstWith originatingThreadId (\<lambda>t. t \<noteq> None \<and> t \<noteq> Some (ThreadText [])) queued\<rparr>"

definition groupRun :: "followup_run list \<Rightarrow> string option \<Rightarrow> int \<Rightarrow> followup_run" where
  "groupRun groupItems pendingSummary now =
     collectQueuedImages groupItems
       (resolveOriginRoutingMetadata groupItems
         (bareRun (buildCollectPrompt ''[Queued messages while agent was busy]'' groupItems pendingSummary renderCollectItem)
           (run_of (last groupItems)) now))"

definition summaryItemRun :: "string \<Rightarrow> run_params \<Rightarrow> followup_run \<Rightarrow> int \<Rightarrow> followup_run" where
  "summaryItemRun summary r item now =
     collectQueuedImages [item]
       ((bareRun summary r now)\<lparr>originatingChannel := originatingChannel item, originatingTo := originatingTo item,
          originatingAccountId := originatingAccountId item, originatingThreadId := originatingThreadId item\<rparr>)"

subsection \<open>The drain\<close>

definition rememberFollowupDrainCallback :: "string \<Rightarrow> nat \<Rightarrow> followups \<Rightarrow> followups" where
  "rememberFollowupDrainCallback key cb st = st\<lparr>callbacks := AList.update key cb (callbacks st)\<rparr>"

definition clearFollowupDrainCallback :: "string \<Rightarrow> followups \<Rightarrow> followups" where
  "clearFollowupDrainCallback key st = st\<lparr>callbacks := AList.delete key (callbacks st)\<rparr>"

definition hasWork :: "followup_queue \<Rightarrow> bool" where
  "hasWork q \<longleftrightarrow> items q \<noteq> [] \<or> droppedCount q > 0"

definition waitAt :: "nat \<Rightarrow> drain_state \<Rightarrow> drain_wait \<Rightarrow> followups \<Rightarrow> followups" where
  "waitAt n d w st = st\<lparr>drains := AList.update n (d\<lparr>drain_wait := w\<rparr>) (drains st)\<rparr>"

text \<open>The end of a drain whose queue is empty: the second half of the \<^verbatim>\<open>finally\<close> block is not reached.\<close>

definition endDrain :: "nat \<Rightarrow> string \<Rightarrow> followup_queue \<Rightarrow> followups \<Rightarrow> followups" where
  "endDrain n key q st =
     clearFollowupDrainCallback key
       (putQueue n (q\<lparr>draining := False\<rparr>) (st\<lparr>drains := AList.delete n (drains st), registry := AList.delete key (registry st)\<rparr>))"

text \<open>The head of the loop: wait for the debounce while there is work, else end.\<close>

definition drainLoop :: "nat \<Rightarrow> drain_state \<Rightarrow> followup_queue \<Rightarrow> followups \<Rightarrow> followups" where
  "drainLoop n d q st = (if hasWork q then waitAt n d (AwaitDebounce (debounceMs q)) st else endDrain n (drain_key d) q st)"

definition beginQueueDrain :: "string \<Rightarrow> followups \<Rightarrow> (nat \<times> followup_queue) option" where
  "beginQueueDrain key st =
     (case map_of (registry st) key of
        None \<Rightarrow> None
      | Some n \<Rightarrow> (case queueAt n st of None \<Rightarrow> None | Some q \<Rightarrow> if draining q then None else Some (n, q\<lparr>draining := True\<rparr>)))"

definition scheduleFollowupDrain :: "string \<Rightarrow> nat \<Rightarrow> followups \<Rightarrow> followups" where
  "scheduleFollowupDrain key cb st =
     (case beginQueueDrain key st of
        None \<Rightarrow> st
      | Some (n, q) \<Rightarrow>
          (let effective = coalesce (map_of (callbacks st) key) cb;
               d = \<lparr>drain_key = key, drain_callback = effective, forceIndividualCollect = False, drain_wait = AwaitDebounce 0\<rparr>
           in drainLoop n d q (rememberFollowupDrainCallback key effective (putQueue n q st))))"

definition kickFollowupDrainIfIdle :: "string \<Rightarrow> followups \<Rightarrow> followups" where
  "kickFollowupDrainIfIdle key st =
     (case map_of (callbacks st) key of None \<Rightarrow> st | Some cb \<Rightarrow> scheduleFollowupDrain key cb st)"

text \<open>The \<^verbatim>\<open>finally\<close> block.\<close>

definition finishDrain :: "nat \<Rightarrow> drain_state \<Rightarrow> followup_queue \<Rightarrow> followups \<Rightarrow> followups" where
  "finishDrain n d q st =
     (if \<not> hasWork q then endDrain n (drain_key d) q st
      else scheduleFollowupDrain (drain_key d) (drain_callback d)
             (putQueue n (q\<lparr>draining := False\<rparr>) (st\<lparr>drains := AList.delete n (drains st)\<rparr>)))"

definition startGroup :: "nat \<Rightarrow> drain_state \<Rightarrow> followup_queue \<Rightarrow> followup_run list list \<Rightarrow> string option \<Rightarrow> int \<Rightarrow> followups \<Rightarrow> followups" where
  "startGroup n d q groups pendingSummary now st =
     (case groups of
        [] \<Rightarrow> drainLoop n d q st
      | groupItems # rest \<Rightarrow>
          waitAt n d (AwaitGroup (groupRun groupItems pendingSummary now) (length groupItems) rest pendingSummary) st)"

text \<open>A turn of the loop after the debounce, up to the run it starts.\<close>

definition drainTurn :: "routing \<Rightarrow> nat \<Rightarrow> drain_state \<Rightarrow> followup_queue \<Rightarrow> int \<Rightarrow> followups \<Rightarrow> followups" where
  "drainTurn routes n d q now st =
     (if mode q = Collect then
        (case drainCollectQueueStep (forceIndividualCollect d) (hasCrossChannelItems (resolveCrossChannelKey routes) (items q)) (items q) of
           (CollectRun item, force) \<Rightarrow> waitAt n (d\<lparr>forceIndividualCollect := force\<rparr>) (AwaitItem item) st
         | (CollectEmpty, force) \<Rightarrow>
             (let d1 = d\<lparr>forceIndividualCollect := force\<rparr>
              in case (previewQueueSummaryPrompt ''message'' None q, lastRun q) of
                   (Some summary, Some r) \<Rightarrow> waitAt n d1 (AwaitSummaryOnly (collectQueuedImages (items q) (bareRun summary r now))) st
                 | _ \<Rightarrow> finishDrain n d1 q st)
         | (CollectSkipped, force) \<Rightarrow>
             (let summary = previewQueueSummaryPrompt ''message'' None q;
                  authGroups = splitCollectItemsByAuthorization (items q)
              in if authGroups = [] then
                   (case (summary, lastRun q) of
                      (Some s, Some r) \<Rightarrow> waitAt n d (AwaitSummaryOnly (bareRun s r now)) st
                    | _ \<Rightarrow> finishDrain n d q st)
                 else startGroup n d q authGroups summary now st))
      else
        (case previewQueueSummaryPrompt ''message'' None q of
           Some summary \<Rightarrow>
             (case (lastRun q, drainNextQueueItem (items q)) of
                (Some r, Some item) \<Rightarrow> waitAt n d (AwaitSummaryItem (summaryItemRun summary r item now)) st
              | _ \<Rightarrow> finishDrain n d q st)
         | None \<Rightarrow>
             (case drainNextQueueItem (items q) of
                Some item \<Rightarrow> waitAt n d (AwaitItem item) st
              | None \<Rightarrow> finishDrain n d q st)))"

text \<open>A check of the debounce.\<close>

definition debounceCheck :: "routing \<Rightarrow> bool \<Rightarrow> nat \<Rightarrow> int \<Rightarrow> followups \<Rightarrow> followups" where
  "debounceCheck routes testFast n now st =
     (case (map_of (drains st) n, queueAt n st) of
        (Some d, Some q) \<Rightarrow>
          (case drain_wait d of
             AwaitDebounce ms \<Rightarrow>
               if queueDebounceOver testFast ms (lastEnqueuedAt q) now then drainTurn routes n d q now st else st
           | _ \<Rightarrow> st)
      | _ \<Rightarrow> st)"

text \<open>The run the drain waits for ended well: what follows the \<^verbatim>\<open>await\<close>, on the queue as it is then.\<close>

definition runEnded :: "nat \<Rightarrow> int \<Rightarrow> followups \<Rightarrow> followups" where
  "runEnded n now st =
     (case (map_of (drains st) n, queueAt n st) of
        (Some d, Some q) \<Rightarrow>
          (let ended = (\<lambda>r. st\<lparr>finished := finished st @ [(n, drain_callback d, r)]\<rparr>)
           in case drain_wait d of
                AwaitDebounce ms \<Rightarrow> st
              | AwaitItem r \<Rightarrow>
                  (let q1 = q\<lparr>items := tl (items q)\<rparr> in drainLoop n d q1 (putQueue n q1 (ended r)))
              | AwaitSummaryItem r \<Rightarrow>
                  (let q1 = clearQueueSummaryState (q\<lparr>items := tl (items q)\<rparr>) in drainLoop n d q1 (putQueue n q1 (ended r)))
              | AwaitSummaryOnly r \<Rightarrow>
                  (let q1 = clearQueueSummaryState q in drainLoop n d q1 (putQueue n q1 (ended r)))
              | AwaitGroup r len rest pendingSummary \<Rightarrow>
                  (let q0 = q\<lparr>items := drop len (items q)\<rparr>;
                       q1 = (if truthy_string pendingSummary then clearQueueSummaryState q0 else q0);
                       pending1 = (if truthy_string pendingSummary then None else pendingSummary)
                   in startGroup n d q1 rest pending1 now (putQueue n q1 (ended r))))
      | _ \<Rightarrow> st)"

text \<open>The run failed: the \<^verbatim>\<open>catch\<close> block.\<close>

definition runFailed :: "nat \<Rightarrow> int \<Rightarrow> followups \<Rightarrow> followups" where
  "runFailed n now st =
     (case (map_of (drains st) n, queueAt n st) of
        (Some d, Some q) \<Rightarrow>
          (case drain_wait d of
             AwaitDebounce ms \<Rightarrow> st
           | _ \<Rightarrow> (let q1 = q\<lparr>lastEnqueuedAt := now\<rparr> in finishDrain n d q1 (putQueue n q1 st)))
      | _ \<Rightarrow> st)"

subsection \<open>Enqueueing (enqueue.ts) and cleaning up (cleanup.ts)\<close>

definition recent_options :: dedupe_options where
  "recent_options = \<lparr>ttlMs = 5 * 60 * 1000, maxSize = 10000\<rparr>"

datatype dedupe_mode = ByMessageId | ByPrompt | NoDedupe

definition buildRecentMessageIdKey :: "routing \<Rightarrow> followup_run \<Rightarrow> string \<Rightarrow> string option" where
  "buildRecentMessageIdKey routes r queueKey =
     (case normalizeOptionalString (messageId r) of
        None \<Rightarrow> None
      | Some i \<Rightarrow> Some (stringify (JArr [JStr ''queue'', JStr queueKey, JStr (dedupe_key routes r), JStr i])))"

definition isRunAlreadyQueued :: "routing \<Rightarrow> followup_run \<Rightarrow> followup_run list \<Rightarrow> bool \<Rightarrow> bool" where
  "isRunAlreadyQueued routes r queued allowPromptFallback =
     (let hasSameRouting = (\<lambda>i. dedupe_key routes i = dedupe_key routes r)
      in case normalizeOptionalString (messageId r) of
           Some m \<Rightarrow> list_ex (\<lambda>i. normalizeOptionalString (messageId i) = Some m \<and> hasSameRouting i) queued
         | None \<Rightarrow> if \<not> allowPromptFallback then False
                   else list_ex (\<lambda>i. prompt i = prompt r \<and> hasSameRouting i) queued)"

definition summarizeRun :: "followup_run \<Rightarrow> string" where
  "summarizeRun i =
     (if truthy_string (normalizeOptionalString (summaryLine i)) then the (normalizeOptionalString (summaryLine i))
      else js_trim (prompt i))"

definition enqueueFollowupRun ::
    "routing \<Rightarrow> int \<Rightarrow> string \<Rightarrow> followup_run \<Rightarrow> queue_settings \<Rightarrow> dedupe_mode \<Rightarrow> nat option \<Rightarrow> bool \<Rightarrow> followups \<Rightarrow> bool \<times> followups" where
  "enqueueFollowupRun routes now key r settings dedupeMode runFollowup restartIfIdle st0 =
     (case getFollowupQueue key settings st0 of
        (n, q, st1) \<Rightarrow>
          (let recentKey = (if dedupeMode \<noteq> NoDedupe then buildRecentMessageIdKey routes r key else None);
               (seen, recent1) = (if truthy_string recentKey then dedupe_peek recent_options recentKey now (recentIds st1)
                                  else (False, recentIds st1));
               st2 = st1\<lparr>recentIds := recent1\<rparr>;
               dedupe = (if dedupeMode = NoDedupe then None
                         else Some (\<lambda>i queued. isRunAlreadyQueued routes i queued (dedupeMode = ByPrompt)))
           in if seen then (False, st2)
              else if shouldSkipQueueItem r (items q) dedupe then (False, st2)
              else (let q1 = q\<lparr>lastEnqueuedAt := now, lastRun := Some (run_of r)\<rparr>
                    in case applyQueueDropPolicy summarizeRun None q1 of
                         (False, q2) \<Rightarrow> (False, putQueue n q2 st2)
                       | (True, q2) \<Rightarrow>
                           (let q3 = q2\<lparr>items := items q2 @ [r]\<rparr>;
                                st3 = putQueue n q3 st2;
                                st4 = (if truthy_string recentKey
                                       then st3\<lparr>recentIds := snd (dedupe_check recent_options recentKey now (recentIds st3))\<rparr> else st3);
                                st5 = (case runFollowup of Some cb \<Rightarrow> rememberFollowupDrainCallback key cb st4 | None \<Rightarrow> st4)
                            in (True, if restartIfIdle \<and> \<not> draining q3 then kickFollowupDrainIfIdle key st5 else st5)))))"

definition getFollowupQueueDepth :: "string \<Rightarrow> followups \<Rightarrow> nat" where
  "getFollowupQueueDepth key st =
     (case getExistingFollowupQueue key st of
        None \<Rightarrow> 0
      | Some n \<Rightarrow> (case queueAt n st of None \<Rightarrow> 0 | Some q \<Rightarrow> length (items q)))"

definition resetRecentQueuedMessageIdDedupe :: "followups \<Rightarrow> followups" where
  "resetRecentQueuedMessageIdDedupe st = st\<lparr>recentIds := dedupe_clear (recentIds st)\<rparr>"

text \<open>The loop over the keys; \<open>clearLane\<close> clears the command lane of a session and counts what it removed.\<close>

fun clearSessionLoop ::
    "(string \<Rightarrow> 'l \<Rightarrow> nat \<times> 'l) \<Rightarrow> string option list \<Rightarrow> string list \<Rightarrow> nat \<times> nat \<Rightarrow> followups \<times> 'l \<Rightarrow> (nat \<times> nat \<times> string list) \<times> followups \<times> 'l" where
  "clearSessionLoop clearLane [] seen (followupCleared, laneCleared) (st, lanes) = ((followupCleared, laneCleared, seen), st, lanes)"
| "clearSessionLoop clearLane (key # keys) seen (followupCleared, laneCleared) (st, lanes) =
     (case normalizeOptionalString key of
        None \<Rightarrow> clearSessionLoop clearLane keys seen (followupCleared, laneCleared) (st, lanes)
      | Some cleaned \<Rightarrow>
          if cleaned \<in> set seen then clearSessionLoop clearLane keys seen (followupCleared, laneCleared) (st, lanes)
          else (let (n, st1) = clearFollowupQueue cleaned st;
                    st2 = clearFollowupDrainCallback cleaned st1;
                    (m, lanes1) = clearLane cleaned lanes
                in clearSessionLoop clearLane keys (seen @ [cleaned]) (followupCleared + n, laneCleared + m) (st2, lanes1)))"

definition clearSessionQueues ::
    "(string \<Rightarrow> 'l \<Rightarrow> nat \<times> 'l) \<Rightarrow> string option list \<Rightarrow> followups \<times> 'l \<Rightarrow> (nat \<times> nat \<times> string list) \<times> followups \<times> 'l" where
  "clearSessionQueues clearLane keys s = clearSessionLoop clearLane keys [] (0, 0) s"

subsection \<open>Calls\<close>

datatype followup_call =
    Enqueue int string followup_run queue_settings dedupe_mode "nat option" bool
  | Schedule string nat
  | DebounceCheck bool nat int
  | RunEnded nat int
  | RunFailed nat int
  | ClearQueue string
  | Refresh string refresh_params

fun followup_step :: "routing \<Rightarrow> followup_call \<Rightarrow> followups \<Rightarrow> followups" where
  "followup_step routes (Enqueue now key r settings dm cb restart) st = snd (enqueueFollowupRun routes now key r settings dm cb restart st)"
| "followup_step routes (Schedule key cb) st = scheduleFollowupDrain key cb st"
| "followup_step routes (DebounceCheck fast n now) st = debounceCheck routes fast n now st"
| "followup_step routes (RunEnded n now) st = runEnded n now st"
| "followup_step routes (RunFailed n now) st = runFailed n now st"
| "followup_step routes (ClearQueue key) st = snd (clearFollowupQueue key st)"
| "followup_step routes (Refresh key p) st = refreshQueuedFollowupSession key p st"

subsection \<open>Batches keep the authorization of their messages\<close>

lemma authorization_json: "json_value (JArr (authorizationFields r))"
  by (simp add: authorizationFields_def Let_def)

lemma authorization_key_inj:
  "resolveFollowupAuthorizationKey a = resolveFollowupAuthorizationKey b \<Longrightarrow> authorizationFields a = authorizationFields b"
  using parse_stringify [OF authorization_json [of a]] parse_stringify [OF authorization_json [of b]]
  by (simp add: resolveFollowupAuthorizationKey_def)

definition same_key :: "string \<Rightarrow> followup_run list \<Rightarrow> bool" where
  "same_key k g \<longleftrightarrow> g \<noteq> [] \<and> (\<forall>i \<in> set g. resolveFollowupAuthorizationKey (run_of i) = k)"

lemma split_loop:
  assumes "cur = [] \<or> (\<exists>k. key = Some k \<and> same_key k cur)" "\<forall>g \<in> set groups. \<exists>k. same_key k g"
  shows "concat (splitLoop rest groups cur key) = concat groups @ cur @ rest \<and>
    (\<forall>g \<in> set (splitLoop rest groups cur key). \<exists>k. same_key k g)"
  using assms
proof (induction rest arbitrary: groups cur key)
  case Nil
  then show ?case by auto
next
  case (Cons i rest)
  define k where "k = resolveFollowupAuthorizationKey (run_of i)"
  show ?case
  proof (cases "cur = [] \<or> Some k = key")
    case True
    have "same_key k (cur @ [i])"
      using True Cons.prems(1) by (auto simp: same_key_def k_def)
    then show ?thesis using Cons.IH [of "cur @ [i]" "Some k" groups] Cons.prems(2) True
      by (simp add: Let_def k_def [symmetric])
  next
    case False
    have "\<forall>g \<in> set (groups @ [cur]). \<exists>k. same_key k g" using False Cons.prems by auto
    moreover have "[i] = [] \<or> (\<exists>k'. Some k = Some k' \<and> same_key k' [i])" by (simp add: same_key_def k_def)
    ultimately have "concat (splitLoop rest (groups @ [cur]) [i] (Some k)) = concat (groups @ [cur]) @ [i] @ rest \<and>
        (\<forall>g \<in> set (splitLoop rest (groups @ [cur]) [i] (Some k)). \<exists>k. same_key k g)"
      by (intro Cons.IH) blast+
    moreover have "splitLoop (i # rest) groups cur key = splitLoop rest (groups @ [cur]) [i] (Some k)"
      using False by (auto simp: Let_def k_def)
    ultimately show ?thesis by simp
  qed
qed

lemma split_groups:
  "concat (splitCollectItemsByAuthorization queued) = queued \<and> (\<forall>g \<in> set (splitCollectItemsByAuthorization queued). \<exists>k. same_key k g)"
proof (cases "length queued \<le> 1")
  case True
  then show ?thesis by (cases queued) (auto simp: splitCollectItemsByAuthorization_def same_key_def)
next
  case False
  then show ?thesis using split_loop [of "[]" None "[]" queued] by (simp add: splitCollectItemsByAuthorization_def)
qed

lemma group_run_params [simp]: "run_of (groupRun g s now) = run_of (last g)"
  by (simp add: groupRun_def collectQueuedImages_def resolveOriginRoutingMetadata_def bareRun_def Let_def)

text \<open>What the agent runner lets a run do, read off its parameters: who asked, whether the owner asked, where
  and how commands run, and what the elevated shell permits. An absent text counts as the empty one.\<close>

definition authority :: "run_params \<Rightarrow> (string \<times> string \<times> bool) \<times> string list \<times> bool \<times> bool \<times> string" where
  "authority r =
     ((coalesce (senderId r) [], coalesce (senderE164 r) [], senderIsOwner r = Some True),
      map (\<lambda>part. coalesce (Option.bind (execOverrides r) part) []) [exec_host, exec_security, exec_ask, exec_node],
      map_option elevated_enabled (bashElevated r) = Some True, map_option elevated_allowed (bashElevated r) = Some True,
      coalesce (Option.bind (bashElevated r) elevated_defaultLevel) [])"

lemma fields_authority: "authorizationFields a = authorizationFields b \<Longrightarrow> authority a = authority b"
  by (simp add: authorizationFields_def authority_def Let_def)

text \<open>C13: Collecting never mixes authorizations. The batches of a collect turn are the queued messages in
  their order, none lost and none twice, and the run a batch is answered with carries exactly the
  authority of every message in it: sender, ownership, execution overrides and elevated shell.\<close>

theorem batches_keep_authorization:
  "concat (splitCollectItemsByAuthorization queued) = queued \<and>
   (\<forall>g \<in> set (splitCollectItemsByAuthorization queued). g \<noteq> [] \<and>
     (\<forall>i \<in> set g. authority (run_of i) = authority (run_of (groupRun g summary now))))"
proof (intro conjI ballI)
  show "concat (splitCollectItemsByAuthorization queued) = queued" using split_groups by blast
  fix g assume g: "g \<in> set (splitCollectItemsByAuthorization queued)"
  then obtain k where k: "same_key k g" using split_groups by blast
  then show "g \<noteq> []" by (simp add: same_key_def)
  fix i assume "i \<in> set g"
  then have "resolveFollowupAuthorizationKey (run_of i) = resolveFollowupAuthorizationKey (run_of (last g))"
    using k last_in_set [of g] by (simp add: same_key_def)
  then show "authority (run_of i) = authority (run_of (groupRun g summary now))"
    unfolding group_run_params by (intro fields_authority authorization_key_inj)
qed

subsection \<open>Messages are run in order\<close>

lemma queue_at_simps [simp]:
  "queueAt m (putQueue n q st) = (if m = n then Some q else queueAt m st)"
  "queueAt m (waitAt n d w st) = queueAt m st"
  "queueAt m (rememberFollowupDrainCallback key cb st) = queueAt m st"
  "queueAt m (clearFollowupDrainCallback key st) = queueAt m st"
  "queueAt m (st\<lparr>registry := reg\<rparr>) = queueAt m st" "queueAt m (st\<lparr>drains := ds\<rparr>) = queueAt m st"
  "queueAt m (st\<lparr>nextQueue := k\<rparr>) = queueAt m st" "queueAt m (st\<lparr>recentIds := rs\<rparr>) = queueAt m st"
  "queueAt m (st\<lparr>finished := fs\<rparr>) = queueAt m st"
  by (simp_all add: queueAt_def putQueue_def waitAt_def rememberFollowupDrainCallback_def clearFollowupDrainCallback_def update_conv')

lemma frame_simps [simp]:
  "registry (putQueue n q st) = registry st" "drains (putQueue n q st) = drains st" "finished (putQueue n q st) = finished st"
  "nextQueue (putQueue n q st) = nextQueue st" "recentIds (putQueue n q st) = recentIds st" "callbacks (putQueue n q st) = callbacks st"
  "registry (waitAt n d w st) = registry st" "drains (waitAt n d w st) = AList.update n (d\<lparr>drain_wait := w\<rparr>) (drains st)"
  "finished (waitAt n d w st) = finished st" "nextQueue (waitAt n d w st) = nextQueue st"
  "callbacks (waitAt n d w st) = callbacks st"
  "registry (rememberFollowupDrainCallback key cb st) = registry st" "drains (rememberFollowupDrainCallback key cb st) = drains st"
  "finished (rememberFollowupDrainCallback key cb st) = finished st" "nextQueue (rememberFollowupDrainCallback key cb st) = nextQueue st"
  "callbacks (rememberFollowupDrainCallback key cb st) = AList.update key cb (callbacks st)"
  "registry (clearFollowupDrainCallback key st) = registry st" "drains (clearFollowupDrainCallback key st) = drains st"
  "finished (clearFollowupDrainCallback key st) = finished st" "nextQueue (clearFollowupDrainCallback key st) = nextQueue st"
  by (simp_all add: putQueue_def waitAt_def rememberFollowupDrainCallback_def clearFollowupDrainCallback_def)

text \<open>What scheduling, ending and waiting keep: every queue's messages, the log, and no run is started.\<close>

definition queue_view :: "followup_queue \<Rightarrow> followup_run list \<times> nat \<times> queue_mode \<times> drop_policy" where
  "queue_view q = (items q, droppedCount q, mode q, dropPolicy q)"

definition keeps :: "followups \<Rightarrow> followups \<Rightarrow> bool" where
  "keeps st st' \<longleftrightarrow> finished st' = finished st \<and> nextQueue st' = nextQueue st \<and>
     (\<forall>n. map_option queue_view (queueAt n st') = map_option queue_view (queueAt n st)) \<and>
     (\<forall>k n. map_of (registry st') k = Some n \<longrightarrow> map_of (registry st) k = Some n) \<and>
     (\<forall>n d. map_of (drains st') n = Some d \<longrightarrow> map_of (drains st) n = Some d \<or> queueAt n st \<noteq> None \<and> (\<exists>ms. drain_wait d = AwaitDebounce ms))"

lemma keeps_refl [simp]: "keeps st st"
  by (simp add: keeps_def)

lemma keepsD:
  assumes "keeps st st'"
  shows "finished st' = finished st" "nextQueue st' = nextQueue st"
    "map_option queue_view (queueAt n st') = map_option queue_view (queueAt n st)"
    "map_of (registry st') k = Some n \<Longrightarrow> map_of (registry st) k = Some n"
    "map_of (drains st') n = Some d \<Longrightarrow> map_of (drains st) n = Some d \<or> queueAt n st \<noteq> None \<and> (\<exists>ms. drain_wait d = AwaitDebounce ms)"
  using assms by (simp_all add: keeps_def)

lemma keeps_trans:
  assumes ab: "keeps a b" and bc: "keeps b c" shows "keeps a c"
proof -
  have "queueAt n b \<noteq> None \<longleftrightarrow> queueAt n a \<noteq> None" for n
    using keepsD(3) [OF ab, of n] by (cases "queueAt n a"; cases "queueAt n b") simp_all
  then have "map_of (drains a) n = Some d \<or> queueAt n a \<noteq> None \<and> (\<exists>ms. drain_wait d = AwaitDebounce ms)"
    if "map_of (drains c) n = Some d" for n d
    using keepsD(5) [OF bc that] keepsD(5) [OF ab, of n d] by blast
  then show ?thesis using keepsD(1-4) [OF ab] keepsD(1-4) [OF bc] by (simp add: keeps_def)
qed

lemma keeps_end: "queueAt n st = Some q0 \<Longrightarrow> queue_view q = queue_view q0 \<Longrightarrow> keeps st (endDrain n key q st)"
  by (auto simp: keeps_def endDrain_def queue_view_def delete_conv' split: if_splits)

lemma keeps_loop: "queueAt n st = Some q \<Longrightarrow> keeps st (drainLoop n d q st)"
  by (auto simp: drainLoop_def keeps_end) (auto simp: keeps_def update_conv' split: if_splits)

lemma keeps_schedule: "keeps st (scheduleFollowupDrain key cb st)"
proof (cases "beginQueueDrain key st")
  case None
  then show ?thesis by (simp add: scheduleFollowupDrain_def)
next
  case (Some nq)
  obtain n q where nq: "nq = (n, q)" by (cases nq)
  let ?st1 = "rememberFollowupDrainCallback key (coalesce (map_of (callbacks st) key) cb) (putQueue n q st)"
  have "keeps st ?st1"
    using Some nq by (auto simp: keeps_def beginQueueDrain_def queue_view_def split: option.splits if_splits)
  then show ?thesis using Some nq keeps_loop [of n ?st1 q] keeps_trans by (simp add: scheduleFollowupDrain_def Let_def)
qed

lemma keeps_kick: "keeps st (kickFollowupDrainIfIdle key st)"
  by (simp add: kickFollowupDrainIfIdle_def keeps_schedule split: option.split)

lemma keeps_finish:
  assumes "queueAt n st = Some q0" "queue_view q = queue_view q0"
  shows "keeps st (finishDrain n d q st)"
proof -
  have "keeps st (putQueue n (q\<lparr>draining := False\<rparr>) (st\<lparr>drains := AList.delete n (drains st)\<rparr>))"
    using assms by (auto simp: keeps_def queue_view_def delete_conv' split: if_splits)
  then show ?thesis using assms keeps_end keeps_trans [OF _ keeps_schedule] by (auto simp: finishDrain_def)
qed

end
