(* ===== verification/FollowupFifo.thy ===== *)
theory FollowupFifo
  imports FollowupQueue
begin

text \<open>
  What the followup queues promise and where they break it. Over any calls, in any mode and with any drop
  policy, every queue answers the messages it accepted in their order and none twice: the runs that ended
  answer batches of accepted messages, and these batches followed by the messages still waiting are a
  subsequence of the accepted ones. They are all of them as long as no call clears a queue or makes it drop
  a message. When a message is dropped to make room while the drain runs it, the drain removes another
  message in its place.
\<close>

subsection \<open>The messages of a queue\<close>

definition waitingRuns :: "nat \<Rightarrow> followups \<Rightarrow> followup_run list" where
  "waitingRuns n st = (case queueAt n st of None \<Rightarrow> [] | Some q \<Rightarrow> items q)"

definition doneRuns :: "nat \<Rightarrow> followups \<Rightarrow> followup_run list" where
  "doneRuns n st = map (snd \<circ> snd) (filter (\<lambda>f. fst f = n) (finished st))"

text \<open>A message without the session, model and credential profile that a refresh rewrites.\<close>

definition message :: "followup_run \<Rightarrow> followup_run" where
  "message i = i\<lparr>run_of := (run_of i)\<lparr>sessionId := [], sessionFile := [], provider := [], model := [],
     hasSessionModelOverride := None, modelOverrideSource := None, authProfileId := None, authProfileIdSource := None\<rparr>\<rparr>"

lemma message_rewrite [simp]: "message (i\<lparr>run_of := rewriteRun p (run_of i)\<rparr>) = message i"
  by (simp add: message_def rewriteRun_def rewriteSelection_def rewriteSession_def Let_def split: option.split)

text \<open>The message a call adds to queue \<open>n\<close>.\<close>

fun accepts :: "routing \<Rightarrow> nat \<Rightarrow> followup_call \<Rightarrow> followups \<Rightarrow> followup_run list" where
  "accepts routes n (Enqueue now key r settings dm cb restart) st =
     (if fst (enqueueFollowupRun routes now key r settings dm cb restart st) \<and> fst (getFollowupQueue key settings st) = n
      then [r] else [])"
| "accepts routes n c st = []"

text \<open>The messages a run answers: one message as it is, a batch of messages under one authority, the message
  an overflow notice takes the place of, or none for a notice on its own.\<close>

definition uniform :: "followup_run list \<Rightarrow> bool" where
  "uniform g \<longleftrightarrow> g \<noteq> [] \<and> (\<forall>i \<in> set g. authority (run_of i) = authority (run_of (last g)))"

inductive answers :: "followup_run list \<Rightarrow> followup_run \<Rightarrow> bool" where
  alone: "answers [i] i"
| batch: "uniform g \<Longrightarrow> answers g (groupRun g summary now)"
| in_place: "answers [i] (summaryItemRun summary r i now)"
| notice: "answers [] (bareRun summary r now)"

subsection \<open>What a drain has in hand\<close>

fun carried :: "drain_wait \<Rightarrow> followup_run list \<Rightarrow> bool" where
  "carried (AwaitDebounce ms) f \<longleftrightarrow> f = []"
| "carried (AwaitItem r) f \<longleftrightarrow> f = [r]"
| "carried (AwaitSummaryItem r) f \<longleftrightarrow> (\<exists>s p i now. r = summaryItemRun s p i now \<and> f = [i])"
| "carried (AwaitSummaryOnly r) f \<longleftrightarrow> f = [] \<and> (\<exists>s p now. r = bareRun s p now)"
| "carried (AwaitGroup r len rest pending) f \<longleftrightarrow>
     (\<exists>g now. r = groupRun g pending now \<and> len = length g \<and> f = g @ concat rest \<and> list_all uniform (g # rest))"

definition in_hand :: "drain_state option \<Rightarrow> followup_run list \<Rightarrow> bool" where
  "in_hand d f = (case d of None \<Rightarrow> f = [] | Some d \<Rightarrow> carried (drain_wait d) f)"

text \<open>All or some of the accepted messages.\<close>

definition kept :: "bool \<Rightarrow> followup_run list \<Rightarrow> followup_run list \<Rightarrow> bool" where
  "kept exact xs P = (if exact then map message xs = map message P else subseq (map message xs) (map message P))"

lemma kept_put: "kept exact xs P \<Longrightarrow> kept exact (xs @ [r]) (P @ [r])"
  by (auto simp: kept_def list_emb_append_mono)

lemma kept_part: "kept False xs P \<Longrightarrow> subseq ys xs \<Longrightarrow> kept False ys P"
  by (auto simp: kept_def intro: subseq_order.order_trans subseq_map)

text \<open>The queue answers the accepted messages \<open>P\<close> with \<open>f\<close> in hand: the batches that ended, those in hand and
  the messages behind them are accepted messages in their order. The front of the queue is what is in hand,
  less what was dropped from it.\<close>

definition holds :: "bool \<Rightarrow> nat \<Rightarrow> followup_run list \<Rightarrow> followups \<Rightarrow> followup_run list \<Rightarrow> bool" where
  "holds exact n P st f \<longleftrightarrow>
     (\<exists>bs tail j. list_all2 answers bs (doneRuns n st) \<and> kept exact (concat bs @ f @ tail) P \<and>
        map message (waitingRuns n st) = map message (drop j f @ tail) \<and> (exact \<longrightarrow> j = 0))"

lemma holdsI:
  "list_all2 answers bs (doneRuns n st) \<Longrightarrow> kept exact (concat bs @ f @ tail) P \<Longrightarrow>
     map message (waitingRuns n st) = map message (drop j f @ tail) \<Longrightarrow> (exact \<Longrightarrow> j = 0) \<Longrightarrow> holds exact n P st f"
  unfolding holds_def by blast

lemma holds_frame:
  "holds exact n P st f \<Longrightarrow> map message (waitingRuns n st') = map message (waitingRuns n st) \<Longrightarrow> doneRuns n st' = doneRuns n st \<Longrightarrow>
     holds exact n P st' f"
  by (simp add: holds_def)

lemma kept_cong: "map message xs = map message ys \<Longrightarrow> kept exact xs P = kept exact ys P"
  by (simp add: kept_def)

lemma drop_part: "subseq (a @ drop j f @ drop k t) (a @ f @ t)"
  by (intro list_emb_append_mono subseq_order.order_refl suffix_imp_subseq suffix_drop)

lemma kept_drop: "kept exact (a @ f @ t) P \<Longrightarrow> (exact \<Longrightarrow> j = 0 \<and> k = 0) \<Longrightarrow> kept exact (a @ drop j f @ drop k t) P"
  by (cases exact) (auto intro: kept_part drop_part)

lemma holds_release: assumes "holds exact n P st f" shows "holds exact n P st []"
proof -
  obtain bs tail j where *: "list_all2 answers bs (doneRuns n st)" "kept exact (concat bs @ f @ tail) P"
    "map message (waitingRuns n st) = map message (drop j f @ tail)" "exact \<longrightarrow> j = 0" using assms unfolding holds_def by blast
  have "kept exact (concat bs @ drop j f @ drop 0 tail) P" by (rule kept_drop [OF *(2)]) (use *(4) in simp)
  then show ?thesis using *(1,3) by (intro holdsI [where tail = "drop j f @ tail" and j = 0]) simp_all
qed

lemma holds_take: assumes "holds exact n P st []" "waitingRuns n st = f @ tail" shows "holds exact n P st f"
proof -
  obtain bs t j where *: "list_all2 answers bs (doneRuns n st)" "kept exact (concat bs @ [] @ t) P"
    "map message (waitingRuns n st) = map message (drop j [] @ t)" using assms(1) unfolding holds_def by blast
  have "kept exact (concat bs @ f @ tail) P"
    using *(2,3) assms(2) kept_cong [of "concat bs @ t" "concat bs @ f @ tail"] by simp
  then show ?thesis using *(1) assms(2) by (intro holdsI [where j = 0]) simp_all
qed

lemma holds_put:
  assumes "holds exact n P st f" "waitingRuns n st' = waitingRuns n st @ [r]" "doneRuns n st' = doneRuns n st"
  shows "holds exact n (P @ [r]) st' f"
proof -
  obtain bs tail j where *: "list_all2 answers bs (doneRuns n st)" "kept exact (concat bs @ f @ tail) P"
    "map message (waitingRuns n st) = map message (drop j f @ tail)" "exact \<longrightarrow> j = 0" using assms(1) unfolding holds_def by blast
  show ?thesis using * assms(2,3) kept_put [OF *(2), of r] by (intro holdsI [where tail = "tail @ [r]" and j = j]) simp_all
qed

lemma drop_twice: "drop k (drop j f @ t) = drop (j + k) f @ drop (k - (length f - j)) t"
  by (simp add: add.commute)

lemma holds_drop:
  assumes "holds False n P st f" "waitingRuns n st' = drop k (waitingRuns n st)" "doneRuns n st' = doneRuns n st"
  shows "holds False n P st' f"
proof -
  obtain bs tail j where *: "list_all2 answers bs (doneRuns n st)" "kept False (concat bs @ f @ tail) P"
    "map message (waitingRuns n st) = map message (drop j f @ tail)" using assms(1) unfolding holds_def by blast
  have "map message (waitingRuns n st') = drop k (map message (drop j f @ tail))"
    using *(3) assms(2) by (simp only: drop_map [symmetric])
  then have w: "map message (waitingRuns n st') = map message (drop (j + k) f @ drop (k - (length f - j)) tail)"
    by (simp only: drop_map drop_twice)
  have "kept False (concat bs @ drop 0 f @ drop (k - (length f - j)) tail) P" by (rule kept_drop [OF *(2)]) simp
  then show ?thesis using *(1) assms(3) w by (intro holdsI [where tail = "drop (k - (length f - j)) tail" and j = "j + k"]) simp_all
qed

lemma holds_end:
  assumes "holds exact n P st (g @ f)" "answers g r"
    "map message (waitingRuns n st') = map message (drop (length g) (waitingRuns n st))" "doneRuns n st' = doneRuns n st @ [r]"
  shows "holds exact n P st' f"
proof -
  obtain bs tail j where *: "list_all2 answers bs (doneRuns n st)" "kept exact (concat bs @ (g @ f) @ tail) P"
    "map message (waitingRuns n st) = map message (drop j (g @ f) @ tail)" "exact \<longrightarrow> j = 0"
    using assms(1) unfolding holds_def by blast
  define k where "k = length g - (length (g @ f) - j)"
  have "map message (waitingRuns n st') = drop (length g) (map message (drop j (g @ f) @ tail))"
    using *(3) assms(3) by (simp only: drop_map [symmetric])
  then have "map message (waitingRuns n st') = map message (drop (j + length g) (g @ f) @ drop k tail)"
    by (simp only: drop_map drop_twice k_def)
  then have w: "map message (waitingRuns n st') = map message (drop j f @ drop k tail)" by simp
  have k: "exact \<Longrightarrow> k = 0" using *(4) by (simp add: k_def)
  have "kept exact (concat bs @ drop 0 (g @ f) @ drop k tail) P" by (rule kept_drop [OF *(2)]) (use k in simp)
  then have "kept exact (concat (bs @ [g]) @ f @ drop k tail) P" by simp
  moreover have "list_all2 answers (bs @ [g]) (doneRuns n st')" using *(1) assms(2,4) by (simp add: list_all2_appendI)
  ultimately show ?thesis using w *(4) by (intro holdsI [where bs = "bs @ [g]" and tail = "drop k tail" and j = j]) simp_all
qed

subsection \<open>The invariant\<close>

definition sound :: "followups \<Rightarrow> bool" where
  "sound st \<longleftrightarrow> (\<forall>n. nextQueue st \<le> n \<longrightarrow> queueAt n st = None) \<and>
     (\<forall>key n. map_of (registry st) key = Some n \<longrightarrow> queueAt n st \<noteq> None) \<and>
     (\<forall>n. queueAt n st = None \<longrightarrow> map_of (drains st) n = None)"

lemma soundD:
  assumes "sound st"
  shows "nextQueue st \<le> n \<Longrightarrow> queueAt n st = None" "map_of (registry st) key = Some n \<Longrightarrow> \<exists>q. queueAt n st = Some q"
    "queueAt n st = None \<Longrightarrow> map_of (drains st) n = None"
  using assms unfolding sound_def by blast+

definition tracks :: "bool \<Rightarrow> nat \<Rightarrow> followup_run list \<Rightarrow> followups \<Rightarrow> bool" where
  "tracks exact n P st \<longleftrightarrow> sound st \<and> (\<exists>f. in_hand (map_of (drains st) n) f \<and> holds exact n P st f)"

lemma tracksI: "sound st \<Longrightarrow> in_hand (map_of (drains st) n) f \<Longrightarrow> holds exact n P st f \<Longrightarrow> tracks exact n P st"
  unfolding tracks_def by blast

text \<open>A change that leaves the messages and runs of a queue alone, and at most lets its drain wait for the
  debounce.\<close>

lemma tracks_frame:
  assumes t: "tracks exact n P st" and "sound st'"
    and same: "map message (waitingRuns n st') = map message (waitingRuns n st)" "doneRuns n st' = doneRuns n st"
    and hand: "map_of (drains st') n = map_of (drains st) n \<or> in_hand (map_of (drains st') n) []"
  shows "tracks exact n P st'"
proof -
  obtain f where f: "in_hand (map_of (drains st) n) f" "holds exact n P st f" using t unfolding tracks_def by blast
  show ?thesis
  proof (rule disjE [OF hand])
    assume "map_of (drains st') n = map_of (drains st) n"
    then show ?thesis using f assms(2) holds_frame [OF f(2) same] by (intro tracksI) simp_all
  next
    assume "in_hand (map_of (drains st') n) []"
    then show ?thesis using assms(2) holds_frame [OF holds_release [OF f(2)] same] by (intro tracksI)
  qed
qed

lemma view_items: "queue_view q = queue_view q' \<Longrightarrow> items q = items q'"
  by (simp add: queue_view_def)

lemma keeps_waiting: "keeps st st' \<Longrightarrow> waitingRuns n st' = waitingRuns n st"
  using keepsD(3) [of st st' n] by (cases "queueAt n st"; cases "queueAt n st'") (auto simp: waitingRuns_def dest: view_items)

lemma keeps_sound: assumes "sound st" "keeps st st'" shows "sound st'"
proof -
  have none: "queueAt n st' = None \<longleftrightarrow> queueAt n st = None" for n
    using keepsD(3) [OF assms(2), of n] by (cases "queueAt n st"; cases "queueAt n st'") simp_all
  have "map_of (drains st') n = None" if "queueAt n st' = None" for n
    using keepsD(5) [OF assms(2), of n] soundD(3) [OF assms(1), of n] that none by (cases "map_of (drains st') n") auto
  moreover have "queueAt n st' \<noteq> None" if "map_of (registry st') key = Some n" for n key
    using soundD(2) [OF assms(1) keepsD(4) [OF assms(2) that]] none [of n] by auto
  ultimately show ?thesis using keepsD(2) [OF assms(2)] soundD(1) [OF assms(1)] none unfolding sound_def by auto
qed

lemma keeps_tracks: assumes "tracks exact n P st" "keeps st st'" shows "tracks exact n P st'"
proof (rule tracks_frame [OF assms(1)])
  show "sound st'" using assms keeps_sound unfolding tracks_def by blast
  show "map message (waitingRuns n st') = map message (waitingRuns n st)" using keeps_waiting [OF assms(2)] by simp
  show "doneRuns n st' = doneRuns n st" using keepsD(1) [OF assms(2)] by (simp add: doneRuns_def)
  show "map_of (drains st') n = map_of (drains st) n \<or> in_hand (map_of (drains st') n) []"
    using keepsD(5) [OF assms(2), of n] by (cases "map_of (drains st') n") (auto simp: in_hand_def)
qed

lemma waiting_simps [simp]:
  "waitingRuns m (putQueue n q st) = (if m = n then items q else waitingRuns m st)"
  "waitingRuns m (waitAt n d w st) = waitingRuns m st"
  "waitingRuns m (st\<lparr>recentIds := rs\<rparr>) = waitingRuns m st" "waitingRuns m (st\<lparr>finished := fs\<rparr>) = waitingRuns m st"
  "doneRuns m (putQueue n q st) = doneRuns m st" "doneRuns m (waitAt n d w st) = doneRuns m st"
  "doneRuns m (st\<lparr>recentIds := rs\<rparr>) = doneRuns m st"
  "doneRuns m (st\<lparr>finished := finished st @ [(n, cb, r)]\<rparr>) = doneRuns m st @ (if m = n then [r] else [])"
  by (simp_all add: waitingRuns_def doneRuns_def)

lemma waiting_at: "queueAt n st = Some q \<Longrightarrow> waitingRuns n st = items q"
  by (simp add: waitingRuns_def)

lemma sound_simps [simp]: "sound (st\<lparr>recentIds := rs\<rparr>) = sound st" "sound (st\<lparr>finished := fs\<rparr>) = sound st"
  by (simp_all add: sound_def)

lemma sound_put: "sound st \<Longrightarrow> queueAt n st \<noteq> None \<Longrightarrow> sound (putQueue n q st)"
  by (auto simp: sound_def)

lemma sound_wait: "sound st \<Longrightarrow> queueAt n st \<noteq> None \<Longrightarrow> sound (waitAt n d w st)"
  by (auto simp: sound_def update_conv')

subsection \<open>The drain\<close>

text \<open>A turn waits for a run of the front of the queue, or finishes the drain.\<close>

lemma groups_uniform: "list_all uniform (splitCollectItemsByAuthorization queued)"
proof -
  have "uniform g" if g: "same_key k g" for k g
    using g last_in_set [of g] authorization_key_inj fields_authority unfolding uniform_def same_key_def by metis
  then show ?thesis using split_groups [of queued] by (auto simp: list_all_iff)
qed

lemma turn_shape:
  "(\<exists>d' w f tail. drainTurn routes n d q now st = waitAt n d' w st \<and> carried w f \<and> items q = f @ tail) \<or>
   (\<exists>d'. drainTurn routes n d q now st = finishDrain n d' q st)"
proof (cases "mode q = Collect")
  case False
  show ?thesis
    using False by (cases "previewQueueSummaryPrompt ''message'' None q"; cases "lastRun q"; cases "items q")
      (fastforce simp: drainTurn_def drainNextQueueItem_def)+
next
  case True
  obtain step force where s:
    "drainCollectQueueStep (forceIndividualCollect d) (hasCrossChannelItems (resolveCrossChannelKey routes) (items q)) (items q) = (step, force)"
    by fastforce
  show ?thesis
  proof (cases step)
    case (CollectRun i)
    then have "\<exists>tail. items q = [i] @ tail" using s
      by (cases "items q") (auto simp: drainCollectQueueStep_def drainCollectItemIfNeeded_def drainNextQueueItem_def split: if_splits)
    then show ?thesis using True s CollectRun by (fastforce simp: drainTurn_def)
  next
    case CollectEmpty
    then have "items q = []" using s
      by (cases "items q") (auto simp: drainCollectQueueStep_def drainCollectItemIfNeeded_def drainNextQueueItem_def split: if_splits)
    then show ?thesis using True s CollectEmpty
      by (cases "previewQueueSummaryPrompt ''message'' None q"; cases "lastRun q")
        (fastforce simp: drainTurn_def collectQueuedImages_def Let_def)+
  next
    case CollectSkipped
    show ?thesis
    proof (cases "splitCollectItemsByAuthorization (items q)")
      case Nil
      then show ?thesis using True s CollectSkipped
        by (cases "previewQueueSummaryPrompt ''message'' None q"; cases "lastRun q") (fastforce simp: drainTurn_def Let_def)+
    next
      case (Cons g rest)
      let ?w = "AwaitGroup (groupRun g (previewQueueSummaryPrompt ''message'' None q) now) (length g) rest (previewQueueSummaryPrompt ''message'' None q)"
      have "carried ?w (items q)" "items q = items q @ []"
        using Cons groups_uniform [of "items q"] split_groups [of "items q"] by auto
      moreover have "drainTurn routes n d q now st = waitAt n d ?w st"
        using True s CollectSkipped Cons by (simp add: drainTurn_def startGroup_def Let_def)
      ultimately show ?thesis by blast
    qed
  qed
qed

lemma debounce_cases:
  "debounceCheck routes fast n now st = st \<or>
   (\<exists>d q. map_of (drains st) n = Some d \<and> queueAt n st = Some q \<and> debounceCheck routes fast n now st = drainTurn routes n d q now st)"
proof (cases "map_of (drains st) n")
  case (Some d)
  show ?thesis
  proof (cases "queueAt n st")
    case q: (Some q)
    show ?thesis using Some q by (cases "drain_wait d") (auto simp: debounceCheck_def)
  qed (simp add: debounceCheck_def Some)
qed (simp add: debounceCheck_def)

lemma wait_tracks:
  assumes t: "tracks exact m P st" and q: "queueAt n st = Some q" and w: "carried w f" "items q = f @ tail"
  shows "tracks exact m P (waitAt n d w st)"
proof (cases "m = n")
  case True
  have "holds exact n P st f" using t q w True holds_take holds_release waiting_at [OF q] unfolding tracks_def by metis
  then have "holds exact n P (waitAt n d w st) f" by (rule holds_frame) simp_all
  then show ?thesis using t q w True by (intro tracksI [where f = f]) (auto simp: tracks_def sound_wait in_hand_def update_conv')
next
  case False
  show ?thesis by (rule tracks_frame [OF t]) (use False t q in \<open>auto simp: sound_wait tracks_def update_conv'\<close>)
qed

lemma debounce_tracks: assumes "tracks exact m P st" shows "tracks exact m P (debounceCheck routes fast n now st)"
proof -
  consider "debounceCheck routes fast n now st = st"
    | d q where "queueAt n st = Some q" "debounceCheck routes fast n now st = drainTurn routes n d q now st"
    using debounce_cases by blast
  then show ?thesis
  proof cases
    case (2 d q)
    then show ?thesis
      using turn_shape [of routes n d q now st] wait_tracks [OF assms 2(1)] keeps_tracks [OF assms keeps_finish [OF 2(1) refl]] by auto
  qed (simp add: assms)
qed

text \<open>A run that ended answers the front of what is in hand; the rest stays in hand.\<close>

lemma ended_shape:
  assumes d: "map_of (drains st) n = Some d" and q: "queueAt n st = Some q" and f: "carried (drain_wait d) f"
    and w: "\<And>ms. drain_wait d \<noteq> AwaitDebounce ms"
  shows "\<exists>g f' r q1 st1. f = g @ f' \<and> answers g r \<and> items q1 = drop (length g) (items q) \<and>
     st1 = putQueue n q1 (st\<lparr>finished := finished st @ [(n, drain_callback d, r)]\<rparr>) \<and>
     (f' = [] \<and> runEnded n now st = drainLoop n d q1 st1 \<or> (\<exists>w'. carried w' f' \<and> runEnded n now st = waitAt n d w' st1))"
proof (cases "drain_wait d")
  case (AwaitItem r)
  have "answers [r] r" by (rule answers.intros)
  then show ?thesis using AwaitItem d q f by (intro exI [of _ "[r]"] exI [of _ "[]"] exI [of _ r] exI) (auto simp: runEnded_def Let_def drop_Suc)
next
  case (AwaitSummaryItem r)
  then obtain i where "f = [i]" "answers [i] r" using f by (auto intro: answers.intros)
  then show ?thesis using AwaitSummaryItem d q
    by (intro exI [of _ "[i]"] exI [of _ "[]"] exI [of _ r] exI) (auto simp: runEnded_def Let_def drop_Suc clearQueueSummaryState_def)
next
  case (AwaitSummaryOnly r)
  then have "f = []" "answers [] r" using f by (auto intro: answers.intros)
  then show ?thesis using AwaitSummaryOnly d q
    by (intro exI [of _ "[]"] exI [of _ "[]"] exI [of _ r] exI [of _ "clearQueueSummaryState q"] exI)
      (auto simp: runEnded_def Let_def clearQueueSummaryState_def)
next
  case (AwaitGroup r len rest pending)
  then obtain g t where g: "r = groupRun g pending t" "len = length g" "f = g @ concat rest" "uniform g" "list_all uniform rest"
    using f by auto
  then have a: "answers g r" by (auto intro: answers.intros)
  let ?q0 = "q\<lparr>items := drop len (items q)\<rparr>"
  let ?q1 = "if truthy_string pending then clearQueueSummaryState ?q0 else ?q0"
  let ?pending = "if truthy_string pending then None else pending"
  let ?st1 = "putQueue n ?q1 (st\<lparr>finished := finished st @ [(n, drain_callback d, r)]\<rparr>)"
  have items: "items ?q1 = drop (length g) (items q)" using g by (simp add: clearQueueSummaryState_def)
  have e: "runEnded n now st = startGroup n d ?q1 rest ?pending now ?st1"
    using AwaitGroup d q by (simp only: runEnded_def option.case prod.case drain_wait.case Let_def)
  show ?thesis
  proof (cases rest)
    case Nil
    then show ?thesis using g a items e by (intro exI [of _ g] exI [of _ "[]"] exI [of _ r] exI [of _ ?q1] exI [of _ ?st1]) (simp add: startGroup_def)
  next
    case (Cons g2 rest2)
    have "carried (AwaitGroup (groupRun g2 ?pending now) (length g2) rest2 ?pending) (concat rest)" using Cons g(5) by auto
    then show ?thesis using g a items e Cons
      by (intro exI [of _ g] exI [of _ "concat rest"] exI [of _ r] exI [of _ ?q1] exI [of _ ?st1] conjI disjI2
          exI [of _ "AwaitGroup (groupRun g2 ?pending now) (length g2) rest2 ?pending"]) (simp_all add: startGroup_def)
  qed
qed (use w in simp)

lemma idle_ended:
  "map_of (drains st) n = None \<or> queueAt n st = None \<or> (\<exists>d ms. map_of (drains st) n = Some d \<and> drain_wait d = AwaitDebounce ms) \<Longrightarrow>
     runEnded n now st = st"
  by (cases "map_of (drains st) n"; cases "queueAt n st") (auto simp: runEnded_def Let_def)

lemma ended_effect:
  "runEnded n now st = st \<or>
   queueAt n st \<noteq> None \<and> (\<exists>d q1 r st1. st1 = putQueue n q1 (st\<lparr>finished := finished st @ [(n, drain_callback d, r)]\<rparr>) \<and>
     (runEnded n now st = drainLoop n d q1 st1 \<or> (\<exists>w. runEnded n now st = waitAt n d w st1)))"
proof (cases "map_of (drains st) n")
  case (Some d)
  show ?thesis
  proof (cases "queueAt n st")
    case q: (Some q)
    show ?thesis
    proof (cases "drain_wait d")
      case (AwaitGroup r len rest pending)
      then show ?thesis using Some q by (cases rest) (auto simp: runEnded_def Let_def startGroup_def)
    qed (use Some q in \<open>auto simp: runEnded_def Let_def\<close>)
  qed (simp add: runEnded_def Some)
qed (simp add: runEnded_def)

lemma ended_sound: assumes "sound st" shows "sound (runEnded n now st)"
proof -
  consider "runEnded n now st = st"
    | d q1 r st1 where "queueAt n st \<noteq> None" "st1 = putQueue n q1 (st\<lparr>finished := finished st @ [(n, drain_callback d, r)]\<rparr>)"
        "runEnded n now st = drainLoop n d q1 st1 \<or> (\<exists>w. runEnded n now st = waitAt n d w st1)"
    using ended_effect by blast
  then show ?thesis
  proof cases
    case (2 d q1 r st1)
    have s1: "sound st1" "queueAt n st1 = Some q1" using 2(1,2) assms by (simp_all add: sound_put)
    then have "sound (drainLoop n d q1 st1)" using keeps_sound keeps_loop by blast
    then show ?thesis using s1 2(3) sound_wait by auto
  qed (simp add: assms)
qed

lemma loop_drains: "m \<noteq> n \<Longrightarrow> map_of (drains (drainLoop n d q st)) m = map_of (drains st) m"
  by (simp add: drainLoop_def endDrain_def update_conv' delete_conv')

lemma ended_elsewhere:
  assumes "m \<noteq> n"
  shows "waitingRuns m (runEnded n now st) = waitingRuns m st" "doneRuns m (runEnded n now st) = doneRuns m st"
    "map_of (drains (runEnded n now st)) m = map_of (drains st) m"
proof -
  have w: "waitingRuns m (drainLoop n d q1 st1) = waitingRuns m st1" "doneRuns m (drainLoop n d q1 st1) = doneRuns m st1" for d q1 st1
    using assms by (auto simp: drainLoop_def endDrain_def waitingRuns_def doneRuns_def)
  have "waitingRuns m (runEnded n now st) = waitingRuns m st \<and> doneRuns m (runEnded n now st) = doneRuns m st \<and>
      map_of (drains (runEnded n now st)) m = map_of (drains st) m"
    using ended_effect [of n now st] assms by (auto simp: w loop_drains update_conv')
  then show "waitingRuns m (runEnded n now st) = waitingRuns m st" "doneRuns m (runEnded n now st) = doneRuns m st"
    "map_of (drains (runEnded n now st)) m = map_of (drains st) m" by blast+
qed

lemma loop_idle: "in_hand (map_of (drains (drainLoop n d q st)) n) []"
  by (simp add: drainLoop_def endDrain_def in_hand_def update_conv' delete_conv')

lemma ended_tracks:
  assumes t: "tracks exact m P st"
  shows "tracks exact m P (runEnded n now st)"
proof (cases "m = n \<and> (\<exists>d q. map_of (drains st) n = Some d \<and> queueAt n st = Some q \<and> (\<forall>ms. drain_wait d \<noteq> AwaitDebounce ms))")
  case False
  then have "m \<noteq> n \<or> runEnded n now st = st"
    using idle_ended [of st n now] by (cases "map_of (drains st) n"; cases "queueAt n st"; auto)
  then show ?thesis
  proof
    assume m: "m \<noteq> n"
    have "sound st" using t unfolding tracks_def by blast
    then show ?thesis by (intro tracks_frame [OF t ended_sound]) (simp_all only: ended_elsewhere [OF m] simp_thms)
  qed (use t in simp)
next
  case True
  then obtain d q where d: "map_of (drains st) n = Some d" "queueAt n st = Some q" "\<And>ms. drain_wait d \<noteq> AwaitDebounce ms" and m: "m = n" by blast
  obtain f where f: "carried (drain_wait d) f" "holds exact n P st f" using t d(1) m unfolding tracks_def in_hand_def by auto
  obtain g f' r q1 st1 where e: "f = g @ f'" "answers g r" "items q1 = drop (length g) (items q)"
    "st1 = putQueue n q1 (st\<lparr>finished := finished st @ [(n, drain_callback d, r)]\<rparr>)"
    "f' = [] \<and> runEnded n now st = drainLoop n d q1 st1 \<or> (\<exists>w'. carried w' f' \<and> runEnded n now st = waitAt n d w' st1)"
    using ended_shape [OF d(1,2) f(1) d(3), of now] by (elim exE conjE) (rule that)
  have h: "holds exact n P st1 f'"
    by (rule holds_end [OF f(2) [unfolded e(1)] e(2)]) (simp_all add: e(3,4) waiting_at [OF d(2)])
  have s: "sound (runEnded n now st)" using t ended_sound unfolding tracks_def by blast
  have k: "keeps st1 (drainLoop n d q1 st1)" by (rule keeps_loop) (simp add: e(4))
  show ?thesis
  proof (rule disjE [OF e(5)])
    assume l: "f' = [] \<and> runEnded n now st = drainLoop n d q1 st1"
    have h0: "holds exact n P st1 []" using h l by simp
    have done_same: "doneRuns n (drainLoop n d q1 st1) = doneRuns n st1" by (simp only: doneRuns_def keepsD(1) [OF k])
    have "holds exact n P (drainLoop n d q1 st1) []"
      by (rule holds_frame [OF h0]) (simp_all only: keeps_waiting [OF k] done_same)
    then have "holds exact n P (runEnded n now st) []" by (simp only: l)
    moreover have "in_hand (map_of (drains (runEnded n now st)) n) []" using loop_idle by (simp only: l)
    ultimately show ?thesis unfolding m using s by (intro tracksI)
  next
    assume "\<exists>w'. carried w' f' \<and> runEnded n now st = waitAt n d w' st1"
    then obtain w' where w': "carried w' f'" "runEnded n now st = waitAt n d w' st1" by blast
    have "holds exact n P (waitAt n d w' st1) f'" by (rule holds_frame [OF h]) simp_all
    moreover have "in_hand (map_of (drains (waitAt n d w' st1)) n) f'" using w'(1) by (simp add: in_hand_def update_conv')
    ultimately show ?thesis unfolding m using s unfolding w'(2) by (intro tracksI [where f = f'])
  qed
qed

lemma failed_keeps: "keeps st (runFailed n now st)"
proof (cases "map_of (drains st) n")
  case (Some d)
  show ?thesis
  proof (cases "queueAt n st")
    case q: (Some q)
    let ?q1 = "q\<lparr>lastEnqueuedAt := now\<rparr>"
    have "keeps st (putQueue n ?q1 st)" using q by (simp add: keeps_def queue_view_def)
    moreover have "keeps (putQueue n ?q1 st) (finishDrain n d ?q1 (putQueue n ?q1 st))" by (rule keeps_finish) simp_all
    ultimately have "keeps st (finishDrain n d ?q1 (putQueue n ?q1 st))" by (rule keeps_trans)
    then show ?thesis using Some q by (cases "drain_wait d") (simp_all add: runFailed_def Let_def)
  qed (simp add: runFailed_def Some)
qed (simp add: runFailed_def)

subsection \<open>Enqueueing, clearing and refreshing\<close>

text \<open>A call that neither clears a queue nor lets it drop messages it accepted.\<close>

fun drops_nothing :: "followup_call \<Rightarrow> bool" where
  "drops_nothing (Enqueue now key r settings dm cb restart) \<longleftrightarrow> set_dropPolicy settings = Some DropNew"
| "drops_nothing (ClearQueue key) \<longleftrightarrow> False"
| "drops_nothing c \<longleftrightarrow> True"

lemma put_items_tracks:
  assumes "tracks exact m P st" "queueAt n st = Some q0" "map message (items q) = map message (items q0)"
  shows "tracks exact m P (putQueue n q st)"
  by (rule tracks_frame [OF assms(1)])
    (use assms in \<open>auto simp: sound_put tracks_def waiting_at\<close>)

lemma get_queue_tracks:
  assumes t: "tracks exact m P st" and g: "getFollowupQueue key settings st = (n, q, st1)"
  shows "tracks exact m P st1" "queueAt n st1 = Some q"
    "set_dropPolicy settings = Some DropNew \<Longrightarrow> dropPolicy q = DropNew"
proof -
  have s: "sound st" using t unfolding tracks_def by blast
  have "tracks exact m P st1 \<and> queueAt n st1 = Some q \<and> (set_dropPolicy settings = Some DropNew \<longrightarrow> dropPolicy q = DropNew)"
  proof (cases "map_of (registry st) key")
    case (Some k)
    then obtain q0 where q0: "queueAt k st = Some q0" using soundD(2) [OF s] by blast
    then have n: "n = k" "q = applyQueueRuntimeSettings settings q0" "st1 = putQueue k q st"
      using g Some by (auto simp: getFollowupQueue_def Let_def)
    have "items q = items q0" by (simp add: n applyQueueRuntimeSettings_def)
    then show ?thesis using put_items_tracks [OF t q0, of q] n by (simp add: applyQueueRuntimeSettings_def)
  next
    case None
    then have n: "n = nextQueue st" "q = applyQueueRuntimeSettings settings (newFollowupQueue settings)"
      "st1 = putQueue n q (st\<lparr>nextQueue := Suc n, registry := AList.update key n (registry st)\<rparr>)"
      using g by (auto simp: getFollowupQueue_def Let_def)
    have fresh: "queueAt n st = None" using soundD(1) [OF s, of n] n(1) by auto
    have items: "items q = []" by (simp add: n applyQueueRuntimeSettings_def newFollowupQueue_def)
    have "sound st1" using s n(1) unfolding n(3) by (auto simp: sound_def update_conv' split: if_splits)
    moreover have "waitingRuns m st1 = waitingRuns m st" "doneRuns m st1 = doneRuns m st" "drains st1 = drains st"
      using fresh items unfolding n(3) by (auto simp: waitingRuns_def doneRuns_def)
    ultimately have "tracks exact m P st1" by (intro tracks_frame [OF t]) simp_all
    then show ?thesis using n(3) by (simp add: n(2) applyQueueRuntimeSettings_def)
  qed
  then show "tracks exact m P st1" "queueAt n st1 = Some q" "set_dropPolicy settings = Some DropNew \<Longrightarrow> dropPolicy q = DropNew" by blast+
qed

lemma policy_drops: "applyQueueDropPolicy f lim q = (b, q2) \<Longrightarrow>
    \<exists>k. items q2 = drop k (items q) \<and> (b \<and> dropPolicy q = DropNew \<or> \<not> b \<longrightarrow> q2 = q)"
  by (auto simp: applyQueueDropPolicy_def Let_def split: if_splits intro: exI [of _ 0])

lemma drop_tracks:
  assumes t: "tracks False m P st" and q: "queueAt n st = Some q0" "items q = drop k (items q0)"
  shows "tracks False m P (putQueue n q st)"
proof (cases "m = n")
  case True
  obtain f where f: "in_hand (map_of (drains st) n) f" "holds False n P st f" using t True unfolding tracks_def by blast
  have "holds False n P (putQueue n q st) f" by (rule holds_drop [OF f(2), where k = k]) (simp_all add: q waiting_at)
  then show ?thesis using f t q True by (intro tracksI [where f = f]) (auto simp: tracks_def sound_put)
next
  case False
  show ?thesis by (rule tracks_frame [OF t]) (use False t q in \<open>auto simp: sound_put tracks_def\<close>)
qed

lemma append_tracks:
  assumes t: "tracks exact m P st" and q: "queueAt n st = Some q0" "items q = items q0 @ [r]"
  shows "tracks exact m (P @ (if n = m then [r] else [])) (putQueue n q st)"
proof (cases "m = n")
  case True
  obtain f where f: "in_hand (map_of (drains st) n) f" "holds exact n P st f" using t True unfolding tracks_def by blast
  have "holds exact n (P @ [r]) (putQueue n q st) f" by (rule holds_put [OF f(2)]) (simp_all add: q waiting_at)
  then show ?thesis using f t q True by (intro tracksI [where f = f]) (auto simp: tracks_def sound_put)
next
  case False
  then show ?thesis using t q by (simp, intro tracks_frame [OF t]) (auto simp: sound_put tracks_def)
qed

lemma enqueue_tracks:
  assumes t: "tracks exact m P st" and e: "exact \<longrightarrow> set_dropPolicy settings = Some DropNew"
  shows "tracks exact m (P @ accepts routes m (Enqueue now key r settings dm cb restart) st)
    (snd (enqueueFollowupRun routes now key r settings dm cb restart st))"
proof -
  obtain n q st1 where g: "getFollowupQueue key settings st = (n, q, st1)" by (cases "getFollowupQueue key settings st")
  note g' = get_queue_tracks [OF t g]
  let ?key = "if dm \<noteq> NoDedupe then buildRecentMessageIdKey routes r key else None"
  obtain seen recent1 where p: "(if truthy_string ?key then dedupe_peek recent_options ?key now (recentIds st1) else (False, recentIds st1)) = (seen, recent1)"
    by fastforce
  let ?st2 = "st1\<lparr>recentIds := recent1\<rparr>"
  let ?q1 = "q\<lparr>lastEnqueuedAt := now, lastRun := Some (run_of r)\<rparr>"
  let ?dedupe = "if dm = NoDedupe then None else Some (\<lambda>i queued. isRunAlreadyQueued routes i queued (dm = ByPrompt))"
  obtain room q2 where d: "applyQueueDropPolicy summarizeRun None ?q1 = (room, q2)" by fastforce
  obtain k where k: "items q2 = drop k (items ?q1)" "room \<and> dropPolicy ?q1 = DropNew \<or> \<not> room \<longrightarrow> q2 = ?q1"
    using policy_drops [OF d] by blast
  have t2: "tracks exact m P ?st2" by (rule tracks_frame [OF g'(1)]) (use g'(1) in \<open>auto simp: tracks_def\<close>)
  have at2: "queueAt n ?st2 = Some q" using g'(2) by simp
  have put2: "tracks exact m P (putQueue n q2 ?st2)"
  proof (cases exact)
    case True
    then have "q2 = ?q1" using e g'(3) k(2) by auto
    then show ?thesis by (intro put_items_tracks [OF t2 at2]) simp
  next
    case False
    then show ?thesis using drop_tracks [of m P ?st2 n q q2 k] t2 at2 k(1) by simp
  qed
  have enq: "enqueueFollowupRun routes now key r settings dm cb restart st =
      (if seen \<or> shouldSkipQueueItem r (items q) ?dedupe then (False, ?st2)
       else if \<not> room then (False, putQueue n q2 ?st2)
       else (let q3 = q2\<lparr>items := items q2 @ [r]\<rparr>; st3 = putQueue n q3 ?st2;
                 st4 = (if truthy_string ?key
                        then st3\<lparr>recentIds := snd (dedupe_check recent_options ?key now (recentIds st3))\<rparr> else st3);
                 st5 = (case cb of Some c \<Rightarrow> rememberFollowupDrainCallback key c st4 | None \<Rightarrow> st4)
             in (True, if restart \<and> \<not> draining q3 then kickFollowupDrainIfIdle key st5 else st5)))"
    unfolding enqueueFollowupRun_def g prod.case Let_def p d by (cases room) simp_all
  consider (skip) "seen \<or> shouldSkipQueueItem r (items q) ?dedupe" | (full) "\<not> (seen \<or> shouldSkipQueueItem r (items q) ?dedupe)" "\<not> room"
    | (put) "\<not> (seen \<or> shouldSkipQueueItem r (items q) ?dedupe)" room by blast
  then show ?thesis
  proof cases
    case skip
    then show ?thesis using t2 by (simp add: enq g)
  next
    case full
    then show ?thesis using put2 by (simp add: enq g)
  next
    case put
    define q3 where "q3 = q2\<lparr>items := items q2 @ [r]\<rparr>"
    define st3 where "st3 = putQueue n q3 ?st2"
    define st5 where "st5 = (case cb of Some c \<Rightarrow> rememberFollowupDrainCallback key c
        (if truthy_string ?key then st3\<lparr>recentIds := snd (dedupe_check recent_options ?key now (recentIds st3))\<rparr> else st3)
      | None \<Rightarrow> (if truthy_string ?key then st3\<lparr>recentIds := snd (dedupe_check recent_options ?key now (recentIds st3))\<rparr> else st3))"
    have out: "enqueueFollowupRun routes now key r settings dm cb restart st =
        (True, if restart \<and> \<not> draining q3 then kickFollowupDrainIfIdle key st5 else st5)"
      unfolding enq st5_def st3_def q3_def using put by (cases cb) (simp_all only: Let_def simp_thms if_True if_False option.case)
    have "putQueue n q3 (putQueue n q2 ?st2) = st3"
      by (simp add: st3_def putQueue_def)
    then have t3: "tracks exact m (P @ (if n = m then [r] else [])) st3"
      using append_tracks [OF put2, of n q2 q3 r] by (simp add: q3_def)
    have "keeps st3 st5" by (cases cb) (auto simp: st5_def keeps_def queueAt_def rememberFollowupDrainCallback_def)
    then have "keeps st3 (snd (enqueueFollowupRun routes now key r settings dm cb restart st))"
      unfolding out using keeps_trans [OF _ keeps_kick] by auto
    moreover have "accepts routes m (Enqueue now key r settings dm cb restart) st = (if n = m then [r] else [])"
      by (simp add: out g)
    ultimately show ?thesis using keeps_tracks [OF t3] by simp
  qed
qed

lemma clear_cases:
  "snd (clearFollowupQueue key st) = st \<or>
   (\<exists>n q q1 k. queueAt n st = Some q \<and> items q1 = [] \<and>
     snd (clearFollowupQueue key st) = (putQueue n q1 st)\<lparr>registry := AList.delete k (registry st)\<rparr>)"
proof (cases "getExistingFollowupQueue (js_trim key) st")
  case (Some n)
  show ?thesis
  proof (cases "queueAt n st")
    case q: (Some q)
    show ?thesis
      by (rule disjI2, rule exI [of _ n], rule exI [of _ q], intro exI conjI, rule q) (simp_all add: clearFollowupQueue_def Let_def Some q)
  qed (simp add: clearFollowupQueue_def Let_def Some)
qed (simp add: clearFollowupQueue_def Let_def)

lemma refresh_cases:
  "refreshQueuedFollowupSession key p st = st \<or>
   (\<exists>n q q1. queueAt n st = Some q \<and> items q1 = map (\<lambda>i. i\<lparr>run_of := rewriteRun p (run_of i)\<rparr>) (items q) \<and>
     refreshQueuedFollowupSession key p st = putQueue n q1 st)"
proof (cases "js_trim key = [] \<or> \<not> shouldRewriteSession p \<and> \<not> shouldRewriteSelection p")
  case True
  then show ?thesis by (auto simp: refreshQueuedFollowupSession_def split: option.splits)
next
  case False
  show ?thesis
  proof (cases "getExistingFollowupQueue (js_trim key) st")
    case (Some n)
    show ?thesis
    proof (cases "queueAt n st")
      case q: (Some q)
      show ?thesis
        by (rule disjI2, rule exI [of _ n], rule exI [of _ q], intro exI conjI, rule q) (use False in \<open>auto simp: refreshQueuedFollowupSession_def Some q\<close>)
    qed (use False in \<open>simp add: refreshQueuedFollowupSession_def Some\<close>)
  qed (use False in \<open>simp add: refreshQueuedFollowupSession_def\<close>)
qed

lemma clear_tracks: assumes t: "tracks False m P st" shows "tracks False m P (snd (clearFollowupQueue key st))"
proof -
  consider "snd (clearFollowupQueue key st) = st"
    | n q q1 k where "queueAt n st = Some q" "items q1 = []" "snd (clearFollowupQueue key st) = (putQueue n q1 st)\<lparr>registry := AList.delete k (registry st)\<rparr>"
    using clear_cases [of key st] by blast
  then show ?thesis
  proof cases
    case (2 n q q1 k)
    have "tracks False m P (putQueue n q1 st)"
      by (rule drop_tracks [OF t 2(1), where k = "length (items q)"]) (simp add: 2)
    moreover have "keeps (putQueue n q1 st) ((putQueue n q1 st)\<lparr>registry := AList.delete k (registry st)\<rparr>)"
      by (auto simp: keeps_def delete_conv' split: if_splits)
    ultimately show ?thesis using keeps_tracks 2(3) by metis
  qed (use t in simp)
qed

lemma refresh_tracks: assumes t: "tracks exact m P st" shows "tracks exact m P (refreshQueuedFollowupSession key p st)"
proof -
  consider "refreshQueuedFollowupSession key p st = st"
    | n q q1 where "queueAt n st = Some q" "items q1 = map (\<lambda>i. i\<lparr>run_of := rewriteRun p (run_of i)\<rparr>) (items q)"
        "refreshQueuedFollowupSession key p st = putQueue n q1 st"
    using refresh_cases [of key p st] by blast
  then show ?thesis
  proof cases
    case (2 n q q1)
    then have "map message (items q1) = map message (items q)" by (simp add: comp_def)
    then show ?thesis using put_items_tracks [OF t 2(1)] 2(3) by simp
  qed (use t in simp)
qed

text \<open>The state of a run with the messages the queue accepted so far.\<close>

definition followup_history :: "routing \<Rightarrow> nat \<Rightarrow> followup_call \<Rightarrow> followup_run list \<times> followups \<Rightarrow> followup_run list \<times> followups" where
  "followup_history routes n c = (\<lambda>(P, st). (P @ accepts routes n c st, followup_step routes c st))"

lemma step_tracks:
  assumes t: "tracks exact n P st" and c: "exact \<longrightarrow> drops_nothing c"
  shows "tracks exact n (P @ accepts routes n c st) (followup_step routes c st)"
proof (cases c)
  case (Enqueue now key r settings dm cb restart)
  then show ?thesis using enqueue_tracks [OF t, of settings routes now key r dm cb restart] c by (simp del: accepts.simps)
next
  case (ClearQueue key)
  then show ?thesis using clear_tracks [of n P st key] t c by (cases exact) simp_all
qed (use keeps_tracks [OF t keeps_schedule] debounce_tracks [OF t] ended_tracks [OF t] keeps_tracks [OF t failed_keeps] refresh_tracks [OF t] in simp_all)

interpretation history: permitted_system "\<lambda>(P, st). tracks exact n P st" "followup_history routes n" "\<lambda>c. exact \<longrightarrow> drops_nothing c" for exact n routes
  by unfold_locales (auto simp: followup_history_def intro: step_tracks)

lemma history_run: "fold (followup_history routes n) cs (P, st) =
    (P @ concat (trace_events (followup_step routes) (accepts routes n) cs st), fold (followup_step routes) cs st)"
  by (induction cs arbitrary: P st) (simp_all add: followup_history_def)

lemma tracks_init: "tracks exact n [] noFollowups"
proof -
  have "holds exact n [] noFollowups []"
    by (rule holdsI [where bs = "[]" and tail = "[]" and j = 0]) (simp_all add: doneRuns_def waitingRuns_def noFollowups_def queueAt_def kept_def)
  then show ?thesis by (rule tracksI [rotated 2]) (simp_all add: sound_def in_hand_def noFollowups_def queueAt_def)
qed

lemma run_tracks:
  assumes "exact \<longrightarrow> (\<forall>c \<in> set cs. drops_nothing c)"
  shows "tracks exact n (concat (trace_events (followup_step routes) (accepts routes n) cs noFollowups)) (fold (followup_step routes) cs noFollowups)"
  using history.run_inv [of exact n "([], noFollowups)" cs routes] assms tracks_init by (simp add: history_run)

text \<open>C3: Every followup queue answers its messages in their order. Over any calls (messages for any session
  in any mode and with any drop policy, drains started again and again, debounce checks, runs that end or
  fail, queues cleared or moved to another session), the runs of a queue that ended answer batches of
  messages, and these batches followed by the messages still waiting are a subsequence of the messages the
  queue accepted: none is answered twice, out of order or without having been accepted. A batch is one
  message, collected messages that all carry the authority of the run, or the message an overflow notice
  takes the place of. If no call clears a queue and every message comes with the policy of refusing what
  does not fit, no message is missing: the batches and the waiting messages are all the accepted ones.
  That every run ends is not claimed.\<close>

theorem answered_in_order:
  "let st = fold (followup_step routes) cs noFollowups;
       accepted = concat (trace_events (followup_step routes) (accepts routes n) cs noFollowups)
   in \<exists>batches. list_all2 answers batches (doneRuns n st) \<and>
        subseq (map message (concat batches @ waitingRuns n st)) (map message accepted) \<and>
        (list_all drops_nothing cs \<longrightarrow> map message (concat batches @ waitingRuns n st) = map message accepted)"
proof -
  define exact where "exact \<longleftrightarrow> list_all drops_nothing cs"
  let ?st = "fold (followup_step routes) cs noFollowups"
  let ?accepted = "concat (trace_events (followup_step routes) (accepts routes n) cs noFollowups)"
  have "tracks exact n ?accepted ?st" by (rule run_tracks) (simp add: exact_def list_all_iff)
  then have "holds exact n ?accepted ?st []" using holds_release unfolding tracks_def by blast
  then obtain bs tail where b: "list_all2 answers bs (doneRuns n ?st)" "kept exact (concat bs @ tail) ?accepted"
    "map message (waitingRuns n ?st) = map message tail" unfolding holds_def by auto
  then have "kept exact (concat bs @ waitingRuns n ?st) ?accepted"
    using kept_cong [of "concat bs @ waitingRuns n ?st" "concat bs @ tail"] by simp
  then show ?thesis using b(1) unfolding Let_def exact_def kept_def by (intro exI [of _ bs]) (auto split: if_splits)
qed

subsection \<open>Overflow while a message runs\<close>

text \<open>A drain that has nothing to run and cannot end: its queue is empty but counts dropped messages.\<close>

definition spinning :: "nat \<Rightarrow> followups \<Rightarrow> bool" where
  "spinning n st \<longleftrightarrow> (\<exists>d q ms. map_of (drains st) n = Some d \<and> queueAt n st = Some q \<and> drain_wait d = AwaitDebounce ms \<and>
     items q = [] \<and> droppedCount q > 0 \<and> dropPolicy q = DropSummarize \<and> mode q \<noteq> Collect \<and>
     map_of (registry st) (drain_key d) = Some n)"

lemma spinning_check:
  assumes "spinning n st"
  shows "spinning n (debounceCheck routes fast n now st)" "finished (debounceCheck routes fast n now st) = finished st"
proof -
  obtain d q ms where d: "map_of (drains st) n = Some d" and q: "queueAt n st = Some q" and w: "drain_wait d = AwaitDebounce ms"
    and p: "items q = []" "droppedCount q > 0" "dropPolicy q = DropSummarize" "mode q \<noteq> Collect"
    and reg: "map_of (registry st) (drain_key d) = Some n"
    using assms unfolding spinning_def by blast
  have "spinning n (debounceCheck routes fast n now st) \<and> finished (debounceCheck routes fast n now st) = finished st"
  proof (cases "queueDebounceOver fast ms (lastEnqueuedAt q) now")
    case False
    then show ?thesis using assms d q w by (simp add: debounceCheck_def)
  next
    case True
    obtain s where s: "previewQueueSummaryPrompt ''message'' None q = Some s"
      using p preview_none [of "''message''" None q] by (cases "previewQueueSummaryPrompt ''message'' None q") auto
    have turn: "drainTurn routes n d q now st = finishDrain n d q st"
      using p s by (cases "lastRun q") (simp_all add: drainTurn_def drainNextQueueItem_def)
    have "debounceCheck routes fast n now st = finishDrain n d q st" using True d q w turn by (simp add: debounceCheck_def)
    moreover have "spinning n (finishDrain n d q st) \<and> finished (finishDrain n d q st) = finished st"
      using p reg unfolding spinning_def
      by (simp add: finishDrain_def hasWork_def scheduleFollowupDrain_def beginQueueDrain_def drainLoop_def update_conv' Let_def)
    ultimately show ?thesis by simp
  qed
  then show "spinning n (debounceCheck routes fast n now st)" "finished (debounceCheck routes fast n now st) = finished st" by blast+
qed

lemma spinning_checks:
  "spinning n st \<Longrightarrow> spinning n ((debounceCheck routes fast n now ^^ k) st) \<and>
     finished ((debounceCheck routes fast n now ^^ k) st) = finished st"
  by (induction k) (simp_all add: spinning_check)

lemma spinning_empty: "spinning n st \<Longrightarrow> waitingRuns n st = []"
  by (auto simp: spinning_def waitingRuns_def)

definition tight :: queue_settings where
  "tight = \<lparr>set_mode = Followup, set_debounceMs = Some 0, set_cap = Some 1, set_dropPolicy = Some DropSummarize\<rparr>"

text \<open>The state after each call of the run below: a queue of one place, a message that runs, another that
  takes its place while it runs.\<close>

definition tight_queue :: "int \<Rightarrow> run_params \<Rightarrow> followup_run list \<Rightarrow> nat \<Rightarrow> string list \<Rightarrow> bool \<Rightarrow> followup_queue" where
  "tight_queue t r is n ls busy =
     \<lparr>items = is, cap = 1, dropPolicy = DropSummarize, droppedCount = n, summaryLines = ls, draining = busy, lastEnqueuedAt = t,
      mode = Followup, debounceMs = 0, lastRun = Some r\<rparr>"

definition tight_state :: "string \<Rightarrow> nat \<Rightarrow> followup_queue \<Rightarrow> drain_wait \<Rightarrow> (nat \<times> nat \<times> followup_run) list \<Rightarrow> followups" where
  "tight_state key cb q w log =
     \<lparr>queue_objs = [(0, q)], registry = [(key, 0)], callbacks = [(key, cb)], recentIds = [],
      drains = [(0, \<lparr>drain_key = key, drain_callback = cb, forceIndividualCollect = False, drain_wait = w\<rparr>)],
      nextQueue = 1, finished = log\<rparr>"

lemmas queue_ops = enqueueFollowupRun_def getFollowupQueue_def applyQueueRuntimeSettings_def newFollowupQueue_def putQueue_def queueAt_def
  shouldSkipQueueItem_def applyQueueDropPolicy_def rememberFollowupDrainCallback_def kickFollowupDrainIfIdle_def
  scheduleFollowupDrain_def beginQueueDrain_def drainLoop_def hasWork_def waitAt_def Let_def

lemma tight_first:
  "enqueueFollowupRun routes t1 key a tight NoDedupe (Some cb) True noFollowups =
     (True, tight_state key cb (tight_queue t1 (run_of a) [a] 0 [] True) (AwaitDebounce 0) [])"
  by (simp add: queue_ops noFollowups_def tight_def tight_state_def tight_queue_def)

lemma tight_runs:
  "debounceCheck routes True 0 t2 (tight_state key cb (tight_queue t1 (run_of a) [a] 0 [] True) (AwaitDebounce 0) []) =
     tight_state key cb (tight_queue t1 (run_of a) [a] 0 [] True) (AwaitItem a) []"
  by (simp add: debounceCheck_def queueAt_def tight_state_def tight_queue_def queueDebounceOver_def drainTurn_def
      previewQueueSummaryPrompt_def buildQueueSummaryPrompt_def drainNextQueueItem_def waitAt_def)

lemma tight_overflow:
  "enqueueFollowupRun routes t3 key b tight NoDedupe (Some cb) True
      (tight_state key cb (tight_queue t1 (run_of a) [a] 0 [] True) (AwaitItem a) []) =
     (True, tight_state key cb (tight_queue t3 (run_of b) [b] (Suc 0) [buildQueueSummaryLine (summarizeRun a) 160] True) (AwaitItem a) [])"
  by (simp add: queue_ops tight_def tight_state_def tight_queue_def)

lemma tight_ended:
  "runEnded 0 t4 (tight_state key cb (tight_queue t3 (run_of b) [b] (Suc 0) ls True) (AwaitItem a) []) =
     tight_state key cb (tight_queue t3 (run_of b) [] (Suc 0) ls True) (AwaitDebounce 0) [(0, cb, a)]"
  by (simp add: runEnded_def queueAt_def tight_state_def tight_queue_def putQueue_def drainLoop_def hasWork_def waitAt_def Let_def)

lemma tight_spins: "spinning 0 (tight_state key cb (tight_queue t r [] (Suc 0) ls True) (AwaitDebounce 0) log)"
  by (simp add: spinning_def tight_state_def tight_queue_def queueAt_def)

text \<open>Overflow during a run loses a message and leaves the drain turning. In a queue of one place that
  summarizes what it drops, whatever the messages, keys, routes and times: a second message accepted while
  the first one runs takes its place in the queue, the end of the first run removes the second message
  instead of the first, and no number of further debounce checks runs it or ends the drain: the queue stays
  empty with one message counted as dropped, the one that was run.\<close>

theorem overflow_during_run_loses_message:
  "let st1 = fold (followup_step routes) [Enqueue t1 key a tight NoDedupe (Some cb) True, DebounceCheck True 0 t2] noFollowups;
       st2 = fold (followup_step routes) [Enqueue t3 key b tight NoDedupe (Some cb) True, RunEnded 0 t4] st1;
       st = (debounceCheck routes fast 0 t5 ^^ k) st2
   in fst (enqueueFollowupRun routes t3 key b tight NoDedupe (Some cb) True st1) \<and>
      doneRuns 0 st = [a] \<and> waitingRuns 0 st = [] \<and> spinning 0 st"
proof -
  define ls where "ls = [buildQueueSummaryLine (summarizeRun a) 160]"
  define st2 where "st2 = tight_state key cb (tight_queue t3 (run_of b) [] (Suc 0) ls True) (AwaitDebounce 0) [(0, cb, a)]"
  have "spinning 0 ((debounceCheck routes fast 0 t5 ^^ k) st2) \<and> finished ((debounceCheck routes fast 0 t5 ^^ k) st2) = finished st2"
    unfolding st2_def by (rule spinning_checks [OF tight_spins])
  moreover have "finished st2 = [(0, cb, a)]" by (simp add: st2_def tight_state_def)
  ultimately show ?thesis
    using spinning_empty
    by (simp add: tight_first tight_runs tight_overflow tight_ended Let_def ls_def [symmetric] st2_def [symmetric] doneRuns_def)
qed

subsection \<open>Concrete runs\<close>

definition sample_run :: "string \<Rightarrow> string \<Rightarrow> followup_run" where
  "sample_run sender body = bareRun body
     \<lparr>sessionId = ''s'', sessionFile = ''f'', provider = ''openai'', model = ''m'', hasSessionModelOverride = None,
      modelOverrideSource = None, authProfileId = None, authProfileIdSource = None, senderId = Some sender, senderName = None,
      senderUsername = None, senderE164 = None, senderIsOwner = None, execOverrides = None, bashElevated = None\<rparr> 0"

definition refusing :: queue_settings where
  "refusing = \<lparr>set_mode = Followup, set_debounceMs = Some 0, set_cap = Some 1, set_dropPolicy = Some DropNew\<rparr>"

text \<open>Two senders in a queue that collects: the first two messages are answered together, the third waits.\<close>

definition collecting :: queue_settings where
  "collecting = \<lparr>set_mode = Collect, set_debounceMs = Some 0, set_cap = Some 5, set_dropPolicy = Some DropNew\<rparr>"

definition sample_routes :: routing where
  "sample_routes = \<lparr>dedupe_key = \<lambda>r. [], compact_key = \<lambda>r. None, is_routable = \<lambda>c. False\<rparr>"

definition sample_calls :: "followup_call list" where
  "sample_calls =
     [Enqueue 1 ''k'' (sample_run ''u'' ''one'') collecting NoDedupe (Some 7) True,
      Enqueue 2 ''k'' (sample_run ''u'' ''two'') collecting NoDedupe (Some 7) True,
      Enqueue 3 ''k'' (sample_run ''v'' ''three'') collecting NoDedupe (Some 7) True, DebounceCheck True 0 4, RunEnded 0 5]"

lemma sample_drops_nothing: "list_all drops_nothing sample_calls"
  by (simp add: sample_calls_def collecting_def)

lemma answered_in_order_witness:
  "let st = fold (followup_step sample_routes) sample_calls noFollowups
   in list_all drops_nothing sample_calls \<and> (\<exists>batches. list_all2 answers batches (doneRuns 0 st) \<and>
        map message (concat batches @ waitingRuns 0 st) =
        map message (concat (trace_events (followup_step sample_routes) (accepts sample_routes 0) sample_calls noFollowups)))"
  using answered_in_order [of sample_routes sample_calls 0] sample_drops_nothing unfolding Let_def by blast

lemma batches_keep_authorization_witness:
  "let queued = [sample_run ''u'' ''one'', sample_run ''u'' ''two'', sample_run ''v'' ''three'']
   in concat (splitCollectItemsByAuthorization queued) = queued \<and>
      (\<forall>g \<in> set (splitCollectItemsByAuthorization queued).
        \<forall>i \<in> set g. authority (run_of i) = authority (run_of (groupRun g None 5)))"
  using batches_keep_authorization [of "[sample_run ''u'' ''one'', sample_run ''u'' ''two'', sample_run ''v'' ''three'']" None 5]
  unfolding Let_def by blast

end
