(* ===== verification/SessionKeys.thy ===== *)
theory SessionKeys
  imports JsText StringCoerce
begin

text \<open>
  The keys sessions are stored under: \<^verbatim>\<open>packages/core/src/routing/account-id.ts\<close> and
  \<^verbatim>\<open>session-key.ts\<close>, which normalise ids and build the keys, \<^verbatim>\<open>sessions/session-key-utils.ts\<close>,
  which reads them, \<^verbatim>\<open>infra/prototype-keys.ts\<close> and \<^verbatim>\<open>channels/chat-type.ts\<close>.

  The lemmas show the shape of normalised ids, that a built key parses back to the agent it was built for, and
  that two conversations share a key only when they are the same conversation. The caches of
  \<^verbatim>\<open>account-id.ts\<close> are modelled with their eviction and shown to be invisible.
\<close>

subsection \<open>Identifiers\<close>

definition DEFAULT_ACCOUNT_ID :: string where "DEFAULT_ACCOUNT_ID = ''default''"
definition DEFAULT_AGENT_ID :: string where "DEFAULT_AGENT_ID = ''main''"
definition DEFAULT_MAIN_KEY :: string where "DEFAULT_MAIN_KEY = ''main''"
definition ACCOUNT_ID_CACHE_MAX :: nat where "ACCOUNT_ID_CACHE_MAX = 512"

definition lower_alnum :: "char \<Rightarrow> bool" where
  "lower_alnum c \<longleftrightarrow> is_digit c \<or> (97 \<le> (of_char c :: nat) \<and> (of_char c :: nat) \<le> 122)"

definition upper_letter :: "char \<Rightarrow> bool" where
  "upper_letter c \<longleftrightarrow> 65 \<le> (of_char c :: nat) \<and> (of_char c :: nat) \<le> 90"

lemma lower_alnum_bits [code]:
  "lower_alnum (Char b0 b1 b2 b3 b4 b5 b6 b7) \<longleftrightarrow>
     \<not> b7 \<and> b5 \<and> (if b6 then (b0 \<or> b1 \<or> b2 \<or> b3 \<or> b4) \<and> \<not> (b4 \<and> b3 \<and> (b2 \<or> b1 \<and> b0)) else b4 \<and> (if b3 then \<not> b2 \<and> \<not> b1 else True))"
  by (cases b0; cases b1; cases b2; cases b3; cases b4; cases b5; cases b6; cases b7; simp add: lower_alnum_def is_digit_def)

lemma upper_letter_bits [code]:
  "upper_letter (Char b0 b1 b2 b3 b4 b5 b6 b7) \<longleftrightarrow>
     \<not> b7 \<and> b6 \<and> \<not> b5 \<and> (b0 \<or> b1 \<or> b2 \<or> b3 \<or> b4) \<and> \<not> (b4 \<and> b3 \<and> (b2 \<or> b1 \<and> b0))"
  by (cases b0; cases b1; cases b2; cases b3; cases b4; cases b5; cases b6; cases b7; simp add: upper_letter_def)

definition id_char :: "char \<Rightarrow> bool" where
  "id_char c \<longleftrightarrow> lower_alnum c \<or> c = CHR ''_'' \<or> c = CHR ''-''"

text \<open>\<^verbatim>\<open>/^[a-z0-9][a-z0-9_-]{0,63}$/i\<close>, and the replacement of every run of \<^verbatim>\<open>[^a-z0-9_-]\<close> by one dash.\<close>

definition VALID_ID_RE :: "string \<Rightarrow> bool" where
  "VALID_ID_RE s \<longleftrightarrow>
     (case s of [] \<Rightarrow> False
      | c # cs \<Rightarrow> (lower_alnum c \<or> upper_letter c) \<and> length cs \<le> 63 \<and> list_all (\<lambda>d. id_char d \<or> upper_letter d) cs)"

function replaceInvalidChars :: "string \<Rightarrow> string" where
  "replaceInvalidChars [] = []"
| "replaceInvalidChars (c # cs) =
     (if id_char c then c # replaceInvalidChars cs
      else CHR ''-'' # replaceInvalidChars (dropWhile (\<lambda>d. \<not> id_char d) cs))"
  by pat_completeness auto
termination by (relation "measure length") (auto simp: le_imp_less_Suc length_dropWhile_le)

definition stripLeadingDashes :: "string \<Rightarrow> string" where
  "stripLeadingDashes s = dropWhile (\<lambda>c. c = CHR ''-'') s"

definition stripTrailingDashes :: "string \<Rightarrow> string" where
  "stripTrailingDashes s = rev (dropWhile (\<lambda>c. c = CHR ''-'') (rev s))"

definition sanitizeIdText :: "string \<Rightarrow> string" where
  "sanitizeIdText s = take 64 (stripTrailingDashes (stripLeadingDashes (replaceInvalidChars s)))"

definition isBlockedObjectKey :: "string \<Rightarrow> bool" where
  "isBlockedObjectKey k \<longleftrightarrow> k \<in> set [''__proto__'', ''prototype'', ''constructor'']"

definition canonicalizeAccountId :: "string \<Rightarrow> string" where
  "canonicalizeAccountId value =
     (let normalized = normalizeLowercaseStringOrEmpty (Some value)
      in if VALID_ID_RE value then normalized else sanitizeIdText normalized)"

definition normalizeCanonicalAccountId :: "string \<Rightarrow> string option" where
  "normalizeCanonicalAccountId value =
     (let canonical = canonicalizeAccountId value
      in if canonical = [] \<or> isBlockedObjectKey canonical then None else Some canonical)"

text \<open>The result of the account-id normalisers for a trimmed text, and the calls with their caches: a table
  keeps at most 512 entries and drops the oldest.\<close>

definition accountIdOf :: "string \<Rightarrow> string" where
  "accountIdOf trimmed = coalesce (normalizeCanonicalAccountId trimmed) DEFAULT_ACCOUNT_ID"

definition setNormalizeCache :: "string \<Rightarrow> 'v \<Rightarrow> (string, 'v) js_map \<Rightarrow> (string, 'v) js_map" where
  "setNormalizeCache k v cache =
     (let cache1 = AList.update k v cache
      in if length cache1 \<le> ACCOUNT_ID_CACHE_MAX then cache1
         else (case cache1 of [] \<Rightarrow> cache1 | (oldest, _) # _ \<Rightarrow> AList.delete oldest cache1))"

definition normalizeAccountIdCached :: "string option \<Rightarrow> (string, string) js_map \<Rightarrow> string \<times> (string, string) js_map" where
  "normalizeAccountIdCached value cache =
     (let trimmed = js_trim (coalesce value [])
      in if trimmed = [] then (DEFAULT_ACCOUNT_ID, cache)
         else if truthy_string (map_of cache trimmed) then (coalesce (map_of cache trimmed) [], cache)
         else (let normalized = accountIdOf trimmed in (normalized, setNormalizeCache trimmed normalized cache)))"

definition normalizeOptionalAccountIdCached ::
    "string option \<Rightarrow> (string, string option) js_map \<Rightarrow> string option \<times> (string, string option) js_map" where
  "normalizeOptionalAccountIdCached value cache =
     (let trimmed = js_trim (coalesce value [])
      in if trimmed = [] then (None, cache)
         else memo_get normalizeCanonicalAccountId setNormalizeCache trimmed cache)"

definition normalizeAccountId :: "string option \<Rightarrow> string" where
  "normalizeAccountId value =
     (let trimmed = js_trim (coalesce value []) in if trimmed = [] then DEFAULT_ACCOUNT_ID else accountIdOf trimmed)"

definition normalizeOptionalAccountId :: "string option \<Rightarrow> string option" where
  "normalizeOptionalAccountId value =
     (let trimmed = js_trim (coalesce value []) in if trimmed = [] then None else normalizeCanonicalAccountId trimmed)"

definition normalizeAgentId :: "string option \<Rightarrow> string" where
  "normalizeAgentId value =
     (let trimmed = js_trim (coalesce value [])
      in if trimmed = [] then DEFAULT_AGENT_ID
         else (let normalized = normalizeLowercaseStringOrEmpty (Some trimmed)
               in if VALID_ID_RE trimmed then normalized
                  else (let cleaned = sanitizeIdText normalized in if cleaned = [] then DEFAULT_AGENT_ID else cleaned)))"

definition isValidAgentId :: "string option \<Rightarrow> bool" where
  "isValidAgentId value = (let trimmed = js_trim (coalesce value []) in trimmed \<noteq> [] \<and> VALID_ID_RE trimmed)"

definition sanitizeAgentId :: "string option \<Rightarrow> string" where
  "sanitizeAgentId value = normalizeAgentId value"

definition normalizeToken :: "string option \<Rightarrow> string" where
  "normalizeToken value = normalizeLowercaseStringOrEmpty value"

definition text_or :: "string \<Rightarrow> string \<Rightarrow> string" where
  "text_or s d = (if s = [] then d else s)"

definition normalizeMainKey :: "string option \<Rightarrow> string" where
  "normalizeMainKey value = text_or (normalizeLowercaseStringOrEmpty value) DEFAULT_MAIN_KEY"

subsection \<open>Reading keys\<close>

record parsed_key =
  key_agent :: string
  key_rest :: string

definition parseAgentSessionKey :: "string option \<Rightarrow> parsed_key option" where
  "parseAgentSessionKey sessionKey =
     (case normalizeOptionalLowercaseString sessionKey of
        None \<Rightarrow> None
      | Some raw \<Rightarrow>
          (case segments raw of
             first # second # third # others \<Rightarrow>
               if first \<noteq> ''agent'' then None
               else (let agentId = normalizeOptionalString (Some second); rest = js_join '':'' (third # others)
                     in if \<not> truthy_string agentId \<or> rest = [] then None
                        else Some \<lparr>key_agent = coalesce agentId [], key_rest = rest\<rparr>)
           | _ \<Rightarrow> None))"

definition isCronRunSessionKey :: "string option \<Rightarrow> bool" where
  "isCronRunSessionKey sessionKey =
     (case parseAgentSessionKey sessionKey of
        None \<Rightarrow> False
      | Some parsed \<Rightarrow>
          (case js_split CHR '':'' (key_rest parsed) of
             [w1, job, w2, run] \<Rightarrow> w1 = ''cron'' \<and> job \<noteq> [] \<and> w2 = ''run'' \<and> run \<noteq> []
           | _ \<Rightarrow> False))"

definition restStartsWith :: "string \<Rightarrow> string option \<Rightarrow> bool" where
  "restStartsWith p value =
     (case normalizeOptionalLowercaseString value of None \<Rightarrow> False | Some t \<Rightarrow> starts_with p t)"

definition isCronSessionKey :: "string option \<Rightarrow> bool" where
  "isCronSessionKey sessionKey =
     (case parseAgentSessionKey sessionKey of
        None \<Rightarrow> False
      | Some parsed \<Rightarrow> restStartsWith ''cron:'' (Some (key_rest parsed)))"

definition isSubagentSessionKey :: "string option \<Rightarrow> bool" where
  "isSubagentSessionKey sessionKey =
     (case normalizeOptionalString sessionKey of
        None \<Rightarrow> False
      | Some raw \<Rightarrow>
          restStartsWith ''subagent:'' (Some raw) \<or>
          restStartsWith ''subagent:'' (map_option key_rest (parseAgentSessionKey (Some raw))))"

definition getSubagentDepth :: "string option \<Rightarrow> nat" where
  "getSubagentDepth sessionKey =
     (case normalizeOptionalLowercaseString sessionKey of None \<Rightarrow> 0 | Some raw \<Rightarrow> count_occurrences '':subagent:'' raw)"

definition isAcpSessionKey :: "string option \<Rightarrow> bool" where
  "isAcpSessionKey sessionKey =
     (case normalizeOptionalString sessionKey of
        None \<Rightarrow> False
      | Some raw \<Rightarrow>
          starts_with ''acp:'' (normalizeLowercaseStringOrEmpty (Some raw)) \<or>
          restStartsWith ''acp:'' (map_option key_rest (parseAgentSessionKey (Some raw))))"

record thread_suffix =
  base_key :: "string option"
  thread_id :: "string option"

definition parseThreadSessionSuffix :: "string option \<Rightarrow> thread_suffix" where
  "parseThreadSessionSuffix sessionKey =
     (case normalizeOptionalString sessionKey of
        None \<Rightarrow> \<lparr>base_key = None, thread_id = None\<rparr>
      | Some raw \<Rightarrow>
          (case last_index_of '':thread:'' (normalizeLowercaseStringOrEmpty (Some raw)) of
             None \<Rightarrow> \<lparr>base_key = Some raw, thread_id = normalizeOptionalString None\<rparr>
           | Some i \<Rightarrow> \<lparr>base_key = Some (take i raw),
                       thread_id = normalizeOptionalString (Some (drop (i + length '':thread:'') raw))\<rparr>))"

definition resolveThreadParentSessionKey :: "string option \<Rightarrow> string option" where
  "resolveThreadParentSessionKey sessionKey =
     (let suffix = parseThreadSessionSuffix sessionKey
      in if \<not> truthy_string (thread_id suffix) then None else normalizeOptionalString (base_key suffix))"

record conversation_ref =
  ref_channel :: string
  ref_kind :: string
  ref_rawId :: string
  ref_prefix :: string

definition parseRawSessionConversationRef :: "string option \<Rightarrow> conversation_ref option" where
  "parseRawSessionConversationRef sessionKey =
     (case normalizeOptionalString sessionKey of
        None \<Rightarrow> None
      | Some raw \<Rightarrow>
          (let rawParts = segments raw;
               bodyStartIndex =
                 (if 3 \<le> length rawParts \<and> normalizeOptionalLowercaseString (Some (hd rawParts)) = Some ''agent'' then 2 else 0);
               parts = drop bodyStartIndex rawParts
           in if length parts < 3 then None
              else (let channel = normalizeOptionalLowercaseString (Some (parts ! 0));
                        kind = normalizeOptionalLowercaseString (Some (parts ! 1))
                    in if \<not> truthy_string channel \<or> kind \<notin> {Some ''group'', Some ''channel''} then None
                       else (case (normalizeOptionalString (Some (js_join '':'' (drop 2 parts))),
                                   normalizeOptionalString (Some (js_join '':'' (take (bodyStartIndex + 2) rawParts)))) of
                               (Some rawId, Some keyPrefix) \<Rightarrow>
                                 Some \<lparr>ref_channel = coalesce channel [], ref_kind = coalesce kind [],
                                       ref_rawId = rawId, ref_prefix = keyPrefix\<rparr>
                             | _ \<Rightarrow> None))))"

datatype key_shape = ShapeMissing | ShapeAgent | ShapeLegacyOrAlias | ShapeMalformedAgent

definition classifySessionKeyShape :: "string option \<Rightarrow> key_shape" where
  "classifySessionKeyShape sessionKey =
     (let raw = js_trim (coalesce sessionKey [])
      in if raw = [] then ShapeMissing
         else if parseAgentSessionKey (Some raw) \<noteq> None then ShapeAgent
         else if starts_with ''agent:'' (normalizeLowercaseStringOrEmpty (Some raw)) then ShapeMalformedAgent
         else ShapeLegacyOrAlias)"

definition resolveAgentIdFromSessionKey :: "string option \<Rightarrow> string" where
  "resolveAgentIdFromSessionKey sessionKey =
     normalizeAgentId (Some (coalesce (map_option key_agent (parseAgentSessionKey sessionKey)) DEFAULT_AGENT_ID))"

definition toAgentRequestSessionKey :: "string option \<Rightarrow> string option" where
  "toAgentRequestSessionKey storeKey =
     (let raw = js_trim (coalesce storeKey [])
      in if raw = [] then None
         else Some (coalesce (map_option key_rest (parseAgentSessionKey (Some raw))) raw))"

subsection \<open>Building keys\<close>

datatype chat_type = Direct | Group | Channel

definition normalizeChatType :: "string option \<Rightarrow> chat_type option" where
  "normalizeChatType raw =
     (case normalizeOptionalLowercaseString raw of
        None \<Rightarrow> None
      | Some value \<Rightarrow>
          if value = ''direct'' \<or> value = ''dm'' then Some Direct
          else if value = ''group'' then Some Group
          else if value = ''channel'' then Some Channel
          else None)"

fun chat_type_name :: "chat_type \<Rightarrow> string" where
  "chat_type_name Direct = ''direct''"
| "chat_type_name Group = ''group''"
| "chat_type_name Channel = ''channel''"

datatype dm_scope = ScopeMain | PerPeer | PerChannelPeer | PerAccountChannelPeer

text \<open>The entries of \<^verbatim>\<open>identityLinks\<close> in the order \<^verbatim>\<open>Object.entries\<close> gives them; a value that is not an
  array is \<open>None\<close>.\<close>

type_synonym identity_links = "(string \<times> string list option) list"

definition buildAgentMainSessionKey :: "string option \<Rightarrow> string option \<Rightarrow> string" where
  "buildAgentMainSessionKey agentId mainKey = ''agent:'' @ normalizeAgentId agentId @ '':'' @ normalizeMainKey mainKey"

fun linkedName :: "string list \<Rightarrow> identity_links \<Rightarrow> string option" where
  "linkedName candidates [] = None"
| "linkedName candidates ((canonical, ids) # links) =
     (let canonicalName = js_trim canonical
      in if canonicalName \<noteq> [] \<and>
            (case ids of None \<Rightarrow> False
             | Some vs \<Rightarrow> list_ex (\<lambda>v. normalizeToken (Some v) \<noteq> [] \<and> normalizeToken (Some v) \<in> set candidates) vs)
         then Some canonicalName else linkedName candidates links)"

definition resolveLinkedPeerId :: "identity_links option \<Rightarrow> string \<Rightarrow> string \<Rightarrow> string option" where
  "resolveLinkedPeerId identityLinks channel0 peerId0 =
     (case identityLinks of
        None \<Rightarrow> None
      | Some links \<Rightarrow>
          (let peerId = js_trim peerId0
           in if peerId = [] then None
              else (let rawCandidate = normalizeToken (Some peerId);
                        channel = normalizeToken (Some channel0);
                        scopedCandidate = normalizeToken (Some (channel @ '':'' @ peerId));
                        candidates = (if rawCandidate \<noteq> [] then [rawCandidate] else []) @
                          (if channel \<noteq> [] \<and> scopedCandidate \<noteq> [] then [scopedCandidate] else [])
                    in if candidates = [] then None else linkedName candidates links)))"

record peer_key_params =
  pk_agent :: "string option"
  pk_mainKey :: "string option"
  pk_channel :: string
  pk_account :: "string option"
  pk_kind :: "chat_type option"
  pk_peer :: "string option"
  pk_links :: "identity_links option"
  pk_scope :: "dm_scope option"

definition directPeerId :: "peer_key_params \<Rightarrow> string" where
  "directPeerId p =
     (let peerId = js_trim (coalesce (pk_peer p) []);
          linkedPeerId = (if coalesce (pk_scope p) ScopeMain = ScopeMain then None
                          else resolveLinkedPeerId (pk_links p) (pk_channel p) peerId)
      in normalizeLowercaseStringOrEmpty (Some (if truthy_string linkedPeerId then coalesce linkedPeerId [] else peerId)))"

definition buildAgentPeerSessionKey :: "peer_key_params \<Rightarrow> string" where
  "buildAgentPeerSessionKey p =
     (let peerKind = coalesce (pk_kind p) Direct;
          channel = text_or (normalizeLowercaseStringOrEmpty (Some (pk_channel p))) ''unknown'';
          agent = ''agent:'' @ normalizeAgentId (pk_agent p) @ '':''
      in if peerKind = Direct
         then (let dmScope = coalesce (pk_scope p) ScopeMain; peerId = directPeerId p
               in if dmScope = PerAccountChannelPeer \<and> peerId \<noteq> []
                  then agent @ channel @ '':'' @ normalizeAccountId (pk_account p) @ '':direct:'' @ peerId
                  else if dmScope = PerChannelPeer \<and> peerId \<noteq> [] then agent @ channel @ '':direct:'' @ peerId
                  else if dmScope = PerPeer \<and> peerId \<noteq> [] then agent @ ''direct:'' @ peerId
                  else buildAgentMainSessionKey (pk_agent p) (pk_mainKey p))
         else agent @ channel @ '':'' @ chat_type_name peerKind @ '':'' @
                text_or (normalizeLowercaseStringOrEmpty (pk_peer p)) ''unknown'')"

definition buildGroupHistoryKey :: "string \<Rightarrow> string option \<Rightarrow> chat_type \<Rightarrow> string \<Rightarrow> string" where
  "buildGroupHistoryKey channel accountId peerKind peerId =
     text_or (normalizeToken (Some channel)) ''unknown'' @ '':'' @ normalizeAccountId accountId @ '':'' @
     chat_type_name peerKind @ '':'' @ text_or (normalizeLowercaseStringOrEmpty (Some peerId)) ''unknown''"

definition toAgentStoreSessionKey :: "string option \<Rightarrow> string option \<Rightarrow> string option \<Rightarrow> string" where
  "toAgentStoreSessionKey agentId requestKey mainKey =
     (let raw = js_trim (coalesce requestKey []); lowered = normalizeLowercaseStringOrEmpty (Some raw)
      in if raw = [] \<or> lowered = DEFAULT_MAIN_KEY then buildAgentMainSessionKey agentId mainKey
         else (case parseAgentSessionKey (Some raw) of
                 Some parsed \<Rightarrow> ''agent:'' @ key_agent parsed @ '':'' @ key_rest parsed
               | None \<Rightarrow>
                   if starts_with ''agent:'' lowered then lowered
                   else ''agent:'' @ normalizeAgentId agentId @ '':'' @ lowered))"

definition resolveThreadSessionKeys ::
    "string \<Rightarrow> string option \<Rightarrow> string option \<Rightarrow> bool option \<Rightarrow> (string \<Rightarrow> string option) option \<Rightarrow> string \<times> string option" where
  "resolveThreadSessionKeys baseSessionKey threadId0 parentSessionKey useSuffix0 normalizeThreadId =
     (let threadId = js_trim (coalesce threadId0 [])
      in if threadId = [] then (baseSessionKey, None)
         else (let normalizedThread = coalesce (Option.bind normalizeThreadId (\<lambda>f. f threadId))
                                        (normalizeLowercaseStringOrEmpty (Some threadId));
                   useSuffix = coalesce useSuffix0 True
               in (if useSuffix then baseSessionKey @ '':thread:'' @ normalizedThread else baseSessionKey, parentSessionKey)))"

subsection \<open>The shape of identifiers\<close>

lemma id_char_lower: "id_char c \<Longrightarrow> js_lower_char c = c"
  by (auto simp: id_char_def lower_alnum_def is_digit_def js_lower_char_def Let_def)

lemma id_char_space: "id_char c \<Longrightarrow> \<not> js_space c"
  by (auto simp: id_char_def lower_alnum_def is_digit_def js_space_def)

lemma id_char_colon: "id_char c \<Longrightarrow> c \<noteq> CHR '':''"
  by (auto simp: id_char_def lower_alnum_def is_digit_def)

lemma upper_letter_lower: "upper_letter c \<Longrightarrow> id_char (js_lower_char c)"
  by (auto simp: id_char_def lower_alnum_def upper_letter_def js_lower_char_def Let_def)

lemma js_lower_id: "\<forall>c \<in> set s. id_char c \<Longrightarrow> js_lower s = s"
  by (induction s) (auto simp: js_lower_def id_char_lower)

lemma dropWhile_keeps: "\<not> P (hd xs) \<Longrightarrow> dropWhile P xs = xs"
  by (cases xs) auto

lemma trim_fix: "s \<noteq> [] \<Longrightarrow> \<not> js_space (hd s) \<Longrightarrow> \<not> js_space (last s) \<Longrightarrow> js_trim s = s"
  by (simp add: js_trim_def dropWhile_keeps hd_rev)

lemma trim_ids: "\<forall>c \<in> set s. id_char c \<Longrightarrow> js_trim s = s"
  by (cases "s = []") (auto intro!: trim_fix dest: id_char_space)

lemma trim_ends: "js_trim s \<noteq> [] \<Longrightarrow> \<not> js_space (hd (js_trim s)) \<and> \<not> js_space (last (js_trim s))"
proof
  assume ne: "js_trim s \<noteq> []"
  then show "\<not> js_space (last (js_trim s))"
    unfolding js_trim_def by (metis hd_dropWhile last_rev rev_is_Nil_conv)
  show "\<not> js_space (hd (js_trim s))"
  proof
    assume space: "js_space (hd (js_trim s))"
    obtain c t where t: "js_trim s = c # t" using ne by (cases "js_trim s") auto
    have "length (js_trim (c # t)) \<le> length (dropWhile js_space (c # t))"
      by (simp only: js_trim_def length_rev) (metis length_dropWhile_le length_rev)
    also have "\<dots> \<le> length t" using space t by (simp add: length_dropWhile_le)
    finally show False using js_trim_idem [of s] by (simp add: t)
  qed
qed

lemma replaceInvalid_ids: "\<forall>c \<in> set (replaceInvalidChars s). id_char c"
  by (induction s rule: replaceInvalidChars.induct) (auto simp: id_char_def)

lemma replaceInvalid_fix: "\<forall>c \<in> set s. id_char c \<Longrightarrow> replaceInvalidChars s = s"
  by (induction s) auto

lemma strip_set: "set (stripTrailingDashes (stripLeadingDashes s)) \<subseteq> set s"
  unfolding stripTrailingDashes_def stripLeadingDashes_def by (metis set_dropWhileD set_rev subsetI)

lemma sanitize_ids: "\<forall>c \<in> set (sanitizeIdText s). id_char c"
  using replaceInvalid_ids [of s] strip_set [of "replaceInvalidChars s"] unfolding sanitizeIdText_def by (meson in_set_takeD subsetD)

lemma sanitize_length: "length (sanitizeIdText s) \<le> 64"
  by (simp add: sanitizeIdText_def)

lemma valid_lower:
  assumes "VALID_ID_RE s"
  shows "js_lower s \<noteq> []" "\<forall>c \<in> set (js_lower s). id_char c" "length (js_lower s) \<le> 64" "lower_alnum (hd (js_lower s))"
proof -
  have first: "lower_alnum (js_lower_char c)" if "lower_alnum c \<or> upper_letter c" for c
    using that by (auto simp: lower_alnum_def is_digit_def upper_letter_def js_lower_char_def Let_def)
  have rest: "id_char (js_lower_char c)" if "id_char c \<or> upper_letter c" for c
    using that by (auto simp: id_char_lower upper_letter_lower)
  show "js_lower s \<noteq> []" "length (js_lower s) \<le> 64" "lower_alnum (hd (js_lower s))"
    using assms first by (auto simp: VALID_ID_RE_def js_lower_def split: list.splits)
  show "\<forall>c \<in> set (js_lower s). id_char c"
    using assms rest by (auto simp: VALID_ID_RE_def js_lower_def id_char_def list_all_iff split: list.splits)
qed

lemma valid_iff_ids:
  assumes "s \<noteq> []" "\<forall>c \<in> set s. id_char c" "length s \<le> 64"
  shows "VALID_ID_RE s \<longleftrightarrow> lower_alnum (hd s)"
proof -
  have "\<not> upper_letter c" if "id_char c" for c
    using that by (auto simp: id_char_def lower_alnum_def is_digit_def upper_letter_def)
  then show ?thesis using assms by (cases s) (auto simp: VALID_ID_RE_def list_all_iff)
qed

text \<open>A normalised agent id is a short, non-empty word of lower-case letters, digits, dashes and underscores.\<close>

lemma normalizeAgentId_shape:
  "normalizeAgentId v \<noteq> [] \<and> length (normalizeAgentId v) \<le> 64 \<and> (\<forall>c \<in> set (normalizeAgentId v). id_char c)"
proof -
  let ?t = "js_trim (coalesce v [])"
  have main: "DEFAULT_AGENT_ID \<noteq> [] \<and> length DEFAULT_AGENT_ID \<le> 64 \<and> (\<forall>c \<in> set DEFAULT_AGENT_ID. id_char c)"
    by (simp add: DEFAULT_AGENT_ID_def id_char_def lower_alnum_def)
  show ?thesis
  proof (cases "?t = []")
    case True
    then show ?thesis using main by (simp add: normalizeAgentId_def)
  next
    case False
    then show ?thesis using main valid_lower [of ?t] sanitize_ids sanitize_length
      by (auto simp: normalizeAgentId_def Let_def lower_or_empty)
  qed
qed

lemma normalizeAgentId_simps [simp]:
  "normalizeAgentId v \<noteq> []" "CHR '':'' \<notin> set (normalizeAgentId v)" "js_lower (normalizeAgentId v) = normalizeAgentId v"
  "js_trim (normalizeAgentId v) = normalizeAgentId v"
  using normalizeAgentId_shape [of v] by (auto simp: js_lower_id trim_ids dest: id_char_colon)

lemma normalizeAccountId_shape: "normalizeAccountId v \<noteq> [] \<and> (\<forall>c \<in> set (normalizeAccountId v). id_char c)"
proof -
  have ids: "\<forall>c \<in> set (canonicalizeAccountId t). id_char c" for t
  proof (cases "VALID_ID_RE t")
    case True
    then have "js_trim t = t"
    proof -
      have "\<not> js_space c" if "id_char c \<or> upper_letter c" for c
        using that by (auto dest: id_char_space simp: upper_letter_def js_space_def)
      then have "\<forall>c \<in> set t. \<not> js_space c" using True
        by (auto simp: VALID_ID_RE_def list_all_iff id_char_def split: list.splits)
      then show ?thesis by (cases "t = []") (auto intro!: trim_fix)
    qed
    then show ?thesis using True valid_lower(2) by (simp add: canonicalizeAccountId_def lower_or_empty)
  next
    case False
    then show ?thesis using sanitize_ids by (simp add: canonicalizeAccountId_def Let_def)
  qed
  then show ?thesis
    by (auto simp: normalizeAccountId_def accountIdOf_def normalizeCanonicalAccountId_def DEFAULT_ACCOUNT_ID_def Let_def
        id_char_def lower_alnum_def)
qed

lemma normalizeAccountId_simps [simp]:
  "normalizeAccountId v \<noteq> []" "CHR '':'' \<notin> set (normalizeAccountId v)" "js_lower (normalizeAccountId v) = normalizeAccountId v"
  using normalizeAccountId_shape [of v] by (auto simp: js_lower_id dest: id_char_colon)

subsection \<open>The caches are invisible\<close>

lemma setNormalizeCache_adds: "set (setNormalizeCache k v m) \<subseteq> insert (k, v) (set m)"
  using set_update_subset [of k v m]
  by (auto simp: setNormalizeCache_def Let_def AList.delete_eq split: list.splits if_splits)

lemma setNormalizeCache_bound:
  assumes "length m \<le> ACCOUNT_ID_CACHE_MAX"
  shows "length (setNormalizeCache k v m) \<le> ACCOUNT_ID_CACHE_MAX"
proof (cases "length (AList.update k v m) \<le> ACCOUNT_ID_CACHE_MAX")
  case False
  then obtain o_k o_v rest where split: "AList.update k v m = (o_k, o_v) # rest"
    by (cases "AList.update k v m") auto
  have "length (AList.update k v m) \<le> Suc ACCOUNT_ID_CACHE_MAX" using assms by (simp add: length_update)
  then have "length (AList.delete o_k rest) \<le> ACCOUNT_ID_CACHE_MAX"
    using split length_delete_le [of o_k rest] by simp
  then show ?thesis using False split by (simp add: setNormalizeCache_def)
qed (simp add: setNormalizeCache_def)

interpretation idCache: memo_table ACCOUNT_ID_CACHE_MAX setNormalizeCache
  by unfold_locales (rule setNormalizeCache_adds, rule setNormalizeCache_bound)

lemma accountIdOf_not_Nil [simp]: "accountIdOf t \<noteq> []"
  by (auto simp: accountIdOf_def normalizeCanonicalAccountId_def DEFAULT_ACCOUNT_ID_def Let_def)

lemma account_cache_invisible:
  assumes "memo_sound accountIdOf m"
  shows "fst (normalizeAccountIdCached value m) = normalizeAccountId value"
    and "memo_sound accountIdOf (snd (normalizeAccountIdCached value m))"
proof -
  let ?t = "js_trim (coalesce value [])"
  have step: "normalizeAccountIdCached value m =
      (if ?t = [] then (DEFAULT_ACCOUNT_ID, m) else memo_get accountIdOf setNormalizeCache ?t m)"
  proof (cases "map_of m ?t")
    case (Some v)
    then have "v = accountIdOf ?t" by (rule memo_soundD [OF assms])
    with Some show ?thesis by (simp add: normalizeAccountIdCached_def memo_get_def Let_def)
  qed (simp add: normalizeAccountIdCached_def memo_get_def Let_def)
  show "fst (normalizeAccountIdCached value m) = normalizeAccountId value"
    "memo_sound accountIdOf (snd (normalizeAccountIdCached value m))"
    using idCache.get_sound [OF assms, of ?t] assms by (simp_all add: step normalizeAccountId_def Let_def)
qed

lemma optional_account_cache_invisible:
  assumes "memo_sound normalizeCanonicalAccountId m"
  shows "fst (normalizeOptionalAccountIdCached value m) = normalizeOptionalAccountId value"
    and "memo_sound normalizeCanonicalAccountId (snd (normalizeOptionalAccountIdCached value m))"
  using idCache.get_sound [OF assms, of "js_trim (coalesce value [])"] assms
  by (simp_all add: normalizeOptionalAccountIdCached_def normalizeOptionalAccountId_def Let_def)

subsection \<open>Built keys parse back\<close>

lemma js_lower_char_idem [simp]: "js_lower_char (js_lower_char c) = js_lower_char c"
proof -
  have "(of_char c :: nat) < 256" by simp
  then show ?thesis by (auto simp: js_lower_char_def Let_def)
qed

lemma js_lower_idem [simp]: "js_lower (js_lower s) = js_lower s"
  by (simp add: js_lower_def)

lemma js_lower_Cons: "js_lower (c # s) = js_lower_char c # js_lower s"
  by (simp add: js_lower_def)

lemma js_lower_append [simp]: "js_lower (s @ t) = js_lower s @ js_lower t"
  by (simp add: js_lower_def)

lemma js_lower_empty [simp]: "js_lower s = [] \<longleftrightarrow> s = []"
  by (simp add: js_lower_def)

lemma js_lower_Nil [simp]: "js_lower [] = []"
  by (simp add: js_lower_def)

lemma token_fix [simp]: "js_lower (normalizeLowercaseStringOrEmpty v) = normalizeLowercaseStringOrEmpty v"
  by (cases v) (simp_all add: lower_or_empty, simp add: normalizeLowercaseStringOrEmpty_def
      normalizeOptionalLowercaseString_def normalizeOptionalString_def normalizeNullableString_def)

lemma token_None [simp]: "normalizeLowercaseStringOrEmpty None = []"
  by (simp add: normalizeLowercaseStringOrEmpty_def normalizeOptionalLowercaseString_def normalizeOptionalString_def
      normalizeNullableString_def)

lemma token_ends: "normalizeLowercaseStringOrEmpty v \<noteq> [] \<Longrightarrow> \<not> js_space (last (normalizeLowercaseStringOrEmpty v))"
proof (cases v)
  case (Some s)
  assume "normalizeLowercaseStringOrEmpty v \<noteq> []"
  then have "js_trim s \<noteq> []" by (simp add: Some lower_or_empty)
  then show ?thesis using trim_ends [of s] by (simp add: Some lower_or_empty js_lower_def last_map)
qed simp

lemma text_or_simps [simp]: "text_or s d = [] \<longleftrightarrow> s = [] \<and> d = []" "js_lower (text_or s d) = text_or (js_lower s) (js_lower d)"
  by (auto simp: text_or_def)

lemma text_or_ends:
  "d \<noteq> [] \<Longrightarrow> \<not> js_space (last d) \<Longrightarrow>
   \<not> js_space (last (text_or (normalizeLowercaseStringOrEmpty v) d))"
  using token_ends [of v] by (auto simp: text_or_def)

lemma trim_lower: "js_trim (js_lower s) = js_lower (js_trim s)"
  by (simp add: js_trim_def js_lower_def dropWhile_map rev_map o_def)

lemma lower_trimmed_fix:
  assumes "s \<noteq> []" "\<not> js_space (hd s)" "\<not> js_space (last s)" "js_lower s = s"
  shows "normalizeOptionalLowercaseString (Some s) = Some s"
  using assms trim_fix [OF assms(1-3)]
  by (simp add: normalizeOptionalLowercaseString_def normalizeOptionalString_def normalizeNullableString_def)

text \<open>Reading a key built from an agent id and a lower-case rest gives the id and the rest without empty segments.\<close>

lemma parse_built:
  assumes "js_lower r = r" and "r \<noteq> []" and "\<not> js_space (last r)" and "segments r \<noteq> []"
  shows "parseAgentSessionKey (Some (''agent:'' @ normalizeAgentId v @ '':'' @ r)) =
    Some \<lparr>key_agent = normalizeAgentId v, key_rest = tidy r\<rparr>"
proof -
  let ?k = "''agent:'' @ normalizeAgentId v @ '':'' @ r"
  have "js_lower ?k = ?k" using assms(1) by (simp add: js_lower_Cons js_lower_char_def)
  then have norm: "normalizeOptionalLowercaseString (Some ?k) = Some ?k"
    using assms by (intro lower_trimmed_fix) (simp_all add: js_space_def)
  obtain p ps where seg: "segments r = p # ps" using assms(4) by (cases "segments r") auto
  have "segments ?k = ''agent'' # normalizeAgentId v # segments r"
    using segments_append [of "''agent''" "normalizeAgentId v @ '':'' @ r"] segments_append [of "normalizeAgentId v" r]
    by simp
  moreover have "normalizeOptionalString (Some (normalizeAgentId v)) = Some (normalizeAgentId v)"
    by (simp add: normalizeOptionalString_def normalizeNullableString_def)
  moreover have "js_join '':'' (segments r) \<noteq> []"
    using segments_parts [of p r] by (cases ps) (simp_all add: seg)
  ultimately show ?thesis
    unfolding parseAgentSessionKey_def norm by (simp add: seg tidy_def)
qed

lemma lower_lit [simp]:
  "js_lower ''direct'' = ''direct''" "js_lower ''unknown'' = ''unknown''" "js_lower '':'' = '':''"
  "js_lower '':direct:'' = '':direct:''" "js_lower ''direct:'' = ''direct:''" "js_lower ''main'' = ''main''"
  "js_lower (chat_type_name k) = chat_type_name k"
  by (simp_all add: js_lower_Cons js_lower_char_def, cases k) (simp_all add: js_lower_Cons js_lower_char_def)

lemma chat_type_name_simps [simp]:
  "chat_type_name k \<noteq> []" "CHR '':'' \<notin> set (chat_type_name k)" "chat_type_name k = ''direct'' \<longleftrightarrow> k = Direct"
  "''direct'' = chat_type_name k \<longleftrightarrow> k = Direct"
  "chat_type_name j = chat_type_name k \<longleftrightarrow> j = k"
  by (cases k; simp; cases j; simp)+

lemma main_key_fix [simp]:
  "js_lower (normalizeMainKey v) = normalizeMainKey v" "normalizeMainKey v \<noteq> []" "\<not> js_space (last (normalizeMainKey v))"
  using text_or_ends [of DEFAULT_MAIN_KEY v]
  by (auto simp: normalizeMainKey_def DEFAULT_MAIN_KEY_def js_space_def)

lemma segments_not_Nil: "segments s \<noteq> [] \<or> segments t \<noteq> [] \<Longrightarrow> CHR '':'' \<notin> set s \<Longrightarrow> segments (s @ CHR '':'' # t) \<noteq> []"
  by (auto simp: segments_append)

lemma segments_word: "CHR '':'' \<notin> set w \<Longrightarrow> w \<noteq> [] \<Longrightarrow> segments (t @ CHR '':'' # w @ CHR '':'' # u) \<noteq> []"
proof (induction t)
  case Nil
  then show ?case using segments_append [of "[]" "w @ CHR '':'' # u"] by (simp add: segments_append)
next
  case (Cons c t)
  obtain p ps where seg: "js_split CHR '':'' (t @ CHR '':'' # w @ CHR '':'' # u) = p # ps"
    by (meson js_split_not_Nil list.exhaust)
  have "filter (\<lambda>p. p \<noteq> []) (p # ps) \<noteq> []" using Cons by (simp add: segments_def seg)
  then show ?case by (auto simp: segments_def seg split: if_splits)
qed

definition usable_rest :: "string \<Rightarrow> bool" where
  "usable_rest r \<longleftrightarrow> js_lower r = r \<and> r \<noteq> [] \<and> \<not> js_space (last r) \<and> segments r \<noteq> []"

lemma built_form:
  assumes "segments (normalizeMainKey (pk_mainKey p)) \<noteq> []"
  shows "\<exists>r. buildAgentPeerSessionKey p = ''agent:'' @ normalizeAgentId (pk_agent p) @ '':'' @ r \<and> usable_rest r"
proof -
  let ?ch = "text_or (normalizeLowercaseStringOrEmpty (Some (pk_channel p))) ''unknown''"
  let ?peer = "directPeerId p" and ?gpeer = "text_or (normalizeLowercaseStringOrEmpty (pk_peer p)) ''unknown''"
  have peer: "js_lower ?peer = ?peer" "?peer \<noteq> [] \<Longrightarrow> \<not> js_space (last ?peer)"
    using token_ends unfolding directPeerId_def Let_def by (simp_all del: truthy_string_simps)
  have gpeer: "\<not> js_space (last ?gpeer)" by (rule text_or_ends) (simp_all add: js_space_def)
  have main: "usable_rest (normalizeMainKey (pk_mainKey p))" using assms by (simp add: usable_rest_def)
  have d: "usable_rest (''direct:'' @ ?peer)" if "?peer \<noteq> []"
    using that peer segments_append [of "''direct''" ?peer]
    by (simp add: usable_rest_def js_lower_Cons js_lower_char_def)
  have word: "usable_rest (pre @ '':'' @ w @ '':'' @ q)"
    if "js_lower pre = pre" "js_lower w = w" "js_lower q = q" "w \<noteq> []" "CHR '':'' \<notin> set w" "q \<noteq> []" "\<not> js_space (last q)" for pre w q
    using that segments_word [of w pre q] by (simp add: usable_rest_def js_lower_Cons js_lower_char_def)
  have g: "usable_rest (?ch @ '':'' @ chat_type_name k @ '':'' @ ?gpeer)" for k
    using gpeer by (intro word) simp_all
  have dc: "usable_rest (?ch @ '':direct:'' @ ?peer)" if "?peer \<noteq> []"
    using word [of ?ch "''direct''" ?peer] peer that by simp
  have da: "usable_rest (?ch @ '':'' @ normalizeAccountId (pk_account p) @ '':direct:'' @ ?peer)" if "?peer \<noteq> []"
    using word [of ?ch "normalizeAccountId (pk_account p)" "''direct:'' @ ?peer"] peer that
    by (simp add: js_lower_Cons js_lower_char_def)
  show ?thesis
  proof (cases "coalesce (pk_kind p) Direct = Direct")
    case True
    then show ?thesis using main d dc da
      by (auto simp: buildAgentPeerSessionKey_def buildAgentMainSessionKey_def Let_def)
  next
    case False
    then show ?thesis using g [of "coalesce (pk_kind p) Direct"] by (auto simp: buildAgentPeerSessionKey_def Let_def)
  qed
qed

lemma agent_key_stored:
  fixes v :: "string option"
  assumes "usable_rest r"
  defines "k \<equiv> ''agent:'' @ normalizeAgentId v @ '':'' @ r"
  shows "parseAgentSessionKey (Some k) = Some \<lparr>key_agent = normalizeAgentId v, key_rest = tidy r\<rparr>"
    and "js_trim k = k" and "k \<noteq> []" and "normalizeLowercaseStringOrEmpty (Some k) \<noteq> DEFAULT_MAIN_KEY"
proof -
  show "parseAgentSessionKey (Some k) = Some \<lparr>key_agent = normalizeAgentId v, key_rest = tidy r\<rparr>"
    unfolding k_def using assms(1) by (intro parse_built) (simp_all add: usable_rest_def)
  show "k \<noteq> []" by (simp add: k_def)
  show trim: "js_trim k = k"
    using assms(1) by (intro trim_fix) (simp_all add: k_def usable_rest_def js_space_def)
  show "normalizeLowercaseStringOrEmpty (Some k) \<noteq> DEFAULT_MAIN_KEY"
    unfolding lower_or_empty trim by (simp add: k_def DEFAULT_MAIN_KEY_def js_lower_Cons js_lower_char_def)
qed

text \<open>A built session key reads back. Whatever the conversation, the key belongs to the normalised agent: parsing
  gives that agent and the rest of the key without its empty segments, the key counts as an agent key, and storing
  a request under it keeps its own agent, whichever agent the request names.\<close>

theorem built_key_reads_back:
  assumes "segments (normalizeMainKey (pk_mainKey p)) \<noteq> []"
  shows "\<exists>r. buildAgentPeerSessionKey p = ''agent:'' @ normalizeAgentId (pk_agent p) @ '':'' @ r \<and>
    parseAgentSessionKey (Some (buildAgentPeerSessionKey p)) = Some \<lparr>key_agent = normalizeAgentId (pk_agent p), key_rest = tidy r\<rparr> \<and>
    classifySessionKeyShape (Some (buildAgentPeerSessionKey p)) = ShapeAgent \<and>
    toAgentStoreSessionKey other (Some (buildAgentPeerSessionKey p)) mainKey =
      ''agent:'' @ normalizeAgentId (pk_agent p) @ '':'' @ tidy r"
proof -
  obtain r where r: "buildAgentPeerSessionKey p = ''agent:'' @ normalizeAgentId (pk_agent p) @ '':'' @ r" "usable_rest r"
    using built_form [OF assms] by blast
  show ?thesis
    using agent_key_stored [OF r(2), of "pk_agent p"] r(1)
    by (intro exI [of _ r]) (simp add: classifySessionKeyShape_def toAgentStoreSessionKey_def Let_def)
qed

theorem built_key_reads_back_witness:
  "\<exists>r. buildAgentPeerSessionKey \<lparr>pk_agent = Some ''Sales Bot'', pk_mainKey = None, pk_channel = ''Telegram'', pk_account = None,
      pk_kind = Some Group, pk_peer = Some ''-100'', pk_links = None, pk_scope = None\<rparr> =
      ''agent:'' @ normalizeAgentId (Some ''Sales Bot'') @ '':'' @ r"
proof -
  have "segments (normalizeMainKey None) \<noteq> []"
    by (simp add: normalizeMainKey_def text_or_def DEFAULT_MAIN_KEY_def segments_def)
  then show ?thesis
    using built_key_reads_back [of "\<lparr>pk_agent = Some ''Sales Bot'', pk_mainKey = None, pk_channel = ''Telegram'', pk_account = None,
      pk_kind = Some Group, pk_peer = Some ''-100'', pk_links = None, pk_scope = None\<rparr>" None None] by auto
qed

subsection \<open>Which conversations share a key\<close>

text \<open>The channel and the peer as they enter the key.\<close>

definition channel_token :: "peer_key_params \<Rightarrow> string" where
  "channel_token p = text_or (normalizeLowercaseStringOrEmpty (Some (pk_channel p))) ''unknown''"

definition peer_token :: "peer_key_params \<Rightarrow> string" where
  "peer_token p = normalizeLowercaseStringOrEmpty (pk_peer p)"

definition kind_of :: "peer_key_params \<Rightarrow> chat_type" where
  "kind_of p = coalesce (pk_kind p) Direct"

definition scope_of :: "peer_key_params \<Rightarrow> dm_scope" where
  "scope_of p = coalesce (pk_scope p) ScopeMain"

lemma direct_peer_token: "pk_links p = None \<Longrightarrow> directPeerId p = peer_token p"
  by (cases "pk_peer p") (simp_all add: directPeerId_def resolveLinkedPeerId_def peer_token_def lower_or_empty Let_def)

text \<open>The person of a direct chat: the peer, or the name its identity links give it.\<close>

definition person :: "peer_key_params \<Rightarrow> string" where
  "person p = (if pk_links p = None then peer_token p else directPeerId p)"

text \<open>What a conversation is: the main chat of an agent, the direct chat with a person, with its channel and its
  account where the scope of direct chats tells them apart, or a room.\<close>

datatype conversation =
    MainChat string
  | DirectChat "string option" "string option" string
  | Room string chat_type string

definition conversation_of :: "peer_key_params \<Rightarrow> conversation" where
  "conversation_of p =
     (if kind_of p \<noteq> Direct then Room (channel_token p) (kind_of p) (text_or (peer_token p) ''unknown'')
      else if scope_of p = ScopeMain \<or> person p = [] then MainChat (normalizeMainKey (pk_mainKey p))
      else DirectChat (if scope_of p = PerPeer then None else Some (channel_token p))
             (if scope_of p = PerAccountChannelPeer then Some (normalizeAccountId (pk_account p)) else None) (person p))"

text \<open>Names an operator chooses that keep clear of the separators of a key. Nothing is asked of peers.\<close>

definition plain_names :: "peer_key_params \<Rightarrow> bool" where
  "plain_names p \<longleftrightarrow> CHR '':'' \<notin> set (channel_token p) \<and> channel_token p \<noteq> ''direct'' \<and>
     normalizeAccountId (pk_account p) \<notin> {''group'', ''channel''} \<and> CHR '':'' \<notin> set (normalizeMainKey (pk_mainKey p))"

text \<open>The part of a key after the agent.\<close>

fun conversation_text :: "conversation \<Rightarrow> string" where
  "conversation_text (MainChat key) = key"
| "conversation_text (DirectChat ch account who) =
     (case ch of None \<Rightarrow> [] | Some c \<Rightarrow> c @ '':'') @ (case account of None \<Rightarrow> [] | Some a \<Rightarrow> a @ '':'') @ ''direct'' @ '':'' @ who"
| "conversation_text (Room ch kind peer) = ch @ '':'' @ chat_type_name kind @ '':'' @ peer"

lemma key_text: "buildAgentPeerSessionKey p = ''agent:'' @ normalizeAgentId (pk_agent p) @ '':'' @ conversation_text (conversation_of p)"
proof -
  have d: "directPeerId p = person p" using direct_peer_token by (simp add: person_def)
  show ?thesis
  proof (cases "kind_of p = Direct")
    case True
    then show ?thesis
      by (cases "scope_of p"; cases "person p = []")
        (simp_all add: buildAgentPeerSessionKey_def buildAgentMainSessionKey_def conversation_of_def kind_of_def scope_of_def d Let_def
          flip: channel_token_def)
  next
    case False
    then show ?thesis
      by (simp add: buildAgentPeerSessionKey_def conversation_of_def kind_of_def Let_def flip: channel_token_def peer_token_def)
  qed
qed

lemma split_word: "CHR '':'' \<notin> set w \<Longrightarrow> js_split CHR '':'' (w @ CHR '':'' # t) = w # js_split CHR '':'' t"
  by (rule js_split_append)

lemma account_colon: "CHR '':'' \<notin> set (normalizeAccountId v)"
  using normalizeAccountId_shape [of v] by (auto dest: id_char_colon)

lemma agent_colon: "CHR '':'' \<notin> set (normalizeAgentId v)"
  using normalizeAgentId_shape [of v] by (auto dest: id_char_colon)

fun fits :: "dm_scope \<Rightarrow> conversation \<Rightarrow> bool" where
  "fits s (MainChat k) \<longleftrightarrow> CHR '':'' \<notin> set k"
| "fits s (DirectChat c a w) \<longleftrightarrow>
     (case s of ScopeMain \<Rightarrow> False | PerPeer \<Rightarrow> c = None \<and> a = None
      | PerChannelPeer \<Rightarrow> (\<exists>ch. c = Some ch \<and> CHR '':'' \<notin> set ch) \<and> a = None
      | PerAccountChannelPeer \<Rightarrow> (\<exists>ch. c = Some ch \<and> CHR '':'' \<notin> set ch) \<and>
          (\<exists>b. a = Some b \<and> CHR '':'' \<notin> set b \<and> b \<notin> {''group'', ''channel''}))"
| "fits s (Room ch k w) \<longleftrightarrow> CHR '':'' \<notin> set ch \<and> ch \<noteq> ''direct'' \<and> k \<noteq> Direct"

lemma conversation_fits: "plain_names p \<Longrightarrow> fits (scope_of p) (conversation_of p)"
  by (cases "scope_of p") (auto simp: plain_names_def conversation_of_def account_colon)

lemma split_direct: "js_split CHR '':'' (''direct:'' @ t) = ''direct'' # js_split CHR '':'' t"
  using split_word [of "''direct''" t] by simp

text \<open>The parts of that text between its colons.\<close>

fun conversation_parts :: "conversation \<Rightarrow> string list" where
  "conversation_parts (MainChat k) = [k]"
| "conversation_parts (DirectChat ch account w) =
     (case ch of None \<Rightarrow> [] | Some c \<Rightarrow> [c]) @ (case account of None \<Rightarrow> [] | Some a \<Rightarrow> [a]) @ ''direct'' # js_split CHR '':'' w"
| "conversation_parts (Room ch kind w) = ch # chat_type_name kind # js_split CHR '':'' w"

lemma split_text: "fits s c \<Longrightarrow> js_split CHR '':'' (conversation_text c) = conversation_parts c"
proof (cases c)
  case (DirectChat ch account w)
  assume "fits s c"
  then show ?thesis using DirectChat split_direct [of w] by (cases s) (auto simp: split_word)
qed (auto simp: js_split_free split_word)

lemma kind_names: "k \<noteq> Direct \<Longrightarrow> chat_type_name k = ''group'' \<or> chat_type_name k = ''channel''"
  by (cases k) simp_all

lemma text_inj:
  assumes "fits s c" "fits s d" "conversation_text c = conversation_text d"
  shows "c = d"
proof -
  have "conversation_parts c = conversation_parts d"
    using assms(3) split_text [OF assms(1)] split_text [OF assms(2)] by simp
  then show ?thesis using assms(1,2)
    by (cases s; cases c; cases d) (auto simp: js_split_inj js_split_not_Nil [symmetric] dest: kind_names)
qed

lemma conversation_text_inj:
  assumes "plain_names p" "plain_names q" "scope_of p = scope_of q"
    and "conversation_text (conversation_of p) = conversation_text (conversation_of q)"
  shows "conversation_of p = conversation_of q"
  using text_inj [OF _ _ assms(4)] conversation_fits [OF assms(1)] conversation_fits [OF assms(2)] assms(3) by metis

text \<open>C4: When conversations share a session. Under one scope of direct chats, and when channels, accounts and
  the main key have plain names, two messages get the same session key exactly when the same agent answers and
  they belong to the same conversation: rooms are the same when channel, kind and room id are, on whatever
  account; direct chats are all the same in the main scope and when the peer has no id; otherwise they are the
  same when the person is, which is the peer up to letter case or the name its identity links give it, together
  with the channel unless chats are kept per peer alone, and with the account where they are kept per account.
  Peer and room ids are any texts, also with colons.\<close>

theorem conversations_isolated:
  assumes "plain_names p" and "plain_names q" and "scope_of p = scope_of q"
  shows "buildAgentPeerSessionKey p = buildAgentPeerSessionKey q \<longleftrightarrow>
    normalizeAgentId (pk_agent p) = normalizeAgentId (pk_agent q) \<and> conversation_of p = conversation_of q"
proof -
  have "buildAgentPeerSessionKey p = buildAgentPeerSessionKey q \<longleftrightarrow>
      normalizeAgentId (pk_agent p) @ CHR '':'' # conversation_text (conversation_of p) =
      normalizeAgentId (pk_agent q) @ CHR '':'' # conversation_text (conversation_of q)"
    unfolding key_text by simp
  also have "\<dots> \<longleftrightarrow> normalizeAgentId (pk_agent p) = normalizeAgentId (pk_agent q) \<and>
      conversation_text (conversation_of p) = conversation_text (conversation_of q)"
    using append_Cons_eq_iff [of "CHR '':''" "normalizeAgentId (pk_agent p)" "normalizeAgentId (pk_agent q)"] agent_colon
    by (metis js_split_append js_split_inj list.inject)
  finally show ?thesis using conversation_text_inj [OF assms] by auto
qed

text \<open>A Matrix user written with other capitals, on an account written with spaces.\<close>

theorem conversations_isolated_witness:
  "let p = \<lparr>pk_agent = Some ''main'', pk_mainKey = None, pk_channel = ''matrix'', pk_account = Some ''a'', pk_kind = None,
        pk_peer = Some ''@Alice:example.org'', pk_links = None, pk_scope = Some PerAccountChannelPeer\<rparr>;
      q = p\<lparr>pk_account := Some ''A '', pk_peer := Some ''@alice:example.org''\<rparr>;
      r = p\<lparr>pk_peer := Some ''@alice:example.com''\<rparr>
   in conversation_of p = conversation_of q \<and> buildAgentPeerSessionKey p \<noteq> buildAgentPeerSessionKey r"
proof -
  let ?p = "\<lparr>pk_agent = Some ''main'', pk_mainKey = None, pk_channel = ''matrix'', pk_account = Some ''a'', pk_kind = None,
        pk_peer = Some ''@Alice:example.org'', pk_links = None, pk_scope = Some PerAccountChannelPeer\<rparr>"
  let ?q = "?p\<lparr>pk_account := Some ''A '', pk_peer := Some ''@alice:example.org''\<rparr>"
  let ?r = "?p\<lparr>pk_peer := Some ''@alice:example.com''\<rparr>"
  have "plain_names ?p \<and> plain_names ?q \<and> plain_names ?r" by code_simp
  moreover have "scope_of ?q = scope_of ?p" "scope_of ?r = scope_of ?p" by (simp_all add: scope_of_def)
  moreover have "buildAgentPeerSessionKey ?p = buildAgentPeerSessionKey ?q" by code_simp
  moreover have "conversation_of ?p \<noteq> conversation_of ?r" by code_simp
  ultimately show ?thesis using conversations_isolated [of ?p ?q] conversations_isolated [of ?p ?r] by (simp add: Let_def)
qed

subsection \<open>Normalising an agent id twice\<close>

lemma stripTrailing_fix: "s = [] \<or> last s \<noteq> CHR ''-'' \<Longrightarrow> stripTrailingDashes s = s"
  by (cases "s = []") (simp_all add: stripTrailingDashes_def dropWhile_keeps hd_rev)

lemma stripLeading_hd: "stripLeadingDashes s = [] \<or> hd (stripLeadingDashes s) \<noteq> CHR ''-''"
  unfolding stripLeadingDashes_def by (metis (mono_tags, lifting) hd_dropWhile)

lemma stripTrailing_last: "stripTrailingDashes s = [] \<or> last (stripTrailingDashes s) \<noteq> CHR ''-''"
  unfolding stripTrailingDashes_def by (metis (mono_tags, lifting) hd_dropWhile last_rev rev_is_Nil_conv)

lemma stripTrailing_hd: "stripTrailingDashes s \<noteq> [] \<Longrightarrow> hd (stripTrailingDashes s) = hd s"
proof -
  assume ne: "stripTrailingDashes s \<noteq> []"
  obtain d where "rev s = d @ dropWhile (\<lambda>c. c = CHR ''-'') (rev s)" by (metis takeWhile_dropWhile_id)
  then have "s = stripTrailingDashes s @ rev d" unfolding stripTrailingDashes_def by (metis rev_append rev_rev_ident)
  then show ?thesis using ne by (metis hd_append2)
qed

text \<open>Normalising a normalised agent id changes it in one case only: an id of 64 characters that begins with an
  underscore and was cut right after a dash loses that dash.\<close>

lemma normalizeAgentId_idem:
  fixes v :: "string option"
  defines "n \<equiv> normalizeAgentId v"
  assumes "\<not> (length n = 64 \<and> hd n = CHR ''_'' \<and> last n = CHR ''-'')"
  shows "normalizeAgentId (Some n) = n"
proof (cases "VALID_ID_RE n")
  case True
  moreover have "js_trim n = n" "js_lower n = n" "n \<noteq> []" by (simp_all add: n_def)
  ultimately show ?thesis by (simp add: normalizeAgentId_def [of "Some n"] lower_or_empty)
next
  case False
  have shape: "n \<noteq> []" "length n \<le> 64" "\<forall>c \<in> set n. id_char c" using normalizeAgentId_shape [of v] by (simp_all add: n_def)
  let ?t = "js_trim (coalesce v [])"
  let ?u = "stripTrailingDashes (stripLeadingDashes (replaceInvalidChars (js_lower ?t)))"
  have main: "VALID_ID_RE DEFAULT_AGENT_ID" by (simp add: VALID_ID_RE_def DEFAULT_AGENT_ID_def id_char_def lower_alnum_def)
  have "VALID_ID_RE (js_lower ?t)" if "VALID_ID_RE ?t"
    using valid_lower [OF that] by (simp add: valid_iff_ids)
  then have t: "\<not> VALID_ID_RE ?t" "?t \<noteq> []" "n = take 64 ?u"
    using False main
    by (auto simp: n_def normalizeAgentId_def Let_def lower_or_empty sanitizeIdText_def split: if_splits)
  have u: "?u \<noteq> []" using shape(1) t(3) by auto
  have "hd n \<noteq> CHR ''-''" using t(3) u stripTrailing_hd stripLeading_hd
    by (metis hd_take numeral_eq_one_iff less_numeral_extra(1) stripTrailingDashes_def dropWhile.simps(1) rev.simps(1) zero_less_numeral)
  moreover have "id_char (hd n)" using shape by simp
  moreover have "\<not> lower_alnum (hd n)" using False shape by (simp add: valid_iff_ids)
  ultimately have "hd n = CHR ''_''" by (auto simp: id_char_def)
  moreover have "last n \<noteq> CHR ''-'' \<or> length n = 64"
    using t(3) u stripTrailing_last [of "stripLeadingDashes (replaceInvalidChars (js_lower ?t))"]
    by (cases "length ?u \<le> 64") auto
  ultimately have ends: "hd n \<noteq> CHR ''-''" "last n \<noteq> CHR ''-''" using assms(2) by auto
  have "sanitizeIdText n = n"
    using shape ends by (simp add: sanitizeIdText_def replaceInvalid_fix stripLeadingDashes_def dropWhile_keeps stripTrailing_fix)
  then show ?thesis using False shape
    by (simp add: normalizeAgentId_def [of "Some n"] lower_or_empty trim_ids js_lower_id Let_def)
qed

text \<open>C38: Agent ids are safe to use in paths and keys. Whatever text is given, the normalised id is a non-empty word of at most
  64 lower-case letters, digits, dashes and underscores, and normalising it again changes nothing but in one case: an
  id of exactly 64 characters that begins with an underscore and was cut right after a dash.\<close>

theorem agent_id_safe:
  "let n = normalizeAgentId v
   in n \<noteq> [] \<and> length n \<le> 64 \<and> list_all id_char n \<and>
      (normalizeAgentId (Some n) = n \<or> length n = 64 \<and> hd n = CHR ''_'' \<and> last n = CHR ''-'')"
  using normalizeAgentId_shape [of v] normalizeAgentId_idem [of v] unfolding Let_def list_all_iff by blast

subsection \<open>Thread suffixes\<close>

lemma starts_with_append: "starts_with p (p @ r)"
  by (simp add: starts_with_def)

text \<open>A thread key splits back into its base and its thread when the thread id holds no marker of its own.\<close>

lemma thread_key_splits:
  fixes parent :: "string option"
  assumes base: "b \<noteq> []" "\<not> js_space (hd b)"
    and thread: "js_lower (js_trim t) \<noteq> []"
    and free: "\<And>j. 0 < j \<Longrightarrow> \<not> occurs_at '':thread:'' ('':thread:'' @ js_lower (js_trim t)) j"
  defines "k \<equiv> fst (resolveThreadSessionKeys b (Some t) parent None None)"
  shows "parseThreadSessionSuffix (Some k) = \<lparr>base_key = Some b, thread_id = Some (js_lower (js_trim t))\<rparr>"
proof -
  let ?t = "js_lower (js_trim t)"
  have tt: "\<not> js_space (last ?t)" using trim_ends [of t] thread by (simp add: js_lower_def last_map)
  have ht: "\<not> js_space (hd ?t)" using trim_ends [of t] thread by (simp add: js_lower_def hd_map)
  have k: "k = b @ '':thread:'' @ ?t"
    using thread by (simp add: k_def resolveThreadSessionKeys_def lower_or_empty Let_def)
  have trim: "js_trim k = k" using base tt thread by (intro trim_fix) (simp_all add: k)
  have low: "js_lower k = js_lower b @ '':thread:'' @ ?t" by (simp add: k js_lower_Cons js_lower_char_def)
  have len: "length (js_lower b) = length b" by (simp add: js_lower_def)
  have "last_index_of '':thread:'' (js_lower k) = Some (length b)"
    unfolding last_index_of_Some
  proof (intro conjI allI impI)
    show "occurs_at '':thread:'' (js_lower k) (length b)"
      unfolding occurs_at_def low using starts_with_append [of "'':thread:''" ?t] by (simp add: len)
    fix j assume j: "length b < j \<and> j \<le> length (js_lower k)"
    then have "drop j (js_lower k) = drop (j - length b) ('':thread:'' @ ?t)" unfolding low by (simp add: len)
    then show "\<not> occurs_at '':thread:'' (js_lower k) j" using free [of "j - length b"] j by (simp add: occurs_at_def)
  qed (simp add: low len)
  then show ?thesis
    unfolding parseThreadSessionSuffix_def
    using trim thread trim_fix [of ?t] ht tt
    by (simp add: normalizeOptionalString_def normalizeNullableString_def lower_or_empty k)
qed

end
