(* ===== verification/RouteBindings.thy ===== *)
theory RouteBindings
  imports SessionKeys
begin

text \<open>
  The bindings of the configuration and what they say: \<^verbatim>\<open>packages/core/src/config/bindings.ts\<close>,
  \<^verbatim>\<open>agents/agent-scope-config.ts\<close> (the default agent), \<^verbatim>\<open>channels/ids.ts\<close>,
  \<^verbatim>\<open>routing/binding-scope.ts\<close>, \<^verbatim>\<open>routing/bindings.ts\<close> and \<^verbatim>\<open>routing/peer-kind-match.ts\<close>.

  The catalogue of bundled channels is generated code and an argument, as is the collation of
  \<^verbatim>\<open>localeCompare\<close>. The arrays and objects of a configuration are replaced, never changed in place;
  each carries the identity the caches compare.
\<close>

subsection \<open>Configuration\<close>

record peer_config =
  pc_kind :: "string option"
  pc_id :: "string option"

record match_config =
  mc_channel :: "string option"
  mc_account :: "string option"
  mc_peer :: "peer_config option"
  mc_guild :: "string option"
  mc_team :: "string option"
  mc_roles :: "string list option"

record agent_binding =
  ab_type :: "string option"
  ab_agent :: string
  ab_match :: "match_config option"
  ab_dmScope :: "dm_scope option"

record agent_entry =
  ag_id :: "string option"
  ag_default :: bool

record session_config =
  sc_dmScope :: "dm_scope option"
  sc_identityLinks :: "identity_links option"

record routing_config =
  cfg_object :: nat
  bindings_ref :: nat
  cfg_bindings :: "agent_binding list option"
  agents_ref :: nat
  cfg_agents :: "agent_entry list option"
  session_ref :: nat
  cfg_session :: "session_config option"

definition isRouteBinding :: "agent_binding \<Rightarrow> bool" where
  "isRouteBinding binding \<longleftrightarrow> ab_type binding \<noteq> Some ''acp''"

definition listConfiguredBindings :: "routing_config \<Rightarrow> agent_binding list" where
  "listConfiguredBindings cfg = coalesce (cfg_bindings cfg) []"

definition listRouteBindings :: "routing_config \<Rightarrow> agent_binding list" where
  "listRouteBindings cfg = filter isRouteBinding (listConfiguredBindings cfg)"

definition listBindings :: "routing_config \<Rightarrow> agent_binding list" where
  "listBindings cfg = listRouteBindings cfg"

definition listAgentEntries :: "routing_config \<Rightarrow> agent_entry list" where
  "listAgentEntries cfg = coalesce (cfg_agents cfg) []"

fun uniqueIds :: "string list \<Rightarrow> string list \<Rightarrow> string list" where
  "uniqueIds seen [] = []"
| "uniqueIds seen (x # xs) = (if x \<in> set seen then uniqueIds seen xs else x # uniqueIds (seen @ [x]) xs)"

definition listAgentIds :: "routing_config \<Rightarrow> string list" where
  "listAgentIds cfg =
     (let agents = listAgentEntries cfg
      in if agents = [] then [DEFAULT_AGENT_ID]
         else (let found = uniqueIds [] (map (\<lambda>e. normalizeAgentId (ag_id e)) agents)
               in if found = [] then [DEFAULT_AGENT_ID] else found))"

definition resolveDefaultAgentId :: "routing_config \<Rightarrow> string" where
  "resolveDefaultAgentId cfg =
     (let agents = listAgentEntries cfg
      in if agents = [] then DEFAULT_AGENT_ID
         else (let defaults = filter ag_default agents;
                   picked = (if defaults = [] then hd agents else hd defaults);
                   chosen = map_option js_trim (ag_id picked)
               in normalizeAgentId (Some (text_or (coalesce chosen []) DEFAULT_AGENT_ID))))"

subsection \<open>Channels\<close>

text \<open>The bundled channels with their aliases, in the order of the catalogue; a later alias replaces an earlier one.\<close>

type_synonym channel_catalog = "(string \<times> string list) list"

definition CHAT_CHANNEL_ALIASES :: "channel_catalog \<Rightarrow> (string, string) js_map" where
  "CHAT_CHANNEL_ALIASES entries =
     fold (\<lambda>(alias, i). AList.update alias i) (concat (map (\<lambda>(i, as). map (\<lambda>a. (a, i)) as) entries)) []"

definition normalizeChatChannelId :: "channel_catalog \<Rightarrow> string option \<Rightarrow> string option" where
  "normalizeChatChannelId entries raw =
     (case normalizeOptionalLowercaseString raw of
        None \<Rightarrow> None
      | Some normalized \<Rightarrow>
          (let resolved = coalesce (map_of (CHAT_CHANNEL_ALIASES entries) normalized) normalized
           in if resolved \<in> set (map fst entries) then Some resolved else None))"

definition normalizeRouteBindingChannelId :: "channel_catalog \<Rightarrow> string option \<Rightarrow> string option" where
  "normalizeRouteBindingChannelId entries raw =
     (let normalized = normalizeChatChannelId entries raw
      in if truthy_string normalized then normalized
         else (let fallback = normalizeLowercaseStringOrEmpty raw in if fallback = [] then None else Some fallback))"

subsection \<open>Scope of a binding\<close>

definition normalizeRouteBindingId :: "jsval \<Rightarrow> string" where
  "normalizeRouteBindingId v = (case v of JStr s \<Rightarrow> js_trim s | JNum n \<Rightarrow> js_trim n | _ \<Rightarrow> [])"

fun json_of_text :: "string option \<Rightarrow> jsval" where
  "json_of_text None = JUndefined"
| "json_of_text (Some s) = JStr s"

definition normalizeId :: "string option \<Rightarrow> string" where
  "normalizeId v = normalizeRouteBindingId (json_of_text v)"

definition normalizeRouteBindingRoles :: "string list option \<Rightarrow> string list option" where
  "normalizeRouteBindingRoles value = (case value of None \<Rightarrow> None | Some roles \<Rightarrow> if 0 < length roles then Some roles else None)"

record scope_constraint =
  ct_guild :: "string option"
  ct_team :: "string option"
  ct_roles :: "string list option"

record binding_scope =
  bs_guild :: "string option"
  bs_team :: "string option"
  bs_groupSpace :: "string option"
  bs_memberRoles :: "string list option"

definition scopeIdMatches :: "string option \<Rightarrow> string \<Rightarrow> string \<Rightarrow> bool" where
  "scopeIdMatches constraint exact groupSpace =
     (if \<not> truthy_string constraint then True else constraint = Some exact \<or> constraint = Some groupSpace)"

definition hasAnyRouteBindingRole :: "string list \<Rightarrow> string list option \<Rightarrow> bool" where
  "hasAnyRouteBindingRole roles memberRoleIds =
     (case memberRoleIds of None \<Rightarrow> False | Some members \<Rightarrow> list_ex (\<lambda>role. role \<in> set members) roles)"

definition routeBindingScopeMatches :: "scope_constraint \<Rightarrow> binding_scope \<Rightarrow> bool" where
  "routeBindingScopeMatches constraint scope =
     (let guildId = normalizeId (bs_guild scope); teamId = normalizeId (bs_team scope);
          groupSpace = normalizeId (bs_groupSpace scope)
      in if \<not> scopeIdMatches (ct_guild constraint) guildId groupSpace then False
         else if \<not> scopeIdMatches (ct_team constraint) teamId groupSpace then False
         else (case normalizeRouteBindingRoles (ct_roles constraint) of
                 None \<Rightarrow> True
               | Some roles \<Rightarrow> hasAnyRouteBindingRole roles (bs_memberRoles scope)))"

definition peerKindMatches :: "chat_type \<Rightarrow> chat_type \<Rightarrow> bool" where
  "peerKindMatches bindingKind scopeKind =
     (if bindingKind = scopeKind then True
      else bindingKind = Group \<and> scopeKind = Channel \<or> bindingKind = Channel \<and> scopeKind = Group)"

subsection \<open>Accounts named by bindings\<close>

record binding_account =
  ba_agent :: string
  ba_account :: string
  ba_channel :: string

definition resolveNormalizedRouteBindingMatch :: "channel_catalog \<Rightarrow> agent_binding \<Rightarrow> binding_account option" where
  "resolveNormalizedRouteBindingMatch entries binding =
     (case ab_match binding of
        None \<Rightarrow> None
      | Some m \<Rightarrow>
          (case normalizeRouteBindingChannelId entries (mc_channel m) of
             None \<Rightarrow> None
           | Some channelId \<Rightarrow>
               (let accountId = (case mc_account m of None \<Rightarrow> [] | Some a \<Rightarrow> js_trim a)
                in if accountId = [] \<or> accountId = ''*'' then None
                   else Some \<lparr>ba_agent = normalizeAgentId (Some (ab_agent binding)),
                              ba_account = normalizeAccountId (Some accountId), ba_channel = channelId\<rparr>)))"

text \<open>\<^verbatim>\<open>toSorted\<close> with a comparison that may call different texts equal keeps their order.\<close>

fun insert_sorted :: "('a \<Rightarrow> 'a \<Rightarrow> bool) \<Rightarrow> 'a \<Rightarrow> 'a list \<Rightarrow> 'a list" where
  "insert_sorted le x [] = [x]"
| "insert_sorted le x (y # ys) = (if le x y then x # y # ys else y # insert_sorted le x ys)"

definition to_sorted :: "('a \<Rightarrow> 'a \<Rightarrow> bool) \<Rightarrow> 'a list \<Rightarrow> 'a list" where
  "to_sorted le xs = foldr (insert_sorted le) xs []"

definition boundAccounts :: "channel_catalog \<Rightarrow> routing_config \<Rightarrow> binding_account list" where
  "boundAccounts entries cfg = List.map_filter (resolveNormalizedRouteBindingMatch entries) (listBindings cfg)"

definition listBoundAccountIds :: "channel_catalog \<Rightarrow> (string \<Rightarrow> string \<Rightarrow> bool) \<Rightarrow> routing_config \<Rightarrow> string \<Rightarrow> string list" where
  "listBoundAccountIds entries collates cfg channelId =
     (case normalizeRouteBindingChannelId entries (Some channelId) of
        None \<Rightarrow> []
      | Some normalizedChannel \<Rightarrow>
          to_sorted collates
            (uniqueIds [] (map ba_account (filter (\<lambda>r. ba_channel r = normalizedChannel) (boundAccounts entries cfg)))))"

definition resolveDefaultAgentBoundAccountId :: "channel_catalog \<Rightarrow> routing_config \<Rightarrow> string \<Rightarrow> string option" where
  "resolveDefaultAgentBoundAccountId entries cfg channelId =
     (case normalizeRouteBindingChannelId entries (Some channelId) of
        None \<Rightarrow> None
      | Some normalizedChannel \<Rightarrow>
          (let defaultAgentId = normalizeAgentId (Some (resolveDefaultAgentId cfg))
           in map_option ba_account
                (List.find (\<lambda>r. ba_channel r = normalizedChannel \<and> ba_agent r = defaultAgentId) (boundAccounts entries cfg))))"

type_synonym account_bindings = "(string, (string, string list) js_map) js_map"

definition addBoundAccount :: "binding_account \<Rightarrow> account_bindings \<Rightarrow> account_bindings" where
  "addBoundAccount r m =
     (let byAgent = coalesce (map_of m (ba_channel r)) [];
          known = coalesce (map_of byAgent (ba_agent r)) [];
          known1 = (if ba_account r \<in> set known then known else known @ [ba_account r])
      in AList.update (ba_channel r) (AList.update (ba_agent r) known1 byAgent) m)"

definition buildChannelAccountBindings :: "channel_catalog \<Rightarrow> routing_config \<Rightarrow> account_bindings" where
  "buildChannelAccountBindings entries cfg = fold addBoundAccount (boundAccounts entries cfg) []"

definition resolvePreferredAccountId :: "string list \<Rightarrow> string \<Rightarrow> string list \<Rightarrow> string" where
  "resolvePreferredAccountId accountIds defaultAccountId bound =
     (if 0 < length bound then bound ! 0 else defaultAccountId)"

subsection \<open>Lemmas\<close>

lemma uniqueIds_set: "set (uniqueIds seen xs) = set xs - set seen"
  by (induction xs arbitrary: seen) auto

lemma uniqueIds_distinct: "distinct (uniqueIds seen xs)"
  by (induction xs arbitrary: seen) (auto simp: uniqueIds_set)

lemma insert_sorted_mset: "mset (insert_sorted le x ys) = add_mset x (mset ys)"
  by (induction ys) auto

lemma to_sorted_mset: "mset (to_sorted le xs) = mset xs"
  by (induction xs) (simp_all add: to_sorted_def insert_sorted_mset)

lemma to_sorted_set: "set (to_sorted le xs) = set xs"
  using to_sorted_mset [of le xs] by (metis set_mset_mset)

lemma normalizeId_simps [simp]: "normalizeId None = []" "normalizeId (Some s) = js_trim s"
  by (simp_all add: normalizeId_def normalizeRouteBindingId_def)

lemma peerKindMatches_sym: "peerKindMatches j k = peerKindMatches k j"
  by (auto simp: peerKindMatches_def)

text \<open>The table of bound accounts holds for every channel and agent the accounts bound to them, in order.\<close>

lemma uniqueIds_snoc:
  "uniqueIds seen (xs @ [x]) = uniqueIds seen xs @ (if x \<in> set seen \<union> set xs then [] else [x])"
  by (induction xs arbitrary: seen) auto

lemma bound_table:
  "coalesce (map_of (coalesce (map_of (fold addBoundAccount rs []) channel) []) agent) [] =
   uniqueIds [] (map ba_account (filter (\<lambda>r. ba_channel r = channel \<and> ba_agent r = agent) rs))"
proof (induction rs rule: rev_induct)
  case (snoc r rs)
  show ?case
  proof (cases "ba_channel r = channel \<and> ba_agent r = agent")
    case True
    then show ?thesis using snoc
      by (auto simp: addBoundAccount_def Let_def update_conv' uniqueIds_snoc uniqueIds_set)
  next
    case False
    then show ?thesis using snoc by (cases "ba_channel r = channel") (auto simp: addBoundAccount_def Let_def update_conv')
  qed
qed simp

lemma channel_account_bindings:
  "coalesce (map_of (coalesce (map_of (buildChannelAccountBindings entries cfg) channel) []) agent) [] =
   uniqueIds [] (map ba_account (filter (\<lambda>r. ba_channel r = channel \<and> ba_agent r = agent) (boundAccounts entries cfg)))"
  unfolding buildChannelAccountBindings_def by (rule bound_table)

lemma default_account_is_bound:
  assumes "resolveDefaultAgentBoundAccountId entries cfg channelId = Some a"
  shows "a \<in> set (listBoundAccountIds entries collates cfg channelId)"
  using assms
  by (auto simp: resolveDefaultAgentBoundAccountId_def listBoundAccountIds_def Let_def to_sorted_set uniqueIds_set
      dest!: find_SomeD split: option.splits)

end
