(* ===== verification/ResolveRoute.thy ===== *)
theory ResolveRoute
  imports RouteBindings
begin

text \<open>
  Which agent answers a message and in which session: \<^verbatim>\<open>packages/core/src/routing/resolve-route.ts\<close>. The
  bindings of a channel and account are merged in configuration order and indexed by what they
  constrain; the tiers look only at their own part of the index. The caches around this are in RouteCache.

  \<open>index_agrees_with_scan\<close> shows that the index is an optimisation only: the binding found is the one
  a scan of the whole configuration finds, tier by tier and in configuration order.
\<close>

subsection \<open>Data\<close>

record route_peer =
  rp_kind :: chat_type
  rp_id :: string

datatype matched_by =
  BindingPeer | BindingPeerParent | BindingPeerWildcard | BindingGuildRoles | BindingGuild | BindingTeam
| BindingAccount | BindingChannel | MatchedDefault

datatype last_route_policy = LastMain | LastSession

record resolved_route =
  rt_agent :: string
  rt_channel :: string
  rt_account :: string
  rt_sessionKey :: string
  rt_mainSessionKey :: string
  rt_lastRoutePolicy :: last_route_policy
  rt_matchedBy :: matched_by

datatype peer_constraint = PeerNone | PeerInvalid | PeerWildcard chat_type | PeerValid chat_type string

record binding_match =
  bm_accountPattern :: string
  bm_peer :: peer_constraint
  bm_guild :: "string option"
  bm_team :: "string option"
  bm_roles :: "string list option"

record evaluated =
  ev_binding :: agent_binding
  ev_match :: binding_match
  ev_order :: nat

record route_scope =
  rs_peer :: "route_peer option"
  rs_guild :: string
  rs_team :: string
  rs_roles :: "string list"

record bindings_index =
  byPeer :: "(string, evaluated list) js_map"
  byPeerWildcard :: "evaluated list"
  byGuildWithRoles :: "(string, evaluated list) js_map"
  byGuild :: "(string, evaluated list) js_map"
  byTeam :: "(string, evaluated list) js_map"
  byAccount :: "evaluated list"
  byChannel :: "evaluated list"

record channel_bucket =
  bucketByAccount :: "(string, evaluated list) js_map"
  bucketAnyAccount :: "evaluated list"

text \<open>The input of a resolution.\<close>

record route_input =
  ri_channel :: string
  ri_account :: "string option"
  ri_peer :: "route_peer option"
  ri_parentPeer :: "route_peer option"
  ri_guild :: "string option"
  ri_team :: "string option"
  ri_roles :: "string list option"

subsection \<open>Agents and keys\<close>

definition deriveLastRoutePolicy :: "string \<Rightarrow> string \<Rightarrow> last_route_policy" where
  "deriveLastRoutePolicy sessionKey mainSessionKey = (if sessionKey = mainSessionKey then LastMain else LastSession)"

definition resolveInboundLastRouteSessionKey :: "resolved_route \<Rightarrow> string \<Rightarrow> string" where
  "resolveInboundLastRouteSessionKey route sessionKey =
     (if rt_lastRoutePolicy route = LastMain then rt_mainSessionKey route else sessionKey)"

definition buildAgentSessionKey ::
    "string \<Rightarrow> string \<Rightarrow> string option \<Rightarrow> route_peer option \<Rightarrow> dm_scope option \<Rightarrow> identity_links option \<Rightarrow> string" where
  "buildAgentSessionKey agentId channel0 accountId peer dmScope links =
     (let channel = text_or (normalizeToken (Some channel0)) ''unknown''
      in buildAgentPeerSessionKey
           \<lparr>pk_agent = Some agentId, pk_mainKey = Some DEFAULT_MAIN_KEY, pk_channel = channel, pk_account = accountId,
            pk_kind = Some (coalesce (map_option rp_kind peer) Direct),
            pk_peer = map_option (\<lambda>p. text_or (normalizeId (Some (rp_id p))) ''unknown'') peer,
            pk_links = links, pk_scope = dmScope\<rparr>)"

record agent_lookup =
  byNormalizedId :: "(string, string) js_map"
  fallbackDefaultAgentId :: string

definition agentLookup :: "routing_config \<Rightarrow> agent_lookup" where
  "agentLookup cfg =
     \<lparr>byNormalizedId =
        fold (\<lambda>agent m.
          let rawId = coalesce (map_option js_trim (ag_id agent)) []
          in if rawId = [] then m
             else AList.update (normalizeAgentId (Some rawId)) (sanitizeAgentId (Some rawId)) m) (listAgentEntries cfg) [],
      fallbackDefaultAgentId = sanitizeAgentId (Some (resolveDefaultAgentId cfg))\<rparr>"

definition pickFirstExistingAgentId :: "agent_lookup \<Rightarrow> string \<Rightarrow> string" where
  "pickFirstExistingAgentId lookup agentId =
     (let trimmed = js_trim agentId
      in if trimmed = [] then fallbackDefaultAgentId lookup
         else (let normalized = normalizeAgentId (Some trimmed)
               in if length (byNormalizedId lookup) = 0 then sanitizeAgentId (Some trimmed)
                  else (let resolved = map_of (byNormalizedId lookup) normalized
                        in if truthy_string resolved then coalesce resolved [] else fallbackDefaultAgentId lookup)))"

subsection \<open>Evaluating bindings\<close>

definition resolveAccountPatternKey :: "string \<Rightarrow> string" where
  "resolveAccountPatternKey accountPattern =
     (if js_trim accountPattern = [] then DEFAULT_ACCOUNT_ID else normalizeAccountId (Some accountPattern))"

definition normalizePeerConstraint :: "peer_config option \<Rightarrow> peer_constraint" where
  "normalizePeerConstraint peer =
     (case peer of
        None \<Rightarrow> PeerNone
      | Some p \<Rightarrow>
          (let kind = normalizeChatType (pc_kind p); i = normalizeId (pc_id p)
           in case kind of
                None \<Rightarrow> PeerInvalid
              | Some k \<Rightarrow> if i = [] then PeerInvalid else if i = ''*'' then PeerWildcard k else PeerValid k i))"

definition non_empty :: "string \<Rightarrow> string option" where
  "non_empty s = (if s = [] then None else Some s)"

definition normalizeBindingMatch :: "match_config option \<Rightarrow> binding_match" where
  "normalizeBindingMatch m =
     \<lparr>bm_accountPattern = js_trim (coalesce (Option.bind m mc_account) []),
      bm_peer = normalizePeerConstraint (Option.bind m mc_peer),
      bm_guild = non_empty (normalizeId (Option.bind m mc_guild)),
      bm_team = non_empty (normalizeId (Option.bind m mc_team)),
      bm_roles = normalizeRouteBindingRoles (Option.bind m mc_roles)\<rparr>"

definition bindingChannel :: "agent_binding \<Rightarrow> string" where
  "bindingChannel binding = normalizeToken (Option.bind (ab_match binding) mc_channel)"

definition addToBucket :: "string \<Rightarrow> evaluated \<Rightarrow> (string, channel_bucket) js_map \<Rightarrow> (string, channel_bucket) js_map" where
  "addToBucket channel e m =
     (let bucket = coalesce (map_of m channel) \<lparr>bucketByAccount = [], bucketAnyAccount = []\<rparr>
      in if bm_accountPattern (ev_match e) = ''*''
         then AList.update channel (bucket\<lparr>bucketAnyAccount := bucketAnyAccount bucket @ [e]\<rparr>) m
         else (let accountKey = resolveAccountPatternKey (bm_accountPattern (ev_match e));
                   existing = coalesce (map_of (bucketByAccount bucket) accountKey) []
               in AList.update channel
                    (bucket\<lparr>bucketByAccount := AList.update accountKey (existing @ [e]) (bucketByAccount bucket)\<rparr>) m))"

fun evaluateLoop :: "agent_binding list \<Rightarrow> nat \<Rightarrow> (string, channel_bucket) js_map \<Rightarrow> (string, channel_bucket) js_map" where
  "evaluateLoop [] order m = m"
| "evaluateLoop (b # bs) order m =
     (if bindingChannel b = [] then evaluateLoop bs order m
      else evaluateLoop bs (Suc order)
             (addToBucket (bindingChannel b) \<lparr>ev_binding = b, ev_match = normalizeBindingMatch (ab_match b), ev_order = order\<rparr> m))"

definition buildEvaluatedBindingsByChannel :: "routing_config \<Rightarrow> (string, channel_bucket) js_map" where
  "buildEvaluatedBindingsByChannel cfg = evaluateLoop (listBindings cfg) 0 []"

fun mergeEvaluatedBindingsInSourceOrder :: "evaluated list \<Rightarrow> evaluated list \<Rightarrow> evaluated list" where
  "mergeEvaluatedBindingsInSourceOrder [] anyAccount = anyAccount"
| "mergeEvaluatedBindingsInSourceOrder accountScoped [] = accountScoped"
| "mergeEvaluatedBindingsInSourceOrder (a # as) (b # bs) =
     (if ev_order a \<le> ev_order b then a # mergeEvaluatedBindingsInSourceOrder as (b # bs)
      else b # mergeEvaluatedBindingsInSourceOrder (a # as) bs)"

definition evaluatedBindings :: "(string, channel_bucket) js_map \<Rightarrow> string \<Rightarrow> string \<Rightarrow> evaluated list" where
  "evaluatedBindings m channel accountId =
     (let bucket = map_of m channel;
          accountScoped = coalesce (Option.bind bucket (\<lambda>b. map_of (bucketByAccount b) accountId)) [];
          anyAccount = coalesce (map_option bucketAnyAccount bucket) []
      in mergeEvaluatedBindingsInSourceOrder accountScoped anyAccount)"

subsection \<open>The index\<close>

definition pushToIndexMap :: "string option \<Rightarrow> evaluated \<Rightarrow> (string, evaluated list) js_map \<Rightarrow> (string, evaluated list) js_map" where
  "pushToIndexMap key e m =
     (if \<not> truthy_string key then m
      else AList.update (coalesce key []) (coalesce (map_of m (coalesce key [])) [] @ [e]) m)"

definition peerLookupKeys :: "chat_type \<Rightarrow> string \<Rightarrow> string list" where
  "peerLookupKeys kind i =
     (case kind of
        Group \<Rightarrow> [''group:'' @ i, ''channel:'' @ i]
      | Channel \<Rightarrow> [''channel:'' @ i, ''group:'' @ i]
      | Direct \<Rightarrow> [chat_type_name kind @ '':'' @ i])"

text \<open>The bindings of the peer's keys, each object once; two evaluated bindings are the same object when they
  are equal, since each has an order of its own.\<close>

fun keepUnseen :: "evaluated list \<Rightarrow> evaluated list \<Rightarrow> evaluated list" where
  "keepUnseen seen [] = []"
| "keepUnseen seen (e # es) = (if e \<in> set seen then keepUnseen seen es else e # keepUnseen (e # seen) es)"

definition collectPeerIndexedBindings :: "bindings_index \<Rightarrow> route_peer option \<Rightarrow> evaluated list" where
  "collectPeerIndexedBindings index peer =
     (case peer of
        None \<Rightarrow> []
      | Some p \<Rightarrow>
          keepUnseen [] (concat (map (\<lambda>key. coalesce (map_of (byPeer index) key) []) (peerLookupKeys (rp_kind p) (rp_id p)))))"

definition emptyIndex :: bindings_index where
  "emptyIndex = \<lparr>byPeer = [], byPeerWildcard = [], byGuildWithRoles = [], byGuild = [], byTeam = [], byAccount = [], byChannel = []\<rparr>"

definition indexBinding :: "evaluated \<Rightarrow> bindings_index \<Rightarrow> bindings_index" where
  "indexBinding e index =
     (let m = ev_match e
      in case bm_peer m of
           PeerValid kind i \<Rightarrow> index\<lparr>byPeer := fold (\<lambda>key. pushToIndexMap (Some key) e) (peerLookupKeys kind i) (byPeer index)\<rparr>
         | PeerWildcard kind \<Rightarrow> index\<lparr>byPeerWildcard := byPeerWildcard index @ [e]\<rparr>
         | _ \<Rightarrow>
             if truthy_string (bm_guild m) \<and> bm_roles m \<noteq> None
             then index\<lparr>byGuildWithRoles := pushToIndexMap (bm_guild m) e (byGuildWithRoles index)\<rparr>
             else if truthy_string (bm_guild m) \<and> bm_roles m = None
             then index\<lparr>byGuild := pushToIndexMap (bm_guild m) e (byGuild index)\<rparr>
             else if truthy_string (bm_team m) then index\<lparr>byTeam := pushToIndexMap (bm_team m) e (byTeam index)\<rparr>
             else if bm_accountPattern m \<noteq> ''*'' then index\<lparr>byAccount := byAccount index @ [e]\<rparr>
             else index\<lparr>byChannel := byChannel index @ [e]\<rparr>)"

definition buildEvaluatedBindingsIndex :: "evaluated list \<Rightarrow> bindings_index" where
  "buildEvaluatedBindingsIndex bindings = fold indexBinding bindings emptyIndex"

subsection \<open>Tiers\<close>

definition hasGuildConstraint :: "binding_match \<Rightarrow> bool" where
  "hasGuildConstraint m = truthy_string (bm_guild m)"

definition hasTeamConstraint :: "binding_match \<Rightarrow> bool" where
  "hasTeamConstraint m = truthy_string (bm_team m)"

definition hasRolesConstraint :: "binding_match \<Rightarrow> bool" where
  "hasRolesConstraint m = (bm_roles m \<noteq> None)"

definition constraintOf :: "binding_match \<Rightarrow> scope_constraint" where
  "constraintOf m = \<lparr>ct_guild = bm_guild m, ct_team = bm_team m, ct_roles = bm_roles m\<rparr>"

definition scopeOf :: "route_scope \<Rightarrow> binding_scope" where
  "scopeOf s = \<lparr>bs_guild = Some (rs_guild s), bs_team = Some (rs_team s), bs_groupSpace = None, bs_memberRoles = Some (rs_roles s)\<rparr>"

definition matchesBindingScope :: "binding_match \<Rightarrow> route_scope \<Rightarrow> bool" where
  "matchesBindingScope m scope =
     (case bm_peer m of
        PeerInvalid \<Rightarrow> False
      | PeerValid kind i \<Rightarrow>
          (case rs_peer scope of None \<Rightarrow> False
           | Some p \<Rightarrow> peerKindMatches kind (rp_kind p) \<and> rp_id p = i \<and> routeBindingScopeMatches (constraintOf m) (scopeOf scope))
      | PeerWildcard kind \<Rightarrow>
          (case rs_peer scope of None \<Rightarrow> False
           | Some p \<Rightarrow> peerKindMatches kind (rp_kind p) \<and> routeBindingScopeMatches (constraintOf m) (scopeOf scope))
      | PeerNone \<Rightarrow> routeBindingScopeMatches (constraintOf m) (scopeOf scope))"

text \<open>The normalised input.\<close>

record route_query =
  rq_channel :: string
  rq_account :: string
  rq_peer :: "route_peer option"
  rq_parentPeer :: "route_peer option"
  rq_guild :: string
  rq_team :: string
  rq_roles :: "string list"

definition normalizeRoutePeer :: "route_peer option \<Rightarrow> route_peer option" where
  "normalizeRoutePeer peer =
     map_option (\<lambda>p. \<lparr>rp_kind = coalesce (normalizeChatType (Some (chat_type_name (rp_kind p)))) (rp_kind p),
                       rp_id = normalizeId (Some (rp_id p))\<rparr>) peer"

definition routeQuery :: "route_input \<Rightarrow> route_query" where
  "routeQuery input =
     \<lparr>rq_channel = normalizeToken (Some (ri_channel input)), rq_account = normalizeAccountId (ri_account input),
      rq_peer = normalizeRoutePeer (ri_peer input), rq_parentPeer = normalizeRoutePeer (ri_parentPeer input),
      rq_guild = normalizeId (ri_guild input), rq_team = normalizeId (ri_team input), rq_roles = coalesce (ri_roles input) []\<rparr>"

record tier =
  tr_matchedBy :: matched_by
  tr_enabled :: bool
  tr_scopePeer :: "route_peer option"
  tr_candidates :: "evaluated list"
  tr_predicate :: "binding_match \<Rightarrow> bool"

fun isValidPeer :: "peer_constraint \<Rightarrow> bool" where
  "isValidPeer (PeerValid k i) = True"
| "isValidPeer _ = False"

fun isWildcardPeer :: "peer_constraint \<Rightarrow> bool" where
  "isWildcardPeer (PeerWildcard k) = True"
| "isWildcardPeer _ = False"

definition namedPeer :: "route_peer option \<Rightarrow> route_peer option" where
  "namedPeer peer = (case peer of Some p \<Rightarrow> if rp_id p \<noteq> [] then Some p else None | None \<Rightarrow> None)"

definition tiers :: "bindings_index \<Rightarrow> route_query \<Rightarrow> tier list" where
  "tiers index q =
     (let guildId = rq_guild q; teamId = rq_team q; peer = rq_peer q; parentPeer = rq_parentPeer q
      in [\<lparr>tr_matchedBy = BindingPeer, tr_enabled = (peer \<noteq> None), tr_scopePeer = peer,
           tr_candidates = collectPeerIndexedBindings index peer, tr_predicate = (\<lambda>m. isValidPeer (bm_peer m))\<rparr>,
          \<lparr>tr_matchedBy = BindingPeerParent, tr_enabled = (namedPeer parentPeer \<noteq> None), tr_scopePeer = namedPeer parentPeer,
           tr_candidates = collectPeerIndexedBindings index parentPeer, tr_predicate = (\<lambda>m. isValidPeer (bm_peer m))\<rparr>,
          \<lparr>tr_matchedBy = BindingPeerWildcard, tr_enabled = (peer \<noteq> None), tr_scopePeer = peer,
           tr_candidates = byPeerWildcard index, tr_predicate = (\<lambda>m. isWildcardPeer (bm_peer m))\<rparr>,
          \<lparr>tr_matchedBy = BindingGuildRoles, tr_enabled = (guildId \<noteq> [] \<and> 0 < length (rq_roles q)), tr_scopePeer = peer,
           tr_candidates = (if guildId = [] then [] else coalesce (map_of (byGuildWithRoles index) guildId) []),
           tr_predicate = (\<lambda>m. hasGuildConstraint m \<and> hasRolesConstraint m)\<rparr>,
          \<lparr>tr_matchedBy = BindingGuild, tr_enabled = (guildId \<noteq> []), tr_scopePeer = peer,
           tr_candidates = (if guildId = [] then [] else coalesce (map_of (byGuild index) guildId) []),
           tr_predicate = (\<lambda>m. hasGuildConstraint m \<and> \<not> hasRolesConstraint m)\<rparr>,
          \<lparr>tr_matchedBy = BindingTeam, tr_enabled = (teamId \<noteq> []), tr_scopePeer = peer,
           tr_candidates = (if teamId = [] then [] else coalesce (map_of (byTeam index) teamId) []),
           tr_predicate = hasTeamConstraint\<rparr>,
          \<lparr>tr_matchedBy = BindingAccount, tr_enabled = True, tr_scopePeer = peer,
           tr_candidates = byAccount index, tr_predicate = (\<lambda>m. bm_accountPattern m \<noteq> ''*'')\<rparr>,
          \<lparr>tr_matchedBy = BindingChannel, tr_enabled = True, tr_scopePeer = peer,
           tr_candidates = byChannel index, tr_predicate = (\<lambda>m. bm_accountPattern m = ''*'')\<rparr>])"

definition scopeFor :: "route_query \<Rightarrow> route_peer option \<Rightarrow> route_scope" where
  "scopeFor q peer = \<lparr>rs_peer = peer, rs_guild = rq_guild q, rs_team = rq_team q, rs_roles = rq_roles q\<rparr>"

fun firstTierMatch :: "tier list \<Rightarrow> route_query \<Rightarrow> (matched_by \<times> evaluated) option" where
  "firstTierMatch [] q = None"
| "firstTierMatch (t # ts) q =
     (if \<not> tr_enabled t then firstTierMatch ts q
      else (case List.find (\<lambda>e. tr_predicate t (ev_match e) \<and> matchesBindingScope (ev_match e) (scopeFor q (tr_scopePeer t)))
                   (tr_candidates t) of
              Some e \<Rightarrow> Some (tr_matchedBy t, e)
            | None \<Rightarrow> firstTierMatch ts q))"

definition chooseRoute :: "routing_config \<Rightarrow> agent_lookup \<Rightarrow> route_query \<Rightarrow> string \<Rightarrow> matched_by \<Rightarrow> dm_scope option \<Rightarrow> resolved_route" where
  "chooseRoute cfg lookup q agentId matchedBy sessionOverride =
     (let resolvedAgentId = pickFirstExistingAgentId lookup agentId;
          dmScope = coalesce (Option.bind (cfg_session cfg) sc_dmScope) ScopeMain;
          effectiveDmScope = coalesce sessionOverride dmScope;
          sessionKey = normalizeLowercaseStringOrEmpty (Some
            (buildAgentSessionKey resolvedAgentId (rq_channel q) (Some (rq_account q)) (rq_peer q) (Some effectiveDmScope)
              (Option.bind (cfg_session cfg) sc_identityLinks)));
          mainSessionKey = normalizeLowercaseStringOrEmpty (Some
            (buildAgentMainSessionKey (Some resolvedAgentId) (Some DEFAULT_MAIN_KEY)))
      in \<lparr>rt_agent = resolvedAgentId, rt_channel = rq_channel q, rt_account = rq_account q, rt_sessionKey = sessionKey,
          rt_mainSessionKey = mainSessionKey, rt_lastRoutePolicy = deriveLastRoutePolicy sessionKey mainSessionKey,
          rt_matchedBy = matchedBy\<rparr>)"

definition routeFromMatch :: "routing_config \<Rightarrow> agent_lookup \<Rightarrow> route_query \<Rightarrow> (matched_by \<times> evaluated) option \<Rightarrow> resolved_route" where
  "routeFromMatch cfg lookup q found =
     (case found of
        Some (matchedBy, e) \<Rightarrow> chooseRoute cfg lookup q (ab_agent (ev_binding e)) matchedBy (ab_dmScope (ev_binding e))
      | None \<Rightarrow> chooseRoute cfg lookup q (resolveDefaultAgentId cfg) MatchedDefault None)"

text \<open>A resolution without the caches.\<close>

definition resolveUncached :: "routing_config \<Rightarrow> route_query \<Rightarrow> resolved_route" where
  "resolveUncached cfg q =
     (let bindings = evaluatedBindings (buildEvaluatedBindingsByChannel cfg) (rq_channel q) (rq_account q);
          index = buildEvaluatedBindingsIndex bindings
      in routeFromMatch cfg (agentLookup cfg) q (firstTierMatch (tiers index q) q))"

subsection \<open>The reference: a scan of the configuration\<close>

text \<open>All evaluated bindings in configuration order, those that concern a channel and account, and the tier each
  belongs to by what it constrains. The first tier with a binding that matches the message decides, and
  within it the first such binding; a binding for a peer is tried on the peer first and then on the parent of its thread.\<close>

fun evaluateAll :: "agent_binding list \<Rightarrow> nat \<Rightarrow> evaluated list" where
  "evaluateAll [] order = []"
| "evaluateAll (b # bs) order =
     (if bindingChannel b = [] then evaluateAll bs order
      else \<lparr>ev_binding = b, ev_match = normalizeBindingMatch (ab_match b), ev_order = order\<rparr> # evaluateAll bs (Suc order))"

definition concerns :: "string \<Rightarrow> string \<Rightarrow> evaluated \<Rightarrow> bool" where
  "concerns channel accountId e \<longleftrightarrow> bindingChannel (ev_binding e) = channel \<and>
     (bm_accountPattern (ev_match e) = ''*'' \<or> resolveAccountPatternKey (bm_accountPattern (ev_match e)) = accountId)"

definition tierOf :: "binding_match \<Rightarrow> matched_by" where
  "tierOf m =
     (if isValidPeer (bm_peer m) then BindingPeer
      else if isWildcardPeer (bm_peer m) then BindingPeerWildcard
      else if hasGuildConstraint m then (if hasRolesConstraint m then BindingGuildRoles else BindingGuild)
      else if hasTeamConstraint m then BindingTeam
      else if bm_accountPattern m \<noteq> ''*'' then BindingAccount else BindingChannel)"

definition scanOrder :: "route_query \<Rightarrow> (matched_by \<times> matched_by \<times> route_peer option) list" where
  "scanOrder q =
     [(BindingPeer, BindingPeer, rq_peer q), (BindingPeerParent, BindingPeer, namedPeer (rq_parentPeer q)),
      (BindingPeerWildcard, BindingPeerWildcard, rq_peer q), (BindingGuildRoles, BindingGuildRoles, rq_peer q),
      (BindingGuild, BindingGuild, rq_peer q), (BindingTeam, BindingTeam, rq_peer q),
      (BindingAccount, BindingAccount, rq_peer q), (BindingChannel, BindingChannel, rq_peer q)]"

fun scan :: "(matched_by \<times> matched_by \<times> route_peer option) list \<Rightarrow> evaluated list \<Rightarrow> route_query
    \<Rightarrow> (matched_by \<times> evaluated) option" where
  "scan [] es q = None"
| "scan ((label, tier, peer) # ts) es q =
     (case List.find (\<lambda>e. tierOf (ev_match e) = tier \<and> matchesBindingScope (ev_match e) (scopeFor q peer)) es of
        Some e \<Rightarrow> Some (label, e)
      | None \<Rightarrow> scan ts es q)"

definition scanBindings :: "routing_config \<Rightarrow> route_query \<Rightarrow> (matched_by \<times> evaluated) option" where
  "scanBindings cfg q =
     scan (scanOrder q) (filter (concerns (rq_channel q) (rq_account q)) (evaluateAll (listBindings cfg) 0)) q"

subsection \<open>Merging gives the bindings in configuration order\<close>

lemma evaluateAll_order: "e \<in> set (evaluateAll bs n) \<Longrightarrow> n \<le> ev_order e"
  by (induction bs arbitrary: n) (force split: if_splits)+

lemma evaluateAll_sorted: "sorted_wrt (\<lambda>a b. ev_order a < ev_order b) (evaluateAll bs n)"
  by (induction bs arbitrary: n) (auto dest: evaluateAll_order)

lemma evaluateAll_channel: "e \<in> set (evaluateAll bs n) \<Longrightarrow> bindingChannel (ev_binding e) \<noteq> []"
  by (induction bs arbitrary: n) (auto split: if_splits)

lemma merge_Nil [simp]: "mergeEvaluatedBindingsInSourceOrder as [] = as"
  by (cases as) auto

lemma merge_first:
  "\<forall>b \<in> set bs. ev_order a < ev_order b \<Longrightarrow>
   mergeEvaluatedBindingsInSourceOrder (a # as) bs = a # mergeEvaluatedBindingsInSourceOrder as bs"
  by (cases bs) auto

lemma merge_second:
  "\<forall>a \<in> set as. ev_order b < ev_order a \<Longrightarrow>
   mergeEvaluatedBindingsInSourceOrder as (b # bs) = b # mergeEvaluatedBindingsInSourceOrder as bs"
  by (cases as) auto

lemma merge_filters:
  assumes "sorted_wrt (\<lambda>a b. ev_order a < ev_order b) es" and "\<And>e. \<not> (P e \<and> Q e)"
  shows "mergeEvaluatedBindingsInSourceOrder (filter P es) (filter Q es) = filter (\<lambda>e. P e \<or> Q e) es"
  using assms(1)
proof (induction es)
  case (Cons e es)
  show ?case
  proof (cases "P e")
    case True
    then show ?thesis using Cons assms(2) [of e] by (simp add: merge_first)
  next
    case False
    then show ?thesis using Cons by (simp add: merge_second)
  qed
qed simp

definition bucketOf :: "(string, channel_bucket) js_map \<Rightarrow> string \<Rightarrow> channel_bucket" where
  "bucketOf m channel = coalesce (map_of m channel) \<lparr>bucketByAccount = [], bucketAnyAccount = []\<rparr>"

lemma evaluateLoop_buckets:
  "bucketAnyAccount (bucketOf (evaluateLoop bs n m) ch) = bucketAnyAccount (bucketOf m ch) @
     filter (\<lambda>e. bindingChannel (ev_binding e) = ch \<and> bm_accountPattern (ev_match e) = ''*'') (evaluateAll bs n) \<and>
   coalesce (map_of (bucketByAccount (bucketOf (evaluateLoop bs n m) ch)) acc) [] =
     coalesce (map_of (bucketByAccount (bucketOf m ch)) acc) [] @
     filter (\<lambda>e. bindingChannel (ev_binding e) = ch \<and> bm_accountPattern (ev_match e) \<noteq> ''*'' \<and>
       resolveAccountPatternKey (bm_accountPattern (ev_match e)) = acc) (evaluateAll bs n)"
proof (induction bs arbitrary: n m)
  case (Cons b bs)
  then show ?case by (auto simp: addToBucket_def bucketOf_def update_conv' Let_def)
qed simp

lemma evaluated_in_order:
  "evaluatedBindings (buildEvaluatedBindingsByChannel cfg) channel accountId =
   filter (concerns channel accountId) (evaluateAll (listBindings cfg) 0)"
proof -
  let ?es = "evaluateAll (listBindings cfg) 0" and ?m = "buildEvaluatedBindingsByChannel cfg"
  have "evaluatedBindings ?m channel accountId =
      mergeEvaluatedBindingsInSourceOrder (coalesce (map_of (bucketByAccount (bucketOf ?m channel)) accountId) [])
        (bucketAnyAccount (bucketOf ?m channel))"
    by (cases "map_of ?m channel") (simp_all add: evaluatedBindings_def bucketOf_def Let_def)
  also have "\<dots> = mergeEvaluatedBindingsInSourceOrder
      (filter (\<lambda>e. bindingChannel (ev_binding e) = channel \<and> bm_accountPattern (ev_match e) \<noteq> ''*'' \<and>
        resolveAccountPatternKey (bm_accountPattern (ev_match e)) = accountId) ?es)
      (filter (\<lambda>e. bindingChannel (ev_binding e) = channel \<and> bm_accountPattern (ev_match e) = ''*'') ?es)"
    using evaluateLoop_buckets [of "listBindings cfg" 0 "[]" channel accountId]
    by (simp add: buildEvaluatedBindingsByChannel_def bucketOf_def)
  also have "\<dots> = filter (\<lambda>e. bindingChannel (ev_binding e) = channel \<and> bm_accountPattern (ev_match e) \<noteq> ''*'' \<and>
        resolveAccountPatternKey (bm_accountPattern (ev_match e)) = accountId \<or>
        bindingChannel (ev_binding e) = channel \<and> bm_accountPattern (ev_match e) = ''*'') ?es"
    by (rule merge_filters [OF evaluateAll_sorted]) simp
  also have "\<dots> = filter (concerns channel accountId) ?es" by (rule filter_cong) (auto simp: concerns_def)
  finally show ?thesis .
qed

subsection \<open>What the index holds\<close>

lemma push_lookup:
  "coalesce (map_of (pushToIndexMap key e m) k) [] = coalesce (map_of m k) [] @ (if key = Some k \<and> k \<noteq> [] then [e] else [])"
  by (cases key) (auto simp: pushToIndexMap_def update_conv')

lemma peerLookupKeys_in: "k \<in> set (peerLookupKeys kind i) \<longleftrightarrow> (\<exists>j. peerKindMatches kind j \<and> k = chat_type_name j @ '':'' @ i)"
proof -
  have "(\<exists>j. P j) \<longleftrightarrow> P Direct \<or> P Group \<or> P Channel" for P :: "chat_type \<Rightarrow> bool" by (metis chat_type.exhaust)
  then show ?thesis by (cases kind) (auto simp: peerLookupKeys_def peerKindMatches_def)
qed

lemma push_peer_keys:
  "coalesce (map_of (fold (\<lambda>key. pushToIndexMap (Some key) e) (peerLookupKeys kind i) m) k) [] =
   coalesce (map_of m k) [] @ (if k \<in> set (peerLookupKeys kind i) then [e] else [])"
  by (cases kind) (auto simp: peerLookupKeys_def push_lookup)

definition hasPeerKey :: "string \<Rightarrow> evaluated \<Rightarrow> bool" where
  "hasPeerKey k e = (case bm_peer (ev_match e) of PeerValid kind i \<Rightarrow> k \<in> set (peerLookupKeys kind i) | _ \<Rightarrow> False)"

lemma index_step:
  "coalesce (map_of (byPeer (indexBinding e ix)) k) [] = coalesce (map_of (byPeer ix) k) [] @ (if hasPeerKey k e then [e] else [])"
  "byPeerWildcard (indexBinding e ix) = byPeerWildcard ix @ (if tierOf (ev_match e) = BindingPeerWildcard then [e] else [])"
  "k \<noteq> [] \<Longrightarrow> coalesce (map_of (byGuildWithRoles (indexBinding e ix)) k) [] = coalesce (map_of (byGuildWithRoles ix) k) [] @
     (if tierOf (ev_match e) = BindingGuildRoles \<and> bm_guild (ev_match e) = Some k then [e] else [])"
  "k \<noteq> [] \<Longrightarrow> coalesce (map_of (byGuild (indexBinding e ix)) k) [] = coalesce (map_of (byGuild ix) k) [] @
     (if tierOf (ev_match e) = BindingGuild \<and> bm_guild (ev_match e) = Some k then [e] else [])"
  "k \<noteq> [] \<Longrightarrow> coalesce (map_of (byTeam (indexBinding e ix)) k) [] = coalesce (map_of (byTeam ix) k) [] @
     (if tierOf (ev_match e) = BindingTeam \<and> bm_team (ev_match e) = Some k then [e] else [])"
  "byAccount (indexBinding e ix) = byAccount ix @ (if tierOf (ev_match e) = BindingAccount then [e] else [])"
  "byChannel (indexBinding e ix) = byChannel ix @ (if tierOf (ev_match e) = BindingChannel then [e] else [])"
proof -
  note all = indexBinding_def Let_def tierOf_def hasPeerKey_def hasGuildConstraint_def hasTeamConstraint_def
    hasRolesConstraint_def push_lookup push_peer_keys
  show "coalesce (map_of (byPeer (indexBinding e ix)) k) [] = coalesce (map_of (byPeer ix) k) [] @ (if hasPeerKey k e then [e] else [])"
    by (cases "bm_peer (ev_match e)") (simp_all add: all)
  show "byPeerWildcard (indexBinding e ix) = byPeerWildcard ix @ (if tierOf (ev_match e) = BindingPeerWildcard then [e] else [])"
    by (cases "bm_peer (ev_match e)") (simp_all add: all)
  show "coalesce (map_of (byGuildWithRoles (indexBinding e ix)) k) [] = coalesce (map_of (byGuildWithRoles ix) k) [] @
     (if tierOf (ev_match e) = BindingGuildRoles \<and> bm_guild (ev_match e) = Some k then [e] else [])" if "k \<noteq> []"
    using that by (cases "bm_peer (ev_match e)") (auto simp: all)
  show "coalesce (map_of (byGuild (indexBinding e ix)) k) [] = coalesce (map_of (byGuild ix) k) [] @
     (if tierOf (ev_match e) = BindingGuild \<and> bm_guild (ev_match e) = Some k then [e] else [])" if "k \<noteq> []"
    using that by (cases "bm_peer (ev_match e)") (auto simp: all)
  show "coalesce (map_of (byTeam (indexBinding e ix)) k) [] = coalesce (map_of (byTeam ix) k) [] @
     (if tierOf (ev_match e) = BindingTeam \<and> bm_team (ev_match e) = Some k then [e] else [])" if "k \<noteq> []"
    using that by (cases "bm_peer (ev_match e)") (auto simp: all)
  show "byAccount (indexBinding e ix) = byAccount ix @ (if tierOf (ev_match e) = BindingAccount then [e] else [])"
    by (cases "bm_peer (ev_match e)") (simp_all add: all)
  show "byChannel (indexBinding e ix) = byChannel ix @ (if tierOf (ev_match e) = BindingChannel then [e] else [])"
    by (cases "bm_peer (ev_match e)") (simp_all add: all)
qed

lemma index_holds:
  "coalesce (map_of (byPeer (buildEvaluatedBindingsIndex es)) k) [] = filter (hasPeerKey k) es \<and>
   byPeerWildcard (buildEvaluatedBindingsIndex es) = filter (\<lambda>e. tierOf (ev_match e) = BindingPeerWildcard) es \<and>
   (k \<noteq> [] \<longrightarrow>
     coalesce (map_of (byGuildWithRoles (buildEvaluatedBindingsIndex es)) k) [] =
       filter (\<lambda>e. tierOf (ev_match e) = BindingGuildRoles \<and> bm_guild (ev_match e) = Some k) es \<and>
     coalesce (map_of (byGuild (buildEvaluatedBindingsIndex es)) k) [] =
       filter (\<lambda>e. tierOf (ev_match e) = BindingGuild \<and> bm_guild (ev_match e) = Some k) es \<and>
     coalesce (map_of (byTeam (buildEvaluatedBindingsIndex es)) k) [] =
       filter (\<lambda>e. tierOf (ev_match e) = BindingTeam \<and> bm_team (ev_match e) = Some k) es) \<and>
   byAccount (buildEvaluatedBindingsIndex es) = filter (\<lambda>e. tierOf (ev_match e) = BindingAccount) es \<and>
   byChannel (buildEvaluatedBindingsIndex es) = filter (\<lambda>e. tierOf (ev_match e) = BindingChannel) es"
proof (induction es rule: rev_induct)
  case Nil
  then show ?case by (simp add: buildEvaluatedBindingsIndex_def emptyIndex_def)
next
  case (snoc e es)
  have "buildEvaluatedBindingsIndex (es @ [e]) = indexBinding e (buildEvaluatedBindingsIndex es)"
    by (simp add: buildEvaluatedBindingsIndex_def)
  then show ?case using snoc by (simp add: index_step)
qed

subsection \<open>The index agrees with the scan\<close>

lemma find_filter: "List.find P (filter Q xs) = List.find (\<lambda>x. Q x \<and> P x) xs"
  by (induction xs) auto

lemma find_fun_cong: "(\<And>x. x \<in> set xs \<Longrightarrow> P x = Q x) \<Longrightarrow> List.find P xs = List.find Q xs"
  by (induction xs) auto

lemma find_append: "List.find P (xs @ ys) = (case List.find P xs of None \<Rightarrow> List.find P ys | Some x \<Rightarrow> Some x)"
  by (induction xs) auto

lemma find_none: "(\<And>x. x \<in> set xs \<Longrightarrow> \<not> P x) \<Longrightarrow> List.find P xs = None"
  by (induction xs) auto

lemma find_keepUnseen: "\<forall>e \<in> set seen. \<not> P e \<Longrightarrow> List.find P (keepUnseen seen es) = List.find P es"
  by (induction es arbitrary: seen) auto

lemma peer_key_matches:
  assumes "isValidPeer (bm_peer m)" and "matchesBindingScope m (scopeFor q (Some p))" and "m = ev_match e"
  shows "\<forall>key \<in> set (peerLookupKeys (rp_kind p) (rp_id p)). hasPeerKey key e"
proof -
  obtain kind i where "bm_peer m = PeerValid kind i" using assms(1) by (cases "bm_peer m") auto
  then show ?thesis using assms(2, 3)
    by (cases kind; cases "rp_kind p")
      (auto simp: matchesBindingScope_def scopeFor_def hasPeerKey_def peerLookupKeys_def peerKindMatches_def)
qed

lemma find_peer_tier:
  assumes "\<And>e. P e \<Longrightarrow> isValidPeer (bm_peer (ev_match e)) \<and> matchesBindingScope (ev_match e) (scopeFor q (Some p))"
  shows "List.find P (collectPeerIndexedBindings (buildEvaluatedBindingsIndex es) (Some p)) = List.find P es"
proof -
  let ?held = "\<lambda>key. coalesce (map_of (byPeer (buildEvaluatedBindingsIndex es)) key) []"
  have held: "List.find P (?held key) = List.find P es" if "key \<in> set (peerLookupKeys (rp_kind p) (rp_id p))" for key
  proof -
    have "List.find P (?held key) = List.find (\<lambda>e. hasPeerKey key e \<and> P e) es"
      using index_holds [of es key] by (simp add: find_filter)
    also have "\<dots> = List.find P es"
      using assms peer_key_matches that by (intro find_fun_cong) blast
    finally show ?thesis .
  qed
  have "List.find P (concat (map ?held keys)) = List.find P es"
    if "keys \<noteq> []" "set keys \<subseteq> set (peerLookupKeys (rp_kind p) (rp_id p))" for keys
    using that
  proof (induction keys)
    case (Cons key keys)
    then show ?case by (cases "keys = []") (auto simp: find_append held split: option.split)
  qed simp
  moreover have "peerLookupKeys (rp_kind p) (rp_id p) \<noteq> []"
    by (cases "rp_kind p") (simp_all add: peerLookupKeys_def)
  ultimately show ?thesis by (simp add: collectPeerIndexedBindings_def find_keepUnseen)
qed

lemma evaluateAll_match: "e \<in> set (evaluateAll bs n) \<Longrightarrow> \<exists>m. ev_match e = normalizeBindingMatch m"
  by (induction bs arbitrary: n) (auto split: if_splits)

lemma normal_match:
  "bm_guild (normalizeBindingMatch m) \<noteq> Some []" "bm_team (normalizeBindingMatch m) \<noteq> Some []"
  "bm_roles (normalizeBindingMatch m) \<noteq> Some []"
  by (auto simp: normalizeBindingMatch_def non_empty_def normalizeRouteBindingRoles_def split: option.splits if_splits)

lemma tierOf_peer: "tierOf m = BindingPeer \<longleftrightarrow> isValidPeer (bm_peer m)"
  "tierOf m = BindingPeerWildcard \<longleftrightarrow> isWildcardPeer (bm_peer m)"
  by (cases "bm_peer m"; simp add: tierOf_def)+

lemma matches_guild:
  "matchesBindingScope m (scopeFor q p) \<Longrightarrow> bm_guild m = Some g \<Longrightarrow> g \<noteq> [] \<Longrightarrow> g = js_trim (rq_guild q)"
  "matchesBindingScope m (scopeFor q p) \<Longrightarrow> bm_team m = Some g \<Longrightarrow> g \<noteq> [] \<Longrightarrow> g = js_trim (rq_team q)"
  "matchesBindingScope m (scopeFor q p) \<Longrightarrow> bm_roles m = Some rs \<Longrightarrow> rs \<noteq> [] \<Longrightarrow> rq_roles q \<noteq> []"
  by (auto simp: matchesBindingScope_def scopeFor_def constraintOf_def scopeOf_def routeBindingScopeMatches_def scopeIdMatches_def
      normalizeRouteBindingRoles_def hasAnyRouteBindingRole_def Let_def list_ex_iff split: peer_constraint.splits option.splits if_splits)

lemma no_peer_no_match:
  "tierOf m \<in> {BindingPeer, BindingPeerWildcard} \<Longrightarrow> \<not> matchesBindingScope m (scopeFor q None)"
  by (cases "bm_peer m") (auto simp: matchesBindingScope_def scopeFor_def tierOf_def split: if_splits)

lemma find_tier:
  assumes "\<And>e. e \<in> set es \<Longrightarrow> R e \<Longrightarrow> P e \<and> Q e" "\<And>e. e \<in> set es \<Longrightarrow> P e \<and> Q e \<Longrightarrow> R e"
  shows "List.find P (filter Q es) = List.find R es"
  unfolding find_filter using assms by (intro find_fun_cong) blast

text \<open>A binding that belongs to a tier and matches the message.\<close>

definition hits :: "route_query \<Rightarrow> matched_by \<Rightarrow> route_peer option \<Rightarrow> evaluated \<Rightarrow> bool" where
  "hits q t p e \<longleftrightarrow> tierOf (ev_match e) = t \<and> matchesBindingScope (ev_match e) (scopeFor q p)"

abbreviation searched :: "route_query \<Rightarrow> (binding_match \<Rightarrow> bool) \<Rightarrow> route_peer option \<Rightarrow> evaluated list \<Rightarrow> evaluated option" where
  "searched q pred p \<equiv> List.find (\<lambda>e. pred (ev_match e) \<and> matchesBindingScope (ev_match e) (scopeFor q p))"

definition normalised :: "evaluated list \<Rightarrow> bool" where
  "normalised es \<longleftrightarrow> (\<forall>e \<in> set es. bm_guild (ev_match e) \<noteq> Some [] \<and> bm_team (ev_match e) \<noteq> Some [] \<and> bm_roles (ev_match e) \<noteq> Some [])"

lemma tier_constraints:
  "tierOf m = BindingGuildRoles \<Longrightarrow> hasGuildConstraint m \<and> hasRolesConstraint m"
  "tierOf m = BindingGuild \<Longrightarrow> hasGuildConstraint m \<and> \<not> hasRolesConstraint m"
  "tierOf m = BindingTeam \<Longrightarrow> hasTeamConstraint m"
  by (auto simp: tierOf_def split: if_splits)

lemma hit_guild:
  assumes "hits q t p e" and "t = BindingGuildRoles \<or> t = BindingGuild" and "js_trim (rq_guild q) = rq_guild q"
  shows "bm_guild (ev_match e) = Some (rq_guild q) \<and> rq_guild q \<noteq> []"
  using assms matches_guild(1) [of "ev_match e" q p] tier_constraints [of "ev_match e"]
  by (auto simp: hits_def hasGuildConstraint_def truthy_string_def split: option.splits)

lemma hit_roles:
  assumes "hits q BindingGuildRoles p e" and "bm_roles (ev_match e) \<noteq> Some []"
  shows "rq_roles q \<noteq> []"
  using assms matches_guild(3) [of "ev_match e" q p] tier_constraints(1) [of "ev_match e"]
  by (auto simp: hits_def hasRolesConstraint_def)

lemma hit_team:
  assumes "hits q BindingTeam p e" and "js_trim (rq_team q) = rq_team q"
  shows "bm_team (ev_match e) = Some (rq_team q) \<and> rq_team q \<noteq> []"
  using assms matches_guild(2) [of "ev_match e" q p] tier_constraints(3) [of "ev_match e"]
  by (auto simp: hits_def hasTeamConstraint_def truthy_string_def split: option.splits)

lemma tier_peer:
  "(if p \<noteq> None then searched q (\<lambda>m. isValidPeer (bm_peer m)) p (collectPeerIndexedBindings (buildEvaluatedBindingsIndex es) p) else None) =
   List.find (hits q BindingPeer p) es"
proof (cases p)
  case None
  then show ?thesis using no_peer_no_match by (simp add: find_none hits_def)
next
  case (Some v)
  then show ?thesis by (simp add: find_peer_tier tierOf_peer hits_def [abs_def])
qed

lemma tier_parent:
  "(if namedPeer r \<noteq> None
    then searched q (\<lambda>m. isValidPeer (bm_peer m)) (namedPeer r) (collectPeerIndexedBindings (buildEvaluatedBindingsIndex es) r) else None) =
   List.find (hits q BindingPeer (namedPeer r)) es"
proof (cases "namedPeer r")
  case None
  then show ?thesis using tier_peer [of "namedPeer r" q es] by simp
next
  case (Some v)
  then have "r = Some v" by (auto simp: namedPeer_def split: option.splits if_splits)
  then show ?thesis using tier_peer [of "Some v" q es] unfolding Some by simp
qed

lemma tier_wildcard:
  "(if p \<noteq> None then searched q (\<lambda>m. isWildcardPeer (bm_peer m)) p (byPeerWildcard (buildEvaluatedBindingsIndex es)) else None) =
   List.find (hits q BindingPeerWildcard p) es"
proof (cases p)
  case None
  then show ?thesis using no_peer_no_match by (simp add: find_none hits_def)
next
  case (Some v)
  have "searched q (\<lambda>m. isWildcardPeer (bm_peer m)) p (filter (\<lambda>e. tierOf (ev_match e) = BindingPeerWildcard) es) =
      List.find (hits q BindingPeerWildcard p) es"
    by (rule find_tier) (auto simp: tierOf_peer hits_def)
  then show ?thesis using Some index_holds [of es] by simp
qed

lemma tier_guild_roles:
  assumes "normalised es" and "js_trim (rq_guild q) = rq_guild q"
  shows "(if rq_guild q \<noteq> [] \<and> 0 < length (rq_roles q)
    then searched q (\<lambda>m. hasGuildConstraint m \<and> hasRolesConstraint m) p
      (if rq_guild q = [] then [] else coalesce (map_of (byGuildWithRoles (buildEvaluatedBindingsIndex es)) (rq_guild q)) []) else None) =
    List.find (hits q BindingGuildRoles p) es"
proof (cases "rq_guild q \<noteq> [] \<and> rq_roles q \<noteq> []")
  case True
  have "searched q (\<lambda>m. hasGuildConstraint m \<and> hasRolesConstraint m) p
      (filter (\<lambda>e. tierOf (ev_match e) = BindingGuildRoles \<and> bm_guild (ev_match e) = Some (rq_guild q)) es) =
    List.find (hits q BindingGuildRoles p) es"
    using hit_guild [OF _ _ assms(2)] tier_constraints by (intro find_tier) (auto simp: hits_def)
  then show ?thesis using True index_holds [of es "rq_guild q"] by simp
next
  case False
  have "List.find (hits q BindingGuildRoles p) es = None"
    using False assms hit_guild [OF _ _ assms(2)] hit_roles by (intro find_none) (auto simp: normalised_def)
  then show ?thesis using False by auto
qed

lemma tier_guild:
  assumes "js_trim (rq_guild q) = rq_guild q"
  shows "(if rq_guild q \<noteq> []
    then searched q (\<lambda>m. hasGuildConstraint m \<and> \<not> hasRolesConstraint m) p
      (if rq_guild q = [] then [] else coalesce (map_of (byGuild (buildEvaluatedBindingsIndex es)) (rq_guild q)) []) else None) =
    List.find (hits q BindingGuild p) es"
proof (cases "rq_guild q \<noteq> []")
  case True
  have "searched q (\<lambda>m. hasGuildConstraint m \<and> \<not> hasRolesConstraint m) p
      (filter (\<lambda>e. tierOf (ev_match e) = BindingGuild \<and> bm_guild (ev_match e) = Some (rq_guild q)) es) =
    List.find (hits q BindingGuild p) es"
    using hit_guild [OF _ _ assms] tier_constraints by (intro find_tier) (auto simp: hits_def)
  then show ?thesis using True index_holds [of es "rq_guild q"] by simp
next
  case False
  have "List.find (hits q BindingGuild p) es = None"
    using False hit_guild [OF _ _ assms] by (intro find_none) auto
  then show ?thesis using False by simp
qed

lemma tier_team:
  assumes "js_trim (rq_team q) = rq_team q"
  shows "(if rq_team q \<noteq> []
    then searched q hasTeamConstraint p
      (if rq_team q = [] then [] else coalesce (map_of (byTeam (buildEvaluatedBindingsIndex es)) (rq_team q)) []) else None) =
    List.find (hits q BindingTeam p) es"
proof (cases "rq_team q \<noteq> []")
  case True
  have "searched q hasTeamConstraint p
      (filter (\<lambda>e. tierOf (ev_match e) = BindingTeam \<and> bm_team (ev_match e) = Some (rq_team q)) es) =
    List.find (hits q BindingTeam p) es"
    using hit_team [OF _ assms] tier_constraints by (intro find_tier) (auto simp: hits_def)
  then show ?thesis using True index_holds [of es "rq_team q"] by simp
next
  case False
  have "List.find (hits q BindingTeam p) es = None"
    using False hit_team [OF _ assms] by (intro find_none) auto
  then show ?thesis using False by simp
qed

lemma tier_account_channel:
  "searched q (\<lambda>m. bm_accountPattern m \<noteq> ''*'') p (byAccount (buildEvaluatedBindingsIndex es)) = List.find (hits q BindingAccount p) es"
  "searched q (\<lambda>m. bm_accountPattern m = ''*'') p (byChannel (buildEvaluatedBindingsIndex es)) = List.find (hits q BindingChannel p) es"
proof -
  have "searched q (\<lambda>m. bm_accountPattern m \<noteq> ''*'') p (filter (\<lambda>e. tierOf (ev_match e) = BindingAccount) es) =
      List.find (hits q BindingAccount p) es"
    by (rule find_tier) (auto simp: tierOf_def hits_def split: if_splits)
  then show "searched q (\<lambda>m. bm_accountPattern m \<noteq> ''*'') p (byAccount (buildEvaluatedBindingsIndex es)) =
      List.find (hits q BindingAccount p) es"
    using index_holds [of es] by simp
  have "searched q (\<lambda>m. bm_accountPattern m = ''*'') p (filter (\<lambda>e. tierOf (ev_match e) = BindingChannel) es) =
      List.find (hits q BindingChannel p) es"
    by (rule find_tier) (auto simp: tierOf_def hits_def split: if_splits)
  then show "searched q (\<lambda>m. bm_accountPattern m = ''*'') p (byChannel (buildEvaluatedBindingsIndex es)) =
      List.find (hits q BindingChannel p) es"
    using index_holds [of es] by simp
qed

lemma first_tier_step:
  assumes "(if tr_enabled t then searched q (tr_predicate t) (tr_scopePeer t) (tr_candidates t) else None) = List.find (hits q tier peer) es"
    and "tr_matchedBy t = label" and "firstTierMatch ts q = scan us es q"
  shows "firstTierMatch (t # ts) q = scan ((label, tier, peer) # us) es q"
  using assms(1) unfolding firstTierMatch.simps scan.simps assms(2, 3) hits_def [abs_def] by (auto split: option.split)

lemma index_search_is_scan:
  assumes "normalised es" and "js_trim (rq_guild q) = rq_guild q" and "js_trim (rq_team q) = rq_team q"
  shows "firstTierMatch (tiers (buildEvaluatedBindingsIndex es) q) q = scan (scanOrder q) es q"
  unfolding tiers_def scanOrder_def Let_def
  by (intro first_tier_step)
    (simp_all only: tier.select_convs if_True tier_peer tier_parent tier_wildcard tier_guild_roles [OF assms(1, 2)]
      tier_guild [OF assms(2)] tier_team [OF assms(3)] tier_account_channel firstTierMatch.simps scan.simps)

text \<open>C5: The index is an optimisation only. For every configuration and message, looking the binding up in the merged
  and indexed bindings finds exactly the binding a scan of the configuration finds: of the bindings for the channel
  and account, the first in configuration order in the first tier that has one matching the message (the peer, the
  parent of its thread, any peer of the kind, the guild with roles, the guild, the team, the account, the channel), and
  the route is made from it.\<close>

theorem index_agrees_with_scan:
  "resolveUncached cfg (routeQuery input) =
   routeFromMatch cfg (agentLookup cfg) (routeQuery input) (scanBindings cfg (routeQuery input))"
proof -
  let ?q = "routeQuery input"
  let ?es = "filter (concerns (rq_channel ?q) (rq_account ?q)) (evaluateAll (listBindings cfg) 0)"
  have "normalised ?es" unfolding normalised_def using evaluateAll_match normal_match by fastforce
  moreover have "js_trim (rq_guild ?q) = rq_guild ?q" "js_trim (rq_team ?q) = rq_team ?q"
    by (cases "ri_guild input"; simp add: routeQuery_def) (cases "ri_team input"; simp add: routeQuery_def)
  ultimately show ?thesis
    unfolding resolveUncached_def scanBindings_def Let_def evaluated_in_order by (simp only: index_search_is_scan)
qed

end
