(* ===== verification/RouteCache.thy ===== *)
theory RouteCache
  imports ResolveRoute "HOL-Library.List_Lexorder" "HOL-Library.Char_ord"
begin

text \<open>
  The caches of \<^verbatim>\<open>packages/core/src/routing/resolve-route.ts\<close>: the evaluated bindings and their index per
  channel and account, the table of agents, and the resolved routes, each kept per configuration object and valid as
  long as the parts of the configuration it was made from are the same objects.

  \<open>route_cache_invisible\<close> shows that a resolution answers what it would without them, for messages whose
  ids keep the cache key unambiguous.
\<close>

subsection \<open>State\<close>

record bindings_cache =
  bc_bindingsRef :: nat
  bc_byChannel :: "(string, channel_bucket) js_map"
  bc_byChannelAccount :: "(string, evaluated list) js_map"
  bc_byChannelAccountIndex :: "(string, bindings_index) js_map"

record route_cache =
  rc_bindingsRef :: nat
  rc_agentsRef :: nat
  rc_sessionRef :: nat
  rc_byKey :: "(string, resolved_route) js_map"

record lookup_cache =
  lc_agentsRef :: nat
  lc_lookup :: agent_lookup

record routing_state =
  bindingsCaches :: "(nat, bindings_cache) js_map"
  routeCaches :: "(nat, route_cache) js_map"
  lookupCaches :: "(nat, lookup_cache) js_map"

definition noCaches :: routing_state where
  "noCaches = \<lparr>bindingsCaches = [], routeCaches = [], lookupCaches = []\<rparr>"

definition MAX_EVALUATED_BINDINGS_CACHE_KEYS :: nat where "MAX_EVALUATED_BINDINGS_CACHE_KEYS = 2000"
definition MAX_RESOLVED_ROUTE_CACHE_KEYS :: nat where "MAX_RESOLVED_ROUTE_CACHE_KEYS = 4000"

subsection \<open>Agents and bindings\<close>

definition resolveAgentLookupCache :: "routing_config \<Rightarrow> routing_state \<Rightarrow> agent_lookup \<times> routing_state" where
  "resolveAgentLookupCache cfg st =
     (case map_of (lookupCaches st) (cfg_object cfg) of
        Some existing \<Rightarrow>
          if lc_agentsRef existing = agents_ref cfg then (lc_lookup existing, st)
          else (agentLookup cfg, st\<lparr>lookupCaches :=
                 AList.update (cfg_object cfg) \<lparr>lc_agentsRef = agents_ref cfg, lc_lookup = agentLookup cfg\<rparr> (lookupCaches st)\<rparr>)
      | None \<Rightarrow> (agentLookup cfg, st\<lparr>lookupCaches :=
                 AList.update (cfg_object cfg) \<lparr>lc_agentsRef = agents_ref cfg, lc_lookup = agentLookup cfg\<rparr> (lookupCaches st)\<rparr>))"

definition freshBindingsCache :: "routing_config \<Rightarrow> bindings_cache" where
  "freshBindingsCache cfg =
     \<lparr>bc_bindingsRef = bindings_ref cfg, bc_byChannel = buildEvaluatedBindingsByChannel cfg,
      bc_byChannelAccount = [], bc_byChannelAccountIndex = []\<rparr>"

definition bindingsCacheFor :: "routing_config \<Rightarrow> routing_state \<Rightarrow> bindings_cache" where
  "bindingsCacheFor cfg st =
     (case map_of (bindingsCaches st) (cfg_object cfg) of
        Some existing \<Rightarrow> if bc_bindingsRef existing = bindings_ref cfg then existing else freshBindingsCache cfg
      | None \<Rightarrow> freshBindingsCache cfg)"

definition tab :: char where "tab = CHR 0x09"

definition channelAccountKey :: "string \<Rightarrow> string \<Rightarrow> string" where
  "channelAccountKey channel accountId = channel @ tab # accountId"

text \<open>Storing under a limit: a table that grows past it is emptied and keeps the new entry only.\<close>

definition storeClearing :: "nat \<Rightarrow> 'k \<Rightarrow> 'v \<Rightarrow> ('k, 'v) js_map \<Rightarrow> ('k, 'v) js_map" where
  "storeClearing limit k v m =
     (let m1 = AList.update k v m in if limit < length m1 then [(k, v)] else m1)"

definition getEvaluatedBindingsForChannelAccount ::
    "routing_config \<Rightarrow> string \<Rightarrow> string \<Rightarrow> routing_state \<Rightarrow> evaluated list \<times> routing_state" where
  "getEvaluatedBindingsForChannelAccount cfg channel accountId st =
     (let cache = bindingsCacheFor cfg st; cacheKey = channelAccountKey channel accountId;
          put = (\<lambda>c. st\<lparr>bindingsCaches := AList.update (cfg_object cfg) c (bindingsCaches st)\<rparr>)
      in case map_of (bc_byChannelAccount cache) cacheKey of
           Some hit \<Rightarrow> (hit, put cache)
         | None \<Rightarrow>
             (let es = evaluatedBindings (bc_byChannel cache) channel accountId;
                  overflow = MAX_EVALUATED_BINDINGS_CACHE_KEYS < length (AList.update cacheKey es (bc_byChannelAccount cache));
                  index = buildEvaluatedBindingsIndex es
              in (es, put (cache\<lparr>
                   bc_byChannelAccount := storeClearing MAX_EVALUATED_BINDINGS_CACHE_KEYS cacheKey es (bc_byChannelAccount cache),
                   bc_byChannelAccountIndex :=
                     (if overflow then [(cacheKey, index)] else AList.update cacheKey index (bc_byChannelAccountIndex cache))\<rparr>))))"

definition getEvaluatedBindingIndexForChannelAccount ::
    "routing_config \<Rightarrow> string \<Rightarrow> string \<Rightarrow> routing_state \<Rightarrow> bindings_index \<times> routing_state" where
  "getEvaluatedBindingIndexForChannelAccount cfg channel accountId st =
     (let (bindings, st1) = getEvaluatedBindingsForChannelAccount cfg channel accountId st;
          existing = map_of (bindingsCaches st1) (cfg_object cfg);
          cacheKey = channelAccountKey channel accountId
      in case Option.bind existing (\<lambda>c. map_of (bc_byChannelAccountIndex c) cacheKey) of
           Some indexed \<Rightarrow> (indexed, st1)
         | None \<Rightarrow>
             (let built = buildEvaluatedBindingsIndex bindings
              in (built, case existing of
                    None \<Rightarrow> st1
                  | Some c \<Rightarrow> st1\<lparr>bindingsCaches := AList.update (cfg_object cfg)
                      (c\<lparr>bc_byChannelAccountIndex := AList.update cacheKey built (bc_byChannelAccountIndex c)\<rparr>) (bindingsCaches st1)\<rparr>)))"

subsection \<open>Resolved routes\<close>

definition routeCacheFor :: "routing_config \<Rightarrow> routing_state \<Rightarrow> route_cache" where
  "routeCacheFor cfg st =
     (let fresh = \<lparr>rc_bindingsRef = bindings_ref cfg, rc_agentsRef = agents_ref cfg, rc_sessionRef = session_ref cfg, rc_byKey = []\<rparr>
      in case map_of (routeCaches st) (cfg_object cfg) of
           Some existing \<Rightarrow>
             if rc_bindingsRef existing = bindings_ref cfg \<and> rc_agentsRef existing = agents_ref cfg \<and>
                rc_sessionRef existing = session_ref cfg then existing else fresh
         | None \<Rightarrow> fresh)"

definition resolveRouteCacheForConfig :: "routing_config \<Rightarrow> routing_state \<Rightarrow> (string, resolved_route) js_map \<times> routing_state" where
  "resolveRouteCacheForConfig cfg st =
     (rc_byKey (routeCacheFor cfg st),
      st\<lparr>routeCaches := AList.update (cfg_object cfg) (routeCacheFor cfg st) (routeCaches st)\<rparr>)"

definition formatRouteCachePeer :: "route_peer option \<Rightarrow> string" where
  "formatRouteCachePeer peer =
     (case peer of
        None \<Rightarrow> ''-''
      | Some p \<Rightarrow> if rp_id p = [] then ''-'' else chat_type_name (rp_kind p) @ '':'' @ rp_id p)"

fun formatRoleIdsCacheKey :: "string list \<Rightarrow> string" where
  "formatRoleIdsCacheKey [] = ''-''"
| "formatRoleIdsCacheKey [r] = r"
| "formatRoleIdsCacheKey [a, b] = (if a \<le> b then a @ '','' @ b else b @ '','' @ a)"
| "formatRoleIdsCacheKey rs = js_join '','' (sort rs)"

fun dm_scope_name :: "dm_scope \<Rightarrow> string" where
  "dm_scope_name ScopeMain = ''main''"
| "dm_scope_name PerPeer = ''per-peer''"
| "dm_scope_name PerChannelPeer = ''per-channel-peer''"
| "dm_scope_name PerAccountChannelPeer = ''per-account-channel-peer''"

definition buildResolvedRouteCacheKey :: "route_query \<Rightarrow> dm_scope \<Rightarrow> string" where
  "buildResolvedRouteCacheKey q dmScope =
     js_join [tab] [rq_channel q, rq_account q, formatRouteCachePeer (rq_peer q), formatRouteCachePeer (rq_parentPeer q),
       text_or (rq_guild q) ''-'', text_or (rq_team q) ''-'', formatRoleIdsCacheKey (rq_roles q), dm_scope_name dmScope]"

definition rememberRoute :: "routing_config \<Rightarrow> string \<Rightarrow> resolved_route \<Rightarrow> routing_state \<Rightarrow> routing_state" where
  "rememberRoute cfg key route st =
     (let c = routeCacheFor cfg st
      in st\<lparr>routeCaches := AList.update (cfg_object cfg)
            (c\<lparr>rc_byKey := storeClearing MAX_RESOLVED_ROUTE_CACHE_KEYS key route (rc_byKey c)\<rparr>) (routeCaches st)\<rparr>)"

definition configuredDmScope :: "routing_config \<Rightarrow> dm_scope" where
  "configuredDmScope cfg = coalesce (Option.bind (cfg_session cfg) sc_dmScope) ScopeMain"

text \<open>A resolution returns a copy of a cached route, but the object it has just stored when it computed one. The second
  component tells which stored object, if any, the caller holds.\<close>

definition resolveAgentRoute :: "bool \<Rightarrow> routing_config \<Rightarrow> route_input \<Rightarrow> routing_state
    \<Rightarrow> resolved_route \<times> (nat \<times> string) option \<times> routing_state" where
  "resolveAgentRoute shouldLogDebug cfg input st =
     (let q = routeQuery input;
          useCache = (\<not> shouldLogDebug \<and> Option.bind (cfg_session cfg) sc_identityLinks = None);
          (byKey, st1) = (if useCache then resolveRouteCacheForConfig cfg st else ([], st));
          key = (if useCache then buildResolvedRouteCacheKey q (configuredDmScope cfg) else [])
      in case (if useCache \<and> key \<noteq> [] then map_of byKey key else None) of
           Some cachedRoute \<Rightarrow> (cachedRoute, None, st1)
         | None \<Rightarrow>
             (let (bindings, st2) = getEvaluatedBindingsForChannelAccount cfg (rq_channel q) (rq_account q) st1;
                  (index, st3) = getEvaluatedBindingIndexForChannelAccount cfg (rq_channel q) (rq_account q) st2;
                  (lookup, st4) = resolveAgentLookupCache cfg st3;
                  route = routeFromMatch cfg lookup q (firstTierMatch (tiers index q) q)
              in if useCache \<and> key \<noteq> [] then (route, Some (cfg_object cfg, key), rememberRoute cfg key route st4)
                 else (route, None, st4)))"

text \<open>A caller assigns the session key of the route it was given.\<close>

definition assignSessionKey :: "(nat \<times> string) option \<Rightarrow> string \<Rightarrow> routing_state \<Rightarrow> routing_state" where
  "assignSessionKey shared k st =
     (case shared of
        None \<Rightarrow> st
      | Some (obj, key) \<Rightarrow>
          (case map_of (routeCaches st) obj of
             None \<Rightarrow> st
           | Some c \<Rightarrow>
               (case map_of (rc_byKey c) key of
                  None \<Rightarrow> st
                | Some r \<Rightarrow> st\<lparr>routeCaches := AList.update obj
                    (c\<lparr>rc_byKey := AList.update key (r\<lparr>rt_sessionKey := k\<rparr>) (rc_byKey c)\<rparr>) (routeCaches st)\<rparr>)))"

text \<open>The session key the Teams handlers assign, \<^verbatim>\<open>extensions/msteams/src/monitor-handler/thread-session.ts\<close>.\<close>

definition resolveMSTeamsRouteSessionKey :: "string \<Rightarrow> bool \<Rightarrow> string option \<Rightarrow> string option \<Rightarrow> string" where
  "resolveMSTeamsRouteSessionKey baseSessionKey isChannel conversationMessageId replyToId =
     (let channelThreadId = (if isChannel then or_else conversationMessageId replyToId else None)
      in fst (resolveThreadSessionKeys baseSessionKey channelThreadId
               (if truthy_string channelThreadId then Some baseSessionKey else None) None None))"

subsection \<open>The cache key\<close>

text \<open>Messages whose key is unambiguous: no tab in an id, no comma in a role, a peer with an id, and no id that
  is the dash standing for an absent one.\<close>

definition plain_peer :: "route_peer option \<Rightarrow> bool" where
  "plain_peer peer = (case peer of None \<Rightarrow> True | Some p \<Rightarrow> rp_id p \<noteq> [] \<and> tab \<notin> set (rp_id p))"

definition plain_query :: "route_query \<Rightarrow> bool" where
  "plain_query q \<longleftrightarrow> tab \<notin> set (rq_channel q) \<and> tab \<notin> set (rq_account q) \<and>
     plain_peer (rq_peer q) \<and> plain_peer (rq_parentPeer q) \<and>
     rq_guild q \<noteq> ''-'' \<and> tab \<notin> set (rq_guild q) \<and> rq_team q \<noteq> ''-'' \<and> tab \<notin> set (rq_team q) \<and>
     rq_roles q \<noteq> [''-''] \<and> list_all (\<lambda>r. tab \<notin> set r \<and> CHR '','' \<notin> set r) (rq_roles q)"

lemma role_key: "formatRoleIdsCacheKey rs = (if rs = [] then ''-'' else js_join '','' (sort rs))"
proof (cases rs rule: formatRoleIdsCacheKey.cases)
  case (3 a b)
  then show ?thesis by (cases "a \<le> b") auto
qed auto

lemma js_join_set: "set (js_join sep ps) \<subseteq> set sep \<union> \<Union> (set ` set ps)"
  by (induction ps rule: intersperse_concat.induct) auto

lemma role_key_eq:
  assumes "list_all (\<lambda>r. CHR '','' \<notin> set r) rs" "list_all (\<lambda>r. CHR '','' \<notin> set r) rs'" "rs \<noteq> [''-'']" "rs' \<noteq> [''-'']"
    and "formatRoleIdsCacheKey rs = formatRoleIdsCacheKey rs'"
  shows "set rs = set rs'"
proof -
  have key: "js_split CHR '','' (formatRoleIdsCacheKey xs) = (if xs = [] then [''-''] else sort xs)"
    if "list_all (\<lambda>r. CHR '','' \<notin> set r) xs" for xs
  proof (cases "xs = []")
    case False
    then have "sort xs \<noteq> []" by (metis length_0_conv length_sort)
    then show ?thesis using False that js_split_join [of "sort xs" "CHR '',''"] by (simp add: role_key list_all_iff)
  qed (simp add: role_key)
  have one: "xs = [''-'']" if "sort xs = [''-'']" for xs :: "string list"
  proof -
    have "length xs = 1" "set xs = {''-''}" using arg_cong [OF that, of length] arg_cong [OF that, of set] by simp_all
    then show ?thesis by (cases xs) auto
  qed
  have sorts: "(if rs = [] then [''-''] else sort rs) = (if rs' = [] then [''-''] else sort rs')"
    using key [OF assms(1)] key [OF assms(2)] assms(5) by simp
  show ?thesis
  proof (cases "rs = []")
    case True
    then have "rs' = []" using sorts one [of rs'] assms(4) by (metis)
    then show ?thesis using True by simp
  next
    case False
    then have "rs' \<noteq> []" using sorts one [of rs] assms(3) by metis
    then have "sort rs = sort rs'" using sorts False by simp
    then show ?thesis by (metis set_sort)
  qed
qed

lemma peer_text:
  "chat_type_name j @ '':'' @ a = chat_type_name k @ '':'' @ b \<longleftrightarrow> j = k \<and> a = b"
  "chat_type_name k @ '':'' @ a \<noteq> ''-''" "''-'' \<noteq> chat_type_name k @ '':'' @ a"
  "tab \<notin> set (chat_type_name k @ '':'' @ a) \<longleftrightarrow> tab \<notin> set a"
  by (cases j; cases k; auto) (cases k; simp add: tab_def)+

lemma peer_key_eq:
  assumes "plain_peer p" "plain_peer p'" "formatRouteCachePeer p = formatRouteCachePeer p'"
  shows "p = p'"
proof -
  have key: "formatRouteCachePeer (Some v) = chat_type_name (rp_kind v) @ '':'' @ rp_id v" if "plain_peer (Some v)" for v
    using that by (simp add: plain_peer_def formatRouteCachePeer_def)
  have none: "formatRouteCachePeer None = ''-''" by (simp add: formatRouteCachePeer_def)
  show ?thesis
  proof (cases p)
    case None
    then show ?thesis using assms key none peer_text(2) by (cases p') metis+
  next
    case (Some v)
    then obtain v' where "p' = Some v'" using assms key none peer_text(2) by (cases p') metis+
    then show ?thesis using assms Some key [of v] key [of v'] peer_text(1) [of "rp_kind v" "rp_id v" "rp_kind v'" "rp_id v'"]
      by simp
  qed
qed

lemma peer_key_tab: "plain_peer p \<Longrightarrow> tab \<notin> set (formatRouteCachePeer p)"
proof (cases p)
  case None
  then show ?thesis by (simp add: formatRouteCachePeer_def tab_def)
next
  case (Some v)
  assume "plain_peer p"
  then have "rp_id v \<noteq> []" "tab \<notin> set (rp_id v)" by (simp_all add: Some plain_peer_def)
  then show ?thesis using peer_text(4) [of "rp_kind v" "rp_id v"] by (simp add: Some formatRouteCachePeer_def)
qed

lemma text_or_tab: "tab \<notin> set s \<Longrightarrow> tab \<notin> set (text_or s ''-'')"
  by (simp add: text_or_def tab_def)

lemma text_or_eq: "s \<noteq> ''-'' \<Longrightarrow> t \<noteq> ''-'' \<Longrightarrow> text_or s ''-'' = text_or t ''-'' \<Longrightarrow> s = t"
  by (auto simp: text_or_def split: if_splits)

lemma role_key_tab: "list_all (\<lambda>r. tab \<notin> set r) rs \<Longrightarrow> tab \<notin> set (formatRoleIdsCacheKey rs)"
  using js_join_set [of "'',''" "sort rs"] by (auto simp: role_key tab_def list_all_iff)

lemma scope_name_tab: "tab \<notin> set (dm_scope_name d)"
  by (cases d) (simp_all add: tab_def)

lemma key_parts_free:
  assumes "plain_query q"
  shows "\<forall>p \<in> set [rq_channel q, rq_account q, formatRouteCachePeer (rq_peer q), formatRouteCachePeer (rq_parentPeer q),
       text_or (rq_guild q) ''-'', text_or (rq_team q) ''-'', formatRoleIdsCacheKey (rq_roles q), dm_scope_name d]. tab \<notin> set p"
proof -
  have "tab \<notin> set (formatRoleIdsCacheKey (rq_roles q))"
    using assms by (intro role_key_tab) (simp add: plain_query_def list_all_iff)
  then show ?thesis using assms by (simp add: plain_query_def peer_key_tab text_or_tab scope_name_tab)
qed

lemma route_key_eq:
  assumes "plain_query q" "plain_query q'" "buildResolvedRouteCacheKey q d = buildResolvedRouteCacheKey q' d'"
  shows "q' = q\<lparr>rq_roles := rq_roles q'\<rparr>" and "set (rq_roles q) = set (rq_roles q')"
proof -
  have split: "js_split tab (buildResolvedRouteCacheKey x c) =
      [rq_channel x, rq_account x, formatRouteCachePeer (rq_peer x), formatRouteCachePeer (rq_parentPeer x),
       text_or (rq_guild x) ''-'', text_or (rq_team x) ''-'', formatRoleIdsCacheKey (rq_roles x), dm_scope_name c]"
    if "plain_query x" for x c
    unfolding buildResolvedRouteCacheKey_def by (rule js_split_join [OF _ key_parts_free [OF that]]) simp
  have parts: "rq_channel q = rq_channel q'" "rq_account q = rq_account q'"
    "formatRouteCachePeer (rq_peer q) = formatRouteCachePeer (rq_peer q')"
    "formatRouteCachePeer (rq_parentPeer q) = formatRouteCachePeer (rq_parentPeer q')"
    "text_or (rq_guild q) ''-'' = text_or (rq_guild q') ''-''" "text_or (rq_team q) ''-'' = text_or (rq_team q') ''-''"
    "formatRoleIdsCacheKey (rq_roles q) = formatRoleIdsCacheKey (rq_roles q')"
    using split [OF assms(1), of d] split [OF assms(2), of d'] assms(3) by simp_all
  have "rq_peer q = rq_peer q'" "rq_parentPeer q = rq_parentPeer q'" "rq_guild q = rq_guild q'" "rq_team q = rq_team q'"
    using assms(1, 2) parts by (auto simp: plain_query_def intro: peer_key_eq text_or_eq)
  then show "q' = q\<lparr>rq_roles := rq_roles q'\<rparr>" using parts by simp
  show "set (rq_roles q) = set (rq_roles q')"
    using assms(1, 2) parts(7) by (intro role_key_eq) (auto simp: plain_query_def list_all_iff)
qed

subsection \<open>The caches are invisible\<close>

text \<open>The parts of a configuration by their identity: an object is never changed in place, so the identity
  determines it.\<close>

record config_heap =
  heap_bindings :: "nat \<Rightarrow> agent_binding list option"
  heap_agents :: "nat \<Rightarrow> agent_entry list option"
  heap_session :: "nat \<Rightarrow> session_config option"

definition heapConfig :: "config_heap \<Rightarrow> nat \<Rightarrow> nat \<Rightarrow> nat \<Rightarrow> routing_config" where
  "heapConfig H b a s =
     \<lparr>cfg_object = 0, bindings_ref = b, cfg_bindings = heap_bindings H b, agents_ref = a, cfg_agents = heap_agents H a,
      session_ref = s, cfg_session = heap_session H s\<rparr>"

definition lives_in :: "config_heap \<Rightarrow> routing_config \<Rightarrow> bool" where
  "lives_in H cfg \<longleftrightarrow> cfg_bindings cfg = heap_bindings H (bindings_ref cfg) \<and>
     cfg_agents cfg = heap_agents H (agents_ref cfg) \<and> cfg_session cfg = heap_session H (session_ref cfg)"

lemma bindings_by_ref: "lives_in H cfg \<Longrightarrow> listBindings cfg = listBindings (heapConfig H (bindings_ref cfg) a s)"
  by (simp add: lives_in_def heapConfig_def listBindings_def listRouteBindings_def listConfiguredBindings_def)

lemma by_channel_by_ref:
  "lives_in H cfg \<Longrightarrow>
   buildEvaluatedBindingsByChannel cfg = buildEvaluatedBindingsByChannel (heapConfig H (bindings_ref cfg) a s)"
  unfolding buildEvaluatedBindingsByChannel_def by (simp only: bindings_by_ref [of H cfg a s])

lemma default_agent_by_ref:
  "lives_in H cfg \<Longrightarrow> resolveDefaultAgentId cfg = resolveDefaultAgentId (heapConfig H b (agents_ref cfg) s)"
  by (simp add: lives_in_def heapConfig_def resolveDefaultAgentId_def listAgentEntries_def)

lemma lookup_by_ref: "lives_in H cfg \<Longrightarrow> agentLookup cfg = agentLookup (heapConfig H b (agents_ref cfg) s)"
  unfolding agentLookup_def using default_agent_by_ref [of H cfg b s]
  by (simp add: lives_in_def heapConfig_def listAgentEntries_def)

lemma route_by_ref:
  assumes "lives_in H cfg"
  shows "resolveUncached cfg q = resolveUncached (heapConfig H (bindings_ref cfg) (agents_ref cfg) (session_ref cfg)) q"
proof -
  let ?c = "heapConfig H (bindings_ref cfg) (agents_ref cfg) (session_ref cfg)"
  have "cfg_session cfg = cfg_session ?c" using assms by (simp add: lives_in_def heapConfig_def)
  then have choose: "chooseRoute cfg l q a m d = chooseRoute ?c l q a m d" for l a m d by (simp add: chooseRoute_def)
  show ?thesis
    unfolding resolveUncached_def routeFromMatch_def choose lookup_by_ref [OF assms, of "bindings_ref cfg" "session_ref cfg"]
      by_channel_by_ref [OF assms, of "agents_ref cfg" "session_ref cfg"]
      default_agent_by_ref [OF assms, of "bindings_ref cfg" "session_ref cfg"] by (rule refl)
qed

text \<open>Only the set of the member's roles matters.\<close>

lemma matches_roles:
  "set rs = set (rq_roles q) \<Longrightarrow> matchesBindingScope m (scopeFor (q\<lparr>rq_roles := rs\<rparr>) p) = matchesBindingScope m (scopeFor q p)"
  by (simp add: matchesBindingScope_def scopeFor_def scopeOf_def routeBindingScopeMatches_def hasAnyRouteBindingRole_def
      cong: peer_constraint.case_cong option.case_cong)

lemma first_tier_roles:
  "set rs = set (rq_roles q) \<Longrightarrow> firstTierMatch ts (q\<lparr>rq_roles := rs\<rparr>) = firstTierMatch ts q"
  by (induction ts) (simp_all add: matches_roles split: option.split)

lemma tiers_roles: "set rs = set (rq_roles q) \<Longrightarrow> tiers ix (q\<lparr>rq_roles := rs\<rparr>) = tiers ix q"
proof -
  assume "set rs = set (rq_roles q)"
  then have "(rs = []) = (rq_roles q = [])" by (metis set_empty)
  then show ?thesis by (simp add: tiers_def)
qed

lemma route_roles:
  assumes "set rs = set (rq_roles q)"
  shows "resolveUncached cfg (q\<lparr>rq_roles := rs\<rparr>) = resolveUncached cfg q"
  using first_tier_roles [OF assms] tiers_roles [OF assms]
  by (simp add: resolveUncached_def routeFromMatch_def chooseRoute_def Let_def cong: option.case_cong)

subsection \<open>What the caches hold\<close>

interpretation evaluatedTable: memo_table MAX_EVALUATED_BINDINGS_CACHE_KEYS "storeClearing MAX_EVALUATED_BINDINGS_CACHE_KEYS"
proof unfold_locales
  show "set (storeClearing MAX_EVALUATED_BINDINGS_CACHE_KEYS k v m) \<subseteq> insert (k, v) (set m)" for k :: 'a and v :: 'b and m
    using set_update_subset [of k v m] by (auto simp: storeClearing_def Let_def)
qed (simp add: storeClearing_def Let_def MAX_EVALUATED_BINDINGS_CACHE_KEYS_def)

interpretation routeTable: memo_table MAX_RESOLVED_ROUTE_CACHE_KEYS "storeClearing MAX_RESOLVED_ROUTE_CACHE_KEYS"
proof unfold_locales
  show "set (storeClearing MAX_RESOLVED_ROUTE_CACHE_KEYS k v m) \<subseteq> insert (k, v) (set m)" for k :: 'a and v :: 'b and m
    using set_update_subset [of k v m] by (auto simp: storeClearing_def Let_def)
qed (simp add: storeClearing_def Let_def MAX_RESOLVED_ROUTE_CACHE_KEYS_def)

definition evaluated_entry :: "(string, channel_bucket) js_map \<Rightarrow> string \<Rightarrow> evaluated list \<Rightarrow> bool" where
  "evaluated_entry m k es \<longleftrightarrow>
     (\<forall>channel accountId. tab \<notin> set accountId \<and> k = channelAccountKey channel accountId \<longrightarrow>
       es = evaluatedBindings m channel accountId)"

definition index_entry :: "(string, channel_bucket) js_map \<Rightarrow> string \<Rightarrow> bindings_index \<Rightarrow> bool" where
  "index_entry m k ix \<longleftrightarrow>
     (\<forall>channel accountId. tab \<notin> set accountId \<and> k = channelAccountKey channel accountId \<longrightarrow>
       ix = buildEvaluatedBindingsIndex (evaluatedBindings m channel accountId))"

definition bindings_cache_ok :: "config_heap \<Rightarrow> bindings_cache \<Rightarrow> bool" where
  "bindings_cache_ok H c \<longleftrightarrow>
     bc_byChannel c = buildEvaluatedBindingsByChannel (heapConfig H (bc_bindingsRef c) 0 0) \<and>
     memo_ok (evaluated_entry (bc_byChannel c)) (bc_byChannelAccount c) \<and>
     memo_ok (index_entry (bc_byChannel c)) (bc_byChannelAccountIndex c)"

definition route_entry :: "config_heap \<Rightarrow> nat \<Rightarrow> nat \<Rightarrow> nat \<Rightarrow> string \<Rightarrow> resolved_route \<Rightarrow> bool" where
  "route_entry H b a s k r \<longleftrightarrow>
     (\<forall>q d. plain_query q \<and> k = buildResolvedRouteCacheKey q d \<longrightarrow> r = resolveUncached (heapConfig H b a s) q)"

definition route_cache_ok :: "config_heap \<Rightarrow> route_cache \<Rightarrow> bool" where
  "route_cache_ok H c \<longleftrightarrow> memo_ok (route_entry H (rc_bindingsRef c) (rc_agentsRef c) (rc_sessionRef c)) (rc_byKey c)"

definition lookup_cache_ok :: "config_heap \<Rightarrow> lookup_cache \<Rightarrow> bool" where
  "lookup_cache_ok H c \<longleftrightarrow> lc_lookup c = agentLookup (heapConfig H 0 (lc_agentsRef c) 0)"

definition caches_ok :: "config_heap \<Rightarrow> routing_state \<Rightarrow> bool" where
  "caches_ok H st \<longleftrightarrow> memo_ok (\<lambda>_. bindings_cache_ok H) (bindingsCaches st) \<and>
     memo_ok (\<lambda>_. route_cache_ok H) (routeCaches st) \<and> memo_ok (\<lambda>_. lookup_cache_ok H) (lookupCaches st)"

lemma memo_ok_update: "memo_ok P m \<Longrightarrow> P k v \<Longrightarrow> memo_ok P (AList.update k v m)"
  using set_update_subset [of k v m] by (auto simp: memo_ok_def)

lemma memo_ok_single [simp]: "memo_ok P [(k, v)] = P k v"
  by (simp add: memo_ok_def)

text \<open>The last tab of a key separates channel and account.\<close>

lemma channel_account_key_eq:
  "tab \<notin> set a \<Longrightarrow> tab \<notin> set a' \<Longrightarrow> channelAccountKey c a = channelAccountKey c' a' \<Longrightarrow> c = c' \<and> a = a'"
proof -
  assume free: "tab \<notin> set a" "tab \<notin> set a'" and eq: "channelAccountKey c a = channelAccountKey c' a'"
  have key: "takeWhile (\<lambda>x. x \<noteq> tab) (rev (channelAccountKey c a)) = rev a" if "tab \<notin> set a" for c a
    using that takeWhile_append2 [of "rev a" "\<lambda>x. x \<noteq> tab" "tab # rev c"] by (auto simp: channelAccountKey_def)
  have "rev a = rev a'" using key [OF free(1), of c] key [OF free(2), of c'] eq by simp
  then show ?thesis using eq by (simp add: channelAccountKey_def)
qed

lemma evaluated_entry_new: "tab \<notin> set a \<Longrightarrow> evaluated_entry m (channelAccountKey c a) (evaluatedBindings m c a)"
  unfolding evaluated_entry_def by (auto dest: channel_account_key_eq)

lemma index_entry_new:
  "tab \<notin> set a \<Longrightarrow> index_entry m (channelAccountKey c a) (buildEvaluatedBindingsIndex (evaluatedBindings m c a))"
  unfolding index_entry_def by (auto dest: channel_account_key_eq)

lemma bindings_cache_for_ok:
  assumes "caches_ok H st" and "lives_in H cfg"
  shows "bindings_cache_ok H (bindingsCacheFor cfg st)" and "bc_bindingsRef (bindingsCacheFor cfg st) = bindings_ref cfg"
proof -
  have fresh: "bindings_cache_ok H (freshBindingsCache cfg)"
    using by_channel_by_ref [OF assms(2), of 0 0] by (simp add: bindings_cache_ok_def freshBindingsCache_def)
  show "bindings_cache_ok H (bindingsCacheFor cfg st)"
    using fresh assms(1) memo_okD [of "\<lambda>_. bindings_cache_ok H" "bindingsCaches st"]
    by (auto simp: bindingsCacheFor_def caches_ok_def split: option.split)
  show "bc_bindingsRef (bindingsCacheFor cfg st) = bindings_ref cfg"
    by (auto simp: bindingsCacheFor_def freshBindingsCache_def split: option.split)
qed

lemma by_channel_for:
  assumes "caches_ok H st" and "lives_in H cfg"
  shows "bc_byChannel (bindingsCacheFor cfg st) = buildEvaluatedBindingsByChannel cfg"
  using bindings_cache_for_ok [OF assms] by_channel_by_ref [OF assms(2), of 0 0] by (simp add: bindings_cache_ok_def)

lemma bindings_cache_parts:
  assumes "bindings_cache_ok H c"
  shows "memo_ok (evaluated_entry (bc_byChannel c)) (bc_byChannelAccount c)"
    and "memo_ok (index_entry (bc_byChannel c)) (bc_byChannelAccountIndex c)"
  using assms unfolding bindings_cache_ok_def by blast+

lemma bindings_cache_put:
  assumes "bindings_cache_ok H c" and "memo_ok (evaluated_entry (bc_byChannel c)) es" and "memo_ok (index_entry (bc_byChannel c)) ixs"
  shows "bindings_cache_ok H (c\<lparr>bc_byChannelAccount := es, bc_byChannelAccountIndex := ixs\<rparr>)"
    and "bindings_cache_ok H (c\<lparr>bc_byChannelAccountIndex := ixs\<rparr>)"
  using assms by (cases c; auto simp: bindings_cache_ok_def)+

text \<open>Each step of a resolution answers what it would without its cache and keeps the caches sound.\<close>

lemma evaluated_step:
  assumes "caches_ok H st" and "lives_in H cfg" and "tab \<notin> set accountId"
  shows "fst (getEvaluatedBindingsForChannelAccount cfg channel accountId st) =
      evaluatedBindings (buildEvaluatedBindingsByChannel cfg) channel accountId"
    and "caches_ok H (snd (getEvaluatedBindingsForChannelAccount cfg channel accountId st))"
proof -
  let ?c = "bindingsCacheFor cfg st" and ?k = "channelAccountKey channel accountId"
  have ok: "bindings_cache_ok H ?c" by (rule bindings_cache_for_ok [OF assms(1, 2)])
  have m: "bc_byChannel ?c = buildEvaluatedBindingsByChannel cfg" by (rule by_channel_for [OF assms(1, 2)])
  have hit: "es = evaluatedBindings (buildEvaluatedBindingsByChannel cfg) channel accountId"
    if "map_of (bc_byChannelAccount ?c) ?k = Some es" for es
    using ok that assms(3) memo_okD [of "evaluated_entry (bc_byChannel ?c)"]
    by (fastforce simp: bindings_cache_ok_def evaluated_entry_def m)
  show "fst (getEvaluatedBindingsForChannelAccount cfg channel accountId st) =
      evaluatedBindings (buildEvaluatedBindingsByChannel cfg) channel accountId"
    using hit by (auto simp: getEvaluatedBindingsForChannelAccount_def Let_def m split: option.split)
  have put: "caches_ok H (st\<lparr>bindingsCaches := AList.update (cfg_object cfg) c (bindingsCaches st)\<rparr>)"
    if "bindings_cache_ok H c" for c
    using assms(1) that by (simp add: caches_ok_def memo_ok_update)
  have new: "bindings_cache_ok H (?c\<lparr>
      bc_byChannelAccount := storeClearing MAX_EVALUATED_BINDINGS_CACHE_KEYS ?k (evaluatedBindings (bc_byChannel ?c) channel accountId)
        (bc_byChannelAccount ?c),
      bc_byChannelAccountIndex :=
        (if b then [(?k, buildEvaluatedBindingsIndex (evaluatedBindings (bc_byChannel ?c) channel accountId))]
         else AList.update ?k (buildEvaluatedBindingsIndex (evaluatedBindings (bc_byChannel ?c) channel accountId))
           (bc_byChannelAccountIndex ?c))\<rparr>)" for b
    using bindings_cache_parts [OF ok] evaluated_entry_new [OF assms(3)] index_entry_new [OF assms(3)]
    by (intro bindings_cache_put(1) [OF ok]) (simp_all add: memo_ok_update evaluatedTable.store_ok)
  show "caches_ok H (snd (getEvaluatedBindingsForChannelAccount cfg channel accountId st))"
    using put [OF ok] put [OF new]
    by (simp add: getEvaluatedBindingsForChannelAccount_def Let_def split: option.split)
qed

lemma index_step_cached:
  assumes "caches_ok H st" and "lives_in H cfg" and "tab \<notin> set accountId"
  shows "fst (getEvaluatedBindingIndexForChannelAccount cfg channel accountId st) =
      buildEvaluatedBindingsIndex (evaluatedBindings (buildEvaluatedBindingsByChannel cfg) channel accountId)"
    and "caches_ok H (snd (getEvaluatedBindingIndexForChannelAccount cfg channel accountId st))"
proof -
  let ?k = "channelAccountKey channel accountId" and ?es = "evaluatedBindings (buildEvaluatedBindingsByChannel cfg) channel accountId"
  obtain es st1 where g: "getEvaluatedBindingsForChannelAccount cfg channel accountId st = (es, st1)" by fastforce
  have es: "es = ?es" and ok1: "caches_ok H st1" using evaluated_step [OF assms, of channel] by (simp_all add: g)
  have ref: "\<exists>c. map_of (bindingsCaches st1) (cfg_object cfg) = Some c \<and> bc_byChannel c = buildEvaluatedBindingsByChannel cfg"
    using g by_channel_for [OF assms(1, 2)]
    by (auto simp: getEvaluatedBindingsForChannelAccount_def Let_def update_conv' split: option.splits)
  then obtain c where c: "map_of (bindingsCaches st1) (cfg_object cfg) = Some c" "bc_byChannel c = buildEvaluatedBindingsByChannel cfg"
    by blast
  have okc: "bindings_cache_ok H c"
    using ok1 memo_okD [OF _ c(1), of "\<lambda>_. bindings_cache_ok H"] by (simp add: caches_ok_def)
  have hit: "ix = buildEvaluatedBindingsIndex ?es" if "map_of (bc_byChannelAccountIndex c) ?k = Some ix" for ix
    using okc that assms(3) memo_okD [of "index_entry (bc_byChannel c)"]
    by (fastforce simp: bindings_cache_ok_def index_entry_def c(2))
  have put: "caches_ok H (st1\<lparr>bindingsCaches := AList.update (cfg_object cfg)
      (c\<lparr>bc_byChannelAccountIndex := AList.update ?k (buildEvaluatedBindingsIndex ?es) (bc_byChannelAccountIndex c)\<rparr>) (bindingsCaches st1)\<rparr>)"
  proof -
    have "bindings_cache_ok H (c\<lparr>bc_byChannelAccountIndex := AList.update ?k (buildEvaluatedBindingsIndex ?es) (bc_byChannelAccountIndex c)\<rparr>)"
      using index_entry_new [OF assms(3)] c(2) bindings_cache_parts [OF okc]
      by (intro bindings_cache_put(2) [OF okc bindings_cache_parts(1) [OF okc]]) (simp add: memo_ok_update)
    then show ?thesis using ok1 by (simp add: caches_ok_def memo_ok_update)
  qed
  show "fst (getEvaluatedBindingIndexForChannelAccount cfg channel accountId st) = buildEvaluatedBindingsIndex ?es"
    "caches_ok H (snd (getEvaluatedBindingIndexForChannelAccount cfg channel accountId st))"
    using hit put ok1
    by (auto simp: getEvaluatedBindingIndexForChannelAccount_def g es c(1) Let_def split: option.split)
qed

lemma lookup_step:
  assumes "caches_ok H st" and "lives_in H cfg"
  shows "fst (resolveAgentLookupCache cfg st) = agentLookup cfg" and "caches_ok H (snd (resolveAgentLookupCache cfg st))"
proof -
  have new: "lookup_cache_ok H \<lparr>lc_agentsRef = agents_ref cfg, lc_lookup = agentLookup cfg\<rparr>"
    using lookup_by_ref [OF assms(2), of 0 0] by (simp add: lookup_cache_ok_def)
  have hit: "lc_lookup c = agentLookup cfg"
    if "map_of (lookupCaches st) (cfg_object cfg) = Some c" "lc_agentsRef c = agents_ref cfg" for c
    using assms(1) that memo_okD [OF _ that(1), of "\<lambda>_. lookup_cache_ok H"] lookup_by_ref [OF assms(2), of 0 0]
    by (simp add: caches_ok_def lookup_cache_ok_def)
  show "fst (resolveAgentLookupCache cfg st) = agentLookup cfg" "caches_ok H (snd (resolveAgentLookupCache cfg st))"
    using hit assms(1) new
    by (auto simp: resolveAgentLookupCache_def caches_ok_def memo_ok_update split: option.split)
qed

lemma route_cache_for_ok:
  assumes "caches_ok H st"
  shows "route_cache_ok H (routeCacheFor cfg st)" and "rc_bindingsRef (routeCacheFor cfg st) = bindings_ref cfg"
    and "rc_agentsRef (routeCacheFor cfg st) = agents_ref cfg" and "rc_sessionRef (routeCacheFor cfg st) = session_ref cfg"
proof -
  have "route_cache_ok H c" if "map_of (routeCaches st) (cfg_object cfg) = Some c" for c
    using assms memo_okD [OF _ that, of "\<lambda>_. route_cache_ok H"] by (simp add: caches_ok_def)
  then show "route_cache_ok H (routeCacheFor cfg st)"
    by (auto simp: routeCacheFor_def Let_def route_cache_ok_def split: option.split)
  show "rc_bindingsRef (routeCacheFor cfg st) = bindings_ref cfg" "rc_agentsRef (routeCacheFor cfg st) = agents_ref cfg"
    "rc_sessionRef (routeCacheFor cfg st) = session_ref cfg"
    by (auto simp: routeCacheFor_def Let_def split: option.split)
qed

lemma route_entry_new:
  assumes "lives_in H cfg" and "plain_query q"
  shows "route_entry H (bindings_ref cfg) (agents_ref cfg) (session_ref cfg) (buildResolvedRouteCacheKey q d) (resolveUncached cfg q)"
  unfolding route_entry_def
proof (intro allI impI)
  fix q' d' assume "plain_query q' \<and> buildResolvedRouteCacheKey q d = buildResolvedRouteCacheKey q' d'"
  then have "q' = q\<lparr>rq_roles := rq_roles q'\<rparr>" "set (rq_roles q') = set (rq_roles q)"
    using route_key_eq [OF assms(2), of q' d d'] by simp_all
  then have "resolveUncached cfg q' = resolveUncached cfg q" by (metis route_roles)
  then show "resolveUncached cfg q = resolveUncached (heapConfig H (bindings_ref cfg) (agents_ref cfg) (session_ref cfg)) q'"
    by (simp add: route_by_ref [OF assms(1), symmetric])
qed

lemma remember_step:
  assumes "caches_ok H st" and "lives_in H cfg" and "plain_query q"
  shows "caches_ok H (rememberRoute cfg (buildResolvedRouteCacheKey q d) (resolveUncached cfg q) st)"
  using assms(1) route_cache_for_ok [OF assms(1), of cfg] route_entry_new [OF assms(2, 3), of d]
  by (simp add: rememberRoute_def caches_ok_def memo_ok_update route_cache_ok_def routeTable.store_ok Let_def)

lemma route_cache_step:
  assumes "caches_ok H st"
  shows "caches_ok H (snd (resolveRouteCacheForConfig cfg st))"
  using assms route_cache_for_ok(1) [OF assms, of cfg] by (simp add: resolveRouteCacheForConfig_def caches_ok_def memo_ok_update)

lemma route_cache_hit:
  assumes "caches_ok H st" and "lives_in H cfg" and "plain_query q"
    and "map_of (fst (resolveRouteCacheForConfig cfg st)) (buildResolvedRouteCacheKey q d) = Some r"
  shows "r = resolveUncached cfg q"
proof -
  have "route_entry H (bindings_ref cfg) (agents_ref cfg) (session_ref cfg) (buildResolvedRouteCacheKey q d) r"
    using assms(4) route_cache_for_ok [OF assms(1), of cfg]
    by (auto simp: resolveRouteCacheForConfig_def route_cache_ok_def dest: memo_okD)
  then show ?thesis using assms(3) route_by_ref [OF assms(2)] by (auto simp: route_entry_def)
qed

lemma account_free: "rq_account (routeQuery input) = normalizeAccountId (ri_account input)"
  by (simp add: routeQuery_def)

lemma tab_account: "tab \<notin> set (rq_account (routeQuery input))"
  using normalizeAccountId_shape [of "ri_account input"]
  by (auto simp: account_free tab_def id_char_def lower_alnum_def is_digit_def)

lemma resolve_step:
  assumes "caches_ok H st" and "lives_in H cfg" and "plain_query (routeQuery input)"
  shows "fst (resolveAgentRoute verbose cfg input st) = resolveUncached cfg (routeQuery input) \<and>
    caches_ok H (snd (snd (resolveAgentRoute verbose cfg input st)))"
proof -
  let ?q = "routeQuery input"
  let ?use = "\<not> verbose \<and> Option.bind (cfg_session cfg) sc_identityLinks = None"
  obtain byKey st1 where r: "(if ?use then resolveRouteCacheForConfig cfg st else ([], st)) = (byKey, st1)" by fastforce
  have ok1: "caches_ok H st1"
    using r assms(1) route_cache_step [OF assms(1), of cfg] by (auto split: if_splits dest: arg_cong [where f = snd])
  obtain es st2 where e: "getEvaluatedBindingsForChannelAccount cfg (rq_channel ?q) (rq_account ?q) st1 = (es, st2)" by fastforce
  obtain ix st3 where i: "getEvaluatedBindingIndexForChannelAccount cfg (rq_channel ?q) (rq_account ?q) st2 = (ix, st3)" by fastforce
  obtain l st4 where l: "resolveAgentLookupCache cfg st3 = (l, st4)" by fastforce
  have ok2: "caches_ok H st2" using evaluated_step(2) [OF ok1 assms(2) tab_account] e by (metis snd_conv)
  have ix: "ix = buildEvaluatedBindingsIndex (evaluatedBindings (buildEvaluatedBindingsByChannel cfg) (rq_channel ?q) (rq_account ?q))"
    and ok3: "caches_ok H st3"
    using index_step_cached [OF ok2 assms(2) tab_account, of "rq_channel ?q" input] i by simp_all
  have lk: "l = agentLookup cfg" and ok4: "caches_ok H st4" using lookup_step [OF ok3 assms(2)] l by simp_all
  have fresh: "routeFromMatch cfg l ?q (firstTierMatch (tiers ix ?q) ?q) = resolveUncached cfg ?q"
    by (simp add: resolveUncached_def ix lk Let_def)
  have hit: "v = resolveUncached cfg ?q"
    if "?use" and "map_of byKey (buildResolvedRouteCacheKey ?q d) = Some v" for v d
    using that r route_cache_hit [OF assms, of d v] by simp
  show ?thesis
    unfolding resolveAgentRoute_def Let_def r e i l prod.case fresh
    using hit ok1 ok4 remember_step [OF ok4 assms(2, 3)] by (auto split: option.split)
qed

subsection \<open>Sequences of resolutions\<close>

type_synonym route_call = "bool \<times> routing_config \<times> route_input"

fun routeCall :: "route_call \<Rightarrow> routing_state \<Rightarrow> routing_state" where
  "routeCall (verbose, cfg, input) st = snd (snd (resolveAgentRoute verbose cfg input st))"

fun plain_call :: "config_heap \<Rightarrow> route_call \<Rightarrow> bool" where
  "plain_call H (verbose, cfg, input) \<longleftrightarrow> lives_in H cfg \<and> plain_query (routeQuery input)"

interpretation routing: permitted_system "caches_ok H" routeCall "plain_call H" for H
proof
  fix st c assume "caches_ok H st" "plain_call H c"
  then show "caches_ok H (routeCall c st)" by (cases c) (use resolve_step in fastforce)
qed

lemma no_caches_ok [simp]: "caches_ok H noCaches"
  by (simp add: caches_ok_def noCaches_def)

text \<open>C6: The caches are invisible. After any sequence of resolutions against configurations whose parts are never
  changed in place, and for messages with unambiguous ids, a resolution gives the route it would compute
  from the configuration alone.\<close>

theorem route_cache_invisible:
  assumes "\<forall>c \<in> set calls. plain_call H c" and "plain_call H (verbose, cfg, input)"
  shows "fst (resolveAgentRoute verbose cfg input (fold routeCall calls noCaches)) = resolveUncached cfg (routeQuery input)"
  using resolve_step [OF routing.run_inv [OF no_caches_ok assms(1)]] assms(2) by simp

definition sample_binding :: agent_binding where
  "sample_binding = \<lparr>ab_type = None, ab_agent = ''sales'',
     ab_match = Some \<lparr>mc_channel = Some ''telegram'', mc_account = Some ''*'', mc_peer = None, mc_guild = None, mc_team = None, mc_roles = None\<rparr>,
     ab_dmScope = None\<rparr>"

definition sample_config :: routing_config where
  "sample_config = \<lparr>cfg_object = 0, bindings_ref = 1, cfg_bindings = Some [sample_binding], agents_ref = 2, cfg_agents = None,
     session_ref = 3, cfg_session = None\<rparr>"

definition sample_input :: route_input where
  "sample_input = \<lparr>ri_channel = ''Telegram'', ri_account = None, ri_peer = Some \<lparr>rp_kind = Group, rp_id = ''42''\<rparr>,
     ri_parentPeer = None, ri_guild = None, ri_team = None, ri_roles = None\<rparr>"

lemma sample_plain: "plain_query (routeQuery sample_input)"
  by code_simp

theorem route_cache_invisible_witness:
  "fst (resolveAgentRoute False sample_config sample_input
     (fold routeCall [(False, sample_config, sample_input), (True, sample_config, sample_input)] noCaches)) =
   resolveUncached sample_config (routeQuery sample_input)"
proof -
  let ?H = "\<lparr>heap_bindings = \<lambda>_. Some [sample_binding], heap_agents = \<lambda>_. None, heap_session = \<lambda>_. None\<rparr>"
  have "lives_in ?H sample_config" by (simp add: lives_in_def sample_config_def)
  then have "plain_call ?H (v, sample_config, sample_input)" for v using sample_plain by simp
  then show ?thesis by (intro route_cache_invisible [of _ ?H]) simp_all
qed

subsection \<open>A caller that writes into its route\<close>

lemma bindings_steps_keep_routes:
  "routeCaches (snd (getEvaluatedBindingsForChannelAccount cfg c a st)) = routeCaches st"
  "routeCaches (snd (getEvaluatedBindingIndexForChannelAccount cfg c a st)) = routeCaches st"
  "routeCaches (snd (resolveAgentLookupCache cfg st)) = routeCaches st"
  by (auto simp: getEvaluatedBindingsForChannelAccount_def getEvaluatedBindingIndexForChannelAccount_def
      resolveAgentLookupCache_def Let_def split: prod.splits option.splits)

text \<open>A route computed for the first time is shared with the cache: when its caller then assigns the session key,
  as the Teams handlers do for a message in a thread, every later resolution of a message with the same ids gets
  that caller's session key instead of its own, until the configuration changes or the cache is emptied.\<close>

theorem first_caller_writes_into_cache:
  assumes "Option.bind (cfg_session cfg) sc_identityLinks = None"
    and "resolveAgentRoute False cfg input st = (route, Some shared, st1)"
  shows "fst (resolveAgentRoute False cfg input (assignSessionKey (Some shared) k st1)) = route\<lparr>rt_sessionKey := k\<rparr>"
proof -
  let ?q = "routeQuery input" and ?key = "buildResolvedRouteCacheKey (routeQuery input) (configuredDmScope cfg)"
  obtain byKey s1 where r: "resolveRouteCacheForConfig cfg st = (byKey, s1)" by fastforce
  obtain es s2 where e: "getEvaluatedBindingsForChannelAccount cfg (rq_channel ?q) (rq_account ?q) s1 = (es, s2)" by fastforce
  obtain ix s3 where i: "getEvaluatedBindingIndexForChannelAccount cfg (rq_channel ?q) (rq_account ?q) s2 = (ix, s3)" by fastforce
  obtain l s4 where l: "resolveAgentLookupCache cfg s3 = (l, s4)" by fastforce
  have key: "?key \<noteq> []" by (simp add: buildResolvedRouteCacheKey_def)
  have res: "shared = (cfg_object cfg, ?key)" "st1 = rememberRoute cfg ?key route s4"
    using assms(2) key by (auto simp: resolveAgentRoute_def Let_def r e i l assms(1) split: option.splits)
  have routeCache: "routeCacheFor cfg (assignSessionKey (Some shared) k st1) = (routeCacheFor cfg s4)\<lparr>rc_byKey :=
      AList.update ?key (route\<lparr>rt_sessionKey := k\<rparr>) (storeClearing MAX_RESOLVED_ROUTE_CACHE_KEYS ?key route (rc_byKey (routeCacheFor cfg s4)))\<rparr>"
  proof -
    have "rc_bindingsRef (routeCacheFor cfg s4) = bindings_ref cfg" "rc_agentsRef (routeCacheFor cfg s4) = agents_ref cfg"
      "rc_sessionRef (routeCacheFor cfg s4) = session_ref cfg"
      by (auto simp: routeCacheFor_def Let_def split: option.split)
    then show ?thesis
      by (simp add: res rememberRoute_def assignSessionKey_def storeClearing_def Let_def update_conv' routeCacheFor_def [of cfg "_\<lparr>routeCaches := _\<rparr>"])
  qed
  then show ?thesis
    using key by (simp add: resolveAgentRoute_def Let_def assms(1) resolveRouteCacheForConfig_def update_conv')
qed

theorem first_caller_writes_into_cache_witness:
  "let (route, shared, st1) = resolveAgentRoute False sample_config sample_input noCaches;
       threadKey = resolveMSTeamsRouteSessionKey (rt_sessionKey route) True (Some ''7'') None
   in fst (resolveAgentRoute False sample_config sample_input (assignSessionKey shared threadKey st1)) =
      route\<lparr>rt_sessionKey := rt_sessionKey route @ '':thread:7''\<rparr>"
proof -
  obtain route shared st1 where r: "resolveAgentRoute False sample_config sample_input noCaches = (route, shared, st1)"
    by (metis prod_cases3)
  have "snd (resolveRouteCacheForConfig sample_config noCaches) = snd (resolveRouteCacheForConfig sample_config noCaches) \<and>
    fst (resolveRouteCacheForConfig sample_config noCaches) = []"
    by (simp add: resolveRouteCacheForConfig_def routeCacheFor_def noCaches_def)
  moreover have "buildResolvedRouteCacheKey q d \<noteq> []" for q d by (simp add: buildResolvedRouteCacheKey_def)
  ultimately have "\<exists>s. shared = Some s"
    using r by (auto simp: resolveAgentRoute_def Let_def sample_config_def split: prod.splits option.splits)
  then obtain s where s: "shared = Some s" by blast
  have key: "resolveMSTeamsRouteSessionKey b True (Some ''7'') None = b @ '':thread:7''" for b
    by (simp add: resolveMSTeamsRouteSessionKey_def resolveThreadSessionKeys_def lower_or_empty Let_def js_lower_def
        js_lower_char_def js_trim_def js_space_def)
  have "Option.bind (cfg_session sample_config) sc_identityLinks = None" by (simp add: sample_config_def)
  then show ?thesis
    using first_caller_writes_into_cache [OF _ r [unfolded s], of "rt_sessionKey route @ '':thread:7''"]
    by (simp add: r s key)
qed

end
