(* ===== verification/SendPolicy.thy ===== *)
theory SendPolicy
  imports SessionKeys
begin

text \<open>
  Whether a session may be sent to: \<^verbatim>\<open>packages/core/src/sessions/send-policy.ts\<close>, with the chat type a session
  key tells (\<^verbatim>\<open>session-chat-type-shared.ts\<close>, \<^verbatim>\<open>session-chat-type.ts\<close>). The derivations of the channel
  plugins for their old key formats are an argument.

  The lemmas show that a matching deny rule wins wherever it stands, and that a key the router built for a group or
  channel is classified as such, so that rules about groups bite on the keys that exist.
\<close>

subsection \<open>Chat type of a key\<close>

text \<open>\<open>None\<close> stands for \<^verbatim>\<open>unknown\<close>.\<close>

type_synonym legacy_derivation = "string \<Rightarrow> chat_type option"

definition deriveBuiltInLegacySessionChatType :: legacy_derivation where
  "deriveBuiltInLegacySessionChatType scoped =
     (case js_split CHR '':'' scoped of [w, rest] \<Rightarrow> if w = ''group'' \<and> rest \<noteq> [] then Some Group else None | _ \<Rightarrow> None)"

fun firstDerived :: "legacy_derivation list \<Rightarrow> string \<Rightarrow> chat_type option" where
  "firstDerived [] key = None"
| "firstDerived (d # ds) key = (case d key of Some t \<Rightarrow> Some t | None \<Rightarrow> firstDerived ds key)"

definition deriveSessionChatTypeFromScopedKey :: "legacy_derivation list \<Rightarrow> string \<Rightarrow> chat_type option" where
  "deriveSessionChatTypeFromScopedKey legacy scoped =
     (let tokens = set (segments scoped)
      in if ''group'' \<in> tokens then Some Group
         else if ''channel'' \<in> tokens then Some Channel
         else if ''direct'' \<in> tokens \<or> ''dm'' \<in> tokens then Some Direct
         else (case deriveBuiltInLegacySessionChatType scoped of
                 Some t \<Rightarrow> Some t
               | None \<Rightarrow> firstDerived legacy scoped))"

definition deriveSessionChatTypeFromKey :: "legacy_derivation list \<Rightarrow> string option \<Rightarrow> chat_type option" where
  "deriveSessionChatTypeFromKey legacy sessionKey =
     (let raw = normalizeLowercaseStringOrEmpty sessionKey
      in if raw = [] then None
         else deriveSessionChatTypeFromScopedKey legacy
                (coalesce (map_option key_rest (parseAgentSessionKey (Some raw))) raw))"

definition deriveSessionChatType :: "legacy_derivation list \<Rightarrow> string option \<Rightarrow> chat_type option" where
  "deriveSessionChatType plugins sessionKey =
     (case deriveSessionChatTypeFromKey [] sessionKey of
        Some t \<Rightarrow> Some t
      | None \<Rightarrow> deriveSessionChatTypeFromKey plugins sessionKey)"

subsection \<open>Rules\<close>

datatype send_decision = SendAllow | SendDeny

record rule_match =
  rm_channel :: "string option"
  rm_chatType :: "string option"
  rm_keyPrefix :: "string option"
  rm_rawKeyPrefix :: "string option"

record send_rule =
  sr_action :: "string option"
  sr_match :: "rule_match option"

record send_policy =
  sp_default :: "string option"
  sp_rules :: "send_rule option list option"

record send_entry =
  se_sendPolicy :: "string option"
  se_channel :: "string option"
  se_lastChannel :: "string option"
  se_chatType :: "string option"

definition normalizeSendPolicy :: "string option \<Rightarrow> send_decision option" where
  "normalizeSendPolicy raw =
     (case normalizeOptionalLowercaseString raw of
        None \<Rightarrow> None
      | Some value \<Rightarrow> if value = ''allow'' then Some SendAllow else if value = ''deny'' then Some SendDeny else None)"

definition normalizeMatchValue :: "string option \<Rightarrow> string option" where
  "normalizeMatchValue raw =
     (let value = normalizeOptionalLowercaseString raw in if truthy_string value then value else None)"

definition stripAgentSessionKeyPrefix :: "string option \<Rightarrow> string option" where
  "stripAgentSessionKeyPrefix key =
     (case key of
        None \<Rightarrow> None
      | Some k \<Rightarrow>
          if k = [] then None
          else (let parts = segments k
                in if 3 \<le> length parts \<and> parts ! 0 = ''agent'' then Some (js_join '':'' (drop 2 parts)) else Some k))"

definition deriveChannelFromKey :: "string option \<Rightarrow> string option" where
  "deriveChannelFromKey key =
     (let normalizedKey = stripAgentSessionKeyPrefix key
      in if \<not> truthy_string normalizedKey then None
         else (let parts = segments (coalesce normalizedKey [])
               in if 3 \<le> length parts \<and> (parts ! 1 = ''group'' \<or> parts ! 1 = ''channel'') then normalizeMatchValue (Some (parts ! 0))
                  else None))"

definition deriveChatTypeFromKey :: "legacy_derivation list \<Rightarrow> string option \<Rightarrow> chat_type option" where
  "deriveChatTypeFromKey plugins key =
     (case normalizeOptionalLowercaseString (stripAgentSessionKeyPrefix key) of
        None \<Rightarrow> None
      | Some normalizedKey \<Rightarrow>
          (let tokens = set (segments normalizedKey)
           in if ''group'' \<in> tokens then Some Group
              else if ''channel'' \<in> tokens then Some Channel
              else if ''direct'' \<in> tokens \<or> ''dm'' \<in> tokens then Some Direct
              else deriveSessionChatType plugins (Some normalizedKey)))"

record send_params =
  sd_policy :: "send_policy option"
  sd_entry :: "send_entry option"
  sd_sessionKey :: "string option"
  sd_channel :: "string option"
  sd_chatType :: "string option"

definition getChannel :: "send_params \<Rightarrow> string option" where
  "getChannel p =
     or_else (normalizeMatchValue (sd_channel p))
       (or_else (normalizeMatchValue (Option.bind (sd_entry p) se_channel))
         (or_else (normalizeMatchValue (Option.bind (sd_entry p) se_lastChannel)) (deriveChannelFromKey (sd_sessionKey p))))"

definition getChatType :: "legacy_derivation list \<Rightarrow> send_params \<Rightarrow> chat_type option" where
  "getChatType plugins p =
     or_else (normalizeChatType (or_else (sd_chatType p) (Option.bind (sd_entry p) se_chatType)))
       (normalizeChatType (map_option chat_type_name (deriveChatTypeFromKey plugins (sd_sessionKey p))))"

text \<open>One turn of the loop over the rules: whether the rule applies to the session.\<close>

definition ruleApplies :: "legacy_derivation list \<Rightarrow> send_params \<Rightarrow> send_rule \<Rightarrow> bool" where
  "ruleApplies plugins p rule =
     (let rawSessionKey = coalesce (sd_sessionKey p) [];
          strippedSessionKey = coalesce (stripAgentSessionKeyPrefix (Some rawSessionKey)) [];
          rawSessionKeyNorm = normalizeLowercaseStringOrEmpty (Some rawSessionKey);
          strippedSessionKeyNorm = normalizeLowercaseStringOrEmpty (Some strippedSessionKey);
          matchChannel = normalizeMatchValue (Option.bind (sr_match rule) rm_channel);
          matchChatType = normalizeChatType (Option.bind (sr_match rule) rm_chatType);
          matchPrefix = normalizeMatchValue (Option.bind (sr_match rule) rm_keyPrefix);
          matchRawPrefix = normalizeMatchValue (Option.bind (sr_match rule) rm_rawKeyPrefix)
      in if truthy_string matchChannel \<and> matchChannel \<noteq> getChannel p then False
         else if matchChatType \<noteq> None \<and> matchChatType \<noteq> getChatType plugins p then False
         else if truthy_string matchRawPrefix \<and> \<not> starts_with (coalesce matchRawPrefix []) rawSessionKeyNorm then False
         else if truthy_string matchPrefix \<and> \<not> starts_with (coalesce matchPrefix []) rawSessionKeyNorm \<and>
            \<not> starts_with (coalesce matchPrefix []) strippedSessionKeyNorm then False
         else True)"

definition ruleAction :: "send_rule \<Rightarrow> send_decision" where
  "ruleAction rule = coalesce (normalizeSendPolicy (sr_action rule)) SendAllow"

text \<open>The loop gives the denial it returned with, or whether a rule allowed.\<close>

fun applyRules :: "legacy_derivation list \<Rightarrow> send_params \<Rightarrow> send_rule option list \<Rightarrow> bool \<Rightarrow> send_decision + bool" where
  "applyRules plugins p [] allowedMatch = Inr allowedMatch"
| "applyRules plugins p (None # rules) allowedMatch = applyRules plugins p rules allowedMatch"
| "applyRules plugins p (Some rule # rules) allowedMatch =
     (if \<not> ruleApplies plugins p rule then applyRules plugins p rules allowedMatch
      else if ruleAction rule = SendDeny then Inl SendDeny
      else applyRules plugins p rules True)"

definition resolveSendPolicy :: "legacy_derivation list \<Rightarrow> send_params \<Rightarrow> send_decision" where
  "resolveSendPolicy plugins p =
     (case normalizeSendPolicy (Option.bind (sd_entry p) se_sendPolicy) of
        Some override \<Rightarrow> override
      | None \<Rightarrow>
          (case sd_policy p of
             None \<Rightarrow> SendAllow
           | Some policy \<Rightarrow>
               (case applyRules plugins p (coalesce (sp_rules policy) []) False of
                  Inl d \<Rightarrow> d
                | Inr allowedMatch \<Rightarrow>
                    if allowedMatch then SendAllow else coalesce (normalizeSendPolicy (sp_default policy)) SendAllow)))"

subsection \<open>Deny wins\<close>

lemma apply_rules:
  "applyRules plugins p rules a =
     (if \<exists>r. Some r \<in> set rules \<and> ruleApplies plugins p r \<and> ruleAction r = SendDeny then Inl SendDeny
      else Inr (a \<or> (\<exists>r. Some r \<in> set rules \<and> ruleApplies plugins p r)))"
  by (induction plugins p rules a rule: applyRules.induct) auto

lemma send_decision_cases: "d \<noteq> SendDeny \<longleftrightarrow> d = SendAllow"
  by (cases d) auto

text \<open>A session is denied in exactly three ways: its own setting says so; or, without a setting of its own, some rule that
  applies denies, wherever it stands among the rules; or no rule applies and the default denies.
  Nothing else, and no order of the rules, changes the decision.\<close>

theorem send_denied_iff:
  "resolveSendPolicy plugins p = SendDeny \<longleftrightarrow>
   (let own = normalizeSendPolicy (Option.bind (sd_entry p) se_sendPolicy);
        rules = {r. \<exists>policy. sd_policy p = Some policy \<and> Some r \<in> set (coalesce (sp_rules policy) []) \<and> ruleApplies plugins p r}
    in own = Some SendDeny \<or>
       own = None \<and> ((\<exists>r \<in> rules. ruleAction r = SendDeny) \<or>
         rules = {} \<and> (\<exists>policy. sd_policy p = Some policy \<and> normalizeSendPolicy (sp_default policy) = Some SendDeny)))"
proof (cases "normalizeSendPolicy (Option.bind (sd_entry p) se_sendPolicy)")
  case None
  show ?thesis
  proof (cases "sd_policy p")
    case (Some policy)
    show ?thesis using None Some
      by (cases "normalizeSendPolicy (sp_default policy)")
        (auto simp: resolveSendPolicy_def apply_rules send_decision_cases)
  qed (simp add: resolveSendPolicy_def None)
qed (simp add: resolveSendPolicy_def)

subsection \<open>Keys the router builds are classified as built\<close>

lemma segments_of_join:
  assumes "\<forall>p \<in> set ps. p \<noteq> [] \<and> CHR '':'' \<notin> set p"
  shows "segments (js_join '':'' ps) = ps"
proof (cases "ps = []")
  case False
  then have "js_split CHR '':'' (js_join '':'' ps) = ps" using assms by (intro js_split_join) auto
  then show ?thesis using assms by (simp add: segments_def)
qed simp

text \<open>A room whose channel and id are free of colons.\<close>

definition identified :: "peer_key_params \<Rightarrow> bool" where
  "identified p \<longleftrightarrow> peer_token p \<noteq> [] \<and> CHR '':'' \<notin> set (peer_token p) \<and> CHR '':'' \<notin> set (channel_token p)"

lemma room_key_segments:
  assumes "identified p" "kind_of p \<noteq> Direct"
  shows "segments (buildAgentPeerSessionKey p) =
    [''agent'', normalizeAgentId (pk_agent p), channel_token p, chat_type_name (kind_of p), peer_token p]"
proof -
  have ne: "channel_token p \<noteq> []" "peer_token p \<noteq> []" "CHR '':'' \<notin> set (peer_token p)" "CHR '':'' \<notin> set (channel_token p)"
    using assms(1) by (simp_all add: identified_def channel_token_def)
  have "buildAgentPeerSessionKey p = js_join '':'' [''agent'', normalizeAgentId (pk_agent p), channel_token p, chat_type_name (kind_of p), peer_token p]"
    using assms(2) ne(2) by (simp add: key_text conversation_of_def text_or_def js_join_Cons)
  then show ?thesis using ne agent_colon by (simp only:, intro segments_of_join) auto
qed

text \<open>The session key the router builds for an identified group or channel conversation tells its kind and its channel, unless
  an id is itself one of the words the classifier looks for.\<close>

theorem built_key_classified:
  assumes "identified p" and "kind_of p \<noteq> Direct"
    and "{channel_token p, peer_token p} \<inter> {''group'', ''channel''} = {}"
    and "js_trim (channel_token p) = channel_token p"
  shows "deriveChatTypeFromKey plugins (Some (buildAgentPeerSessionKey p)) = Some (kind_of p) \<and>
    deriveChannelFromKey (Some (buildAgentPeerSessionKey p)) = Some (channel_token p)"
proof -
  let ?k = "buildAgentPeerSessionKey p" and ?rest = "js_join '':'' [channel_token p, chat_type_name (kind_of p), peer_token p]"
  have ne: "channel_token p \<noteq> []" "peer_token p \<noteq> []" "CHR '':'' \<notin> set (peer_token p)" "CHR '':'' \<notin> set (channel_token p)"
    using assms(1) by (simp_all add: identified_def channel_token_def)
  note seg = room_key_segments [OF assms(1,2)]
  have k: "?k \<noteq> []"
  proof
    assume "?k = []"
    then show False using seg by simp
  qed
  have strip: "stripAgentSessionKeyPrefix (Some ?k) = Some ?rest"
    using k by (simp add: stripAgentSessionKeyPrefix_def Let_def seg)
  have rest_seg: "segments ?rest = [channel_token p, chat_type_name (kind_of p), peer_token p]"
    using ne by (intro segments_of_join) auto
  have low: "js_lower ?rest = ?rest"
    by (simp add: channel_token_def peer_token_def js_lower_Cons js_lower_char_def)
  have trim: "js_trim ?rest = ?rest"
  proof (rule trim_fix)
    show "\<not> js_space (hd ?rest)" using trim_ends [of "channel_token p"] assms(4) ne(1) by simp
    show "\<not> js_space (last ?rest)" using token_ends [of "pk_peer p"] ne(2) by (simp add: peer_token_def)
  qed (use ne in simp)
  have norm: "normalizeOptionalLowercaseString (Some ?rest) = Some ?rest"
    unfolding normalizeOptionalLowercaseString_def normalizeOptionalString_def normalizeNullableString_def option.case Let_def trim
    using ne(1) low by auto
  have tokens: "set (segments ?rest) = {channel_token p, chat_type_name (kind_of p), peer_token p}" by (simp only: rest_seg list.set)
  have kind: "deriveChatTypeFromKey plugins (Some ?k) = Some (kind_of p)"
    unfolding deriveChatTypeFromKey_def strip norm option.case Let_def tokens
    using assms(2, 3) by (cases "kind_of p") auto
  have chan: "js_lower (channel_token p) = channel_token p" by (simp add: channel_token_def)
  have "normalizeMatchValue (Some (channel_token p)) = Some (channel_token p)"
    using ne(1) assms(4) chan
    by (simp add: normalizeMatchValue_def normalizeOptionalLowercaseString_def normalizeOptionalString_def normalizeNullableString_def)
  moreover have "kind_of p = Group \<or> kind_of p = Channel" using assms(2) by (cases "kind_of p") auto
  ultimately have "deriveChannelFromKey (Some ?k) = Some (channel_token p)"
    unfolding deriveChannelFromKey_def strip Let_def coalesce_simps rest_seg using ne by auto
  with kind show ?thesis by simp
qed

theorem built_key_classified_witness:
  "let p = \<lparr>pk_agent = Some ''main'', pk_mainKey = None, pk_channel = ''Slack'', pk_account = None, pk_kind = Some Channel,
        pk_peer = Some ''C1'', pk_links = None, pk_scope = None\<rparr>
   in deriveChatTypeFromKey [] (Some (buildAgentPeerSessionKey p)) = Some Channel"
proof -
  let ?p = "\<lparr>pk_agent = Some ''main'', pk_mainKey = None, pk_channel = ''Slack'', pk_account = None, pk_kind = Some Channel,
        pk_peer = Some ''C1'', pk_links = None, pk_scope = None\<rparr>"
  have "identified ?p \<and> kind_of ?p = Channel \<and> channel_token ?p = ''slack'' \<and> peer_token ?p = ''c1'' \<and> js_trim ''slack'' = ''slack''"
    by code_simp
  then show ?thesis using built_key_classified [of ?p "[]"] by simp
qed

end
