(* ===== verification/OAuthClient.thy ===== *)
theory OAuthClient
  imports FormEncoding
begin

text \<open>
  Signing in at the gateway: \<^verbatim>\<open>packages/oauth-client/src/pkce.ts\<close>, \<^verbatim>\<open>client.ts\<close> and \<^verbatim>\<open>callback-server.ts\<close>. The random bytes,
  the SHA-256 digest, the text a base URL is normalised to and the network are arguments; a token response is read
  at its declared type.

  The lemmas show that what the authorization URL carries is what the client remembers, that the challenge commits
  to the verifier, and that the callback server settles the login by its first callback, and successfully only with
  the expected state.
\<close>

subsection \<open>PKCE\<close>

definition base64_char :: "nat \<Rightarrow> char" where
  "base64_char n =
     (if n < 26 then char_of (65 + n) else if n < 52 then char_of (71 + n) else if n < 62 then char_of (n - 4)
      else if n = 62 then CHR ''+'' else CHR ''/'')"

fun base64 :: "nat list \<Rightarrow> string" where
  "base64 [] = []"
| "base64 [a] = [base64_char (a div 4), base64_char (16 * (a mod 4)), CHR ''='', CHR ''='']"
| "base64 [a, b] = [base64_char (a div 4), base64_char (16 * (a mod 4) + b div 16), base64_char (4 * (b mod 16)), CHR ''='']"
| "base64 (a # b # c # bs) =
     [base64_char (a div 4), base64_char (16 * (a mod 4) + b div 16), base64_char (4 * (b mod 16) + c div 64), base64_char (c mod 64)]
     @ base64 bs"

definition base64url :: "nat list \<Rightarrow> string" where
  "base64url buf =
     map (\<lambda>c. if c = CHR ''+'' then CHR ''-'' else if c = CHR ''/'' then CHR ''_'' else c)
       (filter (\<lambda>c. c \<noteq> CHR ''='') (base64 buf))"

record pkce_pair =
  verifier :: string
  challenge :: string
  challenge_method :: string

definition generatePkcePair :: "(string \<Rightarrow> nat list) \<Rightarrow> nat list \<Rightarrow> pkce_pair" where
  "generatePkcePair sha256 random =
     (let v = base64url random in \<lparr>verifier = v, challenge = base64url (sha256 v), challenge_method = ''S256''\<rparr>)"

definition verifyChallenge :: "(string \<Rightarrow> nat list) \<Rightarrow> string \<Rightarrow> string \<Rightarrow> bool" where
  "verifyChallenge sha256 v ch = (base64url (sha256 v) = ch)"

subsection \<open>The client\<close>

record oauth_config =
  gatewayBase :: string
  clientId :: string
  redirectUri :: string
  oauth_scope :: string

record authorize_url =
  au_url :: string
  au_verifier :: string
  au_state :: string

fun hex_text :: "nat list \<Rightarrow> string" where
  "hex_text [] = []"
| "hex_text (b # bs) = hex_digit (b div 16) # hex_digit (b mod 16) # hex_text bs"

definition buildAuthorizeUrl :: "(string \<Rightarrow> nat list) \<Rightarrow> (string \<Rightarrow> string) \<Rightarrow> oauth_config \<Rightarrow> nat list \<Rightarrow> nat list \<Rightarrow> authorize_url" where
  "buildAuthorizeUrl sha256 href cfg random32 random16 =
     (let pair = generatePkcePair sha256 random32; state = hex_text random16
      in \<lparr>au_url = href (gatewayBase cfg @ ''/v1/oauth/authorize'') @ ''?'' @ urlSearchParams
            [(''client_id'', clientId cfg), (''redirect_uri'', redirectUri cfg), (''response_type'', ''code''),
             (''scope'', oauth_scope cfg), (''code_challenge'', challenge pair), (''code_challenge_method'', challenge_method pair),
             (''state'', state)],
          au_verifier = verifier pair, au_state = state\<rparr>)"

record token_response =
  tr_access :: string
  tr_refresh :: string
  tr_expires_in :: int
  tr_type :: string
  tr_scope :: string
  tr_user_email :: "string option"

record token_set =
  access_token :: string
  refresh_token :: string
  expires_at :: int
  token_type :: string
  token_scope :: string
  user_email :: "string option"

datatype token_outcome =
    FetchRejected
  | BodyNotJson
  | TokenAnswer token_response
  | ErrorAnswer string "string option"

datatype oauth_failure = NetworkFailure | BodyFailure | OAuthFailure string string

type_synonym 'w token_endpoint = "string \<Rightarrow> string \<Rightarrow> 'w \<Rightarrow> token_outcome \<times> 'w"

definition requestTokens :: "oauth_config \<Rightarrow> 'w token_endpoint \<Rightarrow> int \<Rightarrow> (string \<times> string) list \<Rightarrow> 'w \<Rightarrow> (oauth_failure + token_set) \<times> 'w" where
  "requestTokens cfg post nowMs body w =
     (case post (gatewayBase cfg @ ''/v1/oauth/token'') (urlSearchParams body) w of
        (FetchRejected, w') \<Rightarrow> (Inl NetworkFailure, w')
      | (BodyNotJson, w') \<Rightarrow> (Inl BodyFailure, w')
      | (ErrorAnswer e d, w') \<Rightarrow> (Inl (OAuthFailure e (coalesce d ''unknown'')), w')
      | (TokenAnswer tr, w') \<Rightarrow>
          (Inr \<lparr>access_token = tr_access tr, refresh_token = tr_refresh tr, expires_at = nowMs div 1000 + tr_expires_in tr,
                token_type = tr_type tr, token_scope = tr_scope tr, user_email = tr_user_email tr\<rparr>, w'))"

definition exchangeCode :: "oauth_config \<Rightarrow> 'w token_endpoint \<Rightarrow> int \<Rightarrow> string \<Rightarrow> string \<Rightarrow> 'w \<Rightarrow> (oauth_failure + token_set) \<times> 'w" where
  "exchangeCode cfg post nowMs code codeVerifier w =
     requestTokens cfg post nowMs
       [(''grant_type'', ''authorization_code''), (''code'', code), (''code_verifier'', codeVerifier),
        (''redirect_uri'', redirectUri cfg), (''client_id'', clientId cfg)] w"

definition refresh :: "oauth_config \<Rightarrow> 'w token_endpoint \<Rightarrow> int \<Rightarrow> string \<Rightarrow> 'w \<Rightarrow> (oauth_failure + token_set) \<times> 'w" where
  "refresh cfg post nowMs refreshToken w =
     requestTokens cfg post nowMs
       [(''grant_type'', ''refresh_token''), (''refresh_token'', refreshToken), (''client_id'', clientId cfg)] w"

subsection \<open>The callback server\<close>

datatype callback_failure = MissingCode | StateMismatch

datatype callback_promise = CallbackPending | CallbackResolved string string | CallbackRejected callback_failure

datatype callback_page = NotFoundPage | ErrorPage | SuccessPage

text \<open>A promise is settled once; later settlements do nothing.\<close>

definition settleCallback :: "callback_promise \<Rightarrow> callback_promise \<Rightarrow> callback_promise" where
  "settleCallback outcome p = (if p = CallbackPending then outcome else p)"

definition handleCallback :: "string \<Rightarrow> string option \<Rightarrow> callback_promise \<Rightarrow> callback_page \<times> callback_promise" where
  "handleCallback expectedState url p =
     (if \<not> truthy_string url \<or> \<not> starts_with ''/callback'' (coalesce url []) then (NotFoundPage, p)
      else (let params = searchParams (queryOf (coalesce url []));
                code = map_of params ''code''; state = map_of params ''state''
            in if \<not> truthy_string code then (ErrorPage, settleCallback (CallbackRejected MissingCode) p)
               else if state \<noteq> Some expectedState then (ErrorPage, settleCallback (CallbackRejected StateMismatch) p)
               else (SuccessPage, settleCallback (CallbackResolved (coalesce code []) (coalesce state [])) p)))"

definition serveCallbacks :: "string \<Rightarrow> string option list \<Rightarrow> callback_promise" where
  "serveCallbacks expectedState urls = fold (\<lambda>url p. snd (handleCallback expectedState url p)) urls CallbackPending"

subsection \<open>The challenge commits to the verifier\<close>

fun sextets :: "nat list \<Rightarrow> nat list" where
  "sextets [] = []"
| "sextets [a] = [a div 4, 16 * (a mod 4)]"
| "sextets [a, b] = [a div 4, 16 * (a mod 4) + b div 16, 4 * (b mod 16)]"
| "sextets (a # b # c # bs) =
     [a div 4, 16 * (a mod 4) + b div 16, 4 * (b mod 16) + c div 64, c mod 64] @ sextets bs"

definition url_char :: "nat \<Rightarrow> char" where
  "url_char n = (let c = base64_char n in if c = CHR ''+'' then CHR ''-'' else if c = CHR ''/'' then CHR ''_'' else c)"

lemma char_of_is: "k < 256 \<Longrightarrow> char_of k = c \<longleftrightarrow> k = (of_char c :: nat)"
  by (metis char_of_char of_char_of mod_less)

lemma base64_char_not_pad: "n < 64 \<Longrightarrow> base64_char n \<noteq> CHR ''=''"
  by (auto simp: base64_char_def char_of_is)

lemma url_char_cases:
  "n < 64 \<Longrightarrow> url_char n =
    (if n < 26 then char_of (65 + n) else if n < 52 then char_of (71 + n) else if n < 62 then char_of (n - 4)
     else if n = 62 then CHR ''-'' else CHR ''_'')"
  by (auto simp: url_char_def base64_char_def char_of_is Let_def)

lemma url_char_code:
  "n < 64 \<Longrightarrow> (of_char (url_char n) :: nat) =
    (if n < 26 then 65 + n else if n < 52 then 71 + n else if n < 62 then n - 4 else if n = 62 then 45 else 95)"
  by (simp add: url_char_cases)

lemma url_char_inj: "inj_on url_char {..<64}"
proof (rule inj_onI)
  fix m n assume "m \<in> {..<64}" "n \<in> {..<64}" "url_char m = url_char n"
  then have "m < 64" "n < 64" "(of_char (url_char m) :: nat) = of_char (url_char n)" by simp_all
  then show "m = n" by (simp add: url_char_code split: if_splits)
qed

lemma url_char_safe: "n < 64 \<Longrightarrow> alnum (url_char n) \<or> url_char n \<in> set ''-_''"
  by (auto simp: url_char_cases alnum_def is_digit_def Let_def)

lemma sextets_range: "\<forall>b \<in> set bs. b < 256 \<Longrightarrow> \<forall>n \<in> set (sextets bs). n < 64"
proof (induction bs rule: sextets.induct)
  case (3 a b)
  then have "a div 4 < 64" "b div 16 < 16" "a mod 4 < 4" "b mod 16 < 16" by auto
  then show ?case by auto
next
  case (4 a b c bs)
  then have "a div 4 < 64" "b div 16 < 16" "a mod 4 < 4" "b mod 16 < 16" "c div 64 < 4" "c mod 64 < 64" by auto
  then show ?case using 4 by auto
qed auto

lemma base64url_sextets: "\<forall>b \<in> set bs. b < 256 \<Longrightarrow> base64url bs = map url_char (sextets bs)"
proof -
  assume bytes: "\<forall>b \<in> set bs. b < 256"
  have "filter (\<lambda>c. c \<noteq> CHR ''='') (base64 bs) = map base64_char (sextets bs)"
    using bytes
  proof (induction bs rule: sextets.induct)
    case (2 a)
    then show ?case using sextets_range [OF 2] by (simp add: base64_char_not_pad)
  next
    case (3 a b)
    then show ?case using sextets_range [OF 3] by (simp add: base64_char_not_pad)
  next
    case (4 a b c bs)
    then show ?case using sextets_range [OF 4(2)] by (simp add: base64_char_not_pad)
  qed simp
  then show ?thesis by (simp add: base64url_def url_char_def Let_def)
qed

lemma mixed_radix:
  assumes "k * x + y = k * x' + y'" "y < k" "y' < k"
  shows "x = x' \<and> y = (y' :: nat)"
proof -
  have "(k * x + y) div k = x" "(k * x' + y') div k = x'" using assms(2, 3) by simp_all
  then show ?thesis using assms(1) by simp
qed

lemma same_parts: "x div k = y div k \<Longrightarrow> x mod k = y mod k \<Longrightarrow> x = (y :: nat)"
  by (metis div_mult_mod_eq)

lemma sextets_inj:
  "\<forall>b \<in> set bs. b < 256 \<Longrightarrow> \<forall>b \<in> set cs. b < 256 \<Longrightarrow> length bs = length cs \<Longrightarrow> sextets bs = sextets cs \<Longrightarrow> bs = cs"
proof (induction bs arbitrary: cs rule: sextets.induct)
  case 1
  then show ?case by simp
next
  case (2 a)
  then obtain a' where cs: "cs = [a']" by (cases cs) auto
  then have "a div 4 = a' div 4" "a mod 4 = a' mod 4" using 2 by simp_all
  then have "a = a'" by (rule same_parts)
  then show ?case by (simp add: cs)
next
  case (3 a b)
  then obtain a' b' where cs: "cs = [a', b']" by (cases cs; cases "tl cs") auto
  then have "a div 4 = a' div 4" "16 * (a mod 4) + b div 16 = 16 * (a' mod 4) + b' div 16" "b mod 16 = b' mod 16"
    using 3 by simp_all
  moreover have "b div 16 < 16" "b' div 16 < 16" using 3 cs by (simp_all add: less_mult_imp_div_less)
  ultimately have "a mod 4 = a' mod 4" "b div 16 = b' div 16" using mixed_radix [of 16 "a mod 4"] by blast+
  then show ?case
    using \<open>a div 4 = a' div 4\<close> \<open>b mod 16 = b' mod 16\<close> unfolding cs by (metis same_parts)
next
  case (4 a b c bs)
  then obtain a' b' c' ds where cs: "cs = a' # b' # c' # ds"
    by (cases cs; cases "tl cs"; cases "tl (tl cs)") auto
  then have eqs: "a div 4 = a' div 4" "16 * (a mod 4) + b div 16 = 16 * (a' mod 4) + b' div 16"
    "4 * (b mod 16) + c div 64 = 4 * (b' mod 16) + c' div 64" "c mod 64 = c' mod 64" "sextets bs = sextets ds"
    using 4 by simp_all
  moreover have "b div 16 < 16" "b' div 16 < 16" "c div 64 < 4" "c' div 64 < 4"
    using 4 cs by (simp_all add: less_mult_imp_div_less)
  ultimately have "a mod 4 = a' mod 4" "b div 16 = b' div 16" "b mod 16 = b' mod 16" "c div 64 = c' div 64"
    using mixed_radix [of 16 "a mod 4"] mixed_radix [of 4 "b mod 16"] by blast+
  then have "a = a'" "b = b'" "c = c'"
    using eqs by (blast intro: same_parts)+
  moreover have "bs = ds" using 4 cs eqs(5) by simp
  ultimately show ?case by (simp add: cs)
qed

lemma sextets_length: "length (sextets bs) = (4 * length bs + 2) div 3"
proof (induction bs rule: sextets.induct)
  case (4 a b c bs)
  have "(4 * length (a # b # c # bs) + 2) div 3 = (4 * length bs + 2 + 12) div 3" by simp
  also have "\<dots> = (4 * length bs + 2) div 3 + 4" by presburger
  finally show ?case using 4 by simp
qed simp_all

text \<open>The PKCE pair is well formed and binding. The verifier of 32 random bytes is a text of 43 letters, digits, dashes
  and underscores; the challenge verifies with it; and whatever other text the challenge verifies with has the same
  SHA-256 digest.\<close>

theorem pkce_commits:
  assumes "length random = 32" and "\<forall>b \<in> set random. b < 256"
    and "\<And>s. length (sha256 s) = 32 \<and> (\<forall>b \<in> set (sha256 s). b < 256)"
  shows "let pair = generatePkcePair sha256 random
    in length (verifier pair) = 43 \<and> (\<forall>c \<in> set (verifier pair). alnum c \<or> c \<in> set ''-_'') \<and>
       (\<forall>v. verifyChallenge sha256 v (challenge pair) = (sha256 v = sha256 (verifier pair)))"
proof -
  have url: "base64url bs = map url_char (sextets bs)" if "\<forall>b \<in> set bs. b < 256" for bs
    using that by (rule base64url_sextets)
  have "length (base64url random) = 43" using assms(1, 2) by (simp add: url sextets_length)
  moreover have "\<forall>c \<in> set (base64url random). alnum c \<or> c \<in> set ''-_''"
    using sextets_range [OF assms(2)] url_char_safe by (simp only: url [OF assms(2)] set_map) blast
  moreover have "base64url (sha256 v) = base64url (sha256 w) \<longleftrightarrow> sha256 v = sha256 w" for v w
  proof
    assume eq: "base64url (sha256 v) = base64url (sha256 w)"
    have range: "set (sextets (sha256 u)) \<subseteq> {..<64}" for u
      using sextets_range [of "sha256 u"] assms(3) by blast
    have "map url_char (sextets (sha256 v)) = map url_char (sextets (sha256 w))"
      using eq assms(3) by (simp add: url)
    then have "sextets (sha256 v) = sextets (sha256 w)"
      by (rule map_inj_on) (rule inj_on_subset [OF url_char_inj], simp add: range)
    moreover have "\<forall>b \<in> set (sha256 u). b < 256" for u using assms(3) by blast
    moreover have "length (sha256 v) = length (sha256 w)" using assms(3) [of v] assms(3) [of w] by (simp only:)
    ultimately show "sha256 v = sha256 w" by (blast intro: sextets_inj)
  qed simp
  ultimately show ?thesis by (simp add: generatePkcePair_def verifyChallenge_def Let_def)
qed

theorem pkce_commits_witness:
  "let pair = generatePkcePair (\<lambda>_. replicate 32 7) (replicate 32 0)
   in length (verifier pair) = 43 \<and> verifyChallenge (\<lambda>_. replicate 32 7) (verifier pair) (challenge pair)"
  using pkce_commits [of "replicate 32 0" "\<lambda>_. replicate 32 7"] by (simp add: Let_def)

subsection \<open>The login round trip\<close>

text \<open>The URL the user is sent to carries exactly what the client remembers: its search parameters give the client id, the
  redirect URI, the scope and the state back, the challenge in it verifies with the remembered verifier, and the
  callback that returns this state with a code logs in with that code.\<close>

theorem login_url_consistent:
  assumes "CHR ''?'' \<notin> set (href (gatewayBase cfg @ ''/v1/oauth/authorize''))"
    and "CHR ''#'' \<notin> set (href (gatewayBase cfg @ ''/v1/oauth/authorize''))"
    and "code \<noteq> []"
  shows "let login = buildAuthorizeUrl sha256 href cfg random32 random16; sent = map_of (searchParams (queryOf (au_url login)))
    in sent ''client_id'' = Some (clientId cfg) \<and> sent ''redirect_uri'' = Some (redirectUri cfg) \<and>
       sent ''scope'' = Some (oauth_scope cfg) \<and> sent ''state'' = Some (au_state login) \<and>
       verifyChallenge sha256 (au_verifier login) (the (sent ''code_challenge'')) \<and>
       handleCallback (au_state login) (Some (''/callback?'' @ urlSearchParams [(''code'', code), (''state'', the (sent ''state''))]))
         CallbackPending = (SuccessPage, CallbackResolved code (au_state login))"
proof -
  define login where "login = buildAuthorizeUrl sha256 href cfg random32 random16"
  define sent where "sent = map_of (searchParams (queryOf (au_url login)))"
  have "queryOf (au_url login) = urlSearchParams
      [(''client_id'', clientId cfg), (''redirect_uri'', redirectUri cfg), (''response_type'', ''code''), (''scope'', oauth_scope cfg),
       (''code_challenge'', base64url (sha256 (au_verifier login))), (''code_challenge_method'', ''S256''), (''state'', au_state login)]"
    unfolding login_def buildAuthorizeUrl_def Let_def generatePkcePair_def
    by (simp add: queryOf_append assms(1, 2) urlSearchParams_free del: urlSearchParams.simps)
  then have sent: "sent ''client_id'' = Some (clientId cfg)" "sent ''redirect_uri'' = Some (redirectUri cfg)"
    "sent ''scope'' = Some (oauth_scope cfg)" "sent ''state'' = Some (au_state login)"
    "sent ''code_challenge'' = Some (base64url (sha256 (au_verifier login)))"
    by (simp_all add: sent_def searchParams_back del: urlSearchParams.simps)
  have "queryOf (''/callback?'' @ urlSearchParams [(''code'', code), (''state'', au_state login)])
      = urlSearchParams [(''code'', code), (''state'', au_state login)]"
    using queryOf_append [of "''/callback''"] urlSearchParams_free by (simp del: urlSearchParams.simps)
  then have "handleCallback (au_state login) (Some (''/callback?'' @ urlSearchParams [(''code'', code), (''state'', au_state login)]))
      CallbackPending = (SuccessPage, CallbackResolved code (au_state login))"
    using assms(3) unfolding handleCallback_def
    by (simp add: searchParams_back starts_with_def settleCallback_def del: urlSearchParams.simps)
  then show ?thesis
    unfolding Let_def login_def [symmetric] sent_def [symmetric] by (simp add: sent verifyChallenge_def del: urlSearchParams.simps)
qed

theorem login_url_consistent_witness:
  "let cfg = \<lparr>gatewayBase = ''https://api.brikko.ru'', clientId = ''studio'', redirectUri = ''http://127.0.0.1:7777/callback'',
              oauth_scope = ''chat.read messages.read''\<rparr>;
       login = buildAuthorizeUrl (\<lambda>_. [1, 2, 3]) id cfg [4, 5] [171]
   in map_of (searchParams (queryOf (au_url login))) ''redirect_uri'' = Some ''http://127.0.0.1:7777/callback''"
  using login_url_consistent [of id "\<lparr>gatewayBase = ''https://api.brikko.ru'', clientId = ''studio'',
      redirectUri = ''http://127.0.0.1:7777/callback'', oauth_scope = ''chat.read messages.read''\<rparr>" "''x''"]
  by (simp add: Let_def)

lemma settleCallback_once: "p \<noteq> CallbackPending \<Longrightarrow> settleCallback q p = p"
  by (simp add: settleCallback_def)

lemma handleCallback_settled: "p \<noteq> CallbackPending \<Longrightarrow> snd (handleCallback st url p) = p"
  by (simp add: handleCallback_def settleCallback_once Let_def)

lemma serve_settled: "p \<noteq> CallbackPending \<Longrightarrow> fold (\<lambda>url p. snd (handleCallback st url p)) urls p = p"
  by (induction urls) (simp_all add: handleCallback_settled)

lemma handleCallback_pending:
  "(fst (handleCallback st url CallbackPending) = NotFoundPage) = (snd (handleCallback st url CallbackPending) = CallbackPending)"
  by (simp add: handleCallback_def settleCallback_def Let_def)

lemma handleCallback_state:
  "snd (handleCallback st url CallbackPending) = CallbackResolved code s \<Longrightarrow> s = st \<and> code \<noteq> []"
  by (cases "map_of (searchParams (queryOf (coalesce url []))) ''code''")
    (auto simp: handleCallback_def settleCallback_def truthy_string_def Let_def split: if_splits)

text \<open>The first request to the callback path settles the login, whatever comes later: the promise is resolved exactly when
  that request carried a code and the expected state, so a resolved login always has the expected state, and the page a
  later request is shown does not depend on how the login ended.\<close>

theorem first_callback_decides:
  "serveCallbacks st urls =
     (case filter (\<lambda>url. fst (handleCallback st url CallbackPending) \<noteq> NotFoundPage) urls of
        [] \<Rightarrow> CallbackPending
      | url # later \<Rightarrow> snd (handleCallback st url CallbackPending)) \<and>
   (case serveCallbacks st urls of CallbackResolved code s \<Rightarrow> s = st \<and> code \<noteq> [] | _ \<Rightarrow> True) \<and>
   fst (handleCallback st url p) = fst (handleCallback st url q)"
proof -
  have first: "serveCallbacks st urls =
     (case filter (\<lambda>url. fst (handleCallback st url CallbackPending) \<noteq> NotFoundPage) urls of
        [] \<Rightarrow> CallbackPending | url # later \<Rightarrow> snd (handleCallback st url CallbackPending))" for urls
    unfolding serveCallbacks_def
    by (induction urls) (simp_all add: serve_settled handleCallback_pending)
  have "case serveCallbacks st urls of CallbackResolved code s \<Rightarrow> s = st \<and> code \<noteq> [] | _ \<Rightarrow> True"
    unfolding first
    by (auto split: list.split callback_promise.split dest: handleCallback_state)
  moreover have "fst (handleCallback st url p) = fst (handleCallback st url q)"
    by (simp add: handleCallback_def Let_def)
  ultimately show ?thesis using first by blast
qed

text \<open>So one request that any local page can make ends the login for good, while the user who then completes it is told
  that it succeeded.\<close>

lemma forged_callback_ends_login:
  fixes code st :: string
  assumes "code \<noteq> []"
  defines "honest \<equiv> Some (''/callback?'' @ urlSearchParams [(''code'', code), (''state'', st)])"
  shows "serveCallbacks st [Some ''/callback'', honest] = CallbackRejected MissingCode \<and>
    fst (handleCallback st honest (CallbackRejected MissingCode)) = SuccessPage"
proof -
  have q: "queryOf (''/callback?'' @ urlSearchParams [(''code'', code), (''state'', st)])
      = urlSearchParams [(''code'', code), (''state'', st)]"
    using queryOf_append [of "''/callback''"] urlSearchParams_free by (simp del: urlSearchParams.simps)
  have "snd (handleCallback st (Some ''/callback'') CallbackPending) = CallbackRejected MissingCode"
    by (simp add: handleCallback_def starts_with_def searchParams_def queryOf_def settleCallback_def)
  moreover have "fst (handleCallback st honest (CallbackRejected MissingCode)) = SuccessPage"
    using assms(1) q unfolding honest_def handleCallback_def
    by (simp add: searchParams_back starts_with_def del: urlSearchParams.simps)
  ultimately show ?thesis by (simp add: serveCallbacks_def handleCallback_settled)
qed

end
