(* ===== verification/JsNumber.thy ===== *)
theory JsNumber
  imports JsJson Complex_Main
begin

text \<open>
  Reading numbers: \<^verbatim>\<open>Number.parseFloat(s)\<close>, which takes the longest numeral at the front, and \<^verbatim>\<open>Number(s)\<close>, which takes the
  whole text. A numeral is read exactly; the rounding to a binary fraction is left out.
\<close>

datatype js_number = NaN | Infinite bool | Finite rat

definition scan_exponent :: "string \<Rightarrow> (int \<times> string) option" where
  "scan_exponent s =
     (case s of
        [] \<Rightarrow> None
      | c # r \<Rightarrow>
          if c \<noteq> CHR ''e'' \<and> c \<noteq> CHR ''E'' then None
          else (let (neg, ds) = (case r of g # u \<Rightarrow> if g = CHR ''-'' then (True, u) else if g = CHR ''+'' then (False, u) else (False, r)
                                 | [] \<Rightarrow> (False, []));
                    d = takeWhile is_digit ds
                in if d = [] then None
                   else Some (if neg then - int (digits_value d) else int (digits_value d), dropWhile is_digit ds)))"

definition scan_decimal :: "string \<Rightarrow> (rat \<times> string) option" where
  "scan_decimal s =
     (let i = takeWhile is_digit s; s1 = dropWhile is_digit s;
          (f, s2) = (case s1 of c # r \<Rightarrow> if c = CHR ''.'' then (takeWhile is_digit r, dropWhile is_digit r) else ([], s1)
                     | [] \<Rightarrow> ([], []))
      in if i = [] \<and> f = [] then None
         else (let m = of_nat (digits_value (i @ f)) / 10 ^ length f
               in case scan_exponent s2 of
                    None \<Rightarrow> Some (m, s2)
                  | Some (e, s3) \<Rightarrow> Some (if 0 \<le> e then m * 10 ^ nat e else m / 10 ^ nat (- e), s3)))"

definition split_sign :: "string \<Rightarrow> bool \<times> string" where
  "split_sign s =
     (case s of c # r \<Rightarrow> if c = CHR ''-'' then (True, r) else if c = CHR ''+'' then (False, r) else (False, s) | [] \<Rightarrow> (False, []))"

definition parse_float :: "string \<Rightarrow> js_number" where
  "parse_float s =
     (let (neg, u) = split_sign (dropWhile js_space s)
      in if starts_with ''Infinity'' u then Infinite neg
         else case scan_decimal u of None \<Rightarrow> NaN | Some (v, _) \<Rightarrow> Finite (if neg then - v else v))"

fun radix_value :: "nat \<Rightarrow> nat \<Rightarrow> string \<Rightarrow> nat option" where
  "radix_value radix v [] = Some v"
| "radix_value radix v (c # cs) =
     (case hex_value c of
        Some d \<Rightarrow> if d < radix then radix_value radix (radix * v + d) cs else None
      | None \<Rightarrow> None)"

definition radix_of :: "char \<Rightarrow> nat option" where
  "radix_of c =
     map_of [(CHR ''x'', 16), (CHR ''X'', 16), (CHR ''o'', 8), (CHR ''O'', 8), (CHR ''b'', 2), (CHR ''B'', 2)] c"

definition prefixed_number :: "string \<Rightarrow> js_number option" where
  "prefixed_number t =
     (case t of
        z # x # ds \<Rightarrow>
          if z = CHR ''0''
          then (case radix_of x of
                  None \<Rightarrow> None
                | Some radix \<Rightarrow>
                    Some (case (if ds = [] then None else radix_value radix 0 ds) of None \<Rightarrow> NaN | Some v \<Rightarrow> Finite (of_nat v)))
          else None
      | _ \<Rightarrow> None)"

definition to_number :: "string \<Rightarrow> js_number" where
  "to_number s =
     (let t = js_trim s
      in if t = [] then Finite 0
         else case prefixed_number t of
           Some n \<Rightarrow> n
         | None \<Rightarrow>
             (let (neg, u) = split_sign t
              in if u = ''Infinity'' then Infinite neg
                 else case scan_decimal u of
                        Some (v, r) \<Rightarrow> if r = [] then Finite (if neg then - v else v) else NaN
                      | None \<Rightarrow> NaN))"

definition is_finite :: "js_number \<Rightarrow> bool" where
  "is_finite n = (case n of Finite _ \<Rightarrow> True | _ \<Rightarrow> False)"

lemma is_finite_simps [simp]: "is_finite (Finite q)" "\<not> is_finite NaN" "\<not> is_finite (Infinite b)"
  by (simp_all add: is_finite_def)

lemma scan_digits:
  assumes "\<forall>c \<in> set ds. is_digit c" "ds \<noteq> []"
  shows "scan_decimal ds = Some (of_nat (digits_value ds), [])"
proof -
  have parts: "takeWhile is_digit ds = ds" "dropWhile is_digit ds = []" using assms(1) by (simp_all add: takeWhile_eq_all_conv)
  show ?thesis unfolding scan_decimal_def parts using assms(2) by (simp add: scan_exponent_def)
qed

end
