(* ===== verification/ZodSchema.thy ===== *)
theory ZodSchema
  imports JsNumber
begin

text \<open>
  The schemas of the tool servers, and the JSON schema that \<^verbatim>\<open>zodToJsonSchema\<close> of \<^verbatim>\<open>packages/skills-bitrix24/src/server.ts\<close>
  advertises for an object. A schema is data: the builder calls of \<^verbatim>\<open>schemas.ts\<close> as a term. Parsing with it belongs to the zod
  library, which is not part of the repository: it is an argument, and what is relied on is the locale \<open>schema_laws\<close>.
\<close>

datatype zod =
    ZodString "string \<Rightarrow> bool"
  | ZodNumber "rat \<Rightarrow> bool"
  | ZodEnum "string list"
  | ZodOptional zod
  | ZodDefault zod jsval

type_synonym zod_shape = "(string \<times> zod) list"

text \<open>The operations the servers call: \<^verbatim>\<open>schema.parse(value)\<close> on an object, where \<open>None\<close> is a \<^verbatim>\<open>ZodError\<close>, and
  \<^verbatim>\<open>schema.isOptional()\<close>.\<close>

record schema_library =
  sl_parse :: "zod_shape \<Rightarrow> jsval \<Rightarrow> (string \<times> jsval) list option"
  sl_optional :: "zod \<Rightarrow> bool"

fun leafSchema :: "zod \<Rightarrow> jsval" where
  "leafSchema (ZodString ok) = JObj [(''type'', JStr ''string'')]"
| "leafSchema (ZodNumber ok) = JObj [(''type'', JStr ''number'')]"
| "leafSchema (ZodEnum names) = JObj [(''type'', JStr ''string'')]"
| "leafSchema (ZodOptional z) = leafSchema z"
| "leafSchema (ZodDefault z d) = leafSchema z"

definition requiredKeys :: "schema_library \<Rightarrow> zod_shape \<Rightarrow> string list" where
  "requiredKeys lib shape = map fst (filter (\<lambda>(k, z). \<not> sl_optional lib z) shape)"

definition zodToJsonSchema :: "schema_library \<Rightarrow> zod_shape \<Rightarrow> jsval" where
  "zodToJsonSchema lib shape =
     JObj [(''type'', JStr ''object''), (''properties'', JObj (map (\<lambda>(k, z). (k, leafSchema z)) shape)),
           (''required'', JArr (map JStr (requiredKeys lib shape))), (''additionalProperties'', JBool False)]"

subsection \<open>What is relied on\<close>

text \<open>The values a schema takes, and the values its inferred type holds: a default stands in for an absent value.\<close>

fun takes :: "zod \<Rightarrow> jsval \<Rightarrow> bool" where
  "takes (ZodString ok) v = (case v of JStr s \<Rightarrow> ok s | _ \<Rightarrow> False)"
| "takes (ZodNumber ok) v = (case v of JNum n \<Rightarrow> (case to_number n of Finite q \<Rightarrow> ok q | _ \<Rightarrow> False) | _ \<Rightarrow> False)"
| "takes (ZodEnum names) v = (case v of JStr s \<Rightarrow> s \<in> set names | _ \<Rightarrow> False)"
| "takes (ZodOptional z) v = (v = JUndefined \<or> takes z v)"
| "takes (ZodDefault z d) v = takes z (if v = JUndefined then d else v)"

fun inferred :: "zod \<Rightarrow> jsval \<Rightarrow> bool" where
  "inferred (ZodString ok) v = takes (ZodString ok) v"
| "inferred (ZodNumber ok) v = takes (ZodNumber ok) v"
| "inferred (ZodEnum names) v = takes (ZodEnum names) v"
| "inferred (ZodOptional z) v = (v = JUndefined \<or> inferred z v)"
| "inferred (ZodDefault z d) v = inferred z v"

locale schema_laws =
  fixes lib :: schema_library
  assumes parse_typed: "sl_parse lib shape v = Some fs \<Longrightarrow> distinct (map fst shape) \<Longrightarrow> (k, z) \<in> set shape \<Longrightarrow> inferred z (field k fs)"
    and parse_defined: "(sl_parse lib shape (JObj fs) \<noteq> None) = (\<forall>(k, z) \<in> set shape. takes z (field k fs))"
    and optional_takes: "sl_optional lib z = takes z JUndefined"
begin

text \<open>A required key of the advertised schema is one whose absence makes every call fail, and an object whose given
  keys are acceptable is accepted exactly when it has the required ones.\<close>

lemma required_iff:
  assumes "\<forall>(k, z) \<in> set shape. k \<in> fst ` set fs \<longrightarrow> takes z (field k fs)"
  shows "(sl_parse lib shape (JObj fs) \<noteq> None) = (set (requiredKeys lib shape) \<subseteq> fst ` set fs)"
proof -
  have absent: "k \<notin> fst ` set fs \<Longrightarrow> field k fs = JUndefined" for k
    by (metis coalesce_simps(1) field_def map_of_eq_None_iff)
  show ?thesis
    using assms absent
    by (simp add: parse_defined del: not_None_eq) (force simp: requiredKeys_def optional_takes)
qed

end

subsection \<open>A library that obeys\<close>

text \<open>Parsing as the documentation of zod describes it: every key of the shape is parsed, keys outside it are stripped, and a
  key that is neither given nor filled in stays away.\<close>

fun zodParse :: "zod \<Rightarrow> jsval \<Rightarrow> jsval option" where
  "zodParse (ZodString ok) v = (if takes (ZodString ok) v then Some v else None)"
| "zodParse (ZodNumber ok) v = (if takes (ZodNumber ok) v then Some v else None)"
| "zodParse (ZodEnum names) v = (if takes (ZodEnum names) v then Some v else None)"
| "zodParse (ZodOptional z) v = (if v = JUndefined then Some JUndefined else zodParse z v)"
| "zodParse (ZodDefault z d) v = zodParse z (if v = JUndefined then d else v)"

lemma zodParse_takes: "(zodParse z v \<noteq> None) = takes z v"
  by (induction z v rule: zodParse.induct) (auto simp del: not_None_eq)

lemma zodParse_inferred: "zodParse z v = Some r \<Longrightarrow> inferred z r"
  by (induction z v rule: zodParse.induct) (auto split: if_splits)

fun zodParseFields :: "zod_shape \<Rightarrow> (string \<times> jsval) list \<Rightarrow> (string \<times> jsval) list option" where
  "zodParseFields [] fs = Some []"
| "zodParseFields ((k, z) # shape) fs =
     (case (zodParse z (field k fs), zodParseFields shape fs) of
        (Some v, Some vs) \<Rightarrow> Some (if v = JUndefined \<and> k \<notin> fst ` set fs then vs else (k, v) # vs)
      | _ \<Rightarrow> None)"

definition zodParseObject :: "zod_shape \<Rightarrow> jsval \<Rightarrow> (string \<times> jsval) list option" where
  "zodParseObject shape v = (case v of JObj fs \<Rightarrow> zodParseFields shape fs | _ \<Rightarrow> None)"

lemma parse_fields_iff:
  "zodParseFields shape fs \<noteq> None \<longleftrightarrow> (\<forall>(k, z) \<in> set shape. zodParse z (field k fs) \<noteq> None)"
  by (induction shape) (auto split: option.splits)

lemma parse_fields_value:
  assumes "distinct (map fst shape)" "zodParseFields shape fs = Some out" "(k, z) \<in> set shape"
  shows "zodParse z (field k fs) = Some (field k out)"
  using assms
proof (induction shape arbitrary: out)
  case (Cons kz shape)
  obtain k' z' where kz: "kz = (k', z')" by (cases kz)
  from Cons.prems(2) obtain v vs where v: "zodParse z' (field k' fs) = Some v" and vs: "zodParseFields shape fs = Some vs"
    and out: "out = (if v = JUndefined \<and> k' \<notin> fst ` set fs then vs else (k', v) # vs)"
    by (auto simp: kz split: option.splits)
  have keys: "zodParseFields sh fs = Some o' \<Longrightarrow> fst ` set o' \<subseteq> fst ` set sh" for sh o'
  proof (induction sh arbitrary: o')
    case (Cons kz sh)
    obtain a z where kz: "kz = (a, z)" by (cases kz)
    from Cons.prems obtain v vs where vs: "zodParseFields sh fs = Some vs"
      and "o' = (if v = JUndefined \<and> a \<notin> fst ` set fs then vs else (a, v) # vs)"
      by (auto simp: kz split: option.splits)
    moreover have "fst ` set vs \<subseteq> fst ` set sh" using vs by (rule Cons.IH)
    ultimately show ?case by (auto simp: kz)
  qed simp
  show ?case
  proof (cases "k = k'")
    case True
    then have z: "z = z'" using Cons.prems(1, 3) by (auto simp: kz image_iff)
    have "k' \<notin> fst ` set vs" using keys [OF vs] Cons.prems(1) by (auto simp: kz)
    then have "map_of vs k' = None" by (simp add: map_of_eq_None_iff)
    then show ?thesis using v out True z by (auto simp: field_def)
  next
    case False
    then have "(k, z) \<in> set shape" using Cons.prems(3) by (simp add: kz)
    then have "zodParse z (field k fs) = Some (field k vs)" using Cons.IH [OF _ vs] Cons.prems(1) by simp
    then show ?thesis using out False by (simp add: field_def)
  qed
qed simp

definition documented :: schema_library where
  "documented = \<lparr>sl_parse = zodParseObject, sl_optional = (\<lambda>z. zodParse z JUndefined \<noteq> None)\<rparr>"

interpretation zod_library: schema_laws documented
proof
  fix shape v fs k z
  assume parsed: "sl_parse documented shape v = Some fs" and d: "distinct (map fst shape)" and kz: "(k, z) \<in> set shape"
  from parsed obtain gs where "zodParseFields shape gs = Some fs"
    by (auto simp: documented_def zodParseObject_def split: jsval.splits)
  then show "inferred z (field k fs)" using parse_fields_value [OF d _ kz] by (blast intro: zodParse_inferred)
next
  fix shape fs
  show "(sl_parse documented shape (JObj fs) \<noteq> None) = (\<forall>(k, z) \<in> set shape. takes z (field k fs))"
    by (simp add: documented_def zodParseObject_def parse_fields_iff zodParse_takes del: not_None_eq)
next
  fix z
  show "sl_optional documented z = takes z JUndefined"
    by (simp add: documented_def zodParse_takes del: not_None_eq)
qed

end
