(* ===== verification/Bitrix24.thy ===== *)
theory Bitrix24
  imports ZodSchema JsText
begin

text \<open>
  The Bitrix24 tool server: \<^verbatim>\<open>packages/skills-bitrix24/src/rest-client.ts\<close>, \<^verbatim>\<open>schemas.ts\<close>, \<^verbatim>\<open>tools/\<close> and the request handler
  of \<^verbatim>\<open>server.ts\<close>. The network is an argument over a world state; an answer of the portal is read at the type the tool
  declares for it, and the text a result is printed as is left out. A call returns the delays it slept, in milliseconds.
\<close>

subsection \<open>The client\<close>

record bitrix_credentials =
  portalUrl :: string
  webhookToken :: string

record crest_options =
  crest_timeout :: int
  crest_retries :: nat

definition DEFAULT_OPTIONS :: crest_options where
  "DEFAULT_OPTIONS = \<lparr>crest_timeout = 8000, crest_retries = 2\<rparr>"

datatype crest_error =
    AuthExpired
  | RateLimited rat
  | CallFailed string
  | BodyLost
  | HttpStatus nat string
  | NotJson string string
  | PortalFault string "string option"

text \<open>The outcomes of a request: none, an answer whose body cannot be read, or status, retry header and body.\<close>

datatype crest_answer = NoAnswer | HeadersOnly nat | Answer nat "string option" string

type_synonym 'w crest_fetch = "string \<Rightarrow> string \<Rightarrow> 'w \<Rightarrow> crest_answer \<times> 'w"

record 'r portal_answer =
  pa_result :: 'r
  pa_error :: "string option"
  pa_description :: "string option"

definition retryAfterSec :: "string option \<Rightarrow> rat" where
  "retryAfterSec header = (case to_number (coalesce header ''30'') of Finite q \<Rightarrow> q | _ \<Rightarrow> 30)"

definition retryable :: "crest_answer \<Rightarrow> bool" where
  "retryable a = (case a of NoAnswer \<Rightarrow> True | HeadersOnly st \<Rightarrow> False | Answer st _ _ \<Rightarrow> 500 \<le> st)"

definition readAnswer :: "(string \<Rightarrow> 'r portal_answer option) \<Rightarrow> string \<Rightarrow> crest_answer \<Rightarrow> crest_error + 'r" where
  "readAnswer parse callMethod a =
     (case a of
        NoAnswer \<Rightarrow> Inl (CallFailed callMethod)
      | HeadersOnly _ \<Rightarrow> Inl BodyLost
      | Answer st retryHeader body \<Rightarrow>
          if st = 401 then Inl AuthExpired
          else if st = 429 then Inl (RateLimited (retryAfterSec retryHeader))
          else if 400 \<le> st then Inl (HttpStatus st (take 200 body))
          else (case parse body of
                  None \<Rightarrow> Inl (NotJson callMethod (take 100 body))
                | Some p \<Rightarrow>
                    if truthy_string (pa_error p) then Inl (PortalFault (coalesce (pa_error p) []) (pa_description p))
                    else Inr (pa_result p)))"

function callLoop :: "nat \<Rightarrow> ('w \<Rightarrow> crest_answer \<times> 'w) \<Rightarrow> (crest_answer \<Rightarrow> crest_error + 'r) \<Rightarrow> nat \<Rightarrow> 'w
    \<Rightarrow> (crest_error + 'r) \<times> int list \<times> 'w" where
  "callLoop retries send settle attempt w =
     (let (a, w') = send w
      in if retryable a \<and> attempt < retries
         then (let (r, ds, w'') = callLoop retries send settle (Suc attempt) w' in (r, 200 * 2 ^ Suc attempt # ds, w''))
         else (settle a, [], w'))"
  by pat_completeness auto
termination by (relation "measure (\<lambda>(retries, send, settle, attempt, w). retries - attempt)") auto

declare callLoop.simps [simp del]

definition stripSlash :: "string \<Rightarrow> string" where
  "stripSlash s = (if s \<noteq> [] \<and> last s = CHR ''/'' then butlast s else s)"

definition crestUrl :: "bitrix_credentials \<Rightarrow> string \<Rightarrow> string" where
  "crestUrl creds callMethod = stripSlash (portalUrl creds) @ ''/rest/'' @ webhookToken creds @ ''/'' @ callMethod @ ''.json''"

record 'w crest_client =
  cc_creds :: bitrix_credentials
  cc_opts :: crest_options
  cc_fetch :: "'w crest_fetch"

definition call :: "'w crest_client \<Rightarrow> (string \<Rightarrow> 'r portal_answer option) \<Rightarrow> string \<Rightarrow> jsval \<Rightarrow> 'w \<Rightarrow> (crest_error + 'r) \<times> int list \<times> 'w" where
  "call client parse callMethod payload w =
     callLoop (crest_retries (cc_opts client)) (cc_fetch client (crestUrl (cc_creds client) callMethod) (stringify payload))
       (readAnswer parse callMethod) 0 w"

subsection \<open>Periods\<close>

text \<open>A pattern of one character class after the other, anchored at both ends.\<close>

definition anchored :: "(char \<Rightarrow> bool) list \<Rightarrow> string \<Rightarrow> bool" where
  "anchored pat s = list_all2 (\<lambda>p c. p c) pat s"

definition lits :: "string \<Rightarrow> (char \<Rightarrow> bool) list" where
  "lits s = map (\<lambda>c d. d = c) s"

definition quarter_pattern :: "(char \<Rightarrow> bool) list" where
  "quarter_pattern = lits ''Q'' @ [\<lambda>c. c \<in> set ''1234''] @ lits ''-'' @ replicate 4 is_digit"

definition date_pattern :: "(char \<Rightarrow> bool) list" where
  "date_pattern = replicate 4 is_digit @ lits ''-'' @ replicate 2 is_digit @ lits ''-'' @ replicate 2 is_digit"

definition PERIOD_RE :: "string \<Rightarrow> bool" where
  "PERIOD_RE s = (anchored quarter_pattern s \<or> s = ''YTD'' \<or> s = ''MTD'' \<or> anchored (date_pattern @ lits ''..'' @ date_pattern) s)"

definition leap_year :: "nat \<Rightarrow> bool" where
  "leap_year y = (y mod 4 = 0 \<and> y mod 100 \<noteq> 0 \<or> y mod 400 = 0)"

text \<open>\<^verbatim>\<open>new Date(y, m, 0).getDate()\<close>, the last day of month \<open>m\<close> counted from one; years below 100 mean the twentieth century.\<close>

definition lastDayOf :: "nat \<Rightarrow> nat \<Rightarrow> nat" where
  "lastDayOf y m =
     (let year = if y < 100 then 1900 + y else y
      in if m = 2 then (if leap_year year then 29 else 28) else if m \<in> {4, 6, 9, 11} then 30 else 31)"

definition pad :: "nat \<Rightarrow> string" where
  "pad n = (let s = show_nat n in replicate (2 - length s) (CHR ''0'') @ s)"

definition dayStart :: "string \<Rightarrow> string" where "dayStart d = d @ ''T00:00:00''"
definition dayEnd :: "string \<Rightarrow> string" where "dayEnd d = d @ ''T23:59:59''"

text \<open>The result of \<^verbatim>\<open>parsePeriod\<close> at a local date given as year and month from one; \<open>None\<close> is the error it throws.\<close>

definition parsePeriod :: "nat \<times> nat \<Rightarrow> string \<Rightarrow> (string \<times> string) option" where
  "parsePeriod today period =
     (if anchored quarter_pattern period
      then (let q = digits_value [period ! 1]; y = digits_value (drop 3 period);
                startMonth = (q - 1) * 3 + 1; endMonth = q * 3
            in Some (dayStart (show_nat y @ ''-'' @ pad startMonth @ ''-01''),
                     dayEnd (show_nat y @ ''-'' @ pad endMonth @ ''-'' @ pad (lastDayOf y endMonth))))
      else if period = ''YTD'' then
        (let y = fst today in Some (dayStart (show_nat y @ ''-01-01''), dayEnd (show_nat y @ ''-12-31'')))
      else if period = ''MTD'' then
        (let (y, m) = today in Some (dayStart (show_nat y @ ''-'' @ pad m @ ''-01''), dayEnd (show_nat y @ ''-'' @ pad m @ ''-'' @ pad (lastDayOf y m))))
      else if anchored (date_pattern @ lits ''..'' @ date_pattern) period
      then Some (dayStart (take 10 period), dayEnd (drop 12 period))
      else None)"

subsection \<open>Tools\<close>

record bitrix_deal =
  bd_id :: string
  bd_title :: string
  bd_stage :: string
  bd_opportunity :: string
  bd_created :: string

record deal =
  deal_key :: string
  deal_title :: string
  deal_stage :: string
  amount_rub :: js_number
  client_name :: string
  created_at :: string

definition toDeal :: "bitrix_deal \<Rightarrow> deal" where
  "toDeal d = \<lparr>deal_key = bd_id d, deal_title = bd_title d, deal_stage = bd_stage d,
     amount_rub = parse_float (bd_opportunity d), client_name = [], created_at = bd_created d\<rparr>"

record deals_list_args =
  dl_client :: "string option"
  dl_period :: "string option"
  dl_limit :: nat

datatype tool_error = Crest crest_error | UnrecognisedPeriod string | InvalidArguments | UnknownTool string

definition dealFilter :: "nat \<times> nat \<Rightarrow> deals_list_args \<Rightarrow> tool_error + (string \<times> jsval) list" where
  "dealFilter today args =
     (let named = (if truthy_string (dl_client args) then [(''%TITLE'', JStr (coalesce (dl_client args) []))] else [])
      in if truthy_string (dl_period args)
         then (case parsePeriod today (coalesce (dl_period args) []) of
                 None \<Rightarrow> Inl (UnrecognisedPeriod (coalesce (dl_period args) []))
               | Some (start, till) \<Rightarrow> Inr (named @ [(''>=DATE_CREATE'', JStr start), (''<=DATE_CREATE'', JStr till)]))
         else Inr named)"

definition dealsPayload :: "(string \<times> jsval) list \<Rightarrow> jsval" where
  "dealsPayload flt =
     JObj [(''filter'', JObj flt),
       (''select'', JArr (map JStr [''ID'', ''TITLE'', ''STAGE_ID'', ''OPPORTUNITY'', ''DATE_CREATE'', ''CONTACT_ID''])), (''start'', JNum ''0'')]"

definition mapResult :: "('a \<Rightarrow> 'b) \<Rightarrow> (crest_error + 'a) \<times> int list \<times> 'w \<Rightarrow> (tool_error + 'b) \<times> int list \<times> 'w" where
  "mapResult f out = (case out of (Inl e, rest) \<Rightarrow> (Inl (Crest e), rest) | (Inr v, rest) \<Rightarrow> (Inr (f v), rest))"

definition dealsList :: "'w crest_client \<Rightarrow> (string \<Rightarrow> bitrix_deal list portal_answer option) \<Rightarrow> nat \<times> nat \<Rightarrow> deals_list_args \<Rightarrow> 'w
    \<Rightarrow> (tool_error + deal list) \<times> int list \<times> 'w" where
  "dealsList client parse today args w =
     (case dealFilter today args of
        Inl e \<Rightarrow> (Inl e, [], w)
      | Inr flt \<Rightarrow> mapResult (\<lambda>raw. map toDeal (take (dl_limit args) raw)) (call client parse ''crm.deal.list'' (dealsPayload flt) w))"

definition dealsGet :: "'w crest_client \<Rightarrow> (string \<Rightarrow> bitrix_deal portal_answer option) \<Rightarrow> string \<Rightarrow> 'w
    \<Rightarrow> (tool_error + deal) \<times> int list \<times> 'w" where
  "dealsGet client parse dealId w = mapResult toDeal (call client parse ''crm.deal.get'' (JObj [(''id'', JStr dealId)]) w)"

record bitrix_contact =
  bc_id :: string
  bc_name :: "string option"
  bc_last_name :: "string option"
  bc_phone :: "string list option"
  bc_email :: "string list option"

record bitrix_contact_out =
  contact_key :: string
  contact_name :: string
  contact_phone :: "string option"
  contact_email :: "string option"

definition firstValue :: "string list option \<Rightarrow> string option" where
  "firstValue vs = (case vs of Some (v # _) \<Rightarrow> if v = [] then None else Some v | _ \<Rightarrow> None)"

definition toContact :: "bitrix_contact \<Rightarrow> bitrix_contact_out" where
  "toContact c = \<lparr>contact_key = bc_id c,
     contact_name = js_trim (js_join '' '' (map the (filter truthy_string [bc_name c, bc_last_name c]))),
     contact_phone = firstValue (bc_phone c), contact_email = firstValue (bc_email c)\<rparr>"

definition contactsSearch :: "'w crest_client \<Rightarrow> (string \<Rightarrow> bitrix_contact list portal_answer option) \<Rightarrow> string \<Rightarrow> nat \<Rightarrow> 'w
    \<Rightarrow> (tool_error + bitrix_contact_out list) \<times> int list \<times> 'w" where
  "contactsSearch client parse query limit w =
     mapResult (\<lambda>raw. map toContact (take limit raw)) (call client parse ''crm.contact.list''
       (JObj [(''filter'', JObj [(''%NAME'', JStr query)]),
         (''select'', JArr (map JStr [''ID'', ''NAME'', ''LAST_NAME'', ''PHONE'', ''EMAIL''])), (''start'', JNum ''0'')]) w)"

record leads_create_args =
  lead_title :: string
  lead_contact_name :: string
  lead_phone :: "string option"
  lead_email :: "string option"
  lead_source :: string
  lead_comments :: "string option"

definition workValue :: "string option \<Rightarrow> jsval" where
  "workValue v = JArr [JObj [(''VALUE'', JStr (coalesce v [])), (''VALUE_TYPE'', JStr ''WORK'')]]"

definition leadFields :: "leads_create_args \<Rightarrow> (string \<times> jsval) list" where
  "leadFields a =
     [(''TITLE'', JStr (lead_title a)), (''NAME'', JStr (lead_contact_name a)), (''SOURCE_ID'', JStr (lead_source a))]
     @ (if truthy_string (lead_phone a) then [(''PHONE'', workValue (lead_phone a))] else [])
     @ (if truthy_string (lead_email a) then [(''EMAIL'', workValue (lead_email a))] else [])
     @ (if truthy_string (lead_comments a) then [(''COMMENTS'', JStr (coalesce (lead_comments a) []))] else [])"

definition leadsCreate :: "'w crest_client \<Rightarrow> (string \<Rightarrow> string portal_answer option) \<Rightarrow> leads_create_args \<Rightarrow> 'w
    \<Rightarrow> (tool_error + string) \<times> int list \<times> 'w" where
  "leadsCreate client parse args w =
     mapResult id (call client parse ''crm.lead.add'' (JObj [(''fields'', JObj (leadFields args))]) w)"

subsection \<open>The request handler\<close>

definition whole_between :: "int \<Rightarrow> int \<Rightarrow> rat \<Rightarrow> bool" where
  "whole_between a b q = (of_int \<lfloor>q\<rfloor> = q \<and> of_int a \<le> q \<and> q \<le> of_int b)"

definition DealsListInput :: zod_shape where
  "DealsListInput =
     [(''client'', ZodOptional (ZodString (\<lambda>s. 1 \<le> length s))), (''period'', ZodOptional (ZodString PERIOD_RE)),
      (''limit'', ZodDefault (ZodNumber (whole_between 1 50)) (JNum ''10''))]"

definition DealsGetInput :: zod_shape where
  "DealsGetInput = [(''deal_id'', ZodString (\<lambda>s. 1 \<le> length s))]"

definition ContactsSearchInput :: zod_shape where
  "ContactsSearchInput =
     [(''query'', ZodString (\<lambda>s. 2 \<le> length s)), (''limit'', ZodDefault (ZodNumber (whole_between 1 50)) (JNum ''10''))]"

definition LeadsCreateInput :: "(string \<Rightarrow> bool) \<Rightarrow> zod_shape" where
  "LeadsCreateInput is_email =
     [(''title'', ZodString (\<lambda>s. 1 \<le> length s)), (''contact_name'', ZodString (\<lambda>s. 1 \<le> length s)),
      (''contact_phone'', ZodOptional (ZodString (\<lambda>_. True))), (''contact_email'', ZodOptional (ZodString is_email)),
      (''source'', ZodDefault (ZodString (\<lambda>_. True)) (JStr ''brikko_studio'')), (''comments'', ZodOptional (ZodString (\<lambda>_. True)))]"

text \<open>The types inferred from the schemas.\<close>

definition string_field :: "string \<Rightarrow> (string \<times> jsval) list \<Rightarrow> string option" where
  "string_field k fs = (case field k fs of JStr s \<Rightarrow> Some s | _ \<Rightarrow> None)"

definition limit_field :: "(string \<times> jsval) list \<Rightarrow> nat" where
  "limit_field fs = (case field ''limit'' fs of JNum n \<Rightarrow> (case to_number n of Finite q \<Rightarrow> nat \<lfloor>q\<rfloor> | _ \<Rightarrow> 0) | _ \<Rightarrow> 0)"

definition dealsListArgs :: "(string \<times> jsval) list \<Rightarrow> deals_list_args" where
  "dealsListArgs fs = \<lparr>dl_client = string_field ''client'' fs, dl_period = string_field ''period'' fs, dl_limit = limit_field fs\<rparr>"

definition leadsCreateArgs :: "(string \<times> jsval) list \<Rightarrow> leads_create_args" where
  "leadsCreateArgs fs =
     \<lparr>lead_title = coalesce (string_field ''title'' fs) [], lead_contact_name = coalesce (string_field ''contact_name'' fs) [],
      lead_phone = string_field ''contact_phone'' fs, lead_email = string_field ''contact_email'' fs,
      lead_source = coalesce (string_field ''source'' fs) [], lead_comments = string_field ''comments'' fs\<rparr>"

record portal_readers =
  read_deals :: "string \<Rightarrow> bitrix_deal list portal_answer option"
  read_deal :: "string \<Rightarrow> bitrix_deal portal_answer option"
  read_contacts :: "string \<Rightarrow> bitrix_contact list portal_answer option"
  read_lead :: "string \<Rightarrow> string portal_answer option"

datatype tool_output = DealList "deal list" | OneDeal deal | ContactList "bitrix_contact_out list" | LeadCreated string

definition toolResult :: "('a \<Rightarrow> tool_output) \<Rightarrow> (tool_error + 'a) \<times> int list \<times> 'w \<Rightarrow> (tool_error + tool_output) \<times> int list \<times> 'w" where
  "toolResult f out = (case out of (Inl e, rest) \<Rightarrow> (Inl e, rest) | (Inr v, rest) \<Rightarrow> (Inr (f v), rest))"

definition withParsed :: "schema_library \<Rightarrow> zod_shape \<Rightarrow> jsval \<Rightarrow> ((string \<times> jsval) list \<Rightarrow> (tool_error + 'a) \<times> int list \<times> 'w) \<Rightarrow> 'w
    \<Rightarrow> (tool_error + 'a) \<times> int list \<times> 'w" where
  "withParsed lib shape v run w = (case sl_parse lib shape v of None \<Rightarrow> (Inl InvalidArguments, [], w) | Some fs \<Rightarrow> run fs)"

definition callTool :: "schema_library \<Rightarrow> 'w crest_client \<Rightarrow> portal_readers \<Rightarrow> (string \<Rightarrow> bool) \<Rightarrow> nat \<times> nat \<Rightarrow> string \<Rightarrow> jsval \<Rightarrow> 'w
    \<Rightarrow> (tool_error + tool_output) \<times> int list \<times> 'w" where
  "callTool lib client rd is_email today toolName arguments w =
     (let args = if arguments \<in> {JUndefined, JNull} then JObj [] else arguments
      in if toolName = ''bitrix24.deals.list''
         then withParsed lib DealsListInput args (\<lambda>fs. toolResult DealList (dealsList client (read_deals rd) today (dealsListArgs fs) w)) w
         else if toolName = ''bitrix24.deals.get''
         then withParsed lib DealsGetInput args
                (\<lambda>fs. toolResult OneDeal (dealsGet client (read_deal rd) (coalesce (string_field ''deal_id'' fs) []) w)) w
         else if toolName = ''bitrix24.contacts.search''
         then withParsed lib ContactsSearchInput args
                (\<lambda>fs. toolResult ContactList
                   (contactsSearch client (read_contacts rd) (coalesce (string_field ''query'' fs) []) (limit_field fs) w)) w
         else if toolName = ''bitrix24.leads.create''
         then withParsed lib (LeadsCreateInput is_email) args
                (\<lambda>fs. toolResult LeadCreated (leadsCreate client (read_lead rd) (leadsCreateArgs fs) w)) w
         else (Inl (UnknownTool toolName), [], w))"

definition listTools :: "schema_library \<Rightarrow> (string \<Rightarrow> bool) \<Rightarrow> (string \<times> jsval) list" where
  "listTools lib is_email =
     [(''bitrix24.deals.list'', zodToJsonSchema lib DealsListInput), (''bitrix24.deals.get'', zodToJsonSchema lib DealsGetInput),
      (''bitrix24.contacts.search'', zodToJsonSchema lib ContactsSearchInput),
      (''bitrix24.leads.create'', zodToJsonSchema lib (LeadsCreateInput is_email))]"

subsection \<open>Retries\<close>

text \<open>The answer to the request after \<open>i\<close> earlier ones.\<close>

definition answerAt :: "('w \<Rightarrow> crest_answer \<times> 'w) \<Rightarrow> 'w \<Rightarrow> nat \<Rightarrow> crest_answer" where
  "answerAt send w i = fst (send (((snd \<circ> send) ^^ i) w))"

fun failuresFirst :: "nat \<Rightarrow> ('w \<Rightarrow> crest_answer \<times> 'w) \<Rightarrow> 'w \<Rightarrow> nat" where
  "failuresFirst 0 send w = 0"
| "failuresFirst (Suc n) send w = (if retryable (fst (send w)) then Suc (failuresFirst n send (snd (send w))) else 0)"

lemma answerAt_simps [simp]: "answerAt send w 0 = fst (send w)" "answerAt send w (Suc i) = answerAt send (snd (send w)) i"
  by (simp_all add: answerAt_def funpow_Suc_right del: funpow.simps)

lemma failures_first:
  "failuresFirst n send w \<le> n \<and> (\<forall>i < failuresFirst n send w. retryable (answerAt send w i)) \<and>
   (failuresFirst n send w = n \<or> \<not> retryable (answerAt send w (failuresFirst n send w)))"
proof (induction n arbitrary: w)
  case (Suc n)
  then show ?case using Suc [of "snd (send w)"] by (auto simp: less_Suc_eq_0_disj)
qed simp

lemma callLoop_spec:
  assumes "attempt \<le> retries"
  shows "callLoop retries send settle attempt w =
    (let k = failuresFirst (retries - attempt) send w
     in (settle (answerAt send w k), map (\<lambda>i. 200 * 2 ^ Suc (attempt + i)) [0..<k], ((snd \<circ> send) ^^ Suc k) w))"
  using assms
proof (induction "retries - attempt" arbitrary: attempt w)
  case 0
  then show ?case
    by (subst callLoop.simps) (simp add: case_prod_beta Let_def)
next
  case (Suc n)
  then have next_attempt: "n = retries - Suc attempt" "Suc attempt \<le> retries" "attempt < retries" by auto
  have shift: "map (\<lambda>i. 400 * 2 ^ (attempt + i)) [0..<Suc k] =
      400 * 2 ^ attempt # map (\<lambda>i. 800 * 2 ^ (attempt + i) :: int) [0..<k]" for k
    by (simp add: upt_conv_Cons map_Suc_upt [symmetric] comp_def del: upt_Suc)
  show ?case
  proof (cases "retryable (fst (send w))")
    case True
    then show ?thesis
      using Suc.hyps(1) [OF next_attempt(1, 2), of "snd (send w)"] next_attempt(3)
      by (subst callLoop.simps)
        (simp add: Suc.hyps(2) [symmetric] next_attempt(1) [symmetric] shift case_prod_beta Let_def
          funpow_Suc_right del: upt_Suc funpow.simps)
  next
    case False
    then show ?thesis
      by (subst callLoop.simps) (simp add: Suc.hyps(2) [symmetric] case_prod_beta Let_def)
  qed
qed

text \<open>C36: A call to the portal ends after at most one request more than the configured retries. It repeats the request while
  the answer was lost or a server error, waiting 400, 800, ... milliseconds, and is settled by the first other answer,
  or by the last one when the retries are used up.\<close>

theorem call_settles:
  "let send = cc_fetch client (crestUrl (cc_creds client) callMethod) (stringify payload);
       k = failuresFirst (crest_retries (cc_opts client)) send w
   in call client parse callMethod payload w =
        (readAnswer parse callMethod (answerAt send w k), map (\<lambda>i. 400 * 2 ^ i) [0..<k], ((snd \<circ> send) ^^ Suc k) w) \<and>
      k \<le> crest_retries (cc_opts client) \<and>
      list_all (\<lambda>i. retryable (answerAt send w i)) [0..<k] \<and>
      (if retryable (answerAt send w k) then k = crest_retries (cc_opts client) else True)"
proof -
  define send where "send = cc_fetch client (crestUrl (cc_creds client) callMethod) (stringify payload)"
  define n where "n = crest_retries (cc_opts client)"
  define k where "k = failuresFirst n send w"
  have "k \<le> n" "list_all (\<lambda>i. retryable (answerAt send w i)) [0..<k]" "if retryable (answerAt send w k) then k = n else True"
    using failures_first [of n send w] by (auto simp: list_all_iff k_def)
  moreover have "map (\<lambda>i. 200 * 2 ^ Suc (0 + i)) [0..<k] = map (\<lambda>i. 400 * 2 ^ i :: int) [0..<k]" by simp
  ultimately show ?thesis
    unfolding Let_def call_def send_def [symmetric] n_def [symmetric] k_def [symmetric]
    by (simp add: callLoop_spec k_def [symmetric])
qed

text \<open>A portal that creates a lead for every request and loses the answers the script names.\<close>

definition losingPortal :: "(string list \<times> bool list) crest_fetch" where
  "losingPortal url body w =
     (case w of (created, losses) \<Rightarrow> (if losses \<noteq> [] \<and> hd losses then NoAnswer else Answer 200 None ''{}'', created @ [body], tl losses))"

text \<open>Creating a lead is not idempotent, and the client repeats it all the same: when the answer to the first request is
  lost, the tool reports one lead while the portal has created two.\<close>

theorem lost_answer_duplicates_lead:
  "let client = \<lparr>cc_creds = creds, cc_opts = DEFAULT_OPTIONS, cc_fetch = losingPortal\<rparr>;
       out = leadsCreate client (\<lambda>_. Some \<lparr>pa_result = leadId, pa_error = None, pa_description = None\<rparr>) args ([], [True]);
       body = stringify (JObj [(''fields'', JObj (leadFields args))])
   in fst out = Inr leadId \<and> fst (snd (snd out)) = [body, body]"
  by (simp add: leadsCreate_def call_def mapResult_def losingPortal_def DEFAULT_OPTIONS_def readAnswer_def retryable_def Let_def
      callLoop.simps [of 2] del: stringify.simps)

subsection \<open>Periods and limits\<close>

lemma is_digitE: "is_digit c \<Longrightarrow> \<exists>d < 10. c = char_of (48 + d) \<and> of_char c = 48 + (d :: nat)"
  by (rule exI [of _ "of_char c - 48"]) (auto simp: is_digit_def)

lemma zero_char: "CHR ''0'' = char_of (48 :: nat)"
  by (simp add: char_eq_iff_nat)

lemma show_digits:
  "\<forall>c \<in> set ds. is_digit c \<Longrightarrow> ds \<noteq> [] \<Longrightarrow> hd ds \<noteq> CHR ''0'' \<Longrightarrow> show_nat (digits_value ds) = ds \<and> 0 < digits_value ds"
proof (induction ds rule: rev_induct)
  case (snoc c ds)
  obtain d where d: "d < 10" "c = char_of (48 + d)" "(of_char c :: nat) = 48 + d" using snoc.prems(1) is_digitE [of c] by auto
  have val: "digits_value (ds @ [c]) = 10 * digits_value ds + d" by (simp add: digits_value_def d(3))
  show ?case
  proof (cases "ds = []")
    case True
    then have "c \<noteq> CHR ''0''" using snoc.prems(3) by simp
    then have "d \<noteq> 0" using d(2) by (intro notI) (simp add: zero_char)
    then show ?thesis using d True by (subst show_nat.simps) (simp add: val digits_value_def)
  next
    case False
    then have "show_nat (digits_value ds) = ds" "0 < digits_value ds" using snoc by (auto simp: hd_append)
    then show ?thesis using d(1) by (subst show_nat.simps) (simp add: val d(2) [symmetric])
  qed
qed simp

lemma anchored_quarter:
  "anchored quarter_pattern p \<longleftrightarrow>
   (\<exists>q ds. p = ''Q'' @ [q] @ ''-'' @ ds \<and> q \<in> set ''1234'' \<and> length ds = 4 \<and> (\<forall>c \<in> set ds. is_digit c))"
proof -
  have four: "list_all2 (\<lambda>p c. p c) (replicate 4 is_digit) ds \<longleftrightarrow> length ds = 4 \<and> (\<forall>c \<in> set ds. is_digit c)" for ds
    by (auto simp: list_all2_conv_all_nth all_set_conv_all_nth)
  show ?thesis
    unfolding anchored_def quarter_pattern_def lits_def
    by (simp add: list_all2_Cons1 four) blast
qed

lemma anchored_digits: "anchored (replicate n is_digit) s \<longleftrightarrow> length s = n \<and> (\<forall>c \<in> set s. is_digit c)"
  by (auto simp: anchored_def list_all2_conv_all_nth all_set_conv_all_nth)

lemma anchored_append: "anchored p s \<Longrightarrow> anchored q t \<Longrightarrow> anchored (p @ q) (s @ t)"
  unfolding anchored_def by (rule list_all2_appendI)

lemma anchored_lits: "anchored (lits s) s"
  by (simp add: anchored_def lits_def list_all2_conv_all_nth)

lemma pad_digits: "n < 100 \<Longrightarrow> length (pad n) = 2 \<and> (\<forall>c \<in> set (pad n). is_digit c)"
proof -
  assume n: "n < 100"
  have "length (show_nat n) \<le> 2" using n
    by (subst show_nat.simps, simp, subst show_nat.simps) auto
  moreover have "is_digit CHR ''0''" by (simp add: is_digit_def)
  ultimately show ?thesis using show_nat_digits [of n] by (auto simp: pad_def Let_def)
qed

lemma date_text:
  assumes "length (show_nat y) = 4" "m < 100" "d < 100"
  shows "anchored date_pattern (show_nat y @ ''-'' @ pad m @ ''-'' @ pad d)"
  unfolding date_pattern_def
  using assms show_nat_digits pad_digits
  by (intro anchored_append anchored_lits) (simp_all add: anchored_digits)

lemma date_length: "anchored date_pattern s \<Longrightarrow> length s = 10"
  unfolding anchored_def by (drule list_all2_lengthD) (simp add: date_pattern_def lits_def)

lemma date_range:
  assumes "anchored date_pattern a" "anchored date_pattern b"
  shows "parsePeriod today (a @ ''..'' @ b) = Some (dayStart a, dayEnd b)"
proof -
  have len: "length a = 10" "length b = 10" using assms by (simp_all add: date_length)
  then have "\<not> anchored quarter_pattern (a @ ''..'' @ b)" by (auto simp: anchored_quarter dest: arg_cong [of _ _ length])
  moreover have "a @ ''..'' @ b \<noteq> ''YTD''" "a @ ''..'' @ b \<noteq> ''MTD''" using len by (auto dest: arg_cong [of _ _ length])
  moreover have "anchored (date_pattern @ lits ''..'' @ date_pattern) (a @ ''..'' @ b)"
    by (intro anchored_append anchored_lits assms)
  ultimately show ?thesis using len by (simp add: parsePeriod_def)
qed

lemma pad_lits: "pad (Suc 0) = ''01''" "pad 12 = ''12''" "pad 31 = ''31''"
  by (simp_all add: pad_def show_nat.simps [of "Suc 0"] show_nat.simps [of 12] show_nat.simps [of 31] show_nat.simps [of 3] Let_def
      char_eq_iff_nat)

lemma last_day_small: "lastDayOf y m < 100"
  by (simp add: lastDayOf_def Let_def)

lemma digit_value: "digits_value [c] = of_char c - 48"
  by (simp add: digits_value_def)

lemma period_dates:
  assumes "parsePeriod today p = Some (f, t)" "snd today < 100" "length f = 19"
  shows "\<exists>a b. anchored date_pattern a \<and> anchored date_pattern b \<and> f = dayStart a \<and> t = dayEnd b"
proof -
  have month: "length (show_nat y) = 4 \<Longrightarrow> m < 100 \<Longrightarrow> anchored date_pattern (show_nat y @ ''-'' @ pad m @ ''-01'')" for y m
    using date_text [of y m 1] by (simp add: pad_lits)
  have year: "length (show_nat y) = 4" if "f = dayStart (show_nat y @ ''-'' @ pad m @ ''-01'')" "m < 100" for y m
    using that assms(3) pad_digits [of m] by (simp add: dayStart_def)
  consider (quarter) "anchored quarter_pattern p" | (year) "p = ''YTD''" | (month) "p = ''MTD''"
    | (range) "anchored (date_pattern @ lits ''..'' @ date_pattern) p" "\<not> anchored quarter_pattern p" "p \<noteq> ''YTD''" "p \<noteq> ''MTD''"
    using assms(1) by (auto simp: parsePeriod_def split: if_splits)
  then show ?thesis
  proof cases
    case quarter
    then obtain q where q: "p ! 1 = q" "q \<in> set ''1234''" by (auto simp: anchored_quarter)
    then have n: "digits_value [p ! 1] \<le> 4" by (auto simp: digit_value)
    let ?m = "(digits_value [p ! 1] - 1) * 3 + 1" and ?e = "digits_value [p ! 1] * 3" and ?y = "digits_value (drop 3 p)"
    have f: "f = dayStart (show_nat ?y @ ''-'' @ pad ?m @ ''-01'')"
      and t: "t = dayEnd (show_nat ?y @ ''-'' @ pad ?e @ ''-'' @ pad (lastDayOf ?y ?e))"
      using assms(1) quarter by (simp_all add: parsePeriod_def Let_def)
    have "?m < 100" "?e < 100" using n by simp_all
    then show ?thesis using year [OF f] f t month date_text last_day_small by blast
  next
    case year
    then have "\<not> anchored quarter_pattern p" by (auto simp: anchored_quarter)
    then have f: "f = dayStart (show_nat (fst today) @ ''-'' @ pad 1 @ ''-01'')"
      and t: "t = dayEnd (show_nat (fst today) @ ''-'' @ pad 12 @ ''-'' @ pad 31)"
      using assms(1) \<open>p = _\<close> by (simp_all add: parsePeriod_def Let_def pad_lits)
    have l: "length (show_nat (fst today)) = 4" using f assms(3) pad_digits [of 1] by (simp add: dayStart_def)
    show ?thesis using f t month [OF l, of 1] date_text [OF l, of 12 31] by (simp add: pad_lits) blast
  next
    case month
    then have "\<not> anchored quarter_pattern p" by (auto simp: anchored_quarter)
    then have f: "f = dayStart (show_nat (fst today) @ ''-'' @ pad (snd today) @ ''-01'')"
      and t: "t = dayEnd (show_nat (fst today) @ ''-'' @ pad (snd today) @ ''-'' @ pad (lastDayOf (fst today) (snd today)))"
      using assms(1) \<open>p = _\<close> by (simp_all add: parsePeriod_def Let_def case_prod_beta)
    have l: "length (show_nat (fst today)) = 4" using f assms(2, 3) pad_digits [of "snd today"] by (simp add: dayStart_def)
    show ?thesis
      using f t date_text [OF l assms(2), of 1] date_text [OF l assms(2) last_day_small] by (simp add: pad_lits) blast
  next
    case range
    then have ft: "f = dayStart (take 10 p)" "t = dayEnd (drop 12 p)" using assms(1) by (simp_all add: parsePeriod_def)
    obtain a r b where p: "p = a @ r @ b" and ab: "anchored date_pattern a" "anchored date_pattern b" and r: "anchored (lits ''..'') r"
      using range(1) unfolding anchored_def by (auto simp: list_all2_append1)
    have "length a = 10" "length r = 2" using ab(1) r by (auto simp: date_length anchored_def lits_def dest: list_all2_lengthD)
    then show ?thesis using ft p ab by auto
  qed
qed

text \<open>Every period token stands for a range of days. Whatever token is given, its answer names whole days, and writing
  these days as a range token gives the same answer, on any other day too (for years of four digits).\<close>

theorem period_normal_form:
  assumes "parsePeriod today p = Some (f, t)" and "snd today \<le> 12" and "length f = 19"
  shows "parsePeriod later (take 10 f @ ''..'' @ take 10 t) = Some (f, t)"
proof -
  obtain a b where "anchored date_pattern a" "anchored date_pattern b" "f = dayStart a" "t = dayEnd b"
    using period_dates [OF assms(1)] assms(2, 3) by force
  then show ?thesis using date_range date_length by (simp add: dayStart_def dayEnd_def)
qed

theorem period_normal_form_witness:
  "parsePeriod (2026, 2) ''Q1-2026'' = Some (''2026-01-01T00:00:00'', ''2026-03-31T23:59:59'') \<and>
   parsePeriod (2030, 7) ''2026-01-01..2026-03-31'' = Some (''2026-01-01T00:00:00'', ''2026-03-31T23:59:59'')"
proof -
  have "parsePeriod (2026, 2) ''Q1-2026'' = Some (''2026-01-01T00:00:00'', ''2026-03-31T23:59:59'')" by code_simp
  then show ?thesis using period_normal_form [of "(2026, 2)" "''Q1-2026''" "''2026-01-01T00:00:00''" "''2026-03-31T23:59:59''" "(2030, 7)"]
    by simp
qed

text \<open>A quarter of an early year is accepted, and asks for days no calendar has.\<close>

lemma early_quarter: "PERIOD_RE ''Q1-0050'' \<and> parsePeriod today ''Q1-0050'' = Some (''50-01-01T00:00:00'', ''50-03-31T23:59:59'')"
  by code_simp

lemma period_understood: "PERIOD_RE p \<Longrightarrow> parsePeriod today p \<noteq> None"
  by (auto simp: PERIOD_RE_def parsePeriod_def Let_def split: prod.split)

lemma deals_list_bounded:
  assumes "dl_limit args \<le> 50" "\<And>p. dl_period args = Some p \<Longrightarrow> PERIOD_RE p"
  shows "case fst (dealsList client parse today args w) of
    Inr ds \<Rightarrow> length ds \<le> 50 | Inl (UnrecognisedPeriod p) \<Rightarrow> False | _ \<Rightarrow> True"
proof -
  have "\<exists>flt. dealFilter today args = Inr flt"
  proof (cases "dl_period args")
    case None
    then show ?thesis by (simp add: dealFilter_def Let_def)
  next
    case (Some p)
    then obtain start till where "parsePeriod today p = Some (start, till)" using assms(2) period_understood [of p today] by auto
    then show ?thesis using Some by (simp add: dealFilter_def Let_def)
  qed
  then show ?thesis using assms(1)
    by (auto simp: dealsList_def mapResult_def split: sum.split prod.split)
qed

definition limited :: "zod_shape \<Rightarrow> bool" where
  "limited shape = (distinct (map fst shape) \<and> (''limit'', ZodDefault (ZodNumber (whole_between 1 50)) (JNum ''10'')) \<in> set shape)"

lemma limit_parsed: "schema_laws lib \<Longrightarrow> limited shape \<Longrightarrow> sl_parse lib shape v = Some fs \<Longrightarrow> limit_field fs \<le> 50"
  unfolding limited_def using schema_laws.parse_typed [of lib shape v fs "''limit''"]
  by (fastforce simp: limit_field_def whole_between_def split: jsval.splits js_number.splits)

lemma period_parsed:
  assumes "schema_laws lib" "sl_parse lib DealsListInput v = Some fs" "string_field ''period'' fs = Some p"
  shows "PERIOD_RE p"
proof -
  have "inferred (ZodOptional (ZodString PERIOD_RE)) (field ''period'' fs)"
    by (rule schema_laws.parse_typed [OF assms(1, 2)]) (simp_all add: DealsListInput_def)
  then show ?thesis using assms(3) by (auto simp: string_field_def split: jsval.splits)
qed

lemma limited_inputs: "limited DealsListInput" "limited ContactsSearchInput"
  by (simp_all add: limited_def DealsListInput_def ContactsSearchInput_def)

text \<open>The server answers every deal and contact listing with at most fifty entries, and a period the schema lets through is
  always understood.\<close>

theorem listings_bounded:
  assumes laws: "schema_laws lib"
  shows "case fst (callTool lib client rd is_email today toolName arguments w) of
     Inr (DealList ds) \<Rightarrow> length ds \<le> 50
   | Inr (ContactList cs) \<Rightarrow> length cs \<le> 50
   | Inl (UnrecognisedPeriod p) \<Rightarrow> False
   | _ \<Rightarrow> True"
proof -
  let ?ok = "\<lambda>out. case fst out of Inr (DealList ds) \<Rightarrow> length ds \<le> 50 | Inr (ContactList cs) \<Rightarrow> length cs \<le> 50
     | Inl (UnrecognisedPeriod p) \<Rightarrow> False | _ \<Rightarrow> True"
  have deals: "?ok (withParsed lib DealsListInput args
      (\<lambda>fs. toolResult DealList (dealsList client (read_deals rd) today (dealsListArgs fs) w)) w)" for args
    using deals_list_bounded [of "dealsListArgs fs" client "read_deals rd" today w for fs] period_parsed [OF laws] limit_parsed [OF laws limited_inputs(1)]
    by (fastforce simp: withParsed_def toolResult_def dealsListArgs_def split: option.split sum.splits prod.splits tool_error.splits)
  have contacts: "?ok (withParsed lib ContactsSearchInput args
      (\<lambda>fs. toolResult ContactList (contactsSearch client (read_contacts rd) (coalesce (string_field ''query'' fs) []) (limit_field fs) w)) w)" for args
    using limit_parsed [OF laws limited_inputs(2)]
    by (fastforce simp: withParsed_def toolResult_def contactsSearch_def mapResult_def split: option.split sum.split prod.split)
  have deal: "?ok (withParsed lib DealsGetInput args
      (\<lambda>fs. toolResult OneDeal (dealsGet client (read_deal rd) (coalesce (string_field ''deal_id'' fs) []) w)) w)" for args
    by (auto simp: withParsed_def toolResult_def dealsGet_def mapResult_def split: option.split sum.split prod.split)
  have lead: "?ok (withParsed lib (LeadsCreateInput is_email) args
      (\<lambda>fs. toolResult LeadCreated (leadsCreate client (read_lead rd) (leadsCreateArgs fs) w)) w)" for args
    by (auto simp: withParsed_def toolResult_def leadsCreate_def mapResult_def split: option.split sum.split prod.split)
  define args where "args = (if arguments \<in> {JUndefined, JNull} then JObj [] else arguments)"
  show ?thesis
    unfolding callTool_def Let_def args_def [symmetric]
    using deals [of args] deal [of args] contacts [of args] lead [of args] by simp
qed

text \<open>A portal with sixty deals, asked for fifty.\<close>

definition busyPortal :: "unit crest_client" where
  "busyPortal = \<lparr>cc_creds = \<lparr>portalUrl = ''https://a.b'', webhookToken = ''1/x''\<rparr>, cc_opts = DEFAULT_OPTIONS,
     cc_fetch = (\<lambda>_ _ w. (Answer 200 None [], w))\<rparr>"

definition sixtyDeals :: portal_readers where
  "sixtyDeals = \<lparr>read_deals = (\<lambda>_. Some \<lparr>pa_result = replicate 60 \<lparr>bd_id = [], bd_title = [], bd_stage = [], bd_opportunity = [], bd_created = []\<rparr>,
       pa_error = None, pa_description = None\<rparr>),
     read_deal = (\<lambda>_. None), read_contacts = (\<lambda>_. None), read_lead = (\<lambda>_. None)\<rparr>"

theorem listings_bounded_witness:
  "case fst (callTool documented busyPortal sixtyDeals (\<lambda>_. True) (2026, 2) ''bitrix24.deals.list'' (JObj [(''limit'', JNum ''50'')]) ()) of
     Inr (DealList ds) \<Rightarrow> length ds \<le> 50
   | Inr (ContactList cs) \<Rightarrow> length cs \<le> 50
   | Inl (UnrecognisedPeriod p) \<Rightarrow> False
   | _ \<Rightarrow> True"
  by (rule listings_bounded [OF zod_library.schema_laws_axioms])

end
