(* ===== verification/Credentials.thy ===== *)
theory Credentials
  imports Bitrix24 OAuthClient
begin

text \<open>
  Secrets in the keychain: the token store of \<^verbatim>\<open>packages/oauth-client/src/keychain.ts\<close> and the credentials of the tool servers,
  \<^verbatim>\<open>packages/skills-bitrix24/src/credentials.ts\<close> and \<^verbatim>\<open>packages/skills-1c/src/credentials.ts\<close>. A backend is an interface, stated as a
  locale and interpreted on the code's in-memory backend; the system keychain behind keytar is another provider of it.
\<close>

subsection \<open>Backends\<close>

text \<open>The operations of \<^verbatim>\<open>KeychainBackend\<close> and what the stores rely on: a value set is the value got, and the accounts do not
  disturb one another.\<close>

locale keychain =
  fixes put :: "string \<Rightarrow> string \<Rightarrow> 'k \<Rightarrow> 'k"
    and look :: "string \<Rightarrow> 'k \<Rightarrow> string option"
    and remove :: "string \<Rightarrow> 'k \<Rightarrow> bool \<times> 'k"
  assumes look_put: "look a (put b v k) = (if a = b then Some v else look a k)"
    and look_remove: "look a (snd (remove b k)) = (if a = b then None else look a k)"

type_synonym memory_keychain = "(string, string) js_map"

definition memSet :: "string \<Rightarrow> string \<Rightarrow> memory_keychain \<Rightarrow> memory_keychain" where
  "memSet account v store = AList.update account v store"

definition memGet :: "string \<Rightarrow> memory_keychain \<Rightarrow> string option" where
  "memGet account store = map_of store account"

definition memDelete :: "string \<Rightarrow> memory_keychain \<Rightarrow> bool \<times> memory_keychain" where
  "memDelete account store = (map_of store account \<noteq> None, AList.delete account store)"

interpretation memory: keychain memSet memGet memDelete
  by unfold_locales (simp_all add: memSet_def memGet_def memDelete_def update_conv' AList.delete_conv')

subsection \<open>The token store\<close>

definition FULL_KEY :: string where
  "FULL_KEY = ''brikko-studio:tokens''"

definition token_value :: "token_set \<Rightarrow> jsval" where
  "token_value t =
     JObj [(''access_token'', JStr (access_token t)), (''refresh_token'', JStr (refresh_token t)),
       (''expires_at'', JNum (show_int (expires_at t))), (''token_type'', JStr (token_type t)), (''scope'', JStr (token_scope t)),
       (''user_email'', case user_email t of None \<Rightarrow> JUndefined | Some e \<Rightarrow> JStr e)]"

definition saveTokens :: "(string \<Rightarrow> string \<Rightarrow> 'k \<Rightarrow> 'k) \<Rightarrow> token_set \<Rightarrow> 'k \<Rightarrow> 'k" where
  "saveTokens put token k = put FULL_KEY (stringify (token_value token)) k"

definition loadTokens :: "(string \<Rightarrow> 'k \<Rightarrow> string option) \<Rightarrow> 'k \<Rightarrow> jsval" where
  "loadTokens look k = (case look FULL_KEY k of None \<Rightarrow> JNull | Some raw \<Rightarrow> coalesce (json_parse raw) JNull)"

definition clearTokens :: "(string \<Rightarrow> 'k \<Rightarrow> bool \<times> 'k) \<Rightarrow> 'k \<Rightarrow> 'k" where
  "clearTokens remove k = snd (remove FULL_KEY k)"

subsection \<open>Credentials of the tool servers\<close>

datatype credentials_error = CredentialsMissing | NotAnObject

text \<open>Truthiness of a parsed value; a number is zero exactly when its numeral reads as zero.\<close>

definition truthy :: "jsval \<Rightarrow> bool" where
  "truthy v = (case v of
      JUndefined \<Rightarrow> False | JNull \<Rightarrow> False | JBool b \<Rightarrow> b | JNum n \<Rightarrow> to_number n \<noteq> Finite 0 | JStr s \<Rightarrow> s \<noteq> [] | JArr _ \<Rightarrow> True | JObj _ \<Rightarrow> True)"

text \<open>Reading a property: null and undefined throw, the other values that are no objects have none of these.\<close>

definition property :: "string \<Rightarrow> jsval \<Rightarrow> jsval option" where
  "property k v = (case v of JUndefined \<Rightarrow> None | JNull \<Rightarrow> None | JObj fs \<Rightarrow> Some (field k fs) | _ \<Rightarrow> Some JUndefined)"

definition loadChecked :: "string list \<Rightarrow> string option \<Rightarrow> credentials_error + jsval" where
  "loadChecked keys raw =
     (case raw of
        None \<Rightarrow> Inl CredentialsMissing
      | Some t \<Rightarrow>
          (case json_parse t of
             None \<Rightarrow> Inl CredentialsMissing
           | Some v \<Rightarrow>
               if v = JNull then Inl NotAnObject
               else if list_all (\<lambda>k. truthy (coalesce (property k v) JUndefined)) keys then Inr v else Inl CredentialsMissing))"

definition bitrix_value :: "bitrix_credentials \<Rightarrow> jsval" where
  "bitrix_value c = JObj [(''portalUrl'', JStr (portalUrl c)), (''webhookToken'', JStr (webhookToken c))]"

definition bitrixLoad :: "(string \<Rightarrow> 'k \<Rightarrow> string option) \<Rightarrow> 'k \<Rightarrow> credentials_error + jsval" where
  "bitrixLoad look k = loadChecked [''portalUrl'', ''webhookToken''] (look ''bitrix24'' k)"

definition bitrixSave :: "(string \<Rightarrow> string \<Rightarrow> 'k \<Rightarrow> 'k) \<Rightarrow> bitrix_credentials \<Rightarrow> 'k \<Rightarrow> 'k" where
  "bitrixSave put c k = put ''bitrix24'' (stringify (bitrix_value c)) k"

record onec_credentials =
  odataUrl :: string
  onec_user :: string
  onec_password :: string

definition onec_value :: "onec_credentials \<Rightarrow> jsval" where
  "onec_value c = JObj [(''odataUrl'', JStr (odataUrl c)), (''username'', JStr (onec_user c)), (''password'', JStr (onec_password c))]"

definition onecLoad :: "(string \<Rightarrow> 'k \<Rightarrow> string option) \<Rightarrow> 'k \<Rightarrow> credentials_error + jsval" where
  "onecLoad look k = loadChecked [''odataUrl'', ''username'', ''password''] (look ''1c'' k)"

definition onecSave :: "(string \<Rightarrow> string \<Rightarrow> 'k \<Rightarrow> 'k) \<Rightarrow> onec_credentials \<Rightarrow> 'k \<Rightarrow> 'k" where
  "onecSave put c k = put ''1c'' (stringify (onec_value c)) k"

subsection \<open>What is saved is loaded\<close>

text \<open>Members that are undefined are not printed.\<close>

definition printed_fields :: "(string \<times> jsval) list \<Rightarrow> (string \<times> jsval) list" where
  "printed_fields fs = filter (\<lambda>(k, v). v \<noteq> JUndefined) fs"

lemma stringify_printed: "stringify (JObj fs) = stringify (JObj (printed_fields fs))"
  by (simp add: printed_fields_def)

text \<open>Integers are JSON numbers.\<close>

lemma show_nat_head: "show_nat n = ''0'' \<or> hd (show_nat n) \<noteq> CHR ''0''"
proof (induction n rule: show_nat.induct)
  case (1 n)
  show ?case
  proof (cases "n < 10")
    case True
    then show ?thesis by (subst (1 2) show_nat.simps) (auto simp: char_eq_iff_nat)
  next
    case False
    have "show_nat (n div 10) \<noteq> ''0''"
    proof
      assume "show_nat (n div 10) = ''0''"
      then have "n div 10 = 0" using digits_value_show [of "n div 10"] by (simp add: digits_value_def)
      then show False using False by simp
    qed
    then show ?thesis using 1 False by (subst (2) show_nat.simps) (simp add: hd_append)
  qed
qed

lemma parse_unsigned_nat: "parse_unsigned (show_nat n) = Some (show_nat n, [])"
proof -
  have tw: "takeWhile is_digit (show_nat n) = show_nat n" "dropWhile is_digit (show_nat n) = []"
    using show_nat_digits [of n] by (simp_all add: takeWhile_eq_all_conv)
  obtain c cs where c: "show_nat n = c # cs" "is_digit c" using show_nat_digits [of n] by (cases "show_nat n") auto
  have "parse_int_part (show_nat n) = Some (show_nat n, [])"
    using show_nat_head [of n] tw c by (auto simp: parse_int_part_def)
  then show ?thesis by (simp add: parse_unsigned_def parse_fraction_def parse_exponent_def)
qed

lemma parse_number_int: "parse_number (show_int i) = Some (show_int i, [])"
proof (cases "i < 0")
  case False
  obtain c cs where c: "show_nat (nat i) = c # cs" "is_digit c" using show_nat_digits [of "nat i"] by (cases "show_nat (nat i)") auto
  then have "c \<noteq> CHR ''-''" by (auto simp: is_digit_def)
  then show ?thesis using False c parse_unsigned_nat [of "nat i"] by (simp add: parse_number_def show_int_def)
qed (simp add: parse_number_def show_int_def parse_unsigned_nat)

lemma token_value_back:
  "json_parse (stringify (token_value t)) = Some (JObj (printed_fields
     [(''access_token'', JStr (access_token t)), (''refresh_token'', JStr (refresh_token t)),
       (''expires_at'', JNum (show_int (expires_at t))), (''token_type'', JStr (token_type t)), (''scope'', JStr (token_scope t)),
       (''user_email'', case user_email t of None \<Rightarrow> JUndefined | Some e \<Rightarrow> JStr e)]))"
  unfolding token_value_def
  by (subst stringify_printed, rule parse_stringify) (simp add: printed_fields_def parse_number_int split: option.split)

lemma loadChecked_strings:
  assumes "distinct (map fst fs)" "\<forall>(k, v) \<in> set fs. \<exists>s. v = JStr s" "set keys = fst ` set fs"
  shows "loadChecked keys (Some (stringify (JObj fs))) =
    (if list_all (\<lambda>(k, v). v \<noteq> JStr []) fs then Inr (JObj fs) else Inl CredentialsMissing)"
proof -
  have "json_value (JObj fs)" using assms(1, 2) by (force simp: list_all_iff)
  then have parsed: "json_parse (stringify (JObj fs)) = Some (JObj fs)" by (rule parse_stringify)
  have "truthy (field k fs) \<longleftrightarrow> v \<noteq> JStr []" if "(k, v) \<in> set fs" for k v
    using that assms(1, 2) by (fastforce simp: field_def truthy_def)
  then have "list_all (\<lambda>k. truthy (field k fs)) keys = list_all (\<lambda>(k, v). v \<noteq> JStr []) fs"
    using assms(3) by (fastforce simp: list_all_iff)
  then show ?thesis unfolding loadChecked_def by (simp only: parsed option.case) (simp add: property_def)
qed

lemma load_bitrix:
  "loadChecked [''portalUrl'', ''webhookToken''] (Some (stringify (bitrix_value c))) =
    (if portalUrl c \<noteq> [] \<and> webhookToken c \<noteq> [] then Inr (bitrix_value c) else Inl CredentialsMissing)"
  unfolding bitrix_value_def by (subst loadChecked_strings) simp_all

lemma load_onec:
  "loadChecked [''odataUrl'', ''username'', ''password''] (Some (stringify (onec_value c))) =
    (if odataUrl c \<noteq> [] \<and> onec_user c \<noteq> [] \<and> onec_password c \<noteq> [] then Inr (onec_value c) else Inl CredentialsMissing)"
  unfolding onec_value_def by (subst loadChecked_strings) auto

text \<open>In any keychain what was saved is loaded, and no store disturbs another.\<close>

context keychain begin

lemma tokens_kept:
  "loadTokens look (saveTokens put t k) = coalesce (json_parse (stringify (token_value t))) JNull"
  "loadTokens look (clearTokens remove k) = JNull"
  "loadTokens look (bitrixSave put b k) = loadTokens look k" "loadTokens look (onecSave put c k) = loadTokens look k"
  by (simp_all add: loadTokens_def saveTokens_def clearTokens_def bitrixSave_def onecSave_def look_put look_remove FULL_KEY_def)

lemma bitrix_kept:
  "bitrixLoad look (bitrixSave put b k) = loadChecked [''portalUrl'', ''webhookToken''] (Some (stringify (bitrix_value b)))"
  "bitrixLoad look (saveTokens put t k) = bitrixLoad look k" "bitrixLoad look (clearTokens remove k) = bitrixLoad look k"
  "bitrixLoad look (onecSave put c k) = bitrixLoad look k"
  by (simp_all add: bitrixLoad_def saveTokens_def clearTokens_def bitrixSave_def onecSave_def look_put look_remove FULL_KEY_def)

lemma onec_kept:
  "onecLoad look (onecSave put c k) = loadChecked [''odataUrl'', ''username'', ''password''] (Some (stringify (onec_value c)))"
  "onecLoad look (saveTokens put t k) = onecLoad look k" "onecLoad look (clearTokens remove k) = onecLoad look k"
  "onecLoad look (bitrixSave put b k) = onecLoad look k"
  by (simp_all add: onecLoad_def saveTokens_def clearTokens_def bitrixSave_def onecSave_def look_put look_remove FULL_KEY_def)

end

text \<open>C37: Saved secrets are loaded as they were saved, and the three stores that share a keychain do not touch each other: after a
  sign-in, both tool servers set up and a sign-out, the tool credentials are there, complete or refused, and the tokens are
  gone.\<close>

theorem secrets_kept:
  "let k1 = saveTokens memSet t k; k2 = onecSave memSet c (bitrixSave memSet b k1); k3 = clearTokens memDelete k2
   in loadTokens memGet k2 = JObj (printed_fields
        [(''access_token'', JStr (access_token t)), (''refresh_token'', JStr (refresh_token t)),
         (''expires_at'', JNum (show_int (expires_at t))), (''token_type'', JStr (token_type t)), (''scope'', JStr (token_scope t)),
         (''user_email'', case user_email t of None \<Rightarrow> JUndefined | Some e \<Rightarrow> JStr e)]) \<and>
      loadTokens memGet k3 = JNull \<and>
      bitrixLoad memGet k3 =
        (if portalUrl b \<noteq> [] \<and> webhookToken b \<noteq> [] then Inr (bitrix_value b) else Inl CredentialsMissing) \<and>
      onecLoad memGet k3 =
        (if odataUrl c \<noteq> [] \<and> onec_user c \<noteq> [] \<and> onec_password c \<noteq> [] then Inr (onec_value c) else Inl CredentialsMissing)"
  unfolding Let_def
  by (simp only: memory.tokens_kept memory.bitrix_kept memory.onec_kept token_value_back load_bitrix load_onec coalesce_simps simp_thms)

end
