(* ===== verification/OneC.thy ===== *)
theory OneC
  imports Credentials
begin

text \<open>
  The 1C tool server: \<^verbatim>\<open>packages/skills-1c/src/odata-client.ts\<close>, \<^verbatim>\<open>schemas.ts\<close>, \<^verbatim>\<open>tools/\<close> and the request handler of
  \<^verbatim>\<open>server.ts\<close>. The Russian names of entity sets and fields are an argument, since the model's characters have eight bits;
  they hold no character that is special in a URL or a filter. The network is an argument over a world state and an answer
  is read at the type the tool declares for it.
\<close>

subsection \<open>The client\<close>

datatype onec_error =
    OneCFailed string
  | OneCBodyLost
  | OneCAuth
  | OneCNotFound string
  | OneCHttp nat string
  | OneCNotJson string string

record odata_request =
  oq_method :: string
  oq_url :: string
  oq_headers :: "(string \<times> string) list"
  oq_body :: "string option"

datatype odata_answer = OdataNone | OdataHeaders nat | OdataAnswer nat string

type_synonym 'w odata_fetch = "odata_request \<Rightarrow> 'w \<Rightarrow> odata_answer \<times> 'w"

record 'w odata_client =
  oc_creds :: onec_credentials
  oc_fetch :: "'w odata_fetch"

definition odataHeaders :: "onec_credentials \<Rightarrow> (string \<times> string) list" where
  "odataHeaders c =
     [(''authorization'', ''Basic '' @ base64 (concat (map utf8_bytes (onec_user c @ '':'' @ onec_password c)))),
      (''accept'', ''application/json'')]"

definition fetchJson :: "'w odata_client \<Rightarrow> (string \<Rightarrow> 'r option) \<Rightarrow> odata_request \<Rightarrow> string \<Rightarrow> 'w \<Rightarrow> (onec_error + 'r) \<times> 'w" where
  "fetchJson client parse req entitySet w =
     (case oc_fetch client req w of
        (OdataNone, w') \<Rightarrow> (Inl (OneCFailed entitySet), w')
      | (OdataHeaders _, w') \<Rightarrow> (Inl OneCBodyLost, w')
      | (OdataAnswer st body, w') \<Rightarrow>
          (if st = 401 then Inl OneCAuth
           else if st = 404 then Inl (OneCNotFound entitySet)
           else if 400 \<le> st then Inl (OneCHttp st (take 200 body))
           else (case parse body of None \<Rightarrow> Inl (OneCNotJson entitySet (take 100 body)) | Some v \<Rightarrow> Inr v), w'))"

text \<open>\<^verbatim>\<open>params.set\<close> replaces the value of a key that is there.\<close>

definition queryParams :: "(string \<times> string) list \<Rightarrow> (string \<times> string) list" where
  "queryParams query = fold (\<lambda>(k, v) ps. if v \<noteq> [] then AList.update k v ps else ps) query [(''$format'', ''json'')]"

definition getUrl :: "onec_credentials \<Rightarrow> string \<Rightarrow> (string \<times> string) list \<Rightarrow> string" where
  "getUrl c entitySet query = stripSlash (odataUrl c) @ ''/'' @ entitySet @ ''?'' @ urlSearchParams (queryParams query)"

definition odataGet :: "'w odata_client \<Rightarrow> (string \<Rightarrow> 'r option) \<Rightarrow> string \<Rightarrow> (string \<times> string) list \<Rightarrow> 'w \<Rightarrow> (onec_error + 'r) \<times> 'w" where
  "odataGet client parse entitySet query w =
     fetchJson client parse
       \<lparr>oq_method = ''GET'', oq_url = getUrl (oc_creds client) entitySet query, oq_headers = odataHeaders (oc_creds client), oq_body = None\<rparr>
       entitySet w"

definition odataPost :: "'w odata_client \<Rightarrow> (string \<Rightarrow> 'r option) \<Rightarrow> string \<Rightarrow> jsval \<Rightarrow> 'w \<Rightarrow> (onec_error + 'r) \<times> 'w" where
  "odataPost client parse entitySet body w =
     fetchJson client parse
       \<lparr>oq_method = ''POST'', oq_url = stripSlash (odataUrl (oc_creds client)) @ ''/'' @ entitySet @ ''?$format=json'',
        oq_headers = odataHeaders (oc_creds client) @ [(''content-type'', ''application/json'')], oq_body = Some (stringify body)\<rparr>
       entitySet w"

subsection \<open>Tools\<close>

datatype document_type = Sale | Purchase | PaymentIn | PaymentOut

text \<open>The Russian names the tools use.\<close>

record onec_names =
  entity_by_type :: "document_type \<Rightarrow> string"
  contractors_set :: string
  balance_set :: string
  inn_field :: string

record odata_contractor =
  oc_ref :: string
  oc_description :: string
  oc_inn :: "string option"
  oc_kpp :: "string option"

record contractor =
  ct_id :: string
  ct_name :: string
  ct_inn :: "string option"
  ct_kpp :: "string option"

definition nonEmpty :: "string option \<Rightarrow> string option" where
  "nonEmpty v = (if truthy_string v then v else None)"

definition toContractor :: "odata_contractor \<Rightarrow> contractor" where
  "toContractor c = \<lparr>ct_id = oc_ref c, ct_name = oc_description c, ct_inn = nonEmpty (oc_inn c), ct_kpp = nonEmpty (oc_kpp c)\<rparr>"

definition quote :: char where "quote = CHR 0x27"

definition escapeOdataString :: "string \<Rightarrow> string" where
  "escapeOdataString s = concat (map (\<lambda>c. if c = quote then [quote, quote] else [c]) s)"

record contractors_args =
  ca_inn :: "string option"
  ca_name_query :: "string option"
  ca_limit :: nat

definition contractorFilters :: "onec_names \<Rightarrow> contractors_args \<Rightarrow> string list" where
  "contractorFilters names args =
     (if truthy_string (ca_inn args) then [inn_field names @ '' eq '' @ [quote] @ coalesce (ca_inn args) [] @ [quote]] else [])
     @ (if truthy_string (ca_name_query args)
        then [''substringof('' @ [quote] @ escapeOdataString (coalesce (ca_name_query args) []) @ [quote] @ '', Description)''] else [])"

definition contractorsQuery :: "onec_names \<Rightarrow> contractors_args \<Rightarrow> (string \<times> string) list" where
  "contractorsQuery names args =
     [(''$top'', show_nat (ca_limit args))]
     @ (if contractorFilters names args \<noteq> [] then [(''$filter'', js_join '' or '' (contractorFilters names args))] else [])"

definition onecContractorsSearch :: "'w odata_client \<Rightarrow> onec_names \<Rightarrow> (string \<Rightarrow> odata_contractor list option) \<Rightarrow> contractors_args \<Rightarrow> 'w
    \<Rightarrow> (onec_error + contractor list) \<times> 'w" where
  "onecContractorsSearch client names parse args w =
     (case odataGet client parse (contractors_set names) (contractorsQuery names args) w of
        (Inl e, w') \<Rightarrow> (Inl e, w') | (Inr cs, w') \<Rightarrow> (Inr (map toContractor cs), w'))"

record odata_doc =
  od_ref :: string
  od_number :: string
  od_date :: string
  od_sum :: "rat option"
  od_contractor :: "string option"

record onec_document =
  doc_id :: string
  doc_number :: string
  doc_date :: string
  doc_amount :: rat
  doc_contractor :: "string option"

definition toDocument :: "odata_doc \<Rightarrow> onec_document" where
  "toDocument d = \<lparr>doc_id = od_ref d, doc_number = od_number d, doc_date = od_date d, doc_amount = coalesce (od_sum d) 0,
     doc_contractor = nonEmpty (od_contractor d)\<rparr>"

record documents_args =
  da_type :: document_type
  da_period :: "string option"
  da_limit :: nat

definition documentFilters :: "nat \<times> nat \<Rightarrow> documents_args \<Rightarrow> string list option" where
  "documentFilters today args =
     (if truthy_string (da_period args)
      then map_option (\<lambda>(start, till). [''Date ge datetime'' @ [quote] @ start @ [quote], ''Date le datetime'' @ [quote] @ till @ [quote]])
             (parsePeriod today (coalesce (da_period args) []))
      else Some [])"

definition documentsQuery :: "documents_args \<Rightarrow> string list \<Rightarrow> (string \<times> string) list" where
  "documentsQuery args filters =
     [(''$top'', show_nat (da_limit args)), (''$orderby'', ''Date desc'')]
     @ (if filters \<noteq> [] then [(''$filter'', js_join '' and '' filters)] else [])"

datatype onec_tool_error = OneC onec_error | OneCPeriod string | OneCArguments | OneCTool string

definition onecDocumentsList :: "'w odata_client \<Rightarrow> onec_names \<Rightarrow> (string \<Rightarrow> odata_doc list option) \<Rightarrow> nat \<times> nat \<Rightarrow> documents_args \<Rightarrow> 'w
    \<Rightarrow> (onec_tool_error + onec_document list) \<times> 'w" where
  "onecDocumentsList client names parse today args w =
     (case documentFilters today args of
        None \<Rightarrow> (Inl (OneCPeriod (coalesce (da_period args) [])), w)
      | Some filters \<Rightarrow>
          (case odataGet client parse (entity_by_type names (da_type args)) (documentsQuery args filters) w of
             (Inl e, w') \<Rightarrow> (Inl (OneC e), w') | (Inr ds, w') \<Rightarrow> (Inr (map toDocument ds), w')))"

text \<open>The balance takes a period and does not use it.\<close>

definition onecReportsBalance :: "'w odata_client \<Rightarrow> onec_names \<Rightarrow> (string \<Rightarrow> (string \<times> rat) list option) \<Rightarrow> string \<Rightarrow> 'w
    \<Rightarrow> (onec_error + (string \<times> rat) list) \<times> 'w" where
  "onecReportsBalance client names parse period w = odataGet client parse (balance_set names) [] w"

subsection \<open>The request handler\<close>

definition inn_ok :: "string \<Rightarrow> bool" where
  "inn_ok s = (anchored (replicate 10 is_digit) s \<or> anchored (replicate 12 is_digit) s)"

definition onecDocumentsInput :: zod_shape where
  "onecDocumentsInput =
     [(''type'', ZodDefault (ZodEnum [''sale'', ''purchase'', ''payment_in'', ''payment_out'']) (JStr ''sale'')),
      (''period'', ZodOptional (ZodString PERIOD_RE)), (''limit'', ZodDefault (ZodNumber (whole_between 1 50)) (JNum ''10''))]"

definition onecContractorsInput :: zod_shape where
  "onecContractorsInput =
     [(''inn'', ZodOptional (ZodString inn_ok)), (''name_query'', ZodOptional (ZodString (\<lambda>s. 2 \<le> length s))),
      (''limit'', ZodDefault (ZodNumber (whole_between 1 50)) (JNum ''10''))]"

definition onecBalanceInput :: zod_shape where
  "onecBalanceInput = [(''period'', ZodDefault (ZodString PERIOD_RE) (JStr ''YTD''))]"

text \<open>\<^verbatim>\<open>refine\<close>: one of the two is needed.\<close>

definition contractorsRefined :: "(string \<times> jsval) list \<Rightarrow> bool" where
  "contractorsRefined fs = (truthy (field ''inn'' fs) \<or> truthy (field ''name_query'' fs))"

definition documentTypeOf :: "(string \<times> jsval) list \<Rightarrow> document_type" where
  "documentTypeOf fs =
     coalesce (map_of [(JStr ''sale'', Sale), (JStr ''purchase'', Purchase), (JStr ''payment_in'', PaymentIn), (JStr ''payment_out'', PaymentOut)]
       (field ''type'' fs)) Sale"

record onec_readers =
  read_documents :: "string \<Rightarrow> odata_doc list option"
  read_contractors :: "string \<Rightarrow> odata_contractor list option"
  read_balance :: "string \<Rightarrow> (string \<times> rat) list option"

datatype onec_output = DocumentList "onec_document list" | ContractorList "contractor list" | BalanceLines "(string \<times> rat) list"

definition onecResult :: "('a \<Rightarrow> onec_output) \<Rightarrow> (onec_error + 'a) \<times> 'w \<Rightarrow> (onec_tool_error + onec_output) \<times> 'w" where
  "onecResult f out = (case out of (Inl e, w) \<Rightarrow> (Inl (OneC e), w) | (Inr v, w) \<Rightarrow> (Inr (f v), w))"

definition onecCallTool :: "schema_library \<Rightarrow> 'w odata_client \<Rightarrow> onec_names \<Rightarrow> onec_readers \<Rightarrow> nat \<times> nat \<Rightarrow> string \<Rightarrow> jsval \<Rightarrow> 'w
    \<Rightarrow> (onec_tool_error + onec_output) \<times> 'w" where
  "onecCallTool lib client names rd today toolName arguments w =
     (let args = if arguments \<in> {JUndefined, JNull} then JObj [] else arguments
      in if toolName = ''1c.documents.list''
         then (case sl_parse lib onecDocumentsInput args of
                 None \<Rightarrow> (Inl OneCArguments, w)
               | Some fs \<Rightarrow>
                   (case onecDocumentsList client names (read_documents rd) today
                           \<lparr>da_type = documentTypeOf fs, da_period = string_field ''period'' fs, da_limit = limit_field fs\<rparr> w of
                      (Inl e, w') \<Rightarrow> (Inl e, w') | (Inr ds, w') \<Rightarrow> (Inr (DocumentList ds), w')))
         else if toolName = ''1c.contractors.search''
         then (case sl_parse lib onecContractorsInput args of
                 None \<Rightarrow> (Inl OneCArguments, w)
               | Some fs \<Rightarrow>
                   if \<not> contractorsRefined fs then (Inl OneCArguments, w)
                   else onecResult ContractorList (onecContractorsSearch client names (read_contractors rd)
                          \<lparr>ca_inn = string_field ''inn'' fs, ca_name_query = string_field ''name_query'' fs, ca_limit = limit_field fs\<rparr> w))
         else if toolName = ''1c.reports.balance''
         then (case sl_parse lib onecBalanceInput args of
                 None \<Rightarrow> (Inl OneCArguments, w)
               | Some fs \<Rightarrow> onecResult BalanceLines (onecReportsBalance client names (read_balance rd) (coalesce (string_field ''period'' fs) []) w))
         else (Inl (OneCTool toolName), w))"

fun onecLeafSchema :: "zod \<Rightarrow> jsval" where
  "onecLeafSchema (ZodEnum names) = JObj [(''type'', JStr ''string''), (''enum'', JArr (map JStr names))]"
| "onecLeafSchema (ZodString ok) = JObj [(''type'', JStr ''string'')]"
| "onecLeafSchema (ZodNumber ok) = JObj [(''type'', JStr ''number'')]"
| "onecLeafSchema (ZodOptional z) = onecLeafSchema z"
| "onecLeafSchema (ZodDefault z d) = onecLeafSchema z"

definition onecJsonSchema :: "schema_library \<Rightarrow> zod_shape \<Rightarrow> jsval" where
  "onecJsonSchema lib shape =
     JObj [(''type'', JStr ''object''), (''properties'', JObj (map (\<lambda>(k, z). (k, onecLeafSchema z)) shape)),
           (''required'', JArr (map JStr (requiredKeys lib shape))), (''additionalProperties'', JBool False)]"

definition onecListTools :: "schema_library \<Rightarrow> (string \<times> jsval) list" where
  "onecListTools lib =
     [(''1c.documents.list'', onecJsonSchema lib onecDocumentsInput), (''1c.contractors.search'', onecJsonSchema lib onecContractorsInput),
      (''1c.reports.balance'', onecJsonSchema lib onecBalanceInput)]"

subsection \<open>What the 1C server is asked\<close>

text \<open>How an OData server reads a string literal after its opening quote: two quotes stand for one, a single one ends it.\<close>

fun readLiteral :: "string \<Rightarrow> (string \<times> string) option" where
  "readLiteral [] = None"
| "readLiteral (c # cs) =
     (if c \<noteq> quote then map_option (\<lambda>(s, r). (c # s, r)) (readLiteral cs)
      else (case cs of
              d # ds \<Rightarrow> if d = quote then map_option (\<lambda>(s, r). (quote # s, r)) (readLiteral ds) else Some ([], cs)
            | [] \<Rightarrow> Some ([], [])))"

text \<open>A taxpayer number the schema lets through holds digits only, so the filter need not escape it.\<close>

lemma inn_plain: "inn_ok s \<Longrightarrow> quote \<notin> set s"
proof -
  assume "inn_ok s"
  then have "\<forall>c \<in> set s. is_digit c" by (auto simp: inn_ok_def anchored_digits)
  moreover have "\<not> is_digit quote" by (simp add: is_digit_def quote_def)
  ultimately show ?thesis by blast
qed

lemma literal_back: "r \<noteq> [] \<Longrightarrow> hd r \<noteq> quote \<Longrightarrow> readLiteral (escapeOdataString s @ quote # r) = Some (s, r)"
  by (induction s) (auto simp: escapeOdataString_def neq_Nil_conv)

lemma get_url_query:
  assumes "CHR ''?'' \<notin> set (odataUrl c @ entitySet)" "CHR ''#'' \<notin> set (odataUrl c @ entitySet)"
  shows "searchParams (queryOf (getUrl c entitySet query)) = queryParams query"
proof -
  have sub: "d \<in> set (stripSlash s) \<Longrightarrow> d \<in> set s" for d s by (auto simp: stripSlash_def dest: in_set_butlastD split: if_splits)
  have "queryOf ((stripSlash (odataUrl c) @ ''/'' @ entitySet) @ CHR ''?'' # urlSearchParams (queryParams query)) = urlSearchParams (queryParams query)"
    using assms by (intro queryOf_append urlSearchParams_free) (auto dest: sub)
  then show ?thesis by (simp add: getUrl_def searchParams_back)
qed

text \<open>A name cannot reach out of its place in a query. In the request of a search by name, whatever characters the name holds,
  the server finds the limit and one filter, and in it a literal that reads as exactly the name.\<close>

theorem name_stays_literal:
  assumes "CHR ''?'' \<notin> set (odataUrl (oc_creds client) @ contractors_set names)"
    and "CHR ''#'' \<notin> set (odataUrl (oc_creds client) @ contractors_set names)"
    and "oc_fetch client = (\<lambda>req w. (OdataNone, Some req))"
    and "ca_inn args = None" and "ca_name_query args = Some name" and "name \<noteq> []"
  shows "case snd (onecContractorsSearch client names parse args None) of
      None \<Rightarrow> False
    | Some req \<Rightarrow>
        (let sent = searchParams (queryOf (oq_url req)) in
          map fst sent = [''$format'', ''$top'', ''$filter''] \<and> map_of sent ''$top'' = Some (show_nat (ca_limit args)) \<and>
          (case map_of sent ''$filter'' of
             None \<Rightarrow> False
           | Some f \<Rightarrow> take 13 f = ''substringof('' @ [quote] \<and> readLiteral (drop 13 f) = Some (name, '', Description)'')))"
proof -
  let ?f = "''substringof('' @ [quote] @ escapeOdataString name @ [quote] @ '', Description)''"
  have query: "contractorsQuery names args = [(''$top'', show_nat (ca_limit args)), (''$filter'', ?f)]"
    using assms(4-6) by (simp add: contractorsQuery_def contractorFilters_def)
  have params: "queryParams (contractorsQuery names args) = [(''$format'', ''json''), (''$top'', show_nat (ca_limit args)), (''$filter'', ?f)]"
    unfolding query by (simp add: queryParams_def)
  define req where "req = \<lparr>oq_method = ''GET'', oq_url = getUrl (oc_creds client) (contractors_set names) (contractorsQuery names args),
      oq_headers = odataHeaders (oc_creds client), oq_body = None\<rparr>"
  have run: "snd (onecContractorsSearch client names parse args None) = Some req"
    using assms(3) by (simp add: onecContractorsSearch_def odataGet_def fetchJson_def req_def)
  have sent: "searchParams (queryOf (oq_url req)) = [(''$format'', ''json''), (''$top'', show_nat (ca_limit args)), (''$filter'', ?f)]"
    using get_url_query [OF assms(1, 2)] params by (simp add: req_def)
  have "readLiteral (escapeOdataString name @ quote # '', Description)'') = Some (name, '', Description)'')"
    by (rule literal_back) (simp_all add: quote_def)
  then show ?thesis unfolding run option.case Let_def sent by simp
qed

theorem name_stays_literal_witness:
  "let client = \<lparr>oc_creds = \<lparr>odataUrl = ''https://1c.acme.ru/odata/'', onec_user = ''u'', onec_password = ''p''\<rparr>,
                 oc_fetch = (\<lambda>req w. (OdataNone, Some req))\<rparr>;
       names = \<lparr>entity_by_type = (\<lambda>_. ''Document''), contractors_set = ''Catalog'', balance_set = ''Register'', inn_field = ''INN''\<rparr>;
       args = \<lparr>ca_inn = None, ca_name_query = Some [quote], ca_limit = 10\<rparr>
   in case snd (onecContractorsSearch client names (\<lambda>_. None) args None) of
        None \<Rightarrow> False | Some req \<Rightarrow> map fst (searchParams (queryOf (oq_url req))) = [''$format'', ''$top'', ''$filter'']"
  using name_stays_literal [of "\<lparr>oc_creds = \<lparr>odataUrl = ''https://1c.acme.ru/odata/'', onec_user = ''u'', onec_password = ''p''\<rparr>,
                 oc_fetch = (\<lambda>req w. (OdataNone, Some req))\<rparr>"
      "\<lparr>entity_by_type = (\<lambda>_. ''Document''), contractors_set = ''Catalog'', balance_set = ''Register'', inn_field = ''INN''\<rparr>"
      "\<lparr>ca_inn = None, ca_name_query = Some [quote], ca_limit = 10\<rparr>" "[quote]" "\<lambda>_. None"]
  by (simp add: Let_def split: option.splits)

end
