(* ===== verification/PlaceholderRender.thy ===== *)
theory PlaceholderRender
  imports JsPrelude
begin

text \<open>
  Showing an answer in the chat page: \<^verbatim>\<open>packages/web-ui/src/chat/PlaceholderRender.tsx\<close>, which cuts a text at the
  placeholders the anonymizer may have left in it and marks the invented ones.
\<close>

definition placeholder_categories :: "string list" where
  "placeholder_categories =
     [''NAME'', ''EMAIL'', ''PHONE'', ''PASSPORT'', ''INN'', ''SNILS'', ''CARD'', ''OGRN'', ''OGRNIP'', ''BANK_ACCOUNT'', ''ADDRESS'',
      ''ORG'', ''IP'', ''DOB'', ''URL'']"

text \<open>The length of a match of \<^verbatim>\<open>PLACEHOLDER_RE\<close> at the front of a text, for one alternative and for the first that matches.\<close>

definition matchCategory :: "string \<Rightarrow> string \<Rightarrow> nat option" where
  "matchCategory s cat =
     (let start = ''<'' @ cat @ ''_''
      in if prefix start s
         then (let ds = takeWhile is_digit (drop (length start) s)
               in if ds \<noteq> [] \<and> starts_with ''>'' (drop (length start + length ds) s) then Some (Suc (length start + length ds)) else None)
         else None)"

fun firstMatch :: "string \<Rightarrow> string list \<Rightarrow> nat option" where
  "firstMatch s [] = None"
| "firstMatch s (cat # cats) = (case matchCategory s cat of Some n \<Rightarrow> Some n | None \<Rightarrow> firstMatch s cats)"

definition PLACEHOLDER_RE :: "string \<Rightarrow> nat option" where
  "PLACEHOLDER_RE s = firstMatch s placeholder_categories"

datatype part = TextPart string | PlaceholderPart string bool

fun part_value :: "part \<Rightarrow> string" where
  "part_value (TextPart v) = v"
| "part_value (PlaceholderPart v isHallu) = v"

definition textPart :: "string \<Rightarrow> part list" where
  "textPart v = (if v = [] then [] else [TextPart v])"

lemma matchCategory_pos: "matchCategory s cat = Some n \<Longrightarrow> 0 < n \<and> n \<le> length s"
proof -
  assume m: "matchCategory s cat = Some n"
  let ?start = "''<'' @ cat @ ''_''"
  let ?ds = "takeWhile is_digit (drop (length ?start) s)"
  have n: "n = Suc (length ?start + length ?ds)" and e: "starts_with ''>'' (drop (length ?start + length ?ds) s)"
    using m by (auto simp: matchCategory_def Let_def split: if_splits)
  from e have "drop (length ?start + length ?ds) s \<noteq> []" by (auto simp: starts_with_def)
  then have "length ?start + length ?ds < length s" by simp
  then show ?thesis using n by simp
qed

lemma first_match: "firstMatch s cats = Some n \<Longrightarrow> \<exists>cat \<in> set cats. matchCategory s cat = Some n"
  by (induction cats) (auto split: option.splits)

lemma placeholder_pos: "PLACEHOLDER_RE s = Some n \<Longrightarrow> 0 < n \<and> n \<le> length s"
  unfolding PLACEHOLDER_RE_def using first_match matchCategory_pos by blast

text \<open>The loop over the matches; \<open>seen\<close> is the text since the last one.\<close>

function tokenizeFrom :: "string set \<Rightarrow> string \<Rightarrow> string \<Rightarrow> part list" where
  "tokenizeFrom hallu seen [] = textPart seen"
| "tokenizeFrom hallu seen (c # cs) =
     (case PLACEHOLDER_RE (c # cs) of
        Some n \<Rightarrow> textPart seen @ PlaceholderPart (take n (c # cs)) (take n (c # cs) \<in> hallu) # tokenizeFrom hallu [] (drop n (c # cs))
      | None \<Rightarrow> tokenizeFrom hallu (seen @ [c]) cs)"
  by pat_completeness auto
termination by (relation "measure (\<lambda>(hallu, seen, s). length s)") (auto dest: placeholder_pos)

definition tokenize :: "string \<Rightarrow> string set \<Rightarrow> part list" where
  "tokenize answer hallu = tokenizeFrom hallu [] answer"

subsection \<open>Nothing is lost and nothing is hidden\<close>

lemma match_shape:
  "matchCategory s cat = Some n \<longleftrightarrow>
   (\<exists>ds q. s = (''<'' @ cat @ ''_'') @ ds @ ''>'' @ q \<and> ds \<noteq> [] \<and> (\<forall>c \<in> set ds. is_digit c) \<and> n = length cat + length ds + 3)"
  (is "_ \<longleftrightarrow> ?shape")
proof
  let ?start = "''<'' @ cat @ ''_''"
  assume m: "matchCategory s cat = Some n"
  then obtain r where s: "s = ?start @ r" by (auto simp: matchCategory_def Let_def prefix_def split: if_splits)
  define ds where "ds = takeWhile is_digit r"
  have "ds \<noteq> [] \<and> n = Suc (length ?start + length ds) \<and> starts_with ''>'' (drop (length ds) r)"
    using m unfolding s by (auto simp: matchCategory_def ds_def Let_def split: if_splits)
  moreover then obtain q where "drop (length ds) r = CHR ''>'' # q" by (auto simp: starts_with_def prefix_def)
  then have "r = ds @ ''>'' @ q" unfolding ds_def by (metis append_Cons append_Nil dropWhile_eq_drop takeWhile_dropWhile_id)
  moreover have "\<forall>c \<in> set ds. is_digit c" by (auto simp: ds_def dest: set_takeWhileD)
  ultimately show ?shape using s by auto
next
  assume ?shape
  then obtain ds q where s: "s = (''<'' @ cat @ ''_'') @ ds @ ''>'' @ q" and ds: "ds \<noteq> []" "\<forall>c \<in> set ds. is_digit c"
    and n: "n = length cat + length ds + 3" by blast
  have "takeWhile is_digit (ds @ CHR ''>'' # q) = ds" using ds(2) by (simp add: takeWhile_append2 is_digit_def)
  then show "matchCategory s cat = Some n" using ds n unfolding s by (simp add: matchCategory_def starts_with_def)
qed

lemma match_extends: "matchCategory s cat = Some n \<Longrightarrow> matchCategory (s @ t) cat = Some n"
proof -
  assume "matchCategory s cat = Some n"
  then obtain ds q where "s @ t = (''<'' @ cat @ ''_'') @ ds @ ''>'' @ q @ t" "ds \<noteq> []" "\<forall>c \<in> set ds. is_digit c"
    "n = length cat + length ds + 3" unfolding match_shape by auto
  then show ?thesis unfolding match_shape by blast
qed

lemma match_cut: "matchCategory s cat = Some n \<Longrightarrow> matchCategory (take n s) cat = Some n"
proof -
  assume "matchCategory s cat = Some n"
  then obtain ds q where s: "s = (''<'' @ cat @ ''_'') @ ds @ ''>'' @ q" and ds: "ds \<noteq> []" "\<forall>c \<in> set ds. is_digit c"
    and n: "n = length cat + length ds + 3" unfolding match_shape by blast
  define front where "front = (''<'' @ cat @ ''_'') @ ds @ ''>'' @ []"
  have "s = front @ q" "length front = n" using s n by (simp_all add: front_def)
  then have "take n s = front" by simp
  then have "take n s = (''<'' @ cat @ ''_'') @ ds @ ''>'' @ []" by (simp only: front_def)
  then show ?thesis using ds n unfolding match_shape by blast
qed

lemma first_match_none: "firstMatch s cats = None \<longleftrightarrow> (\<forall>cat \<in> set cats. matchCategory s cat = None)"
  by (induction cats) (auto split: option.split)

lemma first_match_cut: "firstMatch s cats = Some n \<Longrightarrow> firstMatch (take n s) cats = Some n"
proof (induction cats)
  case (Cons cat cats)
  show ?case
  proof (cases "matchCategory s cat")
    case None
    then have "matchCategory (take n s) cat = None"
      using match_extends [of "take n s" cat _ "drop n s"] by (cases "matchCategory (take n s) cat") auto
    then show ?thesis using Cons None by simp
  next
    case (Some m)
    then show ?thesis using Cons.prems match_cut by simp
  qed
qed simp

lemma placeholder_cut: "PLACEHOLDER_RE s = Some n \<Longrightarrow> PLACEHOLDER_RE (take n s) = Some (length (take n s))"
  using first_match_cut placeholder_pos by (fastforce simp: PLACEHOLDER_RE_def)

lemma placeholder_none_front: "PLACEHOLDER_RE (s @ t) = None \<Longrightarrow> PLACEHOLDER_RE s = None"
  unfolding PLACEHOLDER_RE_def first_match_none using match_extends by (metis not_None_eq)

text \<open>A text without a placeholder at any place, and what a part must be.\<close>

definition plain_text :: "string \<Rightarrow> bool" where
  "plain_text v = list_all (\<lambda>i. PLACEHOLDER_RE (drop i v) = None) [0..<length v]"

fun part_ok :: "string set \<Rightarrow> part \<Rightarrow> bool" where
  "part_ok hallu (TextPart v) = (v \<noteq> [] \<and> plain_text v)"
| "part_ok hallu (PlaceholderPart v isHallu) = (PLACEHOLDER_RE v = Some (length v) \<and> isHallu = (v \<in> hallu))"

text \<open>The text since the last match holds no match, even when it is continued.\<close>

definition scanned :: "string \<Rightarrow> string \<Rightarrow> bool" where
  "scanned seen s = (\<forall>i < length seen. PLACEHOLDER_RE (drop i seen @ s) = None)"

lemma scanned_plain: "scanned seen s \<Longrightarrow> list_all (part_ok hallu) (textPart seen)"
  using placeholder_none_front by (auto simp: scanned_def textPart_def plain_text_def list_all_iff)

lemma tokenize_from:
  "scanned seen s \<Longrightarrow> concat (map part_value (tokenizeFrom hallu seen s)) = seen @ s \<and> list_all (part_ok hallu) (tokenizeFrom hallu seen s)"
proof (induction hallu seen s rule: tokenizeFrom.induct)
  case (1 hallu seen)
  then show ?case using scanned_plain by (auto simp: textPart_def)
next
  case (2 hallu seen c cs)
  show ?case
  proof (cases "PLACEHOLDER_RE (c # cs)")
    case None
    have "scanned (seen @ [c]) cs" using 2(3) None by (auto simp: scanned_def less_Suc_eq)
    then show ?thesis using 2(1) [OF None] None by simp
  next
    case (Some n)
    have "scanned [] (drop n (c # cs))" by (simp add: scanned_def)
    then have "concat (map part_value (tokenizeFrom hallu [] (drop n (c # cs)))) = drop n (c # cs) \<and>
        list_all (part_ok hallu) (tokenizeFrom hallu [] (drop n (c # cs)))"
      using 2(2) [OF Some] by simp
    moreover have "concat (map part_value (textPart seen)) = seen" by (simp add: textPart_def)
    moreover have "take n (c # cs) @ drop n (c # cs) = c # cs" by (rule append_take_drop_id)
    ultimately show ?thesis using Some scanned_plain [OF 2(3)] placeholder_cut [OF Some] by (simp del: append_take_drop_id)
  qed
qed

text \<open>The page shows the whole answer and misses no placeholder: the parts put together are the text, no plain part holds a
  placeholder at any place, and a placeholder is marked as invented exactly when the answer names it as such.\<close>

theorem answer_shown_whole:
  "let parts = tokenize answer hallu in concat (map part_value parts) = answer \<and> list_all (part_ok hallu) parts"
  using tokenize_from [of "[]" answer hallu] by (simp add: tokenize_def scanned_def)

end
