(* ===== verification/WebChat.thy ===== *)
theory WebChat
  imports JsPrelude
begin

text \<open>
  The chat page: \<^verbatim>\<open>packages/web-ui/src/chat/ChatLayout.tsx\<close> over \<^verbatim>\<open>chat/ws-client.ts\<close> and \<^verbatim>\<open>api/chat.ts\<close>. The page is a state machine:
  what the user does, what the socket delivers and how the fallback request ends are events, and the frames and requests
  the page sends are logged in its outbox. A handler runs with the state of the render it was made in, so a flight keeps
  the conversations its \<^verbatim>\<open>send\<close> saw. Rendering, translated texts and the two id generators are outside; ids come with the events.
\<close>

datatype chat_role = UserRole | AssistantRole

record chat_message =
  cm_request :: string
  cm_role :: chat_role
  cm_text :: string
  cm_hallucinated :: "string list option"
  cm_streaming :: bool
  cm_error :: bool
  cm_latency :: "nat option"
  cm_model :: "string option"

type_synonym conversations = "string \<Rightarrow> chat_message list option"

datatype flight_phase = Connecting | OverWs | Stranded | OverRest

record flight =
  fl_session :: string
  fl_request :: string
  fl_text :: string
  fl_model :: string
  fl_seen :: conversations
  fl_phase :: flight_phase

datatype outgoing =
    UserFrame string string string string
  | RestPost string string string "(chat_role \<times> string) list"

record chat_state =
  chat_sessions :: "string list"
  activeId :: "string option"
  conversation :: conversations
  model :: string
  busy :: bool
  banner :: "string option"
  inflight :: "flight option"
  outbox :: "outgoing list"

definition DEFAULT_MODEL_ID :: string where
  "DEFAULT_MODEL_ID = ''claude-sonnet-4.6''"

definition initialChat :: chat_state where
  "initialChat = \<lparr>chat_sessions = [], activeId = None, conversation = (\<lambda>_. None), model = DEFAULT_MODEL_ID, busy = False, banner = None,
     inflight = None, outbox = []\<rparr>"

text \<open>The history as the fallback request carries it.\<close>

definition messagesToApiPayload :: "chat_message list \<Rightarrow> (chat_role \<times> string) list" where
  "messagesToApiPayload ms =
     map (\<lambda>m. (cm_role m, cm_text m)) (filter (\<lambda>m. \<not> cm_error m \<and> (cm_role m = UserRole \<or> cm_role m = AssistantRole \<and> cm_text m \<noteq> [])) ms)"

definition newSession :: "string \<Rightarrow> chat_state \<Rightarrow> chat_state" where
  "newSession sid st = st\<lparr>chat_sessions := sid # chat_sessions st, activeId := Some sid, conversation := (conversation st)(sid \<mapsto> [])\<rparr>"

text \<open>A functional update of the messages of one answer.\<close>

definition updateAnswer :: "string \<Rightarrow> string \<Rightarrow> (chat_message \<Rightarrow> chat_message) \<Rightarrow> conversations \<Rightarrow> conversations" where
  "updateAnswer sid reqId f m =
     m(sid \<mapsto> map (\<lambda>msg. if cm_request msg = reqId \<and> cm_role msg = AssistantRole then f msg else msg) (coalesce (m sid) []))"

definition userMessage :: "string \<Rightarrow> string \<Rightarrow> chat_message" where
  "userMessage reqId t = \<lparr>cm_request = reqId, cm_role = UserRole, cm_text = t, cm_hallucinated = None, cm_streaming = False, cm_error = False,
     cm_latency = None, cm_model = None\<rparr>"

definition pendingAnswer :: "string \<Rightarrow> string \<Rightarrow> chat_message" where
  "pendingAnswer reqId mdl = \<lparr>cm_request = reqId, cm_role = AssistantRole, cm_text = [], cm_hallucinated = None, cm_streaming = True,
     cm_error = False, cm_latency = None, cm_model = Some mdl\<rparr>"

text \<open>\<^verbatim>\<open>send\<close>; the input is disabled while the page is busy. \<open>seen\<close> are the messages of the render the handler belongs to.\<close>

definition sendText :: "string \<Rightarrow> string \<Rightarrow> string \<Rightarrow> chat_state \<Rightarrow> chat_state" where
  "sendText t freshSession reqId st =
     (if busy st then st
      else (let seen = conversation st;
                st1 = (if activeId st = None then newSession freshSession st else st);
                sid = coalesce (activeId st) freshSession
            in st1\<lparr>conversation := (conversation st1)(sid \<mapsto>
                     coalesce (conversation st1 sid) [] @ [userMessage reqId t, pendingAnswer reqId (model st)]),
                   busy := True, banner := None,
                   inflight := Some \<lparr>fl_session = sid, fl_request = reqId, fl_text = t, fl_model = model st, fl_seen = seen, fl_phase = Connecting\<rparr>\<rparr>))"

text \<open>The socket opens and the frame is sent.\<close>

definition wsOpened :: "chat_state \<Rightarrow> chat_state" where
  "wsOpened st =
     (case inflight st of
        Some f \<Rightarrow>
          if fl_phase f = Connecting
          then st\<lparr>inflight := Some (f\<lparr>fl_phase := OverWs\<rparr>), outbox := outbox st @ [UserFrame (fl_session f) (fl_request f) (fl_text f) (fl_model f)]\<rparr>
          else st
      | None \<Rightarrow> st)"

text \<open>\<^verbatim>\<open>onDelta\<close> and \<^verbatim>\<open>onDone\<close>.\<close>

definition onDelta :: "string \<Rightarrow> chat_state \<Rightarrow> chat_state" where
  "onDelta t st =
     (case inflight st of
        Some f \<Rightarrow>
          if fl_phase f = OverWs
          then st\<lparr>conversation := updateAnswer (fl_session f) (fl_request f) (\<lambda>m. m\<lparr>cm_text := cm_text m @ t\<rparr>) (conversation st)\<rparr>
          else st
      | None \<Rightarrow> st)"

definition onDone :: "string list option \<Rightarrow> nat \<Rightarrow> chat_state \<Rightarrow> chat_state" where
  "onDone hallucinated elapsed st =
     (case inflight st of
        Some f \<Rightarrow>
          if fl_phase f = OverWs
          then st\<lparr>conversation := updateAnswer (fl_session f) (fl_request f)
                    (\<lambda>m. m\<lparr>cm_streaming := False, cm_hallucinated := hallucinated, cm_latency := Some elapsed, cm_model := Some (fl_model f)\<rparr>)
                    (conversation st),
                  inflight := None, busy := False\<rparr>
          else st
      | None \<Rightarrow> st)"

text \<open>\<^verbatim>\<open>sendViaRest\<close>, after the socket failed: the history is that of the handler's own render.\<close>

definition sendViaRest :: "flight \<Rightarrow> chat_state \<Rightarrow> chat_state" where
  "sendViaRest f st =
     (let history = filter (\<lambda>m. \<not> (cm_request m = fl_request f \<and> cm_role m = AssistantRole)) (coalesce (fl_seen f (fl_session f)) [])
      in st\<lparr>inflight := Some (f\<lparr>fl_phase := OverRest\<rparr>),
            outbox := outbox st @ [RestPost (fl_session f) (fl_request f) (fl_model f) (messagesToApiPayload history)]\<rparr>)"

text \<open>The connection cannot be opened; an error frame or a malformed one comes in.\<close>

definition wsOpenFailed :: "chat_state \<Rightarrow> chat_state" where
  "wsOpenFailed st = (case inflight st of Some f \<Rightarrow> if fl_phase f = Connecting then sendViaRest f st else st | None \<Rightarrow> st)"

definition wsFailed :: "chat_state \<Rightarrow> chat_state" where
  "wsFailed st = (case inflight st of Some f \<Rightarrow> if fl_phase f = OverWs then sendViaRest f st else st | None \<Rightarrow> st)"

text \<open>The open socket closes: the client forgets it, and no frame comes any more.\<close>

definition wsClosed :: "chat_state \<Rightarrow> chat_state" where
  "wsClosed st =
     (case inflight st of Some f \<Rightarrow> if fl_phase f = OverWs then st\<lparr>inflight := Some (f\<lparr>fl_phase := Stranded\<rparr>)\<rparr> else st | None \<Rightarrow> st)"

definition restAnswered :: "string \<Rightarrow> string list option \<Rightarrow> nat \<Rightarrow> string option \<Rightarrow> chat_state \<Rightarrow> chat_state" where
  "restAnswered content hallucinated latency mdl st =
     (case inflight st of
        Some f \<Rightarrow>
          if fl_phase f = OverRest
          then st\<lparr>conversation := updateAnswer (fl_session f) (fl_request f)
                    (\<lambda>m. m\<lparr>cm_text := content, cm_streaming := False, cm_hallucinated := hallucinated, cm_latency := Some latency,
                           cm_model := Some (coalesce mdl (fl_model f))\<rparr>)
                    (conversation st),
                  inflight := None, busy := False\<rparr>
          else st
      | None \<Rightarrow> st)"

definition restFailed :: "string \<Rightarrow> string \<Rightarrow> chat_state \<Rightarrow> chat_state" where
  "restFailed msg generic st =
     (case inflight st of
        Some f \<Rightarrow>
          if fl_phase f = OverRest
          then st\<lparr>banner := Some msg,
                  conversation := updateAnswer (fl_session f) (fl_request f)
                    (\<lambda>m. m\<lparr>cm_streaming := False, cm_error := True, cm_text := generic\<rparr>) (conversation st),
                  inflight := None, busy := False\<rparr>
          else st
      | None \<Rightarrow> st)"

definition pickModel :: "string \<Rightarrow> chat_state \<Rightarrow> chat_state" where
  "pickModel m st = (if busy st then st else st\<lparr>model := m\<rparr>)"

definition selectSession :: "string \<Rightarrow> chat_state \<Rightarrow> chat_state" where
  "selectSession sid st = st\<lparr>activeId := Some sid\<rparr>"

definition visibleMessages :: "chat_state \<Rightarrow> chat_message list" where
  "visibleMessages st = (case activeId st of None \<Rightarrow> [] | Some sid \<Rightarrow> coalesce (conversation st sid) [])"

datatype chat_event =
    NewSession string
  | SelectSession string
  | PickModel string
  | SendText string string string
  | WsOpened
  | WsDelta string
  | WsDone "string list option" nat
  | WsFailed
  | WsOpenFailed
  | WsClosed
  | RestAnswered string "string list option" nat "string option"
  | RestFailed string string

fun chat_step :: "chat_event \<Rightarrow> chat_state \<Rightarrow> chat_state" where
  "chat_step (NewSession sid) st = newSession sid st"
| "chat_step (SelectSession sid) st = selectSession sid st"
| "chat_step (PickModel m) st = pickModel m st"
| "chat_step (SendText t sid reqId) st = sendText t sid reqId st"
| "chat_step WsOpened st = wsOpened st"
| "chat_step (WsDelta t) st = onDelta t st"
| "chat_step (WsDone h ms) st = onDone h ms st"
| "chat_step WsFailed st = wsFailed st"
| "chat_step WsOpenFailed st = wsOpenFailed st"
| "chat_step WsClosed st = wsClosed st"
| "chat_step (RestAnswered c h ms m) st = restAnswered c h ms m st"
| "chat_step (RestFailed msg generic) st = restFailed msg generic st"

subsection \<open>No answer keeps spinning\<close>

text \<open>A streaming message belongs to the flight, and the page is busy exactly while there is one.\<close>

definition spins_for :: "chat_state \<Rightarrow> string \<Rightarrow> chat_message \<Rightarrow> bool" where
  "spins_for st sid m =
     (case inflight st of None \<Rightarrow> False | Some f \<Rightarrow> fl_session f = sid \<and> fl_request f = cm_request m \<and> cm_role m = AssistantRole)"

definition chat_inv :: "chat_state \<Rightarrow> bool" where
  "chat_inv st \<longleftrightarrow> busy st = (inflight st \<noteq> None) \<and>
     (\<forall>sid ms m. conversation st sid = Some ms \<longrightarrow> m \<in> set ms \<longrightarrow> cm_streaming m \<longrightarrow> spins_for st sid m)"

lemma chat_invI:
  assumes "busy st = (inflight st \<noteq> None)"
    and "\<And>sid ms m. conversation st sid = Some ms \<Longrightarrow> m \<in> set ms \<Longrightarrow> cm_streaming m \<Longrightarrow> spins_for st sid m"
  shows "chat_inv st"
  using assms by (auto simp: chat_inv_def)

lemma answer_settled:
  assumes inv: "chat_inv st" and f: "inflight st = Some f" and off: "\<And>m. \<not> cm_streaming (g m)"
  shows "conversation st' = updateAnswer (fl_session f) (fl_request f) g (conversation st) \<Longrightarrow> inflight st' = None \<Longrightarrow> busy st' = False \<Longrightarrow> chat_inv st'"
proof (rule chat_invI, goal_cases)
  case (2 sid ms m)
  have "\<not> cm_streaming m"
  proof (cases "sid = fl_session f")
    case True
    then obtain m0 where m0: "m0 \<in> set (coalesce (conversation st sid) [])"
      and m: "m = (if cm_request m0 = fl_request f \<and> cm_role m0 = AssistantRole then g m0 else m0)"
      using 2 by (auto simp: updateAnswer_def)
    then obtain ms0 where "conversation st sid = Some ms0" "m0 \<in> set ms0" by (cases "conversation st sid") auto
    then have "cm_streaming m0 \<Longrightarrow> cm_request m0 = fl_request f \<and> cm_role m0 = AssistantRole"
      using inv f unfolding chat_inv_def spins_for_def by fastforce
    then show ?thesis using m off by auto
  next
    case False
    then have "conversation st sid = Some ms" using 2 by (simp add: updateAnswer_def)
    then show ?thesis using inv f False 2(5) unfolding chat_inv_def spins_for_def by fastforce
  qed
  then show ?case using 2 by simp
qed simp

lemma same_messages:
  "chat_inv st \<Longrightarrow> conversation st' = conversation st \<Longrightarrow> busy st' = busy st \<Longrightarrow>
   map_option (\<lambda>f. (fl_session f, fl_request f)) (inflight st') = map_option (\<lambda>f. (fl_session f, fl_request f)) (inflight st) \<Longrightarrow> chat_inv st'"
  by (cases "inflight st"; cases "inflight st'") (fastforce simp: chat_inv_def spins_for_def)+

lemma no_spin: "chat_inv st \<Longrightarrow> inflight st = None \<Longrightarrow> conversation st sid = Some ms \<Longrightarrow> m \<in> set ms \<Longrightarrow> \<not> cm_streaming m"
  by (fastforce simp: chat_inv_def spins_for_def)

lemma new_session_inv: "chat_inv st \<Longrightarrow> chat_inv (newSession sid st)"
  by (auto simp: chat_inv_def newSession_def spins_for_def split: if_splits)

lemma send_inv:
  assumes "chat_inv st"
  shows "chat_inv (sendText t sid reqId st)"
proof (cases "busy st")
  case False
  then have idle: "inflight st = None" using assms by (auto simp: chat_inv_def)
  let ?st1 = "if activeId st = None then newSession sid st else st"
  have quiet: "\<not> cm_streaming m" if "m \<in> set (coalesce (conversation ?st1 s) [])" for m s
    using that no_spin [OF assms idle] by (cases "conversation ?st1 s") (auto simp: newSession_def split: if_splits)
  show ?thesis
  proof (rule chat_invI, goal_cases)
    case 1
    then show ?case using False by (simp add: sendText_def Let_def)
  next
    case (2 s ms m)
    let ?target = "coalesce (activeId st) sid"
    show ?case
    proof (cases "s = ?target")
      case True
      then have "ms = coalesce (conversation ?st1 s) [] @ [userMessage reqId t, pendingAnswer reqId (model st)]"
        using 2(1) False by (simp add: sendText_def Let_def)
      then show ?thesis using 2(2, 3) quiet [of m s] True False
        by (auto simp: spins_for_def sendText_def Let_def userMessage_def pendingAnswer_def)
    next
      case False
      then have "conversation ?st1 s = Some ms" using 2(1) \<open>\<not> busy st\<close> by (simp add: sendText_def Let_def)
      then show ?thesis using quiet [of m s] 2(2, 3) by simp
    qed
  qed
qed (simp add: sendText_def assms)

lemma delta_inv:
  assumes "chat_inv st"
  shows "chat_inv (onDelta t st)"
proof (cases "inflight st")
  case (Some f)
  show ?thesis
  proof (rule chat_invI, goal_cases)
    case 1
    then show ?case using assms Some by (simp add: onDelta_def chat_inv_def)
  next
    case (2 sid ms m)
    have same: "spins_for (onDelta t st) sid m = spins_for st sid m" using Some by (simp add: onDelta_def spins_for_def)
    obtain ms0 m0 where "conversation st sid = Some ms0" "m0 \<in> set ms0" "cm_streaming m0" "cm_request m = cm_request m0" "cm_role m = cm_role m0"
      using 2 Some by (cases "conversation st sid")
        (auto simp: onDelta_def updateAnswer_def split: if_splits)
    then have "spins_for st sid m0" using assms unfolding chat_inv_def by blast
    then show ?case using \<open>cm_request m = cm_request m0\<close> \<open>cm_role m = cm_role m0\<close> unfolding same by (simp add: spins_for_def Some)
  qed
qed (simp add: onDelta_def assms)

lemma settled_inv:
  assumes "chat_inv st"
  shows "chat_inv (onDone h ms st)" "chat_inv (restAnswered c h ms mdl st)" "chat_inv (restFailed msg generic st)"
proof -
  have "chat_inv (onDone h ms st) \<and> chat_inv (restAnswered c h ms mdl st) \<and> chat_inv (restFailed msg generic st)"
  proof (cases "inflight st")
    case (Some f)
    have "chat_inv (onDone h ms st)"
    proof (cases "fl_phase f = OverWs")
      case True
      show ?thesis by (rule answer_settled [OF assms Some, rotated], simp add: onDone_def Some True) (simp_all add: onDone_def Some True)
    qed (simp add: onDone_def Some assms)
    moreover have "chat_inv (restAnswered c h ms mdl st)"
    proof (cases "fl_phase f = OverRest")
      case True
      show ?thesis by (rule answer_settled [OF assms Some, rotated], simp add: restAnswered_def Some True) (simp_all add: restAnswered_def Some True)
    qed (simp add: restAnswered_def Some assms)
    moreover have "chat_inv (restFailed msg generic st)"
    proof (cases "fl_phase f = OverRest")
      case True
      show ?thesis by (rule answer_settled [OF assms Some, rotated], simp add: restFailed_def Some True) (simp_all add: restFailed_def Some True)
    qed (simp add: restFailed_def Some assms)
    ultimately show ?thesis by blast
  qed (simp add: onDone_def restAnswered_def restFailed_def assms)
  then show "chat_inv (onDone h ms st)" "chat_inv (restAnswered c h ms mdl st)" "chat_inv (restFailed msg generic st)" by blast+
qed

lemma phase_inv:
  assumes "chat_inv st"
  shows "chat_inv (selectSession sid st)" "chat_inv (pickModel m st)" "chat_inv (wsOpened st)" "chat_inv (wsFailed st)"
    "chat_inv (wsOpenFailed st)" "chat_inv (wsClosed st)"
  by (rule same_messages [OF assms];
      simp add: selectSession_def pickModel_def wsOpened_def wsFailed_def wsOpenFailed_def wsClosed_def sendViaRest_def Let_def split: option.split)+

lemma chat_step_inv: "chat_inv st \<Longrightarrow> chat_inv (chat_step e st)"
  by (cases e) (simp_all add: new_session_inv send_inv delta_inv settled_inv phase_inv)

interpretation chat: guarded_system initialChat chat_step chat_inv
  by unfold_locales (simp add: chat_inv_def initialChat_def, rule chat_step_inv)

text \<open>The page never shows an answer as pending that nothing will finish while the input is free: after any events, either a
  flight is under way and the page is busy, or no message of any conversation is streaming.\<close>

theorem idle_chat_settled:
  "let st = fold chat_step es initialChat
   in busy st = (inflight st \<noteq> None) \<and>
      (busy st \<or> (\<forall>sid. list_all (\<lambda>m. \<not> cm_streaming m) (coalesce (conversation st sid) [])))"
proof -
  define st where "st = fold chat_step es initialChat"
  have inv: "chat_inv st" unfolding st_def by (rule chat.inv_reach)
  then have "busy st = (inflight st \<noteq> None)" by (simp add: chat_inv_def)
  moreover have "list_all (\<lambda>m. \<not> cm_streaming m) (coalesce (conversation st sid) [])" if "\<not> busy st" for sid
    using no_spin [OF inv] that calculation by (cases "conversation st sid") (auto simp: list_all_iff)
  ultimately show ?thesis unfolding Let_def st_def [symmetric] by blast
qed

subsection \<open>What a flight does\<close>

lemma update_fresh:
  assumes "m s = Some (old @ [u, a])" "list_all (\<lambda>x. cm_request x \<noteq> r) old" "cm_role u = UserRole" "cm_request a = r" "cm_role a = AssistantRole"
  shows "updateAnswer s r g m = m(s \<mapsto> old @ [u, g a])"
proof -
  have "map (\<lambda>x. if cm_request x = r \<and> cm_role x = AssistantRole then g x else x) old = old"
    using assms(2) by (intro map_idI) (auto simp: list_all_iff)
  then show ?thesis using assms(1, 3-5) by (simp add: updateAnswer_def)
qed

text \<open>A flight over the open socket, with the answer as received so far.\<close>

definition receiving :: "chat_state \<Rightarrow> flight \<Rightarrow> chat_message list \<Rightarrow> string \<Rightarrow> chat_state \<Rightarrow> bool" where
  "receiving st0 f old got st \<longleftrightarrow>
     inflight st = Some f \<and> fl_phase f = OverWs \<and> busy st \<and>
     conversation st = (conversation st0)(fl_session f \<mapsto> old @ [userMessage (fl_request f) (fl_text f),
       (pendingAnswer (fl_request f) (fl_model f))\<lparr>cm_text := got\<rparr>]) \<and>
     list_all (\<lambda>x. cm_request x \<noteq> fl_request f) old"

lemma answer_updated:
  assumes "receiving st0 f old got st"
  shows "updateAnswer (fl_session f) (fl_request f) g (conversation st) =
    (conversation st0)(fl_session f \<mapsto> old @ [userMessage (fl_request f) (fl_text f),
       g ((pendingAnswer (fl_request f) (fl_model f))\<lparr>cm_text := got\<rparr>)])"
  using assms unfolding receiving_def
  by (subst update_fresh [where old = old and u = "userMessage (fl_request f) (fl_text f)"
        and a = "(pendingAnswer (fl_request f) (fl_model f))\<lparr>cm_text := got\<rparr>"])
     (simp_all add: userMessage_def pendingAnswer_def)

lemma receiving_delta: "receiving st0 f old got st \<Longrightarrow> receiving st0 f old (got @ t) (onDelta t st) \<and> outbox (onDelta t st) = outbox st"
  using answer_updated [of st0 f old got st]
  by (simp add: receiving_def onDelta_def)

lemma receiving_deltas:
  "receiving st0 f old got st \<Longrightarrow>
   receiving st0 f old (got @ concat ds) (fold chat_step (map WsDelta ds) st) \<and> outbox (fold chat_step (map WsDelta ds) st) = outbox st"
proof (induction ds arbitrary: got st)
  case (Cons t ds)
  then show ?case using receiving_delta [OF Cons.prems, of t] Cons.IH [of "got @ t" "onDelta t st"] by simp
qed simp

lemma send_receives:
  fixes fresh :: string and st :: chat_state
  assumes "\<not> busy st" "list_all (\<lambda>m. cm_request m \<noteq> reqId) (visibleMessages st)"
  defines "s \<equiv> coalesce (activeId st) fresh"
  shows "\<exists>f. fl_session f = s \<and> fl_request f = reqId \<and> fl_text f = t \<and> fl_model f = model st \<and>
    receiving st f (visibleMessages st) [] (wsOpened (sendText t fresh reqId st)) \<and>
    outbox (wsOpened (sendText t fresh reqId st)) = outbox st @ [UserFrame s reqId t (model st)]"
  using assms
  by (cases "activeId st")
    (auto simp: sendText_def wsOpened_def receiving_def visibleMessages_def newSession_def pendingAnswer_def s_def Let_def)

text \<open>A question over the socket ends with its answer: one frame is sent, whatever pieces the answer comes in are shown
  together as one message behind the question, with what the server says of it, and the page is free again; no other
  conversation changes.\<close>

theorem ws_answer_shown:
  assumes "\<not> busy st" and "list_all (\<lambda>m. cm_request m \<noteq> reqId) (visibleMessages st)"
  shows "let s = coalesce (activeId st) fresh;
             st' = fold chat_step (SendText t fresh reqId # WsOpened # map WsDelta ds @ [WsDone h ms]) st
         in \<not> busy st' \<and> inflight st' = None \<and> outbox st' = outbox st @ [UserFrame s reqId t (model st)] \<and>
            conversation st' = (conversation st)(s \<mapsto> visibleMessages st @ [userMessage reqId t,
              (pendingAnswer reqId (model st))\<lparr>cm_text := concat ds, cm_streaming := False, cm_hallucinated := h, cm_latency := Some ms\<rparr>])"
proof -
  let ?s = "coalesce (activeId st) fresh"
  obtain f where f: "fl_session f = ?s" "fl_request f = reqId" "fl_text f = t" "fl_model f = model st"
    and r: "receiving st f (visibleMessages st) [] (wsOpened (sendText t fresh reqId st))"
    and out: "outbox (wsOpened (sendText t fresh reqId st)) = outbox st @ [UserFrame ?s reqId t (model st)]"
    using send_receives [OF assms] by blast
  define st1 where "st1 = fold chat_step (map WsDelta ds) (wsOpened (sendText t fresh reqId st))"
  have r1: "receiving st f (visibleMessages st) (concat ds) st1" and out1: "outbox st1 = outbox st @ [UserFrame ?s reqId t (model st)]"
    using receiving_deltas [OF r, of ds] out by (simp_all add: st1_def)
  have end_state: "fold chat_step (SendText t fresh reqId # WsOpened # map WsDelta ds @ [WsDone h ms]) st = onDone h ms st1"
    by (simp add: st1_def)
  have "conversation (onDone h ms st1) = (conversation st)(?s \<mapsto> visibleMessages st @ [userMessage reqId t,
      (pendingAnswer reqId (model st))\<lparr>cm_text := concat ds, cm_streaming := False, cm_hallucinated := h, cm_latency := Some ms\<rparr>])"
    using r1 f answer_updated [OF r1] by (simp add: receiving_def onDone_def) (simp add: pendingAnswer_def)
  then show ?thesis
    unfolding Let_def end_state using r1 out1 by (simp add: receiving_def onDone_def)
qed

theorem ws_answer_shown_witness:
  "let st' = fold chat_step (SendText ''hi'' ''s1'' ''r1'' # WsOpened # map WsDelta [''<NAME'', ''_1>''] @ [WsDone None 5]) initialChat
   in \<not> busy st' \<and> outbox st' = [UserFrame ''s1'' ''r1'' ''hi'' DEFAULT_MODEL_ID]"
  using ws_answer_shown [of initialChat "''r1''" "''s1''" "''hi''" "[''<NAME'', ''_1>'']" None 5]
  by (simp add: initialChat_def visibleMessages_def Let_def del: fold_simps)

lemma stranded_step:
  assumes "busy st" "inflight st = Some f" "fl_phase f = Stranded"
  shows "busy (chat_step e st) \<and> inflight (chat_step e st) = Some f \<and> outbox (chat_step e st) = outbox st"
  using assms
  by (cases e) (simp_all add: newSession_def selectSession_def pickModel_def sendText_def wsOpened_def onDelta_def onDone_def wsFailed_def
      wsOpenFailed_def wsClosed_def restAnswered_def restFailed_def)

lemma stranded_run:
  assumes "busy st" "inflight st = Some f" "fl_phase f = Stranded"
  shows "busy (fold chat_step es st) \<and> outbox (fold chat_step es st) = outbox st"
  using assms by (induction es arbitrary: st) (simp_all add: stranded_step)

text \<open>A socket that closes in the middle of an answer strands the page. Nothing tells the handler of it, so whatever happens
  afterwards the page stays busy and sends nothing more.\<close>

theorem closed_socket_strands_chat:
  assumes "\<not> busy st" and "list_all (\<lambda>m. cm_request m \<noteq> reqId) (visibleMessages st)"
  shows "let st' = fold chat_step (SendText t fresh reqId # WsOpened # map WsDelta ds @ [WsClosed]) st
         in busy (fold chat_step es st') \<and> outbox (fold chat_step es st') = outbox st @ [UserFrame (coalesce (activeId st) fresh) reqId t (model st)]"
proof -
  obtain f where r: "receiving st f (visibleMessages st) [] (wsOpened (sendText t fresh reqId st))"
    and out: "outbox (wsOpened (sendText t fresh reqId st)) = outbox st @ [UserFrame (coalesce (activeId st) fresh) reqId t (model st)]"
    using send_receives [OF assms] by blast
  define st1 where "st1 = fold chat_step (map WsDelta ds) (wsOpened (sendText t fresh reqId st))"
  have r1: "receiving st f (visibleMessages st) (concat ds) st1"
    and out1: "outbox st1 = outbox st @ [UserFrame (coalesce (activeId st) fresh) reqId t (model st)]"
    using receiving_deltas [OF r, of ds] out by (simp_all add: st1_def)
  have "busy (wsClosed st1)" "inflight (wsClosed st1) = Some (f\<lparr>fl_phase := Stranded\<rparr>)" "outbox (wsClosed st1) = outbox st1"
    using r1 by (simp_all add: wsClosed_def receiving_def)
  then show ?thesis using stranded_run [of "wsClosed st1" "f\<lparr>fl_phase := Stranded\<rparr>" es] out1 by (simp add: st1_def)
qed

theorem closed_socket_strands_chat_witness:
  "busy (fold chat_step [NewSession ''s2'', SendText ''again'' ''s3'' ''r2'']
     (fold chat_step (SendText ''hi'' ''s1'' ''r1'' # WsOpened # map WsDelta [] @ [WsClosed]) initialChat))"
  using closed_socket_strands_chat [of initialChat "''r1''" "''hi''" "''s1''" "[]" "[NewSession ''s2'', SendText ''again'' ''s3'' ''r2'']"]
  by (simp add: initialChat_def visibleMessages_def Let_def del: fold_simps)

end
