(* ===== verification/DmPolicy.thy ===== *)
theory DmPolicy
  imports StringCoerce
begin

text \<open>
  Who may talk to the agent: \<^verbatim>\<open>packages/core/src/security/dm-policy-shared.ts\<close> over \<^verbatim>\<open>channels/allow-from.ts\<close>,
  \<^verbatim>\<open>channels/command-gating.ts\<close> and \<^verbatim>\<open>plugin-sdk/group-access.ts\<close>. List entries are strings, whether the sender is in a list is
  an argument, and the human-readable reason is left out next to its code.
\<close>

subsection \<open>Allow lists\<close>

definition normalizeStringEntries :: "string list \<Rightarrow> string list" where
  "normalizeStringEntries entries = filter (\<lambda>e. e \<noteq> []) (map (\<lambda>e. coalesce (normalizeOptionalString (Some e)) []) entries)"

definition mergeDmAllowFromSources :: "string list option \<Rightarrow> string list option \<Rightarrow> string option \<Rightarrow> string list" where
  "mergeDmAllowFromSources allowFrom storeAllowFrom dmPolicy =
     (let storeEntries = (if dmPolicy = Some ''allowlist'' \<or> dmPolicy = Some ''open'' then [] else coalesce storeAllowFrom [])
      in normalizeStringEntries (coalesce allowFrom [] @ storeEntries))"

definition resolveGroupAllowFromSources :: "string list option \<Rightarrow> string list option \<Rightarrow> bool option \<Rightarrow> string list" where
  "resolveGroupAllowFromSources allowFrom groupAllowFrom fallbackToAllowFrom =
     normalizeStringEntries
       (if coalesce groupAllowFrom [] \<noteq> [] then coalesce groupAllowFrom []
        else if fallbackToAllowFrom = Some False then [] else coalesce allowFrom [])"

definition resolvePinnedMainDmOwnerFromAllowlist :: "string option \<Rightarrow> string list option \<Rightarrow> (string \<Rightarrow> string option) \<Rightarrow> string option" where
  "resolvePinnedMainDmOwnerFromAllowlist dmScope allowFrom normalizeEntry =
     (if coalesce dmScope ''main'' \<noteq> ''main'' then None
      else (let raw = coalesce allowFrom []
            in if \<exists>e \<in> set raw. js_trim e = ''*'' then None
               else (let owners = remdups (map (\<lambda>v. coalesce v []) (filter truthy_string (map normalizeEntry raw)))
                     in if length owners = 1 then Some (hd owners) else None)))"

subsection \<open>Gates\<close>

record command_authorizer =
  configured :: bool
  allowed :: bool

datatype gating_mode = GateAllow | GateDeny | GateConfigured

definition resolveCommandAuthorizedFromAuthorizers :: "bool \<Rightarrow> command_authorizer list \<Rightarrow> gating_mode option \<Rightarrow> bool" where
  "resolveCommandAuthorizedFromAuthorizers useAccessGroups authorizers modeWhenOff =
     (let anyAllowed = list_ex (\<lambda>a. configured a \<and> allowed a) authorizers
      in if \<not> useAccessGroups
         then (case coalesce modeWhenOff GateAllow of
                 GateAllow \<Rightarrow> True
               | GateDeny \<Rightarrow> False
               | GateConfigured \<Rightarrow> if \<not> list_ex configured authorizers then True else anyAllowed)
         else anyAllowed)"

record command_gate =
  commandAuthorized :: bool
  shouldBlock :: bool

definition resolveControlCommandGate :: "bool \<Rightarrow> command_authorizer list \<Rightarrow> bool \<Rightarrow> bool \<Rightarrow> gating_mode option \<Rightarrow> command_gate" where
  "resolveControlCommandGate useAccessGroups authorizers allowTextCommands hasControlCommand modeWhenOff =
     (let auth = resolveCommandAuthorizedFromAuthorizers useAccessGroups authorizers modeWhenOff
      in \<lparr>commandAuthorized = auth, shouldBlock = allowTextCommands \<and> hasControlCommand \<and> \<not> auth\<rparr>)"

datatype group_policy = GroupOpen | GroupDisabled | GroupAllowlist

datatype group_reason = GroupAllowed | GroupIsDisabled | MissingMatchInput | EmptyAllowlist | NotAllowlisted

definition evaluateMatchedGroupAccessForPolicy :: "group_policy \<Rightarrow> bool \<Rightarrow> bool \<Rightarrow> bool \<Rightarrow> bool \<Rightarrow> bool \<times> group_reason" where
  "evaluateMatchedGroupAccessForPolicy policy allowlistConfigured allowlistMatched requireMatchInput hasMatchInput =
     (if policy = GroupDisabled then (False, GroupIsDisabled)
      else if policy = GroupAllowlist \<and> requireMatchInput \<and> \<not> hasMatchInput then (False, MissingMatchInput)
      else if policy = GroupAllowlist \<and> \<not> allowlistConfigured then (False, EmptyAllowlist)
      else if policy = GroupAllowlist \<and> \<not> allowlistMatched then (False, NotAllowlisted)
      else (True, GroupAllowed))"

datatype route_reason = RouteAllowed | RoutePolicyDisabled | RouteEmptyAllowlist | RouteNotAllowlisted | RouteDisabled

definition evaluateGroupRouteAccessForPolicy :: "group_policy \<Rightarrow> bool \<Rightarrow> bool \<Rightarrow> bool option \<Rightarrow> bool \<times> route_reason" where
  "evaluateGroupRouteAccessForPolicy policy routeAllowlistConfigured routeMatched routeEnabled =
     (if policy = GroupDisabled then (False, RoutePolicyDisabled)
      else if routeMatched \<and> routeEnabled = Some False then (False, RouteDisabled)
      else if policy = GroupAllowlist \<and> \<not> routeAllowlistConfigured then (False, RouteEmptyAllowlist)
      else if policy = GroupAllowlist \<and> \<not> routeMatched then (False, RouteNotAllowlisted)
      else (True, RouteAllowed))"

definition resolveSenderScopedGroupPolicy :: "group_policy \<Rightarrow> string list \<Rightarrow> group_policy" where
  "resolveSenderScopedGroupPolicy policy groupAllowFrom =
     (if policy = GroupDisabled then GroupDisabled else if groupAllowFrom \<noteq> [] then GroupAllowlist else GroupOpen)"

subsection \<open>The decision\<close>

datatype access_decision = AllowSender | BlockSender | PairSender

datatype access_reason =
    GROUP_POLICY_ALLOWED | GROUP_POLICY_DISABLED | GROUP_POLICY_EMPTY_ALLOWLIST | GROUP_POLICY_NOT_ALLOWLISTED
  | DM_POLICY_OPEN | DM_POLICY_DISABLED | DM_POLICY_ALLOWLISTED | DM_POLICY_PAIRING_REQUIRED | DM_POLICY_NOT_ALLOWLISTED

type_synonym sender_check = "string list \<Rightarrow> bool"

definition resolveOpenDmAllowlistAccess :: "string list \<Rightarrow> sender_check \<Rightarrow> access_decision \<times> access_reason" where
  "resolveOpenDmAllowlistAccess effectiveAllowFrom isSenderAllowed =
     (let entries = normalizeStringEntries effectiveAllowFrom
      in if ''*'' \<in> set entries then (AllowSender, DM_POLICY_OPEN)
         else if isSenderAllowed entries then (AllowSender, DM_POLICY_ALLOWLISTED)
         else (BlockSender, DM_POLICY_NOT_ALLOWLISTED))"

definition groupPolicyOf :: "string option \<Rightarrow> group_policy" where
  "groupPolicyOf p = (if p = Some ''open'' then GroupOpen else if p = Some ''disabled'' then GroupDisabled else GroupAllowlist)"

definition resolveDmGroupAccessDecision ::
    "bool \<Rightarrow> string option \<Rightarrow> string option \<Rightarrow> string list \<Rightarrow> string list \<Rightarrow> sender_check \<Rightarrow> access_decision \<times> access_reason" where
  "resolveDmGroupAccessDecision isGroup dmPolicyIn groupPolicyIn effectiveAllowFromIn effectiveGroupAllowFromIn isSenderAllowed =
     (let dmPolicy = coalesce dmPolicyIn ''pairing'';
          effectiveAllowFrom = normalizeStringEntries effectiveAllowFromIn;
          effectiveGroupAllowFrom = normalizeStringEntries effectiveGroupAllowFromIn
      in if isGroup then
           (case evaluateMatchedGroupAccessForPolicy (groupPolicyOf groupPolicyIn) (effectiveGroupAllowFrom \<noteq> [])
                   (isSenderAllowed effectiveGroupAllowFrom) False False of
              (False, GroupIsDisabled) \<Rightarrow> (BlockSender, GROUP_POLICY_DISABLED)
            | (False, EmptyAllowlist) \<Rightarrow> (BlockSender, GROUP_POLICY_EMPTY_ALLOWLIST)
            | (False, NotAllowlisted) \<Rightarrow> (BlockSender, GROUP_POLICY_NOT_ALLOWLISTED)
            | _ \<Rightarrow> (AllowSender, GROUP_POLICY_ALLOWED))
         else if dmPolicy = ''disabled'' then (BlockSender, DM_POLICY_DISABLED)
         else if dmPolicy = ''open'' then resolveOpenDmAllowlistAccess effectiveAllowFrom isSenderAllowed
         else if isSenderAllowed effectiveAllowFrom then (AllowSender, DM_POLICY_ALLOWLISTED)
         else if dmPolicy = ''pairing'' then (PairSender, DM_POLICY_PAIRING_REQUIRED)
         else (BlockSender, DM_POLICY_NOT_ALLOWLISTED))"

record access_params =
  ap_isGroup :: bool
  ap_dmPolicy :: "string option"
  ap_groupPolicy :: "string option"
  ap_allowFrom :: "string list option"
  ap_groupAllowFrom :: "string list option"
  ap_storeAllowFrom :: "string list option"
  ap_fallback :: "bool option"

record command_params =
  cp_useAccessGroups :: bool
  cp_allowTextCommands :: bool
  cp_hasControlCommand :: bool

definition resolveEffectiveAllowFromLists :: "access_params \<Rightarrow> string list \<times> string list" where
  "resolveEffectiveAllowFromLists p =
     (normalizeStringEntries (mergeDmAllowFromSources (ap_allowFrom p) (ap_storeAllowFrom p) (ap_dmPolicy p)),
      normalizeStringEntries (resolveGroupAllowFromSources (ap_allowFrom p) (ap_groupAllowFrom p) (ap_fallback p)))"

definition resolveDmGroupAccessWithLists :: "access_params \<Rightarrow> sender_check \<Rightarrow> (access_decision \<times> access_reason) \<times> string list \<times> string list" where
  "resolveDmGroupAccessWithLists p isSenderAllowed =
     (let (effectiveAllowFrom, effectiveGroupAllowFrom) = resolveEffectiveAllowFromLists p
      in (resolveDmGroupAccessDecision (ap_isGroup p) (ap_dmPolicy p) (ap_groupPolicy p) effectiveAllowFrom effectiveGroupAllowFrom isSenderAllowed,
          effectiveAllowFrom, effectiveGroupAllowFrom))"

record access_result =
  ar_decision :: access_decision
  ar_reason :: access_reason
  ar_allowFrom :: "string list"
  ar_groupAllowFrom :: "string list"
  ar_commandAuthorized :: bool
  ar_blockControlCommand :: bool

definition resolveDmGroupAccessWithCommandGate :: "access_params \<Rightarrow> command_params option \<Rightarrow> sender_check \<Rightarrow> access_result" where
  "resolveDmGroupAccessWithCommandGate p command isSenderAllowed =
     (let ((decision, reason), effectiveAllowFrom, effectiveGroupAllowFrom) = resolveDmGroupAccessWithLists p isSenderAllowed;
          configuredAllowFrom = normalizeStringEntries (coalesce (ap_allowFrom p) []);
          configuredGroupAllowFrom = normalizeStringEntries (resolveGroupAllowFromSources (Some configuredAllowFrom)
            (Some (normalizeStringEntries (coalesce (ap_groupAllowFrom p) []))) (ap_fallback p));
          commandDmAllowFrom = (if ap_isGroup p then configuredAllowFrom else effectiveAllowFrom);
          commandGroupAllowFrom = (if ap_isGroup p then configuredGroupAllowFrom else effectiveGroupAllowFrom);
          gate = (case command of
              None \<Rightarrow> \<lparr>commandAuthorized = False, shouldBlock = False\<rparr>
            | Some c \<Rightarrow> resolveControlCommandGate (cp_useAccessGroups c)
                [\<lparr>configured = commandDmAllowFrom \<noteq> [], allowed = isSenderAllowed commandDmAllowFrom\<rparr>,
                 \<lparr>configured = commandGroupAllowFrom \<noteq> [], allowed = isSenderAllowed commandGroupAllowFrom\<rparr>]
                (cp_allowTextCommands c) (cp_hasControlCommand c) None)
      in \<lparr>ar_decision = decision, ar_reason = reason, ar_allowFrom = effectiveAllowFrom, ar_groupAllowFrom = effectiveGroupAllowFrom,
          ar_commandAuthorized = commandAuthorized gate, ar_blockControlCommand = ap_isGroup p \<and> shouldBlock gate\<rparr>)"

text \<open>Reading the pairing store; a failing read counts as an empty store.\<close>

definition readStoreAllowFromForDmPolicy :: "string option \<Rightarrow> bool option \<Rightarrow> ('w \<Rightarrow> string list option \<times> 'w) \<Rightarrow> 'w \<Rightarrow> string list \<times> 'w" where
  "readStoreAllowFromForDmPolicy dmPolicy shouldRead readStore w =
     (if shouldRead = Some False \<or> dmPolicy = Some ''allowlist'' \<or> dmPolicy = Some ''open'' then ([], w)
      else (let (r, w') = readStore w in (coalesce r [], w')))"

record dm_allow_state =
  das_config :: "string list"
  das_wildcard :: bool
  das_count :: nat
  das_multi :: bool

definition resolveDmAllowState :: "string list option \<Rightarrow> string option \<Rightarrow> (string \<Rightarrow> string) \<Rightarrow> ('w \<Rightarrow> string list option \<times> 'w) \<Rightarrow> 'w \<Rightarrow> dm_allow_state \<times> 'w" where
  "resolveDmAllowState allowFrom dmPolicy normalizeEntry readStore w =
     (let configAllowFrom = normalizeStringEntries (coalesce allowFrom []);
          hasWildcard = (''*'' \<in> set configAllowFrom);
          (storeAllowFrom, w') = readStoreAllowFromForDmPolicy dmPolicy None readStore w;
          tidy = (\<lambda>vs. filter (\<lambda>v. v \<noteq> []) (map (\<lambda>v. js_trim (normalizeEntry v)) vs));
          allowCount = length (remdups (tidy (filter (\<lambda>v. v \<noteq> ''*'') configAllowFrom) @ tidy storeAllowFrom))
      in (\<lparr>das_config = configAllowFrom, das_wildcard = hasWildcard, das_count = allowCount, das_multi = hasWildcard \<or> 1 < allowCount\<rparr>, w'))"

subsection \<open>Properties\<close>

lemma normalized_entry: "e \<in> set (normalizeStringEntries es) \<Longrightarrow> e \<noteq> [] \<and> js_trim e = e"
  by (auto simp: normalizeStringEntries_def normalizeOptionalString_def normalizeNullableString_def Let_def)

lemma normalize_twice [simp]: "normalizeStringEntries (normalizeStringEntries es) = normalizeStringEntries es"
proof -
  define ns where "ns = normalizeStringEntries es"
  have "e \<in> set ns \<Longrightarrow> coalesce (normalizeOptionalString (Some e)) [] = e" for e
    using normalized_entry [of e es] by (simp add: ns_def normalizeOptionalString_def normalizeNullableString_def)
  then have "map (\<lambda>e. coalesce (normalizeOptionalString (Some e)) []) ns = ns" by (rule map_idI)
  moreover have "filter (\<lambda>e. e \<noteq> []) ns = ns" using normalized_entry [of _ es] by (simp add: filter_id_conv ns_def)
  ultimately show ?thesis unfolding ns_def [symmetric] by (subst normalizeStringEntries_def) simp
qed

lemma normalize_Nil [simp]: "normalizeStringEntries [] = []"
  by (simp add: normalizeStringEntries_def)

text \<open>Approvals from the pairing store.\<close>

definition withStore :: "string list option \<Rightarrow> access_params \<Rightarrow> access_params" where
  "withStore store p = p\<lparr>ap_storeAllowFrom := store\<rparr>"

text \<open>C7: Pairing approvals open direct chats only. In a group neither the decision, its reason, the right to run commands, the
  block of control commands nor the group's own list depends on what was approved by pairing. The effective list of direct
  chats, which a group message reports as well, does depend on it. With the policies \<^verbatim>\<open>allowlist\<close> and \<^verbatim>\<open>open\<close>
  nothing at all does, in groups and in direct chats.\<close>

theorem pairing_store_dm_only:
  assumes "ap_isGroup p \<or> ap_dmPolicy p \<in> {Some ''allowlist'', Some ''open''}"
  shows "let r1 = resolveDmGroupAccessWithCommandGate (withStore store1 p) command isSenderAllowed;
             r2 = resolveDmGroupAccessWithCommandGate (withStore store2 p) command isSenderAllowed
         in ar_decision r1 = ar_decision r2 \<and> ar_reason r1 = ar_reason r2 \<and> ar_commandAuthorized r1 = ar_commandAuthorized r2 \<and>
            ar_blockControlCommand r1 = ar_blockControlCommand r2 \<and> ar_groupAllowFrom r1 = ar_groupAllowFrom r2 \<and>
            (ap_dmPolicy p \<in> {Some ''allowlist'', Some ''open''} \<longrightarrow> r1 = r2)"
proof (cases "ap_dmPolicy p \<in> {Some ''allowlist'', Some ''open''}")
  case False
  then have "ap_isGroup p" using assms by blast
  then show ?thesis using False
    by (simp add: resolveDmGroupAccessWithCommandGate_def resolveDmGroupAccessWithLists_def resolveEffectiveAllowFromLists_def
        resolveDmGroupAccessDecision_def withStore_def Let_def split: prod.split)
next
  case True
  then have "mergeDmAllowFromSources (ap_allowFrom p) store1 (ap_dmPolicy p) = mergeDmAllowFromSources (ap_allowFrom p) store2 (ap_dmPolicy p)"
    by (auto simp: mergeDmAllowFromSources_def)
  then show ?thesis
    by (simp add: resolveDmGroupAccessWithCommandGate_def resolveDmGroupAccessWithLists_def resolveEffectiveAllowFromLists_def withStore_def)
qed

definition demo_access :: access_params where
  "demo_access = \<lparr>ap_isGroup = True, ap_dmPolicy = None, ap_groupPolicy = None, ap_allowFrom = Some [''owner''], ap_groupAllowFrom = None,
     ap_storeAllowFrom = None, ap_fallback = None\<rparr>"

theorem pairing_store_dm_only_witness:
  "ar_decision (resolveDmGroupAccessWithCommandGate (withStore (Some [''guest'']) demo_access) None (\<lambda>l. ''guest'' \<in> set l)) =
   ar_decision (resolveDmGroupAccessWithCommandGate (withStore None demo_access) None (\<lambda>l. ''guest'' \<in> set l))"
  using pairing_store_dm_only [of demo_access "Some [''guest'']" None "\<lambda>l. ''guest'' \<in> set l" None]
  by (simp add: demo_access_def Let_def)

text \<open>What lets a sender in, for the usual check of membership in a list.\<close>

definition listed :: "string \<Rightarrow> sender_check" where
  "listed sender entries = (''*'' \<in> set entries \<or> sender \<in> set entries)"

lemma normal_member: "sender \<noteq> [] \<Longrightarrow> js_trim sender = sender \<Longrightarrow>
   sender \<in> set (normalizeStringEntries es) \<longleftrightarrow> (\<exists>e \<in> set es. js_trim e = sender)"
  by (auto simp: normalizeStringEntries_def normalizeOptionalString_def normalizeNullableString_def Let_def)

text \<open>The entries that count for a message: in a group the group list, or the direct list in its place; in a direct chat the
  direct list and what was paired, unless the policy leaves the store out.\<close>

definition counting :: "access_params \<Rightarrow> string list" where
  "counting p =
     (if ap_isGroup p
      then (if coalesce (ap_groupAllowFrom p) [] \<noteq> [] then coalesce (ap_groupAllowFrom p) []
            else if ap_fallback p = Some False then [] else coalesce (ap_allowFrom p) [])
      else coalesce (ap_allowFrom p) []
           @ (if ap_dmPolicy p \<in> {Some ''allowlist'', Some ''open''} then [] else coalesce (ap_storeAllowFrom p) []))"

text \<open>C8: Exactly the listed get in. A sender is allowed when some entry that counts for the message names him, or the star, once
  surrounding space is removed, or in a group with the policy \<^verbatim>\<open>open\<close>; the policy \<^verbatim>\<open>disabled\<close> keeps everyone out,
  and only an unlisted sender of a direct chat is offered pairing.\<close>

theorem access_allowed_iff:
  assumes "sender \<noteq> []" and "js_trim sender = sender"
  shows "let d = ar_decision (resolveDmGroupAccessWithCommandGate p command (listed sender));
             named = (\<exists>e \<in> set (counting p). js_trim e = ''*'' \<or> js_trim e = sender);
             policy = (if ap_isGroup p then coalesce (ap_groupPolicy p) ''allowlist'' else coalesce (ap_dmPolicy p) ''pairing'')
         in (d = AllowSender) = (policy \<noteq> ''disabled'' \<and> (named \<or> ap_isGroup p \<and> policy = ''open'')) \<and>
            (d = PairSender) = (\<not> ap_isGroup p \<and> policy = ''pairing'' \<and> \<not> named)"
proof -
  let ?es = "normalizeStringEntries (counting p)"
  have star: "''*'' \<in> set ?es \<longleftrightarrow> (\<exists>e \<in> set (counting p). js_trim e = ''*'')"
    by (rule normal_member) (simp_all add: js_trim_def js_space_def)
  have named: "listed sender ?es \<longleftrightarrow> (\<exists>e \<in> set (counting p). js_trim e = ''*'' \<or> js_trim e = sender)"
    unfolding listed_def star using normal_member [OF assms] by blast
  have nonempty: "listed sender ?es \<Longrightarrow> ?es \<noteq> []" by (auto simp: listed_def)
  have decision: "ar_decision (resolveDmGroupAccessWithCommandGate p command (listed sender)) =
      fst (fst (resolveDmGroupAccessWithLists p (listed sender)))"
    by (simp add: resolveDmGroupAccessWithCommandGate_def Let_def split: prod.split)
  show ?thesis
  proof (cases "ap_isGroup p")
    case True
    then have "snd (resolveEffectiveAllowFromLists p) = ?es"
      by (simp add: resolveEffectiveAllowFromLists_def resolveGroupAllowFromSources_def counting_def)
    then show ?thesis
      unfolding decision Let_def named [symmetric] using True nonempty
      by (cases "ap_groupPolicy p") (auto simp: resolveDmGroupAccessWithLists_def resolveDmGroupAccessDecision_def evaluateMatchedGroupAccessForPolicy_def
          groupPolicyOf_def Let_def case_prod_beta split: option.splits)
  next
    case False
    then have "fst (resolveEffectiveAllowFromLists p) = ?es"
      by (simp add: resolveEffectiveAllowFromLists_def mergeDmAllowFromSources_def counting_def)
    then show ?thesis
      unfolding decision Let_def named [symmetric] using False
      by (auto simp: resolveDmGroupAccessWithLists_def resolveDmGroupAccessDecision_def resolveOpenDmAllowlistAccess_def
          Let_def case_prod_beta listed_def)
  qed
qed

theorem access_allowed_iff_witness:
  "ar_decision (resolveDmGroupAccessWithCommandGate demo_access None (listed ''owner'')) = AllowSender \<and>
   ar_decision (resolveDmGroupAccessWithCommandGate demo_access None (listed ''guest'')) \<noteq> AllowSender"
  using access_allowed_iff [of "''owner''" demo_access None] access_allowed_iff [of "''guest''" demo_access None]
  by (simp add: demo_access_def counting_def js_trim_def js_space_def Let_def)

end
