(* ===== verification/GlobPattern.thy ===== *)
theory GlobPattern
  imports JsText
begin

text \<open>
  The patterns of tool and command lists: \<^verbatim>\<open>packages/core/src/agents/glob-pattern.ts\<close>. A pattern with stars becomes a regular
  expression in which every other character is escaped and a star is \<^verbatim>\<open>.*\<close>, anchored at both ends; the expression is kept as the
  pattern it was built from, and a dot matches everything but a line end. The theory shows what such an expression accepts: the
  pieces between the stars, in order, with anything on one line in their place.
\<close>

text \<open>A value where the source's types say string. It is a text, or, when a configured name was looked up in an object literal and hit
  a member every object inherits, that member, which is known by the text JavaScript gives for it.\<close>

datatype js_name = Text string | Inherited string

fun text_form :: "js_name \<Rightarrow> string" where
  "text_form (Text s) = s"
| "text_form (Inherited s) = s"

datatype glob = GlobAll | GlobExact string | GlobRegex string

definition compileGlobPattern :: "('r \<Rightarrow> string) \<Rightarrow> 'r \<Rightarrow> glob" where
  "compileGlobPattern canon raw =
     (let normalized = canon raw
      in if normalized = [] then GlobExact []
         else if normalized = ''*'' then GlobAll
         else if CHR ''*'' \<notin> set normalized then GlobExact normalized
         else GlobRegex normalized)"

definition compileGlobPatterns :: "('r \<Rightarrow> string) \<Rightarrow> 'r list option \<Rightarrow> glob list" where
  "compileGlobPatterns canon raw = filter (\<lambda>p. p \<noteq> GlobExact []) (map (compileGlobPattern canon) (coalesce raw []))"

definition line_end :: "char \<Rightarrow> bool" where
  "line_end c = (c = CHR 0x0A \<or> c = CHR 0x0D)"

function star_test :: "string \<Rightarrow> string \<Rightarrow> bool" where
  "star_test [] value = (value = [])"
| "star_test (c # p) value =
     (if c = CHR ''*''
      then star_test p value \<or> (case value of [] \<Rightarrow> False | x # xs \<Rightarrow> \<not> line_end x \<and> star_test (c # p) xs)
      else (case value of [] \<Rightarrow> False | x # xs \<Rightarrow> x = c \<and> star_test p xs))"
  by pat_completeness auto
termination by (relation "measure (\<lambda>(p, value). length p + length value)") auto

text \<open>An exact pattern is compared with the value itself, an expression is tested on its text.\<close>

fun matchesGlob :: "js_name \<Rightarrow> glob \<Rightarrow> bool" where
  "matchesGlob value GlobAll = True"
| "matchesGlob value (GlobExact s) = (value = Text s)"
| "matchesGlob value (GlobRegex p) = star_test p (text_form value)"

definition matchesAnyGlobPattern :: "js_name \<Rightarrow> glob list \<Rightarrow> bool" where
  "matchesAnyGlobPattern value patterns = list_ex (matchesGlob value) patterns"

subsection \<open>What a pattern accepts\<close>

fun interleave :: "string list \<Rightarrow> string list \<Rightarrow> string" where
  "interleave (x # xs) (w # ws) = x @ w @ interleave xs ws"
| "interleave xs ws = concat xs"

definition one_line :: "string \<Rightarrow> bool" where
  "one_line w = list_all (\<lambda>c. \<not> line_end c) w"

lemma interleave_Nil [simp]: "interleave xs [] = concat xs"
  by (cases xs) simp_all

lemma star_skip: "star_test (CHR ''*'' # p) v = (\<exists>w u. one_line w \<and> v = w @ u \<and> star_test p u)"
proof (induction v)
  case Nil
  then show ?case by (simp add: one_line_def)
next
  case (Cons x xs)
  let ?R = "\<lambda>v. \<exists>w u. one_line w \<and> v = w @ u \<and> star_test p u"
  have step: "star_test (CHR ''*'' # p) (x # xs) = (star_test p (x # xs) \<or> \<not> line_end x \<and> star_test (CHR ''*'' # p) xs)" by simp
  have "?R (x # xs)" if "star_test p (x # xs)"
    using that by (intro exI [of _ "[]"] exI [of _ "x # xs"]) (simp add: one_line_def del: star_test.simps)
  moreover have "?R (x # xs)" if "\<not> line_end x" "?R xs"
  proof -
    from that(2) obtain w u where "one_line w" "xs = w @ u" "star_test p u" by blast
    then show ?thesis using that(1) by (intro exI [of _ "x # w"] exI [of _ u]) (simp add: one_line_def)
  qed
  moreover have "star_test p (x # xs) \<or> \<not> line_end x \<and> ?R xs" if "?R (x # xs)"
  proof -
    from that obtain w u where "one_line w" "x # xs = w @ u" "star_test p u" by blast
    then show ?thesis by (cases w) (auto simp: one_line_def)
  qed
  ultimately show ?case unfolding step Cons.IH by blast
qed

lemma star_literal: "c \<noteq> CHR ''*'' \<Longrightarrow> star_test (c # p) v = (\<exists>u. v = c # u \<and> star_test p u)"
  by (auto split: list.split)

lemma js_split_Cons: "d \<noteq> c \<Longrightarrow> js_split c (d # s) = (d # hd (js_split c s)) # tl (js_split c s)"
  by (cases "js_split c s") (auto simp: Let_def split: list.split)

text \<open>A text matches exactly when it is the pieces between the stars with one-line texts in place of the stars.\<close>

lemma star_test_iff:
  "star_test p v = (\<exists>ws. length (js_split CHR ''*'' p) = Suc (length ws) \<and> list_all one_line ws \<and>
     v = interleave (js_split CHR ''*'' p) ws)"
proof (induction p arbitrary: v)
  case Nil
  then show ?case by auto
next
  case (Cons c p)
  show ?case
  proof (cases "c = CHR ''*''")
    case True
    then have split: "js_split CHR ''*'' (c # p) = [] # js_split CHR ''*'' p" by simp
    have "star_test (c # p) v = (\<exists>w u. one_line w \<and> v = w @ u \<and> star_test p u)" unfolding True by (rule star_skip)
    also have "\<dots> = (\<exists>ws. length ([] # js_split CHR ''*'' p) = Suc (length ws) \<and> list_all one_line ws \<and>
        v = interleave ([] # js_split CHR ''*'' p) ws)" (is "?l = ?r")
    proof
      assume ?l
      then obtain w u ws where "one_line w" "v = w @ u" "length (js_split CHR ''*'' p) = Suc (length ws)" "list_all one_line ws"
        "u = interleave (js_split CHR ''*'' p) ws" unfolding Cons.IH by blast
      then show ?r by (intro exI [of _ "w # ws"]) simp
    next
      assume ?r
      then obtain ws where ws: "length ([] # js_split CHR ''*'' p) = Suc (length ws)" "list_all one_line ws"
        "v = interleave ([] # js_split CHR ''*'' p) ws" by blast
      then obtain w ws' where "ws = w # ws'" by (cases ws) auto
      then have "one_line w" "v = w @ interleave (js_split CHR ''*'' p) ws'" "list_all one_line ws'"
        "length (js_split CHR ''*'' p) = Suc (length ws')" using ws by simp_all
      then show ?l unfolding Cons.IH by blast
    qed
    finally show ?thesis unfolding split .
  next
    case False
    obtain x xs where xs: "js_split CHR ''*'' p = x # xs" by (cases "js_split CHR ''*'' p") auto
    have split: "js_split CHR ''*'' (c # p) = (c # x) # xs" using js_split_Cons [OF False, of p] xs by simp
    have inter: "interleave ((c # x) # xs) ws = c # interleave (x # xs) ws" for ws by (cases ws) simp_all
    show ?thesis unfolding split star_literal [OF False] Cons.IH xs inter by auto
  qed
qed

lemma star_free: "CHR ''*'' \<notin> set p \<Longrightarrow> star_test p v = (v = p)"
  unfolding star_test_iff by (auto simp: js_split_free)

end
