(* ===== verification/AgentTools.thy ===== *)
theory AgentTools
  imports GlobPattern SessionKeys
begin

text \<open>
  The tools of an agent and their names: \<^verbatim>\<open>packages/core/src/agents/tool-catalog.ts\<close> and \<^verbatim>\<open>tool-policy-shared.ts\<close>. Descriptions and
  labels are left out where nothing reads them. The catalogue names a local variable \<^verbatim>\<open>brikko-studioTools\<close>, which no parser
  accepts; it is read as one identifier. Names are looked up in object literals, which also finds the members every object
  inherits: a configured name \<^verbatim>\<open>constructor\<close> or \<^verbatim>\<open>__proto__\<close> becomes such a member, and the lists of policies hold values of
  type \<open>js_name\<close>.
\<close>

datatype tool_profile = Minimal | Coding | Messaging | Full

record core_tool_definition =
  ct_id :: string
  ct_section :: string
  ct_profiles :: "tool_profile list"
  ct_grouped :: bool

record tool_policy =
  tp_allow :: "js_name list option"
  tp_deny :: "js_name list option"

definition core_tool :: "string \<Rightarrow> string \<Rightarrow> tool_profile list \<Rightarrow> bool \<Rightarrow> core_tool_definition" where
  "core_tool i section ps grouped = \<lparr>ct_id = i, ct_section = section, ct_profiles = ps, ct_grouped = grouped\<rparr>"

definition CORE_TOOL_SECTION_ORDER :: "(string \<times> string) list" where
  "CORE_TOOL_SECTION_ORDER =
     [(''fs'', ''Files''), (''runtime'', ''Runtime''), (''web'', ''Web''), (''memory'', ''Memory''), (''sessions'', ''Sessions''),
      (''ui'', ''UI''), (''messaging'', ''Messaging''), (''automation'', ''Automation''), (''nodes'', ''Nodes''), (''agents'', ''Agents''),
      (''media'', ''Media'')]"

definition CORE_TOOL_DEFINITIONS :: "core_tool_definition list" where
  "CORE_TOOL_DEFINITIONS =
     [core_tool ''read'' ''fs'' [Coding] False,
      core_tool ''write'' ''fs'' [Coding] False,
      core_tool ''edit'' ''fs'' [Coding] False,
      core_tool ''apply_patch'' ''fs'' [Coding] False,
      core_tool ''exec'' ''runtime'' [Coding] False,
      core_tool ''process'' ''runtime'' [Coding] False,
      core_tool ''code_execution'' ''runtime'' [Coding] True,
      core_tool ''web_search'' ''web'' [Coding] True,
      core_tool ''web_fetch'' ''web'' [Coding] True,
      core_tool ''x_search'' ''web'' [Coding] True,
      core_tool ''memory_search'' ''memory'' [Coding] True,
      core_tool ''memory_get'' ''memory'' [Coding] True,
      core_tool ''sessions_list'' ''sessions'' [Coding, Messaging] True,
      core_tool ''sessions_history'' ''sessions'' [Coding, Messaging] True,
      core_tool ''sessions_send'' ''sessions'' [Coding, Messaging] True,
      core_tool ''sessions_spawn'' ''sessions'' [Coding] True,
      core_tool ''sessions_yield'' ''sessions'' [Coding] True,
      core_tool ''subagents'' ''sessions'' [Coding] True,
      core_tool ''session_status'' ''sessions'' [Minimal, Coding, Messaging] True,
      core_tool ''browser'' ''ui'' [] True,
      core_tool ''canvas'' ''ui'' [] True,
      core_tool ''message'' ''messaging'' [Messaging] True,
      core_tool ''heartbeat_respond'' ''automation'' [] True,
      core_tool ''cron'' ''automation'' [Coding] True,
      core_tool ''gateway'' ''automation'' [] True,
      core_tool ''nodes'' ''nodes'' [] True,
      core_tool ''agents_list'' ''agents'' [] True,
      core_tool ''update_plan'' ''agents'' [Coding] True,
      core_tool ''image'' ''media'' [Coding] True,
      core_tool ''image_generate'' ''media'' [Coding] True,
      core_tool ''music_generate'' ''media'' [Coding] True,
      core_tool ''video_generate'' ''media'' [Coding] True,
      core_tool ''tts'' ''media'' [] True]"

definition listCoreToolIdsForProfile :: "tool_profile \<Rightarrow> string list" where
  "listCoreToolIdsForProfile p = map ct_id (filter (\<lambda>t. p \<in> set (ct_profiles t)) CORE_TOOL_DEFINITIONS)"

text \<open>A profile name that hits an inherited member finds nothing that allows or denies, which reads as no profile.\<close>

definition CORE_TOOL_PROFILES :: "(string \<times> tool_policy) list" where
  "CORE_TOOL_PROFILES =
     [(''minimal'', \<lparr>tp_allow = Some (map Text (listCoreToolIdsForProfile Minimal)), tp_deny = None\<rparr>),
      (''coding'', \<lparr>tp_allow = Some (map Text (listCoreToolIdsForProfile Coding @ [''bundle-mcp''])), tp_deny = None\<rparr>),
      (''messaging'', \<lparr>tp_allow = Some (map Text (listCoreToolIdsForProfile Messaging @ [''bundle-mcp''])), tp_deny = None\<rparr>),
      (''full'', \<lparr>tp_allow = Some [Text ''*''], tp_deny = None\<rparr>)]"

text \<open>The group of each section, and the group of the tools that are marked for it.\<close>

definition addTool :: "string \<Rightarrow> string \<Rightarrow> (string, string list) js_map \<Rightarrow> (string, string list) js_map" where
  "addTool groupId toolId m = AList.update groupId (coalesce (map_of m groupId) [] @ [toolId]) m"

definition buildCoreToolGroupMap :: "(string, string list) js_map" where
  "buildCoreToolGroupMap =
     fold (\<lambda>t. addTool (''group:'' @ ct_section t) (ct_id t)) CORE_TOOL_DEFINITIONS
       [(''group:brikko-studio'', map ct_id (filter ct_grouped CORE_TOOL_DEFINITIONS))]"

definition resolveCoreToolProfilePolicy :: "string option \<Rightarrow> tool_policy option" where
  "resolveCoreToolProfilePolicy profile =
     (if \<not> truthy_string profile then None
      else (case map_of CORE_TOOL_PROFILES (coalesce profile []) of
              None \<Rightarrow> None
            | Some p \<Rightarrow> if tp_allow p = None \<and> tp_deny p = None then None else Some p))"

definition listCoreToolSections :: "(string \<times> string \<times> string list) list" where
  "listCoreToolSections =
     filter (\<lambda>(_, _, ts). ts \<noteq> [])
       (map (\<lambda>(i, label). (i, label, map ct_id (filter (\<lambda>t. ct_section t = i) CORE_TOOL_DEFINITIONS))) CORE_TOOL_SECTION_ORDER)"

text \<open>\<^verbatim>\<open>Map.get\<close> compares keys as values: an inherited member is no key of a map whose keys are texts.\<close>

fun name_get :: "(string, 'a) js_map \<Rightarrow> js_name \<Rightarrow> 'a option" where
  "name_get m (Text s) = map_of m s"
| "name_get m (Inherited _) = None"

definition coreToolById :: "js_name \<Rightarrow> core_tool_definition option" where
  "coreToolById toolId = name_get (map (\<lambda>t. (ct_id t, t)) CORE_TOOL_DEFINITIONS) toolId"

definition resolveCoreToolProfiles :: "js_name \<Rightarrow> tool_profile list" where
  "resolveCoreToolProfiles toolId = (case coreToolById toolId of None \<Rightarrow> [] | Some t \<Rightarrow> ct_profiles t)"

definition isKnownCoreToolId :: "js_name \<Rightarrow> bool" where
  "isKnownCoreToolId toolId = (coreToolById toolId \<noteq> None)"

subsection \<open>Names and groups\<close>

definition TOOL_NAME_ALIASES :: "(string \<times> string) list" where
  "TOOL_NAME_ALIASES = [(''bash'', ''exec''), (''apply-patch'', ''apply_patch'')]"

text \<open>The members every object inherits, each with its text, as far as their names are left alone by trimming and lower-casing; the
  other ones (\<^verbatim>\<open>toString\<close>, \<^verbatim>\<open>hasOwnProperty\<close> and so on) have a capital letter.\<close>

definition OBJECT_MEMBERS :: "(string \<times> string) list" where
  "OBJECT_MEMBERS = [(''constructor'', ''function Object() { [native code] }''), (''__proto__'', ''[object Object]'')]"

text \<open>A member is no text, so normalizing it once more gives the empty text.\<close>

definition normalizeToolName :: "js_name \<Rightarrow> js_name" where
  "normalizeToolName name =
     (let normalized = (case name of Text s \<Rightarrow> normalizeLowercaseStringOrEmpty (Some s) | Inherited _ \<Rightarrow> [])
      in case map_of TOOL_NAME_ALIASES normalized of
           Some alias \<Rightarrow> Text alias
         | None \<Rightarrow> (case map_of OBJECT_MEMBERS normalized of Some form \<Rightarrow> Inherited form | None \<Rightarrow> Text normalized))"

definition normalizeToolList :: "js_name list option \<Rightarrow> js_name list" where
  "normalizeToolList list = filter (\<lambda>n. n \<noteq> Text []) (map normalizeToolName (coalesce list []))"

text \<open>The key of a lookup in an object is the text of the value. The values looked up here come from \<open>normalizeToolList\<close>, and none of
  them reads like the name of an inherited member (lemma \<open>normal_no_member\<close>), so the groups themselves are all there is to find.\<close>

definition expandGroup :: "js_name \<Rightarrow> js_name list" where
  "expandGroup value = (case map_of buildCoreToolGroupMap (text_form value) of Some g \<Rightarrow> map Text g | None \<Rightarrow> [value])"

definition expandToolGroups :: "js_name list option \<Rightarrow> js_name list" where
  "expandToolGroups list = js_unique (concat (map expandGroup (normalizeToolList list)))"

text \<open>What \<^verbatim>\<open>compileGlobPatterns\<close> is given to normalize with. It runs on names \<open>expandToolGroups\<close> gave, for which the result is always a
  text (lemma \<open>expanded_normal\<close>).\<close>

definition normalizePattern :: "js_name \<Rightarrow> string" where
  "normalizePattern name = text_form (normalizeToolName name)"

definition resolveToolProfilePolicy :: "string option \<Rightarrow> tool_policy option" where
  "resolveToolProfilePolicy profile = resolveCoreToolProfilePolicy profile"

subsection \<open>Normal names\<close>

definition normal_name :: "string \<Rightarrow> bool" where
  "normal_name n = (normalizeToolName (Text n) = Text n)"

lemma normalize_inherited [simp]: "normalizeToolName (Inherited f) = Text []"
  by (simp add: normalizeToolName_def TOOL_NAME_ALIASES_def OBJECT_MEMBERS_def)

lemma normal_text:
  assumes "normalizeToolName e = Text k"
  shows "normalizeToolName (Text k) = Text k"
proof (cases e)
  case (Inherited f)
  then show ?thesis using assms by (simp add: normalizeToolName_def TOOL_NAME_ALIASES_def OBJECT_MEMBERS_def lower_or_empty)
next
  case (Text n)
  show ?thesis
  proof (cases "map_of TOOL_NAME_ALIASES (js_lower (js_trim n))")
    case None
    then show ?thesis using assms Text
      by (auto simp: normalizeToolName_def lower_or_empty trim_lower Let_def split: option.splits)
  next
    case (Some v)
    then have "v = ''exec'' \<or> v = ''apply_patch''" by (auto simp: TOOL_NAME_ALIASES_def split: if_splits)
    moreover have "normalizeToolName (Text ''exec'') = Text ''exec''" "normalizeToolName (Text ''apply_patch'') = Text ''apply_patch''"
      by code_simp+
    moreover have "v = k" using Some assms Text by (simp add: normalizeToolName_def lower_or_empty)
    ultimately show ?thesis by auto
  qed
qed

lemma normal_name_normalize: "normalizeToolName e = Text k \<Longrightarrow> normal_name k"
  by (simp add: normal_name_def normal_text)

lemma inherited_form: "normalizeToolName e = Inherited f \<Longrightarrow> f \<in> snd ` set OBJECT_MEMBERS"
  by (force simp: normalizeToolName_def Let_def dest: map_of_SomeD split: option.splits)

lemma normal_no_member: "map_of OBJECT_MEMBERS (text_form (normalizeToolName e)) = None"
proof (cases "normalizeToolName e")
  case (Text k)
  then have "normalizeToolName (Text k) = Text k" by (rule normal_text)
  moreover have "normalizeToolName (Text ''constructor'') \<noteq> Text ''constructor''" "normalizeToolName (Text ''__proto__'') \<noteq> Text ''__proto__''"
    by code_simp+
  ultimately have "k \<noteq> ''constructor''" "k \<noteq> ''__proto__''" by metis+
  then show ?thesis using Text by (simp add: OBJECT_MEMBERS_def)
next
  case (Inherited f)
  then have "f = ''function Object() { [native code] }'' \<or> f = ''[object Object]''"
    using inherited_form [of e f] by (simp add: OBJECT_MEMBERS_def)
  then show ?thesis unfolding Inherited by (elim disjE) (simp_all add: OBJECT_MEMBERS_def)
qed

subsection \<open>Groups of the catalogue\<close>

lemma catalogue_names:
  "list_all (\<lambda>t. ct_id t \<noteq> [] \<and> CHR ''*'' \<notin> set (ct_id t)) CORE_TOOL_DEFINITIONS"
  "list_all (\<lambda>t. \<not> starts_with ''group:'' (ct_id t)) CORE_TOOL_DEFINITIONS"
  "list_all (\<lambda>t. normalizeToolName (Text (ct_id t)) = Text (ct_id t)) CORE_TOOL_DEFINITIONS"
  by code_simp+

definition group_ok :: "string \<times> string list \<Rightarrow> bool" where
  "group_ok = (\<lambda>(k, ns). starts_with ''group:'' k \<and> ns \<noteq> [] \<and> set ns \<subseteq> ct_id ` set CORE_TOOL_DEFINITIONS)"

lemma add_tool_ok:
  assumes "\<forall>e \<in> set m. group_ok e" "starts_with ''group:'' g" "i \<in> ct_id ` set CORE_TOOL_DEFINITIONS"
  shows "\<forall>e \<in> set (addTool g i m). group_ok e"
proof -
  have "group_ok (g, coalesce (map_of m g) [] @ [i])"
    using assms by (cases "map_of m g") (auto simp: group_ok_def dest!: map_of_SomeD)
  then show ?thesis using assms(1) set_update_subset [of g "coalesce (map_of m g) [] @ [i]" m] unfolding addTool_def by blast
qed

lemma group_map_sound: "\<forall>e \<in> set buildCoreToolGroupMap. group_ok e"
proof -
  have run: "\<forall>e \<in> set m. group_ok e \<Longrightarrow> set ts \<subseteq> set CORE_TOOL_DEFINITIONS \<Longrightarrow>
      \<forall>e \<in> set (fold (\<lambda>t. addTool (''group:'' @ ct_section t) (ct_id t)) ts m). group_ok e" for ts m
  proof (induction ts arbitrary: m)
    case (Cons t ts)
    have "\<forall>e \<in> set (addTool (''group:'' @ ct_section t) (ct_id t) m). group_ok e"
      by (rule add_tool_ok) (use Cons.prems in \<open>auto simp: starts_with_def\<close>)
    then show ?case using Cons.IH Cons.prems(2) by simp
  qed simp
  have "filter ct_grouped CORE_TOOL_DEFINITIONS \<noteq> []" by (simp add: CORE_TOOL_DEFINITIONS_def core_tool_def)
  then show ?thesis unfolding buildCoreToolGroupMap_def by (intro run) (auto simp: group_ok_def starts_with_def)
qed

lemma group_key: "map_of buildCoreToolGroupMap k = Some ns \<Longrightarrow> starts_with ''group:'' k"
  using group_map_sound by (auto simp: group_ok_def dest!: map_of_SomeD)

lemma group_members: "map_of buildCoreToolGroupMap k = Some ns \<Longrightarrow> set ns \<subseteq> ct_id ` set CORE_TOOL_DEFINITIONS"
  using group_map_sound by (auto simp: group_ok_def dest!: map_of_SomeD)

lemma inherited_no_group:
  assumes "normalizeToolName e = Inherited f"
  shows "map_of buildCoreToolGroupMap f = None"
proof -
  have "f = ''function Object() { [native code] }'' \<or> f = ''[object Object]''"
    using inherited_form [OF assms] by (simp add: OBJECT_MEMBERS_def)
  then have "\<not> starts_with ''group:'' f" by (elim disjE) (simp_all add: starts_with_def)
  then show ?thesis using group_key [of f] by (cases "map_of buildCoreToolGroupMap f") auto
qed

lemma expandGroup_code [code]:
  "expandGroup v = (if starts_with ''group:'' (text_form v)
     then case map_of buildCoreToolGroupMap (text_form v) of Some g \<Rightarrow> map Text g | None \<Rightarrow> [v] else [v])"
  by (auto simp: expandGroup_def dest: group_key split: option.split)

text \<open>Normalizing a name that \<open>expandToolGroups\<close> gave gives a text.\<close>

lemma expanded_normal:
  assumes "x \<in> set (expandToolGroups list)"
  shows "normalizeToolName x = Text (normalizePattern x)"
proof -
  from assms obtain e where "x \<in> set (expandGroup (normalizeToolName e))"
    by (auto simp: expandToolGroups_def normalizeToolList_def)
  then consider "x = normalizeToolName e" | m where "x = Text m" "m \<in> ct_id ` set CORE_TOOL_DEFINITIONS"
    using group_members [of "text_form (normalizeToolName e)"]
    by (cases "map_of buildCoreToolGroupMap (text_form (normalizeToolName e))") (auto simp: expandGroup_def)
  then show ?thesis
  proof cases
    case 1
    then show ?thesis by (cases "normalizeToolName e") (simp_all add: normalizePattern_def normal_text)
  next
    case 2
    then show ?thesis using catalogue_names(3) by (auto simp: normalizePattern_def list_all_iff)
  qed
qed

end
