(* ===== verification/ToolPipeline.thy ===== *)
theory ToolPipeline
  imports AgentTools
begin

text \<open>
  Which tools an agent is given: \<^verbatim>\<open>packages/core/src/agents/tool-policy-match.ts\<close>, \<^verbatim>\<open>tool-policy.ts\<close> and
  \<^verbatim>\<open>tool-policy-pipeline.ts\<close>. A policy allows and denies names, groups, plugins and patterns; the pipeline filters the tools by one
  policy after the other, and tools for the owner are withheld from other senders. Warnings go to a list; each is given once as
  long as the cache of 256 remembers it.
\<close>

subsection \<open>One policy\<close>

definition makeToolPolicyMatcher :: "tool_policy \<Rightarrow> string \<Rightarrow> bool" where
  "makeToolPolicyMatcher policy name =
     (let denied = compileGlobPatterns normalizePattern (Some (expandToolGroups (tp_deny policy)));
          allows = compileGlobPatterns normalizePattern (Some (expandToolGroups (tp_allow policy)));
          normalized = normalizeToolName (Text name)
      in if matchesAnyGlobPattern normalized denied then False
         else if normalized = Text ''apply_patch'' \<and> matchesAnyGlobPattern (Text ''write'') denied then False
         else if allows = [] then True
         else if matchesAnyGlobPattern normalized allows then True
         else normalized = Text ''apply_patch'' \<and> matchesAnyGlobPattern (Text ''write'') allows)"

definition isToolAllowedByPolicyName :: "string \<Rightarrow> tool_policy option \<Rightarrow> bool" where
  "isToolAllowedByPolicyName name policy = (case policy of None \<Rightarrow> True | Some p \<Rightarrow> makeToolPolicyMatcher p name)"

definition isToolAllowedByPolicies :: "string \<Rightarrow> tool_policy option list \<Rightarrow> bool" where
  "isToolAllowedByPolicies name policies = list_all (isToolAllowedByPolicyName name) policies"

subsection \<open>Tools for the owner\<close>

text \<open>A tool; executing it gives an error or a result. A tool made for display has nothing to execute.\<close>

record agent_tool =
  tool_name :: string
  ownerOnly :: "bool option"
  tool_execute :: "(jsval \<Rightarrow> string + jsval) option"

datatype owner_approval = ControlPlane | ExecCapable | Interactive

definition wrapOwnerOnlyToolExecution :: "agent_tool \<Rightarrow> bool \<Rightarrow> agent_tool" where
  "wrapOwnerOnlyToolExecution tool authorized =
     (if ownerOnly tool \<noteq> Some True \<or> authorized \<or> tool_execute tool = None then tool
      else tool\<lparr>tool_execute := Some (\<lambda>_. Inl ''Tool restricted to owner senders.'')\<rparr>)"

definition OWNER_ONLY_TOOL_APPROVAL_CLASS_FALLBACKS :: "(string \<times> owner_approval) list" where
  "OWNER_ONLY_TOOL_APPROVAL_CLASS_FALLBACKS = [(''cron'', ControlPlane), (''gateway'', ControlPlane), (''nodes'', ExecCapable)]"

definition resolveOwnerOnlyToolApprovalClass :: "string \<Rightarrow> owner_approval option" where
  "resolveOwnerOnlyToolApprovalClass name = name_get OWNER_ONLY_TOOL_APPROVAL_CLASS_FALLBACKS (normalizeToolName (Text name))"

definition isOwnerOnlyToolName :: "string \<Rightarrow> bool" where
  "isOwnerOnlyToolName name = (resolveOwnerOnlyToolApprovalClass name \<noteq> None)"

definition isOwnerOnlyTool :: "agent_tool \<Rightarrow> bool" where
  "isOwnerOnlyTool tool = (ownerOnly tool = Some True \<or> isOwnerOnlyToolName (tool_name tool))"

definition applyOwnerOnlyToolPolicy :: "agent_tool list \<Rightarrow> bool \<Rightarrow> string list option \<Rightarrow> agent_tool list" where
  "applyOwnerOnlyToolPolicy tools senderIsOwner ownerOnlyToolAllowlist =
     (let allowedOwnerOnlyTools = set (map (\<lambda>name. normalizeToolName (Text name)) (coalesce ownerOnlyToolAllowlist []));
          isAuthorized = (\<lambda>tool. senderIsOwner \<or> normalizeToolName (Text (tool_name tool)) \<in> allowedOwnerOnlyTools);
          withGuard = map (\<lambda>tool. if \<not> isOwnerOnlyTool tool then tool else wrapOwnerOnlyToolExecution tool (isAuthorized tool)) tools
      in if senderIsOwner then withGuard else filter (\<lambda>tool. \<not> isOwnerOnlyTool tool \<or> isAuthorized tool) withGuard)"

subsection \<open>Policies with plugins\<close>

fun explicitEntry :: "js_name \<Rightarrow> string list" where
  "explicitEntry (Text value) = (let trimmed = js_trim value in if trimmed \<noteq> [] then [trimmed] else [])"
| "explicitEntry (Inherited _) = []"

definition collectExplicit :: "(tool_policy \<Rightarrow> js_name list option) \<Rightarrow> tool_policy option list \<Rightarrow> string list" where
  "collectExplicit part policies =
     concat (map (\<lambda>p. concat (map explicitEntry (coalesce (Option.bind p part) []))) policies)"

definition collectExplicitAllowlist :: "tool_policy option list \<Rightarrow> string list" where
  "collectExplicitAllowlist = collectExplicit tp_allow"

definition collectExplicitDenylist :: "tool_policy option list \<Rightarrow> string list" where
  "collectExplicitDenylist = collectExplicit tp_deny"

record plugin_tool_groups =
  group_all :: "js_name list"
  group_by_plugin :: "(string, js_name list) js_map"

type_synonym tool_meta = "agent_tool \<Rightarrow> string option"

definition addPluginTool :: "tool_meta \<Rightarrow> agent_tool \<Rightarrow> plugin_tool_groups \<Rightarrow> plugin_tool_groups" where
  "addPluginTool toolMeta tool g =
     (case toolMeta tool of
        None \<Rightarrow> g
      | Some pluginIdIn \<Rightarrow>
          (let name = normalizeToolName (Text (tool_name tool)); g1 = g\<lparr>group_all := group_all g @ [name]\<rparr>
           in case normalizeOptionalLowercaseString (Some pluginIdIn) of
                None \<Rightarrow> g1
              | Some pluginId \<Rightarrow>
                  g1\<lparr>group_by_plugin := AList.update pluginId (coalesce (map_of (group_by_plugin g1) pluginId) [] @ [name]) (group_by_plugin g1)\<rparr>))"

definition buildPluginToolGroups :: "agent_tool list \<Rightarrow> tool_meta \<Rightarrow> plugin_tool_groups" where
  "buildPluginToolGroups tools toolMeta = fold (addPluginTool toolMeta) tools \<lparr>group_all = [], group_by_plugin = []\<rparr>"

definition expandPluginEntry :: "plugin_tool_groups \<Rightarrow> js_name \<Rightarrow> js_name list" where
  "expandPluginEntry groups entry =
     (let normalized = normalizeToolName entry
      in if normalized = Text ''group:plugins'' then (if group_all groups \<noteq> [] then group_all groups else [normalized])
         else (case name_get (group_by_plugin groups) normalized of
                 Some tools \<Rightarrow> if tools \<noteq> [] then tools else [normalized]
               | None \<Rightarrow> [normalized]))"

definition expandPluginGroups :: "js_name list option \<Rightarrow> plugin_tool_groups \<Rightarrow> js_name list option" where
  "expandPluginGroups list groups =
     (if coalesce list [] = [] then list else Some (js_unique (concat (map (expandPluginEntry groups) (coalesce list [])))))"

definition expandPolicyWithPluginGroups :: "tool_policy \<Rightarrow> plugin_tool_groups \<Rightarrow> tool_policy" where
  "expandPolicyWithPluginGroups policy groups =
     \<lparr>tp_allow = expandPluginGroups (tp_allow policy) groups, tp_deny = expandPluginGroups (tp_deny policy) groups\<rparr>"

record allowlist_resolution =
  ar_policy :: tool_policy
  unknownAllowlist :: "js_name list"
  pluginOnlyAllowlist :: bool

definition isPluginEntry :: "plugin_tool_groups \<Rightarrow> js_name \<Rightarrow> bool" where
  "isPluginEntry groups entry =
     (entry = Text ''group:plugins'' \<or> entry \<in> set (map (\<lambda>(pluginId, _). Text pluginId) (group_by_plugin groups)) \<or> entry \<in> set (group_all groups))"

definition isCoreEntry :: "js_name set \<Rightarrow> js_name \<Rightarrow> bool" where
  "isCoreEntry coreTools entry = list_ex (\<lambda>tool. tool \<in> coreTools) (expandToolGroups (Some [entry]))"

definition analyzeAllowlistByToolType :: "tool_policy \<Rightarrow> plugin_tool_groups \<Rightarrow> js_name set \<Rightarrow> allowlist_resolution" where
  "analyzeAllowlistByToolType policy groups coreTools =
     (let normalized = normalizeToolList (tp_allow policy)
      in if coalesce (tp_allow policy) [] = [] \<or> normalized = []
         then \<lparr>ar_policy = policy, unknownAllowlist = [], pluginOnlyAllowlist = False\<rparr>
         else \<lparr>ar_policy = policy,
               unknownAllowlist = js_unique (filter (\<lambda>e. e \<noteq> Text ''*'' \<and> \<not> isCoreEntry coreTools e \<and> \<not> isPluginEntry groups e) normalized),
               pluginOnlyAllowlist = list_all (\<lambda>e. e \<noteq> Text ''*'' \<and> isPluginEntry groups e) normalized\<rparr>)"

definition mergeAlsoAllowPolicy :: "tool_policy option \<Rightarrow> string list option \<Rightarrow> tool_policy option" where
  "mergeAlsoAllowPolicy policy alsoAllow =
     (case policy of
        None \<Rightarrow> None
      | Some p \<Rightarrow> (case tp_allow p of
                     None \<Rightarrow> Some p
                   | Some a \<Rightarrow> if coalesce alsoAllow [] = [] then Some p else Some (p\<lparr>tp_allow := Some (js_unique (a @ map Text (coalesce alsoAllow [])))\<rparr>)))"

subsection \<open>Warnings\<close>

record warning_cache =
  seenToolPolicyWarnings :: "string set"
  toolPolicyWarningOrder :: "string list"

definition MAX_TOOL_POLICY_WARNING_CACHE :: nat where
  "MAX_TOOL_POLICY_WARNING_CACHE = 256"

definition rememberToolPolicyWarning :: "string \<Rightarrow> warning_cache \<Rightarrow> bool \<times> warning_cache" where
  "rememberToolPolicyWarning warning cache =
     (if warning \<in> seenToolPolicyWarnings cache then (False, cache)
      else (let cache1 =
                  (if MAX_TOOL_POLICY_WARNING_CACHE \<le> card (seenToolPolicyWarnings cache)
                   then (case toolPolicyWarningOrder cache of
                           [] \<Rightarrow> cache
                         | oldest # rest \<Rightarrow>
                             \<lparr>seenToolPolicyWarnings = (if oldest \<noteq> [] then seenToolPolicyWarnings cache - {oldest} else seenToolPolicyWarnings cache),
                              toolPolicyWarningOrder = rest\<rparr>)
                   else cache)
            in (True, \<lparr>seenToolPolicyWarnings = insert warning (seenToolPolicyWarnings cache1),
                       toolPolicyWarningOrder = toolPolicyWarningOrder cache1 @ [warning]\<rparr>)))"

definition describeUnknownAllowlistSuffix :: "bool \<Rightarrow> bool \<Rightarrow> bool \<Rightarrow> string" where
  "describeUnknownAllowlistSuffix pluginOnly hasGatedCoreEntries hasOtherEntries =
     (let preface = (if pluginOnly then ''Allowlist contains only plugin entries; core tools will not be available.'' else []);
          detail =
            (if hasGatedCoreEntries \<and> hasOtherEntries
             then ''Some entries are shipped core tools but unavailable in the current runtime/provider/model/config; other entries won'' @
                  [CHR 0x27] @ ''t match any tool unless the plugin is enabled.''
             else if hasGatedCoreEntries
             then ''These entries are shipped core tools but unavailable in the current runtime/provider/model/config.''
             else ''These entries won'' @ [CHR 0x27] @ ''t match any tool unless the plugin is enabled.'')
      in if preface \<noteq> [] then preface @ '' '' @ detail else detail)"

subsection \<open>The pipeline\<close>

record pipeline_step =
  ps_policy :: "tool_policy option"
  ps_label :: string
  ps_strip :: bool
  ps_suppress :: bool
  ps_unavailable :: "string list option"

definition filterToolsByPolicy :: "agent_tool list \<Rightarrow> tool_policy option \<Rightarrow> agent_tool list" where
  "filterToolsByPolicy tools policy = filter (\<lambda>tool. isToolAllowedByPolicyName (tool_name tool) policy) tools"

definition stepWarning :: "pipeline_step \<Rightarrow> allowlist_resolution \<Rightarrow> string option" where
  "stepWarning step resolved =
     (let unavailableCoreWarningAllowlist = set (map (\<lambda>e. normalizeToolName (Text e)) (coalesce (ps_unavailable step) []));
          gatedCoreEntries = filter isKnownCoreToolId (unknownAllowlist resolved);
          warnableGatedCoreEntries = (if ps_suppress step then [] else filter (\<lambda>e. e \<notin> unavailableCoreWarningAllowlist) gatedCoreEntries);
          otherEntries = filter (\<lambda>e. \<not> isKnownCoreToolId e \<and> e \<notin> unavailableCoreWarningAllowlist) (unknownAllowlist resolved)
      in if unknownAllowlist resolved \<noteq> [] \<and> (warnableGatedCoreEntries \<noteq> [] \<or> otherEntries \<noteq> [])
         then Some (''tools: '' @ ps_label step @ '' allowlist contains unknown entries ('' @
                js_join '', '' (map text_form (warnableGatedCoreEntries @ otherEntries)) @ ''). '' @
                describeUnknownAllowlistSuffix (pluginOnlyAllowlist resolved) (warnableGatedCoreEntries \<noteq> []) (otherEntries \<noteq> []))
         else None)"

definition warnOnce :: "string option \<Rightarrow> warning_cache \<times> string list \<Rightarrow> warning_cache \<times> string list" where
  "warnOnce w cw =
     (case w of
        None \<Rightarrow> cw
      | Some warning \<Rightarrow> (let (fresh, cache) = rememberToolPolicyWarning warning (fst cw) in (cache, if fresh then snd cw @ [warning] else snd cw)))"

definition pipelineStep :: "plugin_tool_groups \<Rightarrow> js_name set \<Rightarrow> pipeline_step \<Rightarrow> agent_tool list \<times> warning_cache \<times> string list
    \<Rightarrow> agent_tool list \<times> warning_cache \<times> string list" where
  "pipelineStep pluginGroups coreToolNames step st =
     (case ps_policy step of
        None \<Rightarrow> st
      | Some policy \<Rightarrow>
          (let resolved = analyzeAllowlistByToolType policy pluginGroups coreToolNames;
               policy' = (if ps_strip step then ar_policy resolved else policy);
               cw = (if ps_strip step then warnOnce (stepWarning step resolved) (snd st) else snd st)
           in (filterToolsByPolicy (fst st) (Some (expandPolicyWithPluginGroups policy' pluginGroups)), cw)))"

definition applyToolPolicyPipeline :: "agent_tool list \<Rightarrow> tool_meta \<Rightarrow> pipeline_step list \<Rightarrow> warning_cache
    \<Rightarrow> agent_tool list \<times> warning_cache \<times> string list" where
  "applyToolPolicyPipeline tools toolMeta steps cache =
     (let coreToolNames = set (filter (\<lambda>n. n \<noteq> Text []) (map (\<lambda>t. normalizeToolName (Text (tool_name t))) (filter (\<lambda>t. toolMeta t = None) tools)));
          pluginGroups = buildPluginToolGroups tools toolMeta
      in fold (pipelineStep pluginGroups coreToolNames) steps (tools, cache, []))"

definition stepLabel :: "string \<Rightarrow> string option \<Rightarrow> string \<Rightarrow> string \<Rightarrow> string" where
  "stepLabel before v after plain =
     (if truthy_string (map_option js_trim v) then before @ js_trim (coalesce v []) @ after else plain)"

record pipeline_params =
  profilePolicy :: "tool_policy option"
  pp_profile :: "string option"
  profileUnavailable :: "string list option"
  providerProfilePolicy :: "tool_policy option"
  pp_providerProfile :: "string option"
  providerProfileUnavailable :: "string list option"
  globalPolicy :: "tool_policy option"
  globalProviderPolicy :: "tool_policy option"
  agentPolicy :: "tool_policy option"
  agentProviderPolicy :: "tool_policy option"
  pp_groupPolicy :: "tool_policy option"
  pp_agentId :: "string option"

definition plainStep :: "tool_policy option \<Rightarrow> string \<Rightarrow> pipeline_step" where
  "plainStep policy label =
     \<lparr>ps_policy = policy, ps_label = label, ps_strip = True, ps_suppress = False, ps_unavailable = None\<rparr>"

definition buildDefaultToolPolicyPipelineSteps :: "pipeline_params \<Rightarrow> pipeline_step list" where
  "buildDefaultToolPolicyPipelineSteps p =
     [(plainStep (profilePolicy p) (stepLabel ''tools.profile ('' (pp_profile p) '')'' ''tools.profile''))
        \<lparr>ps_unavailable := profileUnavailable p\<rparr>,
      (plainStep (providerProfilePolicy p) (stepLabel ''tools.byProvider.profile ('' (pp_providerProfile p) '')'' ''tools.byProvider.profile''))
        \<lparr>ps_unavailable := providerProfileUnavailable p\<rparr>,
      plainStep (globalPolicy p) ''tools.allow'',
      plainStep (globalProviderPolicy p) ''tools.byProvider.allow'',
      plainStep (agentPolicy p) (stepLabel ''agents.'' (pp_agentId p) ''.tools.allow'' ''agent tools.allow''),
      plainStep (agentProviderPolicy p) (stepLabel ''agents.'' (pp_agentId p) ''.tools.byProvider.allow'' ''agent tools.byProvider.allow''),
      plainStep (pp_groupPolicy p) ''group tools.allow'']"

subsection \<open>What an entry of a list names\<close>

definition isToolGroup :: "string \<Rightarrow> bool" where
  "isToolGroup n = (map_of buildCoreToolGroupMap n \<noteq> None)"

text \<open>Names without a star that are no group and not empty.\<close>

definition plain_name :: "string \<Rightarrow> bool" where
  "plain_name n = (n \<noteq> [] \<and> CHR ''*'' \<notin> set n \<and> \<not> isToolGroup n \<and> normalizeToolName (Text n) = Text n)"

definition plain_tool :: "js_name \<Rightarrow> bool" where
  "plain_tool x = (case x of Text n \<Rightarrow> plain_name n | Inherited _ \<Rightarrow> False)"

definition plain_groups :: "plugin_tool_groups \<Rightarrow> bool" where
  "plain_groups g = (list_all plain_tool (group_all g) \<and> list_all (\<lambda>(k, ns). k \<noteq> [] \<and> list_all plain_tool ns) (group_by_plugin g))"

text \<open>An entry stands for the plugin tools, the tools of a plugin, the tools of a group, or the names it matches as a pattern,
  whichever comes first. A blank entry stands for nothing, and neither does one that hits an inherited member.\<close>

definition names_nothing :: "js_name \<Rightarrow> bool" where
  "names_nothing entry = (case normalizeToolName entry of Text k \<Rightarrow> k = [] | Inherited _ \<Rightarrow> True)"

definition entry_names :: "plugin_tool_groups \<Rightarrow> js_name \<Rightarrow> string \<Rightarrow> bool" where
  "entry_names g entry n =
     (\<not> names_nothing entry \<and>
      (let k = text_form (normalizeToolName entry); pluginTools = coalesce (map_of (group_by_plugin g) k) []
       in if k = ''group:plugins'' \<and> group_all g \<noteq> [] then Text n \<in> set (group_all g)
          else if k \<noteq> ''group:plugins'' \<and> pluginTools \<noteq> [] then Text n \<in> set pluginTools
          else (case map_of buildCoreToolGroupMap k of
                  Some members \<Rightarrow> n \<in> set members
                | None \<Rightarrow> k = ''*'' \<or> star_test k n)))"

definition policy_gives :: "plugin_tool_groups \<Rightarrow> tool_policy \<Rightarrow> string \<Rightarrow> bool" where
  "policy_gives g p n =
     (let named = (\<lambda>xs m. \<exists>e \<in> set (coalesce xs []). entry_names g e m)
      in \<not> named (tp_deny p) n \<and> (n = ''apply_patch'' \<longrightarrow> \<not> named (tp_deny p) ''write'') \<and>
         (list_all names_nothing (coalesce (tp_allow p) []) \<or>
          named (tp_allow p) n \<or> n = ''apply_patch'' \<and> named (tp_allow p) ''write''))"

lemma catalogue_plain:
  assumes "n \<in> ct_id ` set CORE_TOOL_DEFINITIONS"
  shows "plain_name n"
proof -
  have "\<not> isToolGroup (ct_id t)" if "t \<in> set CORE_TOOL_DEFINITIONS" for t
    using catalogue_names(2) that group_key [of "ct_id t"] by (cases "map_of buildCoreToolGroupMap (ct_id t)") (auto simp: isToolGroup_def list_all_iff)
  then show ?thesis using assms catalogue_names(1, 3) by (auto simp: plain_name_def list_all_iff)
qed

lemma group_members_plain:
  assumes "map_of buildCoreToolGroupMap k = Some ns"
  shows "list_all plain_name ns \<and> ns \<noteq> []"
  using group_map_sound [THEN bspec, OF map_of_SomeD [OF assms]]
  by (auto simp: group_ok_def list_all_iff intro!: catalogue_plain)

text \<open>What the pattern of a normalized value matches.\<close>

abbreviation compiled_name :: "js_name \<Rightarrow> glob" where
  "compiled_name \<equiv> compileGlobPattern normalizePattern"

lemma match_plain: "plain_name m \<Longrightarrow> matchesGlob (Text n) (compiled_name (Text m)) = (m = n)"
  by (auto simp: plain_name_def compileGlobPattern_def normalizePattern_def)

lemma match_name:
  assumes "normalizeToolName (Text k) = Text k" "k \<noteq> []"
  shows "matchesGlob (Text n) (compiled_name (Text k)) = (k = ''*'' \<or> star_test k n)"
  using assms star_free [of k n] by (auto simp: compileGlobPattern_def normalizePattern_def Let_def)

lemma compiled_empty: "(compiled_name x = GlobExact []) = (normalizePattern x = [])"
  by (simp add: compileGlobPattern_def Let_def)

lemma matches_compiled:
  "matchesAnyGlobPattern v (compileGlobPatterns normalizePattern (Some xs)) =
   (\<exists>x \<in> set xs. normalizePattern x \<noteq> [] \<and> matchesGlob v (compiled_name x))"
  by (auto simp: matchesAnyGlobPattern_def compileGlobPatterns_def list_ex_iff compiled_empty)

text \<open>The names a list entry leads to, before they are compiled, and whether one of them matches.\<close>

definition entry_leads :: "plugin_tool_groups \<Rightarrow> js_name \<Rightarrow> js_name list" where
  "entry_leads g e = concat (map expandGroup (normalizeToolList (Some (expandPluginEntry g e))))"

definition leads_match :: "string \<Rightarrow> js_name list \<Rightarrow> bool" where
  "leads_match n xs = (\<exists>x \<in> set xs. normalizePattern x \<noteq> [] \<and> matchesGlob (Text n) (compiled_name x))"

lemma expanded_set:
  "set (expandToolGroups (expandPluginGroups xs g)) = (\<Union>e \<in> set (coalesce xs []). set (entry_leads g e))"
  by (cases xs) (auto simp: expandToolGroups_def expandPluginGroups_def entry_leads_def normalizeToolList_def)

lemma plain_tool_text: "plain_tool x \<Longrightarrow> \<exists>m. x = Text m \<and> plain_name m"
  by (cases x) (simp_all add: plain_tool_def)

lemma plain_leads: "list_all plain_tool ns \<Longrightarrow> concat (map expandGroup (normalizeToolList (Some ns))) = ns"
  by (induction ns) (auto simp: normalizeToolList_def expandGroup_def plain_name_def isToolGroup_def dest!: plain_tool_text)

lemma plain_match: "list_all plain_tool ns \<Longrightarrow> leads_match n ns = (Text n \<in> set ns)"
proof (induction ns)
  case (Cons x ns)
  then obtain m where m: "x = Text m" "plain_name m" using plain_tool_text by auto
  then have "normalizePattern x \<noteq> []" by (simp add: plain_name_def normalizePattern_def)
  moreover have "leads_match n ns = (Text n \<in> set ns)" using Cons by simp
  ultimately show ?case using match_plain [OF m(2), of n] m(1) by (auto simp: leads_match_def)
qed (simp add: leads_match_def)

lemma plain_not_blank: "list_all plain_tool ns \<Longrightarrow> ns \<noteq> [] \<Longrightarrow> \<exists>x \<in> set ns. normalizePattern x \<noteq> []"
  by (cases ns) (auto simp: plain_name_def normalizePattern_def dest!: plain_tool_text)

lemma plain_member: "plain_groups g \<Longrightarrow> map_of (group_by_plugin g) k = Some ns \<Longrightarrow> list_all plain_tool ns"
  by (auto simp: plain_groups_def list_all_iff dest!: map_of_SomeD)

lemma texts_plain: "list_all plain_name ns \<Longrightarrow> list_all plain_tool (map Text ns)"
  by (simp add: list_all_iff plain_tool_def)

text \<open>An entry that names nothing leads to nothing that matches.\<close>

lemma nothing_leads:
  assumes "plain_groups g" "names_nothing e" "x \<in> set (entry_leads g e)"
  shows "normalizePattern x = []"
proof (cases "normalizeToolName e")
  case (Text k)
  then have "k = []" using assms(2) by (simp add: names_nothing_def)
  moreover have "map_of (group_by_plugin g) [] = None" using assms(1) by (auto simp: plain_groups_def list_all_iff map_of_eq_None_iff)
  ultimately have "expandPluginEntry g e = [Text []]" using Text by (simp add: expandPluginEntry_def)
  moreover have "normalizeToolName (Text []) = Text []" using normal_text [OF Text] \<open>k = []\<close> by simp
  ultimately show ?thesis using assms(3) by (simp add: entry_leads_def normalizeToolList_def)
next
  case (Inherited f)
  then have "expandPluginEntry g e = [Inherited f]" by (simp add: expandPluginEntry_def)
  then show ?thesis using assms(3) by (simp add: entry_leads_def normalizeToolList_def)
qed

text \<open>An entry that is a text leads to the plugin tools it stands for, or to its group or itself.\<close>

lemma leads_alone:
  assumes "normalizeToolName (Text k) = Text k" "k \<noteq> []"
  shows "leads_match n (expandGroup (Text k)) =
      (case map_of buildCoreToolGroupMap k of Some members \<Rightarrow> n \<in> set members | None \<Rightarrow> k = ''*'' \<or> star_test k n)"
    "\<exists>x \<in> set (expandGroup (Text k)). normalizePattern x \<noteq> []"
proof (cases "map_of buildCoreToolGroupMap k", goal_cases)
  case 1
  then show ?case using match_name [OF assms, of n] assms by (simp add: expandGroup_def leads_match_def normalizePattern_def)
next
  case (2 ms)
  then show ?case using plain_match [OF texts_plain, of ms n] group_members_plain [OF 2] by (auto simp: expandGroup_def)
next
  case 3
  show ?case
  proof (cases "map_of buildCoreToolGroupMap k")
    case None
    then show ?thesis using assms by (simp add: expandGroup_def normalizePattern_def)
  next
    case (Some ms)
    then show ?thesis using plain_not_blank [OF texts_plain, of ms] group_members_plain [OF Some] by (simp add: expandGroup_def)
  qed
qed

lemma entry_cases:
  assumes g: "plain_groups g" and k: "normalizeToolName e = Text k" "k \<noteq> []"
  shows "leads_match n (entry_leads g e) = entry_names g e n \<and> (\<exists>x \<in> set (entry_leads g e). normalizePattern x \<noteq> [])"
proof -
  have kk: "normalizeToolName (Text k) = Text k" using k(1) by (rule normal_text)
  have something: "\<not> names_nothing e" using k by (simp add: names_nothing_def)
  consider (all) "k = ''group:plugins''" "group_all g \<noteq> []" "expandPluginEntry g e = group_all g"
    | (one) ns where "k \<noteq> ''group:plugins''" "map_of (group_by_plugin g) k = Some ns" "ns \<noteq> []" "expandPluginEntry g e = ns"
    | (other) "expandPluginEntry g e = [Text k]" "\<not> (k = ''group:plugins'' \<and> group_all g \<noteq> [])"
        "\<not> (k \<noteq> ''group:plugins'' \<and> coalesce (map_of (group_by_plugin g) k) [] \<noteq> [])"
  proof (cases "k = ''group:plugins''")
    case True
    then show ?thesis using that(1, 3) k by (cases "group_all g = []") (simp_all add: expandPluginEntry_def)
  next
    case False
    then show ?thesis using that(2, 3) k
      by (cases "map_of (group_by_plugin g) k"; cases "coalesce (map_of (group_by_plugin g) k) [] = []") (simp_all add: expandPluginEntry_def)
  qed
  then show ?thesis
  proof cases
    case all
    have ns: "list_all plain_tool (group_all g)" using g by (simp add: plain_groups_def)
    then have "entry_leads g e = group_all g" using plain_leads all(3) by (simp add: entry_leads_def)
    then show ?thesis using all plain_match [OF ns] plain_not_blank [OF ns] something k by (simp add: entry_names_def)
  next
    case one
    note ns = plain_member [OF g one(2)]
    then have "entry_leads g e = ns" using plain_leads one(4) by (simp add: entry_leads_def)
    then show ?thesis using one plain_match [OF ns] plain_not_blank [OF ns] something k by (simp add: entry_names_def)
  next
    case other
    then have "entry_leads g e = expandGroup (Text k)" using kk k(2) by (simp add: entry_leads_def normalizeToolList_def)
    moreover have "entry_names g e n = (case map_of buildCoreToolGroupMap k of Some members \<Rightarrow> n \<in> set members | None \<Rightarrow> k = ''*'' \<or> star_test k n)"
      unfolding entry_names_def Let_def k(1) text_form.simps using other(2, 3) something by (simp only: if_False simp_thms)
    ultimately show ?thesis using leads_alone [OF kk k(2)] by simp
  qed
qed

lemma nothing_or_text: "\<not> names_nothing e \<Longrightarrow> \<exists>k. normalizeToolName e = Text k \<and> k \<noteq> []"
  by (cases "normalizeToolName e") (simp_all add: names_nothing_def)

lemma entry_match:
  assumes "plain_groups g"
  shows "leads_match n (entry_leads g e) = entry_names g e n"
proof (cases "names_nothing e")
  case True
  then show ?thesis using nothing_leads [OF assms True] by (auto simp: leads_match_def entry_names_def)
next
  case False
  then show ?thesis using nothing_or_text entry_cases [OF assms] by blast
qed

lemma named_iff:
  assumes "plain_groups g"
  shows "matchesAnyGlobPattern (Text n) (compileGlobPatterns normalizePattern (Some (expandToolGroups (expandPluginGroups xs g)))) =
    (\<exists>e \<in> set (coalesce xs []). entry_names g e n)"
  unfolding matches_compiled expanded_set by (simp add: entry_match [OF assms, symmetric] leads_match_def)

lemma compiled_none:
  assumes "plain_groups g"
  shows "(compileGlobPatterns normalizePattern (Some (expandToolGroups (expandPluginGroups xs g))) = []) =
    list_all names_nothing (coalesce xs [])"
proof -
  have "(compileGlobPatterns normalizePattern (Some (expandToolGroups (expandPluginGroups xs g))) = []) =
      (\<forall>x \<in> set (expandToolGroups (expandPluginGroups xs g)). normalizePattern x = [])"
    by (auto simp: compileGlobPatterns_def filter_empty_conv compiled_empty)
  also have "\<dots> = (\<forall>e \<in> set (coalesce xs []). \<forall>x \<in> set (entry_leads g e). normalizePattern x = [])"
    unfolding expanded_set by simp
  also have "\<dots> = list_all names_nothing (coalesce xs [])"
  proof -
    have "(\<forall>x \<in> set (entry_leads g e). normalizePattern x = []) = names_nothing e" for e
      using nothing_leads [OF assms] nothing_or_text entry_cases [OF assms] by blast
    then show ?thesis by (simp add: list_all_iff)
  qed
  finally show ?thesis .
qed

lemma matcher_gives:
  assumes "plain_groups g" "normalizeToolName (Text name) = Text n"
  shows "makeToolPolicyMatcher (expandPolicyWithPluginGroups p g) name = policy_gives g p n"
  unfolding makeToolPolicyMatcher_def policy_gives_def Let_def expandPolicyWithPluginGroups_def tool_policy.simps
  by (simp add: named_iff [OF assms(1)] compiled_none [OF assms(1)] assms(2))

subsection \<open>The tools that come through\<close>

lemma plain_groups_built:
  assumes "list_all (\<lambda>t. plain_tool (normalizeToolName (Text (tool_name t)))) tools"
  shows "plain_groups (buildPluginToolGroups tools toolMeta)"
proof -
  have add: "plain_groups (addPluginTool toolMeta t g)" if g: "plain_groups g" and t: "plain_tool (normalizeToolName (Text (tool_name t)))" for t g
  proof (cases "toolMeta t")
    case (Some i)
    have k: "k \<noteq> []" if "normalizeOptionalLowercaseString (Some i) = Some k" for k
      using that by (auto simp: normalizeOptionalLowercaseString_def normalizeOptionalString_def normalizeNullableString_def Let_def split: if_splits)
    have ns: "list_all plain_tool (coalesce (map_of (group_by_plugin g) k) [])" for k
      using g by (cases "map_of (group_by_plugin g) k") (auto simp: plain_groups_def list_all_iff dest!: map_of_SomeD)
    show ?thesis
      using Some g t k ns set_update_subset
      by (fastforce simp: addPluginTool_def plain_groups_def list_all_iff Let_def split: option.split)
  qed (simp add: addPluginTool_def g)
  have "plain_groups g \<Longrightarrow> list_all (\<lambda>t. plain_tool (normalizeToolName (Text (tool_name t)))) ts \<Longrightarrow> plain_groups (fold (addPluginTool toolMeta) ts g)" for ts g
    by (induction ts arbitrary: g) (simp_all add: add)
  then show ?thesis using assms unfolding buildPluginToolGroups_def by (simp add: plain_groups_def)
qed

lemma strip_keeps [simp]: "ar_policy (analyzeAllowlistByToolType p g core) = p"
  by (simp add: analyzeAllowlistByToolType_def Let_def)

definition step_lets :: "plugin_tool_groups \<Rightarrow> pipeline_step \<Rightarrow> agent_tool \<Rightarrow> bool" where
  "step_lets g s t = (case ps_policy s of None \<Rightarrow> True | Some p \<Rightarrow> makeToolPolicyMatcher (expandPolicyWithPluginGroups p g) (tool_name t))"

lemma pipeline_filters:
  "fst (fold (pipelineStep g core) steps st) = filter (\<lambda>t. list_all (\<lambda>s. step_lets g s t) steps) (fst st)"
proof (induction steps arbitrary: st)
  case (Cons s steps)
  have "fst (pipelineStep g core s st) = filter (step_lets g s) (fst st)"
    by (cases "ps_policy s")
      (simp_all add: pipelineStep_def step_lets_def [abs_def] Let_def filterToolsByPolicy_def isToolAllowedByPolicyName_def)
  then show ?case by (simp add: Cons.IH conj_commute)
qed simp

lemma step_gives:
  assumes "list_all (\<lambda>t. plain_tool (normalizeToolName (Text (tool_name t)))) tools" "t \<in> set tools"
  shows "step_lets (buildPluginToolGroups tools toolMeta) s t = (case ps_policy s of None \<Rightarrow> True
      | Some p \<Rightarrow> policy_gives (buildPluginToolGroups tools toolMeta) p (text_form (normalizeToolName (Text (tool_name t)))))"
proof -
  from assms have "plain_tool (normalizeToolName (Text (tool_name t)))" by (simp add: list_all_iff)
  then obtain n where "normalizeToolName (Text (tool_name t)) = Text n" using plain_tool_text by blast
  then show ?thesis using matcher_gives [OF plain_groups_built [OF assms(1)]] by (simp add: step_lets_def split: option.split)
qed

text \<open>C12: The pipeline hands out exactly the tools that every policy gives, whatever the order of the steps, the warnings and the
  handling of allow lists of plugins. A policy gives a tool that no entry of its deny list names and that its allow list names or
  that has only entries that name nothing in it; naming \<^verbatim>\<open>write\<close> stands for \<^verbatim>\<open>apply_patch\<close> too. An entry names the plugin
  tools, the tools of a plugin, those of a group, or the names it matches. A blank entry names nothing, and so does
  \<^verbatim>\<open>constructor\<close> or \<^verbatim>\<open>__proto__\<close>, which the table of aliases finds as a member every object inherits: an allow list with
  nothing else in it lets every tool through. The tools themselves have names that are no group, have no star and are neither
  blank nor such a member.\<close>

theorem pipeline_gives_iff:
  assumes "list_all (\<lambda>t. plain_tool (normalizeToolName (Text (tool_name t)))) tools"
  shows "fst (applyToolPolicyPipeline tools toolMeta steps cache) =
    filter (\<lambda>t. list_all (\<lambda>s. case ps_policy s of None \<Rightarrow> True
                   | Some p \<Rightarrow> policy_gives (buildPluginToolGroups tools toolMeta) p (text_form (normalizeToolName (Text (tool_name t))))) steps) tools"
  unfolding applyToolPolicyPipeline_def Let_def pipeline_filters
  using step_gives [OF assms] by (auto intro!: filter_cong simp: list_all_iff)

definition demo_tool :: "string \<Rightarrow> agent_tool" where
  "demo_tool n = \<lparr>tool_name = n, ownerOnly = None, tool_execute = None\<rparr>"

definition demo_meta :: tool_meta where
  "demo_meta t = (if tool_name t = ''lobster_run'' then Some ''Lobster'' else None)"

definition demo_steps :: "pipeline_step list" where
  "demo_steps = [plainStep (Some \<lparr>tp_allow = Some (map Text [''group:fs'', ''lobster'', ''exec'', ''constructor'']), tp_deny = None\<rparr>) ''tools.allow'',
     plainStep (Some \<lparr>tp_allow = None, tp_deny = Some [Text '' Bash'']\<rparr>) ''group tools.allow'']"

theorem pipeline_gives_iff_witness:
  "fst (applyToolPolicyPipeline (map demo_tool [''exec'', ''apply_patch'', ''lobster_run'', ''cron'']) demo_meta demo_steps
      \<lparr>seenToolPolicyWarnings = {}, toolPolicyWarningOrder = []\<rparr>) = map demo_tool [''apply_patch'', ''lobster_run'']"
proof -
  let ?tools = "map demo_tool [''exec'', ''apply_patch'', ''lobster_run'', ''cron'']"
  have plain: "list_all (\<lambda>t. plain_tool (normalizeToolName (Text (tool_name t)))) ?tools" by code_simp
  let ?g = "\<lparr>group_all = [Text ''lobster_run''], group_by_plugin = [(''lobster'', [Text ''lobster_run''])]\<rparr>"
  let ?gives = "\<lambda>n. list_all (\<lambda>s. case ps_policy s of None \<Rightarrow> True | Some p \<Rightarrow> policy_gives ?g p (text_form (normalizeToolName (Text n)))) demo_steps"
  have groups: "buildPluginToolGroups ?tools demo_meta = ?g" by code_simp
  have "\<not> ?gives ''exec''" "?gives ''apply_patch''" "?gives ''lobster_run''" "\<not> ?gives ''cron''" by code_simp+
  moreover have "tool_name (demo_tool n) = n" for n by (simp add: demo_tool_def)
  ultimately show ?thesis unfolding pipeline_gives_iff [OF plain] groups by (simp only: list.map filter.simps if_True if_False)
qed

text \<open>An allow list with nothing but the name of an inherited member in it allows every tool.\<close>

lemma inherited_allows_all:
  assumes "list_all (\<lambda>t. plain_tool (normalizeToolName (Text (tool_name t)))) tools" "normalizeToolName entry = Inherited f"
  shows "fst (applyToolPolicyPipeline tools meta [plainStep (Some \<lparr>tp_allow = Some [entry], tp_deny = None\<rparr>) label] cache) = tools"
  unfolding applyToolPolicyPipeline_def Let_def pipeline_filters
  using step_gives [OF assms(1)] assms(2) by (simp add: plainStep_def policy_gives_def names_nothing_def)

text \<open>An entry that is both the name of a tool and the id of a plugin stands for the plugin's tools: denying the tool has no effect.\<close>

lemma plugin_id_shadows_tool:
  assumes c: "plain_name c" "c \<noteq> ''group:plugins''" "c \<noteq> ''apply_patch''" "normalizeOptionalLowercaseString (Some c) = Some c"
    and n: "plain_name n" "c \<noteq> n"
  shows "fst (applyToolPolicyPipeline [demo_tool c, demo_tool n] (\<lambda>t. if tool_name t = n then Some c else None)
           [plainStep (Some \<lparr>tp_allow = None, tp_deny = Some [Text c]\<rparr>) label] cache) = [demo_tool c]"
proof -
  let ?meta = "\<lambda>t. if tool_name t = n then Some c else None"
  have norm: "normalizeToolName (Text c) = Text c" "normalizeToolName (Text n) = Text n" using c n by (simp_all add: plain_name_def)
  have plain: "list_all (\<lambda>t. plain_tool (normalizeToolName (Text (tool_name t)))) [demo_tool c, demo_tool n]"
    using c n norm by (simp add: demo_tool_def plain_tool_def)
  have groups: "buildPluginToolGroups [demo_tool c, demo_tool n] ?meta = \<lparr>group_all = [Text n], group_by_plugin = [(c, [Text n])]\<rparr>"
    using c n norm by (simp add: buildPluginToolGroups_def addPluginTool_def demo_tool_def Let_def)
  have "filter (\<lambda>t. list_all (\<lambda>s. step_lets (buildPluginToolGroups [demo_tool c, demo_tool n] ?meta) s t)
      [plainStep (Some \<lparr>tp_allow = None, tp_deny = Some [Text c]\<rparr>) label]) [demo_tool c, demo_tool n] = [demo_tool c]"
    using step_gives [OF plain, of _ ?meta] unfolding groups
    using c n norm by (simp add: plainStep_def policy_gives_def entry_names_def names_nothing_def plain_name_def demo_tool_def)
  then show ?thesis unfolding applyToolPolicyPipeline_def Let_def pipeline_filters by simp
qed

subsection \<open>Tools for the owner and warnings\<close>

text \<open>C32: A sender who is not the owner is never given a tool for the owner unless the run was granted it by name, and is given every
  other tool unchanged; the owner is given all of them.\<close>

theorem owner_tools_need_owner:
  "applyOwnerOnlyToolPolicy tools senderIsOwner granted =
     (if senderIsOwner then tools
      else filter (\<lambda>t. if isOwnerOnlyTool t then normalizeToolName (Text (tool_name t)) \<in> normalizeToolName ` Text ` set (coalesce granted []) else True) tools)"
proof (cases senderIsOwner)
  case True
  have "wrapOwnerOnlyToolExecution t True = t" for t by (simp add: wrapOwnerOnlyToolExecution_def)
  then show ?thesis using True by (auto simp: applyOwnerOnlyToolPolicy_def Let_def intro!: map_idI)
next
  case False
  let ?auth = "\<lambda>t. normalizeToolName (Text (tool_name t)) \<in> normalizeToolName ` Text ` set (coalesce granted [])"
  let ?wrap = "\<lambda>t. if \<not> isOwnerOnlyTool t then t else wrapOwnerOnlyToolExecution t (?auth t)"
  have kept: "tool_name (wrapOwnerOnlyToolExecution t a) = tool_name t" "isOwnerOnlyTool (wrapOwnerOnlyToolExecution t a) = isOwnerOnlyTool t"
    "wrapOwnerOnlyToolExecution t True = t" for t a
    by (simp_all add: wrapOwnerOnlyToolExecution_def isOwnerOnlyTool_def)
  have "filter (\<lambda>t. \<not> isOwnerOnlyTool t \<or> ?auth t) (map ?wrap tools) = filter (\<lambda>t. if isOwnerOnlyTool t then ?auth t else True) tools"
    by (induction tools) (simp_all add: kept)
  then show ?thesis using False by (simp only: applyOwnerOnlyToolPolicy_def Let_def set_map image_image if_False simp_thms)
qed

text \<open>The cache of warnings remembers at most 256 of them, each once, and a warning it remembers is not given again.\<close>

definition warnings_ok :: "warning_cache \<Rightarrow> bool" where
  "warnings_ok c = (distinct (toolPolicyWarningOrder c) \<and> set (toolPolicyWarningOrder c) = seenToolPolicyWarnings c \<and>
     [] \<notin> seenToolPolicyWarnings c \<and> length (toolPolicyWarningOrder c) \<le> MAX_TOOL_POLICY_WARNING_CACHE)"

lemma remember_ok:
  assumes "warnings_ok c" "w \<noteq> []"
  shows "warnings_ok (snd (rememberToolPolicyWarning w c)) \<and> w \<in> seenToolPolicyWarnings (snd (rememberToolPolicyWarning w c)) \<and>
    fst (rememberToolPolicyWarning w c) = (w \<notin> seenToolPolicyWarnings c)"
proof -
  have size: "card (seenToolPolicyWarnings c) = length (toolPolicyWarningOrder c)"
    using assms(1) by (metis warnings_ok_def distinct_card)
  show ?thesis
  proof (cases "toolPolicyWarningOrder c")
    case Nil
    then show ?thesis using assms size
      by (auto simp: warnings_ok_def rememberToolPolicyWarning_def MAX_TOOL_POLICY_WARNING_CACHE_def)
  next
    case (Cons v vs)
    then show ?thesis using assms size
      by (auto simp: warnings_ok_def rememberToolPolicyWarning_def MAX_TOOL_POLICY_WARNING_CACHE_def)
  qed
qed

end
