(* ===== verification/GroupPolicy.thy ===== *)
theory GroupPolicy
  imports SessionKeys
begin

text \<open>
  The policy of a group chat: \<^verbatim>\<open>packages/core/src/config/group-policy.ts\<close> with \<^verbatim>\<open>routing/account-lookup.ts\<close> and
  \<^verbatim>\<open>parseToolsBySenderTypedKey\<close> of \<^verbatim>\<open>config/types.tools.ts\<close>. The members of an object of the configuration are listed in the
  order in which JavaScript enumerates them. The cache of compiled sender policies, which is keyed by the identity of an immutable
  object, and the deprecation warning are left out.
\<close>

subsection \<open>Looking up an account\<close>

definition lookup_ignoring_case :: "(string \<Rightarrow> string) \<Rightarrow> (string, 'a) js_map \<Rightarrow> string \<Rightarrow> 'a option" where
  "lookup_ignoring_case canon entries k =
     (case map_of entries k of
        Some v \<Rightarrow> Some v
      | None \<Rightarrow>
          (case List.find (\<lambda>(k', _). canon k' = canon k) entries of
             Some (k', v) \<Rightarrow> if k' \<noteq> [] then Some v else None
           | None \<Rightarrow> None))"

definition resolveAccountEntry :: "(string, 'a) js_map option \<Rightarrow> string \<Rightarrow> 'a option" where
  "resolveAccountEntry accounts accountId =
     lookup_ignoring_case (\<lambda>k. normalizeLowercaseStringOrEmpty (Some k)) (coalesce accounts []) accountId"

definition resolveNormalizedAccountEntry :: "(string, 'a) js_map option \<Rightarrow> string \<Rightarrow> (string \<Rightarrow> string) \<Rightarrow> 'a option" where
  "resolveNormalizedAccountEntry accounts accountId normalizeId = lookup_ignoring_case normalizeId (coalesce accounts []) accountId"

subsection \<open>Policies by sender\<close>

record tool_scope =
  ts_allow :: "string list option"
  ts_alsoAllow :: "string list option"
  ts_deny :: "string list option"

datatype sender_type = SenderId | SenderE164 | SenderUsername | SenderName

definition TOOLS_BY_SENDER_KEY_TYPES :: "(sender_type \<times> string) list" where
  "TOOLS_BY_SENDER_KEY_TYPES = [(SenderId, ''id''), (SenderE164, ''e164''), (SenderUsername, ''username''), (SenderName, ''name'')]"

definition parseToolsBySenderTypedKey :: "string \<Rightarrow> (sender_type \<times> string) option" where
  "parseToolsBySenderTypedKey rawKey =
     (let trimmed = js_trim rawKey; lowered = normalizeLowercaseStringOrEmpty (Some trimmed)
      in if trimmed = [] then None
         else map_option (\<lambda>(ty, word). (ty, drop (Suc (length word)) trimmed))
                (List.find (\<lambda>(ty, word). starts_with (word @ '':'') lowered) TOOLS_BY_SENDER_KEY_TYPES))"

definition normalizeSenderKey :: "string \<Rightarrow> bool \<Rightarrow> string" where
  "normalizeSenderKey v stripLeadingAt =
     (let trimmed = js_trim v
      in if trimmed = [] then []
         else normalizeLowercaseStringOrEmpty (Some (if stripLeadingAt \<and> starts_with ''@'' trimmed then tl trimmed else trimmed)))"

definition normalizeTypedSenderKey :: "string \<Rightarrow> sender_type \<Rightarrow> string" where
  "normalizeTypedSenderKey v ty = normalizeSenderKey v (ty = SenderUsername)"

definition normalizeLegacySenderKey :: "string \<Rightarrow> string" where
  "normalizeLegacySenderKey v = normalizeSenderKey v True"

datatype sender_key = SenderWildcard | SenderTyped sender_type string

definition parseSenderPolicyKey :: "string \<Rightarrow> sender_key option" where
  "parseSenderPolicyKey rawKey =
     (let trimmed = js_trim rawKey
      in if trimmed = [] then None
         else if trimmed = ''*'' then Some SenderWildcard
         else (case parseToolsBySenderTypedKey trimmed of
                 Some (ty, v) \<Rightarrow> (let key = normalizeTypedSenderKey v ty in if key = [] then None else Some (SenderTyped ty key))
               | None \<Rightarrow> (let key = normalizeLegacySenderKey trimmed in if key = [] then None else Some (SenderTyped SenderId key))))"

record compiled_sender_policy =
  sender_buckets :: "(sender_type \<times> string, tool_scope) js_map"
  sender_wildcard :: "tool_scope option"

definition addSenderPolicy :: "string \<times> tool_scope \<Rightarrow> compiled_sender_policy \<Rightarrow> compiled_sender_policy" where
  "addSenderPolicy entry c =
     (case parseSenderPolicyKey (fst entry) of
        None \<Rightarrow> c
      | Some SenderWildcard \<Rightarrow> c\<lparr>sender_wildcard := Some (snd entry)\<rparr>
      | Some (SenderTyped ty key) \<Rightarrow>
          if map_of (sender_buckets c) (ty, key) \<noteq> None then c
          else c\<lparr>sender_buckets := AList.update (ty, key) (snd entry) (sender_buckets c)\<rparr>)"

definition compileToolsBySenderPolicy :: "(string, tool_scope) js_map \<Rightarrow> compiled_sender_policy option" where
  "compileToolsBySenderPolicy entries =
     (if entries = [] then None else Some (fold addSenderPolicy entries \<lparr>sender_buckets = [], sender_wildcard = None\<rparr>))"

record group_sender =
  senderId :: "string option"
  senderName :: "string option"
  senderUsername :: "string option"
  senderE164 :: "string option"

definition normalizeCandidate :: "string option \<Rightarrow> sender_type \<Rightarrow> string" where
  "normalizeCandidate v ty = (case normalizeOptionalString v of None \<Rightarrow> [] | Some trimmed \<Rightarrow> normalizeTypedSenderKey trimmed ty)"

definition normalizeSenderIdCandidates :: "string option \<Rightarrow> string list" where
  "normalizeSenderIdCandidates v =
     (case normalizeOptionalString v of
        None \<Rightarrow> []
      | Some trimmed \<Rightarrow>
          (let typed = normalizeTypedSenderKey trimmed SenderId; legacy = normalizeLegacySenderKey trimmed
           in if typed = [] then (if legacy \<noteq> [] then [legacy] else [])
              else if legacy = [] \<or> legacy = typed then [typed]
              else [typed, legacy]))"

fun first_some :: "('a \<Rightarrow> 'b option) \<Rightarrow> 'a list \<Rightarrow> 'b option" where
  "first_some f [] = None"
| "first_some f (x # xs) = (case f x of Some y \<Rightarrow> Some y | None \<Rightarrow> first_some f xs)"

definition candidateMatch :: "compiled_sender_policy \<Rightarrow> sender_type \<Rightarrow> string option \<Rightarrow> tool_scope option" where
  "candidateMatch c ty v =
     (let key = normalizeCandidate v ty in if key = [] then None else map_of (sender_buckets c) (ty, key))"

definition matchToolsBySenderPolicy :: "compiled_sender_policy \<Rightarrow> group_sender \<Rightarrow> tool_scope option" where
  "matchToolsBySenderPolicy c s =
     or_else (first_some (\<lambda>k. map_of (sender_buckets c) (SenderId, k)) (normalizeSenderIdCandidates (senderId s)))
       (or_else (candidateMatch c SenderE164 (senderE164 s))
          (or_else (candidateMatch c SenderUsername (senderUsername s))
             (or_else (candidateMatch c SenderName (senderName s)) (sender_wildcard c))))"

definition resolveToolsBySender :: "(string, tool_scope) js_map option \<Rightarrow> group_sender \<Rightarrow> tool_scope option" where
  "resolveToolsBySender toolsBySender s =
     (case Option.bind toolsBySender compileToolsBySenderPolicy of None \<Rightarrow> None | Some c \<Rightarrow> matchToolsBySenderPolicy c s)"

subsection \<open>Groups\<close>

record channel_group =
  gc_requireMention :: "bool option"
  gc_tools :: "tool_scope option"
  gc_toolsBySender :: "(string, tool_scope) js_map option"

type_synonym channel_groups = "(string, channel_group) js_map"

record account_groups =
  acc_groupPolicy :: "string option"
  acc_groups :: "channel_groups option"

record channel_config = account_groups +
  acc_accounts :: "(string, account_groups) js_map option"

type_synonym channels_config = "(string, channel_config) js_map"

definition resolveChannelGroupConfig :: "channel_groups option \<Rightarrow> string \<Rightarrow> bool \<Rightarrow> channel_group option" where
  "resolveChannelGroupConfig groups groupId caseInsensitive =
     (case map_of (coalesce groups []) groupId of
        Some g \<Rightarrow> Some g
      | None \<Rightarrow>
          if \<not> caseInsensitive then None
          else (let target = normalizeLowercaseStringOrEmpty (Some groupId)
                in case List.find (\<lambda>(k, _). k \<noteq> ''*'' \<and> normalizeLowercaseStringOrEmpty (Some k) = target) (coalesce groups []) of
                     Some (k, g) \<Rightarrow> if k = [] then None else Some g
                   | None \<Rightarrow> None))"

definition accountSetting :: "(account_groups \<Rightarrow> 'a option) \<Rightarrow> channels_config \<Rightarrow> string \<Rightarrow> string option \<Rightarrow> 'a option" where
  "accountSetting part channels channel accountId =
     (case map_of channels channel of
        None \<Rightarrow> None
      | Some c \<Rightarrow>
          or_else (Option.bind (resolveAccountEntry (acc_accounts c) (normalizeAccountId accountId)) part) (part (account_groups.truncate c)))"

definition resolveChannelGroups :: "channels_config \<Rightarrow> string \<Rightarrow> string option \<Rightarrow> channel_groups option" where
  "resolveChannelGroups channels channel accountId = accountSetting acc_groups channels channel accountId"

definition resolveChannelGroupPolicyMode :: "channels_config \<Rightarrow> string \<Rightarrow> string option \<Rightarrow> string option" where
  "resolveChannelGroupPolicyMode channels channel accountId = accountSetting acc_groupPolicy channels channel accountId"

record channel_group_policy =
  allowlistEnabled :: bool
  group_allowed :: bool
  groupConfig :: "channel_group option"
  defaultConfig :: "channel_group option"

definition resolveChannelGroupPolicy :: "channels_config \<Rightarrow> string \<Rightarrow> string option \<Rightarrow> string option \<Rightarrow> bool \<Rightarrow> bool \<Rightarrow> channel_group_policy" where
  "resolveChannelGroupPolicy channels channel groupId accountId groupIdCaseInsensitive hasGroupAllowFrom =
     (let groups = resolveChannelGroups channels channel accountId;
          mode = resolveChannelGroupPolicyMode channels channel accountId;
          hasGroups = (coalesce groups [] \<noteq> []);
          enabled = (mode = Some ''allowlist'' \<or> hasGroups);
          normalizedId = map_option js_trim groupId;
          config = (if truthy_string normalizedId then resolveChannelGroupConfig groups (coalesce normalizedId []) groupIdCaseInsensitive else None);
          allowAll = (enabled \<and> map_of (coalesce groups []) ''*'' \<noteq> None);
          senderFilterBypass = (mode = Some ''allowlist'' \<and> \<not> hasGroups \<and> hasGroupAllowFrom)
      in \<lparr>allowlistEnabled = enabled,
          group_allowed = (if mode = Some ''disabled'' then False else \<not> enabled \<or> allowAll \<or> config \<noteq> None \<or> senderFilterBypass),
          groupConfig = config, defaultConfig = map_of (coalesce groups []) ''*''\<rparr>)"

definition resolveChannelGroupRequireMention :: "channel_group_policy \<Rightarrow> bool option \<Rightarrow> bool \<Rightarrow> bool \<Rightarrow> bool" where
  "resolveChannelGroupRequireMention p requireMentionOverride beforeConfig defaultsToNoMention =
     (let configMention = or_else (Option.bind (groupConfig p) gc_requireMention) (Option.bind (defaultConfig p) gc_requireMention)
      in case (if beforeConfig then or_else requireMentionOverride configMention else or_else configMention requireMentionOverride) of
           Some b \<Rightarrow> b
         | None \<Rightarrow> \<not> (defaultsToNoMention \<and> groupConfig p \<noteq> None))"

definition configuredGroup :: "channel_groups option \<Rightarrow> string option list \<Rightarrow> bool \<Rightarrow> channel_group option" where
  "configuredGroup groups groupIds caseInsensitive =
     first_some (\<lambda>rawGroupId. let groupId = map_option js_trim rawGroupId
                               in if truthy_string groupId then resolveChannelGroupConfig groups (coalesce groupId []) caseInsensitive else None) groupIds"

definition groupTools :: "channel_group option \<Rightarrow> group_sender \<Rightarrow> tool_scope option" where
  "groupTools g s = or_else (Option.bind g (\<lambda>c. resolveToolsBySender (gc_toolsBySender c) s)) (Option.bind g gc_tools)"

definition resolveChannelGroupToolsPolicy :: "channels_config \<Rightarrow> string \<Rightarrow> string option \<Rightarrow> string option list \<Rightarrow> string option \<Rightarrow> bool \<Rightarrow> group_sender
    \<Rightarrow> tool_scope option" where
  "resolveChannelGroupToolsPolicy channels channel groupId groupIdCandidates accountId caseInsensitive s =
     (let groups = resolveChannelGroups channels channel accountId
      in or_else (groupTools (configuredGroup groups (groupId # groupIdCandidates) caseInsensitive) s)
           (groupTools (map_of (coalesce groups []) ''*'') s))"

subsection \<open>Which entry decides\<close>

text \<open>The entry of the configuration that speaks about an identity: the first of its kind, and the last wildcard.\<close>

definition entry_for :: "(string, tool_scope) js_map \<Rightarrow> sender_type \<Rightarrow> string \<Rightarrow> tool_scope option" where
  "entry_for entries ty key = map_option snd (List.find (\<lambda>(k, _). parseSenderPolicyKey k = Some (SenderTyped ty key)) entries)"

definition wildcard_for :: "(string, tool_scope) js_map \<Rightarrow> tool_scope option" where
  "wildcard_for entries = map_option snd (List.find (\<lambda>(k, _). parseSenderPolicyKey k = Some SenderWildcard) (rev entries))"

lemma or_else_None [simp]: "or_else v None = v"
  by (cases v) simp_all

lemma add_bucket:
  "map_of (sender_buckets (addSenderPolicy e c)) (ty, key) =
     or_else (map_of (sender_buckets c) (ty, key)) (if parseSenderPolicyKey (fst e) = Some (SenderTyped ty key) then Some (snd e) else None)"
  by (cases "map_of (sender_buckets c) (ty, key)") (auto simp: addSenderPolicy_def update_conv' split: option.split sender_key.split)

lemma add_wildcard:
  "sender_wildcard (addSenderPolicy e c) = (if parseSenderPolicyKey (fst e) = Some SenderWildcard then Some (snd e) else sender_wildcard c)"
  by (auto simp: addSenderPolicy_def split: option.split sender_key.split)

lemma compiled_buckets:
  "map_of (sender_buckets (fold addSenderPolicy es c)) (ty, key) = or_else (map_of (sender_buckets c) (ty, key)) (entry_for es ty key)"
proof (induction es arbitrary: c)
  case (Cons e es)
  show ?case
    by (cases e; cases "map_of (sender_buckets c) (ty, key)") (simp_all add: Cons.IH add_bucket entry_for_def)
qed (simp add: entry_for_def)

lemma compiled_wildcard: "sender_wildcard (fold addSenderPolicy es c) = or_else (wildcard_for es) (sender_wildcard c)"
proof (induction es rule: rev_induct)
  case (snoc e es)
  show ?case by (cases e) (simp add: add_wildcard snoc.IH wildcard_for_def)
qed (simp add: wildcard_for_def)

definition named_entry :: "(string, tool_scope) js_map \<Rightarrow> sender_type \<Rightarrow> string option \<Rightarrow> tool_scope option" where
  "named_entry entries ty v = (let key = normalizeCandidate v ty in if key = [] then None else entry_for entries ty key)"

text \<open>The policy of a sender in a group is that of the entry for the sender's id, else for the phone number, else for the user
  name, else for the display name, else the wildcard; so what a sender can choose (the names) never takes precedence over what the
  network vouches for. Of several entries for the same identity the first decides, of several wildcards the last.\<close>

theorem sender_entry_decides:
  "resolveToolsBySender (Some entries) s =
     or_else (first_some (entry_for entries SenderId) (normalizeSenderIdCandidates (senderId s)))
       (or_else (named_entry entries SenderE164 (senderE164 s))
          (or_else (named_entry entries SenderUsername (senderUsername s))
             (or_else (named_entry entries SenderName (senderName s)) (wildcard_for entries))))"
proof (cases "entries = []")
  case True
  have "first_some (\<lambda>k. None) ks = (None :: tool_scope option)" for ks :: "string list" by (induction ks) simp_all
  then show ?thesis using True
    by (simp add: resolveToolsBySender_def compileToolsBySenderPolicy_def entry_for_def [abs_def] wildcard_for_def named_entry_def Let_def)
next
  case False
  let ?c = "fold addSenderPolicy entries \<lparr>sender_buckets = [], sender_wildcard = None\<rparr>"
  have "candidateMatch ?c ty v = named_entry entries ty v" for ty v
    by (simp add: candidateMatch_def named_entry_def compiled_buckets Let_def)
  then show ?thesis using False
    by (simp add: resolveToolsBySender_def compileToolsBySenderPolicy_def matchToolsBySenderPolicy_def compiled_buckets compiled_wildcard)
qed

text \<open>A topic that is configured at all, even without any rule for tools, hides the rule of its group: the next rule asked is the
  default one.\<close>

lemma topic_hides_group_tools:
  assumes "map_of channels channel = Some c" "acc_accounts c = None" "acc_groups c = Some groups"
    and "map_of groups topic = Some \<lparr>gc_requireMention = m, gc_tools = None, gc_toolsBySender = None\<rparr>" "js_trim topic = topic" "topic \<noteq> []"
    and "map_of groups ''*'' = None"
  shows "resolveChannelGroupToolsPolicy channels channel (Some topic) parents account ci s = None"
  using assms
  by (simp add: resolveChannelGroupToolsPolicy_def resolveChannelGroups_def accountSetting_def resolveAccountEntry_def lookup_ignoring_case_def
      account_groups.defs configuredGroup_def resolveChannelGroupConfig_def groupTools_def resolveToolsBySender_def)

end
