(* ===== verification/SubagentRoles.thy ===== *)
theory SubagentRoles
  imports SessionKeys JsNumber
begin

text \<open>
  How deep a session is below the session a user talks to, and what it may do there: \<^verbatim>\<open>packages/core/src/agents/subagent-depth.ts\<close>
  and \<^verbatim>\<open>subagent-capabilities.ts\<close>. A session store maps keys to entries; the files of the stores are a map from paths, and the
  path of an agent's store is an argument. The search for the depth follows the sessions that spawned one another and remembers
  where it has been, so it ends even on entries that name one another in a circle.
\<close>

record session_entry =
  se_sessionId :: "string option"
  se_spawnDepth :: jsval
  se_role :: "string option"
  se_scope :: "string option"
  se_spawnedBy :: "string option"

type_synonym session_store = "(string, session_entry) js_map"

record session_world =
  sw_files :: "(string, session_store) js_map"
  sw_path :: "string \<Rightarrow> string"
  sw_defaultAgent :: string
  sw_maxSpawnDepth :: "rat option"

definition readSessionStore :: "session_world \<Rightarrow> string \<Rightarrow> session_store" where
  "readSessionStore w storePath = coalesce (map_of (sw_files w) storePath) []"

subsection \<open>Depth\<close>

definition normalizeSpawnDepth :: "jsval \<Rightarrow> nat option" where
  "normalizeSpawnDepth v =
     (let whole = (\<lambda>n. case n of Finite q \<Rightarrow> if q = of_int \<lfloor>q\<rfloor> \<and> 0 \<le> q then Some (nat \<lfloor>q\<rfloor>) else None | _ \<Rightarrow> None)
      in case v of
           JNum n \<Rightarrow> whole (to_number n)
         | JStr s \<Rightarrow> if js_trim s = [] then None else whole (to_number (js_trim s))
         | _ \<Rightarrow> None)"

definition buildKeyCandidates :: "string \<Rightarrow> session_world option \<Rightarrow> string list" where
  "buildKeyCandidates rawKey cfg =
     (case cfg of
        None \<Rightarrow> [rawKey]
      | Some w \<Rightarrow>
          if rawKey \<in> {''global'', ''unknown''} \<or> parseAgentSessionKey (Some rawKey) \<noteq> None then [rawKey]
          else (let prefixed = ''agent:'' @ sw_defaultAgent w @ '':'' @ rawKey in if prefixed = rawKey then [rawKey] else [rawKey, prefixed]))"

definition findEntryBySessionId :: "session_store \<Rightarrow> string \<Rightarrow> session_entry option" where
  "findEntryBySessionId store sessionId =
     (case normalizeOptionalString (Some sessionId) of
        None \<Rightarrow> None
      | Some i \<Rightarrow> List.find (\<lambda>e. normalizeOptionalString (se_sessionId e) = Some i) (map snd store))"

fun firstEntry :: "(string \<Rightarrow> session_entry option) \<Rightarrow> string list \<Rightarrow> session_entry option" where
  "firstEntry look [] = None"
| "firstEntry look (k # ks) = or_else (look k) (firstEntry look ks)"

definition resolveEntryForSessionKey :: "session_world option \<Rightarrow> session_store option \<Rightarrow> string \<Rightarrow> session_entry option" where
  "resolveEntryForSessionKey cfg given sessionKey =
     (let candidates = buildKeyCandidates sessionKey cfg
      in case given of
           Some store \<Rightarrow> or_else (firstEntry (map_of store) candidates) (findEntryBySessionId store sessionKey)
         | None \<Rightarrow>
             (case cfg of
                None \<Rightarrow> None
              | Some w \<Rightarrow>
                  firstEntry (\<lambda>key. case parseAgentSessionKey (Some key) of
                      None \<Rightarrow> None
                    | Some p \<Rightarrow> (let store = readSessionStore w (sw_path w (key_agent p))
                                 in or_else (map_of store key) (findEntryBySessionId store sessionKey))) candidates))"

text \<open>Every entry there is, and the sessions they name.\<close>

definition known_entries :: "session_world option \<Rightarrow> session_store option \<Rightarrow> session_entry list" where
  "known_entries cfg given =
     map snd (coalesce given []) @ (case cfg of None \<Rightarrow> [] | Some w \<Rightarrow> concat (map (\<lambda>(_, store). map snd store) (sw_files w)))"

definition spawners :: "session_world option \<Rightarrow> session_store option \<Rightarrow> string set" where
  "spawners cfg given = {p. \<exists>e \<in> set (known_entries cfg given). normalizeOptionalString (se_spawnedBy e) = Some p}"

lemma finite_spawners [simp]: "finite (spawners cfg given)"
proof -
  have "spawners cfg given \<subseteq> (\<lambda>e. the (normalizeOptionalString (se_spawnedBy e))) ` set (known_entries cfg given)"
    unfolding spawners_def by force
  then show ?thesis by (rule finite_subset) (rule finite_imageI, rule finite_set)
qed

lemma firstEntry_from: "firstEntry look ks = Some e \<Longrightarrow> \<exists>k \<in> set ks. look k = Some e"
  by (induction ks) (auto simp: or_else_def split: option.splits)

lemma by_id_from: "findEntryBySessionId store i = Some e \<Longrightarrow> e \<in> set (map snd store)"
  by (auto simp: findEntryBySessionId_def split: option.splits dest: find_SomeD)

lemma stored_from: "e \<in> set (map snd (readSessionStore w path)) \<Longrightarrow> e \<in> set (known_entries (Some w) given)"
  by (cases "map_of (sw_files w) path") (auto simp: readSessionStore_def known_entries_def dest!: map_of_SomeD)

lemma entry_from:
  assumes "resolveEntryForSessionKey cfg given key = Some e"
  shows "e \<in> set (known_entries cfg given)"
proof (cases given)
  case (Some store)
  then consider "firstEntry (map_of store) (buildKeyCandidates key cfg) = Some e" | "findEntryBySessionId store key = Some e"
    using assms by (auto simp: resolveEntryForSessionKey_def or_else_def split: option.splits)
  then have "e \<in> set (map snd store)"
  proof cases
    case 1
    then obtain k where "map_of store k = Some e" using firstEntry_from by blast
    then show ?thesis by (force dest: map_of_SomeD)
  qed (rule by_id_from)
  then show ?thesis using Some by (auto simp: known_entries_def)
next
  case None
  then obtain w where w: "cfg = Some w" using assms by (auto simp: resolveEntryForSessionKey_def split: option.splits)
  then obtain k p where "parseAgentSessionKey (Some k) = Some p"
    "or_else (map_of (readSessionStore w (sw_path w (key_agent p))) k) (findEntryBySessionId (readSessionStore w (sw_path w (key_agent p))) key) = Some e"
    using assms None by (auto simp: resolveEntryForSessionKey_def Let_def dest!: firstEntry_from split: option.splits)
  then have "e \<in> set (map snd (readSessionStore w (sw_path w (key_agent p))))"
    by (auto simp: or_else_def split: option.splits dest: by_id_from) (force dest: map_of_SomeD)
  then show ?thesis using stored_from w by simp
qed

text \<open>The visited keys grow along the chain; every key after the first was named by an entry, and there are finitely many.\<close>

function depthFromStore :: "session_world option \<Rightarrow> session_store option \<Rightarrow> string list \<Rightarrow> string \<Rightarrow> nat option" where
  "depthFromStore cfg given visited key =
     (case normalizeOptionalString (Some key) of
        None \<Rightarrow> None
      | Some normalizedKey \<Rightarrow>
          if normalizedKey \<in> set visited then None
          else (let entry = resolveEntryForSessionKey cfg given normalizedKey
                in case normalizeSpawnDepth (case entry of None \<Rightarrow> JUndefined | Some e \<Rightarrow> se_spawnDepth e) of
                     Some storedDepth \<Rightarrow> Some storedDepth
                   | None \<Rightarrow>
                       (case Option.bind entry (\<lambda>e. normalizeOptionalString (se_spawnedBy e)) of
                          None \<Rightarrow> None
                        | Some spawnedBy \<Rightarrow>
                            (case depthFromStore cfg given (normalizedKey # visited) spawnedBy of
                               Some parentDepth \<Rightarrow> Some (parentDepth + 1)
                             | None \<Rightarrow> Some (getSubagentDepth (Some spawnedBy) + 1)))))"
  by pat_completeness auto

lemma normalize_again: "normalizeOptionalString v = Some k \<Longrightarrow> normalizeOptionalString (Some k) = Some k"
  by (auto simp: normalizeOptionalString_def normalizeNullableString_def Let_def split: option.splits if_splits)

lemma chain_shrinks:
  assumes "normalizeOptionalString (Some key) = Some k" "k \<notin> set visited" "normalizeOptionalString v = Some p" "p \<in> S" "finite S"
  shows "card (insert (the (normalizeOptionalString (Some p))) S - set (k # visited))
    < card (insert (the (normalizeOptionalString (Some key))) S - set visited)"
proof -
  have p: "the (normalizeOptionalString (Some p)) = p" using normalize_again [OF assms(3)] by simp
  have "insert p S - set (k # visited) \<subset> insert k S - set visited" using assms(2, 4) by auto
  then show ?thesis using assms(1, 5) p by (simp add: psubset_card_mono)
qed

lemma spawner_of:
  "resolveEntryForSessionKey cfg given k = Some e \<Longrightarrow> normalizeOptionalString (se_spawnedBy e) = Some p \<Longrightarrow> p \<in> spawners cfg given"
  unfolding spawners_def using entry_from by blast

termination depthFromStore
proof (relation "measure (\<lambda>(cfg, given, visited, key).
    card (insert (the (normalizeOptionalString (Some key))) (spawners cfg given) - set visited))", goal_cases)
  case (2 cfg given visited key k entry p)
  obtain e where "resolveEntryForSessionKey cfg given k = Some e" "normalizeOptionalString (se_spawnedBy e) = Some p"
    using 2 by (auto simp: bind_eq_Some_conv)
  then show ?case
    using chain_shrinks [of key k visited "se_spawnedBy e" p "spawners cfg given"] spawner_of 2(1, 2) by simp
qed simp

definition getSubagentDepthFromSessionStore :: "string option \<Rightarrow> session_world option \<Rightarrow> session_store option \<Rightarrow> nat" where
  "getSubagentDepthFromSessionStore sessionKey cfg given =
     (let raw = js_trim (coalesce sessionKey []); fallbackDepth = getSubagentDepth (Some raw)
      in if raw = [] then fallbackDepth else coalesce (depthFromStore cfg given [] raw) fallbackDepth)"

subsection \<open>Roles\<close>

datatype subagent_role = RoleMain | RoleOrchestrator | RoleLeaf

datatype control_scope = ControlChildren | ControlNone

definition SUBAGENT_SESSION_ROLES :: "(string \<times> subagent_role) list" where
  "SUBAGENT_SESSION_ROLES = [(''main'', RoleMain), (''orchestrator'', RoleOrchestrator), (''leaf'', RoleLeaf)]"

definition SUBAGENT_CONTROL_SCOPES :: "(string \<times> control_scope) list" where
  "SUBAGENT_CONTROL_SCOPES = [(''children'', ControlChildren), (''none'', ControlNone)]"

definition normalizeSubagentRole :: "string option \<Rightarrow> subagent_role option" where
  "normalizeSubagentRole v = Option.bind (normalizeOptionalLowercaseString v) (map_of SUBAGENT_SESSION_ROLES)"

definition normalizeSubagentControlScope :: "string option \<Rightarrow> control_scope option" where
  "normalizeSubagentControlScope v = Option.bind (normalizeOptionalLowercaseString v) (map_of SUBAGENT_CONTROL_SCOPES)"

definition shouldInspectStoredSubagentEnvelope :: "string \<Rightarrow> bool" where
  "shouldInspectStoredSubagentEnvelope sessionKey = (isSubagentSessionKey (Some sessionKey) \<or> isAcpSessionKey (Some sessionKey))"

definition isSameAgentSessionStore :: "string \<Rightarrow> string \<Rightarrow> bool" where
  "isSameAgentSessionStore left right =
     (let agentOf = (\<lambda>k. normalizeOptionalLowercaseString (map_option key_agent (parseAgentSessionKey (Some k))))
      in truthy_string (agentOf left) \<and> agentOf left = agentOf right)"

definition resolveSessionCapabilityEntry :: "session_world option \<Rightarrow> session_store option \<Rightarrow> string \<Rightarrow> session_entry option" where
  "resolveSessionCapabilityEntry cfg given sessionKey =
     (case given of
        Some store \<Rightarrow> or_else (map_of store sessionKey) (findEntryBySessionId store sessionKey)
      | None \<Rightarrow>
          (case (cfg, parseAgentSessionKey (Some sessionKey)) of
             (Some w, Some p) \<Rightarrow> (let store = readSessionStore w (sw_path w (key_agent p))
                                 in or_else (map_of store sessionKey) (findEntryBySessionId store sessionKey))
           | _ \<Rightarrow> None))"

definition resolveSubagentCapabilityStore :: "string option \<Rightarrow> session_world option \<Rightarrow> session_store option \<Rightarrow> session_store option" where
  "resolveSubagentCapabilityStore sessionKey cfg given =
     (case normalizeOptionalString sessionKey of
        None \<Rightarrow> given
      | Some k \<Rightarrow>
          if given \<noteq> None then given
          else (case cfg of
                  None \<Rightarrow> None
                | Some w \<Rightarrow>
                    if \<not> shouldInspectStoredSubagentEnvelope k then None
                    else map_option (\<lambda>p. readSessionStore w (sw_path w (key_agent p))) (parseAgentSessionKey (Some k))))"

definition DEFAULT_SUBAGENT_MAX_SPAWN_DEPTH :: nat where
  "DEFAULT_SUBAGENT_MAX_SPAWN_DEPTH = 1"

definition maxSpawnDepthOf :: "session_world option \<Rightarrow> rat" where
  "maxSpawnDepthOf cfg = coalesce (Option.bind cfg sw_maxSpawnDepth) (of_nat DEFAULT_SUBAGENT_MAX_SPAWN_DEPTH)"

definition resolveSubagentRoleForDepth :: "nat \<Rightarrow> rat \<Rightarrow> subagent_role" where
  "resolveSubagentRoleForDepth depth maxDepth =
     (if depth = 0 then RoleMain else if int depth < max 1 \<lfloor>maxDepth\<rfloor> then RoleOrchestrator else RoleLeaf)"

definition resolveSubagentControlScopeForRole :: "subagent_role \<Rightarrow> control_scope" where
  "resolveSubagentControlScopeForRole role = (if role = RoleLeaf then ControlNone else ControlChildren)"

record subagent_capabilities =
  cap_depth :: nat
  cap_role :: subagent_role
  cap_scope :: control_scope
  canSpawn :: bool
  canControlChildren :: bool

definition capabilitiesOf :: "nat \<Rightarrow> subagent_role \<Rightarrow> control_scope \<Rightarrow> subagent_capabilities" where
  "capabilitiesOf depth role scope =
     \<lparr>cap_depth = depth, cap_role = role, cap_scope = scope, canSpawn = (role = RoleMain \<or> role = RoleOrchestrator),
      canControlChildren = (scope = ControlChildren)\<rparr>"

definition resolveSubagentCapabilities :: "nat \<Rightarrow> rat \<Rightarrow> subagent_capabilities" where
  "resolveSubagentCapabilities depth maxDepth =
     (let role = resolveSubagentRoleForDepth depth maxDepth in capabilitiesOf depth role (resolveSubagentControlScopeForRole role))"

function isStoredSubagentEnvelopeSession :: "session_world option \<Rightarrow> session_store option \<Rightarrow> session_entry option \<Rightarrow> string list \<Rightarrow> string \<Rightarrow> bool" where
  "isStoredSubagentEnvelopeSession cfg given entryIn visited sessionKey =
     (case normalizeOptionalString (Some sessionKey) of
        None \<Rightarrow> False
      | Some k \<Rightarrow>
          if k \<in> set visited then False
          else if isSubagentSessionKey (Some k) then True
          else if \<not> isAcpSessionKey (Some k) then False
          else (let entry = or_else entryIn (resolveSessionCapabilityEntry cfg given k)
                in if Option.bind entry (\<lambda>e. normalizeSubagentRole (se_role e)) \<noteq> None \<or>
                      Option.bind entry (\<lambda>e. normalizeSubagentControlScope (se_scope e)) \<noteq> None then True
                   else (case Option.bind entry (\<lambda>e. normalizeOptionalString (se_spawnedBy e)) of
                           None \<Rightarrow> False
                         | Some spawnedBy \<Rightarrow>
                             isStoredSubagentEnvelopeSession cfg (if isSameAgentSessionStore k spawnedBy then given else None) None
                               (k # visited) spawnedBy)))"
  by pat_completeness auto

lemma capability_entry_from:
  assumes "resolveSessionCapabilityEntry cfg given key = Some e"
  shows "e \<in> set (known_entries cfg given)"
proof -
  have store: "e \<in> set (map snd store)" if "or_else (map_of store k) (findEntryBySessionId store k) = Some e" for store k
    using that by (auto simp: or_else_def split: option.splits dest: by_id_from) (force dest: map_of_SomeD)
  show ?thesis
  proof (cases given)
    case (Some st)
    then show ?thesis using assms store by (force simp: resolveSessionCapabilityEntry_def known_entries_def)
  next
    case None
    then obtain w and p :: parsed_key where "cfg = Some w"
      "or_else (map_of (readSessionStore w (sw_path w (key_agent p))) key) (findEntryBySessionId (readSessionStore w (sw_path w (key_agent p))) key) = Some e"
      using assms by (auto simp: resolveSessionCapabilityEntry_def Let_def split: option.splits)
    then show ?thesis using store stored_from by blast
  qed
qed

lemma spawners_given: "spawners cfg None \<subseteq> spawners cfg given"
proof -
  have "set (known_entries cfg None) \<subseteq> set (known_entries cfg given)" by (simp add: known_entries_def)
  then show ?thesis unfolding spawners_def by blast
qed

termination isStoredSubagentEnvelopeSession
proof (relation "measures [\<lambda>(cfg, given, entryIn, visited, key). if entryIn = None then 0 else 1,
    \<lambda>(cfg, given, entryIn, visited, key).
      card (insert (the (normalizeOptionalString (Some key))) (spawners cfg given) - set visited)]", goal_cases)
  case (2 cfg given entryIn visited key k entry p)
  let ?given = "if isSameAgentSessionStore k p then given else None"
  show ?case
  proof (cases entryIn)
    case None
    then obtain e where e: "resolveSessionCapabilityEntry cfg given k = Some e" "normalizeOptionalString (se_spawnedBy e) = Some p"
      using 2 by (auto simp: bind_eq_Some_conv)
    then have "p \<in> spawners cfg given" using capability_entry_from unfolding spawners_def by blast
    then have less: "card (insert (the (normalizeOptionalString (Some p))) (spawners cfg given) - set (k # visited))
        < card (insert (the (normalizeOptionalString (Some key))) (spawners cfg given) - set visited)"
      using chain_shrinks [of key k visited "se_spawnedBy e" p "spawners cfg given"] 2(1, 2) e(2) by simp
    have "card (insert (the (normalizeOptionalString (Some p))) (spawners cfg ?given) - set (k # visited))
        \<le> card (insert (the (normalizeOptionalString (Some p))) (spawners cfg given) - set (k # visited))"
      by (rule card_mono) (use spawners_given in auto)
    then show ?thesis using less None by simp
  qed simp
qed simp

definition isSubagentEnvelopeSession :: "string option \<Rightarrow> session_world option \<Rightarrow> session_store option \<Rightarrow> session_entry option \<Rightarrow> bool" where
  "isSubagentEnvelopeSession sessionKey cfg given entryIn =
     (case normalizeOptionalString sessionKey of
        None \<Rightarrow> False
      | Some k \<Rightarrow>
          if isSubagentSessionKey (Some k) then True
          else if \<not> isAcpSessionKey (Some k) then False
          else isStoredSubagentEnvelopeSession cfg (resolveSubagentCapabilityStore (Some k) cfg given) entryIn [] k)"

definition resolveStoredSubagentCapabilities :: "string option \<Rightarrow> session_world option \<Rightarrow> session_store option \<Rightarrow> subagent_capabilities" where
  "resolveStoredSubagentCapabilities sessionKey cfg given =
     (let maxDepth = maxSpawnDepthOf cfg
      in case normalizeOptionalString sessionKey of
           None \<Rightarrow> resolveSubagentCapabilities 0 maxDepth
         | Some k \<Rightarrow>
             if \<not> shouldInspectStoredSubagentEnvelope k
             then resolveSubagentCapabilities (getSubagentDepthFromSessionStore (Some k) cfg given) maxDepth
             else (let store = resolveSubagentCapabilityStore (Some k) cfg given;
                       entry = resolveSessionCapabilityEntry cfg store k;
                       depthStore = (if cfg \<noteq> None \<and> (case map_option se_spawnDepth entry of Some (JNum _) \<Rightarrow> False | _ \<Rightarrow> True) then None else store);
                       depth = getSubagentDepthFromSessionStore (Some k) cfg depthStore
                   in if \<not> isSubagentEnvelopeSession (Some k) cfg store entry then resolveSubagentCapabilities depth maxDepth
                      else (let role = coalesce (Option.bind entry (\<lambda>e. normalizeSubagentRole (se_role e))) (cap_role (resolveSubagentCapabilities depth maxDepth));
                                scope = coalesce (Option.bind entry (\<lambda>e. normalizeSubagentControlScope (se_scope e))) (resolveSubagentControlScopeForRole role)
                            in capabilitiesOf depth role scope)))"

subsection \<open>Depth along a chain\<close>

declare depthFromStore.simps [simp del] isStoredSubagentEnvelopeSession.simps [simp del]

text \<open>A chain of sessions, each spawned by the next and none with a depth of its own, down to one whose depth is stored.\<close>

fun spawn_chain :: "session_world option \<Rightarrow> session_store option \<Rightarrow> string list \<Rightarrow> nat \<Rightarrow> bool" where
  "spawn_chain cfg given [] d = False"
| "spawn_chain cfg given [k] d =
     (normalizeOptionalString (Some k) = Some k \<and>
      Option.bind (resolveEntryForSessionKey cfg given k) (\<lambda>e. normalizeSpawnDepth (se_spawnDepth e)) = Some d)"
| "spawn_chain cfg given (k # p # ks) d =
     (normalizeOptionalString (Some k) = Some k \<and>
      (case resolveEntryForSessionKey cfg given k of
         None \<Rightarrow> False
       | Some e \<Rightarrow> normalizeSpawnDepth (se_spawnDepth e) = None \<and> normalizeOptionalString (se_spawnedBy e) = Some p) \<and>
      spawn_chain cfg given (p # ks) d)"

lemma chain_depth:
  "spawn_chain cfg given (k # ks) d \<Longrightarrow> distinct (k # ks) \<Longrightarrow> set (k # ks) \<inter> set visited = {} \<Longrightarrow>
   depthFromStore cfg given visited k = Some (d + length ks)"
proof (induction ks arbitrary: k visited)
  case Nil
  then obtain e where "resolveEntryForSessionKey cfg given k = Some e" "normalizeSpawnDepth (se_spawnDepth e) = Some d"
    by (auto simp: bind_eq_Some_conv)
  then show ?case using Nil by (simp add: depthFromStore.simps [of cfg given visited k] Let_def)
next
  case (Cons p ks)
  obtain e where e: "resolveEntryForSessionKey cfg given k = Some e" "normalizeSpawnDepth (se_spawnDepth e) = None"
    "normalizeOptionalString (se_spawnedBy e) = Some p"
    using Cons.prems(1) by (auto split: option.splits)
  have "depthFromStore cfg given (k # visited) p = Some (d + length ks)"
    by (rule Cons.IH) (use Cons.prems in auto)
  then show ?case using Cons.prems e by (simp add: depthFromStore.simps [of cfg given visited k] Let_def)
qed

text \<open>The depth of a session is found along the sessions that spawned it, however deep and however many stores they lie in: the
  stored depth at the end of the chain plus the number of steps.\<close>

theorem spawn_chain_depth:
  assumes "spawn_chain cfg given (k # ks) d" "distinct (k # ks)"
  shows "getSubagentDepthFromSessionStore (Some k) cfg given = d + length ks"
proof -
  have "normalizeOptionalString (Some k) = Some k" using assms(1) by (cases ks) auto
  then have "js_trim k = k" "k \<noteq> []" by (auto simp: normalizeOptionalString_def normalizeNullableString_def Let_def split: if_splits)
  then show ?thesis using chain_depth [OF assms, of "[]"] by (simp add: getSubagentDepthFromSessionStore_def)
qed

definition demo_entry :: "jsval \<Rightarrow> string option \<Rightarrow> session_entry" where
  "demo_entry depth parent = \<lparr>se_sessionId = None, se_spawnDepth = depth, se_role = None, se_scope = None, se_spawnedBy = parent\<rparr>"

definition demo_world :: session_world where
  "demo_world = \<lparr>sw_files =
     [(''main'', [(''agent:main:main'', demo_entry (JNum ''0'') None),
                  (''agent:main:subagent:a'', demo_entry JUndefined (Some ''agent:main:main'')),
                  (''agent:main:subagent:b'', demo_entry JUndefined (Some ''agent:main:subagent:a''))])],
     sw_path = (\<lambda>a. a), sw_defaultAgent = ''main'', sw_maxSpawnDepth = Some 2\<rparr>"

theorem spawn_chain_depth_witness:
  "getSubagentDepthFromSessionStore (Some ''agent:main:subagent:b'') (Some demo_world) None = 2"
proof -
  have "spawn_chain (Some demo_world) None [''agent:main:subagent:b'', ''agent:main:subagent:a'', ''agent:main:main''] 0" by code_simp
  from spawn_chain_depth [OF this] show ?thesis by simp
qed

end
