(* ===== verification/ToolScopes.thy ===== *)
theory ToolScopes
  imports ToolPipeline GroupPolicy SubagentRoles RouteBindings AuthCredentials
begin

text \<open>
  Where the policies of the pipeline come from: \<^verbatim>\<open>packages/core/src/agents/pi-tools.policy.ts\<close>, \<^verbatim>\<open>sandbox-tool-policy.ts\<close> and
  \<^verbatim>\<open>sandbox/tool-policy.ts\<close>. The policy of a group is looked up under ids the session key vouches for; sub-agents lose the tools of
  their parents; the sandbox denies host tools unless they are allowed by name. What channel plugins contribute (conversations,
  group policies, channel aliases) are arguments, as is the list of bundled channels.
\<close>

subsection \<open>Configured lists\<close>

definition unionAllow :: "string list option \<Rightarrow> string list option \<Rightarrow> string list option" where
  "unionAllow base extra =
     (if coalesce extra [] = [] then base
      else if coalesce base [] = [] then Some (js_unique (''*'' # coalesce extra []))
      else Some (js_unique (coalesce base [] @ coalesce extra [])))"

definition pickSandboxToolPolicy :: "'x tool_scope_scheme option \<Rightarrow> tool_policy option" where
  "pickSandboxToolPolicy config =
     (case config of
        None \<Rightarrow> None
      | Some c \<Rightarrow>
          (let allows = (if ts_allow c \<noteq> None then unionAllow (ts_allow c) (ts_alsoAllow c)
                         else if coalesce (ts_alsoAllow c) [] \<noteq> [] then unionAllow None (ts_alsoAllow c) else None)
           in if allows = None \<and> ts_deny c = None then None else Some \<lparr>tp_allow = map_option (map Text) allows, tp_deny = map_option (map Text) (ts_deny c)\<rparr>))"

record provider_scope = tool_scope +
  pv_profile :: "string option"

text \<open>\<open>tc_exec\<close> and \<open>tc_fs\<close> say whether the sections are there.\<close>

record tools_config = provider_scope +
  tc_byProvider :: "(string, provider_scope) js_map option"
  tc_exec :: bool
  tc_fs :: bool
  tc_sandbox :: "tool_scope option"
  tc_subagents :: "tool_scope option"

record policy_config =
  pc_tools :: "tools_config option"
  pc_agents :: "(string \<times> tools_config option) list"
  pc_channels :: channels_config

definition resolveAgentTools :: "policy_config \<Rightarrow> string \<Rightarrow> tools_config option" where
  "resolveAgentTools cfg agentId =
     (let i = normalizeAgentId (Some (normalizeAgentId (Some agentId)))
      in Option.bind (List.find (\<lambda>(e, _). normalizeAgentId (Some e) = i) (pc_agents cfg)) snd)"

subsection \<open>Sub-agents\<close>

definition SUBAGENT_TOOL_DENY_ALWAYS :: "string list" where
  "SUBAGENT_TOOL_DENY_ALWAYS = [''gateway'', ''agents_list'', ''session_status'', ''cron'', ''sessions_send'']"

definition SUBAGENT_TOOL_DENY_LEAF :: "string list" where
  "SUBAGENT_TOOL_DENY_LEAF = [''subagents'', ''sessions_list'', ''sessions_history'', ''sessions_spawn'']"

definition resolveSubagentDenyList :: "rat \<Rightarrow> rat \<Rightarrow> string list" where
  "resolveSubagentDenyList depth maxSpawnDepth =
     (if of_int (max 1 \<lfloor>maxSpawnDepth\<rfloor>) \<le> depth then SUBAGENT_TOOL_DENY_ALWAYS @ SUBAGENT_TOOL_DENY_LEAF else SUBAGENT_TOOL_DENY_ALWAYS)"

definition resolveSubagentDenyListForRole :: "subagent_role \<Rightarrow> string list" where
  "resolveSubagentDenyListForRole role =
     (if role = RoleLeaf then SUBAGENT_TOOL_DENY_ALWAYS @ SUBAGENT_TOOL_DENY_LEAF else SUBAGENT_TOOL_DENY_ALWAYS)"

definition subagentPolicy :: "tool_scope option \<Rightarrow> string list \<Rightarrow> tool_policy" where
  "subagentPolicy configured baseDeny =
     (let allows = Option.bind configured ts_allow; alsoAllow = Option.bind configured ts_alsoAllow;
          explicitAllow = set (map (\<lambda>t. normalizeToolName (Text t)) (coalesce allows [] @ coalesce alsoAllow []))
      in \<lparr>tp_allow = map_option (map Text)
            (if allows \<noteq> None \<and> alsoAllow \<noteq> None then Some (js_unique (coalesce allows [] @ coalesce alsoAllow [])) else allows),
          tp_deny = Some (map Text (filter (\<lambda>t. normalizeToolName (Text t) \<notin> explicitAllow) baseDeny @ coalesce (Option.bind configured ts_deny) []))\<rparr>)"

definition resolveSubagentToolPolicy :: "policy_config option \<Rightarrow> rat option \<Rightarrow> rat option \<Rightarrow> tool_policy" where
  "resolveSubagentToolPolicy cfg maxSpawnDepth depth =
     (let effectiveDepth = (case depth of Some d \<Rightarrow> if 0 \<le> d then d else 1 | None \<Rightarrow> 1)
      in subagentPolicy (Option.bind (Option.bind cfg pc_tools) tc_subagents)
           (resolveSubagentDenyList effectiveDepth (coalesce maxSpawnDepth (of_nat DEFAULT_SUBAGENT_MAX_SPAWN_DEPTH))))"

definition resolveSubagentToolPolicyForSession :: "policy_config option \<Rightarrow> session_world option \<Rightarrow> string \<Rightarrow> session_store option \<Rightarrow> tool_policy" where
  "resolveSubagentToolPolicyForSession cfg w sessionKey given =
     (let store = resolveSubagentCapabilityStore (Some sessionKey) w given;
          capabilities = resolveStoredSubagentCapabilities (Some sessionKey) w store
      in subagentPolicy (Option.bind (Option.bind cfg pc_tools) tc_subagents) (resolveSubagentDenyListForRole (cap_role capabilities)))"

subsection \<open>Policies by provider\<close>

definition normalizeProviderKey :: "string \<Rightarrow> string" where
  "normalizeProviderKey v =
     (let normalized = normalizeLowercaseStringOrEmpty (Some v); provider = takeWhile (\<lambda>c. c \<noteq> CHR ''/'') normalized;
          modelId = tl (dropWhile (\<lambda>c. c \<noteq> CHR ''/'') normalized)
      in if CHR ''/'' \<notin> set normalized \<or> provider = [] then normalizeProviderId normalized
         else if modelId \<noteq> [] then normalizeProviderId provider @ ''/'' @ modelId else normalizeProviderId provider)"

definition isCanonicalProviderKey :: "string \<Rightarrow> bool" where
  "isCanonicalProviderKey v = (normalizeLowercaseStringOrEmpty (Some v) = normalizeProviderKey v)"

definition addProviderPolicy :: "string \<times> provider_scope \<Rightarrow> (string, bool \<times> provider_scope) js_map \<Rightarrow> (string, bool \<times> provider_scope) js_map" where
  "addProviderPolicy entry lookup =
     (let normalized = normalizeProviderKey (fst entry); canonical = isCanonicalProviderKey (fst entry)
      in if normalized = [] then lookup
         else (case map_of lookup normalized of
                 None \<Rightarrow> AList.update normalized (canonical, snd entry) lookup
               | Some existing \<Rightarrow>
                   if canonical \<and> \<not> fst existing then AList.update normalized (canonical, snd entry) lookup else lookup))"

definition buildProviderToolPolicyLookup :: "(string, provider_scope) js_map \<Rightarrow> (string, provider_scope) js_map" where
  "buildProviderToolPolicyLookup entries = map (\<lambda>(k, e). (k, snd e)) (fold addProviderPolicy entries [])"

definition resolveProviderToolPolicy :: "(string, provider_scope) js_map option \<Rightarrow> string option \<Rightarrow> string option \<Rightarrow> provider_scope option" where
  "resolveProviderToolPolicy byProvider modelProvider modelId =
     (let provider = map_option js_trim modelProvider
      in if \<not> truthy_string provider \<or> coalesce byProvider [] = [] then None
         else (let lookup = buildProviderToolPolicyLookup (coalesce byProvider []); normalizedProvider = normalizeProviderKey (coalesce provider []);
                   rawModelId = normalizeOptionalLowercaseString modelId;
                   fullModelId = (if truthy_string rawModelId then [normalizedProvider @ ''/'' @ coalesce rawModelId []] else [])
               in first_some (map_of lookup) (fullModelId @ [normalizedProvider])))"

definition detectImplicitProfileGrants :: "tools_config option \<Rightarrow> tools_config option \<Rightarrow> string list option" where
  "detectImplicitProfileGrants globalTools agentTools =
     (let section = (\<lambda>part. (case agentTools of None \<Rightarrow> False | Some t \<Rightarrow> part t) \<or> (case globalTools of None \<Rightarrow> False | Some t \<Rightarrow> part t));
          implicit = (if section tc_exec then [''exec'', ''process''] else []) @ (if section tc_fs then [''read'', ''write'', ''edit''] else [])
      in if implicit \<noteq> [] then Some implicit else None)"

text \<open>\<open>ep_uncovered\<close> are the tools the migration warning names.\<close>

record effective_policy =
  ep_agentId :: "string option"
  ep_global :: "tool_policy option"
  ep_globalProvider :: "tool_policy option"
  ep_agent :: "tool_policy option"
  ep_agentProvider :: "tool_policy option"
  ep_profile :: "string option"
  ep_providerProfile :: "string option"
  ep_profileAlsoAllow :: "string list option"
  ep_providerProfileAlsoAllow :: "string list option"
  ep_uncovered :: "string list"

definition resolveEffectiveToolPolicy :: "policy_config option \<Rightarrow> string option \<Rightarrow> string option \<Rightarrow> string option \<Rightarrow> string option \<Rightarrow> effective_policy" where
  "resolveEffectiveToolPolicy config sessionKey agentIdIn modelProvider modelId =
     (let explicitAgentId = (if truthy_string (map_option js_trim agentIdIn) then Some (normalizeAgentId agentIdIn) else None);
          agentId = or_else explicitAgentId (if truthy_string sessionKey then Some (resolveAgentIdFromSessionKey sessionKey) else None);
          agentTools = (case (config, agentId) of (Some cfg, Some a) \<Rightarrow> if a = [] then None else resolveAgentTools cfg a | _ \<Rightarrow> None);
          globalTools = Option.bind config pc_tools;
          profile = or_else (Option.bind agentTools pv_profile) (Option.bind globalTools pv_profile);
          providerPolicy = resolveProviderToolPolicy (Option.bind globalTools tc_byProvider) modelProvider modelId;
          agentProviderPolicy = resolveProviderToolPolicy (Option.bind agentTools tc_byProvider) modelProvider modelId;
          explicitProfileAlsoAllow = or_else (Option.bind agentTools ts_alsoAllow) (Option.bind globalTools ts_alsoAllow);
          profilePolicy = mergeAlsoAllowPolicy (resolveToolProfilePolicy profile) explicitProfileAlsoAllow
      in \<lparr>ep_agentId = agentId, ep_global = pickSandboxToolPolicy globalTools, ep_globalProvider = pickSandboxToolPolicy providerPolicy,
          ep_agent = pickSandboxToolPolicy agentTools, ep_agentProvider = pickSandboxToolPolicy agentProviderPolicy, ep_profile = profile,
          ep_providerProfile = or_else (Option.bind agentProviderPolicy pv_profile) (Option.bind providerPolicy pv_profile),
          ep_profileAlsoAllow = map_option js_unique explicitProfileAlsoAllow,
          ep_providerProfileAlsoAllow = or_else (Option.bind agentProviderPolicy ts_alsoAllow) (Option.bind providerPolicy ts_alsoAllow),
          ep_uncovered = (if truthy_string profile
             then filter (\<lambda>t. \<not> isToolAllowedByPolicyName t profilePolicy) (coalesce (detectImplicitProfileGrants globalTools agentTools) []) else [])\<rparr>)"

subsection \<open>The sandbox\<close>

definition DEFAULT_TOOL_ALLOW :: "string list" where
  "DEFAULT_TOOL_ALLOW =
     [''exec'', ''process'', ''read'', ''write'', ''edit'', ''apply_patch'', ''image'', ''sessions_list'', ''sessions_history'',
      ''sessions_send'', ''sessions_spawn'', ''sessions_yield'', ''subagents'', ''session_status'']"

definition DEFAULT_TOOL_DENY :: "channel_catalog \<Rightarrow> string list" where
  "DEFAULT_TOOL_DENY entries = [''browser'', ''canvas'', ''nodes'', ''cron'', ''gateway''] @ map fst entries"

datatype policy_origin = FromAgent | FromGlobal | FromDefault

definition pickConfigured :: "(tool_scope \<Rightarrow> string list option) \<Rightarrow> tool_scope option \<Rightarrow> tool_scope option \<Rightarrow> string list option \<times> policy_origin" where
  "pickConfigured part agent global =
     (case Option.bind agent part of
        Some v \<Rightarrow> (Some v, FromAgent)
      | None \<Rightarrow> (case Option.bind global part of Some v \<Rightarrow> (Some v, FromGlobal) | None \<Rightarrow> (None, FromDefault)))"

definition mergeAllowlist :: "string list option \<Rightarrow> string list option \<Rightarrow> string list" where
  "mergeAllowlist base extra =
     (case base of
        Some b \<Rightarrow> if b = [] then [] else if coalesce extra [] = [] then b else js_unique (b @ coalesce extra [])
      | None \<Rightarrow> if coalesce extra [] \<noteq> [] then js_unique (DEFAULT_TOOL_ALLOW @ coalesce extra []) else DEFAULT_TOOL_ALLOW)"

definition pickAllowSource :: "policy_origin \<Rightarrow> bool \<Rightarrow> policy_origin \<Rightarrow> policy_origin \<times> bool" where
  "pickAllowSource allowSource allowDefined alsoAllowSource =
     (if allowDefined \<and> allowSource = FromAgent then (allowSource, False)
      else if alsoAllowSource = FromAgent then (alsoAllowSource, True)
      else if allowDefined \<and> allowSource = FromGlobal then (allowSource, False)
      else if alsoAllowSource = FromGlobal then (alsoAllowSource, True)
      else (allowSource, False))"

definition filterDefaultDenyForExplicitAllows :: "string list \<Rightarrow> string list \<Rightarrow> string list" where
  "filterDefaultDenyForExplicitAllows denied explicitAllowPatterns =
     (let allowPatterns = compileGlobPatterns normalizePattern (Some (expandToolGroups (Some (map Text explicitAllowPatterns))))
      in if explicitAllowPatterns = [] \<or> allowPatterns = [] then denied
         else filter (\<lambda>t. \<not> matchesAnyGlobPattern (normalizeToolName (Text t)) allowPatterns) denied)"

definition expandResolvedPolicy :: "tool_policy \<Rightarrow> tool_policy" where
  "expandResolvedPolicy policy =
     (let expandedDeny = expandToolGroups (tp_deny policy); expandedAllow = expandToolGroups (tp_allow policy);
          lower = map (\<lambda>t. case t of Text s \<Rightarrow> normalizeLowercaseStringOrEmpty (Some s) | Inherited _ \<Rightarrow> [])
      in \<lparr>tp_allow = Some (if expandedAllow \<noteq> [] \<and> ''image'' \<notin> set (lower expandedDeny) \<and> ''image'' \<notin> set (lower expandedAllow)
                         then expandedAllow @ [Text ''image''] else expandedAllow),
          tp_deny = Some expandedDeny\<rparr>)"

text \<open>Blocked by the deny list, and blocked by the allow list.\<close>

definition classifyToolAgainstSandboxToolPolicy :: "string \<Rightarrow> tool_policy option \<Rightarrow> bool \<times> bool" where
  "classifyToolAgainstSandboxToolPolicy name policy =
     (case policy of
        None \<Rightarrow> (False, False)
      | Some p \<Rightarrow>
          (let normalized = normalizeToolName (Text name);
               blockedByDeny = matchesAnyGlobPattern normalized (compileGlobPatterns normalizePattern (Some (expandToolGroups (tp_deny p))));
               allows = compileGlobPatterns normalizePattern (Some (expandToolGroups (tp_allow p)))
           in (blockedByDeny, \<not> blockedByDeny \<and> allows \<noteq> [] \<and> \<not> matchesAnyGlobPattern normalized allows)))"

definition isToolAllowed :: "tool_policy \<Rightarrow> string \<Rightarrow> bool" where
  "isToolAllowed policy name =
     (let (blockedByDeny, blockedByAllow) = classifyToolAgainstSandboxToolPolicy name (Some policy) in \<not> blockedByDeny \<and> \<not> blockedByAllow)"

definition sandboxScopes :: "policy_config option \<Rightarrow> string option \<Rightarrow> tool_scope option \<times> tool_scope option" where
  "sandboxScopes cfg agentId =
     ((case cfg of None \<Rightarrow> None
       | Some c \<Rightarrow> if truthy_string agentId then Option.bind (resolveAgentTools c (coalesce agentId [])) tc_sandbox else None),
      Option.bind (Option.bind cfg pc_tools) tc_sandbox)"

definition resolveSandboxToolPolicyForAgent :: "channel_catalog \<Rightarrow> policy_config option \<Rightarrow> string option \<Rightarrow> tool_policy \<times> (policy_origin \<times> bool) \<times> policy_origin" where
  "resolveSandboxToolPolicyForAgent entries cfg agentId =
     (let (agentPolicy, globalPolicy) = sandboxScopes cfg agentId;
          (allows, allowSource) = pickConfigured ts_allow agentPolicy globalPolicy;
          (also, alsoSource) = pickConfigured ts_alsoAllow agentPolicy globalPolicy;
          (denied, denySource) = pickConfigured ts_deny agentPolicy globalPolicy;
          explicitAllowPatterns = js_unique (coalesce allows [] @ coalesce also []);
          resolvedDeny = (case denied of Some d \<Rightarrow> d | None \<Rightarrow> filterDefaultDenyForExplicitAllows (DEFAULT_TOOL_DENY entries) explicitAllowPatterns)
      in (expandResolvedPolicy \<lparr>tp_allow = Some (map Text (mergeAllowlist allows also)), tp_deny = Some (map Text resolvedDeny)\<rparr>,
          pickAllowSource allowSource (allows \<noteq> None) alsoSource, denySource))"

subsection \<open>The group a session belongs to\<close>

definition collectUniqueStrings :: "string option list \<Rightarrow> string list" where
  "collectUniqueStrings vs = js_unique (filter (\<lambda>v. v \<noteq> []) (map (\<lambda>v. js_trim (coalesce v [])) vs))"

text \<open>\<^verbatim>\<open>/^(.+):topic:([^:]+):sender:([^:]+)$/i\<close> and its two shorter forms, on the pieces between the colons from the end.\<close>

definition chat_part :: "string list \<Rightarrow> string option" where
  "chat_part revParts = (let c = js_join '':'' (rev revParts) in if revParts \<noteq> [] \<and> c \<noteq> [] \<and> one_line c then Some c else None)"

definition keyword :: "string \<Rightarrow> string \<Rightarrow> bool" where
  "keyword w s = (js_lower s = w)"

definition topicSenderMatch :: "string \<Rightarrow> (string \<times> string) option" where
  "topicSenderMatch raw =
     (case rev (js_split CHR '':'' raw) of
        sender # w1 # topic # w2 # chat \<Rightarrow>
          if sender \<noteq> [] \<and> keyword ''sender'' w1 \<and> topic \<noteq> [] \<and> keyword ''topic'' w2
          then map_option (\<lambda>c. (c, topic)) (chat_part chat) else None
      | _ \<Rightarrow> None)"

definition suffixMatch :: "string \<Rightarrow> string \<Rightarrow> (string \<times> string) option" where
  "suffixMatch w raw =
     (case rev (js_split CHR '':'' raw) of
        v # w1 # chat \<Rightarrow> if v \<noteq> [] \<and> keyword w w1 then map_option (\<lambda>c. (c, v)) (chat_part chat) else None
      | _ \<Rightarrow> None)"

definition buildScopedGroupIdCandidates :: "string option \<Rightarrow> string list" where
  "buildScopedGroupIdCandidates groupId =
     (let raw = js_trim (coalesce groupId [])
      in if raw = [] then []
         else (case topicSenderMatch raw of
                 Some (chatId, topicId) \<Rightarrow> collectUniqueStrings (map Some [raw, chatId @ '':topic:'' @ topicId, chatId])
               | None \<Rightarrow>
                   (case suffixMatch ''topic'' raw of
                      Some (chatId, topicId) \<Rightarrow> collectUniqueStrings (map Some [chatId @ '':topic:'' @ topicId, chatId])
                    | None \<Rightarrow>
                        (case suffixMatch ''sender'' raw of
                           Some (chatId, _) \<Rightarrow> collectUniqueStrings (map Some [raw, chatId])
                         | None \<Rightarrow> [raw]))))"

record session_conversation =
  sc_id :: "string option"
  sc_base :: "string option"
  sc_parents :: "string list"

type_synonym conversation_resolver = "string \<Rightarrow> string \<Rightarrow> string \<Rightarrow> session_conversation option"

record group_context =
  gx_channel :: "string option"
  gx_groupIds :: "string list option"

definition noGroup :: group_context where
  "noGroup = \<lparr>gx_channel = None, gx_groupIds = None\<rparr>"

definition resolveGroupContextFromSessionKey :: "conversation_resolver \<Rightarrow> string option \<Rightarrow> group_context" where
  "resolveGroupContextFromSessionKey resolver sessionKey =
     (let raw = js_trim (coalesce sessionKey [])
      in if raw = [] then noGroup
         else (let parsed = parseThreadSessionSuffix (Some raw);
                   conversationKey = (if truthy_string (thread_id parsed) then base_key parsed else Some raw)
               in case parseRawSessionConversationRef conversationKey of
                    Some conversation \<Rightarrow>
                      (let resolved = resolver (ref_channel conversation) (ref_kind conversation) (ref_rawId conversation)
                       in \<lparr>gx_channel = Some (ref_channel conversation),
                           gx_groupIds = Some (collectUniqueStrings (map Some (buildScopedGroupIdCandidates (Some (ref_rawId conversation))) @
                             (case resolved of None \<Rightarrow> [] | Some r \<Rightarrow> [sc_id r, sc_base r] @ map Some (sc_parents r))))\<rparr>)
                  | None \<Rightarrow>
                      (let parts = segments (coalesce conversationKey raw);
                           body0 = (if parts \<noteq> [] \<and> hd parts = ''agent'' then drop 2 parts else parts);
                           body = (if body0 \<noteq> [] \<and> hd body0 = ''subagent'' then tl body0 else body0);
                           groupId = js_trim (js_join '':'' (drop 2 body))
                       in if length body < 3 \<or> body ! 1 \<notin> {''group'', ''channel''} \<or> groupId = [] then noGroup
                          else \<lparr>gx_channel = Some (normalizeLowercaseStringOrEmpty (Some (hd body))),
                                gx_groupIds = Some (buildScopedGroupIdCandidates (Some groupId))\<rparr>)))"

definition resolveTrustedGroupIdFromContexts :: "string option \<Rightarrow> group_context \<Rightarrow> group_context \<Rightarrow> string option \<times> bool" where
  "resolveTrustedGroupIdFromContexts groupId sessionContext spawnedContext =
     (let callerGroupId = js_trim (coalesce groupId []);
          trustedGroupIds = collectUniqueStrings (map Some (coalesce (gx_groupIds sessionContext) [] @ coalesce (gx_groupIds spawnedContext) []))
      in if callerGroupId = [] then (groupId, False)
         else if trustedGroupIds = [] then (None, True)
         else if callerGroupId \<in> set trustedGroupIds then (groupId, False)
         else (None, True))"

definition resolveTrustedGroupId :: "conversation_resolver \<Rightarrow> string option \<Rightarrow> string option \<Rightarrow> string option \<Rightarrow> string option \<times> bool" where
  "resolveTrustedGroupId resolver groupId sessionKey spawnedBy =
     resolveTrustedGroupIdFromContexts groupId (resolveGroupContextFromSessionKey resolver sessionKey) (resolveGroupContextFromSessionKey resolver spawnedBy)"

definition normalizeMessageChannel :: "channel_catalog \<Rightarrow> (string \<Rightarrow> string option) \<Rightarrow> string option \<Rightarrow> string option" where
  "normalizeMessageChannel entries registered raw =
     (let normalized = normalizeOptionalLowercaseString raw
      in if \<not> truthy_string normalized then None
         else if normalized = Some ''webchat'' then Some ''webchat''
         else (let builtIn = normalizeChatChannelId entries normalized
               in if truthy_string builtIn then builtIn else Some (coalesce (registered (coalesce normalized [])) (coalesce normalized []))))"

text \<open>A channel plugin's own policy for a group; the channel and space of the group are withheld from it when the caller's group id
  was dropped.\<close>

type_synonym plugin_group_policy = "string \<Rightarrow> string \<Rightarrow> string option \<Rightarrow> string option \<Rightarrow> tool_scope option"

record group_request =
  gr_sessionKey :: "string option"
  gr_spawnedBy :: "string option"
  gr_messageProvider :: "string option"
  gr_groupId :: "string option"
  gr_groupChannel :: "string option"
  gr_groupSpace :: "string option"
  gr_accountId :: "string option"
  gr_sender :: group_sender

definition resolveGroupToolPolicy :: "channel_catalog \<Rightarrow> (string \<Rightarrow> string option) \<Rightarrow> conversation_resolver \<Rightarrow> plugin_group_policy \<Rightarrow> policy_config option
    \<Rightarrow> group_request \<Rightarrow> tool_policy option" where
  "resolveGroupToolPolicy entries registered resolver plugin config r =
     (case config of
        None \<Rightarrow> None
      | Some cfg \<Rightarrow>
          (let sessionContext = resolveGroupContextFromSessionKey resolver (gr_sessionKey r);
               spawnedContext = resolveGroupContextFromSessionKey resolver (gr_spawnedBy r);
               (trustedId, dropped) = resolveTrustedGroupIdFromContexts (gr_groupId r) sessionContext spawnedContext;
               groupIds = collectUniqueStrings (map Some (coalesce (gx_groupIds sessionContext) [] @ coalesce (gx_groupIds spawnedContext) [] @
                            buildScopedGroupIdCandidates trustedId));
               channel = normalizeMessageChannel entries registered
                            (or_else (gx_channel sessionContext) (or_else (gx_channel spawnedContext) (gr_messageProvider r)))
           in if groupIds = [] \<or> \<not> truthy_string channel then None
              else (case first_some (\<lambda>g. pickSandboxToolPolicy (plugin (coalesce channel []) g
                             (if dropped then None else gr_groupChannel r) (if dropped then None else gr_groupSpace r))) groupIds of
                      Some p \<Rightarrow> Some p
                    | None \<Rightarrow>
                        pickSandboxToolPolicy (resolveChannelGroupToolsPolicy (pc_channels cfg) (coalesce channel []) (Some (hd groupIds))
                          (map Some (tl groupIds)) (gr_accountId r) False (gr_sender r)))))"

subsection \<open>Host tools stay out of the sandbox\<close>

lemma default_entry_denies:
  assumes "plain_name n" "n \<in> set denied"
  shows "matchesAnyGlobPattern (Text n) (compileGlobPatterns normalizePattern
    (Some (expandToolGroups (tp_deny (expandResolvedPolicy \<lparr>tp_allow = a, tp_deny = Some (map Text denied)\<rparr>)))))"
proof -
  have in_expanded: "Text n \<in> set (expandToolGroups (Some xs))" if "Text n \<in> set xs" for xs
    using that assms(1) by (force simp: expandToolGroups_def normalizeToolList_def expandGroup_def plain_name_def isToolGroup_def)
  have "Text n \<in> set (expandToolGroups (Some (expandToolGroups (Some (map Text denied)))))"
    using assms(2) by (intro in_expanded) simp
  moreover have "normalizePattern (Text n) \<noteq> []" using assms(1) by (simp add: plain_name_def normalizePattern_def)
  ultimately show ?thesis
    using match_plain [OF assms(1), of n] unfolding matches_compiled by (auto simp: expandResolvedPolicy_def Let_def)
qed

definition no_plugins :: plugin_tool_groups where
  "no_plugins = \<lparr>group_all = [], group_by_plugin = []\<rparr>"

lemma named_plain:
  "matchesAnyGlobPattern (Text n) (compileGlobPatterns normalizePattern (Some (expandToolGroups (Some xs)))) = (\<exists>e \<in> set xs. entry_names no_plugins e n)"
proof -
  have plain: "plain_groups no_plugins" by (simp add: plain_groups_def no_plugins_def)
  have single: "expandPluginEntry no_plugins e = [normalizeToolName e]" for e
    by (cases "normalizeToolName e") (simp_all add: expandPluginEntry_def no_plugins_def Let_def)
  have leads: "leads_match n (entry_leads no_plugins e) = leads_match n (concat (map expandGroup (normalizeToolList (Some [e]))))" for e
  proof (cases "normalizeToolName e")
    case (Text k)
    then show ?thesis using normal_text [OF Text] by (simp add: entry_leads_def single normalizeToolList_def)
  next
    case (Inherited f)
    then have "expandGroup (Inherited f) = [Inherited f]" using inherited_no_group by (simp add: expandGroup_def)
    then show ?thesis using Inherited by (simp add: entry_leads_def single normalizeToolList_def leads_match_def normalizePattern_def)
  qed
  have "set (expandToolGroups (Some xs)) = (\<Union>e \<in> set xs. set (concat (map expandGroup (normalizeToolList (Some [e])))))"
    by (auto simp: expandToolGroups_def normalizeToolList_def split: if_splits)
  then show ?thesis unfolding matches_compiled entry_match [OF plain, symmetric] leads by (simp add: leads_match_def)
qed

definition host_tools :: "string list" where
  "host_tools = [''browser'', ''canvas'', ''nodes'', ''cron'', ''gateway'']"

text \<open>What the configuration of a sandbox lists: the agent's list, or else the global one.\<close>

definition sandbox_list :: "(tool_scope \<Rightarrow> string list option) \<Rightarrow> policy_config option \<Rightarrow> string option \<Rightarrow> string list option" where
  "sandbox_list part cfg agentId = (case sandboxScopes cfg agentId of (a, g) \<Rightarrow> or_else (Option.bind a part) (Option.bind g part))"

lemma picked_list: "fst (pickConfigured part (fst (sandboxScopes cfg agentId)) (snd (sandboxScopes cfg agentId))) = sandbox_list part cfg agentId"
  by (cases "sandboxScopes cfg agentId") (auto simp: pickConfigured_def sandbox_list_def split: option.split)

lemma sandbox_policy:
  "fst (resolveSandboxToolPolicyForAgent entries cfg agentId) =
     expandResolvedPolicy \<lparr>tp_allow = Some (map Text (mergeAllowlist (sandbox_list ts_allow cfg agentId) (sandbox_list ts_alsoAllow cfg agentId))),
       tp_deny = Some (map Text (case sandbox_list ts_deny cfg agentId of Some d \<Rightarrow> d
         | None \<Rightarrow> filterDefaultDenyForExplicitAllows (DEFAULT_TOOL_DENY entries)
              (js_unique (coalesce (sandbox_list ts_allow cfg agentId) [] @ coalesce (sandbox_list ts_alsoAllow cfg agentId) []))))\<rparr>"
  unfolding resolveSandboxToolPolicyForAgent_def Let_def picked_list [symmetric]
  by (simp add: case_prod_beta)

text \<open>C33: Without a deny list of its own a sandbox denies the tools of the host (browser, canvas, nodes, cron and gateway), unless an
  entry that the configuration allows or also allows names the tool: itself, by its group or by a pattern.\<close>

theorem sandbox_keeps_host_tools_out:
  assumes "sandbox_list ts_deny cfg agentId = None"
    and "normalizeToolName (Text name) = Text tool" "tool \<in> set host_tools"
    and "list_all (\<lambda>e. \<not> entry_names no_plugins (Text e) tool)
           (coalesce (sandbox_list ts_allow cfg agentId) [] @ coalesce (sandbox_list ts_alsoAllow cfg agentId) [])"
  shows "\<not> isToolAllowed (fst (resolveSandboxToolPolicyForAgent entries cfg agentId)) name"
proof -
  let ?explicit = "js_unique (coalesce (sandbox_list ts_allow cfg agentId) [] @ coalesce (sandbox_list ts_alsoAllow cfg agentId) [])"
  have "set host_tools \<subseteq> ct_id ` set CORE_TOOL_DEFINITIONS" by (simp add: host_tools_def CORE_TOOL_DEFINITIONS_def core_tool_def)
  then have plain: "plain_name tool" using assms(3) catalogue_plain by blast
  have "\<not> matchesAnyGlobPattern (Text tool) (compileGlobPatterns normalizePattern (Some (expandToolGroups (Some (map Text ?explicit)))))"
    using assms(4) unfolding named_plain by (auto simp: list_all_iff)
  moreover have "tool \<in> set (DEFAULT_TOOL_DENY entries)" using assms(3) by (auto simp: DEFAULT_TOOL_DENY_def host_tools_def)
  moreover have "normalizeToolName (Text tool) = Text tool" using plain by (simp add: plain_name_def)
  ultimately have "tool \<in> set (filterDefaultDenyForExplicitAllows (DEFAULT_TOOL_DENY entries) ?explicit)"
    by (simp add: filterDefaultDenyForExplicitAllows_def Let_def)
  from default_entry_denies [OF plain this] show ?thesis
    unfolding sandbox_policy by (simp add: isToolAllowed_def classifyToolAgainstSandboxToolPolicy_def assms(1, 2) Let_def)
qed

subsection \<open>Sub-agents at the bottom\<close>

lemma store_same:
  assumes "normalizeOptionalString v = Some k"
  shows "resolveSubagentCapabilityStore (Some k) cfg given = resolveSubagentCapabilityStore v cfg given"
    "resolveSubagentCapabilityStore v cfg (resolveSubagentCapabilityStore v cfg given) = resolveSubagentCapabilityStore v cfg given"
  using assms normalize_again [OF assms] by (auto simp: resolveSubagentCapabilityStore_def split: option.splits)

lemma store_again:
  "resolveStoredSubagentCapabilities v cfg (resolveSubagentCapabilityStore v cfg given) = resolveStoredSubagentCapabilities v cfg given"
proof (cases "normalizeOptionalString v")
  case None
  then show ?thesis by (simp add: resolveStoredSubagentCapabilities_def)
next
  case (Some k)
  show ?thesis
  proof (cases "shouldInspectStoredSubagentEnvelope k")
    case True
    then show ?thesis by (simp only: resolveStoredSubagentCapabilities_def Some option.case Let_def store_same [OF Some] True not_True_eq_False if_False)
  next
    case False
    then have "resolveSubagentCapabilityStore v cfg given = given"
      using Some by (auto simp: resolveSubagentCapabilityStore_def split: option.split)
    then show ?thesis by simp
  qed
qed

lemma role_of_depth:
  assumes "isSubagentSessionKey (Some k)" "normalizeOptionalString (Some k) = Some k"
    and "Option.bind (resolveSessionCapabilityEntry cfg (resolveSubagentCapabilityStore (Some k) cfg given) k) (\<lambda>e. normalizeSubagentRole (se_role e)) = None"
  shows "cap_role (resolveStoredSubagentCapabilities (Some k) cfg given) =
    resolveSubagentRoleForDepth (cap_depth (resolveStoredSubagentCapabilities (Some k) cfg given)) (maxSpawnDepthOf cfg)"
  using assms
  by (simp add: resolveStoredSubagentCapabilities_def shouldInspectStoredSubagentEnvelope_def isSubagentEnvelopeSession_def Let_def
      resolveSubagentCapabilities_def capabilitiesOf_def)

definition subagent_list :: "(tool_scope \<Rightarrow> string list option) \<Rightarrow> policy_config option \<Rightarrow> string list" where
  "subagent_list part cfg = coalesce (Option.bind (Option.bind (Option.bind cfg pc_tools) tc_subagents) part) []"

text \<open>A sub-agent at the deepest level cannot spawn or steer sessions, nor use the tools kept from every sub-agent: when its depth
  reaches the limit and nobody stored a role for it, its policy gives none of these tools, unless the configuration of sub-agents
  allows the tool by its own name.\<close>

theorem deepest_subagent_limited:
  assumes "isSubagentSessionKey (Some k)" "normalizeOptionalString (Some k) = Some k"
    and "Option.bind (resolveSessionCapabilityEntry w (resolveSubagentCapabilityStore (Some k) w given) k) (\<lambda>e. normalizeSubagentRole (se_role e)) = None"
    and "max 1 \<lfloor>maxSpawnDepthOf w\<rfloor> \<le> int (cap_depth (resolveStoredSubagentCapabilities (Some k) w given))"
    and "normalizeToolName (Text name) = Text tool" "tool \<in> set (SUBAGENT_TOOL_DENY_ALWAYS @ SUBAGENT_TOOL_DENY_LEAF)"
    and "Text tool \<notin> normalizeToolName ` Text ` set (subagent_list ts_allow cfg @ subagent_list ts_alsoAllow cfg)"
  shows "\<not> isToolAllowedByPolicyName name (Some (resolveSubagentToolPolicyForSession cfg w k given))"
proof -
  have leaf: "cap_role (resolveStoredSubagentCapabilities (Some k) w given) = RoleLeaf"
    using assms(4) unfolding role_of_depth [OF assms(1-3)] by (auto simp: resolveSubagentRoleForDepth_def)
  have sub: "set (SUBAGENT_TOOL_DENY_ALWAYS @ SUBAGENT_TOOL_DENY_LEAF) \<subseteq> ct_id ` set CORE_TOOL_DEFINITIONS"
    by (simp add: SUBAGENT_TOOL_DENY_ALWAYS_def SUBAGENT_TOOL_DENY_LEAF_def CORE_TOOL_DEFINITIONS_def core_tool_def)
  then have plain: "plain_name tool" using assms(6) catalogue_plain by blast
  then have norm: "normalizeToolName (Text tool) = Text tool" by (simp add: plain_name_def)
  have "Text tool \<in> set (coalesce (tp_deny (resolveSubagentToolPolicyForSession cfg w k given)) [])"
    using assms(6, 7) leaf norm
    by (auto simp: resolveSubagentToolPolicyForSession_def store_again subagentPolicy_def resolveSubagentDenyListForRole_def subagent_list_def Let_def
        image_Un image_image)
  moreover have "entry_names no_plugins (Text tool) tool"
    using plain norm by (simp add: entry_names_def names_nothing_def no_plugins_def plain_name_def isToolGroup_def star_free)
  ultimately have "matchesAnyGlobPattern (Text tool) (compileGlobPatterns normalizePattern
      (Some (expandToolGroups (tp_deny (resolveSubagentToolPolicyForSession cfg w k given)))))"
    by (cases "tp_deny (resolveSubagentToolPolicyForSession cfg w k given)") (auto simp: named_plain)
  then show ?thesis by (simp add: isToolAllowedByPolicyName_def makeToolPolicyMatcher_def Let_def assms(5))
qed

text \<open>Two levels are allowed, and the session is at the second.\<close>

definition demo_tools_config :: "string list option \<Rightarrow> tools_config" where
  "demo_tools_config allows = \<lparr>ts_allow = None, ts_alsoAllow = None, ts_deny = None, pv_profile = None, tc_byProvider = None, tc_exec = False, tc_fs = False,
     tc_sandbox = Some \<lparr>ts_allow = allows, ts_alsoAllow = None, ts_deny = None\<rparr>, tc_subagents = None\<rparr>"

definition demo_policy_config :: policy_config where
  "demo_policy_config = \<lparr>pc_tools = Some (demo_tools_config (Some [''exec'', ''group:fs'', ''sessions_*''])), pc_agents = [], pc_channels = []\<rparr>"

theorem deepest_subagent_limited_witness:
  "\<not> isToolAllowedByPolicyName ''Sessions_Spawn'' (Some (resolveSubagentToolPolicyForSession (Some demo_policy_config) (Some demo_world) ''agent:main:subagent:b'' None))"
proof (rule deepest_subagent_limited)
  show "isSubagentSessionKey (Some ''agent:main:subagent:b'')" by code_simp
  show "normalizeOptionalString (Some ''agent:main:subagent:b'') = Some ''agent:main:subagent:b''" by code_simp
  show "Option.bind (resolveSessionCapabilityEntry (Some demo_world) (resolveSubagentCapabilityStore (Some ''agent:main:subagent:b'') (Some demo_world) None)
      ''agent:main:subagent:b'') (\<lambda>e. normalizeSubagentRole (se_role e)) = None" by code_simp
  show "max 1 \<lfloor>maxSpawnDepthOf (Some demo_world)\<rfloor> \<le> int (cap_depth (resolveStoredSubagentCapabilities (Some ''agent:main:subagent:b'') (Some demo_world) None))"
    by code_simp
  show "normalizeToolName (Text ''Sessions_Spawn'') = Text ''sessions_spawn''" by code_simp
  show "''sessions_spawn'' \<in> set (SUBAGENT_TOOL_DENY_ALWAYS @ SUBAGENT_TOOL_DENY_LEAF)" by code_simp
  show "Text ''sessions_spawn'' \<notin> normalizeToolName ` Text ` set (subagent_list ts_allow (Some demo_policy_config) @ subagent_list ts_alsoAllow (Some demo_policy_config))"
    by code_simp
qed

theorem sandbox_keeps_host_tools_out_witness:
  "\<not> isToolAllowed (fst (resolveSandboxToolPolicyForAgent [] (Some demo_policy_config) None)) ''Gateway''"
proof (rule sandbox_keeps_host_tools_out)
  show "sandbox_list ts_deny (Some demo_policy_config) None = None" by code_simp
  show "normalizeToolName (Text ''Gateway'') = Text ''gateway''" by code_simp
  show "''gateway'' \<in> set host_tools" by code_simp
  show "list_all (\<lambda>e. \<not> entry_names no_plugins (Text e) ''gateway'')
      (coalesce (sandbox_list ts_allow (Some demo_policy_config) None) [] @ coalesce (sandbox_list ts_alsoAllow (Some demo_policy_config) None) [])" by code_simp
qed

subsection \<open>Direct chats\<close>

lemma js_split_at: "js_split c (s @ c # t) = js_split c s @ js_split c t"
proof (induction s)
  case (Cons d s)
  show ?case
  proof (cases "d = c")
    case False
    then show ?thesis using Cons.IH js_split_Cons [OF False, of "s @ c # t"] js_split_Cons [OF False, of s]
      by (cases "js_split c s") auto
  qed (use Cons.IH in simp)
qed simp

lemma thread_marker_segment:
  assumes "occurs_at '':thread:'' s i"
  shows "\<exists>xs ys. js_split CHR '':'' s = xs @ ''thread'' # ys \<and> xs \<noteq> [] \<and> ys \<noteq> []"
proof -
  obtain r where "drop i s = '':thread:'' @ r" using assms by (auto simp: occurs_at_def starts_with_iff)
  then have s: "s = take i s @ CHR '':'' # ''thread'' @ CHR '':'' # r" by (metis append_take_drop_id append_Cons append_Nil)
  have "js_split CHR '':'' s = js_split CHR '':'' (take i s) @ ''thread'' # js_split CHR '':'' r"
    by (subst s, subst js_split_at) (simp add: js_split_append del: append_take_drop_id)
  then show ?thesis by (intro exI [of _ "js_split CHR '':'' (take i s)"] exI [of _ "js_split CHR '':'' r"]) simp
qed

lemma no_thread: "(\<And>i. \<not> occurs_at '':thread:'' (js_lower s) i) \<Longrightarrow> s \<noteq> [] \<Longrightarrow> js_trim s = s \<Longrightarrow>
    parseThreadSessionSuffix (Some s) = \<lparr>base_key = Some s, thread_id = None\<rparr>"
  by (auto simp: parseThreadSessionSuffix_def normalizeOptionalString_def normalizeNullableString_def lower_or_empty last_index_of_None [THEN iffD2])

text \<open>The key of a direct chat, as the router builds it per channel and peer.\<close>

definition direct_key :: "string \<Rightarrow> string \<Rightarrow> string \<Rightarrow> string" where
  "direct_key agent channel peer = ''agent:'' @ agent @ '':'' @ channel @ '':direct:'' @ peer"

lemma direct_key_facts:
  assumes "CHR '':'' \<notin> set a" "CHR '':'' \<notin> set c" "CHR '':'' \<notin> set p" "a \<noteq> []" "c \<noteq> []" "p \<noteq> []" "\<not> js_space (last p)"
  shows "js_split CHR '':'' (direct_key a c p) = [''agent'', a, c, ''direct'', p]"
    "segments (direct_key a c p) = [''agent'', a, c, ''direct'', p]" "js_trim (direct_key a c p) = direct_key a c p"
proof -
  show split: "js_split CHR '':'' (direct_key a c p) = [''agent'', a, c, ''direct'', p]"
    using assms js_split_append [of "CHR '':''" a] js_split_append [of "CHR '':''" c] by (simp add: direct_key_def js_split_free)
  then show "segments (direct_key a c p) = [''agent'', a, c, ''direct'', p]" using assms by (simp add: segments_def)
  show "js_trim (direct_key a c p) = direct_key a c p"
    by (rule trim_fix) (use assms in \<open>auto simp: direct_key_def js_space_def\<close>)
qed

lemma direct_key_no_group:
  assumes key: "CHR '':'' \<notin> set a" "CHR '':'' \<notin> set c" "CHR '':'' \<notin> set p" "a \<noteq> []" "c \<noteq> []" "p \<noteq> []" "\<not> js_space (last p)"
    and lower: "js_lower (direct_key a c p) = direct_key a c p" and words: "a \<noteq> ''thread''" "c \<noteq> ''thread''"
  shows "resolveGroupContextFromSessionKey resolver (Some (direct_key a c p)) = noGroup"
proof -
  let ?k = "direct_key a c p"
  note facts = direct_key_facts [OF key]
  have "\<not> occurs_at '':thread:'' ?k i" for i
  proof
    assume "occurs_at '':thread:'' ?k i"
    from thread_marker_segment [OF this] obtain xs ys where "[''agent'', a, c, ''direct'', p] = xs @ ''thread'' # ys" "xs \<noteq> []" "ys \<noteq> []"
      using facts(1) by metis
    then show False using words by (auto simp: Cons_eq_append_conv)
  qed
  moreover have ne: "?k \<noteq> []" by (simp add: direct_key_def)
  ultimately have parsed: "parseThreadSessionSuffix (Some ?k) = \<lparr>base_key = Some ?k, thread_id = None\<rparr>"
    using no_thread [of ?k] lower facts(3) by simp
  have norm: "normalizeOptionalString (Some ?k) = Some ?k"
    using facts(3) by (simp add: normalizeOptionalString_def normalizeNullableString_def direct_key_def)
  have words': "normalizeOptionalLowercaseString (Some ''agent'') = Some ''agent''" "normalizeOptionalLowercaseString (Some ''direct'') = Some ''direct''"
    by code_simp+
  have conv: "parseRawSessionConversationRef (Some ?k) = None"
    by (simp add: parseRawSessionConversationRef_def norm facts(2) words' Let_def)
  have trimmed: "js_trim (coalesce (Some ?k) []) = ?k" using facts(3) by simp
  define k where "k = ?k"
  note known = trimmed [folded k_def] parsed [folded k_def] conv [folded k_def] facts(2) [folded k_def] ne [folded k_def]
  show ?thesis
    unfolding k_def [symmetric] resolveGroupContextFromSessionKey_def Let_def known(1)
    by (cases "c = ''subagent''") (simp_all add: known noGroup_def)
qed

text \<open>The key the router builds for a direct chat under the per-channel scope has that shape.\<close>

abbreviation channel_of_key :: "peer_key_params \<Rightarrow> string" where
  "channel_of_key p \<equiv> text_or (normalizeLowercaseStringOrEmpty (Some (pk_channel p))) ''unknown''"

lemma direct_key_built:
  assumes "coalesce (pk_kind p) Direct = Direct" "pk_scope p = Some PerChannelPeer" "directPeerId p \<noteq> []"
  shows "buildAgentPeerSessionKey p = direct_key (normalizeAgentId (pk_agent p)) (channel_of_key p) (directPeerId p)"
  using assms by (auto simp: buildAgentPeerSessionKey_def direct_key_def Let_def)

lemma lower_word: "js_lower_char CHR ''u'' = CHR ''u''" "js_lower_char CHR ''k'' = CHR ''k''" "js_lower_char CHR ''o'' = CHR ''o''"
    "js_lower_char CHR ''w'' = CHR ''w''" "js_lower_char CHR ''a'' = CHR ''a''" "js_lower_char CHR ''g'' = CHR ''g''"
    "js_lower_char CHR ''e'' = CHR ''e''" "js_lower_char CHR ''n'' = CHR ''n''" "js_lower_char CHR ''t'' = CHR ''t''" "js_lower_char CHR '':'' = CHR '':''"
    "js_lower_char CHR ''d'' = CHR ''d''" "js_lower_char CHR ''i'' = CHR ''i''" "js_lower_char CHR ''r'' = CHR ''r''" "js_lower_char CHR ''c'' = CHR ''c''"
  by code_simp+

text \<open>A direct chat cannot borrow a group's tool policy. When the session key is the one the router builds for a direct chat of
  one channel and peer, whatever group id the caller passes is dropped, for every channel plugin: the session is not a group and
  vouches for none. Agent, channel and peer are names without a colon, and neither agent nor channel is the word thread.\<close>

theorem direct_chat_vouches_no_group:
  assumes "coalesce (pk_kind p) Direct = Direct" "pk_scope p = Some PerChannelPeer" "directPeerId p \<noteq> []" "CHR '':'' \<notin> set (directPeerId p)"
    and "CHR '':'' \<notin> set (channel_of_key p)" "channel_of_key p \<noteq> ''thread''" "normalizeAgentId (pk_agent p) \<noteq> ''thread''"
    and "js_trim g \<noteq> []"
  shows "resolveTrustedGroupId resolver (Some g) (Some (buildAgentPeerSessionKey p)) None = (None, True)"
proof -
  let ?a = "normalizeAgentId (pk_agent p)"
  have peer: "js_lower (directPeerId p) = directPeerId p" "\<not> js_space (last (directPeerId p))"
    using assms(3) token_ends by (simp_all add: directPeerId_def Let_def)
  then have "js_lower (direct_key ?a (channel_of_key p) (directPeerId p)) = direct_key ?a (channel_of_key p) (directPeerId p)"
    by (simp add: direct_key_def js_lower_Cons lower_word)
  then have "resolveGroupContextFromSessionKey resolver (Some (buildAgentPeerSessionKey p)) = noGroup"
    unfolding direct_key_built [OF assms(1-3)] using assms peer(2) by (intro direct_key_no_group) simp_all
  moreover have "resolveGroupContextFromSessionKey resolver None = noGroup" by (simp add: resolveGroupContextFromSessionKey_def)
  ultimately show ?thesis
    using assms(8) by (simp add: resolveTrustedGroupId_def resolveTrustedGroupIdFromContexts_def noGroup_def collectUniqueStrings_def js_unique_def)
qed

definition demo_peer :: peer_key_params where
  "demo_peer = \<lparr>pk_agent = Some ''main'', pk_mainKey = None, pk_channel = ''Telegram'', pk_account = None, pk_kind = Some Direct,
     pk_peer = Some ''42'', pk_links = None, pk_scope = Some PerChannelPeer\<rparr>"

theorem direct_chat_vouches_no_group_witness:
  "resolveTrustedGroupId (\<lambda>_ _ _. None) (Some ''-100'') (Some (buildAgentPeerSessionKey demo_peer)) None = (None, True)"
  by (rule direct_chat_vouches_no_group) code_simp+

text \<open>An agent that is called thread: a group's key parses as a thread of another session, and the group is not found.\<close>

lemma agent_named_thread:
  "gx_groupIds (resolveGroupContextFromSessionKey (\<lambda>_ _ _. None) (Some ''agent:main:telegram:group:-100'')) = Some [''-100'']"
  "gx_groupIds (resolveGroupContextFromSessionKey (\<lambda>_ _ _. None) (Some ''agent:thread:telegram:group:-100'')) = None"
  by code_simp+

end
