(* ===== verification/PairingStore.thy ===== *)
theory PairingStore
  imports SessionKeys "HOL-Library.Word"
begin

text \<open>
  Pairing of senders: \<^verbatim>\<open>packages/core/src/pairing/pairing-store.ts\<close>, \<^verbatim>\<open>allow-from-store-file.ts\<close>, \<^verbatim>\<open>allow-from-store-read.ts\<close>,
  \<^verbatim>\<open>pairing-challenge.ts\<close> and \<^verbatim>\<open>pairing-messages.ts\<close>. A stranger who writes is given a code; when the owner approves it, the sender is added to
  the allow list of the account. The state is the files of the credentials directory and the read cache. A file is named by its
  name in that directory. A pending file holds requests or does not parse (\<open>None\<close>); an allow file holds entries or does not
  parse, with its time of modification and size. The operations run under a file lock and are atomic here. A timestamp is the
  number of milliseconds its text denotes, or \<open>None\<close> when it is missing or unreadable. Random draws are numbers below 32, as the
  code asks for them; the entry normaliser of a channel plugin and the size of a written file are arguments.
\<close>

subsection \<open>Upper case\<close>

text \<open>Below 256; the capitals of two characters (181 and 255) lie above and are left alone.\<close>

definition js_upper_char :: "char \<Rightarrow> string" where
  "js_upper_char c =
     (let n = (of_char c :: nat)
      in if (97 \<le> n \<and> n \<le> 122) \<or> (224 \<le> n \<and> n \<le> 254 \<and> n \<noteq> 247) then [char_of (n - 32)]
         else if n = 223 then ''SS'' else [c])"

definition js_upper :: "string \<Rightarrow> string" where
  "js_upper s = concat (map js_upper_char s)"

subsection \<open>File names\<close>

datatype pairing_error = InvalidFilenameKey | NoUniqueCode

fun undot :: "string \<Rightarrow> string" where
  "undot (c # d # s) = (if c = CHR ''.'' \<and> d = CHR ''.'' then CHR ''_'' # undot s else c # undot (d # s))"
| "undot s = s"

definition unsafe_chars :: string where
  "unsafe_chars = [CHR 0x5C, CHR ''/'', CHR '':'', CHR ''*'', CHR ''?'', CHR 0x22, CHR ''<'', CHR ''>'', CHR ''|'']"

definition normalizePairingFilenameKey :: "string \<Rightarrow> pairing_error + string" where
  "normalizePairingFilenameKey v =
     (let raw = normalizeLowercaseStringOrEmpty (Some v);
          safe = undot (map (\<lambda>c. if c \<in> set unsafe_chars then CHR ''_'' else c) raw)
      in if raw = [] then Inl InvalidFilenameKey
         else if safe = [] \<or> safe = ''_'' then Inl InvalidFilenameKey else Inr safe)"

definition safeChannelKey :: "string \<Rightarrow> pairing_error + string" where
  "safeChannelKey channel = normalizePairingFilenameKey channel"

definition resolveOptionalAccountFilenameKey :: "string option \<Rightarrow> pairing_error + string option" where
  "resolveOptionalAccountFilenameKey accountId =
     (case normalizeOptionalString accountId of
        None \<Rightarrow> Inr None
      | Some a \<Rightarrow> (case normalizePairingFilenameKey a of Inl e \<Rightarrow> Inl e | Inr k \<Rightarrow> Inr (Some k)))"

definition resolvePairingPath :: "string \<Rightarrow> pairing_error + string" where
  "resolvePairingPath channel = (case safeChannelKey channel of Inl e \<Rightarrow> Inl e | Inr base \<Rightarrow> Inr (base @ ''-pairing.json''))"

definition resolveAllowFromFilePath :: "string \<Rightarrow> string option \<Rightarrow> pairing_error + string" where
  "resolveAllowFromFilePath channel accountId =
     (case safeChannelKey channel of
        Inl e \<Rightarrow> Inl e
      | Inr base \<Rightarrow>
          (case resolveOptionalAccountFilenameKey accountId of
             Inl e \<Rightarrow> Inl e
           | Inr None \<Rightarrow> Inr (base @ ''-allowFrom.json'')
           | Inr (Some accountKey) \<Rightarrow> Inr (base @ ''-'' @ accountKey @ ''-allowFrom.json'')))"

definition resolveAllowFromAccountId :: "string option \<Rightarrow> string" where
  "resolveAllowFromAccountId accountId = text_or (normalizeLowercaseStringOrEmpty accountId) DEFAULT_ACCOUNT_ID"

definition shouldIncludeLegacyAllowFromEntries :: "string \<Rightarrow> bool" where
  "shouldIncludeLegacyAllowFromEntries normalizedAccountId = (normalizedAccountId = [] \<or> normalizedAccountId = DEFAULT_ACCOUNT_ID)"

subsection \<open>Requests\<close>

record pairing_request =
  pr_id :: string
  pr_code :: string
  pr_createdAt :: "int option"
  pr_lastSeenAt :: "int option"
  pr_meta :: "(string, string) js_map option"

definition PAIRING_CODE_LENGTH :: nat where "PAIRING_CODE_LENGTH = 8"
definition PAIRING_CODE_ALPHABET :: string where "PAIRING_CODE_ALPHABET = ''ABCDEFGHJKLMNPQRSTUVWXYZ23456789''"
definition PAIRING_CODE_MAX_ATTEMPTS :: nat where "PAIRING_CODE_MAX_ATTEMPTS = 500"
definition PAIRING_PENDING_TTL_MS :: int where "PAIRING_PENDING_TTL_MS = 60 * 60 * 1000"
definition PAIRING_PENDING_MAX :: nat where "PAIRING_PENDING_MAX = 3"

text \<open>A creation time of zero counts as missing.\<close>

definition isExpired :: "pairing_request \<Rightarrow> int \<Rightarrow> bool" where
  "isExpired entry nowMs =
     (case pr_createdAt entry of None \<Rightarrow> True | Some createdAt \<Rightarrow> createdAt = 0 \<or> PAIRING_PENDING_TTL_MS < nowMs - createdAt)"

definition pruneExpiredRequests :: "pairing_request list \<Rightarrow> int \<Rightarrow> pairing_request list \<times> bool" where
  "pruneExpiredRequests reqs nowMs = (filter (\<lambda>r. \<not> isExpired r nowMs) reqs, list_ex (\<lambda>r. isExpired r nowMs) reqs)"

definition resolveLastSeenAt :: "pairing_request \<Rightarrow> int" where
  "resolveLastSeenAt entry = coalesce (or_else (pr_lastSeenAt entry) (pr_createdAt entry)) 0"

definition normalizePairingAccountId :: "string option \<Rightarrow> string" where
  "normalizePairingAccountId accountId = normalizeLowercaseStringOrEmpty accountId"

definition metaAccount :: "pairing_request \<Rightarrow> string option" where
  "metaAccount entry = Option.bind (pr_meta entry) (\<lambda>m. map_of m ''accountId'')"

definition resolvePairingRequestAccountId :: "pairing_request \<Rightarrow> string" where
  "resolvePairingRequestAccountId entry = text_or (normalizePairingAccountId (metaAccount entry)) DEFAULT_ACCOUNT_ID"

definition requestMatchesAccountId :: "pairing_request \<Rightarrow> string \<Rightarrow> bool" where
  "requestMatchesAccountId entry normalizedAccountId =
     (normalizedAccountId = [] \<or> resolvePairingRequestAccountId entry = normalizedAccountId)"

definition addToGroup :: "(nat \<Rightarrow> string) \<Rightarrow> nat \<Rightarrow> (string, nat list) js_map \<Rightarrow> (string, nat list) js_map" where
  "addToGroup account i grouped = AList.update (account i) (coalesce (map_of grouped (account i)) [] @ [i]) grouped"

definition groupedByAccount :: "pairing_request list \<Rightarrow> (string, nat list) js_map" where
  "groupedByAccount reqs = fold (addToGroup (\<lambda>i. resolvePairingRequestAccountId (reqs ! i))) [0..<length reqs] []"

definition droppedIndexes :: "pairing_request list \<Rightarrow> nat \<Rightarrow> nat list" where
  "droppedIndexes reqs maxPending =
     concat (map (\<lambda>(_, indexes). if length indexes \<le> maxPending then []
        else take (length indexes - maxPending) (sort_key (\<lambda>i. resolveLastSeenAt (reqs ! i)) indexes)) (groupedByAccount reqs))"

definition pruneExcessRequestsByAccount :: "pairing_request list \<Rightarrow> nat \<Rightarrow> pairing_request list \<times> bool" where
  "pruneExcessRequestsByAccount reqs maxPending =
     (if maxPending = 0 \<or> length reqs \<le> maxPending then (reqs, False)
      else (let dropped = droppedIndexes reqs maxPending
            in if dropped = [] then (reqs, False)
               else (map ((!) reqs) (filter (\<lambda>i. i \<notin> set dropped) [0..<length reqs]), True)))"

definition randomCode :: "(nat \<Rightarrow> 5 word) \<Rightarrow> string" where
  "randomCode draw = map (\<lambda>i. PAIRING_CODE_ALPHABET ! unat (draw i)) [0..<PAIRING_CODE_LENGTH]"

function tryCodes :: "string set \<Rightarrow> (nat \<Rightarrow> nat \<Rightarrow> 5 word) \<Rightarrow> nat \<Rightarrow> string option" where
  "tryCodes existing draws attempt =
     (if attempt < PAIRING_CODE_MAX_ATTEMPTS
      then (let code = randomCode (draws attempt) in if code \<notin> existing then Some code else tryCodes existing draws (Suc attempt))
      else None)"
  by pat_completeness auto
termination by (relation "measure (\<lambda>(_, _, attempt). PAIRING_CODE_MAX_ATTEMPTS - attempt)") auto

declare tryCodes.simps [simp del]

definition generateUniqueCode :: "string set \<Rightarrow> (nat \<Rightarrow> nat \<Rightarrow> 5 word) \<Rightarrow> pairing_error + string" where
  "generateUniqueCode existing draws = (case tryCodes existing draws 0 of Some c \<Rightarrow> Inr c | None \<Rightarrow> Inl NoUniqueCode)"

subsection \<open>Allow files and their read cache\<close>

record allow_file =
  af_entries :: "string list option"
  af_mtime :: int
  af_size :: nat

record allow_cache_entry =
  ce_exists :: bool
  ce_mtime :: "int option"
  ce_size :: "nat option"
  ce_entries :: "string list"

record pairing_state =
  ps_pending :: "(string, pairing_request list option) js_map"
  ps_allow :: "(string, allow_file) js_map"
  ps_cache :: "(string, allow_cache_entry) js_map"

record pairing_env =
  pe_adapter :: "string \<Rightarrow> (string \<Rightarrow> string) option"
  pe_bytes :: "string list \<Rightarrow> nat"

type_synonym 'a pairing_result = "(pairing_error + 'a) \<times> pairing_state"

definition dedupePreserveOrder :: "string list \<Rightarrow> string list" where
  "dedupePreserveOrder entries = js_unique (filter (\<lambda>e. e \<noteq> []) (map (\<lambda>e. coalesce (normalizeOptionalString (Some e)) []) entries))"

definition normalizeAllowEntry :: "pairing_env \<Rightarrow> string \<Rightarrow> string \<Rightarrow> string" where
  "normalizeAllowEntry env channel entry =
     (let trimmed = js_trim entry
      in if trimmed = [] \<or> trimmed = ''*'' then []
         else coalesce (normalizeOptionalString (Some (case pe_adapter env channel of Some f \<Rightarrow> f trimmed | None \<Rightarrow> trimmed))) [])"

definition normalizeAllowFromList :: "pairing_env \<Rightarrow> string \<Rightarrow> string list option \<Rightarrow> string list" where
  "normalizeAllowFromList env channel store =
     dedupePreserveOrder (filter (\<lambda>v. v \<noteq> []) (map (normalizeAllowEntry env channel) (coalesce store [])))"

definition normalizePairingId :: "string \<Rightarrow> string" where
  "normalizePairingId v = coalesce (normalizeOptionalString (Some v)) []"

definition normalizeAllowFromInput :: "pairing_env \<Rightarrow> string \<Rightarrow> string \<Rightarrow> string" where
  "normalizeAllowFromInput env channel entry = normalizeAllowEntry env channel (normalizePairingId entry)"

definition resolveAllowFromCacheKey :: "string \<Rightarrow> string \<Rightarrow> string" where
  "resolveAllowFromCacheKey cacheNamespace filePath = cacheNamespace @ CHR 0x00 # filePath"

definition setAllowFromFileReadCache :: "string \<Rightarrow> string \<Rightarrow> allow_cache_entry \<Rightarrow> pairing_state \<Rightarrow> pairing_state" where
  "setAllowFromFileReadCache ns path e st = st\<lparr>ps_cache := AList.update (resolveAllowFromCacheKey ns path) e (ps_cache st)\<rparr>"

definition resolveAllowFromReadCacheHit :: "string \<Rightarrow> string \<Rightarrow> allow_file option \<Rightarrow> pairing_state \<Rightarrow> allow_cache_entry option" where
  "resolveAllowFromReadCacheHit ns path stat st =
     (case map_of (ps_cache st) (resolveAllowFromCacheKey ns path) of
        None \<Rightarrow> None
      | Some cached \<Rightarrow>
          if ce_exists cached \<noteq> (stat \<noteq> None) then None
          else if stat = None then Some cached
          else if ce_mtime cached \<noteq> map_option af_mtime stat \<or> ce_size cached \<noteq> map_option af_size stat then None
          else Some cached)"

definition missing_entry :: allow_cache_entry where
  "missing_entry = \<lparr>ce_exists = False, ce_mtime = None, ce_size = None, ce_entries = []\<rparr>"

definition file_entry :: "allow_file \<Rightarrow> string list \<Rightarrow> allow_cache_entry" where
  "file_entry f entries = \<lparr>ce_exists = True, ce_mtime = Some (af_mtime f), ce_size = Some (af_size f), ce_entries = entries\<rparr>"

text \<open>The file is looked at and read in one step; text that does not parse gives no entries.\<close>

definition readAllowFromFileWithExists :: "string \<Rightarrow> string \<Rightarrow> (string list option \<Rightarrow> string list) \<Rightarrow> pairing_state
    \<Rightarrow> (string list \<times> bool) \<times> pairing_state" where
  "readAllowFromFileWithExists ns path normalizeStore st =
     (let stat = map_of (ps_allow st) path
      in case resolveAllowFromReadCacheHit ns path stat st of
           Some cached \<Rightarrow> ((ce_entries cached, ce_exists cached), st)
         | None \<Rightarrow>
             (case stat of
                None \<Rightarrow> (([], False), setAllowFromFileReadCache ns path missing_entry st)
              | Some f \<Rightarrow>
                  (let entries = (case af_entries f of None \<Rightarrow> [] | Some l \<Rightarrow> normalizeStore (Some l))
                   in ((entries, True), setAllowFromFileReadCache ns path (file_entry f entries) st))))"

definition PAIRING_ALLOW_FROM_CACHE_NAMESPACE :: string where
  "PAIRING_ALLOW_FROM_CACHE_NAMESPACE = ''pairing-store''"

definition readAllowFromStateForPath :: "pairing_env \<Rightarrow> string \<Rightarrow> string \<Rightarrow> pairing_state \<Rightarrow> string list \<times> pairing_state" where
  "readAllowFromStateForPath env channel path st =
     (let ((entries, _), st') = readAllowFromFileWithExists PAIRING_ALLOW_FROM_CACHE_NAMESPACE path (normalizeAllowFromList env channel) st
      in (entries, st'))"

definition readChannelAllowFromStore :: "pairing_env \<Rightarrow> string \<Rightarrow> string option \<Rightarrow> pairing_state \<Rightarrow> string list pairing_result" where
  "readChannelAllowFromStore env channel accountId st =
     (let resolvedAccountId = resolveAllowFromAccountId accountId
      in case resolveAllowFromFilePath channel (Some resolvedAccountId) of
           Inl e \<Rightarrow> (Inl e, st)
         | Inr scopedPath \<Rightarrow>
             (let (scopedEntries, st1) = readAllowFromStateForPath env channel scopedPath st
              in if \<not> shouldIncludeLegacyAllowFromEntries resolvedAccountId then (Inr scopedEntries, st1)
                 else (case resolveAllowFromFilePath channel None of
                         Inl e \<Rightarrow> (Inl e, st1)
                       | Inr legacyPath \<Rightarrow>
                           (let (legacyEntries, st2) = readAllowFromStateForPath env channel legacyPath st1
                            in (Inr (dedupePreserveOrder (scopedEntries @ legacyEntries)), st2)))))"

definition ALLOW_FROM_STORE_READ_CACHE_NAMESPACE :: string where
  "ALLOW_FROM_STORE_READ_CACHE_NAMESPACE = ''allow-from-store-read''"

definition normalizeRawAllowFromList :: "string list option \<Rightarrow> string list" where
  "normalizeRawAllowFromList store =
     dedupePreserveOrder (filter (\<lambda>e. e \<noteq> []) (map (\<lambda>e. coalesce (normalizeOptionalString (Some e)) []) (coalesce store [])))"

definition readChannelAllowFromStoreEntriesSync :: "string \<Rightarrow> string option \<Rightarrow> pairing_state \<Rightarrow> string list pairing_result" where
  "readChannelAllowFromStoreEntriesSync channel accountId st =
     (let resolvedAccountId = resolveAllowFromAccountId accountId;
          look = (\<lambda>path s. readAllowFromFileWithExists ALLOW_FROM_STORE_READ_CACHE_NAMESPACE path normalizeRawAllowFromList s)
      in case resolveAllowFromFilePath channel (Some resolvedAccountId) of
           Inl e \<Rightarrow> (Inl e, st)
         | Inr scopedPath \<Rightarrow>
             (let ((scopedEntries, _), st1) = look scopedPath st
              in if \<not> shouldIncludeLegacyAllowFromEntries resolvedAccountId then (Inr scopedEntries, st1)
                 else (case resolveAllowFromFilePath channel None of
                         Inl e \<Rightarrow> (Inl e, st1)
                       | Inr legacyPath \<Rightarrow>
                           (let ((legacyEntries, _), st2) = look legacyPath st1
                            in (Inr (dedupePreserveOrder (scopedEntries @ legacyEntries)), st2)))))"

definition writeAllowFromState :: "pairing_env \<Rightarrow> string \<Rightarrow> string list \<Rightarrow> int \<Rightarrow> pairing_state \<Rightarrow> pairing_state" where
  "writeAllowFromState env path allowFrom nowMs st =
     (let f = \<lparr>af_entries = Some allowFrom, af_mtime = nowMs, af_size = pe_bytes env allowFrom\<rparr>
      in setAllowFromFileReadCache PAIRING_ALLOW_FROM_CACHE_NAMESPACE path (file_entry f allowFrom) (st\<lparr>ps_allow := AList.update path f (ps_allow st)\<rparr>))"

definition ensureAllowFile :: "pairing_env \<Rightarrow> string \<Rightarrow> int \<Rightarrow> pairing_state \<Rightarrow> pairing_state" where
  "ensureAllowFile env path nowMs st =
     (if map_of (ps_allow st) path = None
      then st\<lparr>ps_allow := AList.update path \<lparr>af_entries = Some [], af_mtime = nowMs, af_size = pe_bytes env []\<rparr> (ps_allow st)\<rparr> else st)"

definition updateAllowFromStoreEntry :: "pairing_env \<Rightarrow> string \<Rightarrow> string \<Rightarrow> string option \<Rightarrow> (string list \<Rightarrow> string \<Rightarrow> string list option) \<Rightarrow> int
    \<Rightarrow> pairing_state \<Rightarrow> (bool \<times> string list) pairing_result" where
  "updateAllowFromStoreEntry env channel entry accountId apply_to nowMs st =
     (case resolveAllowFromFilePath channel accountId of
        Inl e \<Rightarrow> (Inl e, st)
      | Inr path \<Rightarrow>
          (let st1 = ensureAllowFile env path nowMs st;
               current = normalizeAllowFromList env channel (Option.bind (map_of (ps_allow st1) path) af_entries);
               normalized = normalizeAllowFromInput env channel entry
           in if normalized = [] then (Inr (False, current), st1)
              else (case apply_to current normalized of
                      None \<Rightarrow> (Inr (False, current), st1)
                    | Some nxt \<Rightarrow> (Inr (True, nxt), writeAllowFromState env path nxt nowMs st1))))"

definition addChannelAllowFromStoreEntry :: "pairing_env \<Rightarrow> string \<Rightarrow> string \<Rightarrow> string option \<Rightarrow> int \<Rightarrow> pairing_state \<Rightarrow> (bool \<times> string list) pairing_result" where
  "addChannelAllowFromStoreEntry env channel entry accountId =
     updateAllowFromStoreEntry env channel entry accountId
       (\<lambda>current normalized. if normalized \<in> set current then None else Some (current @ [normalized]))"

definition removeChannelAllowFromStoreEntry :: "pairing_env \<Rightarrow> string \<Rightarrow> string \<Rightarrow> string option \<Rightarrow> int \<Rightarrow> pairing_state \<Rightarrow> (bool \<times> string list) pairing_result" where
  "removeChannelAllowFromStoreEntry env channel entry accountId =
     updateAllowFromStoreEntry env channel entry accountId
       (\<lambda>current normalized. let rest = filter (\<lambda>e. e \<noteq> normalized) current in if length rest = length current then None else Some rest)"

subsection \<open>Pending requests\<close>

definition readPairingRequests :: "string \<Rightarrow> pairing_state \<Rightarrow> pairing_request list" where
  "readPairingRequests path st = coalesce (Option.bind (map_of (ps_pending st) path) id) []"

definition writeRequests :: "string \<Rightarrow> pairing_request list \<Rightarrow> pairing_state \<Rightarrow> pairing_state" where
  "writeRequests path reqs st = st\<lparr>ps_pending := AList.update path (Some reqs) (ps_pending st)\<rparr>"

definition ensureJsonFile :: "string \<Rightarrow> pairing_state \<Rightarrow> pairing_state" where
  "ensureJsonFile path st = (if map_of (ps_pending st) path = None then writeRequests path [] st else st)"

definition listChannelPairingRequests :: "string \<Rightarrow> string option \<Rightarrow> int \<Rightarrow> pairing_state \<Rightarrow> pairing_request list pairing_result" where
  "listChannelPairingRequests channel accountId nowMs st =
     (case resolvePairingPath channel of
        Inl e \<Rightarrow> (Inl e, st)
      | Inr path \<Rightarrow>
          (let st1 = ensureJsonFile path st;
               (prunedExpired, expiredRemoved) = pruneExpiredRequests (readPairingRequests path st1) nowMs;
               (pruned, cappedRemoved) = pruneExcessRequestsByAccount prunedExpired PAIRING_PENDING_MAX;
               st2 = (if expiredRemoved \<or> cappedRemoved then writeRequests path pruned st1 else st1);
               normalizedAccountId = normalizePairingAccountId accountId;
               filtered = (if normalizedAccountId \<noteq> [] then filter (\<lambda>r. requestMatchesAccountId r normalizedAccountId) pruned else pruned)
           in (Inr (sort_key (\<lambda>r. coalesce (pr_createdAt r) 0) filtered), st2)))"

record pairing_offer =
  po_code :: string
  po_created :: bool

definition requestMeta :: "(string, string option) js_map option \<Rightarrow> string \<Rightarrow> (string, string) js_map" where
  "requestMeta meta account =
     AList.update ''accountId'' account
       (filter (\<lambda>(_, v). v \<noteq> []) (map (\<lambda>(k, v). (k, coalesce (normalizeOptionalString v) [])) (coalesce meta [])))"

fun find_index :: "('a \<Rightarrow> bool) \<Rightarrow> 'a list \<Rightarrow> nat option" where
  "find_index P [] = None"
| "find_index P (x # xs) = (if P x then Some 0 else map_option Suc (find_index P xs))"

definition upsertChannelPairingRequest :: "string \<Rightarrow> string \<Rightarrow> string \<Rightarrow> (string, string option) js_map option \<Rightarrow> (nat \<Rightarrow> nat \<Rightarrow> 5 word) \<Rightarrow> int
    \<Rightarrow> pairing_state \<Rightarrow> pairing_offer pairing_result" where
  "upsertChannelPairingRequest channel rawId accountId rawMeta draws nowMs st =
     (case resolvePairingPath channel of
        Inl e \<Rightarrow> (Inl e, st)
      | Inr path \<Rightarrow>
          (let st1 = ensureJsonFile path st;
               i = normalizePairingId rawId;
               account = text_or (normalizePairingAccountId (Some accountId)) DEFAULT_ACCOUNT_ID;
               meta = requestMeta rawMeta account;
               (reqs, expiredRemoved) = pruneExpiredRequests (readPairingRequests path st1) nowMs;
               existingCodes = set (map (\<lambda>r. js_upper (coalesce (normalizeOptionalString (Some (pr_code r))) [])) reqs)
           in case find_index (\<lambda>r. pr_id r = i \<and> requestMatchesAccountId r account) reqs of
                Some k \<Rightarrow>
                  (let existing = reqs ! k;
                       existingCode = coalesce (normalizeOptionalString (Some (pr_code existing))) []
                   in case (if existingCode \<noteq> [] then Inr existingCode else generateUniqueCode existingCodes draws) of
                        Inl e \<Rightarrow> (Inl e, st1)
                      | Inr code \<Rightarrow>
                          (let r = \<lparr>pr_id = i, pr_code = code, pr_createdAt = or_else (pr_createdAt existing) (Some nowMs), pr_lastSeenAt = Some nowMs, pr_meta = Some meta\<rparr>;
                               (capped, _) = pruneExcessRequestsByAccount (reqs[k := r]) PAIRING_PENDING_MAX
                           in (Inr \<lparr>po_code = code, po_created = False\<rparr>, writeRequests path capped st1)))
              | None \<Rightarrow>
                  (let (capped, cappedRemoved) = pruneExcessRequestsByAccount reqs PAIRING_PENDING_MAX
                   in if PAIRING_PENDING_MAX \<le> length (filter (\<lambda>r. requestMatchesAccountId r account) capped)
                      then (Inr \<lparr>po_code = [], po_created = False\<rparr>,
                            if expiredRemoved \<or> cappedRemoved then writeRequests path capped st1 else st1)
                      else (case generateUniqueCode existingCodes draws of
                              Inl e \<Rightarrow> (Inl e, st1)
                            | Inr code \<Rightarrow>
                                (Inr \<lparr>po_code = code, po_created = True\<rparr>,
                                 writeRequests path (capped @ [\<lparr>pr_id = i, pr_code = code, pr_createdAt = Some nowMs, pr_lastSeenAt = Some nowMs, pr_meta = Some meta\<rparr>]) st1)))))"

text \<open>The request leaves the pending file before its sender enters the allow list.\<close>

definition approveChannelPairingCode :: "pairing_env \<Rightarrow> string \<Rightarrow> string \<Rightarrow> string option \<Rightarrow> int \<Rightarrow> pairing_state \<Rightarrow> pairing_request option pairing_result" where
  "approveChannelPairingCode env channel rawCode accountId nowMs st =
     (let code = js_upper (coalesce (normalizeNullableString (Some rawCode)) [])
      in if code = [] then (Inr None, st)
         else (case resolvePairingPath channel of
                 Inl e \<Rightarrow> (Inl e, st)
               | Inr path \<Rightarrow>
                   (let st1 = ensureJsonFile path st;
                        (pruned, removed) = pruneExpiredRequests (readPairingRequests path st1) nowMs;
                        account = normalizePairingAccountId accountId
                    in case find_index (\<lambda>r. js_upper (pr_code r) = code \<and> requestMatchesAccountId r account) pruned of
                         None \<Rightarrow> (Inr None, if removed then writeRequests path pruned st1 else st1)
                       | Some k \<Rightarrow>
                           (let entry = pruned ! k;
                                st2 = writeRequests path (take k pruned @ drop (Suc k) pruned) st1;
                                (added, st3) = addChannelAllowFromStoreEntry env channel (pr_id entry)
                                  (or_else (normalizeOptionalString accountId) (normalizeOptionalString (metaAccount entry))) nowMs st2
                            in (case added of Inl e \<Rightarrow> Inl e | Inr _ \<Rightarrow> Inr (Some entry), st3)))))"

subsection \<open>The challenge\<close>

definition buildPairingReply :: "(string \<Rightarrow> string) \<Rightarrow> string \<Rightarrow> string \<Rightarrow> string \<Rightarrow> string" where
  "buildPairingReply formatCliCommand channel idLine code =
     (let approveCommand = formatCliCommand (''brikko-studio pairing approve '' @ channel @ '' '' @ code);
          fence = [CHR 0x60, CHR 0x60, CHR 0x60]
      in js_join [CHR 0x0A] [''BrikkoStudio: access not configured.'', [], idLine, ''Pairing code:'', fence, code, fence, [],
           ''Ask the bot owner to approve with:'', approveCommand, fence, approveCommand, fence])"

text \<open>The text that is sent, if any, and what the caller learns.\<close>

definition issuePairingChallenge :: "(string \<Rightarrow> string) \<Rightarrow> (string \<Rightarrow> string \<Rightarrow> string option) \<Rightarrow> string \<Rightarrow> string \<Rightarrow> pairing_offer \<Rightarrow> string option \<times> bool \<times> string option" where
  "issuePairingChallenge formatCliCommand buildReplyText channel senderIdLine offer =
     (if \<not> po_created offer then (None, False, None)
      else (Some (coalesce (buildReplyText (po_code offer) senderIdLine) (buildPairingReply formatCliCommand channel senderIdLine (po_code offer))),
            True, Some (po_code offer)))"

end
