(* ===== verification/PairingSafety.thy ===== *)
theory PairingSafety
  imports PairingStore
begin

text \<open>
  What pairing guarantees: the ledger of issued and approved codes of a channel, the hour a code is good for, and the allow lists.
\<close>

subsection \<open>Codes\<close>

definition code_shape :: "string \<Rightarrow> bool" where
  "code_shape c \<longleftrightarrow> length c = PAIRING_CODE_LENGTH \<and> list_all (\<lambda>x. x \<in> set PAIRING_CODE_ALPHABET) c"

lemma alphabet_length: "length PAIRING_CODE_ALPHABET = 32"
  by (simp add: PAIRING_CODE_ALPHABET_def)

lemma random_shape: "code_shape (randomCode d)"
proof -
  have "unat (d i) < length PAIRING_CODE_ALPHABET" for i
    using unsigned_less [of "d i"] by (simp add: alphabet_length)
  then show ?thesis by (auto simp: code_shape_def randomCode_def list_all_iff intro: nth_mem)
qed

lemma try_sound: "tryCodes existing draws n = Some c \<Longrightarrow> code_shape c \<and> c \<notin> existing"
  by (induction existing draws n rule: tryCodes.induct)
     (subst (asm) (2) tryCodes.simps, auto simp: Let_def random_shape split: if_splits)

lemma unique_sound: "generateUniqueCode existing draws = Inr c \<Longrightarrow> code_shape c \<and> c \<notin> existing"
  by (auto simp: generateUniqueCode_def dest: try_sound split: option.splits)

lemma alphabet_fixed: "x \<in> set PAIRING_CODE_ALPHABET \<Longrightarrow> js_upper_char x = [x] \<and> \<not> js_space x"
  by (auto simp: PAIRING_CODE_ALPHABET_def js_upper_char_def js_space_def)

lemma shape_upper [simp]: "code_shape c \<Longrightarrow> js_upper c = c"
proof -
  have "list_all (\<lambda>x. x \<in> set PAIRING_CODE_ALPHABET) c \<Longrightarrow> js_upper c = c"
    by (induction c) (auto simp: js_upper_def alphabet_fixed)
  then show "code_shape c \<Longrightarrow> js_upper c = c" by (simp add: code_shape_def)
qed

lemma shape_nonempty: "code_shape c \<Longrightarrow> c \<noteq> []"
  by (auto simp: code_shape_def PAIRING_CODE_LENGTH_def)

lemma shape_trim: "code_shape c \<Longrightarrow> normalizeOptionalString (Some c) = Some c"
proof -
  assume c: "code_shape c"
  then have "js_trim c = c"
    using shape_nonempty [OF c] alphabet_fixed [of "hd c"] alphabet_fixed [of "last c"] by (intro trim_fix) (auto simp: code_shape_def list_all_iff)
  then show ?thesis using shape_nonempty [OF c] by (simp add: normalizeOptionalString_def normalizeNullableString_def)
qed

subsection \<open>Pending files\<close>

text \<open>A request as the ledger knows it: sender, account, code and time of issue.\<close>

type_synonym ledger_key = "string \<times> string \<times> string \<times> int"

definition request_key :: "pairing_request \<Rightarrow> ledger_key" where
  "request_key r = (pr_id r, resolvePairingRequestAccountId r, pr_code r, coalesce (pr_createdAt r) 0)"

definition request_ok :: "pairing_request \<Rightarrow> bool" where
  "request_ok r \<longleftrightarrow> code_shape (pr_code r) \<and> pr_createdAt r \<noteq> None \<and> metaAccount r = Some (resolvePairingRequestAccountId r)"

definition of_account :: "string \<Rightarrow> pairing_request list \<Rightarrow> pairing_request list" where
  "of_account a reqs = filter (\<lambda>r. resolvePairingRequestAccountId r = a) reqs"

definition requests_ok :: "pairing_request list \<Rightarrow> bool" where
  "requests_ok reqs \<longleftrightarrow> list_all request_ok reqs \<and> distinct (map pr_code reqs) \<and> (\<forall>a. length (of_account a reqs) \<le> PAIRING_PENDING_MAX)"

lemma requests_ok_filter: "requests_ok reqs \<Longrightarrow> requests_ok (filter P reqs)"
proof -
  have "length (of_account a (filter P reqs)) \<le> length (of_account a reqs)" for a
    by (induction reqs) (auto simp: of_account_def)
  then show "requests_ok reqs \<Longrightarrow> requests_ok (filter P reqs)"
    by (auto simp: requests_ok_def list_all_iff distinct_map_filter intro: order_trans)
qed

text \<open>Grouping by account; with at most three requests per account nothing is dropped.\<close>

lemma grouped_sound:
  "\<forall>(a, is) \<in> set (fold (addToGroup f) [0..<n] []). is = filter (\<lambda>i. f i = a) [0..<n]"
proof (induction n)
  case (Suc n)
  define m where "m = fold (addToGroup f) [0..<n] []"
  have keys: "map_of m k = None \<longleftrightarrow> (\<forall>i < n. f i \<noteq> k)" for k
    unfolding m_def by (induction n) (auto simp: addToGroup_def update_conv' less_Suc_eq)
  have dist: "distinct (map fst m)" unfolding m_def by (induction n) (auto simp: addToGroup_def distinct_update)
  have "is = filter (\<lambda>i. f i = a) [0..<Suc n]" if mem: "(a, is) \<in> set (addToGroup f n m)" for a "is"
  proof (cases "a = f n")
    case True
    have "map_of (addToGroup f n m) a = Some is" using mem dist by (simp add: addToGroup_def distinct_update)
    then have "is = coalesce (map_of m a) [] @ [n]" using True by (simp add: addToGroup_def update_conv')
    moreover have "coalesce (map_of m a) [] = filter (\<lambda>i. f i = a) [0..<n]"
    proof (cases "map_of m a")
      case None
      then have "filter (\<lambda>i. f i = a) [0..<n] = []" using keys [of a] by (simp add: filter_empty_conv)
      then show ?thesis using None by simp
    next
      case (Some js)
      then have "(a, js) \<in> set m" by (rule map_of_SomeD)
      then show ?thesis using Suc.IH Some unfolding m_def by auto
    qed
    ultimately show ?thesis using True by simp
  next
    case False
    have "(a, is) \<in> insert (f n, coalesce (map_of m (f n)) [] @ [n]) (set m)"
      using mem unfolding addToGroup_def by (rule subsetD [OF set_update_subset])
    then have "(a, is) \<in> set m" using False by simp
    then have "is = filter (\<lambda>i. f i = a) [0..<n]" using Suc.IH unfolding m_def by blast
    then show ?thesis using False by simp
  qed
  then show ?case unfolding m_def by auto
qed simp

lemma count_by_index: "length (filter (\<lambda>i. P (xs ! i)) [0..<length xs]) = length (filter P xs)"
proof -
  have "filter P xs = filter P (map ((!) xs) [0..<length xs])" by (simp add: map_nth)
  then show ?thesis by (simp only: filter_map length_map comp_def)
qed

lemma nothing_dropped:
  assumes "requests_ok reqs"
  shows "pruneExcessRequestsByAccount reqs PAIRING_PENDING_MAX = (reqs, False)"
proof -
  have "length is \<le> PAIRING_PENDING_MAX" if "(a, is) \<in> set (groupedByAccount reqs)" for a "is"
  proof -
    have "is = filter (\<lambda>i. resolvePairingRequestAccountId (reqs ! i) = a) [0..<length reqs]"
      using grouped_sound [of "\<lambda>i. resolvePairingRequestAccountId (reqs ! i)" "length reqs"] that unfolding groupedByAccount_def by blast
    then have "length is = length (of_account a reqs)"
      using count_by_index [of "\<lambda>r. resolvePairingRequestAccountId r = a" reqs] by (simp add: of_account_def)
    then show ?thesis using assms by (simp add: requests_ok_def)
  qed
  then have "droppedIndexes reqs PAIRING_PENDING_MAX = []"
    by (auto simp: droppedIndexes_def)
  then show ?thesis by (simp add: pruneExcessRequestsByAccount_def)
qed

lemma find_index_Some: "find_index P xs = Some k \<Longrightarrow> k < length xs \<and> P (xs ! k)"
  by (induction xs arbitrary: k) (auto split: if_splits)

lemma find_index_None: "find_index P xs = None \<longleftrightarrow> (\<forall>x \<in> set xs. \<not> P x)"
  by (induction xs) auto

lemma find_index_first: "find_index P xs = Some k \<Longrightarrow> j < k \<Longrightarrow> \<not> P (xs ! j)"
proof (induction xs arbitrary: k j)
  case (Cons x xs)
  then show ?case by (cases j) (auto split: if_splits)
qed simp

subsection \<open>What the operations do to a pending file\<close>

abbreviation live :: "pairing_request list \<Rightarrow> int \<Rightarrow> pairing_request list" where
  "live reqs nowMs \<equiv> filter (\<lambda>r. \<not> isExpired r nowMs) reqs"

lemma read_write [simp]: "readPairingRequests p (writeRequests p reqs st) = reqs"
  by (simp add: readPairingRequests_def writeRequests_def update_conv')

lemma read_ensure [simp]: "readPairingRequests p (ensureJsonFile p st) = readPairingRequests p st"
  by (simp add: readPairingRequests_def ensureJsonFile_def writeRequests_def update_conv')

lemma none_expired: "\<not> list_ex (\<lambda>r. isExpired r n) reqs \<Longrightarrow> live reqs n = reqs"
  by (induction reqs) auto

lemma account_normal [simp]:
  "text_or (normalizeLowercaseStringOrEmpty (Some (text_or (normalizeLowercaseStringOrEmpty v) DEFAULT_ACCOUNT_ID))) DEFAULT_ACCOUNT_ID =
   text_or (normalizeLowercaseStringOrEmpty v) DEFAULT_ACCOUNT_ID"
proof -
  have d: "normalizeLowercaseStringOrEmpty (Some DEFAULT_ACCOUNT_ID) = DEFAULT_ACCOUNT_ID" by code_simp
  have "normalizeLowercaseStringOrEmpty (Some (normalizeLowercaseStringOrEmpty v)) = normalizeLowercaseStringOrEmpty v"
    by (cases v) (auto simp: lower_or_empty trim_lower)
  then show ?thesis using d by (auto simp: text_or_def)
qed

lemma account_nonempty [simp]: "text_or s DEFAULT_ACCOUNT_ID \<noteq> []"
  by (simp add: DEFAULT_ACCOUNT_ID_def)

lemma meta_account [simp]: "map_of (requestMeta m a) ''accountId'' = Some a"
  by (simp add: requestMeta_def update_conv')

lemma list_effect:
  assumes "resolvePairingPath channel = Inr p" "requests_ok (readPairingRequests p st)"
  shows "readPairingRequests p (snd (listChannelPairingRequests channel account n st)) = live (readPairingRequests p st) n"
  using assms requests_ok_filter [OF assms(2)] none_expired [of n "readPairingRequests p st"]
  by (auto simp: listChannelPairingRequests_def pruneExpiredRequests_def nothing_dropped Let_def)

definition accountOf :: "string \<Rightarrow> string" where
  "accountOf accountId = text_or (normalizePairingAccountId (Some accountId)) DEFAULT_ACCOUNT_ID"

definition codes_of :: "pairing_request list \<Rightarrow> string set" where
  "codes_of reqs = set (map pr_code reqs)"

text \<open>The four outcomes of asking for a code: the sender's own request again, no room, a new request, no free code.\<close>

definition same_sender :: "string \<Rightarrow> string \<Rightarrow> pairing_request \<Rightarrow> bool" where
  "same_sender i a r \<longleftrightarrow> pr_id r = i \<and> resolvePairingRequestAccountId r = a"

lemma ok_codes:
  assumes "list_all request_ok reqs"
  shows "set (map (\<lambda>r. js_upper (coalesce (normalizeOptionalString (Some (pr_code r))) [])) reqs) = codes_of reqs"
proof -
  have "js_upper (coalesce (normalizeOptionalString (Some (pr_code r))) []) = pr_code r" if "r \<in> set reqs" for r
    using assms that by (simp add: list_all_iff request_ok_def shape_trim)
  then show ?thesis by (auto simp: codes_of_def)
qed

lemma of_account_update:
  assumes "k < length reqs" "resolvePairingRequestAccountId r = resolvePairingRequestAccountId (reqs ! k)"
  shows "length (of_account a (reqs[k := r])) = length (of_account a reqs)"
proof -
  have "length (filter P (take k reqs @ reqs ! k # drop (Suc k) reqs)) = length (filter P (take k reqs @ r # drop (Suc k) reqs))"
    if "P (reqs ! k) \<longleftrightarrow> P r" for P using that by simp
  from this [of "\<lambda>r. resolvePairingRequestAccountId r = a"] show ?thesis
    unfolding of_account_def upd_conv_take_nth_drop [OF assms(1)] id_take_nth_drop [OF assms(1), symmetric] by (simp add: assms(2))
qed

lemma requests_ok_update:
  assumes "requests_ok reqs" "k < length reqs" "request_ok r" "pr_code r = pr_code (reqs ! k)"
    "resolvePairingRequestAccountId r = resolvePairingRequestAccountId (reqs ! k)"
  shows "requests_ok (reqs[k := r])"
proof -
  have "map pr_code (reqs[k := r]) = map pr_code reqs"
    using assms(2,4) by (simp add: map_update list_update_same_conv)
  moreover have "list_all request_ok (reqs[k := r])"
    using assms(1,3) set_update_subset_insert [of reqs k r] by (auto simp: requests_ok_def list_all_iff)
  ultimately show ?thesis using assms(1) of_account_update [OF assms(2,5)] by (simp add: requests_ok_def)
qed

lemma requests_ok_snoc:
  assumes "requests_ok reqs" "request_ok r" "pr_code r \<notin> codes_of reqs"
    "length (of_account (resolvePairingRequestAccountId r) reqs) < PAIRING_PENDING_MAX"
  shows "requests_ok (reqs @ [r])"
  using assms by (auto simp: requests_ok_def codes_of_def of_account_def)

lemma upsert_effect:
  fixes n :: int and rawId accountId channel p :: string and st :: pairing_state and meta draws
  assumes path: "resolvePairingPath channel = Inr p" and ok: "requests_ok (readPairingRequests p st)"
  defines "L \<equiv> live (readPairingRequests p st) n" and "i \<equiv> normalizePairingId rawId" and "a \<equiv> accountOf accountId"
  defines "res \<equiv> upsertChannelPairingRequest channel rawId accountId meta draws n st"
  obtains
    (again) k r where "k < length L" "same_sender i a (L ! k)" "request_ok r" "request_key r = request_key (L ! k)"
      "fst res = Inr \<lparr>po_code = pr_code r, po_created = False\<rparr>" "readPairingRequests p (snd res) = L[k := r]"
  | (full) "\<not> list_ex (same_sender i a) L" "PAIRING_PENDING_MAX \<le> length (of_account a L)"
      "fst res = Inr \<lparr>po_code = [], po_created = False\<rparr>" "readPairingRequests p (snd res) = L"
  | (new) r where "\<not> list_ex (same_sender i a) L" "length (of_account a L) < PAIRING_PENDING_MAX" "request_ok r" "request_key r = (i, a, pr_code r, n)"
      "pr_code r \<notin> codes_of L" "fst res = Inr \<lparr>po_code = pr_code r, po_created = True\<rparr>" "readPairingRequests p (snd res) = L @ [r]"
  | (failed) "fst res = Inl NoUniqueCode" "readPairingRequests p (snd res) = readPairingRequests p st"
proof -
  let ?R = "readPairingRequests p st"
  have okL: "requests_ok L" unfolding L_def by (rule requests_ok_filter [OF ok])
  then have all: "list_all request_ok L" by (simp add: requests_ok_def)
  have a: "a \<noteq> []" by (simp add: a_def accountOf_def DEFAULT_ACCOUNT_ID_def)
  have matches: "requestMatchesAccountId r a \<longleftrightarrow> resolvePairingRequestAccountId r = a" for r
    using a by (simp add: requestMatchesAccountId_def)
  let ?new = "\<lambda>code created. \<lparr>pr_id = i, pr_code = code, pr_createdAt = created, pr_lastSeenAt = Some n, pr_meta = Some (requestMeta meta a)\<rparr>"
  have new_ok: "request_ok (?new code (Some t))" "request_key (?new code (Some t)) = (i, a, code, t)" if "code_shape code" for code t
    using that by (simp_all add: request_ok_def request_key_def metaAccount_def resolvePairingRequestAccountId_def normalizePairingAccountId_def a_def accountOf_def)
  have pred: "(\<lambda>r. pr_id r = i \<and> requestMatchesAccountId r a) = same_sender i a" by (auto simp: same_sender_def matches)
  have matches': "(\<lambda>r. requestMatchesAccountId r a) = (\<lambda>r. resolvePairingRequestAccountId r = a)" by (auto simp: matches)
  note unfolded = upsertChannelPairingRequest_def path sum.case pruneExpiredRequests_def read_ensure prod.case Let_def i_def [symmetric]
    L_def [symmetric] accountOf_def [symmetric] a_def [symmetric] pred ok_codes [OF all] matches' of_account_def [symmetric]
    nothing_dropped [OF okL]
  show thesis
  proof (cases "find_index (same_sender i a) L")
    case None
    then have free: "\<not> list_ex (same_sender i a) L" by (auto simp: find_index_None list_ex_iff)
    show thesis
    proof (cases "PAIRING_PENDING_MAX \<le> length (of_account a L)")
      case True
      then show thesis
        using full free none_expired [of n ?R, folded L_def] unfolding res_def unfolded None option.case by (auto split: if_splits)
    next
      case False
      then show thesis
        using new [of "?new _ (Some n)"] failed free new_ok unique_sound [of "codes_of L" draws] unfolding res_def unfolded None option.case
        by (cases "generateUniqueCode (codes_of L) draws") (auto simp: generateUniqueCode_def split: option.splits)
    qed
  next
    case (Some k)
    then have k: "k < length L" "same_sender i a (L ! k)" using find_index_Some by blast+
    then have rk: "request_ok (L ! k)" using all by (simp add: list_all_length)
    then obtain t where t: "pr_createdAt (L ! k) = Some t" by (auto simp: request_ok_def)
    have shape: "code_shape (pr_code (L ! k))" using rk by (simp add: request_ok_def)
    let ?r = "?new (pr_code (L ! k)) (Some t)"
    have key: "request_key ?r = request_key (L ! k)"
      using k(2) t new_ok(2) [OF shape, of t] by (simp add: request_key_def same_sender_def)
    have "resolvePairingRequestAccountId ?r = resolvePairingRequestAccountId (L ! k)" using key by (simp only: request_key_def prod.inject)
    then have "requests_ok (L[k := ?r])" by (intro requests_ok_update okL k(1) new_ok(1) shape) simp_all
    note keep = nothing_dropped [OF this]
    show thesis
    proof (rule again [OF k new_ok(1) [OF shape] key])
      show "fst res = Inr \<lparr>po_code = pr_code ?r, po_created = False\<rparr>" "readPairingRequests p (snd res) = L[k := ?r]"
        unfolding res_def unfolded Some option.case using keep shape t by (simp_all add: shape_trim shape_nonempty or_else_def)
    qed
  qed
qed

subsection \<open>Allow files\<close>

text \<open>What the read cache needs of the normaliser of a channel: an entry it returned it leaves alone. Channels without an adapter
  and those that fold case have such a normaliser; one that strips a prefix does not, since prefixes can be nested.\<close>

locale entry_normaliser =
  fixes norm :: "string \<Rightarrow> string"
  assumes norm_idem: "norm (norm x) = norm x"
    and norm_trim: "js_trim (norm x) = norm x"
begin

definition clean :: "string list \<Rightarrow> bool" where
  "clean es \<longleftrightarrow> distinct es \<and> (\<forall>e \<in> set es. norm e = e \<and> e \<noteq> [])"

definition listed :: "string list \<Rightarrow> string list" where
  "listed es = dedupePreserveOrder (filter (\<lambda>v. v \<noteq> []) (map norm es))"

lemma dedupe_trimmed: "\<forall>e \<in> set es. js_trim e = e \<and> e \<noteq> [] \<Longrightarrow> dedupePreserveOrder es = js_unique es"
proof -
  assume a: "\<forall>e \<in> set es. js_trim e = e \<and> e \<noteq> []"
  then have "map (\<lambda>e. coalesce (normalizeOptionalString (Some e)) []) es = map (\<lambda>e. e) es"
    by (intro map_cong) (auto simp: normalizeOptionalString_def normalizeNullableString_def)
  then have m: "map (\<lambda>e. coalesce (normalizeOptionalString (Some e)) []) es = es" by simp
  have "filter (\<lambda>e. e \<noteq> []) es = es" using a by (simp add: filter_id_conv)
  then show ?thesis unfolding dedupePreserveOrder_def m by simp
qed

lemma listed_eq: "listed es = js_unique (filter (\<lambda>v. v \<noteq> []) (map norm es))"
  unfolding listed_def by (rule dedupe_trimmed) (auto simp: norm_trim)

lemma listed_clean: "clean (listed es)"
  by (auto simp: listed_eq clean_def norm_idem)

lemma clean_fixed: "clean es \<Longrightarrow> listed es = es"
proof -
  assume c: "clean es"
  then have "map norm es = map (\<lambda>e. e) es" by (intro map_cong) (auto simp: clean_def)
  then have "map norm es = es" by simp
  moreover have "filter (\<lambda>v. v \<noteq> []) es = es" "distinct es" using c by (simp_all add: clean_def filter_id_conv)
  ultimately show ?thesis by (simp add: listed_eq js_unique_def distinct_remdups_id)
qed

lemma clean_add: "clean es \<Longrightarrow> norm x \<noteq> [] \<Longrightarrow> norm x \<notin> set es \<Longrightarrow> clean (es @ [norm x])"
  by (auto simp: clean_def norm_idem)

lemma clean_filter: "clean es \<Longrightarrow> clean (filter P es)"
  by (simp add: clean_def)

end

lemma entry_trimmed: "js_trim (normalizeAllowEntry env channel x) = normalizeAllowEntry env channel x"
  by (auto simp: normalizeAllowEntry_def Let_def normalizeOptionalString_def normalizeNullableString_def)

definition plain_env :: pairing_env where
  "plain_env = \<lparr>pe_adapter = \<lambda>_. None, pe_bytes = \<lambda>es. 40 + length (concat es)\<rparr>"

lemma lower_star: "js_lower s = ''*'' \<longleftrightarrow> s = ''*''"
proof -
  have "js_lower_char c = CHR ''*'' \<longleftrightarrow> c = CHR ''*''" for c by (cases c) (auto simp: js_lower_char_bits)
  then show ?thesis by (cases s) (auto simp: js_lower_def)
qed

text \<open>Without an adapter, and with one that turns entries to lower case.\<close>

definition lower_env :: pairing_env where
  "lower_env = \<lparr>pe_adapter = \<lambda>_. Some (\<lambda>e. normalizeLowercaseStringOrEmpty (Some e)), pe_bytes = \<lambda>es. 40 + length (concat es)\<rparr>"

interpretation plain_entries: entry_normaliser "normalizeAllowEntry plain_env channel" for channel
  by unfold_locales (auto simp: entry_trimmed, auto simp: normalizeAllowEntry_def plain_env_def Let_def normalizeOptionalString_def normalizeNullableString_def)

interpretation lower_entries: entry_normaliser "normalizeAllowEntry lower_env channel" for channel
  by unfold_locales (auto simp: entry_trimmed, auto simp: normalizeAllowEntry_def lower_env_def Let_def normalizeOptionalString_def normalizeNullableString_def
      lower_or_empty trim_lower lower_star)

text \<open>The list a file stands for.\<close>

definition allowed :: "pairing_env \<Rightarrow> string \<Rightarrow> string \<Rightarrow> pairing_state \<Rightarrow> string list" where
  "allowed env channel q st = normalizeAllowFromList env channel (Option.bind (map_of (ps_allow st) q) af_entries)"

lemma allowed_Nil: "normalizeAllowFromList env channel None = []" "normalizeAllowFromList env channel (Some []) = []"
  by (simp_all add: normalizeAllowFromList_def dedupePreserveOrder_def)

lemma allowed_ensure [simp]: "allowed env channel q (ensureAllowFile env' p n st) = allowed env channel q st"
  by (auto simp: allowed_def ensureAllowFile_def update_conv' allowed_Nil)

lemma allowed_write:
  assumes "entry_normaliser (normalizeAllowEntry env channel)" "entry_normaliser.clean (normalizeAllowEntry env channel) es"
  shows "allowed env channel q (writeAllowFromState env p es n st) = (if q = p then es else allowed env channel q st)"
  using entry_normaliser.clean_fixed [OF assms] entry_normaliser.listed_def [OF assms(1), of es]
  by (auto simp: allowed_def writeAllowFromState_def setAllowFromFileReadCache_def update_conv' normalizeAllowFromList_def Let_def)

lemma allowed_clean:
  "entry_normaliser (normalizeAllowEntry env channel) \<Longrightarrow> entry_normaliser.clean (normalizeAllowEntry env channel) (allowed env channel q st)"
  using entry_normaliser.listed_clean [of "normalizeAllowEntry env channel" "coalesce (Option.bind (map_of (ps_allow st) q) af_entries) []"]
  by (simp add: allowed_def normalizeAllowFromList_def entry_normaliser.listed_def)

text \<open>The entries of a file as they are stored. Reading normalises them; what is written back is what was read.\<close>

definition stored :: "string \<Rightarrow> pairing_state \<Rightarrow> string list" where
  "stored q st = coalesce (Option.bind (map_of (ps_allow st) q) af_entries) []"

lemma stored_cong: "ps_allow st = ps_allow st' \<Longrightarrow> stored q st = stored q st'"
  by (simp add: stored_def)

lemma stored_ensure [simp]: "stored q (ensureAllowFile env p n st) = stored q st"
  by (auto simp: stored_def ensureAllowFile_def update_conv')

lemma stored_write: "stored q (writeAllowFromState env p es n st) = (if q = p then es else stored q st)"
  by (simp add: stored_def writeAllowFromState_def setAllowFromFileReadCache_def update_conv' Let_def)

lemma allowed_stored: "set (allowed env channel q st) = {e. \<exists>r \<in> set (stored q st). e = normalizeAllowEntry env channel r \<and> e \<noteq> []}"
proof -
  have t: "coalesce (normalizeOptionalString (Some (normalizeAllowEntry env channel r))) [] = normalizeAllowEntry env channel r" for r
    using entry_trimmed [of env channel r] by (simp add: normalizeOptionalString_def normalizeNullableString_def Let_def)
  have "map (\<lambda>e. coalesce (normalizeOptionalString (Some e)) []) (filter (\<lambda>v. v \<noteq> []) (map (normalizeAllowEntry env channel) es)) =
      filter (\<lambda>v. v \<noteq> []) (map (normalizeAllowEntry env channel) es)" for es
    by (rule map_idI) (use t in auto)
  then show ?thesis by (auto simp: allowed_def stored_def normalizeAllowFromList_def dedupePreserveOrder_def)
qed

lemma add_effect:
  fixes env :: pairing_env and entry channel q :: string and n :: int and st :: pairing_state
  assumes path: "resolveAllowFromFilePath channel account = Inr p"
  defines "x \<equiv> normalizeAllowFromInput env channel entry" and "cur \<equiv> allowed env channel p st"
  defines "res \<equiv> addChannelAllowFromStoreEntry env channel entry account n st"
  shows "stored q (snd res) = (if q = p \<and> x \<noteq> [] \<and> x \<notin> set cur then cur @ [x] else stored q st)"
    "fst res = Inr (x \<noteq> [] \<and> x \<notin> set cur, if x \<noteq> [] \<and> x \<notin> set cur then cur @ [x] else cur)"
proof -
  have cur: "normalizeAllowFromList env channel (Option.bind (map_of (ps_allow (ensureAllowFile env p n st)) p) af_entries) = cur"
    using allowed_ensure [of env channel p env p n st] by (simp only: allowed_def cur_def)
  show "stored q (snd res) = (if q = p \<and> x \<noteq> [] \<and> x \<notin> set cur then cur @ [x] else stored q st)"
    by (simp add: res_def addChannelAllowFromStoreEntry_def updateAllowFromStoreEntry_def path Let_def cur x_def stored_write)
  show "fst res = Inr (x \<noteq> [] \<and> x \<notin> set cur, if x \<noteq> [] \<and> x \<notin> set cur then cur @ [x] else cur)"
    by (simp add: res_def addChannelAllowFromStoreEntry_def updateAllowFromStoreEntry_def path Let_def cur x_def)
qed

lemma remove_effect:
  "set (stored q (snd (removeChannelAllowFromStoreEntry env channel entry account n st))) \<subseteq> set (stored q st) \<union> set (allowed env channel q st)"
proof (cases "resolveAllowFromFilePath channel account")
  case (Inr p)
  have cur: "normalizeAllowFromList env channel (Option.bind (map_of (ps_allow (ensureAllowFile env p n st)) p) af_entries) = allowed env channel p st"
    using allowed_ensure [of env channel p env p n st] by (simp only: allowed_def)
  show ?thesis
    by (auto simp: removeChannelAllowFromStoreEntry_def updateAllowFromStoreEntry_def Inr Let_def cur stored_write split: if_splits)
qed (simp add: removeChannelAllowFromStoreEntry_def updateAllowFromStoreEntry_def)

subsection \<open>Approving\<close>

lemma pending_add [simp]: "readPairingRequests p (snd (addChannelAllowFromStoreEntry env channel entry account n st)) = readPairingRequests p st"
  by (auto simp: addChannelAllowFromStoreEntry_def updateAllowFromStoreEntry_def Let_def ensureAllowFile_def writeAllowFromState_def
      setAllowFromFileReadCache_def readPairingRequests_def split: sum.split)

lemma pending_remove [simp]: "readPairingRequests p (snd (removeChannelAllowFromStoreEntry env channel entry account n st)) = readPairingRequests p st"
  by (auto simp: removeChannelAllowFromStoreEntry_def updateAllowFromStoreEntry_def Let_def ensureAllowFile_def writeAllowFromState_def
      setAllowFromFileReadCache_def readPairingRequests_def split: sum.split)

lemma allowed_pending [simp]:
  "allowed env channel q (writeRequests p reqs st) = allowed env channel q st" "allowed env channel q (ensureJsonFile p st) = allowed env channel q st"
  by (simp_all add: allowed_def writeRequests_def ensureJsonFile_def)

lemma allow_pending [simp]: "ps_allow (writeRequests p reqs st) = ps_allow st" "ps_allow (ensureJsonFile p st) = ps_allow st"
  by (simp_all add: writeRequests_def ensureJsonFile_def)

text \<open>The code the owner typed, as it is compared.\<close>

definition typed :: "string \<Rightarrow> string" where
  "typed rawCode = js_upper (coalesce (normalizeNullableString (Some rawCode)) [])"

abbreviation accountFile :: "string \<Rightarrow> string option \<Rightarrow> pairing_request \<Rightarrow> pairing_error + string" where
  "accountFile channel accountId r \<equiv>
     resolveAllowFromFilePath channel (or_else (normalizeOptionalString accountId) (normalizeOptionalString (metaAccount r)))"

lemma approve_effect:
  fixes env :: pairing_env and channel rawCode p :: string and accountId :: "string option" and n :: int and st :: pairing_state
  assumes path: "resolvePairingPath channel = Inr p" and ok: "requests_ok (readPairingRequests p st)"
  defines "R \<equiv> readPairingRequests p st" and "L \<equiv> live (readPairingRequests p st) n"
  defines "res \<equiv> approveChannelPairingCode env channel rawCode accountId n st"
  defines "wanted \<equiv> \<lambda>r. pr_code r = typed rawCode \<and> requestMatchesAccountId r (normalizePairingAccountId accountId)"
  obtains
    (none) "typed rawCode = [] \<or> \<not> list_ex wanted L" "fst res = Inr None" "readPairingRequests p (snd res) \<in> {R, L}"
      "ps_allow (snd res) = ps_allow st"
  | (hit) k st2 added where "k < length L" "wanted (L ! k)" "readPairingRequests p (snd res) = take k L @ drop (Suc k) L"
      "added = addChannelAllowFromStoreEntry env channel (pr_id (L ! k))
         (or_else (normalizeOptionalString accountId) (normalizeOptionalString (metaAccount (L ! k)))) n st2"
      "fst res = (case fst added of Inl e \<Rightarrow> Inl e | Inr _ \<Rightarrow> Inr (Some (L ! k)))" "snd res = snd added"
      "ps_allow st2 = ps_allow st"
proof -
  have okL: "requests_ok L" unfolding L_def by (rule requests_ok_filter [OF ok])
  have up: "js_upper (pr_code r) = pr_code r" if "r \<in> set L" for r
    using okL that by (auto simp: requests_ok_def list_all_iff request_ok_def)
  let ?w = "\<lambda>r. js_upper (pr_code r) = typed rawCode \<and> requestMatchesAccountId r (normalizePairingAccountId accountId)"
  note unfolded = approveChannelPairingCode_def typed_def [symmetric] Let_def path sum.case pruneExpiredRequests_def read_ensure prod.case L_def [symmetric]
  show thesis
  proof (cases "typed rawCode = []")
    case True
    show thesis by (rule none) (use True in \<open>auto simp: res_def approveChannelPairingCode_def typed_def R_def\<close>)
  next
    case False
    show thesis
    proof (cases "find_index ?w L")
      case None
      then have "\<not> list_ex wanted L" using up by (auto simp: find_index_None list_ex_iff wanted_def)
      moreover have "fst res = Inr None" "readPairingRequests p (snd res) \<in> {R, L}" "ps_allow (snd res) = ps_allow st"
        unfolding res_def unfolded using False None by (auto simp: R_def)
      ultimately show thesis by (intro none) blast+
    next
      case (Some k)
      then have k: "k < length L" "?w (L ! k)" using find_index_Some by blast+
      let ?st2 = "writeRequests p (take k L @ drop (Suc k) L) (ensureJsonFile p st)"
      show thesis
      proof (rule hit [where ?st2.0 = ?st2, OF k(1) _ _ refl])
        show "wanted (L ! k)" using k up [of "L ! k"] by (simp add: wanted_def)
      qed (use False Some in \<open>simp_all add: res_def unfolded case_prod_beta\<close>)
    qed
  qed
qed

subsection \<open>Histories\<close>

text \<open>The calls on one channel, each with its time. Besides the operations there are writes of other programs to an allow file.\<close>

datatype pairing_call =
    AskCode string string "(string, string option) js_map option" "nat \<Rightarrow> nat \<Rightarrow> 5 word"
  | ListRequests "string option"
  | ApproveCode string "string option"
  | AllowSender string "string option"
  | ForgetSender string "string option"
  | ReadAllowed "string option"
  | ForeignWrite string allow_file

record pairing_history =
  ph_state :: pairing_state
  ph_issued :: "ledger_key list"
  ph_approved :: "(ledger_key \<times> int) list"

definition foreignWrite :: "string \<Rightarrow> allow_file \<Rightarrow> pairing_state \<Rightarrow> pairing_state" where
  "foreignWrite q f st = st\<lparr>ps_allow := AList.update q f (ps_allow st)\<rparr>"

fun pairing_step :: "pairing_env \<Rightarrow> string \<Rightarrow> int \<times> pairing_call \<Rightarrow> pairing_history \<Rightarrow> pairing_history" where
  "pairing_step env channel (n, AskCode sender account meta draws) h =
     (let (r, st) = upsertChannelPairingRequest channel sender account meta draws n (ph_state h)
      in h\<lparr>ph_state := st, ph_issued := ph_issued h @
            (case r of Inr ans \<Rightarrow> if po_created ans then [(normalizePairingId sender, accountOf account, po_code ans, n)] else [] | Inl _ \<Rightarrow> [])\<rparr>)"
| "pairing_step env channel (n, ListRequests account) h = h\<lparr>ph_state := snd (listChannelPairingRequests channel account n (ph_state h))\<rparr>"
| "pairing_step env channel (n, ApproveCode code account) h =
     (let (r, st) = approveChannelPairingCode env channel code account n (ph_state h)
      in h\<lparr>ph_state := st, ph_approved := ph_approved h @ (case r of Inr (Some e) \<Rightarrow> [(request_key e, n)] | _ \<Rightarrow> [])\<rparr>)"
| "pairing_step env channel (n, AllowSender entry account) h =
     h\<lparr>ph_state := snd (addChannelAllowFromStoreEntry env channel entry account n (ph_state h))\<rparr>"
| "pairing_step env channel (n, ForgetSender entry account) h =
     h\<lparr>ph_state := snd (removeChannelAllowFromStoreEntry env channel entry account n (ph_state h))\<rparr>"
| "pairing_step env channel (n, ReadAllowed account) h = h\<lparr>ph_state := snd (readChannelAllowFromStore env channel account (ph_state h))\<rparr>"
| "pairing_step env channel (n, ForeignWrite q f) h = h\<lparr>ph_state := foreignWrite q f (ph_state h)\<rparr>"

lemma pending_foreign [simp]: "readPairingRequests p (foreignWrite q f st) = readPairingRequests p st"
  by (simp add: foreignWrite_def readPairingRequests_def)

definition pairing_start :: "(string, allow_file) js_map \<Rightarrow> pairing_history" where
  "pairing_start allows = \<lparr>ph_state = \<lparr>ps_pending = [], ps_allow = allows, ps_cache = []\<rparr>, ph_issued = [], ph_approved = []\<rparr>"

definition pending_of :: "string \<Rightarrow> pairing_state \<Rightarrow> pairing_request list" where
  "pending_of channel st = (case resolvePairingPath channel of Inl _ \<Rightarrow> [] | Inr p \<Rightarrow> readPairingRequests p st)"

definition ledger_ok :: "string \<Rightarrow> pairing_history \<Rightarrow> bool" where
  "ledger_ok channel h \<longleftrightarrow>
     requests_ok (pending_of channel (ph_state h)) \<and>
     mset (map fst (ph_approved h)) + mset (map request_key (pending_of channel (ph_state h))) \<subseteq># mset (ph_issued h) \<and>
     list_all (\<lambda>((_, _, _, issuedAt), n). n - issuedAt \<le> PAIRING_PENDING_TTL_MS) (ph_approved h)"

lemma mset_map_filter: "mset (map f (filter P xs)) \<subseteq># mset (map f xs)"
  by (metis image_mset_subseteq_mono mset_filter mset_map multiset_filter_subset)

lemma remove_nth: "k < length xs \<Longrightarrow> mset (map f xs) = add_mset (f (xs ! k)) (mset (map f (take k xs @ drop (Suc k) xs)))"
  by (subst id_take_nth_drop [of k xs]) simp_all

lemma requests_ok_remove: "requests_ok reqs \<Longrightarrow> requests_ok (take k reqs @ drop (Suc k) reqs)"
proof (cases "k < length reqs")
  case True
  assume ok: "requests_ok reqs"
  have split: "reqs = take k reqs @ reqs ! k # drop (Suc k) reqs" using True by (rule id_take_nth_drop)
  have "length (of_account a (take k reqs @ drop (Suc k) reqs)) \<le> length (of_account a reqs)" for a
    by (subst (3) split) (simp add: of_account_def)
  moreover have "distinct (map pr_code (take k reqs @ reqs ! k # drop (Suc k) reqs))" "list_all request_ok (take k reqs @ reqs ! k # drop (Suc k) reqs)"
    using ok split by (simp_all add: requests_ok_def)
  ultimately show ?thesis using ok unfolding requests_ok_def by (auto intro: order_trans)
qed simp

lemma keys_update: "k < length xs \<Longrightarrow> request_key r = request_key (xs ! k) \<Longrightarrow> map request_key (xs[k := r]) = map request_key xs"
  by (metis list_update_id map_update)

lemma read_effect: "readPairingRequests p (snd (readChannelAllowFromStore env channel account st)) = readPairingRequests p st"
  "ps_allow (snd (readChannelAllowFromStore env channel account st)) = ps_allow st"
proof -
  have "ps_pending (snd (readAllowFromStateForPath env channel q s)) = ps_pending s" "ps_allow (snd (readAllowFromStateForPath env channel q s)) = ps_allow s" for q s
    by (auto simp: readAllowFromStateForPath_def readAllowFromFileWithExists_def setAllowFromFileReadCache_def Let_def split: option.split)
  then show "readPairingRequests p (snd (readChannelAllowFromStore env channel account st)) = readPairingRequests p st"
    "ps_allow (snd (readChannelAllowFromStore env channel account st)) = ps_allow st"
    by (auto simp: readChannelAllowFromStore_def readPairingRequests_def Let_def case_prod_beta split: sum.split)
qed

subsection \<open>The ledger\<close>

lemma live_time: "r \<in> set (live reqs n) \<Longrightarrow> n - coalesce (pr_createdAt r) 0 \<le> PAIRING_PENDING_TTL_MS"
  by (auto simp: isExpired_def split: option.splits)

lemma ledger_shrunk:
  assumes "ledger_ok channel h" "pending_of channel st = filter P (pending_of channel (ph_state h))"
  shows "ledger_ok channel (h\<lparr>ph_state := st\<rparr>)"
  using assms requests_ok_filter [of "pending_of channel (ph_state h)" P]
    subset_mset.order_trans [OF subset_mset.add_left_mono [OF mset_map_filter [of request_key P "pending_of channel (ph_state h)"]]]
  by (simp add: ledger_ok_def)

lemma ledger_same: "ledger_ok channel h \<Longrightarrow> pending_of channel st = pending_of channel (ph_state h) \<Longrightarrow> ledger_ok channel (h\<lparr>ph_state := st\<rparr>)"
  by (simp add: ledger_ok_def)

lemma ledger_ask:
  assumes ok: "ledger_ok channel h"
  shows "ledger_ok channel (pairing_step env channel (n, AskCode sender account meta draws) h)"
proof (cases "resolvePairingPath channel")
  case (Inl e)
  then show ?thesis using ok by (simp add: upsertChannelPairingRequest_def ledger_ok_def pending_of_def)
next
  case (Inr p)
  let ?R = "readPairingRequests p (ph_state h)"
  let ?L = "live ?R n"
  have pend: "pending_of channel st = readPairingRequests p st" for st by (simp add: pending_of_def Inr)
  have R: "requests_ok ?R" "mset (map fst (ph_approved h)) + mset (map request_key ?R) \<subseteq># mset (ph_issued h)"
    using ok by (simp_all add: ledger_ok_def pend)
  have L: "requests_ok ?L" by (rule requests_ok_filter [OF R(1)])
  have sub: "mset (map fst (ph_approved h)) + mset (map request_key ?L) \<subseteq># mset (ph_issued h)"
    using subset_mset.order_trans [OF subset_mset.add_left_mono [OF mset_map_filter] R(2)] .
  let ?res = "upsertChannelPairingRequest channel sender account meta draws n (ph_state h)"
  obtain r st where res: "?res = (r, st)" by fastforce
  show ?thesis
  proof (rule upsert_effect [OF Inr R(1), where rawId = sender and accountId = account and meta = meta and draws = draws and n = n], unfold res fst_conv snd_conv)
    fix k r'
    assume "k < length ?L" "request_ok r'" "request_key r' = request_key (?L ! k)" "r = Inr \<lparr>po_code = pr_code r', po_created = False\<rparr>"
      "readPairingRequests p st = ?L[k := r']"
    then show ?thesis using ok sub requests_ok_update [OF L] by (simp add: ledger_ok_def pend res keys_update request_key_def)
  next
    fix r'
    assume "length (of_account (accountOf account) ?L) < PAIRING_PENDING_MAX" "request_ok r'"
      and key: "request_key r' = (normalizePairingId sender, accountOf account, pr_code r', n)"
      and "pr_code r' \<notin> codes_of ?L" "r = Inr \<lparr>po_code = pr_code r', po_created = True\<rparr>" "readPairingRequests p st = ?L @ [r']"
    moreover from this have "requests_ok (?L @ [r'])" by (intro requests_ok_snoc [OF L]) (simp_all add: request_key_def)
    ultimately show ?thesis using ok sub by (simp add: ledger_ok_def pend res key)
  qed (use ok L sub R in \<open>simp_all add: ledger_ok_def pend res\<close>)
qed

lemma ledger_approve:
  assumes ok: "ledger_ok channel h"
  shows "ledger_ok channel (pairing_step env channel (n, ApproveCode code account) h)"
proof (cases "resolvePairingPath channel")
  case (Inl e)
  then show ?thesis using ok by (simp add: approveChannelPairingCode_def ledger_ok_def pending_of_def Let_def)
next
  case (Inr p)
  let ?R = "readPairingRequests p (ph_state h)"
  let ?L = "live ?R n"
  have pend: "pending_of channel st = readPairingRequests p st" for st by (simp add: pending_of_def Inr)
  have R: "requests_ok ?R" "mset (map fst (ph_approved h)) + mset (map request_key ?R) \<subseteq># mset (ph_issued h)"
    using ok by (simp_all add: ledger_ok_def pend)
  have L: "requests_ok ?L" by (rule requests_ok_filter [OF R(1)])
  have sub: "mset (map fst (ph_approved h)) + mset (map request_key ?L) \<subseteq># mset (ph_issued h)"
    using subset_mset.order_trans [OF subset_mset.add_left_mono [OF mset_map_filter] R(2)] .
  obtain r st where res: "approveChannelPairingCode env channel code account n (ph_state h) = (r, st)" by fastforce
  show ?thesis
  proof (rule approve_effect [OF Inr R(1), where env = env and rawCode = code and accountId = account and n = n], unfold res fst_conv snd_conv)
    assume "r = Inr None" "readPairingRequests p st \<in> {?R, ?L}"
    then show ?thesis using ok L sub by (auto simp: ledger_ok_def pend res)
  next
    fix k st2 added
    assume k: "k < length ?L" and after: "readPairingRequests p st = take k ?L @ drop (Suc k) ?L"
      and out: "r = (case fst added of Inl e \<Rightarrow> Inl e | Inr _ \<Rightarrow> Inr (Some (?L ! k)))"
    note moved = remove_nth [OF k, of request_key]
    have time: "(case request_key (?L ! k) of (_, _, _, t) \<Rightarrow> \<lambda>n. n - t \<le> PAIRING_PENDING_TTL_MS) n"
      using live_time [OF nth_mem [OF k]] by (simp add: request_key_def)
    show ?thesis
    proof (cases "fst added")
      case (Inl e)
      have "mset (map fst (ph_approved h)) + mset (map request_key (take k ?L @ drop (Suc k) ?L)) \<subseteq># mset (ph_issued h)"
        by (rule subset_mset.order_trans [OF _ sub [unfolded moved]]) simp
      then show ?thesis using ok requests_ok_remove [OF L] by (simp add: ledger_ok_def pend res after out Inl)
    next
      case (Inr x)
      then show ?thesis using ok requests_ok_remove [OF L] sub time unfolding moved by (simp add: ledger_ok_def pend res after out)
    qed
  qed
qed

lemma ledger_step: "ledger_ok channel h \<Longrightarrow> ledger_ok channel (pairing_step env channel c h)"
proof (induction env channel c h rule: pairing_step.induct)
  case (2 env channel n account h)
  show ?case
  proof (cases "resolvePairingPath channel")
    case (Inr p)
    then have "pending_of channel (snd (listChannelPairingRequests channel account n (ph_state h))) = live (pending_of channel (ph_state h)) n"
      using 2 list_effect [OF Inr, of "ph_state h" account n] by (simp add: pending_of_def ledger_ok_def)
    then show ?thesis using ledger_shrunk [OF 2] by simp
  qed (use 2 in \<open>simp add: listChannelPairingRequests_def ledger_ok_def pending_of_def\<close>)
qed (auto intro!: ledger_ask ledger_approve ledger_same simp: pending_of_def read_effect split: sum.split simp del: pairing_step.simps(1,3))

interpretation pairing: guarded_system "pairing_start allows" "pairing_step env channel" "ledger_ok channel" for env channel allows
proof unfold_locales
  show "ledger_ok channel (pairing_start allows)"
    by (auto simp: ledger_ok_def pairing_start_def pending_of_def readPairingRequests_def requests_ok_def of_account_def split: sum.split)
qed (rule ledger_step)

text \<open>C9: Whatever calls arrive in whatever order, every approval uses up a code of its own that was issued to that sender for that
  account, at most an hour before: no code lets in anyone else, and none is good twice.\<close>

theorem approvals_were_issued:
  "let h = fold (pairing_step env channel) calls (pairing_start allows)
   in mset (map fst (ph_approved h)) \<subseteq># mset (ph_issued h) \<and>
      list_all (\<lambda>((sender, account, code, issuedAt), approvedAt). approvedAt - issuedAt \<le> 60 * 60 * 1000) (ph_approved h)"
proof -
  define h where "h = fold (pairing_step env channel) calls (pairing_start allows)"
  have "ledger_ok channel h" unfolding h_def by (rule pairing.inv_reach)
  then have "mset (map fst (ph_approved h)) \<subseteq># mset (ph_issued h)" "list_all (\<lambda>((_, _, _, issuedAt), n). n - issuedAt \<le> PAIRING_PENDING_TTL_MS) (ph_approved h)"
    using subset_mset.order_trans [OF mset_subset_eq_add_left] unfolding ledger_ok_def by blast+
  then show ?thesis unfolding Let_def h_def [symmetric] by (simp add: PAIRING_PENDING_TTL_MS_def)
qed

text \<open>The pending file of a channel never holds more than three requests of one account, and no two with the same code; every code
  has eight characters of the alphabet, in which no character is easily mistaken for another.\<close>

theorem pending_bounded:
  "let reqs = pending_of channel (ph_state (fold (pairing_step env channel) calls (pairing_start allows)))
   in length (filter (\<lambda>r. resolvePairingRequestAccountId r = account) reqs) \<le> 3 \<and> distinct (map pr_code reqs) \<and>
      list_all (\<lambda>r. length (pr_code r) = 8 \<and> set (pr_code r) \<subseteq> set ''ABCDEFGHJKLMNPQRSTUVWXYZ23456789'') reqs"
proof -
  define reqs where "reqs = pending_of channel (ph_state (fold (pairing_step env channel) calls (pairing_start allows)))"
  have ok: "requests_ok reqs" using pairing.inv_reach [of channel env calls allows] by (simp add: reqs_def ledger_ok_def)
  then have "length (of_account account reqs) \<le> 3" by (simp add: requests_ok_def PAIRING_PENDING_MAX_def)
  moreover have "list_all (\<lambda>r. length (pr_code r) = 8 \<and> set (pr_code r) \<subseteq> set PAIRING_CODE_ALPHABET) reqs"
    using ok by (auto simp: requests_ok_def request_ok_def code_shape_def PAIRING_CODE_LENGTH_def list_all_iff)
  ultimately show ?thesis
    using ok unfolding Let_def reqs_def [symmetric] of_account_def PAIRING_CODE_ALPHABET_def by (simp only: requests_ok_def)
qed


end
