(* ===== verification/PairingAccess.thy ===== *)
theory PairingAccess
  imports PairingSafety
begin

text \<open>
  Who is on an allow list after pairing, how long a code is good, what the read cache answers, and the names of the files.
\<close>

subsection \<open>Accounts and their files\<close>

lemma account_fixed: "normalizeLowercaseStringOrEmpty (Some (resolvePairingRequestAccountId r)) = resolvePairingRequestAccountId r"
    "resolvePairingRequestAccountId r \<noteq> []"
proof -
  have d: "normalizeLowercaseStringOrEmpty (Some DEFAULT_ACCOUNT_ID) = DEFAULT_ACCOUNT_ID" by code_simp
  have "normalizeLowercaseStringOrEmpty (Some (normalizeLowercaseStringOrEmpty v)) = normalizeLowercaseStringOrEmpty v" for v
    by (cases v) (auto simp: lower_or_empty trim_lower)
  then show "normalizeLowercaseStringOrEmpty (Some (resolvePairingRequestAccountId r)) = resolvePairingRequestAccountId r"
    using d by (auto simp: resolvePairingRequestAccountId_def normalizePairingAccountId_def text_or_def)
  show "resolvePairingRequestAccountId r \<noteq> []" by (simp add: resolvePairingRequestAccountId_def DEFAULT_ACCOUNT_ID_def)
qed

lemma file_by_account:
  assumes "normalizeLowercaseStringOrEmpty (Some x) = normalizeLowercaseStringOrEmpty (Some y)"
  shows "resolveAllowFromFilePath channel (Some x) = resolveAllowFromFilePath channel (Some y)"
proof -
  have "js_trim x = [] \<longleftrightarrow> js_trim y = []" using assms by (metis js_lower_empty lower_or_empty)
  moreover have "normalizePairingFilenameKey (js_trim x) = normalizePairingFilenameKey (js_trim y)"
    using assms by (simp add: normalizePairingFilenameKey_def lower_or_empty)
  ultimately have "resolveOptionalAccountFilenameKey (Some x) = resolveOptionalAccountFilenameKey (Some y)"
    by (simp add: resolveOptionalAccountFilenameKey_def normalizeOptionalString_def normalizeNullableString_def)
  then show ?thesis unfolding resolveAllowFromFilePath_def by (simp only:)
qed

lemma same_file:
  assumes "request_ok r" "requestMatchesAccountId r (normalizePairingAccountId account)"
  shows "accountFile channel account r = resolveAllowFromFilePath channel (Some (resolvePairingRequestAccountId r))"
proof (cases "normalizeOptionalString account")
  case None
  have "js_trim (resolvePairingRequestAccountId r) = resolvePairingRequestAccountId r"
    using account_fixed(1) [of r] by (metis js_trim_idem lower_or_empty trim_lower)
  then have "normalizeOptionalString (Some (resolvePairingRequestAccountId r)) = Some (resolvePairingRequestAccountId r)"
    using account_fixed(2) [of r] by (simp add: normalizeOptionalString_def normalizeNullableString_def)
  then show ?thesis using None assms(1) by (simp add: request_ok_def or_else_def)
next
  case (Some x)
  then obtain y where y: "account = Some y" "x = js_trim y" "x \<noteq> []"
    by (auto simp: normalizeOptionalString_def normalizeNullableString_def Let_def split: option.splits if_splits)
  then have "resolvePairingRequestAccountId r = normalizeLowercaseStringOrEmpty (Some x)"
    using assms(2) by (auto simp: requestMatchesAccountId_def normalizePairingAccountId_def lower_or_empty)
  then show ?thesis using file_by_account [of x "resolvePairingRequestAccountId r"] account_fixed(1) [of r] Some by (simp add: or_else_def)
qed

subsection \<open>Who is let in\<close>

text \<open>The entries a call adds to a list, before the channel normalises them: the sender the owner allows, and what another program
  writes. An approval adds the sender of the approved code.\<close>

definition added_by :: "string \<Rightarrow> string \<Rightarrow> int \<times> pairing_call \<Rightarrow> string list" where
  "added_by channel q c =
     (case snd c of
        AllowSender entry account \<Rightarrow> if resolveAllowFromFilePath channel account = Inr q then [normalizePairingId entry] else []
      | ForeignWrite q' f \<Rightarrow> if q' = q then coalesce (af_entries f) [] else []
      | _ \<Rightarrow> [])"

definition approved_for :: "string \<Rightarrow> string \<Rightarrow> pairing_history \<Rightarrow> string list" where
  "approved_for channel q h =
     map (\<lambda>((sender, _, _, _), _). normalizePairingId sender)
       (filter (\<lambda>((_, account, _, _), _). resolveAllowFromFilePath channel (Some account) = Inr q) (ph_approved h))"

text \<open>The forms an entry takes when the channel normalises it again and again, as every read of a list does to what was written.\<close>

definition forms :: "pairing_env \<Rightarrow> string \<Rightarrow> string set \<Rightarrow> string set" where
  "forms env channel S = {e. \<exists>s \<in> S. \<exists>k. e = (normalizeAllowEntry env channel ^^ k) s}"

lemma forms_self: "s \<in> S \<Longrightarrow> s \<in> forms env channel S"
  unfolding forms_def by (force intro: exI [of _ 0])

lemma forms_again: "e \<in> forms env channel S \<Longrightarrow> normalizeAllowEntry env channel e \<in> forms env channel S"
proof -
  assume "e \<in> forms env channel S"
  then obtain s k where s: "s \<in> S" "e = (normalizeAllowEntry env channel ^^ k) s" unfolding forms_def by blast
  then have "normalizeAllowEntry env channel e = (normalizeAllowEntry env channel ^^ Suc k) s" by simp
  then show ?thesis using s(1) unfolding forms_def by blast
qed

lemma forms_mono: "S \<subseteq> T \<Longrightarrow> forms env channel S \<subseteq> forms env channel T"
  unfolding forms_def by blast

lemma forms_input: "normalizePairingId entry \<in> S \<Longrightarrow> normalizeAllowFromInput env channel entry \<in> forms env channel S"
  unfolding normalizeAllowFromInput_def by (intro forms_again forms_self)

lemma forms_read: "set (stored q st) \<subseteq> forms env channel S \<Longrightarrow> set (allowed env channel q st) \<subseteq> forms env channel S"
  unfolding allowed_stored using forms_again by blast

lemma allow_list: "ps_allow (snd (listChannelPairingRequests channel account n st)) = ps_allow st"
  by (auto simp: listChannelPairingRequests_def Let_def case_prod_beta ensureJsonFile_def writeRequests_def split: sum.split)

lemma allow_upsert: "ps_allow (snd (upsertChannelPairingRequest channel i a meta draws n st)) = ps_allow st"
  by (auto simp: upsertChannelPairingRequest_def Let_def case_prod_beta ensureJsonFile_def writeRequests_def split: sum.split option.split)

lemma add_failed: "resolveAllowFromFilePath channel account = Inl e \<Longrightarrow> addChannelAllowFromStoreEntry env channel entry account n st = (Inl e, st)"
  by (simp add: addChannelAllowFromStoreEntry_def updateAllowFromStoreEntry_def)

lemma approve_stored:
  fixes env :: pairing_env and channel code q :: string and account :: "string option" and n :: int and h :: pairing_history
  assumes ok: "ledger_ok channel h"
  defines "h' \<equiv> pairing_step env channel (n, ApproveCode code account) h"
  assumes before: "set (stored q (ph_state h)) \<subseteq> forms env channel S" and new: "set (approved_for channel q h') \<subseteq> S"
  shows "set (stored q (ph_state h')) \<subseteq> forms env channel S"
proof (cases "resolvePairingPath channel")
  case (Inl e)
  then show ?thesis using before by (auto simp: h'_def approveChannelPairingCode_def Let_def)
next
  case (Inr p)
  have R: "requests_ok (readPairingRequests p (ph_state h))" using ok by (simp add: ledger_ok_def pending_of_def Inr)
  obtain r st where res: "approveChannelPairingCode env channel code account n (ph_state h) = (r, st)" by fastforce
  have h': "ph_state h' = st" by (simp add: h'_def res)
  show ?thesis
  proof (rule approve_effect [OF Inr R, where env = env and rawCode = code and accountId = account and n = n], unfold res fst_conv snd_conv)
    assume "ps_allow st = ps_allow (ph_state h)"
    then show ?thesis using before stored_cong h' by metis
  next
    fix k st2 added
    let ?r = "live (readPairingRequests p (ph_state h)) n ! k"
    assume k: "k < length (live (readPairingRequests p (ph_state h)) n)"
      and w: "pr_code ?r = typed code \<and> requestMatchesAccountId ?r (normalizePairingAccountId account)"
      and added: "added = addChannelAllowFromStoreEntry env channel (pr_id ?r) (or_else (normalizeOptionalString account) (normalizeOptionalString (metaAccount ?r))) n st2"
      and out: "r = (case fst added of Inl e \<Rightarrow> Inl e | Inr _ \<Rightarrow> Inr (Some ?r))" "st = snd added"
      and same: "ps_allow st2 = ps_allow (ph_state h)"
    have "request_ok ?r" using requests_ok_filter [OF R] nth_mem [OF k] unfolding requests_ok_def list_all_iff by blast
    note place = same_file [OF this, of account channel]
    have before2: "set (stored q st2) \<subseteq> forms env channel S" using before stored_cong [OF same] by simp
    show ?thesis
    proof (cases "accountFile channel account ?r")
      case (Inl e)
      then show ?thesis using before2 by (simp add: h' out added add_failed)
    next
      case (Inr f)
      note eff = add_effect [OF Inr, where entry = "pr_id ?r" and n = n and st = st2 and env = env]
      have "resolveAllowFromFilePath channel (Some (resolvePairingRequestAccountId ?r)) = Inr f" using place w Inr by simp
      moreover have "ph_approved h' = ph_approved h @ [(request_key ?r, n)]" using eff(2) by (simp add: h'_def res out added)
      ultimately have "q = f \<Longrightarrow> normalizePairingId (pr_id ?r) \<in> S" using new by (auto simp: approved_for_def request_key_def)
      then have "q = f \<Longrightarrow> normalizeAllowFromInput env channel (pr_id ?r) \<in> forms env channel S" by (rule forms_input)
      then show ?thesis using eff(1) [of q] before2 forms_read [OF before2] by (auto simp: h' out added)
    qed
  qed
qed

lemma stored_step:
  fixes env :: pairing_env and channel q :: string and c :: "int \<times> pairing_call" and h :: pairing_history
  assumes ok: "ledger_ok channel h"
  defines "h' \<equiv> pairing_step env channel c h"
  assumes before: "set (stored q (ph_state h)) \<subseteq> forms env channel S" and new: "set (added_by channel q c) \<union> set (approved_for channel q h') \<subseteq> S"
  shows "set (stored q (ph_state h')) \<subseteq> forms env channel S"
proof (cases c)
  case (Pair n call)
  show ?thesis
  proof (cases call)
    case (AskCode sender account meta draws)
    then show ?thesis using stored_cong [OF allow_upsert] before by (auto simp: h'_def Pair case_prod_beta)
  next
    case (ListRequests account)
    then show ?thesis using stored_cong [OF allow_list] before by (auto simp: h'_def Pair)
  next
    case (ApproveCode code account)
    then show ?thesis using approve_stored [OF ok before, of n code account] new by (simp only: h'_def Pair le_sup_iff)
  next
    case (AllowSender entry account)
    show ?thesis
    proof (cases "resolveAllowFromFilePath channel account")
      case (Inl e)
      then show ?thesis using before AllowSender by (simp add: h'_def Pair add_failed)
    next
      case (Inr p)
      have "q = p \<Longrightarrow> normalizePairingId entry \<in> S" using new Inr AllowSender by (auto simp: added_by_def Pair)
      then have "q = p \<Longrightarrow> normalizeAllowFromInput env channel entry \<in> forms env channel S" by (rule forms_input)
      then show ?thesis
        using add_effect(1) [OF Inr, of q env entry n "ph_state h"] before forms_read [OF before] AllowSender by (auto simp: h'_def Pair)
    qed
  next
    case (ForgetSender entry account)
    then show ?thesis using remove_effect [of q env channel entry account n "ph_state h"] before forms_read [OF before] by (auto simp: h'_def Pair)
  next
    case (ReadAllowed account)
    then show ?thesis using stored_cong [OF read_effect(2)] before by (auto simp: h'_def Pair)
  next
    case (ForeignWrite q' f)
    then show ?thesis using before new forms_self by (auto simp: h'_def Pair added_by_def stored_def foreignWrite_def update_conv')
  qed
qed

lemma approved_grows: "set (approved_for channel q h) \<subseteq> set (approved_for channel q (pairing_step env channel c h))"
  by (induction env channel c h rule: pairing_step.induct) (auto simp: approved_for_def case_prod_beta)

lemma stored_run:
  "ledger_ok channel h \<Longrightarrow> set (stored q (ph_state h)) \<subseteq> forms env channel S \<Longrightarrow>
     set (concat (map (added_by channel q) calls)) \<union> set (approved_for channel q (fold (pairing_step env channel) calls h)) \<subseteq> S \<Longrightarrow>
     set (stored q (ph_state (fold (pairing_step env channel) calls h))) \<subseteq> forms env channel S"
proof (induction calls arbitrary: h)
  case (Cons c calls)
  have grows: "set (approved_for channel q g) \<subseteq> set (approved_for channel q (fold (pairing_step env channel) calls g))" for g
    using approved_grows by (induction calls arbitrary: g) (simp, fastforce)
  let ?h = "pairing_step env channel c h"
  have "set (stored q (ph_state ?h)) \<subseteq> forms env channel S"
    using Cons.prems(3) grows [of ?h] by (intro stored_step Cons.prems(1,2)) auto
  then show ?case using Cons.prems(3) by (simp only: fold_simps) (intro Cons.IH ledger_step Cons.prems(1), auto)
qed simp

text \<open>C11: Only the owner lets senders in. After any calls, whatever the channel's normaliser does, every entry on an allow list is a
  form of an entry its file held before, of one the owner or another program put there, or of a sender whose code was approved for
  the account of that list. A form is what the normaliser of the channel makes of the entry, applied as often as the list was read
  and written back.\<close>

theorem only_approved_enter:
  "set (allowed env channel q (ph_state (fold (pairing_step env channel) calls (pairing_start allows))))
    \<subseteq> forms env channel (set (stored q (ph_state (pairing_start allows)))
      \<union> set (concat (map (added_by channel q) calls))
      \<union> set (approved_for channel q (fold (pairing_step env channel) calls (pairing_start allows))))"
proof (rule forms_read, rule stored_run [OF pairing.inv_init])
  let ?S = "set (stored q (ph_state (pairing_start allows))) \<union> set (concat (map (added_by channel q) calls))
      \<union> set (approved_for channel q (fold (pairing_step env channel) calls (pairing_start allows)))"
  show "set (stored q (ph_state (pairing_start allows))) \<subseteq> forms env channel ?S" using forms_self by blast
qed auto

subsection \<open>An hour to answer\<close>

definition waiting :: "string \<Rightarrow> ledger_key \<Rightarrow> pairing_state \<Rightarrow> bool" where
  "waiting channel k st \<longleftrightarrow> k \<in> request_key ` set (pending_of channel st)"

text \<open>A call that comes in time and does not approve this code.\<close>

definition leaves_waiting :: "ledger_key \<Rightarrow> int \<times> pairing_call \<Rightarrow> bool" where
  "leaves_waiting k c =
     (case k of (_, _, code, issuedAt) \<Rightarrow>
        fst c - issuedAt \<le> PAIRING_PENDING_TTL_MS \<and>
        (case snd c of ApproveCode written _ \<Rightarrow> typed written \<noteq> code | _ \<Rightarrow> True))"

lemma still_live:
  assumes "request_ok r" "r \<in> set reqs" "request_key r = (i, a, code, t)" "n - t \<le> PAIRING_PENDING_TTL_MS" "t \<noteq> 0"
  shows "r \<in> set (live reqs n)"
  using assms by (auto simp: isExpired_def request_key_def request_ok_def)

lemma waiting_live:
  assumes "requests_ok reqs" "(i, a, code, t) \<in> request_key ` set reqs" "n - t \<le> PAIRING_PENDING_TTL_MS" "t \<noteq> 0"
  shows "(i, a, code, t) \<in> request_key ` set (live reqs n)"
proof -
  obtain r where r: "r \<in> set reqs" "request_key r = (i, a, code, t)" using assms(2) by force
  then have "request_ok r" using assms(1) by (auto simp: requests_ok_def list_all_iff)
  then show ?thesis using still_live [OF _ r assms(3,4)] r(2) by force
qed

lemma waiting_step:
  assumes ok: "ledger_ok channel h" and w: "waiting channel (i, a, code, t) (ph_state h)" and c: "leaves_waiting (i, a, code, t) c" and t: "t \<noteq> 0"
  shows "waiting channel (i, a, code, t) (ph_state (pairing_step env channel c h))"
proof (cases "resolvePairingPath channel")
  case (Inl e)
  then show ?thesis using w by (simp add: waiting_def pending_of_def)
next
  case (Inr p)
  obtain n call where nc: "c = (n, call)" by fastforce
  let ?R = "readPairingRequests p (ph_state h)"
  let ?L = "live ?R n"
  have pend: "pending_of channel st = readPairingRequests p st" for st by (simp add: pending_of_def Inr)
  have R: "requests_ok ?R" "(i, a, code, t) \<in> request_key ` set ?R" using ok w by (simp_all add: ledger_ok_def waiting_def pend)
  have time: "n - t \<le> PAIRING_PENDING_TTL_MS" using c by (simp add: leaves_waiting_def nc)
  have L: "(i, a, code, t) \<in> request_key ` set ?L" by (rule waiting_live [OF R time t])
  show ?thesis
  proof (cases call)
    case (AskCode sender account meta draws)
    obtain r st where res: "upsertChannelPairingRequest channel sender account meta draws n (ph_state h) = (r, st)" by fastforce
    have st: "ph_state (pairing_step env channel c h) = st" by (simp add: nc AskCode res)
    show ?thesis
    proof (rule upsert_effect [OF Inr R(1), where rawId = sender and accountId = account and meta = meta and draws = draws and n = n], unfold res fst_conv snd_conv)
      fix k r'
      assume "k < length ?L" "request_key r' = request_key (?L ! k)" "readPairingRequests p st = ?L[k := r']"
      then have "map request_key (readPairingRequests p st) = map request_key ?L" using keys_update by metis
      then show ?thesis using L unfolding st waiting_def pend by (metis list.set_map)
    qed (use L R in \<open>auto simp: st waiting_def pend\<close>)
  next
    case (ListRequests account)
    then show ?thesis using L list_effect [OF Inr R(1)] by (simp add: nc waiting_def pend)
  next
    case (ApproveCode written account)
    then have other: "typed written \<noteq> code" using c by (simp add: leaves_waiting_def nc)
    obtain r st where res: "approveChannelPairingCode env channel written account n (ph_state h) = (r, st)" by fastforce
    have st: "ph_state (pairing_step env channel c h) = st" by (simp add: nc ApproveCode res)
    show ?thesis
    proof (rule approve_effect [OF Inr R(1), where env = env and rawCode = written and accountId = account and n = n], unfold res fst_conv snd_conv)
      fix k
      assume k: "k < length ?L" and hit: "pr_code (?L ! k) = typed written \<and> requestMatchesAccountId (?L ! k) (normalizePairingAccountId account)"
        and left: "readPairingRequests p st = take k ?L @ drop (Suc k) ?L"
      have "(i, a, code, t) \<in># mset (map request_key ?L)" using L by simp
      then have "(i, a, code, t) \<in># add_mset (request_key (?L ! k)) (mset (map request_key (take k ?L @ drop (Suc k) ?L)))"
        by (simp only: remove_nth [OF k, of request_key])
      moreover have "(i, a, code, t) \<noteq> request_key (?L ! k)" using hit other by (auto simp: request_key_def)
      ultimately have "(i, a, code, t) \<in> request_key ` set (take k ?L @ drop (Suc k) ?L)" by (simp add: image_Un)
      then show ?thesis unfolding st waiting_def pend left .
    qed (use L R in \<open>auto simp: st waiting_def pend\<close>)
  qed (use R in \<open>simp_all add: nc waiting_def pend read_effect\<close>)
qed

lemma waiting_run:
  assumes "t \<noteq> 0"
  shows "ledger_ok channel h \<Longrightarrow> waiting channel (i, a, code, t) (ph_state h) \<Longrightarrow> list_all (leaves_waiting (i, a, code, t)) calls \<Longrightarrow>
     waiting channel (i, a, code, t) (ph_state (fold (pairing_step env channel) calls h))"
  by (induction calls arbitrary: h) (simp_all add: waiting_step [OF _ _ _ assms] ledger_step)

lemma approve_waiting:
  fixes env :: pairing_env and channel i written :: string and approver :: "string option" and n :: int and h :: pairing_history
  assumes ok: "ledger_ok channel h" and w: "waiting channel (i, a, code, t) (ph_state h)"
    and time: "n - t \<le> PAIRING_PENDING_TTL_MS" "t \<noteq> 0" and code: "typed written = code" and by_acc: "normalizePairingAccountId approver \<in> {[], a}"
    and q: "resolveAllowFromFilePath channel (Some a) = Inr q"
  defines "x \<equiv> normalizeAllowFromInput env channel i"
  defines "res \<equiv> approveChannelPairingCode env channel written approver n (ph_state h)"
  assumes entry: "normalizeAllowEntry env channel x \<noteq> []"
  shows "map_sum id (map_option pr_id) (fst res) = Inr (Some i) \<and> {x, normalizeAllowEntry env channel x} \<inter> set (allowed env channel q (snd res)) \<noteq> {}"
proof -
  obtain p where p: "resolvePairingPath channel = Inr p" using w by (cases "resolvePairingPath channel") (auto simp: waiting_def pending_of_def)
  let ?R = "readPairingRequests p (ph_state h)"
  let ?L = "live ?R n"
  let ?wanted = "\<lambda>r. pr_code r = typed written \<and> requestMatchesAccountId r (normalizePairingAccountId approver)"
  have R: "requests_ok ?R" "(i, a, code, t) \<in> request_key ` set ?R" using ok w by (simp_all add: ledger_ok_def waiting_def pending_of_def p)
  obtain r where r: "r \<in> set ?L" "request_key r = (i, a, code, t)" using waiting_live [OF R time] by force
  have okL: "requests_ok ?L" by (rule requests_ok_filter [OF R(1)])
  have wanted: "?wanted r" using r(2) code by_acc by (auto simp: requestMatchesAccountId_def request_key_def)
  have x: "x \<noteq> []" using entry by (auto simp: normalizeAllowEntry_def)
  show ?thesis
  proof (rule approve_effect [OF p R(1), where env = env and rawCode = written and accountId = approver and n = n], fold res_def)
    assume "typed written = [] \<or> \<not> list_ex ?wanted ?L"
    moreover have "code_shape code" using r okL by (auto simp: requests_ok_def request_ok_def list_all_iff request_key_def)
    ultimately show ?thesis using r wanted code by (auto simp: list_ex_iff shape_nonempty)
  next
    fix k st2 added
    assume k: "k < length ?L" and hit: "?wanted (?L ! k)"
      and added: "added = addChannelAllowFromStoreEntry env channel (pr_id (?L ! k)) (or_else (normalizeOptionalString approver) (normalizeOptionalString (metaAccount (?L ! k)))) n st2"
      and out: "fst res = (case fst added of Inl e \<Rightarrow> Inl e | Inr _ \<Rightarrow> Inr (Some (?L ! k)))" "snd res = snd added"
    have "r = ?L ! k"
      using okL r nth_mem [OF k] hit code by (auto simp: requests_ok_def distinct_map inj_on_def request_key_def)
    then have rk: "request_ok (?L ! k)" "pr_id (?L ! k) = i" "resolvePairingRequestAccountId (?L ! k) = a"
      using okL r nth_mem [OF k] by (auto simp: requests_ok_def list_all_iff request_key_def)
    then have place: "accountFile channel approver (?L ! k) = Inr q" using same_file [OF rk(1), of approver channel] hit q by simp
    note eff = add_effect [OF place, where entry = "pr_id (?L ! k)" and n = n and st = st2 and env = env]
    have "{x, normalizeAllowEntry env channel x} \<inter> set (allowed env channel q (snd res)) \<noteq> {}"
    proof (cases "x \<in> set (allowed env channel q st2)")
      case True
      then have "stored q (snd res) = stored q st2" using eff(1) [of q] by (simp add: out added rk x_def)
      then have "set (allowed env channel q (snd res)) = set (allowed env channel q st2)" by (simp add: allowed_stored)
      then show ?thesis using True by blast
    next
      case False
      then have "x \<in> set (stored q (snd res))" using eff(1) [of q] x by (simp add: out added rk x_def)
      then have "normalizeAllowEntry env channel x \<in> set (allowed env channel q (snd res))" using entry by (auto simp: allowed_stored)
      then show ?thesis by blast
    qed
    then show ?thesis using eff(2) by (simp add: out added rk)
  qed
qed

text \<open>C10: A code is good for an hour. Once a sender was given a code, the owner can approve it within the hour, for the account or
  without naming one, typed in any case and with blanks around it, whatever happened in between except an approval with this very
  code: other senders, full queues, expired requests and the sender asking again do not lose it. The approval names the sender,
  who then is on the allow list of the account, in the form the channel's normaliser gives the sender's id or, when the list is
  read back through that normaliser, in the form it gives that one. For the usual ids, which a normaliser changes only once, both
  are the same.\<close>

theorem code_good_for_an_hour:
  assumes "fst (upsertChannelPairingRequest channel sender account meta draws t (ph_state (fold (pairing_step env channel) before (pairing_start allows))))
       = Inr \<lparr>po_code = code, po_created = True\<rparr>"
    and "list_all (leaves_waiting (normalizePairingId sender, accountOf account, code, t)) between"
    and "n - t \<le> 60 * 60 * 1000" "0 < t" "typed written = code" "normalizePairingAccountId approver \<in> {[], accountOf account}"
    and "resolveAllowFromFilePath channel (Some (accountOf account)) = Inr q"
  defines "x \<equiv> normalizeAllowFromInput env channel (normalizePairingId sender)"
  assumes "normalizeAllowEntry env channel x \<noteq> []"
  defines "h \<equiv> fold (pairing_step env channel) (before @ (t, AskCode sender account meta draws) # between) (pairing_start allows)"
  defines "res \<equiv> approveChannelPairingCode env channel written approver n (ph_state h)"
  shows "map_sum id (map_option pr_id) (fst res) = Inr (Some (normalizePairingId sender)) \<and>
    {x, normalizeAllowEntry env channel x} \<inter> set (allowed env channel q (snd res)) \<noteq> {}"
proof -
  let ?h0 = "fold (pairing_step env channel) before (pairing_start allows)"
  let ?h1 = "pairing_step env channel (t, AskCode sender account meta draws) ?h0"
  have ok: "ledger_ok channel ?h0" "ledger_ok channel ?h1" "ledger_ok channel h"
    unfolding h_def using pairing.inv_reach ledger_step pairing.inv_run by (blast, blast, blast)
  obtain p where p: "resolvePairingPath channel = Inr p"
    using assms(1) by (cases "resolvePairingPath channel") (auto simp: upsertChannelPairingRequest_def)
  have R: "requests_ok (readPairingRequests p (ph_state ?h0))" using ok(1) by (simp add: ledger_ok_def pending_of_def p)
  have "waiting channel (normalizePairingId sender, accountOf account, code, t) (ph_state ?h1)"
  proof (rule upsert_effect [OF p R, where rawId = sender and accountId = account and meta = meta and draws = draws and n = t])
    fix r
    assume "request_key r = (normalizePairingId sender, accountOf account, pr_code r, t)"
      "fst (upsertChannelPairingRequest channel sender account meta draws t (ph_state ?h0)) = Inr \<lparr>po_code = pr_code r, po_created = True\<rparr>"
      "readPairingRequests p (snd (upsertChannelPairingRequest channel sender account meta draws t (ph_state ?h0))) =
         live (readPairingRequests p (ph_state ?h0)) t @ [r]"
    then show ?thesis using assms(1) by (auto simp: waiting_def pending_of_def p case_prod_beta image_iff)
  qed (use assms(1) in auto)
  then have w: "waiting channel (normalizePairingId sender, accountOf account, code, t) (ph_state h)"
    unfolding h_def fold_append comp_apply fold_simps using assms(2,4) ok(2) by (intro waiting_run) auto
  show ?thesis
    unfolding res_def x_def
    by (rule approve_waiting [OF ok(3) w]) (use assms in \<open>simp_all add: PAIRING_PENDING_TTL_MS_def\<close>)
qed

subsection \<open>The read cache\<close>

text \<open>What reading the files afresh would give.\<close>

definition storedAllowFrom :: "pairing_env \<Rightarrow> string \<Rightarrow> string option \<Rightarrow> pairing_state \<Rightarrow> pairing_error + string list" where
  "storedAllowFrom env channel account st =
     (let a = resolveAllowFromAccountId account
      in case resolveAllowFromFilePath channel (Some a) of
           Inl e \<Rightarrow> Inl e
         | Inr scoped \<Rightarrow>
             if \<not> shouldIncludeLegacyAllowFromEntries a then Inr (allowed env channel scoped st)
             else (case resolveAllowFromFilePath channel None of
                     Inl e \<Rightarrow> Inl e
                   | Inr legacy \<Rightarrow> Inr (dedupePreserveOrder (allowed env channel scoped st @ allowed env channel legacy st))))"

abbreviation cacheKey :: "string \<Rightarrow> string" where
  "cacheKey q \<equiv> resolveAllowFromCacheKey PAIRING_ALLOW_FROM_CACHE_NAMESPACE q"

definition entry_current :: "pairing_env \<Rightarrow> string \<Rightarrow> string \<Rightarrow> pairing_state \<Rightarrow> allow_cache_entry \<Rightarrow> bool" where
  "entry_current env channel q st e =
     (case map_of (ps_allow st) q of
        None \<Rightarrow> \<not> ce_exists e \<and> ce_entries e = []
      | Some f \<Rightarrow> ce_exists e \<and> ce_mtime e = Some (af_mtime f) \<and> ce_size e = Some (af_size f) \<longrightarrow> ce_entries e = allowed env channel q st)"

definition cache_current :: "pairing_env \<Rightarrow> string \<Rightarrow> pairing_state \<Rightarrow> bool" where
  "cache_current env channel st \<longleftrightarrow> (\<forall>q e. map_of (ps_cache st) (cacheKey q) = Some e \<longrightarrow> entry_current env channel q st e)"

text \<open>Another program's write shows in the time or the size of the file.\<close>

definition stamp_new :: "string \<Rightarrow> allow_file \<Rightarrow> pairing_state \<Rightarrow> bool" where
  "stamp_new q f st =
     (case map_of (ps_cache st) (cacheKey q) of
        None \<Rightarrow> True
      | Some e \<Rightarrow> \<not> ce_exists e \<or> ce_mtime e \<noteq> Some (af_mtime f) \<or> ce_size e \<noteq> Some (af_size f))"

fun stamps_show :: "pairing_env \<Rightarrow> string \<Rightarrow> (int \<times> pairing_call) list \<Rightarrow> pairing_history \<Rightarrow> bool" where
  "stamps_show env channel [] h = True"
| "stamps_show env channel (c # cs) h =
     ((case snd c of ForeignWrite q f \<Rightarrow> stamp_new q f (ph_state h) | _ \<Rightarrow> True) \<and> stamps_show env channel cs (pairing_step env channel c h))"

lemma cacheKey_inj [simp]: "cacheKey q = cacheKey q' \<longleftrightarrow> q = q'"
  by (simp add: resolveAllowFromCacheKey_def)

lemma entry_current_cong: "map_of (ps_allow st) q = map_of (ps_allow st') q \<Longrightarrow> entry_current env channel q st e = entry_current env channel q st' e"
  by (simp add: entry_current_def allowed_def cong: option.case_cong)

lemma cache_current_cong:
  "ps_allow st = ps_allow st' \<Longrightarrow> ps_cache st = ps_cache st' \<Longrightarrow> cache_current env channel st = cache_current env channel st'"
  using entry_current_cong [of st _ st'] by (simp add: cache_current_def)

lemma entry_current_set:
  assumes "cache_current env channel st" "entry_current env channel q st e"
  shows "cache_current env channel (setAllowFromFileReadCache PAIRING_ALLOW_FROM_CACHE_NAMESPACE q e st)"
proof -
  let ?st = "setAllowFromFileReadCache PAIRING_ALLOW_FROM_CACHE_NAMESPACE q e st"
  have "entry_current env channel q' ?st e' = entry_current env channel q' st e'" for q' e'
    by (rule entry_current_cong) (simp add: setAllowFromFileReadCache_def)
  then show ?thesis using assms by (auto simp: cache_current_def setAllowFromFileReadCache_def update_conv')
qed

lemma read_file:
  assumes cur: "cache_current env channel st"
  shows "fst (readAllowFromStateForPath env channel q st) = allowed env channel q st"
    "cache_current env channel (snd (readAllowFromStateForPath env channel q st))"
    "allowed env channel q' (snd (readAllowFromStateForPath env channel q st)) = allowed env channel q' st"
proof -
  let ?hit = "resolveAllowFromReadCacheHit PAIRING_ALLOW_FROM_CACHE_NAMESPACE q (map_of (ps_allow st) q) st"
  have hit: "ce_entries e = allowed env channel q st" if h: "?hit = Some e" for e
  proof -
    have "map_of (ps_cache st) (cacheKey q) = Some e" using h by (auto simp: resolveAllowFromReadCacheHit_def split: option.splits if_splits)
    then have "entry_current env channel q st e" using cur by (simp add: cache_current_def)
    then show ?thesis using h
      by (cases "map_of (ps_allow st) q") (auto simp: entry_current_def resolveAllowFromReadCacheHit_def allowed_def allowed_Nil split: option.splits if_splits)
  qed
  have read: "(case af_entries f of None \<Rightarrow> [] | Some l \<Rightarrow> normalizeAllowFromList env channel (Some l)) = allowed env channel q st"
    if "map_of (ps_allow st) q = Some f" for f using that by (auto simp: allowed_def allowed_Nil split: option.split)
  have missing: "entry_current env channel q st missing_entry" if "map_of (ps_allow st) q = None" using that by (simp add: entry_current_def missing_entry_def)
  have found: "entry_current env channel q st (file_entry f (allowed env channel q st))" if "map_of (ps_allow st) q = Some f" for f
    using that by (simp add: entry_current_def file_entry_def)
  have same: "allowed env channel q' (setAllowFromFileReadCache ns p e st) = allowed env channel q' st" for ns p e
    by (simp add: allowed_def setAllowFromFileReadCache_def)
  note unfolded = readAllowFromStateForPath_def readAllowFromFileWithExists_def Let_def
  show "fst (readAllowFromStateForPath env channel q st) = allowed env channel q st"
    "cache_current env channel (snd (readAllowFromStateForPath env channel q st))"
    "allowed env channel q' (snd (readAllowFromStateForPath env channel q st)) = allowed env channel q' st"
    unfolding unfolded using hit read entry_current_set [OF cur missing] entry_current_set [OF cur found] cur
    by (cases ?hit; cases "map_of (ps_allow st) q"; simp add: allowed_def allowed_Nil same [unfolded allowed_def])+
qed

lemma read_current:
  assumes cur: "cache_current env channel st"
  shows "fst (readChannelAllowFromStore env channel account st) = storedAllowFrom env channel account st"
    "cache_current env channel (snd (readChannelAllowFromStore env channel account st))"
proof -
  have two: "fst (readAllowFromStateForPath env channel q' (snd (readAllowFromStateForPath env channel q st))) = allowed env channel q' st"
    "cache_current env channel (snd (readAllowFromStateForPath env channel q' (snd (readAllowFromStateForPath env channel q st))))" for q q'
    using read_file [OF read_file(2) [OF cur]] read_file(3) [OF cur] by auto
  show "fst (readChannelAllowFromStore env channel account st) = storedAllowFrom env channel account st"
    "cache_current env channel (snd (readChannelAllowFromStore env channel account st))"
    unfolding readChannelAllowFromStore_def storedAllowFrom_def Let_def case_prod_beta
    using read_file [OF cur] two cur
    by (cases "resolveAllowFromFilePath channel (Some (resolveAllowFromAccountId account))"; cases "resolveAllowFromFilePath channel None"; simp)+
qed

lemma current_pending:
  "cache_current env channel (writeRequests p reqs st) = cache_current env channel st" "cache_current env channel (ensureJsonFile p st) = cache_current env channel st"
  by (rule cache_current_cong; simp add: writeRequests_def ensureJsonFile_def)+

lemma current_ensure:
  assumes cur: "cache_current env channel st"
  shows "cache_current env channel (ensureAllowFile env p n st)"
proof (cases "map_of (ps_allow st) p")
  case None
  let ?st = "ensureAllowFile env p n st"
  have "entry_current env channel q ?st e" if "map_of (ps_cache st) (cacheKey q) = Some e" for q e
  proof (cases "q = p")
    case True
    have "entry_current env channel q st e" using that cur by (simp add: cache_current_def)
    then show ?thesis using None True by (auto simp: entry_current_def ensureAllowFile_def update_conv')
  next
    case False
    then have "map_of (ps_allow ?st) q = map_of (ps_allow st) q" by (simp add: ensureAllowFile_def update_conv')
    then show ?thesis using that cur entry_current_cong [of ?st q st env channel e] by (simp add: cache_current_def)
  qed
  moreover have "ps_cache ?st = ps_cache st" by (simp add: ensureAllowFile_def)
  ultimately show ?thesis by (simp add: cache_current_def)
qed (simp add: ensureAllowFile_def cur)

lemma current_write:
  assumes norm: "entry_normaliser (normalizeAllowEntry env channel)" and es: "entry_normaliser.clean (normalizeAllowEntry env channel) es"
    and cur: "cache_current env channel st"
  shows "cache_current env channel (writeAllowFromState env p es n st)"
proof -
  let ?st = "writeAllowFromState env p es n st"
  have w: "allowed env channel q ?st = (if q = p then es else allowed env channel q st)" for q by (rule allowed_write [OF norm es])
  have "entry_current env channel q ?st e" if "map_of (ps_cache ?st) (cacheKey q) = Some e" for q e
  proof (cases "q = p")
    case True
    then show ?thesis using that w [of q]
      by (auto simp: entry_current_def writeAllowFromState_def setAllowFromFileReadCache_def update_conv' file_entry_def Let_def)
  next
    case False
    then have "map_of (ps_cache st) (cacheKey q) = Some e"
      using that by (simp add: writeAllowFromState_def setAllowFromFileReadCache_def update_conv' Let_def)
    then have "entry_current env channel q st e" using cur by (simp add: cache_current_def)
    moreover have "map_of (ps_allow ?st) q = map_of (ps_allow st) q"
      using False by (simp add: writeAllowFromState_def setAllowFromFileReadCache_def update_conv' Let_def)
    ultimately show ?thesis using entry_current_cong [of ?st q st env channel e] by simp
  qed
  then show ?thesis by (simp add: cache_current_def)
qed

lemma current_add:
  assumes norm: "entry_normaliser (normalizeAllowEntry env channel)" and cur: "cache_current env channel st"
  shows "cache_current env channel (snd (addChannelAllowFromStoreEntry env channel entry account n st))"
proof (cases "resolveAllowFromFilePath channel account")
  case (Inr p)
  let ?st = "ensureAllowFile env p n st" and ?x = "normalizeAllowFromInput env channel entry"
  have here: "normalizeAllowFromList env channel (Option.bind (map_of (ps_allow ?st) p) af_entries) = allowed env channel p st"
    using allowed_ensure [of env channel p env p n st] by (simp only: allowed_def)
  have "entry_normaliser.clean (normalizeAllowEntry env channel) (allowed env channel p st @ [?x])" if "?x \<noteq> []" "?x \<notin> set (allowed env channel p st)"
    using entry_normaliser.clean_add [OF norm allowed_clean [OF norm]] that unfolding normalizeAllowFromInput_def by blast
  then show ?thesis using current_write [OF norm _ current_ensure [OF cur]] current_ensure [OF cur]
    by (simp add: addChannelAllowFromStoreEntry_def updateAllowFromStoreEntry_def Inr Let_def here)
qed (simp add: add_failed cur)

lemma current_remove:
  assumes norm: "entry_normaliser (normalizeAllowEntry env channel)" and cur: "cache_current env channel st"
  shows "cache_current env channel (snd (removeChannelAllowFromStoreEntry env channel entry account n st))"
proof (cases "resolveAllowFromFilePath channel account")
  case (Inr p)
  let ?st = "ensureAllowFile env p n st"
  have here: "normalizeAllowFromList env channel (Option.bind (map_of (ps_allow ?st) p) af_entries) = allowed env channel p st"
    using allowed_ensure [of env channel p env p n st] by (simp only: allowed_def)
  show ?thesis
    using current_write [OF norm entry_normaliser.clean_filter [OF norm allowed_clean [OF norm]] current_ensure [OF cur]] current_ensure [OF cur]
    by (simp add: removeChannelAllowFromStoreEntry_def updateAllowFromStoreEntry_def Inr Let_def here)
qed (simp add: removeChannelAllowFromStoreEntry_def updateAllowFromStoreEntry_def cur)

lemma current_list:
  "cache_current env channel st \<Longrightarrow> cache_current env channel (snd (listChannelPairingRequests channel account n st))"
  "cache_current env channel st \<Longrightarrow> cache_current env channel (snd (upsertChannelPairingRequest channel i a meta draws n st))"
proof -
  assume cur: "cache_current env channel st"
  have "ps_cache (snd (listChannelPairingRequests channel account n st)) = ps_cache st"
    by (auto simp: listChannelPairingRequests_def Let_def case_prod_beta ensureJsonFile_def writeRequests_def split: sum.split)
  then show "cache_current env channel (snd (listChannelPairingRequests channel account n st))"
    using cur cache_current_cong [OF allow_list] by blast
  have "ps_cache (snd (upsertChannelPairingRequest channel i a meta draws n st)) = ps_cache st"
    by (auto simp: upsertChannelPairingRequest_def Let_def case_prod_beta ensureJsonFile_def writeRequests_def split: sum.split option.split)
  then show "cache_current env channel (snd (upsertChannelPairingRequest channel i a meta draws n st))"
    using cur cache_current_cong [OF allow_upsert] by blast
qed

lemma current_approve:
  assumes norm: "entry_normaliser (normalizeAllowEntry env channel)" and cur: "cache_current env channel st"
  shows "cache_current env channel (snd (approveChannelPairingCode env channel code account n st))"
  unfolding approveChannelPairingCode_def Let_def case_prod_beta
  by (simp add: current_pending cur current_add [OF norm] split: sum.split option.split)

lemma current_foreign:
  assumes cur: "cache_current env channel st" and new: "stamp_new q f st"
  shows "cache_current env channel (foreignWrite q f st)"
proof -
  let ?st = "foreignWrite q f st"
  have "entry_current env channel q' ?st e" if "map_of (ps_cache st) (cacheKey q') = Some e" for q' e
  proof (cases "q' = q")
    case True
    then show ?thesis using that new by (auto simp: entry_current_def foreignWrite_def update_conv' stamp_new_def)
  next
    case False
    then have "map_of (ps_allow ?st) q' = map_of (ps_allow st) q'" by (simp add: foreignWrite_def update_conv')
    then show ?thesis using that cur entry_current_cong [of ?st q' st env channel e] by (simp add: cache_current_def)
  qed
  moreover have "ps_cache ?st = ps_cache st" by (simp add: foreignWrite_def)
  ultimately show ?thesis by (simp add: cache_current_def)
qed

lemma current_step:
  assumes "entry_normaliser (normalizeAllowEntry env channel)" "cache_current env channel (ph_state h)"
    "case snd c of ForeignWrite q f \<Rightarrow> stamp_new q f (ph_state h) | _ \<Rightarrow> True"
  shows "cache_current env channel (ph_state (pairing_step env channel c h))"
  using assms
  by (induction env channel c h rule: pairing_step.induct)
     (simp_all add: case_prod_beta current_list current_approve current_add current_remove current_foreign read_current(2))

lemma current_run:
  assumes "entry_normaliser (normalizeAllowEntry env channel)"
  shows "cache_current env channel (ph_state h) \<Longrightarrow> stamps_show env channel calls h \<Longrightarrow>
    cache_current env channel (ph_state (fold (pairing_step env channel) calls h))"
  by (induction calls arbitrary: h) (simp_all add: current_step [OF assms])

text \<open>The read cache shows in no answer: after any calls, reading the allow list of an account gives what its files hold at that
  moment, provided a write of another program shows in the time or the size of the file.\<close>

theorem allow_cache_invisible:
  assumes "entry_normaliser (normalizeAllowEntry env channel)" "stamps_show env channel calls (pairing_start allows)"
  defines "st \<equiv> ph_state (fold (pairing_step env channel) calls (pairing_start allows))"
  shows "fst (readChannelAllowFromStore env channel account st) = storedAllowFrom env channel account st"
proof -
  have "cache_current env channel (ph_state (pairing_start allows))" by (simp add: cache_current_def pairing_start_def)
  then show ?thesis unfolding st_def by (intro read_current(1) current_run assms(1,2))
qed

subsection \<open>File names\<close>

fun two_dots :: "string \<Rightarrow> bool" where
  "two_dots (c # d # s) = (c = CHR ''.'' \<and> d = CHR ''.'' \<or> two_dots (d # s))"
| "two_dots s = False"

lemma undot_hd: "s \<noteq> [] \<Longrightarrow> undot s \<noteq> [] \<and> (hd (undot s) = CHR ''.'' \<longrightarrow> hd s = CHR ''.'')"
  by (induction s rule: undot.induct) auto

lemma undot_sound: "\<not> two_dots (undot s)"
proof (induction s rule: undot.induct)
  case (1 c d s)
  show ?case
  proof (cases "c = CHR ''.'' \<and> d = CHR ''.''")
    case True
    then show ?thesis using 1(1) by (cases "undot s") auto
  next
    case False
    then show ?thesis using 1(2) undot_hd [of "d # s"] by (cases "undot (d # s)") auto
  qed
qed simp_all

lemma undot_set: "set (undot s) \<subseteq> insert CHR ''_'' (set s)"
  by (induction s rule: undot.induct) auto

lemma two_dots_append: "two_dots (s @ t) \<longleftrightarrow> two_dots s \<or> two_dots t \<or> (s \<noteq> [] \<and> t \<noteq> [] \<and> last s = CHR ''.'' \<and> hd t = CHR ''.'')"
proof (induction s)
  case (Cons c s)
  then show ?case by (cases s; cases t) auto
qed simp

definition name_safe :: "string \<Rightarrow> bool" where
  "name_safe s \<longleftrightarrow> \<not> two_dots s \<and> list_all (\<lambda>c. c \<notin> set unsafe_chars) s"

lemma key_safe: "normalizePairingFilenameKey v = Inr k \<Longrightarrow> name_safe k"
  using undot_set [of "map (\<lambda>c. if c \<in> set unsafe_chars then CHR ''_'' else c) (normalizeLowercaseStringOrEmpty (Some v))"]
  by (auto simp: normalizePairingFilenameKey_def Let_def name_safe_def undot_sound list_all_iff unsafe_chars_def split: if_splits)

lemma name_safe_append: "name_safe s \<Longrightarrow> name_safe t \<Longrightarrow> t \<noteq> [] \<Longrightarrow> hd t \<noteq> CHR ''.'' \<Longrightarrow> name_safe (s @ t)"
  by (auto simp: name_safe_def two_dots_append)

lemma name_safe_words: "name_safe ''-allowFrom.json''" "name_safe ''-pairing.json''" "name_safe (CHR ''-'' # s) = name_safe s"
  by (simp_all add: name_safe_def unsafe_chars_def two_dots_append [of "[CHR ''-'']" s, simplified])

text \<open>Channel and account names cannot lead out of the credentials directory: whatever they are, the name of the allow file has no
  path separator or other special character and no two dots in a row.\<close>

theorem allow_file_name_safe:
  "case resolveAllowFromFilePath channel account of
     Inl _ \<Rightarrow> True
   | Inr name \<Rightarrow> \<not> two_dots name \<and> list_all (\<lambda>c. c \<notin> set [CHR 0x5C, CHR ''/'', CHR '':'', CHR ''*'', CHR ''?'', CHR 0x22, CHR ''<'', CHR ''>'', CHR ''|'']) name"
proof (cases "resolveAllowFromFilePath channel account")
  case (Inr name)
  then obtain base where base: "normalizePairingFilenameKey channel = Inr base"
    by (auto simp: resolveAllowFromFilePath_def safeChannelKey_def split: sum.splits)
  have keys: "name_safe k" if "resolveOptionalAccountFilenameKey account = Inr (Some k)" for k
    using that key_safe by (auto simp: resolveOptionalAccountFilenameKey_def split: option.splits sum.splits)
  have "name_safe (base @ ''-allowFrom.json'')" by (rule name_safe_append [OF key_safe [OF base] name_safe_words(1)]) simp_all
  moreover have "name_safe (base @ ''-'' @ k @ ''-allowFrom.json'')" if "resolveOptionalAccountFilenameKey account = Inr (Some k)" for k
  proof -
    have "name_safe (k @ ''-allowFrom.json'')" by (rule name_safe_append [OF keys [OF that] name_safe_words(1)]) simp_all
    then have "name_safe (''-'' @ k @ ''-allowFrom.json'')" using name_safe_words(3) by simp
    then show ?thesis by (rule name_safe_append [OF key_safe [OF base]]) simp_all
  qed
  ultimately have "name_safe name"
    using Inr base by (auto simp: resolveAllowFromFilePath_def safeChannelKey_def split: sum.splits option.splits)
  then show ?thesis unfolding Inr sum.case name_safe_def unsafe_chars_def .
qed simp

text \<open>The names of two lists can meet: the default list of one channel and that of an account of another.\<close>

lemma file_names_meet: "resolveAllowFromFilePath ''nextcloud-talk'' None = resolveAllowFromFilePath ''nextcloud'' (Some ''talk'')"
  by code_simp

subsection \<open>Examples\<close>

definition demo_calls :: "(int \<times> pairing_call) list" where
  "demo_calls = [(500, ForeignWrite ''telegram-default-allowFrom.json'' \<lparr>af_entries = Some ['' 7''], af_mtime = 1, af_size = 41\<rparr>), (900, ReadAllowed None)]"

definition demo_between :: "(int \<times> pairing_call) list" where
  "demo_between = [(1500, AskCode ''43'' [] None (\<lambda>i _. if i = 0 then 0 else 1)), (1600, ApproveCode ''bbbbbbbb'' None), (1700, AllowSender ''9'' None), (1800, ListRequests None)]"

text \<open>The adapter of the telegram plugin: \<^verbatim>\<open>createPairingPrefixStripper(/^(telegram|tg):/i)\<close>.\<close>

definition strip_telegram :: "string \<Rightarrow> string" where
  "strip_telegram entry =
     (let t = js_trim entry; low = js_lower t
      in js_trim (if starts_with ''telegram:'' low then drop 9 t else if starts_with ''tg:'' low then drop 3 t else t))"

definition telegram_env :: pairing_env where
  "telegram_env = \<lparr>pe_adapter = \<lambda>_. Some strip_telegram, pe_bytes = \<lambda>es. 40 + length (concat es)\<rparr>"

theorem code_good_for_an_hour_witness:
  "map_sum id (map_option pr_id) (fst (approveChannelPairingCode telegram_env ''telegram'' '' aaaaAAAA'' None 3601000
      (ph_state (fold (pairing_step telegram_env ''telegram'') (demo_calls @ (1000, AskCode '' tg:42 '' [] None (\<lambda>_ _. 0)) # demo_between) (pairing_start [])))))
   = Inr (Some (normalizePairingId '' tg:42 ''))"
proof -
  note use = code_good_for_an_hour [where env = telegram_env and channel = "''telegram''" and sender = "'' tg:42 ''" and account = "[]" and meta = None
    and draws = "\<lambda>_ _. 0" and t = 1000 and before = demo_calls and allows = "[]" and code = "''AAAAAAAA''" and between = demo_between and n = 3601000
    and written = "'' aaaaAAAA''" and approver = None and q = "''telegram-default-allowFrom.json''", THEN conjunct1]
  show ?thesis by (rule use) code_simp+
qed

lemma only_approved_enter_example:
  "''42'' \<notin> set (allowed telegram_env ''telegram'' ''telegram-default-allowFrom.json''
      (ph_state (fold (pairing_step telegram_env ''telegram'') (demo_calls @ [(1000, AskCode ''42'' [] None (\<lambda>_ _. 0)), (1100, ApproveCode ''AAAAAAAB'' None)]) (pairing_start []))))"
  by code_simp

text \<open>The list drifts: an entry with two prefixes is read back with one from the cache and with none from the file.\<close>

lemma nested_prefix_drifts:
  "let st = snd (addChannelAllowFromStoreEntry telegram_env ''telegram'' ''telegram:tg:42'' None 1 (ph_state (pairing_start [])))
   in fst (readChannelAllowFromStore telegram_env ''telegram'' None st) = Inr [''tg:42''] \<and>
      fst (readChannelAllowFromStore telegram_env ''telegram'' None (st\<lparr>ps_cache := []\<rparr>)) = Inr [''42'']"
  by code_simp

theorem allow_cache_invisible_witness:
  "fst (readChannelAllowFromStore plain_env ''telegram'' None (ph_state (fold (pairing_step plain_env ''telegram'') demo_calls (pairing_start []))))
   = storedAllowFrom plain_env ''telegram'' None (ph_state (fold (pairing_step plain_env ''telegram'') demo_calls (pairing_start [])))"
  by (rule allow_cache_invisible [OF plain_entries.entry_normaliser_axioms]) code_simp

end
