(* ===== verification/IpAddress.thy ===== *)
theory IpAddress
  imports StringCoerce JsText "HOL-Library.Word"
begin

unbundle bit_operations_syntax

text \<open>
  Addresses, \<^verbatim>\<open>packages/core/src/shared/net/ip.ts\<close>. The package ipaddr.js that parses, prints, classifies and
  matches them is the record \<open>ipaddr_lib\<close>, an argument of the functions; in it \<^verbatim>\<open>isValid\<close> of a text means that
  \<^verbatim>\<open>parse\<close> of it does not throw, as its documentation says. An address object is the list of its octets or
  of its eight groups, with the zone of an IPv6 address. Node's own \<^verbatim>\<open>net.isIP\<close> is \<open>node_isIP\<close>.
\<close>

subsection \<open>Addresses and the package that handles them\<close>

datatype ip_addr = IP4 (octets: "int list") | IP6 (parts: "int list") (zone: "string option")

record ipaddr_lib =
  v4_parse :: "string \<Rightarrow> ip_addr option"
  v4_four_part_decimal :: "string \<Rightarrow> bool"
  v6_parse :: "string \<Rightarrow> ip_addr option"
  any_parse :: "string \<Rightarrow> ip_addr option"
  v4_mapped :: "ip_addr \<Rightarrow> bool"
  to_v4 :: "ip_addr \<Rightarrow> ip_addr"
  ip_text :: "ip_addr \<Rightarrow> string"
  ip_range :: "ip_addr \<Rightarrow> string"
  cidr_parse :: "string \<Rightarrow> (ip_addr \<times> int) option"
  cidr_match :: "ip_addr \<Rightarrow> ip_addr \<times> int \<Rightarrow> bool option"

definition isIpv4Address :: "ip_addr \<Rightarrow> bool" where
  "isIpv4Address a = (case a of IP4 _ \<Rightarrow> True | IP6 _ _ \<Rightarrow> False)"

definition isIpv6Address :: "ip_addr \<Rightarrow> bool" where
  "isIpv6Address a = (case a of IP4 _ \<Rightarrow> False | IP6 _ _ \<Rightarrow> True)"

definition BLOCKED_IPV4_SPECIAL_USE_RANGES :: "string list" where
  "BLOCKED_IPV4_SPECIAL_USE_RANGES =
     [''unspecified'', ''broadcast'', ''multicast'', ''linkLocal'', ''loopback'', ''carrierGradeNat'', ''private'', ''reserved'']"

definition PRIVATE_OR_LOOPBACK_IPV4_RANGES :: "string list" where
  "PRIVATE_OR_LOOPBACK_IPV4_RANGES = [''loopback'', ''private'', ''linkLocal'', ''carrierGradeNat'']"

definition BLOCKED_IPV6_SPECIAL_USE_RANGES :: "string list" where
  "BLOCKED_IPV6_SPECIAL_USE_RANGES =
     [''unspecified'', ''loopback'', ''linkLocal'', ''uniqueLocal'', ''multicast'', ''reserved'', ''benchmarking'',
      ''discard'', ''orchid2'']"

subsection \<open>Reading an address\<close>

definition stripIpv6Brackets :: "string \<Rightarrow> string" where
  "stripIpv6Brackets v = (if starts_with ''['' v \<and> ends_with '']'' v then butlast (tl v) else v)"

definition ip_hex_digit :: "char \<Rightarrow> bool" where
  "ip_hex_digit c \<longleftrightarrow> is_digit c \<or> c \<in> set ''abcdefABCDEF''"

definition isNumericIpv4LiteralPart :: "string \<Rightarrow> bool" where
  "isNumericIpv4LiteralPart s \<longleftrightarrow>
     (s \<noteq> [] \<and> list_all is_digit s) \<or>
     (2 < length s \<and> s ! 0 = CHR ''0'' \<and> (s ! 1 = CHR ''x'' \<or> s ! 1 = CHR ''X'') \<and> list_all ip_hex_digit (drop 2 s))"

text \<open>\<^verbatim>\<open>n.toString(16)\<close> of a number that is not negative.\<close>

fun show_hex :: "nat \<Rightarrow> string" where
  "show_hex n = (let d = [''0123456789abcdef'' ! (n mod 16)] in if n < 16 then d else show_hex (n div 16) @ d)"

declare show_hex.simps [simp del]

text \<open>
  The expression \<^verbatim>\<open>^(.*:)([^:%]+(?:\.[^:%]+){3})(%[0-9A-Za-z]+)?$\<close>: up to the last colon, then non-empty
  pieces around at least three dots, then a zone. \<open>dotted n s\<close>: \<open>s\<close> splits at \<open>n\<close> of its dots into non-empty pieces.
\<close>

fun dotted :: "nat \<Rightarrow> string \<Rightarrow> bool" where
  "dotted 0 s \<longleftrightarrow> s \<noteq> []"
| "dotted (Suc n) s \<longleftrightarrow> list_ex (\<lambda>i. 0 < i \<and> s ! i = CHR ''.'' \<and> dotted n (drop (Suc i) s)) [0..<length s]"

definition line_break :: "char \<Rightarrow> bool" where
  "line_break c \<longleftrightarrow> (of_char c :: nat) \<in> set [10, 13]"

definition zone_char :: "char \<Rightarrow> bool" where
  "zone_char c \<longleftrightarrow> is_digit c \<or> c \<in> set ''abcdefghijklmnopqrstuvwxyzABCDEFGHIJKLMNOPQRSTUVWXYZ''"

definition embedded_match :: "string \<Rightarrow> (string \<times> string \<times> string) option" where
  "embedded_match raw =
     (case last_index_of '':'' raw of
        None \<Rightarrow> None
      | Some i \<Rightarrow>
          (let pre = take (Suc i) raw; tail = drop (Suc i) raw;
               embedded = takeWhile (\<lambda>c. c \<noteq> CHR ''%'') tail; zone = dropWhile (\<lambda>c. c \<noteq> CHR ''%'') tail
           in if list_all (\<lambda>c. \<not> line_break c) pre \<and> dotted 3 embedded \<and>
                 (zone = [] \<or> (tl zone \<noteq> [] \<and> list_all zone_char (tl zone)))
              then Some (pre, embedded, zone) else None))"

definition parseIpv6WithEmbeddedIpv4 :: "ipaddr_lib \<Rightarrow> string \<Rightarrow> ip_addr option" where
  "parseIpv6WithEmbeddedIpv4 lib raw =
     (if CHR '':'' \<notin> set raw \<or> CHR ''.'' \<notin> set raw then None
      else case embedded_match raw of
        None \<Rightarrow> None
      | Some (pre, embeddedIpv4, zoneSuffix) \<Rightarrow>
          if \<not> v4_four_part_decimal lib embeddedIpv4 then None
          else (let octs = map (\<lambda>p. coalesce (parse_int10 p) 0) (js_split CHR ''.'' embeddedIpv4);
                    high = show_hex (nat (push_bit 8 (octs ! 0) OR octs ! 1));
                    low = show_hex (nat (push_bit 8 (octs ! 2) OR octs ! 3))
                in v6_parse lib (pre @ high @ '':'' @ low @ zoneSuffix)))"

definition normalizeIpv4MappedAddress :: "ipaddr_lib \<Rightarrow> ip_addr \<Rightarrow> ip_addr" where
  "normalizeIpv4MappedAddress lib a =
     (if \<not> isIpv6Address a then a else if \<not> v4_mapped lib a then a else to_v4 lib a)"

definition normalizeIpParseInput :: "string option \<Rightarrow> string option" where
  "normalizeIpParseInput raw = map_option stripIpv6Brackets (normalizeOptionalString raw)"

definition parseCanonicalIpAddress :: "ipaddr_lib \<Rightarrow> string option \<Rightarrow> ip_addr option" where
  "parseCanonicalIpAddress lib raw =
     (case normalizeIpParseInput raw of
        None \<Rightarrow> None
      | Some normalized \<Rightarrow>
          if normalized = [] then None
          else if v4_parse lib normalized \<noteq> None
          then (if v4_four_part_decimal lib normalized then v4_parse lib normalized else None)
          else if v6_parse lib normalized \<noteq> None then v6_parse lib normalized
          else parseIpv6WithEmbeddedIpv4 lib normalized)"

definition parseLooseIpAddress :: "ipaddr_lib \<Rightarrow> string option \<Rightarrow> ip_addr option" where
  "parseLooseIpAddress lib raw =
     (case normalizeIpParseInput raw of
        None \<Rightarrow> None
      | Some normalized \<Rightarrow>
          if normalized = [] then None
          else if any_parse lib normalized \<noteq> None then any_parse lib normalized
          else parseIpv6WithEmbeddedIpv4 lib normalized)"

definition normalizeIpAddress :: "ipaddr_lib \<Rightarrow> string option \<Rightarrow> string option" where
  "normalizeIpAddress lib raw =
     map_option (\<lambda>a. normalizeLowercaseStringOrEmpty (Some (ip_text lib (normalizeIpv4MappedAddress lib a))))
       (parseCanonicalIpAddress lib raw)"

definition isCanonicalDottedDecimalIPv4 :: "ipaddr_lib \<Rightarrow> string option \<Rightarrow> bool" where
  "isCanonicalDottedDecimalIPv4 lib raw =
     (case normalizeOptionalString raw of
        None \<Rightarrow> False
      | Some trimmed \<Rightarrow> (let n = stripIpv6Brackets trimmed in n \<noteq> [] \<and> v4_four_part_decimal lib n))"

definition isLegacyIpv4Literal :: "ipaddr_lib \<Rightarrow> string option \<Rightarrow> bool" where
  "isLegacyIpv4Literal lib raw =
     (case normalizeOptionalString raw of
        None \<Rightarrow> False
      | Some trimmed \<Rightarrow>
          (let n = stripIpv6Brackets trimmed; ps = js_split CHR ''.'' n
           in if n = [] \<or> CHR '':'' \<in> set n then False
              else if isCanonicalDottedDecimalIPv4 lib (Some n) then False
              else if length ps = 0 \<or> 4 < length ps then False
              else if list_ex (\<lambda>p. length p = 0) ps then False
              else list_all isNumericIpv4LiteralPart ps))"

subsection \<open>Classes of addresses\<close>

definition isLoopbackIpAddress :: "ipaddr_lib \<Rightarrow> string option \<Rightarrow> bool" where
  "isLoopbackIpAddress lib raw =
     (case parseCanonicalIpAddress lib raw of
        None \<Rightarrow> False
      | Some a \<Rightarrow> ip_range lib (normalizeIpv4MappedAddress lib a) = ''loopback'')"

text \<open>The option \<open>ula\<close> is \<^verbatim>\<open>allowUniqueLocalRange\<close>.\<close>

definition isBlockedSpecialUseIpv6Address :: "ipaddr_lib \<Rightarrow> bool option \<Rightarrow> ip_addr \<Rightarrow> bool" where
  "isBlockedSpecialUseIpv6Address lib ula a =
     (let range = ip_range lib a
      in if range = ''uniqueLocal'' \<and> ula = Some True then False
         else if range \<in> set BLOCKED_IPV6_SPECIAL_USE_RANGES then True
         else (parts a ! 0) AND 0xffc0 = 0xfec0)"

definition isPrivateOrLoopbackIpAddress :: "ipaddr_lib \<Rightarrow> string option \<Rightarrow> bool" where
  "isPrivateOrLoopbackIpAddress lib raw =
     (case parseCanonicalIpAddress lib raw of
        None \<Rightarrow> False
      | Some a \<Rightarrow>
          (let n = normalizeIpv4MappedAddress lib a
           in if isIpv4Address n then ip_range lib n \<in> set PRIVATE_OR_LOOPBACK_IPV4_RANGES
              else isBlockedSpecialUseIpv6Address lib None n))"

definition isRfc1918Ipv4Address :: "ipaddr_lib \<Rightarrow> string option \<Rightarrow> bool" where
  "isRfc1918Ipv4Address lib raw =
     (case parseCanonicalIpAddress lib raw of None \<Rightarrow> False | Some a \<Rightarrow> isIpv4Address a \<and> ip_range lib a = ''private'')"

definition isCarrierGradeNatIpv4Address :: "ipaddr_lib \<Rightarrow> string option \<Rightarrow> bool" where
  "isCarrierGradeNatIpv4Address lib raw =
     (case parseCanonicalIpAddress lib raw of
        None \<Rightarrow> False | Some a \<Rightarrow> isIpv4Address a \<and> ip_range lib a = ''carrierGradeNat'')"

text \<open>The benchmark prefix is parsed when the module is loaded; \<open>rfc\<close> is \<^verbatim>\<open>allowRfc2544BenchmarkRange\<close>. Matching an
  IPv4 address against it does not throw.\<close>

definition RFC2544_BENCHMARK_PREFIX :: "ipaddr_lib \<Rightarrow> (ip_addr \<times> int) option" where
  "RFC2544_BENCHMARK_PREFIX lib = map_option (\<lambda>a. (a, 15)) (v4_parse lib ''198.18.0.0'')"

definition isBlockedSpecialUseIpv4Address :: "ipaddr_lib \<Rightarrow> bool option \<Rightarrow> ip_addr \<Rightarrow> bool" where
  "isBlockedSpecialUseIpv4Address lib rfc a =
     (let bench = (case RFC2544_BENCHMARK_PREFIX lib of None \<Rightarrow> False | Some p \<Rightarrow> cidr_match lib a p = Some True)
      in if bench \<and> rfc = Some True then False
         else ip_range lib a \<in> set BLOCKED_IPV4_SPECIAL_USE_RANGES \<or> bench)"

subsection \<open>IPv4 addresses inside IPv6 addresses\<close>

definition decodeIpv4FromHextets :: "ipaddr_lib \<Rightarrow> int \<Rightarrow> int \<Rightarrow> ip_addr option" where
  "decodeIpv4FromHextets lib high low =
     v4_parse lib (js_join ''.'' (map show_int
       [drop_bit 8 high AND 0xff, high AND 0xff, drop_bit 8 low AND 0xff, low AND 0xff]))"

type_synonym sentinel_rule = "(int list \<Rightarrow> bool) \<times> (int list \<Rightarrow> int \<times> int)"

definition EMBEDDED_IPV4_SENTINEL_RULES :: "sentinel_rule list" where
  "EMBEDDED_IPV4_SENTINEL_RULES =
     [(\<lambda>p. p ! 0 = 0 \<and> p ! 1 = 0 \<and> p ! 2 = 0 \<and> p ! 3 = 0 \<and> p ! 4 = 0 \<and> p ! 5 = 0, \<lambda>p. (p ! 6, p ! 7)),
      (\<lambda>p. p ! 0 = 0x0064 \<and> p ! 1 = 0xff9b \<and> p ! 2 = 0x0001 \<and> p ! 3 = 0 \<and> p ! 4 = 0 \<and> p ! 5 = 0, \<lambda>p. (p ! 6, p ! 7)),
      (\<lambda>p. p ! 0 = 0x2002, \<lambda>p. (p ! 1, p ! 2)),
      (\<lambda>p. p ! 0 = 0x2001 \<and> p ! 1 = 0x0000, \<lambda>p. (p ! 6 XOR 0xffff, p ! 7 XOR 0xffff)),
      (\<lambda>p. p ! 4 AND 0xfcff = 0 \<and> p ! 5 = 0x5efe, \<lambda>p. (p ! 6, p ! 7))]"

text \<open>\<open>None\<close>: the package refused the four numbers; \<open>Some None\<close>: no address inside.\<close>

definition extractEmbeddedIpv4FromIpv6 :: "ipaddr_lib \<Rightarrow> ip_addr \<Rightarrow> ip_addr option option" where
  "extractEmbeddedIpv4FromIpv6 lib a =
     (if v4_mapped lib a then Some (Some (to_v4 lib a))
      else if ip_range lib a = ''rfc6145'' \<or> ip_range lib a = ''rfc6052''
      then map_option Some (decodeIpv4FromHextets lib (parts a ! 6) (parts a ! 7))
      else case List.find (\<lambda>r. fst r (parts a)) EMBEDDED_IPV4_SENTINEL_RULES of
        None \<Rightarrow> Some None
      | Some r \<Rightarrow> (case snd r (parts a) of (high, low) \<Rightarrow> map_option Some (decodeIpv4FromHextets lib high low)))"

subsection \<open>Membership in a network\<close>

definition same_kind :: "ip_addr \<Rightarrow> ip_addr \<Rightarrow> bool" where
  "same_kind a b \<longleftrightarrow> isIpv4Address a = isIpv4Address b"

definition isIpInCidr :: "ipaddr_lib \<Rightarrow> string \<Rightarrow> string \<Rightarrow> bool" where
  "isIpInCidr lib ip cidr =
     (case parseCanonicalIpAddress lib (Some ip) of
        None \<Rightarrow> False
      | Some normalizedIp \<Rightarrow>
          (let candidate = js_trim cidr; comparableIp = normalizeIpv4MappedAddress lib normalizedIp
           in if candidate = [] then False
              else if CHR ''/'' \<notin> set candidate
              then (case parseCanonicalIpAddress lib (Some candidate) of
                      None \<Rightarrow> False
                    | Some exact \<Rightarrow>
                        (let comparableExact = normalizeIpv4MappedAddress lib exact
                         in same_kind comparableIp comparableExact \<and> ip_text lib comparableIp = ip_text lib comparableExact))
              else case cidr_parse lib candidate of
                None \<Rightarrow> False
              | Some (baseAddress, prefixLength) \<Rightarrow>
                  (let comparableBase = normalizeIpv4MappedAddress lib baseAddress
                   in same_kind comparableIp comparableBase \<and>
                      cidr_match lib comparableIp (comparableBase, prefixLength) = Some True)))"

subsection \<open>Node's test for addresses\<close>

text \<open>
  \<^verbatim>\<open>net.isIP\<close>: four numbers up to 255 without leading zeros, or eight groups of one to four hexadecimal digits of
  which a run may be written \<^verbatim>\<open>::\<close> and the last two as an IPv4 address, with an optional zone.
\<close>

definition v4_segment :: "string \<Rightarrow> bool" where
  "v4_segment s \<longleftrightarrow> s \<noteq> [] \<and> length s \<le> 3 \<and> list_all is_digit s \<and> (hd s = CHR ''0'' \<longrightarrow> s = ''0'') \<and> digits_value s \<le> 255"

definition node_isIPv4 :: "string \<Rightarrow> bool" where
  "node_isIPv4 s \<longleftrightarrow> length (js_split CHR ''.'' s) = 4 \<and> list_all v4_segment (js_split CHR ''.'' s)"

definition hex_group :: "string \<Rightarrow> bool" where
  "hex_group s \<longleftrightarrow> s \<noteq> [] \<and> length s \<le> 4 \<and> list_all ip_hex_digit s"

definition group_count :: "bool \<Rightarrow> string \<Rightarrow> nat option" where
  "group_count with_v4 s =
     (if s = [] then Some 0
      else (let ps = js_split CHR '':'' s
            in if \<not> list_all hex_group (butlast ps) then None
               else if hex_group (last ps) then Some (length ps)
               else if with_v4 \<and> node_isIPv4 (last ps) then Some (Suc (length ps))
               else None))"

fun split_double_colon :: "string \<Rightarrow> (string \<times> string) option" where
  "split_double_colon (c # d # s) =
     (if c = CHR '':'' \<and> d = CHR '':'' then Some ([], s)
      else map_option (\<lambda>(a, b). (c # a, b)) (split_double_colon (d # s)))"
| "split_double_colon _ = None"

definition node_zone_char :: "char \<Rightarrow> bool" where
  "node_zone_char c \<longleftrightarrow> zone_char c \<or> c \<in> set ''-.:''"

definition node_isIPv6 :: "string \<Rightarrow> bool" where
  "node_isIPv6 s =
     (let addr = takeWhile (\<lambda>c. c \<noteq> CHR ''%'') s; zone = dropWhile (\<lambda>c. c \<noteq> CHR ''%'') s
      in (zone = [] \<or> (tl zone \<noteq> [] \<and> list_all node_zone_char (tl zone))) \<and>
         (case split_double_colon addr of
            None \<Rightarrow> group_count True addr = Some 8
          | Some (l, r) \<Rightarrow>
              (case (group_count False l, group_count True r) of (Some m, Some n) \<Rightarrow> m + n \<le> 7 | _ \<Rightarrow> False)))"

definition node_isIP :: "string \<Rightarrow> nat" where
  "node_isIP s = (if node_isIPv4 s then 4 else if node_isIPv6 s then 6 else 0)"

lemma node_isIP_examples:
  "node_isIP ''127.0.0.1'' = 4" "node_isIP ''::1'' = 6" "node_isIP ''1.2.3.256'' = 0" "node_isIP ''01.2.3.4'' = 0"
  "node_isIP ''fe80::1%eth0'' = 6" "node_isIP ''::ffff:10.0.0.1'' = 6" "node_isIP ''1:2:3:4:5:6:7::'' = 6"
  "node_isIP ''1:2:3:4:5:6:7:8:9'' = 0" "node_isIP ''localhost'' = 0" "node_isIP '':::'' = 0" "node_isIP ''1:2:3:4:5:6:7:8'' = 6"
  "node_isIP ''::1:2:3:4:5:6:7:8'' = 0" "node_isIP ''1.2.3.4:80'' = 0" "node_isIP '''' = 0"
  by code_simp+

end
