(* ===== verification/GatewayNet.thy ===== *)
theory GatewayNet
  imports IpAddress AuthRateLimit
begin

text \<open>
  \<^verbatim>\<open>packages/core/src/gateway/net.ts\<close>: host names, the address of the client behind trusted proxies, the address the
  gateway binds to, and which web socket URLs may carry data in the clear. Parsing a URL, testing whether an address can be
  bound, the tailnet address and the container test are arguments. The record \<open>net_env\<close> that the rate limiter takes is
  filled here with the functions of this file.
\<close>

subsection \<open>Hosts\<close>

definition normalizeHostHeader :: "string option \<Rightarrow> string" where
  "normalizeHostHeader h = normalizeLowercaseStringOrEmpty h"

definition resolveHostName :: "string option \<Rightarrow> string" where
  "resolveHostName h =
     (let host = normalizeHostHeader h
      in if host = [] then []
         else if starts_with ''['' host \<and> CHR '']'' \<in> set host then takeWhile (\<lambda>c. c \<noteq> CHR '']'') (tl host)
         else if node_isIP host = 6 then host
         else hd (js_split CHR '':'' host))"

definition net_isLoopbackAddress :: "ipaddr_lib \<Rightarrow> string option \<Rightarrow> bool" where
  "net_isLoopbackAddress lib ip = isLoopbackIpAddress lib ip"

definition isPrivateOrLoopbackAddress :: "ipaddr_lib \<Rightarrow> string option \<Rightarrow> bool" where
  "isPrivateOrLoopbackAddress lib ip = isPrivateOrLoopbackIpAddress lib ip"

definition isValidIPv4 :: "ipaddr_lib \<Rightarrow> string \<Rightarrow> bool" where
  "isValidIPv4 lib host = isCanonicalDottedDecimalIPv4 lib (Some host)"

record checked_host =
  isLocalhost :: bool
  unbracketedHost :: string

definition parseHostForAddressChecks :: "string \<Rightarrow> checked_host option" where
  "parseHostForAddressChecks host =
     (if host = [] then None
      else (let normalizedHost = normalizeLowercaseStringOrEmpty (Some host);
                canonicalHost = rev (dropWhile (\<lambda>c. c = CHR ''.'') (rev normalizedHost))
            in if canonicalHost = ''localhost'' then Some \<lparr>isLocalhost = True, unbracketedHost = canonicalHost\<rparr>
               else Some \<lparr>isLocalhost = False,
                          unbracketedHost = (if starts_with ''['' normalizedHost \<and> ends_with '']'' normalizedHost
                                             then butlast (tl normalizedHost) else normalizedHost)\<rparr>))"

definition isLoopbackHost :: "ipaddr_lib \<Rightarrow> string \<Rightarrow> bool" where
  "isLoopbackHost lib host =
     (case parseHostForAddressChecks host of
        None \<Rightarrow> False
      | Some p \<Rightarrow> isLocalhost p \<or> net_isLoopbackAddress lib (Some (unbracketedHost p)))"

definition isLocalishHost :: "ipaddr_lib \<Rightarrow> string option \<Rightarrow> bool" where
  "isLocalishHost lib h =
     (let host = resolveHostName h in host \<noteq> [] \<and> (isLoopbackHost lib host \<or> ends_with ''.ts.net'' host))"

definition isPrivateOrLoopbackHost :: "ipaddr_lib \<Rightarrow> string \<Rightarrow> bool" where
  "isPrivateOrLoopbackHost lib host =
     (case parseHostForAddressChecks host of
        None \<Rightarrow> False
      | Some p \<Rightarrow>
          if isLocalhost p then True
          else case normalizeIpAddress lib (Some (unbracketedHost p)) of
            None \<Rightarrow> False
          | Some normalized \<Rightarrow>
              if normalized = [] \<or> \<not> isPrivateOrLoopbackAddress lib (Some normalized) then False
              else if node_isIP normalized = 6
              then (if starts_with ''ff'' normalized then False else normalized \<noteq> ''::'')
              else True)"

subsection \<open>The client behind the proxies\<close>

definition stripOptionalPort :: "string \<Rightarrow> string" where
  "stripOptionalPort ip =
     (if starts_with ''['' ip \<and> CHR '']'' \<in> set ip then takeWhile (\<lambda>c. c \<noteq> CHR '']'') (tl ip)
      else if node_isIP ip \<noteq> 0 then ip
      else if length (filter (\<lambda>c. c = CHR '':'') ip) = 1 \<and> CHR ''.'' \<in> set ip \<and>
              node_isIP (takeWhile (\<lambda>c. c \<noteq> CHR '':'') ip) = 4
      then takeWhile (\<lambda>c. c \<noteq> CHR '':'') ip
      else ip)"

definition parseIpLiteral :: "ipaddr_lib \<Rightarrow> string option \<Rightarrow> string option" where
  "parseIpLiteral lib raw =
     (case raw of
        None \<Rightarrow> None
      | Some s \<Rightarrow>
          (let trimmed = js_trim s
           in if trimmed = [] then None
              else case normalizeIpAddress lib (Some (stripOptionalPort trimmed)) of
                None \<Rightarrow> None
              | Some n \<Rightarrow> if n = [] \<or> node_isIP n = 0 then None else Some n))"

definition isTrustedProxyAddress :: "ipaddr_lib \<Rightarrow> string option \<Rightarrow> string list option \<Rightarrow> bool" where
  "isTrustedProxyAddress lib ip proxies =
     (case normalizeIpAddress lib ip of
        None \<Rightarrow> False
      | Some normalized \<Rightarrow>
          normalized \<noteq> [] \<and>
          list_ex (\<lambda>proxy. js_trim proxy \<noteq> [] \<and> isIpInCidr lib normalized (js_trim proxy)) (coalesce proxies []))"

text \<open>The walk from the right: the first hop that is neither on this machine nor a trusted proxy.\<close>

definition untrusted_hop :: "ipaddr_lib \<Rightarrow> string list option \<Rightarrow> string \<Rightarrow> bool" where
  "untrusted_hop lib proxies hop \<longleftrightarrow>
     \<not> net_isLoopbackAddress lib (Some hop) \<and> \<not> isTrustedProxyAddress lib (Some hop) proxies"

definition forwardedChain :: "ipaddr_lib \<Rightarrow> string option \<Rightarrow> string list" where
  "forwardedChain lib header =
     (case header of None \<Rightarrow> [] | Some h \<Rightarrow> List.map_filter (\<lambda>e. parseIpLiteral lib (Some e)) (js_split CHR '','' h))"

definition resolveForwardedClientIp :: "ipaddr_lib \<Rightarrow> string option \<Rightarrow> string list option \<Rightarrow> string option" where
  "resolveForwardedClientIp lib header proxies =
     (if coalesce proxies [] = [] then None
      else List.find (untrusted_hop lib proxies) (rev (forwardedChain lib header)))"

record client_ip_params =
  remoteAddr :: "string option"
  forwardedFor :: "string option"
  realIp :: "string option"
  trusted_proxies :: "string list option"
  allow_real_ip :: bool

definition net_resolveClientIp :: "ipaddr_lib \<Rightarrow> client_ip_params \<Rightarrow> string option" where
  "net_resolveClientIp lib p =
     (case normalizeIpAddress lib (remoteAddr p) of
        None \<Rightarrow> None
      | Some remote \<Rightarrow>
          if remote = [] then None
          else if \<not> isTrustedProxyAddress lib (Some remote) (trusted_proxies p) then Some remote
          else case resolveForwardedClientIp lib (forwardedFor p) (trusted_proxies p) of
            Some ip \<Rightarrow> Some ip
          | None \<Rightarrow> if allow_real_ip p then parseIpLiteral lib (realIp p) else None)"

text \<open>Headers of a request: a text, or a list of texts.\<close>

datatype header_value = One string | Many "string list"

record gw_request =
  remoteAddress :: "string option"
  headers :: "(string, header_value) js_map"

definition headerValue :: "header_value option \<Rightarrow> string option" where
  "headerValue v =
     (case v of None \<Rightarrow> None | Some (One s) \<Rightarrow> Some s | Some (Many xs) \<Rightarrow> (case xs of [] \<Rightarrow> None | x # _ \<Rightarrow> Some x))"

definition header_of :: "gw_request \<Rightarrow> string \<Rightarrow> header_value option" where
  "header_of req name = map_of (headers req) name"

definition resolveRequestClientIp :: "ipaddr_lib \<Rightarrow> gw_request option \<Rightarrow> string list option \<Rightarrow> bool \<Rightarrow> string option" where
  "resolveRequestClientIp lib r proxies fallback =
     (case r of
        None \<Rightarrow> None
      | Some req \<Rightarrow> net_resolveClientIp lib
          \<lparr>remoteAddr = Some (coalesce (remoteAddress req) []),
           forwardedFor = headerValue (header_of req ''x-forwarded-for''),
           realIp = headerValue (header_of req ''x-real-ip''),
           trusted_proxies = proxies, allow_real_ip = fallback\<rparr>)"

text \<open>What \<^verbatim>\<open>auth-rate-limit.ts\<close> takes from this file.\<close>

definition gateway_net_env :: "ipaddr_lib \<Rightarrow> net_env" where
  "gateway_net_env lib =
     \<lparr>resolveClientIp = (\<lambda>ip. net_resolveClientIp lib
         \<lparr>remoteAddr = ip, forwardedFor = None, realIp = None, trusted_proxies = None, allow_real_ip = False\<rparr>),
      isLoopbackAddress = (\<lambda>ip. net_isLoopbackAddress lib (Some ip))\<rparr>"

subsection \<open>The address to listen on\<close>

datatype bind_mode = BindAuto | BindLan | BindLoopback | BindCustom | BindTailnet

record bind_env =
  canBindToHost :: "string \<Rightarrow> bool"
  tailnetIPv4 :: "string option"
  inContainer :: bool

definition resolveGatewayBindHost :: "ipaddr_lib \<Rightarrow> bind_env \<Rightarrow> bind_mode option \<Rightarrow> string option \<Rightarrow> string" where
  "resolveGatewayBindHost lib env bind customHost =
     (let local_host = (if canBindToHost env ''127.0.0.1'' then ''127.0.0.1'' else ''0.0.0.0'')
      in case coalesce bind BindLoopback of
        BindLoopback \<Rightarrow> local_host
      | BindTailnet \<Rightarrow>
          (case tailnetIPv4 env of
             Some ip \<Rightarrow> if ip \<noteq> [] \<and> canBindToHost env ip then ip else local_host
           | None \<Rightarrow> local_host)
      | BindLan \<Rightarrow> ''0.0.0.0''
      | BindCustom \<Rightarrow>
          (let host = js_trim (coalesce customHost [])
           in if host = [] then ''0.0.0.0''
              else if isValidIPv4 lib host \<and> canBindToHost env host then host else ''0.0.0.0'')
      | BindAuto \<Rightarrow> if inContainer env then ''0.0.0.0'' else local_host)"

definition defaultGatewayBindMode :: "bind_env \<Rightarrow> string option \<Rightarrow> bind_mode" where
  "defaultGatewayBindMode env tailscaleMode =
     (if truthy_string tailscaleMode \<and> tailscaleMode \<noteq> Some ''off'' then BindLoopback
      else if inContainer env then BindAuto else BindLoopback)"

definition resolveGatewayListenHosts :: "(string \<Rightarrow> bool) \<Rightarrow> string \<Rightarrow> string list" where
  "resolveGatewayListenHosts canBind bindHost =
     (if bindHost \<noteq> ''127.0.0.1'' then [bindHost]
      else if canBind ''::1'' then [bindHost, ''::1''] else [bindHost])"

subsection \<open>Data in the clear\<close>

record web_url =
  url_protocol :: string
  url_origin :: string
  url_host :: string
  url_hostname :: string

definition ws_protocol :: "web_url \<Rightarrow> string" where
  "ws_protocol u =
     (if url_protocol u = ''https:'' then ''wss:'' else if url_protocol u = ''http:'' then ''ws:'' else url_protocol u)"

definition isSecureWebSocketUrl :: "ipaddr_lib \<Rightarrow> (string \<Rightarrow> web_url option) \<Rightarrow> string \<Rightarrow> bool option \<Rightarrow> bool" where
  "isSecureWebSocketUrl lib parse url allowPrivateWs =
     (case parse url of
        None \<Rightarrow> False
      | Some u \<Rightarrow>
          if ws_protocol u = ''wss:'' then True
          else if ws_protocol u \<noteq> ''ws:'' then False
          else if isLoopbackHost lib (url_hostname u) then True
          else if allowPrivateWs = Some True
          then (if isPrivateOrLoopbackHost lib (url_hostname u) then True
                else (let h = url_hostname u;
                          hostForIpCheck = (if starts_with ''['' h \<and> ends_with '']'' h then butlast (tl h) else h)
                      in node_isIP hostForIpCheck = 0))
          else False)"

subsection \<open>What decides the address\<close>

lemma find_in_append: "List.find P (xs @ ys) = (case List.find P xs of Some x \<Rightarrow> Some x | None \<Rightarrow> List.find P ys)"
  by (induction xs) auto

lemma js_split_join_append:
  assumes "\<forall>e \<in> set xs. c \<notin> set e" and "\<forall>e \<in> set ys. c \<notin> set e" and "ys \<noteq> []"
  shows "js_split c (js_join [c] (xs @ ys)) = xs @ ys"
  using assms by (intro js_split_join) auto

lemma map_filter_append: "List.map_filter f (xs @ ys) = List.map_filter f xs @ List.map_filter f ys"
  by (simp add: List.map_filter_def)

lemma forwardedChain_parts:
  assumes "\<forall>e \<in> set es. CHR '','' \<notin> set e" and "es \<noteq> []"
  shows "forwardedChain lib (Some (js_join '','' es)) = List.map_filter (\<lambda>e. parseIpLiteral lib (Some e)) es"
  using js_split_join [OF assms(2,1)] by (simp add: forwardedChain_def)

lemma trusted_needs_proxies: "isTrustedProxyAddress lib ip proxies \<Longrightarrow> coalesce proxies [] \<noteq> []"
  by (auto simp: isTrustedProxyAddress_def split: option.splits)

lemma rightmost_untrusted:
  assumes commas: "\<forall>e \<in> set (claimed @ [client] @ hops). CHR '','' \<notin> set e"
    and client: "parseIpLiteral lib (Some client) = Some ip" "untrusted_hop lib proxies ip"
    and hops: "\<forall>h \<in> set hops. \<forall>a. parseIpLiteral lib (Some h) = Some a \<longrightarrow> \<not> untrusted_hop lib proxies a"
    and "coalesce proxies [] \<noteq> []"
  shows "resolveForwardedClientIp lib (Some (js_join '','' (claimed @ [client] @ hops))) proxies = Some ip"
proof -
  let ?f = "\<lambda>e. parseIpLiteral lib (Some e)"
  have chain: "forwardedChain lib (Some (js_join '','' (claimed @ [client] @ hops))) =
      List.map_filter ?f claimed @ [ip] @ List.map_filter ?f hops"
    using forwardedChain_parts [OF commas] client by (simp add: map_filter_append List.map_filter_def)
  have "List.find (untrusted_hop lib proxies) (rev (List.map_filter ?f hops)) = None"
    using hops by (auto simp: find_None_iff List.map_filter_def)
  then show ?thesis using chain client assms(5) by (simp add: resolveForwardedClientIp_def find_in_append)
qed

lemma forwarded_is_untrusted:
  "resolveForwardedClientIp lib header proxies = Some ip \<Longrightarrow> untrusted_hop lib proxies ip \<and> ip \<in> set (forwardedChain lib header)"
  by (auto simp: resolveForwardedClientIp_def dest!: find_SomeD split: if_splits)

end
