(* ===== verification/GatewayAuth.thy ===== *)
theory GatewayAuth
  imports GatewayNet FormEncoding
begin

text \<open>
  Signing in at the gateway, \<^verbatim>\<open>packages/core/src/gateway/auth.ts\<close> with \<^verbatim>\<open>gateway/origin-check.ts\<close> and
  \<^verbatim>\<open>security/secret-equal.ts\<close>. The failed attempts are the map of \<open>AuthRateLimit\<close>, threaded through. The one wait of
  \<^verbatim>\<open>authorizeGatewayConnectCore\<close>, the question to the tailscale daemon, splits it into \<open>authCoreStart\<close> and
  \<open>authCoreFinish\<close>; the answer is an argument, and so is the clock at both ends.
\<close>

subsection \<open>Comparing secrets\<close>

definition utf8_of :: "string \<Rightarrow> nat list" where
  "utf8_of s = concat (map utf8_bytes s)"

definition padSecretBytes :: "nat list \<Rightarrow> nat \<Rightarrow> nat list" where
  "padSecretBytes bytes n = (if length bytes = n then bytes else take n bytes @ replicate (n - length bytes) 0)"

definition safeEqualSecret :: "string option \<Rightarrow> string option \<Rightarrow> bool" where
  "safeEqualSecret provided expected =
     (case (provided, expected) of
        (Some p, Some e) \<Rightarrow>
          (let pb = utf8_of p; eb = utf8_of e; n = max (length pb) (length eb)
           in if n = 0 then True
              else padSecretBytes pb n = padSecretBytes eb n \<and> length pb = length eb)
      | _ \<Rightarrow> False)"

lemma utf8_of_decode: "utf8_decode (utf8_of s) = s"
  by (induction s) (simp_all add: utf8_of_def utf8_decode_char del: utf8_bytes.simps)

lemma safeEqualSecret_iff: "safeEqualSecret (Some p) (Some e) \<longleftrightarrow> p = e"
proof -
  have "utf8_of p = utf8_of e \<longleftrightarrow> p = e" by (metis utf8_of_decode)
  then show ?thesis by (auto simp: safeEqualSecret_def padSecretBytes_def Let_def)
qed

subsection \<open>The origin of a browser\<close>

record origin_parts =
  o_origin :: string
  o_host :: string
  o_hostname :: string

definition parseOrigin :: "(string \<Rightarrow> web_url option) \<Rightarrow> string option \<Rightarrow> origin_parts option" where
  "parseOrigin parse raw =
     (let trimmed = js_trim (coalesce raw [])
      in if trimmed = [] \<or> trimmed = ''null'' then None
         else map_option (\<lambda>u. \<lparr>o_origin = normalizeLowercaseStringOrEmpty (Some (url_origin u)),
                               o_host = normalizeLowercaseStringOrEmpty (Some (url_host u)),
                               o_hostname = normalizeLowercaseStringOrEmpty (Some (url_hostname u))\<rparr>) (parse trimmed))"

datatype origin_match = ByAllowlist | ByHostHeader | ByLoopback

record origin_policy =
  requestHost :: "string option"
  origin :: "string option"
  allowedOrigins :: "string list option"
  allowHostHeaderOriginFallback :: "bool option"

record gw_env =
  gw_lib :: ipaddr_lib
  gw_url :: "string \<Rightarrow> web_url option"

definition checkBrowserOrigin :: "gw_env \<Rightarrow> origin_policy \<Rightarrow> bool \<Rightarrow> string + origin_match" where
  "checkBrowserOrigin env p isLocalClient =
     (case parseOrigin (gw_url env) (origin p) of
        None \<Rightarrow> Inl ''origin missing or invalid''
      | Some o' \<Rightarrow>
          (let allowlist = List.map_filter (\<lambda>v. normalizeOptionalLowercaseString (Some v)) (coalesce (allowedOrigins p) []);
               host = normalizeHostHeader (requestHost p)
           in if ''*'' \<in> set allowlist \<or> o_origin o' \<in> set allowlist then Inr ByAllowlist
              else if allowHostHeaderOriginFallback p = Some True \<and> host \<noteq> [] \<and> o_host o' = host then Inr ByHostHeader
              else if isLocalClient \<and> isLoopbackHost (gw_lib env) (o_hostname o') then Inr ByLoopback
              else Inl ''origin not allowed''))"

subsection \<open>Settings, results and requests\<close>

datatype gateway_mode = ModeNone | ModeToken | ModePassword | ModeTrustedProxy

record trusted_proxy_config =
  userHeader :: string
  requiredHeaders :: "string list option"
  allowUsers :: "string list option"
  allowLoopback :: "bool option"

record gateway_auth =
  ga_mode :: gateway_mode
  ga_token :: "string option"
  ga_password :: "string option"
  ga_allowTailscale :: bool
  ga_trustedProxy :: "trusted_proxy_config option"

datatype auth_method =
  MethodNone | MethodToken | MethodPassword | MethodTailscale | MethodDeviceToken | MethodBootstrapToken | MethodTrustedProxy

record gateway_auth_result =
  gr_ok :: bool
  gr_method :: "auth_method option"
  gr_user :: "string option"
  gr_reason :: "string option"
  gr_retryAfterMs :: "int option"

text \<open>\<open>gr_retryAfterMs\<close> is present exactly when \<^verbatim>\<open>rateLimited\<close> is set.\<close>

definition granted :: "auth_method \<Rightarrow> string option \<Rightarrow> gateway_auth_result" where
  "granted m user = \<lparr>gr_ok = True, gr_method = Some m, gr_user = user, gr_reason = None, gr_retryAfterMs = None\<rparr>"

definition refused :: "string \<Rightarrow> gateway_auth_result" where
  "refused why = \<lparr>gr_ok = False, gr_method = None, gr_user = None, gr_reason = Some why, gr_retryAfterMs = None\<rparr>"

definition rate_limited :: "int \<Rightarrow> gateway_auth_result" where
  "rate_limited ms = (refused ''rate_limited'')\<lparr>gr_retryAfterMs := Some ms\<rparr>"

record connect_auth =
  ca_token :: "string option"
  ca_password :: "string option"

datatype auth_surface = SurfaceHttp | SurfaceWsControlUi

record connect_params =
  cp_auth :: gateway_auth
  cp_connectAuth :: "connect_auth option"
  cp_req :: "gw_request option"
  cp_trustedProxies :: "string list option"
  cp_surface :: "auth_surface option"
  cp_limiter :: "limiter option"
  cp_clientIp :: "string option"
  cp_scope :: "string option"
  cp_allowRealIp :: "bool option"
  cp_originPolicy :: "origin_policy option"

definition given_token :: "connect_params \<Rightarrow> string option" where
  "given_token p = Option.bind (cp_connectAuth p) ca_token"

definition given_password :: "connect_params \<Rightarrow> string option" where
  "given_password p = Option.bind (cp_connectAuth p) ca_password"

definition AUTH_RATE_LIMIT_SCOPE_SHARED_SECRET :: string where
  "AUTH_RATE_LIMIT_SCOPE_SHARED_SECRET = ''shared-secret''"

definition AUTH_RATE_LIMIT_SCOPE_DEVICE_TOKEN :: string where
  "AUTH_RATE_LIMIT_SCOPE_DEVICE_TOKEN = ''device-token''"

definition clientIpFor :: "gw_env \<Rightarrow> connect_params \<Rightarrow> string option" where
  "clientIpFor env p =
     or_else (cp_clientIp p)
       (or_else (resolveRequestClientIp (gw_lib env) (cp_req p) (cp_trustedProxies p) (cp_allowRealIp p = Some True))
                (Option.bind (cp_req p) remoteAddress))"

definition limitScope :: "connect_params \<Rightarrow> string" where
  "limitScope p = coalesce (cp_scope p) AUTH_RATE_LIMIT_SCOPE_SHARED_SECRET"

text \<open>The key and address the limiter counts the request under.\<close>

definition limitKey :: "gw_env \<Rightarrow> connect_params \<Rightarrow> string \<times> string" where
  "limitKey env p = resolveKey (gateway_net_env (gw_lib env)) (clientIpFor env p) (Some (limitScope p))"

definition surfaceOf :: "connect_params \<Rightarrow> auth_surface" where
  "surfaceOf p = coalesce (cp_surface p) SurfaceHttp"

definition shouldAllowTailscaleHeaderAuth :: "auth_surface \<Rightarrow> bool" where
  "shouldAllowTailscaleHeaderAuth s \<longleftrightarrow> s = SurfaceWsControlUi"

definition hasExplicitSharedSecretAuth :: "connect_auth option \<Rightarrow> bool" where
  "hasExplicitSharedSecretAuth c \<longleftrightarrow>
     truthy_string (normalizeOptionalString (Option.bind c ca_token)) \<or>
     truthy_string (normalizeOptionalString (Option.bind c ca_password))"

subsection \<open>Local requests and tailscale\<close>

definition header_set :: "gw_request \<Rightarrow> string \<Rightarrow> bool" where
  "header_set req name =
     (case header_of req name of None \<Rightarrow> False | Some (One s) \<Rightarrow> s \<noteq> [] | Some (Many _) \<Rightarrow> True)"

definition hasForwardedRequestHeaders :: "gw_request option \<Rightarrow> bool" where
  "hasForwardedRequestHeaders r =
     (case r of
        None \<Rightarrow> False
      | Some req \<Rightarrow>
          header_set req ''forwarded'' \<or> header_set req ''x-forwarded-for'' \<or> header_set req ''x-forwarded-proto'' \<or>
          header_set req ''x-real-ip'' \<or> header_set req ''x-forwarded-host'')"

definition isLocalDirectRequest :: "ipaddr_lib \<Rightarrow> gw_request option \<Rightarrow> bool" where
  "isLocalDirectRequest lib r =
     (case r of
        None \<Rightarrow> False
      | Some req \<Rightarrow> \<not> hasForwardedRequestHeaders r \<and> net_isLoopbackAddress lib (remoteAddress req))"

definition TAILSCALE_TRUSTED_PROXIES :: "string list" where
  "TAILSCALE_TRUSTED_PROXIES = [''127.0.0.1'', ''::1'']"

definition resolveTailscaleClientIp :: "ipaddr_lib \<Rightarrow> gw_request option \<Rightarrow> string option" where
  "resolveTailscaleClientIp lib r =
     (case r of
        None \<Rightarrow> None
      | Some req \<Rightarrow> net_resolveClientIp lib
          \<lparr>remoteAddr = Some (coalesce (remoteAddress req) []),
           forwardedFor = headerValue (header_of req ''x-forwarded-for''), realIp = None,
           trusted_proxies = Some TAILSCALE_TRUSTED_PROXIES, allow_real_ip = False\<rparr>)"

record tailscale_user =
  ts_login :: string
  ts_name :: string
  ts_profilePic :: "string option"

text \<open>A header with several values is no string, so it normalises to nothing.\<close>

definition text_header :: "gw_request \<Rightarrow> string \<Rightarrow> string option" where
  "text_header req name =
     (case header_of req name of Some (One s) \<Rightarrow> normalizeOptionalString (Some s) | _ \<Rightarrow> None)"

definition getTailscaleUser :: "gw_request option \<Rightarrow> tailscale_user option" where
  "getTailscaleUser r =
     (case r of
        None \<Rightarrow> None
      | Some req \<Rightarrow>
          map_option (\<lambda>login. \<lparr>ts_login = login, ts_name = coalesce (text_header req ''tailscale-user-name'') login,
                               ts_profilePic = text_header req ''tailscale-user-profile-pic''\<rparr>)
            (text_header req ''tailscale-user-login''))"

definition hasTailscaleProxyHeaders :: "gw_request option \<Rightarrow> bool" where
  "hasTailscaleProxyHeaders r =
     (case r of
        None \<Rightarrow> False
      | Some req \<Rightarrow> header_set req ''x-forwarded-for'' \<and> header_set req ''x-forwarded-proto'' \<and> header_set req ''x-forwarded-host'')"

definition isTailscaleProxyRequest :: "ipaddr_lib \<Rightarrow> gw_request option \<Rightarrow> bool" where
  "isTailscaleProxyRequest lib r =
     (case r of None \<Rightarrow> False | Some req \<Rightarrow> net_isLoopbackAddress lib (remoteAddress req) \<and> hasTailscaleProxyHeaders r)"

record whois_identity =
  whois_login :: string
  whois_name :: "string option"

definition normalizeLogin :: "string \<Rightarrow> string" where
  "normalizeLogin login = normalizeLowercaseStringOrEmpty (Some login)"

text \<open>\<^verbatim>\<open>resolveVerifiedTailscaleUser\<close> up to the question (the address asked about, with the user of the headers), and
  after the answer.\<close>

definition tailscaleQuestion :: "ipaddr_lib \<Rightarrow> gw_request option \<Rightarrow> string + string \<times> tailscale_user" where
  "tailscaleQuestion lib r =
     (case getTailscaleUser r of
        None \<Rightarrow> Inl ''tailscale_user_missing''
      | Some user \<Rightarrow>
          if \<not> isTailscaleProxyRequest lib r then Inl ''tailscale_proxy_missing''
          else case resolveTailscaleClientIp lib r of
            None \<Rightarrow> Inl ''tailscale_whois_failed''
          | Some ip \<Rightarrow> if ip = [] then Inl ''tailscale_whois_failed'' else Inr (ip, user))"

definition verifyTailscaleUser :: "whois_identity option \<Rightarrow> tailscale_user \<Rightarrow> string + tailscale_user" where
  "verifyTailscaleUser answer user =
     (case answer of
        None \<Rightarrow> Inl ''tailscale_whois_failed''
      | Some w \<Rightarrow>
          if whois_login w = [] then Inl ''tailscale_whois_failed''
          else if normalizeLogin (whois_login w) \<noteq> normalizeLogin (ts_login user) then Inl ''tailscale_user_mismatch''
          else Inr \<lparr>ts_login = whois_login w, ts_name = coalesce (whois_name w) (ts_name user), ts_profilePic = ts_profilePic user\<rparr>)"

subsection \<open>Trusted proxies\<close>

definition blank_header :: "string option \<Rightarrow> bool" where
  "blank_header v \<longleftrightarrow> js_trim (coalesce v []) = []"

definition header_named :: "gw_request \<Rightarrow> string \<Rightarrow> string option" where
  "header_named req name = headerValue (header_of req (normalizeLowercaseStringOrEmpty (Some name)))"

definition authorizeTrustedProxy :: "ipaddr_lib \<Rightarrow> gw_request option \<Rightarrow> string list option \<Rightarrow> trusted_proxy_config \<Rightarrow> string + string" where
  "authorizeTrustedProxy lib r proxies cfg =
     (case r of
        None \<Rightarrow> Inl ''trusted_proxy_no_request''
      | Some req \<Rightarrow>
          if \<not> truthy_string (remoteAddress req) \<or> \<not> isTrustedProxyAddress lib (remoteAddress req) proxies
          then Inl ''trusted_proxy_untrusted_source''
          else if net_isLoopbackAddress lib (remoteAddress req) \<and> allowLoopback cfg \<noteq> Some True
          then Inl ''trusted_proxy_loopback_source''
          else case List.find (\<lambda>h. blank_header (header_named req h)) (coalesce (requiredHeaders cfg) []) of
            Some h \<Rightarrow> Inl (''trusted_proxy_missing_header_'' @ h)
          | None \<Rightarrow>
              (let value = header_named req (userHeader cfg); user = js_trim (coalesce value []);
                   allowUsers = coalesce (allowUsers cfg) []
               in if blank_header value then Inl ''trusted_proxy_user_missing''
                  else if allowUsers \<noteq> [] \<and> user \<notin> set allowUsers then Inl ''trusted_proxy_user_not_allowed''
                  else Inr user))"

definition authorizeTrustedProxyBrowserOrigin :: "gw_env \<Rightarrow> auth_surface \<Rightarrow> origin_policy option \<Rightarrow> gateway_auth_result option" where
  "authorizeTrustedProxyBrowserOrigin env surface policy =
     (if surface \<noteq> SurfaceHttp then None
      else let o' = js_trim (coalesce (Option.bind policy origin) [])
           in if o' = [] then None
              else case checkBrowserOrigin env ((the policy)\<lparr>origin := Some o'\<rparr>) False of
                Inr _ \<Rightarrow> None
              | Inl _ \<Rightarrow> Some (refused ''trusted_proxy_origin_not_allowed''))"

subsection \<open>Token and password\<close>

text \<open>The calls to the limiter do nothing when there is none.\<close>

definition limiterFailure :: "gw_env \<Rightarrow> int \<Rightarrow> connect_params \<Rightarrow> rl_map \<Rightarrow> rl_map" where
  "limiterFailure env now p m =
     (case cp_limiter p of
        None \<Rightarrow> m
      | Some cfg \<Rightarrow> recordFailure (gateway_net_env (gw_lib env)) cfg now (clientIpFor env p) (Some (limitScope p)) m)"

definition limiterReset :: "gw_env \<Rightarrow> connect_params \<Rightarrow> rl_map \<Rightarrow> rl_map" where
  "limiterReset env p m =
     (case cp_limiter p of
        None \<Rightarrow> m | Some cfg \<Rightarrow> reset (gateway_net_env (gw_lib env)) (clientIpFor env p) (Some (limitScope p)) m)"

definition limiterCheck :: "gw_env \<Rightarrow> int \<Rightarrow> connect_params \<Rightarrow> rl_map \<Rightarrow> gateway_auth_result option \<times> rl_map" where
  "limiterCheck env now p m =
     (case cp_limiter p of
        None \<Rightarrow> (None, m)
      | Some cfg \<Rightarrow>
          (let (r, m') = check (gateway_net_env (gw_lib env)) cfg now (clientIpFor env p) (Some (limitScope p)) m
           in (if allowed r then None else Some (rate_limited (retryAfterMs r)), m')))"

definition authorizeTokenAuth :: "gw_env \<Rightarrow> int \<Rightarrow> connect_params \<Rightarrow> rl_map \<Rightarrow> gateway_auth_result \<times> rl_map" where
  "authorizeTokenAuth env now p m =
     (if \<not> truthy_string (ga_token (cp_auth p)) then (refused ''token_missing_config'', m)
      else if \<not> truthy_string (given_token p) then (refused ''token_missing'', m)
      else if \<not> safeEqualSecret (given_token p) (ga_token (cp_auth p))
      then (refused ''token_mismatch'', limiterFailure env now p m)
      else (granted MethodToken None, limiterReset env p m))"

definition authorizePasswordAuth :: "gw_env \<Rightarrow> int \<Rightarrow> connect_params \<Rightarrow> rl_map \<Rightarrow> gateway_auth_result \<times> rl_map" where
  "authorizePasswordAuth env now p m =
     (if \<not> truthy_string (ga_password (cp_auth p)) then (refused ''password_missing_config'', m)
      else if \<not> truthy_string (given_password p) then (refused ''password_missing'', m)
      else if \<not> safeEqualSecret (given_password p) (ga_password (cp_auth p))
      then (refused ''password_mismatch'', limiterFailure env now p m)
      else (granted MethodPassword None, limiterReset env p m))"

subsection \<open>The decision\<close>

definition localDirect :: "gw_env \<Rightarrow> connect_params \<Rightarrow> bool" where
  "localDirect env p = isLocalDirectRequest (gw_lib env) (cp_req p)"

definition authorizeByProxy :: "gw_env \<Rightarrow> int \<Rightarrow> connect_params \<Rightarrow> rl_map \<Rightarrow> gateway_auth_result \<times> rl_map" where
  "authorizeByProxy env now p m =
     (case ga_trustedProxy (cp_auth p) of
        None \<Rightarrow> (refused ''trusted_proxy_config_missing'', m)
      | Some cfg \<Rightarrow>
          if coalesce (cp_trustedProxies p) [] = [] then (refused ''trusted_proxy_no_proxies_configured'', m)
          else case authorizeTrustedProxy (gw_lib env) (cp_req p) (cp_trustedProxies p) cfg of
            Inr user \<Rightarrow>
              (case authorizeTrustedProxyBrowserOrigin env (surfaceOf p) (cp_originPolicy p) of
                 Some r \<Rightarrow> (r, m)
               | None \<Rightarrow> (granted MethodTrustedProxy (Some user), m))
          | Inl why \<Rightarrow>
              if localDirect env p \<and> truthy_string (ga_password (cp_auth p)) \<and> truthy_string (given_password p)
              then (case limiterCheck env now p m of
                      (Some r, m') \<Rightarrow> (r, m')
                    | (None, m') \<Rightarrow> authorizePasswordAuth env now p m')
              else (refused why, m))"

definition authCoreRest :: "gw_env \<Rightarrow> int \<Rightarrow> connect_params \<Rightarrow> rl_map \<Rightarrow> gateway_auth_result \<times> rl_map" where
  "authCoreRest env now p m =
     (case ga_mode (cp_auth p) of
        ModeToken \<Rightarrow> authorizeTokenAuth env now p m
      | ModePassword \<Rightarrow> authorizePasswordAuth env now p m
      | _ \<Rightarrow> (refused ''unauthorized'', limiterFailure env now p m))"

definition asksTailscale :: "gw_env \<Rightarrow> connect_params \<Rightarrow> bool" where
  "asksTailscale env p \<longleftrightarrow>
     shouldAllowTailscaleHeaderAuth (surfaceOf p) \<and> ga_allowTailscale (cp_auth p) \<and> \<not> localDirect env p \<and>
     \<not> hasExplicitSharedSecretAuth (cp_connectAuth p)"

definition authCoreStart :: "gw_env \<Rightarrow> int \<Rightarrow> connect_params \<Rightarrow> rl_map \<Rightarrow> (gateway_auth_result + string \<times> tailscale_user) \<times> rl_map" where
  "authCoreStart env now p m =
     (if ga_mode (cp_auth p) = ModeTrustedProxy then (case authorizeByProxy env now p m of (r, m') \<Rightarrow> (Inl r, m'))
      else if ga_mode (cp_auth p) = ModeNone then (Inl (granted MethodNone None), m)
      else case limiterCheck env now p m of
        (Some r, m') \<Rightarrow> (Inl r, m')
      | (None, m') \<Rightarrow>
          (case (if asksTailscale env p then tailscaleQuestion (gw_lib env) (cp_req p) else Inl '''') of
             Inr question \<Rightarrow> (Inr question, m')
           | Inl _ \<Rightarrow> (case authCoreRest env now p m' of (r, m'') \<Rightarrow> (Inl r, m''))))"

definition authCoreFinish :: "gw_env \<Rightarrow> int \<Rightarrow> connect_params \<Rightarrow> tailscale_user \<Rightarrow> whois_identity option \<Rightarrow> rl_map
    \<Rightarrow> gateway_auth_result \<times> rl_map" where
  "authCoreFinish env now p user answer m =
     (case verifyTailscaleUser answer user of
        Inr verified \<Rightarrow> (granted MethodTailscale (Some (ts_login verified)), limiterReset env p m)
      | Inl _ \<Rightarrow> authCoreRest env now p m)"

text \<open>Both halves with nothing else in between: \<open>wait\<close> is how long the answer took.\<close>

definition authorizeGatewayConnectCore :: "gw_env \<Rightarrow> (string \<Rightarrow> whois_identity option) \<Rightarrow> nat \<Rightarrow> int \<Rightarrow> connect_params \<Rightarrow> rl_map
    \<Rightarrow> gateway_auth_result \<times> rl_map" where
  "authorizeGatewayConnectCore env whois wait now p m =
     (case authCoreStart env now p m of
        (Inl r, m') \<Rightarrow> (r, m')
      | (Inr (ip, user), m') \<Rightarrow> authCoreFinish env (now + int wait) p user (whois ip) m')"

text \<open>Whether \<^verbatim>\<open>authorizeGatewayConnect\<close> queues the attempt behind others of its key.\<close>

definition serializesAttempt :: "gw_env \<Rightarrow> connect_params \<Rightarrow> bool" where
  "serializesAttempt env p \<longleftrightarrow>
     cp_limiter p \<noteq> None \<and> shouldAllowTailscaleHeaderAuth (surfaceOf p) \<and> ga_allowTailscale (cp_auth p) \<and> \<not> localDirect env p"

definition authorizeHttpGatewayConnect ::
  "gw_env \<Rightarrow> (string \<Rightarrow> whois_identity option) \<Rightarrow> nat \<Rightarrow> int \<Rightarrow> connect_params \<Rightarrow> rl_map \<Rightarrow> gateway_auth_result \<times> rl_map" where
  "authorizeHttpGatewayConnect env whois wait now p m =
     authorizeGatewayConnectCore env whois wait now (p\<lparr>cp_surface := Some SurfaceHttp\<rparr>) m"

definition authorizeWsControlUiGatewayConnect ::
  "gw_env \<Rightarrow> (string \<Rightarrow> whois_identity option) \<Rightarrow> nat \<Rightarrow> int \<Rightarrow> connect_params \<Rightarrow> rl_map \<Rightarrow> gateway_auth_result \<times> rl_map" where
  "authorizeWsControlUiGatewayConnect env whois wait now p m =
     authorizeGatewayConnectCore env whois wait now (p\<lparr>cp_surface := Some SurfaceWsControlUi\<rparr>) m"

text \<open>The checks at start-up; \<open>password_ref\<close>: the configured password is present and no string.\<close>

datatype config_error = NoToken | PasswordIsReference | NoPassword | NoProxyConfig | NoUserHeader | ProxyWithToken

definition assertGatewayAuthConfigured :: "gateway_auth \<Rightarrow> bool \<Rightarrow> config_error option" where
  "assertGatewayAuthConfigured a password_ref =
     (if ga_mode a = ModeToken \<and> \<not> truthy_string (ga_token a) then (if ga_allowTailscale a then None else Some NoToken)
      else if ga_mode a = ModePassword \<and> \<not> truthy_string (ga_password a)
      then Some (if password_ref then PasswordIsReference else NoPassword)
      else if ga_mode a = ModeTrustedProxy
      then (case ga_trustedProxy a of
              None \<Rightarrow> Some NoProxyConfig
            | Some c \<Rightarrow> if js_trim (userHeader c) = [] then Some NoUserHeader
                        else if truthy_string (ga_token a) then Some ProxyWithToken else None)
      else None)"

end
