(* ===== verification/GatewaySafety.thy ===== *)
theory GatewaySafety
  imports GatewayAuth
begin

text \<open>
  Who may sign in at the gateway: the address a client is counted under cannot be chosen by it, a grant rests on a proof that
  the settings ask for, and guessing ends in a lock.
\<close>

subsection \<open>A small address package for examples\<close>

text \<open>IPv4 only: an address is its four numbers, networks are written with a prefix length of 8, 16, 24 or 32.\<close>

definition tiny_parse :: "string \<Rightarrow> ip_addr option" where
  "tiny_parse s =
     (if node_isIPv4 s then Some (IP4 (map (\<lambda>p. int (digits_value p)) (js_split CHR ''.'' s))) else None)"

definition tiny_lib :: ipaddr_lib where
  "tiny_lib =
     \<lparr>v4_parse = tiny_parse, v4_four_part_decimal = node_isIPv4, v6_parse = (\<lambda>_. None), any_parse = tiny_parse,
      v4_mapped = (\<lambda>_. False), to_v4 = id,
      ip_text = (\<lambda>a. case a of IP4 os \<Rightarrow> js_join ''.'' (map show_int os) | IP6 _ _ \<Rightarrow> ''''),
      ip_range = (\<lambda>a. case a of IP4 os \<Rightarrow> if take 1 os = [127] then ''loopback'' else if take 1 os = [10] then ''private'' else ''unicast''
                              | IP6 _ _ \<Rightarrow> ''unicast''),
      cidr_parse = (\<lambda>s. Option.bind (tiny_parse (takeWhile (\<lambda>c. c \<noteq> CHR ''/'') s))
                          (\<lambda>a. map_option (\<lambda>n. (a, n)) (parse_int10 (tl (dropWhile (\<lambda>c. c \<noteq> CHR ''/'') s))))),
      cidr_match = (\<lambda>a (b, n). case (a, b) of (IP4 x, IP4 y) \<Rightarrow> Some (take (nat n div 8) x = take (nat n div 8) y) | _ \<Rightarrow> Some False)\<rparr>"

subsection \<open>The address of the client\<close>

text \<open>A proxy appends the address of its peer to the header. Whatever the client wrote before, the answer is the
  first address from the right that no trusted proxy stands for; without a trusted proxy the headers play no role.\<close>

lemma trusted_normal_form:
  "normalizeIpAddress lib raw = Some remote \<Longrightarrow> remote \<noteq> [] \<Longrightarrow> \<not> isTrustedProxyAddress lib (Some remote) (trusted_proxies p)
   \<Longrightarrow> remoteAddr p = raw \<Longrightarrow> net_resolveClientIp lib p = Some remote"
  by (simp add: net_resolveClientIp_def)

text \<open>C18: The address a client is counted under is not of its choosing. Behind trusted proxies that append the address of
  their peer, the answer is the address the outermost of them saw, whatever the client claimed in the header; of a request
  that comes from elsewhere it is the address of the connection, whatever the headers say.\<close>

theorem client_ip_not_spoofable:
  assumes remote: "normalizeIpAddress lib (remoteAddr p) = Some remote" "remote \<noteq> []"
    and commas: "\<forall>e \<in> set (claimed @ [client] @ hops). CHR '','' \<notin> set e"
    and client: "parseIpLiteral lib (Some client) = Some ip" "untrusted_hop lib (trusted_proxies p) ip"
    and hops: "\<forall>h \<in> set hops. \<forall>a. parseIpLiteral lib (Some h) = Some a \<longrightarrow> \<not> untrusted_hop lib (trusted_proxies p) a"
  shows "net_resolveClientIp lib (p\<lparr>forwardedFor := Some (js_join '','' (claimed @ [client] @ hops))\<rparr>) =
     Some (if isTrustedProxyAddress lib (Some remote) (trusted_proxies p) then ip else remote)"
proof (cases "isTrustedProxyAddress lib (Some remote) (trusted_proxies p)")
  case True
  then show ?thesis
    using rightmost_untrusted [OF commas client hops trusted_needs_proxies [OF True]] remote
    by (simp add: net_resolveClientIp_def)
qed (simp add: net_resolveClientIp_def remote)

definition behind_proxy :: client_ip_params where
  "behind_proxy = \<lparr>remoteAddr = Some ''10.0.0.1'', forwardedFor = None, realIp = None, trusted_proxies = Some [''10.0.0.0/8''], allow_real_ip = False\<rparr>"

theorem client_ip_not_spoofable_witness:
  "net_resolveClientIp tiny_lib (behind_proxy\<lparr>forwardedFor := Some ''127.0.0.1,203.0.113.7,10.0.0.9''\<rparr>) = Some ''203.0.113.7''"
proof -
  have "net_resolveClientIp tiny_lib (behind_proxy\<lparr>forwardedFor :=
        Some (js_join '','' ([''127.0.0.1''] @ [''203.0.113.7''] @ [''10.0.0.9'']))\<rparr>) =
      Some (if isTrustedProxyAddress tiny_lib (Some ''10.0.0.1'') (trusted_proxies behind_proxy) then ''203.0.113.7'' else ''10.0.0.1'')"
  proof (rule client_ip_not_spoofable)
    show "normalizeIpAddress tiny_lib (remoteAddr behind_proxy) = Some ''10.0.0.1''" by code_simp
    show "parseIpLiteral tiny_lib (Some ''203.0.113.7'') = Some ''203.0.113.7''" by code_simp
    show "untrusted_hop tiny_lib (trusted_proxies behind_proxy) ''203.0.113.7''" by code_simp
    have "parseIpLiteral tiny_lib (Some ''10.0.0.9'') = Some ''10.0.0.9''" by code_simp
    moreover have "\<not> untrusted_hop tiny_lib (trusted_proxies behind_proxy) ''10.0.0.9''" by code_simp
    ultimately show "\<forall>h \<in> set [''10.0.0.9'']. \<forall>a. parseIpLiteral tiny_lib (Some h) = Some a \<longrightarrow>
        \<not> untrusted_hop tiny_lib (trusted_proxies behind_proxy) a" by simp
  qed simp_all
  moreover have "isTrustedProxyAddress tiny_lib (Some ''10.0.0.1'') (trusted_proxies behind_proxy)" by code_simp
  ultimately show ?thesis by simp
qed

subsection \<open>A grant rests on a proof\<close>

definition right_token :: "connect_params \<Rightarrow> bool" where
  "right_token p \<longleftrightarrow> (\<exists>t. t \<noteq> [] \<and> ga_token (cp_auth p) = Some t \<and> given_token p = Some t)"

definition right_password :: "connect_params \<Rightarrow> bool" where
  "right_password p \<longleftrightarrow> (\<exists>t. t \<noteq> [] \<and> ga_password (cp_auth p) = Some t \<and> given_password p = Some t)"

definition within_limit :: "gw_env \<Rightarrow> int \<Rightarrow> connect_params \<Rightarrow> rl_map \<Rightarrow> bool" where
  "within_limit env now p m \<longleftrightarrow> fst (limiterCheck env now p m) = None"

text \<open>The proxy that is trusted names a user.\<close>

definition vouched_by_proxy :: "gw_env \<Rightarrow> connect_params \<Rightarrow> string \<Rightarrow> bool" where
  "vouched_by_proxy env p user \<longleftrightarrow>
     (\<exists>cfg req a. ga_trustedProxy (cp_auth p) = Some cfg \<and> cp_req p = Some req \<and> remoteAddress req = Some a \<and> a \<noteq> [] \<and>
        isTrustedProxyAddress (gw_lib env) (Some a) (cp_trustedProxies p) \<and>
        (net_isLoopbackAddress (gw_lib env) (Some a) \<longrightarrow> allowLoopback cfg = Some True) \<and>
        (\<forall>h \<in> set (coalesce (requiredHeaders cfg) []). \<not> blank_header (header_named req h)) \<and>
        user = js_trim (coalesce (header_named req (userHeader cfg)) []) \<and> user \<noteq> [] \<and>
        (coalesce (allowUsers cfg) [] = [] \<or> user \<in> set (coalesce (allowUsers cfg) [])))"

text \<open>The tailscale daemon knows the client by the name the headers give.\<close>

definition vouched_by_tailscale :: "gw_env \<Rightarrow> (string \<Rightarrow> whois_identity option) \<Rightarrow> connect_params \<Rightarrow> bool" where
  "vouched_by_tailscale env whois p \<longleftrightarrow>
     surfaceOf p = SurfaceWsControlUi \<and> ga_allowTailscale (cp_auth p) \<and> \<not> localDirect env p \<and>
     \<not> hasExplicitSharedSecretAuth (cp_connectAuth p) \<and>
     (\<exists>user ip w. getTailscaleUser (cp_req p) = Some user \<and> isTailscaleProxyRequest (gw_lib env) (cp_req p) \<and>
        resolveTailscaleClientIp (gw_lib env) (cp_req p) = Some ip \<and> ip \<noteq> [] \<and>
        whois ip = Some w \<and> whois_login w \<noteq> [] \<and> normalizeLogin (whois_login w) = normalizeLogin (ts_login user))"

definition origin_fits :: "gw_env \<Rightarrow> connect_params \<Rightarrow> bool" where
  "origin_fits env p \<longleftrightarrow> authorizeTrustedProxyBrowserOrigin env (surfaceOf p) (cp_originPolicy p) = None"

lemma granted_ok [simp]: "gr_ok (granted mth u)" "\<not> gr_ok (refused w)" "\<not> gr_ok (rate_limited ms)"
  by (simp_all add: granted_def refused_def rate_limited_def)

lemma authorizeTokenAuth_ok: "gr_ok (fst (authorizeTokenAuth env now p m)) \<longleftrightarrow> right_token p"
  by (cases "ga_token (cp_auth p)"; cases "given_token p")
    (auto simp: authorizeTokenAuth_def right_token_def safeEqualSecret_iff)

lemma authorizePasswordAuth_ok: "gr_ok (fst (authorizePasswordAuth env now p m)) \<longleftrightarrow> right_password p"
  by (cases "ga_password (cp_auth p)"; cases "given_password p")
    (auto simp: authorizePasswordAuth_def right_password_def safeEqualSecret_iff)

lemma authCoreRest_ok:
  "gr_ok (fst (authCoreRest env now p m)) \<longleftrightarrow>
     (ga_mode (cp_auth p) = ModeToken \<and> right_token p) \<or> (ga_mode (cp_auth p) = ModePassword \<and> right_password p)"
  by (cases "ga_mode (cp_auth p)") (simp_all add: authCoreRest_def authorizeTokenAuth_ok authorizePasswordAuth_ok)

lemma limiterCheck_refuses: "limiterCheck env now p m = (Some r, m') \<Longrightarrow> \<not> gr_ok r"
  by (auto simp: limiterCheck_def split: option.splits prod.splits if_splits)

lemma authorizeTrustedProxy_user:
  "ga_trustedProxy (cp_auth p) = Some cfg \<Longrightarrow>
   authorizeTrustedProxy (gw_lib env) (cp_req p) (cp_trustedProxies p) cfg = Inr user \<longleftrightarrow> vouched_by_proxy env p user"
  unfolding authorizeTrustedProxy_def vouched_by_proxy_def blank_header_def Let_def
  by (cases "cp_req p"; cases "remoteAddress (the (cp_req p))")
    (auto simp: find_None_iff split: option.splits if_splits dest!: find_SomeD)

lemma authorizeByProxy_ok:
  "gr_ok (fst (authorizeByProxy env now p m)) \<longleftrightarrow>
     (\<exists>user. vouched_by_proxy env p user) \<and> origin_fits env p \<or>
     (\<not> (\<exists>user. vouched_by_proxy env p user)) \<and> ga_trustedProxy (cp_auth p) \<noteq> None \<and> coalesce (cp_trustedProxies p) [] \<noteq> [] \<and>
       localDirect env p \<and> right_password p \<and> within_limit env now p m"
proof (cases "ga_trustedProxy (cp_auth p)")
  case None
  then show ?thesis by (simp add: authorizeByProxy_def vouched_by_proxy_def)
next
  case (Some cfg)
  note vouched = authorizeTrustedProxy_user [OF Some, of env]
  show ?thesis
  proof (cases "coalesce (cp_trustedProxies p) [] = []")
    case True
    then have "\<not> vouched_by_proxy env p u" for u
      using trusted_needs_proxies [of "gw_lib env" _ "cp_trustedProxies p"] by (auto simp: vouched_by_proxy_def)
    then show ?thesis using True Some by (simp add: authorizeByProxy_def)
  next
    case False
    show ?thesis
    proof (cases "authorizeTrustedProxy (gw_lib env) (cp_req p) (cp_trustedProxies p) cfg")
      case (Inr user)
      then have "vouched_by_proxy env p user" using vouched by simp
      moreover have "authorizeTrustedProxyBrowserOrigin env s pol = Some r \<Longrightarrow> \<not> gr_ok r" for s pol r
        by (auto simp: authorizeTrustedProxyBrowserOrigin_def Let_def split: if_splits sum.splits)
      ultimately show ?thesis using Inr Some False
        by (auto simp: authorizeByProxy_def origin_fits_def split: option.splits)
    next
      case (Inl why)
      then have none: "\<not> vouched_by_proxy env p u" for u using vouched [of u] by simp
      have pw: "right_password p \<Longrightarrow> truthy_string (ga_password (cp_auth p)) \<and> truthy_string (given_password p)"
        by (auto simp: right_password_def)
      show ?thesis using Inl Some False none pw
        by (auto simp: authorizeByProxy_def within_limit_def authorizePasswordAuth_ok
            split: prod.splits option.splits dest: limiterCheck_refuses)
    qed
  qed
qed

lemma tailscaleQuestion_Inr:
  "tailscaleQuestion lib r = Inr (ip, user) \<longleftrightarrow>
     getTailscaleUser r = Some user \<and> isTailscaleProxyRequest lib r \<and> resolveTailscaleClientIp lib r = Some ip \<and> ip \<noteq> []"
  by (auto simp: tailscaleQuestion_def split: option.splits if_splits)

lemma verifyTailscaleUser_Inr:
  "(\<exists>v. verifyTailscaleUser answer user = Inr v) \<longleftrightarrow>
     (\<exists>w. answer = Some w \<and> whois_login w \<noteq> [] \<and> normalizeLogin (whois_login w) = normalizeLogin (ts_login user))"
  by (auto simp: verifyTailscaleUser_def split: option.splits if_splits)

lemma authCoreFinish_ok:
  "gr_ok (fst (authCoreFinish env now p user answer m)) \<longleftrightarrow>
     (\<exists>v. verifyTailscaleUser answer user = Inr v) \<or> gr_ok (fst (authCoreRest env now p m))"
  by (auto simp: authCoreFinish_def split: sum.splits)

text \<open>C17: Who gets in. Without authentication, everyone. With a token or a password, whoever shows it, or, on the control page
  with tailscale allowed and no secret offered, whoever the tailscale daemon knows under the name in the headers; either only
  while the address is within the limit of failures. With a trusted proxy, whoever it names, from an origin that fits, or, on
  the machine itself when the proxy names nobody, whoever shows the password.\<close>

theorem signed_in_iff:
  "gr_ok (fst (authorizeGatewayConnectCore env whois wait now p m)) \<longleftrightarrow>
     (case ga_mode (cp_auth p) of
        ModeNone \<Rightarrow> True
      | ModeToken \<Rightarrow> within_limit env now p m \<and> (right_token p \<or> vouched_by_tailscale env whois p)
      | ModePassword \<Rightarrow> within_limit env now p m \<and> (right_password p \<or> vouched_by_tailscale env whois p)
      | ModeTrustedProxy \<Rightarrow>
          (\<exists>user. vouched_by_proxy env p user) \<and> origin_fits env p \<or>
          (\<nexists>user. vouched_by_proxy env p user) \<and> ga_trustedProxy (cp_auth p) \<noteq> None \<and>
            coalesce (cp_trustedProxies p) [] \<noteq> [] \<and> localDirect env p \<and> right_password p \<and> within_limit env now p m)"
proof (cases "ga_mode (cp_auth p) = ModeNone \<or> ga_mode (cp_auth p) = ModeTrustedProxy")
  case True
  then show ?thesis
    using authorizeByProxy_ok [of env now p m]
    by (auto simp: authorizeGatewayConnectCore_def authCoreStart_def split: prod.splits)
next
  case False
  then have mode: "ga_mode (cp_auth p) = ModeToken \<or> ga_mode (cp_auth p) = ModePassword"
    by (cases "ga_mode (cp_auth p)") auto
  obtain lim m1 where lim: "limiterCheck env now p m = (lim, m1)" by fastforce
  show ?thesis
  proof (cases lim)
    case (Some r)
    then have "fst (authorizeGatewayConnectCore env whois wait now p m) = r" using lim False
      by (simp add: authorizeGatewayConnectCore_def authCoreStart_def)
    then show ?thesis using mode limiterCheck_refuses lim Some by (auto simp: within_limit_def)
  next
    case None
    have asks: "vouched_by_tailscale env whois p \<longleftrightarrow> asksTailscale env p \<and>
        (\<exists>ip user. tailscaleQuestion (gw_lib env) (cp_req p) = Inr (ip, user) \<and> (\<exists>v. verifyTailscaleUser (whois ip) user = Inr v))"
      unfolding verifyTailscaleUser_Inr tailscaleQuestion_Inr
      by (auto simp: vouched_by_tailscale_def asksTailscale_def shouldAllowTailscaleHeaderAuth_def)
    have "gr_ok (fst (authorizeGatewayConnectCore env whois wait now p m)) \<longleftrightarrow>
        gr_ok (fst (authCoreRest env now p m1)) \<or> vouched_by_tailscale env whois p"
      using lim None False unfolding asks authCoreRest_ok
      by (cases "tailscaleQuestion (gw_lib env) (cp_req p)")
        (auto simp: authorizeGatewayConnectCore_def authCoreStart_def authCoreFinish_ok authCoreRest_ok case_prod_beta)
    then show ?thesis using mode lim None by (auto simp: authCoreRest_ok within_limit_def)
  qed
qed

subsection \<open>Guessing ends in a lock\<close>

definition with_token :: "string \<Rightarrow> connect_params \<Rightarrow> connect_params" where
  "with_token g p = p\<lparr>cp_connectAuth := Some \<lparr>ca_token = Some g, ca_password = None\<rparr>\<rparr>"

definition try_token :: "gw_env \<Rightarrow> (string \<Rightarrow> whois_identity option) \<Rightarrow> connect_params \<Rightarrow> int \<times> string \<Rightarrow> rl_map \<Rightarrow> rl_map" where
  "try_token env whois p tg m = snd (authorizeGatewayConnectCore env whois 0 (fst tg) (with_token (snd tg) p) m)"

definition rate_record :: "gw_env \<Rightarrow> limiter \<Rightarrow> int \<Rightarrow> connect_params \<Rightarrow> rl_map \<Rightarrow> rl_map" where
  "rate_record env cfg now p m = recordFailure (gateway_net_env (gw_lib env)) cfg now (clientIpFor env p) (Some (limitScope p)) m"

lemma with_token_simps [simp]:
  "clientIpFor env (with_token g p) = clientIpFor env p" "limitScope (with_token g p) = limitScope p"
  "cp_limiter (with_token g p) = cp_limiter p" "cp_auth (with_token g p) = cp_auth p"
  "limitKey env (with_token g p) = limitKey env p" "given_token (with_token g p) = Some g"
  by (simp_all add: with_token_def clientIpFor_def limitScope_def limitKey_def given_token_def)

lemma with_token_explicit: "js_trim g \<noteq> [] \<Longrightarrow> \<not> asksTailscale env (with_token g p)"
  by (simp add: asksTailscale_def hasExplicitSharedSecretAuth_def with_token_def normalizeOptionalString_def
      normalizeNullableString_def Let_def)

lemma limiterCheck_cases:
  assumes "cp_limiter p = Some cfg" and "limitKey env p = (key, addr)" and "\<not> isExempt (gateway_net_env (gw_lib env)) cfg addr"
  shows "map_of m key = None \<Longrightarrow> limiterCheck env now p m = (None, m)"
    and "map_of m key = Some e \<Longrightarrow> isLocked e now \<Longrightarrow> limiterCheck env now p m = (Some (rate_limited (the (lockedUntil e) - now)), m)"
    and "map_of m key = Some e \<Longrightarrow> lockedUntil e = None \<Longrightarrow> slideWindow cfg now e = e \<Longrightarrow> int (length (attempts e)) < maxAttempts cfg \<Longrightarrow>
         limiterCheck env now p m = (None, AList.update key e m)"
  using assms by (simp_all add: limiterCheck_def limitKey_def check_def isLocked_def lockExpired_def Let_def)

lemma wrong_token:
  assumes "cp_limiter p = Some cfg" and "ga_mode (cp_auth p) = ModeToken" and "ga_token (cp_auth p) = Some secret" and "secret \<noteq> []"
    and "js_trim g \<noteq> []" and "g \<noteq> secret" and "limiterCheck env now (with_token g p) m = (None, m')"
  shows "authorizeGatewayConnectCore env whois wait now (with_token g p) m = (refused ''token_mismatch'', rate_record env cfg now p m')"
proof -
  have "g \<noteq> []" using assms(5) by auto
  then show ?thesis
    using assms with_token_explicit [OF assms(5), of env p]
    by (simp add: authorizeGatewayConnectCore_def authCoreStart_def authCoreRest_def authorizeTokenAuth_def limiterFailure_def
        rate_record_def safeEqualSecret_iff)
qed

lemma guesses_recorded:
  assumes p: "cp_limiter p = Some cfg" "ga_mode (cp_auth p) = ModeToken" "ga_token (cp_auth p) = Some secret" "secret \<noteq> []"
    and key: "limitKey env p = (key, addr)" "\<not> isExempt (gateway_net_env (gw_lib env)) cfg addr"
    and fresh: "map_of m key = None"
  shows "\<lbrakk>gs \<noteq> []; int (length gs) \<le> maxAttempts cfg; sorted (map fst gs); fst (last gs) - windowMs cfg < fst (hd gs);
      \<forall>g \<in> snd ` set gs. js_trim g \<noteq> [] \<and> g \<noteq> secret\<rbrakk> \<Longrightarrow>
    map_of (fold (try_token env whois p) gs m) key =
      Some \<lparr>attempts = map fst gs,
            lockedUntil = (if int (length gs) = maxAttempts cfg then Some (fst (last gs) + lockoutMs cfg) else None)\<rparr>"
proof (induction gs rule: rev_induct)
  case (snoc tg gs)
  obtain t g where tg: "tg = (t, g)" by fastforce
  let ?m = "fold (try_token env whois p) gs m"
  let ?e = "\<lparr>attempts = map fst gs, lockedUntil = None\<rparr>"
  have in_window: "filter (\<lambda>x. t - windowMs cfg < x) (map fst gs) = map fst gs"
    using snoc.prems tg by (cases gs) (auto simp: sorted_append filter_id_conv)
  have entry: "if gs = [] then map_of ?m key = None else map_of ?m key = Some ?e"
  proof (cases "gs = []")
    case False
    then have "fst (last gs) \<le> t" using snoc.prems tg by (simp add: sorted_append)
    then have "fst (last gs) - windowMs cfg < fst (hd gs)" using snoc.prems tg False by simp
    then show ?thesis using snoc.IH snoc.prems False tg by (auto simp: sorted_append)
  qed (simp add: fresh)
  note chk = limiterCheck_cases [of "with_token g p" cfg env key addr, simplified, OF p(1) key]
  obtain m1 where m1: "limiterCheck env t (with_token g p) ?m = (None, m1)" and e1: "coalesce (map_of m1 key) \<lparr>attempts = [], lockedUntil = None\<rparr> = ?e"
  proof (cases "gs = []")
    case True
    then show ?thesis using that chk(1) [of ?m t] entry by simp
  next
    case False
    then have "limiterCheck env t (with_token g p) ?m = (None, AList.update key ?e ?m)"
      using chk(3) [of ?m ?e t] entry snoc.prems in_window tg by (simp add: slideWindow_def)
    then show ?thesis using that by (simp add: store_law)
  qed
  have "js_trim g \<noteq> []" "g \<noteq> secret" using snoc.prems tg by auto
  then have "fold (try_token env whois p) (gs @ [tg]) m = rate_record env cfg t p m1"
    using wrong_token [OF p, of g env t ?m m1] m1 tg by (simp add: try_token_def)
  moreover have "map_of (rate_record env cfg t p m1) key =
      Some \<lparr>attempts = map fst gs @ [t],
            lockedUntil = (if maxAttempts cfg \<le> int (length (map fst gs @ [t])) then Some (t + lockoutMs cfg) else None)\<rparr>"
    unfolding rate_record_def
    using recordFailure_unlocked [OF key(1) [unfolded limitKey_def] key(2) e1, of t "map fst gs"] in_window
    by (simp add: isLocked_def slideWindow_def)
  ultimately show ?case using snoc.prems tg by (auto split: if_splits)
qed simp

text \<open>C19: Guessing the token ends in a lock. After as many wrong tokens from one address within the window as the settings
  allow, the right token is refused too, on either surface, until the lock expires.\<close>

theorem guessing_locks_out:
  assumes p: "cp_limiter p = Some cfg" "ga_mode (cp_auth p) = ModeToken" "ga_token (cp_auth p) = Some secret" "secret \<noteq> []"
    and key: "limitKey env p = (key, addr)" "\<not> isExempt (gateway_net_env (gw_lib env)) cfg addr" "map_of m key = None"
    and gs: "gs \<noteq> []" "int (length gs) = maxAttempts cfg" "sorted (map fst gs)" "fst (last gs) - windowMs cfg < fst (hd gs)"
      "\<forall>g \<in> snd ` set gs. js_trim g \<noteq> [] \<and> g \<noteq> secret"
    and now: "0 \<le> now" "now < fst (last gs) + lockoutMs cfg"
  shows "fst (authorizeGatewayConnectCore env whois wait now (with_token secret p) (fold (try_token env whois p) gs m)) =
     rate_limited (fst (last gs) + lockoutMs cfg - now)"
proof -
  have "map_of (fold (try_token env whois p) gs m) key =
      Some \<lparr>attempts = map fst gs, lockedUntil = Some (fst (last gs) + lockoutMs cfg)\<rparr>"
    using guesses_recorded [OF p key gs(1) _ gs(3-5)] gs(2) by simp
  then have "limiterCheck env now (with_token secret p) (fold (try_token env whois p) gs m) =
      (Some (rate_limited (fst (last gs) + lockoutMs cfg - now)), fold (try_token env whois p) gs m)"
    using limiterCheck_cases(2) [of "with_token secret p" cfg env key addr] p(1) key now by (simp add: isLocked_def)
  then show ?thesis using p(2) by (simp add: authorizeGatewayConnectCore_def authCoreStart_def)
qed

definition example_gateway :: gw_env where
  "example_gateway = \<lparr>gw_lib = tiny_lib, gw_url = (\<lambda>_. None)\<rparr>"

definition token_login :: connect_params where
  "token_login =
     \<lparr>cp_auth = \<lparr>ga_mode = ModeToken, ga_token = Some ''secret'', ga_password = None, ga_allowTailscale = False, ga_trustedProxy = None\<rparr>,
      cp_connectAuth = None, cp_req = Some \<lparr>remoteAddress = Some ''203.0.113.7'', headers = []\<rparr>, cp_trustedProxies = None,
      cp_surface = None,
      cp_limiter = Some \<lparr>maxAttempts = 2, windowMs = 60000, lockoutMs = 300000, exemptLoopback = True, pruneIntervalMs = 60000\<rparr>,
      cp_clientIp = None, cp_scope = None, cp_allowRealIp = None, cp_originPolicy = None\<rparr>"

lemma token_login_key: "limitKey example_gateway token_login = (''shared-secret:203.0.113.7'', ''203.0.113.7'')"
  by code_simp

lemma example_address_counts: "\<not> isExempt (gateway_net_env (gw_lib example_gateway)) cfg ''203.0.113.7''"
proof -
  have "\<not> net_isLoopbackAddress tiny_lib (Some ''203.0.113.7'')" by code_simp
  then show ?thesis by (simp add: isExempt_def gateway_net_env_def example_gateway_def)
qed

theorem guessing_locks_out_witness:
  "fst (authorizeGatewayConnectCore example_gateway (\<lambda>_. None) 0 5000 (with_token ''secret'' token_login)
      (fold (try_token example_gateway (\<lambda>_. None) token_login) [(1000, ''a''), (2000, ''b'')] [])) = rate_limited 297000"
proof -
  have "js_trim ''a'' \<noteq> []" "js_trim ''b'' \<noteq> []" by code_simp+
  then show ?thesis
    using guessing_locks_out [of token_login "the (cp_limiter token_login)" "''secret''" example_gateway, OF _ _ _ _ token_login_key
        example_address_counts, of "[]" "[(1000, ''a''), (2000, ''b'')]" 5000 "\<lambda>_. None" 0]
    by (simp add: token_login_def)
qed

end
