(* ===== verification/AuthSerial.thy ===== *)
theory AuthSerial
  imports GatewaySafety
begin

text \<open>
  Attempts of one address in turn, \<^verbatim>\<open>packages/core/src/gateway/rate-limit-attempt-serialization.ts\<close> around
  \<^verbatim>\<open>authorizeGatewayConnectCore\<close>. An attempt is a number; its \<^verbatim>\<open>tail\<close> promise is settled when the attempt is finished, since
  it runs only after the promise it found in the map. Arrival, the start of a run, the answer of the tailscale daemon and every
  other use of the limiter are events of their own, each some milliseconds after the one before, in any order.
\<close>

subsection \<open>State and events\<close>

datatype attempt_stage = Waiting | Asking string tailscale_user | Finished gateway_auth_result

record attempt =
  at_params :: connect_params
  at_key :: string
  at_prev :: "nat option"
  at_stage :: attempt_stage

record serial_state =
  ss_clock :: int
  ss_limits :: rl_map
  ss_pending :: "(string, nat) js_map"
  ss_attempts :: "attempt list"

definition serial_init :: serial_state where
  "serial_init = \<lparr>ss_clock = 0, ss_limits = [], ss_pending = [], ss_attempts = []\<rparr>"

definition buildSerializationKey :: "net_env \<Rightarrow> string option \<Rightarrow> string option \<Rightarrow> string" where
  "buildSerializationKey env ip scope = normalizeScope scope @ '':'' @ normalizeRateLimitClientIp env ip"

definition attemptKey :: "gw_env \<Rightarrow> connect_params \<Rightarrow> string" where
  "attemptKey env p = buildSerializationKey (gateway_net_env (gw_lib env)) (clientIpFor env p) (Some (limitScope p))"

definition finished :: "attempt \<Rightarrow> bool" where
  "finished a = (case at_stage a of Finished _ \<Rightarrow> True | _ \<Rightarrow> False)"

definition put_stage :: "nat \<Rightarrow> attempt_stage \<Rightarrow> attempt list \<Rightarrow> attempt list" where
  "put_stage i st as = as[i := (as ! i)\<lparr>at_stage := st\<rparr>]"

text \<open>The \<^verbatim>\<open>finally\<close> block: the map forgets the key when nobody came after.\<close>

definition release :: "nat \<Rightarrow> gateway_auth_result \<Rightarrow> serial_state \<Rightarrow> serial_state" where
  "release i r s =
     (let k = at_key (ss_attempts s ! i)
      in s\<lparr>ss_attempts := put_stage i (Finished r) (ss_attempts s),
           ss_pending := (if map_of (ss_pending s) k = Some i then AList.delete k (ss_pending s) else ss_pending s)\<rparr>)"

definition arriveAttempt :: "gw_env \<Rightarrow> connect_params \<Rightarrow> serial_state \<Rightarrow> serial_state" where
  "arriveAttempt env p s =
     (let k = attemptKey env p; i = length (ss_attempts s)
      in s\<lparr>ss_attempts := ss_attempts s @ [\<lparr>at_params = p, at_key = k, at_prev = map_of (ss_pending s) k, at_stage = Waiting\<rparr>],
           ss_pending := AList.update k i (ss_pending s)\<rparr>)"

definition previousSettled :: "nat \<Rightarrow> serial_state \<Rightarrow> bool" where
  "previousSettled i s =
     (case at_prev (ss_attempts s ! i) of None \<Rightarrow> True | Some j \<Rightarrow> finished (ss_attempts s ! j))"

definition startAttempt :: "gw_env \<Rightarrow> nat \<Rightarrow> serial_state \<Rightarrow> serial_state" where
  "startAttempt env i s =
     (if i < length (ss_attempts s) \<and> at_stage (ss_attempts s ! i) = Waiting \<and> previousSettled i s
      then (case authCoreStart env (ss_clock s) (at_params (ss_attempts s ! i)) (ss_limits s) of
              (Inl r, m) \<Rightarrow> release i r (s\<lparr>ss_limits := m\<rparr>)
            | (Inr (ip, user), m) \<Rightarrow> s\<lparr>ss_limits := m, ss_attempts := put_stage i (Asking ip user) (ss_attempts s)\<rparr>)
      else s)"

definition answerAttempt :: "gw_env \<Rightarrow> nat \<Rightarrow> whois_identity option \<Rightarrow> serial_state \<Rightarrow> serial_state" where
  "answerAttempt env i answer s =
     (if i < length (ss_attempts s)
      then (case at_stage (ss_attempts s ! i) of
              Asking ip user \<Rightarrow>
                (case authCoreFinish env (ss_clock s) (at_params (ss_attempts s ! i)) user answer (ss_limits s) of
                   (r, m) \<Rightarrow> release i r (s\<lparr>ss_limits := m\<rparr>))
            | _ \<Rightarrow> s)
      else s)"

text \<open>An attempt arrives: it is queued when its kind is, else it runs at once, and only what it does to the limiter is
  seen here. Every other use of the limiter, by the endpoints of the gateway's web server among others, is a call of it.\<close>

datatype serial_event =
    Arrive connect_params
  | Start nat
  | Answer nat "whois_identity option"
  | OtherCall limiter rl_call

fun serial_step :: "gw_env \<Rightarrow> nat \<times> serial_event \<Rightarrow> serial_state \<Rightarrow> serial_state" where
  "serial_step env (dt, ev) s =
     (let s' = s\<lparr>ss_clock := ss_clock s + int dt\<rparr>
      in case ev of
           Arrive p \<Rightarrow>
             if serializesAttempt env p then arriveAttempt env p s'
             else s'\<lparr>ss_limits := snd (authCoreStart env (ss_clock s') p (ss_limits s'))\<rparr>
         | Start i \<Rightarrow> startAttempt env i s'
         | Answer i answer \<Rightarrow> answerAttempt env i answer s'
         | OtherCall cfg c \<Rightarrow>
             s'\<lparr>ss_limits := snd (rl_step (gateway_net_env (gw_lib env)) cfg (0, c) (ss_clock s', ss_limits s'))\<rparr>)"

lemma attemptKey_limit: "attemptKey env p = fst (limitKey env p)"
  by (simp add: attemptKey_def buildSerializationKey_def limitKey_def resolveKey_def Let_def)

subsection \<open>The order of attempts\<close>

text \<open>The chain of promises, who runs, and what the map holds.\<close>

definition chain_ok :: "attempt list \<Rightarrow> bool" where
  "chain_ok as \<longleftrightarrow>
     (\<forall>i < length as. case at_prev (as ! i) of
        None \<Rightarrow> \<forall>j < i. at_key (as ! j) = at_key (as ! i) \<longrightarrow> finished (as ! j)
      | Some j \<Rightarrow> j < i \<and> at_key (as ! j) = at_key (as ! i) \<and> (\<forall>l. j < l \<and> l < i \<longrightarrow> at_key (as ! l) \<noteq> at_key (as ! i)))"

definition turn_ok :: "attempt list \<Rightarrow> bool" where
  "turn_ok as \<longleftrightarrow>
     (\<forall>i < length as. at_stage (as ! i) \<noteq> Waiting \<longrightarrow> (\<forall>j < i. at_key (as ! j) = at_key (as ! i) \<longrightarrow> finished (as ! j)))"

definition slot_ok :: "attempt list \<Rightarrow> string \<Rightarrow> nat option \<Rightarrow> bool" where
  "slot_ok as k last_one \<longleftrightarrow>
     (case last_one of
        None \<Rightarrow> \<forall>i < length as. at_key (as ! i) = k \<longrightarrow> finished (as ! i)
      | Some i \<Rightarrow> i < length as \<and> at_key (as ! i) = k \<and> \<not> finished (as ! i) \<and>
                  (\<forall>j < length as. at_key (as ! j) = k \<longrightarrow> j \<le> i))"

definition pending_ok :: "(string, nat) js_map \<Rightarrow> attempt list \<Rightarrow> bool" where
  "pending_ok pend as \<longleftrightarrow> map_ok pend \<and> (\<forall>k. slot_ok as k (map_of pend k))"

lemma nth_put_stage: "j < length as \<Longrightarrow> put_stage i st as ! j = (if j = i then (as ! i)\<lparr>at_stage := st\<rparr> else as ! j)"
  by (cases "i < length as") (auto simp: put_stage_def nth_list_update)

lemma put_stage_simps [simp]:
  "length (put_stage i st as) = length as"
  "j < length as \<Longrightarrow> at_key (put_stage i st as ! j) = at_key (as ! j)"
  "j < length as \<Longrightarrow> at_prev (put_stage i st as ! j) = at_prev (as ! j)"
  "j < length as \<Longrightarrow> at_params (put_stage i st as ! j) = at_params (as ! j)"
  "j < length as \<Longrightarrow> at_stage (put_stage i st as ! j) = (if j = i then st else at_stage (as ! j))"
  by (auto simp: nth_put_stage) (simp add: put_stage_def)

lemma finished_put: "j < length as \<Longrightarrow>
    finished (put_stage i st as ! j) \<longleftrightarrow> (if j = i then \<exists>r. st = Finished r else finished (as ! j))"
  by (auto simp: finished_def split: attempt_stage.splits)

lemma finished_not_waiting: "finished a \<Longrightarrow> at_stage a \<noteq> Waiting"
  by (auto simp: finished_def)

text \<open>An attempt that may start has everybody before it finished.\<close>

lemma settled_all_before:
  assumes "chain_ok as" and "turn_ok as" and "i < length as"
    and "case at_prev (as ! i) of None \<Rightarrow> True | Some j \<Rightarrow> finished (as ! j)"
    and "j < i" and "at_key (as ! j) = at_key (as ! i)"
  shows "finished (as ! j)"
proof (cases "at_prev (as ! i)")
  case None
  then show ?thesis using assms by (auto simp: chain_ok_def split: option.splits)
next
  case (Some l)
  then have l: "l < i" "at_key (as ! l) = at_key (as ! i)" "\<forall>x. l < x \<and> x < i \<longrightarrow> at_key (as ! x) \<noteq> at_key (as ! i)" "finished (as ! l)"
    using assms(1,3,4) by (auto simp: chain_ok_def dest!: spec [of _ i])
  have "j \<le> l" using l(3) assms(5,6) by (metis linorder_not_less)
  moreover have "at_stage (as ! l) \<noteq> Waiting" using l(4) by (rule finished_not_waiting)
  moreover have "l < length as" using l(1) assms(3) by simp
  ultimately show ?thesis
    using l(2,4) assms(2,6) by (cases "j = l") (simp_all add: turn_ok_def)
qed

text \<open>Moving an attempt on.\<close>

lemma chain_put:
  assumes "chain_ok as" and "\<not> finished (as ! i)"
  shows "chain_ok (put_stage i st as)"
proof -
  have mono: "finished (put_stage i st as ! j)" if "j < length as" "finished (as ! j)" for j
    using that assms(2) by (auto simp: finished_put)
  show ?thesis using assms(1) unfolding chain_ok_def
    by (auto split: option.splits simp: mono)
qed

lemma turn_put:
  assumes "turn_ok as" and "i < length as" and "\<not> finished (as ! i)"
    and "\<forall>j < i. at_key (as ! j) = at_key (as ! i) \<longrightarrow> finished (as ! j)"
  shows "turn_ok (put_stage i st as)"
proof -
  have mono: "finished (put_stage i st as ! j)" if "j < length as" "finished (as ! j)" for j
    using that assms(3) by (auto simp: finished_put)
  show ?thesis using assms unfolding turn_ok_def by (auto simp: mono split: if_splits)
qed

lemma slot_put:
  assumes "\<And>j. j < length as \<Longrightarrow> at_key (as ! j) = k \<Longrightarrow> finished (put_stage i st as ! j) = finished (as ! j)"
  shows "slot_ok (put_stage i st as) k o' = slot_ok as k o'"
  using assms by (cases o') (auto simp: slot_ok_def)

lemma pending_put:
  assumes "pending_ok pend as" and "\<not> finished (as ! i)" and "\<And>r. st \<noteq> Finished r"
  shows "pending_ok pend (put_stage i st as)"
proof -
  have "finished (put_stage i st as ! j) = finished (as ! j)" if "j < length as" for j
    using that assms by (auto simp: finished_put)
  then show ?thesis using assms(1) by (simp add: pending_ok_def slot_put)
qed

lemma pending_release:
  assumes pend: "pending_ok pend as" and i: "i < length as" "\<not> finished (as ! i)"
    and before: "\<forall>j < i. at_key (as ! j) = at_key (as ! i) \<longrightarrow> finished (as ! j)"
  defines "k \<equiv> at_key (as ! i)"
  shows "pending_ok (if map_of pend k = Some i then AList.delete k pend else pend) (put_stage i (Finished r) as)"
proof -
  let ?as = "put_stage i (Finished r) as" and ?pend = "if map_of pend k = Some i then AList.delete k pend else pend"
  have done_iff: "finished (?as ! j) \<longleftrightarrow> j = i \<or> finished (as ! j)" if "j < length as" for j
    using that by (auto simp: finished_put)
  have ok: "map_ok pend" and slots: "\<And>k'. slot_ok as k' (map_of pend k')" using pend by (auto simp: pending_ok_def)
  have "slot_ok ?as k' (map_of ?pend k')" for k'
  proof (cases "k' = k")
    case False
    have "slot_ok ?as k' (map_of pend k')"
      using slot_put [of as k' i "Finished r"] slots [of k'] False by (auto simp: done_iff k_def)
    then show ?thesis using False by (simp add: store_law)
  next
    case True
    obtain l where l: "map_of pend k = Some l" using slots [of k] i by (cases "map_of pend k") (auto simp: slot_ok_def k_def)
    have last_one: "l < length as" "at_key (as ! l) = k" "\<not> finished (as ! l)" "\<And>j. j < length as \<Longrightarrow> at_key (as ! j) = k \<Longrightarrow> j \<le> l"
      using slots [of k] l by (auto simp: slot_ok_def)
    show ?thesis
    proof (cases "l = i")
      case True
      then have "finished (?as ! j)" if "j < length as" "at_key (as ! j) = k" for j
        using that last_one(4) [OF that] before done_iff by (auto simp: k_def le_less)
      then show ?thesis using True l \<open>k' = k\<close> by (simp add: slot_ok_def store_law)
    next
      case False
      then show ?thesis using True l last_one done_iff by (simp add: slot_ok_def)
    qed
  qed
  then show ?thesis using ok by (simp add: pending_ok_def map_ok_delete)
qed

subsection \<open>The invariant\<close>

definition attempt_ok :: "gw_env \<Rightarrow> attempt \<Rightarrow> bool" where
  "attempt_ok env a \<longleftrightarrow> at_key a = attemptKey env (at_params a) \<and>
     (\<forall>ip user. at_stage a = Asking ip user \<longrightarrow> asksTailscale env (at_params a))"

definition serial_inv :: "gw_env \<Rightarrow> serial_state \<Rightarrow> bool" where
  "serial_inv env s \<longleftrightarrow> chain_ok (ss_attempts s) \<and> turn_ok (ss_attempts s) \<and> pending_ok (ss_pending s) (ss_attempts s) \<and>
     list_all (attempt_ok env) (ss_attempts s)"

lemma serial_inv_attempt: "serial_inv env s \<Longrightarrow> i < length (ss_attempts s) \<Longrightarrow> attempt_ok env (ss_attempts s ! i)"
  by (simp add: serial_inv_def list_all_length)

lemma serial_inv_frame [simp]:
  "serial_inv env (s\<lparr>ss_clock := t\<rparr>) = serial_inv env s" "serial_inv env (s\<lparr>ss_limits := m\<rparr>) = serial_inv env s"
  by (simp_all add: serial_inv_def)

lemma slot_append: "at_key a \<noteq> k \<Longrightarrow> slot_ok as k o' \<Longrightarrow> slot_ok (as @ [a]) k o'"
  by (auto simp: slot_ok_def nth_append less_Suc_eq split: option.splits)

lemma slot_new: "at_key a = k \<Longrightarrow> \<not> finished a \<Longrightarrow> slot_ok (as @ [a]) k (Some (length as))"
  by (auto simp: slot_ok_def nth_append less_Suc_eq)

lemma serial_inv_arrive:
  assumes inv: "serial_inv env s"
  shows "serial_inv env (arriveAttempt env p s)"
proof -
  let ?as = "ss_attempts s" and ?k = "attemptKey env p" and ?pend = "ss_pending s"
  let ?new = "\<lparr>at_params = p, at_key = ?k, at_prev = map_of ?pend ?k, at_stage = Waiting\<rparr>"
  have slots: "\<And>k. slot_ok ?as k (map_of ?pend k)" and ok: "map_ok ?pend"
    and chain: "chain_ok ?as" and turn: "turn_ok ?as" using inv by (auto simp: serial_inv_def pending_ok_def)
  have "case map_of ?pend ?k of
        None \<Rightarrow> \<forall>j < length ?as. at_key (?as ! j) = ?k \<longrightarrow> finished (?as ! j)
      | Some j \<Rightarrow> j < length ?as \<and> at_key (?as ! j) = ?k \<and> (\<forall>l. j < l \<and> l < length ?as \<longrightarrow> at_key (?as ! l) \<noteq> ?k)"
    using slots [of ?k] by (auto simp: slot_ok_def split: option.splits)
  then have "chain_ok (?as @ [?new])"
    using chain unfolding chain_ok_def by (auto simp: nth_append less_Suc_eq split: option.splits)
  moreover have "turn_ok (?as @ [?new])"
    using turn by (auto simp: turn_ok_def nth_append less_Suc_eq)
  moreover have "slot_ok (?as @ [?new]) k (map_of (AList.update ?k (length ?as) ?pend) k)" for k
    using slot_new [of ?new ?k ?as] slot_append [of ?new k ?as "map_of ?pend k"] slots [of k]
    by (cases "k = ?k") (simp_all add: store_law finished_def)
  ultimately show ?thesis
    using inv ok unfolding serial_inv_def arriveAttempt_def Let_def
    by (simp add: pending_ok_def map_ok_update attempt_ok_def)
qed

text \<open>One attempt moves on.\<close>

lemma serial_inv_moved:
  assumes inv: "serial_inv env s" and i: "i < length (ss_attempts s)" "\<not> finished (ss_attempts s ! i)"
    and before: "\<forall>j < i. at_key (ss_attempts s ! j) = at_key (ss_attempts s ! i) \<longrightarrow> finished (ss_attempts s ! j)"
    and asks: "\<And>ip user. st = Asking ip user \<Longrightarrow> asksTailscale env (at_params (ss_attempts s ! i))"
    and pend: "pending_ok pend (put_stage i st (ss_attempts s))"
  shows "serial_inv env (s\<lparr>ss_limits := m, ss_pending := pend, ss_attempts := put_stage i st (ss_attempts s)\<rparr>)"
proof -
  let ?as = "ss_attempts s"
  have "attempt_ok env (put_stage i st ?as ! j)" if "j < length ?as" for j
    using serial_inv_attempt [OF inv that] asks i that by (auto simp: attempt_ok_def nth_put_stage)
  then show ?thesis
    using inv chain_put [OF _ i(2)] turn_put [OF _ i before] pend by (simp add: serial_inv_def list_all_length)
qed

lemma serial_inv_release:
  assumes inv: "serial_inv env s" and i: "i < length (ss_attempts s)" "\<not> finished (ss_attempts s ! i)"
    and before: "\<forall>j < i. at_key (ss_attempts s ! j) = at_key (ss_attempts s ! i) \<longrightarrow> finished (ss_attempts s ! j)"
  shows "serial_inv env (release i r (s\<lparr>ss_limits := m\<rparr>))"
proof -
  have pend: "pending_ok (ss_pending s) (ss_attempts s)" using inv by (simp add: serial_inv_def)
  have "release i r (s\<lparr>ss_limits := m\<rparr>) = s\<lparr>ss_limits := m,
      ss_pending := (if map_of (ss_pending s) (at_key (ss_attempts s ! i)) = Some i
                     then AList.delete (at_key (ss_attempts s ! i)) (ss_pending s) else ss_pending s),
      ss_attempts := put_stage i (Finished r) (ss_attempts s)\<rparr>"
    by (simp add: release_def Let_def)
  then show ?thesis using serial_inv_moved [OF inv i before _ pending_release [OF pend i before, of r]] by simp
qed

lemma start_asks: "authCoreStart env now p m = (Inr q, m') \<Longrightarrow> asksTailscale env p"
  by (cases "asksTailscale env p"; cases "limiterCheck env now p m"; cases "fst (limiterCheck env now p m)")
    (auto simp: authCoreStart_def case_prod_beta split: if_splits)

lemma serial_inv_start:
  assumes inv: "serial_inv env s"
  shows "serial_inv env (startAttempt env i s)"
proof (cases "i < length (ss_attempts s) \<and> at_stage (ss_attempts s ! i) = Waiting \<and> previousSettled i s")
  case True
  let ?p = "at_params (ss_attempts s ! i)"
  have chain: "chain_ok (ss_attempts s)" and turn: "turn_ok (ss_attempts s)" and pend: "pending_ok (ss_pending s) (ss_attempts s)"
    using inv by (auto simp: serial_inv_def)
  have i: "i < length (ss_attempts s)" "\<not> finished (ss_attempts s ! i)" using True by (auto simp: finished_def)
  have before: "\<forall>j < i. at_key (ss_attempts s ! j) = at_key (ss_attempts s ! i) \<longrightarrow> finished (ss_attempts s ! j)"
    using settled_all_before [OF chain turn i(1)] True by (auto simp: previousSettled_def split: option.splits)
  obtain x m where start: "authCoreStart env (ss_clock s) ?p (ss_limits s) = (x, m)" by fastforce
  show ?thesis
  proof (cases x)
    case (Inl r)
    show ?thesis using serial_inv_release [OF inv i before] True start Inl by (simp add: startAttempt_def)
  next
    case (Inr q)
    obtain ip user where q: "q = (ip, user)" by fastforce
    have "asksTailscale env ?p" using start_asks start Inr by blast
    then have "serial_inv env (s\<lparr>ss_limits := m, ss_pending := ss_pending s, ss_attempts := put_stage i (Asking ip user) (ss_attempts s)\<rparr>)"
      using pending_put [OF pend i(2), of "Asking ip user"] by (intro serial_inv_moved [OF inv i before]) simp_all
    moreover have "startAttempt env i s =
        s\<lparr>ss_limits := m, ss_pending := ss_pending s, ss_attempts := put_stage i (Asking ip user) (ss_attempts s)\<rparr>"
      using True start Inr q by (simp add: startAttempt_def)
    ultimately show ?thesis by simp
  qed
next
  case False
  then have "startAttempt env i s = s" unfolding startAttempt_def by (rule if_not_P)
  then show ?thesis using inv by simp
qed

lemma serial_inv_answer:
  assumes inv: "serial_inv env s"
  shows "serial_inv env (answerAttempt env i answer s)"
proof (cases "i < length (ss_attempts s) \<and> (\<exists>ip user. at_stage (ss_attempts s ! i) = Asking ip user)")
  case True
  then obtain ip user where st: "at_stage (ss_attempts s ! i) = Asking ip user" by blast
  let ?p = "at_params (ss_attempts s ! i)"
  have turn: "turn_ok (ss_attempts s)" using inv by (simp add: serial_inv_def)
  have i: "i < length (ss_attempts s)" "\<not> finished (ss_attempts s ! i)" using True by (auto simp: finished_def)
  have before: "\<forall>j < i. at_key (ss_attempts s ! j) = at_key (ss_attempts s ! i) \<longrightarrow> finished (ss_attempts s ! j)"
    using turn i(1) st by (simp add: turn_ok_def)
  obtain r m where fin: "authCoreFinish env (ss_clock s) ?p user answer (ss_limits s) = (r, m)" by fastforce
  show ?thesis using serial_inv_release [OF inv i before] i(1) st fin by (simp add: answerAttempt_def)
next
  case False
  then have "answerAttempt env i answer s = s" by (auto simp: answerAttempt_def split: attempt_stage.split)
  then show ?thesis using inv by simp
qed

lemma serial_inv_step: "serial_inv env s \<Longrightarrow> serial_inv env (serial_step env e s)"
proof (cases e)
  case (Pair dt ev)
  assume "serial_inv env s"
  then show ?thesis using Pair serial_inv_arrive serial_inv_start serial_inv_answer
    by (cases ev) (simp_all add: Let_def del: rl_step.simps)
qed

lemma serial_inv_init: "serial_inv env serial_init"
  by (simp add: serial_inv_def serial_init_def chain_ok_def turn_ok_def pending_ok_def slot_ok_def map_ok_def)

interpretation serial: guarded_system serial_init "serial_step env" "serial_inv env" for env
  by unfold_locales (rule serial_inv_init, rule serial_inv_step)

definition serial_run :: "gw_env \<Rightarrow> (nat \<times> serial_event) list \<Rightarrow> serial_state" where
  "serial_run env es = fold (serial_step env) es serial_init"

lemma serial_run_inv: "serial_inv env (serial_run env es)"
  unfolding serial_run_def by (rule serial.inv_reach)

subsection \<open>Everybody's turn comes\<close>

definition drain :: "(nat \<Rightarrow> whois_identity option) \<Rightarrow> nat \<Rightarrow> (nat \<times> serial_event) list" where
  "drain answers n = concat (map (\<lambda>i. [(0, Start i), (0, Answer i (answers i))]) [0..<n])"

lemma release_attempts: "ss_attempts (release i r s) = put_stage i (Finished r) (ss_attempts s)"
  by (simp add: release_def Let_def)

lemma startAttempt_effect:
  assumes "i < length (ss_attempts s)" and "at_stage (ss_attempts s ! i) = Waiting" and "previousSettled i s"
  shows "\<exists>st. st \<noteq> Waiting \<and> ss_attempts (startAttempt env i s) = put_stage i st (ss_attempts s)"
  using assms by (auto simp: startAttempt_def release_attempts split: prod.split sum.split)

lemma answerAttempt_effect:
  assumes "i < length (ss_attempts s)" and "at_stage (ss_attempts s ! i) \<noteq> Waiting"
  shows "ss_attempts (answerAttempt env i answer s) = ss_attempts s \<and> finished (ss_attempts s ! i) \<or>
    (\<exists>r. ss_attempts (answerAttempt env i answer s) = put_stage i (Finished r) (ss_attempts s))"
  using assms by (auto simp: answerAttempt_def finished_def release_attempts split: attempt_stage.split prod.split)

lemma start_moves:
  assumes inv: "serial_inv env s" and i: "i < length (ss_attempts s)" and before: "\<forall>j < i. finished (ss_attempts s ! j)"
  shows "length (ss_attempts (startAttempt env i s)) = length (ss_attempts s) \<and>
    at_stage (ss_attempts (startAttempt env i s) ! i) \<noteq> Waiting \<and> (\<forall>j < i. finished (ss_attempts (startAttempt env i s) ! j))"
proof (cases "at_stage (ss_attempts s ! i) = Waiting")
  case True
  have "chain_ok (ss_attempts s)" using inv by (simp add: serial_inv_def)
  then have "previousSettled i s"
    using i before by (auto simp: chain_ok_def previousSettled_def split: option.splits)
  then obtain st where "st \<noteq> Waiting" "ss_attempts (startAttempt env i s) = put_stage i st (ss_attempts s)"
    using startAttempt_effect i True by blast
  then show ?thesis using i before by (simp add: finished_put)
next
  case False
  then have "startAttempt env i s = s" by (simp add: startAttempt_def)
  then show ?thesis using False before by simp
qed

lemma answer_finishes:
  assumes "i < length (ss_attempts s)" and "at_stage (ss_attempts s ! i) \<noteq> Waiting" and "\<forall>j < i. finished (ss_attempts s ! j)"
  shows "length (ss_attempts (answerAttempt env i answer s)) = length (ss_attempts s) \<and>
    (\<forall>j < Suc i. finished (ss_attempts (answerAttempt env i answer s) ! j))"
  using answerAttempt_effect [OF assms(1,2), of env answer] assms by (auto simp: finished_put less_Suc_eq)

lemma drain_Suc: "fold (serial_step env) (drain answers (Suc i)) s =
    answerAttempt env i (answers i) (startAttempt env i (fold (serial_step env) (drain answers i) s))"
  by (simp add: drain_def)

lemma drain_finishes:
  assumes inv: "serial_inv env s"
  shows "n \<le> length (ss_attempts s) \<Longrightarrow>
    serial_inv env (fold (serial_step env) (drain answers n) s) \<and>
    length (ss_attempts (fold (serial_step env) (drain answers n) s)) = length (ss_attempts s) \<and>
    (\<forall>j < n. finished (ss_attempts (fold (serial_step env) (drain answers n) s) ! j))"
proof (induction n)
  case 0
  then show ?case using inv by (simp add: drain_def)
next
  case (Suc i)
  let ?s = "fold (serial_step env) (drain answers i) s"
  have s: "serial_inv env ?s" "length (ss_attempts ?s) = length (ss_attempts s)" "\<forall>j < i. finished (ss_attempts ?s ! j)"
    using Suc by auto
  then have i: "i < length (ss_attempts ?s)" using Suc.prems by simp
  have s1: "length (ss_attempts (startAttempt env i ?s)) = length (ss_attempts ?s)"
    "at_stage (ss_attempts (startAttempt env i ?s) ! i) \<noteq> Waiting" "\<forall>j < i. finished (ss_attempts (startAttempt env i ?s) ! j)"
    using start_moves [OF s(1) i s(3)] by auto
  show ?case unfolding drain_Suc
    using answer_finishes [OF _ s1(2,3), of env "answers i"] s1(1) i s(2) serial_inv_answer [OF serial_inv_start [OF s(1)]] by simp
qed

lemma all_finished_nothing_pending:
  assumes "serial_inv env s" and "\<forall>i < length (ss_attempts s). finished (ss_attempts s ! i)"
  shows "ss_pending s = []"
proof (cases "ss_pending s")
  case (Cons kv rest)
  have "slot_ok (ss_attempts s) (fst kv) (map_of (ss_pending s) (fst kv))"
    using assms(1) by (simp add: serial_inv_def pending_ok_def)
  moreover have "map_of (ss_pending s) (fst kv) = Some (snd kv)" using Cons by simp
  ultimately show ?thesis using assms(2) by (auto simp: slot_ok_def)
qed simp

subsection \<open>Attempts of one address\<close>

text \<open>C23: Attempts of one address run in the order in which they came, one at a time: when one has started, all before it with the
  same key are finished. The map holds a key exactly while an attempt with it is unfinished, and then the number of the last.
  This holds over any run, whatever else uses the limiter.\<close>

theorem attempts_in_turn:
  assumes "i < length (ss_attempts (serial_run env es))"
  shows "(at_stage (ss_attempts (serial_run env es) ! i) = Waiting \<or>
      list_all (\<lambda>j. at_key (ss_attempts (serial_run env es) ! j) \<noteq> at_key (ss_attempts (serial_run env es) ! i) \<or>
                    finished (ss_attempts (serial_run env es) ! j)) [0..<i]) \<and>
    slot_ok (ss_attempts (serial_run env es)) k (map_of (ss_pending (serial_run env es)) k)"
  using serial_run_inv [of env es] assms unfolding serial_inv_def turn_ok_def pending_ok_def
  by (auto simp: list_all_iff)

definition tailscale_login :: connect_params where
  "tailscale_login =
     \<lparr>cp_auth = \<lparr>ga_mode = ModeToken, ga_token = Some ''secret'', ga_password = None, ga_allowTailscale = True, ga_trustedProxy = None\<rparr>,
      cp_connectAuth = None,
      cp_req = Some \<lparr>remoteAddress = Some ''127.0.0.1'',
        headers = [(''x-forwarded-for'', One ''203.0.113.7''), (''x-forwarded-proto'', One ''https''),
                   (''x-forwarded-host'', One ''gw''), (''tailscale-user-login'', One ''ann'')]\<rparr>,
      cp_trustedProxies = None, cp_surface = Some SurfaceWsControlUi, cp_limiter = cp_limiter token_login,
      cp_clientIp = Some ''203.0.113.7'', cp_scope = None, cp_allowRealIp = None, cp_originPolicy = None\<rparr>"

definition two_arrive :: "(nat \<times> serial_event) list" where
  "two_arrive = [(1, Arrive tailscale_login), (1, Arrive tailscale_login), (1, Start 0), (1, Start 1)]"

definition example_run :: serial_state where
  "example_run = serial_run example_gateway two_arrive"

definition ann :: tailscale_user where
  "ann = \<lparr>ts_login = ''ann'', ts_name = ''ann'', ts_profilePic = None\<rparr>"

lemma example_run_facts:
  "ss_attempts example_run =
     [\<lparr>at_params = tailscale_login, at_key = ''shared-secret:203.0.113.7'', at_prev = None, at_stage = Asking ''203.0.113.7'' ann\<rparr>,
      \<lparr>at_params = tailscale_login, at_key = ''shared-secret:203.0.113.7'', at_prev = Some 0, at_stage = Waiting\<rparr>]"
proof -
  have "normalizeScope (Some (limitScope tailscale_login)) = ''shared-secret''" by code_simp
  moreover have "normalizeRateLimitClientIp (gateway_net_env (gw_lib example_gateway)) (Some ''203.0.113.7'') = ''203.0.113.7''" by code_simp
  ultimately have limit: "limitKey example_gateway tailscale_login = (''shared-secret:203.0.113.7'', ''203.0.113.7'')"
    by (simp add: limitKey_def resolveKey_def clientIpFor_def tailscale_login_def Let_def)
  then have key: "attemptKey example_gateway tailscale_login = ''shared-secret:203.0.113.7''" by (simp add: attemptKey_limit)
  have serializes: "serializesAttempt example_gateway tailscale_login" by code_simp
  have "limiterCheck example_gateway 3 tailscale_login [] = (None, [])"
    using limiterCheck_cases(1) [OF _ limit example_address_counts] by (simp add: tailscale_login_def token_login_def)
  moreover have "asksTailscale example_gateway tailscale_login" by code_simp
  moreover have "tailscaleQuestion tiny_lib (cp_req tailscale_login) = Inr (''203.0.113.7'', ann)" by code_simp
  ultimately have "authCoreStart example_gateway 3 tailscale_login [] = (Inr (''203.0.113.7'', ann), [])"
    by (simp add: authCoreStart_def example_gateway_def tailscale_login_def)
  then show "ss_attempts example_run =
     [\<lparr>at_params = tailscale_login, at_key = ''shared-secret:203.0.113.7'', at_prev = None, at_stage = Asking ''203.0.113.7'' ann\<rparr>,
      \<lparr>at_params = tailscale_login, at_key = ''shared-secret:203.0.113.7'', at_prev = Some 0, at_stage = Waiting\<rparr>]"
    using key
    by (simp add: example_run_def serial_run_def two_arrive_def serial_init_def arriveAttempt_def startAttempt_def previousSettled_def
        put_stage_def finished_def Let_def serializes)
qed

theorem attempts_in_turn_witness:
  "slot_ok (ss_attempts example_run) ''shared-secret:203.0.113.7'' (map_of (ss_pending example_run) ''shared-secret:203.0.113.7'')"
  unfolding example_run_def
  by (rule attempts_in_turn [THEN conjunct2, of 0]) (simp add: example_run_facts [unfolded example_run_def])

subsection \<open>Secrets and locks\<close>

definition unlocked :: "rl_map \<Rightarrow> string \<Rightarrow> int \<Rightarrow> bool" where
  "unlocked m k now \<longleftrightarrow> (case map_of m k of None \<Rightarrow> True | Some e \<Rightarrow> \<not> isLocked e now)"

definition counts :: "gw_env \<Rightarrow> limiter \<Rightarrow> connect_params \<Rightarrow> bool" where
  "counts env cfg p \<longleftrightarrow> \<not> isExempt (gateway_net_env (gw_lib env)) cfg (snd (limitKey env p))"

text \<open>The results of a comparison with the configured token or password.\<close>

definition compared :: "gateway_auth_result \<Rightarrow> bool" where
  "compared r \<longleftrightarrow> gr_method r \<in> {Some MethodToken, Some MethodPassword} \<or> gr_reason r \<in> {Some ''token_mismatch'', Some ''password_mismatch''}"

lemma limiterCheck_unlocked:
  "fst (limiterCheck env now p m) = None \<Longrightarrow> cp_limiter p = Some cfg \<Longrightarrow> counts env cfg p \<Longrightarrow> unlocked m (attemptKey env p) now"
  by (cases "limitKey env p")
    (auto simp: limiterCheck_def counts_def attemptKey_limit limitKey_def check_def unlocked_def case_prod_beta Let_def
      split: if_splits option.splits)

lemma not_compared:
  "\<not> compared (granted MethodTrustedProxy u)" "\<not> compared (granted MethodTailscale u)" "\<not> compared (granted MethodNone u)"
  "\<not> compared (rate_limited ms)"
  by (simp_all add: compared_def granted_def rate_limited_def refused_def)

lemma proxy_compared:
  assumes "authorizeByProxy env now p m = (r, m')" "compared r"
  shows "fst (limiterCheck env now p m) = None"
proof (rule ccontr)
  assume "fst (limiterCheck env now p m) \<noteq> None"
  then obtain x m1 where chk: "limiterCheck env now p m = (Some x, m1)" by (cases "limiterCheck env now p m") auto
  have x: "\<not> compared x" using chk by (auto simp: limiterCheck_def not_compared case_prod_beta split: option.splits if_splits)
  have why: "\<not> compared (refused why)" if "authorizeTrustedProxy lib rq prox c = Inl why" for lib rq prox c why
    using that by (auto simp: authorizeTrustedProxy_def compared_def refused_def Let_def split: option.splits if_splits)
  have origin: "\<not> compared b" if "authorizeTrustedProxyBrowserOrigin env (surfaceOf p) (cp_originPolicy p) = Some b" for b
    using that by (auto simp: authorizeTrustedProxyBrowserOrigin_def compared_def refused_def Let_def split: option.splits sum.splits if_splits)
  show False
  proof (cases "ga_trustedProxy (cp_auth p)")
    case None
    then show False using assms by (auto simp: authorizeByProxy_def compared_def refused_def)
  next
    case (Some c)
    show False
    proof (cases "coalesce (cp_trustedProxies p) [] = []")
      case True
      then show False using assms Some by (auto simp: authorizeByProxy_def compared_def refused_def)
    next
      case False
      show False
      proof (cases "authorizeTrustedProxy (gw_lib env) (cp_req p) (cp_trustedProxies p) c")
        case (Inl w)
        then show False using assms Some False why [OF Inl] chk x by (auto simp: authorizeByProxy_def split: if_splits)
      next
        case (Inr u)
        then show False using assms Some False origin not_compared(1)
          by (cases "authorizeTrustedProxyBrowserOrigin env (surfaceOf p) (cp_originPolicy p)") (auto simp: authorizeByProxy_def)
      qed
    qed
  qed
qed

lemma start_compared:
  assumes "authCoreStart env now p m = (Inl r, m')" "compared r"
  shows "fst (limiterCheck env now p m) = None"
proof (cases "ga_mode (cp_auth p) = ModeTrustedProxy")
  case True
  then show ?thesis using assms proxy_compared by (simp add: authCoreStart_def case_prod_beta) (metis prod.collapse)
next
  case False
  show ?thesis
  proof (rule ccontr)
    assume "fst (limiterCheck env now p m) \<noteq> None"
    then obtain x m1 where chk: "limiterCheck env now p m = (Some x, m1)" by (cases "limiterCheck env now p m") auto
    have "\<not> compared x" using chk by (auto simp: limiterCheck_def not_compared case_prod_beta split: option.splits if_splits)
    then show False using assms False chk not_compared by (auto simp: authCoreStart_def split: if_splits)
  qed
qed

lemma step_clock: "ss_clock (serial_step env (dt, ev) s) = ss_clock s + int dt"
  by (cases ev) (simp_all add: Let_def arriveAttempt_def startAttempt_def answerAttempt_def release_def
      split: prod.split sum.split attempt_stage.split del: rl_step.simps)

text \<open>Only its own start and answer move an attempt.\<close>

lemma step_elsewhere:
  assumes "i < length (ss_attempts s)"
  shows "ev = Start i \<or> (\<exists>ans. ev = Answer i ans) \<or>
    at_stage (ss_attempts (serial_step env (dt, ev) s) ! i) = at_stage (ss_attempts s ! i)"
proof (cases ev)
  case (Arrive p)
  then show ?thesis using assms by (simp add: arriveAttempt_def nth_append Let_def)
next
  case (Start j)
  then show ?thesis using assms by (auto simp: startAttempt_def release_attempts Let_def split: prod.split sum.split)
next
  case (Answer j ans)
  then show ?thesis using assms by (auto simp: answerAttempt_def release_attempts Let_def split: prod.split attempt_stage.split)
qed (simp add: Let_def del: rl_step.simps)

lemma start_ends:
  assumes "i < length (ss_attempts s)" "\<not> finished (ss_attempts s ! i)" "at_stage (ss_attempts (startAttempt env i s) ! i) = Finished r"
  shows "at_stage (ss_attempts s ! i) = Waiting \<and>
    (\<exists>m. authCoreStart env (ss_clock s) (at_params (ss_attempts s ! i)) (ss_limits s) = (Inl r, m))"
proof (cases "at_stage (ss_attempts s ! i) = Waiting \<and> previousSettled i s")
  case True
  then show ?thesis using assms(1,3)
    by (cases "authCoreStart env (ss_clock s) (at_params (ss_attempts s ! i)) (ss_limits s)"; cases "fst (authCoreStart env (ss_clock s) (at_params (ss_attempts s ! i)) (ss_limits s))")
      (auto simp: startAttempt_def release_attempts)
next
  case False
  then have "startAttempt env i s = s" by (auto simp: startAttempt_def)
  then show ?thesis using assms(2,3) by (simp add: finished_def)
qed

lemma answer_ends:
  assumes "i < length (ss_attempts s)" "\<not> finished (ss_attempts s ! i)" "at_stage (ss_attempts (answerAttempt env i ans s) ! i) = Finished r"
  shows "\<exists>ip user. at_stage (ss_attempts s ! i) = Asking ip user"
proof (cases "at_stage (ss_attempts s ! i)")
  case Waiting
  then have "answerAttempt env i ans s = s" by (simp add: answerAttempt_def)
  then show ?thesis using assms(2,3) by (simp add: finished_def)
next
  case (Finished x)
  then show ?thesis using assms(2) by (simp add: finished_def)
qed simp

text \<open>C22: No guess is compared while its key is locked. When a step of any run ends a queued attempt that carries a token or
  password which is not blank, with the result of a comparison (let in by the secret, or told that it does not match), then at
  the moment of that step the key of the attempt was not locked, in whatever order attempts arrive, start, wait for the tailscale
  daemon and end, and whatever else records failures under the same key in the meantime. An attempt that waited for the daemon
  is never such an attempt, since only attempts without a secret wait.\<close>

theorem no_guess_while_locked:
  assumes "i < length (ss_attempts (serial_run env es))" and "\<not> finished (ss_attempts (serial_run env es) ! i)"
    and "at_stage (ss_attempts (serial_step env e (serial_run env es)) ! i) = Finished r" and "compared r"
    and "hasExplicitSharedSecretAuth (cp_connectAuth (at_params (ss_attempts (serial_run env es) ! i)))"
    and "cp_limiter (at_params (ss_attempts (serial_run env es) ! i)) = Some cfg"
    and "counts env cfg (at_params (ss_attempts (serial_run env es) ! i))"
  shows "at_stage (ss_attempts (serial_run env es) ! i) = Waiting \<and>
    unlocked (ss_limits (serial_run env es)) (at_key (ss_attempts (serial_run env es) ! i))
      (ss_clock (serial_step env e (serial_run env es)))"
proof -
  let ?s = "serial_run env es"
  let ?a = "ss_attempts ?s ! i"
  obtain dt ev where e: "e = (dt, ev)" by fastforce
  let ?s1 = "?s\<lparr>ss_clock := ss_clock ?s + int dt\<rparr>"
  have ok: "attempt_ok env ?a" using serial_inv_attempt [OF serial_run_inv assms(1)] .
  have clock: "ss_clock (serial_step env e ?s) = ss_clock ?s + int dt" by (rule step_clock [of env dt ev ?s, folded e])
  consider (start) "ev = Start i" | (answer) ans where "ev = Answer i ans" | (other) "at_stage (ss_attempts (serial_step env e ?s) ! i) = at_stage ?a"
    using step_elsewhere [OF assms(1)] e by blast
  then show ?thesis
  proof cases
    case start
    then have "startAttempt env i ?s1 = serial_step env e ?s" by (simp add: e)
    then obtain m where w: "at_stage ?a = Waiting" and st: "authCoreStart env (ss_clock ?s1) (at_params ?a) (ss_limits ?s) = (Inl r, m)"
      using start_ends [of i ?s1 env r] assms(1-3) by auto
    have "fst (limiterCheck env (ss_clock ?s1) (at_params ?a) (ss_limits ?s)) = None" by (rule start_compared [OF st assms(4)])
    then show ?thesis using limiterCheck_unlocked [OF _ assms(6,7)] ok w clock by (simp add: attempt_ok_def)
  next
    case (answer ans)
    then have "answerAttempt env i ans ?s1 = serial_step env e ?s" by (simp add: e)
    then have "\<exists>ip user. at_stage ?a = Asking ip user" using answer_ends [of i ?s1 env ans r] assms(1-3) by auto
    then have "asksTailscale env (at_params ?a)" using ok by (auto simp: attempt_ok_def)
    then show ?thesis using assms(5) by (simp add: asksTailscale_def)
  next
    case other
    then have "at_stage ?a = Finished r" using assms(3) by simp
    then have "finished ?a" by (simp add: finished_def)
    then show ?thesis using assms(2) by blast
  qed
qed

text \<open>A wrong token, sent through the tailscale proxy.\<close>

definition wrong_login :: connect_params where
  "wrong_login = tailscale_login\<lparr>cp_connectAuth := Some \<lparr>ca_token = Some ''guess'', ca_password = None\<rparr>\<rparr>"

lemma wrong_login_facts:
  "ss_attempts (serial_run example_gateway [(1, Arrive wrong_login)]) =
     [\<lparr>at_params = wrong_login, at_key = ''shared-secret:203.0.113.7'', at_prev = None, at_stage = Waiting\<rparr>]"
  "at_stage (ss_attempts (serial_step example_gateway (1, Start 0) (serial_run example_gateway [(1, Arrive wrong_login)])) ! 0) =
     Finished (refused ''token_mismatch'')"
  "counts example_gateway (the (cp_limiter tailscale_login)) wrong_login"
proof -
  have "normalizeScope (Some (limitScope wrong_login)) = ''shared-secret''" by code_simp
  moreover have "normalizeRateLimitClientIp (gateway_net_env (gw_lib example_gateway)) (Some ''203.0.113.7'') = ''203.0.113.7''" by code_simp
  ultimately have limit: "limitKey example_gateway wrong_login = (''shared-secret:203.0.113.7'', ''203.0.113.7'')"
    by (simp add: limitKey_def resolveKey_def clientIpFor_def wrong_login_def tailscale_login_def Let_def)
  show "counts example_gateway (the (cp_limiter tailscale_login)) wrong_login" using limit example_address_counts by (simp add: counts_def)
  have key: "attemptKey example_gateway wrong_login = ''shared-secret:203.0.113.7''" using limit by (simp add: attemptKey_limit)
  have serializes: "serializesAttempt example_gateway wrong_login" by code_simp
  have chk: "limiterCheck example_gateway 2 wrong_login [] = (None, [])"
    using limiterCheck_cases(1) [OF _ limit example_address_counts] by (simp add: wrong_login_def tailscale_login_def token_login_def)
  have "\<not> asksTailscale example_gateway wrong_login" by code_simp
  moreover have "\<not> safeEqualSecret (given_token wrong_login) (ga_token (cp_auth wrong_login))" by code_simp
  moreover have "ga_mode (cp_auth wrong_login) = ModeToken" "truthy_string (ga_token (cp_auth wrong_login))" "truthy_string (given_token wrong_login)"
    by code_simp+
  ultimately have start: "\<exists>m. authCoreStart example_gateway 2 wrong_login [] = (Inl (refused ''token_mismatch''), m)"
    using chk by (simp add: authCoreStart_def authCoreRest_def authorizeTokenAuth_def)
  show attempts: "ss_attempts (serial_run example_gateway [(1, Arrive wrong_login)]) =
     [\<lparr>at_params = wrong_login, at_key = ''shared-secret:203.0.113.7'', at_prev = None, at_stage = Waiting\<rparr>]"
    using key serializes by (simp add: serial_run_def serial_init_def arriveAttempt_def Let_def)
  have "ss_limits (serial_run example_gateway [(1, Arrive wrong_login)]) = []" "ss_clock (serial_run example_gateway [(1, Arrive wrong_login)]) = 1"
    using serializes by (simp_all add: serial_run_def serial_init_def arriveAttempt_def Let_def)
  then show "at_stage (ss_attempts (serial_step example_gateway (1, Start 0) (serial_run example_gateway [(1, Arrive wrong_login)])) ! 0) =
     Finished (refused ''token_mismatch'')"
    using attempts start by (auto simp: startAttempt_def previousSettled_def release_attempts Let_def)
qed

theorem no_guess_while_locked_witness:
  "at_stage (ss_attempts (serial_run example_gateway [(1, Arrive wrong_login)]) ! 0) = Waiting \<and>
   unlocked (ss_limits (serial_run example_gateway [(1, Arrive wrong_login)])) ''shared-secret:203.0.113.7''
     (ss_clock (serial_step example_gateway (1, Start 0) (serial_run example_gateway [(1, Arrive wrong_login)])))"
proof -
  have "hasExplicitSharedSecretAuth (cp_connectAuth wrong_login)" by code_simp
  moreover have "cp_limiter wrong_login = Some (the (cp_limiter tailscale_login))" by (simp add: wrong_login_def tailscale_login_def token_login_def)
  moreover have "compared (refused ''token_mismatch'')" by (simp add: compared_def refused_def)
  ultimately show ?thesis
    using no_guess_while_locked [of 0 example_gateway "[(1, Arrive wrong_login)]" "(1, Start 0)", OF _ _ wrong_login_facts(2)] wrong_login_facts
    by (simp del: serial_step.simps add: finished_def)
qed

text \<open>C26: No attempt waits for ever on another: from every state, letting each attempt start and its answer come, once and in order,
  finishes all of them and leaves no key behind.\<close>

theorem attempts_finish:
  "let s = fold (serial_step env) (drain answers (length (ss_attempts (serial_run env es)))) (serial_run env es)
   in ss_pending s = [] \<and> list_all finished (ss_attempts s)"
  using drain_finishes [OF serial_run_inv, of "length (ss_attempts (serial_run env es))" env es answers]
  by (auto simp: Let_def list_all_length intro: all_finished_nothing_pending)

end
