(* ===== verification/GatewayMethods.thy ===== *)
theory GatewayMethods
  imports GatewayNet
begin

text \<open>
  What a signed-in client may call: \<^verbatim>\<open>packages/core/src/gateway/method-scopes.ts\<close>, \<^verbatim>\<open>operator-scopes.ts\<close>, \<^verbatim>\<open>role-policy.ts\<close>,
  \<^verbatim>\<open>shared/gateway-method-policy.ts\<close>, \<^verbatim>\<open>shared/operator-scope-compat.ts\<close>, the budget of \<^verbatim>\<open>gateway/control-plane-rate-limit.ts\<close>
  and the dispatch of \<^verbatim>\<open>gateway/server-methods.ts\<close>. The scopes a plugin gave to its methods are an argument.
\<close>

subsection \<open>Scopes\<close>

definition ADMIN_SCOPE :: string where "ADMIN_SCOPE = ''operator.admin''"
definition READ_SCOPE :: string where "READ_SCOPE = ''operator.read''"
definition WRITE_SCOPE :: string where "WRITE_SCOPE = ''operator.write''"
definition APPROVALS_SCOPE :: string where "APPROVALS_SCOPE = ''operator.approvals''"
definition PAIRING_SCOPE :: string where "PAIRING_SCOPE = ''operator.pairing''"
definition TALK_SECRETS_SCOPE :: string where "TALK_SECRETS_SCOPE = ''operator.talk.secrets''"

lemmas scope_names = ADMIN_SCOPE_def READ_SCOPE_def WRITE_SCOPE_def APPROVALS_SCOPE_def PAIRING_SCOPE_def TALK_SECRETS_SCOPE_def

definition KNOWN_OPERATOR_SCOPE_VALUES :: "string list" where
  "KNOWN_OPERATOR_SCOPE_VALUES = [ADMIN_SCOPE, READ_SCOPE, WRITE_SCOPE, APPROVALS_SCOPE, PAIRING_SCOPE, TALK_SECRETS_SCOPE]"

definition isOperatorScope :: "string option \<Rightarrow> bool" where
  "isOperatorScope v \<longleftrightarrow> (case v of None \<Rightarrow> False | Some s \<Rightarrow> s \<in> set KNOWN_OPERATOR_SCOPE_VALUES)"

definition CLI_DEFAULT_OPERATOR_SCOPES :: "string list" where
  "CLI_DEFAULT_OPERATOR_SCOPES = [ADMIN_SCOPE, READ_SCOPE, WRITE_SCOPE, APPROVALS_SCOPE, PAIRING_SCOPE, TALK_SECRETS_SCOPE]"

definition NODE_ROLE_METHODS :: "string list" where
  "NODE_ROLE_METHODS =
     [''node.invoke.result'', ''node.event'', ''node.pending.drain'', ''node.canvas.capability.refresh'',
      ''node.pending.pull'', ''node.pending.ack'', ''skills.bins'']"

definition METHOD_SCOPE_GROUPS :: "(string \<times> string list) list" where
  "METHOD_SCOPE_GROUPS =
     [(APPROVALS_SCOPE,
      [''exec.approval.get'', ''exec.approval.list'', ''exec.approval.request'', ''exec.approval.waitDecision'',
        ''exec.approval.resolve'', ''plugin.approval.list'', ''plugin.approval.request'',
        ''plugin.approval.waitDecision'', ''plugin.approval.resolve'']),
      (PAIRING_SCOPE,
      [''node.pair.request'', ''node.pair.list'', ''node.pair.reject'', ''node.pair.remove'', ''node.pair.verify'',
        ''node.pair.approve'', ''device.pair.list'', ''device.pair.approve'', ''device.pair.reject'',
        ''device.pair.remove'', ''device.token.rotate'', ''device.token.revoke'', ''node.rename'']),
      (READ_SCOPE,
      [''assistant.media.get'', ''health'', ''diagnostics.stability'', ''doctor.memory.status'',
        ''doctor.memory.dreamDiary'', ''doctor.memory.remHarness'', ''logs.tail'', ''channels.status'', ''status'',
        ''usage.status'', ''usage.cost'', ''tts.status'', ''tts.providers'', ''tts.personas'', ''commands.list'',
        ''models.list'', ''models.authStatus'', ''tools.catalog'', ''tools.effective'', ''plugins.uiDescriptors'',
        ''agents.list'', ''agent.identity.get'', ''skills.status'', ''skills.search'', ''skills.detail'',
        ''voicewake.get'', ''voicewake.routing.get'', ''sessions.list'', ''sessions.get'', ''sessions.preview'',
        ''sessions.describe'', ''sessions.resolve'', ''sessions.compaction.list'', ''sessions.compaction.get'',
        ''sessions.subscribe'', ''sessions.unsubscribe'', ''sessions.messages.subscribe'',
        ''sessions.messages.unsubscribe'', ''sessions.usage'', ''sessions.usage.timeseries'',
        ''sessions.usage.logs'', ''cron.list'', ''cron.status'', ''cron.runs'', ''gateway.identity.get'',
        ''system-presence'', ''last-heartbeat'', ''node.list'', ''node.describe'', ''chat.history'', ''config.get'',
        ''config.schema.lookup'', ''talk.config'', ''agents.files.list'', ''agents.files.get'', ''artifacts.list'',
        ''artifacts.get'', ''artifacts.download'']),
      (WRITE_SCOPE,
      [''message.action'', ''send'', ''poll'', ''agent'', ''agent.wait'', ''wake'', ''talk.mode'',
        ''talk.realtime.session'', ''talk.realtime.relayAudio'', ''talk.realtime.relayMark'',
        ''talk.realtime.relayStop'', ''talk.realtime.relayToolResult'', ''talk.speak'', ''tts.enable'',
        ''tts.disable'', ''tts.convert'', ''tts.setProvider'', ''tts.setPersona'', ''voicewake.set'',
        ''voicewake.routing.set'', ''node.invoke'', ''tools.invoke'', ''chat.send'', ''chat.abort'',
        ''sessions.create'', ''sessions.send'', ''sessions.steer'', ''sessions.abort'',
        ''sessions.compaction.branch'', ''doctor.memory.backfillDreamDiary'', ''doctor.memory.resetDreamDiary'',
        ''doctor.memory.resetGroundedShortTerm'', ''doctor.memory.repairDreamingArtifacts'',
        ''doctor.memory.dedupeDreamDiary'', ''push.test'', ''push.web.vapidPublicKey'', ''push.web.subscribe'',
        ''push.web.unsubscribe'', ''push.web.test'', ''node.pending.enqueue'']),
      (ADMIN_SCOPE,
      [''channels.start'', ''channels.stop'', ''channels.logout'', ''agents.create'', ''agents.update'',
        ''agents.delete'', ''skills.install'', ''skills.update'', ''secrets.reload'', ''secrets.resolve'',
        ''cron.add'', ''cron.update'', ''cron.remove'', ''cron.run'', ''sessions.patch'', ''sessions.pluginPatch'',
        ''sessions.cleanup'', ''sessions.reset'', ''sessions.delete'', ''sessions.compact'',
        ''sessions.compaction.restore'', ''connect'', ''chat.inject'', ''nativeHook.invoke'', ''web.login.start'',
        ''web.login.wait'', ''set-heartbeats'', ''system-event'', ''agents.files.set'', ''update.status'']),
      (TALK_SECRETS_SCOPE,
      [])]"

text \<open>The \<^verbatim>\<open>Map\<close> built from all pairs; a later pair would replace an earlier one of the same name.\<close>

definition METHOD_SCOPE_BY_NAME :: "(string, string) js_map" where
  "METHOD_SCOPE_BY_NAME = rev (concat (map (\<lambda>(scope, methods). map (\<lambda>m. (m, scope)) methods) METHOD_SCOPE_GROUPS))"

definition RESERVED_ADMIN_GATEWAY_METHOD_PREFIXES :: "string list" where
  "RESERVED_ADMIN_GATEWAY_METHOD_PREFIXES = [''exec.approvals.'', ''config.'', ''wizard.'', ''update.'']"

definition isReservedAdminGatewayMethod :: "string \<Rightarrow> bool" where
  "isReservedAdminGatewayMethod m \<longleftrightarrow> list_ex (\<lambda>p. starts_with p m) RESERVED_ADMIN_GATEWAY_METHOD_PREFIXES"

definition resolveReservedGatewayMethodScope :: "string \<Rightarrow> string option" where
  "resolveReservedGatewayMethodScope m = (if isReservedAdminGatewayMethod m then Some ''operator.admin'' else None)"

definition normalizePluginGatewayMethodScope :: "string \<Rightarrow> string option \<Rightarrow> string option \<times> bool" where
  "normalizePluginGatewayMethodScope m scope =
     (let reserved = resolveReservedGatewayMethodScope m
      in if reserved = None \<or> \<not> truthy_string scope \<or> scope = reserved then (scope, False) else (reserved, True))"

type_synonym plugin_scopes = "string \<Rightarrow> string option"

definition resolveScopedMethod :: "plugin_scopes \<Rightarrow> string \<Rightarrow> string option" where
  "resolveScopedMethod plugin m =
     (case map_of METHOD_SCOPE_BY_NAME m of
        Some scope \<Rightarrow> Some scope
      | None \<Rightarrow>
          (case resolveReservedGatewayMethodScope m of
             Some scope \<Rightarrow> Some scope
           | None \<Rightarrow> if truthy_string (plugin m) then plugin m else None))"

definition isApprovalMethod :: "plugin_scopes \<Rightarrow> string \<Rightarrow> bool" where
  "isApprovalMethod plugin m \<longleftrightarrow> resolveScopedMethod plugin m = Some APPROVALS_SCOPE"
definition isPairingMethod :: "plugin_scopes \<Rightarrow> string \<Rightarrow> bool" where
  "isPairingMethod plugin m \<longleftrightarrow> resolveScopedMethod plugin m = Some PAIRING_SCOPE"
definition isReadMethod :: "plugin_scopes \<Rightarrow> string \<Rightarrow> bool" where
  "isReadMethod plugin m \<longleftrightarrow> resolveScopedMethod plugin m = Some READ_SCOPE"
definition isWriteMethod :: "plugin_scopes \<Rightarrow> string \<Rightarrow> bool" where
  "isWriteMethod plugin m \<longleftrightarrow> resolveScopedMethod plugin m = Some WRITE_SCOPE"
definition isAdminOnlyMethod :: "plugin_scopes \<Rightarrow> string \<Rightarrow> bool" where
  "isAdminOnlyMethod plugin m \<longleftrightarrow> resolveScopedMethod plugin m = Some ADMIN_SCOPE"
definition isNodeRoleMethod :: "string \<Rightarrow> bool" where
  "isNodeRoleMethod m \<longleftrightarrow> m \<in> set NODE_ROLE_METHODS"

definition resolveLeastPrivilegeOperatorScopesForMethod :: "plugin_scopes \<Rightarrow> string \<Rightarrow> string list" where
  "resolveLeastPrivilegeOperatorScopesForMethod plugin m =
     (case resolveScopedMethod plugin m of Some scope \<Rightarrow> [scope] | None \<Rightarrow> [])"

definition isGatewayMethodClassified :: "plugin_scopes \<Rightarrow> string \<Rightarrow> bool" where
  "isGatewayMethodClassified plugin m \<longleftrightarrow> isNodeRoleMethod m \<or> resolveScopedMethod plugin m \<noteq> None"

text \<open>\<open>None\<close>: allowed; otherwise the missing scope.\<close>

definition authorizeOperatorScopesForMethod :: "plugin_scopes \<Rightarrow> string \<Rightarrow> string list \<Rightarrow> string option" where
  "authorizeOperatorScopesForMethod plugin m scopes =
     (if ADMIN_SCOPE \<in> set scopes then None
      else (let required = coalesce (resolveScopedMethod plugin m) ADMIN_SCOPE
            in if required = READ_SCOPE
               then (if READ_SCOPE \<in> set scopes \<or> WRITE_SCOPE \<in> set scopes then None else Some READ_SCOPE)
               else if required \<in> set scopes then None else Some required))"

subsection \<open>Roles\<close>

datatype gateway_role = Operator | Node

definition parseGatewayRole :: "string \<Rightarrow> gateway_role option" where
  "parseGatewayRole r = (if r = ''operator'' then Some Operator else if r = ''node'' then Some Node else None)"

definition roleCanSkipDeviceIdentity :: "gateway_role \<Rightarrow> bool \<Rightarrow> bool" where
  "roleCanSkipDeviceIdentity role sharedAuthOk \<longleftrightarrow> role = Operator \<and> sharedAuthOk"

definition isRoleAuthorizedForMethod :: "gateway_role \<Rightarrow> string \<Rightarrow> bool" where
  "isRoleAuthorizedForMethod role m \<longleftrightarrow> (if isNodeRoleMethod m then role = Node else role = Operator)"

subsection \<open>Scopes a device may ask for\<close>

definition normalizeScopeList :: "string list \<Rightarrow> string list" where
  "normalizeScopeList scopes = js_unique (filter (\<lambda>s. s \<noteq> []) (map js_trim scopes))"

definition operatorScopeSatisfied :: "string \<Rightarrow> string list \<Rightarrow> bool" where
  "operatorScopeSatisfied requested allowed_scopes =
     (if \<not> starts_with ''operator.'' requested then False
      else if ADMIN_SCOPE \<in> set allowed_scopes then True
      else if requested = READ_SCOPE then READ_SCOPE \<in> set allowed_scopes \<or> WRITE_SCOPE \<in> set allowed_scopes
      else if requested = WRITE_SCOPE then WRITE_SCOPE \<in> set allowed_scopes
      else requested \<in> set allowed_scopes)"

definition roleScopesAllow :: "string \<Rightarrow> string list \<Rightarrow> string list \<Rightarrow> bool" where
  "roleScopesAllow role requestedScopes allowedScopes =
     (let requested = normalizeScopeList requestedScopes; allowed_scopes = normalizeScopeList allowedScopes
      in if requested = [] then True
         else if allowed_scopes = [] then False
         else if js_trim role \<noteq> ''operator''
         then list_all (\<lambda>s. starts_with (js_trim role @ ''.'') s \<and> s \<in> set allowed_scopes) requested
         else list_all (\<lambda>s. operatorScopeSatisfied s allowed_scopes) requested)"

definition resolveMissingRequestedScope :: "string \<Rightarrow> string list \<Rightarrow> string list \<Rightarrow> string option" where
  "resolveMissingRequestedScope role requestedScopes allowedScopes =
     List.find (\<lambda>s. \<not> roleScopesAllow role [s] allowedScopes) requestedScopes"

definition resolveScopeOutsideRequestedRoles :: "string list \<Rightarrow> string list \<Rightarrow> string option" where
  "resolveScopeOutsideRequestedRoles roles requestedScopes =
     List.find (\<lambda>s. \<not> list_ex (\<lambda>role. roleScopesAllow role [s] [s]) roles) requestedScopes"

subsection \<open>The budget of control-plane writes\<close>

record gw_client =
  gc_connected :: bool
  gc_role :: "string option"
  gc_scopes :: "string list option"
  gc_deviceId :: "string option"
  gc_clientIp :: "string option"
  gc_connId :: "string option"

record bucket =
  bk_count :: int
  bk_windowStartMs :: int

record budget_answer =
  bd_allowed :: bool
  bd_retryAfterMs :: int
  bd_remaining :: int
  bd_key :: string

definition CONTROL_PLANE_RATE_LIMIT_MAX_REQUESTS :: int where "CONTROL_PLANE_RATE_LIMIT_MAX_REQUESTS = 3"
definition CONTROL_PLANE_RATE_LIMIT_WINDOW_MS :: int where "CONTROL_PLANE_RATE_LIMIT_WINDOW_MS = 60000"
definition CONTROL_PLANE_BUCKET_MAX_STALE_MS :: int where "CONTROL_PLANE_BUCKET_MAX_STALE_MS = 5 * 60000"
definition CONTROL_PLANE_BUCKET_MAX_ENTRIES :: nat where "CONTROL_PLANE_BUCKET_MAX_ENTRIES = 10000"

lemmas control_plane_limits = CONTROL_PLANE_RATE_LIMIT_MAX_REQUESTS_def CONTROL_PLANE_RATE_LIMIT_WINDOW_MS_def
  CONTROL_PLANE_BUCKET_MAX_STALE_MS_def

definition normalizePart :: "string option \<Rightarrow> string \<Rightarrow> string" where
  "normalizePart v fallback = (case v of None \<Rightarrow> fallback | Some s \<Rightarrow> if js_trim s \<noteq> [] then js_trim s else fallback)"

text \<open>A client that is absent has no part.\<close>

definition resolveControlPlaneRateLimitKey :: "gw_client option \<Rightarrow> string" where
  "resolveControlPlaneRateLimitKey c =
     (let deviceId = normalizePart (Option.bind c gc_deviceId) ''unknown-device'';
          clientIp = normalizePart (Option.bind c gc_clientIp) ''unknown-ip'';
          connId = normalizePart (Option.bind c gc_connId) ''''
      in if deviceId = ''unknown-device'' \<and> clientIp = ''unknown-ip'' \<and> connId \<noteq> []
         then deviceId @ ''|'' @ clientIp @ ''|conn='' @ connId
         else deviceId @ ''|'' @ clientIp)"

type_synonym buckets = "(string, bucket) js_map"

definition window_over :: "int \<Rightarrow> bucket \<Rightarrow> bool" where
  "window_over now b \<longleftrightarrow> CONTROL_PLANE_RATE_LIMIT_WINDOW_MS \<le> now - bk_windowStartMs b"

definition evictOldest :: "string \<Rightarrow> buckets \<Rightarrow> buckets" where
  "evictOldest key m =
     (if map_of m key = None \<and> CONTROL_PLANE_BUCKET_MAX_ENTRIES \<le> length m
      then (case m of [] \<Rightarrow> m | (oldest, _) # _ \<Rightarrow> AList.delete oldest m) else m)"

definition consumeControlPlaneWriteBudget :: "int \<Rightarrow> string \<Rightarrow> buckets \<Rightarrow> budget_answer \<times> buckets" where
  "consumeControlPlaneWriteBudget now key m =
     (case map_of m key of
        Some b \<Rightarrow>
          if window_over now b
          then (\<lparr>bd_allowed = True, bd_retryAfterMs = 0, bd_remaining = CONTROL_PLANE_RATE_LIMIT_MAX_REQUESTS - 1, bd_key = key\<rparr>,
                AList.update key \<lparr>bk_count = 1, bk_windowStartMs = now\<rparr> (evictOldest key m))
          else if CONTROL_PLANE_RATE_LIMIT_MAX_REQUESTS \<le> bk_count b
          then (\<lparr>bd_allowed = False, bd_retryAfterMs = max 0 (bk_windowStartMs b + CONTROL_PLANE_RATE_LIMIT_WINDOW_MS - now),
                 bd_remaining = 0, bd_key = key\<rparr>, m)
          else (\<lparr>bd_allowed = True, bd_retryAfterMs = 0,
                 bd_remaining = max 0 (CONTROL_PLANE_RATE_LIMIT_MAX_REQUESTS - (bk_count b + 1)), bd_key = key\<rparr>,
                AList.update key (b\<lparr>bk_count := bk_count b + 1\<rparr>) m)
      | None \<Rightarrow>
          (\<lparr>bd_allowed = True, bd_retryAfterMs = 0, bd_remaining = CONTROL_PLANE_RATE_LIMIT_MAX_REQUESTS - 1, bd_key = key\<rparr>,
           AList.update key \<lparr>bk_count = 1, bk_windowStartMs = now\<rparr> (evictOldest key m)))"

definition pruneStaleControlPlaneBuckets :: "int \<Rightarrow> buckets \<Rightarrow> nat \<times> buckets" where
  "pruneStaleControlPlaneBuckets now m =
     (let kept = filter (\<lambda>(k, b). \<not> CONTROL_PLANE_BUCKET_MAX_STALE_MS < now - bk_windowStartMs b) m
      in (length m - length kept, kept))"

subsection \<open>Dispatch\<close>

datatype method_error =
    UnauthorizedRole string
  | MissingScope string
  | UnavailableAtStartup
  | WriteLimitExceeded int
  | UnknownMethod

definition authorizeGatewayMethod :: "plugin_scopes \<Rightarrow> string \<Rightarrow> gw_client option \<Rightarrow> method_error option" where
  "authorizeGatewayMethod plugin m c =
     (case c of
        None \<Rightarrow> None
      | Some client \<Rightarrow>
          if \<not> gc_connected client then None
          else if m = ''health'' then None
          else (let roleRaw = coalesce (gc_role client) ''operator''; scopes = coalesce (gc_scopes client) []
                in case parseGatewayRole roleRaw of
                     None \<Rightarrow> Some (UnauthorizedRole roleRaw)
                   | Some role \<Rightarrow>
                       if \<not> isRoleAuthorizedForMethod role m then Some (UnauthorizedRole roleRaw)
                       else if role = Node then None
                       else if ADMIN_SCOPE \<in> set scopes then None
                       else map_option MissingScope (authorizeOperatorScopesForMethod plugin m scopes)))"

definition CONTROL_PLANE_WRITE_METHODS :: "string list" where
  "CONTROL_PLANE_WRITE_METHODS = [''config.apply'', ''config.patch'', ''update.run'']"

text \<open>The handlers are a table from names to what they are (\<open>'h\<close>); those of the caller come before the core's.\<close>

definition handleGatewayRequest :: "plugin_scopes \<Rightarrow> (string \<Rightarrow> 'h option) \<Rightarrow> (string \<Rightarrow> 'h option) \<Rightarrow> string list
    \<Rightarrow> int \<Rightarrow> string \<Rightarrow> gw_client option \<Rightarrow> buckets \<Rightarrow> (method_error + 'h) \<times> buckets" where
  "handleGatewayRequest plugin extraHandlers coreGatewayHandlers unavailableGatewayMethods now m c bs =
     (case authorizeGatewayMethod plugin m c of
        Some e \<Rightarrow> (Inl e, bs)
      | None \<Rightarrow>
          if m \<in> set unavailableGatewayMethods then (Inl UnavailableAtStartup, bs)
          else (let (refusal, bs') =
                      (if m \<in> set CONTROL_PLANE_WRITE_METHODS
                       then (case consumeControlPlaneWriteBudget now (resolveControlPlaneRateLimitKey c) bs of
                               (b, bs1) \<Rightarrow> (if bd_allowed b then None else Some (WriteLimitExceeded (bd_retryAfterMs b)), bs1))
                       else (None, bs))
                in case refusal of
                     Some e \<Rightarrow> (Inl e, bs')
                   | None \<Rightarrow>
                       (case or_else (extraHandlers m) (coreGatewayHandlers m) of
                          None \<Rightarrow> (Inl UnknownMethod, bs') | Some h \<Rightarrow> (Inr h, bs'))))"

subsection \<open>Who may call what\<close>

text \<open>The scope a method asks for: its own, or that of the administrator when nothing classifies it.\<close>

definition required_scope :: "plugin_scopes \<Rightarrow> string \<Rightarrow> string" where
  "required_scope plugin m = coalesce (resolveScopedMethod plugin m) ADMIN_SCOPE"

definition scopes_suffice :: "plugin_scopes \<Rightarrow> string \<Rightarrow> string list \<Rightarrow> bool" where
  "scopes_suffice plugin m scopes \<longleftrightarrow>
     ADMIN_SCOPE \<in> set scopes \<or> required_scope plugin m \<in> set scopes \<or>
     (required_scope plugin m = READ_SCOPE \<and> WRITE_SCOPE \<in> set scopes)"

lemma authorizeOperatorScopes_None: "authorizeOperatorScopesForMethod plugin m scopes = None \<longleftrightarrow> scopes_suffice plugin m scopes"
  by (auto simp: authorizeOperatorScopesForMethod_def scopes_suffice_def required_scope_def Let_def)

lemma authorizeOperatorScopes_missing:
  "\<not> scopes_suffice plugin m scopes \<Longrightarrow> authorizeOperatorScopesForMethod plugin m scopes = Some (required_scope plugin m)"
  by (auto simp: authorizeOperatorScopesForMethod_def scopes_suffice_def required_scope_def Let_def)

lemma operator_not_node [simp]: "parseGatewayRole ''operator'' = Some Operator" "parseGatewayRole ''node'' = Some Node"
  by (simp_all add: parseGatewayRole_def)

lemma admin_suffices: "ADMIN_SCOPE \<in> set scopes \<Longrightarrow> scopes_suffice plugin m scopes"
  by (simp add: scopes_suffice_def)

lemma authorized_iff:
  "authorizeGatewayMethod plugin m (Some client) = None \<longleftrightarrow>
     \<not> gc_connected client \<or> m = ''health'' \<or>
     (gc_role client = Some ''node'' \<and> isNodeRoleMethod m) \<or>
     (coalesce (gc_role client) ''operator'' = ''operator'' \<and> \<not> isNodeRoleMethod m \<and>
        scopes_suffice plugin m (coalesce (gc_scopes client) []))"
proof (cases "\<not> gc_connected client \<or> m = ''health''")
  case False
  show ?thesis
  proof (cases "parseGatewayRole (coalesce (gc_role client) ''operator'')")
    case None
    then have "coalesce (gc_role client) ''operator'' \<noteq> ''operator''" "gc_role client \<noteq> Some ''node''"
      by (auto simp: parseGatewayRole_def split: if_splits)
    then show ?thesis using False None by (simp add: authorizeGatewayMethod_def Let_def)
  next
    case (Some role)
    then have "role = Operator \<and> coalesce (gc_role client) ''operator'' = ''operator'' \<and> gc_role client \<noteq> Some ''node'' \<or>
        role = Node \<and> gc_role client = Some ''node''"
      by (cases "gc_role client") (auto simp: parseGatewayRole_def split: if_splits)
    then show ?thesis
      using False Some admin_suffices [of "coalesce (gc_scopes client) []" plugin m]
      by (elim disjE conjE)
        (simp_all add: authorizeGatewayMethod_def isRoleAuthorizedForMethod_def authorizeOperatorScopes_None Let_def del: not_None_eq)
  qed
qed (auto simp: authorizeGatewayMethod_def)

lemma parseGatewayRole_cases:
  "parseGatewayRole r = (if r = ''operator'' then Some Operator else if r = ''node'' then Some Node else None)"
  by (simp add: parseGatewayRole_def)

lemma operator_scopes_verdict:
  "(if ADMIN_SCOPE \<in> set scopes then None else map_option MissingScope (authorizeOperatorScopesForMethod plugin m scopes)) =
   (if scopes_suffice plugin m scopes then None else Some (MissingScope (required_scope plugin m)))"
  by (simp add: admin_suffices authorizeOperatorScopes_None [THEN iffD2] authorizeOperatorScopes_missing)

text \<open>No table entry and no plugin takes a method of the reserved families out of the administrator's hands, two reads apart.\<close>

definition RESERVED_READS :: "string list" where
  "RESERVED_READS = [''config.get'', ''config.schema.lookup'']"

lemma reserved_in_table:
  "list_all (\<lambda>(m, scope). \<not> isReservedAdminGatewayMethod m \<or> m \<in> set RESERVED_READS \<or> scope = ADMIN_SCOPE) METHOD_SCOPE_BY_NAME"
  "list_all (\<lambda>m. \<not> isReservedAdminGatewayMethod m) NODE_ROLE_METHODS"
  by code_simp+

lemma reserved_scope:
  assumes "isReservedAdminGatewayMethod m" and "m \<notin> set RESERVED_READS"
  shows "resolveScopedMethod plugin m = Some ADMIN_SCOPE" and "\<not> isNodeRoleMethod m"
proof -
  show "resolveScopedMethod plugin m = Some ADMIN_SCOPE"
  proof (cases "map_of METHOD_SCOPE_BY_NAME m")
    case None
    then show ?thesis using assms by (simp add: resolveScopedMethod_def resolveReservedGatewayMethodScope_def ADMIN_SCOPE_def)
  next
    case (Some scope)
    then have "(m, scope) \<in> set METHOD_SCOPE_BY_NAME" by (rule map_of_SomeD)
    then have "scope = ADMIN_SCOPE" using reserved_in_table(1) assms by (auto simp: list_all_iff)
    then show ?thesis using Some by (simp add: resolveScopedMethod_def)
  qed
  show "\<not> isNodeRoleMethod m" using reserved_in_table(2) assms by (auto simp: list_all_iff isNodeRoleMethod_def)
qed

lemma reserved_reads_scope:
  assumes "m \<in> set RESERVED_READS"
  shows "required_scope plugin m = READ_SCOPE" and "\<not> isNodeRoleMethod m"
proof -
  have "map_of METHOD_SCOPE_BY_NAME ''config.get'' = Some READ_SCOPE \<and> map_of METHOD_SCOPE_BY_NAME ''config.schema.lookup'' = Some READ_SCOPE"
    by code_simp
  then show "required_scope plugin m = READ_SCOPE" using assms
    by (auto simp: RESERVED_READS_def required_scope_def resolveScopedMethod_def)
  have "\<not> isNodeRoleMethod ''config.get'' \<and> \<not> isNodeRoleMethod ''config.schema.lookup''" by code_simp
  then show "\<not> isNodeRoleMethod m" using assms by (auto simp: RESERVED_READS_def)
qed

text \<open>C24: Settings, updates, the set-up and the rules of execution stay with the administrator. Whatever scopes plugins gave to
  their methods and whatever handlers are installed, a method of these families is refused to every connected client without the
  administrator's scope, and neither a handler runs nor a budget is touched. Two of them, \<^verbatim>\<open>config.get\<close> and
  \<^verbatim>\<open>config.schema.lookup\<close>, which read the settings, are refused only to clients that may neither read nor write.\<close>

theorem reserved_methods_need_admin:
  assumes "isReservedAdminGatewayMethod m" and "gc_connected client"
    and "ADMIN_SCOPE \<notin> set (coalesce (gc_scopes client) [])"
    and "m \<in> set RESERVED_READS \<Longrightarrow> {READ_SCOPE, WRITE_SCOPE} \<inter> set (coalesce (gc_scopes client) []) = {}"
  shows "\<exists>e. handleGatewayRequest plugin extra core unavailable now m (Some client) bs = (Inl e, bs)"
proof -
  have health: "m \<noteq> ''health''" using assms(1) by (auto simp: isReservedAdminGatewayMethod_def RESERVED_ADMIN_GATEWAY_METHOD_PREFIXES_def starts_with_def)
  have "\<not> scopes_suffice plugin m (coalesce (gc_scopes client) []) \<and> \<not> isNodeRoleMethod m"
  proof (cases "m \<in> set RESERVED_READS")
    case True
    then show ?thesis using assms(3,4) reserved_reads_scope [OF True] by (auto simp: scopes_suffice_def)
  next
    case False
    then show ?thesis using assms(3) reserved_scope [OF assms(1) False] by (simp add: scopes_suffice_def required_scope_def scope_names)
  qed
  then have "authorizeGatewayMethod plugin m (Some client) \<noteq> None" using health assms(2) by (simp add: authorized_iff)
  then show ?thesis by (auto simp: handleGatewayRequest_def)
qed

definition reader :: gw_client where
  "reader = \<lparr>gc_connected = True, gc_role = None, gc_scopes = Some [''operator.read'', ''operator.write''], gc_deviceId = Some ''d1'',
     gc_clientIp = None, gc_connId = None\<rparr>"

theorem reserved_methods_need_admin_witness:
  "\<exists>e. handleGatewayRequest (\<lambda>_. Some ''operator.read'') (\<lambda>_. Some ()) (\<lambda>_. None) [] 0 ''config.apply'' (Some reader) [] = (Inl e, [])"
proof (rule reserved_methods_need_admin)
  have "''config.apply'' \<notin> set RESERVED_READS" by code_simp
  then show "''config.apply'' \<in> set RESERVED_READS \<Longrightarrow> {READ_SCOPE, WRITE_SCOPE} \<inter> set (coalesce (gc_scopes reader) []) = {}" by blast
qed (code_simp | simp add: reader_def)+

subsection \<open>Narrower scopes do less\<close>

lemma operatorScopeSatisfied_cases:
  "operatorScopeSatisfied s approved \<Longrightarrow> ADMIN_SCOPE \<in> set approved \<or> s \<in> set approved \<or> (s = READ_SCOPE \<and> WRITE_SCOPE \<in> set approved)"
  by (auto simp: operatorScopeSatisfied_def split: if_splits)

lemma scopes_differ: "ADMIN_SCOPE \<noteq> READ_SCOPE" "WRITE_SCOPE \<noteq> READ_SCOPE"
  by code_simp+

text \<open>C25: A device cannot gain by asking for less. When the scopes a device asks for are within the scopes it was approved for, every
  method its scopes suffice for is one the approved scopes suffice for.\<close>

theorem narrower_scopes_do_no_more:
  assumes "roleScopesAllow ''operator'' requested approved"
    and "scopes_suffice plugin m (normalizeScopeList requested)"
  shows "scopes_suffice plugin m (normalizeScopeList approved)"
proof (cases "normalizeScopeList requested = []")
  case False
  have op: "js_trim ''operator'' = ''operator''" by code_simp
  have sat: "operatorScopeSatisfied s (normalizeScopeList approved)" if "s \<in> set (normalizeScopeList requested)" for s
    using assms(1) that False by (auto simp: roleScopesAllow_def op Let_def list_all_iff split: if_splits)
  note granted = sat [THEN operatorScopeSatisfied_cases]
  from assms(2) consider "ADMIN_SCOPE \<in> set (normalizeScopeList requested)"
    | "required_scope plugin m \<in> set (normalizeScopeList requested)"
    | "required_scope plugin m = READ_SCOPE" "WRITE_SCOPE \<in> set (normalizeScopeList requested)"
    unfolding scopes_suffice_def by blast
  then show ?thesis
  proof cases
    case 1
    then show ?thesis using granted [OF 1] scopes_differ unfolding scopes_suffice_def by blast
  next
    case 2
    then show ?thesis using granted [OF 2] unfolding scopes_suffice_def by blast
  next
    case 3
    then show ?thesis using granted [OF 3(2)] scopes_differ unfolding scopes_suffice_def by blast
  qed
qed (use assms(2) in \<open>simp add: scopes_suffice_def\<close>)

theorem narrower_scopes_do_no_more_witness:
  "scopes_suffice (\<lambda>_. None) ''send'' (normalizeScopeList ['' operator.write ''])"
  by (rule narrower_scopes_do_no_more [of "[''operator.write'']"]) code_simp+

subsection \<open>Three writes in a window\<close>

fun budget_answers :: "buckets \<Rightarrow> (int \<times> string) list \<Rightarrow> (string \<times> bool) list" where
  "budget_answers bs [] = []"
| "budget_answers bs ((now, k) # reqs) =
     (case consumeControlPlaneWriteBudget now k bs of (b, bs') \<Rightarrow> (k, bd_allowed b) # budget_answers bs' reqs)"

definition answers_of :: "string \<Rightarrow> (string \<times> bool) list \<Rightarrow> bool list" where
  "answers_of k as = map snd (filter (\<lambda>a. fst a = k) as)"

lemma consume_length:
  "length (snd (consumeControlPlaneWriteBudget now k bs)) \<le> Suc (length bs)"
  by (auto simp: consumeControlPlaneWriteBudget_def evictOldest_def length_update Let_def
      split: option.splits list.splits intro: le_SucI length_delete_le [THEN le_trans])

lemma consume_other:
  assumes "k' \<noteq> k" and "length bs < CONTROL_PLANE_BUCKET_MAX_ENTRIES"
  shows "map_of (snd (consumeControlPlaneWriteBudget now k' bs)) k = map_of bs k"
  using assms by (auto simp: consumeControlPlaneWriteBudget_def evictOldest_def store_law split: option.splits)

lemma consume_open:
  assumes "map_of bs k = Some b" and "now < bk_windowStartMs b + CONTROL_PLANE_RATE_LIMIT_WINDOW_MS"
  shows "bk_count b < CONTROL_PLANE_RATE_LIMIT_MAX_REQUESTS \<Longrightarrow> bd_allowed (fst (consumeControlPlaneWriteBudget now k bs)) \<and>
      map_of (snd (consumeControlPlaneWriteBudget now k bs)) k = Some (b\<lparr>bk_count := bk_count b + 1\<rparr>)"
    and "CONTROL_PLANE_RATE_LIMIT_MAX_REQUESTS \<le> bk_count b \<Longrightarrow>
      \<not> bd_allowed (fst (consumeControlPlaneWriteBudget now k bs)) \<and> snd (consumeControlPlaneWriteBudget now k bs) = bs"
  using assms by (auto simp: consumeControlPlaneWriteBudget_def window_over_def store_law)

lemma answers_in_open_window:
  "map_of bs k = Some b \<Longrightarrow> 0 \<le> bk_count b \<Longrightarrow> bk_count b \<le> CONTROL_PLANE_RATE_LIMIT_MAX_REQUESTS \<Longrightarrow>
   \<forall>t. (t, k) \<in> set reqs \<longrightarrow> t < bk_windowStartMs b + CONTROL_PLANE_RATE_LIMIT_WINDOW_MS \<Longrightarrow>
   length bs + length reqs \<le> CONTROL_PLANE_BUCKET_MAX_ENTRIES \<Longrightarrow>
   answers_of k (budget_answers bs reqs) =
     (let n = length (filter (\<lambda>r. snd r = k) reqs); left = nat (CONTROL_PLANE_RATE_LIMIT_MAX_REQUESTS - bk_count b)
      in replicate (min left n) True @ replicate (n - left) False)"
proof (induction reqs arbitrary: bs b)
  case (Cons req reqs)
  obtain now k' where req: "req = (now, k')" by fastforce
  let ?res = "consumeControlPlaneWriteBudget now k' bs"
  have unfold: "answers_of k (budget_answers bs (req # reqs)) =
      (if k' = k then [bd_allowed (fst ?res)] else []) @ answers_of k (budget_answers (snd ?res) reqs)"
    by (simp add: req answers_of_def case_prod_beta)
  have len: "length (snd ?res) + length reqs \<le> CONTROL_PLANE_BUCKET_MAX_ENTRIES"
    using Cons.prems(5) consume_length [of now k' bs] by simp
  show ?case
  proof (cases "k' = k")
    case False
    then have "map_of (snd ?res) k = Some b" using consume_other [of k' k bs now] Cons.prems(1,5) by simp
    from Cons.IH [OF this Cons.prems(2,3) _ len] show ?thesis using Cons.prems(4) False unfold by (simp add: req Let_def)
  next
    case True
    then have now: "now < bk_windowStartMs b + CONTROL_PLANE_RATE_LIMIT_WINDOW_MS" using Cons.prems(4) req by simp
    note one = consume_open [OF Cons.prems(1) now]
    show ?thesis
    proof (cases "bk_count b < CONTROL_PLANE_RATE_LIMIT_MAX_REQUESTS")
      case less: True
      let ?b = "b\<lparr>bk_count := bk_count b + 1\<rparr>"
      obtain l where l: "nat (CONTROL_PLANE_RATE_LIMIT_MAX_REQUESTS - bk_count b) = Suc l"
        "nat (CONTROL_PLANE_RATE_LIMIT_MAX_REQUESTS - bk_count ?b) = l"
        using less by (cases "nat (CONTROL_PLANE_RATE_LIMIT_MAX_REQUESTS - bk_count b)") auto
      have "map_of (snd ?res) k = Some ?b" using one(1) [OF less] True by simp
      from Cons.IH [OF this _ _ _ len] show ?thesis
        using Cons.prems(2,4) less one(1) [OF less] True unfold l by (simp add: req Let_def)
    next
      case full: False
      then have "map_of (snd ?res) k = Some b" using one(2) Cons.prems(1) True by simp
      from Cons.IH [OF this Cons.prems(2,3) _ len] show ?thesis
        using Cons.prems(4) full one(2) True unfold by (simp add: req Let_def)
    qed
  qed
qed (simp add: answers_of_def)

text \<open>C27: Three writes to the control plane in a window. After the first write of a client, of its further writes within the minute
  exactly the next two pass, however many it tries and whatever other clients do meanwhile, as long as the table has room.\<close>

theorem three_writes_in_a_window:
  assumes "map_of bs k = None" and "\<forall>t. (t, k) \<in> set reqs \<longrightarrow> t < now + CONTROL_PLANE_RATE_LIMIT_WINDOW_MS"
    and "length bs + length reqs < CONTROL_PLANE_BUCKET_MAX_ENTRIES"
  shows "answers_of k (budget_answers bs ((now, k) # reqs)) =
     (let n = length (filter (\<lambda>r. snd r = k) reqs) in True # replicate (min 2 n) True @ replicate (n - 2) False)"
proof -
  let ?bs = "AList.update k \<lparr>bk_count = 1, bk_windowStartMs = now\<rparr> bs"
  have first: "consumeControlPlaneWriteBudget now k bs =
      (\<lparr>bd_allowed = True, bd_retryAfterMs = 0, bd_remaining = CONTROL_PLANE_RATE_LIMIT_MAX_REQUESTS - 1, bd_key = k\<rparr>, ?bs)"
    using assms(1,3) by (simp add: consumeControlPlaneWriteBudget_def evictOldest_def)
  have "answers_of k (budget_answers ?bs reqs) =
      (let n = length (filter (\<lambda>r. snd r = k) reqs) in replicate (min 2 n) True @ replicate (n - 2) False)"
    using answers_in_open_window [of ?bs k "\<lparr>bk_count = 1, bk_windowStartMs = now\<rparr>" reqs] assms
    by (simp add: store_law length_update control_plane_limits)
  then show ?thesis by (simp add: first answers_of_def Let_def)
qed

theorem three_writes_in_a_window_witness:
  "answers_of ''d|i'' (budget_answers [] [(5, ''d|i''), (6, ''x''), (7, ''d|i''), (8, ''d|i''), (60004, ''d|i'')]) = [True, True, True, False]"
  using three_writes_in_a_window [of "[]" "''d|i''" "[(6, ''x''), (7, ''d|i''), (8, ''d|i''), (60004, ''d|i'')]" 5]
  by (simp add: control_plane_limits CONTROL_PLANE_BUCKET_MAX_ENTRIES_def numeral_2_eq_2)

text \<open>The windows do not slide: five writes pass within two milliseconds when a window ends between them.\<close>

lemma two_windows_meet:
  "answers_of ''d'' (budget_answers [] [(0, ''d''), (59999, ''d''), (59999, ''d''), (60000, ''d''), (60000, ''d''), (60000, ''d'')])
     = replicate 6 True"
  by code_simp

end
