(* ===== verification/ConnectPolicy.thy ===== *)
theory ConnectPolicy
  imports GatewaySafety GatewayMethods
begin

text \<open>
  The handshake of a web socket client: \<^verbatim>\<open>packages/core/src/gateway/server/ws-connection/\<close> with \<^verbatim>\<open>connect-policy.ts\<close>,
  \<^verbatim>\<open>auth-context.ts\<close>, \<^verbatim>\<open>handshake-auth-helpers.ts\<close> and the part of \<^verbatim>\<open>message-handler.ts\<close> from the connection to the
  decision on the credentials, \<^verbatim>\<open>gateway/device-auth.ts\<close>, \<^verbatim>\<open>gateway/node-pairing-auto-approve.ts\<close> and
  \<^verbatim>\<open>gateway/protocol/client-info.ts\<close>. Signatures and the stores of device and bootstrap tokens are arguments.
\<close>

subsection \<open>Clients\<close>

definition GATEWAY_CLIENT_IDS :: "string list" where
  "GATEWAY_CLIENT_IDS =
     [''webchat-ui'', ''brikko-studio-control-ui'', ''brikko-studio-tui'', ''webchat'', ''cli'', ''gateway-client'',
      ''brikko-studio-macos'', ''brikko-studio-ios'', ''brikko-studio-android'', ''node-host'', ''test'', ''fingerprint'',
      ''brikko-studio-probe'']"

definition GATEWAY_CLIENT_MODES :: "string list" where
  "GATEWAY_CLIENT_MODES = [''webchat'', ''cli'', ''ui'', ''backend'', ''node'', ''probe'', ''test'']"

definition normalizeGatewayClientId :: "string option \<Rightarrow> string option" where
  "normalizeGatewayClientId raw =
     (case normalizeOptionalLowercaseString raw of
        None \<Rightarrow> None | Some n \<Rightarrow> if n \<noteq> [] \<and> n \<in> set GATEWAY_CLIENT_IDS then Some n else None)"

definition normalizeGatewayClientMode :: "string option \<Rightarrow> string option" where
  "normalizeGatewayClientMode raw =
     (case normalizeOptionalLowercaseString raw of
        None \<Rightarrow> None | Some n \<Rightarrow> if n \<noteq> [] \<and> n \<in> set GATEWAY_CLIENT_MODES then Some n else None)"

record client_info =
  ci_id :: string
  ci_mode :: string
  ci_platform :: "string option"
  ci_deviceFamily :: "string option"

definition isOperatorUiClient :: "client_info \<Rightarrow> bool" where
  "isOperatorUiClient c \<longleftrightarrow>
     normalizeGatewayClientId (Some (ci_id c)) \<in> {Some ''brikko-studio-control-ui'', Some ''brikko-studio-tui''}"

definition isBrowserOperatorUiClient :: "client_info \<Rightarrow> bool" where
  "isBrowserOperatorUiClient c \<longleftrightarrow> normalizeGatewayClientId (Some (ci_id c)) = Some ''brikko-studio-control-ui''"

definition isWebchatClient :: "client_info \<Rightarrow> bool" where
  "isWebchatClient c \<longleftrightarrow>
     normalizeGatewayClientMode (Some (ci_mode c)) = Some ''webchat'' \<or> normalizeGatewayClientId (Some (ci_id c)) = Some ''webchat-ui''"

record handshake_auth =
  ha_token :: "string option"
  ha_bootstrapToken :: "string option"
  ha_deviceToken :: "string option"
  ha_password :: "string option"

record device_identity =
  dv_id :: string
  dv_publicKey :: string
  dv_signature :: string
  dv_signedAt :: "int option"
  dv_nonce :: "string option"

subsection \<open>The policy of the control page\<close>

record control_ui_config =
  cu_allowInsecureAuth :: "bool option"
  cu_dangerouslyDisableDeviceAuth :: "bool option"

record control_ui_policy =
  cp_isControlUi :: bool
  cp_allowInsecureAuthConfigured :: bool
  cp_deviceAuthDisabled :: bool
  cp_allowBypass :: bool
  cp_device :: "device_identity option"

definition resolveControlUiAuthPolicy :: "bool \<Rightarrow> control_ui_config option \<Rightarrow> device_identity option \<Rightarrow> control_ui_policy" where
  "resolveControlUiAuthPolicy isControlUi cfg deviceRaw =
     (let insecure = isControlUi \<and> Option.bind cfg cu_allowInsecureAuth = Some True;
          disabled = isControlUi \<and> Option.bind cfg cu_dangerouslyDisableDeviceAuth = Some True
      in \<lparr>cp_isControlUi = isControlUi, cp_allowInsecureAuthConfigured = insecure, cp_deviceAuthDisabled = disabled,
          cp_allowBypass = disabled, cp_device = (if disabled then None else deviceRaw)\<rparr>)"

definition shouldSkipControlUiPairing :: "control_ui_policy \<Rightarrow> gateway_role \<Rightarrow> bool \<Rightarrow> gateway_mode \<Rightarrow> auth_method \<Rightarrow> bool" where
  "shouldSkipControlUiPairing policy role trustedProxyAuthOk authMode authMethod =
     (if trustedProxyAuthOk then True
      else if cp_isControlUi policy \<and> role = Operator \<and> authMethod = MethodTailscale \<and> cp_device policy \<noteq> None then True
      else if cp_isControlUi policy \<and> role = Operator \<and> authMode = ModeNone then True
      else role = Operator \<and> cp_allowBypass policy)"

definition isTrustedProxyControlUiOperatorAuth :: "bool \<Rightarrow> gateway_role \<Rightarrow> gateway_mode \<Rightarrow> bool \<Rightarrow> auth_method \<Rightarrow> bool" where
  "isTrustedProxyControlUiOperatorAuth isControlUi role authMode authOk authMethod \<longleftrightarrow>
     isControlUi \<and> role = Operator \<and> authMode = ModeTrustedProxy \<and> authOk \<and> authMethod = MethodTrustedProxy"

datatype missing_device_decision = AllowMissing | RejectControlUiInsecureAuth | RejectUnauthorized | RejectDeviceRequired

definition shouldClearUnboundScopesForMissingDeviceIdentity ::
    "missing_device_decision \<Rightarrow> control_ui_policy \<Rightarrow> bool \<Rightarrow> auth_method \<Rightarrow> bool \<Rightarrow> bool" where
  "shouldClearUnboundScopesForMissingDeviceIdentity decision policy preserveInsecureLocal authMethod trustedProxyAuthOk \<longleftrightarrow>
     decision \<noteq> AllowMissing \<or>
     (\<not> cp_allowBypass policy \<and> \<not> preserveInsecureLocal \<and>
      (authMethod = MethodToken \<or> authMethod = MethodPassword \<or> authMethod = MethodTrustedProxy \<or> trustedProxyAuthOk))"

record missing_device_params =
  md_hasDeviceIdentity :: bool
  md_role :: gateway_role
  md_isControlUi :: bool
  md_policy :: control_ui_policy
  md_trustedProxyAuthOk :: bool
  md_sharedAuthOk :: bool
  md_authOk :: bool
  md_hasSharedAuth :: bool
  md_isLocalClient :: bool

definition evaluateMissingDeviceIdentity :: "missing_device_params \<Rightarrow> missing_device_decision" where
  "evaluateMissingDeviceIdentity p =
     (if md_hasDeviceIdentity p then AllowMissing
      else if md_isControlUi p \<and> md_trustedProxyAuthOk p then AllowMissing
      else if md_isControlUi p \<and> cp_allowBypass (md_policy p) \<and> md_role p = Operator then AllowMissing
      else if md_isControlUi p \<and> \<not> cp_allowBypass (md_policy p) \<and>
              (\<not> cp_allowInsecureAuthConfigured (md_policy p) \<or> \<not> md_isLocalClient p)
      then RejectControlUiInsecureAuth
      else if roleCanSkipDeviceIdentity (md_role p) (md_sharedAuthOk p) then AllowMissing
      else if \<not> md_authOk p \<and> md_hasSharedAuth p then RejectUnauthorized
      else RejectDeviceRequired)"

subsection \<open>Credentials of a handshake\<close>

datatype device_token_source = ExplicitDeviceToken | SharedTokenFallback

record connect_auth_state =
  cs_authResult :: gateway_auth_result
  cs_authOk :: bool
  cs_authMethod :: auth_method
  cs_sharedAuthOk :: bool
  cs_sharedAuthProvided :: bool
  cs_bootstrapToken :: "string option"
  cs_deviceToken :: "string option"
  cs_deviceTokenSource :: "device_token_source option"

definition resolveSharedConnectAuth :: "handshake_auth option \<Rightarrow> connect_auth option" where
  "resolveSharedConnectAuth c =
     (let token = normalizeOptionalString (Option.bind c ha_token); password = normalizeOptionalString (Option.bind c ha_password)
      in if token = None \<and> password = None then None else Some \<lparr>ca_token = token, ca_password = password\<rparr>)"

definition resolveDeviceTokenCandidate :: "handshake_auth option \<Rightarrow> string option \<times> device_token_source option" where
  "resolveDeviceTokenCandidate c =
     (case normalizeOptionalString (Option.bind c ha_deviceToken) of
        Some t \<Rightarrow> (Some t, Some ExplicitDeviceToken)
      | None \<Rightarrow>
          (case normalizeOptionalString (Option.bind c ha_token) of
             Some t \<Rightarrow> (Some t, Some SharedTokenFallback) | None \<Rightarrow> (None, None)))"

text \<open>The settings and the request behind a handshake.\<close>

record handshake_env =
  hs_auth :: gateway_auth
  hs_req :: gw_request
  hs_trustedProxies :: "string list"
  hs_allowRealIp :: bool
  hs_limiter :: "limiter option"
  hs_clientIp :: "string option"

definition primary_params :: "handshake_env \<Rightarrow> connect_auth option \<Rightarrow> connect_params" where
  "primary_params h shared =
     \<lparr>cp_auth = hs_auth h, cp_connectAuth = shared, cp_req = Some (hs_req h), cp_trustedProxies = Some (hs_trustedProxies h),
      cp_surface = None, cp_limiter = (if shared \<noteq> None then hs_limiter h else None), cp_clientIp = hs_clientIp h,
      cp_scope = Some AUTH_RATE_LIMIT_SCOPE_SHARED_SECRET, cp_allowRealIp = Some (hs_allowRealIp h), cp_originPolicy = None\<rparr>"

definition probe_params :: "handshake_env \<Rightarrow> connect_auth option \<Rightarrow> connect_params" where
  "probe_params h shared =
     (primary_params h shared)\<lparr>cp_auth := (hs_auth h)\<lparr>ga_allowTailscale := False\<rparr>, cp_limiter := None, cp_clientIp := None\<rparr>"

definition resolveConnectAuthState :: "gw_env \<Rightarrow> (string \<Rightarrow> whois_identity option) \<Rightarrow> nat \<Rightarrow> int \<Rightarrow> handshake_env
    \<Rightarrow> handshake_auth option \<Rightarrow> bool \<Rightarrow> rl_map \<Rightarrow> connect_auth_state \<times> rl_map" where
  "resolveConnectAuthState env whois wait now h connectAuth hasDeviceIdentity m =
     (let shared = resolveSharedConnectAuth connectAuth;
          bootstrap = (if hasDeviceIdentity then normalizeOptionalString (Option.bind connectAuth ha_bootstrapToken) else None);
          (deviceToken, source) = (if hasDeviceIdentity then resolveDeviceTokenCandidate connectAuth else (None, None));
          (authResult, m') = authorizeWsControlUiGatewayConnect env whois wait now (primary_params h shared) m;
          sharedAuthResult = (if shared = None then None
                              else Some (fst (authorizeHttpGatewayConnect env whois wait (now + int wait) (probe_params h shared) m')));
          sharedAuthOk = ((case sharedAuthResult of
                             None \<Rightarrow> False
                           | Some r \<Rightarrow> gr_ok r \<and> (gr_method r = Some MethodToken \<or> gr_method r = Some MethodPassword)) \<or>
                          gr_ok authResult \<and> gr_method authResult = Some MethodTrustedProxy)
      in (\<lparr>cs_authResult = authResult, cs_authOk = gr_ok authResult,
           cs_authMethod = coalesce (gr_method authResult) (if ga_mode (hs_auth h) = ModePassword then MethodPassword else MethodToken),
           cs_sharedAuthOk = sharedAuthOk, cs_sharedAuthProvided = (shared \<noteq> None),
           cs_bootstrapToken = bootstrap, cs_deviceToken = deviceToken, cs_deviceTokenSource = source\<rparr>, m'))"

text \<open>Who asks for a decision. The verifiers of both kinds of tokens are arguments: of device, key, token, role and scopes.\<close>

record decision_request =
  dr_deviceId :: "string option"
  dr_publicKey :: "string option"
  dr_role :: string
  dr_scopes :: "string list"
  dr_hasDevice :: bool
  dr_clientIp :: "string option"

type_synonym bootstrap_verifier = "string \<Rightarrow> string \<Rightarrow> string \<Rightarrow> string \<Rightarrow> string list \<Rightarrow> bool \<times> string option"
type_synonym device_verifier = "string \<Rightarrow> string \<Rightarrow> string \<Rightarrow> string list \<Rightarrow> bool"
type_synonym auth_decision = "gateway_auth_result \<times> bool \<times> auth_method"

definition bootstrapDecision :: "bootstrap_verifier \<Rightarrow> connect_auth_state \<Rightarrow> decision_request \<Rightarrow> auth_decision" where
  "bootstrapDecision verify st rq =
     (let asis = (cs_authResult st, cs_authOk st, cs_authMethod st)
      in if dr_hasDevice rq \<and> truthy_string (dr_deviceId rq) \<and> truthy_string (dr_publicKey rq) \<and> truthy_string (cs_bootstrapToken st)
         then (case verify (the (dr_deviceId rq)) (the (dr_publicKey rq)) (the (cs_bootstrapToken st)) (dr_role rq) (dr_scopes rq) of
                 (True, _) \<Rightarrow> (cs_authResult st, True, MethodBootstrapToken)
               | (False, why) \<Rightarrow>
                   if \<not> cs_authOk st then (refused (coalesce why ''bootstrap_token_invalid''), cs_authOk st, cs_authMethod st) else asis)
         else asis)"

definition deviceTokenDue :: "connect_auth_state \<Rightarrow> decision_request \<Rightarrow> auth_decision \<Rightarrow> bool" where
  "deviceTokenDue st rq d \<longleftrightarrow>
     dr_hasDevice rq \<and> truthy_string (dr_deviceId rq) \<and> \<not> fst (snd d) \<and> truthy_string (cs_deviceToken st)"

definition deviceTokenCheck :: "gw_env \<Rightarrow> limiter option \<Rightarrow> int \<Rightarrow> decision_request \<Rightarrow> rl_map \<Rightarrow> gateway_auth_result option \<times> rl_map" where
  "deviceTokenCheck env lim now rq m =
     (case lim of
        None \<Rightarrow> (None, m)
      | Some cfg \<Rightarrow>
          (let (r, m') = check (gateway_net_env (gw_lib env)) cfg now (dr_clientIp rq) (Some AUTH_RATE_LIMIT_SCOPE_DEVICE_TOKEN) m
           in (if allowed r then None else Some (rate_limited (retryAfterMs r)), m')))"

definition deviceTokenFinish :: "gw_env \<Rightarrow> limiter option \<Rightarrow> int \<Rightarrow> connect_auth_state \<Rightarrow> decision_request \<Rightarrow> auth_decision \<Rightarrow> bool
    \<Rightarrow> rl_map \<Rightarrow> auth_decision \<times> rl_map" where
  "deviceTokenFinish env lim now st rq d verified m =
     (let nenv = gateway_net_env (gw_lib env);
          forget = (\<lambda>scope m. if lim = None then m else reset nenv (dr_clientIp rq) (Some scope) m)
      in if verified
         then ((fst d, True, MethodDeviceToken),
               (let m1 = forget AUTH_RATE_LIMIT_SCOPE_DEVICE_TOKEN m
                in if cs_sharedAuthProvided st then forget AUTH_RATE_LIMIT_SCOPE_SHARED_SECRET m1 else m1))
         else ((refused (if cs_deviceTokenSource st = Some ExplicitDeviceToken then ''device_token_mismatch''
                         else coalesce (gr_reason (fst d)) ''device_token_mismatch''), snd d),
               (case lim of None \<Rightarrow> m
                | Some cfg \<Rightarrow> recordFailure nenv cfg now (dr_clientIp rq) (Some AUTH_RATE_LIMIT_SCOPE_DEVICE_TOKEN) m)))"

definition resolveConnectAuthDecision :: "gw_env \<Rightarrow> bootstrap_verifier \<Rightarrow> device_verifier \<Rightarrow> limiter option \<Rightarrow> nat \<Rightarrow> int
    \<Rightarrow> connect_auth_state \<Rightarrow> decision_request \<Rightarrow> rl_map \<Rightarrow> auth_decision \<times> rl_map" where
  "resolveConnectAuthDecision env verifyBootstrapToken verifyDeviceToken lim wait now st rq m =
     (let d = bootstrapDecision verifyBootstrapToken st rq
      in if \<not> deviceTokenDue st rq d then (d, m)
         else (case deviceTokenCheck env lim now rq m of
                 (Some r, m') \<Rightarrow> ((r, snd d), m')
               | (None, m') \<Rightarrow>
                   deviceTokenFinish env lim (now + int wait) st rq d
                     (verifyDeviceToken (the (dr_deviceId rq)) (the (cs_deviceToken st)) (dr_role rq) (dr_scopes rq)) m'))"

end
