(* ===== verification/Handshake.thy ===== *)
theory Handshake
  imports ConnectPolicy
begin

text \<open>
  The rest of the web socket handshake: \<^verbatim>\<open>handshake-auth-helpers.ts\<close>, \<^verbatim>\<open>gateway/device-auth.ts\<close>,
  \<^verbatim>\<open>gateway/node-pairing-auto-approve.ts\<close>, and in \<^verbatim>\<open>message-handler.ts\<close> what a connection derives from its request
  and the way of a connect request up to the decision on its credentials. What it proves is who passes.
\<close>

subsection \<open>Browsers\<close>

definition BROWSER_ORIGIN_LOOPBACK_RATE_LIMIT_IP :: string where "BROWSER_ORIGIN_LOOPBACK_RATE_LIMIT_IP = ''198.18.0.1''"
definition BROWSER_ORIGIN_RATE_LIMIT_KEY_PREFIX :: string where "BROWSER_ORIGIN_RATE_LIMIT_KEY_PREFIX = ''browser-origin:''"

definition resolveBrowserOriginRateLimitKey :: "(string \<Rightarrow> web_url option) \<Rightarrow> string option \<Rightarrow> string" where
  "resolveBrowserOriginRateLimitKey parse requestOrigin =
     (let trimmed = js_trim (coalesce requestOrigin [])
      in if trimmed = [] then BROWSER_ORIGIN_LOOPBACK_RATE_LIMIT_IP
         else case parse trimmed of
           None \<Rightarrow> BROWSER_ORIGIN_LOOPBACK_RATE_LIMIT_IP
         | Some u \<Rightarrow> BROWSER_ORIGIN_RATE_LIMIT_KEY_PREFIX @ normalizeLowercaseStringOrEmpty (Some (url_origin u)))"

definition hasBrowserOrigin :: "string option \<Rightarrow> bool" where
  "hasBrowserOrigin requestOrigin \<longleftrightarrow> js_trim (coalesce requestOrigin []) \<noteq> []"

definition rateLimitClientIpFor :: "gw_env \<Rightarrow> string option \<Rightarrow> string option \<Rightarrow> string option" where
  "rateLimitClientIpFor env requestOrigin clientIp =
     (if hasBrowserOrigin requestOrigin \<and> net_isLoopbackAddress (gw_lib env) clientIp
      then Some (resolveBrowserOriginRateLimitKey (gw_url env) requestOrigin) else clientIp)"

definition authRateLimiterFor :: "string option \<Rightarrow> 'l option \<Rightarrow> 'l option \<Rightarrow> 'l option" where
  "authRateLimiterFor requestOrigin rateLimiter browserRateLimiter =
     (if hasBrowserOrigin requestOrigin \<and> browserRateLimiter \<noteq> None then browserRateLimiter else rateLimiter)"

subsection \<open>Near and far\<close>

datatype pairing_locality = DirectLocal | CliContainerLocal | BrowserContainerLocal | SharedSecretLoopbackLocal | Remote

datatype pairing_reason = NotPaired | RoleUpgrade | ScopeUpgrade | MetadataUpgrade

definition shouldAllowSilentLocalPairing ::
    "pairing_locality \<Rightarrow> bool \<Rightarrow> bool \<Rightarrow> bool \<Rightarrow> bool \<Rightarrow> pairing_reason \<Rightarrow> bool" where
  "shouldAllowSilentLocalPairing locality hasBrowserOriginHeader isControlUi isWebchat isNativeAppUi reason =
     (if locality = Remote then False
      else if hasBrowserOriginHeader \<and> \<not> isControlUi \<and> \<not> isWebchat then False
      else if reason = NotPaired \<or> reason = ScopeUpgrade \<or> reason = RoleUpgrade then True
      else reason = MetadataUpgrade \<and> \<not> hasBrowserOriginHeader \<and> \<not> isControlUi \<and> \<not> isWebchat \<and>
           ((locality = DirectLocal \<and> isNativeAppUi) \<or> locality = CliContainerLocal \<or> locality = SharedSecretLoopbackLocal))"

record locality_params =
  lo_client :: client_info
  lo_isLocalClient :: bool
  lo_requestHost :: "string option"
  lo_requestOrigin :: "string option"
  lo_remoteAddress :: "string option"
  lo_hasProxyHeaders :: bool
  lo_hasBrowserOrigin :: bool
  lo_sharedAuthOk :: bool
  lo_authMethod :: auth_method

definition usesSharedSecretAuth :: "auth_method \<Rightarrow> bool" where
  "usesSharedSecretAuth mth \<longleftrightarrow> mth = MethodToken \<or> mth = MethodPassword"

definition isSharedSecretLoopbackLocalEquivalent :: "ipaddr_lib \<Rightarrow> locality_params \<Rightarrow> bool" where
  "isSharedSecretLoopbackLocalEquivalent lib p \<longleftrightarrow>
     lo_sharedAuthOk p \<and> usesSharedSecretAuth (lo_authMethod p) \<and> \<not> lo_hasProxyHeaders p \<and> \<not> lo_hasBrowserOrigin p \<and>
     net_isLoopbackAddress lib (lo_remoteAddress p) \<and> isPrivateOrLoopbackHost lib (resolveHostName (lo_requestHost p))"

definition isCliContainerLocalEquivalent :: "ipaddr_lib \<Rightarrow> locality_params \<Rightarrow> bool" where
  "isCliContainerLocalEquivalent lib p \<longleftrightarrow>
     ci_id (lo_client p) = ''cli'' \<and> ci_mode (lo_client p) = ''cli'' \<and>
     lo_sharedAuthOk p \<and> usesSharedSecretAuth (lo_authMethod p) \<and> \<not> lo_hasProxyHeaders p \<and> \<not> lo_hasBrowserOrigin p \<and>
     net_isLoopbackAddress lib (lo_remoteAddress p) \<and> isPrivateOrLoopbackHost lib (resolveHostName (lo_requestHost p))"

definition resolveOriginHost :: "(string \<Rightarrow> web_url option) \<Rightarrow> string option \<Rightarrow> string" where
  "resolveOriginHost parse requestOrigin =
     (let trimmed = js_trim (coalesce requestOrigin [])
      in if trimmed = [] then [] else case parse trimmed of None \<Rightarrow> [] | Some u \<Rightarrow> url_hostname u)"

definition isControlUiBrowserContainerLocalEquivalent :: "gw_env \<Rightarrow> locality_params \<Rightarrow> bool" where
  "isControlUiBrowserContainerLocalEquivalent env p \<longleftrightarrow>
     ci_id (lo_client p) = ''brikko-studio-control-ui'' \<and> ci_mode (lo_client p) = ''webchat'' \<and>
     lo_sharedAuthOk p \<and> usesSharedSecretAuth (lo_authMethod p) \<and> \<not> lo_hasProxyHeaders p \<and> lo_hasBrowserOrigin p \<and>
     isPrivateOrLoopbackAddress (gw_lib env) (lo_remoteAddress p) \<and>
     isLoopbackHost (gw_lib env) (resolveHostName (lo_requestHost p)) \<and>
     isLoopbackHost (gw_lib env) (resolveOriginHost (gw_url env) (lo_requestOrigin p))"

definition resolvePairingLocality :: "gw_env \<Rightarrow> locality_params \<Rightarrow> pairing_locality" where
  "resolvePairingLocality env p =
     (if lo_isLocalClient p then DirectLocal
      else if isControlUiBrowserContainerLocalEquivalent env p then BrowserContainerLocal
      else if isCliContainerLocalEquivalent (gw_lib env) p then CliContainerLocal
      else if isSharedSecretLoopbackLocalEquivalent (gw_lib env) p then SharedSecretLoopbackLocal
      else Remote)"

definition shouldSkipLocalBackendSelfPairing :: "client_info \<Rightarrow> pairing_locality \<Rightarrow> bool \<Rightarrow> bool \<Rightarrow> auth_method \<Rightarrow> bool" where
  "shouldSkipLocalBackendSelfPairing client locality hasBrowserOriginHeader sharedAuthOk mth \<longleftrightarrow>
     ci_id client = ''gateway-client'' \<and> ci_mode client = ''backend'' \<and>
     (locality = DirectLocal \<or> locality = SharedSecretLoopbackLocal) \<and> \<not> hasBrowserOriginHeader \<and>
     ((sharedAuthOk \<and> usesSharedSecretAuth mth) \<or> mth = MethodDeviceToken)"

text \<open>Nodes of networks the settings name are paired without a question, unless the address came through a proxy on this machine.\<close>

datatype client_ip_source = SourceNone | SourceDirect | SourceTrustedProxy | SourceLoopbackTrustedProxy

definition resolveNodePairingClientIpSource :: "string option \<Rightarrow> bool \<Rightarrow> bool \<Rightarrow> bool \<Rightarrow> client_ip_source" where
  "resolveNodePairingClientIpSource reportedClientIp hasProxyHeaders remoteIsTrustedProxy remoteIsLoopback =
     (if \<not> truthy_string reportedClientIp then SourceNone
      else if \<not> hasProxyHeaders \<or> \<not> remoteIsTrustedProxy then SourceDirect
      else if remoteIsLoopback then SourceLoopbackTrustedProxy else SourceTrustedProxy)"

record auto_approve_params =
  aa_existingPairedDevice :: bool
  aa_role :: string
  aa_reason :: pairing_reason
  aa_scopes :: "string list"
  aa_hasBrowserOrigin :: bool
  aa_isControlUi :: bool
  aa_isWebchat :: bool
  aa_source :: client_ip_source
  aa_reportedClientIp :: "string option"
  aa_autoApproveCidrs :: "string list option"

definition shouldAutoApproveNodePairingFromTrustedCidrs :: "ipaddr_lib \<Rightarrow> auto_approve_params \<Rightarrow> bool" where
  "shouldAutoApproveNodePairingFromTrustedCidrs lib p =
     (if aa_existingPairedDevice p \<or> aa_role p \<noteq> ''node'' \<or> aa_reason p \<noteq> NotPaired \<or> aa_scopes p \<noteq> [] then False
      else if aa_hasBrowserOrigin p \<or> aa_isControlUi p \<or> aa_isWebchat p then False
      else if aa_source p = SourceNone \<or> aa_source p = SourceLoopbackTrustedProxy then False
      else if \<not> truthy_string (aa_reportedClientIp p) then False
      else (let cidrs = filter (\<lambda>e. e \<noteq> []) (map js_trim (coalesce (aa_autoApproveCidrs p) []))
            in cidrs \<noteq> [] \<and> isTrustedProxyAddress lib (aa_reportedClientIp p) (Some cidrs)))"

subsection \<open>What a device signs\<close>

definition toLowerAscii :: "string \<Rightarrow> string" where
  "toLowerAscii s = map (\<lambda>c. let n = (of_char c :: nat) in if 65 \<le> n \<and> n \<le> 90 then char_of (n + 32) else c) s"

definition normalizeTrimmedMetadata :: "string option \<Rightarrow> string" where
  "normalizeTrimmedMetadata v = js_trim (coalesce v [])"

definition normalizeDeviceMetadataForAuth :: "string option \<Rightarrow> string" where
  "normalizeDeviceMetadataForAuth v =
     (let t = normalizeTrimmedMetadata v in if t = [] then [] else toLowerAscii t)"

record auth_payload =
  ap_deviceId :: string
  ap_clientId :: string
  ap_clientMode :: string
  ap_role :: string
  ap_scopes :: "string list"
  ap_signedAtMs :: int
  ap_token :: "string option"
  ap_nonce :: string

definition payload_fields :: "string \<Rightarrow> auth_payload \<Rightarrow> string list" where
  "payload_fields version p =
     [version, ap_deviceId p, ap_clientId p, ap_clientMode p, ap_role p, js_join '','' (ap_scopes p), show_int (ap_signedAtMs p),
      coalesce (ap_token p) [], ap_nonce p]"

definition buildDeviceAuthPayload :: "auth_payload \<Rightarrow> string" where
  "buildDeviceAuthPayload p = js_join ''|'' (payload_fields ''v2'' p)"

definition buildDeviceAuthPayloadV3 :: "auth_payload \<Rightarrow> string option \<Rightarrow> string option \<Rightarrow> string" where
  "buildDeviceAuthPayloadV3 p platform deviceFamily =
     js_join ''|'' (payload_fields ''v3'' p @ [normalizeDeviceMetadataForAuth platform, normalizeDeviceMetadataForAuth deviceFamily])"

text \<open>The functions of \<^verbatim>\<open>infra/device-identity.ts\<close> on keys and signatures.\<close>

record device_crypto =
  deriveDeviceIdFromPublicKey :: "string \<Rightarrow> string option"
  verifyDeviceSignature :: "string \<Rightarrow> string \<Rightarrow> string \<Rightarrow> bool"
  normalizeDevicePublicKeyBase64Url :: "string \<Rightarrow> string option"

record connect_request =
  cq_client :: client_info
  cq_role :: "string option"
  cq_scopes :: "string list option"
  cq_auth :: "handshake_auth option"
  cq_device :: "device_identity option"

definition resolveSignatureToken :: "connect_request \<Rightarrow> string option" where
  "resolveSignatureToken q =
     or_else (Option.bind (cq_auth q) ha_token) (or_else (Option.bind (cq_auth q) ha_deviceToken) (Option.bind (cq_auth q) ha_bootstrapToken))"

datatype payload_version = V3 | V2

definition signedPayload :: "device_identity \<Rightarrow> connect_request \<Rightarrow> string \<Rightarrow> string list \<Rightarrow> int \<Rightarrow> string \<Rightarrow> auth_payload" where
  "signedPayload d q role scopes signedAt nonce =
     \<lparr>ap_deviceId = dv_id d, ap_clientId = ci_id (cq_client q), ap_clientMode = ci_mode (cq_client q), ap_role = role,
      ap_scopes = scopes, ap_signedAtMs = signedAt, ap_token = resolveSignatureToken q, ap_nonce = nonce\<rparr>"

definition resolveDeviceSignaturePayloadVersion :: "device_crypto \<Rightarrow> device_identity \<Rightarrow> connect_request \<Rightarrow> string \<Rightarrow> string list
    \<Rightarrow> int \<Rightarrow> string \<Rightarrow> payload_version option" where
  "resolveDeviceSignaturePayloadVersion cr d q role scopes signedAt nonce =
     (let p = signedPayload d q role scopes signedAt nonce
      in if verifyDeviceSignature cr (dv_publicKey d)
              (buildDeviceAuthPayloadV3 p (ci_platform (cq_client q)) (ci_deviceFamily (cq_client q))) (dv_signature d)
         then Some V3
         else if verifyDeviceSignature cr (dv_publicKey d) (buildDeviceAuthPayload p) (dv_signature d) then Some V2
         else None)"

subsection \<open>What a refused client is told\<close>

datatype auth_provided = ProvidedPassword | ProvidedToken | ProvidedBootstrapToken | ProvidedDeviceToken | ProvidedNone

definition resolveAuthProvidedKind :: "handshake_auth option \<Rightarrow> auth_provided" where
  "resolveAuthProvidedKind a =
     (if truthy_string (Option.bind a ha_password) then ProvidedPassword
      else if truthy_string (Option.bind a ha_token) then ProvidedToken
      else if truthy_string (Option.bind a ha_bootstrapToken) then ProvidedBootstrapToken
      else if truthy_string (Option.bind a ha_deviceToken) then ProvidedDeviceToken else ProvidedNone)"

datatype next_step = RetryWithDeviceToken | UpdateAuthConfiguration | UpdateAuthCredentials | WaitThenRetry | ReviewAuthConfiguration

definition resolveUnauthorizedHandshakeContext :: "handshake_auth option \<Rightarrow> gateway_auth_result \<Rightarrow> bool \<Rightarrow> auth_provided \<times> bool \<times> next_step" where
  "resolveUnauthorizedHandshakeContext a failed hasDeviceIdentity =
     (let provided = resolveAuthProvidedKind a; reason = coalesce (gr_reason failed) [];
          canRetry = (gr_reason failed = Some ''token_mismatch'' \<and> hasDeviceIdentity \<and> provided = ProvidedToken \<and>
                      \<not> truthy_string (Option.bind a ha_deviceToken))
      in (provided, canRetry,
          if canRetry then RetryWithDeviceToken
          else if reason \<in> set [''token_missing'', ''token_missing_config'', ''password_missing'', ''password_missing_config'']
          then UpdateAuthConfiguration
          else if reason \<in> set [''token_mismatch'', ''password_mismatch'', ''device_token_mismatch''] then UpdateAuthCredentials
          else if reason = ''rate_limited'' then WaitThenRetry
          else ReviewAuthConfiguration))"

subsection \<open>The connection\<close>

record ws_connection =
  ws_req :: gw_request
  ws_remoteAddr :: "string option"
  ws_forwardedFor :: "string option"
  ws_realIp :: "string option"
  ws_requestHost :: "string option"
  ws_requestOrigin :: "string option"
  ws_connectNonce :: string

record gateway_config =
  gwc_auth :: gateway_auth
  gwc_trustedProxies :: "string list option"
  gwc_allowRealIpFallback :: "bool option"
  gwc_controlUi :: "control_ui_config option"
  gwc_allowedOrigins :: "string list option"
  gwc_hostHeaderOriginFallback :: "bool option"

definition trustedProxiesOf :: "gateway_config \<Rightarrow> string list" where
  "trustedProxiesOf cfg = coalesce (gwc_trustedProxies cfg) []"

definition clientIpOf :: "gw_env \<Rightarrow> gateway_config \<Rightarrow> ws_connection \<Rightarrow> string option" where
  "clientIpOf env cfg c = net_resolveClientIp (gw_lib env)
     \<lparr>remoteAddr = ws_remoteAddr c, forwardedFor = ws_forwardedFor c, realIp = ws_realIp c,
      trusted_proxies = Some (trustedProxiesOf cfg), allow_real_ip = (gwc_allowRealIpFallback cfg = Some True)\<rparr>"

definition isLocalClientOf :: "gw_env \<Rightarrow> ws_connection \<Rightarrow> bool" where
  "isLocalClientOf env c = isLocalDirectRequest (gw_lib env) (Some (ws_req c))"

definition hasProxyHeadersOf :: "ws_connection \<Rightarrow> bool" where
  "hasProxyHeadersOf c = hasForwardedRequestHeaders (Some (ws_req c))"

definition reportedClientIpOf :: "gw_env \<Rightarrow> gateway_config \<Rightarrow> ws_connection \<Rightarrow> string option" where
  "reportedClientIpOf env cfg c =
     (let remoteIsTrustedProxy = isTrustedProxyAddress (gw_lib env) (ws_remoteAddr c) (Some (trustedProxiesOf cfg));
          clientIp = clientIpOf env cfg c
      in if isLocalClientOf env c \<or> (hasProxyHeadersOf c \<and> \<not> remoteIsTrustedProxy) then None
         else if truthy_string clientIp \<and> \<not> net_isLoopbackAddress (gw_lib env) clientIp then clientIp else None)"

text \<open>The log calls a connection from this machine under a foreign host name remote.\<close>

definition loggedAsRemote :: "gw_env \<Rightarrow> ws_connection \<Rightarrow> bool" where
  "loggedAsRemote env c \<longleftrightarrow>
     \<not> isLocalishHost (gw_lib env) (ws_requestHost c) \<and> net_isLoopbackAddress (gw_lib env) (ws_remoteAddr c) \<and> \<not> hasProxyHeadersOf c"

subsection \<open>The way of a connect request\<close>

datatype handshake_outcome =
    HsInvalidRole
  | HsOriginNotAllowed string
  | HsMissingDevice missing_device_decision
  | HsDeviceInvalid string
  | HsUnauthorized gateway_auth_result
  | HsAuthenticated gateway_role auth_method "string list" "device_identity option"

definition role_name :: "gateway_role \<Rightarrow> string" where
  "role_name r = (case r of Operator \<Rightarrow> ''operator'' | Node \<Rightarrow> ''node'')"

definition originGate :: "gw_env \<Rightarrow> gateway_config \<Rightarrow> ws_connection \<Rightarrow> connect_request \<Rightarrow> string option" where
  "originGate env cfg c q =
     (if hasBrowserOrigin (ws_requestOrigin c) \<or> isBrowserOperatorUiClient (cq_client q) \<or> isWebchatClient (cq_client q)
      then (case checkBrowserOrigin env \<lparr>requestHost = ws_requestHost c, origin = ws_requestOrigin c,
                   allowedOrigins = gwc_allowedOrigins cfg, allowHostHeaderOriginFallback = gwc_hostHeaderOriginFallback cfg\<rparr>
                 (isLocalClientOf env c) of
              Inl why \<Rightarrow> Some why | Inr _ \<Rightarrow> None)
      else None)"

definition localityOf :: "gw_env \<Rightarrow> ws_connection \<Rightarrow> connect_request \<Rightarrow> bool \<Rightarrow> auth_method \<Rightarrow> pairing_locality" where
  "localityOf env c q sharedAuthOk mth = resolvePairingLocality env
     \<lparr>lo_client = cq_client q, lo_isLocalClient = isLocalClientOf env c, lo_requestHost = ws_requestHost c,
      lo_requestOrigin = ws_requestOrigin c, lo_remoteAddress = ws_remoteAddr c, lo_hasProxyHeaders = hasProxyHeadersOf c,
      lo_hasBrowserOrigin = hasBrowserOrigin (ws_requestOrigin c), lo_sharedAuthOk = sharedAuthOk, lo_authMethod = mth\<rparr>"

definition skipsSelfPairing :: "gw_env \<Rightarrow> ws_connection \<Rightarrow> connect_request \<Rightarrow> bool \<Rightarrow> auth_method \<Rightarrow> bool" where
  "skipsSelfPairing env c q sharedAuthOk mth =
     shouldSkipLocalBackendSelfPairing (cq_client q) (localityOf env c q sharedAuthOk mth) (hasBrowserOrigin (ws_requestOrigin c)) sharedAuthOk mth"

definition preservesInsecureLocalScopes :: "gw_env \<Rightarrow> ws_connection \<Rightarrow> control_ui_policy \<Rightarrow> auth_method \<Rightarrow> bool" where
  "preservesInsecureLocalScopes env c policy mth \<longleftrightarrow>
     cp_isControlUi policy \<and> cp_allowInsecureAuthConfigured policy \<and> isLocalClientOf env c \<and> usesSharedSecretAuth mth"

text \<open>\<^verbatim>\<open>handleMissingDeviceIdentity\<close>: the decision, and the scopes that are left.\<close>

definition handleMissingDeviceIdentity :: "gw_env \<Rightarrow> gateway_config \<Rightarrow> ws_connection \<Rightarrow> connect_request \<Rightarrow> gateway_role
    \<Rightarrow> control_ui_policy \<Rightarrow> connect_auth_state \<Rightarrow> string list \<Rightarrow> missing_device_decision \<times> string list" where
  "handleMissingDeviceIdentity env cfg c q role policy st scopes =
     (let mth = cs_authMethod st;
          proxyOk = isTrustedProxyControlUiOperatorAuth (cp_isControlUi policy) role (ga_mode (gwc_auth cfg)) (cs_authOk st) mth;
          decision = evaluateMissingDeviceIdentity
            \<lparr>md_hasDeviceIdentity = (cp_device policy \<noteq> None), md_role = role, md_isControlUi = cp_isControlUi policy, md_policy = policy,
             md_trustedProxyAuthOk = proxyOk, md_sharedAuthOk = cs_sharedAuthOk st, md_authOk = cs_authOk st,
             md_hasSharedAuth = (truthy_string (Option.bind (cq_auth q) ha_token) \<or> truthy_string (Option.bind (cq_auth q) ha_password)),
             md_isLocalClient = isLocalClientOf env c\<rparr>;
          clears = (cp_device policy = None \<and> \<not> skipsSelfPairing env c q (cs_sharedAuthOk st) mth \<and>
                    shouldClearUnboundScopesForMissingDeviceIdentity decision policy (preservesInsecureLocalScopes env c policy mth) mth proxyOk)
      in (decision, if clears then [] else scopes))"

definition DEVICE_SIGNATURE_SKEW_MS :: int where "DEVICE_SIGNATURE_SKEW_MS = 2 * 60 * 1000"

definition checkDevice :: "device_crypto \<Rightarrow> int \<Rightarrow> string \<Rightarrow> device_identity \<Rightarrow> connect_request \<Rightarrow> string \<Rightarrow> string list \<Rightarrow> string option" where
  "checkDevice cr now connectNonce d q role scopes =
     (let derivedId = deriveDeviceIdFromPublicKey cr (dv_publicKey d); nonce = js_trim (coalesce (dv_nonce d) [])
      in if \<not> truthy_string derivedId \<or> derivedId \<noteq> Some (dv_id d) then Some ''device-id-mismatch''
         else case dv_signedAt d of
           None \<Rightarrow> Some ''device-signature-stale''
         | Some signedAt \<Rightarrow>
             if DEVICE_SIGNATURE_SKEW_MS < \<bar>now - signedAt\<bar> then Some ''device-signature-stale''
             else if nonce = [] then Some ''device-nonce-missing''
             else if nonce \<noteq> connectNonce then Some ''device-nonce-mismatch''
             else if resolveDeviceSignaturePayloadVersion cr d q role scopes signedAt nonce = None then Some ''device-signature''
             else if \<not> truthy_string (normalizeDevicePublicKeyBase64Url cr (dv_publicKey d)) then Some ''device-public-key''
             else None)"

record verifiers =
  vf_whois :: "string \<Rightarrow> whois_identity option"
  vf_bootstrap :: bootstrap_verifier
  vf_device :: device_verifier

definition handshakeEnv :: "gw_env \<Rightarrow> gateway_config \<Rightarrow> ws_connection \<Rightarrow> limiter option \<Rightarrow> handshake_env" where
  "handshakeEnv env cfg c lim =
     \<lparr>hs_auth = gwc_auth cfg, hs_req = ws_req c, hs_trustedProxies = trustedProxiesOf cfg,
      hs_allowRealIp = (gwc_allowRealIpFallback cfg = Some True), hs_limiter = lim,
      hs_clientIp = rateLimitClientIpFor env (ws_requestOrigin c) (clientIpOf env cfg c)\<rparr>"

text \<open>From the role to the decision on the credentials. The two waits are those for the tailscale daemon and for the store of
  device tokens; \<open>lim\<close> is the limiter \<^verbatim>\<open>authRateLimiterFor\<close> chose, \<open>m\<close> its map.\<close>

definition connectHandshake :: "gw_env \<Rightarrow> device_crypto \<Rightarrow> verifiers \<Rightarrow> nat \<Rightarrow> nat \<Rightarrow> int \<Rightarrow> limiter option \<Rightarrow> gateway_config
    \<Rightarrow> ws_connection \<Rightarrow> connect_request \<Rightarrow> rl_map \<Rightarrow> handshake_outcome \<times> rl_map" where
  "connectHandshake env cr vf wait1 wait2 now lim cfg c q m =
     (case parseGatewayRole (coalesce (cq_role q) ''operator'') of
        None \<Rightarrow> (HsInvalidRole, m)
      | Some role \<Rightarrow>
          (case originGate env cfg c q of
             Some why \<Rightarrow> (HsOriginNotAllowed why, m)
           | None \<Rightarrow>
               (let policy = resolveControlUiAuthPolicy (isOperatorUiClient (cq_client q)) (gwc_controlUi cfg) (cq_device q);
                    device = cp_device policy; h = handshakeEnv env cfg c lim; later = now + int wait1;
                    (st, m1) = resolveConnectAuthState env (vf_whois vf) wait1 now h (cq_auth q) (device \<noteq> None) m;
                    (decision, scopes) = handleMissingDeviceIdentity env cfg c q role policy st (coalesce (cq_scopes q) [])
                in if decision \<noteq> AllowMissing
                   then (if decision = RejectUnauthorized then (HsUnauthorized (cs_authResult st), m1) else (HsMissingDevice decision, m1))
                   else case Option.bind device (\<lambda>d. checkDevice cr later (ws_connectNonce c) d q (role_name role) scopes) of
                     Some why \<Rightarrow> (HsDeviceInvalid why, m1)
                   | None \<Rightarrow>
                       (case resolveConnectAuthDecision env (vf_bootstrap vf) (vf_device vf) lim wait2 later
                               (st\<lparr>cs_sharedAuthProvided :=
                                  (truthy_string (Option.bind (cq_auth q) ha_token) \<or> truthy_string (Option.bind (cq_auth q) ha_password))\<rparr>)
                               \<lparr>dr_deviceId = map_option dv_id device, dr_publicKey = map_option dv_publicKey device,
                                dr_role = role_name role, dr_scopes = scopes, dr_hasDevice = (device \<noteq> None), dr_clientIp = hs_clientIp h\<rparr> m1 of
                          ((result, ok, mth), m2) \<Rightarrow>
                            if ok then (HsAuthenticated role mth scopes device, m2) else (HsUnauthorized result, m2)))))"

subsection \<open>Who passes\<close>

text \<open>What the state of the credentials says in the handshake's own terms.\<close>

definition auth_state :: "gw_env \<Rightarrow> verifiers \<Rightarrow> nat \<Rightarrow> int \<Rightarrow> limiter option \<Rightarrow> gateway_config \<Rightarrow> ws_connection \<Rightarrow> connect_request
    \<Rightarrow> device_identity option \<Rightarrow> rl_map \<Rightarrow> connect_auth_state" where
  "auth_state env vf wait now lim cfg c q dev m =
     fst (resolveConnectAuthState env (vf_whois vf) wait now (handshakeEnv env cfg c lim) (cq_auth q) (dev \<noteq> None) m)"

lemma handshake_passes:
  assumes "connectHandshake env cr vf wait1 wait2 now lim cfg c q m = (HsAuthenticated role mth scopes dev, m2)"
  defines "policy \<equiv> resolveControlUiAuthPolicy (isOperatorUiClient (cq_client q)) (gwc_controlUi cfg) (cq_device q)"
  defines "st \<equiv> auth_state env vf wait1 now lim cfg c q dev m"
  shows "parseGatewayRole (coalesce (cq_role q) ''operator'') = Some role" and "originGate env cfg c q = None"
    and "dev = cp_device policy"
    and "handleMissingDeviceIdentity env cfg c q role policy st (coalesce (cq_scopes q) []) = (AllowMissing, scopes)"
    and "Option.bind dev (\<lambda>d. checkDevice cr (now + int wait1) (ws_connectNonce c) d q (role_name role) scopes) = None"
    and "\<exists>m1 res. resolveConnectAuthDecision env (vf_bootstrap vf) (vf_device vf) lim wait2 (now + int wait1)
           (st\<lparr>cs_sharedAuthProvided :=
               (truthy_string (Option.bind (cq_auth q) ha_token) \<or> truthy_string (Option.bind (cq_auth q) ha_password))\<rparr>)
           \<lparr>dr_deviceId = map_option dv_id dev, dr_publicKey = map_option dv_publicKey dev, dr_role = role_name role,
            dr_scopes = scopes, dr_hasDevice = (dev \<noteq> None), dr_clientIp = hs_clientIp (handshakeEnv env cfg c lim)\<rparr> m1 = ((res, True, mth), m2)"
  using assms(1) unfolding connectHandshake_def policy_def st_def auth_state_def Let_def
  by (auto split: option.splits prod.splits if_splits)

subsection \<open>Clients without a device identity\<close>

lemma core_methods:
  assumes "authorizeGatewayConnectCore env whois wait now p m = (r, m')"
  shows "gr_method r \<in> {None, Some MethodToken, Some MethodPassword, Some MethodTrustedProxy} \<or>
    (ga_mode (cp_auth p) = ModeNone \<and> gr_method r = Some MethodNone) \<or>
    (\<not> hasExplicitSharedSecretAuth (cp_connectAuth p) \<and> gr_method r = Some MethodTailscale)"
proof -
  have shapes: "gr_method (refused w) = None" "gr_method (rate_limited t) = None" "gr_method (granted mth u) = Some mth" for w t mth u
    by (simp_all add: refused_def rate_limited_def granted_def)
  have lim: "gr_method x = None" if "limiterCheck env t p m1 = (Some x, m2)" for t m1 x m2
    using that shapes by (auto simp: limiterCheck_def split: option.splits prod.splits if_splits)
  have tok: "gr_method (fst (authorizeTokenAuth env t p m1)) \<in> {None, Some MethodToken}" for t m1
    by (simp add: authorizeTokenAuth_def shapes)
  have pw: "gr_method (fst (authorizePasswordAuth env t p m1)) \<in> {None, Some MethodPassword}" for t m1
    by (simp add: authorizePasswordAuth_def shapes)
  have proxy: "gr_method (fst (authorizeByProxy env t p m1)) \<in> {None, Some MethodPassword, Some MethodTrustedProxy}" for t m1
  proof -
    have origin: "gr_method x = None" if "authorizeTrustedProxyBrowserOrigin env sf pol = Some x" for sf pol x
      using that shapes by (auto simp: authorizeTrustedProxyBrowserOrigin_def Let_def split: if_splits sum.splits)
    show ?thesis using pw [of t "snd (limiterCheck env t p m1)"] lim [of t m1]
      by (auto simp: authorizeByProxy_def shapes origin split: option.splits sum.splits prod.splits)
  qed
  have rest: "gr_method (fst (authCoreRest env t p m1)) \<in> {None, Some MethodToken, Some MethodPassword}" for t m1
    using tok [of t m1] pw [of t m1] by (cases "ga_mode (cp_auth p)") (auto simp: authCoreRest_def shapes)
  have fin: "gr_method (fst (authCoreFinish env t p user a m1)) \<in> {None, Some MethodToken, Some MethodPassword, Some MethodTailscale}" for t user a m1
    using rest [of t m1] by (auto simp: authCoreFinish_def shapes split: sum.splits)
  show ?thesis
  proof (cases "authCoreStart env now p m")
    case (Pair x m1)
    show ?thesis
    proof (cases x)
      case (Inl r')
      then have "r' = r" using assms Pair by (simp add: authorizeGatewayConnectCore_def)
      have "gr_method r' \<in> {None, Some MethodToken, Some MethodPassword, Some MethodTrustedProxy} \<or>
          ga_mode (cp_auth p) = ModeNone \<and> gr_method r' = Some MethodNone"
      proof (cases "ga_mode (cp_auth p) = ModeTrustedProxy \<or> ga_mode (cp_auth p) = ModeNone")
        case True
        then show ?thesis using Pair Inl proxy [of now m] by (auto simp: authCoreStart_def shapes case_prod_beta)
      next
        case False
        obtain l m0 where l: "limiterCheck env now p m = (l, m0)" by fastforce
        show ?thesis
        proof (cases l)
          case None
          have "r' = fst (authCoreRest env now p m0)"
            using Pair Inl False l None by (auto simp: authCoreStart_def case_prod_beta split: sum.splits)
          then show ?thesis using rest [of now m0] by auto
        next
          case (Some y)
          then have "r' = y" using Pair Inl False l by (simp add: authCoreStart_def)
          then show ?thesis using lim l Some by simp
        qed
      qed
      then show ?thesis using \<open>r' = r\<close> by blast
    next
      case (Inr q)
      have "asksTailscale env p"
        using Pair Inr by (auto simp: authCoreStart_def case_prod_beta split: if_splits option.splits sum.splits)
      moreover have "r = fst (authCoreFinish env (now + int wait) p (snd q) (whois (fst q)) m1)"
        using assms Pair Inr by (simp add: authorizeGatewayConnectCore_def case_prod_beta)
      ultimately show ?thesis using fin [of "now + int wait" "snd q" "whois (fst q)" m1] by (auto simp: asksTailscale_def)
    qed
  qed
qed

lemma shared_explicit: "resolveSharedConnectAuth a \<noteq> None \<Longrightarrow> hasExplicitSharedSecretAuth (resolveSharedConnectAuth a)"
  by (auto simp: resolveSharedConnectAuth_def hasExplicitSharedSecretAuth_def normalizeOptionalString_def normalizeNullableString_def
      Let_def split: option.splits if_splits)

lemma resolveConnectAuthState_facts:
  fixes env whois wait now h a hasDev m
  defines "st \<equiv> fst (resolveConnectAuthState env whois wait now h a hasDev m)"
  defines "prim \<equiv> fst (authorizeWsControlUiGatewayConnect env whois wait now (primary_params h (resolveSharedConnectAuth a)) m)"
  shows "cs_authResult st = prim" and "cs_authOk st = gr_ok prim"
    and "cs_authMethod st = coalesce (gr_method prim) (if ga_mode (hs_auth h) = ModePassword then MethodPassword else MethodToken)"
    and "cs_sharedAuthOk st \<Longrightarrow> gr_ok prim \<and> gr_method prim = Some MethodTrustedProxy \<or>
      resolveSharedConnectAuth a \<noteq> None \<and> ga_mode (hs_auth h) \<noteq> ModeNone"
proof -
  show "cs_authResult st = prim" "cs_authOk st = gr_ok prim"
    "cs_authMethod st = coalesce (gr_method prim) (if ga_mode (hs_auth h) = ModePassword then MethodPassword else MethodToken)"
    by (simp_all add: st_def prim_def resolveConnectAuthState_def case_prod_beta Let_def)
  have none: "gr_method (fst (authorizeHttpGatewayConnect env whois w t (probe_params h sh) m')) = Some MethodNone"
    if "ga_mode (hs_auth h) = ModeNone" for w t sh m'
    using that by (simp add: authorizeHttpGatewayConnect_def authorizeGatewayConnectCore_def authCoreStart_def probe_params_def granted_def)
  show "gr_ok prim \<and> gr_method prim = Some MethodTrustedProxy \<or> resolveSharedConnectAuth a \<noteq> None \<and> ga_mode (hs_auth h) \<noteq> ModeNone"
    if "cs_sharedAuthOk st"
    using that none by (auto simp: st_def prim_def resolveConnectAuthState_def case_prod_beta Let_def split: option.splits if_splits)
qed

lemma shared_auth_method:
  fixes env whois wait now h a hasDev m
  defines "st \<equiv> fst (resolveConnectAuthState env whois wait now h a hasDev m)"
  assumes "cs_sharedAuthOk st"
  shows "cs_authMethod st \<in> {MethodToken, MethodPassword, MethodTrustedProxy}"
proof -
  let ?p = "(primary_params h (resolveSharedConnectAuth a))\<lparr>cp_surface := Some SurfaceWsControlUi\<rparr>"
  obtain r m' where r: "authorizeGatewayConnectCore env whois wait now ?p m = (r, m')" by fastforce
  note facts = resolveConnectAuthState_facts [of env whois wait now h a hasDev m, folded st_def]
  have prim: "fst (authorizeWsControlUiGatewayConnect env whois wait now (primary_params h (resolveSharedConnectAuth a)) m) = r"
    using r by (simp add: authorizeWsControlUiGatewayConnect_def)
  have p: "cp_connectAuth ?p = resolveSharedConnectAuth a" "ga_mode (cp_auth ?p) = ga_mode (hs_auth h)"
    by (simp_all add: primary_params_def)
  have "gr_method r \<in> {None, Some MethodToken, Some MethodPassword, Some MethodTrustedProxy}"
    using core_methods [OF r] facts(4) assms(2) shared_explicit unfolding prim p by blast
  then show ?thesis unfolding facts(3) prim by (auto split: if_splits)
qed

definition break_glass :: "gateway_config \<Rightarrow> connect_request \<Rightarrow> bool" where
  "break_glass cfg q \<longleftrightarrow>
     isOperatorUiClient (cq_client q) \<and> Option.bind (gwc_controlUi cfg) cu_dangerouslyDisableDeviceAuth = Some True"

definition insecure_local_page :: "gw_env \<Rightarrow> gateway_config \<Rightarrow> ws_connection \<Rightarrow> connect_request \<Rightarrow> auth_method \<Rightarrow> bool" where
  "insecure_local_page env cfg c q mth \<longleftrightarrow>
     isOperatorUiClient (cq_client q) \<and> Option.bind (gwc_controlUi cfg) cu_allowInsecureAuth = Some True \<and>
     isLocalClientOf env c \<and> usesSharedSecretAuth mth"

definition local_backend :: "gw_env \<Rightarrow> ws_connection \<Rightarrow> connect_request \<Rightarrow> bool" where
  "local_backend env c q \<longleftrightarrow>
     ci_id (cq_client q) = ''gateway-client'' \<and> ci_mode (cq_client q) = ''backend'' \<and> \<not> hasBrowserOrigin (ws_requestOrigin c) \<and>
     (isLocalClientOf env c \<or> net_isLoopbackAddress (gw_lib env) (ws_remoteAddr c))"

lemma skipsSelfPairing_local: "skipsSelfPairing env c q ok mth \<Longrightarrow> local_backend env c q"
  by (auto simp: skipsSelfPairing_def shouldSkipLocalBackendSelfPairing_def localityOf_def resolvePairingLocality_def local_backend_def
      isSharedSecretLoopbackLocalEquivalent_def split: if_splits)

lemma no_device_decision:
  "resolveConnectAuthDecision env vb vd lim wait now st
     \<lparr>dr_deviceId = i, dr_publicKey = k, dr_role = r, dr_scopes = sc, dr_hasDevice = False, dr_clientIp = ip\<rparr> m =
   ((cs_authResult st, cs_authOk st, cs_authMethod st), m)"
  by (simp add: resolveConnectAuthDecision_def bootstrapDecision_def deviceTokenDue_def)

text \<open>C20: A client without a device identity passes only as an operator whose own credentials were granted, and it keeps no scope
  it claimed, save in three cases: the settings switched device identities off for the control page, the control page is open
  on this machine with insecure sign-in allowed and the secret shown, or the client is the gateway's own backend on this machine.\<close>

theorem without_device_identity:
  assumes "connectHandshake env cr vf wait1 wait2 now lim cfg c q m = (HsAuthenticated role mth scopes None, m2)"
  shows "role = Operator \<and>
    gr_ok (fst (authorizeWsControlUiGatewayConnect env (vf_whois vf) wait1 now
      (primary_params (handshakeEnv env cfg c lim) (resolveSharedConnectAuth (cq_auth q))) m)) \<and>
    (scopes = [] \<or> break_glass cfg q \<or> insecure_local_page env cfg c q mth \<or> local_backend env c q)"
proof -
  let ?policy = "resolveControlUiAuthPolicy (isOperatorUiClient (cq_client q)) (gwc_controlUi cfg) (cq_device q)"
  let ?st = "auth_state env vf wait1 now lim cfg c q None m"
  note passes = handshake_passes [OF assms]
  note facts = resolveConnectAuthState_facts [of env "vf_whois vf" wait1 now "handshakeEnv env cfg c lim" "cq_auth q" False m]
  have st: "?st = fst (resolveConnectAuthState env (vf_whois vf) wait1 now (handshakeEnv env cfg c lim) (cq_auth q) False m)"
    by (simp add: auth_state_def)
  have ok: "cs_authOk ?st" and mth: "cs_authMethod ?st = mth" using passes(6) by (auto simp: no_device_decision)
  have none: "cp_device ?policy = None" using passes(3) by simp
  let ?proxy = "isTrustedProxyControlUiOperatorAuth (cp_isControlUi ?policy) role (ga_mode (gwc_auth cfg)) True mth"
  have ui: "cp_isControlUi ?policy = isOperatorUiClient (cq_client q)" by (simp add: resolveControlUiAuthPolicy_def Let_def)
  have gate: "role = Operator \<and> (?proxy \<or> cp_allowBypass ?policy \<or> cs_sharedAuthOk ?st)"
    using passes(4) none ok mth
    by (auto simp: handleMissingDeviceIdentity_def evaluateMissingDeviceIdentity_def roleCanSkipDeviceIdentity_def
        isTrustedProxyControlUiOperatorAuth_def Let_def split: if_splits)
  moreover have "scopes = [] \<or> skipsSelfPairing env c q (cs_sharedAuthOk ?st) mth \<or> cp_allowBypass ?policy \<or>
      preservesInsecureLocalScopes env c ?policy mth \<or> mth \<notin> {MethodToken, MethodPassword, MethodTrustedProxy} \<and> \<not> ?proxy"
    using passes(4) none ok mth
    by (auto simp: handleMissingDeviceIdentity_def shouldClearUnboundScopesForMissingDeviceIdentity_def Let_def split: if_splits)
  moreover have "cs_sharedAuthOk ?st \<Longrightarrow> mth \<in> {MethodToken, MethodPassword, MethodTrustedProxy}"
    using shared_auth_method [of env "vf_whois vf" wait1 now "handshakeEnv env cfg c lim" "cq_auth q" False m] mth st by simp
  moreover have "cp_allowBypass ?policy \<longleftrightarrow> break_glass cfg q"
    by (simp add: resolveControlUiAuthPolicy_def break_glass_def Let_def)
  moreover have "preservesInsecureLocalScopes env c ?policy mth \<Longrightarrow> insecure_local_page env cfg c q mth"
    by (auto simp: preservesInsecureLocalScopes_def insecure_local_page_def resolveControlUiAuthPolicy_def Let_def)
  ultimately show ?thesis using ok facts(2) st skipsSelfPairing_local by auto
qed

lemma bootstrapDecision_ok:
  "fst (snd (bootstrapDecision vb st rq)) \<Longrightarrow>
   cs_authOk st \<or> (\<exists>t. fst (vb (the (dr_deviceId rq)) (the (dr_publicKey rq)) t (dr_role rq) (dr_scopes rq)))"
  unfolding bootstrapDecision_def Let_def
  by (cases "vb (the (dr_deviceId rq)) (the (dr_publicKey rq)) (the (cs_bootstrapToken st)) (dr_role rq) (dr_scopes rq)")
    (auto split: if_splits bool.splits simp: fst_eqD [of _ _ True] intro: exI [where x = "the (cs_bootstrapToken st)"])

lemma deviceTokenFinish_ok: "fst (snd (fst (deviceTokenFinish env lim now st rq d verified m))) \<longleftrightarrow> verified \<or> fst (snd d)"
  by (simp add: deviceTokenFinish_def Let_def)

lemma decision_ok:
  assumes "resolveConnectAuthDecision env vb vd lim wait now st rq m = ((res, True, mth), m2)"
  shows "cs_authOk st \<or> (\<exists>t. fst (vb (the (dr_deviceId rq)) (the (dr_publicKey rq)) t (dr_role rq) (dr_scopes rq))) \<or>
    (\<exists>t. vd (the (dr_deviceId rq)) t (dr_role rq) (dr_scopes rq))"
proof -
  let ?d = "bootstrapDecision vb st rq"
  have "fst (snd ?d) \<or> (\<exists>t. vd (the (dr_deviceId rq)) t (dr_role rq) (dr_scopes rq))"
  proof (cases "deviceTokenDue st rq ?d")
    case False
    then show ?thesis using assms by (simp add: resolveConnectAuthDecision_def)
  next
    case True
    obtain l m1 where chk: "deviceTokenCheck env lim now rq m = (l, m1)" by fastforce
    show ?thesis
    proof (cases l)
      case (Some r)
      then show ?thesis using assms True chk by (simp add: resolveConnectAuthDecision_def)
    next
      case None
      then have "fst (deviceTokenFinish env lim (now + int wait) st rq ?d
          (vd (the (dr_deviceId rq)) (the (cs_deviceToken st)) (dr_role rq) (dr_scopes rq)) m1) = (res, True, mth)"
        using assms True chk by (simp add: resolveConnectAuthDecision_def Let_def)
      then show ?thesis using deviceTokenFinish_ok [of env lim "now + int wait" st rq ?d _ m1] by (metis fst_conv snd_conv)
    qed
  qed
  then show ?thesis using bootstrapDecision_ok by blast
qed

text \<open>C21: A client with a device identity passes only if the device signed, within two minutes, for this very connection, the role it
  gets, the scopes it gets and its own name, with the key the name is derived from; and it shows a credential: one the gateway's
  settings grant, or a bootstrap or device token that the stores accept for this device, role and scopes.\<close>

theorem with_device_identity:
  assumes "connectHandshake env cr vf wait1 wait2 now lim cfg c q m = (HsAuthenticated role mth scopes (Some d), m2)"
  shows "deriveDeviceIdFromPublicKey cr (dv_publicKey d) = Some (dv_id d) \<and>
    (\<exists>signedAt payload. dv_signedAt d = Some signedAt \<and> \<bar>now + int wait1 - signedAt\<bar> \<le> DEVICE_SIGNATURE_SKEW_MS \<and>
       payload = signedPayload d q (role_name role) scopes signedAt (ws_connectNonce c) \<and>
       (verifyDeviceSignature cr (dv_publicKey d) (buildDeviceAuthPayload payload) (dv_signature d) \<or>
        verifyDeviceSignature cr (dv_publicKey d)
          (buildDeviceAuthPayloadV3 payload (ci_platform (cq_client q)) (ci_deviceFamily (cq_client q))) (dv_signature d))) \<and>
    (gr_ok (fst (authorizeWsControlUiGatewayConnect env (vf_whois vf) wait1 now
        (primary_params (handshakeEnv env cfg c lim) (resolveSharedConnectAuth (cq_auth q))) m)) \<or>
     (\<exists>t. fst (vf_bootstrap vf (dv_id d) (dv_publicKey d) t (role_name role) scopes)) \<or>
     (\<exists>t. vf_device vf (dv_id d) t (role_name role) scopes))"
proof -
  note passes = handshake_passes [OF assms]
  let ?st = "auth_state env vf wait1 now lim cfg c q (Some d) m"
  have device: "checkDevice cr (now + int wait1) (ws_connectNonce c) d q (role_name role) scopes = None" using passes(5) by simp
  have "cs_authOk ?st \<or> (\<exists>t. fst (vf_bootstrap vf (dv_id d) (dv_publicKey d) t (role_name role) scopes)) \<or>
     (\<exists>t. vf_device vf (dv_id d) t (role_name role) scopes)"
    using passes(6) by (auto dest!: decision_ok)
  moreover have "cs_authOk ?st = gr_ok (fst (authorizeWsControlUiGatewayConnect env (vf_whois vf) wait1 now
        (primary_params (handshakeEnv env cfg c lim) (resolveSharedConnectAuth (cq_auth q))) m))"
    unfolding auth_state_def by (rule resolveConnectAuthState_facts)
  ultimately show ?thesis
    using device
    by (auto simp: checkDevice_def resolveDeviceSignaturePayloadVersion_def Let_def split: option.splits if_splits)
qed

subsection \<open>Examples\<close>

definition home_config :: gateway_config where
  "home_config =
     \<lparr>gwc_auth = cp_auth token_login, gwc_trustedProxies = None, gwc_allowRealIpFallback = None, gwc_controlUi = None,
      gwc_allowedOrigins = None, gwc_hostHeaderOriginFallback = None\<rparr>"

definition far_connection :: ws_connection where
  "far_connection =
     \<lparr>ws_req = \<lparr>remoteAddress = Some ''203.0.113.7'', headers = []\<rparr>, ws_remoteAddr = Some ''203.0.113.7'', ws_forwardedFor = None,
      ws_realIp = None, ws_requestHost = Some ''gw'', ws_requestOrigin = None, ws_connectNonce = ''n1''\<rparr>"

definition cli_request :: connect_request where
  "cli_request =
     \<lparr>cq_client = \<lparr>ci_id = ''cli'', ci_mode = ''cli'', ci_platform = None, ci_deviceFamily = None\<rparr>, cq_role = None,
      cq_scopes = Some [''operator.admin''],
      cq_auth = Some \<lparr>ha_token = Some ''secret'', ha_bootstrapToken = None, ha_deviceToken = None, ha_password = None\<rparr>, cq_device = None\<rparr>"

definition device_request :: connect_request where
  "device_request = cli_request\<lparr>cq_device :=
     Some \<lparr>dv_id = ''d1'', dv_publicKey = ''k1'', dv_signature = ''s1'', dv_signedAt = Some 0, dv_nonce = Some ''n1''\<rparr>\<rparr>"

definition one_device :: device_crypto where
  "one_device =
     \<lparr>deriveDeviceIdFromPublicKey = (\<lambda>k. if k = ''k1'' then Some ''d1'' else None),
      verifyDeviceSignature = (\<lambda>k payload sig. k = ''k1'' \<and> sig = ''s1''), normalizeDevicePublicKeyBase64Url = Some\<rparr>"

definition no_tokens :: verifiers where
  "no_tokens = \<lparr>vf_whois = (\<lambda>_. None), vf_bootstrap = (\<lambda>_ _ _ _ _. (False, None)), vf_device = (\<lambda>_ _ _ _. False)\<rparr>"

theorem without_device_identity_witness:
  "gr_ok (fst (authorizeWsControlUiGatewayConnect example_gateway (vf_whois no_tokens) 0 0
     (primary_params (handshakeEnv example_gateway home_config far_connection None) (resolveSharedConnectAuth (cq_auth cli_request))) []))"
proof -
  have "connectHandshake example_gateway one_device no_tokens 0 0 0 None home_config far_connection cli_request [] =
      (HsAuthenticated Operator MethodToken [] None, [])" by code_simp
  then show ?thesis using without_device_identity by blast
qed

theorem with_device_identity_witness:
  "deriveDeviceIdFromPublicKey one_device ''k1'' = Some ''d1''"
proof -
  let ?d = "\<lparr>dv_id = ''d1'', dv_publicKey = ''k1'', dv_signature = ''s1'', dv_signedAt = Some 0, dv_nonce = Some ''n1''\<rparr>"
  have "connectHandshake example_gateway one_device no_tokens 0 0 0 None home_config far_connection device_request [] =
      (HsAuthenticated Operator MethodToken [''operator.admin''] (Some ?d), [])" by code_simp
  then show ?thesis using with_device_identity by fastforce
qed

text \<open>The connection from this machine under a foreign host name is logged as remote and treated as local.\<close>

lemma local_though_logged_remote:
  "loggedAsRemote example_gateway (far_connection\<lparr>ws_req := \<lparr>remoteAddress = Some ''127.0.0.1'', headers = []\<rparr>,
     ws_remoteAddr := Some ''127.0.0.1'', ws_requestHost := Some ''evil.example''\<rparr>)"
  "isLocalClientOf example_gateway (far_connection\<lparr>ws_req := \<lparr>remoteAddress = Some ''127.0.0.1'', headers = []\<rparr>,
     ws_remoteAddr := Some ''127.0.0.1'', ws_requestHost := Some ''evil.example''\<rparr>)"
  by code_simp+

text \<open>Guesses of device tokens are not taken in turn: two that are checked before either fails are both compared, where the
  settings allow one.\<close>

definition device_guess :: decision_request where
  "device_guess = \<lparr>dr_deviceId = Some ''d1'', dr_publicKey = Some ''k1'', dr_role = ''operator'', dr_scopes = [], dr_hasDevice = True,
     dr_clientIp = Some ''203.0.113.7''\<rparr>"

lemma device_guesses_side_by_side:
  fixes st d
  defines "cfg \<equiv> \<lparr>maxAttempts = 1, windowMs = 60000, lockoutMs = 300000, exemptLoopback = True, pruneIntervalMs = 60000\<rparr>"
  shows "deviceTokenCheck example_gateway (Some cfg) 1 device_guess (snd (deviceTokenCheck example_gateway (Some cfg) 0 device_guess [])) = (None, [])"
    and "fst (deviceTokenCheck example_gateway (Some cfg) 2 device_guess
           (snd (deviceTokenFinish example_gateway (Some cfg) 1 st device_guess d False
              (snd (deviceTokenCheck example_gateway (Some cfg) 0 device_guess []))))) \<noteq> None"
proof -
  let ?env = "gateway_net_env (gw_lib example_gateway)"
  have "normalizeScope (Some AUTH_RATE_LIMIT_SCOPE_DEVICE_TOKEN) = ''device-token''" by code_simp
  moreover have "normalizeRateLimitClientIp ?env (Some ''203.0.113.7'') = ''203.0.113.7''" by code_simp
  ultimately have key: "resolveKey ?env (dr_clientIp device_guess) (Some AUTH_RATE_LIMIT_SCOPE_DEVICE_TOKEN) =
      (''device-token:203.0.113.7'', ''203.0.113.7'')"
    by (simp add: resolveKey_def device_guess_def Let_def)
  note simps = deviceTokenCheck_def deviceTokenFinish_def check_def recordFailure_def key example_address_counts isLocked_def
    slideWindow_def cfg_def Let_def
  show "deviceTokenCheck example_gateway (Some cfg) 1 device_guess (snd (deviceTokenCheck example_gateway (Some cfg) 0 device_guess [])) = (None, [])"
    by (simp add: simps)
  show "fst (deviceTokenCheck example_gateway (Some cfg) 2 device_guess
           (snd (deviceTokenFinish example_gateway (Some cfg) 1 st device_guess d False
              (snd (deviceTokenCheck example_gateway (Some cfg) 0 device_guess []))))) \<noteq> None"
    by (simp add: simps)
qed

end
