(* ===== verification/Spec2Isabelle.thy ===== *)
theory Spec2Isabelle
  imports JsPrelude JsJson AuthRateLimit CommandQueue ToolPolicies AnonymizerClient StreamRestorer PrivacyHooks StringCoerce ApprovalManager DedupeCache AuthCredentials AuthUsage AuthBackoff AuthOrder QueueHelpers FollowupQueue FollowupFifo
    JsText SessionKeys RouteBindings ResolveRoute RouteCache SendPolicy FormEncoding OAuthClient
    JsNumber ZodSchema Bitrix24 Credentials OneC PlaceholderRender WebChat DmPolicy GlobPattern AgentTools ToolPipeline GroupPolicy SubagentRoles ToolScopes
    PairingStore PairingSafety PairingAccess
    IpAddress GatewayNet GatewayAuth GatewaySafety AuthSerial GatewayMethods ConnectPolicy Handshake
begin

text \<open>
  \<^bold>\<open>Brikko Studio\<close>: a self-hosted assistant. Messages of chat networks and of a web page reach a core process
  (\<^verbatim>\<open>packages/core\<close>), which decides who may talk to it, which agent answers and in which session, queues the work and
  calls model providers with stored credentials. A privacy plugin (\<^verbatim>\<open>packages/privacy-plugin\<close>) replaces personal data by
  placeholders before a text leaves the machine and puts the originals back into answers. Tool servers
  (\<^verbatim>\<open>packages/skills-bitrix24\<close>, \<^verbatim>\<open>packages/skills-1c\<close>) work on business systems, \<^verbatim>\<open>packages/oauth-client\<close> signs in at the
  model gateway, and \<^verbatim>\<open>packages/web-ui\<close> is the chat page. The development models the logic of these parts; paths below are
  under \<^verbatim>\<open>src/packages/core/src/\<close> unless another package is named.

  \<^bold>\<open>The library underneath.\<close>
    \<^item> \<open>JsPrelude\<close>: trimming, case folding, insertion-ordered maps, optional values; the interfaces shared by the
      components (see below). \<open>JsText\<close>: split, join, occurrences. \<open>JsJson\<close>: JSON values, their text and the parser.
      \<open>JsNumber\<close>: reading numbers. \<open>FormEncoding\<close>: percent encoding. \<open>StringCoerce\<close>: \<^verbatim>\<open>shared/string-coerce.ts\<close>.

  \<^bold>\<open>Privacy.\<close>
    \<^item> \<open>ToolPolicies\<close> (\<^verbatim>\<open>privacy-plugin/src/tool-policies.ts\<close>): the policy of a tool is that of the most specific pattern.
    \<^item> \<open>AnonymizerClient\<close> (\<^verbatim>\<open>anonymizer-client.ts\<close>, \<^verbatim>\<open>config.ts\<close>): the HTTP client of the masking sidecar with its retries.
    \<^item> \<open>StreamRestorer\<close> (\<^verbatim>\<open>stream-restorer.ts\<close>): the carry buffer, request lines and response reader of a streamed answer;
      no placeholder is ever cut in two.
    \<^item> \<open>PrivacyHooks\<close> (\<^verbatim>\<open>hooks/\<close>, \<^verbatim>\<open>re-mask.ts\<close>, \<^verbatim>\<open>memory-mask.ts\<close>): what reaches the model, the memory and a tool is masked
      unless the policy says otherwise.
    \<^item> \<open>PlaceholderRender\<close>, \<open>WebChat\<close> (\<^verbatim>\<open>web-ui/src/chat\<close>): showing answers and the state machine of the page.

  \<^bold>\<open>Who is answered, by whom, where.\<close>
    \<^item> \<open>DmPolicy\<close> (\<^verbatim>\<open>security/dm-policy-shared.ts\<close> and the helpers it calls): access of direct messages and groups.
    \<^item> \<open>PairingStore\<close>, \<open>PairingSafety\<close>, \<open>PairingAccess\<close> (\<^verbatim>\<open>pairing/\<close>): strangers get a code, the owner approves it. The ledger of issued
      and approved codes, the hour a code is good for, who gets on an allow list, and its read cache.
    \<^item> \<open>SessionKeys\<close> (\<^verbatim>\<open>routing/session-key.ts\<close>, \<^verbatim>\<open>routing/account-id.ts\<close>, \<^verbatim>\<open>sessions/session-key-utils.ts\<close>): keys and ids.
    \<^item> \<open>RouteBindings\<close>, \<open>ResolveRoute\<close>, \<open>RouteCache\<close> (\<^verbatim>\<open>routing/\<close>): bindings, the indexed tiers against a plain scan, and the
      caches, which change no answer.
    \<^item> \<open>SendPolicy\<close> (\<^verbatim>\<open>sessions/send-policy.ts\<close>): whether a session may be sent to.
    \<^item> \<open>DedupeCache\<close> (\<^verbatim>\<open>infra/dedupe.ts\<close>): messages delivered twice.

  \<^bold>\<open>Which tools an agent has.\<close>
    \<^item> \<open>GlobPattern\<close>, \<open>AgentTools\<close>, \<open>ToolPipeline\<close> (\<^verbatim>\<open>agents/glob-pattern.ts\<close>, \<^verbatim>\<open>tool-catalog.ts\<close>, \<^verbatim>\<open>tool-policy*.ts\<close>): names, groups and
      patterns, the catalogue, one policy, and the pipeline of policies against a declarative reading of what each entry names.
    \<^item> \<open>GroupPolicy\<close> (\<^verbatim>\<open>config/group-policy.ts\<close>): groups, mentions and tool rules by sender. \<open>SubagentRoles\<close>
      (\<^verbatim>\<open>agents/subagent-depth.ts\<close>, \<^verbatim>\<open>subagent-capabilities.ts\<close>): depth and role of a session, on session stores that may be
      cyclic. \<open>ToolScopes\<close> (\<^verbatim>\<open>agents/pi-tools.policy.ts\<close>, \<^verbatim>\<open>agents/sandbox/tool-policy.ts\<close>): the policies that feed the pipeline.
      The table of aliases is an object literal, so a configured \<^verbatim>\<open>constructor\<close> finds a member every object inherits; such a value
      is told apart from a text (\<open>js_name\<close>) all the way through the lists of a policy.

  \<^bold>\<open>Signing in at the gateway.\<close>
    \<^item> \<open>IpAddress\<close> (\<^verbatim>\<open>shared/net/ip.ts\<close>), \<open>GatewayNet\<close> (\<^verbatim>\<open>gateway/net.ts\<close>): classes of addresses, the address of a client behind
      proxies, hosts, the addresses the gateway listens on. The package \<^verbatim>\<open>ipaddr.js\<close> is a record of functions.
    \<^item> \<open>AuthRateLimit\<close> (\<^verbatim>\<open>gateway/auth-rate-limit.ts\<close>): failed attempts and the lock they lead to.
    \<^item> \<open>GatewayAuth\<close>, \<open>GatewaySafety\<close> (\<^verbatim>\<open>gateway/auth.ts\<close>, \<^verbatim>\<open>gateway/origin-check.ts\<close>, \<^verbatim>\<open>security/secret-equal.ts\<close>): who is let in, by
      token, password, tailscale or a trusted proxy; the decision as a closed equivalence, and what guessing leads to.
    \<^item> \<open>AuthSerial\<close> (\<^verbatim>\<open>gateway/rate-limit-attempt-serialization.ts\<close>): attempts of one address one at a time, as steps in any order.
    \<^item> \<open>GatewayMethods\<close> (\<^verbatim>\<open>gateway/method-scopes.ts\<close>, \<^verbatim>\<open>role-policy.ts\<close>, \<^verbatim>\<open>shared/operator-scope-compat.ts\<close>,
      \<^verbatim>\<open>gateway/control-plane-rate-limit.ts\<close>, the dispatch of \<^verbatim>\<open>gateway/server-methods.ts\<close>): what a client that is in may call.
    \<^item> \<open>ConnectPolicy\<close>, \<open>Handshake\<close> (\<^verbatim>\<open>gateway/server/ws-connection/\<close>, \<^verbatim>\<open>gateway/device-auth.ts\<close>): the handshake of a connection
      from the role a client claims to the decision on its credentials, with and without a device identity.

  \<^bold>\<open>Work in the core.\<close>
    \<^item> \<open>CommandQueue\<close> (\<^verbatim>\<open>process/command-queue.ts\<close>): lanes, promises, resets and waiters.
    \<^item> \<open>QueueHelpers\<close>, \<open>FollowupQueue\<close>, \<open>FollowupFifo\<close> (\<^verbatim>\<open>utils/queue-helpers.ts\<close>, \<^verbatim>\<open>auto-reply/reply/queue/\<close>): messages that
      arrive during a run, their drain, and the order in which it answers them.
    \<^item> \<open>ApprovalManager\<close> (\<^verbatim>\<open>gateway/exec-approval-manager.ts\<close>): questions to the user before a command runs.
    \<^item> \<open>AuthCredentials\<close>, \<open>AuthUsage\<close>, \<open>AuthBackoff\<close>, \<open>AuthOrder\<close> (\<^verbatim>\<open>agents/auth-profiles/\<close>): credentials, cooldowns and the order
      in which profiles are tried.

  \<^bold>\<open>Outside systems.\<close>
    \<^item> \<open>OAuthClient\<close> (\<^verbatim>\<open>oauth-client/src\<close>): PKCE, the login URL, the callback. \<open>Credentials\<close>: secrets in the keychain.
    \<^item> \<open>ZodSchema\<close>, \<open>Bitrix24\<close>, \<open>OneC\<close> (\<^verbatim>\<open>skills-bitrix24/src\<close>, \<^verbatim>\<open>skills-1c/src\<close>): schemas, clients and tools.

  \<^bold>\<open>How code becomes definitions.\<close> A module with state is a record, each of its operations a function to the new state,
  and a theory that speaks about histories folds a step function over a list of calls, so that timers, answers of the network
  and other turns of the event loop are calls like any other, in any order. Asynchronous functions are split where they wait.
  Promises are numbers with a log of settlements. Maps of the code are association lists in insertion order (\<open>js_map\<close>).
  Exceptions are the left side of a sum or \<open>None\<close>. What the code takes from elsewhere (the network, random bytes, hashes, the
  system keychain, the schema library, address and URL parsing, signatures, collation) is an argument; a theorem that needs more of it than its
  type says so in a hypothesis or through a locale.

  \<^bold>\<open>Interfaces.\<close> \<open>keyed_store\<close> (lookup, update, delete; interpreted on \<open>js_map\<close>), \<open>memo_table\<close> (a bounded cache that may
  forget but not lie; interpreted on the id caches and both route caches), \<open>guarded_system\<close> and \<open>growing_system\<close> (an invariant
  over calls, and a log that only grows; interpreted on the rate limiter, the attempts to sign in, the pairing store, the web page,
  the command queue, the approvals), \<open>permitted_system\<close> (calls under a permission; interpreted on the route caches and on the
  followup queues with the messages they accepted), \<open>masking_client\<close> (what the hooks expect of the sidecar; interpreted on the
  HTTP client), \<open>keychain\<close> (interpreted on the in-memory backend), \<open>entry_normaliser\<close> (an idempotent normaliser of entries, which
  only the read cache of the allow lists needs; interpreted on channels without a normaliser and on one that folds case; who gets
  on an allow list is shown for every normaliser, prefix strippers included), \<open>schema_laws\<close> (what the servers expect of zod; interpreted on a parser that follows its documentation).

  \<^bold>\<open>Bounds and approximations.\<close> A character stands for a UTF-16 code unit below 256. Times are integers where the code only
  adds and compares them, rationals in the cooldowns, where configured hours are multiplied; numerals are read exactly, without
  the rounding to a binary fraction. The JSON parser recurses with fuel, the length of the text plus one: every level consumes a
  character, so a text that parses at all parses with it (\<open>JsJson\<close> proves that printed values come back). Loops of the code are
  structural recursion or \<open>function\<close> with a measure; none is cut off. The configuration object of \<open>RouteCache\<close> is an address
  into a heap, because the code compares it by identity.

  \<^bold>\<open>Not modelled.\<close> The agent run loop, the serving of the gateway (frames, the pairing of devices after the handshake, the
  handlers of most methods), channel plugins and the plugin loader are sequences of calls into third-party SDKs around the
  decisions modelled here; configuration loading is declarative and largely generated; command
  line, terminal and browser interfaces are presentation, except the chat page; file locks and databases are reduced to atomic
  steps or arguments; logging has no effect on results. The masking sidecar is a separate Python service, present through its
  answers. The manifest lists these parts one by one.
\<close>

end
